(* ===== verification/Prelude.thy ===== *)
theory Prelude
  imports Main "HOL-Library.Word" "HOL-Library.Signed_Division"
begin

unbundle bit_operations_syntax

text \<open>
  The prelude of the development: the names of the machine types, operations that may throw (a
  state transformer whose result is a sum, the state being kept on a throw, as a C++ object is),
  runs of such operations over a list of requests, and the two interfaces most components share:
  an operation that keeps an invariant, and an allocator whose grants are fresh.
\<close>

section \<open>Machine types\<close>

type_synonym u16 = "16 word"
type_synonym u32 = "32 word"
type_synonym u64 = "64 word"

text \<open>
  A C++ \<open>int\<close> is an \<open>int\<close> here: overflowing it is undefined behaviour, so there is no wrapped
  value the program could rely on. Unsigned types whose wrap-around is defined are words.
  Signed division and remainder truncate towards zero (\<open>sdiv\<close>, \<open>smod\<close>).
\<close>

section \<open>Throwing operations on a state\<close>

type_synonym ('s, 'e, 'a) opn = "'s \<Rightarrow> ('e + 'a) \<times> 's"

named_theorems opn_defs "the plumbing of throwing operations"

definition ret :: "'a \<Rightarrow> ('s, 'e, 'a) opn" where
  [opn_defs]: "ret a = (\<lambda>s. (Inr a, s))"

definition throw :: "'e \<Rightarrow> ('s, 'e, 'a) opn" where
  [opn_defs]: "throw e = (\<lambda>s. (Inl e, s))"

definition andThen :: "('s, 'e, 'a) opn \<Rightarrow> ('a \<Rightarrow> ('s, 'e, 'b) opn) \<Rightarrow> ('s, 'e, 'b) opn" where
  [opn_defs]: "andThen m f = (\<lambda>s. case m s of (Inl e, s') \<Rightarrow> (Inl e, s') | (Inr a, s') \<Rightarrow> f a s')"

definition bind_sum :: "'e + 'a \<Rightarrow> ('a \<Rightarrow> 'e + 'b) \<Rightarrow> 'e + 'b" where
  "bind_sum m f = (case m of Inl e \<Rightarrow> Inl e | Inr a \<Rightarrow> f a)"

lemma bind_sum_simps [simp]:
  "bind_sum (Inl e) f = Inl e" "bind_sum (Inr a) f = f a"
  by (simp_all add: bind_sum_def)

lemma bind_sum_Inr_iff: "bind_sum m f = Inr b \<longleftrightarrow> (\<exists>a. m = Inr a \<and> f a = Inr b)"
  by (cases m) auto

lemma bind_sum_assoc: "bind_sum (bind_sum m f) g = bind_sum m (\<lambda>a. bind_sum (f a) g)"
  by (cases m) auto

fun fold_sum :: "('x \<Rightarrow> 's \<Rightarrow> 'e + 's) \<Rightarrow> 'x list \<Rightarrow> 's \<Rightarrow> 'e + 's" where
  "fold_sum f [] s = Inr s"
| "fold_sum f (x # xs) s = bind_sum (f x s) (fold_sum f xs)"

lemma fold_sum_append: "fold_sum f (xs @ ys) s = bind_sum (fold_sum f xs s) (fold_sum f ys)"
proof (induction xs arbitrary: s)
  case (Cons x xs)
  then show ?case by (cases "f x s") simp_all
qed simp

lemma fold_sum_invariant:
  assumes step: "\<And>x s t. x \<in> set xs \<Longrightarrow> P s \<Longrightarrow> f x s = Inr t \<Longrightarrow> P t"
    and "P s" and "fold_sum f xs s = Inr t"
  shows "P t"
  using assms
proof (induction xs arbitrary: s)
  case Nil
  then show ?case by simp
next
  case (Cons x xs)
  from Cons.prems(3) obtain u where u: "f x s = Inr u" "fold_sum f xs u = Inr t"
    by (auto simp: bind_sum_Inr_iff)
  have "P u" by (rule Cons.prems(1) [OF _ Cons.prems(2) u(1)]) simp
  then show ?case using Cons.IH [of u] Cons.prems(1) u(2) by auto
qed

section \<open>Runs of requests\<close>

fun run_ops :: "('s \<Rightarrow> 'r \<Rightarrow> ('e + 'a) \<times> 's) \<Rightarrow> 's \<Rightarrow> 'r list \<Rightarrow> ('e + 'a) list \<times> 's" where
  "run_ops step s [] = ([], s)"
| "run_ops step s (r # rs) =
     (let (a, s1) = step s r; (as, s2) = run_ops step s1 rs in (a # as, s2))"

fun grants :: "('e + 'a) list \<Rightarrow> 'a list" where
  "grants [] = []"
| "grants (Inl e # xs) = grants xs"
| "grants (Inr a # xs) = a # grants xs"

lemma run_ops_Cons_split:
  "run_ops step s (r # rs) =
     (fst (step s r) # fst (run_ops step (snd (step s r)) rs),
      snd (run_ops step (snd (step s r)) rs))"
  by (simp add: Let_def split: prod.split)

lemma run_ops_append:
  "run_ops step s (xs @ ys) =
     (fst (run_ops step s xs) @ fst (run_ops step (snd (run_ops step s xs)) ys),
      snd (run_ops step (snd (run_ops step s xs)) ys))"
proof (induction xs arbitrary: s)
  case (Cons x xs)
  then show ?case by (simp only: append_Cons run_ops_Cons_split fst_conv snd_conv)
qed simp

lemma length_run_ops [simp]: "length (fst (run_ops step s rs)) = length rs"
  by (induction rs arbitrary: s) (simp_all only: run_ops_Cons_split run_ops.simps fst_conv list.size)

text \<open>A state that a request leaves alone answers it the same way for ever.\<close>

lemma run_ops_stuck:
  "step s r = (a, s) \<Longrightarrow> run_ops step s (replicate n r) = (replicate n a, s)"
  by (induction n) simp_all

text \<open>
  \<open>n\<close> equal requests, once it is known what the first \<open>k\<close> yield and that the state then is stuck.
\<close>

lemma run_ops_saturates:
  assumes first: "run_ops step s (replicate k r) = (as, t)" and stuck: "step t r = (a, t)"
  shows "fst (run_ops step s (replicate n r)) = take n as @ replicate (n - k) a"
proof (cases "k \<le> n")
  case True
  then have "replicate n r = replicate k r @ replicate (n - k) r"
    by (simp flip: replicate_add)
  moreover have "length as = k" using length_run_ops [of step s "replicate k r"] first by simp
  ultimately show ?thesis using True first run_ops_stuck [where step = step, OF stuck]
    by (simp add: run_ops_append)
next
  case False
  then have "replicate k r = replicate n r @ replicate (k - n) r"
    by (simp flip: replicate_add)
  then have "as = fst (run_ops step s (replicate n r))
      @ fst (run_ops step (snd (run_ops step s (replicate n r))) (replicate (k - n) r))"
    using first by (simp add: run_ops_append)
  then show ?thesis using False by simp
qed

lemma run_ops_saturates_snd:
  assumes "fst (run_ops step s (replicate k r)) = as"
    and "step (snd (run_ops step s (replicate k r))) r = (a, snd (run_ops step s (replicate k r)))"
  shows "fst (run_ops step s (replicate n r)) = take n as @ replicate (n - k) a"
  by (rule run_ops_saturates [where step = step, OF _ assms(2)]) (simp add: prod_eq_iff assms(1))

text \<open>Equal requests to a state that counts: the answers are consecutive.\<close>

lemma run_ops_counting:
  assumes step: "\<And>x s. at x s \<Longrightarrow> lo \<le> x \<Longrightarrow> x < hi \<Longrightarrow>
      fst (step s r) = Inr (f x) \<and> at (Suc x) (snd (step s r))"
    and "at x s" and "lo \<le> x" and "x + n \<le> hi"
  shows "fst (run_ops step s (replicate n r)) = map (\<lambda>k. Inr (f k)) [x..<x + n]
    \<and> at (x + n) (snd (run_ops step s (replicate n r)))"
  using assms(2-4)
proof (induction n arbitrary: x s)
  case (Suc n)
  then have one: "fst (step s r) = Inr (f x)" "at (Suc x) (snd (step s r))"
    using step [of x s] by auto
  have "fst (run_ops step (snd (step s r)) (replicate n r)) = map (\<lambda>k. Inr (f k)) [Suc x..<Suc x + n]
      \<and> at (Suc x + n) (snd (run_ops step (snd (step s r)) (replicate n r)))"
    using Suc.prems by (intro Suc.IH one(2)) auto
  moreover have "[x..<x + Suc n] = x # [Suc x..<Suc x + n]"
    by (simp add: upt_conv_Cons del: upt_Suc)
  ultimately show ?case
    using one(1) by (simp only: replicate_Suc run_ops_Cons_split fst_conv snd_conv list.map add_Suc
        add_Suc_right)
qed simp

lemma grants_Cons: "grants (x # xs) = (case x of Inl e \<Rightarrow> grants xs | Inr a \<Rightarrow> a # grants xs)"
  by (cases x) auto

lemma length_grants_le: "length (grants xs) \<le> length xs"
  by (induction xs rule: grants.induct) auto

locale invariant_ops =
  fixes step :: "'s \<Rightarrow> 'r \<Rightarrow> ('e + 'a) \<times> 's"
    and inv :: "'s \<Rightarrow> bool"
    and admissible :: "'r \<Rightarrow> bool"
  assumes step_inv: "inv s \<Longrightarrow> admissible r \<Longrightarrow> inv (snd (step s r))"
begin

lemma run_inv: "inv s \<Longrightarrow> \<forall>r \<in> set rs. admissible r \<Longrightarrow> inv (snd (run_ops step s rs))"
proof (induction rs arbitrary: s)
  case Nil
  then show ?case by simp
next
  case (Cons r rs)
  then have "inv (snd (step s r))" by (simp add: step_inv)
  with Cons.prems(2) have "inv (snd (run_ops step (snd (step s r)) rs))"
    by (intro Cons.IH) auto
  then show ?case by (simp only: run_ops_Cons_split snd_conv)
qed

end

text \<open>
  An allocator hands out identifiers: each grant is fresh (not in use before), is recorded, and
  comes from a finite pool; a refused request leaves the identifiers in use alone.
\<close>

locale fresh_allocator = invariant_ops step inv admissible
  for step :: "'s \<Rightarrow> 'r \<Rightarrow> ('e + 'a) \<times> 's" and inv admissible +
  fixes used :: "'s \<Rightarrow> 'a set"
    and pool :: "'a set"
  assumes granted: "inv s \<Longrightarrow> admissible r \<Longrightarrow> fst (step s r) = Inr a \<Longrightarrow>
      a \<notin> used s \<and> used (snd (step s r)) = insert a (used s)"
    and refused: "inv s \<Longrightarrow> admissible r \<Longrightarrow> fst (step s r) = Inl e \<Longrightarrow>
      used (snd (step s r)) = used s"
    and in_pool: "inv s \<Longrightarrow> used s \<subseteq> pool"
    and finite_pool: "finite pool"
begin

lemma run_fresh:
  assumes "inv s" and "\<forall>r \<in> set rs. admissible r"
  shows "distinct (grants (fst (run_ops step s rs)))
    \<and> set (grants (fst (run_ops step s rs))) \<inter> used s = {}
    \<and> used (snd (run_ops step s rs)) = used s \<union> set (grants (fst (run_ops step s rs)))"
  using assms
proof (induction rs arbitrary: s)
  case Nil
  then show ?case by simp
next
  case (Cons r rs)
  let ?s = "snd (step s r)"
  from Cons.prems have adm: "admissible r" "\<forall>r \<in> set rs. admissible r" by auto
  from step_inv Cons.prems(1) adm(1) have "inv ?s" by blast
  note IH = Cons.IH [OF this adm(2)]
  show ?case
  proof (cases "fst (step s r)")
    case (Inl e)
    with refused [OF Cons.prems(1) adm(1)] IH show ?thesis
      by (simp add: run_ops_Cons_split del: run_ops.simps)
  next
    case (Inr a)
    from granted [OF Cons.prems(1) adm(1) Inr] IH Inr show ?thesis
      by (auto simp add: run_ops_Cons_split simp del: run_ops.simps)
  qed
qed

lemma run_bounded:
  assumes "inv s" and "\<forall>r \<in> set rs. admissible r"
  shows "length (grants (fst (run_ops step s rs))) + card (used s) \<le> card pool"
proof -
  let ?g = "grants (fst (run_ops step s rs))"
  have sub: "used s \<union> set ?g \<subseteq> pool"
    using in_pool [OF run_inv [OF assms]] run_fresh [OF assms] by auto
  have "finite (used s)" using sub finite_pool finite_subset by auto
  moreover have "distinct ?g" "used s \<inter> set ?g = {}"
    using run_fresh [OF assms] by auto
  ultimately have "card (used s \<union> set ?g) = card (used s) + length ?g"
    by (simp add: card_Un_disjoint distinct_card)
  then show ?thesis using card_mono [OF finite_pool sub] by simp
qed

end

section \<open>Simulation\<close>

text \<open>
  A component implements its specification when every operation takes related states to related
  states; then so does every sequence of operations.
\<close>

locale simulation =
  fixes rel :: "'a \<Rightarrow> 'c \<Rightarrow> bool"
    and spec :: "'op \<Rightarrow> 'a \<Rightarrow> 'a"
    and impl :: "'op \<Rightarrow> 'c \<Rightarrow> 'c"
  assumes simulate: "rel a c \<Longrightarrow> rel (spec x a) (impl x c)"
begin

lemma simulate_run: "rel a c \<Longrightarrow> rel (fold spec xs a) (fold impl xs c)"
  by (induction xs arbitrary: a c) (simp_all add: simulate)

end

section \<open>Words\<close>

lemma unat_less_exp: "unat (w :: 'n::len word) < 2 ^ LENGTH('n)"
  by (rule unsigned_less)

lemma not_bit_small_nat: "n < 2 ^ m \<Longrightarrow> m \<le> k \<Longrightarrow> \<not> bit (n :: nat) k"
proof -
  assume "n < 2 ^ m" "m \<le> k"
  moreover have "(2 :: nat) ^ m \<le> 2 ^ k" using \<open>m \<le> k\<close> by (simp add: power_increasing)
  ultimately have "n < 2 ^ k" by linarith
  then show ?thesis by (simp add: bit_iff_odd)
qed

lemma unat_minus_no_wrap: "unat b \<le> unat (a :: 'n::len word) \<Longrightarrow> unat (a - b) = unat a - unat b"
  by (simp add: unat_sub word_le_nat_alt)

lemma unat_plus_no_wrap:
  "unat a + unat b < 2 ^ LENGTH('n) \<Longrightarrow> unat (a + b) = unat a + unat (b :: 'n::len word)"
  by (simp add: unat_word_ariths)

end
