(* ===== verification/DeviceTypes.thy ===== *)
theory DeviceTypes
  imports Prelude
begin

text \<open>
  The vocabulary of the device model of pipegen2 (\<open>src/src/pipegen2/lib\<close>): core locations, the
  architectures a worker core can have, the exceptions the resource code throws
  (\<open>inc/pipegen2_exceptions.h\<close>), and the L1 address maps pipegen2 is compiled against
  (\<open>l1_address_map.h\<close> and \<open>eth_l1_address_map.h\<close> of the three firmware directories). The build
  selects one map per architecture, so the map is an argument of what uses it.
\<close>

section \<open>Locations and architectures\<close>

text \<open>
  The location type comes from the \<open>umd\<close> submodule; the modelled code compares locations and
  reads the three members below, nothing else.
\<close>

record tt_cxy_pair =
  cxy_chip :: nat
  cxy_x :: nat
  cxy_y :: nat

datatype tt_arch = GRAYSKULL | WORMHOLE | WORMHOLE_B0 | BLACKHOLE | OTHER_ARCH

section \<open>Exceptions\<close>

datatype core_resource_type =
    KernelInputIndex | KernelOutputIndex | L1DataBuffersMemory | GeneralPurposeStreams
  | UnpackerStreams | GatherMulticastStreams | EthernetStreams | PackerMulticastStreams
  | PackerStreams | IntermediateStreams | NcriscReaderStreams | NcriscWriterStreams

text \<open>
  An exception carries what its class stores; the message text is left out. A failed
  \<open>log_assert\<close> throws too. \<open>out_of_core_resources\<close> and \<open>out_of_core_resources_at\<close> are the
  delegating constructors without and with a logical location, which record one resource used
  more than there are.
\<close>

datatype pipegen2_exn =
    IllegalCoreResourceAllocation tt_cxy_pair core_resource_type
  | OutOfCoreResources tt_cxy_pair "tt_cxy_pair option" core_resource_type u32 u32
  | AssertionFailed

definition out_of_core_resources_at ::
  "tt_cxy_pair \<Rightarrow> tt_cxy_pair \<Rightarrow> core_resource_type \<Rightarrow> u32 \<Rightarrow> pipegen2_exn" where
  "out_of_core_resources_at phys logical t available =
     OutOfCoreResources phys (Some logical) t available (available + 1)"

definition out_of_core_resources :: "tt_cxy_pair \<Rightarrow> core_resource_type \<Rightarrow> u32 \<Rightarrow> pipegen2_exn" where
  "out_of_core_resources phys t available = OutOfCoreResources phys None t available (available + 1)"

section \<open>L1 address maps\<close>

record l1_address_map =
  OVERLAY_BLOB_SIZE :: u32
  TILE_HEADER_BUFFER_BASE :: u32
  DATA_BUFFER_SPACE_BASE :: u32
  MAX_SIZE :: u32

definition EPOCH_RUNTIME_CONFIG_SIZE :: u32 where "EPOCH_RUNTIME_CONFIG_SIZE = 128"

text \<open>The regions above the firmware, from the base of the tile header buffer upwards.\<close>

definition regions_from :: "u32 \<Rightarrow> u32 \<Rightarrow> u32 \<Rightarrow> l1_address_map" where
  "regions_from thb_base blob_size max_size =
     (let epoch_runtime_config_base = thb_base + 32 * 1024;
          overlay_blob_base = epoch_runtime_config_base + EPOCH_RUNTIME_CONFIG_SIZE
      in \<lparr> OVERLAY_BLOB_SIZE = blob_size,
           TILE_HEADER_BUFFER_BASE = thb_base,
           DATA_BUFFER_SPACE_BASE = overlay_blob_base + blob_size,
           MAX_SIZE = max_size \<rparr>)"

definition wormhole_l1_map :: l1_address_map where
  "wormhole_l1_map =
     (let firmware_base = 0;
          ncrisc_firmware_base = firmware_base + 20 * 1024;
          trisc0_base = ncrisc_firmware_base + 32 * 1024;
          trisc1_base = trisc0_base + 20 * 1024;
          trisc2_base = trisc1_base + 16 * 1024
      in regions_from (trisc2_base + 20 * 1024) (64 * 1024 - EPOCH_RUNTIME_CONFIG_SIZE) 1499136)"

definition grayskull_l1_map :: l1_address_map where
  "grayskull_l1_map =
     (let firmware_base = 0;
          ncrisc_firmware_base = firmware_base + 20 * 1024;
          trisc0_base = ncrisc_firmware_base + 32 * 1024;
          trisc1_base = trisc0_base + 20 * 1024;
          trisc2_base = trisc1_base + 16 * 1024
      in regions_from (trisc2_base + 20 * 1024) (64 * 1024 - EPOCH_RUNTIME_CONFIG_SIZE)
           (1 * 1024 * 1024))"

definition blackhole_l1_map :: l1_address_map where
  "blackhole_l1_map =
     (let firmware_base = 0;
          ncrisc_firmware_base = firmware_base + 20 * 1024;
          ncrisc_local_mem_base = ncrisc_firmware_base + 32 * 1024;
          ncrisc_data_base = ncrisc_local_mem_base + 4 * 1024;
          ncrisc_perf_queue_header_addr = ncrisc_data_base + 4 * 1024;
          ncrisc_perf_queue_header_size = 2 * 8 * 8;
          ncrisc_l1_perf_buf_base = ncrisc_perf_queue_header_addr + ncrisc_perf_queue_header_size;
          ncrisc_l1_epoch_q_base =
            ncrisc_l1_perf_buf_base + (4 * 1024 - ncrisc_perf_queue_header_size);
          trisc0_base = ncrisc_l1_epoch_q_base + 64;
          trisc1_base = trisc0_base + 20 * 1024;
          trisc2_base = trisc1_base + 16 * 1024
      in regions_from (trisc2_base + 20 * 1024) (64 * 1024 - EPOCH_RUNTIME_CONFIG_SIZE) 1499136)"

definition eth_l1_map :: l1_address_map where
  "eth_l1_map =
     (let l1_epoch_q_base = 0x9000;
          command_q_base = l1_epoch_q_base + 32 * 1024;
          data_buffer_base = command_q_base + 4 * 1024
      in regions_from (data_buffer_base + 24 * 1024) (32 * 1024 - EPOCH_RUNTIME_CONFIG_SIZE)
           (256 * 1024))"

lemmas l1_map_defs =
  wormhole_l1_map_def grayskull_l1_map_def blackhole_l1_map_def eth_l1_map_def
  regions_from_def EPOCH_RUNTIME_CONFIG_SIZE_def

text \<open>
  A usable map: the tile header buffer at its predefined address ends below the data buffer space,
  and that space is not empty after the bytes left unused at its end.
\<close>

definition tile_header_buffer_size_bytes :: u32 where
  "tile_header_buffer_size_bytes = 16 * 2048"

definition unused_data_buffers_space_bytes :: u32 where
  "unused_data_buffers_space_bytes = 64"

definition l1_map_ok :: "l1_address_map \<Rightarrow> bool" where
  "l1_map_ok m \<longleftrightarrow>
     unat (TILE_HEADER_BUFFER_BASE m) + unat tile_header_buffer_size_bytes
        \<le> unat (DATA_BUFFER_SPACE_BASE m)
     \<and> unat (DATA_BUFFER_SPACE_BASE m) + unat unused_data_buffers_space_bytes
        < unat (MAX_SIZE m)"

lemma l1_maps_ok [simp]:
  "l1_map_ok wormhole_l1_map" "l1_map_ok grayskull_l1_map"
  "l1_map_ok blackhole_l1_map" "l1_map_ok eth_l1_map"
  by (simp_all add: l1_map_ok_def l1_map_defs tile_header_buffer_size_bytes_def
        unused_data_buffers_space_bytes_def)

text \<open>The static assertion of \<open>eth_l1_address_map.h\<close> on the base of its data buffer space.\<close>

lemma eth_data_buffer_space_base: "DATA_BUFFER_SPACE_BASE eth_l1_map = 0x28000"
  by (simp add: l1_map_defs)

end
