(* ===== verification/OperandStreams.thy ===== *)
theory OperandStreams
  imports DeviceTypes
begin

text \<open>
  Kernel operands and their streams: \<open>OperandStreamMap\<close>
  (\<open>src/src/pipegen2/lib/src/device/operand_stream_map.cpp\<close>) over the firmware's \<open>stream_io_map.h\<close>
  of each architecture, as pipegen2 compiles it (without \<open>TENSIX_FIRMWARE\<close>). The Blackhole header
  has the Wormhole mapping.
\<close>

section \<open>Index ranges\<close>

definition OPERAND_INPUT_START_INDEX :: int where "OPERAND_INPUT_START_INDEX = 0"
definition OPERAND_OUTPUT_START_INDEX :: int where "OPERAND_OUTPUT_START_INDEX = 16"
definition OPERAND_INTERMEDIATES_START_INDEX :: int where "OPERAND_INTERMEDIATES_START_INDEX = 24"
definition OPERAND_RELAY_START_INDEX :: int where "OPERAND_RELAY_START_INDEX = 32"
definition MAX_NUM_OPERANDS :: int where "MAX_NUM_OPERANDS = 64"
definition END_IO_STREAM :: u32 where "END_IO_STREAM = 39"
definition NOC_NUM_STREAMS :: u32 where "NOC_NUM_STREAMS = 64"

lemmas operand_index_defs =
  OPERAND_INPUT_START_INDEX_def OPERAND_OUTPUT_START_INDEX_def
  OPERAND_INTERMEDIATES_START_INDEX_def OPERAND_RELAY_START_INDEX_def MAX_NUM_OPERANDS_def

definition is_intermediate_operand :: "int \<Rightarrow> bool" where
  "is_intermediate_operand operand_id \<longleftrightarrow>
     operand_id \<ge> OPERAND_INTERMEDIATES_START_INDEX \<and> operand_id < OPERAND_RELAY_START_INDEX"

definition is_input_operand :: "int \<Rightarrow> bool" where
  "is_input_operand operand_id \<longleftrightarrow>
     (operand_id \<ge> OPERAND_INPUT_START_INDEX \<and> operand_id < OPERAND_OUTPUT_START_INDEX)
     \<or> is_intermediate_operand operand_id"

definition is_output_operand :: "int \<Rightarrow> bool" where
  "is_output_operand operand_id \<longleftrightarrow>
     (operand_id \<ge> OPERAND_OUTPUT_START_INDEX \<and> operand_id < OPERAND_INTERMEDIATES_START_INDEX)
     \<or> is_intermediate_operand operand_id"

definition is_relay_operand :: "int \<Rightarrow> bool" where
  "is_relay_operand operand_id \<longleftrightarrow>
     operand_id \<ge> OPERAND_RELAY_START_INDEX \<and> operand_id < MAX_NUM_OPERANDS"

lemmas operand_range_defs =
  is_input_operand_def is_output_operand_def is_intermediate_operand_def is_relay_operand_def
  operand_index_defs

section \<open>The stream of an operand\<close>

text \<open>
  The operand is converted to unsigned: the sums below wrap at 32 bits, as they do in the code for
  an operand that is not in range.
\<close>

definition get_operand_stream_id_wh :: "int \<Rightarrow> u32" where
  "get_operand_stream_id_wh operand =
     (if (word_of_int operand :: u32) \<ge> 2 then 10 + word_of_int operand - 2
      else 4 + word_of_int operand)"

definition get_operand_stream_id_gs :: "int \<Rightarrow> u32" where
  "get_operand_stream_id_gs operand = 8 + word_of_int operand"

definition stream_id_to_operand_wh :: "u32 \<Rightarrow> int" where
  "stream_id_to_operand_wh stream_id =
     (if stream_id \<ge> 10 then sint (stream_id - 10 + 2) else sint (stream_id - 4))"

definition stream_id_to_operand_gs :: "u32 \<Rightarrow> int" where
  "stream_id_to_operand_gs stream_id = sint (stream_id - 8)"

fun get_operand_stream_id :: "tt_arch \<Rightarrow> int \<Rightarrow> u32" where
  "get_operand_stream_id GRAYSKULL operand = get_operand_stream_id_gs operand"
| "get_operand_stream_id _ operand = get_operand_stream_id_wh operand"

fun stream_id_to_operand :: "tt_arch \<Rightarrow> u32 \<Rightarrow> int" where
  "stream_id_to_operand GRAYSKULL stream_id = stream_id_to_operand_gs stream_id"
| "stream_id_to_operand _ stream_id = stream_id_to_operand_wh stream_id"

lemmas stream_id_defs =
  get_operand_stream_id_wh_def get_operand_stream_id_gs_def
  stream_id_to_operand_wh_def stream_id_to_operand_gs_def

section \<open>Input and output indices\<close>

definition operand_to_input_index :: "int \<Rightarrow> int" where
  "operand_to_input_index operand =
     (if operand \<ge> OPERAND_INTERMEDIATES_START_INDEX
      then operand - (OPERAND_INTERMEDIATES_START_INDEX - OPERAND_OUTPUT_START_INDEX)
      else operand)"

definition input_to_operand_index :: "int \<Rightarrow> int" where
  "input_to_operand_index input =
     (if input \<ge> OPERAND_OUTPUT_START_INDEX
      then input + (OPERAND_INTERMEDIATES_START_INDEX - OPERAND_OUTPUT_START_INDEX)
      else input)"

definition operand_to_output_index :: "int \<Rightarrow> int" where
  "operand_to_output_index operand = operand - OPERAND_OUTPUT_START_INDEX"

definition output_to_operand_index :: "int \<Rightarrow> int" where
  "output_to_operand_index out = out + OPERAND_OUTPUT_START_INDEX"

definition get_output_index :: "int \<Rightarrow> pipegen2_exn + u32" where
  "get_output_index operand_id =
     (if is_output_operand operand_id then Inr (word_of_int (operand_to_output_index operand_id))
      else Inl AssertionFailed)"

section \<open>Facts\<close>

text \<open>There are 32 kernel operands: what the code does on each of them is decided by evaluation.\<close>

lemma kernel_operands_all:
  assumes "\<forall>n \<in> set [0..<32]. P (int n)" and "0 \<le> (operand :: int)" "operand < 32"
  shows "P operand"
  using assms(1) [rule_format, of "nat operand"] assms(2,3) by simp

lemma unat_stream_gs_all:
  "\<forall>n \<in> set [0..<32]. unat (get_operand_stream_id_gs (int n)) = 8 + n
     \<and> stream_id_to_operand_gs (get_operand_stream_id_gs (int n)) = int n"
  by code_simp

lemma unat_stream_wh_all:
  "\<forall>n \<in> set [0..<32]. unat (get_operand_stream_id_wh (int n)) = (if n \<ge> 2 then 8 + n else 4 + n)
     \<and> stream_id_to_operand_wh (get_operand_stream_id_wh (int n)) = int n"
  by code_simp

lemma unat_operand_stream_gs:
  "0 \<le> operand \<Longrightarrow> operand < 32 \<Longrightarrow> unat (get_operand_stream_id_gs operand) = 8 + nat operand"
  by (rule kernel_operands_all) (use unat_stream_gs_all in simp_all)

lemma unat_operand_stream_wh:
  "0 \<le> operand \<Longrightarrow> operand < 32 \<Longrightarrow>
     unat (get_operand_stream_id_wh operand) = (if operand \<ge> 2 then 8 else 4) + nat operand"
  by (rule kernel_operands_all) (use unat_stream_wh_all in auto)

lemma stream_to_operand_gs:
  "0 \<le> operand \<Longrightarrow> operand < 32 \<Longrightarrow>
     stream_id_to_operand_gs (get_operand_stream_id_gs operand) = operand"
  by (rule kernel_operands_all) (use unat_stream_gs_all in simp_all)

lemma stream_to_operand_wh:
  "0 \<le> operand \<Longrightarrow> operand < 32 \<Longrightarrow>
     stream_id_to_operand_wh (get_operand_stream_id_wh operand) = operand"
  by (rule kernel_operands_all) (use unat_stream_wh_all in auto)

lemma stream_to_operand:
  "0 \<le> operand \<Longrightarrow> operand < 32 \<Longrightarrow> stream_id_to_operand a (get_operand_stream_id a operand) = operand"
  by (cases a) (simp_all add: stream_to_operand_gs stream_to_operand_wh)

lemma operand_stream_inj:
  assumes "0 \<le> p" "p < 32" "0 \<le> q" "q < 32"
    and "get_operand_stream_id a p = get_operand_stream_id a q"
  shows "p = q"
  using assms stream_to_operand by metis

lemma operand_stream_range:
  "0 \<le> operand \<Longrightarrow> operand < 32 \<Longrightarrow> 4 \<le> unat (get_operand_stream_id a operand)
     \<and> unat (get_operand_stream_id a operand) \<le> unat END_IO_STREAM"
  by (cases a) (auto simp: unat_operand_stream_gs unat_operand_stream_wh END_IO_STREAM_def)

lemma input_output_operand_bounds:
  "is_input_operand p \<Longrightarrow> 0 \<le> p \<and> p < 32" "is_output_operand p \<Longrightarrow> 0 \<le> p \<and> p < 32"
  "is_intermediate_operand p \<Longrightarrow> 0 \<le> p \<and> p < 32"
  by (auto simp: operand_range_defs)


lemma relay_streams_all:
  "\<forall>n \<in> set [32..<64]. stream_id_to_operand_gs (get_operand_stream_id_gs (int n)) = int n
     \<and> stream_id_to_operand_wh (get_operand_stream_id_wh (int n)) = int n"
  by code_simp

lemma relay_stream_to_operand:
  assumes "is_relay_operand operand"
  shows "stream_id_to_operand a (get_operand_stream_id a operand) = operand"
proof -
  have "nat operand \<in> set [32..<64]" "int (nat operand) = operand"
    using assms unfolding set_upt by (simp_all add: operand_range_defs nat_less_iff le_nat_iff)
  then show ?thesis
    using relay_streams_all [rule_format, of "nat operand"] by (cases a) simp_all
qed

text \<open>C40 The streams of operands lose nothing: on every architecture the stream of an operand in range is
  mapped back to the operand, two operands never share a stream, and the indices of inputs and of
  outputs count them from 0 to 23 and from 0 to 15 and are mapped back to their operands.\<close>

theorem operand_streams_round_trip:
  assumes "0 \<le> p" and "p < MAX_NUM_OPERANDS"
  shows "stream_id_to_operand a (get_operand_stream_id a p) = p
    \<and> (\<forall>q. 0 \<le> q \<and> q < MAX_NUM_OPERANDS \<and> q \<noteq> p \<longrightarrow> get_operand_stream_id a q \<noteq> get_operand_stream_id a p)
    \<and> (is_input_operand p \<longrightarrow> operand_to_input_index p \<in> {0..<24}
         \<and> input_to_operand_index (operand_to_input_index p) = p)
    \<and> (is_output_operand p \<longrightarrow> operand_to_output_index p \<in> {0..<16}
         \<and> output_to_operand_index (operand_to_output_index p) = p)"
proof -
  have inv: "stream_id_to_operand a (get_operand_stream_id a q) = q" if "0 \<le> q" "q < MAX_NUM_OPERANDS" for q
    using that stream_to_operand relay_stream_to_operand [of q a]
    by (cases "q < 32") (auto simp: operand_range_defs)
  have "get_operand_stream_id a q \<noteq> get_operand_stream_id a p"
    if "0 \<le> q" "q < MAX_NUM_OPERANDS" "q \<noteq> p" for q
    using inv [OF that(1,2)] inv [OF assms] that(3) by auto
  then show ?thesis
    using inv [OF assms] unfolding operand_to_input_index_def input_to_operand_index_def
      operand_to_output_index_def output_to_operand_index_def
    by (auto simp: operand_range_defs)
qed

theorem operand_streams_round_trip_witness:
  "stream_id_to_operand GRAYSKULL (get_operand_stream_id GRAYSKULL 25) = 25
   \<and> get_operand_stream_id GRAYSKULL 24 \<noteq> get_operand_stream_id GRAYSKULL 25
   \<and> input_to_operand_index (operand_to_input_index 25) = 25"
  using operand_streams_round_trip [of 25 GRAYSKULL] by (auto simp: operand_range_defs)

end
