(* ===== verification/L1Layout.thy ===== *)
theory L1Layout
  imports DeviceTypes
begin

text \<open>
  The layout of a core's L1 data buffers: \<open>L1DataBuffersMemoryLayout\<close>
  (\<open>src/src/pipegen2/lib/src/device/l1/l1_data_buffers_memory_layout.cpp\<close>) with the buffers its
  factory makes. Buffers grow downwards from the end of the space; the extra overlay blob space
  grows upwards from its start; addresses are 32-bit and wrap, as the code's do.
\<close>

section \<open>Buffers\<close>

text \<open>A stream node is known to the layout by its identity only.\<close>

type_synonym stream_node_id = nat

datatype l1_buffer_kind =
    TileHeaderBuffer u32
  | StreamBuffer stream_node_id
  | NcriscFallbackBuffer
  | ExtraOverlayBlobBuffer

record l1_buffer =
  buf_kind :: l1_buffer_kind
  buf_address :: u32
  buf_size :: u32

definition create_tile_header_buffer :: "u32 \<Rightarrow> u32 \<Rightarrow> l1_buffer" where
  "create_tile_header_buffer address tile_size =
     \<lparr> buf_kind = TileHeaderBuffer tile_size, buf_address = address,
       buf_size = tile_header_buffer_size_bytes \<rparr>"

definition create_stream_buffer :: "stream_node_id \<Rightarrow> u32 \<Rightarrow> u32 \<Rightarrow> l1_buffer" where
  "create_stream_buffer node address size_in_bytes =
     \<lparr> buf_kind = StreamBuffer node, buf_address = address, buf_size = size_in_bytes \<rparr>"

definition create_ncrisc_fallback_buffer :: "u32 \<Rightarrow> u32 \<Rightarrow> l1_buffer" where
  "create_ncrisc_fallback_buffer address size_in_bytes =
     \<lparr> buf_kind = NcriscFallbackBuffer, buf_address = address, buf_size = size_in_bytes \<rparr>"

definition create_extra_overlay_blob_buffer :: "u32 \<Rightarrow> u32 \<Rightarrow> l1_buffer" where
  "create_extra_overlay_blob_buffer address size_in_bytes =
     \<lparr> buf_kind = ExtraOverlayBlobBuffer, buf_address = address, buf_size = size_in_bytes \<rparr>"

lemmas create_buffer_defs =
  create_tile_header_buffer_def create_stream_buffer_def create_ncrisc_fallback_buffer_def
  create_extra_overlay_blob_buffer_def

fun is_extra_overlay_blob :: "l1_buffer_kind \<Rightarrow> bool" where
  "is_extra_overlay_blob ExtraOverlayBlobBuffer = True"
| "is_extra_overlay_blob _ = False"

section \<open>State\<close>

text \<open>The map from tile sizes to tile header buffers is an association list without duplicate keys.\<close>

record l1_layout =
  lay_physical_location :: tt_cxy_pair
  lay_logical_location :: tt_cxy_pair
  space_start_address :: u32
  space_end_address :: u32
  predefined_thb_address :: u32
  extra_overlay_blob_space :: u32
  current_space_address :: u32
  lay_op_name :: string
  start_section :: "l1_buffer list"
  end_section :: "l1_buffer list"
  allocated_thbs :: "(u32 \<times> l1_buffer) list"

definition new_l1_layout :: "tt_cxy_pair \<Rightarrow> tt_cxy_pair \<Rightarrow> u32 \<Rightarrow> u32 \<Rightarrow> u32 \<Rightarrow> l1_layout" where
  "new_l1_layout phys logical start_address end_address thb_address =
     \<lparr> lay_physical_location = phys,
       lay_logical_location = logical,
       space_start_address = start_address,
       space_end_address = end_address - unused_data_buffers_space_bytes,
       predefined_thb_address = thb_address,
       extra_overlay_blob_space = 0,
       current_space_address = end_address - unused_data_buffers_space_bytes,
       lay_op_name = '''',
       start_section = [],
       end_section = [],
       allocated_thbs = [] \<rparr>"

section \<open>Operations\<close>

definition allocate_space_for_l1_data_buffer :: "u32 \<Rightarrow> l1_layout \<Rightarrow> u32 \<times> l1_layout" where
  "allocate_space_for_l1_data_buffer size_in_bytes l =
     (let address = current_space_address l - size_in_bytes
      in (address, l\<lparr>current_space_address := address\<rparr>))"

definition store_buffer :: "l1_buffer \<Rightarrow> l1_layout \<Rightarrow> l1_buffer \<times> l1_layout" where
  "store_buffer b l =
     (if is_extra_overlay_blob (buf_kind b)
      then (b, l\<lparr>start_section := start_section l @ [b]\<rparr>)
      else (b, l\<lparr>end_section := b # end_section l\<rparr>))"

definition allocate_l1_tile_header_buffer :: "u32 \<Rightarrow> l1_layout \<Rightarrow> l1_buffer \<times> l1_layout" where
  "allocate_l1_tile_header_buffer tile_size l =
     (case map_of (allocated_thbs l) tile_size of
        Some thb \<Rightarrow> (thb, l)
      | None \<Rightarrow>
          (let (thb_address, l1) =
                 (if allocated_thbs l = [] then (predefined_thb_address l, l)
                  else allocate_space_for_l1_data_buffer tile_header_buffer_size_bytes l);
               thb = create_tile_header_buffer thb_address tile_size
           in store_buffer thb (l1\<lparr>allocated_thbs := (tile_size, thb) # allocated_thbs l1\<rparr>)))"

definition allocate_l1_stream_buffer ::
  "stream_node_id \<Rightarrow> u32 \<Rightarrow> l1_layout \<Rightarrow> l1_buffer option \<times> l1_layout" where
  "allocate_l1_stream_buffer node buffer_size l =
     (if buffer_size = 0 then (None, l)
      else (let (buffer_address, l1) = allocate_space_for_l1_data_buffer buffer_size l;
                (b, l2) = store_buffer (create_stream_buffer node buffer_address buffer_size) l1
            in (Some b, l2)))"

definition allocate_l1_ncrisc_fallback_buffer ::
  "u32 \<Rightarrow> l1_layout \<Rightarrow> l1_buffer option \<times> l1_layout" where
  "allocate_l1_ncrisc_fallback_buffer buffer_size l =
     (if buffer_size = 0 then (None, l)
      else (let (buffer_address, l1) = allocate_space_for_l1_data_buffer buffer_size l;
                (b, l2) = store_buffer (create_ncrisc_fallback_buffer buffer_address buffer_size) l1
            in (Some b, l2)))"

text \<open>
  \<open>min_worker\<close> and \<open>min_eth\<close> are the overlay blob sizes of the address maps, \<open>full_worker\<close> and
  \<open>full_eth\<close> what \<open>OVERLAY_FULL_BLOB_SIZE()\<close> yields (it reads an environment variable).
\<close>

record blob_sizes =
  min_worker :: u32
  min_eth :: u32
  full_worker :: u32
  full_eth :: u32

definition calculate_extra_blob_space_to_allocate :: "blob_sizes \<Rightarrow> u32 \<Rightarrow> bool \<Rightarrow> u32" where
  "calculate_extra_blob_space_to_allocate env blob_size_in_bytes is_ethernet_core =
     (let min_blob_size = (if is_ethernet_core then min_eth env else min_worker env);
          blob_size =
            (if blob_size_in_bytes = 0
             then (if is_ethernet_core then full_eth env else full_worker env)
             else blob_size_in_bytes)
      in if blob_size \<le> min_blob_size then 0
         else (blob_size - min_blob_size) AND 0xFFFFF000)"

text \<open>
  The code reads \<open>front()\<close> of the start section, a \<open>std::list\<close>, also when it is empty, which the
  language leaves undefined. \<open>front_of_empty\<close> stands for the blob buffer that read yields, if any.
\<close>

definition already_allocated_blob :: "l1_buffer option \<Rightarrow> l1_layout \<Rightarrow> l1_buffer option" where
  "already_allocated_blob front_of_empty l =
     (case start_section l of
        [] \<Rightarrow> front_of_empty
      | b # _ \<Rightarrow> if is_extra_overlay_blob (buf_kind b) then Some b else None)"

definition allocate_l1_extra_overlay_blob_space ::
  "l1_buffer option \<Rightarrow> blob_sizes \<Rightarrow> u32 \<Rightarrow> bool \<Rightarrow> l1_layout \<Rightarrow> l1_buffer option \<times> l1_layout" where
  "allocate_l1_extra_overlay_blob_space front_of_empty env total_blob_size is_ethernet_core l =
     (let extra = calculate_extra_blob_space_to_allocate env total_blob_size is_ethernet_core
      in if extra = 0 then (None, l)
         else case already_allocated_blob front_of_empty l of
             Some b \<Rightarrow> (Some b, l)
           | None \<Rightarrow>
               (let (b, l1) = store_buffer
                      (create_extra_overlay_blob_buffer (space_start_address l) extra)
                      (l\<lparr>extra_overlay_blob_space := extra\<rparr>)
                in (Some b, l1)))"

definition l1_out_of_memory :: "l1_layout \<Rightarrow> bool" where
  "l1_out_of_memory l \<longleftrightarrow>
     current_space_address l < space_start_address l + extra_overlay_blob_space l"

definition check_if_out_of_l1_data_buffers_memory :: "l1_layout \<Rightarrow> pipegen2_exn + unit" where
  "check_if_out_of_l1_data_buffers_memory l =
     (if l1_out_of_memory l then
        (let allocated = space_end_address l - current_space_address l + extra_overlay_blob_space l;
             available = space_end_address l - space_start_address l
         in Inl (OutOfCoreResources (lay_physical_location l) (Some (lay_logical_location l))
                   L1DataBuffersMemory available allocated))
      else Inr ())"

definition get_tile_header_buffer_address :: "u32 \<Rightarrow> l1_layout \<Rightarrow> pipegen2_exn + u32" where
  "get_tile_header_buffer_address tile_size l =
     (case map_of (allocated_thbs l) tile_size of
        None \<Rightarrow> Inl AssertionFailed
      | Some thb \<Rightarrow> Inr (buf_address thb))"

definition l1_is_empty :: "l1_layout \<Rightarrow> bool" where
  "l1_is_empty l \<longleftrightarrow> start_section l = [] \<and> end_section l = []"

definition set_op_name :: "string \<Rightarrow> l1_layout \<Rightarrow> l1_layout" where
  "set_op_name op_name l = l\<lparr>lay_op_name := op_name\<rparr>"

definition get_all_allocated_buffers :: "l1_layout \<Rightarrow> l1_buffer list" where
  "get_all_allocated_buffers l = start_section l @ end_section l"

text \<open>The allocations, as requests.\<close>

datatype l1_request =
    ReqTileHeader u32
  | ReqStream stream_node_id u32
  | ReqFallback u32
  | ReqExtraBlob u32 bool

fun l1_allocate ::
  "l1_buffer option \<Rightarrow> blob_sizes \<Rightarrow> l1_layout \<Rightarrow> l1_request
     \<Rightarrow> (pipegen2_exn + l1_buffer option) \<times> l1_layout" where
  "l1_allocate fe env l (ReqTileHeader tile_size) =
     (let (b, l1) = allocate_l1_tile_header_buffer tile_size l in (Inr (Some b), l1))"
| "l1_allocate fe env l (ReqStream node n) =
     (let (b, l1) = allocate_l1_stream_buffer node n l in (Inr b, l1))"
| "l1_allocate fe env l (ReqFallback n) =
     (let (b, l1) = allocate_l1_ncrisc_fallback_buffer n l in (Inr b, l1))"
| "l1_allocate fe env l (ReqExtraBlob n is_eth) =
     (let (b, l1) = allocate_l1_extra_overlay_blob_space fe env n is_eth l in (Inr b, l1))"

lemmas l1_alloc_defs =
  allocate_l1_tile_header_buffer_def allocate_l1_stream_buffer_def
  allocate_l1_ncrisc_fallback_buffer_def allocate_l1_extra_overlay_blob_space_def
  allocate_space_for_l1_data_buffer_def store_buffer_def already_allocated_blob_def

section \<open>Stacked buffers\<close>

text \<open>
  The buffers cut from the end of the space lie on top of each other, the last one lowest: read
  with wrapping addresses this always holds, and while the bytes cut do not exceed the end address
  it gives the disjointness of the buffers.
\<close>

fun stacked :: "u32 \<Rightarrow> l1_buffer list \<Rightarrow> u32 \<Rightarrow> bool" where
  "stacked lo [] hi \<longleftrightarrow> lo = hi"
| "stacked lo (b # bs) hi \<longleftrightarrow> buf_address b = lo \<and> stacked (lo + buf_size b) bs hi"

definition bytes :: "l1_buffer list \<Rightarrow> nat" where
  "bytes bs = sum_list (map (\<lambda>b. unat (buf_size b)) bs)"

lemma bytes_simps [simp]: "bytes [] = 0" "bytes (b # bs) = unat (buf_size b) + bytes bs"
  by (simp_all add: bytes_def)

definition buffer_end :: "l1_buffer \<Rightarrow> nat" where
  "buffer_end b = unat (buf_address b) + unat (buf_size b)"

definition disjoint_buffers :: "l1_buffer \<Rightarrow> l1_buffer \<Rightarrow> bool" where
  "disjoint_buffers a b \<longleftrightarrow>
     buffer_end a \<le> unat (buf_address b) \<or> buffer_end b \<le> unat (buf_address a)"

definition within :: "nat \<Rightarrow> nat \<Rightarrow> l1_buffer \<Rightarrow> bool" where
  "within lo hi b \<longleftrightarrow> lo \<le> unat (buf_address b) \<and> buffer_end b \<le> hi"

lemma stacked_sound:
  assumes "stacked lo bs hi" and "bytes bs \<le> unat hi"
  shows "unat lo + bytes bs = unat hi \<and> (\<forall>b \<in> set bs. within (unat lo) (unat hi) b)
    \<and> sorted_wrt disjoint_buffers bs"
  using assms
proof (induction bs arbitrary: lo)
  case Nil
  then show ?case by simp
next
  case (Cons b bs)
  let ?mid = "lo + buf_size b"
  from Cons.prems have IH: "unat ?mid + bytes bs = unat hi"
      "\<forall>b \<in> set bs. within (unat ?mid) (unat hi) b" "sorted_wrt disjoint_buffers bs"
    using Cons.IH [of ?mid] by auto
  have "unat (?mid - buf_size b) = unat ?mid - unat (buf_size b)"
    using IH(1) Cons.prems(2) by (intro unat_minus_no_wrap) simp
  then have lo: "unat lo + unat (buf_size b) = unat ?mid"
    using IH(1) Cons.prems(2) by simp
  show ?case
    using lo IH Cons.prems(1)
    by (simp add: within_def buffer_end_def) (auto simp: disjoint_buffers_def buffer_end_def)
qed

lemma sorted_wrt_partition:
  assumes "sorted_wrt R (filter P xs)" "sorted_wrt R (filter (\<lambda>x. \<not> P x) xs)"
    and "\<And>x y. x \<in> set xs \<Longrightarrow> y \<in> set xs \<Longrightarrow> P x \<Longrightarrow> \<not> P y \<Longrightarrow> R x y \<and> R y x"
  shows "sorted_wrt R xs"
  using assms
proof (induction xs)
  case (Cons a xs)
  have "R a y" if "y \<in> set xs" for y
    using Cons.prems that by (cases "P a = P y") (auto split: if_splits)
  moreover have "sorted_wrt R xs"
    using Cons.prems by (intro Cons.IH) (auto split: if_splits)
  ultimately show ?case by simp
qed simp

section \<open>The invariant of the layout\<close>

definition first_thb_kind :: "l1_layout \<Rightarrow> l1_buffer_kind option" where
  "first_thb_kind l =
     (if allocated_thbs l = [] then None
      else Some (TileHeaderBuffer (fst (last (allocated_thbs l)))))"

text \<open>The buffers cut from the space: all but the first tile header buffer.\<close>

definition carved_buffers :: "l1_layout \<Rightarrow> l1_buffer list" where
  "carved_buffers l = filter (\<lambda>b. Some (buf_kind b) \<noteq> first_thb_kind l) (end_section l)"

definition predefined_buffers :: "l1_layout \<Rightarrow> l1_buffer list" where
  "predefined_buffers l = filter (\<lambda>b. Some (buf_kind b) = first_thb_kind l) (end_section l)"

definition end_section_buffer_ok :: "(u32 \<times> l1_buffer) list \<Rightarrow> l1_buffer \<Rightarrow> bool" where
  "end_section_buffer_ok thbs b \<longleftrightarrow>
     buf_kind b \<noteq> ExtraOverlayBlobBuffer
     \<and> (\<forall>t. buf_kind b = TileHeaderBuffer t \<longrightarrow> (t, b) \<in> set thbs)"

fun start_section_ok :: "u32 \<Rightarrow> u32 \<Rightarrow> l1_buffer list \<Rightarrow> bool" where
  "start_section_ok start extra [] \<longleftrightarrow> extra = 0"
| "start_section_ok start extra [b] \<longleftrightarrow> b = create_extra_overlay_blob_buffer start extra"
| "start_section_ok _ _ _ \<longleftrightarrow> False"

definition thb_entry_ok :: "l1_buffer set \<Rightarrow> u32 \<times> l1_buffer \<Rightarrow> bool" where
  "thb_entry_ok bs e \<longleftrightarrow>
     buf_kind (snd e) = TileHeaderBuffer (fst e) \<and> snd e \<in> bs
     \<and> buf_size (snd e) = tile_header_buffer_size_bytes"

definition l1_inv :: "l1_layout \<Rightarrow> bool" where
  "l1_inv l \<longleftrightarrow>
     stacked (current_space_address l) (carved_buffers l) (space_end_address l)
     \<and> distinct (map fst (allocated_thbs l))
     \<and> (\<forall>b \<in> set (end_section l). end_section_buffer_ok (allocated_thbs l) b)
     \<and> (\<forall>e \<in> set (allocated_thbs l). thb_entry_ok (set (end_section l)) e)
     \<and> (allocated_thbs l \<noteq> [] \<longrightarrow>
          predefined_buffers l = [snd (last (allocated_thbs l))]
          \<and> buf_address (snd (last (allocated_thbs l))) = predefined_thb_address l)
     \<and> start_section_ok (space_start_address l) (extra_overlay_blob_space l) (start_section l)"

lemma l1_inv_new: "l1_inv (new_l1_layout p q s e t)"
  by (simp add: l1_inv_def new_l1_layout_def carved_buffers_def)

text \<open>Pushing a buffer that is not a tile header cut from the space keeps the invariant.\<close>

lemma l1_inv_push:
  assumes "l1_inv l" and "buf_address b = current_space_address l - buf_size b"
    and "\<And>t. buf_kind b \<noteq> TileHeaderBuffer t" and "buf_kind b \<noteq> ExtraOverlayBlobBuffer"
  shows "l1_inv (l\<lparr>current_space_address := buf_address b, end_section := b # end_section l\<rparr>)"
  using assms
  by (auto simp: l1_inv_def carved_buffers_def predefined_buffers_def first_thb_kind_def
      end_section_buffer_ok_def thb_entry_ok_def)

lemma end_section_no_kind:
  assumes "l1_inv l" "map_of (allocated_thbs l) t = None" "b \<in> set (end_section l)"
  shows "buf_kind b \<noteq> TileHeaderBuffer t"
  using assms by (force simp: l1_inv_def end_section_buffer_ok_def map_of_eq_None_iff)

lemma allocate_thb_first:
  "allocated_thbs l = [] \<Longrightarrow> allocate_l1_tile_header_buffer ts l =
     (let thb = create_tile_header_buffer (predefined_thb_address l) ts
      in (thb, l\<lparr>allocated_thbs := [(ts, thb)], end_section := thb # end_section l\<rparr>))"
  by (simp add: l1_alloc_defs create_buffer_defs Let_def)

lemma allocate_thb_later:
  "allocated_thbs l \<noteq> [] \<Longrightarrow> map_of (allocated_thbs l) ts = None \<Longrightarrow>
     allocate_l1_tile_header_buffer ts l =
     (let address = current_space_address l - tile_header_buffer_size_bytes;
          thb = create_tile_header_buffer address ts
      in (thb, l\<lparr>current_space_address := address, allocated_thbs := (ts, thb) # allocated_thbs l,
                 end_section := thb # end_section l\<rparr>))"
  by (simp add: l1_alloc_defs create_buffer_defs Let_def)

lemma l1_inv_thb:
  assumes inv: "l1_inv l"
  shows "l1_inv (snd (allocate_l1_tile_header_buffer ts l))"
proof (cases "map_of (allocated_thbs l) ts")
  case None
  note fresh = end_section_no_kind [OF inv None]
  show ?thesis
  proof (cases "allocated_thbs l = []")
    case True
    have "filter (\<lambda>b. buf_kind b \<noteq> TileHeaderBuffer ts) (end_section l) = end_section l"
        "filter (\<lambda>b. buf_kind b = TileHeaderBuffer ts) (end_section l) = []"
      using fresh by (auto simp: filter_id_conv filter_empty_conv)
    then show ?thesis
      using inv True fresh
      by (auto simp: l1_inv_def allocate_thb_first create_buffer_defs carved_buffers_def
          predefined_buffers_def first_thb_kind_def end_section_buffer_ok_def thb_entry_ok_def Let_def)
  next
    case False
    have new: "ts \<notin> fst ` set (allocated_thbs l)"
      using None by (simp add: map_of_eq_None_iff)
    have "ts \<noteq> fst (last (allocated_thbs l))"
      using new False by auto
    then show ?thesis
      using inv False new
      by (auto simp: l1_inv_def allocate_thb_later [OF False None] create_buffer_defs
          carved_buffers_def predefined_buffers_def first_thb_kind_def end_section_buffer_ok_def
          thb_entry_ok_def Let_def)
  qed
qed (simp add: allocate_l1_tile_header_buffer_def inv)

lemma start_section_ok_Cons:
  "start_section_ok start extra (b # bs) \<Longrightarrow>
     bs = [] \<and> b = create_extra_overlay_blob_buffer start extra"
  by (cases bs) auto

lemma l1_inv_allocate: "l1_inv l \<Longrightarrow> l1_inv (snd (l1_allocate None env l r))"
proof (cases r)
  case (ReqTileHeader ts)
  assume "l1_inv l"
  from l1_inv_thb [OF this, of ts] show ?thesis
    using ReqTileHeader by (simp add: case_prod_unfold Let_def)
next
  case (ReqStream node n)
  assume "l1_inv l"
  from l1_inv_push [OF this, of "create_stream_buffer node (current_space_address l - n) n"]
  show ?thesis
    using ReqStream \<open>l1_inv l\<close> by (simp add: l1_alloc_defs create_buffer_defs Let_def)
next
  case (ReqFallback n)
  assume "l1_inv l"
  from l1_inv_push [OF this, of "create_ncrisc_fallback_buffer (current_space_address l - n) n"]
  show ?thesis
    using ReqFallback \<open>l1_inv l\<close> by (simp add: l1_alloc_defs create_buffer_defs Let_def)
next
  case (ReqExtraBlob n e)
  assume "l1_inv l"
  then show ?thesis
    using ReqExtraBlob
    by (cases "start_section l")
      (auto simp: l1_inv_def l1_alloc_defs create_buffer_defs Let_def carved_buffers_def
        predefined_buffers_def first_thb_kind_def dest!: start_section_ok_Cons)
qed

text \<open>The constants of a layout, which no allocation changes.\<close>

definition l1_constants :: "l1_layout \<Rightarrow> tt_cxy_pair \<times> tt_cxy_pair \<times> u32 \<times> u32 \<times> u32" where
  "l1_constants l = (lay_physical_location l, lay_logical_location l, space_start_address l,
     space_end_address l, predefined_thb_address l)"

lemma l1_constants_allocate: "l1_constants (snd (l1_allocate fe env l r)) = l1_constants l"
  by (cases r)
    (auto simp: l1_constants_def l1_alloc_defs create_buffer_defs Let_def case_prod_unfold
      split: option.split list.split)

interpretation l1: invariant_ops "l1_allocate None env"
    "\<lambda>l. l1_inv l \<and> l1_constants l = c" "\<lambda>_. True"
  for env c
  by unfold_locales (simp add: l1_inv_allocate l1_constants_allocate)

lemmas l1_run_inv = l1.run_inv [simplified]

section \<open>What the requests take\<close>

text \<open>
  The bytes a list of requests cuts from the space: the stream and fallback buffers at their size,
  and a tile header buffer for each tile size but the first one asked for.
\<close>

fun request_bytes :: "l1_request \<Rightarrow> nat" where
  "request_bytes (ReqStream node n) = unat n"
| "request_bytes (ReqFallback n) = unat n"
| "request_bytes _ = 0"

fun request_thbs :: "l1_request \<Rightarrow> u32 set" where
  "request_thbs (ReqTileHeader t) = {t}"
| "request_thbs _ = {}"

definition l1_demand :: "l1_request list \<Rightarrow> nat" where
  "l1_demand rs = sum_list (map request_bytes rs)
     + unat tile_header_buffer_size_bytes * (card (\<Union>(set (map request_thbs rs))) - 1)"

definition known_thbs :: "l1_layout \<Rightarrow> u32 set" where
  "known_thbs l = fst ` set (allocated_thbs l)"

lemma finite_known_thbs [simp]: "finite (known_thbs l)"
  by (simp add: known_thbs_def)

lemma finite_request_thbs [simp]: "finite (request_thbs r)"
  by (cases r) auto

lemma known_thbs_thb:
  "known_thbs (snd (allocate_l1_tile_header_buffer t l)) = insert t (known_thbs l)"
proof (cases "map_of (allocated_thbs l) t")
  case (Some b)
  then have "t \<in> known_thbs l"
    unfolding known_thbs_def by (force dest: map_of_SomeD)
  then show ?thesis using Some by (auto simp: allocate_l1_tile_header_buffer_def)
next
  case None
  then show ?thesis
    by (cases "allocated_thbs l = []")
      (auto simp: known_thbs_def allocate_thb_first Let_def allocate_thb_later [OF _ None])
qed

lemma known_thbs_step:
  "known_thbs (snd (l1_allocate None env l r)) = known_thbs l \<union> request_thbs r"
proof (cases r)
  case (ReqTileHeader t)
  then show ?thesis by (simp add: case_prod_unfold Let_def known_thbs_thb)
qed (auto simp: known_thbs_def l1_alloc_defs create_buffer_defs Let_def case_prod_unfold
      split: list.split)

lemma known_thbs_run:
  "known_thbs (snd (run_ops (l1_allocate None env) l rs))
     = known_thbs l \<union> \<Union>(set (map request_thbs rs))"
proof (induction rs arbitrary: l)
  case (Cons r rs)
  then show ?case by (simp only: run_ops_Cons_split snd_conv known_thbs_step) (simp add: Un_assoc)
qed simp

lemma known_thb_address: "t \<in> known_thbs l \<Longrightarrow> \<exists>a. get_tile_header_buffer_address t l = Inr a"
  by (cases "map_of (allocated_thbs l) t")
    (auto simp: get_tile_header_buffer_address_def known_thbs_def map_of_eq_None_iff)

definition thb_bytes :: "u32 set \<Rightarrow> nat" where
  "thb_bytes K = unat tile_header_buffer_size_bytes * (card K - 1)"

lemma bytes_carved_thb:
  assumes inv: "l1_inv l"
  shows "bytes (carved_buffers (snd (allocate_l1_tile_header_buffer t l))) + thb_bytes (known_thbs l)
    = bytes (carved_buffers l) + thb_bytes (insert t (known_thbs l))"
proof (cases "map_of (allocated_thbs l) t")
  case (Some b)
  then have "insert t (known_thbs l) = known_thbs l"
    by (auto simp: known_thbs_def dest: map_of_SomeD intro: rev_image_eqI)
  then show ?thesis using Some by (simp add: allocate_l1_tile_header_buffer_def)
next
  case None
  then have new: "t \<notin> known_thbs l" by (simp add: known_thbs_def map_of_eq_None_iff)
  show ?thesis
  proof (cases "allocated_thbs l = []")
    case True
    have "filter (\<lambda>b. buf_kind b \<noteq> TileHeaderBuffer t) (end_section l) = end_section l"
      using end_section_no_kind [OF inv None] by (auto simp: filter_id_conv)
    then show ?thesis
      using True by (simp add: allocate_thb_first carved_buffers_def first_thb_kind_def Let_def
          create_buffer_defs known_thbs_def thb_bytes_def)
  next
    case False
    have "t \<noteq> fst (last (allocated_thbs l))" "card (known_thbs l) \<noteq> 0"
      using new False by (auto simp: known_thbs_def)
    then show ?thesis
      using new False
      by (cases "card (known_thbs l)")
        (auto simp: allocate_thb_later [OF False None] carved_buffers_def first_thb_kind_def Let_def
          create_buffer_defs thb_bytes_def)
  qed
qed

lemma bytes_carved_step:
  assumes inv: "l1_inv l"
  shows "bytes (carved_buffers (snd (l1_allocate None env l r))) + thb_bytes (known_thbs l)
    = bytes (carved_buffers l) + request_bytes r
      + thb_bytes (known_thbs (snd (l1_allocate None env l r)))"
proof (cases r)
  case (ReqTileHeader t)
  then show ?thesis
    using bytes_carved_thb [OF inv, of t] known_thbs_step [of env l r]
    by (simp add: case_prod_unfold Let_def)
qed (auto simp: l1_alloc_defs create_buffer_defs Let_def case_prod_unfold carved_buffers_def
      first_thb_kind_def known_thbs_def split: list.split)

lemma bytes_carved_run:
  assumes "l1_inv l"
  shows "bytes (carved_buffers (snd (run_ops (l1_allocate None env) l rs))) + thb_bytes (known_thbs l)
    = bytes (carved_buffers l) + sum_list (map request_bytes rs)
      + thb_bytes (known_thbs l \<union> \<Union>(set (map request_thbs rs)))"
  using assms
proof (induction rs arbitrary: l)
  case Nil
  then show ?case by simp
next
  case (Cons r rs)
  let ?l = "snd (l1_allocate None env l r)"
  have "l1_inv ?l" using Cons.prems by (rule l1_inv_allocate)
  from Cons.IH [OF this] bytes_carved_step [OF Cons.prems, of env r]
  show ?case
    by (simp only: run_ops_Cons_split snd_conv known_thbs_step) (simp add: Un_assoc)
qed

lemma bytes_carved_new:
  "bytes (carved_buffers (snd (run_ops (l1_allocate None env) (new_l1_layout p q s e t) rs)))
     = l1_demand rs"
  using bytes_carved_run [OF l1_inv_new, of env p q s e t rs]
  by (simp add: l1_demand_def known_thbs_def thb_bytes_def carved_buffers_def new_l1_layout_def)

section \<open>A core's layout\<close>

text \<open>The layout a core starts with, over the address map of its kind.\<close>

definition core_l1_layout :: "tt_cxy_pair \<Rightarrow> tt_cxy_pair \<Rightarrow> l1_address_map \<Rightarrow> l1_layout" where
  "core_l1_layout p q m =
     new_l1_layout p q (DATA_BUFFER_SPACE_BASE m) (MAX_SIZE m) (TILE_HEADER_BUFFER_BASE m)"

lemma run_from_core_layout:
  assumes l_def: "l = snd (run_ops (l1_allocate None env) (core_l1_layout p q m) rs)"
  shows "l1_inv l" and "lay_physical_location l = p" and "lay_logical_location l = q"
    and "space_start_address l = DATA_BUFFER_SPACE_BASE m"
    and "space_end_address l = MAX_SIZE m - unused_data_buffers_space_bytes"
    and "predefined_thb_address l = TILE_HEADER_BUFFER_BASE m"
    and "bytes (carved_buffers l) = l1_demand rs"
proof -
  have *: "l1_inv l \<and> l1_constants l = l1_constants (core_l1_layout p q m)"
    unfolding l_def by (rule l1_run_inv) (simp add: core_l1_layout_def l1_inv_new)
  then show "l1_inv l" by simp
  from * show "lay_physical_location l = p" "lay_logical_location l = q"
    "space_start_address l = DATA_BUFFER_SPACE_BASE m"
    "space_end_address l = MAX_SIZE m - unused_data_buffers_space_bytes"
    "predefined_thb_address l = TILE_HEADER_BUFFER_BASE m"
    by (simp_all add: l1_constants_def core_l1_layout_def new_l1_layout_def)
  show "bytes (carved_buffers l) = l1_demand rs"
    by (simp add: l_def core_l1_layout_def bytes_carved_new)
qed

lemma core_space_end:
  "l1_map_ok m \<Longrightarrow> unat (MAX_SIZE m - unused_data_buffers_space_bytes)
     = unat (MAX_SIZE m) - unat unused_data_buffers_space_bytes
   \<and> unat (DATA_BUFFER_SPACE_BASE m) < unat (MAX_SIZE m) - unat unused_data_buffers_space_bytes"
  by (auto simp: l1_map_ok_def unat_minus_no_wrap)

lemma check_passes_unat:
  assumes "unat (space_start_address l) + unat (extra_overlay_blob_space l) < 2 ^ 32"
  shows "l1_out_of_memory l \<longleftrightarrow> unat (current_space_address l)
    < unat (space_start_address l) + unat (extra_overlay_blob_space l)"
  using assms by (simp add: l1_out_of_memory_def word_less_nat_alt unat_plus_no_wrap)

lemma within_disjoint:
  "within lo hi b \<Longrightarrow> buffer_end a \<le> lo \<Longrightarrow> disjoint_buffers a b \<and> disjoint_buffers b a"
  by (auto simp: within_def disjoint_buffers_def)

text \<open>What the invariant gives once the pointer is known to be above the blob space.\<close>

lemma l1_inv_buffers:
  assumes inv: "l1_inv l"
    and nowrap: "bytes (carved_buffers l) \<le> unat (space_end_address l)"
    and thb: "unat (predefined_thb_address l) + unat tile_header_buffer_size_bytes
      \<le> unat (space_start_address l)"
    and room: "unat (space_start_address l) + unat (extra_overlay_blob_space l)
      \<le> unat (current_space_address l)"
  shows "sorted_wrt disjoint_buffers (get_all_allocated_buffers l)
    \<and> (\<forall>b \<in> set (get_all_allocated_buffers l).
         (buf_address b = predefined_thb_address l \<and> buf_size b = tile_header_buffer_size_bytes)
         \<or> within (unat (space_start_address l)) (unat (space_end_address l)) b)"
proof -
  let ?cur = "unat (current_space_address l)" and ?top = "unat (space_end_address l)"
  let ?first = "\<lambda>b. Some (buf_kind b) = first_thb_kind l"
  from stacked_sound [OF _ nowrap] inv
  have st: "?cur + bytes (carved_buffers l) = ?top"
    "\<And>b. b \<in> set (carved_buffers l) \<Longrightarrow> within ?cur ?top b"
    "sorted_wrt disjoint_buffers (carved_buffers l)"
    by (auto simp: l1_inv_def)
  have first: "predefined_buffers l = [] \<or> (\<exists>t. predefined_buffers l = [t]
      \<and> buf_address t = predefined_thb_address l \<and> buf_size t = tile_header_buffer_size_bytes)"
  proof (cases "allocated_thbs l = []")
    case True
    then show ?thesis by (simp add: predefined_buffers_def first_thb_kind_def)
  next
    case False
    then show ?thesis using inv by (auto simp: l1_inv_def thb_entry_ok_def)
  qed
  have in_first: "buf_address b = predefined_thb_address l
      \<and> buf_size b = tile_header_buffer_size_bytes \<and> buffer_end b \<le> unat (space_start_address l)"
    if "b \<in> set (end_section l)" "?first b" for b
  proof -
    have "b \<in> set (predefined_buffers l)" using that by (simp add: predefined_buffers_def)
    then show ?thesis using first thb by (auto simp: buffer_end_def)
  qed
  have in_rest: "within ?cur ?top b" if "b \<in> set (end_section l)" "\<not> ?first b" for b
    using st(2) that by (simp add: carved_buffers_def)
  have "sorted_wrt disjoint_buffers (end_section l)"
  proof (rule sorted_wrt_partition [where P = ?first])
    show "sorted_wrt disjoint_buffers (filter ?first (end_section l))"
      using first by (auto simp: predefined_buffers_def)
    show "sorted_wrt disjoint_buffers (filter (\<lambda>b. \<not> ?first b) (end_section l))"
      using st(3) by (simp add: carved_buffers_def)
    show "disjoint_buffers a b \<and> disjoint_buffers b a"
      if "a \<in> set (end_section l)" "b \<in> set (end_section l)" "?first a" "\<not> ?first b" for a b
      using in_first [OF that(1,3)] in_rest [OF that(2,4)] room
      by (intro within_disjoint [of ?cur ?top]) auto
  qed
  moreover have blob: "start_section l = [] \<or> (\<exists>b. start_section l = [b]
      \<and> buf_address b = space_start_address l \<and> buf_size b = extra_overlay_blob_space l)"
    using inv by (cases "start_section l")
      (auto simp: l1_inv_def create_buffer_defs dest!: start_section_ok_Cons)
  ultimately show ?thesis
    using in_first in_rest room st(1)
    by (fastforce simp: get_all_allocated_buffers_def sorted_wrt_append disjoint_buffers_def
        within_def buffer_end_def)
qed

section \<open>Properties\<close>

text \<open>C5 On a well-formed address map, after any sequence of allocations on a fresh core whose total demand does not exceed the end
  address and whose extra blob space ends within the 32-bit address space, if the memory check passes then no two
  allocated buffers overlap, and every buffer lies in the data buffer space, except the first tile header buffer,
  which sits at its predefined address below that space. Beyond these bounds the check can pass although the
  buffers do not fit, as the lemma \<open>l1_check_wraps\<close> shows.\<close>

theorem l1_buffers_disjoint:
  assumes "l1_map_ok m"
    and "l = snd (run_ops (l1_allocate None env) (core_l1_layout p q m) rs)"
    and "l1_demand rs \<le> unat (space_end_address l)"
    and "unat (space_start_address l) + unat (extra_overlay_blob_space l) < 2 ^ 32"
    and "check_if_out_of_l1_data_buffers_memory l = Inr ()"
  shows "sorted_wrt disjoint_buffers (get_all_allocated_buffers l)
    \<and> (\<forall>b \<in> set (get_all_allocated_buffers l).
         (buf_address b = TILE_HEADER_BUFFER_BASE m \<and> buf_size b = tile_header_buffer_size_bytes)
         \<or> within (unat (DATA_BUFFER_SPACE_BASE m)) (unat (MAX_SIZE m) - 64) b)"
proof -
  note run = run_from_core_layout [OF assms(2)]
  have "\<not> l1_out_of_memory l"
    using assms(5) by (auto simp: check_if_out_of_l1_data_buffers_memory_def Let_def split: if_splits)
  then have room: "unat (space_start_address l) + unat (extra_overlay_blob_space l)
      \<le> unat (current_space_address l)"
    by (simp add: check_passes_unat [OF assms(4)])
  have "unat (space_end_address l) = unat (MAX_SIZE m) - 64"
    using core_space_end [OF assms(1)] by (simp add: run unused_data_buffers_space_bytes_def)
  then show ?thesis
    using l1_inv_buffers [OF run(1) _ _ room] assms(1,3) run by (auto simp: l1_map_ok_def)
qed

definition sample_blob_sizes :: blob_sizes where
  "sample_blob_sizes = \<lparr>min_worker = 65408, min_eth = 32640, full_worker = 65408, full_eth = 32640\<rparr>"

definition sample_core :: tt_cxy_pair where
  "sample_core = \<lparr>cxy_chip = 0, cxy_x = 1, cxy_y = 1\<rparr>"

definition sample_requests :: "l1_request list" where
  "sample_requests = [ReqTileHeader 2080, ReqExtraBlob 131072 False, ReqStream 0 65536,
     ReqTileHeader 1056, ReqTileHeader 2080, ReqFallback 4096]"

lemmas sample_defs = sample_blob_sizes_def sample_core_def sample_requests_def

definition sample_layout :: l1_layout where
  "sample_layout = snd (run_ops (l1_allocate None sample_blob_sizes)
     (core_l1_layout sample_core sample_core wormhole_l1_map) sample_requests)"

lemmas l1_eval =
  l1_alloc_defs create_buffer_defs calculate_extra_blob_space_to_allocate_def core_l1_layout_def
  new_l1_layout_def l1_map_defs unused_data_buffers_space_bytes_def
  tile_header_buffer_size_bytes_def

lemma sample_layout_eval:
  "space_start_address sample_layout = 0x33000" "space_end_address sample_layout = 1499072"
  "extra_overlay_blob_space sample_layout = 0x10000"
  "current_space_address sample_layout = 1396672"
  by (simp_all add: sample_layout_def sample_defs l1_eval Let_def)

lemma sample_demand: "l1_demand sample_requests = 102400"
  by (simp add: l1_demand_def sample_requests_def tile_header_buffer_size_bytes_def card_insert_if)

lemma sample_layout_facts:
  "l1_demand sample_requests \<le> unat (space_end_address sample_layout)"
  "unat (space_start_address sample_layout) + unat (extra_overlay_blob_space sample_layout) < 2 ^ 32"
  "check_if_out_of_l1_data_buffers_memory sample_layout = Inr ()"
  by (simp_all add: sample_layout_eval sample_demand check_if_out_of_l1_data_buffers_memory_def
        l1_out_of_memory_def)

theorem l1_buffers_disjoint_witness:
  "sorted_wrt disjoint_buffers (get_all_allocated_buffers sample_layout)"
  using l1_buffers_disjoint [OF l1_maps_ok(1) sample_layout_def sample_layout_facts(1-3)] by simp

text \<open>C32 The memory check is exact on a well-formed address map: as long as the demand does not exceed the end address and the extra blob
  space ends within the 32-bit address space, it passes precisely when the demand and the extra blob space fit
  between the ends of the space, and throws otherwise, reporting the bytes available and the bytes asked for.
  Beyond these bounds it can pass wrongly, as the lemma \<open>l1_check_wraps\<close> shows.\<close>

theorem l1_memory_check_exact:
  assumes "l1_map_ok m"
    and "l = snd (run_ops (l1_allocate None env) (core_l1_layout p q m) rs)"
    and "l1_demand rs \<le> unat (space_end_address l)"
    and "unat (space_start_address l) + unat (extra_overlay_blob_space l) < 2 ^ 32"
  shows "check_if_out_of_l1_data_buffers_memory l =
    (if l1_demand rs + unat (extra_overlay_blob_space l)
          \<le> unat (space_end_address l) - unat (DATA_BUFFER_SPACE_BASE m)
     then Inr ()
     else Inl (OutOfCoreResources p (Some q) L1DataBuffersMemory
            (MAX_SIZE m - unused_data_buffers_space_bytes - DATA_BUFFER_SPACE_BASE m)
            (word_of_nat (l1_demand rs + unat (extra_overlay_blob_space l)))))"
proof -
  note run = run_from_core_layout [OF assms(2)]
  have cur: "unat (current_space_address l) + l1_demand rs = unat (space_end_address l)"
    using stacked_sound [of "current_space_address l" "carved_buffers l" "space_end_address l"]
      run(1,7) assms(3) by (auto simp: l1_inv_def)
  have lt: "unat (DATA_BUFFER_SPACE_BASE m) < unat (space_end_address l)"
    using core_space_end [OF assms(1)] by (simp add: run)
  have "word_of_nat (l1_demand rs) = space_end_address l - current_space_address l"
    using arg_cong [OF cur, of "word_of_nat :: nat \<Rightarrow> u32"] by (simp add: algebra_simps)
  then have "space_end_address l - current_space_address l + extra_overlay_blob_space l
      = word_of_nat (l1_demand rs + unat (extra_overlay_blob_space l))"
    by simp
  moreover have "l1_out_of_memory l \<longleftrightarrow> \<not> l1_demand rs + unat (extra_overlay_blob_space l)
          \<le> unat (space_end_address l) - unat (DATA_BUFFER_SPACE_BASE m)"
    using cur lt by (auto simp: check_passes_unat [OF assms(4)] run(4))
  ultimately show ?thesis
    by (simp add: check_if_out_of_l1_data_buffers_memory_def Let_def run)
qed

theorem l1_memory_check_exact_witness:
  "check_if_out_of_l1_data_buffers_memory sample_layout = Inr ()
   \<and> l1_demand sample_requests = 102400"
  using l1_memory_check_exact [OF l1_maps_ok(1) sample_layout_def sample_layout_facts(1,2)]
  by (simp add: sample_demand sample_layout_eval l1_map_defs)

text \<open>The tile header buffer of a tile size is allocated once: after any sequence of allocations
  that asked for a tile size its address can be read back, it is the address of a buffer of that
  core, and asking again changes nothing and returns the buffer at that address.\<close>

theorem tile_header_buffer_once:
  assumes "l = snd (run_ops (l1_allocate None env) (core_l1_layout p q m) rs)"
    and "ReqTileHeader t \<in> set rs"
  shows "\<exists>b \<in> set (get_all_allocated_buffers l). buf_kind b = TileHeaderBuffer t
    \<and> get_tile_header_buffer_address t l = Inr (buf_address b)
    \<and> allocate_l1_tile_header_buffer t l = (b, l)"
proof -
  note inv = run_from_core_layout(1) [OF assms(1)]
  have "t \<in> known_thbs l"
    using assms by (force simp: known_thbs_run)
  then obtain b where "map_of (allocated_thbs l) t = Some b"
    by (metis known_thbs_def map_of_eq_None_iff not_Some_eq)
  moreover from this inv have "thb_entry_ok (set (end_section l)) (t, b)"
    by (auto simp: l1_inv_def dest: map_of_SomeD)
  ultimately show ?thesis
    by (intro bexI [of _ b])
      (auto simp: get_tile_header_buffer_address_def allocate_l1_tile_header_buffer_def
        thb_entry_ok_def get_all_allocated_buffers_def)
qed

theorem tile_header_buffer_once_witness:
  "\<exists>b \<in> set (get_all_allocated_buffers sample_layout). buf_kind b = TileHeaderBuffer 1056
    \<and> get_tile_header_buffer_address 1056 sample_layout = Inr (buf_address b)
    \<and> allocate_l1_tile_header_buffer 1056 sample_layout = (b, sample_layout)"
  by (rule tile_header_buffer_once [OF sample_layout_def]) (simp add: sample_requests_def)

section \<open>Outside the bounds\<close>

text \<open>
  The check compares the pointer only: when the sizes asked for go round the 32-bit address space
  it passes. Read on an empty start section as a blob buffer, \<open>front()\<close> makes the first extra
  blob request return that buffer and reserve nothing.
\<close>

lemma l1_check_wraps:
  "let l = snd (run_ops (l1_allocate None sample_blob_sizes)
       (core_l1_layout sample_core sample_core wormhole_l1_map)
       [ReqStream 0 0xC0000000, ReqStream 1 0x40000000])
   in check_if_out_of_l1_data_buffers_memory l = Inr ()
      \<and> bytes (carved_buffers l) = 2 ^ 32"
  by (simp add: l1_eval sample_defs carved_buffers_def first_thb_kind_def Let_def
      check_if_out_of_l1_data_buffers_memory_def l1_out_of_memory_def)

lemma extra_blob_front_of_empty:
  assumes "start_section l = []"
  shows "snd (allocate_l1_extra_overlay_blob_space (Some b) env n e l) = l"
  using assms by (simp add: l1_alloc_defs Let_def)

end
