(* ===== verification/CoreResources.thy ===== *)
theory CoreResources
  imports OperandStreams L1Layout
begin

text \<open>
  The resources of a core (\<open>src/src/pipegen2/lib/src/device\<close>): stream ids, kernel inputs and outputs
  and the L1 data buffers. The class \<open>CoreResources\<close> is a record, its subclasses extend it; a
  virtual method is an argument of the base operation that calls it. An operation that throws
  keeps the changes made before the throw.
\<close>

section \<open>CoreResources\<close>

record core_resources =
  physical_location :: tt_cxy_pair
  logical_location :: tt_cxy_pair
  extra_streams_id_range_start :: u32
  extra_streams_id_range_end :: u32
  next_available_extra_stream_id :: u32
  allocated_stream_ids :: "u32 set"
  next_available_kernel_input_index :: u32
  next_available_kernel_output_index :: u32
  l1_data_buffers_memory :: l1_layout

definition max_kernel_inputs_count :: u32 where "max_kernel_inputs_count = 24"
definition max_kernel_outputs_count :: u32 where "max_kernel_outputs_count = 24"

definition out_of ::
  "core_resource_type \<Rightarrow> u32 \<Rightarrow> ('x core_resources_scheme, pipegen2_exn, 'a) opn" where
  "out_of t available c =
     throw (out_of_core_resources_at (physical_location c) (logical_location c) t available) c"

text \<open>
  \<open>allocate_gather_stream\<close>, \<open>allocate_multicast_stream\<close> and \<open>allocate_general_purpose_stream\<close> share
  one body, over the virtual method that finds the next id.
\<close>

definition record_stream ::
  "('x core_resources_scheme, pipegen2_exn, u32) opn \<Rightarrow> ('x core_resources_scheme, pipegen2_exn, u32) opn"
  where
  "record_stream get_next_available =
     andThen get_next_available (\<lambda>stream_id c.
       (Inr stream_id, c\<lparr>allocated_stream_ids := insert stream_id (allocated_stream_ids c)\<rparr>))"

definition allocate_kernel_input :: "('x core_resources_scheme, pipegen2_exn, u32) opn" where
  "allocate_kernel_input c =
     (if next_available_kernel_input_index c \<ge> max_kernel_inputs_count
      then out_of KernelInputIndex max_kernel_inputs_count c
      else (Inr (next_available_kernel_input_index c),
            c\<lparr>next_available_kernel_input_index := next_available_kernel_input_index c + 1\<rparr>))"

definition allocate_kernel_output :: "('x core_resources_scheme, pipegen2_exn, u32) opn" where
  "allocate_kernel_output c =
     (if next_available_kernel_output_index c \<ge> max_kernel_outputs_count
      then out_of KernelOutputIndex max_kernel_outputs_count c
      else (Inr (next_available_kernel_output_index c),
            c\<lparr>next_available_kernel_output_index := next_available_kernel_output_index c + 1\<rparr>))"

text \<open>The L1 operations are those of the layout.\<close>

definition on_l1 :: "(l1_layout \<Rightarrow> 'a \<times> l1_layout) \<Rightarrow> ('x core_resources_scheme, pipegen2_exn, 'a) opn"
  where
  "on_l1 f c = (let (a, l) = f (l1_data_buffers_memory c) in (Inr a, c\<lparr>l1_data_buffers_memory := l\<rparr>))"

definition new_core_resources ::
  "tt_cxy_pair \<Rightarrow> tt_cxy_pair \<Rightarrow> u32 \<Rightarrow> u32 \<Rightarrow> u32 \<Rightarrow> u32 \<Rightarrow> u32 \<Rightarrow> core_resources" where
  "new_core_resources phys logical range_start range_end space_start space_end thb_address =
     \<lparr> physical_location = phys,
       logical_location = logical,
       extra_streams_id_range_start = range_start,
       extra_streams_id_range_end = range_end,
       next_available_extra_stream_id = range_start,
       allocated_stream_ids = {},
       next_available_kernel_input_index = 0,
       next_available_kernel_output_index = 0,
       l1_data_buffers_memory = new_l1_layout phys logical space_start space_end thb_address \<rparr>"

section \<open>WorkerCoreResources\<close>

text \<open>
  The dynamic class of a worker core is its architecture: Grayskull, or Wormhole, whose subclass
  for Blackhole changes nothing.
\<close>

record worker_core_resources = core_resources +
  worker_arch :: tt_arch
  next_available_gather_multicast_stream_id :: u32

definition gather_multicast_streams_id_range_start :: u32 where
  "gather_multicast_streams_id_range_start = 0"

fun gather_multicast_streams_id_range_end :: "tt_arch \<Rightarrow> u32" where
  "gather_multicast_streams_id_range_end GRAYSKULL = 2"
| "gather_multicast_streams_id_range_end _ = 3"

definition new_worker_core_resources ::
  "l1_address_map \<Rightarrow> tt_arch \<Rightarrow> tt_cxy_pair \<Rightarrow> tt_cxy_pair \<Rightarrow> worker_core_resources" where
  "new_worker_core_resources m a phys logical =
     core_resources.extend
       (new_core_resources phys logical (END_IO_STREAM + 1) (NOC_NUM_STREAMS - 1)
          (DATA_BUFFER_SPACE_BASE m) (MAX_SIZE m) (TILE_HEADER_BUFFER_BASE m))
       (worker_core_resources.fields a gather_multicast_streams_id_range_start)"

definition worker_multicast_streams_count :: "worker_core_resources \<Rightarrow> u32" where
  "worker_multicast_streams_count w =
     gather_multicast_streams_id_range_end (worker_arch w)
       - gather_multicast_streams_id_range_start + 1"

definition worker_general_purpose_streams_count :: "worker_core_resources \<Rightarrow> u32" where
  "worker_general_purpose_streams_count w =
     extra_streams_id_range_end w - extra_streams_id_range_start w + 1"

text \<open>\<open>get_next_available_gather_multicast_stream_id\<close>, also the gather method of both classes.\<close>

definition worker_next_gather_multicast :: "(worker_core_resources, pipegen2_exn, u32) opn" where
  "worker_next_gather_multicast w =
     (if next_available_gather_multicast_stream_id w
           > gather_multicast_streams_id_range_end (worker_arch w)
      then out_of GatherMulticastStreams (worker_multicast_streams_count w) w
      else (Inr (next_available_gather_multicast_stream_id w),
            w\<lparr>next_available_gather_multicast_stream_id :=
                next_available_gather_multicast_stream_id w + 1\<rparr>))"

text \<open>The \<open>do ... while\<close> of the Wormhole class, which skips ids taken for packer-multicast.\<close>

function wh_next_multicast :: "(worker_core_resources, pipegen2_exn, u32) opn" where
  "wh_next_multicast w =
     (case worker_next_gather_multicast w of
        (Inl e, w1) \<Rightarrow> (Inl e, w1)
      | (Inr stream_id, w1) \<Rightarrow>
          if stream_id \<in> allocated_stream_ids w1 then wh_next_multicast w1 else (Inr stream_id, w1))"
  by pat_completeness auto

lemma range_end_le: "gather_multicast_streams_id_range_end a \<le> 3"
  by (cases a) simp_all

lemma next_gather_multicast_bound:
  "n \<le> gather_multicast_streams_id_range_end a \<Longrightarrow> unat n \<le> 3 \<and> unat (n + 1) = unat n + 1"
proof -
  assume "n \<le> gather_multicast_streams_id_range_end a"
  then have "n \<le> 3" using range_end_le by (rule order_trans)
  then show ?thesis by (simp add: word_le_nat_alt unat_plus_no_wrap)
qed

termination wh_next_multicast
proof (relation "measure (\<lambda>w. 4 - unat (next_available_gather_multicast_stream_id w))", goal_cases)
  case (2 w r w1 stream_id)
  then show ?case
    using next_gather_multicast_bound [of "next_available_gather_multicast_stream_id w" "worker_arch w"]
    by (auto simp: worker_next_gather_multicast_def out_of_def throw_def not_less split: if_splits)
qed simp

fun worker_next_multicast :: "tt_arch \<Rightarrow> (worker_core_resources, pipegen2_exn, u32) opn" where
  "worker_next_multicast GRAYSKULL = worker_next_gather_multicast"
| "worker_next_multicast _ = wh_next_multicast"

definition packer_multicast_operand_range_start :: u32 where "packer_multicast_operand_range_start = 16"
definition packer_multicast_operand_range_end :: u32 where "packer_multicast_operand_range_end = 19"

fun get_packer_multicast_stream_id :: "tt_arch \<Rightarrow> tt_cxy_pair \<Rightarrow> int \<Rightarrow> pipegen2_exn + u32" where
  "get_packer_multicast_stream_id GRAYSKULL phys operand_id =
     Inl (IllegalCoreResourceAllocation phys PackerMulticastStreams)"
| "get_packer_multicast_stream_id a phys operand_id =
     (if word_of_int operand_id < packer_multicast_operand_range_start
         \<or> word_of_int operand_id > packer_multicast_operand_range_end
      then Inl (IllegalCoreResourceAllocation phys PackerMulticastStreams)
      else bind_sum (get_output_index operand_id)
             (\<lambda>i. Inr (gather_multicast_streams_id_range_end a - i)))"

definition worker_next_general_purpose :: "(worker_core_resources, pipegen2_exn, u32) opn" where
  "worker_next_general_purpose w =
     (if next_available_extra_stream_id w > extra_streams_id_range_end w
      then out_of GeneralPurposeStreams (worker_general_purpose_streams_count w) w
      else (Inr (next_available_extra_stream_id w),
            w\<lparr>next_available_extra_stream_id := next_available_extra_stream_id w + 1\<rparr>))"

text \<open>
  The four operations on an operand's stream share their tail: refuse a stream already allocated,
  record it otherwise.
\<close>

definition claim_stream ::
  "core_resource_type \<Rightarrow> u32 \<Rightarrow> (worker_core_resources, pipegen2_exn, u32) opn" where
  "claim_stream t stream_id w =
     (if stream_id \<in> allocated_stream_ids w then out_of t 1 w
      else (Inr stream_id, w\<lparr>allocated_stream_ids := insert stream_id (allocated_stream_ids w)\<rparr>))"

definition allocate_operand_stream ::
  "(int \<Rightarrow> bool) \<Rightarrow> core_resource_type \<Rightarrow> int \<Rightarrow> (worker_core_resources, pipegen2_exn, u32) opn" where
  "allocate_operand_stream valid t operand_id w =
     (if \<not> valid operand_id then (Inl (IllegalCoreResourceAllocation (physical_location w) t), w)
      else claim_stream t (get_operand_stream_id (worker_arch w) operand_id) w)"

definition allocate_packer_stream :: "int \<Rightarrow> (worker_core_resources, pipegen2_exn, u32) opn" where
  "allocate_packer_stream = allocate_operand_stream is_output_operand PackerStreams"

definition allocate_unpacker_stream :: "int \<Rightarrow> (worker_core_resources, pipegen2_exn, u32) opn" where
  "allocate_unpacker_stream = allocate_operand_stream is_input_operand UnpackerStreams"

definition allocate_intermed_stream :: "int \<Rightarrow> (worker_core_resources, pipegen2_exn, u32) opn" where
  "allocate_intermed_stream = allocate_operand_stream is_intermediate_operand IntermediateStreams"

definition allocate_packer_multicast_stream :: "int \<Rightarrow> (worker_core_resources, pipegen2_exn, u32) opn"
  where
  "allocate_packer_multicast_stream operand_id w =
     (case get_packer_multicast_stream_id (worker_arch w) (physical_location w) operand_id of
        Inl e \<Rightarrow> (Inl e, w)
      | Inr stream_id \<Rightarrow> claim_stream PackerMulticastStreams stream_id w)"

definition worker_allocate_gather_stream :: "(worker_core_resources, pipegen2_exn, u32) opn" where
  "worker_allocate_gather_stream = record_stream worker_next_gather_multicast"

definition worker_allocate_multicast_stream :: "(worker_core_resources, pipegen2_exn, u32) opn" where
  "worker_allocate_multicast_stream w = record_stream (worker_next_multicast (worker_arch w)) w"

definition worker_allocate_general_purpose_stream :: "(worker_core_resources, pipegen2_exn, u32) opn"
  where
  "worker_allocate_general_purpose_stream = record_stream worker_next_general_purpose"

section \<open>EthernetCoreResources\<close>

record ethernet_core_resources = core_resources +
  next_available_ethernet_stream_id :: u32
  eth_next_available_gather_multicast_stream_id :: u32

definition ethernet_core_num_noc_streams :: u32 where "ethernet_core_num_noc_streams = 32"
definition ethernet_stream_id_range_start :: u32 where "ethernet_stream_id_range_start = 9"
definition ethernet_stream_id_range_end :: u32 where "ethernet_stream_id_range_end = 11"
definition eth_gather_multicast_range_start :: u32 where "eth_gather_multicast_range_start = 0"
definition eth_gather_multicast_range_end :: u32 where "eth_gather_multicast_range_end = 3"

lemmas eth_range_defs =
  ethernet_core_num_noc_streams_def ethernet_stream_id_range_start_def
  ethernet_stream_id_range_end_def eth_gather_multicast_range_start_def
  eth_gather_multicast_range_end_def

definition new_ethernet_core_resources :: "l1_address_map \<Rightarrow> tt_cxy_pair \<Rightarrow> ethernet_core_resources"
  where
  "new_ethernet_core_resources m phys =
     core_resources.extend
       (new_core_resources phys phys (ethernet_stream_id_range_end + 1)
          (ethernet_core_num_noc_streams - 1)
          (DATA_BUFFER_SPACE_BASE m) (MAX_SIZE m) (TILE_HEADER_BUFFER_BASE m))
       (ethernet_core_resources.fields ethernet_stream_id_range_start eth_gather_multicast_range_start)"

definition eth_multicast_streams_count :: u32 where
  "eth_multicast_streams_count = eth_gather_multicast_range_end - eth_gather_multicast_range_start + 1"

definition eth_ethernet_streams_count :: u32 where
  "eth_ethernet_streams_count = ethernet_stream_id_range_end - ethernet_stream_id_range_start + 1"

definition eth_general_purpose_streams_count :: "ethernet_core_resources \<Rightarrow> u32" where
  "eth_general_purpose_streams_count w =
     (extra_streams_id_range_end w - extra_streams_id_range_start w + 1)
     + ((ethernet_stream_id_range_start - 1) - (eth_gather_multicast_range_end + 1) + 1)"

definition eth_transfers_capable_streams_count :: u32 where
  "eth_transfers_capable_streams_count = eth_ethernet_streams_count + eth_multicast_streams_count"

lemmas eth_count_defs =
  eth_multicast_streams_count_def eth_ethernet_streams_count_def
  eth_general_purpose_streams_count_def eth_transfers_capable_streams_count_def

definition eth_next_gather_multicast :: "(ethernet_core_resources, pipegen2_exn, u32) opn" where
  "eth_next_gather_multicast w =
     (if eth_next_available_gather_multicast_stream_id w > eth_gather_multicast_range_end
      then out_of GatherMulticastStreams eth_multicast_streams_count w
      else (Inr (eth_next_available_gather_multicast_stream_id w),
            w\<lparr>eth_next_available_gather_multicast_stream_id :=
                eth_next_available_gather_multicast_stream_id w + 1\<rparr>))"

definition eth_next_ethernet :: "(ethernet_core_resources, pipegen2_exn, u32) opn" where
  "eth_next_ethernet w =
     (if next_available_ethernet_stream_id w > ethernet_stream_id_range_end
      then (case eth_next_gather_multicast w of
              (Inl _, w1) \<Rightarrow> out_of EthernetStreams eth_transfers_capable_streams_count w1
            | (Inr stream_id, w1) \<Rightarrow> (Inr stream_id, w1))
      else (Inr (next_available_ethernet_stream_id w),
            w\<lparr>next_available_ethernet_stream_id := next_available_ethernet_stream_id w + 1\<rparr>))"

definition eth_next_general_purpose :: "(ethernet_core_resources, pipegen2_exn, u32) opn" where
  "eth_next_general_purpose w =
     (let next = next_available_extra_stream_id w in
      if next > extra_streams_id_range_end w
      then (let restart = eth_gather_multicast_range_end + 1
            in (Inr restart, w\<lparr>next_available_extra_stream_id := restart + 1\<rparr>))
      else if next = ethernet_stream_id_range_start
      then out_of GeneralPurposeStreams (eth_general_purpose_streams_count w) w
      else (Inr next, w\<lparr>next_available_extra_stream_id := next + 1\<rparr>))"

definition allocate_ethernet_stream :: "(ethernet_core_resources, pipegen2_exn, u32) opn" where
  "allocate_ethernet_stream = record_stream eth_next_ethernet"

definition eth_allocate_gather_stream :: "(ethernet_core_resources, pipegen2_exn, u32) opn" where
  "eth_allocate_gather_stream = record_stream eth_next_gather_multicast"

definition eth_allocate_multicast_stream :: "(ethernet_core_resources, pipegen2_exn, u32) opn" where
  "eth_allocate_multicast_stream = record_stream eth_next_gather_multicast"

definition eth_allocate_general_purpose_stream :: "(ethernet_core_resources, pipegen2_exn, u32) opn"
  where
  "eth_allocate_general_purpose_stream = record_stream eth_next_general_purpose"

end
