(* ===== verification/StreamAllocation.thy ===== *)
theory StreamAllocation
  imports CoreResources
begin

text \<open>
  What the stream allocators of worker and ethernet cores promise: ids handed out are fresh and
  within the core's streams, over any sequence of requests. Both are instances of the allocator
  interface of the prelude. Requests and errors may be mixed freely; a Wormhole or Blackhole core
  is covered for sequences without packer-multicast requests and for sequences without gather
  requests, and a run mixing the two that hands out one id twice is given at the end.
\<close>

section \<open>Requests\<close>

datatype worker_request =
    ReqPacker int | ReqUnpacker int | ReqIntermed int | ReqPackerMulticast int
  | ReqGather | ReqMulticast | ReqGeneralPurpose

fun worker_step ::
  "worker_core_resources \<Rightarrow> worker_request \<Rightarrow> (pipegen2_exn + u32) \<times> worker_core_resources" where
  "worker_step w (ReqPacker op_id) = allocate_packer_stream op_id w"
| "worker_step w (ReqUnpacker op_id) = allocate_unpacker_stream op_id w"
| "worker_step w (ReqIntermed op_id) = allocate_intermed_stream op_id w"
| "worker_step w (ReqPackerMulticast op_id) = allocate_packer_multicast_stream op_id w"
| "worker_step w ReqGather = worker_allocate_gather_stream w"
| "worker_step w ReqMulticast = worker_allocate_multicast_stream w"
| "worker_step w ReqGeneralPurpose = worker_allocate_general_purpose_stream w"

datatype ethernet_request = EthReqGather | EthReqMulticast | EthReqGeneralPurpose | EthReqEthernet

fun ethernet_step ::
  "ethernet_core_resources \<Rightarrow> ethernet_request \<Rightarrow> (pipegen2_exn + u32) \<times> ethernet_core_resources" where
  "ethernet_step w EthReqGather = eth_allocate_gather_stream w"
| "ethernet_step w EthReqMulticast = eth_allocate_multicast_stream w"
| "ethernet_step w EthReqGeneralPurpose = eth_allocate_general_purpose_stream w"
| "ethernet_step w EthReqEthernet = allocate_ethernet_stream w"

lemmas op_simps = record_stream_def andThen_def out_of_def throw_def Let_def

section \<open>Worker cores\<close>

definition next_gm :: "worker_core_resources \<Rightarrow> nat" where
  "next_gm w = unat (next_available_gather_multicast_stream_id w)"

definition next_extra :: "('x core_resources_scheme) \<Rightarrow> nat" where
  "next_extra w = unat (next_available_extra_stream_id w)"

text \<open>
  Streams 0 to 3 are gather and multicast streams, 4 to 39 operand streams, 40 to 63 general
  purpose streams. An invariant that \<open>tracks\<close> the low streams says that those handed out are below
  the next one.
\<close>

definition worker_inv :: "bool \<Rightarrow> tt_arch \<Rightarrow> worker_core_resources \<Rightarrow> bool" where
  "worker_inv tracks a w \<longleftrightarrow>
     worker_arch w = a \<and> (tracks \<or> a \<noteq> GRAYSKULL)
     \<and> next_gm w \<le> 4 \<and> 40 \<le> next_extra w \<and> next_extra w \<le> 64
     \<and> extra_streams_id_range_end w = 63
     \<and> (\<forall>i \<in> allocated_stream_ids w. unat i < 64 \<and> (40 \<le> unat i \<longrightarrow> unat i < next_extra w)
          \<and> (tracks \<longrightarrow> unat i < 4 \<longrightarrow> unat i < next_gm w))"

definition worker_granted ::
  "(pipegen2_exn + u32) \<times> worker_core_resources \<Rightarrow> worker_core_resources \<Rightarrow> bool" where
  "worker_granted r w \<longleftrightarrow>
     (case fst r of
        Inl e \<Rightarrow> allocated_stream_ids (snd r) = allocated_stream_ids w
      | Inr i \<Rightarrow> i \<notin> allocated_stream_ids w
          \<and> allocated_stream_ids (snd r) = insert i (allocated_stream_ids w))"

lemmas worker_inv_unfold = worker_inv_def next_gm_def next_extra_def worker_granted_def

lemma worker_claim:
  assumes "worker_inv tracks a w" and "unat i < 40" and "tracks \<Longrightarrow> 4 \<le> unat i"
  shows "worker_inv tracks a (snd (claim_stream t i w)) \<and> worker_granted (claim_stream t i w) w"
  using assms by (auto simp: claim_stream_def worker_inv_unfold op_simps)

lemma worker_operand_stream:
  assumes inv: "worker_inv tracks a w" and valid: "\<And>p. valid p \<Longrightarrow> 0 \<le> p \<and> p < 32"
  shows "worker_inv tracks a (snd (allocate_operand_stream valid t p w))
    \<and> worker_granted (allocate_operand_stream valid t p w) w"
proof (cases "valid p")
  case True
  with valid operand_stream_range [of p a]
  have "4 \<le> unat (get_operand_stream_id a p)" "unat (get_operand_stream_id a p) < 40"
    by (auto simp: END_IO_STREAM_def)
  moreover have "worker_arch w = a" using inv by (simp add: worker_inv_def)
  ultimately show ?thesis
    using worker_claim [OF inv] True by (simp add: allocate_operand_stream_def)
next
  case False
  then show ?thesis using inv by (simp add: allocate_operand_stream_def worker_granted_def)
qed

lemma packer_multicast_id_small:
  assumes "get_packer_multicast_stream_id a phys p = Inr i"
  shows "a \<noteq> GRAYSKULL \<and> unat i < 4"
proof -
  from assms have a: "a \<noteq> GRAYSKULL" by (cases a) auto
  with assms have *: "\<not> (word_of_int p < packer_multicast_operand_range_start
      \<or> word_of_int p > packer_multicast_operand_range_end)"
      "is_output_operand p" "i = 3 - word_of_int (operand_to_output_index p)"
    by (cases a; auto simp: bind_sum_Inr_iff get_output_index_def split: if_splits)+
  from input_output_operand_bounds(2) [OF *(2)] have "0 \<le> p" "p < 2 ^ 32" by auto
  then have "unat (word_of_int p :: u32) = nat p"
    by (simp add: unat_eq_nat_uint uint_word_of_int_eq take_bit_int_eq_self)
  with *(1) \<open>0 \<le> p\<close> have "p \<in> {16, 17, 18, 19}"
    by (auto simp: word_less_nat_alt packer_multicast_operand_range_start_def
        packer_multicast_operand_range_end_def)
  with a *(3) show ?thesis
    by (auto simp: operand_to_output_index_def operand_index_defs)
qed

lemma worker_packer_multicast:
  assumes inv: "worker_inv tracks a w" and "tracks \<Longrightarrow> a = GRAYSKULL"
  shows "worker_inv tracks a (snd (allocate_packer_multicast_stream p w))
    \<and> worker_granted (allocate_packer_multicast_stream p w) w"
proof (cases "get_packer_multicast_stream_id (worker_arch w) (physical_location w) p")
  case (Inl e)
  then show ?thesis
    using inv by (simp add: allocate_packer_multicast_stream_def worker_granted_def)
next
  case (Inr i)
  from packer_multicast_id_small [OF Inr] inv assms(2)
  have "unat i < 40" "\<not> tracks" by (auto simp: worker_inv_def)
  with worker_claim [OF inv] Inr show ?thesis
    by (simp add: allocate_packer_multicast_stream_def)
qed

lemma next_gather_multicast_cases:
  assumes "worker_inv tracks a w"
  obtains e where "worker_next_gather_multicast w = (Inl e, w)"
  | i where "worker_next_gather_multicast w =
        (Inr i, w\<lparr>next_available_gather_multicast_stream_id := i + 1\<rparr>)"
      and "i = next_available_gather_multicast_stream_id w" and "unat i < 4"
      and "unat (i + 1) = unat i + 1"
  using next_gather_multicast_bound [of "next_available_gather_multicast_stream_id w" "worker_arch w"]
  by (cases "next_available_gather_multicast_stream_id w
       > gather_multicast_streams_id_range_end (worker_arch w)")
    (auto simp: worker_next_gather_multicast_def out_of_def throw_def not_less)

lemma worker_inv_advance:
  assumes "worker_inv tracks a w" "i = next_available_gather_multicast_stream_id w"
    "unat i < 4" "unat (i + 1) = unat i + 1"
  shows "worker_inv tracks a (w\<lparr>next_available_gather_multicast_stream_id := i + 1\<rparr>)"
  using assms by (force simp: worker_inv_unfold)

lemma worker_gather:
  assumes inv: "worker_inv True a w"
  shows "worker_inv True a (snd (record_stream worker_next_gather_multicast w))
    \<and> worker_granted (record_stream worker_next_gather_multicast w) w"
  using inv
proof (cases rule: next_gather_multicast_cases)
  case (1 e)
  then show ?thesis using inv by (simp add: op_simps worker_granted_def)
next
  case (2 i)
  then have "i \<notin> allocated_stream_ids w"
    using inv by (auto simp: worker_inv_unfold)
  then show ?thesis
    using 2 worker_inv_advance [OF inv 2(2-4)] by (auto simp: op_simps worker_inv_unfold)
qed

declare wh_next_multicast.simps [simp del]

lemma wh_next_multicast_sound:
  assumes "worker_inv tracks a w"
  shows "worker_inv tracks a (snd (wh_next_multicast w))
    \<and> allocated_stream_ids (snd (wh_next_multicast w)) = allocated_stream_ids w
    \<and> (\<forall>i. fst (wh_next_multicast w) = Inr i \<longrightarrow>
         i \<notin> allocated_stream_ids w \<and> unat i < 4 \<and> unat i < next_gm (snd (wh_next_multicast w)))"
  using assms
proof (induction w rule: wh_next_multicast.induct)
  case (1 w)
  show ?case
    using 1(2)
  proof (cases rule: next_gather_multicast_cases)
    case (1 e)
    then have eq: "wh_next_multicast w = (Inl e, w)"
      by (simp add: wh_next_multicast.simps [of w])
    show ?thesis using \<open>worker_inv tracks a w\<close> by (simp add: eq)
  next
    case (2 i)
    let ?w = "w\<lparr>next_available_gather_multicast_stream_id := i + 1\<rparr>"
    have inv: "worker_inv tracks a ?w" using worker_inv_advance [OF 1(2) 2(2-4)] .
    show ?thesis
    proof (cases "i \<in> allocated_stream_ids w")
      case True
      then have eq: "wh_next_multicast w = wh_next_multicast ?w"
        by (simp add: 2(1) wh_next_multicast.simps [of w])
      show ?thesis using 1(1) [OF 2(1) [symmetric] refl _ inv] True by (simp add: eq)
    next
      case False
      then have eq: "wh_next_multicast w = (Inr i, ?w)"
        by (simp add: 2(1) wh_next_multicast.simps [of w])
      show ?thesis using inv False 2(3,4) by (simp add: eq next_gm_def)
    qed
  qed
qed

lemma worker_multicast:
  assumes inv: "worker_inv tracks a w"
  shows "worker_inv tracks a (snd (worker_allocate_multicast_stream w))
    \<and> worker_granted (worker_allocate_multicast_stream w) w"
proof (cases "a = GRAYSKULL")
  case True
  then have "tracks" "worker_arch w = GRAYSKULL" using inv by (auto simp: worker_inv_def)
  with worker_gather [of a w] inv show ?thesis by (simp add: worker_allocate_multicast_stream_def)
next
  case False
  then have eq: "worker_next_multicast (worker_arch w) = wh_next_multicast"
    using inv by (cases a) (auto simp: worker_inv_def)
  show ?thesis
    using wh_next_multicast_sound [OF inv]
    by (cases "wh_next_multicast w"; cases "fst (wh_next_multicast w)")
      (auto simp: worker_allocate_multicast_stream_def eq op_simps worker_granted_def worker_inv_unfold)
qed

lemma worker_general_purpose:
  assumes inv: "worker_inv tracks a w"
  shows "worker_inv tracks a (snd (worker_allocate_general_purpose_stream w))
    \<and> worker_granted (worker_allocate_general_purpose_stream w) w"
proof (cases "next_available_extra_stream_id w > extra_streams_id_range_end w")
  case True
  then show ?thesis
    using inv by (simp add: worker_allocate_general_purpose_stream_def worker_next_general_purpose_def
        op_simps worker_granted_def)
next
  case False
  then have "unat (next_available_extra_stream_id w) < 64"
    using inv by (auto simp: worker_inv_def word_less_nat_alt)
  moreover from this have "unat (next_available_extra_stream_id w + 1)
      = unat (next_available_extra_stream_id w) + 1"
    by (simp add: unat_plus_no_wrap)
  ultimately show ?thesis
    using False inv
    by (force simp: worker_allocate_general_purpose_stream_def worker_next_general_purpose_def
        op_simps worker_inv_unfold)
qed

text \<open>
  The requests an invariant admits: one that tracks the low streams holds up to packer-multicast
  requests (which a Grayskull core refuses), one that does not up to gather requests.
\<close>

fun worker_admissible :: "bool \<Rightarrow> tt_arch \<Rightarrow> worker_request \<Rightarrow> bool" where
  "worker_admissible tracks a (ReqPackerMulticast p) \<longleftrightarrow> tracks \<longrightarrow> a = GRAYSKULL"
| "worker_admissible tracks a ReqGather \<longleftrightarrow> tracks"
| "worker_admissible tracks a _ \<longleftrightarrow> True"

lemma worker_step_sound:
  assumes "worker_inv tracks a w" and "worker_admissible tracks a r"
  shows "worker_inv tracks a (snd (worker_step w r)) \<and> worker_granted (worker_step w r) w"
  using assms
proof (cases r)
  case (ReqPacker p)
  then show ?thesis
    using worker_operand_stream [OF assms(1) input_output_operand_bounds(2)]
    by (simp add: allocate_packer_stream_def)
next
  case (ReqUnpacker p)
  then show ?thesis
    using worker_operand_stream [OF assms(1) input_output_operand_bounds(1)]
    by (simp add: allocate_unpacker_stream_def)
next
  case (ReqIntermed p)
  then show ?thesis
    using worker_operand_stream [OF assms(1) input_output_operand_bounds(3)]
    by (simp add: allocate_intermed_stream_def)
qed (auto simp: worker_allocate_gather_stream_def
    intro!: worker_packer_multicast worker_gather worker_multicast worker_general_purpose)

definition stream_pool :: "nat \<Rightarrow> u32 set" where
  "stream_pool n = word_of_nat ` {..<n}"

lemma finite_stream_pool: "finite (stream_pool n)"
  by (simp add: stream_pool_def)

lemma card_stream_pool: "card (stream_pool n) \<le> n"
  unfolding stream_pool_def by (rule order_trans [OF card_image_le]) simp_all

lemma in_stream_pool: "unat (i :: u32) < n \<Longrightarrow> i \<in> stream_pool n"
  unfolding stream_pool_def by (rule image_eqI [of _ _ "unat i"]) simp_all

interpretation worker: fresh_allocator worker_step "worker_inv tracks a" "worker_admissible tracks a"
    allocated_stream_ids "stream_pool 64"
  for tracks a
proof unfold_locales
  fix w r i
  assume *: "worker_inv tracks a w" "worker_admissible tracks a r"
  note sound = worker_step_sound [OF *]
  show "worker_inv tracks a (snd (worker_step w r))" using sound by simp
  show "i \<notin> allocated_stream_ids w
      \<and> allocated_stream_ids (snd (worker_step w r)) = insert i (allocated_stream_ids w)"
    if "fst (worker_step w r) = Inr i"
    using sound that by (simp add: worker_granted_def)
next
  fix w r e
  assume *: "worker_inv tracks a w" "worker_admissible tracks a r" "fst (worker_step w r) = Inl e"
  then show "allocated_stream_ids (snd (worker_step w r)) = allocated_stream_ids w"
    using worker_step_sound [OF *(1,2)] by (simp add: worker_granted_def)
next
  show "allocated_stream_ids w \<subseteq> stream_pool 64" if "worker_inv tracks a w" for w
    using that by (auto simp: worker_inv_def intro: in_stream_pool)
qed (rule finite_stream_pool)

lemma worker_inv_new:
  "tracks \<or> a \<noteq> GRAYSKULL \<Longrightarrow> worker_inv tracks a (new_worker_core_resources m a p q)"
  by (simp add: worker_inv_def new_worker_core_resources_def new_core_resources_def next_gm_def
      next_extra_def gather_multicast_streams_id_range_start_def END_IO_STREAM_def
      NOC_NUM_STREAMS_def core_resources.defs worker_core_resources.defs)

section \<open>Ethernet cores\<close>

text \<open>
  Streams 0 to 3 gather and multicast, 9 to 11 ethernet, 12 to 31 and then 4 to 8 general purpose:
  after stream 31 the general purpose pointer restarts at 4 and stops at 9.
\<close>

definition eth_low :: "ethernet_core_resources \<Rightarrow> nat" where
  "eth_low w = unat (eth_next_available_gather_multicast_stream_id w)"

definition eth_mid :: "ethernet_core_resources \<Rightarrow> nat" where
  "eth_mid w = unat (next_available_ethernet_stream_id w)"

definition eth_handed_out :: "ethernet_core_resources \<Rightarrow> nat \<Rightarrow> bool" where
  "eth_handed_out w i \<longleftrightarrow>
     i < eth_low w
     \<or> (9 \<le> i \<and> i < eth_mid w)
     \<or> (if next_extra w \<ge> 12 then 12 \<le> i \<and> i < next_extra w
         else (12 \<le> i \<and> i < 32) \<or> (4 \<le> i \<and> i < next_extra w))"

definition eth_inv :: "ethernet_core_resources \<Rightarrow> bool" where
  "eth_inv w \<longleftrightarrow>
     eth_low w \<le> 4 \<and> 9 \<le> eth_mid w \<and> eth_mid w \<le> 12
     \<and> ((12 \<le> next_extra w \<and> next_extra w \<le> 32) \<or> (4 < next_extra w \<and> next_extra w \<le> 9))
     \<and> extra_streams_id_range_start w = 12 \<and> extra_streams_id_range_end w = 31
     \<and> (\<forall>i \<in> allocated_stream_ids w. eth_handed_out w (unat i))"

definition eth_granted ::
  "(pipegen2_exn + u32) \<times> ethernet_core_resources \<Rightarrow> ethernet_core_resources \<Rightarrow> bool" where
  "eth_granted r w \<longleftrightarrow>
     (case fst r of
        Inl e \<Rightarrow> allocated_stream_ids (snd r) = allocated_stream_ids w
      | Inr i \<Rightarrow> i \<notin> allocated_stream_ids w
          \<and> allocated_stream_ids (snd r) = insert i (allocated_stream_ids w))"

lemmas eth_unfold = eth_inv_def eth_low_def eth_mid_def next_extra_def eth_granted_def
  eth_handed_out_def

lemma unat_Suc_small: "unat (i :: u32) < 100 \<Longrightarrow> unat (i + 1) = Suc (unat i)"
  by (simp add: unat_plus_no_wrap)

lemma eth_gather_multicast_sound:
  assumes inv: "eth_inv w"
  shows "eth_inv (snd (record_stream eth_next_gather_multicast w))
    \<and> eth_granted (record_stream eth_next_gather_multicast w) w"
proof (cases "eth_next_available_gather_multicast_stream_id w > eth_gather_multicast_range_end")
  case True
  then show ?thesis
    using inv by (simp add: eth_next_gather_multicast_def op_simps eth_granted_def)
next
  case False
  let ?i = "eth_next_available_gather_multicast_stream_id w"
  have "unat ?i < 4" using False by (simp add: eth_range_defs word_less_nat_alt)
  moreover from this have "unat (?i + 1) = Suc (unat ?i)" by (simp add: unat_Suc_small)
  ultimately show ?thesis
    using False inv
    by (fastforce simp: eth_next_gather_multicast_def op_simps eth_unfold less_Suc_eq)
qed

lemma eth_ethernet_sound:
  assumes inv: "eth_inv w"
  shows "eth_inv (snd (allocate_ethernet_stream w)) \<and> eth_granted (allocate_ethernet_stream w) w"
proof (cases "next_available_ethernet_stream_id w > ethernet_stream_id_range_end")
  case True
  show ?thesis
  proof (cases "eth_next_gather_multicast w")
    case (Pair r w1)
    show ?thesis
    proof (cases r)
      case (Inl e)
      then show ?thesis
        using True Pair eth_gather_multicast_sound [OF inv]
        by (simp add: allocate_ethernet_stream_def op_simps eth_next_ethernet_def eth_granted_def)
    next
      case (Inr i)
      then have "allocate_ethernet_stream w = record_stream eth_next_gather_multicast w"
        using True Pair by (simp add: allocate_ethernet_stream_def op_simps eth_next_ethernet_def)
      then show ?thesis using eth_gather_multicast_sound [OF inv] by simp
    qed
  qed
next
  case False
  let ?i = "next_available_ethernet_stream_id w"
  have "unat ?i < 12" using False by (simp add: eth_range_defs word_less_nat_alt)
  moreover from this have "unat (?i + 1) = Suc (unat ?i)" by (simp add: unat_Suc_small)
  ultimately show ?thesis
    using False inv
    by (fastforce simp: allocate_ethernet_stream_def eth_next_ethernet_def op_simps eth_unfold
        less_Suc_eq split: if_splits)
qed

lemma unat_9: "unat (9 :: u32) = 9"
  by simp

lemma eth_general_purpose_sound:
  assumes inv: "eth_inv w"
  shows "eth_inv (snd (eth_allocate_general_purpose_stream w))
    \<and> eth_granted (eth_allocate_general_purpose_stream w) w"
proof -
  let ?i = "next_available_extra_stream_id w"
  have lt: "unat ?i < 100" using inv by (auto simp: eth_unfold)
  consider (wrap) "?i > 31" | (out) "\<not> ?i > 31" "?i = 9" | (go) "\<not> ?i > 31" "?i \<noteq> 9" by blast
  then show ?thesis
  proof cases
    case wrap
    then have "unat ?i = 32" using inv by (auto simp: eth_unfold word_less_nat_alt)
    then show ?thesis
      using wrap inv
      by (fastforce simp: eth_allocate_general_purpose_stream_def eth_next_general_purpose_def
          op_simps eth_unfold eth_range_defs less_Suc_eq)
  next
    case out
    then show ?thesis
      using inv by (simp add: eth_allocate_general_purpose_stream_def eth_next_general_purpose_def
          op_simps eth_granted_def eth_range_defs eth_inv_def)
  next
    case go
    have "unat ?i \<noteq> 9" using go(2) by (metis word_unat_eq_iff unat_9)
    moreover have "unat ?i < 32" using go(1) by (simp add: word_less_nat_alt)
    ultimately show ?thesis
      using go inv unat_Suc_small [OF lt]
      by (fastforce simp: eth_allocate_general_purpose_stream_def eth_next_general_purpose_def
          op_simps eth_unfold eth_range_defs less_Suc_eq split: if_splits)
  qed
qed

lemma ethernet_step_sound:
  "eth_inv w \<Longrightarrow> eth_inv (snd (ethernet_step w r)) \<and> eth_granted (ethernet_step w r) w"
  by (cases r)
    (simp_all add: eth_allocate_gather_stream_def eth_allocate_multicast_stream_def
      eth_gather_multicast_sound eth_ethernet_sound eth_general_purpose_sound)

interpretation ethernet: fresh_allocator ethernet_step eth_inv "\<lambda>_. True"
    allocated_stream_ids "stream_pool 32"
proof unfold_locales
  fix w r i
  assume *: "eth_inv w"
  note sound = ethernet_step_sound [OF *, of r]
  show "eth_inv (snd (ethernet_step w r))" using sound by simp
  show "i \<notin> allocated_stream_ids w
      \<and> allocated_stream_ids (snd (ethernet_step w r)) = insert i (allocated_stream_ids w)"
    if "fst (ethernet_step w r) = Inr i"
    using sound that by (simp add: eth_granted_def)
next
  fix w r e
  assume *: "eth_inv w" "fst (ethernet_step w r) = Inl e"
  then show "allocated_stream_ids (snd (ethernet_step w r)) = allocated_stream_ids w"
    using ethernet_step_sound [OF *(1), of r] by (simp add: eth_granted_def)
next
  show "allocated_stream_ids w \<subseteq> stream_pool 32" if "eth_inv w" for w
    using that by (force simp: eth_inv_def eth_handed_out_def intro: in_stream_pool split: if_splits)
qed (rule finite_stream_pool)

lemma eth_inv_new: "eth_inv (new_ethernet_core_resources m p)"
  by (simp add: eth_unfold new_ethernet_core_resources_def new_core_resources_def eth_range_defs
      core_resources.defs ethernet_core_resources.defs)

section \<open>Properties\<close>

text \<open>C1 The stream ids a worker core hands out, over any sequence of allocations of operand, gather,
  multicast and general purpose streams with errors in between, are pairwise distinct and are
  streams of the core, and the ids it records as allocated are exactly those handed out. On Wormhole and
  Blackhole the sequence may ask for gather streams or for packer-multicast streams, but not for both: those
  take the same ids, as the lemma \<open>wh_gather_repeats_packer_multicast\<close> shows.\<close>

theorem worker_streams_distinct:
  assumes "a = GRAYSKULL \<or> ReqGather \<notin> set rs \<or> (\<forall>p. ReqPackerMulticast p \<notin> set rs)"
    and "(as, w) = run_ops worker_step (new_worker_core_resources m a p q) rs"
  shows "distinct (grants as) \<and> (\<forall>i \<in> set (grants as). unat i < 64)
    \<and> allocated_stream_ids w = set (grants as)"
proof -
  let ?w = "new_worker_core_resources m a p q"
  define tracks where "tracks \<longleftrightarrow> a = GRAYSKULL \<or> (\<forall>p. ReqPackerMulticast p \<notin> set rs)"
  have arch: "tracks \<or> a \<noteq> GRAYSKULL" unfolding tracks_def by blast
  have "worker_admissible tracks a r" if "r \<in> set rs" for r
  proof (cases r)
  qed (use that assms(1) in \<open>auto simp: tracks_def\<close>)
  then have adm: "\<forall>r \<in> set rs. worker_admissible tracks a r" by blast
  note inv = worker_inv_new [OF arch, of m p q]
  have "worker_inv tracks a w"
    using worker.run_inv [OF inv adm] by (simp flip: assms(2))
  moreover have "allocated_stream_ids ?w = {}"
    by (simp add: new_worker_core_resources_def new_core_resources_def core_resources.defs)
  ultimately show ?thesis
    using worker.run_fresh [OF inv adm] by (auto simp: worker_inv_def simp flip: assms(2))
qed

definition sample_core :: tt_cxy_pair where
  "sample_core = \<lparr>cxy_chip = 0, cxy_x = 1, cxy_y = 1\<rparr>"

definition sample_worker_requests :: "worker_request list" where
  "sample_worker_requests = [ReqPackerMulticast 16, ReqMulticast, ReqPacker 17, ReqUnpacker 0,
     ReqUnpacker 99, ReqPacker 17, ReqGeneralPurpose, ReqMulticast, ReqMulticast, ReqMulticast]"

theorem worker_streams_distinct_witness:
  "distinct (grants (fst (run_ops worker_step
     (new_worker_core_resources wormhole_l1_map WORMHOLE_B0 sample_core sample_core) sample_worker_requests)))"
  using worker_streams_distinct [OF _ prod.collapse, of WORMHOLE_B0 sample_worker_requests
      wormhole_l1_map sample_core sample_core]
  by (simp add: sample_worker_requests_def del: run_ops.simps)

text \<open>C33 The stream ids an ethernet core hands out, over any sequence of gather, multicast, ethernet
  and general purpose allocations, are pairwise distinct, below 32, and exactly the ids it records:
  the fall-back of ethernet streams to the gather pool and the wrap-around of the general purpose
  pointer never hand out an id twice.\<close>

theorem ethernet_streams_distinct:
  "distinct (grants (fst (run_ops ethernet_step (new_ethernet_core_resources m p) rs)))
   \<and> (\<forall>i \<in> set (grants (fst (run_ops ethernet_step (new_ethernet_core_resources m p) rs))).
        unat i < 32)
   \<and> allocated_stream_ids (snd (run_ops ethernet_step (new_ethernet_core_resources m p) rs))
      = set (grants (fst (run_ops ethernet_step (new_ethernet_core_resources m p) rs)))"
proof -
  let ?w = "new_ethernet_core_resources m p"
  have "allocated_stream_ids ?w = {}"
    by (simp add: new_ethernet_core_resources_def new_core_resources_def core_resources.defs)
  then show ?thesis
    using ethernet.run_fresh [OF eth_inv_new, of rs m p] ethernet.run_inv [OF eth_inv_new, of rs m p]
    by (fastforce simp: eth_inv_def eth_handed_out_def split: if_splits)
qed

theorem ethernet_streams_distinct_witness:
  "distinct (grants (fst (run_ops ethernet_step (new_ethernet_core_resources eth_l1_map sample_core)
     [EthReqGather, EthReqEthernet, EthReqGeneralPurpose, EthReqMulticast, EthReqEthernet])))"
  using ethernet_streams_distinct [of eth_l1_map sample_core] by (simp del: run_ops.simps)

text \<open>The general purpose pointer of an ethernet core at \<open>x\<close>.\<close>

definition gp_at :: "tt_cxy_pair \<Rightarrow> nat \<Rightarrow> ethernet_core_resources \<Rightarrow> bool" where
  "gp_at p x w \<longleftrightarrow> next_available_extra_stream_id w = word_of_nat x
     \<and> extra_streams_id_range_start w = 12 \<and> extra_streams_id_range_end w = 31
     \<and> physical_location w = p \<and> logical_location w = p"

lemmas gp_defs = eth_allocate_general_purpose_stream_def eth_next_general_purpose_def op_simps
  out_of_core_resources_at_def eth_range_defs eth_count_defs gp_at_def

lemma gp_step:
  assumes "gp_at p x w" "x < 32" "x \<noteq> 9"
  shows "fst (ethernet_step w EthReqGeneralPurpose) = Inr (word_of_nat x)
    \<and> gp_at p (Suc x) (snd (ethernet_step w EthReqGeneralPurpose))"
proof -
  have "unat (word_of_nat x :: u32) = x" using assms(2) by (simp add: unat_of_nat)
  then have "\<not> (word_of_nat x :: u32) > 31" "(word_of_nat x :: u32) \<noteq> 9"
    using assms(2,3) by (auto simp: word_less_nat_alt word_unat_eq_iff)
  then show ?thesis using assms(1) by (simp add: gp_defs ac_simps)
qed

lemma gp_restart:
  "gp_at p 32 w \<Longrightarrow> fst (ethernet_step w EthReqGeneralPurpose) = Inr (word_of_nat 4)
     \<and> gp_at p 5 (snd (ethernet_step w EthReqGeneralPurpose))"
  by (simp add: gp_defs)

lemma gp_stop:
  "gp_at p 9 w \<Longrightarrow> ethernet_step w EthReqGeneralPurpose
     = (Inl (OutOfCoreResources p (Some p) GeneralPurposeStreams 25 26), w)"
  by (simp add: gp_defs)

lemmas gp_run = run_ops_counting [where at = "gp_at p" and step = ethernet_step
    and r = EthReqGeneralPurpose and f = word_of_nat for p]

text \<open>C39 An ethernet core serves exactly 25 general purpose streams, 12 to 31 and then 4 to 8, and
  every later request throws the exception that names 25 available streams.\<close>

theorem ethernet_general_purpose_exact:
  "fst (run_ops ethernet_step (new_ethernet_core_resources m p) (replicate n EthReqGeneralPurpose))
   = take n (map (\<lambda>k. Inr (word_of_nat k)) ([12..<32] @ [4..<9]))
     @ replicate (n - 25) (Inl (OutOfCoreResources p (Some p) GeneralPurposeStreams 25 26))"
proof -
  let ?w = "new_ethernet_core_resources m p" and ?r = EthReqGeneralPurpose
  let ?run = "\<lambda>w n. run_ops ethernet_step w (replicate n ?r)"
  have "gp_at p 12 ?w"
    by (simp add: gp_at_def new_ethernet_core_resources_def new_core_resources_def eth_range_defs
        core_resources.defs ethernet_core_resources.defs)
  then have 1: "fst (?run ?w 20) = map (\<lambda>k. Inr (word_of_nat k)) [12..<32]" "gp_at p 32 (snd (?run ?w 20))"
    using gp_run [OF gp_step, of p 12 32 12 ?w 20] by simp_all
  let ?w1 = "snd (?run ?w 20)"
  have 2: "fst (?run ?w1 1) = [Inr (word_of_nat 4)]" "gp_at p 5 (snd (?run ?w1 1))"
    using gp_restart [OF 1(2)] by (simp_all add: Let_def case_prod_unfold)
  let ?w2 = "snd (?run ?w1 1)"
  have 3: "fst (?run ?w2 4) = map (\<lambda>k. Inr (word_of_nat k)) [5..<9]" "gp_at p 9 (snd (?run ?w2 4))"
    using gp_run [OF gp_step, of p 5 9 5 ?w2 4] 2(2) by simp_all
  let ?t = "snd (?run ?w2 4)"
  have "replicate (20 + (1 + 4)) ?r = replicate 20 ?r @ replicate 1 ?r @ replicate 4 ?r"
    by (simp only: replicate_add)
  then have "?run ?w (20 + (1 + 4)) = (map (\<lambda>k. Inr (word_of_nat k)) [12..<32]
      @ [Inr (word_of_nat 4)] @ map (\<lambda>k. Inr (word_of_nat k)) [5..<9], ?t)"
    using 1(1) 2(1) 3(1) by (simp only: run_ops_append fst_conv snd_conv)
  also have "map (\<lambda>k. Inr (word_of_nat k)) [12..<32] @ [Inr (word_of_nat 4)]
      @ map (\<lambda>k. Inr (word_of_nat k)) [5..<9]
      = (map (\<lambda>k. Inr (word_of_nat k)) ([12..<32] @ [4..<9]) :: (pipegen2_exn + u32) list)"
    by (simp add: upt_conv_Cons)
  finally have "?run ?w 25 = (map (\<lambda>k. Inr (word_of_nat k)) ([12..<32] @ [4..<9]), ?t)" by simp
  then show ?thesis by (rule run_ops_saturates [where step = ethernet_step, OF _ gp_stop [OF 3(2)]])
qed

definition kernel_input_at :: "core_resources \<Rightarrow> nat \<Rightarrow> core_resources \<Rightarrow> bool" where
  "kernel_input_at c0 x c \<longleftrightarrow> c = c0\<lparr>next_available_kernel_input_index := word_of_nat x\<rparr>"

definition kernel_output_at :: "core_resources \<Rightarrow> nat \<Rightarrow> core_resources \<Rightarrow> bool" where
  "kernel_output_at c0 x c \<longleftrightarrow> c = c0\<lparr>next_available_kernel_output_index := word_of_nat x\<rparr>"

lemma small_index_not_ge: "x < 24 \<Longrightarrow> \<not> (24 :: u32) \<le> word_of_nat x"
  by (simp add: word_le_nat_alt unat_of_nat)

lemma kernel_input_step:
  "kernel_input_at c0 x c \<Longrightarrow> 0 \<le> x \<Longrightarrow> x < 24 \<Longrightarrow>
     fst (allocate_kernel_input c) = Inr (word_of_nat x)
     \<and> kernel_input_at c0 (Suc x) (snd (allocate_kernel_input c))"
  using small_index_not_ge [of x]
  by (auto simp: kernel_input_at_def allocate_kernel_input_def max_kernel_inputs_count_def add.commute)

lemma kernel_output_step:
  "kernel_output_at c0 x c \<Longrightarrow> 0 \<le> x \<Longrightarrow> x < 24 \<Longrightarrow>
     fst (allocate_kernel_output c) = Inr (word_of_nat x)
     \<and> kernel_output_at c0 (Suc x) (snd (allocate_kernel_output c))"
  using small_index_not_ge [of x]
  by (auto simp: kernel_output_at_def allocate_kernel_output_def max_kernel_outputs_count_def add.commute)

text \<open>A core hands out its kernel inputs in order, 0 to 23, and refuses every request after them
  without changing anything; so it does with its kernel outputs.\<close>

theorem kernel_indices_exact:
  fixes c :: core_resources
  assumes "next_available_kernel_input_index c = 0" "next_available_kernel_output_index c = 0"
  shows "fst (run_ops (\<lambda>c _. allocate_kernel_input c) c (replicate n ()))
      = take n (map (\<lambda>k. Inr (word_of_nat k)) [0..<24]) @ replicate (n - 24)
          (Inl (out_of_core_resources_at (physical_location c) (logical_location c) KernelInputIndex 24))
    \<and> fst (run_ops (\<lambda>c _. allocate_kernel_output c) c (replicate n ()))
      = take n (map (\<lambda>k. Inr (word_of_nat k)) [0..<24]) @ replicate (n - 24)
          (Inl (out_of_core_resources_at (physical_location c) (logical_location c) KernelOutputIndex 24))"
proof -
  let ?in = "run_ops (\<lambda>c _. allocate_kernel_input c) c (replicate 24 ())"
  let ?out = "run_ops (\<lambda>c _. allocate_kernel_output c) c (replicate 24 ())"
  have "kernel_input_at c 0 c" "kernel_output_at c 0 c"
    using assms by (simp_all add: kernel_input_at_def kernel_output_at_def)
  then have i: "fst ?in = map (\<lambda>k. Inr (word_of_nat k)) [0..<24]" "kernel_input_at c 24 (snd ?in)"
    and o: "fst ?out = map (\<lambda>k. Inr (word_of_nat k)) [0..<24]" "kernel_output_at c 24 (snd ?out)"
    using run_ops_counting [where at = "kernel_input_at c" and step = "\<lambda>c _. allocate_kernel_input c"
        and r = "()" and f = word_of_nat, OF kernel_input_step, of 0 24 0 c 24]
      run_ops_counting [where at = "kernel_output_at c" and step = "\<lambda>c _. allocate_kernel_output c"
        and r = "()" and f = word_of_nat, OF kernel_output_step, of 0 24 0 c 24]
    by simp_all
  have "allocate_kernel_input (snd ?in) = (Inl (out_of_core_resources_at (physical_location c)
      (logical_location c) KernelInputIndex 24), snd ?in)"
    using i(2) by (simp add: kernel_input_at_def allocate_kernel_input_def
        max_kernel_inputs_count_def op_simps)
  note ins = run_ops_saturates_snd [where step = "\<lambda>c _. allocate_kernel_input c", OF i(1) this]
  have "allocate_kernel_output (snd ?out) = (Inl (out_of_core_resources_at
      (physical_location c) (logical_location c) KernelOutputIndex 24), snd ?out)"
    using o(2) by (simp add: kernel_output_at_def allocate_kernel_output_def
        max_kernel_outputs_count_def op_simps)
  note outs = run_ops_saturates_snd [where step = "\<lambda>c _. allocate_kernel_output c", OF o(1) this]
  show ?thesis using ins outs by simp
qed

theorem kernel_indices_exact_witness:
  "fst (run_ops (\<lambda>c _. allocate_kernel_input c) (new_core_resources sample_core sample_core 40 63 0 0 0) (replicate 2 ()))
     = [Inr 0, Inr 1]"
  using kernel_indices_exact [of "new_core_resources sample_core sample_core 40 63 0 0 0" 2]
  by (simp add: new_core_resources_def upt_conv_Cons del: run_ops.simps)

section \<open>A run that mixes gather and packer-multicast streams\<close>

text \<open>
  The gather method of a Wormhole core does not skip the ids its packer-multicast streams hold,
  as the multicast method does: stream 3 is handed out twice.
\<close>

lemma wh_gather_repeats_packer_multicast:
  "grants (fst (run_ops worker_step (new_worker_core_resources m WORMHOLE_B0 p q)
     [ReqPackerMulticast 16, ReqGather, ReqGather, ReqGather, ReqGather])) = [3, 0, 1, 2, 3]"
  by (simp add: new_worker_core_resources_def new_core_resources_def core_resources.defs
      worker_core_resources.defs worker_allocate_gather_stream_def worker_next_gather_multicast_def
      op_simps gather_multicast_streams_id_range_start_def claim_stream_def
      allocate_packer_multicast_stream_def packer_multicast_operand_range_start_def
      packer_multicast_operand_range_end_def get_output_index_def operand_range_defs
      operand_to_output_index_def)

end
