(* ===== verification/ResourceManager.thy ===== *)
theory ResourceManager
  imports StreamAllocation
begin

text \<open>
  The resource manager (\<open>src/src/pipegen2/lib/src/device/resource_manager.cpp\<close>): the worker and
  ethernet cores of all chips by physical location, every allocation routed to its core, and the
  chip-wide allocation of tile header buffers
  (\<open>device/l1/tile_header_buffers_allocation.cpp\<close>). The SoC descriptors are what
  \<open>device/soc_info.cpp\<close> reads of them; the conversion of a physical to a logical location and the
  address maps and blob sizes of the build are parameters.
\<close>

section \<open>SoC information\<close>

record soc_descriptor =
  soc_arch :: tt_arch
  soc_workers :: "(nat \<times> nat) list"
  soc_ethernet_cores :: "(nat \<times> nat) list"

text \<open>The descriptors by chip, in the order of the map that holds them.\<close>

type_synonym soc_info = "(nat \<times> soc_descriptor) list"

definition at_chip :: "nat \<Rightarrow> nat \<times> nat \<Rightarrow> tt_cxy_pair" where
  "at_chip chip_id xy = \<lparr>cxy_chip = chip_id, cxy_x = fst xy, cxy_y = snd xy\<rparr>"

definition get_soc_descriptor :: "nat \<Rightarrow> soc_info \<Rightarrow> pipegen2_exn + soc_descriptor" where
  "get_soc_descriptor chip_id soc =
     (case map_of soc chip_id of None \<Rightarrow> Inl AssertionFailed | Some d \<Rightarrow> Inr d)"

definition get_device_arch :: "soc_info \<Rightarrow> pipegen2_exn + tt_arch" where
  "get_device_arch soc = (case soc of [] \<Rightarrow> Inl AssertionFailed | (_, d) # _ \<Rightarrow> Inr (soc_arch d))"

definition get_chip_ids :: "soc_info \<Rightarrow> nat list" where
  "get_chip_ids soc = map fst soc"

definition get_worker_cores_physical_locations ::
  "nat \<Rightarrow> soc_info \<Rightarrow> pipegen2_exn + tt_cxy_pair list" where
  "get_worker_cores_physical_locations chip_id soc =
     bind_sum (get_soc_descriptor chip_id soc) (\<lambda>d. Inr (map (at_chip chip_id) (soc_workers d)))"

definition get_ethernet_cores_physical_locations ::
  "nat \<Rightarrow> soc_info \<Rightarrow> pipegen2_exn + tt_cxy_pair list" where
  "get_ethernet_cores_physical_locations chip_id soc =
     bind_sum (get_soc_descriptor chip_id soc)
       (\<lambda>d. Inr (map (at_chip chip_id) (soc_ethernet_cores d)))"

definition is_ethernet_core :: "tt_cxy_pair \<Rightarrow> soc_info \<Rightarrow> pipegen2_exn + bool" where
  "is_ethernet_core loc soc =
     bind_sum (get_ethernet_cores_physical_locations (cxy_chip loc) soc)
       (\<lambda>ethernet_cores. Inr (loc \<in> set ethernet_cores))"

section \<open>State and construction\<close>

record resource_manager =
  rm_soc_info :: soc_info
  worker_cores :: "tt_cxy_pair \<rightharpoonup> worker_core_resources"
  ethernet_cores :: "tt_cxy_pair \<rightharpoonup> ethernet_core_resources"

text \<open>What the build and the environment fix.\<close>

record build_env =
  worker_map :: l1_address_map
  ethernet_map :: l1_address_map
  overlay_blob_sizes :: blob_sizes
  physical_to_logical :: "tt_cxy_pair \<Rightarrow> tt_cxy_pair"

fun create_worker_core_resources ::
  "build_env \<Rightarrow> tt_arch \<Rightarrow> tt_cxy_pair \<Rightarrow> tt_cxy_pair \<Rightarrow> pipegen2_exn + worker_core_resources" where
  "create_worker_core_resources env OTHER_ARCH phys logical = Inl AssertionFailed"
| "create_worker_core_resources env a phys logical =
     Inr (new_worker_core_resources (worker_map env) a phys logical)"

definition create_ethernet_core_resources ::
  "build_env \<Rightarrow> tt_arch \<Rightarrow> tt_cxy_pair \<Rightarrow> pipegen2_exn + ethernet_core_resources" where
  "create_ethernet_core_resources env a phys =
     (if a = WORMHOLE \<or> a = WORMHOLE_B0 \<or> a = BLACKHOLE
      then Inr (new_ethernet_core_resources (ethernet_map env) phys)
      else Inl AssertionFailed)"

text \<open>\<open>emplace\<close> keeps the value already there for a key.\<close>

definition emplace :: "'k \<Rightarrow> 'v \<Rightarrow> ('k \<rightharpoonup> 'v) \<Rightarrow> ('k \<rightharpoonup> 'v)" where
  "emplace k v m = (case m k of None \<Rightarrow> m(k \<mapsto> v) | Some _ \<Rightarrow> m)"

definition add_worker_core ::
  "build_env \<Rightarrow> tt_cxy_pair \<Rightarrow> resource_manager \<Rightarrow> pipegen2_exn + resource_manager" where
  "add_worker_core env loc rm =
     bind_sum (get_device_arch (rm_soc_info rm)) (\<lambda>a.
     bind_sum (create_worker_core_resources env a loc (physical_to_logical env loc)) (\<lambda>w.
     Inr (rm\<lparr>worker_cores := emplace loc w (worker_cores rm)\<rparr>)))"

definition add_ethernet_core ::
  "build_env \<Rightarrow> tt_cxy_pair \<Rightarrow> resource_manager \<Rightarrow> pipegen2_exn + resource_manager" where
  "add_ethernet_core env loc rm =
     bind_sum (get_device_arch (rm_soc_info rm)) (\<lambda>a.
     bind_sum (create_ethernet_core_resources env a loc) (\<lambda>w.
     Inr (rm\<lparr>ethernet_cores := emplace loc w (ethernet_cores rm)\<rparr>)))"

definition add_chip ::
  "build_env \<Rightarrow> nat \<Rightarrow> resource_manager \<Rightarrow> pipegen2_exn + resource_manager" where
  "add_chip env chip_id rm =
     bind_sum (get_worker_cores_physical_locations chip_id (rm_soc_info rm)) (\<lambda>ws.
     bind_sum (fold_sum (add_worker_core env) ws rm) (\<lambda>rm1.
     bind_sum (get_ethernet_cores_physical_locations chip_id (rm_soc_info rm1)) (\<lambda>es.
     fold_sum (add_ethernet_core env) es rm1)))"

definition new_resource_manager :: "build_env \<Rightarrow> soc_info \<Rightarrow> pipegen2_exn + resource_manager" where
  "new_resource_manager env soc =
     fold_sum (add_chip env) (get_chip_ids soc)
       \<lparr>rm_soc_info = soc, worker_cores = Map.empty, ethernet_cores = Map.empty\<rparr>"

section \<open>Routing\<close>

definition on_worker ::
  "tt_cxy_pair \<Rightarrow> (worker_core_resources, pipegen2_exn, 'a) opn \<Rightarrow> (resource_manager, pipegen2_exn, 'a) opn"
  where
  "on_worker loc f rm =
     (case worker_cores rm loc of
        None \<Rightarrow> (Inl AssertionFailed, rm)
      | Some w \<Rightarrow> (let (r, w1) = f w in (r, rm\<lparr>worker_cores := (worker_cores rm)(loc \<mapsto> w1)\<rparr>)))"

definition on_ethernet ::
  "tt_cxy_pair \<Rightarrow> (ethernet_core_resources, pipegen2_exn, 'a) opn
     \<Rightarrow> (resource_manager, pipegen2_exn, 'a) opn" where
  "on_ethernet loc f rm =
     (case ethernet_cores rm loc of
        None \<Rightarrow> (Inl AssertionFailed, rm)
      | Some w \<Rightarrow> (let (r, w1) = f w in (r, rm\<lparr>ethernet_cores := (ethernet_cores rm)(loc \<mapsto> w1)\<rparr>)))"

text \<open>\<open>get_core_resources\<close>: a worker core if there is one at the location, else an ethernet core.\<close>

definition on_core ::
  "tt_cxy_pair \<Rightarrow> (worker_core_resources, pipegen2_exn, 'a) opn
     \<Rightarrow> (ethernet_core_resources, pipegen2_exn, 'a) opn \<Rightarrow> (resource_manager, pipegen2_exn, 'a) opn" where
  "on_core loc f g rm =
     (case worker_cores rm loc of
        Some _ \<Rightarrow> on_worker loc f rm
      | None \<Rightarrow> on_ethernet loc g rm)"

definition rm_allocate_packer_stream ::
  "tt_cxy_pair \<Rightarrow> int \<Rightarrow> (resource_manager, pipegen2_exn, u32) opn" where
  "rm_allocate_packer_stream loc operand_id rm =
     (case is_ethernet_core loc (rm_soc_info rm) of
        Inl e \<Rightarrow> (Inl e, rm)
      | Inr True \<Rightarrow> on_ethernet loc eth_allocate_general_purpose_stream rm
      | Inr False \<Rightarrow> on_worker loc (allocate_packer_stream operand_id) rm)"

definition rm_allocate_unpacker_stream ::
  "tt_cxy_pair \<Rightarrow> int \<Rightarrow> (resource_manager, pipegen2_exn, u32) opn" where
  "rm_allocate_unpacker_stream loc operand_id = on_worker loc (allocate_unpacker_stream operand_id)"

definition rm_allocate_intermed_stream ::
  "tt_cxy_pair \<Rightarrow> int \<Rightarrow> (resource_manager, pipegen2_exn, u32) opn" where
  "rm_allocate_intermed_stream loc operand_id = on_worker loc (allocate_intermed_stream operand_id)"

definition rm_allocate_gather_stream ::
  "tt_cxy_pair \<Rightarrow> (resource_manager, pipegen2_exn, u32) opn" where
  "rm_allocate_gather_stream loc =
     on_core loc worker_allocate_gather_stream eth_allocate_gather_stream"

definition rm_allocate_multicast_stream ::
  "tt_cxy_pair \<Rightarrow> (resource_manager, pipegen2_exn, u32) opn" where
  "rm_allocate_multicast_stream loc =
     on_core loc worker_allocate_multicast_stream eth_allocate_multicast_stream"

definition rm_allocate_packer_multicast_stream ::
  "tt_cxy_pair \<Rightarrow> int \<Rightarrow> (resource_manager, pipegen2_exn, u32) opn" where
  "rm_allocate_packer_multicast_stream loc operand_id =
     on_worker loc (allocate_packer_multicast_stream operand_id)"

definition rm_allocate_general_purpose_stream ::
  "tt_cxy_pair \<Rightarrow> (resource_manager, pipegen2_exn, u32) opn" where
  "rm_allocate_general_purpose_stream loc =
     on_core loc worker_allocate_general_purpose_stream eth_allocate_general_purpose_stream"

definition rm_allocate_ethernet_stream ::
  "tt_cxy_pair \<Rightarrow> (resource_manager, pipegen2_exn, u32) opn" where
  "rm_allocate_ethernet_stream loc = on_ethernet loc allocate_ethernet_stream"

definition rm_allocate_l1_stream_buffer ::
  "tt_cxy_pair \<Rightarrow> stream_node_id \<Rightarrow> u32 \<Rightarrow> (resource_manager, pipegen2_exn, l1_buffer option) opn" where
  "rm_allocate_l1_stream_buffer loc node buffer_size =
     on_core loc (on_l1 (allocate_l1_stream_buffer node buffer_size))
       (on_l1 (allocate_l1_stream_buffer node buffer_size))"

definition rm_allocate_l1_ncrisc_fallback_buffer ::
  "tt_cxy_pair \<Rightarrow> u32 \<Rightarrow> (resource_manager, pipegen2_exn, l1_buffer option) opn" where
  "rm_allocate_l1_ncrisc_fallback_buffer loc buffer_size =
     on_core loc (on_l1 (allocate_l1_ncrisc_fallback_buffer buffer_size))
       (on_l1 (allocate_l1_ncrisc_fallback_buffer buffer_size))"

definition rm_allocate_l1_extra_overlay_blob_space ::
  "l1_buffer option \<Rightarrow> build_env \<Rightarrow> tt_cxy_pair \<Rightarrow> u32
     \<Rightarrow> (resource_manager, pipegen2_exn, l1_buffer option) opn" where
  "rm_allocate_l1_extra_overlay_blob_space front_of_empty env loc total_blob_size rm =
     (case is_ethernet_core loc (rm_soc_info rm) of
        Inl e \<Rightarrow> (Inl e, rm)
      | Inr is_eth \<Rightarrow>
          on_core loc
            (on_l1 (allocate_l1_extra_overlay_blob_space front_of_empty (overlay_blob_sizes env)
               total_blob_size is_eth))
            (on_l1 (allocate_l1_extra_overlay_blob_space front_of_empty (overlay_blob_sizes env)
               total_blob_size is_eth)) rm)"

definition rm_allocate_kernel_input :: "tt_cxy_pair \<Rightarrow> (resource_manager, pipegen2_exn, u32) opn" where
  "rm_allocate_kernel_input loc = on_core loc allocate_kernel_input allocate_kernel_input"

definition rm_allocate_kernel_output :: "tt_cxy_pair \<Rightarrow> (resource_manager, pipegen2_exn, u32) opn" where
  "rm_allocate_kernel_output loc = on_core loc allocate_kernel_output allocate_kernel_output"

definition rm_get_multicast_streams_count ::
  "tt_cxy_pair \<Rightarrow> (resource_manager, pipegen2_exn, u32) opn" where
  "rm_get_multicast_streams_count loc =
     on_core loc (\<lambda>w. (Inr (worker_multicast_streams_count w), w))
       (\<lambda>w. (Inr eth_multicast_streams_count, w))"

definition core_l1 :: "tt_cxy_pair \<Rightarrow> resource_manager \<Rightarrow> pipegen2_exn + l1_layout" where
  "core_l1 loc rm =
     (case worker_cores rm loc of
        Some w \<Rightarrow> Inr (l1_data_buffers_memory w)
      | None \<Rightarrow> (case ethernet_cores rm loc of
            Some w \<Rightarrow> Inr (l1_data_buffers_memory w)
          | None \<Rightarrow> Inl AssertionFailed))"

definition rm_check_if_out_of_l1_data_buffers_memory ::
  "tt_cxy_pair \<Rightarrow> resource_manager \<Rightarrow> pipegen2_exn + unit" where
  "rm_check_if_out_of_l1_data_buffers_memory loc rm =
     bind_sum (core_l1 loc rm) check_if_out_of_l1_data_buffers_memory"

definition rm_get_tile_header_buffer_address ::
  "tt_cxy_pair \<Rightarrow> u32 \<Rightarrow> resource_manager \<Rightarrow> pipegen2_exn + u32" where
  "rm_get_tile_header_buffer_address loc tile_size rm =
     bind_sum (core_l1 loc rm) (get_tile_header_buffer_address tile_size)"

definition set_core_resource_op_name ::
  "tt_cxy_pair \<Rightarrow> string \<Rightarrow> (resource_manager, pipegen2_exn, unit) opn" where
  "set_core_resource_op_name loc op_name =
     on_core loc (on_l1 (\<lambda>l. ((), set_op_name op_name l))) (on_l1 (\<lambda>l. ((), set_op_name op_name l)))"

section \<open>Chip-wide tile header buffers\<close>

text \<open>
  The tile sizes needed on each core, an unordered map to sorted sets: the entries in some order,
  one per core, each with its tile sizes in increasing order.
\<close>

type_synonym core_tile_sizes = "(tt_cxy_pair \<times> u32 list) list"

definition chip_tile_sizes :: "core_tile_sizes \<Rightarrow> resource_manager \<Rightarrow> nat \<Rightarrow> u32 list" where
  "chip_tile_sizes info rm chip_id =
     sorted_list_of_set (\<Union>(set (map (\<lambda>(loc, sizes).
       if worker_cores rm loc \<noteq> None \<and> cxy_chip loc = chip_id then set sizes else {}) info)))"

definition allocate_thbs :: "u32 list \<Rightarrow> 'x core_resources_scheme \<Rightarrow> 'x core_resources_scheme" where
  "allocate_thbs sizes c =
     fold (\<lambda>t c. snd (on_l1 (allocate_l1_tile_header_buffer t) c)) sizes c"

text \<open>
  The loops over the cores touch each core once and read none but the core they are at, so their
  order does not matter: they act on all the cores at once.
\<close>

definition rm_allocate_l1_tile_header_buffers ::
  "core_tile_sizes \<Rightarrow> resource_manager \<Rightarrow> resource_manager" where
  "rm_allocate_l1_tile_header_buffers info rm =
     rm\<lparr>worker_cores := (\<lambda>loc. case worker_cores rm loc of
            None \<Rightarrow> None
          | Some w \<Rightarrow> (case map_of info loc of
                None \<Rightarrow> Some w
              | Some _ \<Rightarrow> Some (allocate_thbs (chip_tile_sizes info rm (cxy_chip loc)) w))),
        ethernet_cores := (\<lambda>loc. case ethernet_cores rm loc of
            None \<Rightarrow> None
          | Some w \<Rightarrow> (case map_of info loc of
                None \<Rightarrow> Some w
              | Some sizes \<Rightarrow> Some (allocate_thbs sizes w)))\<rparr>"

end
