(* ===== verification/ResourceManagerProps.thy ===== *)
theory ResourceManagerProps
  imports ResourceManager
begin

text \<open>
  What the resource manager promises: stream ids are handed out at most once per core, whatever
  the sequence of allocations over all cores (an instance of the allocator interface, over pairs
  of a location and an id), and the chip-wide allocation gives the cores of a chip the same
  address for the tile header buffer of a tile size.
\<close>

section \<open>The cores of a new manager\<close>

definition rm_new_inv :: "build_env \<Rightarrow> soc_info \<Rightarrow> resource_manager \<Rightarrow> bool" where
  "rm_new_inv env soc rm \<longleftrightarrow>
     rm_soc_info rm = soc
     \<and> (\<forall>loc w. worker_cores rm loc = Some w \<longrightarrow>
          (\<exists>a. get_device_arch soc = Inr a
             \<and> w = new_worker_core_resources (worker_map env) a loc (physical_to_logical env loc)))
     \<and> (\<forall>loc w. ethernet_cores rm loc = Some w \<longrightarrow> w = new_ethernet_core_resources (ethernet_map env) loc)
     \<and> finite (dom (worker_cores rm)) \<and> finite (dom (ethernet_cores rm))"

lemma finite_dom_emplace: "finite (dom m) \<Longrightarrow> finite (dom (emplace k v m))"
  by (simp add: emplace_def split: option.split)

lemma create_worker_is_new:
  "create_worker_core_resources env a p q = Inr w \<Longrightarrow> w = new_worker_core_resources (worker_map env) a p q"
  by (cases a) auto

lemma emplace_cases: "emplace k v m k' = Some w \<Longrightarrow> m k' = Some w \<or> (k' = k \<and> w = v)"
  by (auto simp: emplace_def split: option.splits if_splits)

lemma add_worker_core_inv:
  "rm_new_inv env soc rm \<Longrightarrow> add_worker_core env loc rm = Inr rm1 \<Longrightarrow> rm_new_inv env soc rm1"
  by (auto simp: rm_new_inv_def add_worker_core_def bind_sum_Inr_iff finite_dom_emplace
      dest!: emplace_cases create_worker_is_new)

lemma add_ethernet_core_inv:
  "rm_new_inv env soc rm \<Longrightarrow> add_ethernet_core env loc rm = Inr rm1 \<Longrightarrow> rm_new_inv env soc rm1"
  by (auto simp: rm_new_inv_def add_ethernet_core_def bind_sum_Inr_iff finite_dom_emplace
      create_ethernet_core_resources_def split: if_splits dest!: emplace_cases)

lemma add_chip_inv:
  assumes "rm_new_inv env soc rm" and "add_chip env chip_id rm = Inr rm1"
  shows "rm_new_inv env soc rm1"
proof -
  from assms(2) obtain ws rm2 es where
    "fold_sum (add_worker_core env) ws rm = Inr rm2" "fold_sum (add_ethernet_core env) es rm2 = Inr rm1"
    by (auto simp: add_chip_def bind_sum_Inr_iff)
  then show ?thesis
    using fold_sum_invariant [of ws "rm_new_inv env soc" "add_worker_core env" rm rm2]
      fold_sum_invariant [of es "rm_new_inv env soc" "add_ethernet_core env" rm2 rm1]
      add_worker_core_inv add_ethernet_core_inv assms(1)
    by blast
qed

lemma new_resource_manager_inv:
  assumes "new_resource_manager env soc = Inr rm"
  shows "rm_new_inv env soc rm"
proof (rule fold_sum_invariant [where P = "rm_new_inv env soc"])
  show "fold_sum (add_chip env) (get_chip_ids soc)
       \<lparr>rm_soc_info = soc, worker_cores = Map.empty, ethernet_cores = Map.empty\<rparr> = Inr rm"
    using assms by (simp add: new_resource_manager_def)
  show "rm_new_inv env soc \<lparr>rm_soc_info = soc, worker_cores = Map.empty, ethernet_cores = Map.empty\<rparr>"
    by (simp add: rm_new_inv_def)
qed (rule add_chip_inv)

section \<open>Stream allocation over all cores\<close>

datatype rm_request =
    RmPacker int | RmUnpacker int | RmIntermed int | RmPackerMulticast int
  | RmGather | RmMulticast | RmGeneralPurpose | RmEthernet

fun rm_allocate :: "rm_request \<Rightarrow> tt_cxy_pair \<Rightarrow> (resource_manager, pipegen2_exn, u32) opn" where
  "rm_allocate (RmPacker p) loc = rm_allocate_packer_stream loc p"
| "rm_allocate (RmUnpacker p) loc = rm_allocate_unpacker_stream loc p"
| "rm_allocate (RmIntermed p) loc = rm_allocate_intermed_stream loc p"
| "rm_allocate (RmPackerMulticast p) loc = rm_allocate_packer_multicast_stream loc p"
| "rm_allocate RmGather loc = rm_allocate_gather_stream loc"
| "rm_allocate RmMulticast loc = rm_allocate_multicast_stream loc"
| "rm_allocate RmGeneralPurpose loc = rm_allocate_general_purpose_stream loc"
| "rm_allocate RmEthernet loc = rm_allocate_ethernet_stream loc"

text \<open>A step answers with the location too, so that ids of different cores are told apart.\<close>

definition rm_step ::
  "resource_manager \<Rightarrow> tt_cxy_pair \<times> rm_request
     \<Rightarrow> (pipegen2_exn + tt_cxy_pair \<times> u32) \<times> resource_manager" where
  "rm_step rm q =
     (let (r, rm1) = rm_allocate (snd q) (fst q) rm
      in (bind_sum r (\<lambda>i. Inr (fst q, i)), rm1))"

fun worker_request_of :: "rm_request \<Rightarrow> worker_request option" where
  "worker_request_of (RmPacker p) = Some (ReqPacker p)"
| "worker_request_of (RmUnpacker p) = Some (ReqUnpacker p)"
| "worker_request_of (RmIntermed p) = Some (ReqIntermed p)"
| "worker_request_of (RmPackerMulticast p) = Some (ReqPackerMulticast p)"
| "worker_request_of RmGather = Some ReqGather"
| "worker_request_of RmMulticast = Some ReqMulticast"
| "worker_request_of RmGeneralPurpose = Some ReqGeneralPurpose"
| "worker_request_of RmEthernet = None"

definition rm_used :: "resource_manager \<Rightarrow> (tt_cxy_pair \<times> u32) set" where
  "rm_used rm = {(loc, i). case worker_cores rm loc of
       Some w \<Rightarrow> i \<in> allocated_stream_ids w
     | None \<Rightarrow> (case ethernet_cores rm loc of
           Some w \<Rightarrow> i \<in> allocated_stream_ids w
         | None \<Rightarrow> False)}"

text \<open>
  No location is both a worker and an ethernet core, as in the descriptors; \<open>tracks loc\<close> says which worker
  cores may be asked for gather streams.
\<close>

definition rm_inv ::
  "(tt_cxy_pair \<Rightarrow> bool) \<Rightarrow> tt_arch \<Rightarrow> tt_cxy_pair set \<Rightarrow> tt_cxy_pair set \<Rightarrow> resource_manager \<Rightarrow> bool" where
  "rm_inv tracks a workers locs rm \<longleftrightarrow>
     dom (worker_cores rm) = workers \<and> dom (worker_cores rm) \<inter> dom (ethernet_cores rm) = {}
     \<and> dom (worker_cores rm) \<union> dom (ethernet_cores rm) \<subseteq> locs
     \<and> (\<forall>loc w. worker_cores rm loc = Some w \<longrightarrow> worker_inv (tracks loc) a w)
     \<and> (\<forall>loc w. ethernet_cores rm loc = Some w \<longrightarrow> eth_inv w)"

fun rm_admissible ::
  "(tt_cxy_pair \<Rightarrow> bool) \<Rightarrow> tt_arch \<Rightarrow> tt_cxy_pair set \<Rightarrow> tt_cxy_pair \<times> rm_request \<Rightarrow> bool" where
  "rm_admissible tracks a workers (loc, r) \<longleftrightarrow>
     (loc \<in> workers \<longrightarrow> (case worker_request_of r of Some q \<Rightarrow> worker_admissible (tracks loc) a q | None \<Rightarrow> True))"

definition rm_granted ::
  "tt_cxy_pair \<Rightarrow> (pipegen2_exn + u32) \<times> resource_manager \<Rightarrow> resource_manager \<Rightarrow> bool" where
  "rm_granted loc r rm \<longleftrightarrow>
     (case fst r of
        Inl e \<Rightarrow> rm_used (snd r) = rm_used rm
      | Inr i \<Rightarrow> (loc, i) \<notin> rm_used rm \<and> rm_used (snd r) = insert (loc, i) (rm_used rm))"

lemma on_worker_sound:
  assumes inv: "rm_inv tracks a workers locs rm"
    and f: "\<And>w. loc \<in> workers \<Longrightarrow> worker_inv (tracks loc) a w
      \<Longrightarrow> worker_inv (tracks loc) a (snd (f w)) \<and> worker_granted (f w) w"
  shows "rm_inv tracks a workers locs (snd (on_worker loc f rm)) \<and> rm_granted loc (on_worker loc f rm) rm"
proof (cases "worker_cores rm loc")
  case None
  then show ?thesis using inv by (simp add: on_worker_def rm_granted_def)
next
  case (Some w)
  moreover from this have "loc \<in> workers" "worker_inv (tracks loc) a w" using inv by (auto simp: rm_inv_def)
  moreover note f [of w]
  ultimately have fw: "worker_inv (tracks loc) a (snd (f w))" "worker_granted (f w) w" by auto
  let ?rm = "rm\<lparr>worker_cores := (worker_cores rm)(loc \<mapsto> snd (f w))\<rparr>"
  have eq: "on_worker loc f rm = (fst (f w), ?rm)"
    using Some by (simp add: on_worker_def case_prod_unfold Let_def)
  have "rm_inv tracks a workers locs ?rm" using inv fw(1) Some by (auto simp: rm_inv_def)
  moreover have "rm_used ?rm = {(l, i). if l = loc then i \<in> allocated_stream_ids (snd (f w))
      else (l, i) \<in> rm_used rm}"
    by (auto simp: rm_used_def split: if_splits option.splits)
  moreover have "(loc, i) \<in> rm_used rm \<longleftrightarrow> i \<in> allocated_stream_ids w" for i
    using Some by (simp add: rm_used_def)
  ultimately show ?thesis
    using fw(2) by (cases "fst (f w)") (auto simp: eq rm_granted_def worker_granted_def split: if_splits)
qed

lemma on_ethernet_sound:
  assumes inv: "rm_inv tracks a workers locs rm"
    and f: "\<And>w. eth_inv w \<Longrightarrow> eth_inv (snd (f w)) \<and> eth_granted (f w) w"
  shows "rm_inv tracks a workers locs (snd (on_ethernet loc f rm)) \<and> rm_granted loc (on_ethernet loc f rm) rm"
proof (cases "ethernet_cores rm loc")
  case None
  then show ?thesis using inv by (simp add: on_ethernet_def rm_granted_def)
next
  case (Some w)
  with inv f [of w] have fw: "eth_inv (snd (f w))" "eth_granted (f w) w"
    by (auto simp: rm_inv_def)
  let ?rm = "rm\<lparr>ethernet_cores := (ethernet_cores rm)(loc \<mapsto> snd (f w))\<rparr>"
  have eq: "on_ethernet loc f rm = (fst (f w), ?rm)"
    using Some by (simp add: on_ethernet_def case_prod_unfold Let_def)
  have noworker: "worker_cores rm loc = None" using inv Some by (auto simp: rm_inv_def)
  have "rm_inv tracks a workers locs ?rm" using inv fw(1) Some by (auto simp: rm_inv_def)
  moreover have "rm_used ?rm = {(l, i). if l = loc then i \<in> allocated_stream_ids (snd (f w))
      else (l, i) \<in> rm_used rm}"
    using noworker by (auto simp: rm_used_def split: if_splits option.splits)
  moreover have "(loc, i) \<in> rm_used rm \<longleftrightarrow> i \<in> allocated_stream_ids w" for i
    using Some noworker by (simp add: rm_used_def)
  ultimately show ?thesis
    using fw(2) by (cases "fst (f w)") (auto simp: eq rm_granted_def eth_granted_def split: if_splits)
qed

lemma on_core_sound:
  assumes inv: "rm_inv tracks a workers locs rm"
    and f: "\<And>w. loc \<in> workers \<Longrightarrow> worker_inv (tracks loc) a w
      \<Longrightarrow> worker_inv (tracks loc) a (snd (f w)) \<and> worker_granted (f w) w"
    and g: "\<And>w. eth_inv w \<Longrightarrow> eth_inv (snd (g w)) \<and> eth_granted (g w) w"
  shows "rm_inv tracks a workers locs (snd (on_core loc f g rm)) \<and> rm_granted loc (on_core loc f g rm) rm"
  using on_worker_sound [OF inv f] on_ethernet_sound [OF inv g]
  by (cases "worker_cores rm loc") (simp_all add: on_core_def)

lemma rm_allocate_sound:
  assumes inv: "rm_inv tracks a workers locs rm" and adm: "rm_admissible tracks a workers (loc, r)"
  shows "rm_inv tracks a workers locs (snd (rm_allocate r loc rm)) \<and> rm_granted loc (rm_allocate r loc rm) rm"
proof -
  have w: "worker_inv (tracks loc) a (snd (worker_step w q)) \<and> worker_granted (worker_step w q) w"
    if "worker_request_of r = Some q" "loc \<in> workers" "worker_inv (tracks loc) a w" for w q
    using worker_step_sound [OF that(3)] adm that(1,2) by simp
  have worker: "rm_inv tracks a workers locs (snd (on_worker loc (\<lambda>w. worker_step w q) rm))
      \<and> rm_granted loc (on_worker loc (\<lambda>w. worker_step w q) rm) rm"
    if "worker_request_of r = Some q" for q
    by (rule on_worker_sound [OF inv]) (rule w [OF that], assumption+)
  have eth: "rm_inv tracks a workers locs (snd (on_ethernet loc (\<lambda>w. ethernet_step w q) rm))
      \<and> rm_granted loc (on_ethernet loc (\<lambda>w. ethernet_step w q) rm) rm" for q
    by (rule on_ethernet_sound [OF inv]) (rule ethernet_step_sound)
  have core: "rm_inv tracks a workers locs
        (snd (on_core loc (\<lambda>w. worker_step w q) (\<lambda>w. ethernet_step w q') rm))
      \<and> rm_granted loc (on_core loc (\<lambda>w. worker_step w q) (\<lambda>w. ethernet_step w q') rm) rm"
    if "worker_request_of r = Some q" for q q'
    by (rule on_core_sound [OF inv]) (rule w [OF that], assumption, assumption, rule ethernet_step_sound)
  show ?thesis
  proof (cases r)
    case (RmPacker p)
    show ?thesis
    proof (cases "is_ethernet_core loc (rm_soc_info rm)")
      case (Inl x)
      then show ?thesis
        using inv RmPacker by (simp add: rm_allocate_packer_stream_def rm_granted_def)
    next
      case (Inr b)
      then show ?thesis
        using RmPacker worker [of "ReqPacker p"] eth [of EthReqGeneralPurpose]
        by (cases b) (simp_all add: rm_allocate_packer_stream_def)
    qed
  next
    case (RmUnpacker p)
    then show ?thesis
      using worker [of "ReqUnpacker p"] by (simp add: rm_allocate_unpacker_stream_def)
  next
    case (RmIntermed p)
    then show ?thesis
      using worker [of "ReqIntermed p"] by (simp add: rm_allocate_intermed_stream_def)
  next
    case (RmPackerMulticast p)
    then show ?thesis
      using worker [of "ReqPackerMulticast p"] by (simp add: rm_allocate_packer_multicast_stream_def)
  next
    case RmGather
    then show ?thesis
      using core [of ReqGather EthReqGather] by (simp add: rm_allocate_gather_stream_def)
  next
    case RmMulticast
    then show ?thesis
      using core [of ReqMulticast EthReqMulticast] by (simp add: rm_allocate_multicast_stream_def)
  next
    case RmGeneralPurpose
    then show ?thesis
      using core [of ReqGeneralPurpose EthReqGeneralPurpose] by (simp add: rm_allocate_general_purpose_stream_def)
  next
    case RmEthernet
    then show ?thesis
      using eth [of EthReqEthernet] by (simp add: rm_allocate_ethernet_stream_def)
  qed
qed

lemma rm_step_granted:
  assumes "rm_inv tracks a workers locs rm" and "rm_admissible tracks a workers q"
  shows "rm_inv tracks a workers locs (snd (rm_step rm q))"
    and "fst (rm_step rm q) = Inr x \<Longrightarrow> x \<notin> rm_used rm \<and> rm_used (snd (rm_step rm q)) = insert x (rm_used rm)"
    and "fst (rm_step rm q) = Inl e \<Longrightarrow> rm_used (snd (rm_step rm q)) = rm_used rm"
  using rm_allocate_sound [OF assms(1), of "fst q" "snd q"] assms(2)
  by (cases "fst (rm_allocate (snd q) (fst q) rm)";
      auto simp: rm_step_def Let_def case_prod_unfold rm_granted_def)+

interpretation manager: fresh_allocator rm_step "\<lambda>rm. rm_inv tracks a workers locs rm \<and> finite locs"
    "rm_admissible tracks a workers" rm_used "(if finite locs then locs else {}) \<times> stream_pool 64"
  for tracks a workers locs
proof unfold_locales
  show "rm_used rm \<subseteq> (if finite locs then locs else {}) \<times> stream_pool 64"
    if *: "rm_inv tracks a workers locs rm \<and> finite locs" for rm
  proof -
    have "loc \<in> locs \<and> unat i < 64" if used: "(loc, i) \<in> rm_used rm" for loc i
    proof (cases "worker_cores rm loc")
      case (Some w)
      then show ?thesis using * used by (force simp: rm_used_def rm_inv_def worker_inv_def)
    next
      case None
      then obtain w where "ethernet_cores rm loc = Some w" "i \<in> allocated_stream_ids w"
        using used by (auto simp: rm_used_def split: option.splits)
      moreover from this have "unat i < 32"
        using * by (fastforce simp: rm_inv_def eth_inv_def eth_handed_out_def split: if_splits)
      ultimately show ?thesis using * by (force simp: rm_inv_def)
    qed
    then show ?thesis using * by (force intro: in_stream_pool)
  qed
qed (use rm_step_granted finite_stream_pool in auto)

lemma new_rm_worker:
  "rm_new_inv env soc rm \<Longrightarrow> worker_cores rm loc = Some w \<Longrightarrow>
     \<exists>a. get_device_arch soc = Inr a
       \<and> w = new_worker_core_resources (worker_map env) a loc (physical_to_logical env loc)"
  by (simp add: rm_new_inv_def)

lemma new_rm_ethernet:
  "rm_new_inv env soc rm \<Longrightarrow> ethernet_cores rm loc = Some w \<Longrightarrow>
     w = new_ethernet_core_resources (ethernet_map env) loc"
  by (simp add: rm_new_inv_def)

lemma new_rm_inv:
  assumes "new_resource_manager env soc = Inr rm" and "get_device_arch soc = Inr a"
    and "\<And>loc. tracks loc \<or> a \<noteq> GRAYSKULL" and "dom (worker_cores rm) \<inter> dom (ethernet_cores rm) = {}"
  shows "rm_inv tracks a (dom (worker_cores rm)) (dom (worker_cores rm) \<union> dom (ethernet_cores rm)) rm"
    and "finite (dom (worker_cores rm) \<union> dom (ethernet_cores rm))" and "rm_used rm = {}"
proof -
  note inv = new_resource_manager_inv [OF assms(1)]
  have "worker_inv (tracks loc) a w" if "worker_cores rm loc = Some w" for loc w
  proof -
    have "w = new_worker_core_resources (worker_map env) a loc (physical_to_logical env loc)"
      using new_rm_worker [OF inv that] assms(2) by simp
    then show ?thesis by (simp add: worker_inv_new [OF assms(3)])
  qed
  moreover have "eth_inv w" if "ethernet_cores rm loc = Some w" for loc w
    using new_rm_ethernet [OF inv that] eth_inv_new by blast
  ultimately show "rm_inv tracks a (dom (worker_cores rm)) (dom (worker_cores rm) \<union> dom (ethernet_cores rm)) rm"
    using assms(4) by (auto simp: rm_inv_def)
  show "finite (dom (worker_cores rm) \<union> dom (ethernet_cores rm))"
    using inv by (simp add: rm_new_inv_def)
  have empty: "allocated_stream_ids (new_worker_core_resources m b p q) = {}"
    "allocated_stream_ids (new_ethernet_core_resources m p) = {}" for m b p q
    by (simp_all add: new_worker_core_resources_def new_ethernet_core_resources_def
        new_core_resources_def core_resources.defs)
  have "allocated_stream_ids w = {}" if "worker_cores rm loc = Some w" for loc w
    using new_rm_worker [OF inv that] empty(1) by blast
  moreover have "allocated_stream_ids w = {}" if "ethernet_cores rm loc = Some w" for loc w
    using new_rm_ethernet [OF inv that] empty(2) by blast
  ultimately show "rm_used rm = {}"
    by (auto simp: rm_used_def split: option.splits)
qed

text \<open>C21 No stream of a core is handed out twice: starting from the manager built for a set of chips whose
  worker and ethernet cores are at different locations, over any sequence of stream allocations on any of its
  cores, the pairs of location and stream id granted are distinct, and each is recorded at its core. On Wormhole
  and Blackhole no worker core may be asked for both gather and packer-multicast streams: those take the same
  ids, as the lemma \<open>wh_gather_repeats_packer_multicast\<close> shows.\<close>

theorem resource_manager_streams_distinct:
  assumes "new_resource_manager env soc = Inr rm" and "get_device_arch soc = Inr a"
    and "dom (worker_cores rm) \<inter> dom (ethernet_cores rm) = {}"
    and "a = GRAYSKULL \<or> (\<forall>loc \<in> dom (worker_cores rm).
           (loc, RmGather) \<notin> set qs \<or> (\<forall>p. (loc, RmPackerMulticast p) \<notin> set qs))"
  shows "distinct (grants (fst (run_ops rm_step rm qs)))
    \<and> rm_used (snd (run_ops rm_step rm qs)) = set (grants (fst (run_ops rm_step rm qs)))"
proof -
  define tracks where "tracks = (\<lambda>loc. a = GRAYSKULL \<or> (\<forall>p. (loc, RmPackerMulticast p) \<notin> set qs))"
  have "rm_admissible tracks a (dom (worker_cores rm)) (loc, r)" if "(loc, r) \<in> set qs" for loc r
  proof (cases r)
  qed (use that assms(4) in \<open>auto simp: tracks_def\<close>)
  then have adm: "\<forall>q \<in> set qs. rm_admissible tracks a (dom (worker_cores rm)) q" by fastforce
  have arch: "tracks loc \<or> a \<noteq> GRAYSKULL" for loc unfolding tracks_def by blast
  note new = new_rm_inv [where tracks = tracks, OF assms(1,2) arch assms(3)]
  show ?thesis using manager.run_fresh [OF conjI [OF new(1,2)] adm] new(3) by simp
qed

definition sample_env :: build_env where
  "sample_env = \<lparr>worker_map = wormhole_l1_map, ethernet_map = eth_l1_map,
     overlay_blob_sizes = sample_blob_sizes, physical_to_logical = (\<lambda>loc. loc)\<rparr>"

definition sample_soc :: soc_info where
  "sample_soc = [(0, \<lparr>soc_arch = WORMHOLE_B0, soc_workers = [(1, 1), (2, 1)],
     soc_ethernet_cores = [(9, 0)]\<rparr>)]"

definition sample_rm :: resource_manager where
  "sample_rm = (case new_resource_manager sample_env sample_soc of Inr rm \<Rightarrow> rm)"

lemma sample_rm_facts:
  "new_resource_manager sample_env sample_soc = Inr sample_rm"
  "get_device_arch sample_soc = Inr WORMHOLE_B0"
  "dom (worker_cores sample_rm) \<inter> dom (ethernet_cores sample_rm) = {}"
  "worker_cores sample_rm (at_chip 0 (1, 1)) \<noteq> None"
  "worker_cores sample_rm (at_chip 0 (2, 1)) \<noteq> None"
  by (simp_all add: sample_rm_def new_resource_manager_def sample_env_def sample_soc_def
      get_chip_ids_def add_chip_def get_worker_cores_physical_locations_def
      get_ethernet_cores_physical_locations_def get_soc_descriptor_def add_worker_core_def
      add_ethernet_core_def get_device_arch_def create_ethernet_core_resources_def emplace_def
      at_chip_def)

theorem resource_manager_streams_distinct_witness:
  "distinct (grants (fst (run_ops rm_step sample_rm
     [(at_chip 0 (1, 1), RmPacker 16), (at_chip 0 (2, 1), RmPacker 16), (at_chip 0 (1, 1), RmPacker 16),
      (at_chip 0 (9, 0), RmPacker 16), (at_chip 0 (9, 0), RmEthernet),
      (at_chip 0 (1, 1), RmPackerMulticast 17), (at_chip 0 (1, 1), RmMulticast)])))"
  by (rule resource_manager_streams_distinct [OF sample_rm_facts(1-3), THEN conjunct1]) simp

section \<open>Uniform tile header buffers\<close>

text \<open>Two layouts that differ in their location and buffers only give a tile size the same address.\<close>

definition same_thbs :: "l1_layout \<Rightarrow> l1_layout \<Rightarrow> bool" where
  "same_thbs k l \<longleftrightarrow> allocated_thbs k = allocated_thbs l
     \<and> current_space_address k = current_space_address l
     \<and> predefined_thb_address k = predefined_thb_address l"

lemma same_thbs_allocate:
  "same_thbs k l \<Longrightarrow> same_thbs (snd (allocate_l1_tile_header_buffer t k))
     (snd (allocate_l1_tile_header_buffer t l))"
  by (auto simp: same_thbs_def l1_alloc_defs create_buffer_defs Let_def split: option.split)

definition fold_thbs :: "u32 list \<Rightarrow> l1_layout \<Rightarrow> l1_layout" where
  "fold_thbs sizes l = fold (\<lambda>t l. snd (allocate_l1_tile_header_buffer t l)) sizes l"

lemma l1_of_allocate_thbs:
  "l1_data_buffers_memory (allocate_thbs sizes c) = fold_thbs sizes (l1_data_buffers_memory c)"
  unfolding allocate_thbs_def fold_thbs_def
  by (induction sizes arbitrary: c) (simp_all add: on_l1_def case_prod_unfold Let_def)

lemma same_thbs_fold: "same_thbs k l \<Longrightarrow> same_thbs (fold_thbs sizes k) (fold_thbs sizes l)"
  unfolding fold_thbs_def
  by (induction sizes arbitrary: k l) (simp_all add: same_thbs_allocate)

lemma fold_thbs_run:
  "fold_thbs sizes l = snd (run_ops (l1_allocate None env) l (map ReqTileHeader sizes))"
  unfolding fold_thbs_def
  by (induction sizes arbitrary: l) (simp_all add: Let_def case_prod_unfold)

text \<open>C36 After the chip-wide allocation every two worker cores of a chip that take part in it have a
  tile header buffer for every tile size any of them needs, at the same address on both.\<close>

theorem chip_wide_tile_header_buffers:
  assumes "new_resource_manager env soc = Inr rm"
    and "worker_cores rm c \<noteq> None" and "worker_cores rm d \<noteq> None" and "cxy_chip c = cxy_chip d"
    and "map_of info c = Some sizes" and "map_of info d \<noteq> None" and "t \<in> set sizes"
  shows "\<exists>address.
      rm_get_tile_header_buffer_address c t (rm_allocate_l1_tile_header_buffers info rm) = Inr address
    \<and> rm_get_tile_header_buffer_address d t (rm_allocate_l1_tile_header_buffers info rm) = Inr address"
proof -
  let ?sizes = "chip_tile_sizes info rm (cxy_chip c)"
  let ?m = "worker_map env"
  have fresh: "\<exists>p q. worker_cores rm loc = Some w \<and> l1_data_buffers_memory w = core_l1_layout p q ?m"
    if "worker_cores rm loc = Some w" for loc w
    using that new_resource_manager_inv [OF assms(1)]
    by (force simp: rm_new_inv_def new_worker_core_resources_def new_core_resources_def
        core_resources.defs core_l1_layout_def)
  have l1: "\<exists>p q. core_l1 loc (rm_allocate_l1_tile_header_buffers info rm)
      = Inr (fold_thbs ?sizes (core_l1_layout p q ?m))"
    if loc: "worker_cores rm loc \<noteq> None" "map_of info loc \<noteq> None" "cxy_chip loc = cxy_chip c" for loc
  proof -
    from loc(1) obtain w where w: "worker_cores rm loc = Some w" by blast
    with fresh obtain p q where "l1_data_buffers_memory w = core_l1_layout p q ?m" by blast
    then have "core_l1 loc (rm_allocate_l1_tile_header_buffers info rm)
        = Inr (fold_thbs ?sizes (core_l1_layout p q ?m))"
      using w loc(2,3) by (auto simp: core_l1_def rm_allocate_l1_tile_header_buffers_def l1_of_allocate_thbs)
    then show ?thesis by blast
  qed
  obtain p q where c: "core_l1 c (rm_allocate_l1_tile_header_buffers info rm)
      = Inr (fold_thbs ?sizes (core_l1_layout p q ?m))"
    using l1 [of c] assms(2,5) by auto
  obtain p' q' where d: "core_l1 d (rm_allocate_l1_tile_header_buffers info rm)
      = Inr (fold_thbs ?sizes (core_l1_layout p' q' ?m))"
    using l1 [of d] assms(3,4,6) by auto
  have "(c, sizes) \<in> set info" using assms(5) by (rule map_of_SomeD)
  then have "t \<in> set ?sizes"
    using assms(2,7) by (force simp: chip_tile_sizes_def)
  moreover have "same_thbs (fold_thbs ?sizes (core_l1_layout p q ?m))
      (fold_thbs ?sizes (core_l1_layout p' q' ?m))"
    by (rule same_thbs_fold) (simp add: same_thbs_def core_l1_layout_def new_l1_layout_def)
  moreover have "\<exists>b. get_tile_header_buffer_address t (fold_thbs ?sizes (core_l1_layout p q ?m)) = Inr b"
    using \<open>t \<in> set ?sizes\<close> 
    by (intro known_thb_address)
      (force simp: fold_thbs_run [of _ _ "overlay_blob_sizes env"] known_thbs_run)
  ultimately show ?thesis
    by (auto simp: rm_get_tile_header_buffer_address_def c d get_tile_header_buffer_address_def same_thbs_def)
qed

theorem chip_wide_tile_header_buffers_witness:
  "\<exists>address.
      rm_get_tile_header_buffer_address (at_chip 0 (1, 1)) 2080
        (rm_allocate_l1_tile_header_buffers
          [(at_chip 0 (1, 1), [1056, 2080]), (at_chip 0 (2, 1), [512])] sample_rm) = Inr address
    \<and> rm_get_tile_header_buffer_address (at_chip 0 (2, 1)) 2080
        (rm_allocate_l1_tile_header_buffers
          [(at_chip 0 (1, 1), [1056, 2080]), (at_chip 0 (2, 1), [512])] sample_rm) = Inr address"
  by (rule chip_wide_tile_header_buffers [OF sample_rm_facts(1,4,5), of _ "[1056, 2080]"])
    (simp_all add: at_chip_def)

end
