(* ===== verification/ScatterCompressor.thy ===== *)
theory ScatterCompressor
  imports Prelude
begin

text \<open>
  The compression of DRAM scatter offsets in pipegen2: \<open>DramScatterOffsetCompressor\<close>
  (\<open>src/src/pipegen2/lib/src/graph_creator/stream_graph/ncrisc_creators/\<close>). Offsets are 64-bit
  words whose differences wrap; indices and counts stay below the length of the offset vector and
  are natural numbers. The lists that may be indexed are never read out of range by the code.
\<close>

section \<open>Compression results\<close>

record pattern_compression =
  num_loops :: nat
  increment :: u64
  pattern_length :: nat

definition no_compression :: pattern_compression where
  "no_compression = \<lparr>num_loops = 0, increment = 0, pattern_length = 0\<rparr>"

definition has_compression :: "pattern_compression \<Rightarrow> bool" where
  "has_compression c \<longleftrightarrow> num_loops c > 0"

definition get_compression_level :: "pattern_compression \<Rightarrow> nat" where
  "get_compression_level c = (if has_compression c then num_loops c * pattern_length c else 0)"

definition better_compression :: "pattern_compression \<Rightarrow> pattern_compression \<Rightarrow> bool" where
  "better_compression c d \<longleftrightarrow>
     (if get_compression_level c = get_compression_level d then pattern_length c > pattern_length d
      else get_compression_level c > get_compression_level d)"

definition can_compress :: "nat \<Rightarrow> pattern_compression \<Rightarrow> bool" where
  "can_compress min_compression_level c \<longleftrightarrow> get_compression_level c \<ge> min_compression_level"

definition c_minimum_compression_level :: nat where "c_minimum_compression_level = 3"
definition c_min_scatter_pattern_length :: nat where "c_min_scatter_pattern_length = 8"
definition c_min_scatter_pattern_length_for_tilizer :: nat where
  "c_min_scatter_pattern_length_for_tilizer = 5"
definition c_bad_increment_threshold :: u64 where "c_bad_increment_threshold = 0xFFFFFFFF"
definition dram_io_is_scatter_loop_flag :: u64 where
  "dram_io_is_scatter_loop_flag = 0x8000000000000000"
definition c_dram_io_is_scatter_loop_for_tilizer_flag :: u64 where
  "c_dram_io_is_scatter_loop_for_tilizer_flag = 0x80000000"

lemmas compressor_constants =
  c_minimum_compression_level_def c_min_scatter_pattern_length_def
  c_min_scatter_pattern_length_for_tilizer_def c_bad_increment_threshold_def
  dram_io_is_scatter_loop_flag_def c_dram_io_is_scatter_loop_for_tilizer_flag_def

section \<open>The best pattern at an index\<close>

definition is_valid_scatter_offset_increment :: "u64 \<Rightarrow> bool" where
  "is_valid_scatter_offset_increment i \<longleftrightarrow> i \<le> c_bad_increment_threshold"

text \<open>
  One round of the loop over the elements of a pattern: it ends at a difference that does not fit
  32 bits, at the first difference unlike the increment so far, or with the increment matched.
\<close>

datatype scan_result = BadIncrement | Mismatch "u64 option" | Matched "u64 option"

fun scan_pattern :: "u64 list \<Rightarrow> nat \<Rightarrow> nat \<Rightarrow> nat list \<Rightarrow> u64 option \<Rightarrow> scan_result" where
  "scan_pattern offs start len [] inc = Matched inc"
| "scan_pattern offs start len (e # es) inc =
     (let prev_offset = offs ! (start + e);
          next_offset = offs ! (start + e + len);
          current_el_increment = next_offset - prev_offset
      in if \<not> is_valid_scatter_offset_increment current_el_increment then BadIncrement
         else if inc \<noteq> None \<and> inc \<noteq> Some current_el_increment then Mismatch inc
         else scan_pattern offs start len es (Some current_el_increment))"

fun count_loops ::
  "u64 list \<Rightarrow> nat \<Rightarrow> nat \<Rightarrow> nat list \<Rightarrow> nat \<Rightarrow> u64 option \<Rightarrow> pattern_compression" where
  "count_loops offs start len [] n inc =
     \<lparr>num_loops = n, increment = (case inc of None \<Rightarrow> 0 | Some i \<Rightarrow> i), pattern_length = len\<rparr>"
| "count_loops offs start len (loop_index # ls) n inc =
     (case scan_pattern offs (start + loop_index * len) len [0..<len] inc of
        BadIncrement \<Rightarrow> no_compression
      | Mismatch inc' \<Rightarrow> count_loops offs start len [] n inc'
      | Matched inc' \<Rightarrow> count_loops offs start len ls (n + 1) inc')"

definition get_scatter_pattern_compression :: "u64 list \<Rightarrow> nat \<Rightarrow> nat \<Rightarrow> pattern_compression" where
  "get_scatter_pattern_compression offs start len =
     (let max_num_loops = (length offs - start - len) div len
      in count_loops offs start len [0..<max_num_loops] 0 None)"

definition get_max_pattern_compression :: "u64 list \<Rightarrow> nat \<Rightarrow> pattern_compression" where
  "get_max_pattern_compression offs start =
     (let max_pattern_length = (length offs - start) div 2
      in fold (\<lambda>len best. let current = get_scatter_pattern_compression offs start len
                          in if better_compression current best then current else best)
           [c_min_scatter_pattern_length..<max_pattern_length + 1] no_compression)"

section \<open>Compression\<close>

definition encode_dram_scatter_offset_loop :: "pattern_compression \<Rightarrow> u64" where
  "encode_dram_scatter_offset_loop c =
     dram_io_is_scatter_loop_flag OR push_bit 32 (word_of_nat (num_loops c))
       OR word_of_nat (pattern_length c)"

definition get_compression_scatter_pattern_length :: "u64 list \<Rightarrow> pattern_compression \<Rightarrow> nat \<Rightarrow> nat" where
  "get_compression_scatter_pattern_length offs c start =
     (if can_compress c_minimum_compression_level c then pattern_length c else length offs - start)"

definition get_compression_pattern_index_increment :: "u64 list \<Rightarrow> pattern_compression \<Rightarrow> nat \<Rightarrow> nat" where
  "get_compression_pattern_index_increment offs c start =
     (if can_compress c_minimum_compression_level c then (num_loops c + 1) * pattern_length c
      else length offs - start)"

definition insert_scatter_pattern :: "u64 list \<Rightarrow> nat \<Rightarrow> nat \<Rightarrow> u64 list \<Rightarrow> u64 list" where
  "insert_scatter_pattern offs start len compressed = compressed @ map (\<lambda>i. offs ! (start + i)) [0..<len]"

definition insert_scatter_offset_loop :: "pattern_compression \<Rightarrow> u64 list \<Rightarrow> u64 list" where
  "insert_scatter_offset_loop c compressed =
     (compressed @ [encode_dram_scatter_offset_loop c]) @ [increment c]"

text \<open>The main loop, with the vector of compressed offsets so far; an index that does not grow would not
  terminate, and a pattern that can be compressed is not empty.\<close>

lemma index_increment_pos:
  "start < length offs \<Longrightarrow> 0 < get_compression_pattern_index_increment offs c start"
  by (auto simp: get_compression_pattern_index_increment_def can_compress_def
      get_compression_level_def c_minimum_compression_level_def split: if_splits intro: gr0I)

function compress_loop :: "u64 list \<Rightarrow> nat \<Rightarrow> u64 list \<Rightarrow> u64 list" where
  "compress_loop offs start compressed =
     (if start < length offs then
        (let c = get_max_pattern_compression offs start;
             scatter_pattern_length = get_compression_scatter_pattern_length offs c start;
             offsets_to_skip = get_compression_pattern_index_increment offs c start;
             compressed1 = insert_scatter_pattern offs start scatter_pattern_length compressed;
             compressed2 = (if can_compress c_minimum_compression_level c
                            then insert_scatter_offset_loop c compressed1 else compressed1)
         in compress_loop offs (start + offsets_to_skip) compressed2)
      else compressed)"
  by pat_completeness auto

termination
  by (relation "measure (\<lambda>(offs, start, _). length offs - start)")
    (auto simp: Let_def intro!: diff_less_mono2 index_increment_pos)

declare compress_loop.simps [simp del]

definition compress_dram_scatter_offsets :: "u64 list \<Rightarrow> u64 list" where
  "compress_dram_scatter_offsets offs = compress_loop offs 0 []"

section \<open>Compression for the tilizer\<close>

text \<open>The \<open>while\<close> of the search for the end of an arithmetic progression.\<close>

function extend_progression :: "u64 list \<Rightarrow> u64 \<Rightarrow> nat \<Rightarrow> nat \<Rightarrow> nat" where
  "extend_progression offs pattern_diff max_end e =
     (if e + 1 \<le> max_end \<and> offs ! (e + 1) - offs ! e = pattern_diff
      then extend_progression offs pattern_diff max_end (e + 1) else e)"
  by pat_completeness auto

termination
  by (relation "measure (\<lambda>(_, _, m, e). m - e)") auto

declare extend_progression.simps [simp del]

text \<open>The bound \<open>start + max_pattern_length - 1\<close> wraps to the largest index when the sum is zero.\<close>

definition find_arithmetic_progression_pattern_end_index :: "u64 list \<Rightarrow> nat \<Rightarrow> u32 \<Rightarrow> u32 \<Rightarrow> nat" where
  "find_arithmetic_progression_pattern_end_index offs start c_dim_size tilize_mblock_n_loop_num_rows =
     (if start + c_min_scatter_pattern_length_for_tilizer > length offs then length offs - 1
      else (let max_pattern_length =
                  (let most = unat c_dram_io_is_scatter_loop_for_tilizer_flag + 1
                   in if c_dim_size > 1 then min most (unat tilize_mblock_n_loop_num_rows) else most);
                max_pattern_end_index =
                  (if start + max_pattern_length = 0 then length offs - 1
                   else min (length offs - 1) (start + max_pattern_length - 1));
                pattern_diff = offs ! (start + 1) - offs ! start
            in extend_progression offs pattern_diff max_pattern_end_index (start + 1)))"

function compress_tilizer_loop :: "u64 list \<Rightarrow> u32 \<Rightarrow> u32 \<Rightarrow> nat \<Rightarrow> u64 list \<Rightarrow> u64 list" where
  "compress_tilizer_loop offs c_dim rows start compressed =
     (if start < length offs then
        (let pattern_end = find_arithmetic_progression_pattern_end_index offs start c_dim rows;
             compressed1 =
               (if pattern_end - start + 1 \<ge> c_min_scatter_pattern_length_for_tilizer
                then compressed @ [offs ! start, offs ! (start + 1),
                       c_dram_io_is_scatter_loop_for_tilizer_flag
                         OR word_of_nat (pattern_end - start - 1)]
                else compressed @ map (\<lambda>i. offs ! i) [start..<pattern_end + 1])
         in compress_tilizer_loop offs c_dim rows (pattern_end + 1) compressed1)
      else compressed)"
  by pat_completeness auto

lemma extend_progression_ge: "e \<le> extend_progression offs d m e"
proof (induction offs d m e rule: extend_progression.induct)
  case (1 offs d m e)
  then show ?case
    by (subst extend_progression.simps) auto
qed

lemma pattern_end_ge:
  "start < length offs \<Longrightarrow> start \<le> find_arithmetic_progression_pattern_end_index offs start c r"
  using extend_progression_ge [of "start + 1"]
  by (auto simp: find_arithmetic_progression_pattern_end_index_def Let_def intro: Suc_leD)

termination compress_tilizer_loop
  by (relation "measure (\<lambda>(offs, _, _, start, _). length offs - start)")
    (auto simp: Let_def less_Suc_eq_le intro!: diff_less_mono2 pattern_end_ge)

declare compress_tilizer_loop.simps [simp del]

definition compress_dram_scatter_offsets_for_tilizer :: "u64 list \<Rightarrow> u32 \<Rightarrow> u32 \<Rightarrow> u64 list" where
  "compress_dram_scatter_offsets_for_tilizer offs c_dim_size tilize_mblock_n_loop_num_rows =
     compress_tilizer_loop offs c_dim_size tilize_mblock_n_loop_num_rows 0 []"

end
