(* ===== verification/ScatterReader.thy ===== *)
theory ScatterReader
  imports ScatterCompressor
begin

text \<open>
  The firmware side of compressed scatter lists: the scatter reads of a DRAM input stream
  (\<open>src/src/firmware/riscv/common/dram_stream_intf.cc\<close>). Memory is a function from word indices;
  the reads issued on the NOC are the trace the loops return. All registers are 32 bits and wrap.
\<close>

definition DRAM_IO_IS_SCATTER_LOOP :: u32 where "DRAM_IO_IS_SCATTER_LOOP = 0x80000000"
definition DRAM_IO_IS_SCATTER_LOOP_SIZE :: u32 where "DRAM_IO_IS_SCATTER_LOOP_SIZE = 2"
definition IS_DRAM_PADDING_SET :: u32 where "IS_DRAM_PADDING_SET = 0x40000000"
definition DRAM_SCATTER_LIST_INVALID :: u32 where "DRAM_SCATTER_LIST_INVALID = 0xFFFFFFFF"

lemmas scatter_constants =
  DRAM_IO_IS_SCATTER_LOOP_def DRAM_IO_IS_SCATTER_LOOP_SIZE_def IS_DRAM_PADDING_SET_def
  DRAM_SCATTER_LIST_INVALID_def

section \<open>Scatter reads\<close>

record scatter_state =
  scatter_idx :: u32
  scatter_loop_index :: u32
  scatter_loop_inc :: u32

text \<open>
  \<open>dram_scatter_loop_t\<close> laid over the 64-bit entries at an index: the low and the high half of the
  first and the low half of the second.
\<close>

definition num_index_back :: "(nat \<Rightarrow> u64) \<Rightarrow> u32 \<Rightarrow> u32" where
  "num_index_back mem i = ucast (mem (unat i))"

definition num_iter_field :: "(nat \<Rightarrow> u64) \<Rightarrow> u32 \<Rightarrow> u32" where
  "num_iter_field mem i = ucast (drop_bit 32 (mem (unat i)))"

definition inc_field :: "(nat \<Rightarrow> u64) \<Rightarrow> u32 \<Rightarrow> u32" where
  "inc_field mem i = ucast (mem (Suc (unat i)))"

definition decompress_scatter_offsets :: "(nat \<Rightarrow> u64) \<Rightarrow> scatter_state \<Rightarrow> scatter_state" where
  "decompress_scatter_offsets mem st =
     (let num_iter = num_iter_field mem (scatter_idx st);
          magic_number = num_iter AND DRAM_IO_IS_SCATTER_LOOP
      in if magic_number \<noteq> 0 then
           (let num_iter = num_iter AND NOT DRAM_IO_IS_SCATTER_LOOP in
            if scatter_loop_index st < num_iter then
              st\<lparr>scatter_loop_index := scatter_loop_index st + 1,
                 scatter_loop_inc := scatter_loop_inc st + inc_field mem (scatter_idx st),
                 scatter_idx := scatter_idx st - num_index_back mem (scatter_idx st)\<rparr>
            else
              st\<lparr>scatter_loop_index := 0, scatter_loop_inc := 0,
                 scatter_idx := scatter_idx st + DRAM_IO_IS_SCATTER_LOOP_SIZE\<rparr>)
         else st)"

text \<open>One round of \<open>dram_input_stream_issue_scatter_read\<close>: the source address and the new state.\<close>

definition scatter_read_round :: "u32 \<Rightarrow> (nat \<Rightarrow> u64) \<Rightarrow> scatter_state \<Rightarrow> u64 \<times> scatter_state" where
  "scatter_read_round addr_with_offset mem st =
     (let entry = mem (unat (scatter_idx st));
          is_padding_set = ((drop_bit 32 entry AND ucast IS_DRAM_PADDING_SET) \<noteq> 0);
          unpadded = entry AND NOT (push_bit 32 (ucast IS_DRAM_PADDING_SET));
          address = (if is_padding_set then unpadded
                     else unpadded + ucast (addr_with_offset + scatter_loop_inc st));
          st1 = st\<lparr>scatter_idx := scatter_idx st + 1\<rparr>
      in (address, decompress_scatter_offsets mem st1))"

text \<open>
  The loop over the tiles of a chunk. It does not end for a scatter chunk of no tiles, so it is a
  partial function; its value is the trace of source and destination addresses and the state.
\<close>

partial_function (option) issue_scatter_read_loop ::
  "u32 \<Rightarrow> (nat \<Rightarrow> u64) \<Rightarrow> u32 \<Rightarrow> u32 \<Rightarrow> u32 \<Rightarrow> u32 \<Rightarrow> u32 \<Rightarrow> scatter_state
     \<Rightarrow> ((u64 \<times> u32) list \<times> scatter_state) option" where
  "issue_scatter_read_loop addr_with_offset mem chunk_tiles scatter_tiles scatter_bytes
       scatter_tile dest st =
     (if scatter_tile < chunk_tiles then
        (let (address, st1) = scatter_read_round addr_with_offset mem st
         in Option.bind
              (issue_scatter_read_loop addr_with_offset mem chunk_tiles scatter_tiles scatter_bytes
                (scatter_tile + scatter_tiles) (dest + scatter_bytes) st1)
              (\<lambda>(trace, st2). Some ((address, dest) # trace, st2)))
      else Some ([], st))"

declare issue_scatter_read_loop.simps [code]

definition dram_input_stream_issue_scatter_read ::
  "u32 \<Rightarrow> u32 \<Rightarrow> (nat \<Rightarrow> u64) \<Rightarrow> u32 \<Rightarrow> u32 \<Rightarrow> u32 \<Rightarrow> u32 \<Rightarrow> scatter_state
     \<Rightarrow> ((u64 \<times> u32) list \<times> scatter_state) option" where
  "dram_input_stream_issue_scatter_read data_offset rdptr_byte mem chunk_tiles scatter_tiles
       scatter_bytes stream_dest_addr st =
     issue_scatter_read_loop (rdptr_byte + data_offset) mem chunk_tiles scatter_tiles scatter_bytes
       0 stream_dest_addr st"

section \<open>Scatter reads of the tilizer\<close>

record tilizer_state =
  t_scatter_idx :: u32
  t_scatter_loop_index :: u32
  c_dim_count :: u32
  col_offset_bytes :: u32

definition simpler_decompress_scatter_offsets :: "(nat \<Rightarrow> u32) \<Rightarrow> tilizer_state \<Rightarrow> bool \<times> tilizer_state" where
  "simpler_decompress_scatter_offsets mem st =
     (let num_iter = mem (unat (t_scatter_idx st));
          magic_number = (num_iter AND DRAM_IO_IS_SCATTER_LOOP \<noteq> 0 \<and> num_iter \<noteq> DRAM_SCATTER_LIST_INVALID)
      in if magic_number then
           (let num_iter = num_iter AND NOT DRAM_IO_IS_SCATTER_LOOP in
            if t_scatter_loop_index st < num_iter
            then (True, st\<lparr>t_scatter_loop_index := t_scatter_loop_index st + 1,
                           t_scatter_idx := t_scatter_idx st - 1\<rparr>)
            else (True, st\<lparr>t_scatter_loop_index := 0, t_scatter_idx := t_scatter_idx st + 1\<rparr>))
         else (False, st))"

text \<open>What a round issues: zeros for an invalid entry, or a read of the row the entry stands for.\<close>

datatype tilizer_issue = IssueZeros | IssueRow u32 u64

record tilizer_config =
  hw_tilize :: bool
  dram_addr :: u64
  embeddings_row_shift :: u32
  tilize_row_col_offset :: u32
  tc_addr_with_offset :: u32
  c_dim_size :: u32
  c_dim_loop_num_rows :: u32
  tc_scatter_chunk_bytes :: u32

definition tilizer_read_round ::
  "tilizer_config \<Rightarrow> (nat \<Rightarrow> u32) \<Rightarrow> tilizer_state \<Rightarrow> tilizer_issue \<times> tilizer_state" where
  "tilizer_read_round cfg mem st =
     (let entry = mem (unat (t_scatter_idx st));
          st1 = st\<lparr>t_scatter_idx := t_scatter_idx st + 1\<rparr>;
          invalid = (entry = DRAM_SCATTER_LIST_INVALID);
          inside_loop = (\<not> invalid \<and> hw_tilize cfg \<and> t_scatter_loop_index st > 0);
          scatter_offset_val_inc =
            (if inside_loop then entry - mem (unat (t_scatter_idx st1 - 2)) else 1);
          scatter_offset_val =
            (if inside_loop then entry + t_scatter_loop_index st * scatter_offset_val_inc else entry);
          issue = (if invalid then IssueZeros
                   else IssueRow scatter_offset_val
                     (dram_addr cfg + ucast (scatter_offset_val * embeddings_row_shift cfg
                        + tc_addr_with_offset cfg + col_offset_bytes st + tilize_row_col_offset cfg)));
          row_idx = (if hw_tilize cfg then scatter_offset_val + scatter_offset_val_inc
                     else t_scatter_idx st1);
          prev_scatter_loop_index = t_scatter_loop_index st;
          (done_decompress, st2) = (if hw_tilize cfg then simpler_decompress_scatter_offsets mem st1
                                    else (False, st1));
          st3 = (if row_idx AND (c_dim_loop_num_rows cfg - 1) = 0 then
                   (if c_dim_count st2 + 1 \<ge> c_dim_size cfg
                    then st2\<lparr>col_offset_bytes := 0, c_dim_count := 0\<rparr>
                    else st2\<lparr>c_dim_count := c_dim_count st2 + 1,
                             col_offset_bytes := col_offset_bytes st2 + tc_scatter_chunk_bytes cfg,
                             t_scatter_idx := t_scatter_idx st2 -
                               (if done_decompress
                                then c_dim_loop_num_rows cfg - prev_scatter_loop_index + 1
                                else c_dim_loop_num_rows cfg)\<rparr>)
                 else st2)
      in (issue, st3))"

partial_function (option) tilizer_read_loop ::
  "tilizer_config \<Rightarrow> (nat \<Rightarrow> u32) \<Rightarrow> u32 \<Rightarrow> u32 \<Rightarrow> u32 \<Rightarrow> u32 \<Rightarrow> tilizer_state
     \<Rightarrow> ((tilizer_issue \<times> u32) list \<times> tilizer_state) option" where
  "tilizer_read_loop cfg mem chunk_tiles scatter_tiles scatter_tile dest st =
     (if scatter_tile < chunk_tiles then
        (let (issue, st1) = tilizer_read_round cfg mem st
         in Option.bind
              (tilizer_read_loop cfg mem chunk_tiles scatter_tiles (scatter_tile + scatter_tiles)
                (dest + tc_scatter_chunk_bytes cfg) st1)
              (\<lambda>(trace, st2). Some ((issue, dest) # trace, st2)))
      else Some ([], st))"

declare tilizer_read_loop.simps [code]

section \<open>Rounds\<close>

text \<open>The trace of a number of rounds, and the loops as that many rounds.\<close>

fun rounds :: "('s \<Rightarrow> 'a \<times> 's) \<Rightarrow> nat \<Rightarrow> 's \<Rightarrow> 'a list \<times> 's" where
  "rounds f 0 st = ([], st)"
| "rounds f (Suc n) st = (let (a, st1) = f st; (as, st2) = rounds f n st1 in (a # as, st2))"

lemma rounds_add:
  "rounds f (m + n) st =
     (fst (rounds f m st) @ fst (rounds f n (snd (rounds f m st))),
      snd (rounds f n (snd (rounds f m st))))"
  by (induction m arbitrary: st) (simp_all add: case_prod_unfold Let_def)

lemma length_rounds [simp]: "length (fst (rounds f n st)) = n"
  by (induction n arbitrary: st) (simp_all add: case_prod_unfold Let_def)

fun dests :: "u32 \<Rightarrow> u32 \<Rightarrow> nat \<Rightarrow> u32 list" where
  "dests dest bytes 0 = []"
| "dests dest bytes (Suc n) = dest # dests (dest + bytes) bytes n"

lemma tiles_step:
  assumes "scatter_tiles > 0" and "unat (tile :: u32) + Suc n * unat scatter_tiles = unat chunk_tiles"
  shows "tile < chunk_tiles"
    and "unat (tile + scatter_tiles) + n * unat scatter_tiles = unat chunk_tiles"
proof -
  have "unat scatter_tiles > 0" using assms(1) by (simp add: word_less_nat_alt)
  then show "tile < chunk_tiles" using assms(2) by (simp add: word_less_nat_alt)
  have "unat tile + unat scatter_tiles < 2 ^ 32"
    using assms(2) unat_less_exp [of chunk_tiles] by simp
  then have "unat (tile + scatter_tiles) = unat tile + unat scatter_tiles"
    by (simp add: unat_plus_no_wrap)
  then show "unat (tile + scatter_tiles) + n * unat scatter_tiles = unat chunk_tiles"
    using assms(2) by simp
qed

lemma issue_scatter_read_rounds:
  assumes "scatter_tiles > 0" and "unat tile + n * unat scatter_tiles = unat chunk_tiles"
  shows "issue_scatter_read_loop a mem chunk_tiles scatter_tiles bytes tile dest st =
    Some (zip (fst (rounds (scatter_read_round a mem) n st)) (dests dest bytes n),
          snd (rounds (scatter_read_round a mem) n st))"
  using assms(2)
proof (induction n arbitrary: tile dest st)
  case 0
  then have "\<not> tile < chunk_tiles" by (simp add: word_less_nat_alt)
  then show ?case by (simp add: issue_scatter_read_loop.simps)
next
  case (Suc n)
  from Suc.IH [OF tiles_step(2) [OF assms(1) Suc.prems]] tiles_step(1) [OF assms(1) Suc.prems]
  show ?case
    by (subst issue_scatter_read_loop.simps) (simp add: case_prod_unfold Let_def)
qed

lemma tilizer_read_rounds:
  assumes "scatter_tiles > 0" and "unat tile + n * unat scatter_tiles = unat chunk_tiles"
  shows "tilizer_read_loop cfg mem chunk_tiles scatter_tiles tile dest st =
    Some (zip (fst (rounds (tilizer_read_round cfg mem) n st))
            (dests dest (tc_scatter_chunk_bytes cfg) n),
          snd (rounds (tilizer_read_round cfg mem) n st))"
  using assms(2)
proof (induction n arbitrary: tile dest st)
  case 0
  then have "\<not> tile < chunk_tiles" by (simp add: word_less_nat_alt)
  then show ?case by (simp add: tilizer_read_loop.simps)
next
  case (Suc n)
  from Suc.IH [OF tiles_step(2) [OF assms(1) Suc.prems]] tiles_step(1) [OF assms(1) Suc.prems]
  show ?case
    by (subst tilizer_read_loop.simps) (simp add: case_prod_unfold Let_def)
qed

end
