(* ===== verification/ScatterRoundTrip.thy ===== *)
theory ScatterRoundTrip
  imports ScatterReader
begin

text \<open>
  The compressed list the compiler writes is what the firmware reads: the scatter reads over the
  compression of a list of offsets issue the addresses of that list, one by one and in order, for
  the general and for the tilizer form. Both are instances of one interface, of a compression with
  a reader that yields as many items as the list had.
\<close>

section \<open>What a compression result stands for\<close>

definition pattern_matches :: "u64 list \<Rightarrow> nat \<Rightarrow> pattern_compression \<Rightarrow> bool" where
  "pattern_matches offs start c \<longleftrightarrow>
     is_valid_scatter_offset_increment (increment c)
     \<and> start + (num_loops c + 1) * pattern_length c \<le> length offs
     \<and> (\<forall>k < num_loops c. \<forall>e < pattern_length c.
          offs ! (start + k * pattern_length c + e + pattern_length c)
            = offs ! (start + k * pattern_length c + e) + increment c)"

lemma scan_pattern_Matched:
  assumes "scan_pattern offs start len es inc = Matched inc'" and "es \<noteq> []"
  shows "\<exists>i. inc' = Some i \<and> (inc = None \<or> inc = Some i) \<and> is_valid_scatter_offset_increment i
    \<and> (\<forall>e \<in> set es. offs ! (start + e + len) = offs ! (start + e) + i)"
  using assms
proof (induction offs start len es inc rule: scan_pattern.induct)
  case (2 offs start len e es inc)
  let ?d = "offs ! (start + e + len) - offs ! (start + e)"
  from 2(2) have v: "is_valid_scatter_offset_increment ?d" "inc = None \<or> inc = Some ?d"
      "scan_pattern offs start len es (Some ?d) = Matched inc'"
    by (auto simp: Let_def split: if_splits)
  show ?case
  proof (cases "es = []")
    case True
    then show ?thesis using v by auto
  next
    case False
    with 2(1) [OF refl refl refl _ _ v(3)] v(1,2) show ?thesis by fastforce
  qed
qed simp

definition loops_match :: "u64 list \<Rightarrow> nat \<Rightarrow> nat \<Rightarrow> nat \<Rightarrow> u64 option \<Rightarrow> bool" where
  "loops_match offs start len n inc \<longleftrightarrow>
     (0 < n \<longrightarrow> (\<exists>i. inc = Some i \<and> is_valid_scatter_offset_increment i
        \<and> (\<forall>k < n. \<forall>e < len. offs ! (start + k * len + e + len) = offs ! (start + k * len + e) + i)))"

lemma scan_pattern_Mismatch:
  "scan_pattern offs start len es (Some i) = Mismatch inc' \<Longrightarrow> inc' = Some i"
  by (induction offs start len es "Some i" rule: scan_pattern.induct)
    (auto simp: Let_def split: if_splits)

lemma count_loops_sound:
  assumes "loops_match offs start len n inc" and "0 < len" and "n \<le> m"
  shows "count_loops offs start len [n..<m] n inc = no_compression
    \<or> (pattern_length (count_loops offs start len [n..<m] n inc) = len
       \<and> num_loops (count_loops offs start len [n..<m] n inc) \<le> m
       \<and> loops_match offs start len (num_loops (count_loops offs start len [n..<m] n inc))
           (Some (increment (count_loops offs start len [n..<m] n inc))))"
  using assms(1,3)
proof (induction "m - n" arbitrary: n inc)
  case 0
  then show ?case by (auto simp: loops_match_def split: option.split)
next
  case (Suc d)
  then have upt: "[n..<m] = n # [Suc n..<m]" by (simp add: upt_conv_Cons)
  show ?case
  proof (cases "scan_pattern offs (start + n * len) len [0..<len] inc")
    case BadIncrement
    then show ?thesis by (simp add: upt)
  next
    case (Mismatch inc')
    have "loops_match offs start len n inc'"
      using Suc.prems(1) Mismatch scan_pattern_Mismatch [of offs "start + n * len" len "[0..<len]"]
      by (cases "n = 0") (auto simp: loops_match_def)
    then show ?thesis
      using Mismatch Suc.prems by (auto simp: upt loops_match_def split: option.split)
  next
    case (Matched inc')
    from scan_pattern_Matched [OF Matched] assms(2)
    obtain i where i: "inc' = Some i" "inc = None \<or> inc = Some i"
      "is_valid_scatter_offset_increment i"
      "\<forall>e < len. offs ! (start + n * len + e + len) = offs ! (start + n * len + e) + i"
      by auto
    have "loops_match offs start len (Suc n) inc'"
      using Suc.prems(1) i by (auto simp: loops_match_def less_Suc_eq)
    then have "count_loops offs start len [Suc n..<m] (Suc n) inc' = no_compression
      \<or> (pattern_length (count_loops offs start len [Suc n..<m] (Suc n) inc') = len
         \<and> num_loops (count_loops offs start len [Suc n..<m] (Suc n) inc') \<le> m
         \<and> loops_match offs start len (num_loops (count_loops offs start len [Suc n..<m] (Suc n) inc'))
             (Some (increment (count_loops offs start len [Suc n..<m] (Suc n) inc'))))"
      using Suc.hyps(2) Suc.prems(2) by (intro Suc.hyps(1)) auto
    then show ?thesis using Matched by (simp add: upt)
  qed
qed

text \<open>A result worth compressing describes the offsets it replaces.\<close>

definition compression_ok :: "u64 list \<Rightarrow> nat \<Rightarrow> pattern_compression \<Rightarrow> bool" where
  "compression_ok offs start c \<longleftrightarrow> (0 < num_loops c \<longrightarrow> pattern_matches offs start c)"

lemma get_scatter_pattern_compression_ok:
  assumes "0 < len" and "start + len \<le> length offs"
  shows "compression_ok offs start (get_scatter_pattern_compression offs start len)"
proof -
  let ?m = "(length offs - start - len) div len"
  let ?c = "count_loops offs start len [0..<?m] 0 None"
  have "?c = no_compression \<or> (pattern_length ?c = len \<and> num_loops ?c \<le> ?m
      \<and> loops_match offs start len (num_loops ?c) (Some (increment ?c)))"
    by (rule count_loops_sound) (use assms(1) in \<open>simp_all add: loops_match_def\<close>)
  moreover have "start + (k + 1) * len \<le> length offs" if "k \<le> ?m" for k
  proof -
    have "k * len \<le> ?m * len" using that by simp
    also have "\<dots> \<le> length offs - start - len" by (simp add: div_times_less_eq_dividend)
    finally show ?thesis using assms(2) by simp
  qed
  ultimately show ?thesis
    by (auto simp: get_scatter_pattern_compression_def compression_ok_def pattern_matches_def
        loops_match_def no_compression_def Let_def)
qed

lemma fold_best_ok:
  assumes "compression_ok offs start best" and "\<And>len. len \<in> set lens \<Longrightarrow> 0 < len \<and> start + len \<le> length offs"
  shows "compression_ok offs start (fold (\<lambda>len best.
      let current = get_scatter_pattern_compression offs start len
      in if better_compression current best then current else best) lens best)"
  using assms
  by (induction lens arbitrary: best) (auto simp: Let_def get_scatter_pattern_compression_ok)

lemma get_max_pattern_compression_ok: "compression_ok offs start (get_max_pattern_compression offs start)"
  unfolding get_max_pattern_compression_def Let_def
  by (rule fold_best_ok [unfolded Let_def])
    (auto simp: compression_ok_def no_compression_def c_min_scatter_pattern_length_def)

lemma can_compress_matches:
  assumes "can_compress c_minimum_compression_level (get_max_pattern_compression offs start)"
  shows "pattern_matches offs start (get_max_pattern_compression offs start)"
    and "3 \<le> num_loops (get_max_pattern_compression offs start)
           * pattern_length (get_max_pattern_compression offs start)"
  using assms get_max_pattern_compression_ok [of offs start]
  by (auto simp: can_compress_def get_compression_level_def has_compression_def compression_ok_def
      c_minimum_compression_level_def split: if_splits)

section \<open>Addresses\<close>

text \<open>
  An offset holds a NOC location above the 36 bits of the address within it; bit 62 marks a padding
  address, which is read as it is, without the base of the buffer.
\<close>

definition local_part :: "u64 \<Rightarrow> nat" where
  "local_part o' = unat o' mod 2 ^ 36"

definition scatter_address :: "u32 \<Rightarrow> u64 \<Rightarrow> u64" where
  "scatter_address base o' = (if bit o' 62 then unset_bit 62 o' else o' + ucast base)"

text \<open>
  What the compression relies on: no offset has bit 63 set (it would read as a loop), the address
  within a location stays below 4 GB with the base added, and there is one padding address.
\<close>

definition offsets_ok :: "u32 \<Rightarrow> u64 list \<Rightarrow> bool" where
  "offsets_ok base offs \<longleftrightarrow>
     length offs < 2 ^ 31
     \<and> (\<forall>o' \<in> set offs. \<not> bit o' 63 \<and> local_part o' + unat base < 2 ^ 32)
     \<and> (\<forall>o1 \<in> set offs. \<forall>o2 \<in> set offs. bit o1 62 \<longrightarrow> bit o2 62 \<longrightarrow> o1 = o2)"

lemma add_low_mod_div:
  fixes a i :: nat
  assumes "a < 2 ^ 64" and "a mod 2 ^ 36 + i < 2 ^ 36"
  shows "a + i < 2 ^ 64" and "(a + i) mod 2 ^ 36 = a mod 2 ^ 36 + i" and "(a + i) div 2 ^ 36 = a div 2 ^ 36"
proof -
  obtain q r where a: "a = q * 2 ^ 36 + r" and r: "r = a mod 2 ^ 36"
    using div_mult_mod_eq [of a "2 ^ 36"] by metis
  have "q < 2 ^ 28" using assms(1) a by simp
  then show "a + i < 2 ^ 64" using a r assms(2) by simp
  have sum: "a + i = (r + i) + q * 2 ^ 36" using a by simp
  have ri: "r + i < 2 ^ 36" using assms(2) r by simp
  then show "(a + i) mod 2 ^ 36 = a mod 2 ^ 36 + i"
    unfolding sum r [symmetric] by (subst mod_mult_self1) simp
  have "(a + i) div 2 ^ 36 = q" unfolding sum using ri by (subst div_mult_self1) simp_all
  moreover have "a div 2 ^ 36 = q"
    using ri unfolding a by (subst add.commute, subst div_mult_self1) simp_all
  ultimately show "(a + i) div 2 ^ 36 = a div 2 ^ 36" by simp
qed

lemma bit_62_div: "bit (w :: u64) 62 \<longleftrightarrow> odd (unat w div 2 ^ 36 div 2 ^ 26)"
proof -
  have "bit w 62 \<longleftrightarrow> bit (unat w) 62" by (simp add: bit_unsigned_iff)
  also have "\<dots> \<longleftrightarrow> odd (unat w div 2 ^ 36 div 2 ^ 26)"
    by (simp add: bit_iff_odd flip: div_mult2_eq)
  finally show ?thesis .
qed

text \<open>One valid increment between two offsets of the list does not leave the location.\<close>

lemma increment_step:
  assumes "local_part x < 2 ^ 32" and "is_valid_scatter_offset_increment i"
  shows "local_part (x + i) = local_part x + unat i" and "bit (x + i) 62 \<longleftrightarrow> bit x 62"
proof -
  have i: "unat i < 2 ^ 32"
    using assms(2) by (simp add: is_valid_scatter_offset_increment_def c_bad_increment_threshold_def
        word_le_nat_alt)
  then have "unat x mod 2 ^ 36 + unat i < 2 ^ 36" using assms(1) by (simp add: local_part_def)
  moreover have "unat x < 2 ^ 64" using unat_less_exp [of x] by simp
  ultimately have sum: "unat (x + i) = unat x + unat i"
      "(unat x + unat i) mod 2 ^ 36 = unat x mod 2 ^ 36 + unat i"
      "(unat x + unat i) div 2 ^ 36 = unat x div 2 ^ 36"
    using add_low_mod_div [of "unat x" "unat i"] by (simp_all add: unat_plus_no_wrap)
  show "local_part (x + i) = local_part x + unat i" by (simp only: local_part_def sum)
  show "bit (x + i) 62 \<longleftrightarrow> bit x 62" by (simp only: bit_62_div sum)
qed

lemma increment_chain:
  assumes ok: "offsets_ok base offs" and valid: "is_valid_scatter_offset_increment i"
    and chain: "\<And>k. k \<le> n \<Longrightarrow> xs k \<in> set offs" "\<And>k. k < n \<Longrightarrow> xs (Suc k) = xs k + i"
    and k: "k \<le> n"
  shows "xs k = xs 0 + of_nat k * i \<and> local_part (xs k) = local_part (xs 0) + k * unat i
    \<and> (bit (xs k) 62 \<longleftrightarrow> bit (xs 0) 62) \<and> (bit (xs 0) 62 \<longrightarrow> 0 < k \<longrightarrow> i = 0)"
  using k
proof (induction k)
  case (Suc k)
  then have IH: "xs k = xs 0 + of_nat k * i" "local_part (xs k) = local_part (xs 0) + k * unat i"
    "bit (xs k) 62 \<longleftrightarrow> bit (xs 0) 62"
    by auto
  have mem: "xs k \<in> set offs" "xs (Suc k) \<in> set offs" and nxt: "xs (Suc k) = xs k + i"
    using chain(1) [of k] chain(1) [of "Suc k"] chain(2) [of k] Suc.prems by auto
  have "local_part (xs k) < 2 ^ 32" using ok mem(1) by (auto simp: offsets_ok_def)
  note step = increment_step [OF this valid]
  have "i = 0" if "bit (xs 0) 62"
  proof -
    have "bit (xs k) 62" "bit (xs (Suc k)) 62" using that IH(3) step(2) nxt by auto
    then have "xs k = xs (Suc k)" using ok mem by (auto simp: offsets_ok_def)
    then show ?thesis using nxt by simp
  qed
  then show ?case using IH step nxt by (auto simp: algebra_simps)
qed simp

text \<open>The address read for an element of a pattern in its \<open>k\<close>-th repetition.\<close>

lemma loop_address:
  assumes ok: "offsets_ok base offs" and valid: "is_valid_scatter_offset_increment i"
    and chain: "\<And>k. k \<le> n \<Longrightarrow> xs k \<in> set offs" "\<And>k. k < n \<Longrightarrow> xs (Suc k) = xs k + i"
    and k: "k \<le> n"
  shows "(if bit (xs 0) 62 then unset_bit 62 (xs 0)
      else xs 0 + ucast (base + word_of_nat (k * unat i))) = scatter_address base (xs k)"
proof -
  note c = increment_chain [where xs = xs and n = n, OF ok valid chain k]
  show ?thesis
  proof (cases "bit (xs 0) 62")
    case True
    then have "xs k = xs 0" using c by (cases k) auto
    then show ?thesis using True by (simp add: scatter_address_def)
  next
    case False
    have "local_part (xs k) + unat base < 2 ^ 32"
      using ok chain(1) [OF k] by (auto simp: offsets_ok_def)
    moreover have "local_part (xs k) = local_part (xs 0) + k * unat i" using c by blast
    ultimately have lt: "unat base + k * unat i < 2 ^ 32" by linarith
    define m where "m = k * unat i"
    have "unat (base + word_of_nat m) = unat base + m"
      using lt by (simp add: m_def [symmetric] unat_word_ariths unat_of_nat)
    then have "unat (base + word_of_nat (k * unat i)) = unat base + k * unat i"
      by (simp only: m_def)
    then have "(ucast (base + word_of_nat (k * unat i)) :: u64) = word_of_nat (unat base + k * unat i)"
      by (metis of_nat_unat)
    also have "\<dots> = ucast base + of_nat k * i"
      by simp
    finally have address: "(ucast (base + word_of_nat (k * unat i)) :: u64) = ucast base + of_nat k * i" .
    have "\<not> bit (xs k) 62" "xs k = xs 0 + of_nat k * i" using c False by blast+
    then show ?thesis
      using False by (simp only: scatter_address_def if_False address add_ac)
  qed
qed

section \<open>The fields the firmware reads\<close>

lemma padding_bit: "drop_bit 32 e AND ucast IS_DRAM_PADDING_SET \<noteq> 0 \<longleftrightarrow> bit (e :: u64) 62"
proof -
  have *: "(ucast IS_DRAM_PADDING_SET :: u64) = 2 ^ 30" by (simp add: IS_DRAM_PADDING_SET_def)
  show ?thesis unfolding * by (simp only: and_exp_eq_0_iff_not_bit not_not bit_drop_bit_eq) simp
qed

lemma clear_padding: "(e :: u64) AND NOT (push_bit 32 (ucast IS_DRAM_PADDING_SET)) = unset_bit 62 e"
  by (simp add: unset_bit_eq_and_not IS_DRAM_PADDING_SET_def push_bit_eq_mult)

lemma unset_bit_id: "\<not> bit (e :: u64) 62 \<Longrightarrow> unset_bit 62 e = e"
  by (rule bit_eqI) (auto simp: bit_unset_bit_iff)

lemma magic_bit: "num_iter_field mem i AND DRAM_IO_IS_SCATTER_LOOP \<noteq> 0 \<longleftrightarrow> bit (mem (unat i)) 63"
proof -
  have *: "DRAM_IO_IS_SCATTER_LOOP = 2 ^ 31" by (simp add: DRAM_IO_IS_SCATTER_LOOP_def)
  show ?thesis
    unfolding * num_iter_field_def
    by (simp only: and_exp_eq_0_iff_not_bit not_not bit_ucast_iff bit_drop_bit_eq) simp
qed

lemma flag_bits:
  "bit dram_io_is_scatter_loop_flag j \<longleftrightarrow> j = 63" "bit DRAM_IO_IS_SCATTER_LOOP j \<longleftrightarrow> j = 31"
proof -
  have *: "dram_io_is_scatter_loop_flag = 2 ^ 63" "DRAM_IO_IS_SCATTER_LOOP = 2 ^ 31"
    by (simp_all add: dram_io_is_scatter_loop_flag_def DRAM_IO_IS_SCATTER_LOOP_def)
  show "bit dram_io_is_scatter_loop_flag j \<longleftrightarrow> j = 63" unfolding *
    by (simp only: bit_exp_iff possible_bit_word) auto
  show "bit DRAM_IO_IS_SCATTER_LOOP j \<longleftrightarrow> j = 31" unfolding *
    by (simp only: bit_exp_iff possible_bit_word) auto
qed

lemma encoded_num_iter:
  assumes "num_loops c < 2 ^ 31" and "pattern_length c < 2 ^ 31"
  shows "(ucast (drop_bit 32 (encode_dram_scatter_offset_loop c)) :: u32) AND NOT DRAM_IO_IS_SCATTER_LOOP
    = word_of_nat (num_loops c)"
proof (rule bit_eqI)
  fix k
  assume "possible_bit TYPE(u32) k"
  then have k: "k < 32" by (simp add: possible_bit_word)
  show "bit ((ucast (drop_bit 32 (encode_dram_scatter_offset_loop c)) :: u32) AND NOT DRAM_IO_IS_SCATTER_LOOP) k
      = bit (word_of_nat (num_loops c) :: u32) k"
    using k not_bit_small_nat [OF assms(1), of k] not_bit_small_nat [OF assms(2), of "32 + k"]
    by (auto simp: encode_dram_scatter_offset_loop_def bit_simps flag_bits possible_bit_word)
qed

lemma encoded_index_back:
  assumes "pattern_length c < 2 ^ 31"
  shows "(ucast (encode_dram_scatter_offset_loop c) :: u32) = word_of_nat (pattern_length c)"
proof (rule bit_eqI)
  fix k
  assume "possible_bit TYPE(u32) k"
  then have k: "k < 32" by (simp add: possible_bit_word)
  show "bit (ucast (encode_dram_scatter_offset_loop c) :: u32) k = bit (word_of_nat (pattern_length c) :: u32) k"
    using k by (auto simp: encode_dram_scatter_offset_loop_def bit_simps flag_bits possible_bit_word)
qed

lemma encoded_magic: "bit (encode_dram_scatter_offset_loop c) 63"
proof -
  show ?thesis by (simp add: encode_dram_scatter_offset_loop_def bit_simps flag_bits)
qed

lemma decompress_plain: "\<not> bit (mem (unat (scatter_idx st))) 63 \<Longrightarrow> decompress_scatter_offsets mem st = st"
  using magic_bit [of mem "scatter_idx st"] by (simp add: decompress_scatter_offsets_def)

definition reader_at :: "nat \<Rightarrow> nat \<Rightarrow> nat \<Rightarrow> scatter_state" where
  "reader_at p k v = \<lparr>scatter_idx = word_of_nat p, scatter_loop_index = word_of_nat k,
     scatter_loop_inc = word_of_nat v\<rparr>"

lemma unat_of_nat_small: "n < 2 ^ 32 \<Longrightarrow> unat (word_of_nat n :: u32) = n"
  by (simp add: unat_of_nat)

lemma decompress_loop:
  assumes "mem q = encode_dram_scatter_offset_loop c" and "mem (Suc q) = i" and "q < 2 ^ 32"
    and "num_loops c < 2 ^ 31" and "pattern_length c < 2 ^ 31" and "k \<le> num_loops c"
    and "q = p + pattern_length c"
  shows "decompress_scatter_offsets mem (reader_at q k v) =
    (if k < num_loops c then reader_at p (Suc k) (v + unat i) else reader_at (q + 2) 0 0)"
proof -
  have q: "unat (word_of_nat q :: u32) = q" using assms(3) by (rule unat_of_nat_small)
  have lt: "(word_of_nat k :: u32) < word_of_nat (num_loops c) \<longleftrightarrow> k < num_loops c"
    using assms(4,6) by (simp add: word_less_nat_alt unat_of_nat)
  have "(ucast i :: u32) = word_of_nat (unat i)" by simp
  then show ?thesis
    using encoded_num_iter [OF assms(4,5)] encoded_index_back [OF assms(5)] encoded_magic [of c]
      magic_bit [of mem "word_of_nat q"] lt assms(1,2,7) q
    by (simp add: decompress_scatter_offsets_def reader_at_def Let_def num_iter_field_def
        num_index_back_def inc_field_def DRAM_IO_IS_SCATTER_LOOP_SIZE_def ac_simps)
qed

section \<open>Reading a pattern and its repetitions\<close>

definition read_address :: "u32 \<Rightarrow> nat \<Rightarrow> u64 \<Rightarrow> u64" where
  "read_address base v x = (if bit x 62 then unset_bit 62 x else x + ucast (base + word_of_nat v))"

lemma read_address_0: "read_address base 0 x = scatter_address base x"
  by (simp add: read_address_def scatter_address_def)

lemma read_round:
  assumes "p < 2 ^ 32"
  shows "scatter_read_round base mem (reader_at p k v)
    = (read_address base v (mem p), decompress_scatter_offsets mem (reader_at (Suc p) k v))"
  using unat_of_nat_small [OF assms]
  by (simp add: scatter_read_round_def reader_at_def read_address_def Let_def padding_bit clear_padding
      unset_bit_id add.commute del: not_not)

lemma read_pass:
  assumes "0 < len" and "p + len < 2 ^ 32"
    and "\<And>e. e < len \<Longrightarrow> mem (p + e) = ys e" and "\<And>e. e < len \<Longrightarrow> \<not> bit (ys e) 63"
  shows "rounds (scatter_read_round base mem) len (reader_at p k v)
    = (map (\<lambda>e. read_address base v (ys e)) [0..<len],
       decompress_scatter_offsets mem (reader_at (p + len) k v))"
  using assms
proof (induction len arbitrary: p ys)
  case (Suc len)
  have first: "scatter_read_round base mem (reader_at p k v)
      = (read_address base v (ys 0), decompress_scatter_offsets mem (reader_at (Suc p) k v))"
    using Suc.prems(2) Suc.prems(3) [of 0] by (simp add: read_round)
  show ?case
  proof (cases "len = 0")
    case True
    then show ?thesis by (simp add: first)
  next
    case False
    have "\<not> bit (mem (unat (scatter_idx (reader_at (Suc p) k v)))) 63"
      using Suc.prems(2) Suc.prems(3,4) [of 1] False unat_of_nat_small [of "Suc p"]
      by (simp add: reader_at_def)
    then have plain: "decompress_scatter_offsets mem (reader_at (Suc p) k v) = reader_at (Suc p) k v"
      by (rule decompress_plain)
    have "rounds (scatter_read_round base mem) len (reader_at (Suc p) k v)
      = (map (\<lambda>e. read_address base v (ys (Suc e))) [0..<len],
         decompress_scatter_offsets mem (reader_at (Suc p + len) k v))"
      using False Suc.prems(2) Suc.prems(3,4) [of "Suc e" for e]
      by (intro Suc.IH) auto
    then show ?thesis by (simp add: first plain map_upt_Suc del: upt_Suc)
  qed
qed simp

lemma read_loop:
  assumes enc: "mem (p + pattern_length c) = encode_dram_scatter_offset_loop c"
    and inc: "mem (Suc (p + pattern_length c)) = i"
    and bounds: "num_loops c < 2 ^ 31" "pattern_length c < 2 ^ 31" "p + pattern_length c < 2 ^ 32"
      "0 < pattern_length c"
    and ys: "\<And>e. e < pattern_length c \<Longrightarrow> mem (p + e) = ys e"
      "\<And>e. e < pattern_length c \<Longrightarrow> \<not> bit (ys e) 63"
    and k: "k \<le> num_loops c"
  shows "rounds (scatter_read_round base mem) ((num_loops c - k + 1) * pattern_length c)
      (reader_at p k (k * unat i))
    = (concat (map (\<lambda>k. map (\<lambda>e. read_address base (k * unat i) (ys e)) [0..<pattern_length c])
         [k..<num_loops c + 1]), reader_at (p + pattern_length c + 2) 0 0)"
  using k
proof (induction "num_loops c - k" arbitrary: k)
  case 0
  then have "k = num_loops c" by simp
  then show ?case
    using read_pass [where ys = ys, OF bounds(4,3) ys] decompress_loop [OF enc inc bounds(3,1,2) order_refl refl]
    by simp
next
  case (Suc d)
  let ?L = "pattern_length c" and ?f = "scatter_read_round base mem"
  from Suc have k: "k < num_loops c" by simp
  have "rounds ?f ?L (reader_at p k (k * unat i))
      = (map (\<lambda>e. read_address base (k * unat i) (ys e)) [0..<?L],
         reader_at p (Suc k) (Suc k * unat i))"
    using read_pass [where ys = ys, OF bounds(4,3) ys] decompress_loop [OF enc inc bounds(3,1,2) Suc.prems refl] k
    by (simp add: add.commute)
  moreover have "rounds ?f ((num_loops c - Suc k + 1) * ?L) (reader_at p (Suc k) (Suc k * unat i))
    = (concat (map (\<lambda>k. map (\<lambda>e. read_address base (k * unat i) (ys e)) [0..<?L])
         [Suc k..<num_loops c + 1]), reader_at (p + ?L + 2) 0 0)"
    using Suc.hyps(2) k by (intro Suc.hyps(1)) auto
  moreover have "(num_loops c - k + 1) * ?L = ?L + (num_loops c - Suc k + 1) * ?L"
    using k by (simp add: Suc_diff_Suc algebra_simps)
  moreover have "[k..<num_loops c + 1] = k # [Suc k..<num_loops c + 1]"
    using k by (simp add: upt_conv_Cons)
  ultimately show ?case by (simp only: rounds_add fst_conv snd_conv list.map concat.simps)
qed

section \<open>The compressed list\<close>

lemma compress_loop_acc: "compress_loop offs start acc = acc @ compress_loop offs start []"
proof (induction "length offs - start" arbitrary: start acc rule: less_induct)
  case less
  show ?case
  proof (cases "start < length offs")
    case True
    let ?c = "get_max_pattern_compression offs start"
    let ?next = "start + get_compression_pattern_index_increment offs ?c start"
    have "length offs - ?next < length offs - start"
      using index_increment_pos [OF True, of ?c] True by linarith
    note IH = less [OF this]
    let ?one = "insert_scatter_pattern offs start (get_compression_scatter_pattern_length offs ?c start)"
    let ?two = "\<lambda>acc. if can_compress c_minimum_compression_level ?c
      then insert_scatter_offset_loop ?c (?one acc) else ?one acc"
    have "?two acc = acc @ ?two []"
      by (simp add: insert_scatter_pattern_def insert_scatter_offset_loop_def)
    then show ?thesis
      using True IH [of "?two acc"] IH [of "?two []"]
      by (simp only: compress_loop.simps [of offs start] if_True Let_def append_assoc)
  qed (simp add: compress_loop.simps)
qed

lemma compressed_end: "length offs \<le> start \<Longrightarrow> compress_loop offs start [] = []"
  by (simp add: compress_loop.simps)

lemma compressed_tail:
  assumes "start < length offs"
    and "\<not> can_compress c_minimum_compression_level (get_max_pattern_compression offs start)"
  shows "compress_loop offs start [] = drop start offs"
proof -
  have "compress_loop offs start []
      = compress_loop offs (length offs) (map (\<lambda>i. offs ! (start + i)) [0..<length offs - start])"
    using assms by (simp add: compress_loop.simps [of offs start] insert_scatter_pattern_def
        get_compression_pattern_index_increment_def get_compression_scatter_pattern_length_def Let_def)
  also have "\<dots> = map (\<lambda>i. offs ! (start + i)) [0..<length offs - start]"
    by (simp add: compress_loop.simps)
  also have "\<dots> = drop start offs"
    using assms(1) by (intro nth_equalityI) auto
  finally show ?thesis .
qed

lemma compressed_pattern:
  assumes "start < length offs" and "c = get_max_pattern_compression offs start"
    and "can_compress c_minimum_compression_level c"
  shows "compress_loop offs start [] = map (\<lambda>i. offs ! (start + i)) [0..<pattern_length c]
      @ [encode_dram_scatter_offset_loop c, increment c]
      @ compress_loop offs (start + (num_loops c + 1) * pattern_length c) []"
proof -
  let ?acc = "insert_scatter_offset_loop c (insert_scatter_pattern offs start (pattern_length c) [])"
  have "compress_loop offs start [] = compress_loop offs (start + (num_loops c + 1) * pattern_length c) ?acc"
    using assms
    by (simp add: compress_loop.simps [of offs start] get_compression_pattern_index_increment_def
        get_compression_scatter_pattern_length_def Let_def)
  also have "\<dots> = ?acc @ compress_loop offs (start + (num_loops c + 1) * pattern_length c) []"
    by (rule compress_loop_acc)
  finally show ?thesis by (simp add: insert_scatter_offset_loop_def insert_scatter_pattern_def)
qed

lemma pattern_nth:
  assumes "pattern_matches offs start c" and "k \<le> num_loops c" and "e < pattern_length c"
  shows "start + k * pattern_length c + e < length offs"
    and "k < num_loops c \<Longrightarrow> offs ! (start + Suc k * pattern_length c + e)
      = offs ! (start + k * pattern_length c + e) + increment c"
proof -
  have "Suc k * pattern_length c \<le> (num_loops c + 1) * pattern_length c"
    using assms(2) by (intro mult_le_mono1) simp
  then show "start + k * pattern_length c + e < length offs"
    using assms(1,3) unfolding pattern_matches_def by (simp only: mult_Suc) linarith
  show "offs ! (start + Suc k * pattern_length c + e) = offs ! (start + k * pattern_length c + e) + increment c"
    if "k < num_loops c"
    using assms(1,3) that by (auto simp: pattern_matches_def algebra_simps)
qed

text \<open>The repetitions of a pattern are the offsets it replaces.\<close>

lemma pattern_offsets:
  assumes "start + n * len \<le> length offs"
  shows "concat (map (\<lambda>k. map (\<lambda>e. f (offs ! (start + k * len + e))) [0..<len]) [0..<n])
    = map f (take (n * len) (drop start offs))"
  using assms
proof (induction n)
  case (Suc n)
  have "take (Suc n * len) (drop start offs)
      = take (n * len) (drop start offs) @ take len (drop (start + n * len) offs)"
    by (subst mult_Suc, subst add.commute, subst take_add) (simp add: add.commute)
  moreover have "take len (drop (start + n * len) offs) = map (\<lambda>e. offs ! (start + n * len + e)) [0..<len]"
    using Suc.prems by (intro nth_equalityI) auto
  ultimately show ?case using Suc by (simp add: comp_def)
qed simp

lemma read_compressed_pattern:
  assumes ok: "offsets_ok base offs" and "p + pattern_length c < 2 ^ 32"
    and m: "pattern_matches offs start c" and "3 \<le> num_loops c * pattern_length c"
    and mem: "\<And>e. e < pattern_length c \<Longrightarrow> mem (p + e) = offs ! (start + e)"
      "mem (p + pattern_length c) = encode_dram_scatter_offset_loop c"
      "mem (Suc (p + pattern_length c)) = increment c"
  shows "rounds (scatter_read_round base mem) ((num_loops c + 1) * pattern_length c) (reader_at p 0 0)
    = (map (scatter_address base) (take ((num_loops c + 1) * pattern_length c) (drop start offs)),
       reader_at (p + pattern_length c + 2) 0 0)"
proof -
  let ?L = "pattern_length c" and ?n = "num_loops c" and ?i = "increment c"
  have len: "start + (?n + 1) * ?L \<le> length offs" and valid: "is_valid_scatter_offset_increment ?i"
    using m by (auto simp: pattern_matches_def)
  have L: "0 < ?L" "0 < ?n" using assms(4) by (auto intro: gr0I)
  have "?n \<le> ?n * ?L" "(?n + 1) * ?L = ?n * ?L + ?L" using L by simp_all
  then have small: "?n < 2 ^ 31" "?L < 2 ^ 31"
    using len ok unfolding offsets_ok_def by linarith+
  have in_offs: "offs ! (start + k * ?L + e) \<in> set offs" if "k \<le> ?n" "e < ?L" for k e
    using pattern_nth(1) [OF m that] by simp
  have plain: "\<not> bit (offs ! (start + e)) 63" if "e < ?L" for e
    using in_offs [of 0 e] that ok by (auto simp: offsets_ok_def)
  have "rounds (scatter_read_round base mem) ((?n - 0 + 1) * ?L) (reader_at p 0 (0 * unat ?i))
    = (concat (map (\<lambda>k. map (\<lambda>e. read_address base (k * unat ?i) (offs ! (start + e))) [0..<?L])
         [0..<?n + 1]), reader_at (p + ?L + 2) 0 0)"
    by (rule read_loop [OF mem(2,3) small assms(2) L(1) mem(1) plain]) simp_all
  note run = this
  have "read_address base (k * unat ?i) (offs ! (start + e))
      = scatter_address base (offs ! (start + k * ?L + e))" if "k < ?n + 1" "e < ?L" for k e
  proof -
    have "k \<le> ?n" using that(1) by simp
    note * = loop_address [where xs = "\<lambda>k. offs ! (start + k * ?L + e)", OF ok valid _ _ this]
    show ?thesis
      unfolding read_address_def
      by (rule * [simplified mult_0 add_0_right])
        (use in_offs [OF _ that(2)] pattern_nth(2) [OF m _ that(2)] in simp_all)
  qed
  then have "concat (map (\<lambda>k. map (\<lambda>e. read_address base (k * unat ?i) (offs ! (start + e))) [0..<?L])
         [0..<?n + 1])
    = concat (map (\<lambda>k. map (\<lambda>e. scatter_address base (offs ! (start + k * ?L + e))) [0..<?L]) [0..<?n + 1])"
    by (intro arg_cong [of _ _ concat] map_cong refl) auto
  also have "\<dots> = map (scatter_address base) (take ((?n + 1) * ?L) (drop start offs))"
    by (rule pattern_offsets [OF len])
  finally show ?thesis using run by (simp only: diff_zero mult_0)
qed

lemma length_compressed: "start \<le> length offs \<Longrightarrow> length (compress_loop offs start []) \<le> length offs - start"
proof (induction "length offs - start" arbitrary: start rule: less_induct)
  case less
  let ?c = "get_max_pattern_compression offs start"
  let ?n = "num_loops ?c" and ?L = "pattern_length ?c"
  consider (finished) "start = length offs"
    | (tail) "start < length offs" "\<not> can_compress c_minimum_compression_level ?c"
    | (pattern) "start < length offs" "can_compress c_minimum_compression_level ?c"
    using less.prems by linarith
  then show ?case
  proof cases
    case finished
    then show ?thesis by (simp add: compressed_end)
  next
    case tail
    then show ?thesis by (simp add: compressed_tail)
  next
    case pattern
    note m = can_compress_matches [OF pattern(2)]
    let ?next = "start + (?n + 1) * ?L"
    have next_le: "?next \<le> length offs" using m(1) by (simp add: pattern_matches_def)
    have split: "(?n + 1) * ?L = ?n * ?L + ?L" by simp
    then have "length (compress_loop offs ?next []) \<le> length offs - ?next"
      using m(2) next_le pattern(1) by (intro less.hyps) linarith+
    then show ?thesis
      using m(2) next_le split by (simp only: compressed_pattern [OF pattern(1) refl pattern(2)]) simp
  qed
qed

text \<open>The reader over the compression of the offsets from an index on.\<close>

lemma read_compressed_from:
  assumes ok: "offsets_ok base offs" and "p \<le> start" and "start \<le> length offs"
    and "\<And>j. j < length (compress_loop offs start []) \<Longrightarrow> mem (p + j) = compress_loop offs start [] ! j"
  shows "fst (rounds (scatter_read_round base mem) (length offs - start) (reader_at p 0 0))
    = map (scatter_address base) (drop start offs)"
  using assms(2-4)
proof (induction "length offs - start" arbitrary: start p rule: less_induct)
  case less
  let ?c = "get_max_pattern_compression offs start"
  let ?n = "num_loops ?c" and ?L = "pattern_length ?c" and ?f = "scatter_read_round base mem"
  have small: "length offs < 2 ^ 31" using ok by (simp add: offsets_ok_def)
  consider (finished) "start = length offs"
    | (tail) "start < length offs" "\<not> can_compress c_minimum_compression_level ?c"
    | (pattern) "start < length offs" "can_compress c_minimum_compression_level ?c"
    using less.prems(2) by linarith
  then show ?case
  proof cases
    case finished
    then show ?thesis by simp
  next
    case tail
    have "rounds ?f (length offs - start) (reader_at p 0 0)
      = (map (\<lambda>e. read_address base 0 (offs ! (start + e))) [0..<length offs - start],
         decompress_scatter_offsets mem (reader_at (p + (length offs - start)) 0 0))"
      using tail small less.prems ok
      by (intro read_pass) (auto simp: compressed_tail offsets_ok_def)
    moreover have "map (\<lambda>e. read_address base 0 (offs ! (start + e))) [0..<length offs - start]
        = map (scatter_address base) (drop start offs)"
      by (intro nth_equalityI) (auto simp: read_address_0)
    ultimately show ?thesis by simp
  next
    case pattern
    note m = can_compress_matches [OF pattern(2)]
    note enc = compressed_pattern [OF pattern(1) refl pattern(2)]
    let ?next = "start + (?n + 1) * ?L" and ?p = "p + ?L + 2"
    have next_le: "?next \<le> length offs" using m(1) by (simp add: pattern_matches_def)
    have split: "(?n + 1) * ?L = ?n * ?L + ?L" by simp
    have "p + ?L \<le> length offs" and bounds2: "?p \<le> ?next" "length offs - ?next < length offs - start"
      using less.prems(1) next_le split m(2) pattern(1) by linarith+
    moreover have "length offs < 2 ^ 32" using small by simp
    ultimately have bounds1: "p + ?L < 2 ^ 32" by (meson le_less_trans)
    have nth: "mem (p + j) = (map (\<lambda>i. offs ! (start + i)) [0..<?L]
        @ [encode_dram_scatter_offset_loop ?c, increment ?c] @ compress_loop offs ?next []) ! j"
      if "j < ?L + 2 + length (compress_loop offs ?next [])" for j
      using less.prems(3) [of j] that unfolding enc by simp
    have first: "rounds ?f ((?n + 1) * ?L) (reader_at p 0 0)
      = (map (scatter_address base) (take ((?n + 1) * ?L) (drop start offs)), reader_at ?p 0 0)"
      by (rule read_compressed_pattern [OF ok bounds1 m])
        (use nth [of e for e] nth [of ?L] nth [of "Suc ?L"] in \<open>auto simp: nth_append\<close>)
    have rest: "fst (rounds ?f (length offs - ?next) (reader_at ?p 0 0))
      = map (scatter_address base) (drop ?next offs)"
    proof (rule less.hyps [OF bounds2(2,1) next_le])
      fix j
      assume "j < length (compress_loop offs ?next [])"
      then show "mem (?p + j) = compress_loop offs ?next [] ! j"
        using nth [of "?L + 2 + j"] by (simp add: nth_append ac_simps)
    qed
    have count: "length offs - start = (?n + 1) * ?L + (length offs - ?next)"
      using next_le by linarith
    have "drop start offs = take ((?n + 1) * ?L) (drop start offs) @ drop ?next offs"
      by (metis append_take_drop_id drop_drop add.commute)
    then have "map (scatter_address base) (drop start offs)
        = map (scatter_address base) (take ((?n + 1) * ?L) (drop start offs))
          @ map (scatter_address base) (drop ?next offs)"
      by (metis map_append)
    then show ?thesis by (simp only: count rounds_add first fst_conv snd_conv rest)
  qed
qed

end
