(* ===== verification/ScatterTilizer.thy ===== *)
theory ScatterTilizer
  imports ScatterRoundTrip
begin

text \<open>
  The round trip of the tilizer's form of compression: groups of evenly spaced offsets become two
  offsets and a count, which the firmware extrapolates from the last two entries it read.
\<close>

section \<open>Arithmetic of the low halves\<close>

lemma take_bit_32_64: "take_bit 32 (take_bit 64 a) = take_bit 32 (a :: int)"
  by (simp add: take_bit_take_bit)

lemma take_bit_32_add: "take_bit 32 (a + b) = take_bit 32 (take_bit 64 a + take_bit 64 (b :: int))"
  using take_bit_add [of 32 "take_bit 64 a" "take_bit 64 b"] take_bit_add [of 32 a b]
  by (simp only: take_bit_32_64)

lemma ucast_down_add: "(ucast ((a :: u64) + b) :: u32) = ucast a + ucast b"
  by transfer (simp add: min_def, rule take_bit_32_add)

lemma ucast_down_diff: "(ucast ((a :: u64) - b) :: u32) = ucast a - ucast b"
  using ucast_down_add [of "a - b" b] by (simp add: algebra_simps)

lemma ucast_down_times_nat: "(ucast (of_nat k * (a :: u64)) :: u32) = of_nat k * ucast a"
  by (induction k) (simp_all add: ucast_down_add distrib_right)

section \<open>Progressions\<close>

lemma extend_progression_sound:
  assumes "e \<le> j" and "j < extend_progression offs d m e"
  shows "offs ! (j + 1) - offs ! j = d"
  using assms
proof (induction offs d m e rule: extend_progression.induct)
  case (1 offs d m e)
  show ?case
  proof (cases "e + 1 \<le> m \<and> offs ! (e + 1) - offs ! e = d")
    case True
    then have eq: "extend_progression offs d m e = extend_progression offs d m (e + 1)"
      by (subst extend_progression.simps) simp
    show ?thesis using 1 True by (cases "j = e") (auto simp: eq)
  next
    case False
    then have "extend_progression offs d m e = e" by (subst extend_progression.simps) auto
    then show ?thesis using 1 by simp
  qed
qed

lemma extend_progression_le: "extend_progression offs d m e \<le> max m e"
proof (induction offs d m e rule: extend_progression.induct)
  case (1 offs d m e)
  then show ?case by (subst extend_progression.simps) auto
qed

lemma pattern_end_sound:
  assumes "start < length offs" and "e = find_arithmetic_progression_pattern_end_index offs start c r"
  shows "start \<le> e" and "e < length offs"
    and "start + 4 \<le> e \<Longrightarrow> start \<le> j \<Longrightarrow> j < e \<Longrightarrow> offs ! (j + 1) - offs ! j = offs ! (start + 1) - offs ! start"
proof -
  show "start \<le> e" using pattern_end_ge [OF assms(1)] assms(2) by simp
  let ?d = "offs ! (start + 1) - offs ! start"
  let ?M = "if c > 1 then min (unat c_dram_io_is_scatter_loop_for_tilizer_flag + 1) (unat r)
    else unat c_dram_io_is_scatter_loop_for_tilizer_flag + 1"
  let ?m = "if start + ?M = 0 then length offs - 1 else min (length offs - 1) (start + ?M - 1)"
  have "e = (if start + 5 > length offs then length offs - 1
      else extend_progression offs ?d ?m (start + 1))"
    using assms(2) by (simp only: find_arithmetic_progression_pattern_end_index_def Let_def
        c_min_scatter_pattern_length_for_tilizer_def)
  moreover have "?m \<le> length offs - 1" by simp
  ultimately consider (short) "start + 5 > length offs" "e = length offs - 1"
    | (long) m where "start + 5 \<le> length offs" "m \<le> length offs - 1"
        "e = extend_progression offs ?d m (start + 1)"
    by (cases "start + 5 > length offs") (simp_all only: if_True if_False not_less)
  then have "e < length offs \<and> (start + 4 \<le> e \<longrightarrow> start \<le> j \<longrightarrow> j < e \<longrightarrow>
      offs ! (j + 1) - offs ! j = ?d)"
  proof cases
    case short
    then show ?thesis using assms(1) by auto
  next
    case long
    have "e \<le> max m (start + 1)" using extend_progression_le long(3) by simp
    moreover have "offs ! (j + 1) - offs ! j = ?d" if "start \<le> j" "j < e"
      using that extend_progression_sound [of "start + 1" j offs ?d m] long(3)
      by (cases "j = start") auto
    ultimately show ?thesis using long(1,2) by auto
  qed
  then show "e < length offs"
    and "start + 4 \<le> e \<Longrightarrow> start \<le> j \<Longrightarrow> j < e \<Longrightarrow> offs ! (j + 1) - offs ! j = ?d"
    by auto
qed

lemma progression_nth:
  assumes "\<And>j. s \<le> j \<Longrightarrow> j < e \<Longrightarrow> offs ! (j + 1) - offs ! j = (d :: u64)" and "s + 1 + k \<le> e"
  shows "offs ! (s + 1 + k) = offs ! (s + 1) + of_nat k * d"
  using assms(2)
proof (induction k)
  case (Suc k)
  then have "offs ! (s + 1 + Suc k) = offs ! (s + 1 + k) + d"
    using assms(1) [of "s + 1 + k"] by (simp add: algebra_simps)
  then show ?case using Suc by (simp add: algebra_simps)
qed simp

section \<open>The reader\<close>

definition t_at :: "nat \<Rightarrow> nat \<Rightarrow> tilizer_state" where
  "t_at p k = \<lparr>t_scatter_idx = word_of_nat p, t_scatter_loop_index = word_of_nat k,
     c_dim_count = 0, col_offset_bytes = 0\<rparr>"

definition row_issue :: "tilizer_config \<Rightarrow> u32 \<Rightarrow> tilizer_issue" where
  "row_issue cfg row = IssueRow row (dram_addr cfg + ucast (row * embeddings_row_shift cfg
     + tc_addr_with_offset cfg + tilize_row_col_offset cfg))"

text \<open>A reader that extrapolates rows and does not revisit columns.\<close>

definition plain_config :: "tilizer_config \<Rightarrow> bool" where
  "plain_config cfg \<longleftrightarrow> hw_tilize cfg \<and> c_dim_size cfg \<le> 1"

lemma not_invalid: "\<not> bit x 31 \<Longrightarrow> x \<noteq> DRAM_SCATTER_LIST_INVALID"
proof
  assume "\<not> bit x 31" "x = DRAM_SCATTER_LIST_INVALID"
  moreover have "DRAM_SCATTER_LIST_INVALID = - 1" by (simp add: DRAM_SCATTER_LIST_INVALID_def)
  moreover have "bit (- 1 :: u32) 31" by (simp add: bit_minus_1_iff possible_bit_word)
  ultimately show False by metis
qed

lemma simpler_plain:
  assumes "\<not> bit (mem q) 31" and "q < 2 ^ 32"
  shows "simpler_decompress_scatter_offsets mem (t_at q k) = (False, t_at q k)"
proof -
  have *: "DRAM_IO_IS_SCATTER_LOOP = 2 ^ 31" by (simp add: DRAM_IO_IS_SCATTER_LOOP_def)
  have "mem q AND DRAM_IO_IS_SCATTER_LOOP = 0"
    unfolding * using assms(1) by (simp only: and_exp_eq_0_iff_not_bit not_False_eq_True)
  then show ?thesis
    using unat_of_nat_small [OF assms(2)]
    by (simp add: simpler_decompress_scatter_offsets_def t_at_def)
qed

lemma tilizer_count_bits:
  assumes "n < 2 ^ 31 - 1"
  shows "(DRAM_IO_IS_SCATTER_LOOP OR word_of_nat n) AND NOT DRAM_IO_IS_SCATTER_LOOP = word_of_nat n"
    and "(DRAM_IO_IS_SCATTER_LOOP OR word_of_nat n) AND DRAM_IO_IS_SCATTER_LOOP \<noteq> 0"
    and "DRAM_IO_IS_SCATTER_LOOP OR word_of_nat n \<noteq> DRAM_SCATTER_LIST_INVALID"
proof -
  have n: "n < 2 ^ 31" using assms by simp
  show count: "(DRAM_IO_IS_SCATTER_LOOP OR word_of_nat n) AND NOT DRAM_IO_IS_SCATTER_LOOP = word_of_nat n"
    using not_bit_small_nat [OF n] by (intro bit_eqI) (auto simp: bit_simps flag_bits possible_bit_word)
  have *: "DRAM_IO_IS_SCATTER_LOOP = 2 ^ 31" by (simp add: DRAM_IO_IS_SCATTER_LOOP_def)
  have "bit (DRAM_IO_IS_SCATTER_LOOP OR word_of_nat n) 31" by (simp add: bit_or_iff flag_bits)
  then show "(DRAM_IO_IS_SCATTER_LOOP OR word_of_nat n) AND DRAM_IO_IS_SCATTER_LOOP \<noteq> 0"
    by (subst (2) *) (simp only: and_exp_eq_0_iff_not_bit simp_thms)
  show "DRAM_IO_IS_SCATTER_LOOP OR word_of_nat n \<noteq> DRAM_SCATTER_LIST_INVALID"
  proof
    assume "DRAM_IO_IS_SCATTER_LOOP OR word_of_nat n = DRAM_SCATTER_LIST_INVALID"
    with count have "(word_of_nat n :: u32) = 0x7FFFFFFF"
      by (simp add: DRAM_SCATTER_LIST_INVALID_def DRAM_IO_IS_SCATTER_LOOP_def)
    then have "unat (word_of_nat n :: u32) = 0x7FFFFFFF" by simp
    then show False using n assms by (simp add: unat_of_nat)
  qed
qed

lemma simpler_loop:
  assumes "mem q = DRAM_IO_IS_SCATTER_LOOP OR word_of_nat n" and "n < 2 ^ 31 - 1" and "k \<le> n"
    and "q + 1 < 2 ^ 32" and "0 < q"
  shows "simpler_decompress_scatter_offsets mem (t_at q k)
    = (True, if k < n then t_at (q - 1) (Suc k) else t_at (q + 1) 0)"
proof -
  have "(word_of_nat k :: u32) < word_of_nat n \<longleftrightarrow> k < n"
    using assms(2,3) by (simp add: word_less_nat_alt unat_of_nat)
  moreover have "(word_of_nat q :: u32) - 1 = word_of_nat (q - 1)"
    using assms(5) by (simp add: of_nat_diff)
  ultimately show ?thesis
    using unat_of_nat_small [of q] assms(1,4) tilizer_count_bits [OF assms(2)]
    by (simp add: simpler_decompress_scatter_offsets_def t_at_def Let_def add.commute)
qed

lemma simpler_keeps_columns:
  "c_dim_count (snd (simpler_decompress_scatter_offsets mem st)) = c_dim_count st"
  "col_offset_bytes (snd (simpler_decompress_scatter_offsets mem st)) = col_offset_bytes st"
  by (simp_all add: simpler_decompress_scatter_offsets_def Let_def)

lemma tilizer_round:
  assumes cfg: "plain_config cfg" and "p + 1 < 2 ^ 32" and "\<not> bit (mem p) 31" and "k < 2 ^ 31"
    and "0 < k \<Longrightarrow> 0 < p"
  shows "tilizer_read_round cfg mem (t_at p k)
    = (row_issue cfg (mem p + of_nat k * (mem p - mem (p - 1))),
       snd (simpler_decompress_scatter_offsets mem (t_at (p + 1) k)))"
proof -
  have p: "unat (word_of_nat p :: u32) = p" using assms(2) by (simp add: unat_of_nat_small)
  have prev: "unat ((word_of_nat p :: u32) + 1 - 2) = p - 1" if "0 < p"
  proof -
    have "(word_of_nat p :: u32) + 1 - 2 = word_of_nat (p - 1)"
      using that by (simp add: of_nat_diff)
    then show ?thesis using assms(2) by (simp add: unat_of_nat_small)
  qed
  have k0: "(0 :: u32) < word_of_nat k \<longleftrightarrow> 0 < k"
    using assms(4) by (simp add: word_less_nat_alt unat_of_nat)
  let ?st = "\<lparr>t_scatter_idx = word_of_nat p + 1, t_scatter_loop_index = word_of_nat k,
       c_dim_count = 0, col_offset_bytes = 0\<rparr>"
  have st: "t_at (p + 1) k = ?st" by (simp add: t_at_def add.commute)
  have "(snd (simpler_decompress_scatter_offsets mem ?st))\<lparr>col_offset_bytes := 0, c_dim_count := 0\<rparr>
      = snd (simpler_decompress_scatter_offsets mem ?st)"
    using simpler_keeps_columns [of mem ?st] by (simp add: tilizer_state.equality)
  then show ?thesis
    using cfg not_invalid [OF assms(3)] p prev k0 assms(5)
      simpler_keeps_columns [of mem ?st]
    unfolding st
    by (auto simp: tilizer_read_round_def t_at_def [of p k] plain_config_def row_issue_def Let_def
        algebra_simps case_prod_unfold)
qed

text \<open>A run of plain entries.\<close>

lemma tilizer_pass:
  assumes "plain_config cfg" and "0 < len" and "p + len < 2 ^ 32"
    and "\<And>e. e < len \<Longrightarrow> mem (p + e) = ys e" and "\<And>e. e < len \<Longrightarrow> \<not> bit (ys e) 31"
  shows "rounds (tilizer_read_round cfg mem) len (t_at p 0)
    = (map (\<lambda>e. row_issue cfg (ys e)) [0..<len],
       snd (simpler_decompress_scatter_offsets mem (t_at (p + len) 0)))"
  using assms
proof (induction len arbitrary: p ys)
  case (Suc len)
  have first: "tilizer_read_round cfg mem (t_at p 0)
      = (row_issue cfg (ys 0), snd (simpler_decompress_scatter_offsets mem (t_at (Suc p) 0)))"
    using Suc.prems(1,3) Suc.prems(4,5) [of 0] tilizer_round [of cfg p mem 0] by simp
  show ?case
  proof (cases "len = 0")
    case True
    then show ?thesis by (simp add: first)
  next
    case False
    have "\<not> bit (mem (Suc p)) 31" using Suc.prems(4,5) [of 1] False by simp
    then have plain: "simpler_decompress_scatter_offsets mem (t_at (Suc p) 0) = (False, t_at (Suc p) 0)"
      using Suc.prems(3) by (intro simpler_plain) auto
    have "rounds (tilizer_read_round cfg mem) len (t_at (Suc p) 0)
      = (map (\<lambda>e. row_issue cfg (ys (Suc e))) [0..<len],
         snd (simpler_decompress_scatter_offsets mem (t_at (Suc p + len) 0)))"
      using False Suc.prems(1,3) Suc.prems(4,5) [of "Suc e" for e]
      by (intro Suc.IH) auto
    then show ?thesis by (simp add: first plain map_upt_Suc del: upt_Suc)
  qed
qed simp

text \<open>The repetitions of the second of two entries before a count.\<close>

lemma tilizer_loop:
  assumes cfg: "plain_config cfg" and "p + 3 < 2 ^ 32" and n: "n < 2 ^ 31 - 1"
    and "\<not> bit (mem (p + 1)) 31" and enc: "mem (p + 2) = DRAM_IO_IS_SCATTER_LOOP OR word_of_nat n"
    and k: "k \<le> n"
  shows "rounds (tilizer_read_round cfg mem) (n - k + 1) (t_at (p + 1) k)
    = (map (\<lambda>k. row_issue cfg (mem (p + 1) + of_nat k * (mem (p + 1) - mem p))) [k..<n + 1],
       t_at (p + 3) 0)"
  using k
proof (induction "n - k" arbitrary: k)
  case 0
  then have "k = n" by simp
  moreover have "k < 2 ^ 31" using n \<open>k = n\<close> by simp
  moreover have "p + 2 + 1 < 2 ^ 32" "0 < p + 2" using assms(2) by simp_all
  note loop = simpler_loop [where mem = mem, OF enc n order_refl this]
  ultimately show ?case
    using tilizer_round [of cfg "p + 1" mem k] cfg assms(2,4) loop
    by (simp add: numeral_2_eq_2 numeral_3_eq_3)
next
  case (Suc d)
  then have lt: "k < n" by simp
  have "p + 2 + 1 < 2 ^ 32" "0 < p + 2" using assms(2) by simp_all
  note loop = simpler_loop [where mem = mem, OF enc n Suc.prems this]
  have "tilizer_read_round cfg mem (t_at (p + 1) k)
    = (row_issue cfg (mem (p + 1) + of_nat k * (mem (p + 1) - mem p)), t_at (p + 1) (Suc k))"
    using tilizer_round [of cfg "p + 1" mem k] cfg assms(2,4) loop lt n
    by (simp add: numeral_2_eq_2)
  moreover have "rounds (tilizer_read_round cfg mem) (n - Suc k + 1) (t_at (p + 1) (Suc k))
    = (map (\<lambda>k. row_issue cfg (mem (p + 1) + of_nat k * (mem (p + 1) - mem p))) [Suc k..<n + 1],
       t_at (p + 3) 0)"
    using Suc.hyps(2) lt by (intro Suc.hyps(1)) auto
  moreover have "n - k + 1 = Suc (n - Suc k + 1)" using lt by simp
  moreover have "[k..<n + 1] = k # [Suc k..<n + 1]" using lt by (simp add: upt_conv_Cons)
  ultimately show ?case by (simp only: rounds.simps Let_def prod.case list.map)
qed

section \<open>The compressed list\<close>

lemma compress_tilizer_acc: "compress_tilizer_loop offs c r start acc = acc @ compress_tilizer_loop offs c r start []"
proof (induction "length offs - start" arbitrary: start acc rule: less_induct)
  case less
  show ?case
  proof (cases "start < length offs")
    case True
    let ?e = "find_arithmetic_progression_pattern_end_index offs start c r"
    have "length offs - (?e + 1) < length offs - start"
      using pattern_end_sound(1) [OF True refl, of c r] True by linarith
    note IH = less [OF this]
    let ?one = "\<lambda>acc. if ?e - start + 1 \<ge> c_min_scatter_pattern_length_for_tilizer
      then acc @ [offs ! start, offs ! (start + 1), c_dram_io_is_scatter_loop_for_tilizer_flag
             OR word_of_nat (?e - start - 1)]
      else acc @ map (\<lambda>i. offs ! i) [start..<?e + 1]"
    have "?one acc = acc @ ?one []" by simp
    then show ?thesis
      using True IH [of "?one acc"] IH [of "?one []"]
      by (simp only: compress_tilizer_loop.simps [of offs c r start] if_True Let_def append_assoc)
  qed (simp add: compress_tilizer_loop.simps)
qed

lemma tilizer_compressed_end: "length offs \<le> start \<Longrightarrow> compress_tilizer_loop offs c r start [] = []"
  by (simp add: compress_tilizer_loop.simps)

lemma tilizer_compressed_short:
  assumes "start < length offs" and "e = find_arithmetic_progression_pattern_end_index offs start c r"
    and "e - start + 1 < 5"
  shows "compress_tilizer_loop offs c r start []
    = map (\<lambda>i. offs ! i) [start..<e + 1] @ compress_tilizer_loop offs c r (e + 1) []"
proof -
  have "compress_tilizer_loop offs c r start []
      = compress_tilizer_loop offs c r (e + 1) (map (\<lambda>i. offs ! i) [start..<e + 1])"
    using assms by (simp add: compress_tilizer_loop.simps [of offs c r start] Let_def
        c_min_scatter_pattern_length_for_tilizer_def del: upt_Suc)
  then show ?thesis using compress_tilizer_acc by metis
qed

lemma tilizer_compressed_long:
  assumes "start < length offs" and "e = find_arithmetic_progression_pattern_end_index offs start c r"
    and "5 \<le> e - start + 1"
  shows "compress_tilizer_loop offs c r start []
    = [offs ! start, offs ! (start + 1), c_dram_io_is_scatter_loop_for_tilizer_flag
         OR word_of_nat (e - start - 1)] @ compress_tilizer_loop offs c r (e + 1) []"
proof -
  have "compress_tilizer_loop offs c r start []
      = compress_tilizer_loop offs c r (e + 1) [offs ! start, offs ! (start + 1),
          c_dram_io_is_scatter_loop_for_tilizer_flag OR word_of_nat (e - start - 1)]"
    using assms by (simp add: compress_tilizer_loop.simps [of offs c r start] Let_def
        c_min_scatter_pattern_length_for_tilizer_def)
  then show ?thesis using compress_tilizer_acc by metis
qed

lemma tilizer_compressed_head:
  assumes "start < length offs"
  shows "compress_tilizer_loop offs c r start [] \<noteq> []"
    and "compress_tilizer_loop offs c r start [] ! 0 = offs ! start"
proof -
  let ?e = "find_arithmetic_progression_pattern_end_index offs start c r"
  have "start \<le> ?e" using pattern_end_sound(1) [OF assms refl] .
  then have "[start..<?e + 1] = start # [Suc start..<?e + 1]" by (simp add: upt_conv_Cons)
  then have "\<exists>xs. compress_tilizer_loop offs c r start [] = offs ! start # xs"
    using tilizer_compressed_short [OF assms refl, of c r] tilizer_compressed_long [OF assms refl, of c r]
    by (cases "?e - start + 1 < 5") (simp_all only: not_less list.map append_Cons, blast+)
  then show "compress_tilizer_loop offs c r start [] \<noteq> []"
    "compress_tilizer_loop offs c r start [] ! 0 = offs ! start" by auto
qed

lemma tilizer_count_ucast:
  "(ucast (c_dram_io_is_scatter_loop_for_tilizer_flag OR word_of_nat n :: u64) :: u32)
     = DRAM_IO_IS_SCATTER_LOOP OR word_of_nat n"
proof (rule bit_eqI)
  fix k
  assume "possible_bit TYPE(u32) k"
  moreover have "bit c_dram_io_is_scatter_loop_for_tilizer_flag j \<longleftrightarrow> j = 31" for j
  proof -
    have *: "c_dram_io_is_scatter_loop_for_tilizer_flag = 2 ^ 31"
      by (simp add: c_dram_io_is_scatter_loop_for_tilizer_flag_def)
    show ?thesis unfolding * by (simp only: bit_exp_iff possible_bit_word) auto
  qed
  ultimately show "bit (ucast (c_dram_io_is_scatter_loop_for_tilizer_flag OR word_of_nat n :: u64) :: u32) k
      = bit (DRAM_IO_IS_SCATTER_LOOP OR word_of_nat n) k"
    by (auto simp: bit_simps flag_bits possible_bit_word)
qed

text \<open>What the tilizer's form relies on: rows below $2^{31}$ and a list shorter than that.\<close>

definition rows_ok :: "u64 list \<Rightarrow> bool" where
  "rows_ok offs \<longleftrightarrow> length offs < 2 ^ 31 \<and> (\<forall>o' \<in> set offs. \<not> bit o' 31)"

definition offset_row :: "u64 \<Rightarrow> u32" where
  "offset_row o' = ucast o'"

lemma offset_row_bit: "bit (offset_row o') 31 \<longleftrightarrow> bit o' 31"
  by (simp add: offset_row_def bit_ucast_iff)

section \<open>Reading the compressed list\<close>

lemma read_tilizer_long:
  assumes cfg: "plain_config cfg" and ok: "rows_ok offs" and s: "start < length offs" and "p \<le> start"
    and e: "e = find_arithmetic_progression_pattern_end_index offs start c r" "5 \<le> e - start + 1"
    and mem: "mem p = offset_row (offs ! start)" "mem (p + 1) = offset_row (offs ! (start + 1))"
      "mem (p + 2) = DRAM_IO_IS_SCATTER_LOOP OR word_of_nat (e - start - 1)"
  shows "rounds (tilizer_read_round cfg mem) (e + 1 - start) (t_at p 0)
    = (map (\<lambda>j. row_issue cfg (offset_row (offs ! j))) [start..<e + 1], t_at (p + 3) 0)"
proof -
  let ?f = "tilizer_read_round cfg mem" and ?n = "e - start - 1" and ?d = "offs ! (start + 1) - offs ! start"
  note pe = pattern_end_sound [OF s e(1)]
  have e4: "start + 4 \<le> e" using e(2) pe(1) by linarith
  have small: "length offs < 2 ^ 31" using ok by (simp add: rows_ok_def)
  have n: "?n < 2 ^ 31 - 1" using small pe(2) e4 by linarith
  have "p + 3 \<le> length offs" using assms(4) e4 pe(2) by linarith
  then have p: "p + 3 < 2 ^ 32" using small by simp
  have plain: "\<not> bit (offs ! start) 31" "\<not> bit (offs ! (start + 1)) 31"
    using ok e4 pe(2) by (auto simp: rows_ok_def)
  have "simpler_decompress_scatter_offsets mem (t_at (p + 1) 0) = (False, t_at (p + 1) 0)"
    using plain(2) mem(2) p by (intro simpler_plain) (simp_all add: offset_row_bit)
  then have one: "?f (t_at p 0) = (row_issue cfg (mem p), t_at (p + 1) 0)"
    using tilizer_round [OF cfg, of p mem 0] plain(1) mem(1) p by (simp add: offset_row_bit)
  have rest: "rounds ?f (?n - 0 + 1) (t_at (p + 1) 0)
    = (map (\<lambda>k. row_issue cfg (mem (p + 1) + of_nat k * (mem (p + 1) - mem p))) [0..<?n + 1], t_at (p + 3) 0)"
    by (rule tilizer_loop [where mem = mem, OF cfg p n _ mem(3)])
      (use plain(2) mem(2) in \<open>simp_all add: offset_row_bit\<close>)
  have row: "mem (p + 1) + of_nat k * (mem (p + 1) - mem p) = offset_row (offs ! (start + 1 + k))"
    if "k < ?n + 1" for k
  proof -
    have "offs ! (start + 1 + k) = offs ! (start + 1) + of_nat k * ?d"
    proof (rule progression_nth [where e = e])
      show "start + 1 + k \<le> e" using that e4 by linarith
    qed (rule pe(3) [OF e4])
    then show ?thesis
      unfolding mem(1,2) offset_row_def by (simp only: ucast_down_add ucast_down_diff ucast_down_times_nat)
  qed
  have "map (\<lambda>k. row_issue cfg (mem (p + 1) + of_nat k * (mem (p + 1) - mem p))) [0..<?n + 1]
      = map (\<lambda>j. row_issue cfg (offset_row (offs ! j))) [start + 1..<e + 1]"
  proof (rule nth_equalityI)
    fix k
    assume "k < length (map (\<lambda>k. row_issue cfg (mem (p + 1) + of_nat k * (mem (p + 1) - mem p))) [0..<?n + 1])"
    then have k: "k < ?n + 1" by simp
    then have "[start + 1..<e + 1] ! k = start + 1 + k" "[0..<?n + 1] ! k = k"
      using e4 by (simp_all del: upt_Suc)
    moreover have "k < length [start + 1..<e + 1]" "k < length [0..<?n + 1]"
      using k e4 by (simp_all only: length_upt, (linarith+)?)
    ultimately show "map (\<lambda>k. row_issue cfg (mem (p + 1) + of_nat k * (mem (p + 1) - mem p))) [0..<?n + 1] ! k
        = map (\<lambda>j. row_issue cfg (offset_row (offs ! j))) [start + 1..<e + 1] ! k"
      by (simp only: nth_map row [OF k])
  qed (use e4 in \<open>simp del: upt_Suc\<close>)
  moreover have "e + 1 - start = Suc (?n - 0 + 1)" using e4 by linarith
  moreover have "[start..<e + 1] = start # [start + 1..<e + 1]" using e4 by (simp add: upt_conv_Cons)
  ultimately show ?thesis
    using one rest mem(1) by (simp only: rounds.simps Let_def prod.case list.map)
qed

lemma read_tilizer_from:
  assumes cfg: "plain_config cfg" and ok: "rows_ok offs" and "p \<le> start" and "start \<le> length offs"
    and "\<And>j. j < length (compress_tilizer_loop offs c r start []) \<Longrightarrow>
      mem (p + j) = ucast (compress_tilizer_loop offs c r start [] ! j)"
  shows "fst (rounds (tilizer_read_round cfg mem) (length offs - start) (t_at p 0))
    = map (\<lambda>j. row_issue cfg (offset_row (offs ! j))) [start..<length offs]"
  using assms(3-5)
proof (induction "length offs - start" arbitrary: start p rule: less_induct)
  case less
  let ?f = "tilizer_read_round cfg mem" and ?issue = "\<lambda>j. row_issue cfg (offset_row (offs ! j))"
  let ?e = "find_arithmetic_progression_pattern_end_index offs start c r"
  let ?rest = "compress_tilizer_loop offs c r (?e + 1) []"
  have small: "length offs < 2 ^ 31" using ok by (simp add: rows_ok_def)
  show ?case
  proof (cases "start < length offs")
    case False
    then show ?thesis by simp
  next
    case True
    note pe = pattern_end_sound(1,2) [OF True refl, of c r]
    have plain: "\<not> bit (offset_row (offs ! j)) 31" if "j < length offs" for j
      using ok that by (auto simp: rows_ok_def offset_row_bit)
    have step: "fst (rounds ?f (length offs - start) (t_at p 0)) = map ?issue [start..<length offs]"
      if seg: "fst (rounds ?f (?e + 1 - start) (t_at p 0)) = map ?issue [start..<?e + 1]"
        and st: "?e + 1 < length offs \<Longrightarrow> snd (rounds ?f (?e + 1 - start) (t_at p 0)) = t_at q 0"
        and q: "q \<le> ?e + 1"
        and mem: "\<And>j. j < length ?rest \<Longrightarrow> mem (q + j) = ucast (?rest ! j)" for q
    proof (cases "?e + 1 < length offs")
      case last: False
      then have "length offs = ?e + 1" using pe(2) by simp
      then show ?thesis using seg by simp
    next
      case more: True
      have "fst (rounds ?f (length offs - (?e + 1)) (t_at q 0)) = map ?issue [?e + 1..<length offs]"
        using pe(1) more q mem by (intro less.hyps) auto
      moreover have "length offs - start = (?e + 1 - start) + (length offs - (?e + 1))"
        using more pe(1) by linarith
      moreover have "[start..<length offs] = [start..<?e + 1] @ [?e + 1..<length offs]"
      proof -
        obtain k where "length offs = ?e + 1 + k"
          using more le_Suc_ex less_imp_le by blast
        then show ?thesis
          using pe(1) upt_add_eq_append [of start "?e + 1" k] by (simp only: trans_le_add1 le_add1)
      qed
      ultimately show ?thesis
        using seg st [OF more] by (simp only: rounds_add fst_conv map_append)
    qed
    show ?thesis
    proof (cases "?e - start + 1 < 5")
      case short: True
      let ?len = "?e + 1 - start" and ?q = "p + (?e + 1 - start)"
      note enc = tilizer_compressed_short [OF True refl short]
      have nth: "mem (p + j) = ucast ((map (\<lambda>i. offs ! i) [start..<?e + 1] @ ?rest) ! j)"
        if "j < ?len + length ?rest" for j
        using less.prems(3) [of j] that unfolding enc by simp
      have "?q \<le> length offs" using less.prems(1) pe by linarith
      then have q32: "?q < 2 ^ 32" using small by simp
      have run: "rounds ?f ?len (t_at p 0)
        = (map (\<lambda>k. row_issue cfg (offset_row (offs ! (start + k)))) [0..<?len],
           snd (simpler_decompress_scatter_offsets mem (t_at ?q 0)))"
      proof (rule tilizer_pass [OF cfg _ q32])
        fix k
        assume k: "k < ?len"
        then show "mem (p + k) = offset_row (offs ! (start + k))"
          using nth [of k] by (simp add: nth_append offset_row_def del: upt_Suc)
        show "\<not> bit (offset_row (offs ! (start + k))) 31" using plain k pe(2) by simp
      qed (use pe(1) in simp)
      show ?thesis
      proof (rule step [of ?q])
        show "fst (rounds ?f ?len (t_at p 0)) = map ?issue [start..<?e + 1]"
          unfolding run fst_conv by (intro nth_equalityI) (auto simp del: upt_Suc)
        show "?q \<le> ?e + 1" using less.prems(1) pe(1) by linarith
        show "mem (?q + j) = ucast (?rest ! j)" if "j < length ?rest" for j
          using nth [of "?len + j"] that by (simp add: nth_append ac_simps del: upt_Suc)
        show "snd (rounds ?f ?len (t_at p 0)) = t_at ?q 0" if more: "?e + 1 < length offs"
        proof -
          have "mem ?q = offset_row (offs ! (?e + 1))"
            using nth [of ?len] tilizer_compressed_head [OF more, of c r]
            by (simp add: nth_append offset_row_def del: upt_Suc)
          then have "\<not> bit (mem ?q) 31" using plain [OF more] by simp
          then show ?thesis by (simp only: run snd_conv simpler_plain [OF _ q32] not_False_eq_True)
        qed
      qed
    next
      case long: False
      then have five: "5 \<le> ?e - start + 1" by simp
      note enc = tilizer_compressed_long [OF True refl five]
      have nth: "mem (p + j) = ucast (([offs ! start, offs ! (start + 1),
          c_dram_io_is_scatter_loop_for_tilizer_flag OR word_of_nat (?e - start - 1)] @ ?rest) ! j)"
        if "j < 3 + length ?rest" for j
        using less.prems(3) [of j] that unfolding enc by simp
      have run: "rounds ?f (?e + 1 - start) (t_at p 0)
        = (map ?issue [start..<?e + 1], t_at (p + 3) 0)"
        by (rule read_tilizer_long [where mem = mem, OF cfg ok True less.prems(1) refl five])
          (use nth [of 0] nth [of 1] nth [of 2] in \<open>simp_all add: offset_row_def tilizer_count_ucast\<close>)
      show ?thesis
      proof (rule step [of "p + 3"])
        show "p + 3 \<le> ?e + 1" using less.prems(1) five by linarith
        show "mem (p + 3 + j) = ucast (?rest ! j)" if "j < length ?rest" for j
          using nth [of "3 + j"] that by (simp add: nth_append ac_simps)
      qed (simp_all only: run fst_conv snd_conv)
    qed
  qed
qed

end
