(* ===== verification/ScatterProps.thy ===== *)
theory ScatterProps
  imports ScatterTilizer
begin

text \<open>
  What the compressor and the firmware readers promise each other, as one interface with the two
  encodings as its instances, and the properties of the firmware's loops that follow.
\<close>

section \<open>The interface of a scatter encoding\<close>

text \<open>
  An encoder, the entry a word is stored as, one round of the reader, its initial state and the
  issues a list of offsets stands for.
\<close>

locale scatter_codec =
  fixes compress :: "u64 list \<Rightarrow> u64 list"
    and store :: "u64 \<Rightarrow> 'm"
    and reader :: "(nat \<Rightarrow> 'm) \<Rightarrow> 's \<Rightarrow> 'a \<times> 's"
    and init :: "'s"
    and issue :: "u64 \<Rightarrow> 'a"
    and ok :: "u64 list \<Rightarrow> bool"
  assumes decode: "ok xs \<Longrightarrow> (\<And>j. j < length (compress xs) \<Longrightarrow> mem j = store (compress xs ! j)) \<Longrightarrow>
    fst (rounds (reader mem) (length xs) init) = map issue xs"
begin

lemma decode_resumed:
  assumes "ok xs" and "\<And>j. j < length (compress xs) \<Longrightarrow> mem j = store (compress xs ! j)"
    and "n + m \<le> length xs"
  shows "fst (rounds (reader mem) n init) = map issue (take n xs)"
    and "fst (rounds (reader mem) m (snd (rounds (reader mem) n init)))
      = map issue (take m (drop n xs))"
proof -
  let ?f = "reader mem"
  obtain k where k: "length xs = (n + m) + k" using assms(3) le_Suc_ex by blast
  have all: "map issue xs = (fst (rounds ?f n init)
      @ fst (rounds ?f m (snd (rounds ?f n init)))) @ fst (rounds ?f k (snd (rounds ?f (n + m) init)))"
    using decode [OF assms(1,2)] by (simp add: k rounds_add)
  then show "fst (rounds ?f n init) = map issue (take n xs)"
    unfolding take_map [symmetric] by simp
  show "fst (rounds ?f m (snd (rounds ?f n init))) = map issue (take m (drop n xs))"
    unfolding take_map [symmetric] drop_map [symmetric] all by simp
qed

lemma compress_determines:
  assumes "ok xs" "ok ys" "compress xs = compress ys" "length xs = length ys"
  shows "map issue xs = map issue ys"
proof -
  let ?mem = "\<lambda>j. store (compress xs ! j)"
  have "map issue xs = fst (rounds (reader ?mem) (length xs) init)"
    using decode [OF assms(1), of ?mem] by simp
  also have "\<dots> = map issue ys"
    using decode [OF assms(2), of ?mem] assms(3,4) by simp
  finally show ?thesis .
qed

end

section \<open>The two encodings\<close>

lemma map_nth_upt: "map (\<lambda>j. f (xs ! j)) [0..<length xs] = map f xs"
  by (intro nth_equalityI) auto

interpretation plain: scatter_codec compress_dram_scatter_offsets id "scatter_read_round base"
  "reader_at 0 0 0" "scatter_address base" "offsets_ok base" for base
  by unfold_locales
    (use read_compressed_from [of _ _ 0 0] in \<open>simp add: compress_dram_scatter_offsets_def\<close>)

definition tilizer_rows_ok :: "tilizer_config \<Rightarrow> u64 list \<Rightarrow> bool" where
  "tilizer_rows_ok cfg offs \<longleftrightarrow> plain_config cfg \<and> rows_ok offs"

interpretation tilizer: scatter_codec "\<lambda>offs. compress_dram_scatter_offsets_for_tilizer offs c rows"
  ucast "tilizer_read_round cfg" "t_at 0 0" "\<lambda>o'. row_issue cfg (offset_row o')" "tilizer_rows_ok cfg"
  for cfg c rows
proof unfold_locales
  fix xs :: "u64 list" and mem :: "nat \<Rightarrow> u32"
  assume "tilizer_rows_ok cfg xs" and "\<And>j. j < length (compress_dram_scatter_offsets_for_tilizer xs c rows)
    \<Longrightarrow> mem j = ucast (compress_dram_scatter_offsets_for_tilizer xs c rows ! j)"
  then show "fst (rounds (tilizer_read_round cfg mem) (length xs) (t_at 0 0))
      = map (\<lambda>o'. row_issue cfg (offset_row o')) xs"
    using read_tilizer_from [of cfg xs 0 0 c rows mem]
    by (simp add: tilizer_rows_ok_def compress_dram_scatter_offsets_for_tilizer_def
        map_nth_upt [of "\<lambda>o'. row_issue cfg (offset_row o')"])
qed

section \<open>Sizes\<close>

lemma length_compressed_tilizer:
  "start \<le> length offs \<Longrightarrow> length (compress_tilizer_loop offs c r start []) \<le> length offs - start"
proof (induction "length offs - start" arbitrary: start rule: less_induct)
  case less
  let ?e = "find_arithmetic_progression_pattern_end_index offs start c r"
  show ?case
  proof (cases "start < length offs")
    case False
    then show ?thesis by (simp add: tilizer_compressed_end)
  next
    case True
    note pe = pattern_end_sound(1,2) [OF True refl, of c r]
    have rest: "length (compress_tilizer_loop offs c r (?e + 1) []) \<le> length offs - (?e + 1)"
      using pe True by (intro less.hyps) linarith+
    show ?thesis
    proof (cases "?e - start + 1 < 5")
      case short: True
      show ?thesis
        unfolding tilizer_compressed_short [OF True refl short] length_append length_map length_upt
        using rest pe by linarith
    next
      case False
      then have five: "5 \<le> ?e - start + 1" by simp
      show ?thesis
        unfolding tilizer_compressed_long [OF True refl five] length_append list.size
        using rest pe five by linarith
    qed
  qed
qed

text \<open>Compression never makes a scatter list longer: neither the general encoding of DRAM scatter
  offsets nor the one for the tilizer has more words than the list of offsets it is made from.\<close>

theorem compression_never_longer:
  "length (compress_dram_scatter_offsets offs) \<le> length offs
   \<and> length (compress_dram_scatter_offsets_for_tilizer offs c rows) \<le> length offs"
  using length_compressed [of 0 offs] length_compressed_tilizer [of 0 offs c rows]
  by (simp add: compress_dram_scatter_offsets_def compress_dram_scatter_offsets_for_tilizer_def)

lemma dests_numeral: "dests d b (numeral n) = d # dests (d + b) b (pred_numeral n)"
  by (simp only: numeral_eq_Suc dests.simps)

section \<open>Two lists to read\<close>

definition sample_offsets :: "u64 list" where
  "sample_offsets = [0, 0x1000, 0x2000, 0x3000, 0x4000, 0x5000, 0x6000, 0x7000,
     0x40, 0x1040, 0x2040, 0x3040, 0x4040, 0x5040, 0x6040, 0x7040, 0x77]"

lemma sample_compressed: "compress_dram_scatter_offsets sample_offsets =
    [0, 0x1000, 0x2000, 0x3000, 0x4000, 0x5000, 0x6000, 0x7000, 0x8000000100000008, 0x40, 0x77]"
  by (simp add: sample_offsets_def compress_dram_scatter_offsets_def compress_loop.simps
    get_max_pattern_compression_def get_scatter_pattern_compression_def upt_rec compressor_constants
    is_valid_scatter_offset_increment_def Let_def better_compression_def no_compression_def
    get_compression_level_def has_compression_def can_compress_def
    get_compression_scatter_pattern_length_def get_compression_pattern_index_increment_def
    insert_scatter_pattern_def insert_scatter_offset_loop_def encode_dram_scatter_offset_loop_def)

lemma sample_offsets_ok: "offsets_ok 0x120 sample_offsets"
  by (simp add: sample_offsets_def offsets_ok_def local_part_def bit_iff_odd_drop_bit drop_bit_eq_div take_bit_eq_mod)

definition sample_rows :: "u64 list" where
  "sample_rows = [3, 7, 11, 15, 19, 23, 2, 5]"

lemma sample_rows_compressed:
  "compress_dram_scatter_offsets_for_tilizer sample_rows 1 8 = [3, 7, 0x80000004, 2, 5]"
  by (simp add: sample_rows_def compress_dram_scatter_offsets_for_tilizer_def compress_tilizer_loop.simps
    find_arithmetic_progression_pattern_end_index_def compressor_constants Let_def
    extend_progression.simps upt_rec)

definition sample_config :: tilizer_config where
  "sample_config = \<lparr>hw_tilize = True, dram_addr = 0x10000, embeddings_row_shift = 64,
     tilize_row_col_offset = 0, tc_addr_with_offset = 32, c_dim_size = 1, c_dim_loop_num_rows = 8,
     tc_scatter_chunk_bytes = 64\<rparr>"

lemma sample_rows_ok: "plain_config sample_config" "rows_ok sample_rows"
  by (simp_all add: sample_config_def plain_config_def sample_rows_def rows_ok_def bit_iff_odd_drop_bit)

section \<open>The loops of the firmware\<close>

lemma unat_tiles: "n * unat scatter_tiles = unat chunk_tiles \<Longrightarrow>
    unat (0 :: u32) + n * unat scatter_tiles = unat chunk_tiles"
  by simp

text \<open>C2 What pipegen2 compresses, the firmware reads back: with the compressed list in memory, the
  scatter read of a chunk that is split over two calls (the second goes on from the state the first
  left) returns, and the NOC reads it issues are, in order, the reads of the uncompressed offsets at
  the destinations that follow each other by the size of a scatter chunk.\<close>

theorem scatter_reads_are_the_offsets:
  assumes "offsets_ok (rdptr + data_offset) offs"
    and "\<And>j. j < length (compress_dram_scatter_offsets offs) \<Longrightarrow>
      mem j = compress_dram_scatter_offsets offs ! j"
    and "scatter_tiles > 0" and "n * unat scatter_tiles = unat chunk1"
    and "m * unat scatter_tiles = unat chunk2" and "n + m \<le> length offs"
  shows "\<exists>st1 st2.
    dram_input_stream_issue_scatter_read data_offset rdptr mem chunk1 scatter_tiles bytes dest1
      (reader_at 0 0 0)
      = Some (zip (map (scatter_address (rdptr + data_offset)) (take n offs)) (dests dest1 bytes n), st1)
    \<and> dram_input_stream_issue_scatter_read data_offset rdptr mem chunk2 scatter_tiles bytes dest2 st1
      = Some (zip (map (scatter_address (rdptr + data_offset)) (take m (drop n offs)))
          (dests dest2 bytes m), st2)"
  unfolding dram_input_stream_issue_scatter_read_def
    issue_scatter_read_rounds [OF assms(3) unat_tiles [OF assms(4)]]
  using plain.decode_resumed [OF assms(1) _ assms(6), of mem] assms(2)
    issue_scatter_read_rounds [OF assms(3) unat_tiles [OF assms(5)]]
  by simp

theorem scatter_reads_are_the_offsets_witness:
  "\<exists>st1 st2.
    dram_input_stream_issue_scatter_read 0x20 0x100
      (\<lambda>j. [0, 0x1000, 0x2000, 0x3000, 0x4000, 0x5000, 0x6000, 0x7000, 0x8000000100000008, 0x40, 0x77] ! j)
      12 4 512 0x8000 (reader_at 0 0 0)
      = Some ([(0x120, 0x8000), (0x1120, 0x8200), (0x2120, 0x8400)], st1)
    \<and> dram_input_stream_issue_scatter_read 0x20 0x100
      (\<lambda>j. [0, 0x1000, 0x2000, 0x3000, 0x4000, 0x5000, 0x6000, 0x7000, 0x8000000100000008, 0x40, 0x77] ! j)
      32 4 512 0x4000 st1
      = Some (zip [0x3120, 0x4120, 0x5120, 0x6120, 0x7120, 0x160, 0x1160, 0x2160]
          (dests 0x4000 512 8), st2)"
  using scatter_reads_are_the_offsets [of "0x100" "0x20" sample_offsets
    "\<lambda>j. compress_dram_scatter_offsets sample_offsets ! j" 4 3 12 8 32 512 "0x8000" "0x4000"]
    sample_offsets_ok
  unfolding sample_compressed
  by (simp add: sample_offsets_def scatter_address_def bit_iff_odd_drop_bit drop_bit_eq_div dests_numeral)

text \<open>C23 The same for the hardware tilizer with at most one column block: with the compressed list of row
  indices in the 32-bit words of memory, its reads are the rows of the uncompressed list, also when the chunk is
  split over two calls. Other configurations of the tilizer are not covered.\<close>

theorem tilizer_reads_are_the_rows:
  assumes "plain_config cfg" and "rows_ok offs"
    and "\<And>j. j < length (compress_dram_scatter_offsets_for_tilizer offs c rows) \<Longrightarrow>
      mem j = ucast (compress_dram_scatter_offsets_for_tilizer offs c rows ! j)"
    and "scatter_tiles > 0" and "n * unat scatter_tiles = unat chunk1"
    and "m * unat scatter_tiles = unat chunk2" and "n + m \<le> length offs"
  shows "\<exists>st1 st2.
    tilizer_read_loop cfg mem chunk1 scatter_tiles 0 dest1 (t_at 0 0)
      = Some (zip (map (\<lambda>o'. row_issue cfg (offset_row o')) (take n offs))
          (dests dest1 (tc_scatter_chunk_bytes cfg) n), st1)
    \<and> tilizer_read_loop cfg mem chunk2 scatter_tiles 0 dest2 st1
      = Some (zip (map (\<lambda>o'. row_issue cfg (offset_row o')) (take m (drop n offs)))
          (dests dest2 (tc_scatter_chunk_bytes cfg) m), st2)"
proof -
  have "tilizer_rows_ok cfg offs" using assms(1,2) by (simp add: tilizer_rows_ok_def)
  from tilizer.decode_resumed [OF this assms(3,7)] show ?thesis
    using tilizer_read_rounds [OF assms(4) unat_tiles [OF assms(5)]]
      tilizer_read_rounds [OF assms(4) unat_tiles [OF assms(6)]]
    by simp
qed

theorem tilizer_reads_are_the_rows_witness:
  "\<exists>st1 st2.
    tilizer_read_loop sample_config (\<lambda>j. [3, 7, 0x80000004, 2, 5] ! j) 12 4 0 0x8000 (t_at 0 0)
      = Some ([(IssueRow 3 0x100E0, 0x8000), (IssueRow 7 0x101E0, 0x8040), (IssueRow 11 0x102E0, 0x8080)], st1)
    \<and> tilizer_read_loop sample_config (\<lambda>j. [3, 7, 0x80000004, 2, 5] ! j) 16 4 0 0x4000 st1
      = Some ([(IssueRow 15 0x103E0, 0x4000), (IssueRow 19 0x104E0, 0x4040), (IssueRow 23 0x105E0, 0x4080),
          (IssueRow 2 0x100A0, 0x40C0)], st2)"
proof -
  let ?mem = "\<lambda>j. map ucast (compress_dram_scatter_offsets_for_tilizer sample_rows 1 8) ! j"
  have "?mem j = ucast (compress_dram_scatter_offsets_for_tilizer sample_rows 1 8 ! j)"
    if "j < length (compress_dram_scatter_offsets_for_tilizer sample_rows 1 8)" for j
    using that by (rule nth_map)
  from tilizer_reads_are_the_rows [OF sample_rows_ok this, of 4 3 12 4 16 "0x8000" "0x4000"]
  show ?thesis
    unfolding sample_rows_compressed
    by (simp add: sample_rows_def sample_config_def row_issue_def offset_row_def dests_numeral)
qed

lemma scatter_address_inj:
  assumes "list_all (\<lambda>x. \<not> bit x 62) xs" "list_all (\<lambda>x. \<not> bit x 62) ys"
    and "map (scatter_address base) xs = map (scatter_address base) ys"
  shows "xs = ys"
  using assms
proof (induction xs arbitrary: ys)
  case (Cons x xs)
  from Cons.prems(3) obtain y ys' where ys: "ys = y # ys'" by (cases ys) simp_all
  with Cons.prems have "scatter_address base x = scatter_address base y" and "xs = ys'"
    by (auto intro: Cons.IH)
  with Cons.prems ys show ?case by (simp add: scatter_address_def)
qed simp

text \<open>Compression loses nothing: on the lists of a length that the compressor is used for, and that
  have no padding offset, it is injective, so the uncompressed offsets are determined by what is
  written to memory.\<close>

theorem compression_injective:
  "inj_on compress_dram_scatter_offsets
     {xs. offsets_ok base xs \<and> length xs = n \<and> list_all (\<lambda>x. \<not> bit x 62) xs}"
proof (rule inj_onI)
  fix xs ys
  assume "xs \<in> {xs. offsets_ok base xs \<and> length xs = n \<and> list_all (\<lambda>x. \<not> bit x 62) xs}"
    and "ys \<in> {xs. offsets_ok base xs \<and> length xs = n \<and> list_all (\<lambda>x. \<not> bit x 62) xs}"
    and "compress_dram_scatter_offsets xs = compress_dram_scatter_offsets ys"
  then show "xs = ys"
    using plain.compress_determines [of base xs ys] scatter_address_inj [of xs ys base] by simp
qed

section \<open>Termination\<close>

lemma read_loop_returns:
  assumes "scatter_tiles > 0" and "unat chunk_tiles + unat scatter_tiles \<le> 2 ^ 32"
  shows "\<exists>r. issue_scatter_read_loop a mem chunk_tiles scatter_tiles bytes tile dest st = Some r"
proof (induction "unat chunk_tiles - unat tile" arbitrary: tile dest st rule: less_induct)
  case less
  show ?case
  proof (cases "tile < chunk_tiles")
    case False
    then show ?thesis by (simp add: issue_scatter_read_loop.simps)
  next
    case True
    then have lt: "unat tile < unat chunk_tiles" by (simp add: word_less_nat_alt)
    have "unat tile + unat scatter_tiles < 2 ^ 32" using lt assms(2) by linarith
    then have sum: "unat (tile + scatter_tiles) = unat tile + unat scatter_tiles"
      by (simp add: unat_plus_no_wrap)
    have "unat scatter_tiles > 0" using assms(1) by (simp add: word_less_nat_alt)
    then have dec: "unat chunk_tiles - unat (tile + scatter_tiles) < unat chunk_tiles - unat tile"
      using lt sum by linarith
    obtain r where "issue_scatter_read_loop a mem chunk_tiles scatter_tiles bytes (tile + scatter_tiles)
        (dest + bytes) (snd (scatter_read_round a mem st)) = Some r"
      using less.hyps [OF dec] by blast
    then show ?thesis
      by (subst issue_scatter_read_loop.simps) (simp add: case_prod_unfold Let_def)
  qed
qed

lemma read_loop_hangs:
  assumes "issue_scatter_read_loop a mem chunk_tiles scatter_tiles bytes tile dest st = Some r"
  shows "scatter_tiles = 0 \<longrightarrow> \<not> tile < chunk_tiles"
proof (rule issue_scatter_read_loop.raw_induct [OF _ assms])
  fix loop a mem st r and chunk_tiles scatter_tiles bytes tile dest :: u32
  assume IH: "\<And>a mem chunk_tiles scatter_tiles bytes tile dest st r.
      loop a mem chunk_tiles scatter_tiles bytes tile dest st = Some r \<Longrightarrow>
      scatter_tiles = 0 \<longrightarrow> \<not> tile < chunk_tiles"
    and res: "(if tile < chunk_tiles then
        (let (address, st1) = scatter_read_round a mem st
         in Option.bind
              (loop a mem chunk_tiles scatter_tiles bytes (tile + scatter_tiles) (dest + bytes) st1)
              (\<lambda>(trace, st2). Some ((address, dest) # trace, st2)))
      else Some ([], st)) = Some r"
  show "scatter_tiles = 0 \<longrightarrow> \<not> tile < chunk_tiles"
  proof (intro impI notI)
    assume *: "scatter_tiles = 0" "tile < chunk_tiles"
    then obtain x where "loop a mem chunk_tiles scatter_tiles bytes (tile + scatter_tiles) (dest + bytes)
        (snd (scatter_read_round a mem st)) = Some x"
      using res by (auto simp: case_prod_unfold Let_def bind_eq_Some_conv)
    from IH [OF this] * show False by simp
  qed
qed

text \<open>C38 The scatter-read loop returns when scatter chunks have tiles and the last step of its 32-bit
  counter does not wrap; for scatter chunks of no tiles it never returns on a chunk that has tiles.\<close>

theorem scatter_read_loop_termination:
  "(0 < scatter_tiles \<and> unat chunk_tiles + unat scatter_tiles \<le> 2 ^ 32 \<longrightarrow>
      (\<exists>r. dram_input_stream_issue_scatter_read data_offset rdptr mem chunk_tiles scatter_tiles bytes
              dest st = Some r))
   \<and> (0 < chunk_tiles \<longrightarrow>
      dram_input_stream_issue_scatter_read data_offset rdptr mem chunk_tiles 0 bytes dest st = None)"
proof (intro conjI impI)
  assume "0 < scatter_tiles \<and> unat chunk_tiles + unat scatter_tiles \<le> 2 ^ 32"
  then show "\<exists>r. dram_input_stream_issue_scatter_read data_offset rdptr mem chunk_tiles scatter_tiles bytes
      dest st = Some r"
    unfolding dram_input_stream_issue_scatter_read_def by (intro read_loop_returns) simp_all
next
  assume "0 < chunk_tiles"
  then show "dram_input_stream_issue_scatter_read data_offset rdptr mem chunk_tiles 0 bytes dest st = None"
    unfolding dram_input_stream_issue_scatter_read_def
    using read_loop_hangs [of "rdptr + data_offset" mem chunk_tiles 0 bytes 0 dest st]
    by (cases "issue_scatter_read_loop (rdptr + data_offset) mem chunk_tiles 0 bytes 0 dest st") auto
qed


theorem scatter_read_loop_termination_witness:
  "(\<exists>r. dram_input_stream_issue_scatter_read 0x20 0x100 (\<lambda>_. 0x40) 12 4 512 0x8000 (reader_at 0 0 0) = Some r)
   \<and> dram_input_stream_issue_scatter_read 0x20 0x100 (\<lambda>_. 0x40) 12 0 512 0x8000 (reader_at 0 0 0) = None"
  using scatter_read_loop_termination [of 4 12 "0x20" "0x100" "\<lambda>_. 0x40" 512 "0x8000" "reader_at 0 0 0"]
  by simp

end
