(* ===== verification/NetlistProgram.thy ===== *)
theory NetlistProgram
  imports Prelude
begin

text \<open>
  The programs of a netlist: \<open>src/netlist/netlist_program.{hpp,cpp}\<close> with the instructions of
  \<open>src/netlist/netlist_info_types.hpp\<close>. A program is a state machine with a program counter, a stack
  of loops and a map of variables; \<open>run_instruction_with_callbacks\<close> is its step. The loop stack is a
  list whose head is the back of the vector. Callbacks are parameters: they act on the program and on
  a state of the caller. \<open>None\<close> is a step that does not return, which only \<open>IncWrap\<close> can cause.
\<close>

section \<open>Instructions\<close>

record tt_queue_setting_info =
  q_name :: string
  prolog :: string
  epilog :: string
  zero_setting :: string
  rd_ptr_autoinc :: string
  global_wrptr_autoinc :: string
  global_rdptr_autoinc :: string
  rd_ptr_local :: string
  rd_ptr_global :: string
  wr_ptr_global :: string
  read_only :: string

datatype INSTRUCTION_OPCODE =
  Var | StaticVar | Param | VarInst | AllocateQueue | DeallocateQueue | Loop | EndLoop | Execute
| EndProgram | InvalidInstruction

datatype VAR_INSTRUCTION_OPCODE = Set | Add | Mul | Inc | IncWrap | InvalidVarInst

record tt_instruction_info =
  opcode :: INSTRUCTION_OPCODE
  graph_name :: string
  varinst_opcode :: VAR_INSTRUCTION_OPCODE
  loop_count :: string
  vars :: "(string \<times> int) list"
  queue_settings :: "tt_queue_setting_info list"
  is_declaration :: bool

definition get_instruction_opcode_enum :: "string \<Rightarrow> INSTRUCTION_OPCODE" where
  "get_instruction_opcode_enum t =
     (if t = ''var'' then Var
      else if t = ''staticvar'' then StaticVar
      else if t = ''param'' then Param
      else if t = ''varinst'' then VarInst
      else if t = ''allocate_queue'' then AllocateQueue
      else if t = ''deallocate_queue'' then DeallocateQueue
      else if t = ''execute'' then Execute
      else if t = ''loop'' then Loop
      else if t = ''endloop'' then EndLoop
      else if t = ''endprogram'' then EndProgram
      else InvalidInstruction)"

definition get_var_instruction_opcode_enum :: "string \<Rightarrow> VAR_INSTRUCTION_OPCODE" where
  "get_var_instruction_opcode_enum t =
     (if t = ''set'' then Set
      else if t = ''add'' then Add
      else if t = ''mul'' then Mul
      else if t = ''inc'' then Inc
      else if t = ''incwrap'' then IncWrap
      else InvalidVarInst)"

section \<open>Variables and immediates\<close>

datatype program_error =
  InvalidImmediate string
| UninitializedVariable string
| InvalidFormat string
| MissingVariableMarker string
| PcBeyondProgram int
| MasksDeclaration string
| UnsupportedVariableType string
| ParamNotImmediate string string
| ParamNotPassed string
| VariableCount nat
| LoopCountBelowOne int
| UnexpectedEndLoop int
| EmptyLoopStack
| DivisionByZero
| IntOverflow

datatype VARIABLE_TYPE = LOCAL | STATIC | PARAM | INVALID

record program_variable =
  var_type :: VARIABLE_TYPE
  var_value :: int

type_synonym variables = "string \<rightharpoonup> program_variable"

definition get_variable_name :: "string \<Rightarrow> string" where
  "get_variable_name input = filter (\<lambda>c. c \<noteq> CHR ''$'') input"

definition is_variable :: "string \<Rightarrow> bool" where
  "is_variable input \<longleftrightarrow> CHR ''$'' \<in> set input"

definition is_constant :: "string \<Rightarrow> bool" where
  "is_constant input \<longleftrightarrow> take 3 input = ''$c_''"

definition is_param :: "string \<Rightarrow> bool" where
  "is_param input \<longleftrightarrow> take 3 input = ''$p_''"

definition is_immediate :: "string \<Rightarrow> bool" where
  "is_immediate input \<longleftrightarrow> \<not> is_variable input \<and> input \<noteq> ''''"

text \<open>\<open>tolower\<close> and \<open>stoi\<close> of the standard library; \<open>None\<close> is an exception of \<open>stoi\<close>.\<close>

definition tolower :: "char \<Rightarrow> char" where
  "tolower c = (let n = (of_char c :: nat) in if 65 \<le> n \<and> n \<le> 90 then char_of (n + 32) else c)"

definition is_space :: "char \<Rightarrow> bool" where
  "is_space c \<longleftrightarrow> (let n = (of_char c :: nat) in n = 32 \<or> 9 \<le> n \<and> n \<le> 13)"

definition is_digit :: "char \<Rightarrow> bool" where
  "is_digit c \<longleftrightarrow> (let n = (of_char c :: nat) in 48 \<le> n \<and> n \<le> 57)"

definition digits_value :: "string \<Rightarrow> int" where
  "digits_value ds = foldl (\<lambda>v c. 10 * v + (of_char c - 48)) 0 ds"

definition stoi :: "string \<Rightarrow> int option" where
  "stoi s =
     (let t = dropWhile is_space s;
          negative = (case t of c # _ \<Rightarrow> c = CHR ''-'' | [] \<Rightarrow> False);
          unsigned = (case t of c # u \<Rightarrow> if c = CHR ''-'' \<or> c = CHR ''+'' then u else t | [] \<Rightarrow> t);
          ds = takeWhile is_digit unsigned;
          v = (if negative then - digits_value ds else digits_value ds)
      in if ds = [] \<or> v < - (2 ^ 31) \<or> v \<ge> 2 ^ 31 then None else Some v)"

definition is_bool_immediate :: "string \<Rightarrow> bool" where
  "is_bool_immediate input \<longleftrightarrow> is_immediate input
     \<and> (map tolower input = ''false'' \<or> map tolower input = ''true'')"

definition get_bool_immediate :: "string \<Rightarrow> bool option" where
  "get_bool_immediate input =
     (let tmp = map tolower input
      in if tmp = ''false'' \<or> tmp = ''0'' then Some False
         else if tmp = ''true'' \<or> tmp = ''1'' then Some True
         else None)"

definition get_immediate :: "string \<Rightarrow> int option" where
  "get_immediate input =
     (if is_bool_immediate input then map_option of_bool (get_bool_immediate input) else stoi input)"

definition get_variable_from_map ::
  "string \<Rightarrow> variables \<Rightarrow> string \<Rightarrow> program_error + program_variable" where
  "get_variable_from_map variable_string vs immediate_default =
     (let var_string = (if variable_string = '''' then immediate_default else variable_string)
      in if is_immediate var_string then
           (case get_immediate var_string of
              Some v \<Rightarrow> Inr \<lparr>var_type = LOCAL, var_value = v\<rparr>
            | None \<Rightarrow> Inl (InvalidImmediate var_string))
         else if is_variable var_string then
           (case vs (get_variable_name var_string) of
              Some v \<Rightarrow> Inr v
            | None \<Rightarrow> Inl (UninitializedVariable var_string))
         else Inl (InvalidFormat var_string))"

section \<open>The program\<close>

record program_loop_info =
  curr_iter :: int
  last_iter :: int
  loop_pc :: int
  is_on_device_loop :: bool

record netlist_program =
  ignore_runtime_parameters :: bool
  program_counter :: int
  breakpoint_pc :: int
  loop_stack :: "program_loop_info list"
  parameters :: "string \<rightharpoonup> string"
  variables :: variables
  program_trace :: "tt_instruction_info list"
  program_name :: string

definition PC_START :: int where "PC_START = 0"

text \<open>\<open>0xABADFACE\<close> as an \<open>int\<close>.\<close>

definition PC_INVALID :: int where "PC_INVALID = 0xABADFACE - 2 ^ 32"

definition new_netlist_program :: "string \<Rightarrow> tt_instruction_info list \<Rightarrow> netlist_program" where
  "new_netlist_program name trace =
     \<lparr>ignore_runtime_parameters = False, program_counter = PC_START, breakpoint_pc = PC_INVALID,
      loop_stack = [], parameters = Map.empty, variables = Map.empty, program_trace = trace,
      program_name = name\<rparr>"

definition reset :: "netlist_program \<Rightarrow> netlist_program" where
  "reset p = p\<lparr>program_counter := PC_START, breakpoint_pc := PC_INVALID, loop_stack := [],
     variables := (\<lambda>k. case variables p k of
        Some v \<Rightarrow> if var_type v = LOCAL \<or> var_type v = PARAM then None else Some v
      | None \<Rightarrow> None)\<rparr>"

definition clear :: "netlist_program \<Rightarrow> netlist_program" where
  "clear p = (reset p)\<lparr>program_trace := [], variables := Map.empty\<rparr>"

definition set_ignore_runtime_parameters :: "bool \<Rightarrow> netlist_program \<Rightarrow> netlist_program" where
  "set_ignore_runtime_parameters b p = p\<lparr>ignore_runtime_parameters := b\<rparr>"

definition get_current_instruction :: "netlist_program \<Rightarrow> program_error + tt_instruction_info" where
  "get_current_instruction p =
     (let pc = unat (word_of_int (program_counter p) :: u32)
      in if pc \<ge> length (program_trace p) then Inl (PcBeyondProgram (program_counter p))
         else Inr (program_trace p ! pc))"

definition done_program :: "netlist_program \<Rightarrow> program_error + bool" where
  "done_program p = bind_sum (get_current_instruction p) (\<lambda>i. Inr (opcode i = EndProgram))"

definition breakpoint :: "netlist_program \<Rightarrow> bool" where
  "breakpoint p \<longleftrightarrow> program_counter p = breakpoint_pc p"

definition get_variable :: "netlist_program \<Rightarrow> string \<Rightarrow> program_error + program_variable" where
  "get_variable p variable_string = get_variable_from_map variable_string (variables p) ''''"

definition has_variable :: "netlist_program \<Rightarrow> string \<Rightarrow> bool" where
  "has_variable p variable_string \<longleftrightarrow> is_variable variable_string
     \<and> variables p (get_variable_name variable_string) \<noteq> None"

definition get_variable_type :: "netlist_program \<Rightarrow> string \<Rightarrow> program_error + VARIABLE_TYPE" where
  "get_variable_type p variable_string =
     (if has_variable p variable_string
      then Inr (case variables p (get_variable_name variable_string) of
                  Some v \<Rightarrow> var_type v | None \<Rightarrow> INVALID)
      else Inl (UninitializedVariable variable_string))"

definition set_variable ::
  "string \<Rightarrow> int \<Rightarrow> VARIABLE_TYPE \<Rightarrow> (netlist_program, program_error, unit) opn" where
  "set_variable variable_string v type' p =
     (let name = get_variable_name variable_string
      in if is_immediate variable_string then (Inl (MissingVariableMarker variable_string), p)
         else case variables p name of
             None \<Rightarrow> (Inr (), p\<lparr>variables := (variables p)(name \<mapsto> \<lparr>var_type = type', var_value = v\<rparr>)\<rparr>)
           | Some old \<Rightarrow>
               if \<not> has_variable p variable_string then (Inr (), p)
               else (Inr (), p\<lparr>variables := (variables p)(name \<mapsto>
                       \<lparr>var_type = (if type' \<noteq> INVALID then type' else var_type old), var_value = v\<rparr>)\<rparr>))"

definition get_variables :: "netlist_program \<Rightarrow> string \<rightharpoonup> int" where
  "get_variables p = (\<lambda>k. map_option var_value (variables p k))"

definition get_variables_of_type :: "VARIABLE_TYPE \<Rightarrow> netlist_program \<Rightarrow> string \<rightharpoonup> int" where
  "get_variables_of_type type' p = (\<lambda>k. case variables p k of
     Some v \<Rightarrow> if type' = var_type v then Some (var_value v) else None | None \<Rightarrow> None)"

definition set_params :: "(string \<times> string) list \<Rightarrow> netlist_program \<Rightarrow> netlist_program" where
  "set_params ps p = p\<lparr>parameters := foldl (\<lambda>m (k, v). m(k \<mapsto> v)) (parameters p) ps\<rparr>"

section \<open>Loops\<close>

definition get_curr_loop_curr_iter :: "netlist_program \<Rightarrow> int" where
  "get_curr_loop_curr_iter p = (case loop_stack p of l # _ \<Rightarrow> curr_iter l | [] \<Rightarrow> - 1)"

definition get_curr_loop_last_iter :: "netlist_program \<Rightarrow> int" where
  "get_curr_loop_last_iter p = (case loop_stack p of l # _ \<Rightarrow> last_iter l | [] \<Rightarrow> - 1)"

definition is_first_iter_entire_loop_stack :: "netlist_program \<Rightarrow> bool" where
  "is_first_iter_entire_loop_stack p = list_all (\<lambda>l. curr_iter l = 0) (loop_stack p)"

definition set_curr_loop_is_on_device :: "(netlist_program, program_error, unit) opn" where
  "set_curr_loop_is_on_device p =
     (case loop_stack p of
        [] \<Rightarrow> (Inl EmptyLoopStack, p)
      | l # ls \<Rightarrow> (Inr (), p\<lparr>loop_stack := l\<lparr>is_on_device_loop := True\<rparr> # ls\<rparr>))"

definition get_curr_loop_is_on_device :: "netlist_program \<Rightarrow> bool" where
  "get_curr_loop_is_on_device p = (case loop_stack p of [] \<Rightarrow> False | l # _ \<Rightarrow> is_on_device_loop l)"

definition is_loop_on_device_stack_first_iter :: "netlist_program \<Rightarrow> bool" where
  "is_loop_on_device_stack_first_iter p \<longleftrightarrow>
     get_curr_loop_is_on_device p \<and> is_first_iter_entire_loop_stack p"

definition is_loop_on_device_stack_not_first_iter :: "netlist_program \<Rightarrow> bool" where
  "is_loop_on_device_stack_not_first_iter p \<longleftrightarrow>
     get_curr_loop_is_on_device p \<and> \<not> is_first_iter_entire_loop_stack p"

definition is_loop_on_device_last_iter :: "netlist_program \<Rightarrow> bool" where
  "is_loop_on_device_last_iter p \<longleftrightarrow>
     get_curr_loop_is_on_device p \<and> get_curr_loop_curr_iter p = get_curr_loop_last_iter p"

definition is_loop_on_device_stack_last_iter :: "netlist_program \<Rightarrow> bool" where
  "is_loop_on_device_stack_last_iter p \<longleftrightarrow>
     get_curr_loop_is_on_device p \<and> get_curr_loop_curr_iter p = get_curr_loop_last_iter p
     \<and> (length (loop_stack p) = 1 \<or> \<not> is_on_device_loop (loop_stack p ! 1))"

text \<open>\<open>operator=\<close> copies neither the name nor the parameters.\<close>

definition assign_program :: "netlist_program \<Rightarrow> netlist_program \<Rightarrow> netlist_program" where
  "assign_program p other = p\<lparr>loop_stack := loop_stack other, program_counter := program_counter other,
     program_trace := program_trace other, breakpoint_pc := breakpoint_pc other,
     variables := variables other\<rparr>"

definition assign_pc :: "netlist_program \<Rightarrow> int \<Rightarrow> netlist_program" where
  "assign_pc p pc = p\<lparr>program_counter := pc\<rparr>"

definition increment_loop :: "program_loop_info \<Rightarrow> bool \<times> program_loop_info" where
  "increment_loop l = (if curr_iter l < last_iter l then (True, l\<lparr>curr_iter := curr_iter l + 1\<rparr>)
                       else (False, l))"

definition increment_program :: "(netlist_program, program_error, unit) opn" where
  "increment_program p =
     (case get_current_instruction p of
        Inl e \<Rightarrow> (Inl e, p)
      | Inr i \<Rightarrow>
          if opcode i = EndLoop then
            (case loop_stack p of
               [] \<Rightarrow> (Inl (UnexpectedEndLoop (program_counter p)), p)
             | loop # ls \<Rightarrow>
                 (case increment_loop loop of
                    (True, loop') \<Rightarrow>
                      (Inr (), p\<lparr>loop_stack := loop' # ls, program_counter := loop_pc loop'\<rparr>)
                  | (False, _) \<Rightarrow>
                      (Inr (), p\<lparr>loop_stack := ls, program_counter := program_counter p + 1\<rparr>)))
          else (Inr (), p\<lparr>program_counter := program_counter p + 1\<rparr>))"

definition decrement_program :: "netlist_program \<Rightarrow> netlist_program" where
  "decrement_program p = p\<lparr>program_counter := program_counter p - 1\<rparr>"

section \<open>Declarations\<close>

definition check_declared :: "string \<Rightarrow> VARIABLE_TYPE \<Rightarrow> VARIABLE_TYPE list \<Rightarrow> program_error" where
  "check_declared name t masked = (if t \<in> set masked then MasksDeclaration name
     else UnsupportedVariableType name)"

definition declare_var :: "string \<times> int \<Rightarrow> (netlist_program, program_error, unit) opn" where
  "declare_var = (\<lambda>(name, v) p.
     if has_variable p name then
       (case get_variable_type p name of
          Inl e \<Rightarrow> (Inl e, p)
        | Inr t \<Rightarrow> (Inl (check_declared name t [LOCAL, PARAM, STATIC]), p))
     else set_variable name v LOCAL p)"

definition declare_static_var :: "string \<times> int \<Rightarrow> (netlist_program, program_error, unit) opn" where
  "declare_static_var = (\<lambda>(name, v) p.
     if \<not> has_variable p name then set_variable name v STATIC p
     else (case get_variable_type p name of
             Inl e \<Rightarrow> (Inl e, p)
           | Inr t \<Rightarrow> if t = STATIC then (Inr (), p)
                     else (Inl (check_declared name t [LOCAL, PARAM]), p)))"

definition declare_param :: "string \<times> int \<Rightarrow> (netlist_program, program_error, unit) opn" where
  "declare_param = (\<lambda>(name, _) p.
     if ignore_runtime_parameters p then set_variable name 1 PARAM p
     else if \<not> has_variable p name then
       (case parameters p name of
          Some imm \<Rightarrow>
            if is_immediate imm then
              (case get_immediate imm of
                 Some v \<Rightarrow> set_variable name v PARAM p
               | None \<Rightarrow> (Inl (InvalidImmediate imm), p))
            else (Inl (ParamNotImmediate name imm), p)
        | None \<Rightarrow> (Inl (ParamNotPassed name), p))
     else (case get_variable_type p name of
             Inl e \<Rightarrow> (Inl e, p)
           | Inr t \<Rightarrow> (Inl (check_declared name t [LOCAL, PARAM, STATIC]), p)))"

fun declare_all :: "('v \<Rightarrow> ('s, 'e, unit) opn) \<Rightarrow> 'v list \<Rightarrow> ('s, 'e, unit) opn" where
  "declare_all f [] = ret ()"
| "declare_all f (v # vs) = andThen (f v) (\<lambda>_. declare_all f vs)"

section \<open>Variable instructions\<close>

text \<open>
  A C++ \<open>int\<close> has 32 bits; a sum, product or remainder out of its range is undefined behaviour, an error
  of its own here.
\<close>

definition in_int :: "int \<Rightarrow> bool" where
  "in_int n \<longleftrightarrow> - (2 ^ 31) \<le> n \<and> n < 2 ^ 31"

definition int_result :: "int \<Rightarrow> program_error + int" where
  "int_result n = (if in_int n then Inr n else Inl IntOverflow)"

text \<open>The loop that makes the increment non-negative; it ends only if \<open>mod_wrap\<close> can or the offset overflows.\<close>

partial_function (option) wrap_offset :: "int \<Rightarrow> int \<Rightarrow> int \<Rightarrow> (program_error + int) option" where
  "wrap_offset increment mod_wrap offset =
     (if \<not> in_int (offset + increment) then Some (Inl IntOverflow)
      else if offset + increment < 0
      then if in_int (offset + mod_wrap) then wrap_offset increment mod_wrap (offset + mod_wrap) else Some (Inl IntOverflow)
      else Some (Inr offset))"

declare wrap_offset.simps [code]

text \<open>
  \<open>%\<close> by zero is undefined behaviour, an error of its own too, and so is the remainder by \<open>-1\<close> of the least
  number, whose quotient has no \<open>int\<close>.
\<close>

definition int_rem :: "int \<Rightarrow> int \<Rightarrow> program_error + int" where
  "int_rem a m = (if m = 0 then Inl DivisionByZero else if m = - 1 \<and> a = - (2 ^ 31) then Inl IntOverflow else Inr (a smod m))"

definition inc_wrap :: "int \<Rightarrow> int \<Rightarrow> int \<Rightarrow> (program_error + int) option" where
  "inc_wrap old_val increment mod_wrap =
     map_option (\<lambda>r. bind_sum r (\<lambda>offset. bind_sum (int_result (old_val + increment)) (\<lambda>a.
         bind_sum (int_result (a + offset)) (\<lambda>b. int_rem b mod_wrap))))
       (wrap_offset increment mod_wrap 0)"

definition var_nth :: "tt_instruction_info \<Rightarrow> nat \<Rightarrow> string" where
  "var_nth i n = fst (vars i ! n)"

definition value_of :: "netlist_program \<Rightarrow> tt_instruction_info \<Rightarrow> nat \<Rightarrow> program_error + int" where
  "value_of p i n = bind_sum (get_variable p (var_nth i n)) (\<lambda>v. Inr (var_value v))"

definition binary_value ::
  "(int \<Rightarrow> int \<Rightarrow> int) \<Rightarrow> netlist_program \<Rightarrow> tt_instruction_info \<Rightarrow> nat \<Rightarrow> nat \<Rightarrow> program_error + int" where
  "binary_value f p i m n = bind_sum (value_of p i m) (\<lambda>a. bind_sum (value_of p i n) (\<lambda>b. int_result (f a b)))"

definition require_vars :: "tt_instruction_info \<Rightarrow> nat \<Rightarrow> program_error + int \<Rightarrow> program_error + int" where
  "require_vars i n r = (if length (vars i) = n then r else Inl (VariableCount n))"

text \<open>The value a variable instruction assigns to its first variable; \<open>Inr None\<close> when it assigns none.\<close>

definition varinst_value ::
  "netlist_program \<Rightarrow> tt_instruction_info \<Rightarrow> (program_error + int option) option" where
  "varinst_value p i =
     map_option (\<lambda>r. bind_sum r (\<lambda>v. Inr (if varinst_opcode i = InvalidVarInst then None else Some v)))
       (case varinst_opcode i of
          Set \<Rightarrow> Some (require_vars i 2 (value_of p i 1))
        | Add \<Rightarrow> Some (require_vars i 3 (binary_value (+) p i 1 2))
        | Mul \<Rightarrow> Some (require_vars i 3 (binary_value (*) p i 1 2))
        | Inc \<Rightarrow> Some (require_vars i 2 (binary_value (+) p i 0 1))
        | IncWrap \<Rightarrow>
            if length (vars i) \<noteq> 3 then Some (Inl (VariableCount 3))
            else (case value_of p i 0 of
                Inl e \<Rightarrow> Some (Inl e)
              | Inr old_val \<Rightarrow> (case value_of p i 1 of
                  Inl e \<Rightarrow> Some (Inl e)
                | Inr increment \<Rightarrow> (case value_of p i 2 of
                    Inl e \<Rightarrow> Some (Inl e)
                  | Inr mod_wrap \<Rightarrow> inc_wrap old_val increment mod_wrap)))
        | InvalidVarInst \<Rightarrow> Some (Inr 0))"

definition run_varinst ::
  "tt_instruction_info \<Rightarrow> netlist_program \<Rightarrow> ((program_error + unit) \<times> netlist_program) option" where
  "run_varinst i p =
     map_option (\<lambda>r. case r of
         Inl e \<Rightarrow> (Inl e, p)
       | Inr None \<Rightarrow> (Inr (), p)
       | Inr (Some v) \<Rightarrow> set_variable (var_nth i 0) v INVALID p)
       (varinst_value p i)"

section \<open>The step\<close>

definition run_loop :: "tt_instruction_info \<Rightarrow> (netlist_program, program_error, unit) opn" where
  "run_loop i p =
     (case get_variable p (loop_count i) of
        Inl e \<Rightarrow> (Inl e, p)
      | Inr count \<Rightarrow>
          if var_value count < 1 then (Inl (LoopCountBelowOne (var_value count)), p)
          else (Inr (), p\<lparr>loop_stack :=
                  \<lparr>curr_iter = 0, last_iter = var_value count - 1, loop_pc = program_counter p + 1,
                   is_on_device_loop = False\<rparr> # loop_stack p\<rparr>))"

text \<open>The part of the step between the two callbacks, without \<open>Execute\<close>, which is a callback.\<close>

definition run_body ::
  "tt_instruction_info \<Rightarrow> netlist_program \<Rightarrow> ((program_error + unit) \<times> netlist_program) option" where
  "run_body i p =
     (case opcode i of
        Var \<Rightarrow> Some (declare_all declare_var (vars i) p)
      | StaticVar \<Rightarrow> Some (declare_all declare_static_var (vars i) p)
      | Param \<Rightarrow> Some (declare_all declare_param (vars i) p)
      | VarInst \<Rightarrow> run_varinst i p
      | Loop \<Rightarrow> Some (run_loop i p)
      | _ \<Rightarrow> Some (Inr (), p))"

type_synonym 'w callback = "(netlist_program \<times> 'w, program_error, unit) opn"

definition lift_program ::
  "((program_error + unit) \<times> netlist_program) \<Rightarrow> 'w \<Rightarrow> (program_error + unit) \<times> netlist_program \<times> 'w" where
  "lift_program r w = (fst r, snd r, w)"

definition run_optional :: "'w callback option \<Rightarrow> 'w callback" where
  "run_optional cb = (case cb of None \<Rightarrow> ret () | Some f \<Rightarrow> f)"

definition run_instruction_with_callbacks ::
  "'w callback option \<Rightarrow> 'w callback \<Rightarrow> 'w callback option \<Rightarrow> netlist_program \<times> 'w
     \<Rightarrow> ((program_error + unit) \<times> netlist_program \<times> 'w) option" where
  "run_instruction_with_callbacks pre execute post = (\<lambda>(p, w).
     (case get_current_instruction p of
        Inl e \<Rightarrow> Some (Inl e, p, w)
      | Inr instrn \<Rightarrow>
          if breakpoint p then Some (Inr (), p, w)
          else (case run_optional pre (p, w) of
              (Inl e, p1, w1) \<Rightarrow> Some (Inl e, p1, w1)
            | (Inr _, p1, w1) \<Rightarrow>
                Option.bind
                  (if opcode instrn = Execute then Some (execute (p1, w1))
                   else map_option (\<lambda>r. lift_program r w1) (run_body instrn p1))
                  (\<lambda>r. Some (andThen (\<lambda>_. r) (\<lambda>_. andThen (run_optional post)
                     (\<lambda>_ (p3, w3). lift_program (increment_program p3) w3)) (p1, w1))))))"

definition run_instruction_with_execute_callback ::
  "'w callback \<Rightarrow> netlist_program \<times> 'w \<Rightarrow> ((program_error + unit) \<times> netlist_program \<times> 'w) option" where
  "run_instruction_with_execute_callback execute = run_instruction_with_callbacks None execute None"

text \<open>
  The driver of \<open>Net2Pipe::get_program_trace\<close> (\<open>src/src/net2pipe/src/net2pipe.cpp\<close>) and of the runtime:
  instructions run until the current one is \<open>EndProgram\<close>.
\<close>

partial_function (option) run_until_done ::
  "'w callback \<Rightarrow> netlist_program \<times> 'w \<Rightarrow> ((program_error + unit) \<times> netlist_program \<times> 'w) option" where
  "run_until_done execute pw =
     (case done_program (fst pw) of
        Inl e \<Rightarrow> Some (Inl e, pw)
      | Inr finished \<Rightarrow>
          if finished then Some (Inr (), pw)
          else Option.bind (run_instruction_with_execute_callback execute pw)
            (\<lambda>(r, pw1). case r of Inl e \<Rightarrow> Some (Inl e, pw1) | Inr _ \<Rightarrow> run_until_done execute pw1))"

declare run_until_done.simps [code]

end
