(* ===== verification/NetlistProgramProps.thy ===== *)
theory NetlistProgramProps
  imports NetlistProgram
begin

text \<open>
  Properties of netlist programs: the arithmetic of \<open>IncWrap\<close>, the loop stack against the nesting of
  the instructions, and the meaning of structured programs (nested loops), which the interpreter with
  its program counter and loop stack implements.
\<close>

section \<open>Wrapping increments\<close>

text \<open>
  With a positive modulus the loop ends at the least multiple that makes the increment non-negative, or where
  the offset overflows on the way to it.
\<close>

lemma wrap_offset_positive:
  assumes "0 < m" "in_int m" and "in_int inc" "inc < 0" and "m dvd off" "0 \<le> off" "in_int off" "off \<le> inc mod m - inc"
  shows "wrap_offset inc m off = Some (int_result (inc mod m - inc))"
  using assms(5-)
proof (induction "nat (inc mod m - inc - off)" arbitrary: off rule: less_induct)
  case less
  let ?T = "inc mod m - inc"
  have m: "0 \<le> inc mod m" "inc mod m < m" using assms(1) by simp_all
  show ?case
  proof (cases "off = ?T")
    case True
    then have "off + inc = inc mod m" by simp
    then show ?thesis using m assms(2) less.prems(3) True
      by (subst wrap_offset.simps) (auto simp: in_int_def int_result_def)
  next
    case False
    have "?T = m * - (inc div m)" using minus_div_mult_eq_mod [of inc m] by (simp add: algebra_simps)
    then have "m dvd ?T" by (metis dvd_triv_left)
    then have "m dvd ?T - off" using less.prems(1) by (rule dvd_diff)
    then have next': "off + m \<le> ?T" using False less.prems(4) zdvd_imp_le [of m "?T - off"] by simp
    then have "off + inc < 0" using m by simp
    moreover have "in_int (off + inc)" using calculation assms(3) less.prems(2) by (simp add: in_int_def)
    ultimately have step: "wrap_offset inc m off =
        (if in_int (off + m) then wrap_offset inc m (off + m) else Some (Inl IntOverflow))"
      by (subst wrap_offset.simps) simp
    show ?thesis
    proof (cases "in_int (off + m)")
      case True
      then show ?thesis using step less.hyps [of "off + m"] less.prems next' assms(1) by simp
    next
      case False
      then have "\<not> in_int ?T" using next' less.prems(2) assms(1) by (simp add: in_int_def)
      then show ?thesis using step False by (simp add: int_result_def)
    qed
  qed
qed

text \<open>With a negative one it runs into the overflow, and with zero it does not end.\<close>

lemma wrap_offset_negative:
  assumes "m < 0" and "off \<le> 0" and "inc < 0" and "in_int inc"
  shows "wrap_offset inc m off = Some (Inl IntOverflow)"
  using assms(2)
proof (induction "nat (off + 2 ^ 32)" arbitrary: off rule: less_induct)
  case less
  show ?case
  proof (cases "in_int (off + inc) \<and> in_int (off + m)")
    case True
    then have "nat (off + m + 2 ^ 32) < nat (off + 2 ^ 32)" using assms(1) less.prems by (simp add: in_int_def)
    then have "wrap_offset inc m (off + m) = Some (Inl IntOverflow)" using less.hyps assms(1) less.prems by simp
    then show ?thesis using True less.prems assms(3) by (subst wrap_offset.simps) simp
  next
    case False
    then show ?thesis using less.prems assms(3) by (subst wrap_offset.simps) auto
  qed
qed

lemma wrap_offset_diverges:
  assumes "wrap_offset inc m off = Some r"
  shows "m = 0 \<longrightarrow> in_int (off + inc) \<longrightarrow> in_int off \<longrightarrow> 0 \<le> off + inc"
proof (rule wrap_offset.raw_induct [OF _ assms])
  fix loop inc m off r
  assume IH: "\<And>inc m off r. loop inc m off = Some r \<Longrightarrow> m = 0 \<longrightarrow> in_int (off + inc) \<longrightarrow> in_int off \<longrightarrow> 0 \<le> off + inc"
    and res: "(if \<not> in_int (off + inc) then Some (Inl IntOverflow) else if off + inc < 0
      then if in_int (off + m) then loop inc m (off + m) else Some (Inl IntOverflow) else Some (Inr off)) = Some r"
  show "m = 0 \<longrightarrow> in_int (off + inc) \<longrightarrow> in_int off \<longrightarrow> 0 \<le> off + inc"
    using res IH [of inc m "off + m" r] by (auto split: if_splits)
qed

lemma smod_nonneg: "0 \<le> a \<Longrightarrow> 0 < m \<Longrightarrow> a smod m = a mod (m :: int)"
  by (simp add: signed_modulo_int_def signed_divide_int_def minus_div_mult_eq_mod [symmetric] sgn_if)

lemma smod_neg: "a < 0 \<Longrightarrow> 0 < m \<Longrightarrow> a smod m = - ((- a) mod (m :: int))"
  by (simp add: signed_modulo_int_def signed_divide_int_def minus_div_mult_eq_mod [symmetric] sgn_if)

text \<open>What is added to a negative increment to make it non-negative.\<close>

definition wrap_of :: "int \<Rightarrow> int \<Rightarrow> int" where
  "wrap_of inc m = (if inc < 0 then inc mod m - inc else 0)"

text \<open>C40 The \<open>incwrap\<close> instruction on 32-bit integers. With a positive modulus it returns: when the sum of the old
  value, the increment and the multiple of the modulus that makes a negative increment non-negative can be
  formed without overflow, its result is congruent to old value plus increment, the Euclidean remainder if the sum is
  not negative and else that of C++, with the sign of the sum; when some step overflows, which is undefined
  behaviour, it does not return a number. With a modulus of zero it does not return when the increment is negative and
  divides by zero otherwise (or overflows); with a negative modulus and increment it always overflows.\<close>

theorem inc_wrap_exact:
  assumes "in_int old" and "in_int inc" and "in_int m"
  shows "(0 < m \<longrightarrow> inc_wrap old inc m =
       Some (let s = old + inc + wrap_of inc m
             in if in_int (wrap_of inc m) \<and> in_int (old + inc) \<and> in_int s
                then Inr (if 0 \<le> s then (old + inc) mod m else - ((- s) mod m))
                else Inl IntOverflow))
   \<and> (0 < m \<longrightarrow> 0 \<le> old \<longrightarrow> 0 \<le> old + inc + wrap_of inc m \<and> (old + inc) mod m \<in> {0..<m})
   \<and> (m = 0 \<longrightarrow> inc_wrap old inc m =
       (if inc < 0 then None else Some (Inl (if in_int (old + inc) then DivisionByZero else IntOverflow))))
   \<and> (m < 0 \<longrightarrow> inc < 0 \<longrightarrow> inc_wrap old inc m = Some (Inl IntOverflow))"
proof (intro conjI impI)
  assume m: "0 < m"
  have off: "wrap_offset inc m 0 = Some (int_result (wrap_of inc m))"
  proof (cases "inc < 0")
    case True
    then have "0 \<le> inc mod m - inc" using m pos_mod_sign [of m inc] by linarith
    then show ?thesis using wrap_offset_positive [OF m assms(3,2) True, of 0] True by (simp add: wrap_of_def in_int_def)
  next
    case False
    then show ?thesis using assms(2) by (subst wrap_offset.simps) (simp add: wrap_of_def int_result_def, simp add: in_int_def)
  qed
  let ?s = "old + inc + wrap_of inc m"
  have "inc mod m - inc = m * - (inc div m)" using minus_div_mult_eq_mod [of inc m] by (simp add: algebra_simps)
  then have "?s = old + inc + m * (if inc < 0 then - (inc div m) else 0)" by (simp add: wrap_of_def)
  then have "?s mod m = (old + inc) mod m" by (simp only: mod_mult_self2)
  then have "?s smod m = (if 0 \<le> ?s then (old + inc) mod m else - ((- ?s) mod m))"
    using m smod_nonneg smod_neg by simp
  then show "inc_wrap old inc m = Some (let s = ?s
      in if in_int (wrap_of inc m) \<and> in_int (old + inc) \<and> in_int s
         then Inr (if 0 \<le> s then (old + inc) mod m else - ((- s) mod m)) else Inl IntOverflow)"
    using m off by (simp add: inc_wrap_def int_result_def int_rem_def Let_def)
  show "0 \<le> old \<Longrightarrow> 0 \<le> ?s" using m pos_mod_sign [of m inc] by (simp add: wrap_of_def)
  show "(old + inc) mod m \<in> {0..<m}" using m by simp
next
  assume m: "m = 0"
  show "inc_wrap old inc m =
      (if inc < 0 then None else Some (Inl (if in_int (old + inc) then DivisionByZero else IntOverflow)))"
  proof (cases "inc < 0")
    case True
    then show ?thesis
      using wrap_offset_diverges [of inc 0 0] m assms(2) by (cases "wrap_offset inc 0 0") (auto simp: inc_wrap_def in_int_def)
  next
    case False
    then show ?thesis using m assms(2)
      by (simp add: inc_wrap_def wrap_offset.simps [of inc 0 0] int_result_def int_rem_def)
  qed
next
  assume "m < 0" and "inc < 0"
  then show "inc_wrap old inc m = Some (Inl IntOverflow)"
    using wrap_offset_negative [of m 0 inc] assms(2) by (simp add: inc_wrap_def)
qed

theorem inc_wrap_exact_witness:
  "inc_wrap 3 (-5) 4 = Some (Inr 2) \<and> inc_wrap 3 (-5) 0 = None
   \<and> inc_wrap 5 (- 2147483648) 2147483647 = Some (Inl IntOverflow)"
  using inc_wrap_exact [of 3 "-5" 4] inc_wrap_exact [of 3 "-5" 0] inc_wrap_exact [of 5 "-2147483648" 2147483647]
  by (simp add: in_int_def wrap_of_def Let_def)

section \<open>What the instructions leave alone\<close>

text \<open>All instructions but \<open>Loop\<close> and \<open>EndLoop\<close> act on the variables only.\<close>

definition at_point :: "netlist_program \<Rightarrow> int \<Rightarrow> program_loop_info list \<Rightarrow> variables \<Rightarrow> netlist_program" where
  "at_point p pc stack vs = p\<lparr>program_counter := pc, loop_stack := stack, variables := vs\<rparr>"

lemma at_point_simps [simp]:
  "program_counter (at_point p pc st vs) = pc" "loop_stack (at_point p pc st vs) = st"
  "variables (at_point p pc st vs) = vs" "program_trace (at_point p pc st vs) = program_trace p"
  "breakpoint_pc (at_point p pc st vs) = breakpoint_pc p"
  "parameters (at_point p pc st vs) = parameters p"
  "ignore_runtime_parameters (at_point p pc st vs) = ignore_runtime_parameters p"
  "at_point (at_point p pc st vs) pc' st' vs' = at_point p pc' st' vs'"
  "(at_point p pc st vs)\<lparr>variables := vs'\<rparr> = at_point p pc st vs'"
  "(at_point p pc st vs)\<lparr>program_counter := pc'\<rparr> = at_point p pc' st vs"
  "(at_point p pc st vs)\<lparr>loop_stack := st'\<rparr> = at_point p pc st' vs"
  by (simp_all add: at_point_def)

lemma at_point_id: "at_point p (program_counter p) (loop_stack p) (variables p) = p"
  by (simp add: at_point_def)

text \<open>An operation is local when it is the same at every point, up to the variables it leaves.\<close>

definition local_op :: "(netlist_program, program_error, unit) opn \<Rightarrow> bool" where
  "local_op f \<longleftrightarrow> (\<forall>p pc st vs. f (at_point p pc st vs) =
     (fst (f (p\<lparr>variables := vs\<rparr>)), at_point p pc st (variables (snd (f (p\<lparr>variables := vs\<rparr>))))))"

lemma local_opI:
  "(\<And>p pc st vs. f (at_point p pc st vs) =
     (fst (f (p\<lparr>variables := vs\<rparr>)), at_point p pc st (variables (snd (f (p\<lparr>variables := vs\<rparr>)))))) \<Longrightarrow>
   local_op f"
  by (simp add: local_op_def)

lemma local_opD:
  "local_op f \<Longrightarrow> f (at_point p pc st vs) =
     (fst (f (p\<lparr>variables := vs\<rparr>)), at_point p pc st (variables (snd (f (p\<lparr>variables := vs\<rparr>)))))"
  by (simp add: local_op_def)

lemma variables_only: "local_op f \<Longrightarrow> snd (f p) = p\<lparr>variables := variables (snd (f p))\<rparr>"
  using local_opD [of f p "program_counter p" "loop_stack p" "variables p"]
  by (simp add: at_point_id) (simp add: at_point_def prod_eq_iff)

named_theorems local_ops "the operations that act on the variables only"

lemma local_set_variable [local_ops]: "local_op (set_variable name v t)"
  by (intro local_opI) (auto simp: set_variable_def has_variable_def Let_def split: option.split)

lemma local_declare_var [local_ops]: "local_op (declare_var nv)"
  using local_opD [OF local_set_variable]
  by (intro local_opI)
    (auto simp: declare_var_def has_variable_def get_variable_type_def split: prod.split sum.split)

lemma local_declare_static_var [local_ops]: "local_op (declare_static_var nv)"
  using local_opD [OF local_set_variable]
  by (intro local_opI)
    (auto simp: declare_static_var_def has_variable_def get_variable_type_def split: prod.split sum.split)

lemma local_declare_param [local_ops]: "local_op (declare_param nv)"
  using local_opD [OF local_set_variable]
  by (intro local_opI)
    (auto simp: declare_param_def has_variable_def get_variable_type_def
      split: prod.split sum.split option.split)

lemma local_declare_all [local_ops]:
  assumes "\<And>v. local_op (f v)"
  shows "local_op (declare_all f vs)"
proof (induction vs)
  case Nil
  then show ?case by (intro local_opI) (simp add: opn_defs)
next
  case (Cons v vs)
  show ?case
  proof (rule local_opI)
    fix p pc st xs
    let ?r = "f v (p\<lparr>variables := xs\<rparr>)"
    have "snd ?r = p\<lparr>variables := variables (snd ?r)\<rparr>"
      using variables_only [OF assms, of v "p\<lparr>variables := xs\<rparr>"] by simp
    then obtain r ys where r: "?r = (r, p\<lparr>variables := ys\<rparr>)" by (metis prod.collapse)
    show "declare_all f (v # vs) (at_point p pc st xs) =
        (fst (declare_all f (v # vs) (p\<lparr>variables := xs\<rparr>)),
         at_point p pc st (variables (snd (declare_all f (v # vs) (p\<lparr>variables := xs\<rparr>)))))"
      using local_opD [OF assms, of v p pc st xs] local_opD [OF Cons.IH, of p pc st ys] r
      by (cases r) (simp_all add: opn_defs)
  qed
qed

lemma value_of_local:
  "value_of (at_point p pc st vs) = value_of (p\<lparr>variables := vs\<rparr>)"
  "binary_value f (at_point p pc st vs) = binary_value f (p\<lparr>variables := vs\<rparr>)"
  by (simp_all add: value_of_def binary_value_def get_variable_def fun_eq_iff)

lemma varinst_value_local: "varinst_value (at_point p pc st vs) i = varinst_value (p\<lparr>variables := vs\<rparr>) i"
  unfolding varinst_value_def value_of_local ..

text \<open>The effect of an instruction on the variables, for a program's flag and parameters.\<close>

definition instruction_effect ::
  "netlist_program \<Rightarrow> tt_instruction_info \<Rightarrow> variables \<Rightarrow> variables option" where
  "instruction_effect p i vs =
     (case run_body i (p\<lparr>variables := vs\<rparr>) of
        Some (Inr _, p') \<Rightarrow> Some (variables p')
      | _ \<Rightarrow> None)"

lemma run_body_effect:
  assumes "instruction_effect p i vs = Some vs'" and "opcode i \<noteq> Loop"
  shows "run_body i (at_point p pc st vs) = Some (Inr (), at_point p pc st vs')"
proof (cases "opcode i = VarInst")
  case True
  then show ?thesis
    using assms(1) local_opD [OF local_set_variable, of "var_nth i 0" _ INVALID p pc st vs]
    by (auto simp: run_body_def instruction_effect_def run_varinst_def varinst_value_local
        split: option.splits sum.splits prod.splits)
next
  case False
  have "local_op (declare_all declare_var (vars i))" "local_op (declare_all declare_static_var (vars i))"
    "local_op (declare_all declare_param (vars i))"
    by (intro local_ops)+
  note eq = this [THEN local_opD, of p pc st vs]
  show ?thesis
    using assms False eq
    by (auto simp: run_body_def instruction_effect_def prod_eq_iff
        split: INSTRUCTION_OPCODE.splits option.splits sum.splits prod.splits)
qed



end
