(* ===== verification/NetlistStructured.thy ===== *)
theory NetlistStructured
  imports NetlistProgramProps
begin

text \<open>
  Structured netlist programs: statements with nested loops, the instructions they are written as, and
  their meaning by recursion on the structure. The interpreter, with its program counter and its loop
  stack, runs the instructions to their end with that meaning.
\<close>

section \<open>Statements\<close>

datatype statement = Basic tt_instruction_info | Repeat string "statement list"

definition plain_instruction :: "INSTRUCTION_OPCODE \<Rightarrow> tt_instruction_info" where
  "plain_instruction op' = \<lparr>opcode = op', graph_name = ''not applicable'',
     varinst_opcode = InvalidVarInst, loop_count = '''', vars = [], queue_settings = [],
     is_declaration = False\<rparr>"

fun instructions :: "statement \<Rightarrow> tt_instruction_info list" where
  "instructions (Basic i) = [i]"
| "instructions (Repeat count body) =
     (plain_instruction Loop)\<lparr>loop_count := count\<rparr> # concat (map instructions body)
       @ [plain_instruction EndLoop]"

fun basic_only :: "statement \<Rightarrow> bool" where
  "basic_only (Basic i) \<longleftrightarrow> opcode i \<notin> {Loop, EndLoop, EndProgram}"
| "basic_only (Repeat _ body) \<longleftrightarrow> list_all basic_only body"

section \<open>Meaning\<close>

text \<open>
  An observer of executed graphs, a callback that leaves the program alone. The meaning acts on the
  variables and on the state of the observer; \<open>None\<close> is a fatal error or a step that does not return.
\<close>

type_synonym 'w observer = "tt_instruction_info \<Rightarrow> variables \<Rightarrow> 'w \<Rightarrow> 'w"

definition observe :: "'w observer \<Rightarrow> 'w callback" where
  "observe f = (\<lambda>(p, w). case get_current_instruction p of
     Inl e \<Rightarrow> (Inl e, p, w) | Inr i \<Rightarrow> (Inr (), p, f i (variables p) w))"

definition basic_meaning ::
  "netlist_program \<Rightarrow> 'w observer \<Rightarrow> tt_instruction_info \<Rightarrow> variables \<times> 'w \<Rightarrow> (variables \<times> 'w) option" where
  "basic_meaning p f i = (\<lambda>(vs, w).
     if opcode i = Execute then Some (vs, f i vs w)
     else map_option (\<lambda>vs'. (vs', w)) (instruction_effect p i vs))"

definition repetitions :: "string \<Rightarrow> variables \<Rightarrow> nat option" where
  "repetitions count vs =
     (case get_variable_from_map count vs '''' of
        Inl _ \<Rightarrow> None
      | Inr v \<Rightarrow> if var_value v < 1 then None else Some (nat (var_value v)))"

fun iterate :: "nat \<Rightarrow> ('a \<Rightarrow> 'a option) \<Rightarrow> 'a \<Rightarrow> 'a option" where
  "iterate 0 f a = Some a"
| "iterate (Suc n) f a = Option.bind (f a) (iterate n f)"

fun in_sequence :: "('a \<Rightarrow> 'a option) list \<Rightarrow> 'a \<Rightarrow> 'a option" where
  "in_sequence [] a = Some a"
| "in_sequence (f # fs) a = Option.bind (f a) (in_sequence fs)"

primrec meaning :: "netlist_program \<Rightarrow> 'w observer \<Rightarrow> statement \<Rightarrow> variables \<times> 'w \<Rightarrow> (variables \<times> 'w) option" where
  "meaning p f (Basic i) = basic_meaning p f i"
| "meaning p f (Repeat count body) = (\<lambda>(vs, w).
     case repetitions count vs of
       None \<Rightarrow> None
     | Some n \<Rightarrow> iterate n (in_sequence (map (meaning p f) body)) (vs, w))"

definition program_meaning ::
  "netlist_program \<Rightarrow> 'w observer \<Rightarrow> statement list \<Rightarrow> variables \<times> 'w \<Rightarrow> (variables \<times> 'w) option" where
  "program_meaning p f body = in_sequence (map (meaning p f) body)"

section \<open>Steps of the interpreter\<close>

text \<open>A program whose counters fit: at \<open>pc\<close>, inside the trace.\<close>

definition runnable :: "netlist_program \<Rightarrow> bool" where
  "runnable p \<longleftrightarrow> length (program_trace p) < 2 ^ 31 \<and> breakpoint_pc p < 0"

lemma current_instruction:
  assumes "runnable p" and "pc < length (program_trace p)"
  shows "get_current_instruction (at_point p (int pc) st vs) = Inr (program_trace p ! pc)"
proof -
  have "pc < 2 ^ 32" using assms by (simp add: runnable_def)
  then have "unat (word_of_nat pc :: u32) = pc" by (simp add: unat_of_nat)
  then have "unat (word_of_int (int pc) :: u32) = pc" by simp
  then show ?thesis using assms(2) by (simp add: get_current_instruction_def Let_def)
qed

lemma not_breakpoint: "runnable p \<Longrightarrow> \<not> breakpoint (at_point p (int pc) st vs)"
  by (simp add: breakpoint_def runnable_def)

abbreviation run :: "'w observer \<Rightarrow> netlist_program \<Rightarrow> nat \<Rightarrow> program_loop_info list \<Rightarrow> variables \<times> 'w \<Rightarrow>
    ((program_error + unit) \<times> netlist_program \<times> 'w) option" where
  "run f p pc st a \<equiv> run_until_done (observe f) (at_point p (int pc) st (fst a), snd a)"

lemma run_at_end:
  assumes "runnable p" and "pc < length (program_trace p)" and "opcode (program_trace p ! pc) = EndProgram"
  shows "run f p pc st a = Some (Inr (), at_point p (int pc) st (fst a), snd a)"
  using assms
  by (subst run_until_done.simps) (simp add: done_program_def current_instruction)

lemma run_basic:
  assumes "runnable p" and "pc < length (program_trace p)" and "program_trace p ! pc = i"
    and "basic_only (Basic i)" and "basic_meaning p f i a = Some b"
  shows "run f p pc st a = run f p (Suc pc) st b"
proof -
  let ?i = "program_trace p ! pc"
  obtain vs w vs' w' where ab: "a = (vs, w)" "b = (vs', w')" by (metis surj_pair)
  have next': "increment_program (at_point p (int pc) st xs) = (Inr (), at_point p (int (Suc pc)) st xs)" for xs
    using assms by (auto simp: increment_program_def current_instruction add.commute)
  have "run_instruction_with_execute_callback (observe f) (at_point p (int pc) st vs, w)
      = Some (Inr (), at_point p (int (Suc pc)) st vs', w')"
    using assms ab next' run_body_effect [of p ?i vs vs' "int pc" st]
    by (auto simp: run_instruction_with_execute_callback_def run_instruction_with_callbacks_def
        current_instruction not_breakpoint run_optional_def opn_defs observe_def basic_meaning_def
        lift_program_def split: if_splits option.splits)
  then show ?thesis
    using assms ab by (subst run_until_done.simps) (simp add: done_program_def current_instruction)
qed

definition loop_info :: "nat \<Rightarrow> nat \<Rightarrow> nat \<Rightarrow> program_loop_info" where
  "loop_info k n pc = \<lparr>curr_iter = int k, last_iter = int n - 1, loop_pc = int pc,
     is_on_device_loop = False\<rparr>"

lemma run_loop_entry:
  assumes "runnable p" and "pc < length (program_trace p)" and "opcode (program_trace p ! pc) = Loop"
    and "repetitions (loop_count (program_trace p ! pc)) (fst a) = Some n"
  shows "run f p pc st a = run f p (Suc pc) (loop_info 0 n (Suc pc) # st) a"
proof -
  let ?i = "program_trace p ! pc"
  let ?st = "loop_info 0 n (Suc pc) # st"
  have next': "increment_program (at_point p (int pc) xs vs) = (Inr (), at_point p (int (Suc pc)) xs vs)" for xs vs
    using assms by (auto simp: increment_program_def current_instruction add.commute)
  have "run_loop ?i (at_point p (int pc) st (fst a)) = (Inr (), at_point p (int pc) ?st (fst a))"
    using assms(4)
    by (auto simp: run_loop_def get_variable_def repetitions_def loop_info_def add.commute
        split: sum.splits if_splits)
  then have "run_instruction_with_execute_callback (observe f) (at_point p (int pc) st (fst a), snd a)
      = Some (Inr (), at_point p (int (Suc pc)) ?st (fst a), snd a)"
    using assms(1-3) next'
    by (simp add: run_instruction_with_execute_callback_def run_instruction_with_callbacks_def
        current_instruction not_breakpoint run_optional_def opn_defs lift_program_def run_body_def)
  then show ?thesis
    using assms(1-3) by (subst run_until_done.simps) (simp add: done_program_def current_instruction)
qed

lemma run_loop_end:
  assumes "runnable p" and "pc < length (program_trace p)" and "opcode (program_trace p ! pc) = EndLoop"
    and "k < n"
  shows "run f p pc (loop_info k n start # st) a =
    (if Suc k < n then run f p start (loop_info (Suc k) n start # st) a else run f p (Suc pc) st a)"
proof -
  have "increment_program (at_point p (int pc) (loop_info k n start # st) (fst a)) =
      (Inr (), if Suc k < n then at_point p (int start) (loop_info (Suc k) n start # st) (fst a)
               else at_point p (int (Suc pc)) st (fst a))"
    using assms by (auto simp: increment_program_def current_instruction increment_loop_def loop_info_def add.commute)
  then have "run_instruction_with_execute_callback (observe f)
      (at_point p (int pc) (loop_info k n start # st) (fst a), snd a)
    = Some (Inr (), if Suc k < n then at_point p (int start) (loop_info (Suc k) n start # st) (fst a)
               else at_point p (int (Suc pc)) st (fst a), snd a)"
    using assms(1-3)
    by (simp add: run_instruction_with_execute_callback_def run_instruction_with_callbacks_def
        current_instruction not_breakpoint run_optional_def opn_defs lift_program_def run_body_def)
  then show ?thesis
    using assms(1-3) by (subst run_until_done.simps) (simp add: done_program_def current_instruction)
qed

section \<open>Running a statement\<close>

text \<open>The instructions at a position of the trace.\<close>

definition code_at :: "netlist_program \<Rightarrow> nat \<Rightarrow> tt_instruction_info list \<Rightarrow> bool" where
  "code_at p pc is \<longleftrightarrow> (\<exists>rest. drop pc (program_trace p) = is @ rest)"

lemma code_at_append: "code_at p pc (xs @ ys) \<longleftrightarrow> code_at p pc xs \<and> code_at p (pc + length xs) ys"
proof
  assume "code_at p pc (xs @ ys)"
  then obtain rest where "drop pc (program_trace p) = xs @ ys @ rest" by (auto simp: code_at_def)
  then show "code_at p pc xs \<and> code_at p (pc + length xs) ys"
    unfolding code_at_def by (metis add.commute append_eq_conv_conj drop_drop)
next
  assume "code_at p pc xs \<and> code_at p (pc + length xs) ys"
  then obtain r s where "drop pc (program_trace p) = xs @ r" "drop (pc + length xs) (program_trace p) = ys @ s"
    by (auto simp: code_at_def)
  then show "code_at p pc (xs @ ys)"
    unfolding code_at_def by (metis add.commute append.assoc append_eq_conv_conj drop_drop)
qed

lemma code_at_Cons: "code_at p pc (i # is) \<longleftrightarrow>
    pc < length (program_trace p) \<and> program_trace p ! pc = i \<and> code_at p (Suc pc) is"
proof
  assume "code_at p pc (i # is)"
  then obtain rest where d: "drop pc (program_trace p) = i # is @ rest" by (auto simp: code_at_def)
  then have "pc < length (program_trace p)" by (metis drop_eq_Nil list.discI not_le)
  with d show "pc < length (program_trace p) \<and> program_trace p ! pc = i \<and> code_at p (Suc pc) is"
    unfolding code_at_def by (metis Cons_nth_drop_Suc list.inject)
next
  assume "pc < length (program_trace p) \<and> program_trace p ! pc = i \<and> code_at p (Suc pc) is"
  then show "code_at p pc (i # is)"
    unfolding code_at_def by (metis Cons_nth_drop_Suc append_Cons)
qed

definition runs_as ::
  "netlist_program \<Rightarrow> 'w observer \<Rightarrow> tt_instruction_info list \<Rightarrow> (variables \<times> 'w \<Rightarrow> (variables \<times> 'w) option) \<Rightarrow> bool" where
  "runs_as p f is g \<longleftrightarrow> (\<forall>pc st a b. code_at p pc is \<longrightarrow> g a = Some b \<longrightarrow>
     run f p pc st a = run f p (pc + length is) st b)"

lemma runs_asI:
  "(\<And>pc st a b. code_at p pc is \<Longrightarrow> g a = Some b \<Longrightarrow> run f p pc st a = run f p (pc + length is) st b) \<Longrightarrow>
   runs_as p f is g"
  by (auto simp: runs_as_def)

lemma runs_asD:
  "runs_as p f is g \<Longrightarrow> code_at p pc is \<Longrightarrow> g a = Some b \<Longrightarrow> run f p pc st a = run f p (pc + length is) st b"
  by (auto simp: runs_as_def)

lemma runs_in_sequence:
  assumes "list_all (\<lambda>s. runs_as p f (instructions s) (g s)) ss"
  shows "runs_as p f (concat (map instructions ss)) (in_sequence (map g ss))"
  using assms
proof (induction ss)
  case Nil
  then show ?case by (simp add: runs_as_def)
next
  case (Cons s ss)
  show ?case
  proof (rule runs_asI)
    fix pc st a b
    assume code: "code_at p pc (concat (map instructions (s # ss)))"
      and "in_sequence (map g (s # ss)) a = Some b"
    then obtain c where "g s a = Some c" "in_sequence (map g ss) c = Some b"
      by (auto simp: bind_eq_Some_conv)
    then show "run f p pc st a = run f p (pc + length (concat (map instructions (s # ss)))) st b"
      using code Cons runs_asD [of p f "instructions s" "g s" pc a c st]
        runs_asD [of p f "concat (map instructions ss)" "in_sequence (map g ss)" "pc + length (instructions s)" c b st]
      by (simp add: code_at_append add.assoc)
  qed
qed

lemma runs_iterations:
  assumes run: "runnable p" and body: "runs_as p f is g" and code: "code_at p start is"
    and last: "start + length is < length (program_trace p)"
      "opcode (program_trace p ! (start + length is)) = EndLoop"
    and "m < n" and "iterate (Suc m) g a = Some b"
  shows "run f p start (loop_info (n - Suc m) n start # st) a = run f p (Suc (start + length is)) st b"
  using assms(6,7)
proof (induction m arbitrary: a)
  case 0
  then have "g a = Some b" by (cases "g a") simp_all
  then show ?case
    using runs_asD [OF body code, of a b] run_loop_end [OF run last, of "n - 1" n] 0 by simp
next
  case (Suc m)
  then obtain c where c: "g a = Some c" "iterate (Suc m) g c = Some b" by (auto simp: bind_eq_Some_conv)
  have *: "Suc (n - Suc (Suc m)) = n - Suc m" "n - Suc (Suc m) < n" "n - Suc m < n" using Suc.prems(1) by simp_all
  have "run f p start (loop_info (n - Suc (Suc m)) n start # st) a
      = run f p (start + length is) (loop_info (n - Suc (Suc m)) n start # st) c"
    by (rule runs_asD [OF body code c(1)])
  also have "\<dots> = run f p start (loop_info (n - Suc m) n start # st) c"
    using run_loop_end [OF run last *(2), of f start st c] * by simp
  also have "\<dots> = run f p (Suc (start + length is)) st b"
    using Suc.IH [OF _ c(2)] Suc.prems(1) by simp
  finally show ?case .
qed

lemma statement_runs:
  assumes "runnable p" and "basic_only s"
  shows "runs_as p f (instructions s) (meaning p f s)"
  using assms(2)
proof (induction s)
  case (Basic i)
  show ?case
  proof (rule runs_asI)
    fix pc st a b
    assume "code_at p pc (instructions (Basic i))" and "meaning p f (Basic i) a = Some b"
    then show "run f p pc st a = run f p (pc + length (instructions (Basic i))) st b"
      using run_basic [OF assms(1), of pc i f a b st] Basic by (simp add: code_at_Cons)
  qed
next
  case (Repeat count body)
  let ?is = "concat (map instructions body)" and ?g = "in_sequence (map (meaning p f) body)"
  have body: "runs_as p f ?is ?g"
    using Repeat by (intro runs_in_sequence) (auto simp: list_all_iff)
  show ?case
  proof (rule runs_asI)
    fix pc st a b
    assume code: "code_at p pc (instructions (Repeat count body))"
      and m: "meaning p f (Repeat count body) a = Some b"
    obtain n where n: "repetitions count (fst a) = Some n" "iterate n ?g a = Some b"
      using m by (auto split: option.splits prod.splits)
    then obtain k where k: "n = Suc k" by (cases n) (auto simp: repetitions_def split: sum.splits if_splits)
    have *: "pc < length (program_trace p)" "opcode (program_trace p ! pc) = Loop"
      "loop_count (program_trace p ! pc) = count" "code_at p (Suc pc) ?is"
      "Suc pc + length ?is < length (program_trace p)"
      "opcode (program_trace p ! (Suc pc + length ?is)) = EndLoop"
      using code by (auto simp: code_at_Cons code_at_append plain_instruction_def)
    show "run f p pc st a = run f p (pc + length (instructions (Repeat count body))) st b"
      using run_loop_entry [OF assms(1) *(1,2), of a n f st] *(3) n k
        runs_iterations [OF assms(1) body *(4-6), of k n a b st] by simp
  qed
qed

text \<open>C3 The interpreter implements structured programs. When a list of statements (instructions and
  nested loops with variable or constant counts) has a meaning on the variables of the program and the
  state of the caller, the interpreter, started at the beginning of its instructions, terminates at
  \<open>EndProgram\<close> without an error, with an empty loop stack, the variables and the caller's state of that
  meaning.\<close>

theorem structured_programs_run:
  assumes "runnable p" and "list_all basic_only body"
    and "program_trace p = concat (map instructions body) @ [plain_instruction EndProgram]"
    and "program_counter p = PC_START" and "loop_stack p = []"
    and "program_meaning p f body (variables p, w) = Some (vs', w')"
  shows "run_until_done (observe f) (p, w) =
    Some (Inr (), p\<lparr>program_counter := int (length (concat (map instructions body))), variables := vs'\<rparr>, w')"
proof -
  let ?is = "concat (map instructions body)"
  have "runs_as p f ?is (program_meaning p f body)"
    unfolding program_meaning_def
    using assms(1,2) by (intro runs_in_sequence) (auto simp: list_all_iff intro: statement_runs)
  from runs_asD [OF this _ assms(6), of 0 "[]"]
  have "run f p 0 [] (variables p, w) = run f p (length ?is) [] (vs', w')"
    using assms(3) by (simp add: code_at_def)
  also have "\<dots> = Some (Inr (), at_point p (int (length ?is)) [] vs', w')"
    using run_at_end [OF assms(1), of "length ?is" f "[]" "(vs', w')"] assms(3)
    by (simp add: plain_instruction_def)
  moreover have "at_point p 0 [] (variables p) = p"
    using at_point_id [of p] assms(4,5) by (simp add: PC_START_def)
  moreover have "at_point p pc [] vs' = p\<lparr>program_counter := pc, variables := vs'\<rparr>" for pc
    using assms(5) by (simp add: at_point_def)
  ultimately show ?thesis by simp
qed

section \<open>A program with nested loops\<close>

definition sample_body :: "statement list" where
  "sample_body =
     [Basic ((plain_instruction Var)\<lparr>vars := [(''$i'', 0), (''$n'', 2)]\<rparr>),
      Repeat ''$n''
        [Basic ((plain_instruction Execute)\<lparr>graph_name := ''fwd''\<rparr>),
         Repeat ''3'' [Basic ((plain_instruction Execute)\<lparr>graph_name := ''bwd''\<rparr>)],
         Basic ((plain_instruction VarInst)\<lparr>varinst_opcode := Inc, vars := [(''$i'', 0), (''4'', 0)]\<rparr>)],
      Basic ((plain_instruction Execute)\<lparr>graph_name := ''opt''\<rparr>)]"

definition sample_program :: netlist_program where
  "sample_program = new_netlist_program ''p''
     (concat (map instructions sample_body) @ [plain_instruction EndProgram])"

definition record_graph :: "string list observer" where
  "record_graph i vs w = w @ [graph_name i]"

lemma numerals_as_immediates:
  "get_variable_from_map ''3'' vs '''' = Inr \<lparr>var_type = LOCAL, var_value = 3\<rparr>"
  "get_variable_from_map ''4'' vs '''' = Inr \<lparr>var_type = LOCAL, var_value = 4\<rparr>"
  by code_simp+

lemma names_as_variables:
  "get_variable_from_map ''$n'' vs '''' =
     (case vs ''n'' of Some v \<Rightarrow> Inr v | None \<Rightarrow> Inl (UninitializedVariable ''$n''))"
  "get_variable_from_map ''$i'' vs '''' =
     (case vs ''i'' of Some v \<Rightarrow> Inr v | None \<Rightarrow> Inl (UninitializedVariable ''$i''))"
  by (simp_all add: get_variable_from_map_def is_immediate_def is_variable_def get_variable_name_def)

lemma sample_meaning:
  "program_meaning sample_program record_graph sample_body (Map.empty, []) =
     Some ([''i'' \<mapsto> \<lparr>var_type = LOCAL, var_value = 8\<rparr>, ''n'' \<mapsto> \<lparr>var_type = LOCAL, var_value = 2\<rparr>],
       [''fwd'', ''bwd'', ''bwd'', ''bwd'', ''fwd'', ''bwd'', ''bwd'', ''bwd'', ''opt''])"
proof -
  note instrs = plain_instruction_def basic_meaning_def instruction_effect_def run_body_def
    declare_var_def set_variable_def has_variable_def is_variable_def is_immediate_def
    get_variable_name_def opn_defs run_varinst_def varinst_value_def var_nth_def value_of_def
    binary_value_def int_result_def in_int_def require_vars_def get_variable_def record_graph_def repetitions_def
  show ?thesis
    unfolding program_meaning_def sample_body_def
    by (simp add: instrs numerals_as_immediates names_as_variables numeral_eq_Suc fun_eq_iff)
qed

theorem structured_programs_run_witness:
  "run_until_done (observe record_graph) (sample_program, []) =
     Some (Inr (),
       sample_program\<lparr>program_counter := 9,
         variables := [''i'' \<mapsto> \<lparr>var_type = LOCAL, var_value = 8\<rparr>, ''n'' \<mapsto> \<lparr>var_type = LOCAL, var_value = 2\<rparr>]\<rparr>,
       [''fwd'', ''bwd'', ''bwd'', ''bwd'', ''fwd'', ''bwd'', ''bwd'', ''bwd'', ''opt''])"
proof -
  have *: "runnable sample_program" "list_all basic_only sample_body"
    "length (concat (map instructions sample_body)) = 9"
    by (simp_all add: sample_program_def new_netlist_program_def runnable_def PC_INVALID_def
        sample_body_def plain_instruction_def)
  show ?thesis
    using structured_programs_run [OF *(1,2), of record_graph "[]"] sample_meaning *(3)
    by (simp add: sample_program_def new_netlist_program_def)
qed

end
