(* ===== verification/NetlistInvariants.thy ===== *)
theory NetlistInvariants
  imports NetlistProgramProps
begin

text \<open>
  The reachable states of the interpreter of netlist programs and their invariant: the loop stack
  mirrors the nesting of the instructions. With the static check of the constants of a program
  (\<open>assert_constants_not_modified_in_programs\<close> of \<open>src/netlist/netlist_workload_data.cpp\<close>) and what the
  check guarantees at run time.
\<close>

section \<open>Reachable states\<close>

inductive reaches :: "'w callback \<Rightarrow> netlist_program \<times> 'w \<Rightarrow> netlist_program \<times> 'w \<Rightarrow> bool"
  for execute :: "'w callback" where
  reaches_refl: "reaches execute s s"
| reaches_step: "reaches execute s t \<Longrightarrow>
    run_instruction_with_execute_callback execute t = Some (Inr (), u) \<Longrightarrow> reaches execute s u"

inductive_cases reaches_cases: "reaches execute s t"

text \<open>A callback may set the on-device flag of the current loop and variables, not the control state.\<close>

definition control :: "netlist_program \<Rightarrow> int \<times> (int \<times> int \<times> int) list \<times> tt_instruction_info list" where
  "control p = (program_counter p, map (\<lambda>l. (curr_iter l, last_iter l, loop_pc l)) (loop_stack p),
     program_trace p)"

definition keeps_control :: "'w callback \<Rightarrow> bool" where
  "keeps_control execute \<longleftrightarrow> (\<forall>p w. control (fst (snd (execute (p, w)))) = control p)"

section \<open>Nesting\<close>

definition nesting :: "tt_instruction_info \<Rightarrow> int" where
  "nesting i = (if opcode i = Loop then 1 else if opcode i = EndLoop then - 1 else 0)"

definition nest_depth :: "tt_instruction_info list \<Rightarrow> nat \<Rightarrow> int" where
  "nest_depth trace pc = sum_list (map nesting (take pc trace))"

lemma nest_depth_Suc: "pc < length trace \<Longrightarrow> nest_depth trace (Suc pc) = nest_depth trace pc + nesting (trace ! pc)"
  by (simp add: nest_depth_def take_Suc_conv_app_nth)

fun stack_ok :: "tt_instruction_info list \<Rightarrow> (int \<times> int \<times> int) list \<Rightarrow> bool" where
  "stack_ok trace [] \<longleftrightarrow> True"
| "stack_ok trace ((iter, final, pc) # ls) \<longleftrightarrow>
     0 \<le> iter \<and> iter \<le> final \<and> 0 < pc \<and> nat pc \<le> length trace
     \<and> opcode (trace ! (nat pc - 1)) = Loop \<and> nest_depth trace (nat pc) = int (length ls) + 1
     \<and> stack_ok trace ls"

definition control_ok :: "int \<times> (int \<times> int \<times> int) list \<times> tt_instruction_info list \<Rightarrow> bool" where
  "control_ok = (\<lambda>(pc, ls, trace). length trace < 2 ^ 31 \<and> 0 \<le> pc \<and> nat pc \<le> length trace
     \<and> nest_depth trace (nat pc) = int (length ls) \<and> stack_ok trace ls)"

lemma current_instruction_in_range:
  assumes "0 \<le> program_counter p" and "nat (program_counter p) \<le> length (program_trace p)"
    and "length (program_trace p) < 2 ^ 31" and "get_current_instruction p = Inr i"
  shows "nat (program_counter p) < length (program_trace p)"
    and "i = program_trace p ! nat (program_counter p)"
proof -
  have "nat (program_counter p) < 2 ^ 32" using assms(2,3) by simp
  then have "unat (word_of_nat (nat (program_counter p)) :: u32) = nat (program_counter p)"
    by (simp add: unat_of_nat)
  moreover have "(word_of_nat (nat (program_counter p)) :: u32) = word_of_int (program_counter p)"
    using assms(1) by (metis nat_0_le of_int_of_nat_eq)
  ultimately have *: "unat (word_of_int (program_counter p) :: u32) = nat (program_counter p)" by simp
  show "nat (program_counter p) < length (program_trace p)"
    and "i = program_trace p ! nat (program_counter p)"
    using assms(4) by (auto simp: get_current_instruction_def Let_def * split: if_splits)
qed

text \<open>The two steps that change the stack.\<close>

lemma increment_control:
  assumes ok: "control_ok (control p)" and step: "increment_program p = (Inr (), q)"
    and not_loop: "opcode (program_trace p ! nat (program_counter p)) \<noteq> Loop"
  shows "control_ok (control q)"
proof -
  let ?pc = "nat (program_counter p)" and ?t = "program_trace p"
  from ok have range: "length ?t < 2 ^ 31" "0 \<le> program_counter p" "?pc \<le> length ?t"
    and depth: "nest_depth ?t ?pc = int (length (loop_stack p))"
    and stack: "stack_ok ?t (map (\<lambda>l. (curr_iter l, last_iter l, loop_pc l)) (loop_stack p))"
    by (simp_all add: control_ok_def control_def)
  obtain i where i: "get_current_instruction p = Inr i"
    using step by (auto simp: increment_program_def split: sum.splits)
  note cur = current_instruction_in_range [OF range(2,3,1) i]
  have suc: "nat (program_counter p + 1) = Suc ?pc" using range(2) by simp
  have next_ok: "nest_depth ?t (Suc ?pc) = nest_depth ?t ?pc + nesting i"
    using nest_depth_Suc [OF cur(1)] cur(2) by simp
  show ?thesis
  proof (cases "opcode i = EndLoop")
    case False
    then have "nesting i = 0" using not_loop cur(2) by (simp add: nesting_def)
    then show ?thesis
      using step i False range depth stack cur(1) next_ok suc
      by (auto simp: increment_program_def control_ok_def control_def)
  next
    case True
    then obtain l ls where ls: "loop_stack p = l # ls"
      using step i by (auto simp: increment_program_def split: list.splits)
    show ?thesis
    proof (cases "curr_iter l < last_iter l")
      case again: True
      then have "q = p\<lparr>loop_stack := l\<lparr>curr_iter := curr_iter l + 1\<rparr> # ls, program_counter := loop_pc l\<rparr>"
        using step i True ls by (simp add: increment_program_def increment_loop_def)
      then show ?thesis using stack range ls again by (simp add: control_ok_def control_def)
    next
      case left: False
      then have "q = p\<lparr>loop_stack := ls, program_counter := program_counter p + 1\<rparr>"
        using step i True ls by (simp add: increment_program_def increment_loop_def)
      moreover have "nesting i = - 1" using True by (simp add: nesting_def)
      ultimately show ?thesis
        using stack range ls depth next_ok suc cur(1) by (simp add: control_ok_def control_def)
    qed
  qed
qed

lemma loop_control:
  assumes ok: "control_ok (control p)" and i: "get_current_instruction p = Inr i" "opcode i = Loop"
    and step: "run_loop i p = (Inr (), p')" "increment_program p' = (Inr (), q)"
  shows "control_ok (control q)"
proof -
  let ?pc = "nat (program_counter p)" and ?t = "program_trace p"
  from ok have range: "length ?t < 2 ^ 31" "0 \<le> program_counter p" "?pc \<le> length ?t"
    and depth: "nest_depth ?t ?pc = int (length (loop_stack p))"
    and stack: "stack_ok ?t (map (\<lambda>l. (curr_iter l, last_iter l, loop_pc l)) (loop_stack p))"
    by (simp_all add: control_ok_def control_def)
  note cur = current_instruction_in_range [OF range(2,3,1) i(1)]
  have suc: "nat (program_counter p + 1) = Suc ?pc" using range(2) by simp
  obtain count where "get_variable p (loop_count i) = Inr count"
    using step(1) by (auto simp: run_loop_def split: sum.splits)
  then have n: "1 \<le> var_value count" and p': "p' = p\<lparr>loop_stack := \<lparr>curr_iter = 0,
      last_iter = var_value count - 1, loop_pc = program_counter p + 1, is_on_device_loop = False\<rparr> # loop_stack p\<rparr>"
    using step(1) by (auto simp: run_loop_def split: if_splits)
  have "get_current_instruction p' = Inr i" using i(1) by (simp add: p' get_current_instruction_def Let_def split: if_splits)
  then have q: "q = p'\<lparr>program_counter := program_counter p + 1\<rparr>"
    using step(2) i(2) by (simp add: increment_program_def p')
  have "nest_depth ?t (Suc ?pc) = int (length (loop_stack p)) + 1"
    using nest_depth_Suc [OF cur(1)] cur(2) i(2) depth by (simp add: nesting_def)
  then show ?thesis
    using range cur i(2) stack suc n by (auto simp: q p' control_ok_def control_def)
qed

section \<open>One step\<close>

text \<open>A step that succeeds, taken apart: the breakpoint, or the body and the increment.\<close>

lemma step_cases:
  assumes "run_instruction_with_execute_callback execute (p, w) = Some (Inr (), q, v)"
  obtains (breakpoint) "(q, v) = (p, w)"
  | (body) i p' where "get_current_instruction p = Inr i"
      "if opcode i = Execute then execute (p, w) = (Inr (), p', v)
       else run_body i p = Some (Inr (), p') \<and> v = w"
      "increment_program p' = (Inr (), q)"
proof -
  obtain i where i: "get_current_instruction p = Inr i"
    using assms by (auto simp: run_instruction_with_execute_callback_def
        run_instruction_with_callbacks_def split: sum.splits)
  show thesis
  proof (cases "breakpoint p")
    case True
    then show thesis
      using assms i that(1) by (auto simp: run_instruction_with_execute_callback_def
          run_instruction_with_callbacks_def)
  next
    case False
    show thesis
    proof (cases "opcode i = Execute")
      case True
      then show thesis
        using assms i that(2) [OF i] False
        by (auto simp: run_instruction_with_execute_callback_def run_instruction_with_callbacks_def
            run_optional_def opn_defs lift_program_def prod_eq_iff split: sum.splits prod.splits)
    next
      case not_execute: False
      then obtain r p' where r: "run_body i p = Some (r, p')"
        using assms i False
        by (auto simp: run_instruction_with_execute_callback_def run_instruction_with_callbacks_def
            run_optional_def opn_defs bind_eq_Some_conv)
      have "r = Inr () \<and> increment_program p' = (Inr (), q) \<and> v = w"
        using assms i False not_execute r
        by (cases r) (auto simp: run_instruction_with_execute_callback_def
            run_instruction_with_callbacks_def run_optional_def opn_defs lift_program_def prod_eq_iff)
      then show thesis using that(2) [OF i, of p'] r not_execute by simp
    qed
  qed
qed

lemma control_of_variables: "control (p\<lparr>variables := vs\<rparr>) = control p"
  by (simp add: control_def)

text \<open>Bodies other than \<open>Loop\<close> act on the variables.\<close>

lemma run_body_variables:
  assumes "run_body i p = Some (r, p')" and "opcode i \<noteq> Loop"
  shows "p' = p\<lparr>variables := variables p'\<rparr>"
proof -
  have vo: "p' = p\<lparr>variables := variables p'\<rparr>" if "local_op f" "f p = (r, p')" for f
    using variables_only [OF that(1), of p] that(2) by simp
  have same: "p = p\<lparr>variables := variables p\<rparr>" by simp
  show ?thesis
  proof (cases "opcode i")
    case Var
    then show ?thesis using assms vo [of "declare_all declare_var (vars i)"]
      by (simp add: run_body_def local_ops)
  next
    case StaticVar
    then show ?thesis using assms vo [of "declare_all declare_static_var (vars i)"]
      by (simp add: run_body_def local_ops)
  next
    case Param
    then show ?thesis using assms vo [of "declare_all declare_param (vars i)"]
      by (simp add: run_body_def local_ops)
  next
    case VarInst
    then obtain z where z: "varinst_value p i = Some z" "run_varinst i p = Some (r, p')"
      using assms(1) by (auto simp: run_body_def run_varinst_def)
    consider (error) e where "z = Inl e" | (nothing) "z = Inr None" | (assigned) v where "z = Inr (Some v)"
      by (cases z) auto
    then show ?thesis
    proof cases
      case (assigned v)
      then show ?thesis
        using z vo [OF local_set_variable, of "var_nth i 0" v INVALID] by (simp add: run_varinst_def)
    qed (use z same in \<open>auto simp: run_varinst_def\<close>)
  qed (use assms same in \<open>auto simp: run_body_def\<close>)
qed

lemma step_control:
  assumes "keeps_control execute" and "control_ok (control p)"
    and "run_instruction_with_execute_callback execute (p, w) = Some (Inr (), q, v)"
  shows "control_ok (control q)"
  using assms(3)
proof (cases rule: step_cases)
  case breakpoint
  then show ?thesis using assms(2) by simp
next
  case (body i p')
  show ?thesis
  proof (cases "opcode i = Loop")
    case True
    then show ?thesis
      using body loop_control [OF assms(2) body(1) True, of p' q] by (simp add: run_body_def)
  next
    case False
    have same: "control p' = control p"
    proof (cases "opcode i = Execute")
      case True
      then show ?thesis using body(2) assms(1) by (auto simp: keeps_control_def) (metis fst_conv snd_conv)
    next
      case not_execute: False
      then show ?thesis
        using body(2) run_body_variables [OF _ False, of p "Inr ()" p'] control_of_variables by metis
    qed
    have "program_trace p' ! nat (program_counter p') = i"
      using same assms(2) current_instruction_in_range(2) [of p i] body(1)
      by (simp add: control_def control_ok_def)
    then show ?thesis
      using increment_control [OF _ body(3)] same assms(2) False by simp
  qed
qed

lemma reaches_control:
  assumes "reaches execute s t" and "keeps_control execute" and "control_ok (control (fst s))"
  shows "control_ok (control (fst t))"
  using assms
proof (induction rule: reaches.induct)
  case (reaches_step s t u)
  obtain p w q v where "t = (p, w)" "u = (q, v)" by (metis surj_pair)
  then show ?case using reaches_step step_control [of execute p w q v] by simp
qed

lemma increment_trace: "program_trace (snd (increment_program p)) = program_trace p"
  by (auto simp: increment_program_def split: sum.split list.split prod.split bool.split)

lemma run_body_trace:
  assumes "run_body i p = Some (r, p')"
  shows "program_trace p' = program_trace p"
proof (cases "opcode i = Loop")
  case True
  then show ?thesis
    using assms by (auto simp: run_body_def run_loop_def split: sum.splits if_splits)
next
  case False
  have "program_trace (p\<lparr>variables := variables p'\<rparr>) = program_trace p" by simp
  then show ?thesis using run_body_variables [OF assms False] by metis
qed

lemma step_trace:
  assumes "keeps_control execute"
    and "run_instruction_with_execute_callback execute (p, w) = Some (Inr (), q, v)"
  shows "program_trace q = program_trace p"
  using assms(2)
proof (cases rule: step_cases)
  case (body i p')
  have "program_trace p' = program_trace p"
  proof (cases "opcode i = Execute")
    case True
    then have "p' = fst (snd (execute (p, w)))" using body(2) by simp
    then show ?thesis using assms(1) by (simp add: keeps_control_def control_def)
  qed (use body(2) run_body_trace [of i p] in auto)
  then show ?thesis using increment_trace [of p'] body(3) by simp
qed simp

lemma reaches_trace:
  assumes "reaches execute s t" and "keeps_control execute"
  shows "program_trace (fst t) = program_trace (fst s)"
  using assms
proof (induction rule: reaches.induct)
  case (reaches_step s t u)
  obtain p w q v where "t = (p, w)" "u = (q, v)" by (metis surj_pair)
  then show ?case using reaches_step step_trace [of execute p w q v] by simp
qed simp

lemma reset_control: "length (program_trace p) < 2 ^ 31 \<Longrightarrow> control_ok (control (reset p))"
  by (simp add: control_ok_def control_def reset_def PC_START_def nest_depth_def)

lemma stack_ok_iterations:
  "stack_ok trace (map (\<lambda>l. (curr_iter l, last_iter l, loop_pc l)) ls) \<Longrightarrow>
   list_all (\<lambda>l. 0 \<le> curr_iter l \<and> curr_iter l \<le> last_iter l
     \<and> opcode (trace ! (nat (loop_pc l) - 1)) = Loop) ls"
  by (induction ls) auto

text \<open>C22 The loop stack mirrors the program: in every state the interpreter reaches from a reset
  program, with callbacks that leave the control state alone, the depth of the loop stack is the
  number of loops open at the program counter, every entry has an iteration between zero and its last
  one, and the instruction before its return address is a \<open>Loop\<close>.\<close>

theorem loop_stack_mirrors_nesting:
  assumes "reaches execute (reset p, w) (q, v)" and "keeps_control execute"
    and "length (program_trace p) < 2 ^ 31"
  shows "int (length (loop_stack q)) = nest_depth (program_trace q) (nat (program_counter q))
    \<and> list_all (\<lambda>l. 0 \<le> curr_iter l \<and> curr_iter l \<le> last_iter l
        \<and> opcode (program_trace q ! (nat (loop_pc l) - 1)) = Loop) (loop_stack q)"
proof -
  have "control_ok (control q)"
    using reaches_control [OF assms(1,2)] reset_control [OF assms(3)] by simp
  then show ?thesis
    using stack_ok_iterations [of "program_trace q" "loop_stack q"]
    by (simp add: control_ok_def control_def)
qed

section \<open>A program with a constant\<close>

definition instr :: "INSTRUCTION_OPCODE \<Rightarrow> tt_instruction_info" where
  "instr op' = \<lparr>opcode = op', graph_name = ''g'', varinst_opcode = InvalidVarInst, loop_count = ''2'',
     vars = [], queue_settings = [], is_declaration = False\<rparr>"

definition constant_program :: netlist_program where
  "constant_program = new_netlist_program ''p''
     [(instr Var)\<lparr>vars := [(''$c_x'', 5), (''$i'', 0)]\<rparr>, instr Loop,
      (instr VarInst)\<lparr>varinst_opcode := Add, vars := [(''$i'', 0), (''$i'', 0), (''$c_x'', 0)]\<rparr>,
      instr EndLoop, instr EndProgram]"

definition no_callback :: "unit callback" where
  "no_callback = ret ()"

definition in_loop :: netlist_program where
  "in_loop = constant_program\<lparr>program_counter := 2,
     loop_stack := [\<lparr>curr_iter = 0, last_iter = 1, loop_pc = 2, is_on_device_loop = False\<rparr>],
     variables := [''c_x'' \<mapsto> \<lparr>var_type = LOCAL, var_value = 5\<rparr>, ''i'' \<mapsto> \<lparr>var_type = LOCAL, var_value = 0\<rparr>]\<rparr>"

definition after_add :: netlist_program where
  "after_add = in_loop\<lparr>program_counter := 3,
     variables := [''c_x'' \<mapsto> \<lparr>var_type = LOCAL, var_value = 5\<rparr>, ''i'' \<mapsto> \<lparr>var_type = LOCAL, var_value = 5\<rparr>]\<rparr>"

lemma two_as_immediate: "get_variable_from_map ''2'' vs '''' = Inr \<lparr>var_type = LOCAL, var_value = 2\<rparr>"
  by code_simp

lemmas step_defs = run_instruction_with_execute_callback_def run_instruction_with_callbacks_def
  get_current_instruction_def breakpoint_def run_optional_def opn_defs lift_program_def
  increment_program_def run_body_def run_loop_def get_variable_def instr_def new_netlist_program_def
  PC_START_def PC_INVALID_def reset_def Let_def

lemmas variable_defs = declare_var_def set_variable_def has_variable_def is_variable_def
  is_immediate_def get_variable_name_def run_varinst_def varinst_value_def var_nth_def value_of_def
  binary_value_def int_result_def in_int_def require_vars_def get_variable_from_map_def Let_def

lemma sample_reaches: "reaches no_callback (reset constant_program, ()) (in_loop, ())"
proof -
  let ?s = "constant_program\<lparr>program_counter := 1,
     variables := [''c_x'' \<mapsto> \<lparr>var_type = LOCAL, var_value = 5\<rparr>, ''i'' \<mapsto> \<lparr>var_type = LOCAL, var_value = 0\<rparr>]\<rparr>"
  have "run_instruction_with_execute_callback no_callback (reset constant_program, ()) = Some (Inr (), ?s, ())"
    by (simp add: constant_program_def step_defs variable_defs)
  moreover have "run_instruction_with_execute_callback no_callback (?s, ()) = Some (Inr (), in_loop, ())"
    by (simp add: constant_program_def in_loop_def step_defs two_as_immediate)
  ultimately show ?thesis by (blast intro: reaches.intros)
qed

lemma sample_step:
  "run_instruction_with_execute_callback no_callback (in_loop, ()) = Some (Inr (), after_add, ())"
  by (simp add: constant_program_def in_loop_def after_add_def step_defs variable_defs)

lemma no_callback_keeps: "keeps_control no_callback"
  by (simp add: keeps_control_def no_callback_def ret_def)

theorem loop_stack_mirrors_nesting_witness:
  "int (length (loop_stack in_loop)) = nest_depth (program_trace in_loop) (nat (program_counter in_loop))
    \<and> list_all (\<lambda>l. 0 \<le> curr_iter l \<and> curr_iter l \<le> last_iter l
        \<and> opcode (program_trace in_loop ! (nat (loop_pc l) - 1)) = Loop) (loop_stack in_loop)
    \<and> loop_stack in_loop \<noteq> []"
  using loop_stack_mirrors_nesting [OF sample_reaches no_callback_keeps]
  by (simp add: in_loop_def constant_program_def new_netlist_program_def)

section \<open>The static check of constants\<close>

datatype constant_error =
  ConstantOverwritten string
| DeclaredInLoop string
| ModifiedInLoop string
| StaticConstantChanged string
| StaticConstantFromVariable string
| NoSuchOperand

record constant_check =
  initialized_constants :: "string list"
  static_vars :: "string list"
  num_loops :: u32

definition check_declaration ::
  "tt_instruction_info \<Rightarrow> string \<times> int \<Rightarrow> constant_check \<Rightarrow> constant_error + constant_check" where
  "check_declaration i var s =
     (let name = fst var in
      if name \<in> set (initialized_constants s) then Inl (ConstantOverwritten name)
      else if is_constant name \<and> num_loops s \<noteq> 0 then Inl (DeclaredInLoop name)
      else (let s1 = (if is_constant name \<and> \<not> is_declaration i
                      then s\<lparr>initialized_constants := initialized_constants s @ [name]\<rparr> else s)
            in Inr (if opcode i = StaticVar then s1\<lparr>static_vars := static_vars s1 @ [name]\<rparr> else s1)))"

text \<open>Reading an operand that is not there is undefined behaviour; it is an error of its own here.\<close>

definition check_varinst :: "tt_instruction_info \<Rightarrow> constant_check \<Rightarrow> constant_error + constant_check" where
  "check_varinst i s =
     (case vars i of
        [] \<Rightarrow> Inl NoSuchOperand
      | (name, _) # rest \<Rightarrow>
          if \<not> is_constant name then Inr s
          else if num_loops s \<noteq> 0 then Inl (ModifiedInLoop name)
          else (let s1 = (if name \<in> set (initialized_constants s) then s
                          else s\<lparr>initialized_constants := initialized_constants s @ [name]\<rparr>)
                in if name \<in> set (static_vars s) then
                     (if varinst_opcode i \<noteq> Set then Inl (StaticConstantChanged name)
                      else case rest of
                          [] \<Rightarrow> Inl NoSuchOperand
                        | (source, _) # _ \<Rightarrow>
                            if source \<in> set (static_vars s) \<and> \<not> is_constant source
                            then Inl (StaticConstantFromVariable name) else Inr s1)
                   else Inr s1))"

definition check_constants :: "tt_instruction_info \<Rightarrow> constant_check \<Rightarrow> constant_error + constant_check" where
  "check_constants i s =
     (if opcode i = Loop then Inr (s\<lparr>num_loops := num_loops s + 1\<rparr>)
      else if opcode i = EndLoop then Inr (s\<lparr>num_loops := num_loops s - 1\<rparr>)
      else if opcode i = Var \<or> opcode i = StaticVar then fold_sum (check_declaration i) (vars i) s
      else if opcode i = VarInst then check_varinst i s
      else Inr s)"

definition no_constants :: constant_check where
  "no_constants = \<lparr>initialized_constants = [], static_vars = [], num_loops = 0\<rparr>"

definition assert_constants_not_modified :: "tt_instruction_info list \<Rightarrow> constant_error + unit" where
  "assert_constants_not_modified trace =
     bind_sum (fold_sum check_constants trace no_constants) (\<lambda>_. Inr ())"

definition assert_constants_not_modified_in_programs ::
  "(string \<times> netlist_program) list \<Rightarrow> constant_error + unit" where
  "assert_constants_not_modified_in_programs programs =
     fold_sum (\<lambda>(_, p) _. assert_constants_not_modified (program_trace p)) programs ()"

section \<open>What the check guarantees\<close>

lemma check_declaration_sound:
  assumes "check_declaration i nv s = Inr t"
  shows "num_loops t = num_loops s" and "num_loops s \<noteq> 0 \<Longrightarrow> \<not> is_constant (fst nv)"
  using assms by (auto simp: check_declaration_def Let_def split: if_splits)

lemma fold_declarations:
  assumes "fold_sum (check_declaration i) nvs s = Inr t"
  shows "num_loops t = num_loops s" and "num_loops s \<noteq> 0 \<Longrightarrow> list_all (\<lambda>nv. \<not> is_constant (fst nv)) nvs"
proof -
  have "num_loops t = num_loops s \<and> (num_loops s \<noteq> 0 \<longrightarrow> list_all (\<lambda>nv. \<not> is_constant (fst nv)) nvs)"
    using assms
  proof (induction nvs arbitrary: s)
    case (Cons nv nvs)
    then obtain u where "check_declaration i nv s = Inr u" "fold_sum (check_declaration i) nvs u = Inr t"
      by (auto simp: bind_sum_Inr_iff)
    then show ?case using Cons.IH [of u] check_declaration_sound [of i nv s u] by simp
  qed simp
  then show "num_loops t = num_loops s"
    and "num_loops s \<noteq> 0 \<Longrightarrow> list_all (\<lambda>nv. \<not> is_constant (fst nv)) nvs" by simp_all
qed

lemma check_counts_loops:
  assumes "check_constants i s = Inr t"
  shows "num_loops t = num_loops s + word_of_int (nesting i)"
  using assms fold_declarations(1) [of i "vars i" s t]
  by (auto simp: check_constants_def nesting_def check_varinst_def Let_def
      split: if_splits list.splits prod.splits)

lemma check_prefix:
  assumes "fold_sum check_constants trace s = Inr t" and "n < length trace"
  shows "\<exists>u. num_loops u = num_loops s + word_of_int (nest_depth trace n)
    \<and> (\<exists>v. check_constants (trace ! n) u = Inr v)"
  using assms
proof (induction trace arbitrary: s n)
  case (Cons i trace)
  then obtain v where v: "check_constants i s = Inr v" "fold_sum check_constants trace v = Inr t"
    by (auto simp: bind_sum_Inr_iff)
  show ?case
  proof (cases n)
    case 0
    then show ?thesis using v by (auto simp: nest_depth_def)
  next
    case (Suc m)
    then show ?thesis
      using Cons.IH [OF v(2), of m] Cons.prems(2) check_counts_loops [OF v(1)]
      by (auto simp: nest_depth_def add.assoc)
  qed
qed simp

lemma nest_depth_le: "nest_depth trace n \<le> int n"
proof (induction trace arbitrary: n)
  case (Cons i trace)
  show ?case
  proof (cases n)
    case (Suc m)
    have "nesting i \<le> 1" by (simp add: nesting_def)
    then show ?thesis using Cons.IH [of m] Suc by (simp add: nest_depth_def)
  qed (simp add: nest_depth_def)
qed (simp add: nest_depth_def)

text \<open>The names an instruction assigns, the shape of names the check relies on, and the constants.\<close>

definition assigned_names :: "tt_instruction_info \<Rightarrow> string list" where
  "assigned_names i =
     (if opcode i \<in> {Var, StaticVar, Param} then map fst (vars i)
      else if opcode i = VarInst then map fst (take 1 (vars i)) else [])"

definition plain_name :: "string \<Rightarrow> bool" where
  "plain_name s \<longleftrightarrow> take 1 s = ''$'' \<and> CHR ''$'' \<notin> set (drop 1 s)"

definition plain_program :: "tt_instruction_info list \<Rightarrow> bool" where
  "plain_program trace \<longleftrightarrow> list_all (\<lambda>i. list_all plain_name (assigned_names i)
     \<and> (opcode i = Param \<longrightarrow> list_all (\<lambda>n. \<not> is_constant n) (assigned_names i))) trace"

definition constants :: "variables \<Rightarrow> variables" where
  "constants vs = vs |` {k. take 2 k = ''c_''}"

lemma not_constant_name:
  assumes "plain_name n" and "\<not> is_constant n"
  shows "take 2 (get_variable_name n) \<noteq> ''c_''"
proof -
  obtain m where n: "n = CHR ''$'' # m" using assms(1) by (cases n) (auto simp: plain_name_def)
  then have "get_variable_name n = m"
    using assms(1) by (auto simp: plain_name_def get_variable_name_def filter_id_conv)
  then show ?thesis using assms(2) n by (auto simp: is_constant_def numeral_3_eq_3 numeral_2_eq_2)
qed

definition touches_only :: "string list \<Rightarrow> (netlist_program, program_error, unit) opn \<Rightarrow> bool" where
  "touches_only ns f \<longleftrightarrow>
     (\<forall>p k. k \<notin> get_variable_name ` set ns \<longrightarrow> variables (snd (f p)) k = variables p k)"

lemma touches_onlyD:
  "touches_only ns f \<Longrightarrow> f p = (r, q) \<Longrightarrow> k \<notin> get_variable_name ` set ns \<Longrightarrow> variables q k = variables p k"
  by (auto simp: touches_only_def) (metis snd_conv)

named_theorems touches "the variables an operation may assign"

lemma touches_set_variable [touches]: "touches_only [n] (set_variable n v t)"
  by (auto simp: touches_only_def set_variable_def Let_def split: option.split)

lemma touches_declare_var [touches]: "touches_only [fst nv] (declare_var nv)"
  using touches_set_variable
  by (auto simp: touches_only_def declare_var_def split: prod.split sum.split)

lemma touches_declare_static_var [touches]: "touches_only [fst nv] (declare_static_var nv)"
  using touches_set_variable
  by (auto simp: touches_only_def declare_static_var_def split: prod.split sum.split)

lemma touches_declare_param [touches]: "touches_only [fst nv] (declare_param nv)"
  using touches_set_variable
  by (auto simp: touches_only_def declare_param_def split: prod.split sum.split option.split)

lemma touches_declare_all [touches]:
  assumes "\<And>nv. touches_only [fst nv] (f nv)"
  shows "touches_only (map fst nvs) (declare_all f nvs)"
  unfolding touches_only_def
proof (induction nvs)
  case (Cons nv nvs)
  show ?case
  proof (intro allI impI)
    fix p k
    assume k: "k \<notin> get_variable_name ` set (map fst (nv # nvs))"
    obtain r q where q: "f nv p = (r, q)" by force
    have "variables q k = variables p k"
      using touches_onlyD [OF assms q, of k] k by simp
    then show "variables (snd (declare_all f (nv # nvs) p)) k = variables p k"
      using Cons.IH k q by (cases r) (auto simp: opn_defs)
  qed
qed (simp add: opn_defs)

lemma run_body_touches:
  assumes "run_body i p = Some (r, p')" and "k \<notin> get_variable_name ` set (assigned_names i)"
  shows "variables p' k = variables p k"
proof (cases "opcode i")
  case Var
  then show ?thesis
    using assms touches_onlyD [OF touches_declare_all [OF touches_declare_var], of "vars i" p r p' k]
    by (simp add: run_body_def assigned_names_def)
next
  case StaticVar
  then show ?thesis
    using assms touches_onlyD [OF touches_declare_all [OF touches_declare_static_var], of "vars i" p r p' k]
    by (simp add: run_body_def assigned_names_def)
next
  case Param
  then show ?thesis
    using assms touches_onlyD [OF touches_declare_all [OF touches_declare_param], of "vars i" p r p' k]
    by (simp add: run_body_def assigned_names_def)
next
  case VarInst
  then obtain z where z: "varinst_value p i = Some z" "run_varinst i p = Some (r, p')"
    using assms(1) by (auto simp: run_body_def run_varinst_def)
  consider (error) e where "z = Inl e" | (nothing) "z = Inr None" | (assigned) v where "z = Inr (Some v)"
    by (cases z) auto
  then show ?thesis
  proof cases
    case (assigned v)
    then have "vars i \<noteq> []"
      using z(1) by (auto simp: varinst_value_def require_vars_def bind_sum_Inr_iff
          split: VAR_INSTRUCTION_OPCODE.splits if_splits sum.splits)
    then have "set (assigned_names i) = {var_nth i 0}"
      using VarInst by (cases "vars i") (auto simp: assigned_names_def var_nth_def)
    then show ?thesis
      using z assigned assms(2) touches_onlyD [OF touches_set_variable, of "var_nth i 0" v INVALID p r p' k]
      by (simp add: run_varinst_def)
  qed (use z in \<open>auto simp: run_varinst_def\<close>)
next
  case Loop
  then show ?thesis
    using assms(1) by (auto simp: run_body_def run_loop_def split: sum.splits if_splits)
qed (use assms(1) in \<open>auto simp: run_body_def\<close>)

lemma checked_in_loop:
  assumes "check_constants i u = Inr v" and "num_loops u \<noteq> 0" and "opcode i \<noteq> Param"
  shows "list_all (\<lambda>n. \<not> is_constant n) (assigned_names i)"
  using assms fold_declarations(2) [of i "vars i" u v]
  by (auto simp: check_constants_def check_varinst_def assigned_names_def list_all_iff
      split: if_splits list.splits prod.splits)

lemma increment_variables: "variables (snd (increment_program p)) = variables p"
  by (auto simp: increment_program_def split: sum.split list.split prod.split bool.split)

definition keeps_variables :: "'w callback \<Rightarrow> bool" where
  "keeps_variables execute \<longleftrightarrow> (\<forall>p w. variables (fst (snd (execute (p, w)))) = variables p)"

text \<open>C31 What the static check of constants guarantees: in a program that passes it, has fewer than
  \<open>2 ^ 31\<close> instructions, names its variables with one \<open>$\<close> and a name and has no constant among its parameters, no
  step that the interpreter takes inside a loop changes a constant, provided the callbacks change neither the
  control state nor the variables. Outside loops a constant can be assigned again although the check passes, as the
  lemma \<open>constant_modified_though_checked\<close> shows.\<close>

theorem constants_fixed_in_loops:
  assumes "assert_constants_not_modified (program_trace p) = Inr ()" and "plain_program (program_trace p)"
    and "length (program_trace p) < 2 ^ 31" and "keeps_control execute" and "keeps_variables execute"
    and "reaches execute (reset p, w) (q, v)" and "loop_stack q \<noteq> []"
    and "run_instruction_with_execute_callback execute (q, v) = Some (Inr (), q', v')"
  shows "constants (variables q') = constants (variables q)"
  using assms(8)
proof (cases rule: step_cases)
  case breakpoint
  then show ?thesis by simp
next
  case (body i q1)
  let ?t = "program_trace p" and ?pc = "nat (program_counter q)"
  have trace: "program_trace q = ?t" using reaches_trace [OF assms(6,4)] by (simp add: reset_def)
  have ok: "control_ok (control q)"
    using reaches_control [OF assms(6,4)] reset_control [OF assms(3)] by simp
  then have "0 \<le> program_counter q" "?pc \<le> length ?t"
    and depth: "nest_depth ?t ?pc = int (length (loop_stack q))"
    using trace by (simp_all add: control_ok_def control_def)
  then have cur: "?pc < length ?t" "i = ?t ! ?pc"
    using current_instruction_in_range [of q i] body(1) assms(3) trace by simp_all
  have plain: "list_all plain_name (assigned_names i)"
    "opcode i = Param \<Longrightarrow> list_all (\<lambda>n. \<not> is_constant n) (assigned_names i)"
    using assms(2) cur by (auto simp: plain_program_def list_all_iff)
  obtain u x where u: "num_loops u = word_of_int (nest_depth ?t ?pc)" "check_constants i u = Inr x"
    using assms(1) check_prefix [of ?t no_constants _ ?pc] cur
    by (auto simp: assert_constants_not_modified_def bind_sum_Inr_iff no_constants_def)
  have "?pc < 2 ^ 31" using cur(1) assms(3) by (rule less_trans)
  then have "int ?pc < 2 ^ 31" by (simp only: of_nat_less_numeral_power_cancel_iff)
  with nest_depth_le [of ?t ?pc] have bound: "0 < nest_depth ?t ?pc" "nest_depth ?t ?pc < 2 ^ 31"
    using depth assms(7) by simp_all
  have "num_loops u \<noteq> 0"
  proof
    assume "num_loops u = 0"
    then have "uint (word_of_int (nest_depth ?t ?pc) :: u32) = 0" using u(1) by simp
    then show False using bound by (simp add: unsigned_of_int take_bit_int_eq_self)
  qed
  then have "list_all (\<lambda>n. \<not> is_constant n) (assigned_names i)"
    using checked_in_loop [OF u(2)] plain(2) by blast
  then have names: "k \<notin> get_variable_name ` set (assigned_names i)" if "take 2 k = ''c_''" for k
    using that plain(1) not_constant_name by (auto simp: list_all_iff)
  have "variables q1 k = variables q k" if "take 2 k = ''c_''" for k
  proof (cases "opcode i = Execute")
    case True
    then show ?thesis using body(2) assms(5) by (auto simp: keeps_variables_def) (metis fst_conv snd_conv)
  next
    case False
    then show ?thesis using body(2) run_body_touches [OF _ names [OF that], of q "Inr ()" q1] by simp
  qed
  moreover have "variables q' = variables q1" using increment_variables [of q1] body(3) by simp
  ultimately show ?thesis by (auto simp: constants_def restrict_map_def)
qed

theorem constants_fixed_in_loops_witness:
  "constants (variables after_add) = constants (variables in_loop)
   \<and> variables after_add \<noteq> variables in_loop"
proof -
  have "assert_constants_not_modified (program_trace constant_program) = Inr ()"
    by (simp add: constant_program_def new_netlist_program_def instr_def assert_constants_not_modified_def
        check_constants_def check_declaration_def check_varinst_def no_constants_def is_constant_def)
  moreover have "plain_program (program_trace constant_program)"
    by (simp add: constant_program_def new_netlist_program_def instr_def plain_program_def
        plain_name_def assigned_names_def)
  moreover have "length (program_trace constant_program) < 2 ^ 31"
    by (simp add: constant_program_def new_netlist_program_def)
  moreover have "keeps_variables no_callback"
    by (simp add: keeps_variables_def no_callback_def ret_def)
  moreover have "loop_stack in_loop \<noteq> []" by (simp add: in_loop_def)
  ultimately have "constants (variables after_add) = constants (variables in_loop)"
    using constants_fixed_in_loops [OF _ _ _ no_callback_keeps _ sample_reaches _ sample_step] by blast
  moreover have "variables after_add ''i'' \<noteq> variables in_loop ''i''"
    by (simp add: after_add_def in_loop_def)
  ultimately show ?thesis by metis
qed

section \<open>What the check does not guarantee\<close>

text \<open>
  Outside of loops the check lets a constant be assigned again: a constant that a \<open>Var\<close> has initialised
  may be changed by a variable instruction, although the check is named for the opposite.
\<close>

definition changed_constant :: netlist_program where
  "changed_constant = new_netlist_program ''p''
     [(instr Var)\<lparr>vars := [(''$c_x'', 5)]\<rparr>,
      (instr VarInst)\<lparr>varinst_opcode := Add, vars := [(''$c_x'', 0), (''$c_x'', 0), (''$c_x'', 0)]\<rparr>,
      instr EndProgram]"

lemma constant_modified_though_checked:
  "assert_constants_not_modified (program_trace changed_constant) = Inr ()
   \<and> map_option (\<lambda>(r, p, _). (r, get_variables p ''c_x''))
       (run_until_done no_callback (changed_constant, ())) = Some (Inr (), Some 10)"
proof
  show "assert_constants_not_modified (program_trace changed_constant) = Inr ()"
    by (simp add: changed_constant_def new_netlist_program_def instr_def assert_constants_not_modified_def
        check_constants_def check_declaration_def check_varinst_def no_constants_def is_constant_def)
  let ?s = "changed_constant\<lparr>program_counter := 1, variables := [''c_x'' \<mapsto> \<lparr>var_type = LOCAL, var_value = 5\<rparr>]\<rparr>"
  let ?t = "changed_constant\<lparr>program_counter := 2, variables := [''c_x'' \<mapsto> \<lparr>var_type = LOCAL, var_value = 10\<rparr>]\<rparr>"
  have "run_instruction_with_execute_callback no_callback (changed_constant, ()) = Some (Inr (), ?s, ())"
    by (simp add: changed_constant_def step_defs variable_defs)
  moreover have "run_instruction_with_execute_callback no_callback (?s, ()) = Some (Inr (), ?t, ())"
    by (simp add: changed_constant_def step_defs variable_defs)
  moreover have "done_program changed_constant = Inr False" "done_program ?s = Inr False" "done_program ?t = Inr True"
    by (simp_all add: changed_constant_def done_program_def get_current_instruction_def
        new_netlist_program_def instr_def PC_START_def)
  ultimately have "run_until_done no_callback (changed_constant, ()) = Some (Inr (), ?t, ())"
    by (simp add: run_until_done.simps)
  then show "map_option (\<lambda>(r, p, _). (r, get_variables p ''c_x''))
       (run_until_done no_callback (changed_constant, ())) = Some (Inr (), Some 10)"
    by (simp add: get_variables_def)
qed

end
