(* ===== verification/QueuePtr.thy ===== *)
theory QueuePtr
  imports Prelude
begin

text \<open>
  The queue pointers of DRAM and host queues (\<open>src/common/tt_queue_ptr.{hpp,cpp}\<close>): read and write
  pointers of 16 bits that run to twice the number of slots, so that a full queue differs from an
  empty one. Sums and differences are of 32 bits. They refine counters of the entries ever read and
  written.
\<close>

section \<open>The pointers\<close>

text \<open>The pointers are the low halves of two device words; the high halves stay zero.\<close>

record tt_queue_ptr =
  rd_ptr :: u16
  wr_ptr :: u16
  slots :: u32
  limit :: u32

definition new_tt_queue_ptr :: "u32 \<Rightarrow> tt_queue_ptr" where
  "new_tt_queue_ptr islots = \<lparr>rd_ptr = 0, wr_ptr = 0, slots = islots, limit = 2 * islots\<rparr>"

text \<open>A remainder by a zero limit is undefined behaviour, \<open>None\<close> here.\<close>

definition incr_rd :: "u32 \<Rightarrow> tt_queue_ptr \<Rightarrow> tt_queue_ptr option" where
  "incr_rd amount q = (if limit q = 0 then None
     else Some (q\<lparr>rd_ptr := ucast ((ucast (rd_ptr q) + amount) mod limit q)\<rparr>))"

definition incr_wr :: "u32 \<Rightarrow> tt_queue_ptr \<Rightarrow> tt_queue_ptr option" where
  "incr_wr amount q = (if limit q = 0 then None
     else Some (q\<lparr>wr_ptr := ucast ((ucast (wr_ptr q) + amount) mod limit q)\<rparr>))"

definition empty_during_batched_read :: "u32 \<Rightarrow> tt_queue_ptr \<Rightarrow> bool" where
  "empty_during_batched_read amount q \<longleftrightarrow>
     (if wr_ptr q > rd_ptr q then ucast (rd_ptr q) + amount > ucast (wr_ptr q)
      else ucast (rd_ptr q) + amount > limit q + ucast (wr_ptr q))"

definition get_wr_ptr :: "tt_queue_ptr \<Rightarrow> u32" where
  "get_wr_ptr q = (let tmp = ucast (wr_ptr q) in if tmp \<ge> slots q then tmp - slots q else tmp)"

definition get_rd_ptr :: "tt_queue_ptr \<Rightarrow> u32" where
  "get_rd_ptr q = (let tmp = ucast (rd_ptr q) in if tmp \<ge> slots q then tmp - slots q else tmp)"

definition incr_get_rd :: "u32 \<Rightarrow> tt_queue_ptr \<Rightarrow> (u32 \<times> tt_queue_ptr) option" where
  "incr_get_rd amount q = (let tmp = get_rd_ptr q in map_option (\<lambda>q1. (tmp, q1)) (incr_rd amount q))"

definition incr_get_wr :: "u32 \<Rightarrow> tt_queue_ptr \<Rightarrow> (u32 \<times> tt_queue_ptr) option" where
  "incr_get_wr amount q = (let tmp = get_wr_ptr q in map_option (\<lambda>q1. (tmp, q1)) (incr_wr amount q))"

definition occupancy :: "tt_queue_ptr \<Rightarrow> u32" where
  "occupancy q = (if wr_ptr q \<ge> rd_ptr q then ucast (wr_ptr q) - ucast (rd_ptr q)
     else limit q + ucast (wr_ptr q) - ucast (rd_ptr q))"

definition free_space :: "tt_queue_ptr \<Rightarrow> u32" where
  "free_space q = slots q - occupancy q"

definition full_queue :: "tt_queue_ptr \<Rightarrow> bool" where
  "full_queue q \<longleftrightarrow> (if rd_ptr q \<noteq> wr_ptr q
     then (if wr_ptr q > rd_ptr q then ucast (wr_ptr q) - slots q = ucast (rd_ptr q)
           else ucast (rd_ptr q) - slots q = ucast (wr_ptr q))
     else False)"

definition empty_queue :: "tt_queue_ptr \<Rightarrow> bool" where
  "empty_queue q \<longleftrightarrow> rd_ptr q = wr_ptr q"

definition assign_queue_ptr :: "tt_queue_ptr \<Rightarrow> tt_queue_ptr \<Rightarrow> tt_queue_ptr" where
  "assign_queue_ptr q t = q\<lparr>rd_ptr := rd_ptr t, wr_ptr := wr_ptr t, slots := slots t, limit := limit t\<rparr>"

section \<open>Counters\<close>

text \<open>
  The pointers stand for the numbers of entries ever read and written. The pointers have to fit 16
  bits, so a queue has at most \<open>2 ^ 15\<close> slots.
\<close>

definition counts :: "nat \<Rightarrow> nat \<Rightarrow> nat \<Rightarrow> tt_queue_ptr \<Rightarrow> bool" where
  "counts n r w q \<longleftrightarrow> 0 < n \<and> n \<le> 2 ^ 15 \<and> unat (slots q) = n \<and> unat (limit q) = 2 * n
     \<and> unat (rd_ptr q) = r mod (2 * n) \<and> unat (wr_ptr q) = w mod (2 * n) \<and> r \<le> w \<and> w \<le> r + n"

lemma unat_16: "unat (x :: u16) < 65536"
  using unat_less_exp [of x] by simp

lemma unat_ucast_16 [simp]: "unat (ucast (x :: u16) :: u32) = unat x"
  using unat_16 [of x] by (simp add: unsigned_ucast_eq take_bit_nat_eq_self_iff)

lemma ucast_mod_limit:
  assumes "unat (l :: u32) = 2 * n" and "0 < n" and "n \<le> 2 ^ 15" and "unat a < 2 ^ 31"
  shows "unat (ucast ((ucast (x :: u16) + a) mod l) :: u16) = (unat x + unat a) mod (2 * n)"
proof -
  have "unat x + unat a < 2 ^ 32" using assms(4) unat_16 [of x] by simp
  then have "unat (ucast x + a) = unat x + unat a" by (simp add: unat_plus_no_wrap)
  then have m: "unat ((ucast x + a) mod l) = (unat x + unat a) mod (2 * n)"
    using assms(1) by (simp add: unat_mod)
  moreover have "(unat x + unat a) mod (2 * n) < 2 ^ 16"
    using assms(2,3) by (intro less_le_trans [OF mod_less_divisor]) simp_all
  ultimately show ?thesis by (simp add: unsigned_ucast_eq take_bit_nat_eq_self_iff)
qed

lemma counts_new: "0 < s \<Longrightarrow> s \<le> 2 ^ 15 \<Longrightarrow> counts (unat s) 0 0 (new_tt_queue_ptr s)"
proof -
  assume s: "0 < s" "s \<le> 2 ^ 15"
  then have "unat s \<le> 2 ^ 15" by (simp add: word_le_nat_alt)
  moreover from this have "unat (2 * s) = 2 * unat s" by (subst unat_mult_lem [THEN iffD1]) simp_all
  ultimately show ?thesis
    using s(1) by (simp add: counts_def new_tt_queue_ptr_def word_less_nat_alt)
qed

lemma mod_add_left_nat: "(a mod m + b) mod m = (a + b) mod (m :: nat)"
  by (simp add: mod_add_left_eq)

lemma counts_incr_wr:
  assumes "counts n r w q" and "unat a \<le> n - (w - r)"
  shows "\<exists>q'. incr_wr a q = Some q' \<and> counts n r (w + unat a) q'"
proof -
  have "unat a < 2 ^ 31" "limit q \<noteq> 0" using assms by (auto simp: counts_def)
  moreover have "w + unat a \<le> r + n" using assms by (auto simp: counts_def)
  ultimately show ?thesis
    using assms(1) ucast_mod_limit [of "limit q" n a "wr_ptr q"]
    by (simp add: counts_def incr_wr_def mod_add_left_nat)
qed

lemma counts_incr_rd:
  assumes "counts n r w q" and "unat a \<le> w - r"
  shows "\<exists>q'. incr_rd a q = Some q' \<and> counts n (r + unat a) w q'"
proof -
  have "unat a < 2 ^ 31" "limit q \<noteq> 0" using assms by (auto simp: counts_def)
  moreover have "r + unat a \<le> w" using assms by (auto simp: counts_def)
  ultimately show ?thesis
    using assms(1) ucast_mod_limit [of "limit q" n a "rd_ptr q"]
    by (simp add: counts_def incr_rd_def mod_add_left_nat)
qed

text \<open>The two positions of the pointers on the circle of twice the slots.\<close>

lemma circle_cases:
  fixes r w n :: nat
  assumes "0 < n" and "r \<le> w" and "w \<le> r + n"
  obtains "w mod (2 * n) = r mod (2 * n) + (w - r)"
  | "w mod (2 * n) + 2 * n = r mod (2 * n) + (w - r)" "r mod (2 * n) + (w - r) \<ge> 2 * n"
proof -
  let ?p = "r mod (2 * n)" and ?d = "w - r"
  have "w = r + ?d" using assms(2) by simp
  then have w: "w mod (2 * n) = (?p + ?d) mod (2 * n)" by (metis mod_add_left_nat)
  show thesis
  proof (cases "?p + ?d < 2 * n")
    case True
    then show thesis using w that(1) by simp
  next
    case False
    have "?p < 2 * n" using assms(1) by simp
    then have "?p + ?d - 2 * n < 2 * n" using assms(3) by simp
    then have "(?p + ?d) mod (2 * n) = ?p + ?d - 2 * n"
      using False by (metis le_mod_geq mod_less not_le)
    then show thesis using w that(2) False by simp
  qed
qed

lemma occupancy_counts:
  assumes "counts n r w q"
  shows "unat (occupancy q) = w - r"
proof -
  have *: "0 < n" "r \<le> w" "w \<le> r + n" "unat (limit q) = 2 * n" "n \<le> 2 ^ 15"
    "unat (rd_ptr q) = r mod (2 * n)" "unat (wr_ptr q) = w mod (2 * n)"
    using assms by (simp_all add: counts_def)
  have le: "wr_ptr q \<ge> rd_ptr q \<longleftrightarrow> r mod (2 * n) \<le> w mod (2 * n)"
    using *(6,7) by (simp add: word_le_nat_alt)
  have small: "unat (rd_ptr q) \<le> unat (limit q)" using * by simp
  have sum: "unat (limit q + ucast (wr_ptr q)) = 2 * n + w mod (2 * n)"
    using *(4,5,7) unat_16 [of "wr_ptr q"] by (simp add: unat_plus_no_wrap)
  from *(1-3) show ?thesis
  proof (cases rule: circle_cases)
    case 1
    then have "unat (rd_ptr q) \<le> unat (wr_ptr q)" using * by simp
    then show ?thesis using 1 * le by (simp add: occupancy_def unat_minus_no_wrap)
  next
    case 2
    have "w - r < 2 * n" using *(1,3) by linarith
    then have "\<not> rd_ptr q \<le> wr_ptr q" using 2 le by linarith
    moreover have "unat (rd_ptr q) \<le> unat (limit q + ucast (wr_ptr q))" using sum small *(4) by simp
    ultimately show ?thesis using 2 * sum by (simp add: occupancy_def unat_minus_no_wrap)
  qed
qed

lemma free_space_counts:
  assumes "counts n r w q"
  shows "unat (free_space q) = n - (w - r)"
proof -
  have "unat (occupancy q) \<le> unat (slots q)"
    using occupancy_counts [OF assms] assms by (auto simp: counts_def)
  then show ?thesis
    using occupancy_counts [OF assms] assms by (simp add: free_space_def unat_minus_no_wrap counts_def)
qed

lemma empty_counts:
  assumes "counts n r w q"
  shows "empty_queue q \<longleftrightarrow> w = r"
proof -
  have *: "0 < n" "r \<le> w" "w \<le> r + n" "unat (rd_ptr q) = r mod (2 * n)" "unat (wr_ptr q) = w mod (2 * n)"
    using assms by (simp_all add: counts_def)
  have eq: "empty_queue q \<longleftrightarrow> r mod (2 * n) = w mod (2 * n)"
    using *(4,5) by (simp add: empty_queue_def word_unat_eq_iff)
  from *(1-3) show ?thesis
    by (cases rule: circle_cases) (use eq * in auto)
qed

lemma index_counts:
  fixes n c :: nat
  assumes "0 < n" and "unat (s :: u32) = n" and "unat (p :: u16) = c mod (2 * n)"
  shows "unat (if ucast p \<ge> s then ucast p - s else ucast p :: u32) = c mod n"
proof -
  have "c mod (2 * n) mod n = c mod n" by (simp add: mod_mod_cancel)
  moreover have "c mod (2 * n) < 2 * n" using assms(1) by simp
  ultimately have "c mod n = (if n \<le> c mod (2 * n) then c mod (2 * n) - n else c mod (2 * n))"
    by (metis less_diff_conv2 mod_less mod_if mult_2 not_le)
  then show ?thesis
    using assms by (simp add: word_le_nat_alt unat_minus_no_wrap)
qed

lemma indices_counts:
  assumes "counts n r w q"
  shows "unat (get_wr_ptr q) = w mod n" and "unat (get_rd_ptr q) = r mod n"
  using assms index_counts [of n "slots q" "wr_ptr q" w] index_counts [of n "slots q" "rd_ptr q" r]
  by (simp_all add: counts_def get_wr_ptr_def get_rd_ptr_def Let_def)

lemma full_counts:
  assumes "counts n r w q"
  shows "full_queue q \<longleftrightarrow> w - r = n"
proof -
  have *: "0 < n" "r \<le> w" "w \<le> r + n" "unat (slots q) = n" "n \<le> 2 ^ 15"
    "unat (rd_ptr q) = r mod (2 * n)" "unat (wr_ptr q) = w mod (2 * n)"
    using assms by (simp_all add: counts_def)
  have below: "r mod (2 * n) < 2 * n" "w mod (2 * n) < 2 * n" using *(1) by simp_all
  have sub: "ucast a - slots q = ucast b \<longleftrightarrow> unat a = unat b + n" if "unat a < 2 * n" for a b :: u16
  proof -
    have "ucast a - slots q = ucast b \<longleftrightarrow> ucast a = ucast b + slots q" by (simp add: diff_eq_eq)
    moreover have "unat (ucast b + slots q) = unat b + n"
      using *(4,5) unat_16 [of b] by (simp add: unat_plus_no_wrap)
    ultimately show ?thesis by (simp add: word_unat_eq_iff)
  qed
  have eq: "full_queue q \<longleftrightarrow> (if r mod (2 * n) \<noteq> w mod (2 * n)
     then if r mod (2 * n) < w mod (2 * n) then w mod (2 * n) = r mod (2 * n) + n
          else r mod (2 * n) = w mod (2 * n) + n else False)"
    using sub [of "wr_ptr q" "rd_ptr q"] sub [of "rd_ptr q" "wr_ptr q"] below *(6,7)
    by (simp add: full_queue_def word_unat_eq_iff word_less_nat_alt)
  from *(1-3) show ?thesis
    by (cases rule: circle_cases) (use eq * below in \<open>auto split: if_splits\<close>)
qed

lemma batched_read_counts:
  assumes "counts n r w q" and "unat a < 2 ^ 31"
  shows "empty_during_batched_read a q \<longleftrightarrow> (if w = r then unat a > 2 * n else unat a > w - r)"
proof -
  have *: "0 < n" "r \<le> w" "w \<le> r + n" "unat (limit q) = 2 * n" "n \<le> 2 ^ 15"
    "unat (rd_ptr q) = r mod (2 * n)" "unat (wr_ptr q) = w mod (2 * n)"
    using assms by (simp_all add: counts_def)
  have sum: "unat (limit q + ucast (wr_ptr q)) = 2 * n + w mod (2 * n)"
    using *(4,5,7) unat_16 [of "wr_ptr q"] by (simp add: unat_plus_no_wrap)
  have sum2: "unat (ucast (rd_ptr q) + a) = r mod (2 * n) + unat a"
    using *(6) assms(2) unat_16 [of "rd_ptr q"] by (simp add: unat_plus_no_wrap)
  have eq: "empty_during_batched_read a q \<longleftrightarrow> (if r mod (2 * n) < w mod (2 * n)
      then r mod (2 * n) + unat a > w mod (2 * n) else r mod (2 * n) + unat a > 2 * n + w mod (2 * n))"
    using *(6,7) sum sum2 by (simp add: empty_during_batched_read_def word_less_nat_alt)
  from *(1-3) show ?thesis
    by (cases rule: circle_cases) (use eq * in auto)
qed

section \<open>Runs of a queue\<close>

text \<open>A host pushes when there is space and pops when there is data, several entries at a time.\<close>

datatype queue_op = Push u32 | Pop u32

fun guarded_op :: "queue_op \<Rightarrow> tt_queue_ptr \<Rightarrow> tt_queue_ptr" where
  "guarded_op (Push a) q = (if a \<le> free_space q then (case incr_wr a q of Some q' \<Rightarrow> q' | None \<Rightarrow> q) else q)"
| "guarded_op (Pop a) q = (if a \<le> occupancy q then (case incr_rd a q of Some q' \<Rightarrow> q' | None \<Rightarrow> q) else q)"

fun counter_op :: "nat \<Rightarrow> queue_op \<Rightarrow> nat \<times> nat \<Rightarrow> nat \<times> nat" where
  "counter_op n (Push a) (r, w) = (if unat a \<le> n - (w - r) then (r, w + unat a) else (r, w))"
| "counter_op n (Pop a) (r, w) = (if unat a \<le> w - r then (r + unat a, w) else (r, w))"

interpretation queue_ptr: simulation "\<lambda>(r, w). counts n r w" "counter_op n" guarded_op for n
proof unfold_locales
  fix a :: "nat \<times> nat" and q x
  assume rel: "(case a of (r, w) \<Rightarrow> counts n r w) q"
  obtain r w where a: "a = (r, w)" by force
  then have c: "counts n r w q" using rel by simp
  show "(case counter_op n x a of (r, w) \<Rightarrow> counts n r w) (guarded_op x q)"
  proof (cases x)
    case (Push k)
    then show ?thesis
      using a c counts_incr_wr [OF c, of k] free_space_counts [OF c] by (auto simp: word_le_nat_alt)
  next
    case (Pop k)
    then show ?thesis
      using a c counts_incr_rd [OF c, of k] occupancy_counts [OF c] by (auto simp: word_le_nat_alt)
  qed
qed

text \<open>C24 Queue pointers count exactly: after any guarded pushes and pops on a new queue of at most
  \<open>2 ^ 15\<close> slots, with \<open>r\<close> entries read and \<open>w\<close> written so far, the occupancy is \<open>w - r\<close> and never more
  than the slots, the free space is the rest, empty and full tell their cases apart, and the two
  indices are \<open>w\<close> and \<open>r\<close> modulo the slots.\<close>

theorem queue_pointers_count:
  assumes "0 < s" and "s \<le> 2 ^ 15"
  shows "let q = fold guarded_op ops (new_tt_queue_ptr s); n = unat s;
             (r, w) = fold (counter_op n) ops (0, 0)
         in unat (occupancy q) = w - r \<and> w - r \<le> n \<and> unat (free_space q) = n - (w - r)
            \<and> (empty_queue q \<longleftrightarrow> w = r) \<and> (full_queue q \<longleftrightarrow> w - r = n)
            \<and> unat (get_wr_ptr q) = w mod n \<and> unat (get_rd_ptr q) = r mod n"
proof -
  let ?q = "fold guarded_op ops (new_tt_queue_ptr s)"
  obtain r w where rw: "fold (counter_op (unat s)) ops (0, 0) = (r, w)" by force
  have c: "counts (unat s) r w ?q"
    using queue_ptr.simulate_run [of "unat s" "(0, 0)" "new_tt_queue_ptr s" ops] counts_new [OF assms] rw
    by simp
  then have "w - r \<le> unat s" by (auto simp: counts_def)
  then show ?thesis
    using occupancy_counts [OF c] free_space_counts [OF c] empty_counts [OF c] full_counts [OF c]
      indices_counts [OF c] rw
    by (simp add: Let_def)
qed

theorem queue_pointers_count_witness:
  "let q = fold guarded_op [Push 3, Pop 2, Push 3, Pop 9, Push 1] (new_tt_queue_ptr 4)
   in unat (occupancy q) = 4 \<and> full_queue q \<and> \<not> empty_queue q \<and> get_wr_ptr q = 2 \<and> get_rd_ptr q = 2"
  using queue_pointers_count [of 4 "[Push 3, Pop 2, Push 3, Pop 9, Push 1]"]
  by (simp add: word_unat_eq_iff Let_def)

text \<open>
  The check for a batched read is right on queues that are not empty. On an empty queue it compares
  with the limit, and lets a batch be read that is not there.
\<close>

lemma empty_batched_read_not_seen:
  "empty_queue (new_tt_queue_ptr 4) \<and> \<not> empty_during_batched_read 1 (new_tt_queue_ptr 4)"
  by (simp add: empty_queue_def new_tt_queue_ptr_def empty_during_batched_read_def)

text \<open>On a queue with entries, a batched read is refused exactly when it is larger than the
  occupancy; on an empty queue only when it is larger than twice the slots.\<close>

theorem batched_read_exact:
  assumes "0 < s" and "s \<le> 2 ^ 15" and "a < 2 ^ 31"
  shows "let q = fold guarded_op ops (new_tt_queue_ptr s)
         in empty_during_batched_read a q \<longleftrightarrow>
              (if empty_queue q then unat a > 2 * unat s else unat a > unat (occupancy q))"
proof -
  let ?q = "fold guarded_op ops (new_tt_queue_ptr s)"
  obtain r w where rw: "fold (counter_op (unat s)) ops (0, 0) = (r, w)" by force
  have c: "counts (unat s) r w ?q"
    using queue_ptr.simulate_run [of "unat s" "(0, 0)" "new_tt_queue_ptr s" ops] counts_new [OF assms(1,2)] rw
    by simp
  have "unat a < 2 ^ 31" using assms(3) by (simp add: word_less_nat_alt)
  then show ?thesis
    using batched_read_counts [OF c, of a] empty_counts [OF c] occupancy_counts [OF c]
    by (simp add: Let_def)
qed

theorem batched_read_exact_witness:
  "let q = fold guarded_op [Push 3, Pop 2, Push 3] (new_tt_queue_ptr 4)
   in empty_during_batched_read 5 q \<longleftrightarrow> (if empty_queue q then 5 > (8 :: nat) else 5 > unat (occupancy q))"
  using batched_read_exact [of 4 5 "[Push 3, Pop 2, Push 3]"] by (simp add: Let_def)

end
