(* ===== verification/SizeLib.thy ===== *)
theory SizeLib
  imports Prelude
begin

text \<open>
  Sizes of tiles, micro-blocks, macro-blocks and queue entries (\<open>src/common/size_lib.cpp\<close>, with
  \<open>align_up\<close> of \<open>src/common/io_lib.cpp\<close>). A C++ \<open>int\<close> is an \<open>int\<close>; the rounding of dimensions through
  \<open>float\<close> is exact below \<open>2 ^ 24\<close>. The alignment of the NOC depends on the architecture and is a parameter.
\<close>

section \<open>Formats\<close>

datatype DataFormat =
  Float32 | Float16 | Bfp8 | Bfp4 | Bfp2 | Float16_b | Bfp8_b | Bfp4_b | Bfp2_b | Lf8 | Fp8_e4m3
| UInt16 | Int8 | UInt8 | Tf32 | Int32 | RawUInt8 | RawUInt16 | RawUInt32 | InvalidFormat

datatype size_error = UnsupportedFormat DataFormat

definition noc_address_alignment_wormhole :: u32 where "noc_address_alignment_wormhole = 32"
definition noc_address_alignment_grayskull :: u32 where "noc_address_alignment_grayskull = 32"
definition noc_address_alignment_blackhole :: u32 where "noc_address_alignment_blackhole = 64"

definition align_up :: "u32 \<Rightarrow> u32 \<Rightarrow> u32" where
  "align_up dim alignment = (let new_dim = dim - 1 in new_dim - (new_dim mod alignment) + alignment)"

definition sizeof_tile_header :: int where "sizeof_tile_header = 32"

fun sizeof_format :: "DataFormat \<Rightarrow> size_error + int" where
  "sizeof_format Float32 = Inr 4"
| "sizeof_format Tf32 = Inr 4"
| "sizeof_format Float16 = Inr 2"
| "sizeof_format Float16_b = Inr 2"
| "sizeof_format UInt16 = Inr 2"
| "sizeof_format Int8 = Inr 1"
| "sizeof_format UInt8 = Inr 1"
| "sizeof_format Int32 = Inr 4"
| "sizeof_format RawUInt8 = Inr 1"
| "sizeof_format RawUInt16 = Inr 2"
| "sizeof_format RawUInt32 = Inr 4"
| "sizeof_format InvalidFormat = Inr 0xbadface"
| "sizeof_format f = Inl (UnsupportedFormat f)"

section \<open>Tiles\<close>

text \<open>\<open>ceil(float(x) / 16)\<close>.\<close>

definition ceil_div_16 :: "int \<Rightarrow> int" where
  "ceil_div_16 x = - ((- x) div 16)"

definition tile_size_unpadded :: "DataFormat \<Rightarrow> int \<Rightarrow> int \<Rightarrow> int \<Rightarrow> int" where
  "tile_size_unpadded f header_size tile_height tile_width =
     (let num_faces_x = ceil_div_16 tile_width;
          exponent_section_height =
            (if tile_height < 16 then 16 else (ceil_div_16 tile_height * 16) * num_faces_x)
      in case f of
           Float32 \<Rightarrow> tile_height * tile_width * 4 + header_size
         | Tf32 \<Rightarrow> tile_height * tile_width * 4 + header_size
         | Float16 \<Rightarrow> tile_height * tile_width * 2 + header_size
         | Bfp8 \<Rightarrow> tile_height * tile_width + exponent_section_height + header_size
         | Bfp4 \<Rightarrow> (tile_height * tile_width) sdiv 2 + exponent_section_height + header_size
         | Bfp2 \<Rightarrow> (tile_height * tile_width) sdiv 4 + exponent_section_height + header_size
         | Float16_b \<Rightarrow> tile_height * tile_width * 2 + header_size
         | Bfp8_b \<Rightarrow> tile_height * tile_width + exponent_section_height + header_size
         | Bfp4_b \<Rightarrow> (tile_height * tile_width) sdiv 2 + exponent_section_height + header_size
         | Bfp2_b \<Rightarrow> (tile_height * tile_width) sdiv 4 + exponent_section_height + header_size
         | Lf8 \<Rightarrow> tile_height * tile_width + header_size
         | Fp8_e4m3 \<Rightarrow> tile_height * tile_width + header_size
         | UInt16 \<Rightarrow> tile_height * tile_width * 2 + header_size
         | Int8 \<Rightarrow> tile_height * tile_width + header_size
         | UInt8 \<Rightarrow> tile_height * tile_width + header_size
         | Int32 \<Rightarrow> tile_height * tile_width * 4 + header_size
         | RawUInt8 \<Rightarrow> tile_height * tile_width + header_size
         | RawUInt16 \<Rightarrow> tile_height * tile_width * 2 + header_size
         | RawUInt32 \<Rightarrow> tile_height * tile_width * 4 + header_size
         | InvalidFormat \<Rightarrow> 0)"

definition get_tile_size_in_bytes :: "u32 \<Rightarrow> DataFormat \<Rightarrow> bool \<Rightarrow> int \<Rightarrow> int \<Rightarrow> int" where
  "get_tile_size_in_bytes alignment f include_header_padding tile_height tile_width =
     (let size' = tile_size_unpadded f (if include_header_padding then 16 else 0) tile_height tile_width
      in if include_header_padding then sint (align_up (word_of_int size') alignment) else size')"

definition get_size_of_n_tiles_in_bytes :: "u32 \<Rightarrow> DataFormat \<Rightarrow> int \<Rightarrow> bool \<Rightarrow> int" where
  "get_size_of_n_tiles_in_bytes alignment f num_tiles include_header_padding =
     get_tile_size_in_bytes alignment f include_header_padding 32 32 * num_tiles"

section \<open>Blocks and entries\<close>

definition get_ublock_size_in_tiles :: "int \<Rightarrow> int \<Rightarrow> int" where
  "get_ublock_size_in_tiles ublock_ct ublock_rt = ublock_ct * ublock_rt"

definition get_mblock_size_in_tiles :: "int \<Rightarrow> int \<Rightarrow> int \<Rightarrow> int \<Rightarrow> int" where
  "get_mblock_size_in_tiles ublock_ct ublock_rt mblock_m mblock_n =
     ublock_ct * ublock_rt * mblock_m * mblock_n"

definition get_entry_size_in_tiles :: "int \<Rightarrow> int \<Rightarrow> int \<Rightarrow> int \<Rightarrow> int \<Rightarrow> int" where
  "get_entry_size_in_tiles ublock_ct ublock_rt mblock_m mblock_n t =
     get_mblock_size_in_tiles ublock_ct ublock_rt mblock_m mblock_n * t"

definition get_mblock_size_in_bytes ::
  "u32 \<Rightarrow> DataFormat \<Rightarrow> bool \<Rightarrow> int \<Rightarrow> int \<Rightarrow> int \<Rightarrow> int \<Rightarrow> int" where
  "get_mblock_size_in_bytes alignment f include_header_padding ublock_ct ublock_rt mblock_m mblock_n =
     get_mblock_size_in_tiles ublock_ct ublock_rt mblock_m mblock_n
       * get_tile_size_in_bytes alignment f include_header_padding 32 32"

definition get_entry_size_in_bytes ::
  "u32 \<Rightarrow> DataFormat \<Rightarrow> bool \<Rightarrow> int \<Rightarrow> int \<Rightarrow> int \<Rightarrow> int \<Rightarrow> int \<Rightarrow> int \<Rightarrow> int \<Rightarrow> int" where
  "get_entry_size_in_bytes alignment f include_header_padding ublock_ct ublock_rt mblock_m mblock_n t
       tile_height tile_width =
     get_entry_size_in_tiles ublock_ct ublock_rt mblock_m mblock_n t
       * get_tile_size_in_bytes alignment f include_header_padding tile_height tile_width"

definition get_mblock_size_in_elements :: "int \<Rightarrow> int \<Rightarrow> int \<Rightarrow> int \<Rightarrow> int" where
  "get_mblock_size_in_elements ublock_ct ublock_rt mblock_m mblock_n =
     get_mblock_size_in_tiles ublock_ct ublock_rt mblock_m mblock_n * 32 * 32"

definition get_entry_size_in_elements :: "int \<Rightarrow> int \<Rightarrow> int \<Rightarrow> int \<Rightarrow> int \<Rightarrow> int \<Rightarrow> int \<Rightarrow> int" where
  "get_entry_size_in_elements ublock_ct ublock_rt mblock_m mblock_n t tile_height tile_width =
     get_entry_size_in_tiles ublock_ct ublock_rt mblock_m mblock_n t * tile_height * tile_width"

section \<open>Bounds\<close>

lemma align_up_int:
  fixes s a :: int
  assumes "0 < s" and "s + a < 2 ^ 31" and "0 < a"
  shows "uint (align_up (word_of_int s) (word_of_int a)) = (s - 1) - (s - 1) mod a + a"
    and "sint (align_up (word_of_int s) (word_of_int a)) = (s - 1) - (s - 1) mod a + a"
proof -
  let ?r = "(s - 1) - (s - 1) mod a + a"
  have m: "0 \<le> (s - 1) mod a" "(s - 1) mod a < a" "(s - 1) mod a \<le> s - 1"
    using assms(1,3) zmod_le_nonneg_dividend [of "s - 1" a] by simp_all
  have "?r \<le> s - 1 + a" using m(1) by simp
  also have "\<dots> < 2 ^ 31" using assms(2) by simp
  finally have bounds: "0 \<le> ?r" "?r < 2 ^ 31" using m(3) assms(3) by simp_all
  have eq1: "(word_of_int s :: u32) - 1 = word_of_int (s - 1)" by simp
  have u: "uint (word_of_int x :: u32) = x" if "0 \<le> x" "x < 2 ^ 31" for x
    using that by (simp add: take_bit_int_eq_self unsigned_of_int)
  have v: "sint (word_of_int x :: u32) = x" if "0 \<le> x" "x < 2 ^ 31" for x
    using that by (simp add: signed_of_int signed_take_bit_int_eq_self)
  have "s - 1 < 2 ^ 31" "a < 2 ^ 31" using assms by simp_all
  then have mod': "word_of_int (s - 1) mod (word_of_int a :: u32) = word_of_int ((s - 1) mod a)"
    unfolding word_mod_def using assms(1,3) by (subst (1 2) u) simp_all
  have eq: "align_up (word_of_int s) (word_of_int a) = word_of_int ?r"
    unfolding align_up_def Let_def eq1 mod' by simp
  show "uint (align_up (word_of_int s) (word_of_int a)) = ?r"
    unfolding eq using bounds by (rule u)
  show "sint (align_up (word_of_int s) (word_of_int a)) = ?r"
    unfolding eq using bounds by (rule v)
qed

lemma unpadded_header: "f \<noteq> InvalidFormat \<Longrightarrow> tile_size_unpadded f 16 h w = tile_size_unpadded f 0 h w + 16"
  by (cases f) (simp_all add: tile_size_unpadded_def Let_def)

lemma ceil_div_bounds: "0 \<le> x \<Longrightarrow> x \<le> 1024 \<Longrightarrow> 0 \<le> ceil_div_16 x \<and> ceil_div_16 x \<le> 64"
  by (simp add: ceil_div_16_def) linarith

lemma unpadded_bounds:
  assumes "0 \<le> h" "h \<le> 1024" "0 \<le> w" "w \<le> 1024"
  shows "0 \<le> tile_size_unpadded f 0 h w" and "tile_size_unpadded f 0 h w \<le> 2 ^ 23"
proof -
  have hw: "0 \<le> h * w" "h * w \<le> 1024 * 1024"
    using assms mult_mono [of h 1024 w 1024] by simp_all
  have c: "0 \<le> ceil_div_16 h" "ceil_div_16 h \<le> 64" "0 \<le> ceil_div_16 w" "ceil_div_16 w \<le> 64"
    using assms ceil_div_bounds by simp_all
  then have e: "0 \<le> ceil_div_16 h * 16 * ceil_div_16 w" "ceil_div_16 h * 16 * ceil_div_16 w \<le> 64 * 16 * 64"
    using mult_mono [of "ceil_div_16 h * 16" "64 * 16" "ceil_div_16 w" 64] by simp_all
  have d: "(h * w) sdiv 2 = h * w div 2" "(h * w) sdiv 4 = h * w div 4"
    using hw(1) by (simp_all add: signed_divide_int_def sgn_if)
  have half: "x div 2 \<le> 1024 * 1024 \<and> x div 4 \<le> 1024 * 1024" if "0 \<le> x" "x \<le> 1024 * 1024" for x :: int
    using that by presburger
  show "0 \<le> tile_size_unpadded f 0 h w" using hw e by (cases f) (simp_all add: tile_size_unpadded_def Let_def d)
  show "tile_size_unpadded f 0 h w \<le> 2 ^ 23"
    using hw e half [OF hw] by (cases f) (simp_all add: tile_size_unpadded_def Let_def d)
qed

text \<open>A tile with its header is padded tightly: for dimensions up to 1024 and a NOC alignment that is
  positive and at most 4096, the padded size is a multiple of the alignment, holds the tile and its
  header of 16 bytes, and wastes less than the alignment.\<close>

theorem tile_padding_tight:
  assumes "f \<noteq> InvalidFormat" and "0 \<le> h" "h \<le> 1024" "0 \<le> w" "w \<le> 1024" and "0 < a" "a \<le> 4096"
  shows "let payload = get_tile_size_in_bytes (word_of_int a) f False h w;
             padded = get_tile_size_in_bytes (word_of_int a) f True h w
         in padded mod a = 0 \<and> payload + 16 \<le> padded \<and> padded < payload + 16 + a"
proof -
  let ?s = "tile_size_unpadded f 0 h w + 16"
  note b = unpadded_bounds [OF assms(2-5), of f]
  have "sint (align_up (word_of_int ?s) (word_of_int a)) = (?s - 1) - (?s - 1) mod a + a"
    using b assms(6,7) by (intro align_up_int(2)) simp_all
  then have padded: "get_tile_size_in_bytes (word_of_int a) f True h w = (?s - 1) - (?s - 1) mod a + a"
    using unpadded_header [OF assms(1), of h w] by (simp add: get_tile_size_in_bytes_def Let_def)
  have "((?s - 1) - (?s - 1) mod a + a) mod a = 0" by (simp add: minus_mod_eq_mult_div)
  moreover have "0 \<le> (?s - 1) mod a" "(?s - 1) mod a < a" using assms(6) by simp_all
  ultimately show ?thesis
    unfolding padded by (simp add: get_tile_size_in_bytes_def Let_def)
qed

theorem tile_padding_tight_witness:
  "get_tile_size_in_bytes 64 Bfp8_b False 32 32 = 1088
   \<and> get_tile_size_in_bytes 64 Bfp8_b True 32 32 mod 64 = 0
   \<and> 1104 \<le> get_tile_size_in_bytes 64 Bfp8_b True 32 32 \<and> get_tile_size_in_bytes 64 Bfp8_b True 32 32 < 1168"
  using tile_padding_tight [of Bfp8_b 32 32 64]
  by (simp add: get_tile_size_in_bytes_def [of _ _ False] tile_size_unpadded_def ceil_div_16_def Let_def)

text \<open>For every format with a datum size, a tile without header is its height times its width times
  that size.\<close>

theorem tile_size_of_data:
  assumes "sizeof_format f = Inr n" and "f \<noteq> InvalidFormat"
  shows "get_tile_size_in_bytes a f False h w = h * w * n"
  using assms by (cases f) (auto simp: get_tile_size_in_bytes_def tile_size_unpadded_def Let_def)

theorem tile_size_of_data_witness: "get_tile_size_in_bytes 32 Float16_b False 16 32 = 1024"
  using tile_size_of_data [of Float16_b 2 32 16 32] by simp

end
