(* ===== verification/RouterResources.thy ===== *)
theory RouterResources
  imports SizeLib
begin

text \<open>
  The books net2pipe keeps on the resources of a core: \<open>tt::CoreResources\<close>
  (\<open>src/common/tt_core_resource_tracker.{hpp,cpp}\<close>) and \<open>router::HwCoreAttributes\<close>
  (\<open>src/src/net2pipe/{inc,src}/core_resource_tracker.*\<close>), with the buffers and their attributes. The map
  of instance counts is a function that is zero for absent keys, as its \<open>operator[]\<close> makes it. A failed
  \<open>TT_ASSERT\<close> throws.
\<close>

section \<open>Buffers\<close>

type_synonym unique_id = u64

datatype RouterBufferType = InputBuffer | OutputBuffer | IntermediateBuffer | DRAMBuffer | RelayBuffer | PrologInterBuffer

record buffer_info =
  buffer_t :: int
  buffer_type :: RouterBufferType
  buffer_stream_id :: int
  ublock_rt :: int
  ublock_ct :: int
  total_epoch_tiles :: int
  mblock_m :: int
  mblock_n :: int
  mblock_k :: int
  allocated_size_tiles :: int
  scatter_gather_num_tiles :: int
  replication_factor :: int
  data_format :: DataFormat
  tile_dim_x :: int
  tile_dim_y :: int
  untilized :: bool
  is_scatter :: bool

definition tile_size_in_bytes :: "u32 \<Rightarrow> buffer_info \<Rightarrow> int" where
  "tile_size_in_bytes a b =
     get_tile_size_in_bytes a (data_format b) (\<not> untilized b) (tile_dim_y b) (tile_dim_x b)"

definition allocated_size_in_bytes :: "u32 \<Rightarrow> buffer_info \<Rightarrow> int" where
  "allocated_size_in_bytes a b = max (replication_factor b) 1 *
     get_entry_size_in_bytes a (data_format b) (\<not> untilized b) (allocated_size_tiles b) 1 1 1 1
       (tile_dim_y b) (tile_dim_x b)"

definition size_in_tiles :: "buffer_info \<Rightarrow> int" where
  "size_in_tiles b = max (replication_factor b) 1 *
     get_entry_size_in_tiles (ublock_ct b) (ublock_rt b) (mblock_m b) (mblock_n b) (buffer_t b)"

definition size_in_bytes :: "u32 \<Rightarrow> buffer_info \<Rightarrow> int" where
  "size_in_bytes a b = max (replication_factor b) 1 *
     get_entry_size_in_bytes a (data_format b) (\<not> untilized b) (ublock_ct b) (ublock_rt b)
       (mblock_m b) (mblock_n b) (buffer_t b) (tile_dim_y b) (tile_dim_x b)"

record BufferAttributes =
  outputs_to_dram :: int
  num_multicasts :: int
  num_ethernet_io_link_streams :: int
  forking_factor :: int
  input_from_dram :: bool

definition new_BufferAttributes :: BufferAttributes where
  "new_BufferAttributes = \<lparr>outputs_to_dram = 0, num_multicasts = 0, num_ethernet_io_link_streams = 0,
     forking_factor = 1, input_from_dram = False\<rparr>"

definition has_multicast :: "BufferAttributes \<Rightarrow> bool" where
  "has_multicast a \<longleftrightarrow> num_multicasts a > 0"

definition has_outputs_to_dram :: "BufferAttributes \<Rightarrow> bool" where
  "has_outputs_to_dram a \<longleftrightarrow> outputs_to_dram a > 0"

definition has_ethernet_io_streams :: "BufferAttributes \<Rightarrow> bool" where
  "has_ethernet_io_streams a \<longleftrightarrow> num_ethernet_io_link_streams a > 0"

definition merge_attributes :: "BufferAttributes \<Rightarrow> BufferAttributes \<Rightarrow> BufferAttributes" where
  "merge_attributes a b = new_BufferAttributes\<lparr>
     outputs_to_dram := outputs_to_dram a + outputs_to_dram b,
     input_from_dram := input_from_dram a \<or> input_from_dram b,
     num_multicasts := num_multicasts a + num_multicasts b,
     num_ethernet_io_link_streams := num_ethernet_io_link_streams a + num_ethernet_io_link_streams b\<rparr>"

section \<open>Core resources\<close>

datatype ResourceUsageType =
  L1_MEMORY | INPUT_FROM_DRAM | OUTPUT_TO_DRAM | MULTICAST_STREAMS | ETHERNET_STREAMS | EXTRA_STREAMS

record resource_usage_entry =
  resource_name :: string
  used_amount :: int
  limit_amount :: int

record core_books =
  l1_memory_size :: int
  max_input_from_dram_streams :: int
  max_output_to_dram_streams :: int
  max_mcast_streams_per_core :: int
  max_num_non_mcast_eth_streams :: int
  extra_tile_size_header_buffer_size :: int
  max_extra_streams :: int
  max_num_eth_streams_total :: int
  used_l1_memory :: int
  used_input_from_dram_slots :: int
  used_output_to_dram_slots :: int
  used_io_buffer_count :: int
  used_multicast_non_eth_stream_slots :: int
  used_ethernet_stream_slots :: int
  used_extra_streams :: int
  used_tile_sizes :: "int set"

text \<open>The operations of the base class act on every record that extends it.\<close>

type_synonym 'z core = "'z core_books_scheme"

definition available_l1_bytes :: "'z core \<Rightarrow> int" where
  "available_l1_bytes c = l1_memory_size c - used_l1_memory c"

definition has_extra_streams_available :: "'z core \<Rightarrow> int \<Rightarrow> bool" where
  "has_extra_streams_available c num \<longleftrightarrow> used_extra_streams c + num \<le> max_extra_streams c"

definition number_of_available_extra_streams :: "'z core \<Rightarrow> int" where
  "number_of_available_extra_streams c = max_extra_streams c - used_extra_streams c"

definition used_mcast_streams_by_ethernet :: "'z core \<Rightarrow> int" where
  "used_mcast_streams_by_ethernet c =
     max 0 (used_ethernet_stream_slots c - max_num_non_mcast_eth_streams c)"

definition get_used_mcast_stream_count :: "'z core \<Rightarrow> int" where
  "get_used_mcast_stream_count c =
     used_multicast_non_eth_stream_slots c + used_mcast_streams_by_ethernet c"

definition any_resource_limits_exceeded_with_ignore_list :: "ResourceUsageType set \<Rightarrow> 'z core \<Rightarrow> bool" where
  "any_resource_limits_exceeded_with_ignore_list ignored c \<longleftrightarrow>
     (EXTRA_STREAMS \<notin> ignored \<and> used_extra_streams c > max_extra_streams c)
     \<or> (L1_MEMORY \<notin> ignored \<and> used_l1_memory c > l1_memory_size c)
     \<or> (INPUT_FROM_DRAM \<notin> ignored \<and> used_input_from_dram_slots c > max_input_from_dram_streams c)
     \<or> (OUTPUT_TO_DRAM \<notin> ignored \<and> used_output_to_dram_slots c > max_output_to_dram_streams c)
     \<or> (ETHERNET_STREAMS \<notin> ignored \<and> used_ethernet_stream_slots c > max_num_eth_streams_total c)
     \<or> (MULTICAST_STREAMS \<notin> ignored
          \<and> used_multicast_non_eth_stream_slots c > max_mcast_streams_per_core c)"

definition exceeded_entry ::
  "ResourceUsageType set \<Rightarrow> ResourceUsageType \<Rightarrow> string \<Rightarrow> int \<Rightarrow> int \<Rightarrow> resource_usage_entry list" where
  "exceeded_entry ignored t name used lim =
     (if t \<notin> ignored \<and> used > lim
      then [\<lparr>resource_name = name, used_amount = used, limit_amount = lim\<rparr>] else [])"

definition get_exceeded_resources_with_ignore_list ::
  "ResourceUsageType set \<Rightarrow> 'z core \<Rightarrow> resource_usage_entry list" where
  "get_exceeded_resources_with_ignore_list ignored c =
     exceeded_entry ignored EXTRA_STREAMS ''extra streams'' (used_extra_streams c) (max_extra_streams c)
     @ exceeded_entry ignored L1_MEMORY ''l1 memory'' (used_l1_memory c) (l1_memory_size c)
     @ exceeded_entry ignored INPUT_FROM_DRAM ''input from dram slots'' (used_input_from_dram_slots c)
         (max_input_from_dram_streams c)
     @ exceeded_entry ignored OUTPUT_TO_DRAM ''output to dram slots'' (used_output_to_dram_slots c)
         (max_output_to_dram_streams c)
     @ exceeded_entry ignored ETHERNET_STREAMS ''ethernet streams'' (used_ethernet_stream_slots c)
         (max_num_eth_streams_total c)
     @ exceeded_entry ignored MULTICAST_STREAMS ''multicast streams''
         (used_multicast_non_eth_stream_slots c) (max_mcast_streams_per_core c)"

definition extra_bytes_required_from_buffer_tile_size :: "'z core \<Rightarrow> int \<Rightarrow> int" where
  "extra_bytes_required_from_buffer_tile_size c tile_size =
     (let need_new_tile_size_buffer = tile_size \<notin> used_tile_sizes c
      in if need_new_tile_size_buffer \<and> used_tile_sizes c \<noteq> {}
         then extra_tile_size_header_buffer_size c else 0)"

definition tile_size_is_used :: "'z core \<Rightarrow> int \<Rightarrow> bool" where
  "tile_size_is_used c tile_size \<longleftrightarrow> tile_size \<in> used_tile_sizes c"

definition data_format_tile_size_is_used :: "u32 \<Rightarrow> 'z core \<Rightarrow> DataFormat \<Rightarrow> bool \<Rightarrow> bool" where
  "data_format_tile_size_is_used a c df include_tile_header =
     tile_size_is_used c (get_tile_size_in_bytes a df include_tile_header 32 32)"

definition has_available_multicast_stream_slots :: "'z core \<Rightarrow> int \<Rightarrow> bool" where
  "has_available_multicast_stream_slots c num_streams \<longleftrightarrow>
     used_multicast_non_eth_stream_slots c + used_mcast_streams_by_ethernet c + num_streams
       \<le> max_mcast_streams_per_core c
     \<and> has_extra_streams_available c num_streams"

definition has_available_ethernet_stream_slots :: "'z core \<Rightarrow> int \<Rightarrow> bool" where
  "has_available_ethernet_stream_slots c num_streams \<longleftrightarrow>
     used_ethernet_stream_slots c + used_multicast_non_eth_stream_slots c + num_streams
       \<le> max_num_eth_streams_total c"

definition can_allocate_bytes :: "'z core \<Rightarrow> int \<Rightarrow> bool" where
  "can_allocate_bytes c num_bytes \<longleftrightarrow> used_l1_memory c + num_bytes \<le> l1_memory_size c"

definition has_available_output_to_dram_slots :: "'z core \<Rightarrow> int \<Rightarrow> bool" where
  "has_available_output_to_dram_slots c num_outputs \<longleftrightarrow>
     used_output_to_dram_slots c + num_outputs \<le> max_output_to_dram_streams c"

definition number_of_available_input_from_dram_slots :: "'z core \<Rightarrow> int" where
  "number_of_available_input_from_dram_slots c =
     max_input_from_dram_streams c - used_input_from_dram_slots c"

definition has_available_input_from_dram_slot :: "'z core \<Rightarrow> bool" where
  "has_available_input_from_dram_slot c \<longleftrightarrow> used_input_from_dram_slots c < max_input_from_dram_streams c"

definition add_multicast_streams :: "int \<Rightarrow> 'z core \<Rightarrow> 'z core" where
  "add_multicast_streams n c =
     c\<lparr>used_multicast_non_eth_stream_slots := used_multicast_non_eth_stream_slots c + n\<rparr>"

definition add_inputs_from_dram :: "int \<Rightarrow> 'z core \<Rightarrow> 'z core" where
  "add_inputs_from_dram n c = c\<lparr>used_input_from_dram_slots := used_input_from_dram_slots c + n\<rparr>"

definition add_outputs_to_dram :: "int \<Rightarrow> 'z core \<Rightarrow> 'z core" where
  "add_outputs_to_dram n c = c\<lparr>used_output_to_dram_slots := used_output_to_dram_slots c + n\<rparr>"

definition allocate_bytes :: "int \<Rightarrow> 'z core \<Rightarrow> 'z core" where
  "allocate_bytes n c = c\<lparr>used_l1_memory := used_l1_memory c + n\<rparr>"

definition add_ethernet_streams :: "int \<Rightarrow> 'z core \<Rightarrow> 'z core" where
  "add_ethernet_streams n c = c\<lparr>used_ethernet_stream_slots := used_ethernet_stream_slots c + n\<rparr>"

definition adjust_extra_streams :: "int \<Rightarrow> 'z core \<Rightarrow> 'z core" where
  "adjust_extra_streams n c = c\<lparr>used_extra_streams := used_extra_streams c + n\<rparr>"

lemmas core_updates = add_multicast_streams_def add_inputs_from_dram_def add_outputs_to_dram_def
  allocate_bytes_def add_ethernet_streams_def adjust_extra_streams_def

section \<open>A cluster of cores\<close>

datatype tracker_error =
  NoCores | CoreNotAvailable | EraseAtEnd | InsufficientL1 | ExceededL1 | InsufficientRelaySlots
| InsufficientMulticastStreams | InsufficientDramInputs | InsufficientDramOutputs
| InsufficientEthernetStreams | MoreEthernetStreamsThanBuffers | NoExtraBytes | PipeNotResident

definition new_ClusterResourceModel ::
  "('loc \<times> 'z core) list \<Rightarrow> tracker_error + ('loc \<times> 'z core) list" where
  "new_ClusterResourceModel cores = (if cores = [] then Inl NoCores else Inr cores)"

definition get_core_resources :: "('loc \<times> 'z core) list \<Rightarrow> 'loc \<Rightarrow> tracker_error + 'z core" where
  "get_core_resources cores location =
     (case map_of cores location of Some c \<Rightarrow> Inr c | None \<Rightarrow> Inl CoreNotAvailable)"

definition any_core_exceeded :: "ResourceUsageType set \<Rightarrow> ('loc \<times> 'z core) list \<Rightarrow> bool" where
  "any_core_exceeded ignored cores =
     list_ex (\<lambda>(_, c). any_resource_limits_exceeded_with_ignore_list ignored c) cores"

end
