(* ===== verification/RouterCore.thy ===== *)
theory RouterCore
  imports RouterResources
begin

text \<open>
  \<open>router::HwCoreAttributes\<close>: buffers placed on a core and the gather and multicast pipes resident on
  it (\<open>src/src/net2pipe/src/core_resource_tracker.cpp\<close>).
\<close>

definition MAX_STREAMS_USED_FOR_OPTIMIZED_GATHER :: int where
  "MAX_STREAMS_USED_FOR_OPTIMIZED_GATHER = 3"
definition RELAY_BUFFER_STREAM_FIRST :: nat where "RELAY_BUFFER_STREAM_FIRST = 33"
definition RELAY_BUFFER_STREAM_LAST :: nat where "RELAY_BUFFER_STREAM_LAST = 64"
definition RELAY_BUFFER_LIMIT :: nat where
  "RELAY_BUFFER_LIMIT = RELAY_BUFFER_STREAM_LAST - RELAY_BUFFER_STREAM_FIRST"
definition MAX_MCAST_STREAMS_PER_CORE :: int where "MAX_MCAST_STREAMS_PER_CORE = 4"
definition MAX_EXTRA_STREAMS_PER_CORE :: int where "MAX_EXTRA_STREAMS_PER_CORE = 64 - 40"
definition TILE_HEADER_SIZE_BYTES :: int where "TILE_HEADER_SIZE_BYTES = 16"
definition MAX_NUM_NON_MCAST_ETH_STREAMS :: int where "MAX_NUM_NON_MCAST_ETH_STREAMS = 27"
definition MAX_NUM_ETH_STREAMS_TOTAL :: int where
  "MAX_NUM_ETH_STREAMS_TOTAL = MAX_NUM_NON_MCAST_ETH_STREAMS + MAX_MCAST_STREAMS_PER_CORE"
definition MAX_NUM_ETH_HARDWARE_STREAMS_TOTAL :: int where "MAX_NUM_ETH_HARDWARE_STREAMS_TOTAL = 7"
definition MAX_TILES_MSG_INFO_BUF_PER_PHASE :: int where "MAX_TILES_MSG_INFO_BUF_PER_PHASE = 2048"

lemmas router_constants = MAX_STREAMS_USED_FOR_OPTIMIZED_GATHER_def RELAY_BUFFER_STREAM_FIRST_def
  RELAY_BUFFER_STREAM_LAST_def RELAY_BUFFER_LIMIT_def MAX_MCAST_STREAMS_PER_CORE_def
  MAX_EXTRA_STREAMS_PER_CORE_def TILE_HEADER_SIZE_BYTES_def MAX_NUM_NON_MCAST_ETH_STREAMS_def
  MAX_NUM_ETH_STREAMS_TOTAL_def MAX_NUM_ETH_HARDWARE_STREAMS_TOTAL_def
  MAX_TILES_MSG_INFO_BUF_PER_PHASE_def

record pipe_segment_hash =
  pipe_id :: unique_id
  outputs :: "unique_id list"

record HwCoreAttributes = core_books +
  resident_gather_multicast_pipes :: int
  resident_gather_pipe_input_counts :: "(pipe_segment_hash \<times> int) list"
  resident_multicast_pipes :: "pipe_segment_hash list"
  pipe_segment_instance_counts :: "pipe_segment_hash \<Rightarrow> int"
  relay_buffers :: "unique_id list"
  input_buffers :: "unique_id list"
  output_buffers :: "unique_id list"
  intermediate_buffers :: "unique_id list"
  resource_constraint_asserts_enabled :: bool
  max_num_gather_pipes_before_phase_based_gather :: int

text \<open>The environment variable that enables firmware ethernet streams is a parameter.\<close>

definition new_HwCoreAttributes :: "int \<Rightarrow> int \<Rightarrow> int \<Rightarrow> int \<Rightarrow> bool \<Rightarrow> int \<Rightarrow> HwCoreAttributes" where
  "new_HwCoreAttributes TT_ENABLE_FW_ETH_STREAMS l1_size max_input_from_dram_slots
       max_output_to_dram_slots supports_eth_links max_num_gather_pipes =
     \<lparr>l1_memory_size = l1_size, max_input_from_dram_streams = max_input_from_dram_slots,
      max_output_to_dram_streams = max_output_to_dram_slots,
      max_mcast_streams_per_core = MAX_MCAST_STREAMS_PER_CORE,
      max_num_non_mcast_eth_streams = MAX_NUM_NON_MCAST_ETH_STREAMS,
      extra_tile_size_header_buffer_size = MAX_TILES_MSG_INFO_BUF_PER_PHASE * TILE_HEADER_SIZE_BYTES,
      max_extra_streams = MAX_EXTRA_STREAMS_PER_CORE,
      max_num_eth_streams_total =
        (if supports_eth_links
         then if TT_ENABLE_FW_ETH_STREAMS = 1 then MAX_NUM_ETH_STREAMS_TOTAL
              else MAX_NUM_ETH_HARDWARE_STREAMS_TOTAL
         else 0),
      used_l1_memory = 0, used_input_from_dram_slots = 0, used_output_to_dram_slots = 0,
      used_io_buffer_count = 0, used_multicast_non_eth_stream_slots = 0,
      used_ethernet_stream_slots = 0, used_extra_streams = 0, used_tile_sizes = {},
      resident_gather_multicast_pipes = 0, resident_gather_pipe_input_counts = [],
      resident_multicast_pipes = [], pipe_segment_instance_counts = (\<lambda>_. 0), relay_buffers = [],
      input_buffers = [], output_buffers = [], intermediate_buffers = [],
      resource_constraint_asserts_enabled = True,
      max_num_gather_pipes_before_phase_based_gather = max_num_gather_pipes\<rparr>"

type_synonym router_op = "(HwCoreAttributes, tracker_error, unit) opn"

section \<open>Buffers\<close>

text \<open>\<open>erase\<close> of the end iterator is undefined behaviour; it is an error of its own here.\<close>

definition remove_input_buffer :: "unique_id \<Rightarrow> router_op" where
  "remove_input_buffer b c = (if b \<notin> set (input_buffers c) then (Inl EraseAtEnd, c)
     else (Inr (), c\<lparr>input_buffers := remove1 b (input_buffers c),
                     used_io_buffer_count := used_io_buffer_count c - 1\<rparr>))"

definition remove_output_buffer :: "unique_id \<Rightarrow> router_op" where
  "remove_output_buffer b c = (if b \<notin> set (output_buffers c) then (Inl EraseAtEnd, c)
     else (Inr (), c\<lparr>output_buffers := remove1 b (output_buffers c),
                     used_io_buffer_count := used_io_buffer_count c - 1\<rparr>))"

definition remove_relay_buffer :: "unique_id \<Rightarrow> router_op" where
  "remove_relay_buffer b c = (if b \<notin> set (relay_buffers c) then (Inl EraseAtEnd, c)
     else (Inr (), c\<lparr>relay_buffers := remove1 b (relay_buffers c),
                     used_io_buffer_count := used_io_buffer_count c - 1\<rparr>))"

definition add_to_buffer_count :: "HwCoreAttributes \<Rightarrow> HwCoreAttributes" where
  "add_to_buffer_count c = c\<lparr>used_io_buffer_count := used_io_buffer_count c + 1\<rparr>"

definition has_available_relay_buffer_slot :: "HwCoreAttributes \<Rightarrow> bool" where
  "has_available_relay_buffer_slot c \<longleftrightarrow>
     length (relay_buffers c) < RELAY_BUFFER_STREAM_LAST - RELAY_BUFFER_STREAM_FIRST"

definition next_available_relay_buffer_stream :: "HwCoreAttributes \<Rightarrow> nat" where
  "next_available_relay_buffer_stream c = length (relay_buffers c) + RELAY_BUFFER_STREAM_FIRST"

definition check_ethernet_below_buffers :: router_op where
  "check_ethernet_below_buffers c =
     (if resource_constraint_asserts_enabled c \<and> used_ethernet_stream_slots c > used_io_buffer_count c
      then (Inl MoreEthernetStreamsThanBuffers, c) else (Inr (), c))"

text \<open>Both compute the multicasts of the attributes and do not use them.\<close>

definition remove_buffer_attributes :: "BufferAttributes \<Rightarrow> router_op" where
  "remove_buffer_attributes a c = check_ethernet_below_buffers
     (add_ethernet_streams (- num_ethernet_io_link_streams a)
       (add_outputs_to_dram (- outputs_to_dram a)
         (add_inputs_from_dram (- of_bool (input_from_dram a)) c)))"

definition apply_buffer_attrs :: "BufferAttributes \<Rightarrow> router_op" where
  "apply_buffer_attrs a c = check_ethernet_below_buffers
     (add_ethernet_streams (num_ethernet_io_link_streams a)
       (add_outputs_to_dram (outputs_to_dram a)
         (add_inputs_from_dram (of_bool (input_from_dram a)) c)))"

datatype BufferAllocationFailureReason =
  Insufficient_L1 | Insufficient_DRAM_Input_Streams | Insufficient_DRAM_Output_Streams
| Insufficient_Multicast_Streams | Insufficient_Relay_Streams | Insufficient_Ethernet_Streams
| Insufficient_Extra_Streams

definition reason_if :: "bool \<Rightarrow> 'r \<Rightarrow> 'r list" where
  "reason_if b r = (if b then [r] else [])"

definition reasons_for_buffer_allocation_failure ::
  "int \<Rightarrow> int \<Rightarrow> BufferAttributes \<Rightarrow> BufferAllocationFailureReason set \<Rightarrow> HwCoreAttributes
     \<Rightarrow> BufferAllocationFailureReason list option" where
  "reasons_for_buffer_allocation_failure buffer_size tile_size a ignorable c =
     (let size' = buffer_size + extra_bytes_required_from_buffer_tile_size c tile_size;
          reasons =
            reason_if (\<not> can_allocate_bytes c size') Insufficient_L1
            @ reason_if (length (relay_buffers c) = RELAY_BUFFER_LIMIT) Insufficient_Relay_Streams
            @ reason_if (has_multicast a \<and> \<not> has_available_multicast_stream_slots c (num_multicasts a))
                Insufficient_Multicast_Streams
            @ reason_if (input_from_dram a \<and> \<not> has_available_input_from_dram_slot c)
                Insufficient_DRAM_Input_Streams
            @ reason_if (has_outputs_to_dram a \<and> \<not> has_available_output_to_dram_slots c (outputs_to_dram a))
                Insufficient_DRAM_Output_Streams
            @ reason_if (has_ethernet_io_streams a
                \<and> \<not> has_available_ethernet_stream_slots c (num_ethernet_io_link_streams a))
                Insufficient_Ethernet_Streams
            @ reason_if (forking_factor a > 1 \<and> \<not> has_extra_streams_available c (forking_factor a - 1))
                Insufficient_Extra_Streams;
          kept = filter (\<lambda>r. r \<notin> ignorable) reasons
      in if kept \<noteq> [] then Some kept else None)"

definition can_add_buffer ::
  "u32 \<Rightarrow> buffer_info \<Rightarrow> BufferAttributes \<Rightarrow> BufferAllocationFailureReason set \<Rightarrow> HwCoreAttributes \<Rightarrow> bool" where
  "can_add_buffer al b a ignorable c \<longleftrightarrow>
     reasons_for_buffer_allocation_failure (allocated_size_in_bytes al b) (tile_size_in_bytes al b)
       a ignorable c = None"

definition can_add_buffer_of_tiles ::
  "u32 \<Rightarrow> int \<Rightarrow> DataFormat \<Rightarrow> bool \<Rightarrow> BufferAttributes \<Rightarrow> BufferAllocationFailureReason set \<Rightarrow> HwCoreAttributes \<Rightarrow> bool" where
  "can_add_buffer_of_tiles al size_tiles df include_tile_header a ignorable c \<longleftrightarrow>
     reasons_for_buffer_allocation_failure (get_size_of_n_tiles_in_bytes al df size_tiles True)
       (get_tile_size_in_bytes al df include_tile_header 32 32) a ignorable c = None"

text \<open>The assertions and the counting of one attribute of an added buffer.\<close>

definition add_if :: "bool \<Rightarrow> (HwCoreAttributes \<Rightarrow> bool) \<Rightarrow> tracker_error \<Rightarrow>
    (HwCoreAttributes \<Rightarrow> HwCoreAttributes) \<Rightarrow> router_op" where
  "add_if present room e add c =
     (if \<not> present then (Inr (), c)
      else if resource_constraint_asserts_enabled c \<and> \<not> room c then (Inl e, c)
      else (Inr (), add c))"

definition place_buffer :: "unique_id \<Rightarrow> RouterBufferType \<Rightarrow> HwCoreAttributes \<Rightarrow> HwCoreAttributes" where
  "place_buffer i t c =
     (case t of
        RelayBuffer \<Rightarrow> c\<lparr>relay_buffers := relay_buffers c @ [i]\<rparr>
      | InputBuffer \<Rightarrow> c\<lparr>input_buffers := input_buffers c @ [i]\<rparr>
      | OutputBuffer \<Rightarrow> c\<lparr>output_buffers := output_buffers c @ [i]\<rparr>
      | _ \<Rightarrow> c)"

definition use_tile_size :: "int \<Rightarrow> router_op" where
  "use_tile_size tile_size c =
     (if tile_size \<in> used_tile_sizes c then (Inr (), c)
      else (let extra_bytes_needed = extra_bytes_required_from_buffer_tile_size c tile_size
            in if used_tile_sizes c \<noteq> {} \<and> extra_bytes_needed \<le> 0 then (Inl NoExtraBytes, c)
               else (Inr (), (allocate_bytes extra_bytes_needed c)
                       \<lparr>used_tile_sizes := insert tile_size (used_tile_sizes c)\<rparr>)))"

definition add_buffer :: "u32 \<Rightarrow> unique_id \<Rightarrow> buffer_info \<Rightarrow> BufferAttributes \<Rightarrow> router_op" where
  "add_buffer al i b a =
     (let size' = allocated_size_in_bytes al b
      in andThen (add_if True (\<lambda>c. can_allocate_bytes c size') InsufficientL1 id) (\<lambda>_.
         andThen (add_if True has_available_relay_buffer_slot InsufficientRelaySlots
                   (allocate_bytes size')) (\<lambda>_.
         andThen (add_if True (\<lambda>c. used_l1_memory c \<le> l1_memory_size c) ExceededL1
                   add_to_buffer_count) (\<lambda>_.
         andThen (add_if True (\<lambda>c. length (relay_buffers c) < RELAY_BUFFER_LIMIT)
                   InsufficientRelaySlots id) (\<lambda>_.
         andThen (add_if (has_multicast a)
                   (\<lambda>c. has_available_multicast_stream_slots c (num_multicasts a))
                   InsufficientMulticastStreams (add_multicast_streams (num_multicasts a))) (\<lambda>_.
         andThen (add_if (input_from_dram a) has_available_input_from_dram_slot
                   InsufficientDramInputs (add_inputs_from_dram 1)) (\<lambda>_.
         andThen (add_if (has_outputs_to_dram a)
                   (\<lambda>c. has_available_output_to_dram_slots c (outputs_to_dram a))
                   InsufficientDramOutputs (add_outputs_to_dram (outputs_to_dram a))) (\<lambda>_.
         andThen (add_if (has_ethernet_io_streams a)
                   (\<lambda>c. max_num_eth_streams_total c = 0
                     \<or> has_available_ethernet_stream_slots c (num_ethernet_io_link_streams a))
                   InsufficientEthernetStreams
                   (add_ethernet_streams (num_ethernet_io_link_streams a))) (\<lambda>_.
         andThen (add_if True (\<lambda>_. True) EraseAtEnd (place_buffer i (buffer_type b))) (\<lambda>_.
         use_tile_size (tile_size_in_bytes al b)))))))))))"

section \<open>Resident pipes\<close>

text \<open>The loop over the gather pipes, with the remaining optimised gather-multicasts, the number of
  pipes and the identifiers of the optimised ones.\<close>

fun count_gather_streams ::
  "int \<Rightarrow> pipe_segment_hash list \<Rightarrow> (pipe_segment_hash \<times> int) list \<Rightarrow> int \<Rightarrow> int \<Rightarrow> unique_id set \<Rightarrow> int" where
  "count_gather_streams max_gathers mcasts [] num_optimized pipe_count optimized = 0"
| "count_gather_streams max_gathers mcasts ((i, input_count) # rest) num_optimized pipe_count optimized =
     (let is_gather_multicast = i \<in> set mcasts;
          pipe_count' = pipe_count + of_bool (\<not> is_gather_multicast)
      in if is_gather_multicast \<and> num_optimized > 0 then
           min MAX_STREAMS_USED_FOR_OPTIMIZED_GATHER input_count
             + count_gather_streams max_gathers mcasts rest (num_optimized - 1) pipe_count'
                 (insert (pipe_id i) optimized)
         else
           (let use_optimized_gather = pipe_count < max_gathers \<or> pipe_id i \<in> optimized
            in (if use_optimized_gather then min MAX_STREAMS_USED_FOR_OPTIMIZED_GATHER input_count else 1)
                 + count_gather_streams max_gathers mcasts rest num_optimized pipe_count'
                     (if use_optimized_gather then insert (pipe_id i) optimized else optimized)))"

definition count_extra_streams_from_gather_and_multicast :: "HwCoreAttributes \<Rightarrow> int" where
  "count_extra_streams_from_gather_and_multicast c =
     (let gathers = resident_gather_pipe_input_counts c;
          mcasts = resident_multicast_pipes c;
          max_gathers = max_num_gather_pipes_before_phase_based_gather c;
          num_multicast_only_pipes = int (length (filter (\<lambda>i. i \<notin> fst ` set gathers) mcasts));
          num_gather_multicasts = int (length mcasts) - num_multicast_only_pipes;
          num_optimized_gather_slots = max 0 (max_gathers - num_multicast_only_pipes);
          num_optimized_gather_multicasts = min num_gather_multicasts num_optimized_gather_slots
      in count_gather_streams max_gathers mcasts gathers num_optimized_gather_multicasts
           (num_multicast_only_pipes + num_optimized_gather_multicasts) {})"

definition count_instance :: "pipe_segment_hash \<Rightarrow> int \<Rightarrow> HwCoreAttributes \<Rightarrow> HwCoreAttributes" where
  "count_instance i d c = c\<lparr>pipe_segment_instance_counts :=
     (pipe_segment_instance_counts c)(i := pipe_segment_instance_counts c i + d)\<rparr>"

definition add_resident_pipe_count :: "int \<Rightarrow> HwCoreAttributes \<Rightarrow> HwCoreAttributes" where
  "add_resident_pipe_count d c =
     c\<lparr>resident_gather_multicast_pipes := resident_gather_multicast_pipes c + d\<rparr>"

definition add_multicast_pipe :: "pipe_segment_hash \<Rightarrow> HwCoreAttributes \<Rightarrow> HwCoreAttributes" where
  "add_multicast_pipe i c = c\<lparr>resident_multicast_pipes := resident_multicast_pipes c @ [i]\<rparr>"

definition add_gather_pipe :: "pipe_segment_hash \<Rightarrow> int \<Rightarrow> HwCoreAttributes \<Rightarrow> HwCoreAttributes" where
  "add_gather_pipe i n c =
     c\<lparr>resident_gather_pipe_input_counts := resident_gather_pipe_input_counts c @ [(i, n)]\<rparr>"

definition erase_multicast_pipe :: "pipe_segment_hash \<Rightarrow> router_op" where
  "erase_multicast_pipe i c =
     (if i \<in> set (resident_multicast_pipes c)
      then (Inr (), c\<lparr>resident_multicast_pipes := remove1 i (resident_multicast_pipes c)\<rparr>)
      else (Inl PipeNotResident, c))"

fun erase_first :: "('a \<Rightarrow> bool) \<Rightarrow> 'a list \<Rightarrow> 'a list" where
  "erase_first P [] = []"
| "erase_first P (x # xs) = (if P x then xs else x # erase_first P xs)"

definition erase_gather_pipe :: "pipe_segment_hash \<Rightarrow> router_op" where
  "erase_gather_pipe i c =
     (if i \<in> fst ` set (resident_gather_pipe_input_counts c)
      then (Inr (), c\<lparr>resident_gather_pipe_input_counts :=
              erase_first (\<lambda>p. fst p = i) (resident_gather_pipe_input_counts c)\<rparr>)
      else (Inl PipeNotResident, c))"

text \<open>The extra streams change by the difference of the counts before and after.\<close>

definition with_extra_streams :: "int \<Rightarrow> HwCoreAttributes \<Rightarrow> HwCoreAttributes" where
  "with_extra_streams old c =
     adjust_extra_streams (count_extra_streams_from_gather_and_multicast c - old) c"

definition register_resident_gather_multicast_pipe :: "pipe_segment_hash \<Rightarrow> int \<Rightarrow> router_op" where
  "register_resident_gather_multicast_pipe i number_of_gather_inputs c =
     (if number_of_gather_inputs = 0 then (Inr (), c)
      else (let c1 = count_instance i 1 c
            in if pipe_segment_instance_counts c1 i > 1 then (Inr (), c1)
               else (let old = count_extra_streams_from_gather_and_multicast c1;
                         c2 = add_resident_pipe_count 1
                                (add_gather_pipe i number_of_gather_inputs (add_multicast_pipe i c1))
                     in (Inr (), add_multicast_streams 1 (with_extra_streams old c2)))))"

definition deregister_resident_gather_multicast_pipe :: "pipe_segment_hash \<Rightarrow> router_op" where
  "deregister_resident_gather_multicast_pipe i c =
     (let c1 = count_instance i (- 1) c
      in if pipe_segment_instance_counts c1 i > 0 then (Inr (), c1)
         else (let old = count_extra_streams_from_gather_and_multicast c1
               in andThen (erase_multicast_pipe i) (\<lambda>_.
                  andThen (erase_gather_pipe i) (\<lambda>_ c2.
                    (Inr (), add_multicast_streams (- 1)
                       (with_extra_streams old (add_resident_pipe_count (- 1) c2))))) c1))"

definition register_resident_multicast_pipe :: "pipe_segment_hash \<Rightarrow> router_op" where
  "register_resident_multicast_pipe i c =
     (let c1 = count_instance i 1 c
      in if pipe_segment_instance_counts c1 i > 1 then (Inr (), c1)
         else (let old = count_extra_streams_from_gather_and_multicast c1
               in (Inr (), with_extra_streams old (add_multicast_streams 1
                     (add_resident_pipe_count 1 (add_multicast_pipe i c1))))))"

text \<open>The sizes are compared as unsigned numbers; they do not come near a wrap.\<close>

definition deregister_resident_multicast_pipe :: "pipe_segment_hash \<Rightarrow> router_op" where
  "deregister_resident_multicast_pipe i c =
     (let c1 = count_instance i (- 1) c
      in if pipe_segment_instance_counts c1 i > 0 then (Inr (), c1)
         else (let old = count_extra_streams_from_gather_and_multicast c1;
                   decrement_mcast_stream_count =
                     int (length (resident_multicast_pipes c1)
                       + length (resident_gather_pipe_input_counts c1)) = MAX_MCAST_STREAMS_PER_CORE
               in andThen (erase_multicast_pipe i) (\<lambda>_ c2.
                    (let c3 = add_resident_pipe_count (- 1) c2;
                         new' = count_extra_streams_from_gather_and_multicast c3;
                         c4 = (if decrement_mcast_stream_count then add_multicast_streams (- 1) c3 else c3)
                     in (Inr (), adjust_extra_streams (new' - old) c4))) c1))"

definition register_resident_gather_pipe :: "pipe_segment_hash \<Rightarrow> int \<Rightarrow> router_op" where
  "register_resident_gather_pipe i number_of_gather_inputs c =
     (if number_of_gather_inputs = 0 then (Inr (), c)
      else (let c1 = count_instance i 1 c
            in if pipe_segment_instance_counts c1 i > 1 then (Inr (), c1)
               else (let old = count_extra_streams_from_gather_and_multicast c1
                     in (Inr (), with_extra_streams old (add_resident_pipe_count 1
                          (add_gather_pipe i number_of_gather_inputs c1))))))"

definition deregister_resident_gather_pipe :: "pipe_segment_hash \<Rightarrow> router_op" where
  "deregister_resident_gather_pipe i c =
     (let c1 = count_instance i (- 1) c
      in if pipe_segment_instance_counts c1 i > 0 then (Inr (), c1)
         else (let old = count_extra_streams_from_gather_and_multicast c1
               in andThen (erase_gather_pipe i) (\<lambda>_ c2.
                    (Inr (), with_extra_streams old (add_resident_pipe_count (- 1) c2))) c1))"

text \<open>The requests of the router.\<close>

datatype pipe_request =
  RegisterGatherMulticast pipe_segment_hash int
| DeregisterGatherMulticast pipe_segment_hash
| RegisterMulticast pipe_segment_hash
| DeregisterMulticast pipe_segment_hash
| RegisterGather pipe_segment_hash int
| DeregisterGather pipe_segment_hash

fun run_pipe_request :: "HwCoreAttributes \<Rightarrow> pipe_request \<Rightarrow> (tracker_error + unit) \<times> HwCoreAttributes" where
  "run_pipe_request c (RegisterGatherMulticast i n) = register_resident_gather_multicast_pipe i n c"
| "run_pipe_request c (DeregisterGatherMulticast i) = deregister_resident_gather_multicast_pipe i c"
| "run_pipe_request c (RegisterMulticast i) = register_resident_multicast_pipe i c"
| "run_pipe_request c (DeregisterMulticast i) = deregister_resident_multicast_pipe i c"
| "run_pipe_request c (RegisterGather i n) = register_resident_gather_pipe i n c"
| "run_pipe_request c (DeregisterGather i) = deregister_resident_gather_pipe i c"

end
