(* ===== verification/RouterProps.thy ===== *)
theory RouterProps
  imports RouterCore
begin

text \<open>
  Properties of the router's books: the report of exceeded resources, the admission check against the
  assertions of \<open>add_buffer\<close>, and the ledger of extra streams.
\<close>

section \<open>Exceeded resources\<close>

lemma exceeded_iff:
  "any_resource_limits_exceeded_with_ignore_list ignored c \<longleftrightarrow>
     get_exceeded_resources_with_ignore_list ignored c \<noteq> []"
  by (simp add: any_resource_limits_exceeded_with_ignore_list_def
      get_exceeded_resources_with_ignore_list_def exceeded_entry_def)

text \<open>A core reports an exceeded limit exactly when its list of exceeded resources is not empty, and
  every entry of the list is over its limit; a cluster reports one exactly when one of its cores does.\<close>

theorem exceeded_resources_reported:
  "(any_resource_limits_exceeded_with_ignore_list ignored c \<longleftrightarrow>
      get_exceeded_resources_with_ignore_list ignored c \<noteq> [])
   \<and> list_all (\<lambda>e. used_amount e > limit_amount e) (get_exceeded_resources_with_ignore_list ignored c)
   \<and> (any_core_exceeded ignored cores \<longleftrightarrow>
      concat (map (\<lambda>lc. get_exceeded_resources_with_ignore_list ignored (snd lc)) cores) \<noteq> [])"
proof (intro conjI)
  show "list_all (\<lambda>e. used_amount e > limit_amount e) (get_exceeded_resources_with_ignore_list ignored c)"
    by (simp add: get_exceeded_resources_with_ignore_list_def exceeded_entry_def)
qed (simp_all add: exceeded_iff any_core_exceeded_def list_ex_iff case_prod_unfold)

section \<open>Admission\<close>

definition within_limits :: "HwCoreAttributes \<Rightarrow> bool" where
  "within_limits c \<longleftrightarrow> \<not> any_resource_limits_exceeded_with_ignore_list {} c
     \<and> length (relay_buffers c) \<le> RELAY_BUFFER_LIMIT
     \<and> 0 \<le> used_multicast_non_eth_stream_slots c \<and> 0 \<le> used_ethernet_stream_slots c
     \<and> 0 < extra_tile_size_header_buffer_size c"

lemma reasons_None:
  "reasons_for_buffer_allocation_failure s t a {} c = None \<longleftrightarrow>
     can_allocate_bytes c (s + extra_bytes_required_from_buffer_tile_size c t)
     \<and> length (relay_buffers c) \<noteq> RELAY_BUFFER_LIMIT
     \<and> (has_multicast a \<longrightarrow> has_available_multicast_stream_slots c (num_multicasts a))
     \<and> (input_from_dram a \<longrightarrow> has_available_input_from_dram_slot c)
     \<and> (has_outputs_to_dram a \<longrightarrow> has_available_output_to_dram_slots c (outputs_to_dram a))
     \<and> (has_ethernet_io_streams a \<longrightarrow>
          has_available_ethernet_stream_slots c (num_ethernet_io_link_streams a))
     \<and> (forking_factor a > 1 \<longrightarrow> has_extra_streams_available c (forking_factor a - 1))"
  by (auto simp: reasons_for_buffer_allocation_failure_def reason_if_def Let_def)

lemma relay_limit: "length (relay_buffers c) < RELAY_BUFFER_LIMIT \<longleftrightarrow> has_available_relay_buffer_slot c"
  by (simp add: has_available_relay_buffer_slot_def RELAY_BUFFER_LIMIT_def)

lemma extra_bytes_bounds:
  "0 < extra_tile_size_header_buffer_size c \<Longrightarrow> 0 \<le> extra_bytes_required_from_buffer_tile_size c t"
  by (simp add: extra_bytes_required_from_buffer_tile_size_def Let_def)

text \<open>The books after a buffer that passes all assertions.\<close>

definition booked :: "u32 \<Rightarrow> unique_id \<Rightarrow> buffer_info \<Rightarrow> BufferAttributes \<Rightarrow> HwCoreAttributes \<Rightarrow> HwCoreAttributes" where
  "booked al i b a c = place_buffer i (buffer_type b)
     (c\<lparr>used_l1_memory := used_l1_memory c + allocated_size_in_bytes al b,
        used_io_buffer_count := used_io_buffer_count c + 1,
        used_multicast_non_eth_stream_slots := used_multicast_non_eth_stream_slots c
          + (if has_multicast a then num_multicasts a else 0),
        used_input_from_dram_slots := used_input_from_dram_slots c + of_bool (input_from_dram a),
        used_output_to_dram_slots := used_output_to_dram_slots c
          + (if has_outputs_to_dram a then outputs_to_dram a else 0),
        used_ethernet_stream_slots := used_ethernet_stream_slots c
          + (if has_ethernet_io_streams a then num_ethernet_io_link_streams a else 0)\<rparr>)"

lemma add_buffer_booked:
  assumes "within_limits c" and "can_add_buffer al b a {} c"
    and "\<not> (has_multicast a \<and> has_ethernet_io_streams a)"
  shows "add_buffer al i b a c = use_tile_size (tile_size_in_bytes al b) (booked al i b a c)"
proof -
  let ?s = "allocated_size_in_bytes al b" and ?t = "tile_size_in_bytes al b"
  note r = assms(2) [unfolded can_add_buffer_def reasons_None]
  have l1: "used_l1_memory c + ?s \<le> l1_memory_size c"
    using r extra_bytes_bounds [of c ?t] assms(1)
    by (simp add: can_allocate_bytes_def within_limits_def)
  have relay: "has_available_relay_buffer_slot c" "length (relay_buffers c) < RELAY_BUFFER_LIMIT"
    using r assms(1) by (simp_all add: within_limits_def flip: relay_limit)
  note defs = add_buffer_def add_if_def andThen_def booked_def core_updates add_to_buffer_count_def
    has_available_relay_buffer_slot_def can_allocate_bytes_def has_available_multicast_stream_slots_def
    has_available_input_from_dram_slot_def has_available_output_to_dram_slots_def
    has_available_ethernet_stream_slots_def used_mcast_streams_by_ethernet_def
    has_extra_streams_available_def
  show ?thesis
    using r l1 relay assms(3)
    by (cases "has_multicast a"; cases "input_from_dram a"; cases "has_outputs_to_dram a";
        cases "has_ethernet_io_streams a") (simp_all add: defs Let_def)
qed

lemma place_buffer_simps [simp]:
  "used_tile_sizes (place_buffer i t c) = used_tile_sizes c"
  "extra_tile_size_header_buffer_size (place_buffer i t c) = extra_tile_size_header_buffer_size c"
  "used_l1_memory (place_buffer i t c) = used_l1_memory c"
  "l1_memory_size (place_buffer i t c) = l1_memory_size c"
  "used_extra_streams (place_buffer i t c) = used_extra_streams c"
  "max_extra_streams (place_buffer i t c) = max_extra_streams c"
  "used_input_from_dram_slots (place_buffer i t c) = used_input_from_dram_slots c"
  "max_input_from_dram_streams (place_buffer i t c) = max_input_from_dram_streams c"
  "used_output_to_dram_slots (place_buffer i t c) = used_output_to_dram_slots c"
  "max_output_to_dram_streams (place_buffer i t c) = max_output_to_dram_streams c"
  "used_ethernet_stream_slots (place_buffer i t c) = used_ethernet_stream_slots c"
  "max_num_eth_streams_total (place_buffer i t c) = max_num_eth_streams_total c"
  "used_multicast_non_eth_stream_slots (place_buffer i t c) = used_multicast_non_eth_stream_slots c"
  "max_mcast_streams_per_core (place_buffer i t c) = max_mcast_streams_per_core c"
  by (cases t; simp add: place_buffer_def)+

lemma place_buffer_relay: "length (relay_buffers (place_buffer i t c)) \<le> Suc (length (relay_buffers c))"
  by (cases t) (simp_all add: place_buffer_def)

text \<open>The limits but that of the memory and that of the relay buffers.\<close>

definition streams_within :: "HwCoreAttributes \<Rightarrow> bool" where
  "streams_within c \<longleftrightarrow> used_extra_streams c \<le> max_extra_streams c
     \<and> used_input_from_dram_slots c \<le> max_input_from_dram_streams c
     \<and> used_output_to_dram_slots c \<le> max_output_to_dram_streams c
     \<and> used_ethernet_stream_slots c \<le> max_num_eth_streams_total c
     \<and> used_multicast_non_eth_stream_slots c \<le> max_mcast_streams_per_core c
     \<and> 0 \<le> used_multicast_non_eth_stream_slots c \<and> 0 \<le> used_ethernet_stream_slots c
     \<and> 0 < extra_tile_size_header_buffer_size c"

lemma within_limits_iff:
  "within_limits c \<longleftrightarrow> streams_within c \<and> used_l1_memory c \<le> l1_memory_size c
     \<and> length (relay_buffers c) \<le> RELAY_BUFFER_LIMIT"
  by (auto simp: within_limits_def streams_within_def any_resource_limits_exceeded_with_ignore_list_def)

lemma multicast_room: "has_available_multicast_stream_slots c n \<Longrightarrow>
    used_multicast_non_eth_stream_slots c + n \<le> max_mcast_streams_per_core c"
  by (simp add: has_available_multicast_stream_slots_def used_mcast_streams_by_ethernet_def max_def
      split: if_splits)

lemma booked_within:
  assumes "within_limits c" and "can_add_buffer al b a {} c"
  shows "streams_within (booked al i b a c)"
proof -
  note r = assms(2) [unfolded can_add_buffer_def reasons_None]
  have s: "streams_within c" using assms(1) by (simp add: within_limits_iff)
  have m: "has_multicast a \<Longrightarrow> used_multicast_non_eth_stream_slots c + num_multicasts a \<le> max_mcast_streams_per_core c"
    using r by (auto intro: multicast_room)
  have e: "has_ethernet_io_streams a \<Longrightarrow>
      used_ethernet_stream_slots c + num_ethernet_io_link_streams a \<le> max_num_eth_streams_total c"
    using r s by (simp add: has_available_ethernet_stream_slots_def streams_within_def)
  have d: "input_from_dram a \<Longrightarrow> used_input_from_dram_slots c + 1 \<le> max_input_from_dram_streams c"
    "has_outputs_to_dram a \<Longrightarrow> used_output_to_dram_slots c + outputs_to_dram a \<le> max_output_to_dram_streams c"
    using r by (simp_all add: has_available_input_from_dram_slot_def has_available_output_to_dram_slots_def)
  have pos: "has_multicast a \<Longrightarrow> 0 \<le> num_multicasts a"
    "has_ethernet_io_streams a \<Longrightarrow> 0 \<le> num_ethernet_io_link_streams a"
    by (simp_all add: has_multicast_def has_ethernet_io_streams_def)
  show ?thesis
    using s m e d pos by (simp add: streams_within_def booked_def)
qed

lemma use_tile_size_within:
  assumes "streams_within d" and "used_l1_memory d + extra_bytes_required_from_buffer_tile_size d t \<le> l1_memory_size d"
    and "length (relay_buffers d) \<le> RELAY_BUFFER_LIMIT"
  shows "within_limits (snd (use_tile_size t d))"
proof -
  have "0 \<le> extra_bytes_required_from_buffer_tile_size d t"
    using assms(1) by (intro extra_bytes_bounds) (simp add: streams_within_def)
  then show ?thesis
    using assms by (simp add: within_limits_iff use_tile_size_def Let_def streams_within_def core_updates)
qed

lemma checked_add:
  assumes "within_limits c" and "can_add_buffer al b a {} c"
    and "\<not> (has_multicast a \<and> has_ethernet_io_streams a)"
  shows "fst (add_buffer al i b a c) = Inr ()" and "within_limits (snd (add_buffer al i b a c))"
proof -
  let ?t = "tile_size_in_bytes al b" and ?d = "booked al i b a c"
  note r = assms(2) [unfolded can_add_buffer_def reasons_None]
  have ext: "extra_bytes_required_from_buffer_tile_size ?d ?t = extra_bytes_required_from_buffer_tile_size c ?t"
    by (simp add: extra_bytes_required_from_buffer_tile_size_def booked_def)
  have l1: "used_l1_memory ?d + extra_bytes_required_from_buffer_tile_size c ?t \<le> l1_memory_size ?d"
    using r by (simp add: booked_def can_allocate_bytes_def)
  have eb: "0 \<le> extra_bytes_required_from_buffer_tile_size c ?t"
    using assms(1) by (intro extra_bytes_bounds) (simp add: within_limits_def)
  have pos: "used_tile_sizes c \<noteq> {} \<Longrightarrow> ?t \<notin> used_tile_sizes c \<Longrightarrow>
      0 < extra_bytes_required_from_buffer_tile_size c ?t"
    using assms(1) by (simp add: within_limits_def extra_bytes_required_from_buffer_tile_size_def)
  have relay: "length (relay_buffers ?d) \<le> RELAY_BUFFER_LIMIT"
  proof -
    have "length (relay_buffers ?d) \<le> Suc (length (relay_buffers c))"
      unfolding booked_def by (rule order_trans [OF place_buffer_relay]) simp
    then show ?thesis using r assms(1) by (simp add: within_limits_def)
  qed
  have same: "used_tile_sizes ?d = used_tile_sizes c" by (simp add: booked_def)
  show "fst (add_buffer al i b a c) = Inr ()"
    unfolding add_buffer_booked [OF assms] using pos
    by (cases "?t \<in> used_tile_sizes c"; cases "used_tile_sizes c = {}")
      (simp_all add: use_tile_size_def Let_def ext same not_le)
  show "within_limits (snd (add_buffer al i b a c))"
    unfolding add_buffer_booked [OF assms]
    by (rule use_tile_size_within [OF booked_within [OF assms(1,2)]]) (use l1 ext relay in simp_all)
qed

text \<open>The router adds a buffer when the check has no reason against it.\<close>

type_synonym buffer_request = "unique_id \<times> buffer_info \<times> BufferAttributes"

definition checked_add_buffer ::
  "u32 \<Rightarrow> HwCoreAttributes \<Rightarrow> buffer_request \<Rightarrow> (tracker_error + unit) \<times> HwCoreAttributes" where
  "checked_add_buffer al c = (\<lambda>(i, b, a).
     if can_add_buffer al b a {} c then add_buffer al i b a c else (Inr (), c))"

definition one_kind_of_stream :: "buffer_request \<Rightarrow> bool" where
  "one_kind_of_stream = (\<lambda>(i, b, a). \<not> (has_multicast a \<and> has_ethernet_io_streams a))"

interpretation router_books: invariant_ops "checked_add_buffer al" within_limits one_kind_of_stream for al
  by unfold_locales
    (auto simp: checked_add_buffer_def one_kind_of_stream_def intro!: checked_add(2) split: prod.splits)

lemma new_within_limits:
  "0 \<le> l1 \<Longrightarrow> 0 \<le> ins \<Longrightarrow> 0 \<le> outs \<Longrightarrow> within_limits (new_HwCoreAttributes env l1 ins outs eth gathers)"
  by (simp add: within_limits_def any_resource_limits_exceeded_with_ignore_list_def
      new_HwCoreAttributes_def router_constants)

lemma checked_adds_never_throw:
  assumes "within_limits c" and "\<forall>r \<in> set rs. one_kind_of_stream r"
  shows "list_all (\<lambda>r. r = Inr ()) (fst (run_ops (checked_add_buffer al) c rs))"
  using assms
proof (induction rs arbitrary: c)
  case (Cons r rs)
  have "fst (checked_add_buffer al c r) = Inr ()"
    using Cons.prems checked_add(1) [of c al]
    by (auto simp: checked_add_buffer_def one_kind_of_stream_def split: prod.splits)
  moreover have "within_limits (snd (checked_add_buffer al c r))"
    using router_books.step_inv [OF Cons.prems(1), of r al] Cons.prems(2) by simp
  ultimately show ?case using Cons by (simp add: run_ops_Cons_split del: run_ops.simps(2))
qed simp

text \<open>C6 The admission check is sound: when the router adds the buffers that \<open>can_add_buffer\<close> admits to a
  new core, and no buffer needs both multicast and ethernet streams, no assertion of \<open>add_buffer\<close>
  fails and no limit of the core is exceeded, its memory, DRAM slots and streams included. A buffer that needs
  both kinds can be admitted and fail an assertion, as the lemma \<open>admitted_buffer_asserts\<close> shows.\<close>

theorem admission_check_sound:
  assumes "0 \<le> l1" and "0 \<le> ins" and "0 \<le> outs" and "list_all one_kind_of_stream rs"
  shows "let (results, c) = run_ops (checked_add_buffer al) (new_HwCoreAttributes env l1 ins outs eth gathers) rs
         in list_all (\<lambda>r. r = Inr ()) results
            \<and> \<not> any_resource_limits_exceeded_with_ignore_list {} c
            \<and> length (relay_buffers c) \<le> RELAY_BUFFER_LIMIT"
proof -
  note new = new_within_limits [OF assms(1-3), of env eth gathers]
  have rs: "\<forall>r \<in> set rs. one_kind_of_stream r" using assms(4) by (simp add: list_all_iff)
  show ?thesis
    using checked_adds_never_throw [OF new rs, of al] router_books.run_inv [OF new rs, of al]
    by (simp add: case_prod_unfold within_limits_def)
qed

definition sample_buffer :: buffer_info where
  "sample_buffer = \<lparr>buffer_t = 1, buffer_type = RelayBuffer, buffer_stream_id = 0, ublock_rt = 1,
     ublock_ct = 1, total_epoch_tiles = 1, mblock_m = 1, mblock_n = 1, mblock_k = 1,
     allocated_size_tiles = 2, scatter_gather_num_tiles = 1, replication_factor = 1,
     data_format = Float16_b, tile_dim_x = 32, tile_dim_y = 32, untilized = True, is_scatter = False\<rparr>"

definition sample_requests :: "buffer_request list" where
  "sample_requests = [(7, sample_buffer, new_BufferAttributes\<lparr>num_multicasts := 3\<rparr>),
     (8, sample_buffer, new_BufferAttributes\<lparr>num_multicasts := 2\<rparr>),
     (9, sample_buffer, new_BufferAttributes\<lparr>num_ethernet_io_link_streams := 4\<rparr>)]"

theorem admission_check_sound_witness:
  "let (results, c) = run_ops (checked_add_buffer 32) (new_HwCoreAttributes 0 100000 8 8 True 3) sample_requests
   in list_all (\<lambda>r. r = Inr ()) results
      \<and> \<not> any_resource_limits_exceeded_with_ignore_list {} c
      \<and> length (relay_buffers c) \<le> RELAY_BUFFER_LIMIT"
  by (rule admission_check_sound)
    (simp_all add: sample_requests_def one_kind_of_stream_def has_multicast_def
      has_ethernet_io_streams_def new_BufferAttributes_def)

text \<open>
  For a buffer that needs both kinds of streams the check is not sound: it counts each kind against the
  books before the other is added, and the assertion of \<open>add_buffer\<close> does not.
\<close>

lemma sample_sizes: "allocated_size_in_bytes al sample_buffer = 4096" "tile_size_in_bytes al sample_buffer = 2048"
  by (simp_all add: allocated_size_in_bytes_def tile_size_in_bytes_def sample_buffer_def
      get_entry_size_in_bytes_def get_entry_size_in_tiles_def get_mblock_size_in_tiles_def
      get_tile_size_in_bytes_def tile_size_unpadded_def Let_def)

lemma admitted_buffer_asserts:
  "let c = new_HwCoreAttributes 0 100000 8 8 True 3;
       a = new_BufferAttributes\<lparr>num_multicasts := 3, num_ethernet_io_link_streams := 5\<rparr>
   in can_add_buffer 32 sample_buffer a {} c
      \<and> fst (add_buffer 32 7 sample_buffer a c) = Inl InsufficientEthernetStreams"
  by (simp add: Let_def can_add_buffer_def reasons_None sample_sizes new_HwCoreAttributes_def
      new_BufferAttributes_def router_constants can_allocate_bytes_def has_multicast_def
      extra_bytes_required_from_buffer_tile_size_def has_available_multicast_stream_slots_def
      used_mcast_streams_by_ethernet_def has_extra_streams_available_def has_ethernet_io_streams_def
      has_available_ethernet_stream_slots_def has_outputs_to_dram_def add_buffer_def add_if_def
      andThen_def has_available_relay_buffer_slot_def core_updates add_to_buffer_count_def)

end
