(* ===== verification/RouterPipes.thy ===== *)
theory RouterPipes
  imports RouterCore
begin

text \<open>
  The ledger of extra streams: the running count of a core against the count recomputed from its
  resident pipes, and the registration of pipes as a round trip.
\<close>

section \<open>The ledger\<close>

definition ledger :: "HwCoreAttributes \<Rightarrow> int" where
  "ledger c = used_extra_streams c - count_extra_streams_from_gather_and_multicast c"

text \<open>What the count depends on.\<close>

lemma count_cong:
  "resident_gather_pipe_input_counts c = resident_gather_pipe_input_counts d \<Longrightarrow>
   resident_multicast_pipes c = resident_multicast_pipes d \<Longrightarrow>
   max_num_gather_pipes_before_phase_based_gather c = max_num_gather_pipes_before_phase_based_gather d \<Longrightarrow>
   count_extra_streams_from_gather_and_multicast c = count_extra_streams_from_gather_and_multicast d"
  by (simp add: count_extra_streams_from_gather_and_multicast_def)

named_theorems same_count "updates that leave the count alone"

lemma count_updates [same_count]:
  "count_extra_streams_from_gather_and_multicast (count_instance i d c) =
     count_extra_streams_from_gather_and_multicast c"
  "count_extra_streams_from_gather_and_multicast (add_multicast_streams n c) =
     count_extra_streams_from_gather_and_multicast c"
  "count_extra_streams_from_gather_and_multicast (adjust_extra_streams n c) =
     count_extra_streams_from_gather_and_multicast c"
  "count_extra_streams_from_gather_and_multicast (add_resident_pipe_count n c) =
     count_extra_streams_from_gather_and_multicast c"
  by (rule count_cong; simp add: count_instance_def core_updates add_resident_pipe_count_def)+

named_theorems same_extra "updates that leave the extra streams alone"

lemma extra_updates [same_extra]:
  "used_extra_streams (count_instance i d c) = used_extra_streams c"
  "used_extra_streams (add_multicast_streams n c) = used_extra_streams c"
  "used_extra_streams (add_resident_pipe_count n c) = used_extra_streams c"
  "used_extra_streams (add_multicast_pipe i c) = used_extra_streams c"
  "used_extra_streams (add_gather_pipe i k c) = used_extra_streams c"
  "used_extra_streams (adjust_extra_streams n c) = used_extra_streams c + n"
  by (simp_all add: count_instance_def core_updates add_resident_pipe_count_def
      add_multicast_pipe_def add_gather_pipe_def)

lemma erase_keeps_extra:
  "used_extra_streams (snd (erase_multicast_pipe i c)) = used_extra_streams c"
  "used_extra_streams (snd (erase_gather_pipe i c)) = used_extra_streams c"
  by (simp_all add: erase_multicast_pipe_def erase_gather_pipe_def)

lemma ledger_with_extra_streams:
  "ledger (with_extra_streams old c) = used_extra_streams c - old"
  by (simp add: ledger_def with_extra_streams_def same_count same_extra)

lemma ledger_multicast_streams: "ledger (add_multicast_streams n c) = ledger c"
  by (simp add: ledger_def same_count same_extra)

lemma erase_extra:
  "erase_multicast_pipe i c = (r, d) \<Longrightarrow> used_extra_streams d = used_extra_streams c"
  "erase_gather_pipe i c = (r, d) \<Longrightarrow> used_extra_streams d = used_extra_streams c"
  using erase_keeps_extra [of i c] by simp_all

lemma ledger_count_instance: "ledger (count_instance i d c) = ledger c"
  by (simp add: ledger_def same_count same_extra)

lemma register_ledger:
  "ledger (snd (register_resident_gather_multicast_pipe i n c)) = ledger c"
  "ledger (snd (register_resident_multicast_pipe i c)) = ledger c"
  "ledger (snd (register_resident_gather_pipe i n c)) = ledger c"
proof -
  have *: "ledger (with_extra_streams (count_extra_streams_from_gather_and_multicast (count_instance i 1 c)) d) = ledger c"
    if "used_extra_streams d = used_extra_streams c" for d
    using that by (simp add: ledger_with_extra_streams same_count) (simp add: ledger_def)
  show "ledger (snd (register_resident_gather_multicast_pipe i n c)) = ledger c"
    "ledger (snd (register_resident_multicast_pipe i c)) = ledger c"
    "ledger (snd (register_resident_gather_pipe i n c)) = ledger c"
    by (simp_all add: register_resident_gather_multicast_pipe_def register_resident_multicast_pipe_def
        register_resident_gather_pipe_def Let_def ledger_multicast_streams ledger_count_instance * same_extra)
qed

lemma andThen_Inr:
  "fst (andThen m f s) = Inr b \<Longrightarrow> \<exists>a s1. m s = (Inr a, s1) \<and> andThen m f s = f a s1"
  by (auto simp: andThen_def split: prod.splits sum.splits)

lemma ledger_after:
  "used_extra_streams d = used_extra_streams (count_instance i (- 1) c) \<Longrightarrow>
   ledger (with_extra_streams (count_extra_streams_from_gather_and_multicast (count_instance i (- 1) c)) d) = ledger c"
  by (simp add: ledger_with_extra_streams same_count same_extra) (simp add: ledger_def)

lemma deregister_gather_multicast_ledger:
  assumes ok: "fst (deregister_resident_gather_multicast_pipe i c) = Inr ()"
  shows "ledger (snd (deregister_resident_gather_multicast_pipe i c)) = ledger c"
proof (cases "pipe_segment_instance_counts (count_instance i (- 1) c) i > 0")
  case True
  then show ?thesis
    by (simp add: deregister_resident_gather_multicast_pipe_def Let_def ledger_count_instance)
next
  case False
  let ?g = "\<lambda>_ c2. (Inr (), add_multicast_streams (- 1)
    (with_extra_streams (count_extra_streams_from_gather_and_multicast (count_instance i (- 1) c)) (add_resident_pipe_count (- 1) c2)))"
  have eq: "deregister_resident_gather_multicast_pipe i c =
      andThen (erase_multicast_pipe i) (\<lambda>_. andThen (erase_gather_pipe i) ?g) (count_instance i (- 1) c)"
    using False by (simp add: deregister_resident_gather_multicast_pipe_def Let_def)
  obtain a d where d: "erase_multicast_pipe i (count_instance i (- 1) c) = (Inr a, d)"
    "deregister_resident_gather_multicast_pipe i c = andThen (erase_gather_pipe i) ?g d"
    using andThen_Inr [OF ok [unfolded eq]] eq by auto
  obtain b e where e: "erase_gather_pipe i d = (Inr b, e)"
    "deregister_resident_gather_multicast_pipe i c = ?g b e"
    using andThen_Inr [OF ok [unfolded d(2)]] d(2) by auto
  have "used_extra_streams (add_resident_pipe_count (- 1) e) = used_extra_streams (count_instance i (- 1) c)"
    using erase_extra(1) [OF d(1)] erase_extra(2) [OF e(1)] by (simp add: same_extra)
  then show ?thesis unfolding e(2) by (simp add: ledger_multicast_streams ledger_after)
qed

lemma deregister_multicast_ledger:
  assumes ok: "fst (deregister_resident_multicast_pipe i c) = Inr ()"
  shows "ledger (snd (deregister_resident_multicast_pipe i c)) = ledger c"
proof (cases "pipe_segment_instance_counts (count_instance i (- 1) c) i > 0")
  case True
  then show ?thesis by (simp add: deregister_resident_multicast_pipe_def Let_def ledger_count_instance)
next
  case False
  let ?full = "int (length (resident_multicast_pipes (count_instance i (- 1) c))
    + length (resident_gather_pipe_input_counts (count_instance i (- 1) c))) = MAX_MCAST_STREAMS_PER_CORE"
  let ?g = "\<lambda>_ c2. (let c3 = add_resident_pipe_count (- 1) c2;
      new' = count_extra_streams_from_gather_and_multicast c3;
      c4 = (if ?full then add_multicast_streams (- 1) c3 else c3)
    in (Inr (), adjust_extra_streams (new' - (count_extra_streams_from_gather_and_multicast (count_instance i (- 1) c))) c4))"
  have eq: "deregister_resident_multicast_pipe i c = andThen (erase_multicast_pipe i) ?g (count_instance i (- 1) c)"
    using False by (simp only: deregister_resident_multicast_pipe_def Let_def if_False)
  obtain a d where d: "erase_multicast_pipe i (count_instance i (- 1) c) = (Inr a, d)"
    "deregister_resident_multicast_pipe i c = ?g a d"
    using andThen_Inr [OF ok [unfolded eq]] eq by auto
  have "used_extra_streams d = used_extra_streams c"
    using erase_extra(1) [OF d(1)] by (simp add: same_extra)
  then show ?thesis unfolding d(2) by (simp add: Let_def ledger_def same_count same_extra)
qed

lemma deregister_gather_ledger:
  assumes ok: "fst (deregister_resident_gather_pipe i c) = Inr ()"
  shows "ledger (snd (deregister_resident_gather_pipe i c)) = ledger c"
proof (cases "pipe_segment_instance_counts (count_instance i (- 1) c) i > 0")
  case True
  then show ?thesis by (simp add: deregister_resident_gather_pipe_def Let_def ledger_count_instance)
next
  case False
  let ?g = "\<lambda>_ c2. (Inr (), with_extra_streams (count_extra_streams_from_gather_and_multicast (count_instance i (- 1) c)) (add_resident_pipe_count (- 1) c2))"
  have eq: "deregister_resident_gather_pipe i c = andThen (erase_gather_pipe i) ?g (count_instance i (- 1) c)"
    using False by (simp add: deregister_resident_gather_pipe_def Let_def)
  obtain a d where d: "erase_gather_pipe i (count_instance i (- 1) c) = (Inr a, d)" "deregister_resident_gather_pipe i c = ?g a d"
    using andThen_Inr [OF ok [unfolded eq]] eq by auto
  then show ?thesis using erase_extra(2) [OF d(1)] by (simp add: ledger_after same_extra)
qed

lemma request_keeps_ledger:
  "fst (run_pipe_request c r) = Inr () \<Longrightarrow> ledger (snd (run_pipe_request c r)) = ledger c"
  by (cases r) (simp_all add: register_ledger deregister_gather_multicast_ledger deregister_multicast_ledger
      deregister_gather_ledger)

section \<open>Bounds of the count\<close>

definition gathers_positive :: "HwCoreAttributes \<Rightarrow> bool" where
  "gathers_positive c \<longleftrightarrow> list_all (\<lambda>p. 1 \<le> snd p) (resident_gather_pipe_input_counts c)"

lemma count_gather_step:
  assumes "1 \<le> n"
  shows "\<exists>v k' pc' opt'. count_gather_streams m mcasts ((i, n) # rest) k pc opt
    = v + count_gather_streams m mcasts rest k' pc' opt' \<and> 1 \<le> v \<and> v \<le> 3"
proof -
  let ?v = "min MAX_STREAMS_USED_FOR_OPTIMIZED_GATHER n"
  have v: "1 \<le> ?v" "?v \<le> 3" using assms by (simp_all add: MAX_STREAMS_USED_FOR_OPTIMIZED_GATHER_def)
  show ?thesis
  proof (cases "i \<in> set mcasts \<and> k > 0")
    case True
    show ?thesis
      unfolding count_gather_streams.simps Let_def if_P [OF True]
      by (intro exI conjI, rule refl) (use v in simp_all)
  next
    case other: False
    show ?thesis
    proof (cases "pc < m \<or> pipe_id i \<in> opt")
      case True
      show ?thesis
        unfolding count_gather_streams.simps Let_def if_not_P [OF other] if_P [OF True]
        by (intro exI conjI, rule refl) (use v in simp_all)
    next
      case False
      show ?thesis
        unfolding count_gather_streams.simps Let_def if_not_P [OF other] if_not_P [OF False]
        by (intro exI conjI, rule refl) simp_all
    qed
  qed
qed

lemma count_gather_bounds:
  "list_all (\<lambda>p. 1 \<le> snd p) gathers \<Longrightarrow>
     int (length gathers) \<le> count_gather_streams m mcasts gathers k pc opt
     \<and> count_gather_streams m mcasts gathers k pc opt \<le> 3 * int (length gathers)"
proof (induction gathers arbitrary: k pc opt)
  case (Cons p gathers)
  obtain i n where p: "p = (i, n)" by force
  then obtain v k' pc' opt' where v: "count_gather_streams m mcasts (p # gathers) k pc opt
      = v + count_gather_streams m mcasts gathers k' pc' opt'" "1 \<le> v" "v \<le> 3"
    using count_gather_step [of n m mcasts i gathers k pc opt] Cons.prems by auto
  from Cons have "int (length gathers) \<le> count_gather_streams m mcasts gathers k' pc' opt'"
    "count_gather_streams m mcasts gathers k' pc' opt' \<le> 3 * int (length gathers)" by simp_all
  then show ?case unfolding v(1) using v(2,3) by simp
qed simp

lemma count_bounds:
  assumes "gathers_positive c"
  shows "int (length (resident_gather_pipe_input_counts c)) \<le> count_extra_streams_from_gather_and_multicast c"
    and "count_extra_streams_from_gather_and_multicast c \<le> 3 * int (length (resident_gather_pipe_input_counts c))"
  using assms count_gather_bounds [of "resident_gather_pipe_input_counts c"]
  by (simp_all add: gathers_positive_def count_extra_streams_from_gather_and_multicast_def Let_def)

lemma erase_first_list_all: "list_all Q xs \<Longrightarrow> list_all Q (erase_first P xs)"
  by (induction xs) auto

lemma gathers_of_updates:
  "resident_gather_pipe_input_counts (count_instance i d c) = resident_gather_pipe_input_counts c"
  "resident_gather_pipe_input_counts (add_multicast_streams n c) = resident_gather_pipe_input_counts c"
  "resident_gather_pipe_input_counts (adjust_extra_streams n c) = resident_gather_pipe_input_counts c"
  "resident_gather_pipe_input_counts (add_resident_pipe_count n c) = resident_gather_pipe_input_counts c"
  "resident_gather_pipe_input_counts (add_multicast_pipe i c) = resident_gather_pipe_input_counts c"
  "resident_gather_pipe_input_counts (with_extra_streams n c) = resident_gather_pipe_input_counts c"
  by (simp_all add: count_instance_def core_updates add_resident_pipe_count_def with_extra_streams_def
      add_multicast_pipe_def)

lemma gathers_positive_updates:
  "gathers_positive (count_instance i d c) = gathers_positive c"
  "gathers_positive (add_multicast_streams n c) = gathers_positive c"
  "gathers_positive (adjust_extra_streams n c) = gathers_positive c"
  "gathers_positive (add_resident_pipe_count n c) = gathers_positive c"
  "gathers_positive (add_multicast_pipe i c) = gathers_positive c"
  "gathers_positive (with_extra_streams n c) = gathers_positive c"
  "gathers_positive (add_gather_pipe i m c) \<longleftrightarrow> gathers_positive c \<and> 1 \<le> m"
  "gathers_positive c \<Longrightarrow> gathers_positive (snd (erase_multicast_pipe i c))"
  "gathers_positive c \<Longrightarrow> gathers_positive (snd (erase_gather_pipe i c))"
  by (auto simp: gathers_positive_def gathers_of_updates add_gather_pipe_def erase_multicast_pipe_def
      erase_gather_pipe_def intro: erase_first_list_all)

lemma gathers_positive_andThen:
  assumes "gathers_positive (snd (m s))" and "\<And>a t. gathers_positive t \<Longrightarrow> gathers_positive (snd (f a t))"
  shows "gathers_positive (snd (andThen m f s))"
  using assms by (auto simp: andThen_def split: prod.splits sum.splits)

fun positive_request :: "pipe_request \<Rightarrow> bool" where
  "positive_request (RegisterGatherMulticast i n) \<longleftrightarrow> 0 \<le> n"
| "positive_request (RegisterGather i n) \<longleftrightarrow> 0 \<le> n"
| "positive_request _ \<longleftrightarrow> True"

lemma register_positive:
  "gathers_positive c \<Longrightarrow> 0 \<le> n \<Longrightarrow> gathers_positive (snd (register_resident_gather_multicast_pipe i n c))"
  "gathers_positive c \<Longrightarrow> gathers_positive (snd (register_resident_multicast_pipe i c))"
  "gathers_positive c \<Longrightarrow> 0 \<le> n \<Longrightarrow> gathers_positive (snd (register_resident_gather_pipe i n c))"
  by (simp_all add: register_resident_gather_multicast_pipe_def register_resident_multicast_pipe_def
      register_resident_gather_pipe_def Let_def gathers_positive_updates)

lemma deregister_positive:
  assumes "gathers_positive c"
  shows "gathers_positive (snd (deregister_resident_gather_multicast_pipe i c))"
    and "gathers_positive (snd (deregister_resident_multicast_pipe i c))"
    and "gathers_positive (snd (deregister_resident_gather_pipe i c))"
proof -
  have c1: "gathers_positive (count_instance i (- 1) c)" using assms by (simp add: gathers_positive_updates)
  show "gathers_positive (snd (deregister_resident_gather_multicast_pipe i c))"
    unfolding deregister_resident_gather_multicast_pipe_def Let_def if_distrib [of snd]
    using c1 by (simp add: gathers_positive_andThen gathers_positive_updates)
  show "gathers_positive (snd (deregister_resident_multicast_pipe i c))"
    unfolding deregister_resident_multicast_pipe_def Let_def if_distrib [of snd]
    using c1 by (simp add: gathers_positive_andThen gathers_positive_updates)
  show "gathers_positive (snd (deregister_resident_gather_pipe i c))"
    unfolding deregister_resident_gather_pipe_def Let_def if_distrib [of snd]
    using c1 by (simp add: gathers_positive_andThen gathers_positive_updates)
qed

lemma request_keeps_positive:
  "gathers_positive c \<Longrightarrow> positive_request r \<Longrightarrow> gathers_positive (snd (run_pipe_request c r))"
  by (cases r) (simp_all add: register_positive deregister_positive)

interpretation router_pipes: invariant_ops run_pipe_request gathers_positive positive_request
  by unfold_locales (rule request_keeps_positive)

lemma run_keeps_ledger:
  "list_all (\<lambda>r. r = Inr ()) (fst (run_ops run_pipe_request c rs)) \<Longrightarrow>
   ledger (snd (run_ops run_pipe_request c rs)) = ledger c"
proof (induction rs arbitrary: c)
  case (Cons r rs)
  then show ?case
    using request_keeps_ledger [of c r] by (simp add: run_ops_Cons_split del: run_ops.simps(2))
qed simp

text \<open>C25 The ledger of extra streams is exact: on a new core, after registrations and deregistrations of
  pipes none of which failed an assertion, the number of extra streams in use, which the code keeps by
  adding differences, is the number recomputed from the resident pipes, at least one and at most three
  for each resident gather pipe.\<close>

theorem extra_streams_ledger_exact:
  assumes "list_all positive_request rs"
    and "list_all (\<lambda>r. r = Inr ()) (fst (run_ops run_pipe_request (new_HwCoreAttributes env l1 ins outs eth g) rs))"
  shows "let c = snd (run_ops run_pipe_request (new_HwCoreAttributes env l1 ins outs eth g) rs);
             gathers = int (length (resident_gather_pipe_input_counts c))
         in used_extra_streams c = count_extra_streams_from_gather_and_multicast c
            \<and> gathers \<le> used_extra_streams c \<and> used_extra_streams c \<le> 3 * gathers"
proof -
  let ?n = "new_HwCoreAttributes env l1 ins outs eth g"
  have "ledger ?n = 0" "gathers_positive ?n"
    by (simp_all add: ledger_def count_extra_streams_from_gather_and_multicast_def
        new_HwCoreAttributes_def gathers_positive_def)
  then show ?thesis
    using run_keeps_ledger [OF assms(2)] router_pipes.run_inv [of ?n rs] assms(1) count_bounds
    by (simp add: Let_def ledger_def list_all_iff)
qed

definition sample_pipe :: "nat \<Rightarrow> pipe_segment_hash" where
  "sample_pipe n = \<lparr>pipe_id = word_of_nat n, outputs = []\<rparr>"

definition sample_pipe_requests :: "pipe_request list" where
  "sample_pipe_requests = [RegisterGather (sample_pipe 1) 5, RegisterGatherMulticast (sample_pipe 2) 2,
     RegisterGather (sample_pipe 1) 5, RegisterMulticast (sample_pipe 3),
     DeregisterGather (sample_pipe 1), RegisterGather (sample_pipe 4) 1]"

lemma sample_pipes_run:
  "list_all (\<lambda>r. r = Inr ()) (fst (run_ops run_pipe_request (new_HwCoreAttributes 0 100 8 8 False 3) sample_pipe_requests))"
  by (simp add: sample_pipe_requests_def sample_pipe_def register_resident_gather_multicast_pipe_def
      register_resident_multicast_pipe_def register_resident_gather_pipe_def
      deregister_resident_gather_pipe_def Let_def count_instance_def new_HwCoreAttributes_def
      add_resident_pipe_count_def add_gather_pipe_def add_multicast_pipe_def with_extra_streams_def
      core_updates)

theorem extra_streams_ledger_exact_witness:
  "let c = snd (run_ops run_pipe_request (new_HwCoreAttributes 0 100 8 8 False 3) sample_pipe_requests);
       gathers = int (length (resident_gather_pipe_input_counts c))
   in used_extra_streams c = count_extra_streams_from_gather_and_multicast c
      \<and> gathers \<le> used_extra_streams c \<and> used_extra_streams c \<le> 3 * gathers"
  by (rule extra_streams_ledger_exact [OF _ sample_pipes_run]) (simp add: sample_pipe_requests_def)

section \<open>Round trips\<close>

lemma erase_first_snoc: "\<not> list_ex P xs \<Longrightarrow> P x \<Longrightarrow> erase_first P (xs @ [x]) = xs"
  by (induction xs) auto

definition not_resident :: "pipe_segment_hash \<Rightarrow> HwCoreAttributes \<Rightarrow> bool" where
  "not_resident i c \<longleftrightarrow> i \<notin> set (resident_multicast_pipes c)
     \<and> i \<notin> fst ` set (resident_gather_pipe_input_counts c)"

lemma count_instance_inverse: "count_instance i (- 1) (count_instance i 1 c) = c"
  by (simp add: count_instance_def)

definition extra_count :: "int \<Rightarrow> pipe_segment_hash list \<Rightarrow> (pipe_segment_hash \<times> int) list \<Rightarrow> int" where
  "extra_count m mcasts gathers = (let only = int (length (filter (\<lambda>i. i \<notin> fst ` set gathers) mcasts));
     opt = min (int (length mcasts) - only) (max 0 (m - only))
   in count_gather_streams m mcasts gathers opt (only + opt) {})"

lemma count_extra: "count_extra_streams_from_gather_and_multicast c =
    extra_count (max_num_gather_pipes_before_phase_based_gather c) (resident_multicast_pipes c)
      (resident_gather_pipe_input_counts c)"
  by (simp add: count_extra_streams_from_gather_and_multicast_def extra_count_def Let_def)

lemma remove1_snoc: "x \<notin> set xs \<Longrightarrow> remove1 x (xs @ [x]) = xs"
  by (simp add: remove1_append)

text \<open>C37 Deregistering undoes registering: for a gather or gather-multicast pipe with inputs, resident
  several times or not at all, the core is back in its state, its counts of streams included.\<close>

theorem gather_registration_round_trip:
  assumes "n \<noteq> 0" and "0 \<le> pipe_segment_instance_counts c i"
    and "pipe_segment_instance_counts c i = 0 \<Longrightarrow> not_resident i c"
  shows "andThen (register_resident_gather_pipe i n) (\<lambda>_. deregister_resident_gather_pipe i) c = (Inr (), c)
    \<and> andThen (register_resident_gather_multicast_pipe i n)
        (\<lambda>_. deregister_resident_gather_multicast_pipe i) c = (Inr (), c)"
proof (cases "pipe_segment_instance_counts c i > 0")
  case True
  then show ?thesis
    using assms(1)
    by (simp add: andThen_def register_resident_gather_pipe_def deregister_resident_gather_pipe_def
        register_resident_gather_multicast_pipe_def deregister_resident_gather_multicast_pipe_def
        Let_def count_instance_def)
next
  case False
  then have zero: "pipe_segment_instance_counts c i = 0" using assms(2) by simp
  then have "\<not> list_ex (\<lambda>p. fst p = i) (resident_gather_pipe_input_counts c)"
    "i \<notin> set (resident_multicast_pipes c)"
    using assms(3) by (auto simp: not_resident_def list_ex_iff)
  then have fresh: "erase_first (\<lambda>p. fst p = i) (resident_gather_pipe_input_counts c @ [(i, n)])
      = resident_gather_pipe_input_counts c"
    "remove1 i (resident_multicast_pipes c @ [i]) = resident_multicast_pipes c"
    by (simp_all add: erase_first_snoc remove1_snoc)
  have same: "(pipe_segment_instance_counts c)(i := 0) = pipe_segment_instance_counts c"
    using zero by (metis fun_upd_triv)
  note defs = andThen_def Let_def count_instance_def add_resident_pipe_count_def add_gather_pipe_def
    add_multicast_pipe_def erase_gather_pipe_def erase_multicast_pipe_def with_extra_streams_def
    core_updates count_extra
  have "andThen (register_resident_gather_pipe i n) (\<lambda>_. deregister_resident_gather_pipe i) c = (Inr (), c)"
    using assms(1) zero fresh same
    by (simp add: register_resident_gather_pipe_def deregister_resident_gather_pipe_def defs)
  moreover have "andThen (register_resident_gather_multicast_pipe i n)
      (\<lambda>_. deregister_resident_gather_multicast_pipe i) c = (Inr (), c)"
    using assms(1) zero fresh same
    by (simp add: register_resident_gather_multicast_pipe_def
        deregister_resident_gather_multicast_pipe_def defs)
  ultimately show ?thesis ..
qed

theorem gather_registration_round_trip_witness:
  "let c = new_HwCoreAttributes 0 100 8 8 False 3
   in andThen (register_resident_gather_pipe (sample_pipe 1) 5) (\<lambda>_. deregister_resident_gather_pipe (sample_pipe 1)) c
      = (Inr (), c)"
  using gather_registration_round_trip [of 5 "new_HwCoreAttributes 0 100 8 8 False 3" "sample_pipe 1"]
  by (simp add: new_HwCoreAttributes_def not_resident_def Let_def)

text \<open>
  For a multicast pipe it does not: the multicast stream is given back only when the numbers of
  resident pipes add up to the limit, so that a core that registers and deregisters the same pipe
  uses more multicast streams each time.
\<close>

lemma multicast_registration_leaks:
  "let c = new_HwCoreAttributes 0 100 8 8 False 3;
       c' = snd (andThen (register_resident_multicast_pipe (sample_pipe 1))
              (\<lambda>_. deregister_resident_multicast_pipe (sample_pipe 1)) c)
   in resident_multicast_pipes c' = [] \<and> used_multicast_non_eth_stream_slots c' = 1"
  by (simp add: Let_def andThen_def register_resident_multicast_pipe_def deregister_resident_multicast_pipe_def
      count_instance_def new_HwCoreAttributes_def add_resident_pipe_count_def add_multicast_pipe_def
      erase_multicast_pipe_def with_extra_streams_def core_updates MAX_MCAST_STREAMS_PER_CORE_def)

text \<open>A gather without inputs is not registered, but deregistering it fails an assertion.\<close>

lemma empty_gather_cannot_be_deregistered:
  "fst (andThen (register_resident_gather_pipe (sample_pipe 1) 0) (\<lambda>_. deregister_resident_gather_pipe (sample_pipe 1))
     (new_HwCoreAttributes 0 100 8 8 False 3)) = Inl PipeNotResident"
  by (simp add: Let_def andThen_def register_resident_gather_pipe_def deregister_resident_gather_pipe_def
      count_instance_def new_HwCoreAttributes_def erase_gather_pipe_def)

end
