(* ===== verification/GraphSearch.thy ===== *)
theory GraphSearch
  imports Prelude
begin

text \<open>
  Recursive traversals of graphs, as pipegen2 writes them several times: the depth-first search that
  leaves an order of the nodes, and the recursion that computes a value of a node from the values of
  its neighbours and remembers the nodes it has done. A traversal may fail to return (on a cycle) or
  throw, so its result is an option of a sum: \<open>None\<close> when it does not return, \<open>Some (Inl e)\<close> when it
  throws.
\<close>

section \<open>Results of operations that may not return\<close>

definition rbind :: "('e + 'a) option \<Rightarrow> ('a \<Rightarrow> ('e + 'b) option) \<Rightarrow> ('e + 'b) option" where
  "rbind m f = (case m of None \<Rightarrow> None | Some (Inl e) \<Rightarrow> Some (Inl e) | Some (Inr a) \<Rightarrow> f a)"

lemma rbind_simps [simp]:
  "rbind None f = None" "rbind (Some (Inl e)) f = Some (Inl e)" "rbind (Some (Inr a)) f = f a"
  by (simp_all add: rbind_def)

lemma rbind_Inr_iff: "rbind m f = Some (Inr b) \<longleftrightarrow> (\<exists>a. m = Some (Inr a) \<and> f a = Some (Inr b))"
  by (auto simp: rbind_def split: option.splits sum.splits)

lemma rbind_None_iff: "rbind m f = None \<longleftrightarrow> m = None \<or> (\<exists>a. m = Some (Inr a) \<and> f a = None)"
  by (auto simp: rbind_def split: option.splits sum.splits)

lemma rbind_returns: "\<exists>r. m = Some r \<Longrightarrow> (\<And>a. m = Some (Inr a) \<Longrightarrow> \<exists>r. f a = Some r) \<Longrightarrow> \<exists>r. rbind m f = Some r"
  by (auto simp: rbind_def split: sum.splits)

lemma rbind_as_bind:
  "rbind m f = Option.bind m (\<lambda>r. case r of Inl e \<Rightarrow> Some (Inl e) | Inr a \<Rightarrow> f a)"
  by (cases m) (simp_all add: rbind_def)

lemma rbind_mono [partial_function_mono]:
  assumes "mono_option B" and "\<And>y. mono_option (\<lambda>f. C y f)"
  shows "mono_option (\<lambda>f. rbind (B f) (\<lambda>y. C y f))"
  unfolding rbind_as_bind
proof (rule bind_mono [OF assms(1)])
  fix r :: "'c + 'd"
  show "mono_option (\<lambda>f. case r of Inl e \<Rightarrow> Some (Inl e) | Inr a \<Rightarrow> C a f)"
    using assms(2) by (cases r) (simp_all add: option.const_mono)
qed

section \<open>Depth-first search\<close>

text \<open>
  The nodes of a list are visited in turn, unless they have been visited: a node is marked, the
  nodes after it are visited, and it is put on the stack of finished nodes.
\<close>

partial_function (option) dfs_order ::
  "('n \<Rightarrow> 'n list) \<Rightarrow> 'n list \<Rightarrow> 'n set \<times> 'n list \<Rightarrow> ('n set \<times> 'n list) option" where
  "dfs_order nxt ns s =
     (case ns of [] \<Rightarrow> Some s
      | n # ms \<Rightarrow>
          if n \<in> fst s then dfs_order nxt ms s
          else Option.bind (dfs_order nxt (nxt n) (insert n (fst s), snd s))
                 (\<lambda>s1. dfs_order nxt ms (fst s1, n # snd s1)))"

declare dfs_order.simps [code]

lemma dfs_order_Nil [simp]: "dfs_order nxt [] s = Some s"
  by (subst dfs_order.simps) simp

lemma dfs_order_Cons:
  "dfs_order nxt (n # ms) (V, st) =
     (if n \<in> V then dfs_order nxt ms (V, st)
      else Option.bind (dfs_order nxt (nxt n) (insert n V, st))
             (\<lambda>s1. dfs_order nxt ms (fst s1, n # snd s1)))"
  by (subst dfs_order.simps) simp

definition edges_of :: "('n \<Rightarrow> 'n list) \<Rightarrow> ('n \<times> 'n) set" where
  "edges_of nxt = {(n, m). m \<in> set (nxt n)}"

definition reachable :: "('n \<Rightarrow> 'n list) \<Rightarrow> 'n list \<Rightarrow> 'n set" where
  "reachable nxt ns = (edges_of nxt)\<^sup>* `` set ns"

lemma reachable_closed: "n \<in> reachable nxt ns \<Longrightarrow> m \<in> set (nxt n) \<Longrightarrow> m \<in> reachable nxt ns"
  by (auto simp: reachable_def edges_of_def intro: rtrancl_into_rtrancl)

lemma reachable_start [intro]: "n \<in> set ns \<Longrightarrow> n \<in> reachable nxt ns"
  by (auto simp: reachable_def)

lemma reachable_next: "reachable nxt (nxt n) \<subseteq> reachable nxt (n # ms)"
  by (auto simp: reachable_def edges_of_def intro: converse_rtrancl_into_rtrancl)

lemma reachable_mono: "set ns \<subseteq> set ms \<Longrightarrow> reachable nxt ns \<subseteq> reachable nxt ms"
  by (auto simp: reachable_def)

lemma reachable_unfold: "reachable nxt [n] = insert n (\<Union>m \<in> set (nxt n). reachable nxt [m])"
proof -
  have "(n, k) \<in> (edges_of nxt)\<^sup>* \<longleftrightarrow> k = n \<or> (\<exists>m \<in> set (nxt n). (m, k) \<in> (edges_of nxt)\<^sup>*)" for k
    by (auto simp: edges_of_def elim: converse_rtranclE intro: converse_rtrancl_into_rtrancl)
  then show ?thesis by (auto simp: reachable_def)
qed

lemma reachable_least:
  assumes "set ns \<subseteq> V" and "\<And>n. n \<in> V \<Longrightarrow> set (nxt n) \<subseteq> V"
  shows "reachable nxt ns \<subseteq> V"
proof
  fix m assume "m \<in> reachable nxt ns"
  then obtain n where "n \<in> set ns" "(n, m) \<in> (edges_of nxt)\<^sup>*" by (auto simp: reachable_def)
  from this(2,1) show "m \<in> V"
    by (induction rule: rtrancl_induct) (use assms in \<open>auto simp: edges_of_def\<close>)
qed


text \<open>Every node of a list has its successors further down the list or in a set.\<close>

fun successors_later :: "('n \<Rightarrow> 'n list) \<Rightarrow> 'n set \<Rightarrow> 'n list \<Rightarrow> bool" where
  "successors_later nxt V [] \<longleftrightarrow> True"
| "successors_later nxt V (n # ns) \<longleftrightarrow> set (nxt n) \<subseteq> set ns \<union> V \<and> successors_later nxt V ns"

lemma successors_later_append:
  "successors_later nxt V (ns @ ms) \<longleftrightarrow>
     successors_later nxt (V \<union> set ms) ns \<and> successors_later nxt V ms"
  by (induction ns) (auto simp: Un_assoc Un_left_commute)

lemma successors_later_drop:
  "successors_later nxt (insert n V) ns \<Longrightarrow> \<forall>m \<in> set ns. n \<notin> set (nxt m) \<Longrightarrow> successors_later nxt V ns"
  by (induction ns) auto

text \<open>What a search adds to the marked nodes and the stack.\<close>

definition search_adds :: "('n \<Rightarrow> 'n list) \<Rightarrow> 'n list \<Rightarrow> 'n set \<Rightarrow> 'n set \<Rightarrow> 'n list \<Rightarrow> bool" where
  "search_adds nxt ns V V' pre \<longleftrightarrow> distinct pre \<and> set pre \<inter> V = {} \<and> V' = V \<union> set pre
     \<and> set ns \<subseteq> V' \<and> set pre \<subseteq> reachable nxt ns \<and> (\<forall>n \<in> set pre. set (nxt n) \<subseteq> V')
     \<and> (acyclic (edges_of nxt) \<longrightarrow> successors_later nxt V pre)"

lemma search_adds_Nil: "search_adds nxt [] V V []"
  by (simp add: search_adds_def)

lemma search_adds_skip: "n \<in> V \<Longrightarrow> search_adds nxt ms V V' pre \<Longrightarrow> search_adds nxt (n # ms) V V' pre"
  using reachable_mono [of ms "n # ms" nxt] by (auto simp: search_adds_def)

lemma not_back_to: "acyclic (edges_of nxt) \<Longrightarrow> m \<in> reachable nxt (nxt n) \<Longrightarrow> n \<notin> set (nxt m)"
proof
  assume "acyclic (edges_of nxt)" "m \<in> reachable nxt (nxt n)" "n \<in> set (nxt m)"
  then have "(n, m) \<in> (edges_of nxt)\<^sup>+" "(m, n) \<in> edges_of nxt"
    by (auto simp: reachable_def edges_of_def intro: rtrancl_into_trancl2)
  then have "(n, n) \<in> (edges_of nxt)\<^sup>+" by (rule trancl_into_trancl)
  with \<open>acyclic (edges_of nxt)\<close> show False by (auto simp: acyclic_def)
qed

lemma search_adds_visit:
  assumes "n \<notin> V" and inner: "search_adds nxt (nxt n) (insert n V) V1 pre1"
    and outer: "search_adds nxt ms V1 V2 pre2"
  shows "search_adds nxt (n # ms) V V2 (pre2 @ n # pre1)"
proof -
  have sets: "V1 = insert n V \<union> set pre1" "V2 = V1 \<union> set pre2" and n: "set (nxt n) \<subseteq> V1"
    and "set pre1 \<subseteq> reachable nxt (nxt n)" "set pre2 \<subseteq> reachable nxt ms"
    using inner outer by (auto simp: search_adds_def)
  have later: "successors_later nxt V (pre2 @ n # pre1)" if "acyclic (edges_of nxt)"
  proof -
    have "\<forall>m \<in> set pre1. n \<notin> set (nxt m)" "n \<notin> set (nxt n)"
      using not_back_to [OF that] \<open>set pre1 \<subseteq> _\<close> that by (auto simp: acyclic_def edges_of_def)
    moreover have "successors_later nxt (insert n V) pre1"
      "successors_later nxt (V \<union> set (n # pre1)) pre2"
      using inner outer that sets by (simp_all add: search_adds_def Un_commute)
    moreover have "set (nxt n) \<subseteq> set pre1 \<union> V"
      using n sets(1) \<open>n \<notin> set (nxt n)\<close> by blast
    ultimately show ?thesis
      using successors_later_drop [of nxt n V pre1] by (simp add: successors_later_append)
  qed
  have "set (pre2 @ n # pre1) \<subseteq> reachable nxt (n # ms)"
    using \<open>set pre1 \<subseteq> _\<close> \<open>set pre2 \<subseteq> _\<close> reachable_next [of nxt n ms] reachable_mono [of ms "n # ms" nxt]
      reachable_start [of n "n # ms" nxt] by auto
  moreover have "\<forall>m \<in> set (pre2 @ n # pre1). set (nxt m) \<subseteq> V2"
    using inner outer n sets(2) unfolding search_adds_def set_append set_simps by blast
  moreover have "distinct (pre2 @ n # pre1)" "set (pre2 @ n # pre1) \<inter> V = {}"
    using inner outer \<open>n \<notin> V\<close> sets(1) by (auto simp: search_adds_def)
  ultimately show ?thesis
    using outer later sets unfolding search_adds_def by auto
qed

lemma dfs_order_adds:
  assumes "dfs_order nxt ns s = Some r"
  shows "\<exists>pre. snd r = pre @ snd s \<and> search_adds nxt ns (fst s) (fst r) pre"
proof (rule dfs_order.raw_induct [OF _ assms])
  fix dfs nxt and ns :: "'a list" and s r
  assume IH: "\<And>nxt ns s r. dfs nxt ns s = Some r \<Longrightarrow>
      \<exists>pre. snd r = pre @ snd s \<and> search_adds nxt ns (fst s) (fst r) pre"
    and res: "(case ns of [] \<Rightarrow> Some s
      | n # ms \<Rightarrow> if n \<in> fst s then dfs nxt ms s
          else Option.bind (dfs nxt (nxt n) (insert n (fst s), snd s))
                 (\<lambda>s1. dfs nxt ms (fst s1, n # snd s1))) = Some r"
  show "\<exists>pre. snd r = pre @ snd s \<and> search_adds nxt ns (fst s) (fst r) pre"
  proof (cases ns)
    case Nil
    then show ?thesis using res search_adds_Nil by auto
  next
    case (Cons n ms)
    show ?thesis
    proof (cases "n \<in> fst s")
      case True
      then obtain pre where "snd r = pre @ snd s" "search_adds nxt ms (fst s) (fst r) pre"
        using IH [of nxt ms s r] res Cons by auto
      then show ?thesis using search_adds_skip [OF True] Cons by blast
    next
      case False
      then obtain s1 where inner: "dfs nxt (nxt n) (insert n (fst s), snd s) = Some s1"
        and outer: "dfs nxt ms (fst s1, n # snd s1) = Some r"
        using res Cons by (auto simp: bind_eq_Some_conv)
      obtain pre1 where 1: "snd s1 = pre1 @ snd s" "search_adds nxt (nxt n) (insert n (fst s)) (fst s1) pre1"
        using IH [OF inner] by auto
      obtain pre2 where 2: "snd r = pre2 @ n # snd s1" "search_adds nxt ms (fst s1) (fst r) pre2"
        using IH [OF outer] by auto
      show ?thesis
        using search_adds_visit [OF False 1(2) 2(2)] 1(1) 2(1) Cons by (intro exI [of _ "pre2 @ n # pre1"]) simp
    qed
  qed
qed

text \<open>A search returns when it can reach finitely many nodes, on cyclic graphs too.\<close>

lemma dfs_order_returns:
  assumes "finite R" and "set ns \<subseteq> R" and closed: "\<And>n. n \<in> R \<Longrightarrow> set (nxt n) \<subseteq> R"
  shows "\<exists>r. dfs_order nxt ns (V, st) = Some r"
  using assms(2)
proof (induction "card (R - V)" arbitrary: ns V st rule: less_induct)
  case less
  note outer = less.hyps
  show ?case
    using less.prems outer
  proof (induction ns arbitrary: V st)
    case (Cons n ms)
    show ?case
    proof (cases "n \<in> V")
      case True
      then show ?thesis using Cons.IH [of V st] Cons.prems by (simp add: dfs_order_Cons)
    next
      case False
      have "R - insert n V \<subset> R - V" using False Cons.prems(1) by auto
      then have smaller: "card (R - insert n V) < card (R - V)"
        using assms(1) by (intro psubset_card_mono) auto
      obtain s1 where s1: "dfs_order nxt (nxt n) (insert n V, st) = Some s1"
        using Cons.prems(2) [OF smaller] closed Cons.prems(1) by fastforce
      then have "insert n V \<subseteq> fst s1"
        using dfs_order_adds [OF s1] by (auto simp: search_adds_def)
      then have "card (R - fst s1) < card (R - V)"
        using assms(1) smaller by (meson Diff_mono card_mono finite_Diff order_le_less_trans subset_refl)
      then obtain r where "dfs_order nxt ms (fst s1, n # snd s1) = Some r"
        using Cons.prems by fastforce
      then show ?thesis using s1 False by (auto simp: dfs_order_Cons)
    qed
  qed simp
qed

lemma dfs_order_complete:
  assumes "finite (reachable nxt ns)"
  shows "\<exists>order. dfs_order nxt ns ({}, []) = Some (reachable nxt ns, order)
    \<and> distinct order \<and> set order = reachable nxt ns
    \<and> (acyclic (edges_of nxt) \<longrightarrow> successors_later nxt {} order)"
proof -
  obtain r where r: "dfs_order nxt ns ({}, []) = Some r"
    using dfs_order_returns [OF assms, of ns] reachable_closed [of _ nxt ns] by blast
  obtain pre where pre: "snd r = pre" "search_adds nxt ns {} (fst r) pre"
    using dfs_order_adds [OF r] by auto
  have "reachable nxt ns \<subseteq> set pre"
    using pre(2) unfolding search_adds_def by (intro reachable_least) (simp_all, blast+)
  then have "set pre = reachable nxt ns" using pre(2) by (auto simp: search_adds_def)
  then show ?thesis using r pre by (cases r) (auto simp: search_adds_def)
qed


section \<open>Computing a value of a node from its neighbours\<close>

text \<open>
  The recursion of pipegen2's data flow calculations: at a base node the value is set at once; at
  another node the neighbours are gone through, those not done yet are computed first, the value of
  each is added to a running value, and at the end the value of the node is set and the node is done.
\<close>

record ('n, 's, 'e, 'a) post_order =
  is_base :: "'s \<Rightarrow> 'n \<Rightarrow> bool"
  at_base :: "'n \<Rightarrow> 's \<Rightarrow> 'e + 's"
  neighbours :: "'s \<Rightarrow> 'n \<Rightarrow> 'n list"
  start_value :: "'s \<Rightarrow> 'n \<Rightarrow> 'a"
  add_value :: "'s \<Rightarrow> 'n \<Rightarrow> 'a \<Rightarrow> 'e + 'a"
  finish_node :: "'n \<Rightarrow> 'a \<Rightarrow> 's \<Rightarrow> 'e + 's"

datatype ('n, 'a) visit = VisitNode 'n | VisitNeighbours 'n "'n list" 'a

text \<open>A node that is done joins the set of visited nodes.\<close>

definition mark_done :: "'n \<Rightarrow> 'n set \<Rightarrow> 'e + 's \<Rightarrow> ('e + 'n set \<times> 's) option" where
  "mark_done n V r = Some (bind_sum r (\<lambda>s. Inr (insert n V, s)))"

partial_function (option) post_visit ::
  "('n, 's, 'e, 'a) post_order \<Rightarrow> ('n, 'a) visit \<Rightarrow> 'n set \<times> 's \<Rightarrow> ('e + 'n set \<times> 's) option" where
  "post_visit c call vs =
     (case call of
        VisitNode n \<Rightarrow>
          if is_base c (snd vs) n then mark_done n (fst vs) (at_base c n (snd vs))
          else post_visit c (VisitNeighbours n (neighbours c (snd vs) n) (start_value c (snd vs) n)) vs
      | VisitNeighbours n ms acc \<Rightarrow>
          (case ms of
             [] \<Rightarrow> mark_done n (fst vs) (finish_node c n acc (snd vs))
           | m # ms' \<Rightarrow>
               rbind (if m \<in> fst vs then Some (Inr vs) else post_visit c (VisitNode m) vs)
                 (\<lambda>vs1. rbind (Some (add_value c (snd vs1) m acc))
                    (\<lambda>acc'. post_visit c (VisitNeighbours n ms' acc') vs1))))"

declare post_visit.simps [code]

text \<open>The loop over start nodes, each of which is computed whether it is done or not.\<close>

fun post_visits ::
  "('n, 's, 'e, 'a) post_order \<Rightarrow> 'n list \<Rightarrow> 'n set \<times> 's \<Rightarrow> ('e + 'n set \<times> 's) option" where
  "post_visits c [] vs = Some (Inr vs)"
| "post_visits c (n # ns) vs = rbind (post_visit c (VisitNode n) vs) (post_visits c ns)"

text \<open>
  What a calculation has to satisfy for its result to be the solution of its equations: the parts of
  the state it reads are the edges, which stay, and the values, of which it changes one at a time.
\<close>

locale node_values =
  fixes calc :: "('n, 's, 'e, 'a) post_order"
    and same_graph :: "'s \<Rightarrow> bool"
    and edges :: "'n \<Rightarrow> 'n list" and base :: "'n \<Rightarrow> bool"
    and node_value :: "'s \<Rightarrow> 'n \<Rightarrow> 'v"
    and base_value :: "'n \<Rightarrow> 'e + 'v" and first_value :: "'n \<Rightarrow> 'a"
    and plus_value :: "'v \<Rightarrow> 'a \<Rightarrow> 'e + 'a" and final_value :: "'n \<Rightarrow> 'a \<Rightarrow> 'e + 'v"
  assumes is_base: "same_graph s \<Longrightarrow> is_base calc s n \<longleftrightarrow> base n"
    and neighbours: "same_graph s \<Longrightarrow> neighbours calc s n = edges n"
    and start_value: "same_graph s \<Longrightarrow> start_value calc s n = first_value n"
    and add_value: "same_graph s \<Longrightarrow> add_value calc s m acc = plus_value (node_value s m) acc"
    and at_base: "same_graph s \<Longrightarrow> at_base calc n s = Inr t \<Longrightarrow> \<exists>v. base_value n = Inr v
      \<and> same_graph t \<and> node_value t = (node_value s)(n := v)"
    and finish_node: "same_graph s \<Longrightarrow> finish_node calc n acc s = Inr t \<Longrightarrow> \<exists>v. final_value n acc = Inr v
      \<and> same_graph t \<and> node_value t = (node_value s)(n := v)"
begin

definition solved_at :: "'s \<Rightarrow> 'n \<Rightarrow> bool" where
  "solved_at s n \<longleftrightarrow>
     (if base n then base_value n = Inr (node_value s n)
      else bind_sum (fold_sum (\<lambda>m. plus_value (node_value s m)) (edges n) (first_value n)) (final_value n)
         = Inr (node_value s n))"

definition solved :: "'n set \<times> 's \<Rightarrow> bool" where
  "solved vs \<longleftrightarrow> same_graph (snd vs)
     \<and> (\<forall>n \<in> fst vs. solved_at (snd vs) n \<and> (\<not> base n \<longrightarrow> set (edges n) \<subseteq> fst vs))"

text \<open>The neighbours before the rest \<open>ms\<close> are done and have been added up.\<close>

definition adding :: "'n \<Rightarrow> 'n list \<Rightarrow> 'a \<Rightarrow> 'n set \<times> 's \<Rightarrow> bool" where
  "adding n ms acc vs \<longleftrightarrow> \<not> base n \<and> (\<exists>pre. edges n = pre @ ms \<and> set pre \<subseteq> fst vs
     \<and> fold_sum (\<lambda>m. plus_value (node_value (snd vs) m)) pre (first_value n) = Inr acc)"

definition keeps :: "'n set \<times> 's \<Rightarrow> 'n set \<times> 's \<Rightarrow> bool" where
  "keeps vs ws \<longleftrightarrow> fst vs \<subseteq> fst ws \<and> (\<forall>n \<in> fst vs. node_value (snd ws) n = node_value (snd vs) n)"

fun ready :: "('n, 'a) visit \<Rightarrow> 'n set \<times> 's \<Rightarrow> bool" where
  "ready (VisitNode n) vs \<longleftrightarrow> True"
| "ready (VisitNeighbours n ms acc) vs \<longleftrightarrow> adding n ms acc vs"

fun target :: "('n, 'a) visit \<Rightarrow> 'n" where
  "target (VisitNode n) = n"
| "target (VisitNeighbours n ms acc) = n"

lemma keeps_refl: "keeps vs vs" by (simp add: keeps_def)

lemma keeps_trans: "keeps vs ws \<Longrightarrow> keeps ws xs \<Longrightarrow> keeps vs xs" by (auto simp: keeps_def)

lemma fold_plus_cong:
  "\<forall>m \<in> set ms. v m = w m \<Longrightarrow> fold_sum (\<lambda>m. plus_value (v m)) ms a = fold_sum (\<lambda>m. plus_value (w m)) ms a"
proof (induction ms arbitrary: a)
  case (Cons m ms)
  then show ?case by (cases "plus_value (v m) a") simp_all
qed simp

lemma solved_at_cong:
  "node_value t n = node_value s n \<Longrightarrow> \<not> base n \<Longrightarrow> \<forall>m \<in> set (edges n). node_value t m = node_value s m
     \<Longrightarrow> solved_at t n \<longleftrightarrow> solved_at s n"
  using fold_plus_cong [of "edges n" "node_value t" "node_value s"] by (simp add: solved_at_def)

end

context node_values
begin

text \<open>Setting a value that satisfies the equation of its node.\<close>

definition equation :: "('n \<Rightarrow> 'v) \<Rightarrow> 'n \<Rightarrow> 'v \<Rightarrow> bool" where
  "equation vals n v \<longleftrightarrow>
     (if base n then base_value n = Inr v
      else bind_sum (fold_sum (\<lambda>m. plus_value (vals m)) (edges n) (first_value n)) (final_value n) = Inr v)"

lemma solved_at_equation: "solved_at s n \<longleftrightarrow> equation (node_value s) n (node_value s n)"
  by (simp add: solved_at_def equation_def)

lemma equation_cong:
  "\<not> base n \<Longrightarrow> \<forall>m \<in> set (edges n). f m = g m \<Longrightarrow> equation f n v \<longleftrightarrow> equation g n v"
  using fold_plus_cong [of "edges n" f g] by (simp add: equation_def)

lemma equation_unique: "equation f n v \<Longrightarrow> equation f n w \<Longrightarrow> v = w"
  by (auto simp: equation_def split: if_splits)

lemma set_value_solved:
  assumes solved: "solved (V, s)" and t: "same_graph t" "node_value t = (node_value s)(n := v)"
    and eq: "equation (node_value s) n v" and closed: "\<not> base n \<longrightarrow> set (edges n) \<subseteq> V"
  shows "solved (insert n V, t) \<and> keeps (V, s) (insert n V, t)"
proof (cases "n \<in> V")
  case True
  then have "v = node_value s n"
    using solved eq equation_unique by (auto simp: solved_def solved_at_equation)
  then have "node_value t = node_value s" using t(2) by auto
  then show ?thesis
    using solved t(1) closed True by (auto simp: solved_def keeps_def solved_at_equation insert_absorb)
next
  case False
  have at_n: "solved_at t n"
  proof (cases "base n")
    case True
    then show ?thesis using eq t(2) by (simp add: solved_at_equation equation_def)
  next
    case not_base: False
    then have "n \<notin> set (edges n)" using closed False by auto
    then show ?thesis
      using eq t(2) equation_cong [OF not_base, of "node_value t" "node_value s" v]
      by (auto simp: solved_at_equation)
  qed
  have "solved_at t m" if "m \<in> V" for m
  proof -
    have m: "solved_at s m" "\<not> base m \<longrightarrow> set (edges m) \<subseteq> V"
      using solved that by (auto simp: solved_def)
    have "m \<noteq> n" "\<not> base m \<longrightarrow> n \<notin> set (edges m)" using False that m(2) by auto
    then show ?thesis
      using m(1) t(2) equation_cong [of m "node_value t" "node_value s"]
      by (cases "base m") (auto simp: solved_at_equation equation_def)
  qed
  then show ?thesis
    using at_n solved t closed False by (auto simp: solved_def keeps_def)
qed

lemma mark_done_Inr: "mark_done n V r = Some (Inr ws) \<longleftrightarrow> (\<exists>t. r = Inr t \<and> ws = (insert n V, t))"
  by (cases r) (auto simp: mark_done_def)

lemma base_solved:
  assumes "solved (V, s)" and "base n" and "mark_done n V (at_base calc n s) = Some (Inr ws)"
  shows "solved ws \<and> keeps (V, s) ws \<and> n \<in> fst ws"
proof -
  have "same_graph s" using assms(1) by (simp add: solved_def)
  obtain t where t: "at_base calc n s = Inr t" "ws = (insert n V, t)"
    using assms(3) by (auto simp: mark_done_Inr)
  obtain v where "base_value n = Inr v" "same_graph t" "node_value t = (node_value s)(n := v)"
    using at_base [OF \<open>same_graph s\<close> t(1)] by auto
  then show ?thesis
    using set_value_solved [OF assms(1), of t n v] assms(2) t(2) by (simp add: equation_def)
qed

lemma finish_solved:
  assumes "solved (V, s)" and "adding n [] acc (V, s)"
    and "mark_done n V (finish_node calc n acc s) = Some (Inr ws)"
  shows "solved ws \<and> keeps (V, s) ws \<and> n \<in> fst ws"
proof -
  have "same_graph s" using assms(1) by (simp add: solved_def)
  obtain t where t: "finish_node calc n acc s = Inr t" "ws = (insert n V, t)"
    using assms(3) by (auto simp: mark_done_Inr)
  obtain v where v: "final_value n acc = Inr v" "same_graph t" "node_value t = (node_value s)(n := v)"
    using finish_node [OF \<open>same_graph s\<close> t(1)] by auto
  have "\<not> base n" "set (edges n) \<subseteq> V"
    "fold_sum (\<lambda>m. plus_value (node_value s m)) (edges n) (first_value n) = Inr acc"
    using assms(2) by (auto simp: adding_def)
  then show ?thesis
    using set_value_solved [OF assms(1) v(2,3)] v(1) t(2) by (simp add: equation_def)
qed

lemma adding_start: "\<not> base n \<Longrightarrow> adding n (edges n) (first_value n) vs"
  by (simp add: adding_def)

lemma adding_step:
  assumes "adding n (m # ms) acc vs" and "keeps vs ws" and "m \<in> fst ws"
    and "plus_value (node_value (snd ws) m) acc = Inr acc'"
  shows "adding n ms acc' ws"
proof -
  obtain pre where pre: "edges n = pre @ m # ms" "set pre \<subseteq> fst vs" "\<not> base n"
    "fold_sum (\<lambda>m. plus_value (node_value (snd vs) m)) pre (first_value n) = Inr acc"
    using assms(1) by (auto simp: adding_def)
  have "fold_sum (\<lambda>m. plus_value (node_value (snd ws) m)) pre (first_value n) = Inr acc"
  proof -
    have "\<forall>m \<in> set pre. node_value (snd ws) m = node_value (snd vs) m"
      using pre(2) assms(2) unfolding keeps_def by blast
    from fold_plus_cong [OF this, of "first_value n"] show ?thesis using pre(4) by simp
  qed
  then have "fold_sum (\<lambda>m. plus_value (node_value (snd ws) m)) (pre @ [m]) (first_value n) = Inr acc'"
    using assms(4) by (simp add: fold_sum_append)
  moreover have "set (pre @ [m]) \<subseteq> fst ws" using pre(2) assms(2,3) by (auto simp: keeps_def)
  ultimately show ?thesis using pre(1,3) unfolding adding_def by (intro conjI exI [of _ "pre @ [m]"]) auto
qed

lemma post_visit_solved:
  assumes "post_visit c call vs = Some r"
  shows "c = calc \<Longrightarrow> r = Inr ws \<Longrightarrow> solved vs \<Longrightarrow> ready call vs
    \<Longrightarrow> solved ws \<and> keeps vs ws \<and> target call \<in> fst ws"
proof (induction arbitrary: ws rule: post_visit.raw_induct [OF _ assms])
  case (1 visit c call vs r)
  note IH = "1"(1) and res = "1"(2) [unfolded \<open>c = calc\<close> \<open>r = Inr ws\<close>]
  note solved = \<open>solved vs\<close>
  obtain V s where vs: "vs = (V, s)" by (cases vs)
  have graph: "same_graph s" using solved by (simp add: solved_def vs)
  show ?case
  proof (cases call)
    case call: (VisitNode n)
    show ?thesis
    proof (cases "base n")
      case True
      then show ?thesis
        using res base_solved [OF solved [unfolded vs] True] is_base [OF graph] by (simp add: call vs)
    next
      case False
      then have "visit calc (VisitNeighbours n (edges n) (first_value n)) vs = Some (Inr ws)"
        using res is_base [OF graph] neighbours [OF graph] start_value [OF graph] by (simp add: call vs)
      from IH [OF this refl refl solved] adding_start [OF False]
      show ?thesis by (simp add: call)
    qed
  next
    case call: (VisitNeighbours n ms acc)
    show ?thesis
    proof (cases ms)
      case Nil
      then show ?thesis
        using res finish_solved [of V s n acc ws] \<open>ready call vs\<close> solved by (simp add: call vs)
    next
      case (Cons m ms')
      obtain vs1 where vs1: "(if m \<in> V then Some (Inr vs) else visit calc (VisitNode m) vs) = Some (Inr vs1)"
        and rest: "rbind (Some (add_value calc (snd vs1) m acc))
          (\<lambda>acc'. visit calc (VisitNeighbours n ms' acc') vs1) = Some (Inr ws)"
        using res by (auto simp: call Cons vs rbind_Inr_iff)
      have v1: "solved vs1 \<and> keeps vs vs1 \<and> m \<in> fst vs1"
      proof (cases "m \<in> V")
        case True
        then show ?thesis using vs1 solved keeps_refl by (auto simp: vs)
      next
        case False
        then show ?thesis using IH [of calc "VisitNode m" vs "Inr vs1" vs1] vs1 solved by auto
      qed
      then have "same_graph (snd vs1)" by (simp add: solved_def)
      obtain acc' where acc': "plus_value (node_value (snd vs1) m) acc = Inr acc'"
        "visit calc (VisitNeighbours n ms' acc') vs1 = Some (Inr ws)"
        using rest add_value [OF \<open>same_graph (snd vs1)\<close>] by (auto simp: rbind_Inr_iff)
      have "adding n ms' acc' vs1"
        using adding_step [OF _ _ _ acc'(1)] v1 \<open>ready call vs\<close> by (simp add: call Cons)
      then show ?thesis
        using IH [OF acc'(2) refl refl] v1 keeps_trans by (fastforce simp: call)
    qed
  qed
qed

end


context node_values
begin

lemma post_visits_solved:
  "post_visits calc ns vs = Some (Inr ws) \<Longrightarrow> solved vs
     \<Longrightarrow> solved ws \<and> keeps vs ws \<and> set ns \<subseteq> fst ws"
proof (induction ns arbitrary: vs)
  case Nil
  then show ?case using keeps_refl by auto
next
  case (Cons n ns)
  obtain vs1 where 1: "post_visit calc (VisitNode n) vs = Some (Inr vs1)"
    "post_visits calc ns vs1 = Some (Inr ws)"
    using Cons.prems(1) unfolding post_visits.simps rbind_Inr_iff by blast
  have "solved vs1 \<and> keeps vs vs1 \<and> n \<in> fst vs1"
    using post_visit_solved [OF 1(1) refl refl Cons.prems(2)] by simp
  moreover from this have "solved ws \<and> keeps vs1 ws \<and> set ns \<subseteq> fst ws"
    using Cons.IH [OF 1(2)] by blast
  ultimately show ?case using keeps_trans [of vs vs1 ws] by (auto simp: keeps_def)
qed

lemma solved_start: "same_graph s \<Longrightarrow> solved ({}, s)"
  by (simp add: solved_def)

text \<open>What is computed is closed under the edges that are followed.\<close>

lemma solved_reachable:
  assumes "solved ws" and "set ns \<subseteq> fst ws"
  shows "reachable (\<lambda>n. if base n then [] else edges n) ns \<subseteq> fst ws"
proof (rule reachable_least [OF assms(2)])
  fix n assume "n \<in> fst ws"
  then show "set (if base n then [] else edges n) \<subseteq> fst ws"
    using assms(1) by (auto simp: solved_def)
qed

lemma post_visits_equations:
  assumes "post_visits calc ns ({}, s) = Some (Inr ws)" and "same_graph s"
  shows "same_graph (snd ws) \<and> (\<forall>n \<in> reachable (\<lambda>n. if base n then [] else edges n) ns. solved_at (snd ws) n)"
proof -
  have "solved ws" "set ns \<subseteq> fst ws"
    using post_visits_solved [OF assms(1) solved_start [OF assms(2)]] by auto
  then show ?thesis using solved_reachable [of ws ns] by (auto simp: solved_def)
qed

text \<open>The recursion returns on a graph on which the edges are well-founded.\<close>

lemma post_visit_returns:
  assumes wf: "wf {(m, n). \<not> base n \<and> m \<in> set (edges n)}" and "solved vs"
  shows "\<exists>r. post_visit calc (VisitNode n) vs = Some r"
  using assms(2)
proof (induction n arbitrary: vs rule: wf_induct_rule [OF wf])
  case (1 n)
  have graph: "same_graph (snd vs)" using 1(2) by (simp add: solved_def)
  show ?case
  proof (cases "base n")
    case True
    then show ?thesis
      using is_base [OF graph] by (subst post_visit.simps) (simp add: mark_done_def)
  next
    case False
    have "\<exists>r. post_visit calc (VisitNeighbours n ms acc) ws = Some r"
      if "set ms \<subseteq> set (edges n)" "solved ws" "adding n ms acc ws" for ms acc ws
      using that
    proof (induction ms arbitrary: acc ws)
      case Nil
      show ?case by (subst post_visit.simps) (simp add: mark_done_def)
    next
      case (Cons m ms)
      let ?v = "if m \<in> fst ws then Some (Inr ws) else post_visit calc (VisitNode m) ws"
      obtain r where r: "?v = Some r"
        using "1"(1) [of m ws] Cons.prems(1,2) False by (cases "m \<in> fst ws") auto
      show ?case
      proof (cases r)
        case (Inl e)
        then show ?thesis using r by (subst post_visit.simps) simp
      next
        case (Inr ws1)
        have w1: "solved ws1 \<and> keeps ws ws1 \<and> m \<in> fst ws1"
          using r Inr Cons.prems(2) keeps_refl post_visit_solved [of calc "VisitNode m" ws r ws1]
          by (auto split: if_splits)
        then have "same_graph (snd ws1)" by (simp add: solved_def)
        note add = add_value [OF this, of m acc]
        show ?thesis
        proof (cases "plus_value (node_value (snd ws1) m) acc")
          case (Inl e)
          then show ?thesis using r \<open>r = Inr ws1\<close> add by (subst post_visit.simps) simp
        next
          case (Inr acc')
          have "adding n ms acc' ws1" using adding_step [OF Cons.prems(3) _ _ Inr] w1 by simp
          then obtain q where "post_visit calc (VisitNeighbours n ms acc') ws1 = Some q"
            using Cons.IH [of ws1 acc'] Cons.prems(1) w1 by auto
          then show ?thesis using r \<open>r = Inr ws1\<close> add Inr by (subst post_visit.simps) simp
        qed
      qed
    qed
    from this [OF subset_refl 1(2) adding_start [OF False]] show ?thesis
      using False is_base [OF graph] neighbours [OF graph] start_value [OF graph]
      by (subst post_visit.simps) simp
  qed
qed

lemma post_visits_return:
  assumes wf: "wf {(m, n). \<not> base n \<and> m \<in> set (edges n)}" and "solved vs"
  shows "\<exists>r. post_visits calc ns vs = Some r"
  using assms(2)
proof (induction ns arbitrary: vs)
  case (Cons n ns)
  obtain r where r: "post_visit calc (VisitNode n) vs = Some r"
    using post_visit_returns [OF wf Cons.prems] by auto
  show ?case
  proof (cases r)
    case (Inr vs1)
    then show ?thesis
      using r Cons.IH [of vs1] post_visit_solved [OF r refl Inr Cons.prems] by simp
  qed (use r in simp)
qed simp

end

end
