(* ===== verification/RationalGraph.thy ===== *)
theory RationalGraph
  imports GraphSearch DeviceTypes
begin

text \<open>
  pipegen2's rational graph (\<open>src/src/pipegen2/lib/src/model/rational_graph/\<close>): nodes and pipes that
  point to each other, with the operations of \<open>RGBaseNode\<close>, \<open>RGBasePipe\<close> and \<open>RationalGraph\<close>. A
  pointer is a number and the graph holds what is behind the pointers. The class of a node or a pipe
  is its type tag, which every constructor of the hierarchy sets to the tag of its class; a dynamic
  cast is a test of the tag. Fields of derived classes that the model reads are fields of the one
  record and mean nothing for other classes.
\<close>

section \<open>Nodes\<close>

datatype RGNodeType = DramInput | DramEmbeddingIndexInput | DramEmbeddingTableInput | DramOutput
  | DramOutputIntermed | Relay | EthernetRelay | NonSharedIntermed | PackerInput | PCIeStreaming
  | Virtual | SerialFork | SharedPackerIntermed | UnpackerOutput

record rg_node =
  node_type :: RGNodeType
  node_location :: tt_cxy_pair
  size_tiles :: u32
  num_epoch_tiles :: u32
  tiles_per_input :: u32
  scatter_gather_num_tiles :: u32
  input_pipe :: "nat option"
  output_pipes :: "nat list"
  output_pipes_set :: "nat set"
  num_scatter_chunks :: u32
  transfer_granularity :: u32
  untilized_output :: bool
  padding :: bool
  scatter_index :: u32

definition is_base_input_node :: "RGNodeType \<Rightarrow> bool" where
  "is_base_input_node t \<longleftrightarrow>
     t \<in> {DramInput, DramEmbeddingIndexInput, DramEmbeddingTableInput, PackerInput}"

definition is_dram_input_node :: "RGNodeType \<Rightarrow> bool" where
  "is_dram_input_node t \<longleftrightarrow> t \<in> {DramInput, DramEmbeddingIndexInput, DramEmbeddingTableInput}"

definition is_base_output_node :: "RGNodeType \<Rightarrow> bool" where
  "is_base_output_node t \<longleftrightarrow> t \<in> {DramOutput, Relay, EthernetRelay, UnpackerOutput}"

definition is_base_intermed_node :: "RGNodeType \<Rightarrow> bool" where
  "is_base_intermed_node t \<longleftrightarrow> t \<in> {DramOutputIntermed, NonSharedIntermed, SharedPackerIntermed}"

lemmas node_class_defs =
  is_base_input_node_def is_dram_input_node_def is_base_output_node_def is_base_intermed_node_def

datatype graph_error = GraphAssert

definition get_output_pipe :: "rg_node \<Rightarrow> graph_error + nat" where
  "get_output_pipe n = (case output_pipes n of [] \<Rightarrow> Inl GraphAssert | p # _ \<Rightarrow> Inr p)"

definition add_output_pipe :: "nat \<Rightarrow> rg_node \<Rightarrow> rg_node" where
  "add_output_pipe p n =
     (if p \<in> output_pipes_set n then n
      else n\<lparr>output_pipes := output_pipes n @ [p], output_pipes_set := insert p (output_pipes_set n)\<rparr>)"

definition remove_output_pipe :: "nat \<Rightarrow> rg_node \<Rightarrow> rg_node" where
  "remove_output_pipe p n =
     (if p \<in> output_pipes_set n
      then n\<lparr>output_pipes := remove1 p (output_pipes n), output_pipes_set := output_pipes_set n - {p}\<rparr>
      else n)"

definition replace_output_pipe :: "nat \<Rightarrow> nat \<Rightarrow> rg_node \<Rightarrow> rg_node" where
  "replace_output_pipe old new n =
     (if old \<in> output_pipes_set n
      then n\<lparr>output_pipes_set := insert new (output_pipes_set n - {old}),
             output_pipes := map (\<lambda>p. if p = old then new else p) (output_pipes n)\<rparr>
      else n)"

section \<open>Pipes\<close>

datatype RGPipeType = DramUnicast | DramTilizer | Unicast | UnicastToDram | NonSharedIntermedPipe
  | DramOutputIntermedPipe | SharedPackerIntermedPipe | DramMulticast | Multicast | DramParallelFork
  | DramPrefetchPreTMParallelFork | DramPrefetchPostTMUnicast | ParallelFork | SerialForkPipe
  | PaddingSerialFork | DramGather | DramEmbedding | Gather | GatherToDram
  | DramPrefetchPostTMGather | RelayPipe | PCIeUnicast | UnicastToPCIe | PCIeMulticast
  | GatherToPCIe | EthernetRelayPipe | EthernetFWRelay | DormantRelay | UnionPipe

datatype DataFlowType = Parallel | ParallelCopy | Serial

datatype NOC_ROUTE = NOC0 | NOC1 | NOC_INVALID

record pipe_input =
  pi_node :: nat
  pi_offset :: u32

record RGPipeProperties =
  prop_pipe_id :: u64
  incoming_noc_id :: NOC_ROUTE
  incoming_noc_vc :: u32
  outgoing_noc_id :: NOC_ROUTE
  outgoing_noc_vc :: u32
  periodic_repeat :: u32
  consumer_repeat :: u32
  ethernet_channel :: int
  ethernet_pipe :: bool

record rg_pipe =
  pipe_type :: RGPipeType
  dataflow_type :: DataFlowType
  pipe_properties :: RGPipeProperties
  pipe_location :: tt_cxy_pair
  m_inputs :: "pipe_input list"
  output_nodes :: "nat list"
  num_serial_outputs :: u32
  num_serial_padding_outputs :: u32
  inputs_without_last :: "pipe_input list"

definition is_serial_fork_pipe :: "RGPipeType \<Rightarrow> bool" where
  "is_serial_fork_pipe t \<longleftrightarrow> t \<in> {SerialForkPipe, PaddingSerialFork}"

definition get_num_serial_non_padding_outputs :: "rg_pipe \<Rightarrow> u32" where
  "get_num_serial_non_padding_outputs p = num_serial_outputs p - num_serial_padding_outputs p"

definition hides_last_input :: "RGPipeType \<Rightarrow> bool" where
  "hides_last_input t \<longleftrightarrow> t \<in> {DramEmbedding, SharedPackerIntermedPipe}"

text \<open>
  The virtual \<open>get_inputs\<close>. Two classes leave their last input out; they keep the list in a member
  the first call fills, and a list that is still empty is filled again.
\<close>

definition fill_inputs :: "rg_pipe \<Rightarrow> graph_error + rg_pipe" where
  "fill_inputs p =
     (if hides_last_input (pipe_type p) \<and> inputs_without_last p = [] then
        (if length (m_inputs p) > 1 then Inr (p\<lparr>inputs_without_last := butlast (m_inputs p)\<rparr>)
         else Inl GraphAssert)
      else Inr p)"

definition get_inputs :: "rg_pipe \<Rightarrow> graph_error + pipe_input list" where
  "get_inputs p =
     bind_sum (fill_inputs p)
       (\<lambda>p1. Inr (if hides_last_input (pipe_type p1) then inputs_without_last p1 else m_inputs p1))"

definition get_first_input_node :: "rg_pipe \<Rightarrow> graph_error + nat" where
  "get_first_input_node p = (case m_inputs p of [] \<Rightarrow> Inl GraphAssert | i # _ \<Rightarrow> Inr (pi_node i))"

fun unique_nodes :: "pipe_input list \<Rightarrow> nat set \<Rightarrow> nat list" where
  "unique_nodes [] seen = []"
| "unique_nodes (i # is) seen =
     (if pi_node i \<in> seen then unique_nodes is seen
      else pi_node i # unique_nodes is (insert (pi_node i) seen))"

definition get_unique_input_nodes :: "rg_pipe \<Rightarrow> graph_error + nat list" where
  "get_unique_input_nodes p = bind_sum (get_inputs p) (\<lambda>is. Inr (unique_nodes is {}))"

definition get_input_node :: "rg_pipe \<Rightarrow> graph_error + nat" where
  "get_input_node p = bind_sum (get_unique_input_nodes p)
     (\<lambda>ns. case ns of [n] \<Rightarrow> Inr n | _ \<Rightarrow> Inl GraphAssert)"

definition get_output_node :: "rg_pipe \<Rightarrow> graph_error + nat" where
  "get_output_node p = (case output_nodes p of [n] \<Rightarrow> Inr n | _ \<Rightarrow> Inl GraphAssert)"

definition replace_input_node :: "nat \<Rightarrow> nat \<Rightarrow> rg_pipe \<Rightarrow> rg_pipe" where
  "replace_input_node old new p =
     p\<lparr>m_inputs := map (\<lambda>i. if pi_node i = old then i\<lparr>pi_node := new\<rparr> else i) (m_inputs p)\<rparr>"

definition replace_output_node :: "nat \<Rightarrow> nat \<Rightarrow> rg_pipe \<Rightarrow> rg_pipe" where
  "replace_output_node old new p =
     p\<lparr>output_nodes := map (\<lambda>n. if n = old then new else n) (output_nodes p)\<rparr>"

definition swap_output_nodes :: "nat \<Rightarrow> nat \<Rightarrow> rg_pipe \<Rightarrow> graph_error + rg_pipe" where
  "swap_output_nodes i j p =
     (let ns = output_nodes p
      in if \<not> i < length ns then Inl GraphAssert
         else if \<not> j < length ns then Inl GraphAssert
         else Inr (p\<lparr>output_nodes := ns[i := ns ! j, j := ns ! i]\<rparr>))"

definition get_input_node_offsets :: "nat \<Rightarrow> rg_pipe \<Rightarrow> graph_error + u32 list" where
  "get_input_node_offsets n p =
     (case map pi_offset (filter (\<lambda>i. pi_node i = n) (m_inputs p)) of
        [] \<Rightarrow> Inl GraphAssert | offsets \<Rightarrow> Inr offsets)"

section \<open>The graph\<close>

text \<open>The pointers in the order of the vectors, what is behind them, and the next free address.\<close>

record rational_graph =
  rg_nodes :: "nat list"
  rg_pipes :: "nat list"
  doing_pcie_transfer :: bool
  node_at :: "nat \<Rightarrow> rg_node"
  pipe_at :: "nat \<Rightarrow> rg_pipe"
  next_pipe :: nat

definition get_source_nodes :: "rational_graph \<Rightarrow> nat list" where
  "get_source_nodes g =
     filter (\<lambda>n. is_base_input_node (node_type (node_at g n)) \<and> input_pipe (node_at g n) = None) (rg_nodes g)"

definition get_leaf_nodes :: "rational_graph \<Rightarrow> nat list" where
  "get_leaf_nodes g =
     filter (\<lambda>n. is_base_output_node (node_type (node_at g n)) \<and> output_pipes (node_at g n) = []) (rg_nodes g)"

fun all_at_most_one_input :: "rg_pipe list \<Rightarrow> graph_error + bool" where
  "all_at_most_one_input [] = Inr True"
| "all_at_most_one_input (p # ps) =
     bind_sum (get_inputs p) (\<lambda>is. if length is > 1 then Inr False else all_at_most_one_input ps)"

definition is_direct_graph :: "rational_graph \<Rightarrow> graph_error + bool" where
  "is_direct_graph g = all_at_most_one_input (map (pipe_at g) (rg_pipes g))"

text \<open>The pipes after a pipe, in the order of its two loops.\<close>

definition next_pipes :: "rational_graph \<Rightarrow> nat \<Rightarrow> nat list" where
  "next_pipes g p = concat (map (\<lambda>n. output_pipes (node_at g n)) (output_nodes (pipe_at g p)))"

definition depth_first_search ::
  "rational_graph \<Rightarrow> nat list \<Rightarrow> nat set \<times> nat list \<Rightarrow> (nat set \<times> nat list) option" where
  "depth_first_search g = dfs_order (next_pipes g)"

text \<open>
  The vector the search appends to is reversed at the end: the stack of the search, whose last
  finished pipe comes first, is the reversed vector.
\<close>

definition get_pipes_in_topological_order :: "rational_graph \<Rightarrow> nat list option" where
  "get_pipes_in_topological_order g = map_option snd (depth_first_search g (rg_pipes g) ({}, []))"

definition relink_node :: "nat \<Rightarrow> nat \<Rightarrow> rg_node \<Rightarrow> rg_node" where
  "relink_node old new n =
     (if input_pipe n = Some old then n\<lparr>input_pipe := Some new\<rparr> else replace_output_pipe old new n)"

definition relink_nodes :: "nat \<Rightarrow> nat \<Rightarrow> rational_graph \<Rightarrow> rational_graph" where
  "relink_nodes old new g =
     fold (\<lambda>n g. g\<lparr>node_at := (node_at g)(n := relink_node old new (node_at g n))\<rparr>) (rg_nodes g) g"

definition replace_pipe :: "nat \<Rightarrow> nat \<Rightarrow> rational_graph \<Rightarrow> graph_error + rational_graph" where
  "replace_pipe pipe_index new g =
     (if \<not> pipe_index < length (rg_pipes g) then Inl GraphAssert
      else let old = rg_pipes g ! pipe_index; g1 = relink_nodes old new g
           in bind_sum (get_inputs (pipe_at g1 old)) (\<lambda>is.
                let p = pipe_at g1 new;
                    p1 = p\<lparr>m_inputs := m_inputs p @ is, output_nodes := output_nodes p @ output_nodes (pipe_at g1 old)\<rparr>
                in Inr (g1\<lparr>pipe_at := (pipe_at g1)(new := p1), rg_pipes := (rg_pipes g1)[pipe_index := new]\<rparr>)))"

text \<open>The walk up a chain of pipes; on a cycle it does not return.\<close>

partial_function (option) chain_root ::
  "rational_graph \<Rightarrow> nat option \<Rightarrow> nat \<Rightarrow> (graph_error + nat option) option" where
  "chain_root g root n =
     (case input_pipe (node_at g n) of
        None \<Rightarrow> Some (Inr root)
      | Some p \<Rightarrow> rbind (Some (get_first_input_node (pipe_at g p))) (\<lambda>n'. chain_root g (Some p) n'))"

declare chain_root.simps [code]

definition get_chain_root_pipe :: "rational_graph \<Rightarrow> nat \<Rightarrow> (graph_error + nat option) option" where
  "get_chain_root_pipe g n = chain_root g None n"

end
