(* ===== verification/RationalGraphProps.thy ===== *)
theory RationalGraphProps
  imports RationalGraph
begin

text \<open>
  Properties of the rational graph: the topological order of its pipes, and the replacement of a pipe,
  which keeps nodes and pipes pointing to each other.
\<close>

section \<open>Topological order\<close>

lemma successors_later_nth:
  "successors_later nxt V ns \<Longrightarrow> i < length ns \<Longrightarrow> set (nxt (ns ! i)) \<subseteq> set (drop (Suc i) ns) \<union> V"
proof (induction ns arbitrary: i)
  case (Cons n ns)
  then show ?case by (cases i) simp_all
qed simp

definition pipes_closed :: "rational_graph \<Rightarrow> bool" where
  "pipes_closed g \<longleftrightarrow> (\<forall>p \<in> set (rg_pipes g). set (next_pipes g p) \<subseteq> set (rg_pipes g))"

lemma reachable_pipes: "pipes_closed g \<Longrightarrow> reachable (next_pipes g) (rg_pipes g) = set (rg_pipes g)"
  using reachable_least [of "rg_pipes g" "set (rg_pipes g)" "next_pipes g"]
  by (auto simp: pipes_closed_def)

text \<open>C28 The order of the pipes is a topological order: on a graph without cycles whose pipes lead to
  its own pipes the search returns a list that holds every pipe once, with all pipes a pipe leads to
  after it.\<close>

theorem pipes_in_topological_order:
  assumes "pipes_closed g" and "acyclic (edges_of (next_pipes g))"
  shows "\<exists>order. get_pipes_in_topological_order g = Some order \<and> distinct order
    \<and> set order = set (rg_pipes g)
    \<and> (\<forall>i < length order. set (next_pipes g (order ! i)) \<subseteq> set (drop (Suc i) order))"
proof -
  obtain order where order: "dfs_order (next_pipes g) (rg_pipes g) ({}, []) =
      Some (set (rg_pipes g), order)" "distinct order" "set order = set (rg_pipes g)"
    "successors_later (next_pipes g) {} order"
    using dfs_order_complete [of "next_pipes g" "rg_pipes g"] reachable_pipes [OF assms(1)] assms(2)
    by auto
  then show ?thesis
    using successors_later_nth [OF order(4)]
    by (auto simp: get_pipes_in_topological_order_def depth_first_search_def)
qed

text \<open>A graph of three pipes: a gather and a multicast in a row, and a unicast beside them.\<close>

definition blank_node :: rg_node where
  "blank_node = \<lparr>node_type = Virtual, node_location = \<lparr>cxy_chip = 0, cxy_x = 1, cxy_y = 1\<rparr>, size_tiles = 8,
     num_epoch_tiles = 64, tiles_per_input = 8, scatter_gather_num_tiles = 1, input_pipe = None,
     output_pipes = [], output_pipes_set = {}, num_scatter_chunks = 0, transfer_granularity = 1,
     untilized_output = False, padding = False, scatter_index = 0\<rparr>"

definition blank_pipe :: rg_pipe where
  "blank_pipe = \<lparr>pipe_type = Unicast, dataflow_type = ParallelCopy,
     pipe_properties = \<lparr>prop_pipe_id = 7, incoming_noc_id = NOC0, incoming_noc_vc = 0, outgoing_noc_id = NOC0,
       outgoing_noc_vc = 0, periodic_repeat = 1, consumer_repeat = 1, ethernet_channel = -1, ethernet_pipe = False\<rparr>,
     pipe_location = \<lparr>cxy_chip = 0, cxy_x = 1, cxy_y = 1\<rparr>, m_inputs = [], output_nodes = [],
     num_serial_outputs = 0, num_serial_padding_outputs = 0, inputs_without_last = []\<rparr>"

definition sample_graph :: rational_graph where
  "sample_graph = \<lparr>rg_nodes = [0, 1, 2, 3, 4], rg_pipes = [11, 12, 10], doing_pcie_transfer = False,
     node_at = (\<lambda>_. blank_node)(
       0 := blank_node\<lparr>node_type := PackerInput, output_pipes := [10], output_pipes_set := {10}\<rparr>,
       1 := blank_node\<lparr>input_pipe := Some 10, output_pipes := [11], output_pipes_set := {11}\<rparr>,
       2 := blank_node\<lparr>node_type := UnpackerOutput, input_pipe := Some 11\<rparr>,
       3 := blank_node\<lparr>node_type := PackerInput, output_pipes := [12], output_pipes_set := {12}\<rparr>,
       4 := blank_node\<lparr>node_type := UnpackerOutput, input_pipe := Some 12\<rparr>),
     pipe_at = (\<lambda>_. blank_pipe)(
       10 := blank_pipe\<lparr>pipe_type := Gather, m_inputs := [\<lparr>pi_node = 0, pi_offset = 0\<rparr>], output_nodes := [1]\<rparr>,
       11 := blank_pipe\<lparr>pipe_type := Multicast, m_inputs := [\<lparr>pi_node = 1, pi_offset = 0\<rparr>], output_nodes := [2]\<rparr>,
       12 := blank_pipe\<lparr>m_inputs := [\<lparr>pi_node = 3, pi_offset = 0\<rparr>], output_nodes := [4]\<rparr>),
     next_pipe = 13\<rparr>"

lemma sample_next_pipes: "next_pipes sample_graph p = (if p = 10 then [11] else [])"
  by (simp add: next_pipes_def sample_graph_def blank_pipe_def blank_node_def)

lemma sample_acyclic: "acyclic (edges_of (next_pipes sample_graph))"
proof -
  have "edges_of (next_pipes sample_graph) = {(10, 11)}"
    by (auto simp: edges_of_def sample_next_pipes split: if_splits)
  then show ?thesis by (simp add: acyclic_insert) (simp add: acyclic_def)
qed

lemma sample_pipes: "rg_pipes sample_graph = [11, 12, 10]"
  by (simp add: sample_graph_def)

theorem pipes_in_topological_order_witness:
  "\<exists>order. get_pipes_in_topological_order sample_graph = Some order \<and> distinct order
     \<and> set order = {10, 11, 12}
     \<and> (\<forall>i < length order. set (next_pipes sample_graph (order ! i)) \<subseteq> set (drop (Suc i) order))"
proof -
  have "pipes_closed sample_graph" "set (rg_pipes sample_graph) = {10, 11, 12}"
    by (auto simp: pipes_closed_def sample_next_pipes sample_pipes)
  then show ?thesis using pipes_in_topological_order [OF _ sample_acyclic] by metis
qed

section \<open>Replacing a pipe\<close>

definition links_match :: "rational_graph \<Rightarrow> nat \<Rightarrow> nat \<Rightarrow> bool" where
  "links_match g p n \<longleftrightarrow>
     (n \<in> set (output_nodes (pipe_at g p)) \<longleftrightarrow> input_pipe (node_at g n) = Some p)
   \<and> (n \<in> pi_node ` set (m_inputs (pipe_at g p)) \<longleftrightarrow> p \<in> set (output_pipes (node_at g n)))"

definition graph_linked :: "rational_graph \<Rightarrow> bool" where
  "graph_linked g \<longleftrightarrow> distinct (rg_nodes g) \<and> distinct (rg_pipes g)
     \<and> (\<forall>p \<in> set (rg_pipes g). \<forall>n \<in> set (rg_nodes g). links_match g p n)
     \<and> (\<forall>n \<in> set (rg_nodes g). output_pipes_set (node_at g n) = set (output_pipes (node_at g n)))"

definition fresh_pipe :: "nat \<Rightarrow> rational_graph \<Rightarrow> bool" where
  "fresh_pipe new g \<longleftrightarrow> new \<notin> set (rg_pipes g) \<and> m_inputs (pipe_at g new) = []
     \<and> output_nodes (pipe_at g new) = []
     \<and> (\<forall>n \<in> set (rg_nodes g). input_pipe (node_at g n) \<noteq> Some new \<and> new \<notin> set (output_pipes (node_at g n)))"

lemma relink_fold:
  assumes "distinct ns"
  shows "fold (\<lambda>n g. g\<lparr>node_at := (node_at g)(n := relink_node old new (node_at g n))\<rparr>) ns g
    = g\<lparr>node_at := (\<lambda>n. if n \<in> set ns then relink_node old new (node_at g n) else node_at g n)\<rparr>"
  using assms
proof (induction ns arbitrary: g)
  case (Cons m ns)
  then show ?case
    by (auto simp: fun_eq_iff intro!: arg_cong [where f = "\<lambda>f. g\<lparr>node_at := f\<rparr>"])
qed simp

lemma relink_nodes_at:
  "distinct (rg_nodes g) \<Longrightarrow> relink_nodes old new g
    = g\<lparr>node_at := (\<lambda>n. if n \<in> set (rg_nodes g) then relink_node old new (node_at g n) else node_at g n)\<rparr>"
  unfolding relink_nodes_def by (rule relink_fold)

lemma replaced_pipe:
  assumes "distinct (rg_nodes g)" and "i < length (rg_pipes g)"
    and "\<not> hides_last_input (pipe_type (pipe_at g (rg_pipes g ! i)))" and "fresh_pipe new g"
  shows "replace_pipe i new g = Inr ((relink_nodes (rg_pipes g ! i) new g)
     \<lparr>pipe_at := (pipe_at g)(new := (pipe_at g new)
        \<lparr>m_inputs := m_inputs (pipe_at g (rg_pipes g ! i)), output_nodes := output_nodes (pipe_at g (rg_pipes g ! i))\<rparr>),
      rg_pipes := (rg_pipes g)[i := new]\<rparr>)"
  using assms
  by (simp add: replace_pipe_def relink_nodes_at get_inputs_def fill_inputs_def fresh_pipe_def Let_def)

text \<open>C26 Replacing a pipe keeps the links of the graph: when nodes and pipes point to each other and the
  new pipe is fresh and empty, then after the replacement they do so again, with the new pipe in the
  place of the old one, between the same nodes. The replaced pipe must not be of the two kinds that hide their last
  input from \<open>get_inputs\<close> (embeddings and shared packer intermediates), and no node may be both written and
  read by it.\<close>

theorem replace_pipe_keeps_links:
  assumes "graph_linked g" and "i < length (rg_pipes g)" and "fresh_pipe new g"
    and "\<not> hides_last_input (pipe_type (pipe_at g (rg_pipes g ! i)))"
    and "\<forall>n \<in> set (rg_nodes g). input_pipe (node_at g n) = Some (rg_pipes g ! i) \<longrightarrow>
      rg_pipes g ! i \<notin> set (output_pipes (node_at g n))"
  shows "\<exists>h. replace_pipe i new g = Inr h \<and> graph_linked h \<and> rg_pipes h = (rg_pipes g)[i := new]
    \<and> m_inputs (pipe_at h new) = m_inputs (pipe_at g (rg_pipes g ! i))
    \<and> output_nodes (pipe_at h new) = output_nodes (pipe_at g (rg_pipes g ! i))"
proof -
  let ?old = "rg_pipes g ! i"
  have linked: "distinct (rg_nodes g)" "distinct (rg_pipes g)"
    and match: "\<And>p n. p \<in> set (rg_pipes g) \<Longrightarrow> n \<in> set (rg_nodes g) \<Longrightarrow> links_match g p n"
    and sets: "\<And>n. n \<in> set (rg_nodes g) \<Longrightarrow> output_pipes_set (node_at g n) = set (output_pipes (node_at g n))"
    using assms(1) by (auto simp: graph_linked_def)
  have fresh: "new \<notin> set (rg_pipes g)"
    "\<And>n. n \<in> set (rg_nodes g) \<Longrightarrow> input_pipe (node_at g n) \<noteq> Some new \<and> new \<notin> set (output_pipes (node_at g n))"
    using assms(3) by (auto simp: fresh_pipe_def)
  have old: "?old \<in> set (rg_pipes g)" "?old \<noteq> new" using assms(2) fresh(1) by auto
  have pipes: "set ((rg_pipes g)[i := new]) = insert new (set (rg_pipes g) - {?old})"
    using linked(2) assms(2) by (simp add: set_update_distinct)
  define h where "h = (relink_nodes ?old new g)
     \<lparr>pipe_at := (pipe_at g)(new := (pipe_at g new)\<lparr>m_inputs := m_inputs (pipe_at g ?old), output_nodes := output_nodes (pipe_at g ?old)\<rparr>),
      rg_pipes := (rg_pipes g)[i := new]\<rparr>"
  have at_h: "rg_nodes h = rg_nodes g" "rg_pipes h = (rg_pipes g)[i := new]"
    by (simp_all add: h_def relink_nodes_at linked)
  have links: "links_match h p n" if "p \<in> set (rg_pipes h)" and n: "n \<in> set (rg_nodes g)" for p n
  proof -
    have node: "node_at h n = relink_node ?old new (node_at g n)"
      using n by (simp add: h_def relink_nodes_at linked)
    have "p = new \<or> p \<in> set (rg_pipes g) \<and> p \<noteq> ?old \<and> p \<noteq> new"
      using that(1) pipes fresh(1) by (auto simp: at_h)
    then show ?thesis
    proof
      assume "p = new"
      then show ?thesis
        using match [OF old(1) n] sets [OF n] fresh(2) [OF n] assms(5) n node old(2)
        by (auto simp: links_match_def h_def relink_node_def replace_output_pipe_def)
    next
      assume p: "p \<in> set (rg_pipes g) \<and> p \<noteq> ?old \<and> p \<noteq> new"
      then show ?thesis
        using match [of p n] sets [OF n] fresh(2) [OF n] n node old(2)
        by (auto simp: links_match_def h_def relink_node_def replace_output_pipe_def)
    qed
  qed
  have "output_pipes_set (node_at h n) = set (output_pipes (node_at h n))" if "n \<in> set (rg_nodes g)" for n
    using sets [OF that] that
    by (auto simp: h_def relink_nodes_at linked relink_node_def replace_output_pipe_def)
  then have "graph_linked h"
    using links linked fresh(1) by (simp add: graph_linked_def at_h distinct_list_update)
  then show ?thesis
    using replaced_pipe [OF linked(1) assms(2,4,3)] by (auto simp: h_def)
qed

theorem replace_pipe_keeps_links_witness:
  "\<exists>h. replace_pipe 2 13 sample_graph = Inr h \<and> graph_linked h \<and> rg_pipes h = [11, 12, 13]"
proof -
  have "graph_linked sample_graph" "fresh_pipe 13 sample_graph"
    by (auto simp: graph_linked_def links_match_def fresh_pipe_def sample_graph_def blank_node_def blank_pipe_def)
  then show ?thesis
    using replace_pipe_keeps_links [of sample_graph 2 13]
    by (auto simp: sample_graph_def blank_node_def blank_pipe_def hides_last_input_def)
qed

end
