(* ===== verification/GatherOptimization.thy ===== *)
theory GatherOptimization
  imports RationalGraphProps ResourceManager
begin

text \<open>
  pipegen2's gather optimization
  (\<open>graph_creator/rational_graph/gather_optimization_manager.cpp\<close>): the gather and multicast streams
  the pipes of all rational graphs will need are counted per core, and a gather pipe that would
  exceed the limit of its core is replaced by a dormant relay pipe. The limit is the one of the
  resource manager. The pipe that is made takes the next free address of its graph.
\<close>

datatype optimizer_error = GraphError graph_error | ResourceError pipegen2_exn

type_synonym stream_counts = "tt_cxy_pair \<rightharpoonup> nat"

definition in_graph :: "graph_error + 'a \<Rightarrow> optimizer_error + 'a" where
  "in_graph r = (case r of Inl e \<Rightarrow> Inl (GraphError e) | Inr a \<Rightarrow> Inr a)"

lemma in_graph_Inr [simp]: "in_graph r = Inr a \<longleftrightarrow> r = Inr a"
  by (auto simp: in_graph_def split: sum.splits)

definition in_resources :: "pipegen2_exn + 'a \<Rightarrow> optimizer_error + 'a" where
  "in_resources r = (case r of Inl e \<Rightarrow> Inl (ResourceError e) | Inr a \<Rightarrow> Inr a)"

lemma in_resources_Inr [simp]: "in_resources r = Inr a \<longleftrightarrow> r = Inr a"
  by (auto simp: in_resources_def split: sum.splits)

definition is_multicast_pipe :: "RGPipeType \<Rightarrow> bool" where
  "is_multicast_pipe t \<longleftrightarrow> t \<in> {Multicast, DramMulticast, PCIeMulticast}"

definition count_stream :: "tt_cxy_pair \<Rightarrow> stream_counts \<Rightarrow> stream_counts" where
  "count_stream loc counts = counts(loc \<mapsto> Suc (case counts loc of None \<Rightarrow> 0 | Some k \<Rightarrow> k))"

definition count_multicast_pipe :: "rg_pipe \<Rightarrow> stream_counts \<Rightarrow> stream_counts" where
  "count_multicast_pipe p counts =
     (if \<not> is_multicast_pipe (pipe_type p) then counts else count_stream (pipe_location p) counts)"

definition count_multicast_streams :: "rational_graph list \<Rightarrow> stream_counts \<Rightarrow> stream_counts" where
  "count_multicast_streams gs =
     fold (\<lambda>g. fold count_multicast_pipe (map (pipe_at g) (rg_pipes g))) gs"

definition dormant_relay_pipe :: "rg_pipe \<Rightarrow> rg_pipe" where
  "dormant_relay_pipe p =
     \<lparr>pipe_type = DormantRelay, dataflow_type = Serial, pipe_properties = pipe_properties p,
      pipe_location = pipe_location p, m_inputs = [], output_nodes = [], num_serial_outputs = 0,
      num_serial_padding_outputs = 0, inputs_without_last = []\<rparr>"

definition new_dormant_relay :: "rg_pipe \<Rightarrow> rational_graph \<Rightarrow> rational_graph" where
  "new_dormant_relay p g =
     g\<lparr>pipe_at := (pipe_at g)(next_pipe g := dormant_relay_pipe p), next_pipe := next_pipe g + 1\<rparr>"

definition process_gather_pipe :: "resource_manager \<Rightarrow> nat \<Rightarrow> stream_counts \<times> rational_graph
    \<Rightarrow> optimizer_error + stream_counts \<times> rational_graph" where
  "process_gather_pipe rm pipe_index s =
     (let (counts, g) = s; pipe = pipe_at g (rg_pipes g ! pipe_index); loc = pipe_location pipe
      in if pipe_type pipe \<noteq> Gather then Inr s
         else bind_sum (in_graph (get_output_node pipe)) (\<lambda>n.
              bind_sum (in_graph (get_output_pipe (node_at g n))) (\<lambda>m.
                if pipe_type (pipe_at g m) = Multicast \<and> loc = pipe_location (pipe_at g m) then Inr s
                else (case counts loc of
                        None \<Rightarrow> Inr (counts(loc \<mapsto> 1), g)
                      | Some k \<Rightarrow>
                          bind_sum (in_resources (fst (rm_get_multicast_streams_count loc rm))) (\<lambda>limit.
                            if k < unat limit then Inr (counts(loc \<mapsto> k + 1), g)
                            else bind_sum (in_graph (replace_pipe pipe_index (next_pipe g) (new_dormant_relay pipe g)))
                                   (\<lambda>g1. Inr (counts, g1)))))))"

definition process_graph :: "resource_manager \<Rightarrow> stream_counts \<times> rational_graph
    \<Rightarrow> optimizer_error + stream_counts \<times> rational_graph" where
  "process_graph rm s = fold_sum (process_gather_pipe rm) [0..<length (rg_pipes (snd s))] s"

fun process_graphs :: "resource_manager \<Rightarrow> stream_counts \<Rightarrow> rational_graph list
    \<Rightarrow> optimizer_error + stream_counts \<times> rational_graph list" where
  "process_graphs rm counts [] = Inr (counts, [])"
| "process_graphs rm counts (g # gs) =
     bind_sum (process_graph rm (counts, g)) (\<lambda>(counts1, g1).
     bind_sum (process_graphs rm counts1 gs) (\<lambda>(counts2, gs2). Inr (counts2, g1 # gs2)))"

definition process_rational_graphs :: "resource_manager \<Rightarrow> rational_graph list
    \<Rightarrow> optimizer_error + stream_counts \<times> rational_graph list" where
  "process_rational_graphs rm gs = process_graphs rm (count_multicast_streams gs (\<lambda>_. None)) gs"

section \<open>What the counts count\<close>

definition joined_multicast :: "rational_graph \<Rightarrow> rg_pipe \<Rightarrow> bool" where
  "joined_multicast g p \<longleftrightarrow>
     (case get_output_node p of Inl e \<Rightarrow> False
      | Inr n \<Rightarrow> (case get_output_pipe (node_at g n) of Inl e \<Rightarrow> False
          | Inr m \<Rightarrow> pipe_type (pipe_at g m) = Multicast \<and> pipe_location p = pipe_location (pipe_at g m)))"

text \<open>A gather pipe with a stream of its own at a core, and a multicast pipe there.\<close>

definition own_gather :: "tt_cxy_pair \<Rightarrow> rational_graph \<Rightarrow> nat \<Rightarrow> bool" where
  "own_gather loc g i \<longleftrightarrow> (let p = pipe_at g (rg_pipes g ! i)
     in pipe_type p = Gather \<and> pipe_location p = loc \<and> \<not> joined_multicast g p)"

definition own_multicast :: "tt_cxy_pair \<Rightarrow> rational_graph \<Rightarrow> nat \<Rightarrow> bool" where
  "own_multicast loc g i \<longleftrightarrow> (let p = pipe_at g (rg_pipes g ! i)
     in is_multicast_pipe (pipe_type p) \<and> pipe_location p = loc)"

definition tally :: "(nat \<Rightarrow> bool) \<Rightarrow> nat \<Rightarrow> nat" where
  "tally P k = length (filter P [0..<k])"

definition multicasts_at :: "tt_cxy_pair \<Rightarrow> rational_graph \<Rightarrow> nat" where
  "multicasts_at loc g = tally (own_multicast loc g) (length (rg_pipes g))"

definition gathers_at :: "tt_cxy_pair \<Rightarrow> rational_graph \<Rightarrow> nat" where
  "gathers_at loc g = tally (own_gather loc g) (length (rg_pipes g))"

definition counted :: "stream_counts \<Rightarrow> tt_cxy_pair \<Rightarrow> nat" where
  "counted counts loc = (case counts loc of None \<Rightarrow> 0 | Some k \<Rightarrow> k)"

definition stream_limit :: "resource_manager \<Rightarrow> tt_cxy_pair \<Rightarrow> nat" where
  "stream_limit rm loc = (case fst (rm_get_multicast_streams_count loc rm) of Inl e \<Rightarrow> 0 | Inr l \<Rightarrow> unat l)"

text \<open>The next address is free, and the pipes have addresses of their own.\<close>

definition pipes_addressed :: "rational_graph \<Rightarrow> bool" where
  "pipes_addressed g \<longleftrightarrow> distinct (rg_nodes g) \<and> distinct (rg_pipes g)
     \<and> (\<forall>p \<in> set (rg_pipes g). p < next_pipe g)
     \<and> (\<forall>n p. p \<in> set (output_pipes (node_at g n)) \<longrightarrow> p < next_pipe g)"

lemma addressed_pipe: "pipes_addressed g \<Longrightarrow> i < length (rg_pipes g) \<Longrightarrow> rg_pipes g ! i \<noteq> next_pipe g"
  using nth_mem [of i "rg_pipes g"] by (fastforce simp: pipes_addressed_def)

lemma tally_0 [simp]: "tally P 0 = 0" by (simp add: tally_def)

lemma tally_Suc [simp]: "tally P (Suc k) = tally P k + (if P k then 1 else 0)"
  by (simp add: tally_def)

lemma tally_cong: "\<forall>i < k. P i = Q i \<Longrightarrow> tally P k = tally Q k"
  by (induction k) simp_all


section \<open>Replacing a gather pipe\<close>

lemma output_pipe_relinked:
  "output_pipes n = m # ms \<Longrightarrow> get_output_pipe (relink_node old new n) = Inr m
     \<or> m = old \<and> get_output_pipe (relink_node old new n) = Inr new"
  by (auto simp: get_output_pipe_def relink_node_def replace_output_pipe_def)

lemma no_output_pipe_relinked:
  "output_pipes n = [] \<Longrightarrow> get_output_pipe (relink_node old new n) = Inl GraphAssert"
  by (auto simp: get_output_pipe_def relink_node_def replace_output_pipe_def)

text \<open>What a replacement leaves of a graph, for the gather pipe at an index.\<close>

definition gather_replaced :: "nat \<Rightarrow> rational_graph \<Rightarrow> rational_graph \<Rightarrow> bool" where
  "gather_replaced i g h \<longleftrightarrow> rg_pipes h = (rg_pipes g)[i := next_pipe g] \<and> next_pipe h = Suc (next_pipe g)
     \<and> (\<forall>p. p \<noteq> next_pipe g \<longrightarrow> pipe_at h p = pipe_at g p)
     \<and> pipe_type (pipe_at h (next_pipe g)) = DormantRelay \<and> rg_nodes h = rg_nodes g
     \<and> (\<forall>n. node_at h n = node_at g n \<or> node_at h n = relink_node (rg_pipes g ! i) (next_pipe g) (node_at g n))"

lemma replace_gather:
  assumes "pipes_addressed g" and "i < length (rg_pipes g)"
    and "pipe_type (pipe_at g (rg_pipes g ! i)) = Gather"
    and "replace_pipe i (next_pipe g) (new_dormant_relay (pipe_at g (rg_pipes g ! i)) g) = Inr h"
  shows "gather_replaced i g h"
proof -
  let ?old = "rg_pipes g ! i"
  have "?old \<noteq> next_pipe g" "distinct (rg_nodes g)"
    using assms(1) addressed_pipe [OF assms(1,2)] by (auto simp: pipes_addressed_def)
  then show ?thesis
    using assms
    by (auto simp: gather_replaced_def replace_pipe_def new_dormant_relay_def relink_nodes_at Let_def
        get_inputs_def fill_inputs_def hides_last_input_def dormant_relay_pipe_def)
qed

lemma gather_replaced_addressed:
  assumes "pipes_addressed g" and "i < length (rg_pipes g)" and "gather_replaced i g h"
  shows "pipes_addressed h"
proof -
  have "set (rg_pipes h) \<subseteq> insert (next_pipe g) (set (rg_pipes g))"
    using assms(3) set_update_subset_insert [of "rg_pipes g" i "next_pipe g"] by (simp add: gather_replaced_def)
  moreover have "distinct (rg_pipes h)"
    using assms by (auto simp: gather_replaced_def pipes_addressed_def intro!: distinct_list_update)
  moreover have "p < next_pipe h" if "p \<in> set (output_pipes (node_at h n))" for n p
  proof -
    have "node_at h n = node_at g n \<or> node_at h n = relink_node (rg_pipes g ! i) (next_pipe g) (node_at g n)"
      using assms(3) by (simp add: gather_replaced_def)
    then have "p \<in> set (output_pipes (node_at g n)) \<or> p = next_pipe g"
      using that by (auto simp: relink_node_def replace_output_pipe_def split: if_splits)
    then show ?thesis using assms(1,3) by (auto simp: pipes_addressed_def gather_replaced_def less_Suc_eq)
  qed
  ultimately show ?thesis
    using assms(1,3) by (auto simp: pipes_addressed_def gather_replaced_def less_Suc_eq)
qed

lemma joined_multicast_replaced:
  assumes "pipes_addressed g" and "gather_replaced i g h"
    and "pipe_type (pipe_at g (rg_pipes g ! i)) = Gather"
  shows "joined_multicast h p = joined_multicast g p"
proof (cases "get_output_node p")
  case (Inr n)
  have node: "node_at h n = node_at g n \<or> node_at h n = relink_node (rg_pipes g ! i) (next_pipe g) (node_at g n)"
    using assms(2) by (simp add: gather_replaced_def)
  show ?thesis
  proof (cases "output_pipes (node_at g n)")
    case Nil
    then have "get_output_pipe (node_at h n) = Inl GraphAssert" "get_output_pipe (node_at g n) = Inl GraphAssert"
      using node no_output_pipe_relinked [OF Nil] by (auto simp: get_output_pipe_def)
    then show ?thesis using Inr by (simp add: joined_multicast_def)
  next
    case (Cons m ms)
    have g: "get_output_pipe (node_at g n) = Inr m" by (simp add: get_output_pipe_def Cons)
    have "m \<in> set (output_pipes (node_at g n))" by (simp add: Cons)
    then have "m < next_pipe g" using assms(1) unfolding pipes_addressed_def by blast
    then have m: "pipe_at h m = pipe_at g m" using assms(2) by (simp add: gather_replaced_def)
    have "get_output_pipe (node_at h n) = Inr m
        \<or> m = rg_pipes g ! i \<and> get_output_pipe (node_at h n) = Inr (next_pipe g)"
      using node output_pipe_relinked [OF Cons, of "rg_pipes g ! i" "next_pipe g"] g by auto
    then show ?thesis
    proof
      assume "get_output_pipe (node_at h n) = Inr m"
      then show ?thesis using Inr g m by (simp add: joined_multicast_def)
    next
      assume "m = rg_pipes g ! i \<and> get_output_pipe (node_at h n) = Inr (next_pipe g)"
      then show ?thesis using Inr g assms(2,3) by (simp add: joined_multicast_def gather_replaced_def)
    qed
  qed
qed (simp add: joined_multicast_def)

section \<open>One pipe\<close>

lemma counted_update [simp]: "counted (counts(loc \<mapsto> k)) l = (if l = loc then k else counted counts l)"
  by (simp add: counted_def)

text \<open>What processing the pipe at an index does to the counts and the graph.\<close>

definition pipe_processed :: "resource_manager \<Rightarrow> nat \<Rightarrow> stream_counts \<times> rational_graph
    \<Rightarrow> stream_counts \<times> rational_graph \<Rightarrow> bool" where
  "pipe_processed rm i s t \<longleftrightarrow> pipes_addressed (snd t) \<and> length (rg_pipes (snd t)) = length (rg_pipes (snd s))
     \<and> (\<forall>loc j. j < length (rg_pipes (snd s)) \<longrightarrow> j \<noteq> i \<longrightarrow> own_gather loc (snd t) j = own_gather loc (snd s) j)
     \<and> (\<forall>loc j. j < length (rg_pipes (snd s)) \<longrightarrow> own_multicast loc (snd t) j = own_multicast loc (snd s) j)
     \<and> (\<forall>loc. counted (fst t) loc = counted (fst s) loc + (if own_gather loc (snd t) i then 1 else 0))
     \<and> (\<forall>loc. counted (fst t) loc \<le> max (counted (fst s) loc) (max 1 (stream_limit rm loc)))"

lemma replacement_processed:
  assumes "pipes_addressed g" and i: "i < length (rg_pipes g)" and rep: "gather_replaced i g h"
    and gather: "pipe_type (pipe_at g (rg_pipes g ! i)) = Gather"
  shows "pipe_processed rm i (counts, g) (counts, h)"
proof -
  have other: "rg_pipes h ! j = rg_pipes g ! j" "pipe_at h (rg_pipes g ! j) = pipe_at g (rg_pipes g ! j)"
    if "j < length (rg_pipes g)" "j \<noteq> i" for j
    using that rep addressed_pipe [OF assms(1) that(1)] by (auto simp: gather_replaced_def)
  have at_i: "rg_pipes h ! i = next_pipe g" "pipe_type (pipe_at h (next_pipe g)) = DormantRelay"
    using rep i by (simp_all add: gather_replaced_def)
  have "own_multicast loc h j = own_multicast loc g j" if "j < length (rg_pipes g)" for loc j
    using other [OF that] at_i gather by (cases "j = i") (simp_all add: own_multicast_def is_multicast_pipe_def)
  moreover have "own_gather loc h j = own_gather loc g j" if "j < length (rg_pipes g)" "j \<noteq> i" for loc j
    using other [OF that] joined_multicast_replaced [OF assms(1) rep gather] by (simp add: own_gather_def)
  moreover have "\<not> own_gather loc h i" for loc using at_i by (simp add: own_gather_def)
  moreover have "length (rg_pipes h) = length (rg_pipes g)" using rep by (simp add: gather_replaced_def)
  ultimately show ?thesis
    using gather_replaced_addressed [OF assms(1) i rep] by (simp add: pipe_processed_def)
qed

lemma process_gather_pipe_sound:
  assumes "pipes_addressed g" and i: "i < length (rg_pipes g)"
    and res: "process_gather_pipe rm i (counts, g) = Inr t"
  shows "pipe_processed rm i (counts, g) t"
proof -
  let ?p = "pipe_at g (rg_pipes g ! i)"
  let ?loc = "pipe_location ?p"
  show ?thesis
  proof (cases "pipe_type ?p = Gather")
    case False
    then have "t = (counts, g)" using res by (simp add: process_gather_pipe_def)
    then show ?thesis using assms(1) False by (simp add: pipe_processed_def own_gather_def)
  next
    case gather: True
    obtain n m where nm: "get_output_node ?p = Inr n" "get_output_pipe (node_at g n) = Inr m"
      using res gather by (auto simp: process_gather_pipe_def Let_def bind_sum_Inr_iff)
    have own: "own_gather loc g i \<longleftrightarrow> loc = ?loc
        \<and> \<not> (pipe_type (pipe_at g m) = Multicast \<and> ?loc = pipe_location (pipe_at g m))" for loc
      using gather nm by (auto simp: own_gather_def joined_multicast_def Let_def)
    have t: "(if pipe_type (pipe_at g m) = Multicast \<and> ?loc = pipe_location (pipe_at g m) then Inr (counts, g)
        else case counts ?loc of
            None \<Rightarrow> Inr (counts(?loc \<mapsto> 1), g)
          | Some k \<Rightarrow>
              bind_sum (in_resources (fst (rm_get_multicast_streams_count ?loc rm))) (\<lambda>limit.
                if k < unat limit then Inr (counts(?loc \<mapsto> k + 1), g)
                else bind_sum (in_graph (replace_pipe i (next_pipe g) (new_dormant_relay ?p g)))
                       (\<lambda>g1. Inr (counts, g1)))) = Inr t"
      using res gather nm by (simp add: process_gather_pipe_def in_graph_def Let_def)
    show ?thesis
    proof (cases "pipe_type (pipe_at g m) = Multicast \<and> ?loc = pipe_location (pipe_at g m)")
      case True
      then have "t = (counts, g)" using t by simp
      then show ?thesis using assms(1) own True by (simp add: pipe_processed_def)
    next
      case False
      note t = t [unfolded if_not_P [OF False]]
      show ?thesis
      proof (cases "counts ?loc")
        case None
        then have "t = (counts(?loc \<mapsto> 1), g)" using t by simp
        then show ?thesis using assms(1) own False None by (auto simp: pipe_processed_def counted_def)
      next
        case (Some k)
        then obtain l where l: "fst (rm_get_multicast_streams_count ?loc rm) = Inr l"
          and rest: "(if k < unat l then Inr (counts(?loc \<mapsto> k + 1), g)
            else bind_sum (in_graph (replace_pipe i (next_pipe g) (new_dormant_relay ?p g)))
                   (\<lambda>g1. Inr (counts, g1))) = Inr t"
          using t by (auto simp: bind_sum_Inr_iff)
        show ?thesis
        proof (cases "k < unat l")
          case True
          then have "t = (counts(?loc \<mapsto> k + 1), g)" using rest by simp
          moreover have "stream_limit rm ?loc = unat l" using l by (simp add: stream_limit_def)
          ultimately show ?thesis
            using assms(1) own False Some True by (auto simp: pipe_processed_def counted_def)
        next
          case False
          then obtain h where "replace_pipe i (next_pipe g) (new_dormant_relay ?p g) = Inr h" "t = (counts, h)"
            using rest by (auto simp: bind_sum_Inr_iff)
          then show ?thesis
            using replacement_processed [OF assms(1) i _ gather] replace_gather [OF assms(1) i gather] by simp
        qed
      qed
    qed
  qed
qed


section \<open>All pipes\<close>

text \<open>The pipes before an index have been processed.\<close>

definition prefix_processed :: "resource_manager \<Rightarrow> nat \<Rightarrow> stream_counts \<times> rational_graph
    \<Rightarrow> stream_counts \<times> rational_graph \<Rightarrow> bool" where
  "prefix_processed rm k s t \<longleftrightarrow> pipes_addressed (snd t) \<and> length (rg_pipes (snd t)) = length (rg_pipes (snd s))
     \<and> (\<forall>loc j. j < length (rg_pipes (snd s)) \<longrightarrow> own_multicast loc (snd t) j = own_multicast loc (snd s) j)
     \<and> (\<forall>loc. counted (fst t) loc = counted (fst s) loc + tally (own_gather loc (snd t)) k)
     \<and> (\<forall>loc. counted (fst t) loc \<le> max (counted (fst s) loc) (max 1 (stream_limit rm loc)))"

lemma prefix_step:
  assumes "prefix_processed rm k s t" and "pipe_processed rm k t u" and "k < length (rg_pipes (snd s))"
  shows "prefix_processed rm (Suc k) s u"
proof -
  have "tally (own_gather loc (snd u)) k = tally (own_gather loc (snd t)) k" for loc
    using assms by (intro tally_cong) (simp add: pipe_processed_def prefix_processed_def)
  moreover have "counted (fst u) loc \<le> max (counted (fst s) loc) (max 1 (stream_limit rm loc))" for loc
  proof -
    have "counted (fst u) loc \<le> max (counted (fst t) loc) (max 1 (stream_limit rm loc))"
      "counted (fst t) loc \<le> max (counted (fst s) loc) (max 1 (stream_limit rm loc))"
      using assms(1,2) unfolding pipe_processed_def prefix_processed_def by blast+
    then show ?thesis by linarith
  qed
  ultimately show ?thesis
    using assms by (simp add: pipe_processed_def prefix_processed_def)
qed

lemma process_prefix:
  assumes "pipes_addressed g" and "k \<le> length (rg_pipes g)"
    and "fold_sum (process_gather_pipe rm) [0..<k] (counts, g) = Inr t"
  shows "prefix_processed rm k (counts, g) t"
  using assms(2,3)
proof (induction k arbitrary: t)
  case 0
  then show ?case using assms(1) by (auto simp: prefix_processed_def)
next
  case (Suc k)
  obtain u where u: "fold_sum (process_gather_pipe rm) [0..<k] (counts, g) = Inr u"
    "process_gather_pipe rm k u = Inr t"
    using Suc.prems(2) by (auto simp: fold_sum_append bind_sum_Inr_iff)
  have pre: "prefix_processed rm k (counts, g) u" using Suc.IH [OF _ u(1)] Suc.prems(1) by simp
  then have "pipe_processed rm k u t"
    using process_gather_pipe_sound [of "snd u" k rm "fst u" t] u(2) Suc.prems(1)
    by (simp add: prefix_processed_def)
  then show ?case using prefix_step [OF pre] Suc.prems(1) by simp
qed

text \<open>The limit on the counts of one core.\<close>

definition count_bound :: "resource_manager \<Rightarrow> stream_counts \<Rightarrow> tt_cxy_pair \<Rightarrow> nat" where
  "count_bound rm counts loc = max (counted counts loc) (max 1 (stream_limit rm loc))"

lemma process_graph_sound:
  assumes "pipes_addressed g" and "process_graph rm (counts, g) = Inr (counts1, h)"
  shows "multicasts_at loc h = multicasts_at loc g \<and> counted counts1 loc = counted counts loc + gathers_at loc h
    \<and> counted counts1 loc \<le> count_bound rm counts loc"
proof -
  have pre: "prefix_processed rm (length (rg_pipes g)) (counts, g) (counts1, h)"
    using process_prefix [OF assms(1) order_refl] assms(2) by (simp add: process_graph_def)
  then have "multicasts_at loc h = multicasts_at loc g"
    by (simp add: multicasts_at_def prefix_processed_def tally_cong)
  moreover have "counted counts1 loc \<le> count_bound rm counts loc"
    using pre unfolding prefix_processed_def count_bound_def fst_conv by blast
  ultimately show ?thesis using pre by (simp add: prefix_processed_def gathers_at_def)
qed

lemma process_graphs_sound:
  assumes "\<forall>g \<in> set gs. pipes_addressed g" and "process_graphs rm counts gs = Inr (counts1, hs)"
  shows "sum_list (map (multicasts_at loc) hs) = sum_list (map (multicasts_at loc) gs)
    \<and> counted counts1 loc = counted counts loc + sum_list (map (gathers_at loc) hs)
    \<and> counted counts1 loc \<le> count_bound rm counts loc"
  using assms
proof (induction gs arbitrary: counts hs)
  case Nil
  then show ?case by (simp add: count_bound_def)
next
  case (Cons g gs)
  obtain c g1 gs1 where g1: "process_graph rm (counts, g) = Inr (c, g1)"
    and gs1: "process_graphs rm c gs = Inr (counts1, gs1)" "hs = g1 # gs1"
    using Cons.prems(2) by (auto simp: bind_sum_Inr_iff)
  have here: "multicasts_at loc g1 = multicasts_at loc g \<and> counted c loc = counted counts loc + gathers_at loc g1
      \<and> counted c loc \<le> count_bound rm counts loc"
    using process_graph_sound [OF _ g1] Cons.prems(1) unfolding list.set by blast
  have "sum_list (map (multicasts_at loc) gs1) = sum_list (map (multicasts_at loc) gs)
      \<and> counted counts1 loc = counted c loc + sum_list (map (gathers_at loc) gs1)
      \<and> counted counts1 loc \<le> count_bound rm c loc"
    using Cons.IH [OF _ gs1(1)] Cons.prems(1) unfolding list.set by blast
  moreover from here have "count_bound rm c loc \<le> count_bound rm counts loc"
    by (simp add: count_bound_def)
  ultimately show ?case using here gs1(2) by (auto simp del: max.bounded_iff)
qed

lemma counted_pipes:
  "counted (fold count_multicast_pipe ps counts) loc = counted counts loc
     + length (filter (\<lambda>p. is_multicast_pipe (pipe_type p) \<and> pipe_location p = loc) ps)"
proof (induction ps arbitrary: counts)
  case (Cons p ps)
  then show ?case by (auto simp: count_multicast_pipe_def count_stream_def counted_def)
qed simp

lemma counted_graph:
  "counted (fold count_multicast_pipe (map (pipe_at g) (rg_pipes g)) counts) loc
     = counted counts loc + multicasts_at loc g"
proof -
  have "map (pipe_at g) (rg_pipes g) = map (\<lambda>i. pipe_at g (rg_pipes g ! i)) [0..<length (rg_pipes g)]"
    by (subst (1) map_nth [symmetric]) (simp only: map_map o_def)
  then show ?thesis
    unfolding counted_pipes multicasts_at_def tally_def own_multicast_def Let_def
    by (simp add: filter_map o_def)
qed

lemma counted_multicasts:
  "counted (count_multicast_streams gs counts) loc = counted counts loc + sum_list (map (multicasts_at loc) gs)"
proof (induction gs arbitrary: counts)
  case (Cons g gs)
  then show ?case using counted_graph [of g counts loc] by (simp add: count_multicast_streams_def)
qed (simp add: count_multicast_streams_def)

text \<open>C20 The optimization keeps every core within its limit: afterwards the gather pipes that need a
  stream of their own and the multicast pipes at a core are as many as were counted for it, and that
  is no more than its limit of streams, unless the multicast pipes alone are more (one stream
  being always granted).\<close>

theorem gather_streams_within_limit:
  assumes "\<forall>g \<in> set gs. pipes_addressed g" and "process_rational_graphs rm gs = Inr (counts, hs)"
  shows "sum_list (map (gathers_at loc) hs) + sum_list (map (multicasts_at loc) hs) = counted counts loc
    \<and> counted counts loc \<le> max (sum_list (map (multicasts_at loc) gs)) (max 1 (stream_limit rm loc))"
proof -
  have start: "counted (count_multicast_streams gs (\<lambda>_. None)) loc = sum_list (map (multicasts_at loc) gs)"
    by (simp add: counted_multicasts) (simp add: counted_def)
  note all = process_graphs_sound [OF assms(1) assms(2) [unfolded process_rational_graphs_def], of loc]
  then have "counted counts loc \<le> max (sum_list (map (multicasts_at loc) gs)) (max 1 (stream_limit rm loc))"
    unfolding count_bound_def start by blast
  then show ?thesis using all start by simp
qed


text \<open>Six graphs with a gather on an ethernet core, which has four streams for them.\<close>

definition sample_apart :: rational_graph where
  "sample_apart = sample_graph\<lparr>pipe_at := (pipe_at sample_graph)(11 := (pipe_at sample_graph 11)
     \<lparr>pipe_location := \<lparr>cxy_chip = 0, cxy_x = 1, cxy_y = 2\<rparr>\<rparr>)\<rparr>"

definition gather_core :: tt_cxy_pair where
  "gather_core = \<lparr>cxy_chip = 0, cxy_x = 1, cxy_y = 1\<rparr>"

definition gather_rm :: resource_manager where
  "gather_rm = \<lparr>rm_soc_info = [], worker_cores = Map.empty,
     ethernet_cores = [gather_core \<mapsto> new_ethernet_core_resources eth_l1_map gather_core]\<rparr>"

lemma gather_sample_runs: "\<not> isl (process_rational_graphs gather_rm (replicate 6 sample_apart))"
  by code_simp

lemma gather_sample_limit: "stream_limit gather_rm gather_core = 4"
  by code_simp

lemma gather_sample_addressed: "pipes_addressed sample_apart"
  by (auto simp: pipes_addressed_def sample_apart_def sample_graph_def blank_node_def split: if_splits)

theorem gather_streams_within_limit_witness:
  "\<exists>counts hs. process_rational_graphs gather_rm (replicate 6 sample_apart) = Inr (counts, hs)
     \<and> sum_list (map (gathers_at gather_core) hs) \<le> 4"
proof -
  obtain counts hs where run: "process_rational_graphs gather_rm (replicate 6 sample_apart) = Inr (counts, hs)"
    using gather_sample_runs by (metis isl_def old.prod.exhaust sumE)
  have "multicasts_at gather_core sample_apart = 0" by code_simp
  then show ?thesis
    using gather_streams_within_limit [OF _ run, of gather_core] gather_sample_limit gather_sample_addressed run
    by (auto simp: sum_list_replicate)
qed

end
