(* ===== verification/DataFlowNode.thy ===== *)
theory DataFlowNode
  imports RationalGraph
begin

text \<open>
  Nodes of pipegen2's data flow graphs (\<open>src/src/pipegen2/lib/src/model/data_flow/data_flow_node.cpp\<close>
  and its header, \<open>data_flow_node_input.cpp\<close>, \<open>data_flow_info.h\<close>). A node is made for a node of the
  rational graph and reads it and its input pipe, which do not change any more. Pointers to nodes are
  numbers, and the state of a calculation is what is behind them. An \<open>int\<close> member that only holds
  converted unsigned values is kept as its 32 bits.
\<close>

datatype df_error = DfAssert | DfOutOfRange | DfDivisionByZero | DfEmptyBack | DfLcmOverflow

record PhaseInfo =
  phase_offset :: u32
  data_offset :: u32
  num_msgs :: u32

record DataFlowNode =
  df_rg_node :: rg_node
  df_rg_pipe :: "rg_pipe option"
  df_destinations :: "nat list"
  df_sources :: "nat list"
  df_inputs :: "(nat \<times> u32) list"
  receiving_phases :: "(u32 \<times> PhaseInfo list) list"
  sending_phases :: "nat \<rightharpoonup> PhaseInfo list"
  tiles_to_send :: u32
  max_num_tiles_per_phase :: u32
  num_iterations :: u32
  subtree_common_divisor :: u32
  on_single_source_path :: bool
  number_of_unique_df_paths :: u32
  current_input_group_index :: u32
  inputs_phase_offset :: u32
  leaf_subgraph_id :: int

type_synonym df_state = "nat \<Rightarrow> DataFlowNode"

text \<open>The constructor leaves four members as they are in the memory it is given.\<close>

definition new_DataFlowNode :: "DataFlowNode \<Rightarrow> rg_node \<Rightarrow> rg_pipe option \<Rightarrow> DataFlowNode" where
  "new_DataFlowNode memory node pipe = memory\<lparr>df_rg_node := node, df_rg_pipe := pipe, df_destinations := [],
     df_sources := [], df_inputs := [], receiving_phases := [], sending_phases := (\<lambda>_. None),
     on_single_source_path := True, current_input_group_index := 0, inputs_phase_offset := -1,
     subtree_common_divisor := 1, leaf_subgraph_id := -1\<rparr>"

section \<open>What a node reads of the rational graph\<close>

definition get_dataflow_type :: "DataFlowNode \<Rightarrow> DataFlowType" where
  "get_dataflow_type d = (case df_rg_pipe d of Some p \<Rightarrow> dataflow_type p | None \<Rightarrow> Parallel)"

definition get_serialization_factor :: "DataFlowNode \<Rightarrow> u32" where
  "get_serialization_factor d = (case df_rg_pipe d of None \<Rightarrow> 1
     | Some p \<Rightarrow> if is_serial_fork_pipe (pipe_type p) then get_num_serial_non_padding_outputs p else 1)"

definition get_repeat_factor :: "DataFlowNode \<Rightarrow> u32" where
  "get_repeat_factor d = (case df_rg_pipe d of None \<Rightarrow> 1 | Some p \<Rightarrow> periodic_repeat (pipe_properties p))"

definition is_untilized_dram_output :: "DataFlowNode \<Rightarrow> bool" where
  "is_untilized_dram_output d \<longleftrightarrow> node_type (df_rg_node d) = DramOutput \<and> untilized_output (df_rg_node d)"

definition is_intermediate :: "DataFlowNode \<Rightarrow> bool" where
  "is_intermediate d \<longleftrightarrow> is_base_intermed_node (node_type (df_rg_node d))"

definition can_do_epoch_in_single_iteration :: "DataFlowNode \<Rightarrow> bool" where
  "can_do_epoch_in_single_iteration d \<longleftrightarrow> is_untilized_dram_output d \<or> is_intermediate d"

definition get_consume_granularity :: "DataFlowNode \<Rightarrow> u32" where
  "get_consume_granularity d =
     (if node_type (df_rg_node d) = UnpackerOutput then transfer_granularity (df_rg_node d) else 1)"

definition get_scatter_gather_num_tiles :: "DataFlowNode \<Rightarrow> u32" where
  "get_scatter_gather_num_tiles d =
     (if is_base_input_node (node_type (df_rg_node d)) then scatter_gather_num_tiles (df_rg_node d) else 1)"

definition get_root_to_leaf_path_index :: "DataFlowNode \<Rightarrow> u32 option" where
  "get_root_to_leaf_path_index d =
     (if node_type (df_rg_node d) = SerialFork then Some (scatter_index (df_rg_node d)) else None)"

definition get_num_root_to_leaf_paths_in_subgraph :: "DataFlowNode \<Rightarrow> u32" where
  "get_num_root_to_leaf_paths_in_subgraph d = (case df_rg_pipe d of None \<Rightarrow> 1
     | Some p \<Rightarrow> if is_serial_fork_pipe (pipe_type p) then num_serial_outputs p else 1)"

definition get_size_tiles :: "DataFlowNode \<Rightarrow> u32" where
  "get_size_tiles d = size_tiles (df_rg_node d)"

definition get_num_tiles_per_input :: "DataFlowNode \<Rightarrow> u32" where
  "get_num_tiles_per_input d = tiles_per_input (df_rg_node d)"

definition get_num_epoch_tiles :: "DataFlowNode \<Rightarrow> u32" where
  "get_num_epoch_tiles d = num_epoch_tiles (df_rg_node d)"

definition has_pipe_of :: "RGPipeType \<Rightarrow> DataFlowNode \<Rightarrow> bool" where
  "has_pipe_of t d \<longleftrightarrow> (case df_rg_pipe d of None \<Rightarrow> False | Some p \<Rightarrow> pipe_type p = t)"

definition is_union :: "DataFlowNode \<Rightarrow> bool" where
  "is_union = has_pipe_of UnionPipe"

definition is_dram_parallel_fork :: "DataFlowNode \<Rightarrow> bool" where
  "is_dram_parallel_fork = has_pipe_of DramParallelFork"

definition is_scatter :: "DataFlowNode \<Rightarrow> bool" where
  "is_scatter d \<longleftrightarrow> is_base_input_node (node_type (df_rg_node d)) \<and> num_scatter_chunks (df_rg_node d) > 0"

definition is_dram_or_pcie_input :: "DataFlowNode \<Rightarrow> bool" where
  "is_dram_or_pcie_input d \<longleftrightarrow>
     is_dram_input_node (node_type (df_rg_node d)) \<or> node_type (df_rg_node d) = PCIeStreaming"

definition is_dram_or_pcie_output :: "DataFlowNode \<Rightarrow> bool" where
  "is_dram_or_pcie_output d \<longleftrightarrow> node_type (df_rg_node d) \<in> {DramOutput, PCIeStreaming}"

definition is_padding :: "DataFlowNode \<Rightarrow> bool" where
  "is_padding d \<longleftrightarrow> is_dram_input_node (node_type (df_rg_node d)) \<and> padding (df_rg_node d)"

section \<open>Edges and inputs\<close>

definition is_root_node :: "DataFlowNode \<Rightarrow> bool" where
  "is_root_node d \<longleftrightarrow> df_sources d = []"

definition is_leaf_node :: "DataFlowNode \<Rightarrow> bool" where
  "is_leaf_node d \<longleftrightarrow> df_destinations d = []"

definition is_isolated_node :: "DataFlowNode \<Rightarrow> bool" where
  "is_isolated_node d \<longleftrightarrow> is_root_node d \<and> is_leaf_node d"

definition add_dest :: "nat \<Rightarrow> DataFlowNode \<Rightarrow> DataFlowNode" where
  "add_dest n d = d\<lparr>df_destinations := df_destinations d @ [n]\<rparr>"

definition add_source :: "nat \<Rightarrow> DataFlowNode \<Rightarrow> DataFlowNode" where
  "add_source n d = d\<lparr>df_sources := df_sources d @ [n]\<rparr>"

definition add_input :: "nat \<Rightarrow> u32 \<Rightarrow> DataFlowNode \<Rightarrow> DataFlowNode" where
  "add_input n off d = d\<lparr>df_inputs := df_inputs d @ [(n, off)]\<rparr>"

definition get_input_group_count :: "DataFlowNode \<Rightarrow> u32" where
  "get_input_group_count d = (if is_union d then word_of_nat (length (df_sources d)) else 1)"

definition get_first_input_node :: "DataFlowNode \<Rightarrow> df_error + nat" where
  "get_first_input_node d =
     (if is_root_node d then Inl DfAssert
      else (case df_inputs d of [] \<Rightarrow> Inl DfOutOfRange | (n, _) # _ \<Rightarrow> Inr n))"

definition divide :: "u32 \<Rightarrow> u32 \<Rightarrow> df_error + u32" where
  "divide a b = (if b = 0 then Inl DfDivisionByZero else Inr (a div b))"

definition get_num_inputs_per_input_group :: "DataFlowNode \<Rightarrow> df_error + u32" where
  "get_num_inputs_per_input_group d = divide (word_of_nat (length (df_inputs d))) (get_input_group_count d)"

definition get_current_input_group_index :: "DataFlowNode \<Rightarrow> df_error + u32" where
  "get_current_input_group_index d =
     (if get_input_group_count d = 0 then Inl DfDivisionByZero
      else Inr (current_input_group_index d mod get_input_group_count d))"

definition has_processed_all_inputs :: "DataFlowNode \<Rightarrow> bool" where
  "has_processed_all_inputs d \<longleftrightarrow>
     (if is_root_node d then True else current_input_group_index d \<ge> number_of_unique_df_paths d)"

definition move_to_next_input_group :: "DataFlowNode \<Rightarrow> DataFlowNode" where
  "move_to_next_input_group d = d\<lparr>current_input_group_index := current_input_group_index d + 1\<rparr>"

text \<open>\<open>DataFlowNodeInputRange\<close>: its constructor asserts that the range lies in the inputs.\<close>

definition input_range :: "(nat \<times> u32) list \<Rightarrow> u32 \<Rightarrow> u32 \<Rightarrow> df_error + (nat \<times> u32) list" where
  "input_range inputs start_index range_size =
     (if \<not> unat start_index < length inputs then Inl DfAssert
      else if \<not> unat (start_index + range_size) \<le> length inputs then Inl DfAssert
      else Inr (take (unat range_size) (drop (unat start_index) inputs)))"

definition get_current_inputs_to_process :: "DataFlowNode \<Rightarrow> df_error + (nat \<times> u32) list" where
  "get_current_inputs_to_process d =
     (if \<not> current_input_group_index d < number_of_unique_df_paths d then Inl DfAssert
      else bind_sum (get_num_inputs_per_input_group d) (\<lambda>num_inputs_per_group.
           bind_sum (get_current_input_group_index d) (\<lambda>g.
             input_range (df_inputs d) (g * num_inputs_per_group) num_inputs_per_group)))"

section \<open>Phases\<close>

text \<open>\<open>operator[]\<close> of the ordered map of receiving phases: the entry of a group, changed.\<close>

fun update_group :: "u32 \<Rightarrow> (PhaseInfo list \<Rightarrow> PhaseInfo list) \<Rightarrow> (u32 \<times> PhaseInfo list) list
    \<Rightarrow> (u32 \<times> PhaseInfo list) list" where
  "update_group g f [] = [(g, f [])]"
| "update_group g f ((h, ps) # gs) =
     (if g < h then (g, f []) # (h, ps) # gs
      else if g = h then (h, f ps) # gs else (h, ps) # update_group g f gs)"

definition add_receiving_phase :: "u32 \<Rightarrow> u32 \<Rightarrow> DataFlowNode \<Rightarrow> DataFlowNode" where
  "add_receiving_phase off n d = d\<lparr>receiving_phases :=
     update_group (current_input_group_index d)
       (\<lambda>ps. ps @ [\<lparr>phase_offset = off, data_offset = 0, num_msgs = n\<rparr>]) (receiving_phases d)\<rparr>"

definition expand_last :: "u32 \<Rightarrow> PhaseInfo list \<Rightarrow> PhaseInfo list" where
  "expand_last n ps = butlast ps @ [(last ps)\<lparr>num_msgs := num_msgs (last ps) + n\<rparr>]"

definition can_expand_last :: "DataFlowNode \<Rightarrow> PhaseInfo list \<Rightarrow> u32 \<Rightarrow> df_error + bool" where
  "can_expand_last d ps n =
     (if ps = [] then Inl DfEmptyBack else Inr (num_msgs (last ps) + n \<le> max_num_tiles_per_phase d))"

definition can_expand_last_receiving_phase :: "u32 \<Rightarrow> DataFlowNode \<Rightarrow> df_error + bool" where
  "can_expand_last_receiving_phase n d =
     (case map_of (receiving_phases d) (current_input_group_index d) of
        None \<Rightarrow> Inr True | Some ps \<Rightarrow> can_expand_last d ps n)"

definition update_receiving_phases :: "u32 \<Rightarrow> u32 \<Rightarrow> DataFlowNode \<Rightarrow> df_error + DataFlowNode" where
  "update_receiving_phases off n d =
     (case map_of (receiving_phases d) (current_input_group_index d) of
        None \<Rightarrow> Inl DfAssert
      | Some ps \<Rightarrow>
          if ps = [] then Inl DfAssert
          else bind_sum (can_expand_last d ps n) (\<lambda>fits.
            if fits then Inr (d\<lparr>receiving_phases :=
                update_group (current_input_group_index d) (expand_last n) (receiving_phases d)\<rparr>)
            else Inr (add_receiving_phase off n d)))"

definition get_receiving_phases_for_all_input_groups :: "DataFlowNode \<Rightarrow> PhaseInfo list" where
  "get_receiving_phases_for_all_input_groups d = concat (map snd (receiving_phases d))"

definition get_current_input_group_receiving_phases :: "DataFlowNode \<Rightarrow> df_error + PhaseInfo list" where
  "get_current_input_group_receiving_phases d =
     bind_sum (get_current_input_group_index d) (\<lambda>g.
       case map_of (receiving_phases d) g of None \<Rightarrow> Inl DfOutOfRange | Some ps \<Rightarrow> Inr ps)"

definition add_sending_phase :: "nat \<Rightarrow> u32 \<Rightarrow> u32 \<Rightarrow> u32 \<Rightarrow> DataFlowNode \<Rightarrow> DataFlowNode" where
  "add_sending_phase dest off data n d = d\<lparr>sending_phases := (sending_phases d)(dest \<mapsto>
     (case sending_phases d dest of None \<Rightarrow> [] | Some ps \<Rightarrow> ps)
       @ [\<lparr>phase_offset = off, data_offset = data, num_msgs = n\<rparr>])\<rparr>"

definition get_num_sending_phases :: "nat \<Rightarrow> DataFlowNode \<Rightarrow> nat" where
  "get_num_sending_phases dest d = (case sending_phases d dest of None \<Rightarrow> 0 | Some ps \<Rightarrow> length ps)"

definition get_sending_phases :: "nat \<Rightarrow> DataFlowNode \<Rightarrow> df_error + PhaseInfo list" where
  "get_sending_phases dest d = (case sending_phases d dest of None \<Rightarrow> Inl DfAssert | Some ps \<Rightarrow> Inr ps)"

definition try_update_last_sending_phase :: "nat \<Rightarrow> DataFlowNode \<Rightarrow> df_error + bool \<times> DataFlowNode" where
  "try_update_last_sending_phase dest d =
     (case sending_phases d dest of
        None \<Rightarrow> Inl DfAssert
      | Some ps \<Rightarrow>
          if ps = [] then Inl DfEmptyBack
          else if num_msgs (last ps) + tiles_to_send d \<le> max_num_tiles_per_phase d
          then Inr (True, d\<lparr>sending_phases := (sending_phases d)(dest \<mapsto> expand_last (tiles_to_send d) ps)\<rparr>)
          else Inr (False, d))"

definition should_accumulate_sending_phases :: "DataFlowNode \<Rightarrow> bool" where
  "should_accumulate_sending_phases d \<longleftrightarrow> \<not> is_dram_or_pcie_input d \<and> \<not> is_dram_parallel_fork d"

definition has_assigned_leaf_subgraph_id :: "DataFlowNode \<Rightarrow> bool" where
  "has_assigned_leaf_subgraph_id d \<longleftrightarrow> leaf_subgraph_id d \<noteq> -1"

text \<open>Changing what is behind a pointer.\<close>

definition at_node :: "nat \<Rightarrow> (DataFlowNode \<Rightarrow> DataFlowNode) \<Rightarrow> df_state \<Rightarrow> df_state" where
  "at_node n f st = st(n := f (st n))"

end
