(* ===== verification/DataFlowGraphs.thy ===== *)
theory DataFlowGraphs
  imports DataFlowNode RationalGraphProps
begin

text \<open>
  The creation of data flow graphs (\<open>data_flow_calculator/data_flow_graph_creator.cpp\<close>) and their
  connected components (\<open>connected_data_flow_graph_finder.cpp\<close>). The data flow node made for a node
  of the rational graph has the address of that node, so the map between them is the identity on the
  nodes of the graph.
\<close>

section \<open>Nodes and edges\<close>

definition create_data_flow_node :: "rational_graph \<Rightarrow> nat \<Rightarrow> DataFlowNode \<Rightarrow> DataFlowNode" where
  "create_data_flow_node g n memory =
     new_DataFlowNode memory (node_at g n) (map_option (pipe_at g) (input_pipe (node_at g n)))"

definition create_data_flow_nodes :: "rational_graph \<Rightarrow> df_state \<Rightarrow> df_state" where
  "create_data_flow_nodes g = fold (\<lambda>n. at_node n (create_data_flow_node g n)) (rg_nodes g)"

definition df_node_of :: "rational_graph \<Rightarrow> nat \<Rightarrow> df_error + nat" where
  "df_node_of g n = (if n \<in> set (rg_nodes g) then Inr n else Inl DfOutOfRange)"

text \<open>One input and one output node of a pipe: a new edge only for a source not seen yet.\<close>

definition connect_nodes :: "bool \<Rightarrow> nat \<Rightarrow> u32 \<Rightarrow> nat \<Rightarrow> df_state \<Rightarrow> df_state" where
  "connect_nodes seen source off dest st =
     (let st1 = at_node dest (add_input source off) st
      in if seen then st1 else at_node dest (add_source source) (at_node source (add_dest dest) st1))"

definition edges_from_input :: "rational_graph \<Rightarrow> nat list \<Rightarrow> pipe_input \<Rightarrow> nat set \<times> df_state
    \<Rightarrow> df_error + nat set \<times> df_state" where
  "edges_from_input g outs i s =
     bind_sum (df_node_of g (pi_node i)) (\<lambda>source.
     bind_sum (fold_sum (\<lambda>n st. bind_sum (df_node_of g n)
                 (\<lambda>dest. Inr (connect_nodes (source \<in> fst s) source (pi_offset i) dest st))) outs (snd s))
       (\<lambda>st1. Inr (insert source (fst s), st1)))"

definition create_data_flow_edges_from_pipe :: "rational_graph \<Rightarrow> rg_pipe \<Rightarrow> df_state \<Rightarrow> df_error + df_state" where
  "create_data_flow_edges_from_pipe g p st =
     (case get_inputs p of Inl GraphAssert \<Rightarrow> Inl DfAssert
      | Inr is \<Rightarrow> bind_sum (fold_sum (edges_from_input g (output_nodes p)) is ({}, st)) (\<lambda>s. Inr (snd s)))"

definition create_data_flow_edges :: "rational_graph \<Rightarrow> df_state \<Rightarrow> df_error + df_state" where
  "create_data_flow_edges g = fold_sum (\<lambda>p. create_data_flow_edges_from_pipe g (pipe_at g p)) (rg_pipes g)"

section \<open>Connected components\<close>

text \<open>
  The recursion over sources and destinations is the depth-first search whose marked nodes are the
  keys of the map; the nodes it adds get the component.
\<close>

definition df_neighbours :: "df_state \<Rightarrow> nat \<Rightarrow> nat list" where
  "df_neighbours st n = df_sources (st n) @ df_destinations (st n)"

definition find_connected_data_flow_nodes ::
  "df_state \<Rightarrow> nat \<Rightarrow> nat \<Rightarrow> (nat \<times> nat) list \<Rightarrow> (nat \<times> nat) list option" where
  "find_connected_data_flow_nodes st n component_index components =
     map_option (\<lambda>(_, added). components @ map (\<lambda>k. (k, component_index)) added)
       (dfs_order (df_neighbours st) [n] (set (map fst components), []))"

fun components_from :: "df_state \<Rightarrow> nat \<Rightarrow> nat list \<Rightarrow> (nat \<times> nat) list \<Rightarrow> (nat \<times> nat) list option" where
  "components_from st i [] components = Some components"
| "components_from st i (n # ns) components =
     Option.bind (find_connected_data_flow_nodes st n i components) (components_from st (i + 1) ns)"

definition find_connected_components :: "df_state \<Rightarrow> nat list \<Rightarrow> (nat \<times> nat) list option" where
  "find_connected_components st nodes = components_from st 0 nodes []"

text \<open>
  The graphs by component, the hash set of a graph's nodes being the list of them in the order in which
  they are inserted; the graphs come in the order in which the hash map is iterated, a parameter.
\<close>

definition create_data_flow_graph_per_connected_component ::
  "nat list \<Rightarrow> (nat \<times> nat) list \<Rightarrow> nat \<Rightarrow> nat list" where
  "create_data_flow_graph_per_connected_component nodes components c =
     filter (\<lambda>n. map_of components n = Some c) nodes"

definition get_created_data_flow_graphs :: "nat list \<Rightarrow> (nat \<Rightarrow> nat list) \<Rightarrow> nat list list" where
  "get_created_data_flow_graphs map_order graph_per_component = map graph_per_component map_order"

definition group_connected_data_flow_nodes ::
  "(nat set \<Rightarrow> nat list) \<Rightarrow> df_state \<Rightarrow> nat list \<Rightarrow> (df_error + nat list list) option" where
  "group_connected_data_flow_nodes map_order st nodes =
     (case find_connected_components st nodes of
        None \<Rightarrow> None
      | Some components \<Rightarrow>
          if length components \<noteq> length nodes then Some (Inl DfAssert)
          else Some (Inr (get_created_data_flow_graphs
                 (map_order (set (List.map_filter (map_of components) nodes)))
                 (create_data_flow_graph_per_connected_component nodes components))))"

definition create_data_flow_graphs ::
  "(nat set \<Rightarrow> nat list) \<Rightarrow> rational_graph \<Rightarrow> df_state \<Rightarrow> (df_error + nat list list \<times> df_state) option" where
  "create_data_flow_graphs map_order g memory =
     rbind (Some (create_data_flow_edges g (create_data_flow_nodes g memory))) (\<lambda>st.
     rbind (group_connected_data_flow_nodes map_order st (rg_nodes g)) (\<lambda>gs. Some (Inr (gs, st))))"

section \<open>Edges match\<close>

text \<open>
  For the nodes of a graph: both ends of an edge know it, as often, the sources of a node are the
  nodes of its inputs, and no edge leaves the graph.
\<close>

definition edges_match :: "nat set \<Rightarrow> df_state \<Rightarrow> bool" where
  "edges_match N st \<longleftrightarrow>
     (\<forall>s \<in> N. \<forall>d \<in> N. count_list (df_destinations (st s)) d = count_list (df_sources (st d)) s)"

definition inputs_match :: "nat set \<Rightarrow> df_state \<Rightarrow> bool" where
  "inputs_match N st \<longleftrightarrow> (\<forall>d \<in> N. set (df_sources (st d)) = fst ` set (df_inputs (st d)))"

definition edges_inside :: "nat set \<Rightarrow> df_state \<Rightarrow> bool" where
  "edges_inside N st \<longleftrightarrow> (\<forall>n \<in> N. set (df_neighbours st n) \<subseteq> N)"

lemmas connect_defs = connect_nodes_def at_node_def add_input_def add_dest_def add_source_def Let_def

text \<open>
  Between the inputs of a pipe a source that has been seen is a source of all output nodes, so the
  input that gets no edge has one.
\<close>

definition pipe_invariant :: "nat set \<Rightarrow> nat list \<Rightarrow> nat set \<Rightarrow> df_state \<Rightarrow> bool" where
  "pipe_invariant N outs seen st \<longleftrightarrow> edges_match N st \<and> inputs_match N st \<and> edges_inside N st
     \<and> (\<forall>s \<in> seen. \<forall>d \<in> set outs. s \<in> set (df_sources (st d)))"

lemma connect_keeps_sources: "set (df_sources (st n)) \<subseteq> set (df_sources (connect_nodes seen s off d st n))"
  by (auto simp: connect_defs)

lemma connect_adds_source: "\<not> seen \<Longrightarrow> s \<in> set (df_sources (connect_nodes seen s off d st d))"
  by (auto simp: connect_defs)

lemma connect_nodes_invariant:
  assumes inv: "edges_match N st" "inputs_match N st" "edges_inside N st" and "s \<in> N" "d \<in> N"
    and "seen \<Longrightarrow> s \<in> set (df_sources (st d))"
  shows "edges_match N (connect_nodes seen s off d st) \<and> inputs_match N (connect_nodes seen s off d st)
    \<and> edges_inside N (connect_nodes seen s off d st)"
proof (intro conjI)
  show "edges_match N (connect_nodes seen s off d st)"
    using inv(1) by (auto simp: edges_match_def connect_defs)
  show "inputs_match N (connect_nodes seen s off d st)"
    using inv(2) assms(6) by (fastforce simp: inputs_match_def connect_defs)
  show "edges_inside N (connect_nodes seen s off d st)"
    using inv(3) assms(4,5) by (auto simp: edges_inside_def df_neighbours_def connect_defs)
qed

lemma connect_outputs:
  assumes "fold_sum (\<lambda>n st. bind_sum (df_node_of g n)
      (\<lambda>dest. Inr (connect_nodes (s \<in> seen) s off dest st))) ns st = Inr t"
    and "pipe_invariant (set (rg_nodes g)) outs seen st" and "s \<in> set (rg_nodes g)" and "set ns \<subseteq> set outs"
  shows "pipe_invariant (set (rg_nodes g)) outs seen t \<and> (\<forall>d \<in> set ns. s \<in> set (df_sources (t d)))
    \<and> (\<forall>n. set (df_sources (st n)) \<subseteq> set (df_sources (t n)))"
  using assms
proof (induction ns arbitrary: st)
  case (Cons n ns)
  let ?st1 = "connect_nodes (s \<in> seen) s off n st"
  have n: "n \<in> set (rg_nodes g)" and rest: "fold_sum (\<lambda>n st. bind_sum (df_node_of g n)
      (\<lambda>dest. Inr (connect_nodes (s \<in> seen) s off dest st))) ns ?st1 = Inr t"
    using Cons.prems(1) by (auto simp: df_node_of_def split: if_splits)
  have seen: "s \<in> seen \<Longrightarrow> s \<in> set (df_sources (st n))"
    using Cons.prems(2,4) by (auto simp: pipe_invariant_def)
  have "edges_match (set (rg_nodes g)) ?st1 \<and> inputs_match (set (rg_nodes g)) ?st1
      \<and> edges_inside (set (rg_nodes g)) ?st1"
    using Cons.prems(2,3) n seen by (intro connect_nodes_invariant) (auto simp: pipe_invariant_def)
  then have "pipe_invariant (set (rg_nodes g)) outs seen ?st1"
    using Cons.prems(2) connect_keeps_sources by (fastforce simp: pipe_invariant_def)
  note IH = Cons.IH [OF rest this Cons.prems(3)]
  have "s \<in> set (df_sources (?st1 n))"
    using seen connect_adds_source connect_keeps_sources by (cases "s \<in> seen") blast+
  then show ?case
    using IH Cons.prems(4) connect_keeps_sources [of st _ "s \<in> seen" s off n] by fastforce
qed simp

lemma input_edges:
  assumes "edges_from_input g outs i (seen, st) = Inr (seen1, st1)"
    and "pipe_invariant (set (rg_nodes g)) outs seen st"
  shows "pipe_invariant (set (rg_nodes g)) outs seen1 st1"
proof -
  let ?s = "pi_node i"
  have s: "?s \<in> set (rg_nodes g)" "seen1 = insert ?s seen"
    and run: "fold_sum (\<lambda>n st. bind_sum (df_node_of g n)
      (\<lambda>dest. Inr (connect_nodes (?s \<in> seen) ?s (pi_offset i) dest st))) outs st = Inr st1"
    using assms(1) by (auto simp: edges_from_input_def df_node_of_def bind_sum_Inr_iff split: if_splits)
  from connect_outputs [OF run assms(2) s(1) subset_refl] show ?thesis
    unfolding pipe_invariant_def s(2) by blast
qed

lemma pipe_edges:
  assumes "create_data_flow_edges_from_pipe g p st = Inr t"
    and "pipe_invariant (set (rg_nodes g)) [] {} st"
  shows "pipe_invariant (set (rg_nodes g)) [] {} t"
proof -
  obtain is' seen where run: "fold_sum (edges_from_input g (output_nodes p)) is' ({}, st) = Inr (seen, t)"
    using assms(1)
    by (auto simp: create_data_flow_edges_from_pipe_def bind_sum_Inr_iff split: sum.splits graph_error.splits)
  have "(\<lambda>s. pipe_invariant (set (rg_nodes g)) (output_nodes p) (fst s) (snd s)) (seen, t)"
    by (rule fold_sum_invariant [OF _ _ run])
      (use assms(2) input_edges in \<open>auto simp: pipe_invariant_def\<close>)
  then show ?thesis by (simp add: pipe_invariant_def)
qed

lemma nodes_created:
  "n \<in> set ns \<Longrightarrow> \<exists>m. fold (\<lambda>n. at_node n (create_data_flow_node g n)) ns st n = create_data_flow_node g n m"
proof (induction ns arbitrary: st rule: rev_induct)
  case (snoc k ns)
  then show ?case by (auto simp: at_node_def)
qed simp

lemma created_invariant: "pipe_invariant (set (rg_nodes g)) [] {} (create_data_flow_nodes g memory)"
proof -
  have "df_sources (create_data_flow_nodes g memory n) = []"
    "df_destinations (create_data_flow_nodes g memory n) = []" "df_inputs (create_data_flow_nodes g memory n) = []"
    if "n \<in> set (rg_nodes g)" for n
    using nodes_created [OF that, of g memory]
    by (auto simp: create_data_flow_nodes_def create_data_flow_node_def new_DataFlowNode_def)
  then show ?thesis
    by (simp add: pipe_invariant_def edges_match_def inputs_match_def edges_inside_def df_neighbours_def)
qed

lemma edges_created:
  assumes "create_data_flow_edges g (create_data_flow_nodes g memory) = Inr st"
  shows "pipe_invariant (set (rg_nodes g)) [] {} st"
  by (rule fold_sum_invariant [where P = "pipe_invariant (set (rg_nodes g)) [] {}",
        OF _ created_invariant assms [unfolded create_data_flow_edges_def]]) (rule pipe_edges)


section \<open>Components\<close>

text \<open>The graph read as undirected: reaching is symmetric.\<close>

definition two_way :: "nat set \<Rightarrow> df_state \<Rightarrow> bool" where
  "two_way N st \<longleftrightarrow> (\<forall>n \<in> N. set (df_neighbours st n) \<subseteq> N)
     \<and> (\<forall>n \<in> N. \<forall>m \<in> N. m \<in> set (df_neighbours st n) \<longrightarrow> n \<in> set (df_neighbours st m))"

lemma edges_two_way: "edges_match N st \<Longrightarrow> edges_inside N st \<Longrightarrow> two_way N st"
proof -
  assume match: "edges_match N st" and inside: "edges_inside N st"
  have "m \<in> set (df_destinations (st n)) \<longleftrightarrow> n \<in> set (df_sources (st m))" if "n \<in> N" "m \<in> N" for n m
    using match that unfolding edges_match_def by (metis count_list_0_iff)
  then show ?thesis
    using inside by (auto simp: two_way_def edges_inside_def df_neighbours_def)
qed

lemma two_way_reachable:
  assumes "two_way N st" and "n \<in> N" and "m \<in> reachable (df_neighbours st) [n]"
  shows "m \<in> N \<and> reachable (df_neighbours st) [m] = reachable (df_neighbours st) [n]"
proof -
  have "(n, m) \<in> (edges_of (df_neighbours st))\<^sup>*" using assms(3) by (simp add: reachable_def)
  then have "m \<in> N \<and> (m, n) \<in> (edges_of (df_neighbours st))\<^sup>*"
  proof (induction rule: rtrancl_induct)
    case base
    then show ?case using assms(2) by simp
  next
    case (step k m)
    then have "m \<in> N" "(m, k) \<in> edges_of (df_neighbours st)"
      using assms(1) by (auto simp: two_way_def edges_of_def)
    then show ?case using step.IH by (blast intro: converse_rtrancl_into_rtrancl)
  qed
  then show ?thesis
    using \<open>(n, m) \<in> _\<close> by (auto simp: reachable_def intro: rtrancl_trans)
qed

definition components_ok :: "nat set \<Rightarrow> df_state \<Rightarrow> nat \<Rightarrow> (nat \<times> nat) list \<Rightarrow> bool" where
  "components_ok N st i comps \<longleftrightarrow> distinct (map fst comps) \<and> fst ` set comps \<subseteq> N
     \<and> (\<forall>k \<in> fst ` set comps. set (df_neighbours st k) \<subseteq> fst ` set comps)
     \<and> (\<forall>(k, c) \<in> set comps. c < i \<and> {j. (j, c) \<in> set comps} = reachable (df_neighbours st) [k])"

lemma new_component:
  assumes two: "two_way N st" and n: "n \<in> N" "n \<notin> K" and closed: "\<forall>k \<in> K. set (df_neighbours st k) \<subseteq> K"
    and adds: "search_adds (df_neighbours st) [n] K V added"
  shows "set added = reachable (df_neighbours st) [n]"
proof
  show "set added \<subseteq> reachable (df_neighbours st) [n]" using adds by (simp add: search_adds_def)
  have in_N: "set added \<subseteq> N"
    using adds two_way_reachable [OF two n(1)] by (auto simp: search_adds_def)
  show "reachable (df_neighbours st) [n] \<subseteq> set added"
  proof (rule reachable_least)
    show "set [n] \<subseteq> set added" using adds n(2) by (auto simp: search_adds_def)
    fix k assume k: "k \<in> set added"
    show "set (df_neighbours st k) \<subseteq> set added"
    proof
      fix m assume m: "m \<in> set (df_neighbours st k)"
      then have "m \<in> K \<or> m \<in> set added" using adds k by (auto simp: search_adds_def)
      moreover have "m \<notin> K"
      proof
        assume "m \<in> K"
        moreover have "k \<in> set (df_neighbours st m)" using two m k in_N unfolding two_way_def by blast
        ultimately show False using closed k adds by (auto simp: search_adds_def)
      qed
      ultimately show "m \<in> set added" by simp
    qed
  qed
qed

lemma component_added:
  assumes two: "two_way N st" and "finite N" and n: "n \<in> N" and ok: "components_ok N st i comps"
  shows "\<exists>comps'. find_connected_data_flow_nodes st n i comps = Some comps'
    \<and> components_ok N st (Suc i) comps' \<and> insert n (fst ` set comps) \<subseteq> fst ` set comps'"
proof -
  let ?K = "set (map fst comps)"
  obtain V added where run: "dfs_order (df_neighbours st) [n] (?K, []) = Some (V, added)"
    using dfs_order_returns [OF assms(2), of "[n]" "df_neighbours st" ?K "[]"] two n
    by (auto simp: two_way_def)
  have adds: "search_adds (df_neighbours st) [n] ?K V added"
    using dfs_order_adds [OF run] by simp
  let ?new = "comps @ map (\<lambda>k. (k, i)) added"
  have found: "find_connected_data_flow_nodes st n i comps = Some ?new"
    using run by (simp add: find_connected_data_flow_nodes_def)
  have keys: "fst ` set ?new = V" "n \<in> V" "distinct (map fst ?new)" "set added \<inter> ?K = {}"
  proof -
    have "V = ?K \<union> set added" "n \<in> V" "distinct added" "set added \<inter> ?K = {}"
      using adds by (auto simp: search_adds_def)
    moreover have "fst ` set ?new = ?K \<union> set added" by (simp add: image_Un image_image)
    moreover have "map fst ?new = map fst comps @ added" by (simp add: comp_def)
    ultimately show "fst ` set ?new = V" "n \<in> V" "distinct (map fst ?new)" "set added \<inter> ?K = {}"
      using ok by (auto simp: components_ok_def)
  qed
  have fresh: "set added = (if n \<in> ?K then {} else reachable (df_neighbours st) [n])"
  proof (cases "n \<in> ?K")
    case True
    then show ?thesis using run by (simp add: dfs_order_Cons)
  next
    case False
    then show ?thesis
      using new_component [OF two n False _ adds] ok by (simp add: components_ok_def)
  qed
  have V: "V = ?K \<union> set added" using adds by (simp add: search_adds_def)
  have closed: "\<forall>k \<in> V. set (df_neighbours st k) \<subseteq> V"
  proof
    fix k assume "k \<in> V"
    then show "set (df_neighbours st k) \<subseteq> V"
      using adds ok unfolding V by (cases "k \<in> set added") (auto simp: search_adds_def components_ok_def)
  qed
  have inside: "V \<subseteq> N"
  proof -
    have "set added \<subseteq> N" using fresh two_way_reachable [OF two n] by (cases "n \<in> ?K") auto
    then show ?thesis using ok by (simp add: V components_ok_def)
  qed
  have entry: "c < Suc i \<and> {j. (j, c) \<in> set ?new} = reachable (df_neighbours st) [k]"
    if "(k, c) \<in> set ?new" for k c
  proof (cases "k \<in> set added")
    case True
    then have "(k, c) \<notin> set comps" using keys(4) by force
    then have "c = i" using that by auto
    moreover have "{j. (j, i) \<in> set ?new} = set added"
      using ok by (auto simp: components_ok_def)
    moreover have "set added = reachable (df_neighbours st) [k]"
      using True fresh two_way_reachable [OF two n, of k] by (simp split: if_splits)
    ultimately show ?thesis by simp
  next
    case False
    then have old: "(k, c) \<in> set comps" using that by auto
    then have "c < i" "{j. (j, c) \<in> set comps} = reachable (df_neighbours st) [k]"
      using ok by (auto simp: components_ok_def)
    then show ?thesis by auto
  qed
  have "components_ok N st (Suc i) ?new"
    unfolding components_ok_def keys(1) using keys(3) closed inside entry by blast
  moreover have "insert n (fst ` set comps) \<subseteq> fst ` set ?new"
    using keys(2) V unfolding keys(1) by simp
  ultimately show ?thesis using found by blast
qed

lemma components_found:
  assumes "two_way N st" and "finite N" and "set ns \<subseteq> N" and "components_ok N st i comps"
  shows "\<exists>comps' j. components_from st i ns comps = Some comps' \<and> components_ok N st j comps'
    \<and> set ns \<union> fst ` set comps \<subseteq> fst ` set comps'"
  using assms(3,4)
proof (induction ns arbitrary: i comps)
  case (Cons n ns)
  obtain c1 where c1: "find_connected_data_flow_nodes st n i comps = Some c1" "components_ok N st (Suc i) c1"
    "insert n (fst ` set comps) \<subseteq> fst ` set c1"
    using component_added [OF assms(1,2) _ Cons.prems(2), of n] Cons.prems(1) by (meson list.set_intros(1) subsetD)
  obtain c2 j where "components_from st (Suc i) ns c1 = Some c2" "components_ok N st j c2"
    "set ns \<union> fst ` set c1 \<subseteq> fst ` set c2"
    using Cons.IH [OF _ c1(2)] Cons.prems(1) by auto
  moreover from this c1(3) have "set (n # ns) \<union> fst ` set comps \<subseteq> fst ` set c2" by (simp, blast)
  ultimately show ?case using c1(1) by auto
qed auto

lemma all_components:
  assumes "two_way (set nodes) st" and "distinct nodes"
  shows "\<exists>comps j. find_connected_components st nodes = Some comps \<and> components_ok (set nodes) st j comps
    \<and> fst ` set comps = set nodes \<and> length comps = length nodes"
proof -
  obtain comps j where found: "find_connected_components st nodes = Some comps"
    "components_ok (set nodes) st j comps" "set nodes \<subseteq> fst ` set comps"
    using components_found [OF assms(1), of nodes 0 "[]"]
    by (auto simp: find_connected_components_def components_ok_def)
  then have keys: "fst ` set comps = set nodes" "distinct (map fst comps)"
    by (auto simp: components_ok_def)
  then have "length comps = card (set nodes)"
    using distinct_card [of "map fst comps"] by simp
  then show ?thesis using found keys distinct_card [OF assms(2)] by auto
qed

lemma distinct_concat_map:
  "distinct cs \<Longrightarrow> (\<And>c. c \<in> set cs \<Longrightarrow> distinct (f c))
     \<Longrightarrow> (\<And>c d. c \<in> set cs \<Longrightarrow> d \<in> set cs \<Longrightarrow> c \<noteq> d \<Longrightarrow> set (f c) \<inter> set (f d) = {})
     \<Longrightarrow> distinct (concat (map f cs))"
  by (induction cs) fastforce+

lemma set_map_filter: "set (List.map_filter f xs) = {y. \<exists>x \<in> set xs. f x = Some y}"
  by (force simp: List.map_filter_def)

lemma grouped:
  assumes "two_way (set nodes) st" and "distinct nodes"
    and order: "\<And>S. finite S \<Longrightarrow> set (map_order S) = S \<and> distinct (map_order S)"
  shows "\<exists>gs. group_connected_data_flow_nodes map_order st nodes = Some (Inr gs)
    \<and> distinct (concat gs) \<and> set (concat gs) = set nodes
    \<and> (\<forall>ns \<in> set gs. \<forall>n \<in> set ns. set ns = reachable (df_neighbours st) [n])"
proof -
  obtain comps j where found: "find_connected_components st nodes = Some comps"
    and ok: "components_ok (set nodes) st j comps"
    and keys: "fst ` set comps = set nodes" "length comps = length nodes"
    using all_components [OF assms(1,2)] by blast
  let ?g = "create_data_flow_graph_per_connected_component nodes comps"
  let ?cs = "map_order (set (List.map_filter (map_of comps) nodes))"
  have of: "map_of comps n = Some c \<longleftrightarrow> (n, c) \<in> set comps" for n c
    using ok by (simp add: components_ok_def)
  have cs: "set ?cs = snd ` set comps" "distinct ?cs"
  proof -
    have "set (List.map_filter (map_of comps) nodes) = snd ` set comps"
      unfolding set_map_filter of
    proof (intro subset_antisym subsetI)
      fix c assume "c \<in> snd ` set comps"
      then obtain n where "(n, c) \<in> set comps" by auto
      moreover from this have "n \<in> set nodes" using keys(1) by (metis fst_conv image_eqI)
      ultimately show "c \<in> {c. \<exists>n \<in> set nodes. (n, c) \<in> set comps}" by blast
    qed force
    then show "set ?cs = snd ` set comps" "distinct ?cs" using order by simp_all
  qed
  have graph: "set (?g c) = {n. (n, c) \<in> set comps}" "distinct (?g c)" for c
  proof -
    have "(n, c) \<in> set comps \<Longrightarrow> n \<in> set nodes" for n using keys(1) by (metis fst_conv image_eqI)
    then show "set (?g c) = {n. (n, c) \<in> set comps}" "distinct (?g c)"
      using assms(2) by (auto simp: create_data_flow_graph_per_connected_component_def of)
  qed
  have unique: "(n, c) \<in> set comps \<Longrightarrow> (n, d) \<in> set comps \<Longrightarrow> c = d" for n c d
    using of [of n c] of [of n d] by simp
  have "distinct (concat (map ?g ?cs))"
    by (rule distinct_concat_map) (use cs graph unique in auto)
  moreover have "set (concat (map ?g ?cs)) = set nodes"
    unfolding keys(1) [symmetric] by (auto simp: cs(1) graph(1) image_iff Bex_def)
  moreover have "set (?g c) = reachable (df_neighbours st) [n]" if "n \<in> set (?g c)" for n c
    using ok that graph(1) by (auto simp: components_ok_def)
  ultimately show ?thesis
    by (auto simp: group_connected_data_flow_nodes_def found keys(2) get_created_data_flow_graphs_def
        simp del: set_concat)
qed


text \<open>C27 When the edges of a data flow graph have been made from the pipes of the rational graph, an
  edge is known at both of its ends, and as often; the sources of a node are exactly the nodes its
  inputs name, although a source that occurs in several inputs of a pipe gets one edge only; and no
  edge leaves the graph.\<close>

theorem data_flow_edges_match:
  assumes "create_data_flow_edges g (create_data_flow_nodes g memory) = Inr st"
  shows "(\<forall>s \<in> set (rg_nodes g). \<forall>d \<in> set (rg_nodes g).
        count_list (df_destinations (st s)) d = count_list (df_sources (st d)) s)
    \<and> (\<forall>d \<in> set (rg_nodes g). set (df_sources (st d)) = fst ` set (df_inputs (st d)))
    \<and> (\<forall>n \<in> set (rg_nodes g). set (df_neighbours st n) \<subseteq> set (rg_nodes g))"
  using edges_created [OF assms]
  by (simp add: pipe_invariant_def edges_match_def inputs_match_def edges_inside_def)

definition blank_df_node :: DataFlowNode where
  "blank_df_node = \<lparr>df_rg_node = blank_node, df_rg_pipe = None, df_destinations = [], df_sources = [],
     df_inputs = [], receiving_phases = [], sending_phases = (\<lambda>_. None), tiles_to_send = 0,
     max_num_tiles_per_phase = 0, num_iterations = 0, subtree_common_divisor = 1,
     on_single_source_path = True, number_of_unique_df_paths = 0, current_input_group_index = 0,
     inputs_phase_offset = 0, leaf_subgraph_id = -1\<rparr>"

definition sample_nodes :: df_state where
  "sample_nodes = create_data_flow_nodes sample_graph (\<lambda>_. blank_df_node)"

lemma sample_edges:
  "\<exists>st. create_data_flow_edges sample_graph sample_nodes = Inr st \<and> df_destinations (st 0) = [1]"
proof -
  have "(case create_data_flow_edges sample_graph sample_nodes of Inl e \<Rightarrow> False
      | Inr st \<Rightarrow> df_destinations (st 0) = [1])"
    by code_simp
  then show ?thesis by (auto split: sum.splits)
qed

theorem data_flow_edges_match_witness:
  "\<exists>st. create_data_flow_edges sample_graph sample_nodes = Inr st \<and> df_destinations (st 0) = [1]
     \<and> count_list (df_sources (st 1)) 0 = 1"
proof -
  obtain st where st: "create_data_flow_edges sample_graph sample_nodes = Inr st" "df_destinations (st 0) = [1]"
    using sample_edges by blast
  then have "count_list (df_destinations (st 0)) 1 = count_list (df_sources (st 1)) 0"
    using data_flow_edges_match [of sample_graph "\<lambda>_. blank_df_node" st]
    by (simp add: sample_nodes_def sample_graph_def)
  then show ?thesis using st by auto
qed

text \<open>C7 Once its edges are made, the data flow is split into connected components, in whatever order
  the hash map is iterated: the search ends, no node is lost and none is in two graphs, and a graph
  holds exactly the nodes its members reach along sources and destinations.\<close>

theorem data_flow_components:
  assumes "create_data_flow_edges g (create_data_flow_nodes g memory) = Inr st"
    and "distinct (rg_nodes g)"
    and "\<And>S. finite S \<Longrightarrow> set (map_order S) = S \<and> distinct (map_order S)"
  shows "\<exists>gs. create_data_flow_graphs map_order g memory = Some (Inr (gs, st))
    \<and> distinct (concat gs) \<and> set (concat gs) = set (rg_nodes g)
    \<and> (\<forall>ns \<in> set gs. \<forall>n \<in> set ns. set ns = reachable (df_neighbours st) [n])"
proof -
  have "two_way (set (rg_nodes g)) st"
    using edges_created [OF assms(1)] by (intro edges_two_way) (auto simp: pipe_invariant_def)
  from grouped [OF this assms(2,3)] show ?thesis
    by (auto simp: create_data_flow_graphs_def assms(1))
qed

theorem data_flow_components_witness:
  "\<exists>gs st. create_data_flow_graphs sorted_list_of_set sample_graph (\<lambda>_. blank_df_node) = Some (Inr (gs, st))
     \<and> distinct (concat gs) \<and> set (concat gs) = {0, 1, 2, 3, 4}"
proof -
  obtain st where "create_data_flow_edges sample_graph (create_data_flow_nodes sample_graph (\<lambda>_. blank_df_node)) = Inr st"
    using sample_edges by (auto simp: sample_nodes_def)
  from data_flow_components [OF this, of sorted_list_of_set] show ?thesis
    by (auto simp: sample_graph_def)
qed

end
