(* ===== verification/TransferLimits.thy ===== *)
theory TransferLimits
  imports DataFlowGraphs
begin

text \<open>
  The limits of the transfers in a data flow graph (\<open>data_flow_calculator/transfer_limits_calculator.cpp\<close>
  and \<open>transfer_limits_calculator_internal.cpp\<close>): paths that have a single source, the number of
  iterations in which an epoch is transferred, the tiles each node sends in an iteration, the number
  of paths through a node, the divisor of what a subtree consumes and the most tiles of a phase.
  A recursion that marks no nodes may not end on a cyclic graph, which is \<open>None\<close>.
\<close>

section \<open>Single source paths\<close>

datatype path_call = PathNode nat bool | PathDests "nat list" bool

partial_function (option) single_source_search :: "path_call \<Rightarrow> df_state \<Rightarrow> (bool \<times> df_state) option" where
  "single_source_search call st =
     (case call of
        PathNode n up \<Rightarrow>
          if \<not> on_single_source_path (st n) then Some (False, st)
          else Option.bind (single_source_search
                 (PathDests (df_destinations (st n)) (up \<and> \<not> (is_scatter (st n) \<or> length (df_inputs (st n)) > 1))) st)
               (\<lambda>s. Some (fst s, at_node n (on_single_source_path_update (\<lambda>_. fst s)) (snd s)))
      | PathDests ns single \<Rightarrow>
          (case ns of [] \<Rightarrow> Some (single, st)
           | d # ds \<Rightarrow> Option.bind (single_source_search (PathNode d single) st)
               (\<lambda>s. single_source_search (PathDests ds (single \<and> fst s)) (snd s))))"

declare single_source_search.simps [code]

fun find_single_source_paths :: "nat list \<Rightarrow> df_state \<Rightarrow> df_state option" where
  "find_single_source_paths [] st = Some st"
| "find_single_source_paths (r # rs) st =
     Option.bind (single_source_search (PathNode r True) st) (\<lambda>s. find_single_source_paths rs (snd s))"

section \<open>Visiting nodes in topological order\<close>

definition visit_nodes_in_topological_order ::
  "nat list \<Rightarrow> (nat \<Rightarrow> df_state \<Rightarrow> df_error + df_state) \<Rightarrow> nat set \<times> df_state
    \<Rightarrow> (df_error + nat set \<times> df_state) option" where
  "visit_nodes_in_topological_order roots visit_node vs =
     (case dfs_order (\<lambda>n. df_destinations (snd vs n)) roots (fst vs, []) of
        None \<Rightarrow> None
      | Some (visited, order) \<Rightarrow>
          Some (bind_sum (fold_sum visit_node order (snd vs)) (\<lambda>st. Inr (visited, st))))"

section \<open>Number of iterations\<close>

text \<open>\<open>std::lcm\<close>: a result that does not fit is undefined behaviour.\<close>

definition std_lcm :: "u32 \<Rightarrow> u32 \<Rightarrow> df_error + u32" where
  "std_lcm a b = (let l = lcm (uint a) (uint b) in if l < 2 ^ 32 then Inr (word_of_int l) else Inl DfLcmOverflow)"

definition modulo_u32 :: "u32 \<Rightarrow> u32 \<Rightarrow> df_error + u32" where
  "modulo_u32 a b = (if b = 0 then Inl DfDivisionByZero else Inr (a mod b))"

definition number_of_iterations_satisfies_divisibility_constraints :: "u32 \<Rightarrow> u32 \<Rightarrow> u32 \<Rightarrow> df_error + bool" where
  "number_of_iterations_satisfies_divisibility_constraints k epoch_tiles clear =
     bind_sum (modulo_u32 epoch_tiles k) (\<lambda>r.
       if r \<noteq> 0 then Inr False
       else bind_sum (modulo_u32 (epoch_tiles div k) clear) (\<lambda>s. Inr (s = 0)))"

definition leaf_clearing_granularity :: "DataFlowNode \<Rightarrow> DataFlowNode \<Rightarrow> u32" where
  "leaf_clearing_granularity root leaf =
     (if is_dram_or_pcie_output leaf then get_scatter_gather_num_tiles root else get_consume_granularity leaf)"

definition get_single_source_path_clearing_granularity :: "DataFlowNode \<Rightarrow> DataFlowNode list \<Rightarrow> df_error + u32" where
  "get_single_source_path_clearing_granularity root leaves =
     fold_sum (\<lambda>leaf acc. std_lcm acc (leaf_clearing_granularity root leaf)) leaves 1"

text \<open>The two searches: down from the ideal number to 2, then up to the number of epoch tiles.\<close>

function search_down :: "u32 \<Rightarrow> u32 \<Rightarrow> u32 \<Rightarrow> df_error + u32 option" where
  "search_down epoch_tiles clear n =
     (if \<not> n > 1 then Inr None
      else bind_sum (number_of_iterations_satisfies_divisibility_constraints n epoch_tiles clear)
             (\<lambda>ok. if ok then Inr (Some n) else search_down epoch_tiles clear (n - 1)))"
  by auto
termination
proof (relation "measure (\<lambda>(_, _, n). unat n)")
  fix epoch_tiles clear n :: u32 and ok
  assume "\<not> \<not> n > 1"
  then have "n \<noteq> 0" by auto
  then show "((epoch_tiles, clear, n - 1), (epoch_tiles, clear, n)) \<in> measure (\<lambda>(_, _, n). unat n)"
    by (simp add: unat_minus_one) (simp add: unat_gt_0)
qed simp

function search_up :: "u32 \<Rightarrow> u32 \<Rightarrow> u32 \<Rightarrow> df_error + u32 option" where
  "search_up epoch_tiles clear n =
     (if \<not> n < epoch_tiles then Inr None
      else bind_sum (number_of_iterations_satisfies_divisibility_constraints n epoch_tiles clear)
             (\<lambda>ok. if ok then Inr (Some n) else search_up epoch_tiles clear (n + 1)))"
  by auto
termination
proof (relation "measure (\<lambda>(epoch_tiles, _, n). unat epoch_tiles - unat n)")
  fix epoch_tiles clear n :: u32 and ok
  assume "\<not> \<not> n < epoch_tiles"
  then have "unat (n + 1) = unat n + 1" "unat n < unat epoch_tiles"
    using unsigned_less [of epoch_tiles, where ?'a = nat]
    by (simp_all add: word_less_nat_alt unat_plus_no_wrap)
  then show "((epoch_tiles, clear, n + 1), (epoch_tiles, clear, n))
      \<in> measure (\<lambda>(epoch_tiles, _, n). unat epoch_tiles - unat n)"
    by simp
qed simp

declare search_down.simps [simp del] search_up.simps [simp del]

definition calculate_num_iterations_for_single_source_path ::
  "DataFlowNode \<Rightarrow> DataFlowNode list \<Rightarrow> u32 \<Rightarrow> u32 \<Rightarrow> df_error + u32" where
  "calculate_num_iterations_for_single_source_path root leaves max_tiles max_phases =
     (let epoch_tiles = get_num_epoch_tiles root in
      bind_sum (divide epoch_tiles max_tiles) (\<lambda>num_phases_required.
        if num_phases_required \<le> max_phases then Inr 1
        else bind_sum (divide epoch_tiles (max_phases * max_tiles)) (\<lambda>ideal.
             bind_sum (get_single_source_path_clearing_granularity root leaves) (\<lambda>clear.
             bind_sum (search_down epoch_tiles clear ideal) (\<lambda>below.
               case below of Some n \<Rightarrow> Inr n
               | None \<Rightarrow> bind_sum (search_up epoch_tiles clear (ideal + 1)) (\<lambda>above.
                   case above of Some n \<Rightarrow> Inr n | None \<Rightarrow> Inr epoch_tiles))))))"

definition set_num_iterations_for_graph :: "nat list \<Rightarrow> u32 \<Rightarrow> df_state \<Rightarrow> (df_error + df_state) option" where
  "set_num_iterations_for_graph roots k st =
     rbind (visit_nodes_in_topological_order roots
              (\<lambda>n st. Inr (at_node n (num_iterations_update (\<lambda>_. k)) st)) ({}, st)) (\<lambda>vs. Some (Inr (snd vs)))"

definition node_num_iterations :: "nat \<Rightarrow> df_state \<Rightarrow> df_error + u32" where
  "node_num_iterations n st =
     (if is_root_node (st n) then divide (get_num_epoch_tiles (st n)) (get_scatter_gather_num_tiles (st n))
      else bind_sum (get_first_input_node (st n)) (\<lambda>i.
             divide (num_iterations (st i) * get_repeat_factor (st n)) (get_serialization_factor (st n))))"

definition calculate_num_iterations_for_multi_source_path ::
  "nat list \<Rightarrow> df_state \<Rightarrow> (df_error + df_state) option" where
  "calculate_num_iterations_for_multi_source_path roots st =
     rbind (visit_nodes_in_topological_order roots
              (\<lambda>n st. bind_sum (node_num_iterations n st)
                 (\<lambda>k. Inr (at_node n (num_iterations_update (\<lambda>_. k)) st))) ({}, st)) (\<lambda>vs. Some (Inr (snd vs)))"

definition calculate_num_iterations ::
  "nat list \<Rightarrow> nat list \<Rightarrow> u32 \<Rightarrow> u32 \<Rightarrow> df_state \<Rightarrow> (df_error + df_state) option" where
  "calculate_num_iterations leaves roots max_tiles max_phases st =
     (if \<forall>l \<in> set leaves. can_do_epoch_in_single_iteration (st l) then set_num_iterations_for_graph roots 1 st
      else if \<forall>l \<in> set leaves. on_single_source_path (st l)
      then (case roots of [] \<Rightarrow> Some (Inl DfOutOfRange)
            | r # _ \<Rightarrow> rbind (Some (calculate_num_iterations_for_single_source_path (st r) (map st leaves)
                               max_tiles max_phases)) (\<lambda>k. set_num_iterations_for_graph roots k st))
      else calculate_num_iterations_for_multi_source_path roots st)"

section \<open>Values computed from neighbours\<close>

definition tiles_calculation :: "(nat, df_state, df_error, u32) post_order" where
  "tiles_calculation =
     \<lparr>is_base = (\<lambda>st n. is_root_node (st n)),
      at_base = (\<lambda>n st. bind_sum (divide (get_num_epoch_tiles (st n)) (num_iterations (st n)))
                          (\<lambda>t. Inr (at_node n (tiles_to_send_update (\<lambda>_. t)) st))),
      neighbours = (\<lambda>st n. map fst (df_inputs (st n))),
      start_value = (\<lambda>_ _. 0),
      add_value = (\<lambda>st m acc. Inr (acc + tiles_to_send (st m))),
      finish_node = (\<lambda>n acc st. bind_sum (divide acc (get_input_group_count (st n)))
                          (\<lambda>t. Inr (at_node n (tiles_to_send_update (\<lambda>_. t)) st)))\<rparr>"

definition paths_calculation :: "(nat, df_state, df_error, u32) post_order" where
  "paths_calculation =
     \<lparr>is_base = (\<lambda>st n. is_root_node (st n)),
      at_base = (\<lambda>n st. Inr (at_node n (number_of_unique_df_paths_update (\<lambda>_. 1)) st)),
      neighbours = (\<lambda>st n. df_sources (st n)),
      start_value = (\<lambda>st n. get_input_group_count (st n)),
      add_value = (\<lambda>st m acc. Inr (max acc (number_of_unique_df_paths (st m)))),
      finish_node = (\<lambda>n acc st. Inr (at_node n (number_of_unique_df_paths_update (\<lambda>_. acc)) st))\<rparr>"

definition divisor_calculation :: "(nat, df_state, df_error, u32) post_order" where
  "divisor_calculation =
     \<lparr>is_base = (\<lambda>st n. is_leaf_node (st n)),
      at_base = (\<lambda>n st. Inr (at_node n (subtree_common_divisor_update (\<lambda>_. get_consume_granularity (st n))) st)),
      neighbours = (\<lambda>st n. df_destinations (st n)),
      start_value = (\<lambda>_ _. 1),
      add_value = (\<lambda>st m acc. std_lcm acc (subtree_common_divisor (st m))),
      finish_node = (\<lambda>n acc st. Inr (at_node n (subtree_common_divisor_update (\<lambda>_. acc)) st))\<rparr>"

definition calculate_from :: "(nat, df_state, df_error, u32) post_order \<Rightarrow> nat list \<Rightarrow> df_state
    \<Rightarrow> (df_error + df_state) option" where
  "calculate_from calc nodes st = rbind (post_visits calc nodes ({}, st)) (\<lambda>vs. Some (Inr (snd vs)))"

definition calculate_tiles_to_send :: "nat list \<Rightarrow> df_state \<Rightarrow> (df_error + df_state) option" where
  "calculate_tiles_to_send = calculate_from tiles_calculation"

definition calculate_number_of_paths_through_node :: "nat list \<Rightarrow> df_state \<Rightarrow> (df_error + df_state) option" where
  "calculate_number_of_paths_through_node = calculate_from paths_calculation"

definition calculate_subtree_common_divisor :: "nat list \<Rightarrow> df_state \<Rightarrow> (df_error + df_state) option" where
  "calculate_subtree_common_divisor = calculate_from divisor_calculation"

section \<open>The most tiles of a phase\<close>

definition is_end_of_single_source_edge :: "df_state \<Rightarrow> nat \<Rightarrow> df_error + bool" where
  "is_end_of_single_source_edge st n =
     (if is_root_node (st n) \<or> length (df_inputs (st n)) > 1 then Inr False
      else bind_sum (get_first_input_node (st n)) (\<lambda>parent. Inr (\<not> is_scatter (st parent))))"

definition phase_divisor :: "u32 \<Rightarrow> u32 \<Rightarrow> DataFlowNode \<Rightarrow> df_error + u32" where
  "phase_divisor root_tiles limit d =
     (let start = (if is_root_node d \<and> \<not> is_dram_or_pcie_input d then get_size_tiles d else 1) in
      bind_sum (if tiles_to_send d > limit then std_lcm start (subtree_common_divisor d) else Inr start)
        (\<lambda>common. if root_tiles \<le> limit
           then bind_sum (std_lcm common root_tiles) (\<lambda>l. if l > limit then Inr common else Inr l)
           else Inr common))"

definition calculate_max_tiles_per_phase_for_node :: "u32 \<Rightarrow> u32 \<Rightarrow> nat \<Rightarrow> df_state \<Rightarrow> df_error + df_state" where
  "calculate_max_tiles_per_phase_for_node root_tiles limit n st =
     bind_sum (is_end_of_single_source_edge st n) (\<lambda>follows.
       if follows
       then bind_sum (get_first_input_node (st n)) (\<lambda>parent.
              Inr (at_node n (max_num_tiles_per_phase_update (\<lambda>_. max_num_tiles_per_phase (st parent))) st))
       else bind_sum (phase_divisor root_tiles limit (st n)) (\<lambda>d.
            bind_sum (divide limit d) (\<lambda>q.
              Inr (at_node n (max_num_tiles_per_phase_update (\<lambda>_. q * d)) st))))"

definition max_tiles_from_root :: "u32 \<Rightarrow> nat \<Rightarrow> nat set \<times> df_state \<Rightarrow> (df_error + nat set \<times> df_state) option" where
  "max_tiles_from_root limit r vs =
     (if \<not> is_root_node (snd vs r) then Some (Inl DfAssert)
      else visit_nodes_in_topological_order [r]
             (calculate_max_tiles_per_phase_for_node (get_num_tiles_per_input (snd vs r)) limit) vs)"

fun max_tiles_from_roots :: "u32 \<Rightarrow> nat list \<Rightarrow> nat set \<times> df_state \<Rightarrow> (df_error + nat set \<times> df_state) option" where
  "max_tiles_from_roots limit [] vs = Some (Inr vs)"
| "max_tiles_from_roots limit (r # rs) vs = rbind (max_tiles_from_root limit r vs) (max_tiles_from_roots limit rs)"

definition calculate_max_tiles_per_phase :: "u32 \<Rightarrow> nat list \<Rightarrow> df_state \<Rightarrow> (df_error + df_state) option" where
  "calculate_max_tiles_per_phase limit roots st =
     rbind (max_tiles_from_roots limit roots ({}, st)) (\<lambda>vs. Some (Inr (snd vs)))"

definition calculate_transfer_limits ::
  "u32 \<Rightarrow> u32 \<Rightarrow> nat list \<Rightarrow> nat list \<Rightarrow> df_state \<Rightarrow> (df_error + df_state) option" where
  "calculate_transfer_limits max_tiles max_phases roots leaves st =
     rbind (map_option Inr (find_single_source_paths roots st)) (\<lambda>st1.
     rbind (calculate_num_iterations leaves roots max_tiles max_phases st1) (\<lambda>st2.
     rbind (calculate_tiles_to_send leaves st2) (\<lambda>st3.
     rbind (calculate_number_of_paths_through_node leaves st3) (\<lambda>st4.
     rbind (calculate_subtree_common_divisor roots st4) (calculate_max_tiles_per_phase max_tiles roots)))))"

end

