(* ===== verification/TransferLimitsProps.thy ===== *)
theory TransferLimitsProps
  imports TransferLimits
begin

text \<open>
  What the transfer limits promise: the search for the number of iterations of a single source path
  is exact, the values computed along the edges solve their equations (the calculations are
  interpretations of \<open>node_values\<close>), and no phase has more tiles than the limit.
\<close>

section \<open>The search for the number of iterations\<close>

definition divides_epoch :: "u32 \<Rightarrow> u32 \<Rightarrow> nat \<Rightarrow> bool" where
  "divides_epoch epoch_tiles clear k \<longleftrightarrow> k dvd unat epoch_tiles \<and> unat clear dvd unat epoch_tiles div k"

lemma satisfies_constraints:
  assumes "k \<noteq> 0" and "clear \<noteq> 0"
  shows "number_of_iterations_satisfies_divisibility_constraints k e clear = Inr (divides_epoch e clear (unat k))"
proof -
  have "e mod k = 0 \<longleftrightarrow> unat k dvd unat e" for e k :: u32
    by (metis dvd_eq_mod_eq_0 unat_eq_zero unat_mod)
  then show ?thesis
    using assms by (simp add: number_of_iterations_satisfies_divisibility_constraints_def modulo_u32_def
        divides_epoch_def unat_div)
qed

lemma search_down_exact:
  assumes "clear \<noteq> 0"
  shows "\<exists>r. search_down e clear n = Inr r \<and> (case r of
      None \<Rightarrow> \<forall>k. 1 < k \<and> k \<le> unat n \<longrightarrow> \<not> divides_epoch e clear k
    | Some m \<Rightarrow> 1 < unat m \<and> unat m \<le> unat n \<and> divides_epoch e clear (unat m)
        \<and> (\<forall>k. unat m < k \<and> k \<le> unat n \<longrightarrow> \<not> divides_epoch e clear k))"
  using assms
proof (induction e clear n rule: search_down.induct)
  case (1 e clear n)
  show ?case
  proof (cases "n > 1")
    case False
    then show ?thesis by (subst search_down.simps) (auto simp: word_less_nat_alt)
  next
    case True
    then have n: "n \<noteq> 0" "1 < unat n" by (auto simp: word_less_nat_alt)
    then have pred: "unat (n - 1) = unat n - 1" by (simp add: unat_minus_one)
    note sat = satisfies_constraints [OF n(1) "1.prems", of e]
    show ?thesis
    proof (cases "divides_epoch e clear (unat n)")
      case True
      then show ?thesis using \<open>n > 1\<close> n(2) by (subst search_down.simps) (auto simp: sat)
    next
      case False
      have step: "search_down e clear n = search_down e clear (n - 1)"
        using False \<open>n > 1\<close> by (subst search_down.simps) (simp add: sat)
      have le: "k \<le> unat n \<longleftrightarrow> k = unat n \<or> k \<le> unat n - 1" for k using n(2) by auto
      obtain r where r: "search_down e clear (n - 1) = Inr r" "case r of
          None \<Rightarrow> \<forall>k. 1 < k \<and> k \<le> unat n - 1 \<longrightarrow> \<not> divides_epoch e clear k
        | Some m \<Rightarrow> 1 < unat m \<and> unat m \<le> unat n - 1 \<and> divides_epoch e clear (unat m)
            \<and> (\<forall>k. unat m < k \<and> k \<le> unat n - 1 \<longrightarrow> \<not> divides_epoch e clear k)"
        using "1.IH" [of False, OF _ _ "1.prems"] \<open>n > 1\<close> unfolding pred by blast
      show ?thesis unfolding step r(1) le using r(2) False by (cases r) auto
    qed
  qed
qed

lemma search_up_exact:
  assumes "clear \<noteq> 0" and "n \<noteq> 0"
  shows "\<exists>r. search_up e clear n = Inr r \<and> (case r of
      None \<Rightarrow> \<forall>k. unat n \<le> k \<and> k < unat e \<longrightarrow> \<not> divides_epoch e clear k
    | Some m \<Rightarrow> unat n \<le> unat m \<and> unat m < unat e \<and> divides_epoch e clear (unat m)
        \<and> (\<forall>k. unat n \<le> k \<and> k < unat m \<longrightarrow> \<not> divides_epoch e clear k))"
  using assms
proof (induction e clear n rule: search_up.induct)
  case (1 e clear n)
  show ?case
  proof (cases "n < e")
    case False
    then show ?thesis by (subst search_up.simps) (auto simp: word_less_nat_alt)
  next
    case True
    then have n: "unat n < unat e" "unat (n + 1) = unat n + 1"
      using unsigned_less [of e, where ?'a = nat] by (simp_all add: word_less_nat_alt unat_plus_no_wrap)
    then have n1: "n + 1 \<noteq> 0" by (metis add_is_0 one_neq_zero unat_0)
    note sat = satisfies_constraints [OF "1.prems"(2,1), of e]
    show ?thesis
    proof (cases "divides_epoch e clear (unat n)")
      case True
      then show ?thesis using \<open>n < e\<close> n(1) by (subst search_up.simps) (auto simp: sat)
    next
      case False
      have step: "search_up e clear n = search_up e clear (n + 1)"
        using False \<open>n < e\<close> by (subst search_up.simps) (simp add: sat)
      have le: "unat n \<le> k \<longleftrightarrow> k = unat n \<or> unat n + 1 \<le> k" for k by auto
      obtain r where r: "search_up e clear (n + 1) = Inr r" "case r of
          None \<Rightarrow> \<forall>k. unat n + 1 \<le> k \<and> k < unat e \<longrightarrow> \<not> divides_epoch e clear k
        | Some m \<Rightarrow> unat n + 1 \<le> unat m \<and> unat m < unat e \<and> divides_epoch e clear (unat m)
            \<and> (\<forall>k. unat n + 1 \<le> k \<and> k < unat m \<longrightarrow> \<not> divides_epoch e clear k)"
        using "1.IH" [of False, OF _ _ "1.prems"(1) n1] \<open>n < e\<close> unfolding n(2) by blast
      show ?thesis unfolding step r(1) le using r(2) False by (cases r) auto
    qed
  qed
qed

lemma between_searches:
  fixes i m :: nat
  assumes "\<forall>k. 1 < k \<and> k \<le> i \<longrightarrow> \<not> fits k" and "\<forall>k. i + 1 \<le> k \<and> k < m \<longrightarrow> \<not> fits k"
  shows "\<forall>j. 1 < j \<and> j < m \<longrightarrow> \<not> fits j"
proof (intro allI impI)
  fix j assume "1 < j \<and> j < m"
  then show "\<not> fits j" using assms by (cases "j \<le> i") auto
qed

text \<open>C19 The number of iterations of a single source path is found exactly: one iteration when the
  epoch fits into the phases of one, else the greatest number above one and up to the ideal one that
  divides the epoch into parts that are multiples of the clearing granularity, else the smallest such
  number above the ideal one, and the number of epoch tiles only when there is none at all.\<close>

theorem single_source_iterations_exact:
  assumes clear: "get_single_source_path_clearing_granularity root leaves = Inr clear" "clear \<noteq> 0"
    and limits: "1 < unat max_phases * unat max_tiles" "unat max_phases * unat max_tiles < 2 ^ 32"
  shows "\<exists>k. calculate_num_iterations_for_single_source_path root leaves max_tiles max_phases = Inr k
    \<and> (let e = unat (get_num_epoch_tiles root); ideal = e div (unat max_phases * unat max_tiles);
           fits = (\<lambda>j. j dvd e \<and> unat clear dvd e div j)
       in if e div unat max_tiles \<le> unat max_phases then k = 1
          else (1 < unat k \<and> unat k \<le> ideal \<and> fits (unat k) \<and> (\<forall>j. unat k < j \<and> j \<le> ideal \<longrightarrow> \<not> fits j))
             \<or> (ideal < unat k \<and> unat k < e \<and> fits (unat k) \<and> (\<forall>j. 1 < j \<and> j < unat k \<longrightarrow> \<not> fits j))
             \<or> (unat k = e \<and> (\<forall>j. 1 < j \<and> j < e \<longrightarrow> \<not> fits j)))"
proof -
  let ?e = "get_num_epoch_tiles root" and ?i = "get_num_epoch_tiles root div (max_phases * max_tiles)"
  have prod: "unat (max_phases * max_tiles) = unat max_phases * unat max_tiles"
    using limits(2) by (simp add: unat_word_ariths)
  have T: "max_tiles \<noteq> 0" and PT: "max_phases * max_tiles \<noteq> 0"
    using limits(1) prod by (auto intro!: gr0I)
  have ideal: "unat ?i = unat ?e div (unat max_phases * unat max_tiles)"
    by (simp add: unat_div prod)
  have small: "unat ?i + 1 < 2 ^ 32"
  proof -
    have "unat ?i \<le> unat ?e div 2" unfolding ideal using limits(1) by (intro div_le_mono2) auto
    then show ?thesis using unsigned_less [of ?e, where ?'a = nat] by simp
  qed
  then have up: "unat (?i + 1) = unat ?i + 1" "?i + 1 \<noteq> 0"
    by (simp_all add: unat_plus_no_wrap unat_eq_zero [symmetric] del: unat_eq_zero)
  have phases: "?e div max_tiles \<le> max_phases \<longleftrightarrow> unat ?e div unat max_tiles \<le> unat max_phases"
    by (simp add: word_le_nat_alt unat_div)
  obtain below where below: "search_down ?e clear ?i = Inr below" "case below of
      None \<Rightarrow> \<forall>k. 1 < k \<and> k \<le> unat ?i \<longrightarrow> \<not> divides_epoch ?e clear k
    | Some m \<Rightarrow> 1 < unat m \<and> unat m \<le> unat ?i \<and> divides_epoch ?e clear (unat m)
        \<and> (\<forall>k. unat m < k \<and> k \<le> unat ?i \<longrightarrow> \<not> divides_epoch ?e clear k)"
    using search_down_exact [OF clear(2), of ?e ?i] by blast
  obtain above where above: "search_up ?e clear (?i + 1) = Inr above" "case above of
      None \<Rightarrow> \<forall>k. unat ?i + 1 \<le> k \<and> k < unat ?e \<longrightarrow> \<not> divides_epoch ?e clear k
    | Some m \<Rightarrow> unat ?i + 1 \<le> unat m \<and> unat m < unat ?e \<and> divides_epoch ?e clear (unat m)
        \<and> (\<forall>k. unat ?i + 1 \<le> k \<and> k < unat m \<longrightarrow> \<not> divides_epoch ?e clear k)"
    using search_up_exact [OF clear(2) up(2), of ?e] unfolding up(1) by blast
  have run: "calculate_num_iterations_for_single_source_path root leaves max_tiles max_phases =
      (if ?e div max_tiles \<le> max_phases then Inr 1
       else (case below of Some n \<Rightarrow> Inr n | None \<Rightarrow> (case above of Some n \<Rightarrow> Inr n | None \<Rightarrow> Inr ?e)))"
    by (simp only: calculate_num_iterations_for_single_source_path_def Let_def divide_def T PT clear(1)
        below(1) above(1) bind_sum_simps if_False)
  let ?fits = "divides_epoch ?e clear"
  have "\<exists>k. calculate_num_iterations_for_single_source_path root leaves max_tiles max_phases = Inr k
    \<and> (if unat ?e div unat max_tiles \<le> unat max_phases then k = 1
       else (1 < unat k \<and> unat k \<le> unat ?i \<and> ?fits (unat k) \<and> (\<forall>j. unat k < j \<and> j \<le> unat ?i \<longrightarrow> \<not> ?fits j))
          \<or> (unat ?i < unat k \<and> unat k < unat ?e \<and> ?fits (unat k) \<and> (\<forall>j. 1 < j \<and> j < unat k \<longrightarrow> \<not> ?fits j))
          \<or> (unat k = unat ?e \<and> (\<forall>j. 1 < j \<and> j < unat ?e \<longrightarrow> \<not> ?fits j)))" (is ?goal)
  proof (cases "unat ?e div unat max_tiles \<le> unat max_phases")
    case True
    show ?goal unfolding run phases if_P [OF True] by blast
  next
    case False
    show ?goal
    proof (cases below)
      case (Some m)
      show ?goal unfolding run phases if_not_P [OF False] Some option.simps
        using below(2) [unfolded Some option.simps] by blast
    next
      case None
      then have below: "\<forall>k. 1 < k \<and> k \<le> unat ?i \<longrightarrow> \<not> divides_epoch ?e clear k" using below(2) by simp
      show ?goal
      proof (cases above)
        case (Some m)
        have "\<forall>j. 1 < j \<and> j < unat m \<longrightarrow> \<not> divides_epoch ?e clear j"
          using above(2) by (intro between_searches [OF below]) (simp add: Some)
        moreover have "unat ?i < unat m" using above(2) Some by simp
        ultimately show ?goal unfolding run phases if_not_P [OF False] None Some option.simps
          using above(2) [unfolded Some option.simps] by blast
      next
        case up: None
        have "\<forall>j. 1 < j \<and> j < unat ?e \<longrightarrow> \<not> divides_epoch ?e clear j"
          using above(2) by (intro between_searches [OF below]) (simp add: up)
        then show ?goal unfolding run phases if_not_P [OF False] None up option.simps
          by (intro exI [of _ ?e] conjI refl disjI2)
      qed
    qed
  qed
  then show ?thesis unfolding Let_def divides_epoch_def ideal .
qed

theorem single_source_iterations_exact_witness:
  "\<exists>k. calculate_num_iterations_for_single_source_path blank_df_node
      [blank_df_node\<lparr>df_rg_node := blank_node\<lparr>node_type := UnpackerOutput, transfer_granularity := 4\<rparr>\<rparr>] 2 3 = Inr k
    \<and> unat k = 8"
proof -
  let ?leaf = "blank_df_node\<lparr>df_rg_node := blank_node\<lparr>node_type := UnpackerOutput, transfer_granularity := 4\<rparr>\<rparr>"
  have clear: "get_single_source_path_clearing_granularity blank_df_node [?leaf] = Inr 4"
    by code_simp
  have e: "unat (get_num_epoch_tiles blank_df_node) = 64"
    by (simp add: get_num_epoch_tiles_def blank_df_node_def blank_node_def)
  have nums: "unat (2 :: u32) = 2" "unat (3 :: u32) = 3" "unat (4 :: u32) = 4" "64 div (3 * 2) = (10 :: nat)"
    "\<not> 64 div 2 \<le> (3 :: nat)" by simp_all
  have "1 < unat (3 :: u32) * unat (2 :: u32)" "unat (3 :: u32) * unat (2 :: u32) < 2 ^ 32" "(4 :: u32) \<noteq> 0"
    by simp_all
  from single_source_iterations_exact [OF clear this(3,1,2), unfolded Let_def e nums if_not_P [OF nums(5)]]
  obtain k where k: "calculate_num_iterations_for_single_source_path blank_df_node [?leaf] 2 3 = Inr k"
    and cases: "(1 < unat k \<and> unat k \<le> 10 \<and> (unat k dvd 64 \<and> 4 dvd 64 div unat k)
        \<and> (\<forall>j. unat k < j \<and> j \<le> 10 \<longrightarrow> \<not> (j dvd 64 \<and> 4 dvd 64 div j)))
      \<or> (10 < unat k \<and> unat k < 64 \<and> (unat k dvd 64 \<and> 4 dvd 64 div unat k)
        \<and> (\<forall>j. 1 < j \<and> j < unat k \<longrightarrow> \<not> (j dvd 64 \<and> 4 dvd 64 div j)))
      \<or> (unat k = 64 \<and> (\<forall>j. 1 < j \<and> j < (64 :: nat) \<longrightarrow> \<not> (j dvd 64 \<and> 4 dvd 64 div j)))"
    by (elim exE conjE) (rule that)
  have eight: "(8 :: nat) dvd 64 \<and> (4 :: nat) dvd 64 div 8" by simp
  have "8 \<le> unat k \<and> unat k \<le> 10 \<and> unat k dvd 64"
    using cases
  proof (elim disjE conjE)
    assume "\<forall>j. unat k < j \<and> j \<le> 10 \<longrightarrow> \<not> (j dvd 64 \<and> 4 dvd 64 div j)" "unat k \<le> 10" "unat k dvd 64"
    moreover from this(1) have "\<not> (unat k < 8 \<and> (8 :: nat) \<le> 10)" using eight by blast
    ultimately show ?thesis by simp
  next
    assume "10 < unat k" "\<forall>j. 1 < j \<and> j < unat k \<longrightarrow> \<not> (j dvd 64 \<and> 4 dvd 64 div j)"
    then have "\<not> (1 < (8 :: nat) \<and> 8 < unat k)" using eight by blast
    then show ?thesis using \<open>10 < unat k\<close> by simp
  next
    assume "\<forall>j. 1 < j \<and> j < (64 :: nat) \<longrightarrow> \<not> (j dvd 64 \<and> 4 dvd 64 div j)"
    then have "\<not> (1 < (8 :: nat) \<and> 8 < (64 :: nat))" using eight by blast
    then show ?thesis by simp
  qed
  then have "unat k = 8 \<or> unat k = 9 \<or> unat k = 10" "unat k dvd 64" by auto
  then have "unat k = 8" by (elim disjE) simp_all
  then show ?thesis using k by simp
qed

section \<open>Values along the edges\<close>

text \<open>The states of a calculation differ in the member it computes only.\<close>

definition same_but :: "((u32 \<Rightarrow> u32) \<Rightarrow> DataFlowNode \<Rightarrow> DataFlowNode) \<Rightarrow> df_state \<Rightarrow> df_state \<Rightarrow> bool" where
  "same_but upd st0 st \<longleftrightarrow> (\<forall>n. upd (\<lambda>_. 0) (st n) = upd (\<lambda>_. 0) (st0 n))"

lemma same_but_reads:
  assumes "same_but upd st0 st" and "\<And>d. reads (upd (\<lambda>_. 0) d) = reads d"
  shows "reads (st n) = reads (st0 n)"
  using assms unfolding same_but_def by metis

lemma same_but_refl: "same_but upd st st"
  by (simp add: same_but_def)

lemma same_but_set:
  assumes "same_but upd st0 s" and "\<And>d v. upd (\<lambda>_. 0) (upd (\<lambda>_. v) d) = upd (\<lambda>_. 0) d"
    and "\<And>d v. reads (upd (\<lambda>_. v) d) = v"
  shows "same_but upd st0 (at_node n (upd (\<lambda>_. v)) s)
    \<and> (\<lambda>k. reads (at_node n (upd (\<lambda>_. v)) s k)) = (\<lambda>k. reads (s k))(n := v)"
  using assms by (simp add: same_but_def at_node_def fun_eq_iff)

lemmas node_reads = is_root_node_def is_leaf_node_def get_num_epoch_tiles_def get_input_group_count_def
  is_union_def has_pipe_of_def get_consume_granularity_def

interpretation tiles: node_values tiles_calculation "same_but tiles_to_send_update st0"
  "\<lambda>n. map fst (df_inputs (st0 n))" "\<lambda>n. is_root_node (st0 n)" "\<lambda>st n. tiles_to_send (st n)"
  "\<lambda>n. divide (get_num_epoch_tiles (st0 n)) (num_iterations (st0 n))" "\<lambda>_. 0" "\<lambda>v acc. Inr (acc + v)"
  "\<lambda>n acc. divide acc (get_input_group_count (st0 n))" for st0
proof unfold_locales
  fix s t n acc assume same: "same_but tiles_to_send_update st0 s"
  have set_value: "same_but tiles_to_send_update st0 (at_node n (tiles_to_send_update (\<lambda>_. v)) s)
      \<and> (\<lambda>k. tiles_to_send (at_node n (tiles_to_send_update (\<lambda>_. v)) s k)) = (\<lambda>k. tiles_to_send (s k))(n := v)" for v
    by (rule same_but_set [OF same]) simp_all
  note reads = same_but_reads [OF same]
  have read: "is_root_node (s k) = is_root_node (st0 k)" "df_inputs (s k) = df_inputs (st0 k)"
    "get_num_epoch_tiles (s k) = get_num_epoch_tiles (st0 k)" "num_iterations (s k) = num_iterations (st0 k)"
    "get_input_group_count (s k) = get_input_group_count (st0 k)" for k
    by (rule reads, simp add: node_reads)+
  show "is_base tiles_calculation s n = is_root_node (st0 n)"
    "neighbours tiles_calculation s n = map fst (df_inputs (st0 n))"
    "start_value tiles_calculation s n = 0"
    "add_value tiles_calculation s n acc = Inr (acc + tiles_to_send (s n))"
    by (simp_all add: tiles_calculation_def read)
  show "\<exists>v. divide (get_num_epoch_tiles (st0 n)) (num_iterations (st0 n)) = Inr v
      \<and> same_but tiles_to_send_update st0 t \<and> (\<lambda>n. tiles_to_send (t n)) = (\<lambda>n. tiles_to_send (s n))(n := v)"
    if "at_base tiles_calculation n s = Inr t"
    using that set_value by (auto simp: tiles_calculation_def bind_sum_Inr_iff read)
  show "\<exists>v. divide acc (get_input_group_count (st0 n)) = Inr v
      \<and> same_but tiles_to_send_update st0 t \<and> (\<lambda>n. tiles_to_send (t n)) = (\<lambda>n. tiles_to_send (s n))(n := v)"
    if "finish_node tiles_calculation n acc s = Inr t"
    using that set_value by (auto simp: tiles_calculation_def bind_sum_Inr_iff read)
qed

interpretation paths: node_values paths_calculation "same_but number_of_unique_df_paths_update st0"
  "\<lambda>n. df_sources (st0 n)" "\<lambda>n. is_root_node (st0 n)" "\<lambda>st n. number_of_unique_df_paths (st n)"
  "\<lambda>_. Inr 1" "\<lambda>n. get_input_group_count (st0 n)" "\<lambda>v acc. Inr (max acc v)" "\<lambda>_ acc. Inr acc" for st0
proof unfold_locales
  fix s t n acc assume same: "same_but number_of_unique_df_paths_update st0 s"
  have set_value: "same_but number_of_unique_df_paths_update st0 (at_node n (number_of_unique_df_paths_update (\<lambda>_. v)) s)
      \<and> (\<lambda>k. number_of_unique_df_paths (at_node n (number_of_unique_df_paths_update (\<lambda>_. v)) s k)) = (\<lambda>k. number_of_unique_df_paths (s k))(n := v)" for v
    by (rule same_but_set [OF same]) simp_all
  note reads = same_but_reads [OF same]
  have read: "is_root_node (s k) = is_root_node (st0 k)" "df_sources (s k) = df_sources (st0 k)"
    "get_input_group_count (s k) = get_input_group_count (st0 k)" for k
    by (rule reads, simp add: node_reads)+
  show "is_base paths_calculation s n = is_root_node (st0 n)"
    "neighbours paths_calculation s n = df_sources (st0 n)"
    "start_value paths_calculation s n = get_input_group_count (st0 n)"
    "add_value paths_calculation s n acc = Inr (max acc (number_of_unique_df_paths (s n)))"
    by (simp_all add: paths_calculation_def read)
  show "\<exists>v. Inr 1 = Inr v \<and> same_but number_of_unique_df_paths_update st0 t
      \<and> (\<lambda>n. number_of_unique_df_paths (t n)) = (\<lambda>n. number_of_unique_df_paths (s n))(n := v)"
    if "at_base paths_calculation n s = Inr t"
    using that set_value by (auto simp: paths_calculation_def)
  show "\<exists>v. Inr acc = Inr v \<and> same_but number_of_unique_df_paths_update st0 t
      \<and> (\<lambda>n. number_of_unique_df_paths (t n)) = (\<lambda>n. number_of_unique_df_paths (s n))(n := v)"
    if "finish_node paths_calculation n acc s = Inr t"
    using that set_value by (auto simp: paths_calculation_def)
qed

interpretation divisor: node_values divisor_calculation "same_but subtree_common_divisor_update st0"
  "\<lambda>n. df_destinations (st0 n)" "\<lambda>n. is_leaf_node (st0 n)" "\<lambda>st n. subtree_common_divisor (st n)"
  "\<lambda>n. Inr (get_consume_granularity (st0 n))" "\<lambda>_. 1" "\<lambda>v acc. std_lcm acc v" "\<lambda>_ acc. Inr acc" for st0
proof unfold_locales
  fix s t n acc assume same: "same_but subtree_common_divisor_update st0 s"
  have set_value: "same_but subtree_common_divisor_update st0 (at_node n (subtree_common_divisor_update (\<lambda>_. v)) s)
      \<and> (\<lambda>k. subtree_common_divisor (at_node n (subtree_common_divisor_update (\<lambda>_. v)) s k)) = (\<lambda>k. subtree_common_divisor (s k))(n := v)" for v
    by (rule same_but_set [OF same]) simp_all
  note reads = same_but_reads [OF same]
  have read: "is_leaf_node (s k) = is_leaf_node (st0 k)" "df_destinations (s k) = df_destinations (st0 k)"
    "get_consume_granularity (s k) = get_consume_granularity (st0 k)" for k
    by (rule reads, simp add: node_reads)+
  show "is_base divisor_calculation s n = is_leaf_node (st0 n)"
    "neighbours divisor_calculation s n = df_destinations (st0 n)"
    "start_value divisor_calculation s n = 1"
    "add_value divisor_calculation s n acc = std_lcm acc (subtree_common_divisor (s n))"
    by (simp_all add: divisor_calculation_def read)
  show "\<exists>v. Inr (get_consume_granularity (st0 n)) = Inr v \<and> same_but subtree_common_divisor_update st0 t
      \<and> (\<lambda>n. subtree_common_divisor (t n)) = (\<lambda>n. subtree_common_divisor (s n))(n := v)"
    if "at_base divisor_calculation n s = Inr t"
    using that set_value by (auto simp: divisor_calculation_def read)
  show "\<exists>v. Inr acc = Inr v \<and> same_but subtree_common_divisor_update st0 t
      \<and> (\<lambda>n. subtree_common_divisor (t n)) = (\<lambda>n. subtree_common_divisor (s n))(n := v)"
    if "finish_node divisor_calculation n acc s = Inr t"
    using that set_value by (auto simp: divisor_calculation_def read)
qed

lemma fold_sum_adds: "fold_sum (\<lambda>m acc. Inr (acc + v m)) ms a = Inr (a + (\<Sum>m \<leftarrow> ms. v m))"
  for v :: "'n \<Rightarrow> 'v :: comm_monoid_add"
  by (induction ms arbitrary: a) (simp_all add: add.assoc)

lemma calculated:
  "calculate_from calc ns st = Some (Inr st') \<longleftrightarrow> (\<exists>V. post_visits calc ns ({}, st) = Some (Inr (V, st')))"
  by (auto simp: calculate_from_def rbind_Inr_iff)

lemma calculation_returns:
  "\<exists>r. post_visits calc ns ({}, st) = Some r \<Longrightarrow> \<exists>r. calculate_from calc ns st = Some r"
  by (auto simp: calculate_from_def rbind_def split: sum.splits)

text \<open>The inputs of a node are followed up to the roots.\<close>

definition followed_inputs :: "df_state \<Rightarrow> nat \<Rightarrow> nat list" where
  "followed_inputs st n = (if is_root_node (st n) then [] else map fst (df_inputs (st n)))"

lemma tiles_return:
  assumes "wf {(m, n). m \<in> set (followed_inputs st n)}"
  shows "\<exists>r. calculate_tiles_to_send leaves st = Some r"
proof -
  have "{(m, n). \<not> is_root_node (st n) \<and> m \<in> set (map fst (df_inputs (st n)))}
      = {(m, n). m \<in> set (followed_inputs st n)}"
    by (auto simp: followed_inputs_def)
  then show ?thesis
    unfolding calculate_tiles_to_send_def using assms
    by (intro calculation_returns tiles.post_visits_return [where ?st0.0 = st] tiles.solved_start same_but_refl) simp
qed

lemma tiles_solved:
  assumes "calculate_tiles_to_send leaves st = Some (Inr st')"
  shows "same_but tiles_to_send_update st st'"
    and "\<forall>n \<in> reachable (followed_inputs st) leaves. tiles.solved_at st st' n"
proof -
  obtain V where "post_visits tiles_calculation leaves ({}, st) = Some (Inr (V, st'))"
    using assms by (auto simp: calculate_tiles_to_send_def calculated)
  from tiles.post_visits_equations [OF this same_but_refl]
  show "same_but tiles_to_send_update st st'" "\<forall>n \<in> reachable (followed_inputs st) leaves. tiles.solved_at st st' n"
    by (simp_all add: followed_inputs_def [abs_def])
qed

lemma tiles_equation:
  assumes "tiles.solved_at st st' n"
  shows "if is_root_node (st n)
    then num_iterations (st n) \<noteq> 0 \<and> tiles_to_send (st' n) = get_num_epoch_tiles (st n) div num_iterations (st n)
    else get_input_group_count (st n) \<noteq> 0 \<and> tiles_to_send (st' n)
        = (\<Sum>m \<leftarrow> map fst (df_inputs (st n)). tiles_to_send (st' m)) div get_input_group_count (st n)"
  using assms unfolding tiles.solved_at_def fold_sum_adds by (auto simp: divide_def split: if_splits)

text \<open>C16 On a graph without cycles the calculation of the tiles to send ends, and if it does not
  divide by zero then at every node from which a leaf is fed: a root sends its epoch tiles divided by
  its number of iterations, and another node sends the sum of what all its inputs send, an input that
  occurs several times counted as often, divided by the number of its input groups.\<close>

theorem tiles_to_send_solved:
  assumes "wf {(m, n). m \<in> set (followed_inputs st n)}"
  shows "(\<exists>r. calculate_tiles_to_send leaves st = Some r)
    \<and> (\<forall>st'. calculate_tiles_to_send leaves st = Some (Inr st') \<longrightarrow>
         (\<forall>n \<in> reachable (followed_inputs st) leaves.
            if is_root_node (st n)
            then num_iterations (st n) \<noteq> 0
               \<and> tiles_to_send (st' n) = get_num_epoch_tiles (st n) div num_iterations (st n)
            else get_input_group_count (st n) \<noteq> 0
               \<and> tiles_to_send (st' n)
                 = (\<Sum>m \<leftarrow> map fst (df_inputs (st n)). tiles_to_send (st' m)) div get_input_group_count (st n)))"
  using tiles_return [OF assms] tiles_solved(2) tiles_equation by blast

text \<open>A root whose buffer another node reads twice.\<close>

definition twice_read :: df_state where
  "twice_read = (\<lambda>n. if n = 0 then blank_df_node\<lparr>df_destinations := [1], num_iterations := 8\<rparr>
     else if n = 1 then blank_df_node\<lparr>df_sources := [0], df_inputs := [(0, 0), (0, 8)]\<rparr> else blank_df_node)"

lemma twice_read_followed: "{(m, n). m \<in> set (followed_inputs twice_read n)} = {(0, 1)}"
  by (auto simp: followed_inputs_def twice_read_def blank_df_node_def is_root_node_def)

theorem tiles_to_send_solved_witness:
  "\<exists>st'. calculate_tiles_to_send [1] twice_read = Some (Inr st') \<and> tiles_to_send (st' 0) = 8
     \<and> tiles_to_send (st' 1) = 16"
proof -
  have "\<exists>st'. calculate_tiles_to_send [1] twice_read = Some (Inr st')"
  proof -
    have "(case calculate_tiles_to_send [1] twice_read of Some (Inr st') \<Rightarrow> True | _ \<Rightarrow> False)"
      by code_simp
    then show ?thesis by (auto split: option.splits sum.splits)
  qed
  then obtain st' where run: "calculate_tiles_to_send [1] twice_read = Some (Inr st')" by blast
  have "wf {(m, n). m \<in> set (followed_inputs twice_read n)}"
    unfolding twice_read_followed by (simp add: wf_insert)
  note solved = tiles_to_send_solved [OF this, of "[1]", THEN conjunct2, rule_format, OF run]
  have reach: "1 \<in> reachable (followed_inputs twice_read) [1]" by (rule reachable_start) simp
  have reach0: "0 \<in> reachable (followed_inputs twice_read) [1]"
    by (rule reachable_closed [OF reach])
      (simp add: followed_inputs_def twice_read_def blank_df_node_def is_root_node_def)
  have "tiles_to_send (st' 0) = 8"
    using solved [OF reach0]
    by (simp add: twice_read_def blank_df_node_def blank_node_def is_root_node_def get_num_epoch_tiles_def)
  moreover from this have "tiles_to_send (st' 1) = 16"
    using solved [OF reach]
    by (simp add: twice_read_def blank_df_node_def is_root_node_def get_input_group_count_def is_union_def has_pipe_of_def)
  ultimately show ?thesis using run by blast
qed

lemma std_lcm_unat: "std_lcm a b = Inr d \<Longrightarrow> unat d = lcm (unat a) (unat b)"
proof -
  assume "std_lcm a b = Inr d"
  then have "uint d = lcm (uint a) (uint b)"
    by (auto simp: std_lcm_def Let_def uint_word_of_int mod_pos_pos_trivial split: if_splits)
  then show ?thesis by (metis lcm_int_int_eq uint_nat of_nat_eq_iff)
qed

lemma fold_lcm_dvd:
  "fold_sum (\<lambda>m acc. std_lcm acc (v m)) ms a = Inr d
     \<Longrightarrow> unat d dvd x \<longleftrightarrow> unat a dvd x \<and> (\<forall>m \<in> set ms. unat (v m) dvd x)"
proof (induction ms arbitrary: a)
  case (Cons m ms)
  then obtain b where "std_lcm a (v m) = Inr b" "fold_sum (\<lambda>m acc. std_lcm acc (v m)) ms b = Inr d"
    by (auto simp: bind_sum_Inr_iff)
  with Cons.IH [of b] show ?case by (simp add: std_lcm_unat)
qed simp

lemma divisor_returns:
  assumes "wf {(m, n). m \<in> set (df_destinations (st n))}"
  shows "\<exists>r. calculate_subtree_common_divisor roots st = Some r"
proof -
  have "{(m, n). \<not> is_leaf_node (st n) \<and> m \<in> set (df_destinations (st n))}
      = {(m, n). m \<in> set (df_destinations (st n))}"
    by (auto simp: is_leaf_node_def)
  then show ?thesis
    unfolding calculate_subtree_common_divisor_def using assms
    by (intro calculation_returns divisor.post_visits_return [where ?st0.0 = st] divisor.solved_start same_but_refl) simp
qed

lemma divisor_solved:
  assumes "calculate_subtree_common_divisor roots st = Some (Inr st')"
  shows "same_but subtree_common_divisor_update st st'"
    and "\<forall>n \<in> reachable (\<lambda>n. df_destinations (st n)) roots. divisor.solved_at st st' n"
proof -
  obtain V where run: "post_visits divisor_calculation roots ({}, st) = Some (Inr (V, st'))"
    using assms by (auto simp: calculate_subtree_common_divisor_def calculated)
  have "(\<lambda>n. if is_leaf_node (st n) then [] else df_destinations (st n)) = (\<lambda>n. df_destinations (st n))"
    by (auto simp: is_leaf_node_def)
  with divisor.post_visits_equations [OF run same_but_refl]
  show "same_but subtree_common_divisor_update st st'"
    "\<forall>n \<in> reachable (\<lambda>n. df_destinations (st n)) roots. divisor.solved_at st st' n" by simp_all
qed

lemma divisor_lcm:
  assumes "wf {(m, n). m \<in> set (df_destinations (st n))}"
    and solved: "\<forall>n \<in> reachable (\<lambda>n. df_destinations (st n)) roots. divisor.solved_at st st' n"
    and "n \<in> reachable (\<lambda>n. df_destinations (st n)) roots"
  shows "unat (subtree_common_divisor (st' n)) dvd x
    \<longleftrightarrow> (\<forall>l \<in> reachable (\<lambda>n. df_destinations (st n)) [n].
           is_leaf_node (st l) \<longrightarrow> unat (get_consume_granularity (st l)) dvd x)"
  using assms(3)
proof (induction n rule: wf_induct_rule [OF assms(1)])
  let ?next = "\<lambda>n. df_destinations (st n)"
  case (1 n)
  have here: "divisor.solved_at st st' n" using solved "1.prems" by blast
  show ?case
  proof (cases "is_leaf_node (st n)")
    case True
    then have "reachable ?next [n] = {n}"
      by (subst reachable_unfold) (simp add: is_leaf_node_def)
    then show ?thesis using True here by (simp add: divisor.solved_at_def)
  next
    case False
    have "m \<in> reachable ?next roots" if "m \<in> set (?next n)" for m
      using reachable_closed [OF "1.prems"] that by simp
    moreover have "unat (subtree_common_divisor (st' n)) dvd x
      \<longleftrightarrow> (\<forall>m \<in> set (?next n). unat (subtree_common_divisor (st' m)) dvd x)"
      using here False by (subst fold_lcm_dvd) (auto simp: divisor.solved_at_def bind_sum_Inr_iff)
    ultimately show ?thesis
      using "1.IH" False by (subst reachable_unfold) auto
  qed
qed

text \<open>The common divisor of a subtree is the least common multiple of what the leaves below it
  consume at a time: on a graph without cycles the calculation ends, and unless a multiple does not fit
  into its 32 bits, a number is divisible by the divisor of a node that a root reaches exactly if it is
  divisible by the granularity of every leaf the node reaches.\<close>

theorem subtree_divisor_is_lcm_of_leaves:
  assumes "wf {(m, n). m \<in> set (df_destinations (st n))}"
  shows "(\<exists>r. calculate_subtree_common_divisor roots st = Some r)
    \<and> (\<forall>st'. calculate_subtree_common_divisor roots st = Some (Inr st') \<longrightarrow>
         (\<forall>n \<in> reachable (\<lambda>n. df_destinations (st n)) roots. \<forall>x.
            unat (subtree_common_divisor (st' n)) dvd x
            \<longleftrightarrow> (\<forall>l \<in> reachable (\<lambda>n. df_destinations (st n)) [n].
                   is_leaf_node (st l) \<longrightarrow> unat (get_consume_granularity (st l)) dvd x)))"
  using divisor_returns [OF assms] divisor_lcm [OF assms divisor_solved(2)] by blast

definition two_leaves :: df_state where
  "two_leaves = (\<lambda>n. if n = 0 then blank_df_node\<lparr>df_destinations := [1, 2]\<rparr>
     else if n = 1 then blank_df_node\<lparr>df_rg_node := blank_node\<lparr>node_type := UnpackerOutput, transfer_granularity := 4\<rparr>\<rparr>
     else blank_df_node\<lparr>df_rg_node := blank_node\<lparr>node_type := UnpackerOutput, transfer_granularity := 6\<rparr>\<rparr>)"

theorem subtree_divisor_is_lcm_of_leaves_witness:
  "\<exists>st'. calculate_subtree_common_divisor [0] two_leaves = Some (Inr st')
     \<and> 4 dvd unat (subtree_common_divisor (st' 0)) \<and> unat (subtree_common_divisor (st' 0)) dvd 12"
proof -
  have "\<exists>st'. calculate_subtree_common_divisor [0] two_leaves = Some (Inr st')"
  proof -
    have "(case calculate_subtree_common_divisor [0] two_leaves of Some (Inr st') \<Rightarrow> True | _ \<Rightarrow> False)"
      by code_simp
    then show ?thesis by (auto split: option.splits sum.splits)
  qed
  then obtain st' where run: "calculate_subtree_common_divisor [0] two_leaves = Some (Inr st')" by blast
  let ?next = "\<lambda>n. df_destinations (two_leaves n)"
  have "wf {(m, n). m \<in> set (?next n)}"
    by (rule wf_subset [OF wf_measure [of "\<lambda>n. if n = 0 then 1 else 0"]])
      (auto simp: two_leaves_def blank_df_node_def split: if_splits)
  note divisor = subtree_divisor_is_lcm_of_leaves [OF this, of "[0]", THEN conjunct2, rule_format, OF run, of 0]
  have leaf: "reachable ?next [n] = {n}" if "n \<noteq> 0" for n
    using that by (subst reachable_unfold) (simp add: two_leaves_def blank_df_node_def)
  have "set (?next 0) = {1, 2}" by (simp add: two_leaves_def blank_df_node_def)
  then have reach: "reachable ?next [0] = {0, 1, 2}" by (subst reachable_unfold) (auto simp: leaf)
  have grain: "unat (get_consume_granularity (two_leaves 1)) = 4" "unat (get_consume_granularity (two_leaves 2)) = 6"
    "is_leaf_node (two_leaves 1)" "is_leaf_node (two_leaves 2)" "\<not> is_leaf_node (two_leaves 0)"
    by (simp_all add: two_leaves_def blank_df_node_def blank_node_def get_consume_granularity_def is_leaf_node_def)
  have "unat (subtree_common_divisor (st' 0)) dvd x \<longleftrightarrow> 4 dvd x \<and> 6 dvd x" for x
    using divisor [of x] grain by (simp add: reach)
  from this [of 12] this [of "unat (subtree_common_divisor (st' 0))"] show ?thesis using run by auto
qed

end
