(* ===== verification/PhaseLimits.thy ===== *)
theory PhaseLimits
  imports TransferLimitsProps
begin

text \<open>
  The most tiles of a phase: the visits in topological order set every node after the node it takes
  its limit from, so in the end no node exceeds the limit and each keeps the granularity it has to.
\<close>

section \<open>Parents first\<close>

fun parents_first :: "('n \<Rightarrow> 'n set) \<Rightarrow> 'n set \<Rightarrow> 'n list \<Rightarrow> bool" where
  "parents_first par D [] \<longleftrightarrow> True"
| "parents_first par D (n # ns) \<longleftrightarrow> par n \<subseteq> D \<and> parents_first par (insert n D) ns"

lemma successors_later_inside:
  "successors_later nxt V ns \<Longrightarrow> p \<in> set ns \<Longrightarrow> set (nxt p) \<subseteq> set ns \<union> V"
  by (induction ns) auto

lemma parents_first_order:
  assumes "successors_later nxt V ns" and "distinct ns" and "set ns \<inter> V = {}"
    and "\<forall>n \<in> set ns. \<forall>p \<in> par n. n \<in> set (nxt p) \<and> p \<in> D \<union> set ns"
  shows "parents_first par D ns"
  using assms
proof (induction ns arbitrary: D)
  case (Cons n ns)
  have "par n \<subseteq> D"
  proof
    fix p assume p: "p \<in> par n"
    then have "n \<in> set (nxt p)" "p \<in> D \<union> set (n # ns)" using Cons.prems(4) by auto
    moreover have "set (nxt q) \<subseteq> set ns \<union> V" if "q \<in> set (n # ns)" for q
      using Cons.prems(1) successors_later_inside [of nxt V ns q] that by auto
    ultimately show "p \<in> D" using Cons.prems(2,3) by fastforce
  qed
  moreover have "parents_first par (insert n D) ns"
    using Cons.prems by (intro Cons.IH) auto
  ultimately show ?case by simp
qed simp

section \<open>The limit of a node\<close>

definition limit_parent :: "df_state \<Rightarrow> nat \<Rightarrow> nat set" where
  "limit_parent st n = (if is_end_of_single_source_edge st n = Inr True then {p. get_first_input_node (st n) = Inr p} else {})"

text \<open>
  A node at the end of a single source edge has the limit of its parent; another one has a limit that
  is a multiple of what its subtree consumes, when it sends more than the limit, and of the size of the
  buffer, when it is a root in L1.
\<close>

definition phase_limit_ok :: "u32 \<Rightarrow> df_state \<Rightarrow> nat \<Rightarrow> bool" where
  "phase_limit_ok limit st n \<longleftrightarrow> max_num_tiles_per_phase (st n) \<le> limit
     \<and> (\<forall>p \<in> limit_parent st n. max_num_tiles_per_phase (st n) = max_num_tiles_per_phase (st p))
     \<and> (is_end_of_single_source_edge st n = Inr False \<longrightarrow>
          (tiles_to_send (st n) > limit \<longrightarrow>
             unat (subtree_common_divisor (st n)) dvd unat (max_num_tiles_per_phase (st n)))
        \<and> (is_root_node (st n) \<and> \<not> is_dram_or_pcie_input (st n) \<longrightarrow>
             unat (get_size_tiles (st n)) dvd unat (max_num_tiles_per_phase (st n))))"

abbreviation same_limits :: "df_state \<Rightarrow> df_state \<Rightarrow> bool" where
  "same_limits \<equiv> same_but max_num_tiles_per_phase_update"

lemma same_limits_reads:
  assumes "same_limits st0 st"
  shows "df_destinations (st n) = df_destinations (st0 n)" "df_inputs (st n) = df_inputs (st0 n)"
    "is_root_node (st n) = is_root_node (st0 n)" "is_scatter (st n) = is_scatter (st0 n)"
    "get_first_input_node (st n) = get_first_input_node (st0 n)"
    "tiles_to_send (st n) = tiles_to_send (st0 n)" "subtree_common_divisor (st n) = subtree_common_divisor (st0 n)"
    "is_dram_or_pcie_input (st n) = is_dram_or_pcie_input (st0 n)" "get_size_tiles (st n) = get_size_tiles (st0 n)"
  by (rule same_but_reads [OF assms], simp add: is_root_node_def is_scatter_def get_first_input_node_def
      is_dram_or_pcie_input_def get_size_tiles_def)+

lemma same_limits_end: "same_limits st0 st \<Longrightarrow> is_end_of_single_source_edge st n = is_end_of_single_source_edge st0 n"
  by (simp add: is_end_of_single_source_edge_def same_limits_reads)

lemma same_limits_parent: "same_limits st0 st \<Longrightarrow> limit_parent st n = limit_parent st0 n"
  by (simp add: limit_parent_def same_limits_end same_limits_reads)

lemma phase_divisor_dvd:
  assumes "phase_divisor root_tiles limit d = Inr k"
  shows "(tiles_to_send d > limit \<longrightarrow> unat (subtree_common_divisor d) dvd unat k)
    \<and> (is_root_node d \<and> \<not> is_dram_or_pcie_input d \<longrightarrow> unat (get_size_tiles d) dvd unat k)"
proof -
  let ?start = "if is_root_node d \<and> \<not> is_dram_or_pcie_input d then get_size_tiles d else 1"
  obtain c where c: "(if tiles_to_send d > limit then std_lcm ?start (subtree_common_divisor d) else Inr ?start) = Inr c"
    and k: "k = c \<or> std_lcm c root_tiles = Inr k"
    using assms by (auto simp: phase_divisor_def Let_def bind_sum_Inr_iff split: if_splits)
  have "unat c dvd unat k" using k by (auto dest: std_lcm_unat)
  moreover have "unat ?start dvd unat c" "tiles_to_send d > limit \<longrightarrow> unat (subtree_common_divisor d) dvd unat c"
    using c by (auto dest!: std_lcm_unat split: if_splits)
  ultimately show ?thesis by (auto intro: dvd_trans)
qed

lemma div_mult_word:
  fixes a d :: u32
  shows "unat (a div d * d) = unat a div unat d * unat d" and "a div d * d \<le> a"
proof -
  have "unat a div unat d * unat d \<le> unat a" by simp
  then have "unat a div unat d * unat d < 2 ^ LENGTH(32)" 
    by (rule le_less_trans) (rule unsigned_less)
  then show "unat (a div d * d) = unat a div unat d * unat d"
    using unat_mult_lem [of "a div d" d] by (simp add: unat_div)
  then show "a div d * d \<le> a" by (simp add: word_le_nat_alt)
qed

section \<open>The visits\<close>

text \<open>Setting the limit of one node, whose parent is done.\<close>

lemma node_limit_set:
  assumes run: "calculate_max_tiles_per_phase_for_node root_tiles limit n s = Inr t"
    and same: "same_limits st0 s" and fresh: "n \<notin> D" and par: "limit_parent st0 n \<subseteq> D"
    and finished: "\<forall>k \<in> D. phase_limit_ok limit s k \<and> limit_parent st0 k \<subseteq> D"
  shows "same_limits st0 t \<and> (\<forall>k \<in> insert n D. phase_limit_ok limit t k)"
proof -
  obtain v where t: "t = at_node n (max_num_tiles_per_phase_update (\<lambda>_. v)) s"
    and v: "(is_end_of_single_source_edge s n = Inr True
        \<and> (\<exists>p. get_first_input_node (s n) = Inr p \<and> v = max_num_tiles_per_phase (s p)))
      \<or> (is_end_of_single_source_edge s n = Inr False
        \<and> (\<exists>d. phase_divisor root_tiles limit (s n) = Inr d \<and> v = limit div d * d))"
    using run by (auto simp: calculate_max_tiles_per_phase_for_node_def bind_sum_Inr_iff divide_def split: if_splits)
  have same_t: "same_limits st0 t"
    using same unfolding t same_but_def by (simp add: at_node_def)
  note here = same_limits_parent [OF same] same_limits_end [OF same] same_limits_reads [OF same]
  note there = same_limits_parent [OF same_t] same_limits_end [OF same_t] same_limits_reads [OF same_t]
  have old_value: "max_num_tiles_per_phase (t k) = max_num_tiles_per_phase (s k)" if "k \<in> D" for k
    using that fresh by (auto simp: t at_node_def)
  have new_value: "max_num_tiles_per_phase (t n) = v" by (simp add: t at_node_def)
  have old: "phase_limit_ok limit t k" if "k \<in> D" for k
  proof -
    have "\<forall>p \<in> limit_parent st0 k. max_num_tiles_per_phase (t p) = max_num_tiles_per_phase (s p)"
      using finished that old_value by blast
    then show ?thesis using finished that old_value [OF that] by (simp add: phase_limit_ok_def here there)
  qed
  have "phase_limit_ok limit t n"
    using v
  proof (elim disjE conjE exE)
    fix p assume ends: "is_end_of_single_source_edge s n = Inr True" "get_first_input_node (s n) = Inr p"
      and v: "v = max_num_tiles_per_phase (s p)"
    then have p: "limit_parent st0 n = {p}" by (auto simp: limit_parent_def here)
    then have "p \<in> D" using par by simp
    then have "max_num_tiles_per_phase (t n) = max_num_tiles_per_phase (t p)" "max_num_tiles_per_phase (t p) \<le> limit"
      using v old fresh by (auto simp: t at_node_def phase_limit_ok_def)
    then show ?thesis using ends(1) by (simp add: phase_limit_ok_def there p here)
  next
    fix d assume ends: "is_end_of_single_source_edge s n = Inr False" and d: "phase_divisor root_tiles limit (s n) = Inr d"
      and v: "v = limit div d * d"
    have "unat d dvd unat v" by (simp add: v div_mult_word(1))
    then show ?thesis using phase_divisor_dvd [OF d] ends new_value div_mult_word(2) [of limit d]
      by (auto simp: phase_limit_ok_def limit_parent_def there here v intro: dvd_trans)
  qed
  then show ?thesis using same_t old by auto
qed

lemma limits_set_in_order:
  assumes "fold_sum (calculate_max_tiles_per_phase_for_node root_tiles limit) ns s = Inr t"
    and "same_limits st0 s" and "distinct ns" and "set ns \<inter> D = {}" and "parents_first (limit_parent st0) D ns"
    and "\<forall>k \<in> D. phase_limit_ok limit s k \<and> limit_parent st0 k \<subseteq> D"
  shows "same_limits st0 t \<and> (\<forall>k \<in> D \<union> set ns. phase_limit_ok limit t k \<and> limit_parent st0 k \<subseteq> D \<union> set ns)"
  using assms
proof (induction ns arbitrary: s D)
  case (Cons n ns)
  obtain u where u: "calculate_max_tiles_per_phase_for_node root_tiles limit n s = Inr u"
    "fold_sum (calculate_max_tiles_per_phase_for_node root_tiles limit) ns u = Inr t"
    using Cons.prems(1) by (auto simp: bind_sum_Inr_iff)
  have step: "same_limits st0 u" "\<forall>k \<in> insert n D. phase_limit_ok limit u k"
    using node_limit_set [OF u(1) Cons.prems(2) _ _ Cons.prems(6)] Cons.prems(4,5) by auto
  have "same_limits st0 t \<and> (\<forall>k \<in> insert n D \<union> set ns. phase_limit_ok limit t k
      \<and> limit_parent st0 k \<subseteq> insert n D \<union> set ns)"
    by (rule Cons.IH [OF u(2) step(1)]) (use Cons.prems(3-6) step(2) in auto)
  then show ?case by simp
qed simp

text \<open>What the visits from the roots keep, for the nodes \<open>V\<close> visited so far.\<close>

definition limits_inv :: "u32 \<Rightarrow> df_state \<Rightarrow> nat set \<times> df_state \<Rightarrow> bool" where
  "limits_inv limit st0 vs \<longleftrightarrow> same_limits st0 (snd vs)
     \<and> (\<forall>n \<in> fst vs. set (df_destinations (st0 n)) \<subseteq> fst vs)
     \<and> (\<forall>n \<in> fst vs. phase_limit_ok limit (snd vs) n \<and> limit_parent st0 n \<subseteq> fst vs)"

text \<open>An edge is an input of its destination.\<close>

definition edges_are_inputs :: "df_state \<Rightarrow> nat set \<Rightarrow> bool" where
  "edges_are_inputs st N \<longleftrightarrow> (\<forall>n \<in> N. \<forall>m \<in> set (df_destinations (st n)). n \<in> fst ` set (df_inputs (st m)))"

lemma limit_parent_edge:
  assumes "edges_are_inputs st N" and "n \<in> N" and "m \<in> set (df_destinations (st n))"
  shows "limit_parent st m \<subseteq> {n}"
proof
  fix p assume "p \<in> limit_parent st m"
  then have "length (df_inputs (st m)) \<le> 1" "get_first_input_node (st m) = Inr p"
    by (auto simp: limit_parent_def is_end_of_single_source_edge_def split: if_splits)
  moreover have "n \<in> fst ` set (df_inputs (st m))" using assms by (simp add: edges_are_inputs_def)
  ultimately show "p \<in> {n}"
    by (cases "df_inputs (st m)") (auto simp: get_first_input_node_def split: if_splits)
qed

lemma limit_parent_not_root: "is_root_node (st n) \<Longrightarrow> limit_parent st n = {}"
  by (simp add: limit_parent_def is_end_of_single_source_edge_def)

lemma limits_from_root:
  assumes run: "max_tiles_from_root limit r vs = Some (Inr ws)" and inv: "limits_inv limit st0 vs"
    and acyclic: "acyclic (edges_of (\<lambda>n. df_destinations (st0 n)))"
    and edges: "edges_are_inputs st0 (reachable (\<lambda>n. df_destinations (st0 n)) [r])"
  shows "limits_inv limit st0 ws \<and> insert r (fst vs) \<subseteq> fst ws"
proof -
  let ?next = "\<lambda>n. df_destinations (st0 n)"
  obtain V s where vs: "vs = (V, s)" by force
  have same: "same_limits st0 s" using inv by (simp add: limits_inv_def vs)
  have succ: "(\<lambda>n. df_destinations (s n)) = ?next" by (simp add: same_limits_reads(1) [OF same])
  obtain V' order t where search: "dfs_order ?next [r] (V, []) = Some (V', order)"
    and set: "fold_sum (calculate_max_tiles_per_phase_for_node (get_num_tiles_per_input (s r)) limit) order s = Inr t"
    and ws: "ws = (V', t)" and root: "is_root_node (st0 r)"
    using run by (auto simp: max_tiles_from_root_def visit_nodes_in_topological_order_def vs succ
        bind_sum_Inr_iff same_limits_reads(3) [OF same] split: if_splits option.splits)
  have adds: "search_adds ?next [r] V V' order" using dfs_order_adds [OF search] by simp
  then have order: "distinct order" "set order \<inter> V = {}" "V' = V \<union> set order" "successors_later ?next V order"
    "set order \<subseteq> reachable ?next [r]"
    using acyclic by (auto simp: search_adds_def)
  have closed: "\<forall>n \<in> V'. set (?next n) \<subseteq> V'"
    using adds inv by (auto simp: search_adds_def limits_inv_def vs)
  have reach: "reachable ?next [r] \<subseteq> V'"
    using adds closed by (intro reachable_least) (auto simp: search_adds_def)
  have par: "n \<in> set (?next p) \<and> p \<in> V \<union> set order" if n: "n \<in> set order" "p \<in> limit_parent st0 n" for n p
  proof -
    have "(r, n) \<in> (edges_of ?next)\<^sup>*" "n \<noteq> r"
      using order(5) n limit_parent_not_root [of st0 r, OF root] by (auto simp: reachable_def)
    then obtain q where "(r, q) \<in> (edges_of ?next)\<^sup>*" "n \<in> set (?next q)"
      by (auto simp: edges_of_def elim: rtranclE)
    then have "q \<in> reachable ?next [r]" "n \<in> set (?next q)" by (auto simp: reachable_def)
    moreover from limit_parent_edge [OF edges this] have "p = q" using n(2) by blast
    ultimately show ?thesis using reach order(3) by auto
  qed
  have "same_limits st0 t \<and> (\<forall>k \<in> V \<union> set order. phase_limit_ok limit t k \<and> limit_parent st0 k \<subseteq> V \<union> set order)"
    by (rule limits_set_in_order [OF set same order(1,2) parents_first_order [OF order(4,1,2)]])
      (use par inv in \<open>auto simp: limits_inv_def vs\<close>)
  then show ?thesis using closed adds order(3) by (auto simp: limits_inv_def ws vs search_adds_def)
qed

lemma limits_from_roots:
  assumes "max_tiles_from_roots limit roots vs = Some (Inr ws)" and "limits_inv limit st0 vs"
    and acyclic: "acyclic (edges_of (\<lambda>n. df_destinations (st0 n)))"
    and edges: "edges_are_inputs st0 (reachable (\<lambda>n. df_destinations (st0 n)) roots)"
  shows "limits_inv limit st0 ws \<and> set roots \<union> fst vs \<subseteq> fst ws"
  using assms(1,2) edges
proof (induction roots arbitrary: vs)
  case (Cons r rs)
  let ?next = "\<lambda>n. df_destinations (st0 n)"
  obtain us where us: "max_tiles_from_root limit r vs = Some (Inr us)" "max_tiles_from_roots limit rs us = Some (Inr ws)"
    using Cons.prems(1) by (auto simp: rbind_Inr_iff)
  have "reachable ?next [r] \<subseteq> reachable ?next (r # rs)" by (rule reachable_mono) simp
  moreover have "reachable ?next rs \<subseteq> reachable ?next (r # rs)" by (rule reachable_mono) auto
  ultimately have "edges_are_inputs st0 (reachable ?next [r])" "edges_are_inputs st0 (reachable ?next rs)"
    using Cons.prems(3) by (auto simp: edges_are_inputs_def)
  then show ?case
    using limits_from_root [OF us(1) Cons.prems(2) acyclic] Cons.IH [OF us(2)] by auto
qed simp

lemma phase_limits_hold:
  assumes "calculate_max_tiles_per_phase limit roots st = Some (Inr st')"
    and "acyclic (edges_of (\<lambda>n. df_destinations (st n)))"
    and "edges_are_inputs st (reachable (\<lambda>n. df_destinations (st n)) roots)"
  shows "same_limits st st' \<and> (\<forall>n \<in> reachable (\<lambda>n. df_destinations (st n)) roots. phase_limit_ok limit st' n)"
proof -
  obtain V where run: "max_tiles_from_roots limit roots ({}, st) = Some (Inr (V, st'))"
    using assms(1) by (auto simp: calculate_max_tiles_per_phase_def rbind_Inr_iff)
  have "limits_inv limit st ({}, st)" by (simp add: limits_inv_def same_but_refl)
  from limits_from_roots [OF run this assms(2,3)]
  have inv: "limits_inv limit st (V, st')" "set roots \<subseteq> V" by auto
  then have "reachable (\<lambda>n. df_destinations (st n)) roots \<subseteq> V"
    by (intro reachable_least) (auto simp: limits_inv_def)
  then show ?thesis using inv(1) by (auto simp: limits_inv_def)
qed

text \<open>C17 The most tiles of a phase never exceed the limit, at any node that a root reaches; a node at
  the end of a single source edge has exactly the most tiles of the node before it; any other node has
  a multiple of what its subtree consumes, when it sends more tiles than the limit, and of the size of
  its buffer, when it is a root that does not read DRAM or PCIe. The multiple may be zero: then the
  divisor is greater than the limit.\<close>

theorem phase_limits:
  assumes "calculate_max_tiles_per_phase limit roots st = Some (Inr st')"
    and "acyclic (edges_of (\<lambda>n. df_destinations (st n)))"
    and "edges_are_inputs st (reachable (\<lambda>n. df_destinations (st n)) roots)"
    and "n \<in> reachable (\<lambda>n. df_destinations (st n)) roots"
  shows "max_num_tiles_per_phase (st' n) \<le> limit
    \<and> (\<forall>p. is_end_of_single_source_edge st n = Inr True \<and> get_first_input_node (st n) = Inr p \<longrightarrow>
         max_num_tiles_per_phase (st' n) = max_num_tiles_per_phase (st' p))
    \<and> (is_end_of_single_source_edge st n = Inr False \<longrightarrow>
         (tiles_to_send (st n) > limit \<longrightarrow>
            unat (subtree_common_divisor (st n)) dvd unat (max_num_tiles_per_phase (st' n)))
       \<and> (is_root_node (st n) \<and> \<not> is_dram_or_pcie_input (st n) \<longrightarrow>
            unat (get_size_tiles (st n)) dvd unat (max_num_tiles_per_phase (st' n))))"
proof -
  have "phase_limit_ok limit st' n" "same_limits st st'"
    using phase_limits_hold [OF assms(1-3)] assms(4) by auto
  then show ?thesis
    by (simp add: phase_limit_ok_def same_limits_end same_limits_reads same_limits_parent)
      (auto simp: limit_parent_def)
qed

text \<open>A root that sends more tiles than a phase may have, to a node that consumes them six at a time.\<close>

definition long_transfer :: df_state where
  "long_transfer = (\<lambda>n. if n = 0 then blank_df_node\<lparr>df_destinations := [1], tiles_to_send := 100, subtree_common_divisor := 6\<rparr>
     else if n = 1 then blank_df_node\<lparr>df_sources := [0], df_inputs := [(0, 0)], tiles_to_send := 100, subtree_common_divisor := 6\<rparr>
     else blank_df_node)"

theorem phase_limits_witness:
  "\<exists>st'. calculate_max_tiles_per_phase 64 [0] long_transfer = Some (Inr st')
     \<and> max_num_tiles_per_phase (st' 0) \<le> 64 \<and> 6 dvd unat (max_num_tiles_per_phase (st' 0))
     \<and> 8 dvd unat (max_num_tiles_per_phase (st' 0))"
proof -
  have "\<exists>st'. calculate_max_tiles_per_phase 64 [0] long_transfer = Some (Inr st')"
  proof -
    have "(case calculate_max_tiles_per_phase 64 [0] long_transfer of Some (Inr st') \<Rightarrow> True | _ \<Rightarrow> False)"
      by code_simp
    then show ?thesis by (auto split: option.splits sum.splits)
  qed
  then obtain st' where run: "calculate_max_tiles_per_phase 64 [0] long_transfer = Some (Inr st')" by blast
  let ?next = "\<lambda>n. df_destinations (long_transfer n)"
  have "edges_of ?next = {(0, 1)}"
    by (auto simp: edges_of_def long_transfer_def blank_df_node_def split: if_splits)
  then have "acyclic (edges_of ?next)" by (simp add: acyclic_insert) (simp add: acyclic_def)
  moreover have "edges_are_inputs long_transfer (reachable ?next [0])"
    by (auto simp: edges_are_inputs_def long_transfer_def blank_df_node_def split: if_splits)
  moreover have "0 \<in> reachable ?next [0]" by (rule reachable_start) simp
  ultimately have limits: "max_num_tiles_per_phase (st' 0) \<le> 64"
    "tiles_to_send (long_transfer 0) > 64 \<Longrightarrow> is_end_of_single_source_edge long_transfer 0 = Inr False
      \<Longrightarrow> unat (subtree_common_divisor (long_transfer 0)) dvd unat (max_num_tiles_per_phase (st' 0))"
    "is_root_node (long_transfer 0) \<Longrightarrow> \<not> is_dram_or_pcie_input (long_transfer 0)
      \<Longrightarrow> is_end_of_single_source_edge long_transfer 0 = Inr False
      \<Longrightarrow> unat (get_size_tiles (long_transfer 0)) dvd unat (max_num_tiles_per_phase (st' 0))"
    using phase_limits [OF run] by blast+
  have "tiles_to_send (long_transfer 0) > 64" "subtree_common_divisor (long_transfer 0) = 6"
    "get_size_tiles (long_transfer 0) = 8" "is_root_node (long_transfer 0)"
    "\<not> is_dram_or_pcie_input (long_transfer 0)" "is_end_of_single_source_edge long_transfer 0 = Inr False"
    by (simp_all add: long_transfer_def blank_df_node_def blank_node_def is_end_of_single_source_edge_def
        is_root_node_def is_dram_or_pcie_input_def is_dram_input_node_def get_size_tiles_def)
  then show ?thesis using run limits by auto
qed

end
