(* ===== verification/Transfers.thy ===== *)
theory Transfers
  imports TransferLimits
begin

text \<open>
  The phases of the transfers (\<open>data_flow_calculator/transfers_calculator_internal.cpp\<close>): a root
  splits what it sends into phases, and another node receives phases from its senders and makes of
  them the phases in which it sends. Each sender is computed when a receiver asks for it. A loop or
  recursion that does not end is \<open>None\<close>.
\<close>

section \<open>Phases of a root\<close>

definition phase_size :: "u32 \<Rightarrow> u32 \<Rightarrow> u32" where
  "phase_size remaining most = (if remaining > most then most else remaining)"

partial_function (option) root_phases ::
  "nat \<Rightarrow> u32 \<Rightarrow> u32 \<Rightarrow> u32 \<Rightarrow> DataFlowNode \<Rightarrow> (u32 \<times> DataFlowNode) option" where
  "root_phases dest data off remaining d =
     (if remaining = 0 then Some (off, d)
      else (let n = phase_size remaining (max_num_tiles_per_phase d) in
            root_phases dest data (off + 1) (remaining - n) (add_sending_phase dest off data n d)))"

declare root_phases.simps [code]

definition calculate_phases_for_root ::
  "nat \<Rightarrow> u32 \<Rightarrow> nat option \<Rightarrow> u32 \<Rightarrow> df_state \<Rightarrow> (df_error + u32 \<times> df_state) option" where
  "calculate_phases_for_root n data dest start st =
     (case dest of None \<Rightarrow> Some (Inl DfAssert)
      | Some dst \<Rightarrow> map_option (\<lambda>(off, d). Inr (off - start, at_node n (\<lambda>_. d) st))
                      (root_phases dst data start (tiles_to_send (st n)) (st n)))"

section \<open>Sending what is received\<close>

fun sending_loop :: "nat \<Rightarrow> u32 \<Rightarrow> PhaseInfo list \<Rightarrow> u32 \<Rightarrow> u32 \<Rightarrow> DataFlowNode \<Rightarrow> DataFlowNode" where
  "sending_loop dest data [] acc off d = (if acc > 0 then add_sending_phase dest off data acc d else d)"
| "sending_loop dest data (p # ps) acc off d =
     (if acc + num_msgs p > max_num_tiles_per_phase d
      then sending_loop dest data ps (num_msgs p) (phase_offset p) (add_sending_phase dest off data acc d)
      else sending_loop dest data ps (acc + num_msgs p) off d)"

definition calculate_sending_phases :: "nat \<Rightarrow> u32 \<Rightarrow> nat \<Rightarrow> u32 \<Rightarrow> df_state \<Rightarrow> df_error + df_state" where
  "calculate_sending_phases n data dest start st =
     bind_sum (get_current_input_group_receiving_phases (st n))
       (\<lambda>ps. Inr (at_node n (sending_loop dest data ps 0 start) st))"

section \<open>Receiving\<close>

text \<open>
  Whether the sender can put its tiles into the phase it has made last, and the state afterwards: if
  it can it has done so.
\<close>

definition can_sender_accumulate ::
  "nat \<Rightarrow> nat option \<Rightarrow> u32 \<Rightarrow> nat \<Rightarrow> u32 \<Rightarrow> df_state \<Rightarrow> df_error + bool \<times> df_state" where
  "can_sender_accumulate dest prev_sender prev_offset current offset st =
     (if prev_sender = Some current \<and> should_accumulate_sending_phases (st current)
         \<and> prev_offset + tiles_to_send (st current) = offset
      then bind_sum (can_expand_last_receiving_phase (tiles_to_send (st current)) (st dest)) (\<lambda>fits.
             if fits then bind_sum (try_update_last_sending_phase dest (st current))
                            (\<lambda>(updated, d). Inr (updated, at_node current (\<lambda>_. d) st))
             else Inr (False, st))
      else Inr (False, st))"

definition add_receiving_phases :: "PhaseInfo list \<Rightarrow> DataFlowNode \<Rightarrow> DataFlowNode" where
  "add_receiving_phases ps = fold (\<lambda>p. add_receiving_phase (phase_offset p) (num_msgs p)) ps"

text \<open>What a node receives of a sender that has been computed, its phases from an index on.\<close>

definition receive_from :: "nat \<Rightarrow> nat option \<Rightarrow> nat \<Rightarrow> nat \<Rightarrow> u32 \<Rightarrow> df_state \<Rightarrow> df_error + df_state" where
  "receive_from n prev_sender sender first_phase off st =
     (if prev_sender \<noteq> Some sender
      then bind_sum (get_sending_phases n (st sender))
             (\<lambda>ps. Inr (at_node n (add_receiving_phases (drop first_phase ps)) st))
      else bind_sum (update_receiving_phases (off - 1) (tiles_to_send (st sender)) (st n))
             (\<lambda>d. Inr (at_node n (\<lambda>_. d) st)))"

text \<open>
  The two functions that call each other: the phases of a node, and the phases it receives from the
  inputs that are left, from the last sender with its offset and the phase offset reached.
\<close>

datatype phases_call = NodePhases nat u32 "nat option" u32
  | ReceivePhases nat "(nat \<times> u32) list" "nat option" u32 u32

partial_function (option) calculate_phases :: "phases_call \<Rightarrow> df_state \<Rightarrow> (df_error + u32 \<times> df_state) option" where
  "calculate_phases call st =
     (case call of
        NodePhases n data dest start \<Rightarrow>
          if is_root_node (st n) then calculate_phases_for_root n data dest start st
          else rbind (if has_processed_all_inputs (st n) then Some (Inr st)
                      else rbind (Some (get_current_inputs_to_process (st n))) (\<lambda>inputs.
                           rbind (calculate_phases (ReceivePhases n inputs None 0 start) st) (\<lambda>r.
                             Some (Inr (at_node n (inputs_phase_offset_update (\<lambda>_. fst r - start)) (snd r))))))
               (\<lambda>st1. rbind (Some (case dest of None \<Rightarrow> Inr st1
                                   | Some dst \<Rightarrow> calculate_sending_phases n data dst start st1))
               (\<lambda>st2. let st3 = (if has_processed_all_inputs (st2 n) then st2
                                 else at_node n move_to_next_input_group st2)
                      in Some (Inr (inputs_phase_offset (st3 n), st3))))
      | ReceivePhases n inputs prev_sender prev_offset off \<Rightarrow>
          (case inputs of
             [] \<Rightarrow> Some (Inr (off, st))
           | (sender, offset) # rest \<Rightarrow>
               rbind (Some (can_sender_accumulate n prev_sender prev_offset sender offset st)) (\<lambda>acc.
               rbind (if fst acc then Some (Inr (0, snd acc))
                      else calculate_phases (NodePhases sender offset (Some n) off) (snd acc)) (\<lambda>r.
               rbind (Some (receive_from n prev_sender sender (get_num_sending_phases n (st sender))
                              (off + fst r) (snd r))) (\<lambda>st2.
                 calculate_phases (ReceivePhases n rest (Some sender) offset (off + fst r)) st2)))))"

declare calculate_phases.simps [code]

section \<open>All leaf groups\<close>

text \<open>
  A leaf group is the hash set of its nodes; \<open>set_order\<close> is the order in which a set is iterated. The
  groups of a subgraph come in the order of their path indices, the subgraphs in that of a hash map.
\<close>

definition first_leaf_node :: "(nat set \<Rightarrow> nat list) \<Rightarrow> nat set \<Rightarrow> df_error + nat" where
  "first_leaf_node set_order g = (if g = {} then Inl DfAssert else Inr (hd (set_order g)))"

fun phases_of_groups ::
  "(nat set \<Rightarrow> nat list) \<Rightarrow> nat set list \<Rightarrow> u32 \<Rightarrow> df_state \<Rightarrow> (df_error + df_state) option" where
  "phases_of_groups set_order [] start st = Some (Inr st)"
| "phases_of_groups set_order (g # gs) start st =
     (if g = {} then phases_of_groups set_order gs start st
      else rbind (Some (first_leaf_node set_order g)) (\<lambda>leaf.
           rbind (calculate_phases (NodePhases leaf 0 None start) st)
             (\<lambda>r. phases_of_groups set_order gs (start + fst r) (snd r))))"

definition copy_to_leaf :: "nat \<Rightarrow> nat \<Rightarrow> df_state \<Rightarrow> df_error + df_state" where
  "copy_to_leaf first leaf st =
     fold_sum (\<lambda>source st. bind_sum (get_sending_phases first (st source))
                 (\<lambda>ps. Inr (at_node source (\<lambda>d. d\<lparr>sending_phases := (sending_phases d)(leaf \<mapsto> ps)\<rparr>) st)))
       (df_sources (st first))
       (at_node leaf (receiving_phases_update (\<lambda>_. receiving_phases (st first))) st)"

definition copy_phases_in_group :: "(nat set \<Rightarrow> nat list) \<Rightarrow> nat set \<Rightarrow> df_state \<Rightarrow> df_error + df_state" where
  "copy_phases_in_group set_order g st =
     bind_sum (first_leaf_node set_order g) (\<lambda>first. fold_sum (copy_to_leaf first) (tl (set_order g)) st)"

fun copy_phases_in_groups ::
  "(nat set \<Rightarrow> nat list) \<Rightarrow> nat set \<Rightarrow> nat set list \<Rightarrow> df_state \<Rightarrow> df_error + df_state" where
  "copy_phases_in_groups set_order seen [] st = Inr st"
| "copy_phases_in_groups set_order seen (g # gs) st =
     (if g = {} then copy_phases_in_groups set_order seen gs st
      else bind_sum (first_leaf_node set_order g) (\<lambda>first.
             if first \<in> seen then copy_phases_in_groups set_order seen gs st
             else bind_sum (copy_phases_in_group set_order g st)
                    (copy_phases_in_groups set_order (insert first seen) gs)))"

fun phases_of_subgraphs ::
  "(nat set \<Rightarrow> nat list) \<Rightarrow> nat set list list \<Rightarrow> df_state \<Rightarrow> (df_error + df_state) option" where
  "phases_of_subgraphs set_order [] st = Some (Inr st)"
| "phases_of_subgraphs set_order (gs # gss) st =
     rbind (phases_of_groups set_order gs 0 st) (phases_of_subgraphs set_order gss)"

definition calculate_all_phases ::
  "(nat set \<Rightarrow> nat list) \<Rightarrow> nat set list list \<Rightarrow> df_state \<Rightarrow> (df_error + df_state) option" where
  "calculate_all_phases set_order subgraphs st =
     rbind (phases_of_subgraphs set_order subgraphs st)
       (\<lambda>st1. Some (fold_sum (copy_phases_in_groups set_order {}) subgraphs st1))"

end
