(* ===== verification/TransfersProps.thy ===== *)
theory TransfersProps
  imports Transfers TransferLimitsProps
begin

text \<open>
  What the transfers promise: a root splits its tiles into full phases and a rest, and the phases in
  which a node sends carry exactly what it receives.
\<close>

section \<open>Phases of a root\<close>

definition msgs :: "PhaseInfo list \<Rightarrow> nat" where
  "msgs ps = (\<Sum>p \<leftarrow> ps. unat (num_msgs p))"

lemma msgs_simps [simp]:
  "msgs [] = 0" "msgs (p # ps) = unat (num_msgs p) + msgs ps" "msgs (ps @ qs) = msgs ps + msgs qs"
  by (simp_all add: msgs_def)

definition phases_to :: "nat \<Rightarrow> DataFlowNode \<Rightarrow> PhaseInfo list" where
  "phases_to dest d = (case sending_phases d dest of None \<Rightarrow> [] | Some ps \<Rightarrow> ps)"

lemma add_sending_phase_simps [simp]:
  "phases_to dest (add_sending_phase dest off data n d)
     = phases_to dest d @ [\<lparr>phase_offset = off, data_offset = data, num_msgs = n\<rparr>]"
  "max_num_tiles_per_phase (add_sending_phase dest off data n d) = max_num_tiles_per_phase d"
  by (simp_all add: phases_to_def add_sending_phase_def)

text \<open>Full phases, and the rest in the last one.\<close>

definition full_phases :: "u32 \<Rightarrow> u32 \<Rightarrow> u32 \<Rightarrow> PhaseInfo list \<Rightarrow> bool" where
  "full_phases data off most ps \<longleftrightarrow> (\<forall>i < length ps.
     phase_offset (ps ! i) = off + word_of_nat i \<and> data_offset (ps ! i) = data
   \<and> 0 < num_msgs (ps ! i) \<and> num_msgs (ps ! i) \<le> most
   \<and> (Suc i < length ps \<longrightarrow> num_msgs (ps ! i) = most))"

lemma full_phases_Cons:
  assumes "full_phases data (off + 1) most ps" and "0 < n" and "n \<le> most" and "ps \<noteq> [] \<longrightarrow> n = most"
  shows "full_phases data off most (\<lparr>phase_offset = off, data_offset = data, num_msgs = n\<rparr> # ps)"
  using assms by (auto simp: full_phases_def nth_Cons split: nat.splits)

lemma phase_size_step:
  assumes "remaining \<noteq> 0" and "most \<noteq> 0"
  shows "0 < phase_size remaining most" "phase_size remaining most \<le> most"
    "unat (remaining - phase_size remaining most) + unat (phase_size remaining most) = unat remaining"
    "remaining - phase_size remaining most \<noteq> 0 \<Longrightarrow> phase_size remaining most = most"
  using assms by (auto simp: phase_size_def word_gt_0 word_le_nat_alt word_less_nat_alt unat_sub unat_gt_0)

lemma root_phases_split:
  assumes "max_num_tiles_per_phase d \<noteq> 0 \<or> remaining = 0"
  shows "\<exists>ps d'. root_phases dest data off remaining d = Some (off + word_of_nat (length ps), d')
    \<and> phases_to dest d' = phases_to dest d @ ps \<and> msgs ps = unat remaining
    \<and> full_phases data off (max_num_tiles_per_phase d) ps"
  using assms
proof (induction "unat remaining" arbitrary: remaining off d rule: less_induct)
  case less
  show ?case
  proof (cases "remaining = 0")
    case True
    then show ?thesis by (subst root_phases.simps) (auto simp: full_phases_def intro!: exI [of _ "[]"])
  next
    case False
    let ?n = "phase_size remaining (max_num_tiles_per_phase d)"
    let ?d = "add_sending_phase dest off data ?n d"
    note step = phase_size_step [OF False, of "max_num_tiles_per_phase d"]
    have most: "max_num_tiles_per_phase d \<noteq> 0" using less.prems False by simp
    then have "0 < unat ?n" using step(1) by (simp add: word_gt_0 unat_gt_0)
    then have "unat (remaining - ?n) < unat remaining" using step(3) [OF most] by simp
    from less.hyps [OF this, of ?d "off + 1"] most
    obtain ps d' where rec: "root_phases dest data (off + 1) (remaining - ?n) ?d = Some (off + 1 + word_of_nat (length ps), d')"
      and phases: "phases_to dest d' = phases_to dest ?d @ ps" "msgs ps = unat (remaining - ?n)"
        "full_phases data (off + 1) (max_num_tiles_per_phase d) ps"
      by auto
    let ?ps = "\<lparr>phase_offset = off, data_offset = data, num_msgs = ?n\<rparr> # ps"
    have "ps \<noteq> [] \<longrightarrow> ?n = max_num_tiles_per_phase d"
    proof
      assume "ps \<noteq> []"
      then have "0 < num_msgs (ps ! 0)" using phases(3) by (auto simp: full_phases_def)
      then have "msgs ps \<noteq> 0" using \<open>ps \<noteq> []\<close> by (cases ps) (auto simp: unat_gt_0 word_gt_0)
      then have "remaining - ?n \<noteq> 0" using phases(2) by (metis unat_0)
      then show "?n = max_num_tiles_per_phase d" by (rule step(4) [OF most])
    qed
    then have "full_phases data off (max_num_tiles_per_phase d) ?ps"
      using full_phases_Cons [OF phases(3) step(1,2) [OF most]] by simp
    moreover have "root_phases dest data off remaining d = Some (off + word_of_nat (length ?ps), d')"
      using False rec by (subst root_phases.simps) (simp add: Let_def ac_simps)
    ultimately show ?thesis
      using phases(1,2) step(3) [OF most] by (intro exI [of _ ?ps] exI [of _ d']) simp
  qed
qed

lemma root_phases_stuck:
  assumes "root_phases dest data off remaining d = Some r" and "max_num_tiles_per_phase d = 0"
  shows "remaining = 0"
  using assms(2)
proof (induction rule: root_phases.raw_induct [OF _ assms(1)])
  case (1 rec dest data off remaining d r)
  show ?case
  proof (rule ccontr)
    assume "remaining \<noteq> 0"
    moreover from this have "phase_size remaining 0 = 0" by (simp add: phase_size_def word_gt_0)
    ultimately show False using 1 by (auto simp: Let_def split: if_splits)
  qed
qed


text \<open>C8 A root appends to what it has sent to the destination the phases of its tiles, at consecutive
  phase offsets: every phase but the last has exactly the most tiles, the last at least one and at most
  so many, together they carry the tiles to send, and the number of phases is returned; but if the
  most tiles of a phase are zero and there is something to send, the loop never ends.\<close>

theorem phases_of_root:
  "if max_num_tiles_per_phase (st n) = 0 \<and> tiles_to_send (st n) \<noteq> 0
   then calculate_phases_for_root n data (Some dest) start st = None
   else \<exists>ps st'. calculate_phases_for_root n data (Some dest) start st = Some (Inr (word_of_nat (length ps), st'))
     \<and> phases_to dest (st' n) = phases_to dest (st n) @ ps
     \<and> (\<Sum>p \<leftarrow> ps. unat (num_msgs p)) = unat (tiles_to_send (st n))
     \<and> (\<forall>i < length ps. phase_offset (ps ! i) = start + word_of_nat i \<and> data_offset (ps ! i) = data
          \<and> 0 < num_msgs (ps ! i) \<and> num_msgs (ps ! i) \<le> max_num_tiles_per_phase (st n)
          \<and> (Suc i < length ps \<longrightarrow> num_msgs (ps ! i) = max_num_tiles_per_phase (st n)))"
proof (cases "max_num_tiles_per_phase (st n) = 0 \<and> tiles_to_send (st n) \<noteq> 0")
  case True
  then have "root_phases dest data start (tiles_to_send (st n)) (st n) = None"
    using root_phases_stuck by (metis option.exhaust)
  then show ?thesis using True by (simp add: calculate_phases_for_root_def)
next
  case False
  then obtain ps d' where "root_phases dest data start (tiles_to_send (st n)) (st n) = Some (start + word_of_nat (length ps), d')"
    "phases_to dest d' = phases_to dest (st n) @ ps" "msgs ps = unat (tiles_to_send (st n))"
    "full_phases data start (max_num_tiles_per_phase (st n)) ps"
    using root_phases_split by blast
  then show ?thesis unfolding if_not_P [OF False]
    by (intro exI [of _ ps] exI [of _ "at_node n (\<lambda>_. d') st"])
      (simp add: calculate_phases_for_root_def at_node_def msgs_def full_phases_def)
qed

theorem phases_of_root_witness:
  "\<exists>(ps :: PhaseInfo list) st'. calculate_phases_for_root 0 5 (Some 1) 2 (\<lambda>_. blank_df_node\<lparr>tiles_to_send := 100, max_num_tiles_per_phase := 64\<rparr>)
       = Some (Inr (word_of_nat (length ps), st')) \<and> (\<Sum>p \<leftarrow> ps. unat (num_msgs p)) = 100"
proof -
  let ?st = "\<lambda>_ :: nat. blank_df_node\<lparr>tiles_to_send := 100, max_num_tiles_per_phase := 64\<rparr>"
  have go: "\<not> (max_num_tiles_per_phase (?st 0) = 0 \<and> tiles_to_send (?st 0) \<noteq> 0)" by simp
  from phases_of_root [of ?st 0 5 1 2, unfolded if_not_P [OF go]]
  obtain ps :: "PhaseInfo list" and st' where "calculate_phases_for_root 0 5 (Some 1) 2 ?st = Some (Inr (word_of_nat (length ps), st'))"
    and "(\<Sum>p \<leftarrow> ps. unat (num_msgs p)) = unat (tiles_to_send (?st 0))"
    by blast
  moreover have "unat (tiles_to_send (?st 0)) = 100" by simp
  ultimately show ?thesis by (intro exI [of _ ps] exI [of _ st'] conjI) simp_all
qed

section \<open>Sending what is received\<close>

lemma sending_loop_phases:
  assumes "\<forall>p \<in> set ps. num_msgs p \<le> max_num_tiles_per_phase d" and "acc \<le> max_num_tiles_per_phase d"
    and "max_num_tiles_per_phase d < 2 ^ 31"
  shows "\<exists>qs. phases_to dest (sending_loop dest data ps acc off d) = phases_to dest d @ qs
    \<and> msgs qs = unat acc + msgs ps
    \<and> (\<forall>q \<in> set qs. num_msgs q \<le> max_num_tiles_per_phase d \<and> data_offset q = data
         \<and> phase_offset q \<in> insert off (phase_offset ` set ps))"
  using assms
proof (induction ps arbitrary: acc off d)
  case Nil
  then show ?case
    by (cases "acc > 0") (auto simp: word_gt_0 intro: exI [of _ "[\<lparr>phase_offset = off, data_offset = data, num_msgs = acc\<rparr>]"])
next
  case (Cons p ps)
  let ?m = "max_num_tiles_per_phase d"
  have p: "num_msgs p \<le> ?m" and ps: "\<forall>q \<in> set ps. num_msgs q \<le> ?m" using Cons.prems(1) by auto
  have sum: "unat (acc + num_msgs p) = unat acc + unat (num_msgs p)"
    using p Cons.prems(2,3) by (simp add: word_le_nat_alt word_less_nat_alt unat_plus_no_wrap)
  show ?case
  proof (cases "acc + num_msgs p > ?m")
    case True
    let ?d = "add_sending_phase dest off data acc d"
    from Cons.IH [of ?d "num_msgs p" "phase_offset p"] p ps Cons.prems(3)
    obtain qs where "phases_to dest (sending_loop dest data ps (num_msgs p) (phase_offset p) ?d) = phases_to dest ?d @ qs"
      "msgs qs = unat (num_msgs p) + msgs ps"
      "\<forall>q \<in> set qs. num_msgs q \<le> ?m \<and> data_offset q = data \<and> phase_offset q \<in> insert (phase_offset p) (phase_offset ` set ps)"
      by auto
    then show ?thesis using True Cons.prems(2)
      by (intro exI [of _ "\<lparr>phase_offset = off, data_offset = data, num_msgs = acc\<rparr> # qs"]) auto
  next
    case False
    from Cons.IH [of d "acc + num_msgs p" off] ps Cons.prems(3) False
    obtain qs where "phases_to dest (sending_loop dest data ps (acc + num_msgs p) off d) = phases_to dest d @ qs"
      "msgs qs = unat (acc + num_msgs p) + msgs ps"
      "\<forall>q \<in> set qs. num_msgs q \<le> ?m \<and> data_offset q = data \<and> phase_offset q \<in> insert off (phase_offset ` set ps)"
      by (auto simp: not_less)
    then show ?thesis using False sum by (intro exI [of _ qs]) auto
  qed
qed

text \<open>C9 The phases in which a node sends on what it has received of its current input group carry
  together exactly the tiles of the phases received, all from the given data offset, and each at the start offset
  or at the offset of a phase received; none carries more than the most tiles of a phase. This is for received
  phases within that limit, which is below \<open>2 ^ 31\<close>; a received phase above it is possible, as the lemma
  \<open>oversized_receiving_phase\<close> shows.\<close>

theorem sending_phases_conserve:
  assumes "get_current_input_group_receiving_phases (st n) = Inr received"
    and "\<forall>p \<in> set received. num_msgs p \<le> max_num_tiles_per_phase (st n)"
    and "max_num_tiles_per_phase (st n) < 2 ^ 31"
  shows "\<exists>st' sent. calculate_sending_phases n data dest start st = Inr st'
    \<and> phases_to dest (st' n) = phases_to dest (st n) @ sent
    \<and> (\<Sum>p \<leftarrow> sent. unat (num_msgs p)) = (\<Sum>p \<leftarrow> received. unat (num_msgs p))
    \<and> (\<forall>q \<in> set sent. num_msgs q \<le> max_num_tiles_per_phase (st n) \<and> data_offset q = data
         \<and> phase_offset q \<in> insert start (phase_offset ` set received))"
proof -
  have "(0 :: u32) \<le> max_num_tiles_per_phase (st n)" by simp
  from sending_loop_phases [OF assms(2) this assms(3), of dest data start]
  show ?thesis by (auto simp: calculate_sending_phases_def assms(1) at_node_def msgs_def)
qed

theorem sending_phases_conserve_witness:
  "\<exists>st'. calculate_sending_phases 0 5 1 2 (\<lambda>_. blank_df_node\<lparr>max_num_tiles_per_phase := 64,
       receiving_phases := [(0, [\<lparr>phase_offset = 2, data_offset = 0, num_msgs = 40\<rparr>,
          \<lparr>phase_offset = 3, data_offset = 0, num_msgs = 40\<rparr>])]\<rparr>) = Inr st'
     \<and> (\<Sum>p \<leftarrow> phases_to 1 (st' 0). unat (num_msgs p)) = 80"
proof -
  let ?ps = "[\<lparr>phase_offset = 2, data_offset = 0, num_msgs = 40\<rparr>, \<lparr>phase_offset = 3, data_offset = 0, num_msgs = 40\<rparr>]"
  let ?st = "\<lambda>_ :: nat. blank_df_node\<lparr>max_num_tiles_per_phase := 64, receiving_phases := [(0, ?ps)]\<rparr>"
  have "get_current_input_group_receiving_phases (?st 0) = Inr ?ps"
    by (simp add: get_current_input_group_receiving_phases_def get_current_input_group_index_def
        get_input_group_count_def is_union_def has_pipe_of_def blank_df_node_def)
  moreover have "phases_to 1 (?st 0) = []" by (simp add: phases_to_def blank_df_node_def)
  ultimately show ?thesis using sending_phases_conserve [of ?st 0 ?ps 5 1 2] by auto
qed


section \<open>The recursion\<close>

text \<open>The calculation changes only the phases of the nodes and what it remembers of their inputs.\<close>

definition erase_phases :: "DataFlowNode \<Rightarrow> DataFlowNode" where
  "erase_phases d = d\<lparr>receiving_phases := [], sending_phases := (\<lambda>_. None), current_input_group_index := 0,
     inputs_phase_offset := 0\<rparr>"

definition only_phases :: "df_state \<Rightarrow> df_state \<Rightarrow> bool" where
  "only_phases st0 st \<longleftrightarrow> (\<forall>n. erase_phases (st n) = erase_phases (st0 n))"

lemma only_phases_refl: "only_phases st st"
  by (simp add: only_phases_def)

lemma only_phases_trans: "only_phases st0 st1 \<Longrightarrow> only_phases st1 st2 \<Longrightarrow> only_phases st0 st2"
  by (simp add: only_phases_def)

lemma only_phases_at: "erase_phases d = erase_phases (st n) \<Longrightarrow> only_phases st (at_node n (\<lambda>_. d) st)"
  "erase_phases (f (st n)) = erase_phases (st n) \<Longrightarrow> only_phases st (at_node n f st)"
  by (simp_all add: only_phases_def at_node_def)

lemma only_phases_reads:
  assumes "only_phases st0 st" and "\<And>d. reads (erase_phases d) = reads d"
  shows "reads (st n) = reads (st0 n)"
  using assms unfolding only_phases_def by metis

lemma erase_changes [simp]:
  "erase_phases (add_sending_phase dest off data n d) = erase_phases d"
  "erase_phases (add_receiving_phase off n d) = erase_phases d"
  "erase_phases (move_to_next_input_group d) = erase_phases d"
  "erase_phases (inputs_phase_offset_update f d) = erase_phases d"
  by (simp_all add: erase_phases_def add_sending_phase_def add_receiving_phase_def move_to_next_input_group_def)

lemma erase_add_receiving_phases [simp]: "erase_phases (add_receiving_phases ps d) = erase_phases d"
  unfolding add_receiving_phases_def by (induction ps arbitrary: d) simp_all

lemma erase_sending_loop [simp]: "erase_phases (sending_loop dest data ps acc off d) = erase_phases d"
  by (induction dest data ps acc off d rule: sending_loop.induct) simp_all

lemma erase_root_phases:
  assumes "root_phases dest data off remaining d = Some r"
  shows "erase_phases (snd r) = erase_phases d"
proof (rule root_phases.raw_induct [OF _ assms])
  fix rec dest data off remaining d and r :: "u32 \<times> DataFlowNode"
  assume IH: "\<And>dest data off remaining d r. rec dest data off remaining d = Some r \<Longrightarrow> erase_phases (snd r) = erase_phases d"
    and run: "(if remaining = 0 then Some (off, d)
      else (let n = phase_size remaining (max_num_tiles_per_phase d) in
            rec dest data (off + 1) (remaining - n) (add_sending_phase dest off data n d))) = Some r"
  show "erase_phases (snd r) = erase_phases d"
  proof (cases "remaining = 0")
    case False
    with run show ?thesis by (auto simp: Let_def dest: IH)
  qed (use run in auto)
qed

lemma erase_update_receiving:
  "update_receiving_phases off n d = Inr d' \<Longrightarrow> erase_phases d' = erase_phases d"
  by (auto simp: update_receiving_phases_def bind_sum_Inr_iff erase_phases_def add_receiving_phase_def
      split: option.splits if_splits)

lemma erase_try_update:
  "try_update_last_sending_phase dest d = Inr (b, d') \<Longrightarrow> erase_phases d' = erase_phases d"
  by (auto simp: try_update_last_sending_phase_def erase_phases_def split: option.splits if_splits)

lemma only_phases_accumulate:
  "can_sender_accumulate n prev off sender offset st = Inr acc \<Longrightarrow> only_phases st (snd acc)"
  by (auto simp: can_sender_accumulate_def bind_sum_Inr_iff only_phases_refl
      intro!: only_phases_at(1) dest: erase_try_update split: if_splits)

lemma only_phases_receive: "receive_from n prev sender i off st = Inr st' \<Longrightarrow> only_phases st st'"
  by (auto simp: receive_from_def bind_sum_Inr_iff intro!: only_phases_at dest: erase_update_receiving
      split: if_splits)

lemma only_phases_sending: "calculate_sending_phases n data dest start st = Inr st' \<Longrightarrow> only_phases st st'"
  by (auto simp: calculate_sending_phases_def bind_sum_Inr_iff intro!: only_phases_at)

lemma only_phases_root: "calculate_phases_for_root n data dest start st = Some (Inr r) \<Longrightarrow> only_phases st (snd r)"
  by (auto simp: calculate_phases_for_root_def intro!: only_phases_at(1) dest: erase_root_phases split: option.splits)

lemma calculate_phases_only:
  assumes "calculate_phases call st = Some y"
  shows "y = Inr r \<Longrightarrow> only_phases st (snd r)"
proof (induction arbitrary: r rule: calculate_phases.raw_induct [OF _ assms])
  case (1 rec call st y)
  have rec: "only_phases st (snd r)" if "rec call st = Some (Inr r)" for call st r
    by (rule "1.IH" [OF that refl])
  show ?case
  proof (cases call)
    case (NodePhases n data dest start)
    show ?thesis
    proof (cases "is_root_node (st n)")
      case True
      then show ?thesis using "1.hyps" "1.prems" NodePhases only_phases_root by simp
    next
      case False
      let ?received = "if has_processed_all_inputs (st n) then Some (Inr st)
          else rbind (Some (get_current_inputs_to_process (st n))) (\<lambda>inputs.
               rbind (rec (ReceivePhases n inputs None 0 start) st) (\<lambda>r.
                 Some (Inr (at_node n (inputs_phase_offset_update (\<lambda>_. fst r - start)) (snd r)))))"
      let ?sent = "\<lambda>st1. case dest of None \<Rightarrow> Inr st1 | Some dst \<Rightarrow> calculate_sending_phases n data dst start st1"
      let ?moved = "\<lambda>st2. if has_processed_all_inputs (st2 n) then st2 else at_node n move_to_next_input_group st2"
      have "rbind ?received (\<lambda>st1. rbind (Some (?sent st1)) (\<lambda>st2.
          Some (Inr (inputs_phase_offset (?moved st2 n), ?moved st2)))) = Some (Inr r)"
        using "1.hyps" unfolding "1.prems" NodePhases Let_def phases_call.case if_not_P [OF False] .
      then obtain st1 st2 where st1: "?received = Some (Inr st1)" and st2: "?sent st1 = Inr st2"
        and r: "r = (inputs_phase_offset (?moved st2 n), ?moved st2)"
        unfolding rbind_Inr_iff option.inject sum.inject by blast
      have "only_phases st st1"
      proof (cases "has_processed_all_inputs (st n)")
        case True
        then show ?thesis using st1 by (simp add: only_phases_refl)
      next
        case False
        then obtain inputs r1 where "rec (ReceivePhases n inputs None 0 start) st = Some (Inr r1)"
          and at: "st1 = at_node n (inputs_phase_offset_update (\<lambda>_. fst r1 - start)) (snd r1)"
          using st1 unfolding if_not_P [OF False] rbind_Inr_iff option.inject sum.inject by blast
        then have "only_phases st (snd r1)" using rec by blast
        moreover have "only_phases (snd r1) st1" unfolding at by (rule only_phases_at(2)) simp
        ultimately show ?thesis by (rule only_phases_trans)
      qed
      moreover have "only_phases st1 st2"
        using st2 only_phases_sending by (cases dest) (auto simp: only_phases_refl)
      moreover have "only_phases st2 (snd r)"
        using only_phases_at(2) [of move_to_next_input_group st2 n] by (simp add: r only_phases_refl)
      ultimately show ?thesis by (blast intro: only_phases_trans)
    qed
  next
    case (ReceivePhases n inputs prev prev_off off)
    show ?thesis
    proof (cases inputs)
      case Nil
      then show ?thesis using "1.hyps" "1.prems" ReceivePhases by (auto simp: only_phases_refl)
    next
      case (Cons i rest)
      obtain sender offset where i: "i = (sender, offset)" by force
      have "rbind (Some (can_sender_accumulate n prev prev_off sender offset st)) (\<lambda>acc.
          rbind (if fst acc then Some (Inr (0, snd acc)) else rec (NodePhases sender offset (Some n) off) (snd acc)) (\<lambda>r1.
          rbind (Some (receive_from n prev sender (get_num_sending_phases n (st sender)) (off + fst r1) (snd r1)))
            (\<lambda>st2. rec (ReceivePhases n rest (Some sender) offset (off + fst r1)) st2))) = Some (Inr r)"
        using "1.hyps" unfolding "1.prems" ReceivePhases Cons i phases_call.case list.case prod.case .
      then obtain acc r1 st2 where acc: "can_sender_accumulate n prev prev_off sender offset st = Inr acc"
        and r1: "(if fst acc then Some (Inr (0, snd acc)) else rec (NodePhases sender offset (Some n) off) (snd acc)) = Some (Inr r1)"
        and st2: "receive_from n prev sender (get_num_sending_phases n (st sender)) (off + fst r1) (snd r1) = Inr st2"
        and rest: "rec (ReceivePhases n rest (Some sender) offset (off + fst r1)) st2 = Some (Inr r)"
        unfolding rbind_Inr_iff option.inject sum.inject by blast
      have "only_phases (snd acc) (snd r1)"
        using r1 rec by (cases "fst acc") (auto simp: only_phases_refl)
      then show ?thesis
        using only_phases_accumulate [OF acc] only_phases_receive [OF st2] rec [OF rest]
        by (blast intro: only_phases_trans)
    qed
  qed
qed

lemma current_inputs_subset: "get_current_inputs_to_process d = Inr is \<Longrightarrow> set is \<subseteq> set (df_inputs d)"
  by (auto simp: get_current_inputs_to_process_def input_range_def bind_sum_Inr_iff split: if_splits
      dest: in_set_takeD in_set_dropD)

definition roots_can_send :: "df_state \<Rightarrow> bool" where
  "roots_can_send st \<longleftrightarrow>
     (\<forall>n. is_root_node (st n) \<longrightarrow> max_num_tiles_per_phase (st n) \<noteq> 0 \<or> tiles_to_send (st n) = 0)"

lemma root_returns:
  assumes "max_num_tiles_per_phase (st n) \<noteq> 0 \<or> tiles_to_send (st n) = 0"
  shows "\<exists>r. calculate_phases_for_root n data dest start st = Some r"
proof (cases dest)
  case (Some d)
  then show ?thesis
    using root_phases_split [OF assms, of d data start] by (auto simp: calculate_phases_for_root_def)
qed (simp add: calculate_phases_for_root_def)

lemma receive_returns:
  assumes sub: "set is \<subseteq> set (df_inputs (st0 n))" and same: "only_phases st0 st"
    and senders: "\<And>m offset off st. m \<in> fst ` set (df_inputs (st0 n)) \<Longrightarrow> only_phases st0 st
      \<Longrightarrow> \<exists>r. calculate_phases (NodePhases m offset (Some n) off) st = Some r"
  shows "\<exists>r. calculate_phases (ReceivePhases n is prev prev_off off) st = Some r"
  using sub same
proof (induction "is" arbitrary: prev prev_off off st)
  case Nil
  then show ?case by (subst calculate_phases.simps) simp
next
  case (Cons i rest)
  obtain sender offset where i: "i = (sender, offset)" by force
  have sender: "sender \<in> fst ` set (df_inputs (st0 n))" using Cons.prems(1) by (force simp: i)
  have body: "calculate_phases (ReceivePhases n (i # rest) prev prev_off off) st =
      rbind (Some (can_sender_accumulate n prev prev_off sender offset st)) (\<lambda>acc.
      rbind (if fst acc then Some (Inr (0, snd acc)) else calculate_phases (NodePhases sender offset (Some n) off) (snd acc)) (\<lambda>r1.
      rbind (Some (receive_from n prev sender (get_num_sending_phases n (st sender)) (off + fst r1) (snd r1)))
        (\<lambda>st2. calculate_phases (ReceivePhases n rest (Some sender) offset (off + fst r1)) st2)))"
    by (subst calculate_phases.simps) (simp add: i)
  show ?case
    unfolding body
  proof (intro rbind_returns)
    fix acc assume acc: "Some (can_sender_accumulate n prev prev_off sender offset st) = Some (Inr acc)"
    then have "only_phases st (snd acc)" by (intro only_phases_accumulate) simp
    with Cons.prems(2) have same_acc: "only_phases st0 (snd acc)" by (rule only_phases_trans)
    then show "\<exists>r. (if fst acc then Some (Inr (0, snd acc))
        else calculate_phases (NodePhases sender offset (Some n) off) (snd acc)) = Some r"
      using senders [OF sender] by simp
    fix r1 assume r1: "(if fst acc then Some (Inr (0, snd acc))
        else calculate_phases (NodePhases sender offset (Some n) off) (snd acc)) = Some (Inr r1)"
    have "only_phases (snd acc) (snd r1)"
    proof (cases "fst acc")
      case True
      then show ?thesis using r1 by (auto simp: only_phases_refl)
    next
      case False
      then show ?thesis using calculate_phases_only [OF r1 [unfolded if_not_P [OF False]] refl] by simp
    qed
    then have same_r1: "only_phases st0 (snd r1)" using same_acc by (blast intro: only_phases_trans)
    fix st2 assume "Some (receive_from n prev sender (get_num_sending_phases n (st sender)) (off + fst r1) (snd r1)) = Some (Inr st2)"
    then have "only_phases (snd r1) st2" by (intro only_phases_receive) simp
    with same_r1 have "only_phases st0 st2" by (rule only_phases_trans)
    then show "\<exists>r. calculate_phases (ReceivePhases n rest (Some sender) offset (off + fst r1)) st2 = Some r"
      using Cons.prems(1) by (intro Cons.IH) auto
  qed simp_all
qed

text \<open>C18 On a graph whose inputs have no cycle, and whose roots have phases of at least one tile
  unless they send nothing, the calculation of the phases of a node ends, for every destination,
  offset and state of its inputs; and in the state it leaves only the phases of the nodes, their
  current input groups and their phase offsets are changed.\<close>

theorem phases_calculation_ends:
  assumes "wf {(m, n). m \<in> set (followed_inputs st n)}" and "roots_can_send st"
  shows "\<exists>r. calculate_phases (NodePhases n data dest start) st = Some r
    \<and> (\<forall>k st'. r = Inr (k, st') \<longrightarrow> (\<forall>m. erase_phases (st' m) = erase_phases (st m)))"
proof -
  have "\<exists>r. calculate_phases (NodePhases n data dest start) st1 = Some r" if "only_phases st st1" for st1
    using that
  proof (induction n arbitrary: data dest start st1 rule: wf_induct_rule [OF assms(1)])
    case (1 n)
    have read: "is_root_node (st1 n) = is_root_node (st n)" "df_inputs (st1 n) = df_inputs (st n)"
      "max_num_tiles_per_phase (st1 n) = max_num_tiles_per_phase (st n)" "tiles_to_send (st1 n) = tiles_to_send (st n)"
      by (rule only_phases_reads [OF "1.prems"], simp add: erase_phases_def is_root_node_def)+
    show ?case
    proof (cases "is_root_node (st n)")
      case True
      then have "\<exists>r. calculate_phases_for_root n data dest start st1 = Some r"
        using assms(2) by (intro root_returns) (simp add: roots_can_send_def read)
      then show ?thesis using True by (subst calculate_phases.simps) (simp add: read)
    next
      case False
      have senders: "\<exists>r. calculate_phases (NodePhases m offset (Some n) off) st2 = Some r"
        if "m \<in> fst ` set (df_inputs (st n))" "only_phases st st2" for m offset off st2
        by (rule "1.IH" [OF _ that(2)]) (use that(1) False in \<open>auto simp: followed_inputs_def\<close>)
      have "\<exists>r. calculate_phases (ReceivePhases n inputs None 0 start) st1 = Some r"
        if "get_current_inputs_to_process (st1 n) = Inr inputs" for inputs
        using current_inputs_subset [OF that] by (intro receive_returns [OF _ "1.prems" senders]) (simp add: read)
      then have "\<exists>r. (if has_processed_all_inputs (st1 n) then Some (Inr st1)
          else rbind (Some (get_current_inputs_to_process (st1 n))) (\<lambda>inputs.
               rbind (calculate_phases (ReceivePhases n inputs None 0 start) st1) (\<lambda>r.
                 Some (Inr (at_node n (inputs_phase_offset_update (\<lambda>_. fst r - start)) (snd r)))))) = Some r"
        by (cases "has_processed_all_inputs (st1 n)") (auto intro!: rbind_returns)
      then show ?thesis
        using False by (subst calculate_phases.simps) (auto simp: read Let_def intro!: rbind_returns split del: if_split)
    qed
  qed
  from this [OF only_phases_refl] obtain r where r: "calculate_phases (NodePhases n data dest start) st = Some r"
    by blast
  moreover have "only_phases st st'" if "r = Inr (k, st')" for k st'
    using calculate_phases_only [OF r that] by simp
  ultimately show ?thesis by (auto simp: only_phases_def)
qed

text \<open>A root with two phases whose buffer another node reads twice.\<close>

definition long_reads :: df_state where
  "long_reads = (\<lambda>n.
     if n = 0 then blank_df_node\<lparr>df_destinations := [1], tiles_to_send := 100, max_num_tiles_per_phase := 64\<rparr>
     else if n = 1 then blank_df_node\<lparr>df_sources := [0], df_inputs := [(0, 0), (0, 100)],
       tiles_to_send := 200, max_num_tiles_per_phase := 64, number_of_unique_df_paths := 1\<rparr>
     else blank_df_node)"

theorem phases_calculation_ends_witness:
  "\<exists>r. calculate_phases (NodePhases 1 0 None 0) long_reads = Some r"
proof -
  have "{(m, n). m \<in> set (followed_inputs long_reads n)} = {(0, 1)}"
    by (auto simp: followed_inputs_def long_reads_def blank_df_node_def is_root_node_def)
  then have "wf {(m, n). m \<in> set (followed_inputs long_reads n)}" by (simp add: wf_insert)
  moreover have "roots_can_send long_reads"
    by (simp add: roots_can_send_def long_reads_def blank_df_node_def)
  ultimately show ?thesis using phases_calculation_ends [of long_reads 1 0 None 0] by blast
qed

section \<open>Two phases that are not as they are meant to be\<close>

text \<open>
  A node that reads more than a phase from one sender, again: the sender makes two new phases, but the
  receiver one only, which is larger than the most tiles of a phase.
\<close>

lemma oversized_receiving_phase:
  "(case calculate_phases (NodePhases 1 0 None 0) long_reads of
      Some (Inr (k, st)) \<Rightarrow> map num_msgs (phases_to 1 (st 0)) = [64, 36, 64, 36]
        \<and> map num_msgs (get_receiving_phases_for_all_input_groups (st 1)) = [64, 36, 100]
        \<and> max_num_tiles_per_phase (st 1) = 64
    | _ \<Rightarrow> False)"
  by code_simp

text \<open>What is received is kept under the number of the visit; the entries of other numbers stay.\<close>

definition received_more :: "DataFlowNode \<Rightarrow> DataFlowNode \<Rightarrow> bool" where
  "received_more d d' \<longleftrightarrow> (\<exists>gs. d' = d\<lparr>receiving_phases := gs\<rparr>
     \<and> (\<forall>j. j \<noteq> current_input_group_index d \<longrightarrow> map_of gs j = map_of (receiving_phases d) j))"

lemma received_more_refl: "received_more d d"
  unfolding received_more_def by (rule exI [of _ "receiving_phases d"]) simp

lemma received_more_trans:
  assumes "received_more d d'" and "received_more d' d''"
  shows "received_more d d''"
  using assms by (auto simp: received_more_def)

lemma update_group_others: "g \<noteq> h \<Longrightarrow> map_of (update_group g f gs) h = map_of gs h"
  by (induction g f gs rule: update_group.induct) auto

lemma received_more_group:
  "received_more d (d\<lparr>receiving_phases := update_group (current_input_group_index d) f (receiving_phases d)\<rparr>)"
  unfolding received_more_def
  by (rule exI [of _ "update_group (current_input_group_index d) f (receiving_phases d)"]) (simp add: update_group_others)

lemma received_more_add: "received_more d (add_receiving_phase off n d)"
  unfolding add_receiving_phase_def by (rule received_more_group)

lemma received_more_adds: "received_more d (add_receiving_phases ps d)"
  unfolding add_receiving_phases_def
proof (induction ps arbitrary: d)
  case (Cons p ps)
  show ?case by (simp, rule received_more_trans [OF received_more_add Cons.IH])
qed (simp add: received_more_refl)

lemma received_more_update: "update_receiving_phases off n d = Inr d' \<Longrightarrow> received_more d d'"
  by (auto simp: update_receiving_phases_def bind_sum_Inr_iff received_more_group received_more_add
      split: option.splits if_splits)

lemma received_more_from:
  assumes "receive_from n prev sender first_phase off st = Inr st'"
  shows "received_more (st n) (st' n)"
  using assms by (auto simp: receive_from_def bind_sum_Inr_iff at_node_def received_more_adds received_more_update
      split: if_splits)

lemma add_sending_phase_received:
  "add_sending_phase dest off data n (d\<lparr>receiving_phases := gs\<rparr>) = (add_sending_phase dest off data n d)\<lparr>receiving_phases := gs\<rparr>"
  by (simp add: add_sending_phase_def)

lemma sending_loop_received:
  "sending_loop dest data ps acc off (d\<lparr>receiving_phases := gs\<rparr>) = (sending_loop dest data ps acc off d)\<lparr>receiving_phases := gs\<rparr>"
  by (induction dest data ps acc off d rule: sending_loop.induct) (simp_all add: add_sending_phase_received)

lemma phases_to_received [simp]: "phases_to dest (d\<lparr>receiving_phases := gs\<rparr>) = phases_to dest d"
  by (simp add: phases_to_def)

text \<open>C30 A node that is visited more often than it has input groups does not send what it receives in such a
  visit. What it receives is kept under the number of the visit, but what it sends is read under that number
  modulo the number of groups: whatever the visit receives, and from whichever senders, the phases sent are
  made of those kept under the number of an earlier visit. They carry the tiles of that visit, at the start
  offset and its phase offsets.\<close>

theorem later_visits_send_old_phases:
  assumes "get_input_group_count (st n) \<noteq> 0" and "get_input_group_count (st n) \<le> current_input_group_index (st n)"
    and "earlier = current_input_group_index (st n) mod get_input_group_count (st n)"
    and "map_of (receiving_phases (st n)) earlier = Some old"
    and "\<forall>p \<in> set old. num_msgs p \<le> max_num_tiles_per_phase (st n)" and "max_num_tiles_per_phase (st n) < 2 ^ 31"
    and "fold_sum (\<lambda>(prev, sender, first_phase, off). receive_from n prev sender first_phase off) receptions st = Inr st1"
  shows "earlier < current_input_group_index (st n)
    \<and> (\<exists>st2 sent. calculate_sending_phases n data dest start st1 = Inr st2
         \<and> phases_to dest (st2 n) = phases_to dest (st n) @ sent
         \<and> phases_to dest (sending_loop dest data old 0 start (st n)) = phases_to dest (st n) @ sent
         \<and> (\<Sum>p \<leftarrow> sent. unat (num_msgs p)) = (\<Sum>p \<leftarrow> old. unat (num_msgs p))
         \<and> (\<forall>q \<in> set sent. phase_offset q \<in> insert start (phase_offset ` set old)))"
proof -
  have "earlier < get_input_group_count (st n)"
    unfolding assms(3) using assms(1) by (simp add: word_mod_less_divisor word_gt_0)
  then have less: "earlier < current_input_group_index (st n)" using assms(2) by simp
  have "received_more (st n) (st1 n)"
    by (rule fold_sum_invariant [where P = "\<lambda>t. received_more (st n) (t n)", OF _ received_more_refl assms(7)])
      (auto dest: received_more_from intro: received_more_trans)
  then obtain gs where gs: "st1 n = (st n)\<lparr>receiving_phases := gs\<rparr>" "map_of gs earlier = Some old"
    using less assms(4) by (auto simp: received_more_def)
  have count: "get_input_group_count ((st n)\<lparr>receiving_phases := gs\<rparr>) = get_input_group_count (st n)"
    by (simp add: get_input_group_count_def is_union_def has_pipe_of_def)
  have "get_current_input_group_receiving_phases (st1 n) = Inr old"
    using assms(1,3) gs(2)
    by (simp add: gs(1) get_current_input_group_receiving_phases_def get_current_input_group_index_def count)
  then have run: "calculate_sending_phases n data dest start st1
      = Inr (at_node n (\<lambda>_. (sending_loop dest data old 0 start (st n))\<lparr>receiving_phases := gs\<rparr>) st1)"
    by (simp add: calculate_sending_phases_def at_node_def gs(1) sending_loop_received)
  have "(0 :: u32) \<le> max_num_tiles_per_phase (st n)" by simp
  from sending_loop_phases [OF assms(5) this assms(6), of dest data start] less
  show ?thesis unfolding run by (auto simp: at_node_def msgs_def)
qed

text \<open>A node with one input group that is visited for the second time: of the 36 tiles kept under the first
  visit and 20 received now it sends the 36 again.\<close>

definition visited_again :: df_state where
  "visited_again = (\<lambda>n.
     if n = 0 then blank_df_node\<lparr>current_input_group_index := 1, max_num_tiles_per_phase := 64,
       receiving_phases := [(0, [\<lparr>phase_offset = 1, data_offset = 0, num_msgs = 36\<rparr>])]\<rparr>
     else blank_df_node\<lparr>sending_phases := [0 \<mapsto> [\<lparr>phase_offset = 3, data_offset = 0, num_msgs = 20\<rparr>]]\<rparr>)"

theorem later_visits_send_old_phases_witness:
  "\<exists>st1 st2. receive_from 0 None 1 0 4 visited_again = Inr st1
     \<and> map_of (receiving_phases (st1 0)) 1 = Some [\<lparr>phase_offset = 3, data_offset = 0, num_msgs = 20\<rparr>]
     \<and> calculate_sending_phases 0 5 2 4 st1 = Inr st2 \<and> (\<Sum>p \<leftarrow> phases_to 2 (st2 0). unat (num_msgs p)) = 36"
proof -
  let ?old = "[\<lparr>phase_offset = 1, data_offset = 0, num_msgs = 36\<rparr>]"
  have d: "get_input_group_count (visited_again 0) = 1" "current_input_group_index (visited_again 0) = 1"
    "map_of (receiving_phases (visited_again 0)) 0 = Some ?old" "max_num_tiles_per_phase (visited_again 0) = 64"
    "phases_to 2 (visited_again 0) = []"
    by (simp_all add: visited_again_def get_input_group_count_def is_union_def has_pipe_of_def blank_df_node_def phases_to_def)
  obtain st1 where st1: "receive_from 0 None 1 0 4 visited_again = Inr st1"
    "map_of (receiving_phases (st1 0)) 1 = Some [\<lparr>phase_offset = 3, data_offset = 0, num_msgs = 20\<rparr>]"
    by (simp add: receive_from_def visited_again_def get_sending_phases_def at_node_def add_receiving_phases_def
        add_receiving_phase_def blank_df_node_def)
  have "fold_sum (\<lambda>(prev, sender, first_phase, off). receive_from 0 prev sender first_phase off) [(None, 1, 0, 4)] visited_again = Inr st1"
    using st1(1) by simp
  from later_visits_send_old_phases [OF _ _ _ d(3) _ _ this, of 5 2 4] d st1 show ?thesis by auto
qed

end
