(* ===== verification/LeafGroups.thy ===== *)
theory LeafGroups
  imports DataFlowGraphs
begin

text \<open>
  The groups of leaves that get the same phases
  (\<open>data_flow_calculator/subgraph_leaf_groups_finder.cpp\<close>, \<open>subgraph_leaf_groups_finder_internal.cpp\<close>,
  \<open>model/data_flow/subgraph_leaf_groups.cpp\<close>). A subgraph is numbered in the order the search leaves
  a node with the parallel data flow type; in a subgraph the leaves are grouped by the serial fork
  output on their path. The recursions do not mark nodes first, so a cyclic graph may be \<open>None\<close>.
\<close>

section \<open>The groups\<close>

type_synonym subgraph_leaves = "u32 \<rightharpoonup> nat set list"

definition new_leaf_group_order :: "u32 \<Rightarrow> nat set list" where
  "new_leaf_group_order paths = replicate (unat paths) {}"

definition new_subgraph_leaf_groups :: "(u32 \<rightharpoonup> u32) \<Rightarrow> subgraph_leaves" where
  "new_subgraph_leaf_groups paths k = map_option new_leaf_group_order (paths k)"

text \<open>An index of the vector that is out of range is undefined behaviour, here an error.\<close>

definition add_to_group :: "nat \<Rightarrow> u32 \<Rightarrow> nat set list \<Rightarrow> df_error + nat set list" where
  "add_to_group leaf idx gs =
     (if unat idx < length gs then Inr (gs[unat idx := insert leaf (gs ! unat idx)]) else Inl DfOutOfRange)"

definition add_leaf_node :: "DataFlowNode \<Rightarrow> nat \<Rightarrow> u32 \<Rightarrow> subgraph_leaves \<Rightarrow> df_error + subgraph_leaves" where
  "add_leaf_node d leaf idx groups =
     (case groups (word_of_int (leaf_subgraph_id d)) of
        None \<Rightarrow> Inl DfOutOfRange
      | Some gs \<Rightarrow> bind_sum (add_to_group leaf idx gs)
                     (\<lambda>gs'. Inr (groups(word_of_int (leaf_subgraph_id d) \<mapsto> gs'))))"

section \<open>Numbering the subgraphs\<close>

record subgraph_search =
  searched :: df_state
  next_subgraph_id :: int
  max_root_to_leaf_paths :: "u32 \<rightharpoonup> u32"

definition start_search :: "df_state \<Rightarrow> subgraph_search" where
  "start_search st = \<lparr>searched = st, next_subgraph_id = 0, max_root_to_leaf_paths = (\<lambda>_. None)\<rparr>"

definition enter_node :: "nat \<Rightarrow> subgraph_search \<Rightarrow> subgraph_search" where
  "enter_node n s =
     (let k = word_of_int (next_subgraph_id s);
          old = (case max_root_to_leaf_paths s k of None \<Rightarrow> 0 | Some p \<Rightarrow> p)
      in s\<lparr>searched := at_node n (leaf_subgraph_id_update (\<lambda>_. next_subgraph_id s)) (searched s),
           max_root_to_leaf_paths := (max_root_to_leaf_paths s)(k \<mapsto>
             max (get_num_root_to_leaf_paths_in_subgraph (searched s n)) old)\<rparr>)"

definition leave_node :: "nat \<Rightarrow> subgraph_search \<Rightarrow> subgraph_search" where
  "leave_node n s =
     (if get_dataflow_type (searched s n) = Parallel then s\<lparr>next_subgraph_id := next_subgraph_id s + 1\<rparr> else s)"

partial_function (option) find_leaf_subgraphs :: "nat list \<Rightarrow> subgraph_search \<Rightarrow> subgraph_search option" where
  "find_leaf_subgraphs ns s =
     (case ns of [] \<Rightarrow> Some s
      | n # ms \<Rightarrow>
          if has_assigned_leaf_subgraph_id (searched s n) then find_leaf_subgraphs ms s
          else Option.bind (find_leaf_subgraphs (df_destinations (searched s n)) (enter_node n s))
                 (\<lambda>s1. find_leaf_subgraphs ms (leave_node n s1)))"

declare find_leaf_subgraphs.simps [code]

section \<open>Grouping the leaves\<close>

definition did_process_node_subtree :: "df_state \<Rightarrow> (nat \<Rightarrow> u32) \<Rightarrow> nat \<Rightarrow> bool" where
  "did_process_node_subtree st visits n \<longleftrightarrow> visits n \<ge> number_of_unique_df_paths (st n)"

partial_function (option) find_leaf_groups_per_subgraph ::
  "df_state \<Rightarrow> nat list \<Rightarrow> u32 \<Rightarrow> (nat \<Rightarrow> u32) \<times> subgraph_leaves
    \<Rightarrow> (df_error + (nat \<Rightarrow> u32) \<times> subgraph_leaves) option" where
  "find_leaf_groups_per_subgraph st ns path_index vg =
     (case ns of [] \<Rightarrow> Some (Inr vg)
      | n # ms \<Rightarrow>
          rbind (if did_process_node_subtree st (fst vg) n then Some (Inr vg)
                 else let visits = (fst vg)(n := fst vg n + 1) in
                      if is_leaf_node (st n)
                      then if \<not> has_assigned_leaf_subgraph_id (st n) then Some (Inl DfAssert)
                           else Some (bind_sum (add_leaf_node (st n) n path_index (snd vg)) (\<lambda>gs. Inr (visits, gs)))
                      else find_leaf_groups_per_subgraph st (df_destinations (st n))
                             (case get_root_to_leaf_path_index (st n) of None \<Rightarrow> path_index | Some k \<Rightarrow> k)
                             (visits, snd vg))
            (find_leaf_groups_per_subgraph st ms path_index))"

declare find_leaf_groups_per_subgraph.simps [code]

definition find_leaf_groups :: "nat list \<Rightarrow> df_state \<Rightarrow> (df_error + subgraph_leaves \<times> df_state) option" where
  "find_leaf_groups roots st =
     rbind (map_option Inr (find_leaf_subgraphs roots
              (start_search st))) (\<lambda>s.
     rbind (find_leaf_groups_per_subgraph (searched s) roots 0
              (\<lambda>_. 0, new_subgraph_leaf_groups (max_root_to_leaf_paths s)))
       (\<lambda>vg. Some (Inr (snd vg, searched s))))"

section \<open>Every node that is reached gets a subgraph\<close>

text \<open>
  What a search keeps: the edges, the ids that are there and the subgraphs that have groups; and what
  holds of the nodes it numbers: their destinations are numbered and their subgraph has groups.
\<close>

definition numbered :: "subgraph_search \<Rightarrow> nat set" where
  "numbered s = {n. has_assigned_leaf_subgraph_id (searched s n)}"

definition numbers_more :: "subgraph_search \<Rightarrow> subgraph_search \<Rightarrow> bool" where
  "numbers_more s t \<longleftrightarrow> (\<forall>n. df_destinations (searched t n) = df_destinations (searched s n))
     \<and> (0 \<le> next_subgraph_id s \<longrightarrow> 0 \<le> next_subgraph_id t)
     \<and> numbered s \<subseteq> numbered t \<and> dom (max_root_to_leaf_paths s) \<subseteq> dom (max_root_to_leaf_paths t)
     \<and> (\<forall>n \<in> numbered s. leaf_subgraph_id (searched t n) = leaf_subgraph_id (searched s n))"

definition numbered_node :: "subgraph_search \<Rightarrow> nat \<Rightarrow> bool" where
  "numbered_node t n \<longleftrightarrow> n \<in> numbered t \<and> set (df_destinations (searched t n)) \<subseteq> numbered t
     \<and> word_of_int (leaf_subgraph_id (searched t n)) \<in> dom (max_root_to_leaf_paths t)"

lemma numbers_more_refl: "numbers_more s s"
  by (simp add: numbers_more_def)

lemma numbers_more_trans: "numbers_more s t \<Longrightarrow> numbers_more t u \<Longrightarrow> numbers_more s u"
  unfolding numbers_more_def by (metis (no_types, lifting) order_trans subsetD)

lemma numbered_node_more: "numbered_node s n \<Longrightarrow> numbers_more s t \<Longrightarrow> numbered_node t n"
  by (auto simp: numbered_node_def numbers_more_def subset_iff)

lemma enter_numbers:
  assumes "n \<notin> numbered s" and "0 \<le> next_subgraph_id s"
  shows "numbers_more s (enter_node n s)" and "numbered (enter_node n s) = insert n (numbered s)"
    and "word_of_int (leaf_subgraph_id (searched (enter_node n s) n)) \<in> dom (max_root_to_leaf_paths (enter_node n s))"
  using assms by (auto simp: numbers_more_def numbered_def enter_node_def Let_def at_node_def
      has_assigned_leaf_subgraph_id_def)

lemma leave_numbers: "numbers_more s (leave_node n s)" "numbered (leave_node n s) = numbered s"
  by (auto simp: numbers_more_def numbered_def leave_node_def)

lemma subgraphs_numbered:
  assumes "find_leaf_subgraphs ns s = Some t"
  shows "0 \<le> next_subgraph_id s \<Longrightarrow>
    numbers_more s t \<and> set ns \<subseteq> numbered t \<and> (\<forall>n \<in> numbered t - numbered s. numbered_node t n)"
proof (induction rule: find_leaf_subgraphs.raw_induct [OF _ assms])
  case (1 rec ns s t)
  show ?case
  proof (cases ns)
    case Nil
    then show ?thesis using "1.hyps" by (simp add: numbers_more_refl)
  next
    case (Cons n ms)
    show ?thesis
    proof (cases "n \<in> numbered s")
      case True
      then have "rec ms s = Some t" using "1.hyps" Cons by (simp add: numbered_def)
      from "1.IH" [OF this "1.prems"] True show ?thesis by (auto simp: Cons numbers_more_def)
    next
      case False
      then obtain s1 where s1: "rec (df_destinations (searched s n)) (enter_node n s) = Some s1"
        and t: "rec ms (leave_node n s1) = Some t"
        using "1.hyps" Cons by (auto simp: numbered_def bind_eq_Some_conv)
      note enter = enter_numbers [OF False "1.prems"]
      have IH1: "numbers_more (enter_node n s) s1" "set (df_destinations (searched s n)) \<subseteq> numbered s1"
        "\<forall>k \<in> numbered s1 - insert n (numbered s). numbered_node s1 k"
        using "1.IH" [OF s1] enter "1.prems" by (auto simp: numbers_more_def)
      have to_s1: "numbers_more s s1" using enter(1) IH1(1) by (rule numbers_more_trans)
      have IH2: "numbers_more (leave_node n s1) t" "set ms \<subseteq> numbered t"
        "\<forall>k \<in> numbered t - numbered s1. numbered_node t k"
        using "1.IH" [OF t] leave_numbers [where s = s1 and n = n] to_s1 "1.prems" by (auto simp: numbers_more_def)
      have s1_t: "numbers_more s1 t" using leave_numbers(1) IH2(1) by (rule numbers_more_trans)
      have n_new: "n \<in> numbered (enter_node n s)" using enter(2) by simp
      have "numbered_node s1 n"
        unfolding numbered_node_def
      proof (intro conjI)
        show "n \<in> numbered s1" using n_new IH1(1) by (auto simp: numbers_more_def)
        show "set (df_destinations (searched s1 n)) \<subseteq> numbered s1"
          using IH1(2) to_s1 by (simp add: numbers_more_def)
        show "word_of_int (leaf_subgraph_id (searched s1 n)) \<in> dom (max_root_to_leaf_paths s1)"
          using n_new enter(3) IH1(1) unfolding numbers_more_def by (metis subsetD)
      qed
      then have "numbered_node s1 k" if "k \<in> numbered s1 - numbered s" for k
        using that IH1(3) by (cases "k = n") auto
      then have "numbered_node t k" if "k \<in> numbered t - numbered s" for k
        using that IH2(3) numbered_node_more [OF _ s1_t] by (cases "k \<in> numbered s1") auto
      moreover have "numbers_more s t" using to_s1 s1_t by (rule numbers_more_trans)
      moreover have "set ns \<subseteq> numbered t"
        using IH2(2) n_new IH1(1) s1_t by (auto simp: Cons numbers_more_def)
      ultimately show ?thesis by blast
    qed
  qed
qed

lemma numbers_more_card: "numbers_more s t \<Longrightarrow> finite R \<Longrightarrow> card (R - numbered t) \<le> card (R - numbered s)"
  by (rule card_mono) (auto simp: numbers_more_def)

lemma subgraph_search_returns:
  assumes "finite R" and "set ns \<subseteq> R" and "\<forall>n \<in> R. set (df_destinations (searched s n)) \<subseteq> R"
    and "0 \<le> next_subgraph_id s"
  shows "\<exists>t. find_leaf_subgraphs ns s = Some t"
  using assms(2-)
proof (induction "card (R - numbered s)" arbitrary: ns s rule: less_induct)
  case less
  note outer = less
  show ?case
    using less.prems
  proof (induction ns)
    case Nil
    show ?case by (subst find_leaf_subgraphs.simps) simp
  next
    case (Cons n ms)
    show ?case
    proof (cases "n \<in> numbered s")
      case True
      then show ?thesis
        using Cons by (subst find_leaf_subgraphs.simps) (simp add: numbered_def)
    next
      case False
      note enter = enter_numbers [OF False Cons.prems(3)]
      have smaller: "card (R - numbered (enter_node n s)) < card (R - numbered s)"
        using False Cons.prems(1) assms(1) unfolding enter(2) by (intro psubset_card_mono) auto
      have "\<exists>s1. find_leaf_subgraphs (df_destinations (searched s n)) (enter_node n s) = Some s1"
        using enter(1) Cons.prems by (intro outer(1) [OF smaller]) (auto simp: numbers_more_def)
      then obtain s1 where s1: "find_leaf_subgraphs (df_destinations (searched s n)) (enter_node n s) = Some s1" ..
      have more: "numbers_more (enter_node n s) s1"
        using subgraphs_numbered [OF s1] enter(1) Cons.prems(3) by (simp add: numbers_more_def)
      have all: "numbers_more s (leave_node n s1)"
        by (rule numbers_more_trans [OF enter(1) numbers_more_trans [OF more leave_numbers(1)]])
      have "card (R - numbered (leave_node n s1)) < card (R - numbered s)"
        using numbers_more_card [OF more assms(1)] smaller leave_numbers(2) by simp
      then have "\<exists>t. find_leaf_subgraphs ms (leave_node n s1) = Some t"
        using all Cons.prems by (intro outer(1)) (auto simp: numbers_more_def)
      then show ?thesis
        using False s1 by (subst find_leaf_subgraphs.simps) (auto simp: numbered_def)
    qed
  qed
qed

text \<open>C29 If a root reaches finitely many nodes and none of them has an id yet, the numbering of the
  subgraphs ends, cycles or not; then every node that is reached has an id, the edges are as before,
  and the subgraph of every such node has its vector of leaf groups, so that adding a leaf to the groups
  of its subgraph never misses the subgraph.\<close>

theorem reached_nodes_have_leaf_groups:
  assumes "finite (reachable (\<lambda>n. df_destinations (st n)) roots)"
    and "\<forall>n \<in> reachable (\<lambda>n. df_destinations (st n)) roots. \<not> has_assigned_leaf_subgraph_id (st n)"
  shows "\<exists>t. find_leaf_subgraphs roots (start_search st) = Some t
    \<and> (\<forall>n. df_destinations (searched t n) = df_destinations (st n))
    \<and> (\<forall>n \<in> reachable (\<lambda>n. df_destinations (st n)) roots. has_assigned_leaf_subgraph_id (searched t n)
         \<and> (\<exists>gs. new_subgraph_leaf_groups (max_root_to_leaf_paths t)
                   (word_of_int (leaf_subgraph_id (searched t n))) = Some gs))"
proof -
  let ?next = "\<lambda>n. df_destinations (st n)" and ?s = "start_search st"
  have start: "searched ?s = st" "0 \<le> next_subgraph_id ?s" by (simp_all add: start_search_def)
  have "set roots \<subseteq> reachable ?next roots" by auto
  moreover have "\<forall>n \<in> reachable ?next roots. set (?next n) \<subseteq> reachable ?next roots"
    using reachable_closed by fast
  ultimately obtain t where t: "find_leaf_subgraphs roots ?s = Some t"
    using subgraph_search_returns [OF assms(1), of roots ?s] start by auto
  have more: "numbers_more ?s t" "set roots \<subseteq> numbered t"
    and ok: "\<And>n. n \<in> numbered t \<Longrightarrow> n \<notin> numbered ?s \<Longrightarrow> numbered_node t n"
    using subgraphs_numbered [OF t start(2)] by auto
  have edges: "df_destinations (searched t n) = ?next n" for n
    using more(1) by (simp add: numbers_more_def start)
  have fresh: "n \<notin> numbered ?s" if "n \<in> reachable ?next roots" for n
    using assms(2) that by (simp add: numbered_def start)
  have "reachable ?next roots \<subseteq> numbered t \<inter> reachable ?next roots"
  proof (rule reachable_least)
    show "set roots \<subseteq> numbered t \<inter> reachable ?next roots" using more(2) by auto
    fix n assume n: "n \<in> numbered t \<inter> reachable ?next roots"
    then have "set (?next n) \<subseteq> numbered t"
      using ok fresh by (auto simp: numbered_node_def edges)
    then show "set (?next n) \<subseteq> numbered t \<inter> reachable ?next roots"
      using n reachable_closed by fast
  qed
  then have "numbered_node t n" if "n \<in> reachable ?next roots" for n
    using that ok fresh by blast
  then show ?thesis
    using t edges by (auto simp: numbered_node_def numbered_def new_subgraph_leaf_groups_def)
qed

theorem reached_nodes_have_leaf_groups_witness:
  "\<exists>t. find_leaf_subgraphs [0] (start_search (\<lambda>n. if n = 0 then blank_df_node\<lparr>df_destinations := [1]\<rparr> else blank_df_node)) = Some t
     \<and> has_assigned_leaf_subgraph_id (searched t 1)"
proof -
  let ?st = "\<lambda>n :: nat. if n = 0 then blank_df_node\<lparr>df_destinations := [1]\<rparr> else blank_df_node"
  let ?next = "\<lambda>n. df_destinations (?st n)"
  have "reachable ?next [1] = {1}" by (subst reachable_unfold) (simp add: blank_df_node_def)
  then have "reachable ?next [0] = {0, 1}" by (subst reachable_unfold) simp
  moreover have "\<not> has_assigned_leaf_subgraph_id (?st n)" for n
    by (simp add: has_assigned_leaf_subgraph_id_def blank_df_node_def)
  ultimately show ?thesis using reached_nodes_have_leaf_groups [of ?st "[0]"] by auto
qed

end
