(* ===== verification/DataFlowCalculator.thy ===== *)
theory DataFlowCalculator
  imports Transfers LeafGroups
begin

text \<open>
  The data flow calculator (\<open>data_flow_calculator/data_flow_calculator.cpp\<close>,
  \<open>data_flow_calculator_internal.cpp\<close>) puts the calculations of a data flow graph together and
  collects their results in a \<open>DataFlowInfo\<close> (\<open>model/data_flow/data_flow_info.cpp\<close>). The nodes of a
  graph are a hash set, gone through in the order \<open>set_order\<close>.
\<close>

section \<open>Data flow info\<close>

text \<open>A pipe is the address of it, which the node it leads into has; \<open>None\<close> is the null pointer.\<close>

record DataFlowInfo =
  node_2_pipe_edges :: "nat \<times> nat option \<rightharpoonup> PhaseInfo list"
  pipe_2_node_edges :: "nat option \<times> nat \<rightharpoonup> PhaseInfo list"
  node_2_max_num_tiles_per_phase :: "nat \<rightharpoonup> u32"
  node_2_msgs_to_send :: "nat \<rightharpoonup> u32"
  pipe_2_num_iterations_in_epoch :: "nat option \<rightharpoonup> u32"
  pipe_2_subtree_divisor :: "nat option \<rightharpoonup> u32"

definition no_data_flow_info :: DataFlowInfo where
  "no_data_flow_info = \<lparr>node_2_pipe_edges = (\<lambda>_. None), pipe_2_node_edges = (\<lambda>_. None),
     node_2_max_num_tiles_per_phase = (\<lambda>_. None), node_2_msgs_to_send = (\<lambda>_. None),
     pipe_2_num_iterations_in_epoch = (\<lambda>_. None), pipe_2_subtree_divisor = (\<lambda>_. None)\<rparr>"

text \<open>\<open>emplace\<close> and \<open>insert\<close> leave an entry that is there.\<close>

definition emplace_entry :: "'k \<Rightarrow> 'v \<Rightarrow> ('k \<rightharpoonup> 'v) \<Rightarrow> 'k \<rightharpoonup> 'v" where
  "emplace_entry k v m = (case m k of None \<Rightarrow> m(k \<mapsto> v) | Some _ \<Rightarrow> m)"

definition merge_entries :: "('k \<rightharpoonup> 'v) \<Rightarrow> ('k \<rightharpoonup> 'v) \<Rightarrow> 'k \<rightharpoonup> 'v" where
  "merge_entries m other = (\<lambda>k. case m k of None \<Rightarrow> other k | Some v \<Rightarrow> Some v)"

definition merge_data_flow_info :: "DataFlowInfo \<Rightarrow> DataFlowInfo \<Rightarrow> DataFlowInfo" where
  "merge_data_flow_info i other =
     \<lparr>node_2_pipe_edges = merge_entries (node_2_pipe_edges i) (node_2_pipe_edges other),
      pipe_2_node_edges = merge_entries (pipe_2_node_edges i) (pipe_2_node_edges other),
      node_2_max_num_tiles_per_phase =
        merge_entries (node_2_max_num_tiles_per_phase i) (node_2_max_num_tiles_per_phase other),
      node_2_msgs_to_send = merge_entries (node_2_msgs_to_send i) (node_2_msgs_to_send other),
      pipe_2_num_iterations_in_epoch =
        merge_entries (pipe_2_num_iterations_in_epoch i) (pipe_2_num_iterations_in_epoch other),
      pipe_2_subtree_divisor = merge_entries (pipe_2_subtree_divisor i) (pipe_2_subtree_divisor other)\<rparr>"

definition set_node_pipe_phases :: "nat \<Rightarrow> nat option \<Rightarrow> PhaseInfo list \<Rightarrow> DataFlowInfo \<Rightarrow> DataFlowInfo" where
  "set_node_pipe_phases n p ps i = i\<lparr>node_2_pipe_edges := emplace_entry (n, p) ps (node_2_pipe_edges i)\<rparr>"

definition set_pipe_node_phases :: "nat option \<Rightarrow> nat \<Rightarrow> PhaseInfo list \<Rightarrow> DataFlowInfo \<Rightarrow> DataFlowInfo" where
  "set_pipe_node_phases p n ps i = i\<lparr>pipe_2_node_edges := emplace_entry (p, n) ps (pipe_2_node_edges i)\<rparr>"

text \<open>The getters assert that there is an entry.\<close>

definition get_entry :: "('k \<rightharpoonup> 'v) \<Rightarrow> 'k \<Rightarrow> df_error + 'v" where
  "get_entry m k = (case m k of None \<Rightarrow> Inl DfAssert | Some v \<Rightarrow> Inr v)"

definition get_node_pipe_phases :: "DataFlowInfo \<Rightarrow> nat \<Rightarrow> nat option \<Rightarrow> df_error + PhaseInfo list" where
  "get_node_pipe_phases i n p = get_entry (node_2_pipe_edges i) (n, p)"

definition get_pipe_node_phases :: "DataFlowInfo \<Rightarrow> nat option \<Rightarrow> nat \<Rightarrow> df_error + PhaseInfo list" where
  "get_pipe_node_phases i p n = get_entry (pipe_2_node_edges i) (p, n)"

definition get_max_num_tiles_per_phase :: "DataFlowInfo \<Rightarrow> nat \<Rightarrow> df_error + u32" where
  "get_max_num_tiles_per_phase i n = get_entry (node_2_max_num_tiles_per_phase i) n"

definition get_tiles_to_send :: "DataFlowInfo \<Rightarrow> nat \<Rightarrow> df_error + u32" where
  "get_tiles_to_send i n = get_entry (node_2_msgs_to_send i) n"

definition get_num_iterations_in_epoch :: "DataFlowInfo \<Rightarrow> nat option \<Rightarrow> df_error + u32" where
  "get_num_iterations_in_epoch i p = get_entry (pipe_2_num_iterations_in_epoch i) p"

definition get_subtree_divisor :: "DataFlowInfo \<Rightarrow> nat option \<Rightarrow> df_error + u32" where
  "get_subtree_divisor i p = get_entry (pipe_2_subtree_divisor i) p"

section \<open>Roots and leaves\<close>

definition find_root_nodes :: "nat list \<Rightarrow> df_state \<Rightarrow> df_error + nat list" where
  "find_root_nodes ns st =
     (if \<exists>n \<in> set ns. is_isolated_node (st n) then Inl DfAssert
      else Inr (filter (\<lambda>n. is_root_node (st n) \<and> \<not> is_padding (st n)) ns
                @ filter (\<lambda>n. is_root_node (st n) \<and> is_padding (st n)) ns))"

definition find_leaf_nodes :: "nat list \<Rightarrow> df_state \<Rightarrow> df_error + nat list" where
  "find_leaf_nodes ns st =
     (if \<exists>n \<in> set ns. is_isolated_node (st n) then Inl DfAssert
      else Inr (filter (\<lambda>n. is_leaf_node (st n)) ns))"

section \<open>The calculation\<close>

definition pipe_into :: "df_state \<Rightarrow> nat \<Rightarrow> nat option" where
  "pipe_into st n = input_pipe (df_rg_node (st n))"

definition info_of_node :: "df_state \<Rightarrow> nat \<Rightarrow> DataFlowInfo \<Rightarrow> df_error + DataFlowInfo" where
  "info_of_node st n i =
     bind_sum (fold_sum (\<lambda>dest i. bind_sum (get_sending_phases dest (st n))
                           (\<lambda>ps. Inr (set_node_pipe_phases n (pipe_into st dest) ps i)))
                 (df_destinations (st n)) i)
       (\<lambda>i1. let p = pipe_into st n;
                 i2 = (if is_root_node (st n) then i1
                       else (set_pipe_node_phases p n (get_receiving_phases_for_all_input_groups (st n)) i1)
                         \<lparr>pipe_2_num_iterations_in_epoch :=
                            (pipe_2_num_iterations_in_epoch i1)(p \<mapsto> num_iterations (st n)),
                          pipe_2_subtree_divisor :=
                            (pipe_2_subtree_divisor i1)(p \<mapsto> subtree_common_divisor (st n))\<rparr>)
             in Inr (i2\<lparr>node_2_max_num_tiles_per_phase :=
                          (node_2_max_num_tiles_per_phase i2)(n \<mapsto> max_num_tiles_per_phase (st n)),
                        node_2_msgs_to_send := (node_2_msgs_to_send i2)(n \<mapsto> tiles_to_send (st n))\<rparr>))"

definition create_data_flow_info :: "nat list \<Rightarrow> df_state \<Rightarrow> df_error + DataFlowInfo" where
  "create_data_flow_info ns st = fold_sum (info_of_node st) ns no_data_flow_info"

definition c_max_num_phases_per_iteration :: u32 where
  "c_max_num_phases_per_iteration = 15"

text \<open>
  The subgraphs come in the order \<open>id_order\<close> in which the hash map of their ids is iterated.
\<close>

definition graph_data_flow_info ::
  "(nat set \<Rightarrow> nat list) \<Rightarrow> (u32 set \<Rightarrow> u32 list) \<Rightarrow> u32 \<Rightarrow> nat list \<Rightarrow> df_state
    \<Rightarrow> (df_error + DataFlowInfo \<times> df_state) option" where
  "graph_data_flow_info set_order id_order max_tiles graph st =
     (let ns = set_order (set graph) in
      rbind (Some (find_root_nodes ns st)) (\<lambda>roots.
        if roots = [] then Some (Inl DfAssert)
        else rbind (Some (find_leaf_nodes ns st)) (\<lambda>leaves.
          if leaves = [] then Some (Inl DfAssert)
          else rbind (calculate_transfer_limits max_tiles c_max_num_phases_per_iteration roots leaves st) (\<lambda>st1.
               rbind (find_leaf_groups roots st1) (\<lambda>gs.
               rbind (calculate_all_phases set_order
                        (map (\<lambda>k. the (fst gs k)) (id_order (dom (fst gs)))) (snd gs)) (\<lambda>st3.
               rbind (Some (create_data_flow_info ns st3)) (\<lambda>i. Some (Inr (i, st3)))))))))"

fun graphs_data_flow_info ::
  "(nat set \<Rightarrow> nat list) \<Rightarrow> (u32 set \<Rightarrow> u32 list) \<Rightarrow> u32 \<Rightarrow> nat list list \<Rightarrow> DataFlowInfo \<times> df_state
    \<Rightarrow> (df_error + DataFlowInfo \<times> df_state) option" where
  "graphs_data_flow_info set_order id_order max_tiles [] is = Some (Inr is)"
| "graphs_data_flow_info set_order id_order max_tiles (g # gs) is =
     (if card (set g) = 1 then graphs_data_flow_info set_order id_order max_tiles gs is
      else rbind (graph_data_flow_info set_order id_order max_tiles g (snd is)) (\<lambda>r.
             graphs_data_flow_info set_order id_order max_tiles gs (merge_data_flow_info (fst is) (fst r), snd r)))"

text \<open>The hash map of connected components has an iteration order \<open>comp_order\<close> of its own.\<close>

definition get_data_flow_info ::
  "(nat set \<Rightarrow> nat list) \<Rightarrow> (nat set \<Rightarrow> nat list) \<Rightarrow> (u32 set \<Rightarrow> u32 list) \<Rightarrow> u32 \<Rightarrow> rational_graph \<Rightarrow> df_state
    \<Rightarrow> (df_error + DataFlowInfo) option" where
  "get_data_flow_info comp_order set_order id_order max_tiles g memory =
     rbind (create_data_flow_graphs comp_order g memory) (\<lambda>gs.
     rbind (graphs_data_flow_info set_order id_order max_tiles (fst gs) (no_data_flow_info, snd gs))
       (\<lambda>is. Some (Inr (fst is))))"

end
