(* ===== verification/PcieFlow.thy ===== *)
theory PcieFlow
  imports DeviceTypes
begin

text \<open>
  The sizes of the buffers of a PCIe transfer (\<open>data_flow_calculator/pcie_flow_calculator.cpp\<close>). The
  limits of the architecture are parameters. A pipe without inputs or outputs is indexed out of range,
  which is undefined behaviour and \<open>None\<close> here.
\<close>

record pg_buffer =
  logical_location :: tt_cxy_pair
  buffer_scatter_gather_num_tiles :: u32
  buffer_size_tiles :: u32

record pcie_limits =
  dram_output_stream_max_write_issue_bytes :: u32
  pipe_reduce_mem_usage_threshold_bytes :: u32

text \<open>The tiles of adjacent inputs on one core, added up; the first argument is the last group.\<close>

fun size_tiles_per_core :: "tt_cxy_pair \<Rightarrow> u32 \<Rightarrow> pg_buffer list \<Rightarrow> u32 list" where
  "size_tiles_per_core loc sz [] = [sz]"
| "size_tiles_per_core loc sz (b # bs) =
     (if loc = logical_location b
      then size_tiles_per_core loc (sz + buffer_scatter_gather_num_tiles b) bs
      else sz # size_tiles_per_core (logical_location b) (buffer_scatter_gather_num_tiles b) bs)"

definition gcd_u32 :: "u32 \<Rightarrow> u32 \<Rightarrow> u32" where
  "gcd_u32 a b = word_of_int (gcd (uint a) (uint b))"

text \<open>The loop that halves an even size as long as it is too large.\<close>

function reduce_size :: "u32 \<Rightarrow> u32 \<Rightarrow> u32 \<Rightarrow> u32" where
  "reduce_size limit tile_size sz =
     (if sz mod 2 = 0 \<and> sz * tile_size > limit then reduce_size limit tile_size (sz div 2) else sz)"
  by auto
termination
proof (relation "measure (\<lambda>(_, _, sz). unat sz)")
  fix limit tile_size sz :: u32
  assume "sz mod 2 = 0 \<and> sz * tile_size > limit"
  then have "sz \<noteq> 0" by auto
  then have "0 < unat sz" by (simp add: unat_gt_0)
  then show "((limit, tile_size, sz div 2), (limit, tile_size, sz)) \<in> measure (\<lambda>(_, _, sz). unat sz)"
    by (simp add: unat_div)
qed simp

declare reduce_size.simps [simp del]

definition calculate_source_size_tiles ::
  "pcie_limits \<Rightarrow> pg_buffer list \<Rightarrow> pg_buffer list \<Rightarrow> u32 \<Rightarrow> u32 option" where
  "calculate_source_size_tiles limits inputs outputs tile_size =
     (case inputs of [] \<Rightarrow> None
      | b # bs \<Rightarrow>
          (let sizes = size_tiles_per_core (logical_location b) (buffer_scatter_gather_num_tiles b) bs;
               common = fold (\<lambda>s g. gcd_u32 g s) (tl sizes) (hd sizes);
               src = (case outputs of [out] \<Rightarrow> gcd_u32 common (buffer_size_tiles out) | _ \<Rightarrow> common)
           in Some (reduce_size (dram_output_stream_max_write_issue_bytes limits) tile_size src)))"

definition calculate_destination_size_tiles ::
  "pcie_limits \<Rightarrow> pg_buffer list \<Rightarrow> u32 \<Rightarrow> u32 \<Rightarrow> u32 option" where
  "calculate_destination_size_tiles limits outputs tile_size src_size_tiles =
     (if length outputs > 1
      then Some ((if 2 * src_size_tiles * tile_size \<le> pipe_reduce_mem_usage_threshold_bytes limits then 2 else 1)
                 * src_size_tiles)
      else map_option buffer_size_tiles (case outputs of [] \<Rightarrow> None | out # _ \<Rightarrow> Some out))"

section \<open>The size divides\<close>

text \<open>The size of the source divides the tiles of each group of inputs and, if there is one output, its
  size; it is odd or fits into one write.\<close>

lemma gcd_u32_dvd: "unat (gcd_u32 a b) dvd unat a \<and> unat (gcd_u32 a b) dvd unat b"
proof -
  have "uint (gcd_u32 a b) = gcd (uint a) (uint b)"
  proof (cases "a = 0")
    case True
    then show ?thesis by (simp add: gcd_u32_def)
  next
    case False
    then have "0 < uint a" using uint_ge_0 [of a] by (metis order_le_less uint_0_iff)
    then have "gcd (uint a) (uint b) \<le> uint a" by (rule gcd_le1_int)
    then have "gcd (uint a) (uint b) < 2 ^ 32" using uint_lt2p [of a] by simp
    then show ?thesis by (simp add: gcd_u32_def uint_word_of_int mod_pos_pos_trivial)
  qed
  then have "unat (gcd_u32 a b) = gcd (unat a) (unat b)" by (metis gcd_int_int_eq of_nat_eq_iff uint_nat)
  then show ?thesis by simp
qed

lemma fold_gcd_dvd:
  "unat (fold (\<lambda>s g. gcd_u32 g s) ss g) dvd unat g \<and> (\<forall>s \<in> set ss. unat (fold (\<lambda>s g. gcd_u32 g s) ss g) dvd unat s)"
proof (induction ss arbitrary: g)
  case (Cons s ss)
  from Cons.IH [of "gcd_u32 g s"] gcd_u32_dvd [of g s] show ?case by (auto intro: dvd_trans)
qed simp

lemma reduce_size_spec:
  "unat (reduce_size limit tile_size sz) dvd unat sz
   \<and> (odd (unat (reduce_size limit tile_size sz)) \<or> reduce_size limit tile_size sz * tile_size \<le> limit)"
proof (induction limit tile_size sz rule: reduce_size.induct)
  case (1 limit tile_size sz)
  have even: "sz mod 2 = 0 \<longleftrightarrow> even (unat sz)"
  proof -
    have "unat (sz mod 2) = unat sz mod 2" by (simp add: unat_mod)
    then show ?thesis by (metis dvd_eq_mod_eq_0 unat_eq_zero)
  qed
  show ?case
  proof (cases "sz mod 2 = 0 \<and> sz * tile_size > limit")
    case True
    then obtain c where "unat sz = 2 * c" using even by (auto elim: evenE)
    then have "unat (sz div 2) dvd unat sz" by (simp add: unat_div)
    moreover have "reduce_size limit tile_size sz = reduce_size limit tile_size (sz div 2)"
      using True by (subst reduce_size.simps) simp
    ultimately show ?thesis using "1.IH" [OF True] by (auto intro: dvd_trans)
  next
    case False
    have "reduce_size limit tile_size sz = sz" by (subst reduce_size.simps) (rule if_not_P [OF False])
    then show ?thesis using False even by (auto simp: not_less)
  qed
qed

lemma size_tiles_per_core_not_Nil: "size_tiles_per_core loc sz bs \<noteq> []"
  by (induction loc sz bs rule: size_tiles_per_core.induct) auto

lemma source_size_divides:
  assumes "calculate_source_size_tiles limits (b # bs) outputs tile_size = Some k"
  shows "(\<forall>s \<in> set (size_tiles_per_core (logical_location b) (buffer_scatter_gather_num_tiles b) bs). unat k dvd unat s)
    \<and> (\<forall>out. outputs = [out] \<longrightarrow> unat k dvd unat (buffer_size_tiles out))
    \<and> (odd (unat k) \<or> k * tile_size \<le> dram_output_stream_max_write_issue_bytes limits)"
proof -
  let ?sizes = "size_tiles_per_core (logical_location b) (buffer_scatter_gather_num_tiles b) bs"
  let ?common = "fold (\<lambda>s g. gcd_u32 g s) (tl ?sizes) (hd ?sizes)"
  let ?src = "case outputs of [out] \<Rightarrow> gcd_u32 ?common (buffer_size_tiles out) | _ \<Rightarrow> ?common"
  have k: "k = reduce_size (dram_output_stream_max_write_issue_bytes limits) tile_size ?src"
    using assms by (simp add: calculate_source_size_tiles_def Let_def)
  have "?sizes \<noteq> []" by (rule size_tiles_per_core_not_Nil)
  then have common: "unat ?common dvd unat s" if "s \<in> set ?sizes" for s
    using fold_gcd_dvd [of "tl ?sizes" "hd ?sizes"] that by (cases ?sizes) auto
  have src: "unat ?src dvd unat ?common" using gcd_u32_dvd by (auto split: list.splits)
  have out: "unat ?src dvd unat (buffer_size_tiles out)" if "outputs = [out]" for out
    unfolding that list.case using gcd_u32_dvd by blast
  note reduced = reduce_size_spec [of "dram_output_stream_max_write_issue_bytes limits" tile_size ?src, folded k]
  show ?thesis
  proof (intro conjI ballI allI impI)
    fix s assume "s \<in> set ?sizes"
    from common [OF this] src reduced show "unat k dvd unat s" by (meson dvd_trans)
  next
    fix out' assume "outputs = [out']"
    from out [OF this] reduced show "unat k dvd unat (buffer_size_tiles out')" by (meson dvd_trans)
  qed (use reduced in blast)
qed

end
