(* ===== verification/LimitsComposed.thy ===== *)
theory LimitsComposed
  imports PhaseLimits
begin

text \<open>
  The transfer limits as a whole: the six calculations run one after the other on the same graph, each
  keeps what the others have computed, and all of them end on an acyclic graph.
\<close>

section \<open>What a calculation leaves alone\<close>

definition erase_limits :: "DataFlowNode \<Rightarrow> DataFlowNode" where
  "erase_limits d = d\<lparr>tiles_to_send := 0, max_num_tiles_per_phase := 0, num_iterations := 0,
     subtree_common_divisor := 0, number_of_unique_df_paths := 0, on_single_source_path := False\<rparr>"

text \<open>The graph and what the nodes read of the rational graph are the same.\<close>

definition same_graph :: "df_state \<Rightarrow> df_state \<Rightarrow> bool" where
  "same_graph st0 st \<longleftrightarrow> (\<forall>n. erase_limits (st n) = erase_limits (st0 n))"

lemma same_graph_refl: "same_graph st st"
  by (simp add: same_graph_def)

lemma same_graph_trans: "same_graph st0 st1 \<Longrightarrow> same_graph st1 st2 \<Longrightarrow> same_graph st0 st2"
  by (simp add: same_graph_def)

lemma same_graph_at: "erase_limits (f (st n)) = erase_limits (st n) \<Longrightarrow> same_graph st (at_node n f st)"
  by (simp add: same_graph_def at_node_def)

lemma same_graph_reads:
  assumes "same_graph st0 st" and "\<And>d. reads (erase_limits d) = reads d"
  shows "reads (st n) = reads (st0 n)"
  using assms unfolding same_graph_def by metis

lemma same_graph_edges:
  assumes "same_graph st0 st"
  shows "df_destinations (st n) = df_destinations (st0 n)" "df_inputs (st n) = df_inputs (st0 n)"
    "is_root_node (st n) = is_root_node (st0 n)" "is_leaf_node (st n) = is_leaf_node (st0 n)"
  by (rule same_graph_reads [OF assms], simp add: erase_limits_def is_root_node_def is_leaf_node_def)+

lemma same_but_graph:
  assumes "same_but upd st0 st" and "\<And>d. erase_limits (upd (\<lambda>_. 0) d) = erase_limits d"
  shows "same_graph st0 st"
  unfolding same_graph_def using same_but_reads [of upd st0 st erase_limits] assms by blast

section \<open>Single source paths\<close>

lemma single_source_graph:
  assumes "single_source_search call st = Some s"
  shows "same_graph st (snd s)"
proof (rule single_source_search.raw_induct [OF _ assms])
  fix rec call st s
  assume IH: "\<And>call st s. rec call st = Some s \<Longrightarrow> same_graph st (snd s)"
    and run: "(case call of
        PathNode n up \<Rightarrow>
          if \<not> on_single_source_path (st n) then Some (False, st)
          else Option.bind (rec
                 (PathDests (df_destinations (st n)) (up \<and> \<not> (is_scatter (st n) \<or> length (df_inputs (st n)) > 1))) st)
               (\<lambda>s. Some (fst s, at_node n (on_single_source_path_update (\<lambda>_. fst s)) (snd s)))
      | PathDests ns single \<Rightarrow>
          (case ns of [] \<Rightarrow> Some (single, st)
           | d # ds \<Rightarrow> Option.bind (rec (PathNode d single) st)
               (\<lambda>s. rec (PathDests ds (single \<and> fst s)) (snd s)))) = Some s"
  show "same_graph st (snd s)"
  proof (cases call)
    case (PathNode n up)
    show ?thesis
    proof (cases "on_single_source_path (st n)")
      case True
      then obtain s1 where s1: "rec (PathDests (df_destinations (st n)) (up \<and> \<not> (is_scatter (st n) \<or> length (df_inputs (st n)) > 1))) st = Some s1"
        and s: "s = (fst s1, at_node n (on_single_source_path_update (\<lambda>_. fst s1)) (snd s1))"
        using run PathNode by (auto simp: bind_eq_Some_conv)
      have "same_graph (snd s1) (snd s)" unfolding s snd_conv by (rule same_graph_at) (simp add: erase_limits_def)
      with IH [OF s1] show ?thesis by (rule same_graph_trans)
    next
      case False
      then show ?thesis using run PathNode by (auto simp: same_graph_refl)
    qed
  next
    case (PathDests ns single)
    show ?thesis
    proof (cases ns)
      case Nil
      then show ?thesis using run PathDests by (auto simp: same_graph_refl)
    next
      case (Cons d ds)
      then obtain s1 where "rec (PathNode d single) st = Some s1" "rec (PathDests ds (single \<and> fst s1)) (snd s1) = Some s"
        using run PathDests by (auto simp: bind_eq_Some_conv)
      then show ?thesis using IH by (blast intro: same_graph_trans)
    qed
  qed
qed

lemma path_dests_return:
  assumes "\<And>m up st. m \<in> set ns \<Longrightarrow> same_graph st0 st \<Longrightarrow> \<exists>s. single_source_search (PathNode m up) st = Some s"
    and "same_graph st0 st"
  shows "\<exists>s. single_source_search (PathDests ns single) st = Some s"
  using assms
proof (induction ns arbitrary: single st)
  case Nil
  show ?case by (subst single_source_search.simps) simp
next
  case (Cons d ds)
  from Cons.prems obtain s where s: "single_source_search (PathNode d single) st = Some s" by force
  have "same_graph st0 (snd s)" by (rule same_graph_trans [OF Cons.prems(2) single_source_graph [OF s]])
  then have "\<exists>t. single_source_search (PathDests ds (single \<and> fst s)) (snd s) = Some t"
    using Cons.prems(1) by (intro Cons.IH) auto
  then show ?case by (subst single_source_search.simps) (simp add: s)
qed

lemma path_node_returns:
  assumes "wf {(m, n). m \<in> set (df_destinations (st0 n))}" and "same_graph st0 st"
  shows "\<exists>s. single_source_search (PathNode n up) st = Some s"
  using assms(2)
proof (induction n arbitrary: up st rule: wf_induct_rule [OF assms(1)])
  case (1 n)
  have "\<exists>s. single_source_search (PathDests (df_destinations (st n)) single) st = Some s" for single
    by (rule path_dests_return [OF _ "1.prems"])
      (use "1.IH" same_graph_edges(1) [OF "1.prems"] in auto)
  then show ?case by (subst single_source_search.simps) (auto simp: bind_eq_Some_conv)
qed

lemma single_source_paths_end:
  assumes "wf {(m, n). m \<in> set (df_destinations (st0 n))}" and "same_graph st0 st"
  shows "\<exists>t. find_single_source_paths roots st = Some t \<and> same_graph st0 t"
  using assms(2)
proof (induction roots arbitrary: st)
  case (Cons r rs)
  obtain s where s: "single_source_search (PathNode r True) st = Some s"
    using path_node_returns [OF assms(1) Cons.prems] by blast
  from Cons.IH [OF same_graph_trans [OF Cons.prems single_source_graph [OF s]]]
  show ?case by (simp add: s)
qed simp

section \<open>Number of iterations\<close>

lemma fold_sum_graph:
  assumes "fold_sum visit ns s = Inr t" and "\<And>n s t. visit n s = Inr t \<Longrightarrow> same_graph s t"
  shows "same_graph s t"
  using assms(1)
proof (induction ns arbitrary: s)
  case Nil
  then show ?case by (simp add: same_graph_refl)
next
  case (Cons n ns)
  then obtain u where "visit n s = Inr u" "fold_sum visit ns u = Inr t" by (auto simp: bind_sum_Inr_iff)
  then show ?case using assms(2) Cons.IH same_graph_trans by blast
qed

text \<open>A finite set of nodes that no edge leaves.\<close>

definition encloses :: "df_state \<Rightarrow> nat set \<Rightarrow> bool" where
  "encloses st N \<longleftrightarrow> finite N \<and> (\<forall>n \<in> N. set (df_destinations (st n)) \<subseteq> N)"

lemma encloses_same: "same_graph st0 st \<Longrightarrow> encloses st N \<longleftrightarrow> encloses st0 N"
  by (simp add: encloses_def same_graph_edges)

lemma visit_nodes_return:
  assumes "encloses (snd vs) N" and "set roots \<subseteq> N"
  shows "\<exists>r. visit_nodes_in_topological_order roots visit vs = Some r"
proof -
  obtain r where "dfs_order (\<lambda>n. df_destinations (snd vs n)) roots (fst vs, []) = Some r"
    using dfs_order_returns [of N roots "\<lambda>n. df_destinations (snd vs n)" "fst vs" "[]"] assms
    by (auto simp: encloses_def)
  then show ?thesis by (cases r) (simp add: visit_nodes_in_topological_order_def)
qed

lemma visit_nodes_graph:
  assumes "visit_nodes_in_topological_order roots visit vs = Some (Inr ws)"
    and "\<And>n s t. visit n s = Inr t \<Longrightarrow> same_graph s t"
  shows "same_graph (snd vs) (snd ws)"
  using assms(1) fold_sum_graph [of visit, OF _ assms(2)]
  by (auto simp: visit_nodes_in_topological_order_def bind_sum_Inr_iff split: option.splits)

lemma set_num_iterations_ends:
  assumes "encloses st N" and "set roots \<subseteq> N"
  shows "(\<exists>r. set_num_iterations_for_graph roots k st = Some r)
    \<and> (\<forall>t. set_num_iterations_for_graph roots k st = Some (Inr t) \<longrightarrow> same_graph st t)"
proof (intro conjI allI impI)
  show "\<exists>r. set_num_iterations_for_graph roots k st = Some r"
    unfolding set_num_iterations_for_graph_def by (rule rbind_returns [OF visit_nodes_return]) (use assms in auto)
  fix t assume "set_num_iterations_for_graph roots k st = Some (Inr t)"
  then obtain ws where ws: "visit_nodes_in_topological_order roots
      (\<lambda>n st. Inr (at_node n (num_iterations_update (\<lambda>_. k)) st) :: df_error + df_state) ({}, st) = Some (Inr ws)" "t = snd ws"
    by (auto simp: set_num_iterations_for_graph_def rbind_Inr_iff)
  have "same_graph (snd ({} :: nat set, st)) (snd ws)"
    by (rule visit_nodes_graph [OF ws(1)]) (auto intro!: same_graph_at simp: erase_limits_def)
  then show "same_graph st t" using ws(2) by simp
qed

lemma multi_source_iterations_end:
  assumes "encloses st N" and "set roots \<subseteq> N"
  shows "(\<exists>r. calculate_num_iterations_for_multi_source_path roots st = Some r)
    \<and> (\<forall>t. calculate_num_iterations_for_multi_source_path roots st = Some (Inr t) \<longrightarrow> same_graph st t)"
proof (intro conjI allI impI)
  show "\<exists>r. calculate_num_iterations_for_multi_source_path roots st = Some r"
    unfolding calculate_num_iterations_for_multi_source_path_def
    by (rule rbind_returns [OF visit_nodes_return]) (use assms in auto)
  fix t assume "calculate_num_iterations_for_multi_source_path roots st = Some (Inr t)"
  then obtain ws where ws: "visit_nodes_in_topological_order roots
      (\<lambda>n st. bind_sum (node_num_iterations n st) (\<lambda>k. Inr (at_node n (num_iterations_update (\<lambda>_. k)) st))) ({}, st)
        = Some (Inr ws)" "t = snd ws"
    by (auto simp: calculate_num_iterations_for_multi_source_path_def rbind_Inr_iff)
  have "same_graph (snd ({} :: nat set, st)) (snd ws)"
    by (rule visit_nodes_graph [OF ws(1)]) (auto intro!: same_graph_at simp: erase_limits_def bind_sum_Inr_iff)
  then show "same_graph st t" using ws(2) by simp
qed

lemma num_iterations_end:
  assumes "encloses st N" and "set roots \<subseteq> N"
  shows "(\<exists>r. calculate_num_iterations leaves roots max_tiles max_phases st = Some r)
    \<and> (\<forall>t. calculate_num_iterations leaves roots max_tiles max_phases st = Some (Inr t) \<longrightarrow> same_graph st t)"
proof -
  have single: "(\<exists>r. rbind (Some k) (\<lambda>k. set_num_iterations_for_graph roots k st) = Some r)
      \<and> (\<forall>t. rbind (Some k) (\<lambda>k. set_num_iterations_for_graph roots k st) = Some (Inr t) \<longrightarrow> same_graph st t)" for k
    using set_num_iterations_ends [OF assms] by (cases k) auto
  show ?thesis
    unfolding calculate_num_iterations_def
    using single set_num_iterations_ends [OF assms] multi_source_iterations_end [OF assms]
    by (auto split: list.splits)
qed

section \<open>The most tiles of a phase\<close>

lemma phase_limit_graph:
  "calculate_max_tiles_per_phase_for_node root_tiles limit n s = Inr t \<Longrightarrow> same_graph s t"
  by (auto simp: calculate_max_tiles_per_phase_for_node_def bind_sum_Inr_iff split: if_splits
      intro!: same_graph_at simp: erase_limits_def)

lemma max_tiles_from_roots_end:
  assumes "encloses (snd vs) N" and "set roots \<subseteq> N"
  shows "\<exists>r. max_tiles_from_roots limit roots vs = Some r"
  using assms
proof (induction roots arbitrary: vs)
  case (Cons r rs)
  have "\<exists>w. max_tiles_from_root limit r vs = Some w"
    unfolding max_tiles_from_root_def using visit_nodes_return [OF Cons.prems(1), of "[r]"] Cons.prems(2) by auto
  moreover have "\<exists>x. max_tiles_from_roots limit rs ws = Some x" if "max_tiles_from_root limit r vs = Some (Inr ws)" for ws
  proof -
    have "same_graph (snd vs) (snd ws)"
      using that visit_nodes_graph phase_limit_graph by (auto simp: max_tiles_from_root_def split: if_splits)
    then show ?thesis using Cons.prems by (intro Cons.IH) (auto simp: encloses_same)
  qed
  ultimately show ?case by (simp add: rbind_returns)
qed simp

lemma phase_limits_end:
  assumes "encloses st N" and "set roots \<subseteq> N"
  shows "\<exists>r. calculate_max_tiles_per_phase limit roots st = Some r"
  unfolding calculate_max_tiles_per_phase_def
  by (rule rbind_returns [OF max_tiles_from_roots_end]) (use assms in auto)

section \<open>The calculation as a whole\<close>

lemma paths_end:
  assumes "wf {(m, n). \<not> is_root_node (st n) \<and> m \<in> set (df_sources (st n))}"
  shows "(\<exists>r. calculate_number_of_paths_through_node leaves st = Some r)
    \<and> (\<forall>t. calculate_number_of_paths_through_node leaves st = Some (Inr t) \<longrightarrow>
          same_but number_of_unique_df_paths_update st t)"
proof (intro conjI allI impI)
  show "\<exists>r. calculate_number_of_paths_through_node leaves st = Some r"
    unfolding calculate_number_of_paths_through_node_def using assms
    by (intro calculation_returns paths.post_visits_return [where ?st0.0 = st] paths.solved_start same_but_refl)
  fix t assume "calculate_number_of_paths_through_node leaves st = Some (Inr t)"
  then obtain V where "post_visits paths_calculation leaves ({}, st) = Some (Inr (V, t))"
    by (auto simp: calculate_number_of_paths_through_node_def calculated)
  from paths.post_visits_equations [OF this same_but_refl]
  show "same_but number_of_unique_df_paths_update st t" by simp
qed

text \<open>Every source of a node is a node of one of its inputs.\<close>

definition sources_are_inputs :: "df_state \<Rightarrow> bool" where
  "sources_are_inputs st \<longleftrightarrow> (\<forall>n. set (df_sources (st n)) \<subseteq> fst ` set (df_inputs (st n)))"

lemma sources_wf:
  assumes "wf {(m, n). m \<in> set (followed_inputs st n)}" and "sources_are_inputs st"
  shows "wf {(m, n). \<not> is_root_node (st n) \<and> m \<in> set (df_sources (st n))}"
  by (rule wf_subset [OF assms(1)]) (use assms(2) in \<open>auto simp: followed_inputs_def sources_are_inputs_def\<close>)

lemma followed_same: "same_graph st0 st \<Longrightarrow> followed_inputs st = followed_inputs st0"
  by (rule ext) (simp add: followed_inputs_def same_graph_edges)

lemma graph_wf_same:
  assumes "same_graph st0 st"
  shows "{(m, n). m \<in> set (followed_inputs st n)} = {(m, n). m \<in> set (followed_inputs st0 n)}"
    and "{(m, n). m \<in> set (df_destinations (st n))} = {(m, n). m \<in> set (df_destinations (st0 n))}"
    and "sources_are_inputs st \<longleftrightarrow> sources_are_inputs st0"
    and "edges_are_inputs st N \<longleftrightarrow> edges_are_inputs st0 N"
proof -
  have "df_sources (st n) = df_sources (st0 n)" for n
    by (rule same_graph_reads [OF assms]) (simp add: erase_limits_def)
  then show "sources_are_inputs st \<longleftrightarrow> sources_are_inputs st0"
    by (simp add: sources_are_inputs_def same_graph_edges [OF assms])
qed (simp_all add: followed_same [OF assms] same_graph_edges [OF assms] edges_are_inputs_def)

text \<open>What the calculations need: a finite graph without cycles whose edges are the inputs.\<close>

definition df_graph_ok :: "nat set \<Rightarrow> df_state \<Rightarrow> bool" where
  "df_graph_ok N st \<longleftrightarrow> encloses st N \<and> edges_are_inputs st N \<and> sources_are_inputs st
     \<and> wf {(m, n). m \<in> set (df_destinations (st n))} \<and> wf {(m, n). m \<in> set (followed_inputs st n)}"

lemma df_graph_ok_same: "same_graph st0 st \<Longrightarrow> df_graph_ok N st \<longleftrightarrow> df_graph_ok N st0"
  by (simp add: df_graph_ok_def encloses_same graph_wf_same)

lemma df_graph_parts:
  assumes "df_graph_ok N st0" and "same_graph st0 st"
  shows "encloses st N" "wf {(m, n). m \<in> set (followed_inputs st n)}" "sources_are_inputs st"
    "wf {(m, n). m \<in> set (df_destinations (st n))}"
  using assms(1) df_graph_ok_same [OF assms(2), of N] unfolding df_graph_ok_def by blast+

lemma df_graph_acyclic: "df_graph_ok N st \<Longrightarrow> acyclic (edges_of (\<lambda>n. df_destinations (st n)))"
proof -
  assume "df_graph_ok N st"
  then have "wf ((edges_of (\<lambda>n. df_destinations (st n)))\<inverse>)"
    by (auto simp: df_graph_ok_def edges_of_def converse_unfold)
  then show ?thesis using wf_acyclic acyclic_converse by blast
qed

lemma df_graph_reach:
  assumes "df_graph_ok N st" and "set roots \<subseteq> N"
  shows "reachable (\<lambda>n. df_destinations (st n)) roots \<subseteq> N"
  using assms by (intro reachable_least) (auto simp: df_graph_ok_def encloses_def)

lemma edges_are_inputs_mono: "edges_are_inputs st N \<Longrightarrow> M \<subseteq> N \<Longrightarrow> edges_are_inputs st M"
  by (auto simp: edges_are_inputs_def)

text \<open>The steps of a calculation that succeeds.\<close>

lemma transfer_limits_steps:
  assumes "df_graph_ok N st" and "set roots \<subseteq> N"
    and "calculate_transfer_limits max_tiles max_phases roots leaves st = Some (Inr st')"
  obtains st2 st3 st4 st5 where "same_graph st st2" "same_graph st st3" "same_graph st st4" "same_graph st st5"
    "calculate_tiles_to_send leaves st2 = Some (Inr st3)" "same_but number_of_unique_df_paths_update st3 st4"
    "calculate_subtree_common_divisor roots st4 = Some (Inr st5)"
    "calculate_max_tiles_per_phase max_tiles roots st5 = Some (Inr st')"
proof -
  obtain st1 st2 st3 st4 st5 where run: "find_single_source_paths roots st = Some st1"
    "calculate_num_iterations leaves roots max_tiles max_phases st1 = Some (Inr st2)"
    "calculate_tiles_to_send leaves st2 = Some (Inr st3)"
    "calculate_number_of_paths_through_node leaves st3 = Some (Inr st4)"
    "calculate_subtree_common_divisor roots st4 = Some (Inr st5)"
    "calculate_max_tiles_per_phase max_tiles roots st5 = Some (Inr st')"
    using assms(3) by (auto simp: calculate_transfer_limits_def rbind_Inr_iff)
  have g1: "same_graph st st1"
    using single_source_paths_end [of st st roots] run(1) assms(1) by (auto simp: df_graph_ok_def same_graph_refl)
  have "same_graph st1 st2"
    using num_iterations_end [OF df_graph_parts(1) [OF assms(1) g1] assms(2)] run(2) by blast
  then have g2: "same_graph st st2" using g1 same_graph_trans by blast
  have "same_graph st2 st3" by (rule same_but_graph [OF tiles_solved(1) [OF run(3)]]) (simp add: erase_limits_def)
  then have g3: "same_graph st st3" using g2 same_graph_trans by blast
  have p: "same_but number_of_unique_df_paths_update st3 st4"
    using paths_end [OF sources_wf, OF df_graph_parts(2,3) [OF assms(1) g3]] run(4) by blast
  have "same_graph st3 st4" by (rule same_but_graph [OF p]) (simp add: erase_limits_def)
  then have g4: "same_graph st st4" using g3 same_graph_trans by blast
  have "same_graph st4 st5" by (rule same_but_graph [OF divisor_solved(1) [OF run(5)]]) (simp add: erase_limits_def)
  then have "same_graph st st5" using g4 same_graph_trans by blast
  then show thesis using that g2 g3 g4 p run(3,5,6) by blast
qed

lemma transfer_limits_end:
  assumes ok: "df_graph_ok N st" and roots: "set roots \<subseteq> N"
  shows "\<exists>r. calculate_transfer_limits max_tiles max_phases roots leaves st = Some r"
  unfolding calculate_transfer_limits_def
proof (intro rbind_returns)
  note parts = df_graph_parts [OF ok]
  show "\<exists>r. map_option Inr (find_single_source_paths roots st) = Some r"
    using single_source_paths_end [OF parts(4) [OF same_graph_refl] same_graph_refl, of roots] by auto
  fix st1 assume "map_option Inr (find_single_source_paths roots st) = Some (Inr st1)"
  then have g1: "same_graph st st1"
    using single_source_paths_end [OF parts(4) [OF same_graph_refl] same_graph_refl, of roots] by auto
  note iterations = num_iterations_end [OF parts(1) [OF g1] roots, of leaves max_tiles max_phases]
  show "\<exists>r. calculate_num_iterations leaves roots max_tiles max_phases st1 = Some r" using iterations by blast
  fix st2 assume "calculate_num_iterations leaves roots max_tiles max_phases st1 = Some (Inr st2)"
  then have g2: "same_graph st st2" using iterations g1 same_graph_trans by blast
  show "\<exists>r. calculate_tiles_to_send leaves st2 = Some r" by (rule tiles_return [OF parts(2) [OF g2]])
  fix st3 assume "calculate_tiles_to_send leaves st2 = Some (Inr st3)"
  from same_but_graph [OF tiles_solved(1) [OF this]] have "same_graph st2 st3" by (simp add: erase_limits_def)
  then have g3: "same_graph st st3" using g2 same_graph_trans by blast
  note paths = paths_end [OF sources_wf, OF parts(2,3) [OF g3], of leaves]
  show "\<exists>r. calculate_number_of_paths_through_node leaves st3 = Some r" using paths by blast
  fix st4 assume "calculate_number_of_paths_through_node leaves st3 = Some (Inr st4)"
  then have "same_but number_of_unique_df_paths_update st3 st4" using paths by blast
  from same_but_graph [OF this] have "same_graph st3 st4" by (simp add: erase_limits_def)
  then have g4: "same_graph st st4" using g3 same_graph_trans by blast
  show "\<exists>r. calculate_subtree_common_divisor roots st4 = Some r" by (rule divisor_returns [OF parts(4) [OF g4]])
  fix st5 assume "calculate_subtree_common_divisor roots st4 = Some (Inr st5)"
  from same_but_graph [OF divisor_solved(1) [OF this]] have "same_graph st4 st5" by (simp add: erase_limits_def)
  then have g5: "same_graph st st5" using g4 same_graph_trans by blast
  show "\<exists>r. calculate_max_tiles_per_phase max_tiles roots st5 = Some r"
    by (rule phase_limits_end [OF parts(1) [OF g5] roots])
qed

text \<open>What the later calculations keep of the earlier ones.\<close>

lemma tiles_kept:
  assumes "same_but tiles_to_send_update st2 st3" "same_but number_of_unique_df_paths_update st3 st4"
    "same_but subtree_common_divisor_update st4 st5" "same_limits st5 st'"
  shows "tiles_to_send (st' n) = tiles_to_send (st3 n)" "num_iterations (st' n) = num_iterations (st2 n)"
    "subtree_common_divisor (st' n) = subtree_common_divisor (st5 n)"
proof -
  have "tiles_to_send (st' n) = tiles_to_send (st5 n)" "num_iterations (st' n) = num_iterations (st5 n)"
    "subtree_common_divisor (st' n) = subtree_common_divisor (st5 n)"
    by (rule same_but_reads [OF assms(4)], simp)+
  moreover have "tiles_to_send (st5 n) = tiles_to_send (st4 n)" "num_iterations (st5 n) = num_iterations (st4 n)"
    by (rule same_but_reads [OF assms(3)], simp)+
  moreover have "tiles_to_send (st4 n) = tiles_to_send (st3 n)" "num_iterations (st4 n) = num_iterations (st3 n)"
    by (rule same_but_reads [OF assms(2)], simp)+
  moreover have "num_iterations (st3 n) = num_iterations (st2 n)"
    by (rule same_but_reads [OF assms(1)], simp)
  ultimately show "tiles_to_send (st' n) = tiles_to_send (st3 n)" "num_iterations (st' n) = num_iterations (st2 n)"
    "subtree_common_divisor (st' n) = subtree_common_divisor (st5 n)" by simp_all
qed

lemma long_transfer_single_source: "find_single_source_paths [0] long_transfer = Some long_transfer"
proof -
  have nodes: "on_single_source_path (long_transfer n)" "df_destinations (long_transfer 0) = [1]"
    "df_destinations (long_transfer 1) = []" "\<not> is_scatter (long_transfer n)" "\<not> length (df_inputs (long_transfer n)) > 1" for n
    by (simp_all add: long_transfer_def blank_df_node_def is_scatter_def blank_node_def)
  have keep: "at_node n (on_single_source_path_update (\<lambda>_. True)) long_transfer = long_transfer" for n
    using nodes(1) [of n] by (simp add: at_node_def fun_upd_idem_iff)
  have none: "single_source_search (PathDests [] True) long_transfer = Some (True, long_transfer)"
    by (subst single_source_search.simps) simp
  have one: "single_source_search (PathNode 1 True) long_transfer = Some (True, long_transfer)"
    by (subst single_source_search.simps) (simp only: path_call.case nodes not_True_eq_False not_False_eq_True
        if_True if_False simp_thms none Option.bind.bind_lunit fst_conv snd_conv keep)
  have "single_source_search (PathDests [1] True) long_transfer = Some (True, long_transfer)"
    by (subst single_source_search.simps) (simp add: one [simplified] none)
  then have "single_source_search (PathNode 0 True) long_transfer = Some (True, long_transfer)"
    by (subst single_source_search.simps) (simp only: path_call.case nodes not_True_eq_False not_False_eq_True
        if_True if_False simp_thms Option.bind.bind_lunit fst_conv snd_conv keep)
  then show ?thesis by simp
qed

text \<open>C10 The transfer limits are consistent: on a finite graph without cycles the six calculations
  end, whatever the limits, and when none of them fails, the graph is what it was and the state they
  leave together satisfies the equations of all of them at once: every node from which a leaf is fed
  sends the tiles its iterations and its inputs give, every node that a root reaches has the least
  common multiple of what the leaves below it consume, and the most tiles of a phase at that node obeys
  the limit and the two divisors with the values of the other calculations.\<close>

theorem transfer_limits_consistent:
  assumes "df_graph_ok N st" and "set roots \<subseteq> N"
  shows "(\<exists>r. calculate_transfer_limits max_tiles max_phases roots leaves st = Some r)
    \<and> (\<forall>st'. calculate_transfer_limits max_tiles max_phases roots leaves st = Some (Inr st') \<longrightarrow>
         same_graph st st'
       \<and> (\<forall>n \<in> reachable (followed_inputs st) leaves.
            if is_root_node (st n)
            then num_iterations (st' n) \<noteq> 0
               \<and> tiles_to_send (st' n) = get_num_epoch_tiles (st n) div num_iterations (st' n)
            else get_input_group_count (st n) \<noteq> 0
               \<and> tiles_to_send (st' n)
                 = (\<Sum>m \<leftarrow> map fst (df_inputs (st n)). tiles_to_send (st' m)) div get_input_group_count (st n))
       \<and> (\<forall>n \<in> reachable (\<lambda>n. df_destinations (st n)) roots. phase_limit_ok max_tiles st' n
          \<and> (\<forall>x. unat (subtree_common_divisor (st' n)) dvd x
               \<longleftrightarrow> (\<forall>l \<in> reachable (\<lambda>n. df_destinations (st n)) [n].
                      is_leaf_node (st l) \<longrightarrow> unat (get_consume_granularity (st l)) dvd x))))"
proof (intro conjI allI impI transfer_limits_end [OF assms])
  fix st' assume run: "calculate_transfer_limits max_tiles max_phases roots leaves st = Some (Inr st')"
  obtain st2 st3 st4 st5 where g: "same_graph st st2" "same_graph st st3" "same_graph st st4" "same_graph st st5"
    and steps: "calculate_tiles_to_send leaves st2 = Some (Inr st3)" "same_but number_of_unique_df_paths_update st3 st4"
      "calculate_subtree_common_divisor roots st4 = Some (Inr st5)"
      "calculate_max_tiles_per_phase max_tiles roots st5 = Some (Inr st')"
    by (rule transfer_limits_steps [OF assms run])
  let ?next = "\<lambda>n. df_destinations (st n)"
  have next_eq: "(\<lambda>n. df_destinations (st4 n)) = ?next" "(\<lambda>n. df_destinations (st5 n)) = ?next"
    by (simp_all add: same_graph_edges [OF g(3)] same_graph_edges [OF g(4)])
  have ok5: "df_graph_ok N st5" using assms(1) df_graph_ok_same [OF g(4)] by simp
  have limits: "same_limits st5 st'" "\<forall>n \<in> reachable ?next roots. phase_limit_ok max_tiles st' n"
    using phase_limits_hold [OF steps(4) df_graph_acyclic [OF ok5]] df_graph_reach [OF ok5 assms(2)] ok5
    by (auto simp: next_eq df_graph_ok_def intro: edges_are_inputs_mono)
  note kept = tiles_kept [OF tiles_solved(1) [OF steps(1)] steps(2) divisor_solved(1) [OF steps(3)] limits(1)]
  have "same_graph st5 st'" by (rule same_but_graph [OF limits(1)]) (simp add: erase_limits_def)
  then show "same_graph st st'" using g(4) same_graph_trans by blast
  have read: "is_root_node (st2 n) = is_root_node (st n)" "df_inputs (st2 n) = df_inputs (st n)"
    "get_num_epoch_tiles (st2 n) = get_num_epoch_tiles (st n)" "get_input_group_count (st2 n) = get_input_group_count (st n)" for n
    by (rule same_graph_reads [OF g(1)], simp add: erase_limits_def node_reads)+
  show "\<forall>n \<in> reachable (followed_inputs st) leaves.
      if is_root_node (st n)
      then num_iterations (st' n) \<noteq> 0
         \<and> tiles_to_send (st' n) = get_num_epoch_tiles (st n) div num_iterations (st' n)
      else get_input_group_count (st n) \<noteq> 0
         \<and> tiles_to_send (st' n)
           = (\<Sum>m \<leftarrow> map fst (df_inputs (st n)). tiles_to_send (st' m)) div get_input_group_count (st n)"
    using tiles_solved(2) [OF steps(1)] tiles_equation
    unfolding followed_same [OF g(1)] kept read [symmetric] by blast
  have read4: "is_leaf_node (st4 n) = is_leaf_node (st n)" "get_consume_granularity (st4 n) = get_consume_granularity (st n)" for n
    by (rule same_graph_reads [OF g(3)], simp add: erase_limits_def node_reads)+
  note divisor = divisor_lcm [OF df_graph_parts(4) [OF assms(1) g(3)] divisor_solved(2) [OF steps(3)], unfolded next_eq read4 kept(3) [symmetric]]
  show "\<forall>n \<in> reachable ?next roots. phase_limit_ok max_tiles st' n
      \<and> (\<forall>x. unat (subtree_common_divisor (st' n)) dvd x
           \<longleftrightarrow> (\<forall>l \<in> reachable ?next [n]. is_leaf_node (st l) \<longrightarrow> unat (get_consume_granularity (st l)) dvd x))"
    using limits(2) divisor by blast
qed

theorem transfer_limits_consistent_witness:
  "\<exists>st'. calculate_transfer_limits 64 4 [0] [1] long_transfer = Some (Inr st')
     \<and> tiles_to_send (st' 1) = tiles_to_send (st' 0) \<and> max_num_tiles_per_phase (st' 1) \<le> 64
     \<and> unat (subtree_common_divisor (st' 0)) dvd unat (get_consume_granularity (long_transfer 1))"
proof -
  have "\<exists>st'. calculate_transfer_limits 64 4 [0] [1] long_transfer = Some (Inr st')"
  proof -
    have "(case calculate_transfer_limits 64 4 [0] [1] long_transfer of Some (Inr st') \<Rightarrow> True | _ \<Rightarrow> False)"
      unfolding calculate_transfer_limits_def long_transfer_single_source option.map rbind_simps by code_simp
    then show ?thesis by (auto split: option.splits sum.splits)
  qed
  then obtain st' where run: "calculate_transfer_limits 64 4 [0] [1] long_transfer = Some (Inr st')" by blast
  let ?st = long_transfer
  have wf: "wf {(m :: nat, n). m = b \<and> n = a}" if "a \<noteq> b" for a b
    by (rule wf_subset [OF wf_measure [of "\<lambda>k. if k = b then 0 else 1"]]) (use that in auto)
  have edges: "{(m, n). m \<in> set (df_destinations (?st n))} = {(m, n). m = 1 \<and> n = 0}"
    "{(m, n). m \<in> set (followed_inputs ?st n)} = {(m, n). m = 0 \<and> n = 1}"
    by (auto simp: long_transfer_def blank_df_node_def followed_inputs_def is_root_node_def split: if_splits)
  have ok: "df_graph_ok {0, 1} ?st"
    unfolding df_graph_ok_def edges using wf [of 0 1] wf [of 1 0]
    by (auto simp: encloses_def edges_are_inputs_def sources_are_inputs_def long_transfer_def blank_df_node_def)
  note limits = transfer_limits_consistent [OF ok, of "[0]" 64 4 "[1]", THEN conjunct2, rule_format, OF _ run]
  let ?next = "\<lambda>n. df_destinations (?st n)"
  have leaf: "reachable ?next [1] = {1}"
    by (subst reachable_unfold) (simp add: long_transfer_def blank_df_node_def)
  have "set (?next 0) = {1}" by (simp add: long_transfer_def blank_df_node_def)
  then have both: "reachable ?next [0] = {0, 1}" by (subst reachable_unfold) (use leaf in auto)
  have start: "1 \<in> reachable (followed_inputs ?st) [1]" by (rule reachable_start) simp
  have sent: "tiles_to_send (st' 1) = tiles_to_send (st' 0)"
    using limits start by (simp add: long_transfer_def blank_df_node_def is_root_node_def get_input_group_count_def is_union_def has_pipe_of_def)
  have "set [0] \<subseteq> {0, 1 :: nat}" by simp
  from limits [OF this] both have node: "phase_limit_ok 64 st' 1"
    "unat (subtree_common_divisor (st' 0)) dvd x \<longleftrightarrow> (\<forall>l \<in> {0, 1}. is_leaf_node (?st l) \<longrightarrow> unat (get_consume_granularity (?st l)) dvd x)" for x
    by simp_all
  have "\<not> is_leaf_node (?st 0)" by (simp add: long_transfer_def blank_df_node_def is_leaf_node_def)
  then have "unat (subtree_common_divisor (st' 0)) dvd unat (get_consume_granularity (?st 1))"
    using node(2) by auto
  then show ?thesis using run sent node(1) by (auto simp: phase_limit_ok_def)
qed

end
