(* ===== verification/PipeGraph.thy ===== *)
theory PipeGraph
  imports OperandStreams RationalGraph
begin

text \<open>
  pipegen2's pipe graph (\<open>src/src/pipegen2/lib/src/model/pipe_graph/\<close>): buffers and pipes as the netlist
  compiler wrote them down, with the operations of \<open>PGBuffer\<close>, \<open>PGPipe\<close> and \<open>PipeGraph\<close>. The graph
  owns its buffers and pipes in two vectors; a pointer is a number, and what is behind it stays where
  it is when the graph lets go of it, so that a dangling pointer is a number the vectors do not have.
\<close>

section \<open>Buffers\<close>

datatype BufferType =
    BufferDramProlog | BufferDramEpilog | BufferGradientOp | BufferIntermediate | BufferPacker | BufferUnpacker
  | BufferDramIO | BufferRelay | BufferEthernetRelay | BufferPrologRelay | BufferUnknown

datatype PrefetchType = PRE_TM | POST_TM

record PGBuffer =
  pgb_id :: u64
  pgb_op_name :: string
  pgb_type :: BufferType
  pgb_logical_location :: tt_cxy_pair
  pgb_num_epoch_tiles :: u32
  pgb_size_tiles :: u32
  pgb_tile_size :: u32
  pgb_num_tiles_per_input :: u32
  pgb_scatter_gather_num_tiles :: u32
  pgb_operand_id :: int
  num_queue_slots :: u32
  dram_io_flag :: bool
  dram_io_flag_is_remote :: bool
  dram_buf_streaming :: bool
  dram_buf_flag :: bool
  write_dram_buf_flag :: bool
  dram_ram_flag :: bool
  pgb_moves_raw_data :: bool
  untilized_output_full_r_dim :: u32
  untilized_output_full_c_dim :: u32
  untilized_output_r_dim :: u32
  untilized_output_c_dim :: u32
  untilized_output_z_dim :: u32
  untilized_output_type_0_zdim :: u32
  untilized_output_type_1_zdim :: u32
  untilized_output_tile_dim_r :: u32
  untilized_output_tile_dim_c :: u32
  ublock_rt :: u32
  ublock_ct :: u32
  mblock_m :: u32
  mblock_n :: u32
  mblock_k :: u32
  tile_clear_granularity :: u32
  shared_space_buffer_id :: u64
  producer_epoch_id :: int
  pgb_is_scatter :: bool
  pgb_replicate_count :: u32
  pgb_ethernet_channel :: int
  pgb_dram_channel :: u32
  dram_sub_channel :: u32
  pgb_is_padding :: bool
  pgb_dram_address :: u64
  dram_prefetch_incoming_noc_id :: int
  prefetch_type :: PrefetchType
  pgb_embedding_table :: bool
  embedding_table_core_c_div :: int
  embedding_table_row_size_per_core :: int
  pgb_embedding_index :: bool
  embedding_indices_per_tile :: u32
  embedding_indices_per_input :: u32
  pgb_hw_tilize :: bool
  tilize_mblock_n_loop_num_rows :: u32
  tilize_row_col_offset :: u32
  use_ethernet_fw_stream :: bool
  overlay_blob_size :: u32
  is_post_tm_relay_buf :: bool
  pgb_input_pipe :: "nat option"
  pgb_output_pipes :: "nat list"

definition default_tile_size :: u32 where "default_tile_size = 32"

definition unmapped_logical_location :: nat where "unmapped_logical_location = 255"

text \<open>The id \<open>-1\<close> is the largest number of its width.\<close>

definition new_PGBuffer :: PGBuffer where
  "new_PGBuffer =
     \<lparr>pgb_id = - 1, pgb_op_name = [], pgb_type = BufferUnknown,
      pgb_logical_location = \<lparr>cxy_chip = 2 ^ 64 - 1, cxy_x = 2 ^ 64 - 1, cxy_y = 2 ^ 64 - 1\<rparr>,
      pgb_num_epoch_tiles = 0, pgb_size_tiles = 0, pgb_tile_size = 0, pgb_num_tiles_per_input = 0,
      pgb_scatter_gather_num_tiles = 0, pgb_operand_id = - 1, num_queue_slots = 0, dram_io_flag = False,
      dram_io_flag_is_remote = False, dram_buf_streaming = False, dram_buf_flag = False,
      write_dram_buf_flag = False, dram_ram_flag = False, pgb_moves_raw_data = False,
      untilized_output_full_r_dim = 0, untilized_output_full_c_dim = 0, untilized_output_r_dim = 0,
      untilized_output_c_dim = 0, untilized_output_z_dim = 0, untilized_output_type_0_zdim = 0,
      untilized_output_type_1_zdim = 0, untilized_output_tile_dim_r = default_tile_size,
      untilized_output_tile_dim_c = default_tile_size, ublock_rt = 0, ublock_ct = 0, mblock_m = 0,
      mblock_n = 0, mblock_k = 0, tile_clear_granularity = 0, shared_space_buffer_id = - 1,
      producer_epoch_id = - 1, pgb_is_scatter = False, pgb_replicate_count = 0, pgb_ethernet_channel = - 1,
      pgb_dram_channel = 0, dram_sub_channel = 0, pgb_is_padding = False, pgb_dram_address = 0,
      dram_prefetch_incoming_noc_id = 0, prefetch_type = PRE_TM, pgb_embedding_table = False,
      embedding_table_core_c_div = 0, embedding_table_row_size_per_core = 0, pgb_embedding_index = False,
      embedding_indices_per_tile = 0, embedding_indices_per_input = 0, pgb_hw_tilize = False,
      tilize_mblock_n_loop_num_rows = default_tile_size, tilize_row_col_offset = 0,
      use_ethernet_fw_stream = False, overlay_blob_size = 0, is_post_tm_relay_buf = False,
      pgb_input_pipe = None, pgb_output_pipes = []\<rparr>"

text \<open>
  The copy constructor: the id and the pipes are new, the name is empty. It does not initialise the
  flag of a post TM relay, whose value \<open>junk\<close> is then anything.
\<close>

definition copy_PGBuffer :: "bool \<Rightarrow> PGBuffer \<Rightarrow> PGBuffer" where
  "copy_PGBuffer junk other =
     other\<lparr>pgb_id := - 1, pgb_op_name := [], is_post_tm_relay_buf := junk, pgb_input_pipe := None,
           pgb_output_pipes := []\<rparr>"

definition add_to_set :: "'a \<Rightarrow> 'a list \<Rightarrow> 'a list" where
  "add_to_set x xs = (if x \<in> set xs then xs else xs @ [x])"

lemma set_add_to_set [simp]: "set (add_to_set x xs) = insert x (set xs)"
  by (auto simp: add_to_set_def)

definition has_no_input :: "PGBuffer \<Rightarrow> bool" where
  "has_no_input b \<longleftrightarrow> pgb_input_pipe b = None"

definition has_no_outputs :: "PGBuffer \<Rightarrow> bool" where
  "has_no_outputs b \<longleftrightarrow> pgb_output_pipes b = []"

definition buffer_has_single_output :: "PGBuffer \<Rightarrow> bool" where
  "buffer_has_single_output b \<longleftrightarrow> length (pgb_output_pipes b) = 1"

definition shares_l1_space :: "PGBuffer \<Rightarrow> bool" where
  "shares_l1_space b \<longleftrightarrow> shared_space_buffer_id b \<noteq> - 1"

definition is_forked :: "PGBuffer \<Rightarrow> bool" where
  "is_forked b \<longleftrightarrow> length (pgb_output_pipes b) > 1"

definition is_dram :: "PGBuffer \<Rightarrow> bool" where
  "is_dram b \<longleftrightarrow> dram_io_flag b \<and> num_queue_slots b > 0
     \<and> \<not> (dram_buf_flag b \<or> dram_buf_streaming b \<or> write_dram_buf_flag b)"

definition is_dram_prefetch :: "PGBuffer \<Rightarrow> bool" where
  "is_dram_prefetch b \<longleftrightarrow> dram_buf_flag b \<and> \<not> dram_buf_streaming b \<and> \<not> is_intermediate_operand (pgb_operand_id b)"

definition is_dram_input :: "PGBuffer \<Rightarrow> bool" where
  "is_dram_input b \<longleftrightarrow> (is_dram b \<or> is_dram_prefetch b) \<and> \<not> pgb_moves_raw_data b"

definition is_dram_prefetch_post_tm :: "PGBuffer \<Rightarrow> bool" where
  "is_dram_prefetch_post_tm b \<longleftrightarrow> is_dram_prefetch b \<and> prefetch_type b = POST_TM"

definition is_dram_prefetch_pre_tm :: "PGBuffer \<Rightarrow> bool" where
  "is_dram_prefetch_pre_tm b \<longleftrightarrow> is_dram_prefetch b \<and> prefetch_type b = PRE_TM"

definition is_non_prefetch_pre_tm_dram_input :: "PGBuffer \<Rightarrow> bool" where
  "is_non_prefetch_pre_tm_dram_input b \<longleftrightarrow> is_dram_input b \<and> \<not> is_dram_prefetch_pre_tm b"

definition is_located_in_l1 :: "PGBuffer \<Rightarrow> bool" where
  "is_located_in_l1 b \<longleftrightarrow> \<not> (is_dram_input b \<and> \<not> is_dram_prefetch_pre_tm b) \<and> \<not> is_dram b"

definition is_end_to_end_queue :: "PGBuffer \<Rightarrow> bool" where
  "is_end_to_end_queue b \<longleftrightarrow> is_dram b \<and> \<not> has_no_input b \<and> \<not> has_no_outputs b"

definition is_dram_output :: "PGBuffer \<Rightarrow> bool" where
  "is_dram_output = is_dram"

definition is_packer :: "PGBuffer \<Rightarrow> bool" where
  "is_packer b \<longleftrightarrow> pgb_type b = BufferPacker"

definition is_unpacker :: "PGBuffer \<Rightarrow> bool" where
  "is_unpacker b \<longleftrightarrow> pgb_type b = BufferUnpacker"

section \<open>Pipes\<close>

datatype pg_error = InvalidPipeGraph tt_cxy_pair | PgOutOfRange | PgAssert | PgDivisionByZero | PgUndefined

record pg_input =
  input_buffer :: nat
  input_offset :: u32

text \<open>
  The inputs that replace the others at a padded scatter index are a hash map; where the code iterates
  over it, the order of its entries is a parameter.
\<close>

type_synonym padding_inputs = "(nat \<times> pg_input list) list"
type_synonym hash_order = "padding_inputs \<Rightarrow> padding_inputs"

record PGPipe =
  pgp_id :: u64
  pipe_periodic_repeat :: u32
  consumer_repeat :: u32
  pgp_ethernet_channel :: int
  pgp_incoming_noc_id :: NOC_ROUTE
  pgp_incoming_noc_vc :: int
  pgp_outgoing_noc_id :: NOC_ROUTE
  pgp_outgoing_noc_vc :: int
  mmio_pipe :: bool
  mmio_pipe_downstream :: bool
  ethernet_pipe :: bool
  disable_gather_optimization :: bool
  packer_multicast_optimization_enabled :: bool
  op_input_dram_io_buf_size_tiles :: u32
  mcast_core_logical_locations :: "tt_cxy_pair list"
  dram_pipe_total_readers :: "int list"
  dram_pipe_reader_index :: "int list"
  input_buffers_ids :: "u64 list"
  output_buffers_ids :: "u64 list list"
  output_padding_buffers_ids :: "u64 list"
  pgp_inputs :: "pg_input list"
  pgp_output_buffers :: "nat list list"
  output_padding_inputs :: padding_inputs

definition new_PGPipe :: "u64 \<Rightarrow> PGPipe" where
  "new_PGPipe node_id =
     \<lparr>pgp_id = node_id, pipe_periodic_repeat = 1, consumer_repeat = 1, pgp_ethernet_channel = - 1,
      pgp_incoming_noc_id = NOC0, pgp_incoming_noc_vc = 0, pgp_outgoing_noc_id = NOC0, pgp_outgoing_noc_vc = 0,
      mmio_pipe = False, mmio_pipe_downstream = False, ethernet_pipe = False, disable_gather_optimization = False,
      packer_multicast_optimization_enabled = False, op_input_dram_io_buf_size_tiles = 0,
      mcast_core_logical_locations = [], dram_pipe_total_readers = [], dram_pipe_reader_index = [],
      input_buffers_ids = [], output_buffers_ids = [], output_padding_buffers_ids = [], pgp_inputs = [],
      pgp_output_buffers = [], output_padding_inputs = []\<rparr>"

fun first_occurrences :: "'a set \<Rightarrow> 'a list \<Rightarrow> 'a list" where
  "first_occurrences seen [] = []"
| "first_occurrences seen (x # xs) =
     (if x \<in> seen then first_occurrences seen xs else x # first_occurrences (insert x seen) xs)"

lemma first_occurrences_set: "set (first_occurrences seen xs) = set xs - seen"
  by (induction seen xs rule: first_occurrences.induct) auto

lemma first_occurrences_distinct: "distinct (first_occurrences seen xs)"
  by (induction seen xs rule: first_occurrences.induct) (auto simp: first_occurrences_set)

definition is_output_padding :: "PGPipe \<Rightarrow> nat \<Rightarrow> bool" where
  "is_output_padding p k \<longleftrightarrow> map_of (output_padding_inputs p) k \<noteq> None"

definition get_pipe_inputs :: "PGPipe \<Rightarrow> nat \<Rightarrow> pg_input list" where
  "get_pipe_inputs p k = (case map_of (output_padding_inputs p) k of Some is \<Rightarrow> is | None \<Rightarrow> pgp_inputs p)"

definition remove_all_inputs :: "PGPipe \<Rightarrow> PGPipe" where
  "remove_all_inputs p = p\<lparr>pgp_inputs := [], input_buffers_ids := []\<rparr>"

definition get_unique_input_buffers :: "PGPipe \<Rightarrow> nat list" where
  "get_unique_input_buffers p = first_occurrences {} (map input_buffer (pgp_inputs p))"

definition has_single_input :: "PGPipe \<Rightarrow> bool" where
  "has_single_input p \<longleftrightarrow> length (pgp_inputs p) = 1"

definition pipe_has_single_output :: "PGPipe \<Rightarrow> bool" where
  "pipe_has_single_output p = (case pgp_output_buffers p of [[b]] \<Rightarrow> True | _ \<Rightarrow> False)"

definition get_single_output_buffer :: "PGPipe \<Rightarrow> pg_error + nat" where
  "get_single_output_buffer p = (case pgp_output_buffers p of [[b]] \<Rightarrow> Inr b | _ \<Rightarrow> Inl PgAssert)"

fun padding_heads :: "(nat \<times> pg_input list) list \<Rightarrow> pg_error + nat list" where
  "padding_heads [] = Inr []"
| "padding_heads ((k, is) # ps) =
     (case is of [] \<Rightarrow> Inl PgAssert
      | i # _ \<Rightarrow> bind_sum (padding_heads ps) (\<lambda>bs. Inr (input_buffer i # bs)))"

definition get_unique_output_padding_buffers :: "hash_order \<Rightarrow> PGPipe \<Rightarrow> pg_error + nat list" where
  "get_unique_output_padding_buffers order p =
     bind_sum (padding_heads (order (output_padding_inputs p))) (\<lambda>bs. Inr (first_occurrences {} bs))"

definition get_unique_input_buffers_including_output_padding :: "hash_order \<Rightarrow> PGPipe \<Rightarrow> pg_error + nat list" where
  "get_unique_input_buffers_including_output_padding order p =
     (let inputs = get_unique_input_buffers p in
      bind_sum (get_unique_output_padding_buffers order p)
        (\<lambda>bs. Inr (inputs @ first_occurrences (set inputs) bs)))"

definition has_single_buffer_input :: "PGPipe \<Rightarrow> bool" where
  "has_single_buffer_input p \<longleftrightarrow> length (get_unique_input_buffers p) = 1"

text \<open>A repeat count of zero does not get past the first of the ids.\<close>

partial_function (option) scan_output_lists :: "u64 list list \<Rightarrow> nat \<Rightarrow> nat \<Rightarrow> u64 list set \<Rightarrow> bool option" where
  "scan_output_lists ids step i seen =
     (if \<not> i < length ids then Some False
      else if ids ! i \<in> seen then Some True
      else scan_output_lists ids step (i + step) (insert (ids ! i) seen))"

declare scan_output_lists.simps [code]

definition has_output_list_duplicates :: "PGPipe \<Rightarrow> bool option" where
  "has_output_list_duplicates p = scan_output_lists (output_buffers_ids p) (unat (consumer_repeat p)) 0 {}"

definition has_consumer_duplicates :: "PGPipe \<Rightarrow> bool option" where
  "has_consumer_duplicates p = (if consumer_repeat p > 1 then Some True else has_output_list_duplicates p)"

definition add_output_buffer :: "nat \<Rightarrow> nat \<Rightarrow> PGPipe \<Rightarrow> PGPipe" where
  "add_output_buffer b k p =
     (let outs = pgp_output_buffers p @ replicate (Suc k - length (pgp_output_buffers p)) []
      in p\<lparr>pgp_output_buffers := outs[k := outs ! k @ [b]]\<rparr>)"

definition replace_output_buffer :: "nat \<Rightarrow> nat \<Rightarrow> PGPipe \<Rightarrow> PGPipe" where
  "replace_output_buffer old new p =
     p\<lparr>pgp_output_buffers := map (map (\<lambda>b. if b = old then new else b)) (pgp_output_buffers p)\<rparr>"

definition add_pipe_input :: "pg_input \<Rightarrow> PGPipe \<Rightarrow> PGPipe" where
  "add_pipe_input i p = p\<lparr>pgp_inputs := pgp_inputs p @ [i]\<rparr>"

section \<open>The graph\<close>

record pipe_graph =
  pg_buffers :: "nat list"
  pg_pipes :: "nat list"
  buffer_at :: "nat \<Rightarrow> PGBuffer"
  pipe_at :: "nat \<Rightarrow> PGPipe"
  next_buffer :: nat
  next_pipe :: nat

definition at_buffer :: "nat \<Rightarrow> (PGBuffer \<Rightarrow> PGBuffer) \<Rightarrow> pipe_graph \<Rightarrow> pipe_graph" where
  "at_buffer b f g = g\<lparr>buffer_at := (buffer_at g)(b := f (buffer_at g b))\<rparr>"

definition at_pipe :: "nat \<Rightarrow> (PGPipe \<Rightarrow> PGPipe) \<Rightarrow> pipe_graph \<Rightarrow> pipe_graph" where
  "at_pipe p f g = g\<lparr>pipe_at := (pipe_at g)(p := f (pipe_at g p))\<rparr>"

text \<open>\<open>std::make_unique\<close>: a new object, which the graph does not own yet.\<close>

definition make_buffer :: "PGBuffer \<Rightarrow> pipe_graph \<Rightarrow> nat \<times> pipe_graph" where
  "make_buffer b g = (next_buffer g, g\<lparr>buffer_at := (buffer_at g)(next_buffer g := b), next_buffer := Suc (next_buffer g)\<rparr>)"

definition make_pipe :: "PGPipe \<Rightarrow> pipe_graph \<Rightarrow> nat \<times> pipe_graph" where
  "make_pipe p g = (next_pipe g, g\<lparr>pipe_at := (pipe_at g)(next_pipe g := p), next_pipe := Suc (next_pipe g)\<rparr>)"

definition add_buffer :: "nat \<Rightarrow> pipe_graph \<Rightarrow> pipe_graph" where
  "add_buffer b g = g\<lparr>pg_buffers := pg_buffers g @ [b]\<rparr>"

definition add_pipe :: "nat \<Rightarrow> pipe_graph \<Rightarrow> pipe_graph" where
  "add_pipe p g = g\<lparr>pg_pipes := pg_pipes g @ [p]\<rparr>"

definition add_pipes :: "nat list \<Rightarrow> pipe_graph \<Rightarrow> pipe_graph" where
  "add_pipes ps g = g\<lparr>pg_pipes := pg_pipes g @ ps\<rparr>"

definition remove_buffers :: "nat set \<Rightarrow> pipe_graph \<Rightarrow> pipe_graph" where
  "remove_buffers bs g = g\<lparr>pg_buffers := [b \<leftarrow> pg_buffers g. b \<notin> bs]\<rparr>"

definition remove_pipes :: "nat set \<Rightarrow> pipe_graph \<Rightarrow> pipe_graph" where
  "remove_pipes ps g = g\<lparr>pg_pipes := [p \<leftarrow> pg_pipes g. p \<notin> ps]\<rparr>"

definition get_all_node_ids :: "pipe_graph \<Rightarrow> u64 list" where
  "get_all_node_ids g =
     map (\<lambda>b. pgb_id (buffer_at g b)) (pg_buffers g) @ map (\<lambda>p. pgp_id (pipe_at g p)) (pg_pipes g)"

definition is_unmapped_location :: "tt_cxy_pair \<Rightarrow> bool" where
  "is_unmapped_location l \<longleftrightarrow> cxy_x l = unmapped_logical_location \<and> cxy_y l = unmapped_logical_location"

definition get_all_chip_ids :: "pipe_graph \<Rightarrow> nat set" where
  "get_all_chip_ids g =
     (\<lambda>b. cxy_chip (pgb_logical_location (buffer_at g b))) ` set (pg_buffers g)
     \<union> (\<Union>p \<in> set (pg_pipes g). cxy_chip ` {l \<in> set (mcast_core_logical_locations (pipe_at g p)). \<not> is_unmapped_location l})"

definition get_shared_output_buffer :: "u64 \<Rightarrow> pipe_graph \<Rightarrow> nat option" where
  "get_shared_output_buffer i g = List.find (\<lambda>b. shared_space_buffer_id (buffer_at g b) = i) (pg_buffers g)"

section \<open>Pipes and the buffers they read\<close>

definition get_num_msgs_per_scatter_index :: "pipe_graph \<Rightarrow> PGPipe \<Rightarrow> u32" where
  "get_num_msgs_per_scatter_index g p =
     (\<Sum>i \<leftarrow> pgp_inputs p. pgb_scatter_gather_num_tiles (buffer_at g (input_buffer i)))"

text \<open>\<open>emplace\<close> leaves an entry that is there already.\<close>

definition emplace_padding :: "nat \<Rightarrow> pg_input list \<Rightarrow> PGPipe \<Rightarrow> PGPipe" where
  "emplace_padding k is p =
     (if is_output_padding p k then p else p\<lparr>output_padding_inputs := output_padding_inputs p @ [(k, is)]\<rparr>)"

definition add_output_padding_buffer :: "pipe_graph \<Rightarrow> nat \<Rightarrow> nat \<Rightarrow> PGPipe \<Rightarrow> pg_error + PGPipe" where
  "add_output_padding_buffer g b k p =
     (let n = get_num_msgs_per_scatter_index g p; tiles = pgb_scatter_gather_num_tiles (buffer_at g b) in
      if tiles = 0 then Inl PgDivisionByZero
      else if n mod tiles \<noteq> 0 then Inl PgAssert
      else Inr (emplace_padding k (replicate (unat (n div tiles)) \<lparr>input_buffer = b, input_offset = 0\<rparr>) p))"

definition all_inputs :: "(PGBuffer \<Rightarrow> bool) \<Rightarrow> pipe_graph \<Rightarrow> PGPipe \<Rightarrow> bool" where
  "all_inputs P g p \<longleftrightarrow> (\<forall>i \<in> set (pgp_inputs p). P (buffer_at g (input_buffer i)))"

definition is_connecting_l1_buffers :: "pipe_graph \<Rightarrow> PGPipe \<Rightarrow> pg_error + bool" where
  "is_connecting_l1_buffers g p =
     (case pgp_output_buffers p of [] \<Rightarrow> Inl PgUndefined
      | first # _ \<Rightarrow> Inr (all_inputs is_located_in_l1 g p
          \<and> (\<forall>b \<in> set first. is_located_in_l1 (buffer_at g b))))"

definition has_non_prefetch_pre_tm_dram_input :: "pipe_graph \<Rightarrow> PGPipe \<Rightarrow> bool" where
  "has_non_prefetch_pre_tm_dram_input = all_inputs is_non_prefetch_pre_tm_dram_input"

definition is_dram_prefetch_post_tm_pipe :: "pipe_graph \<Rightarrow> PGPipe \<Rightarrow> bool" where
  "is_dram_prefetch_post_tm_pipe g p \<longleftrightarrow>
     (\<exists>i \<in> set (pgp_inputs p). is_dram_prefetch_post_tm (buffer_at g (input_buffer i)))"

definition reads_intermediate :: "pipe_graph \<Rightarrow> pg_input \<Rightarrow> bool" where
  "reads_intermediate g i \<longleftrightarrow> is_intermediate_operand (pgb_operand_id (buffer_at g (input_buffer i)))"

definition writes_intermediate :: "pipe_graph \<Rightarrow> PGPipe \<Rightarrow> bool" where
  "writes_intermediate g p =
     (case pgp_output_buffers p of [[b]] \<Rightarrow> is_intermediate_operand (pgb_operand_id (buffer_at g b)) | _ \<Rightarrow> False)"

definition is_direct_intermediate_pipe :: "pipe_graph \<Rightarrow> PGPipe \<Rightarrow> bool" where
  "is_direct_intermediate_pipe g p =
     (case pgp_inputs p of [i] \<Rightarrow> reads_intermediate g i \<and> writes_intermediate g p | _ \<Rightarrow> False)"

definition is_join_intermediate_pipe :: "pipe_graph \<Rightarrow> PGPipe \<Rightarrow> bool" where
  "is_join_intermediate_pipe g p =
     (case pgp_inputs p of [i, j] \<Rightarrow> (reads_intermediate g i \<or> reads_intermediate g j) \<and> writes_intermediate g p
      | _ \<Rightarrow> False)"

section \<open>The output pipes of a buffer\<close>

text \<open>The message of a failed assertion reads the id of a pipe, which exists; erasing keeps the others.\<close>

definition replace_output_pipe_of_buffer :: "nat \<Rightarrow> nat \<Rightarrow> PGBuffer \<Rightarrow> pg_error + PGBuffer" where
  "replace_output_pipe_of_buffer old new b =
     (if old \<notin> set (pgb_output_pipes b) then Inl PgAssert
      else Inr (b\<lparr>pgb_output_pipes := add_to_set new (removeAll old (pgb_output_pipes b))\<rparr>))"

definition get_single_output_pipe :: "PGBuffer \<Rightarrow> pg_error + nat" where
  "get_single_output_pipe b = (case pgb_output_pipes b of [p] \<Rightarrow> Inr p | _ \<Rightarrow> Inl PgAssert)"

definition has_output_pipe_id :: "pipe_graph \<Rightarrow> PGBuffer \<Rightarrow> u64 \<Rightarrow> bool" where
  "has_output_pipe_id g b i \<longleftrightarrow> (\<exists>p \<in> set (pgb_output_pipes b). pgp_id (pipe_at g p) = i)"

definition add_output_pipe_to_buffer :: "nat \<Rightarrow> PGBuffer \<Rightarrow> PGBuffer" where
  "add_output_pipe_to_buffer p b = b\<lparr>pgb_output_pipes := add_to_set p (pgb_output_pipes b)\<rparr>"

end
