(* ===== verification/PGSubgraphs.thy ===== *)
theory PGSubgraphs
  imports PipeGraph "HOL-Library.Multiset"
begin

text \<open>
  The split of a pipe graph into connected subgraphs
  (\<open>graph_creator/rational_graph/pg_subgraph_finder.cpp\<close>): disjoint sets in a map from a node to a
  node of its set, with union by size and path compression, and the proof that the sets are the
  connected components. Looking up a key in an unordered map inserts zero for a new one.
\<close>

section \<open>Disjoint sets\<close>

type_synonym id_map = "u64 \<Rightarrow> u64 option"

definition lookup_default :: "u64 \<Rightarrow> id_map \<Rightarrow> u64 \<times> id_map" where
  "lookup_default n m = (case m n of Some p \<Rightarrow> (p, m) | None \<Rightarrow> (0, m(n \<mapsto> 0)))"

partial_function (option) find_node_subgraph_id :: "u64 \<Rightarrow> id_map \<Rightarrow> (u64 \<times> id_map) option" where
  "find_node_subgraph_id n m =
     (let p = fst (lookup_default n m); m1 = snd (lookup_default n m) in
      if p = n then Some (p, m1)
      else Option.bind (find_node_subgraph_id p m1) (\<lambda>s. Some (fst s, (snd s)(n \<mapsto> fst s))))"

declare find_node_subgraph_id.simps [code]

record PGSubgraph =
  subgraph_buffers :: "nat list"
  subgraph_pipes :: "nat list"

text \<open>The last map is an ordered one.\<close>

record subgraph_finder =
  node_subgraph_id :: id_map
  subgraph_size :: "u64 \<Rightarrow> nat option"
  subgraphs_per_id :: "(u64 \<times> PGSubgraph) list"

definition empty_finder :: subgraph_finder where
  "empty_finder = \<lparr>node_subgraph_id = Map.empty, subgraph_size = Map.empty, subgraphs_per_id = []\<rparr>"

definition size_or_zero :: "(u64 \<Rightarrow> nat option) \<Rightarrow> u64 \<Rightarrow> nat" where
  "size_or_zero sizes r = (case sizes r of None \<Rightarrow> 0 | Some n \<Rightarrow> n)"

definition unite :: "u64 \<Rightarrow> u64 \<Rightarrow> subgraph_finder \<Rightarrow> subgraph_finder" where
  "unite big small s =
     s\<lparr>subgraph_size := (subgraph_size s)(small \<mapsto> size_or_zero (subgraph_size s) small,
                          big \<mapsto> size_or_zero (subgraph_size s) big + size_or_zero (subgraph_size s) small),
       node_subgraph_id := (node_subgraph_id s)(small \<mapsto> big)\<rparr>"

definition connect_nodes :: "u64 \<Rightarrow> u64 \<Rightarrow> subgraph_finder \<Rightarrow> subgraph_finder option" where
  "connect_nodes n1 n2 s =
     Option.bind (find_node_subgraph_id n1 (node_subgraph_id s)) (\<lambda>(r1, m1).
     Option.bind (find_node_subgraph_id n2 m1) (\<lambda>(r2, m2).
       let s2 = s\<lparr>node_subgraph_id := m2\<rparr> in
       if r1 = r2 then Some s2
       else if size_or_zero (subgraph_size s) r1 < size_or_zero (subgraph_size s) r2 then Some (unite r2 r1 s2)
       else Some (unite r1 r2 s2)))"

fun connect_each :: "(u64 \<times> u64) list \<Rightarrow> subgraph_finder \<Rightarrow> subgraph_finder option" where
  "connect_each [] s = Some s"
| "connect_each ((a, b) # es) s = Option.bind (connect_nodes a b s) (connect_each es)"

section \<open>The finder\<close>

definition pipe_edges :: "hash_order \<Rightarrow> pipe_graph \<Rightarrow> nat \<Rightarrow> pg_error + (u64 \<times> u64) list" where
  "pipe_edges order g p =
     bind_sum (get_unique_input_buffers_including_output_padding order (pipe_at g p)) (\<lambda>bs.
       Inr (map (\<lambda>b. (pgb_id (buffer_at g b), pgp_id (pipe_at g p)))
              (bs @ concat (pgp_output_buffers (pipe_at g p)))))"

fun connect_pipes :: "hash_order \<Rightarrow> pipe_graph \<Rightarrow> nat list \<Rightarrow> subgraph_finder \<Rightarrow> (pg_error + subgraph_finder) option" where
  "connect_pipes order g [] s = Some (Inr s)"
| "connect_pipes order g (p # ps) s =
     rbind (Some (pipe_edges order g p)) (\<lambda>es. Option.bind (connect_each es s) (connect_pipes order g ps))"

definition shared_space_edges :: "pipe_graph \<Rightarrow> (u64 \<times> u64) list" where
  "shared_space_edges g =
     [(pgb_id (buffer_at g b), shared_space_buffer_id (buffer_at g b)). b \<leftarrow> pg_buffers g, shares_l1_space (buffer_at g b)]"

definition own_groups :: "u64 list \<Rightarrow> subgraph_finder \<Rightarrow> subgraph_finder" where
  "own_groups ids s = fold (\<lambda>i s. s\<lparr>node_subgraph_id := (node_subgraph_id s)(i \<mapsto> i),
                                    subgraph_size := (subgraph_size s)(i \<mapsto> 1)\<rparr>) ids s"

definition find_connected_nodes :: "hash_order \<Rightarrow> pipe_graph \<Rightarrow> subgraph_finder \<Rightarrow> (pg_error + subgraph_finder) option" where
  "find_connected_nodes order g s =
     rbind (connect_pipes order g (pg_pipes g) (own_groups (get_all_node_ids g) s))
       (\<lambda>s1. map_option Inr (connect_each (shared_space_edges g) s1))"

fun update_subgraph :: "u64 \<Rightarrow> (PGSubgraph \<Rightarrow> PGSubgraph) \<Rightarrow> (u64 \<times> PGSubgraph) list \<Rightarrow> (u64 \<times> PGSubgraph) list" where
  "update_subgraph i f [] = [(i, f \<lparr>subgraph_buffers = [], subgraph_pipes = []\<rparr>)]"
| "update_subgraph i f ((k, sub) # subs) =
     (if i = k then (k, f sub) # subs
      else if i < k then (i, f \<lparr>subgraph_buffers = [], subgraph_pipes = []\<rparr>) # (k, sub) # subs
      else (k, sub) # update_subgraph i f subs)"

fun add_subgraph_nodes ::
  "(nat \<Rightarrow> u64) \<Rightarrow> (nat \<Rightarrow> PGSubgraph \<Rightarrow> PGSubgraph) \<Rightarrow> nat list \<Rightarrow> subgraph_finder \<Rightarrow> subgraph_finder option" where
  "add_subgraph_nodes node_id add [] s = Some s"
| "add_subgraph_nodes node_id add (n # ns) s =
     Option.bind (find_node_subgraph_id (node_id n) (node_subgraph_id s)) (\<lambda>(r, m).
       add_subgraph_nodes node_id add ns
         (s\<lparr>node_subgraph_id := m, subgraphs_per_id := update_subgraph r (add n) (subgraphs_per_id s)\<rparr>))"

definition add_subgraph_buffers :: "pipe_graph \<Rightarrow> subgraph_finder \<Rightarrow> subgraph_finder option" where
  "add_subgraph_buffers g =
     add_subgraph_nodes (\<lambda>b. pgb_id (buffer_at g b)) (\<lambda>b. subgraph_buffers_update (\<lambda>bs. bs @ [b])) (pg_buffers g)"

definition add_subgraph_pipes :: "pipe_graph \<Rightarrow> subgraph_finder \<Rightarrow> subgraph_finder option" where
  "add_subgraph_pipes g =
     add_subgraph_nodes (\<lambda>p. pgp_id (pipe_at g p)) (\<lambda>p. subgraph_pipes_update (\<lambda>ps. ps @ [p])) (pg_pipes g)"

definition find_subgraphs :: "hash_order \<Rightarrow> pipe_graph \<Rightarrow> subgraph_finder \<Rightarrow> (pg_error + PGSubgraph list \<times> subgraph_finder) option" where
  "find_subgraphs order g s =
     rbind (find_connected_nodes order g s) (\<lambda>s1.
     Option.bind (Option.bind (add_subgraph_buffers g s1) (add_subgraph_pipes g)) (\<lambda>s2.
       Some (Inr (map snd (subgraphs_per_id s2), s2))))"

section \<open>Roots\<close>

inductive root_of :: "id_map \<Rightarrow> u64 \<Rightarrow> u64 \<Rightarrow> bool" for m where
  self: "m n = Some n \<Longrightarrow> root_of m n n"
| up: "m n = Some p \<Longrightarrow> p \<noteq> n \<Longrightarrow> root_of m p r \<Longrightarrow> root_of m n r"

inductive_cases root_ofE: "root_of m n r"

lemma root_of_root: "root_of m n r \<Longrightarrow> m r = Some r"
  by (induction rule: root_of.induct) auto

lemma root_of_unique: "root_of m n r \<Longrightarrow> root_of m n q \<Longrightarrow> q = r"
proof (induction arbitrary: q rule: root_of.induct)
  case (self n)
  from self(2,1) show ?case by (cases rule: root_of.cases) auto
next
  case (up n p r)
  from up(5,1,2) have "root_of m p q" by (cases rule: root_of.cases) auto
  then show ?case by (rule up.IH)
qed

text \<open>Pointing a node at its root changes no root.\<close>

lemma compress_roots:
  assumes "root_of m n r"
  shows "root_of (m(n \<mapsto> r)) k q \<longleftrightarrow> root_of m k q"
proof
  have root: "m r = Some r" by (rule root_of_root [OF assms])
  show "root_of m k q" if "root_of (m(n \<mapsto> r)) k q"
    using that
  proof (induction rule: root_of.induct)
    case (self k)
    then show ?case using assms by (cases "k = n") (auto intro: root_of.self)
  next
    case (up k p q)
    show ?case
    proof (cases "k = n")
      case True
      then have "root_of m r q" using up by simp
      then have "q = r" using root_of_unique root_of.self [of m r] root by blast
      then show ?thesis using True assms by simp
    next
      case False
      then show ?thesis using up by (auto intro: root_of.up)
    qed
  qed
  have there: "root_of (m(n \<mapsto> r)) n r"
  proof (cases "n = r")
    case True
    then show ?thesis by (auto intro: root_of.self)
  next
    case False
    then have "root_of (m(n \<mapsto> r)) r r" using root by (auto intro: root_of.self)
    then show ?thesis using False by (auto intro: root_of.up)
  qed
  show "root_of (m(n \<mapsto> r)) k q" if "root_of m k q"
    using that
  proof (induction rule: root_of.induct)
    case (self k)
    then show ?case using there root_of_unique [OF assms root_of.self] by (cases "k = n") (auto intro: root_of.self)
  next
    case (up k p q)
    show ?case
    proof (cases "k = n")
      case True
      then have "q = r" using root_of_unique [OF assms] root_of.up [OF up(1-3)] by simp
      with True there show ?thesis by (simp del: fun_upd_apply)
    next
      case False
      then show ?thesis using up by (auto intro: root_of.up)
    qed
  qed
qed

lemma find_finds_root:
  "root_of m n r \<Longrightarrow> \<exists>m'. find_node_subgraph_id n m = Some (r, m') \<and> root_of m' = root_of m"
proof (induction rule: root_of.induct)
  case (self n)
  then show ?case by (subst find_node_subgraph_id.simps) (simp add: lookup_default_def)
next
  case (up n p r)
  then obtain m1 where m1: "find_node_subgraph_id p m = Some (r, m1)" "root_of m1 = root_of m" by blast
  have "root_of m1 n r" using root_of.up [OF up(1-3)] m1(2) by simp
  then have "root_of (m1(n \<mapsto> r)) = root_of m" using compress_roots m1(2) by (intro ext) metis
  then show ?case using up(1,2) m1(1)
    by (subst find_node_subgraph_id.simps) (simp add: lookup_default_def)
qed

lemma link_roots:
  assumes "m big = Some big" and "m small = Some small" and "big \<noteq> small"
  shows "root_of (m(small \<mapsto> big)) k q \<longleftrightarrow> (\<exists>r. root_of m k r \<and> q = (if r = small then big else r))"
proof
  let ?m = "m(small \<mapsto> big)"
  show "\<exists>r. root_of m k r \<and> q = (if r = small then big else r)" if "root_of ?m k q"
    using that
  proof (induction rule: root_of.induct)
    case (self k)
    then show ?case using assms(3) by (intro exI [of _ k]) (auto intro: root_of.self split: if_splits)
  next
    case (up k p q)
    show ?case
    proof (cases "k = small")
      case True
      then have "p = big" using up(1) by simp
      then have "q = big" using up(4) root_of_unique [OF root_of.self [of m big, OF assms(1)]] assms(3) by auto
      then show ?thesis using True root_of.self [of m small, OF assms(2)] by auto
    next
      case False
      then show ?thesis using up by (auto intro: root_of.up)
    qed
  qed
  have big: "root_of ?m big big" using assms by (auto intro: root_of.self)
  show "root_of ?m k q" if "\<exists>r. root_of m k r \<and> q = (if r = small then big else r)"
  proof -
    from that obtain r where "root_of m k r" and q: "q = (if r = small then big else r)" by blast
    from this(1) have "root_of ?m k (if r = small then big else r)"
    proof (induction rule: root_of.induct)
      case (self k)
      show ?case
      proof (cases "k = small")
        case True
        have "root_of ?m small big" by (rule root_of.up [OF _ assms(3) big]) simp
        then show ?thesis using True by (simp del: fun_upd_apply)
      next
        case False
        then show ?thesis using self by (auto intro: root_of.self)
      qed
    next
      case (up k p r)
      then have "k \<noteq> small" using assms(2) by auto
      then show ?case using up by (auto intro: root_of.up)
    qed
    then show ?thesis using q by simp
  qed
qed

section \<open>The sets are the components\<close>

text \<open>Every node of \<open>V\<close> has a root in \<open>V\<close>; nodes are together when they have the same one.\<close>

definition together :: "id_map \<Rightarrow> u64 \<Rightarrow> u64 \<Rightarrow> bool" where
  "together m x y \<longleftrightarrow> (\<exists>r. root_of m x r \<and> root_of m y r)"

definition rooted :: "u64 set \<Rightarrow> id_map \<Rightarrow> bool" where
  "rooted V m \<longleftrightarrow> (\<forall>n \<in> V. \<exists>r. root_of m n r)"

lemma together_refl: "rooted V m \<Longrightarrow> x \<in> V \<Longrightarrow> together m x x"
  by (auto simp: rooted_def together_def)

lemma together_sym: "together m x y \<Longrightarrow> together m y x"
  by (auto simp: together_def)

lemma together_trans: "together m x y \<Longrightarrow> together m y z \<Longrightarrow> together m x z"
  unfolding together_def using root_of_unique by metis

text \<open>The specification: the nodes that the edges connect.\<close>

definition connected_by :: "(u64 \<times> u64) set \<Rightarrow> u64 \<Rightarrow> u64 \<Rightarrow> bool" where
  "connected_by E x y \<longleftrightarrow> (x, y) \<in> (E \<union> E\<inverse>)\<^sup>*"

lemma connected_refl: "connected_by E x x"
  by (simp add: connected_by_def)

lemma connected_edge: "(x, y) \<in> E \<Longrightarrow> connected_by E x y"
  by (auto simp: connected_by_def)

lemma connected_sym: "connected_by E x y \<Longrightarrow> connected_by E y x"
  unfolding connected_by_def using sym_rtrancl [of "E \<union> E\<inverse>"] by (auto simp: sym_def)

lemma connected_trans: "connected_by E x y \<Longrightarrow> connected_by E y z \<Longrightarrow> connected_by E x z"
  unfolding connected_by_def by (rule rtrancl_trans)

lemma connected_mono: "connected_by E x y \<Longrightarrow> E \<subseteq> F \<Longrightarrow> connected_by F x y"
  unfolding connected_by_def by (meson Un_mono converse_mono rtrancl_mono subsetD)

definition sets_of :: "u64 set \<Rightarrow> (u64 \<times> u64) set \<Rightarrow> id_map \<Rightarrow> bool" where
  "sets_of V E m \<longleftrightarrow> rooted V m \<and> (\<forall>x \<in> V. \<forall>y \<in> V. together m x y \<longrightarrow> connected_by E x y)
     \<and> (\<forall>(x, y) \<in> E. together m x y)"

lemma sets_of_components:
  assumes "sets_of V E m" and "x \<in> V" and "y \<in> V"
  shows "together m x y \<longleftrightarrow> connected_by E x y"
proof
  assume "connected_by E x y"
  then have "(x, y) \<in> (E \<union> E\<inverse>)\<^sup>*" by (simp add: connected_by_def)
  then show "together m x y"
  proof (induction rule: rtrancl_induct)
    case base
    then show ?case using assms by (auto simp: sets_of_def intro: together_refl)
  next
    case (step y z)
    then have "together m y z" using assms(1) by (auto simp: sets_of_def intro: together_sym)
    then show ?case using step(3) together_trans by blast
  qed
qed (use assms in \<open>auto simp: sets_of_def\<close>)

lemma together_cong: "root_of m' = root_of m \<Longrightarrow> together m' = together m"
  by (intro ext) (simp add: together_def)

lemma together_linked:
  assumes "root_of m a big" and "root_of m b small" and "big \<noteq> small"
  shows "together (m(small \<mapsto> big)) x y
    \<longleftrightarrow> together m x y \<or> (together m x a \<and> together m b y) \<or> (together m x b \<and> together m a y)"
proof -
  note link = link_roots [OF root_of_root [OF assms(1)] root_of_root [OF assms(2)] assms(3)]
  have a: "together m x a \<longleftrightarrow> root_of m x big" "together m a x \<longleftrightarrow> root_of m x big" for x
    using assms(1) root_of_unique by (auto simp: together_def)
  have b: "together m x b \<longleftrightarrow> root_of m x small" "together m b x \<longleftrightarrow> root_of m x small" for x
    using assms(2) root_of_unique by (auto simp: together_def)
  have same: "(if q = small then big else q) = (if r = small then big else r)
      \<longleftrightarrow> q = r \<or> (q = big \<and> r = small) \<or> (q = small \<and> r = big)" for q r
    using assms(3) by auto
  have "together (m(small \<mapsto> big)) x y \<longleftrightarrow> (\<exists>q r. root_of m x q \<and> root_of m y r
      \<and> (if q = small then big else q) = (if r = small then big else r))"
    unfolding together_def link by auto
  also have "\<dots> \<longleftrightarrow> together m x y \<or> (root_of m x big \<and> root_of m y small) \<or> (root_of m x small \<and> root_of m y big)"
    unfolding same together_def by blast
  finally show ?thesis unfolding a b .
qed

lemma rooted_linked:
  assumes "rooted V m" and "root_of m a big" and "root_of m b small" and "big \<noteq> small"
  shows "rooted V (m(small \<mapsto> big))"
  using assms(1) link_roots [OF root_of_root [OF assms(2)] root_of_root [OF assms(3)] assms(4)]
  by (auto simp: rooted_def simp del: fun_upd_apply)

lemma connect_nodes_spec:
  assumes "rooted V (node_subgraph_id s)" and "a \<in> V" and "b \<in> V"
  shows "\<exists>t. connect_nodes a b s = Some t \<and> rooted V (node_subgraph_id t) \<and> subgraphs_per_id t = subgraphs_per_id s
    \<and> (\<forall>x y. together (node_subgraph_id t) x y \<longleftrightarrow> (let m = node_subgraph_id s in
         together m x y \<or> (together m x a \<and> together m b y) \<or> (together m x b \<and> together m a y)))"
proof -
  let ?m = "node_subgraph_id s"
  obtain r1 where r1: "root_of ?m a r1" using assms by (auto simp: rooted_def)
  obtain r2 where r2: "root_of ?m b r2" using assms by (auto simp: rooted_def)
  obtain m1 where m1: "find_node_subgraph_id a ?m = Some (r1, m1)" "root_of m1 = root_of ?m"
    using find_finds_root [OF r1] by blast
  obtain m2 where m2: "find_node_subgraph_id b m1 = Some (r2, m2)" "root_of m2 = root_of ?m"
    using find_finds_root [of m1 b r2] r2 m1(2) by auto
  have root2: "root_of m2 a r1" "root_of m2 b r2" using r1 r2 m2(2) by simp_all
  have rooted2: "rooted V m2" using assms(1) m2(2) by (simp add: rooted_def)
  note same2 = together_cong [OF m2(2)]
  show ?thesis
  proof (cases "r1 = r2")
    case True
    then have "together ?m a b" using r1 r2 by (auto simp: together_def)
    then have "together ?m x y \<longleftrightarrow> together ?m x y \<or> (together ?m x a \<and> together ?m b y) \<or> (together ?m x b \<and> together ?m a y)" for x y
      using together_trans together_sym by meson
    then show ?thesis using True m1(1) m2(1) rooted2 same2 by (simp add: connect_nodes_def)
  next
    case False
    note linked = together_linked [OF root2(1,2) False] together_linked [OF root2(2,1) False [symmetric]]
    note still = rooted_linked [OF rooted2 root2(1,2) False] rooted_linked [OF rooted2 root2(2,1) False [symmetric]]
    show ?thesis
      using False m1(1) m2(1) linked still same2
      by (simp add: connect_nodes_def unite_def Let_def del: fun_upd_apply) (auto simp: Let_def)
  qed
qed

lemma connect_nodes_sets:
  assumes "sets_of V E (node_subgraph_id s)" and "a \<in> V" and "b \<in> V"
  shows "\<exists>t. connect_nodes a b s = Some t \<and> sets_of V (insert (a, b) E) (node_subgraph_id t)
    \<and> subgraphs_per_id t = subgraphs_per_id s"
proof -
  let ?F = "insert (a, b) E"
  have rooted: "rooted V (node_subgraph_id s)" using assms(1) by (simp add: sets_of_def)
  obtain t where t: "connect_nodes a b s = Some t" "rooted V (node_subgraph_id t)" "subgraphs_per_id t = subgraphs_per_id s"
    and tog: "\<And>x y. together (node_subgraph_id t) x y \<longleftrightarrow> (let m = node_subgraph_id s in
         together m x y \<or> (together m x a \<and> together m b y) \<or> (together m x b \<and> together m a y))"
    using connect_nodes_spec [OF rooted assms(2,3)] by blast
  have old: "connected_by ?F x y" if "together (node_subgraph_id s) x y" "x \<in> V" "y \<in> V" for x y
    using assms(1) that by (auto simp: sets_of_def intro: connected_mono)
  have new: "connected_by ?F a b" "connected_by ?F b a"
    by (auto intro: connected_edge connected_sym)
  have "connected_by ?F x y" if "together (node_subgraph_id t) x y" "x \<in> V" "y \<in> V" for x y
    using that(1) old that(2,3) assms(2,3) new unfolding tog Let_def by (meson connected_trans)
  moreover have "together (node_subgraph_id t) x y" if "(x, y) \<in> ?F" for x y
    using that assms together_refl [OF rooted] by (auto simp: tog Let_def sets_of_def)
  ultimately show ?thesis using t by (auto simp: sets_of_def)
qed

lemma connect_each_sets:
  assumes "sets_of V E (node_subgraph_id s)" and "fst ` set es \<union> snd ` set es \<subseteq> V"
  shows "\<exists>t. connect_each es s = Some t \<and> sets_of V (E \<union> set es) (node_subgraph_id t)
    \<and> subgraphs_per_id t = subgraphs_per_id s"
  using assms
proof (induction es arbitrary: E s)
  case (Cons e es)
  obtain a b where e: "e = (a, b)" by force
  have "a \<in> V" "b \<in> V" using Cons.prems(2) e by auto
  from connect_nodes_sets [OF Cons.prems(1) this]
  obtain u where u: "connect_nodes a b s = Some u" "sets_of V (insert (a, b) E) (node_subgraph_id u)"
    "subgraphs_per_id u = subgraphs_per_id s" by blast
  have "insert (a, b) E \<union> set es = E \<union> set (e # es)" by (auto simp: e)
  then show ?case using Cons.IH [OF u(2)] Cons.prems(2) u(1,3) by (auto simp: e)
qed simp

section \<open>Connecting all nodes\<close>

definition pipe_reads :: "PGPipe \<Rightarrow> nat set" where
  "pipe_reads p = input_buffer ` set (pgp_inputs p) \<union> (\<Union>(k, is) \<in> set (output_padding_inputs p). input_buffer ` set is)"

definition pipe_writes :: "PGPipe \<Rightarrow> nat set" where
  "pipe_writes p = (\<Union>bs \<in> set (pgp_output_buffers p). set bs)"

text \<open>At a padded scatter index a pipe reads one padding buffer.\<close>

definition padding_ok :: "PGPipe \<Rightarrow> bool" where
  "padding_ok p \<longleftrightarrow> (\<forall>(k, is) \<in> set (output_padding_inputs p). is \<noteq> [] \<and> (\<forall>i \<in> set is. input_buffer i = input_buffer (hd is)))"

definition graph_edges :: "pipe_graph \<Rightarrow> (u64 \<times> u64) set" where
  "graph_edges g =
     {(pgb_id (buffer_at g b), pgp_id (pipe_at g p)) | b p. p \<in> set (pg_pipes g)
        \<and> b \<in> pipe_reads (pipe_at g p) \<union> pipe_writes (pipe_at g p)}
     \<union> {(pgb_id (buffer_at g b), shared_space_buffer_id (buffer_at g b)) | b. b \<in> set (pg_buffers g)
        \<and> shares_l1_space (buffer_at g b)}"

lemma padding_heads_of:
  "\<forall>(k, is) \<in> set ps. is \<noteq> [] \<Longrightarrow> \<exists>bs. padding_heads ps = Inr bs \<and> set bs = (\<lambda>(k, is). input_buffer (hd is)) ` set ps"
proof (induction ps)
  case (Cons kis ps)
  obtain k i "is" where kis: "kis = (k, i # is)" using Cons.prems by (cases kis) (auto simp: neq_Nil_conv)
  from Cons show ?case by (auto simp: kis)
qed simp

lemma pipe_edges_set:
  assumes "set (order (output_padding_inputs (pipe_at g p))) = set (output_padding_inputs (pipe_at g p))"
    and "padding_ok (pipe_at g p)"
  shows "\<exists>es. pipe_edges order g p = Inr es \<and> set es = {(pgb_id (buffer_at g b), pgp_id (pipe_at g p)) | b.
    b \<in> pipe_reads (pipe_at g p) \<union> pipe_writes (pipe_at g p)}"
proof -
  let ?pads = "output_padding_inputs (pipe_at g p)"
  have "\<forall>(k, is) \<in> set (order ?pads). is \<noteq> []" using assms by (auto simp: padding_ok_def)
  from padding_heads_of [OF this] obtain bs where bs: "padding_heads (order ?pads) = Inr bs"
    "set bs = (\<lambda>(k, is). input_buffer (hd is)) ` set ?pads" using assms(1) by auto
  have "set bs = (\<Union>(k, is) \<in> set ?pads. input_buffer ` set is)"
  proof -
    have "{input_buffer (hd is)} = input_buffer ` set is" if "(k, is) \<in> set ?pads" for k "is"
    proof -
      have ok: "is \<noteq> []" "\<forall>i \<in> set is. input_buffer i = input_buffer (hd is)"
        using assms(2) that unfolding padding_ok_def by blast+
      from ok(1) have "input_buffer (hd is) \<in> input_buffer ` set is" by simp
      with ok(2) show ?thesis by blast
    qed
    then have "(\<Union>(k, is) \<in> set ?pads. {input_buffer (hd is)}) = (\<Union>(k, is) \<in> set ?pads. input_buffer ` set is)"
      by (intro SUP_cong) auto
    moreover have "set bs = (\<Union>(k, is) \<in> set ?pads. {input_buffer (hd is)})" unfolding bs(2) by auto
    ultimately show ?thesis by simp
  qed
  then have reads: "set (get_unique_input_buffers (pipe_at g p) @ first_occurrences (set (get_unique_input_buffers (pipe_at g p)))
      (first_occurrences {} bs)) = pipe_reads (pipe_at g p)"
    by (auto simp: get_unique_input_buffers_def first_occurrences_set pipe_reads_def)
  have "pipe_edges order g p = Inr (map (\<lambda>b. (pgb_id (buffer_at g b), pgp_id (pipe_at g p)))
      ((get_unique_input_buffers (pipe_at g p) @ first_occurrences (set (get_unique_input_buffers (pipe_at g p)))
        (first_occurrences {} bs)) @ concat (pgp_output_buffers (pipe_at g p))))"
    by (simp add: pipe_edges_def get_unique_input_buffers_including_output_padding_def Let_def
        get_unique_output_padding_buffers_def bs(1))
  moreover have "set (concat (pgp_output_buffers (pipe_at g p))) = pipe_writes (pipe_at g p)"
    by (simp add: pipe_writes_def)
  ultimately show ?thesis
    using reads by (intro exI conjI) (assumption, simp only: set_map set_append, auto)
qed

text \<open>The nodes of the graph, and that nothing refers to a node outside of it.\<close>

abbreviation node_ids :: "pipe_graph \<Rightarrow> u64 set" where
  "node_ids g \<equiv> set (get_all_node_ids g)"

definition references_known :: "pipe_graph \<Rightarrow> bool" where
  "references_known g \<longleftrightarrow> (\<forall>p \<in> set (pg_pipes g). padding_ok (pipe_at g p)
       \<and> pipe_reads (pipe_at g p) \<union> pipe_writes (pipe_at g p) \<subseteq> set (pg_buffers g))
     \<and> (\<forall>b \<in> set (pg_buffers g). shares_l1_space (buffer_at g b) \<longrightarrow> shared_space_buffer_id (buffer_at g b) \<in> node_ids g)"

definition keeps_entries :: "hash_order \<Rightarrow> bool" where
  "keeps_entries order \<longleftrightarrow> (\<forall>ps. mset (order ps) = mset ps)"

lemma keeps_entries_set: "keeps_entries order \<Longrightarrow> set (order ps) = set ps"
  unfolding keeps_entries_def by (metis mset_eq_setD)

lemma connect_pipes_sets:
  assumes "keeps_entries order" and "references_known g" and "set ps \<subseteq> set (pg_pipes g)"
    and "sets_of (node_ids g) E (node_subgraph_id s)"
  shows "\<exists>t. connect_pipes order g ps s = Some (Inr t) \<and> subgraphs_per_id t = subgraphs_per_id s
    \<and> sets_of (node_ids g) (E \<union> {(pgb_id (buffer_at g b), pgp_id (pipe_at g p)) | b p. p \<in> set ps
        \<and> b \<in> pipe_reads (pipe_at g p) \<union> pipe_writes (pipe_at g p)}) (node_subgraph_id t)"
  using assms(3,4)
proof (induction ps arbitrary: E s)
  case (Cons p ps)
  let ?edges = "\<lambda>p. {(pgb_id (buffer_at g b), pgp_id (pipe_at g p)) | b.
    b \<in> pipe_reads (pipe_at g p) \<union> pipe_writes (pipe_at g p)}"
  have p: "p \<in> set (pg_pipes g)" "padding_ok (pipe_at g p)" using Cons.prems(1) assms(2) by (auto simp: references_known_def)
  obtain es where es: "pipe_edges order g p = Inr es" "set es = ?edges p"
    using pipe_edges_set [of order g p, OF keeps_entries_set [OF assms(1)] p(2)] by blast
  have "fst ` set es \<union> snd ` set es \<subseteq> node_ids g"
  proof -
    have "pgb_id (buffer_at g b) \<in> node_ids g" if "b \<in> pipe_reads (pipe_at g p) \<union> pipe_writes (pipe_at g p)" for b
      using that p(1) assms(2) unfolding references_known_def get_all_node_ids_def by fastforce
    moreover have "pgp_id (pipe_at g p) \<in> node_ids g" using p(1) by (simp add: get_all_node_ids_def)
    ultimately show ?thesis unfolding es(2) by auto
  qed
  from connect_each_sets [OF Cons.prems(2) this] obtain u where u: "connect_each es s = Some u"
    "sets_of (node_ids g) (E \<union> ?edges p) (node_subgraph_id u)" "subgraphs_per_id u = subgraphs_per_id s"
    unfolding es(2) by blast
  have all: "E \<union> {(pgb_id (buffer_at g b), pgp_id (pipe_at g q)) | b q. q \<in> set (p # ps)
        \<and> b \<in> pipe_reads (pipe_at g q) \<union> pipe_writes (pipe_at g q)}
      = (E \<union> ?edges p) \<union> {(pgb_id (buffer_at g b), pgp_id (pipe_at g q)) | b q. q \<in> set ps
        \<and> b \<in> pipe_reads (pipe_at g q) \<union> pipe_writes (pipe_at g q)}" by auto
  have "set ps \<subseteq> set (pg_pipes g)" using Cons.prems(1) by simp
  from Cons.IH [OF this u(2)] show ?case unfolding all by (simp add: es(1) u(1,3))
qed simp

lemma own_groups_maps:
  "node_subgraph_id (own_groups ids s) n = (if n \<in> set ids then Some n else node_subgraph_id s n)
   \<and> subgraphs_per_id (own_groups ids s) = subgraphs_per_id s"
  unfolding own_groups_def by (induction ids arbitrary: s) auto

lemma find_connected_nodes_sets:
  assumes "keeps_entries order" and "references_known g"
  shows "\<exists>t. find_connected_nodes order g s = Some (Inr t) \<and> subgraphs_per_id t = subgraphs_per_id s
    \<and> sets_of (node_ids g) (graph_edges g) (node_subgraph_id t)"
proof -
  let ?own = "own_groups (get_all_node_ids g) s"
  have own: "root_of (node_subgraph_id ?own) n n" if "n \<in> node_ids g" for n
    using that by (intro root_of.self) (simp add: own_groups_maps)
  then have "sets_of (node_ids g) {} (node_subgraph_id ?own)"
    using root_of_unique [OF own] connected_refl unfolding sets_of_def rooted_def together_def by blast
  from connect_pipes_sets [OF assms subset_refl this] obtain u where
    u: "connect_pipes order g (pg_pipes g) ?own = Some (Inr u)" "subgraphs_per_id u = subgraphs_per_id ?own"
    and sets: "sets_of (node_ids g) ({} \<union> {(pgb_id (buffer_at g b), pgp_id (pipe_at g p)) | b p. p \<in> set (pg_pipes g)
        \<and> b \<in> pipe_reads (pipe_at g p) \<union> pipe_writes (pipe_at g p)}) (node_subgraph_id u)" by blast
  have shared: "set (shared_space_edges g) = {(pgb_id (buffer_at g b), shared_space_buffer_id (buffer_at g b)) | b.
      b \<in> set (pg_buffers g) \<and> shares_l1_space (buffer_at g b)}"
    by (auto simp: shared_space_edges_def)
  have "fst ` set (shared_space_edges g) \<union> snd ` set (shared_space_edges g) \<subseteq> node_ids g"
    using assms(2) unfolding shared by (auto simp: references_known_def get_all_node_ids_def)
  from connect_each_sets [OF sets this] obtain t where "connect_each (shared_space_edges g) u = Some t"
    "subgraphs_per_id t = subgraphs_per_id u" "sets_of (node_ids g) (graph_edges g) (node_subgraph_id t)"
    unfolding shared graph_edges_def by auto
  then show ?thesis using u by (auto simp: find_connected_nodes_def own_groups_maps)
qed

section \<open>Sorting the nodes into their subgraphs\<close>

definition subgraph_of :: "(u64 \<times> PGSubgraph) list \<Rightarrow> u64 \<Rightarrow> PGSubgraph" where
  "subgraph_of subs i = (case map_of subs i of None \<Rightarrow> \<lparr>subgraph_buffers = [], subgraph_pipes = []\<rparr> | Some sub \<Rightarrow> sub)"

abbreviation ascending :: "(u64 \<times> PGSubgraph) list \<Rightarrow> bool" where
  "ascending subs \<equiv> sorted_wrt (<) (map fst subs)"

lemma update_subgraph_keys: "fst ` set (update_subgraph i f subs) = insert i (fst ` set subs)"
  by (induction i f subs rule: update_subgraph.induct) auto

lemma update_subgraph_ascending: "ascending subs \<Longrightarrow> ascending (update_subgraph i f subs)"
proof (induction i f subs rule: update_subgraph.induct)
  case (2 i f k sub subs)
  then show ?case
    using update_subgraph_keys [of i f subs] by (auto simp: image_iff)
qed simp

lemma update_subgraph_of:
  assumes "ascending subs"
  shows "subgraph_of (update_subgraph i f subs) j = (if j = i then f (subgraph_of subs i) else subgraph_of subs j)"
  using assms
proof (induction i f subs rule: update_subgraph.induct)
  case (1 i f)
  then show ?case by (simp add: subgraph_of_def)
next
  case (2 i f k sub subs)
  have "map_of subs i = None" if "i < k"
  proof -
    have "i \<notin> fst ` set subs" using that 2(2) by (auto dest: less_trans)
    then show ?thesis by (simp add: map_of_eq_None_iff)
  qed
  then show ?case using 2 by (auto simp: subgraph_of_def)
qed

lemma add_subgraph_nodes_spec:
  assumes "\<forall>n \<in> set ns. root_of (node_subgraph_id s) (node_id n) (root n)" and "ascending (subgraphs_per_id s)"
  shows "\<exists>t. add_subgraph_nodes node_id add ns s = Some t \<and> root_of (node_subgraph_id t) = root_of (node_subgraph_id s)
    \<and> ascending (subgraphs_per_id t) \<and> fst ` set (subgraphs_per_id t) = fst ` set (subgraphs_per_id s) \<union> root ` set ns
    \<and> (\<forall>r. subgraph_of (subgraphs_per_id t) r = fold add [n \<leftarrow> ns. root n = r] (subgraph_of (subgraphs_per_id s) r))"
  using assms
proof (induction ns arbitrary: s)
  case (Cons n ns)
  have "root_of (node_subgraph_id s) (node_id n) (root n)" using Cons.prems(1) by simp
  from find_finds_root [OF this] obtain m where m: "find_node_subgraph_id (node_id n) (node_subgraph_id s) = Some (root n, m)"
    "root_of m = root_of (node_subgraph_id s)" by blast
  let ?u = "s\<lparr>node_subgraph_id := m, subgraphs_per_id := update_subgraph (root n) (add n) (subgraphs_per_id s)\<rparr>"
  have "\<forall>k \<in> set ns. root_of (node_subgraph_id ?u) (node_id k) (root k)" "ascending (subgraphs_per_id ?u)"
    using Cons.prems update_subgraph_ascending by (simp_all add: m(2))
  from Cons.IH [OF this] obtain t where t: "add_subgraph_nodes node_id add ns ?u = Some t"
    "root_of (node_subgraph_id t) = root_of m" "ascending (subgraphs_per_id t)"
    "fst ` set (subgraphs_per_id t) = insert (root n) (fst ` set (subgraphs_per_id s)) \<union> root ` set ns"
    "\<And>r. subgraph_of (subgraphs_per_id t) r = fold add [k \<leftarrow> ns. root k = r]
       (if r = root n then add n (subgraph_of (subgraphs_per_id s) (root n)) else subgraph_of (subgraphs_per_id s) r)"
    by (auto simp: update_subgraph_keys update_subgraph_of [OF Cons.prems(2)])
  show ?case
    by (rule exI [of _ t]) (use t m in \<open>auto simp: insert_commute\<close>)
qed simp

lemma fold_add_buffers:
  "fold (\<lambda>b. subgraph_buffers_update (\<lambda>bs. bs @ [b])) ns sub = sub\<lparr>subgraph_buffers := subgraph_buffers sub @ ns\<rparr>"
  by (induction ns arbitrary: sub) simp_all

lemma fold_add_pipes:
  "fold (\<lambda>p. subgraph_pipes_update (\<lambda>ps. ps @ [p])) ns sub = sub\<lparr>subgraph_pipes := subgraph_pipes sub @ ns\<rparr>"
  by (induction ns arbitrary: sub) simp_all

lemma sorted_into_classes:
  assumes "distinct ks" and "\<forall>x \<in> set xs. root x \<in> set ks"
  shows "mset (concat (map (\<lambda>k. [x \<leftarrow> xs. root x = k]) ks)) = mset xs"
  using assms(2)
proof (induction xs)
  case (Cons x xs)
  have "mset (concat (map (\<lambda>k. [y \<leftarrow> x # xs. root y = k]) ks))
      = mset (concat (map (\<lambda>k. [y \<leftarrow> xs. root y = k]) ks)) + mset (concat (map (\<lambda>k. if root x = k then [x] else []) ks))"
    by (induction ks) auto
  moreover have "mset (concat (map (\<lambda>k. if root x = k then [x] else []) ks)) = (if root x \<in> set ks then {#x#} else {#})"
    using assms(1) by (induction ks) auto
  ultimately show ?case using Cons by simp
qed simp

lemma ascending_values:
  assumes "ascending subs"
  shows "map snd subs = map (subgraph_of subs) (map fst subs)" and "distinct (map fst subs)"
proof -
  show distinct: "distinct (map fst subs)" using assms by (simp add: strict_sorted_iff)
  show "map snd subs = map (subgraph_of subs) (map fst subs)"
    using distinct by (auto simp: subgraph_of_def)
qed

lemma sorted_nodes:
  assumes sets: "sets_of (node_ids g) (graph_edges g) (node_subgraph_id s)" and none: "subgraphs_per_id s = []"
    and root: "\<forall>n \<in> node_ids g. root_of (node_subgraph_id s) n (root n)"
  shows "\<exists>t. Option.bind (add_subgraph_buffers g s) (add_subgraph_pipes g) = Some t \<and> ascending (subgraphs_per_id t)
    \<and> fst ` set (subgraphs_per_id t) = root ` node_ids g
    \<and> (\<forall>r. subgraph_of (subgraphs_per_id t) r =
          \<lparr>subgraph_buffers = [b \<leftarrow> pg_buffers g. root (pgb_id (buffer_at g b)) = r],
           subgraph_pipes = [p \<leftarrow> pg_pipes g. root (pgp_id (pipe_at g p)) = r]\<rparr>)"
proof -
  have "\<forall>b \<in> set (pg_buffers g). root_of (node_subgraph_id s) (pgb_id (buffer_at g b)) (root (pgb_id (buffer_at g b)))"
    using root by (simp add: get_all_node_ids_def)
  from add_subgraph_nodes_spec [where node_id = "\<lambda>b. pgb_id (buffer_at g b)", OF this,
      of "\<lambda>b. subgraph_buffers_update (\<lambda>bs. bs @ [b])"] none
  obtain u where u: "add_subgraph_buffers g s = Some u" "root_of (node_subgraph_id u) = root_of (node_subgraph_id s)"
    "ascending (subgraphs_per_id u)" "fst ` set (subgraphs_per_id u) = (\<lambda>b. root (pgb_id (buffer_at g b))) ` set (pg_buffers g)"
    "\<And>r. subgraph_of (subgraphs_per_id u) r = \<lparr>subgraph_buffers = [b \<leftarrow> pg_buffers g. root (pgb_id (buffer_at g b)) = r], subgraph_pipes = []\<rparr>"
    by (auto simp: add_subgraph_buffers_def fold_add_buffers subgraph_of_def)
  have "\<forall>p \<in> set (pg_pipes g). root_of (node_subgraph_id u) (pgp_id (pipe_at g p)) (root (pgp_id (pipe_at g p)))"
    using root u(2) by (simp add: get_all_node_ids_def)
  from add_subgraph_nodes_spec [where node_id = "\<lambda>p. pgp_id (pipe_at g p)", OF this u(3),
      of "\<lambda>p. subgraph_pipes_update (\<lambda>ps. ps @ [p])"]
  obtain t where "add_subgraph_pipes g u = Some t" "ascending (subgraphs_per_id t)"
    "fst ` set (subgraphs_per_id t) = fst ` set (subgraphs_per_id u) \<union> (\<lambda>p. root (pgp_id (pipe_at g p))) ` set (pg_pipes g)"
    "\<And>r. subgraph_of (subgraphs_per_id t) r =
       (subgraph_of (subgraphs_per_id u) r)\<lparr>subgraph_pipes := subgraph_pipes (subgraph_of (subgraphs_per_id u) r)
          @ [p \<leftarrow> pg_pipes g. root (pgp_id (pipe_at g p)) = r]\<rparr>"
    by (auto simp: add_subgraph_pipes_def fold_add_pipes)
  then show ?thesis using u by (auto simp: get_all_node_ids_def image_Un image_image)
qed

text \<open>C11 The subgraphs of a pipe graph are its connected components: when all nodes that are referred
  to are in the graph, the search ends without an error, whatever the order of the hash maps; every
  buffer and every pipe is in exactly one subgraph; and the buffers and pipes of a subgraph, in the
  order of the graph, are exactly those that reads, writes and shared L1 space connect with each
  other.\<close>

theorem pg_subgraphs_are_components:
  assumes "keeps_entries order" and "references_known g"
  shows "\<exists>subs s. find_subgraphs order g empty_finder = Some (Inr (subs, s))
    \<and> mset (concat (map subgraph_buffers subs)) = mset (pg_buffers g)
    \<and> mset (concat (map subgraph_pipes subs)) = mset (pg_pipes g)
    \<and> (\<forall>sub \<in> set subs. \<exists>x \<in> node_ids g.
         subgraph_buffers sub = [b \<leftarrow> pg_buffers g. connected_by (graph_edges g) x (pgb_id (buffer_at g b))]
       \<and> subgraph_pipes sub = [p \<leftarrow> pg_pipes g. connected_by (graph_edges g) x (pgp_id (pipe_at g p))])"
proof -
  obtain s where s: "find_connected_nodes order g empty_finder = Some (Inr s)" "subgraphs_per_id s = []"
    and sets: "sets_of (node_ids g) (graph_edges g) (node_subgraph_id s)"
    using find_connected_nodes_sets [OF assms, of empty_finder] by (auto simp: empty_finder_def)
  from sets obtain root where root: "\<forall>n \<in> node_ids g. root_of (node_subgraph_id s) n (root n)"
    unfolding sets_of_def rooted_def by metis
  obtain t where t: "Option.bind (add_subgraph_buffers g s) (add_subgraph_pipes g) = Some t" "ascending (subgraphs_per_id t)"
    "fst ` set (subgraphs_per_id t) = root ` node_ids g"
    and subs: "\<And>r. subgraph_of (subgraphs_per_id t) r =
          \<lparr>subgraph_buffers = [b \<leftarrow> pg_buffers g. root (pgb_id (buffer_at g b)) = r],
           subgraph_pipes = [p \<leftarrow> pg_pipes g. root (pgp_id (pipe_at g p)) = r]\<rparr>"
    using sorted_nodes [OF sets s(2) root] by blast
  let ?keys = "map fst (subgraphs_per_id t)"
  note vals = ascending_values [OF t(2)]
  have ids: "\<forall>b \<in> set (pg_buffers g). pgb_id (buffer_at g b) \<in> node_ids g" "\<forall>p \<in> set (pg_pipes g). pgp_id (pipe_at g p) \<in> node_ids g"
    by (simp_all add: get_all_node_ids_def)
  have keys: "set ?keys = root ` node_ids g" using t(3) by simp
  have "mset (concat (map subgraph_buffers (map snd (subgraphs_per_id t)))) = mset (pg_buffers g)"
    unfolding vals(1) using sorted_into_classes [OF vals(2), of "pg_buffers g" "\<lambda>b. root (pgb_id (buffer_at g b))"] ids(1) keys
    by (auto simp: subs comp_def)
  moreover have "mset (concat (map subgraph_pipes (map snd (subgraphs_per_id t)))) = mset (pg_pipes g)"
    unfolding vals(1) using sorted_into_classes [OF vals(2), of "pg_pipes g" "\<lambda>p. root (pgp_id (pipe_at g p))"] ids(2) keys
    by (auto simp: subs comp_def)
  moreover have "\<exists>x \<in> node_ids g.
         subgraph_buffers sub = [b \<leftarrow> pg_buffers g. connected_by (graph_edges g) x (pgb_id (buffer_at g b))]
       \<and> subgraph_pipes sub = [p \<leftarrow> pg_pipes g. connected_by (graph_edges g) x (pgp_id (pipe_at g p))]"
    if "sub \<in> set (map snd (subgraphs_per_id t))" for sub
  proof -
    have "sub \<in> subgraph_of (subgraphs_per_id t) ` set ?keys" using that unfolding vals(1) by (simp only: set_map)
    then obtain x where x: "x \<in> node_ids g" "sub = subgraph_of (subgraphs_per_id t) (root x)" unfolding keys by auto
    have "root y = root x \<longleftrightarrow> connected_by (graph_edges g) x y" if "y \<in> node_ids g" for y
    proof -
      have "root y = root x \<longleftrightarrow> together (node_subgraph_id s) x y"
        using root that x(1) root_of_unique unfolding together_def by metis
      then show ?thesis using sets_of_components [OF sets x(1) that] by simp
    qed
    then show ?thesis using x ids by (auto simp: subs intro!: bexI [of _ x] filter_cong)
  qed
  moreover have "find_subgraphs order g empty_finder = Some (Inr (map snd (subgraphs_per_id t), t))"
    by (simp only: find_subgraphs_def s(1) rbind_simps t(1) Option.bind.bind_lunit)
  ultimately show ?thesis by blast
qed

text \<open>Two pipes that share no buffer, the second with a padded scatter index.\<close>

definition two_parts :: pipe_graph where
  "two_parts =
     \<lparr>pg_buffers = [0, 1, 2, 3], pg_pipes = [0, 1],
      buffer_at = (\<lambda>b. new_PGBuffer\<lparr>pgb_id := of_nat b + 1\<rparr>),
      pipe_at = (\<lambda>p. if p = 0
        then (new_PGPipe 10)\<lparr>pgp_inputs := [\<lparr>input_buffer = 0, input_offset = 0\<rparr>], pgp_output_buffers := [[1]]\<rparr>
        else (new_PGPipe 11)\<lparr>pgp_output_buffers := [[2]], output_padding_inputs := [(0, [\<lparr>input_buffer = 3, input_offset = 0\<rparr>])]\<rparr>),
      next_buffer = 4, next_pipe = 2\<rparr>"

theorem pg_subgraphs_are_components_witness:
  "\<exists>subs s. find_subgraphs id two_parts empty_finder = Some (Inr (subs, s))
     \<and> mset (concat (map subgraph_buffers subs)) = {#0, 1, 2, 3#} \<and> mset (concat (map subgraph_pipes subs)) = {#0, 1#}"
proof -
  have "keeps_entries id" by (simp add: keeps_entries_def)
  moreover have "references_known two_parts"
    by (simp add: references_known_def two_parts_def padding_ok_def pipe_reads_def pipe_writes_def new_PGPipe_def
        shares_l1_space_def new_PGBuffer_def)
  ultimately show ?thesis
    using pg_subgraphs_are_components [of id two_parts] by (auto simp: two_parts_def)
qed

text \<open>
  A reference to a node that is not in the graph makes it a member of the set of the id zero: two
  parts with such references become one.
\<close>

lemma unknown_nodes_join_sets:
  "case connect_each [(1, 77), (3, 78)] (own_groups [1, 3] empty_finder) of None \<Rightarrow> False
   | Some s \<Rightarrow> map_option fst (find_node_subgraph_id 1 (node_subgraph_id s))
       = map_option fst (find_node_subgraph_id 3 (node_subgraph_id s))"
  by code_simp

end
