(* ===== verification/PipeGraphCreator.thy ===== *)
theory PipeGraphCreator
  imports PipeGraph
begin

text \<open>
  The creation of the pipe graph from what was parsed
  (\<open>src/src/pipegen2/lib/src/graph_creator/pipe_graph/\<close>): the map of buffers by id, the connections
  between pipes and buffers, and the handlers that patch the graph. A pipe graph that fails a check is
  given up, so an error carries no state.
\<close>

section \<open>Buffers by id\<close>

record pipe_graph_info =
  scatter_buffer_pipe_inputs :: "u64 \<Rightarrow> pg_input option"
  buffers_per_id :: "u64 \<Rightarrow> nat option"

definition empty_pipe_graph_info :: pipe_graph_info where
  "empty_pipe_graph_info = \<lparr>scatter_buffer_pipe_inputs = Map.empty, buffers_per_id = Map.empty\<rparr>"

definition add_buffer_with_id :: "pipe_graph \<Rightarrow> u64 \<Rightarrow> nat \<Rightarrow> pipe_graph_info \<Rightarrow> pg_error + pipe_graph_info" where
  "add_buffer_with_id g i b info =
     (if buffers_per_id info i \<noteq> None then Inl (InvalidPipeGraph (pgb_logical_location (buffer_at g b)))
      else Inr (info\<lparr>buffers_per_id := (buffers_per_id info)(i \<mapsto> b)\<rparr>))"

text \<open>\<open>emplace\<close>: an entry that is there stays.\<close>

definition add_scatter_buffer_pipe_input :: "u64 \<Rightarrow> nat \<Rightarrow> u32 \<Rightarrow> pipe_graph_info \<Rightarrow> pipe_graph_info" where
  "add_scatter_buffer_pipe_input i b offset info =
     (if scatter_buffer_pipe_inputs info i \<noteq> None then info
      else info\<lparr>scatter_buffer_pipe_inputs :=
             (scatter_buffer_pipe_inputs info)(i \<mapsto> \<lparr>input_buffer = b, input_offset = offset\<rparr>)\<rparr>)"

definition add_scatter_replica :: "pipe_graph \<Rightarrow> nat \<Rightarrow> nat \<Rightarrow> pipe_graph_info \<Rightarrow> pg_error + pipe_graph_info" where
  "add_scatter_replica g b k info =
     (let offset = word_of_nat k * pgb_scatter_gather_num_tiles (buffer_at g b);
          i = pgb_id (buffer_at g b) + ucast offset
      in add_buffer_with_id g i b (add_scatter_buffer_pipe_input i b offset info))"

definition add_scatter_buffer :: "pipe_graph \<Rightarrow> nat \<Rightarrow> pipe_graph_info \<Rightarrow> pg_error + pipe_graph_info" where
  "add_scatter_buffer g b info =
     (if \<not> pgb_is_scatter (buffer_at g b) then Inr info
      else fold_sum (add_scatter_replica g b) [1..<unat (pgb_replicate_count (buffer_at g b))]
             (add_scatter_buffer_pipe_input (pgb_id (buffer_at g b)) b 0 info))"

definition create_pipe_inputs_for_scatter_buffers :: "pipe_graph \<Rightarrow> pipe_graph_info \<Rightarrow> pg_error + pipe_graph_info" where
  "create_pipe_inputs_for_scatter_buffers g = fold_sum (add_scatter_buffer g) (pg_buffers g)"

definition populate_buffers_map :: "pipe_graph \<Rightarrow> pipe_graph_info \<Rightarrow> pg_error + pipe_graph_info" where
  "populate_buffers_map g = fold_sum (\<lambda>b. add_buffer_with_id g (pgb_id (buffer_at g b)) b) (pg_buffers g)"

section \<open>Connections\<close>

text \<open>
  An id that is not there is reported at the location of the pipe with the scatter index; a pipe that
  has fewer locations throws \<open>std::out_of_range\<close> from \<open>at\<close> instead.
\<close>

definition inexistent_buffer :: "PGPipe \<Rightarrow> nat \<Rightarrow> pg_error" where
  "inexistent_buffer p k =
     (if k < length (mcast_core_logical_locations p) then InvalidPipeGraph (mcast_core_logical_locations p ! k)
      else PgOutOfRange)"

definition connect_pipe_with_input_buffer ::
  "pipe_graph_info \<Rightarrow> nat \<Rightarrow> u64 \<Rightarrow> pipe_graph \<Rightarrow> pg_error + pipe_graph" where
  "connect_pipe_with_input_buffer info p i g =
     (case buffers_per_id info i of
        None \<Rightarrow> Inl (inexistent_buffer (pipe_at g p) 0)
      | Some b \<Rightarrow>
          let g1 = at_buffer b (add_output_pipe_to_buffer p) g;
              input = (case scatter_buffer_pipe_inputs info i of
                         None \<Rightarrow> \<lparr>input_buffer = b, input_offset = 0\<rparr> | Some inp \<Rightarrow> inp)
          in Inr (at_pipe p (add_pipe_input input) g1))"

definition connect_pipe_with_output_padding_buffer ::
  "pipe_graph_info \<Rightarrow> nat \<Rightarrow> nat \<Rightarrow> u64 \<Rightarrow> pipe_graph \<Rightarrow> pg_error + pipe_graph" where
  "connect_pipe_with_output_padding_buffer info p k i g =
     (case buffers_per_id info i of
        None \<Rightarrow> Inl (inexistent_buffer (pipe_at g p) k)
      | Some b \<Rightarrow>
          if consumer_repeat (pipe_at g p) = 0 then Inl PgDivisionByZero
          else bind_sum (add_output_padding_buffer g b (k div unat (consumer_repeat (pipe_at g p))) (pipe_at g p))
                 (\<lambda>pipe. Inr (at_buffer b (add_output_pipe_to_buffer p) (at_pipe p (\<lambda>_. pipe) g))))"

definition connect_pipe_with_output_buffer ::
  "pipe_graph_info \<Rightarrow> nat \<Rightarrow> nat \<Rightarrow> u64 \<Rightarrow> pipe_graph \<Rightarrow> pg_error + pipe_graph" where
  "connect_pipe_with_output_buffer info p k i g =
     (case buffers_per_id info i of
        None \<Rightarrow> Inl (inexistent_buffer (pipe_at g p) k)
      | Some b \<Rightarrow>
          if consumer_repeat (pipe_at g p) = 0 then Inl PgDivisionByZero
          else Inr (at_pipe p (add_output_buffer b (k div unat (consumer_repeat (pipe_at g p))))
                      (at_buffer b (pgb_input_pipe_update (\<lambda>_. Some p)) g)))"

text \<open>A loop over an index that advances by the repeat count; with a count of zero it may not end.\<close>

partial_function (option) stride_loop ::
  "(nat \<Rightarrow> 's \<Rightarrow> 'e + 's) \<Rightarrow> nat \<Rightarrow> nat \<Rightarrow> nat \<Rightarrow> 's \<Rightarrow> ('e + 's) option" where
  "stride_loop body step n k s =
     (if \<not> k < n then Some (Inr s) else rbind (Some (body k s)) (stride_loop body step n (k + step)))"

declare stride_loop.simps [code]

definition c_no_output_padding_buffer_id :: u64 where "c_no_output_padding_buffer_id = 0"

definition connect_padding_at :: "pipe_graph_info \<Rightarrow> nat \<Rightarrow> u64 list \<Rightarrow> nat \<Rightarrow> pipe_graph \<Rightarrow> pg_error + pipe_graph" where
  "connect_padding_at info p ids k g =
     (if ids ! k = c_no_output_padding_buffer_id then Inr g
      else connect_pipe_with_output_padding_buffer info p k (ids ! k) g)"

definition find_pipe_connections :: "pipe_graph_info \<Rightarrow> nat \<Rightarrow> pipe_graph \<Rightarrow> (pg_error + pipe_graph) option" where
  "find_pipe_connections info p g =
     (let pipe = pipe_at g p; repeat = unat (consumer_repeat pipe);
          padding = output_padding_buffers_ids pipe; outs = output_buffers_ids pipe in
      rbind (Some (fold_sum (connect_pipe_with_input_buffer info p) (input_buffers_ids pipe) g)) (\<lambda>g1.
      rbind (stride_loop (connect_padding_at info p padding) repeat (length padding) 0 g1)
        (stride_loop (\<lambda>k. fold_sum (connect_pipe_with_output_buffer info p k) (outs ! k)) repeat (length outs) 0)))"

fun find_connections_of :: "pipe_graph_info \<Rightarrow> nat list \<Rightarrow> pipe_graph \<Rightarrow> (pg_error + pipe_graph) option" where
  "find_connections_of info [] g = Some (Inr g)"
| "find_connections_of info (p # ps) g = rbind (find_pipe_connections info p g) (find_connections_of info ps)"

definition find_pipe_graph_nodes_connections :: "pipe_graph_info \<Rightarrow> pipe_graph \<Rightarrow> (pg_error + pipe_graph) option" where
  "find_pipe_graph_nodes_connections info g = find_connections_of info (pg_pipes g) g"

section \<open>Embedding indices\<close>

text \<open>The first buffer other than the table's, on the same core, that is an input operand.\<close>

definition find_embedding_index_kernel_buffer :: "pipe_graph \<Rightarrow> nat \<Rightarrow> nat option" where
  "find_embedding_index_kernel_buffer g table =
     List.find (\<lambda>b. pgb_id (buffer_at g b) \<noteq> pgb_id (buffer_at g table)
       \<and> pgb_logical_location (buffer_at g b) = pgb_logical_location (buffer_at g table)
       \<and> is_input_operand (pgb_operand_id (buffer_at g b))) (pg_buffers g)"

definition copy_index_properties :: "PGBuffer \<Rightarrow> PGBuffer \<Rightarrow> PGBuffer" where
  "copy_index_properties dram b =
     b\<lparr>pgb_embedding_index := True, embedding_indices_per_input := embedding_indices_per_input dram,
       embedding_indices_per_tile := embedding_indices_per_tile dram\<rparr>"

definition copy_embedding_index_properties :: "pipe_graph_info \<Rightarrow> nat \<Rightarrow> pipe_graph \<Rightarrow> pg_error + pipe_graph" where
  "copy_embedding_index_properties info b g =
     (case pgb_input_pipe (buffer_at g b) of
        None \<Rightarrow> Inl PgAssert
      | Some p \<Rightarrow>
          (case get_pipe_inputs (pipe_at g p) 0 of
             [i] \<Rightarrow>
               (case buffers_per_id info (pgb_id (buffer_at g b)) of
                  None \<Rightarrow> Inl PgAssert
                | Some c \<Rightarrow> Inr (at_buffer c (copy_index_properties (buffer_at g (input_buffer i))) g))
           | _ \<Rightarrow> Inl PgAssert))"

definition handle_embedding_pipe :: "pipe_graph_info \<Rightarrow> nat \<Rightarrow> pipe_graph \<Rightarrow> pg_error + pipe_graph" where
  "handle_embedding_pipe info p g =
     (case get_pipe_inputs (pipe_at g p) 0 of
        [] \<Rightarrow> Inl PgUndefined
      | i # _ \<Rightarrow>
          if \<not> pgb_embedding_table (buffer_at g (input_buffer i)) then Inr g
          else case pgp_output_buffers (pipe_at g p) of
            [table # _] \<Rightarrow>
              (case find_embedding_index_kernel_buffer g table of
                 None \<Rightarrow> Inl PgAssert
               | Some b \<Rightarrow> bind_sum (connect_pipe_with_input_buffer info p (pgb_id (buffer_at g b)) g)
                             (copy_embedding_index_properties info b))
          | [[]] \<Rightarrow> Inl PgUndefined
          | _ \<Rightarrow> Inl PgAssert)"

definition handle_embedding_indices :: "pipe_graph_info \<Rightarrow> pipe_graph \<Rightarrow> pg_error + pipe_graph" where
  "handle_embedding_indices info g = fold_sum (handle_embedding_pipe info) (pg_pipes g) g"

section \<open>Intermediate buffers\<close>

text \<open>
  A buffer without any pipe becomes the output of a new pipe that reads a copy of it, and the buffer it
  shares its space with, if there is one. The ids of the new nodes are those below the id of the buffer.
\<close>

definition intermediate_pipe :: "u64 \<Rightarrow> PGPipe" where
  "intermediate_pipe i =
     (new_PGPipe (i - 1))\<lparr>mcast_core_logical_locations :=
        [\<lparr>cxy_chip = 0, cxy_x = unmapped_logical_location, cxy_y = unmapped_logical_location\<rparr>],
        input_buffers_ids := [i - 2]\<rparr>"

definition connect_shared_buffer ::
  "pipe_graph_info \<Rightarrow> nat \<Rightarrow> nat \<Rightarrow> nat \<Rightarrow> pipe_graph \<Rightarrow> pg_error + pipe_graph" where
  "connect_shared_buffer info p b c g =
     (case get_shared_output_buffer (pgb_id (buffer_at g b)) g of
        None \<Rightarrow> Inr g
      | Some s \<Rightarrow>
          let i = pgb_id (buffer_at g s);
              g1 = at_buffer b (shared_space_buffer_id_update (\<lambda>_. i)) g;
              g2 = at_buffer c (shared_space_buffer_id_update (\<lambda>_. i)) g1;
              g3 = at_pipe p (\<lambda>pipe. pipe\<lparr>input_buffers_ids := input_buffers_ids pipe @ [i]\<rparr>) g2
          in connect_pipe_with_input_buffer info p i g3)"

type_synonym handler_state = "pipe_graph_info \<times> nat list \<times> pipe_graph"

definition handle_intermediate_buffer :: "bool \<Rightarrow> nat \<Rightarrow> handler_state \<Rightarrow> pg_error + handler_state" where
  "handle_intermediate_buffer junk b s =
     (case s of (info, created, g) \<Rightarrow>
        if \<not> has_no_input (buffer_at g b) \<or> \<not> has_no_outputs (buffer_at g b) then Inr s
        else
          let i = pgb_id (buffer_at g b);
              (c, g1) = make_buffer ((copy_PGBuffer junk (buffer_at g b))\<lparr>pgb_id := i - 2\<rparr>) g in
          bind_sum (add_buffer_with_id g1 (i - 2) c info) (\<lambda>info1.
          let (p, g2) = make_pipe (intermediate_pipe i) g1 in
          bind_sum (connect_pipe_with_input_buffer info1 p (i - 2) g2) (\<lambda>g3.
          bind_sum (connect_pipe_with_output_buffer info1 p 0 i
                      (at_pipe p (\<lambda>pipe. pipe\<lparr>output_buffers_ids := output_buffers_ids pipe @ [[i]]\<rparr>) g3)) (\<lambda>g4.
          bind_sum (connect_shared_buffer info1 p b c g4) (\<lambda>g5.
          Inr (info1, created @ [c], add_pipe p g5))))))"

definition handle_intermediate_buffers ::
  "bool \<Rightarrow> pipe_graph_info \<Rightarrow> pipe_graph \<Rightarrow> pg_error + pipe_graph_info \<times> pipe_graph" where
  "handle_intermediate_buffers junk info g =
     bind_sum (fold_sum (handle_intermediate_buffer junk) (pg_buffers g) (info, [], g))
       (\<lambda>(info1, created, g1). Inr (info1, fold add_buffer created g1))"

section \<open>End to end queues\<close>

text \<open>A queue that is written and read in the graph is split: the pipe writes a replica.\<close>

definition handle_e2e_pipe :: "bool \<Rightarrow> nat \<Rightarrow> pipe_graph \<Rightarrow> pipe_graph" where
  "handle_e2e_pipe junk p g =
     (case pgp_output_buffers (pipe_at g p) of
        [[b]] \<Rightarrow>
          if \<not> is_end_to_end_queue (buffer_at g b) then g
          else
            let replica = (copy_PGBuffer junk (buffer_at g b))\<lparr>pgb_id := pgb_id (buffer_at g b) + 1, pgb_input_pipe := Some p\<rparr>;
                (c, g1) = make_buffer replica g
            in add_buffer c (at_buffer b (pgb_input_pipe_update (\<lambda>_. None)) (at_pipe p (replace_output_buffer b c) g1))
      | _ \<Rightarrow> g)"

definition handle_e2e_queues :: "bool \<Rightarrow> pipe_graph \<Rightarrow> pipe_graph" where
  "handle_e2e_queues junk g = fold (handle_e2e_pipe junk) (pg_pipes g) g"

section \<open>Post TM prefetch pipes\<close>

definition can_decompose_post_tm_multicast_pipe :: "pipe_graph \<Rightarrow> PGPipe \<Rightarrow> bool" where
  "can_decompose_post_tm_multicast_pipe g p \<longleftrightarrow> \<not> pipe_has_single_output p \<and> is_dram_prefetch_post_tm_pipe g p"

text \<open>
  A prefetch pipe can be merged with the pipe behind its output, when that is a relay with this one
  reader, whose only input it is. The result is the relay buffer and its reader.
\<close>

definition post_tm_relay :: "pipe_graph \<Rightarrow> PGPipe \<Rightarrow> (nat \<times> nat) option" where
  "post_tm_relay g src =
     (case pgp_output_buffers src of
        [[b]] \<Rightarrow>
          if \<not> is_dram_prefetch_post_tm_pipe g src then None
          else (case pgb_output_pipes (buffer_at g b) of
                  [p] \<Rightarrow> if is_post_tm_relay_buf (buffer_at g b) \<and> has_single_input (pipe_at g p)
                         then Some (b, p) else None
                | _ \<Rightarrow> None)
      | _ \<Rightarrow> None)"

definition can_do_post_tm_connections_optimization :: "pipe_graph \<Rightarrow> PGPipe \<Rightarrow> bool" where
  "can_do_post_tm_connections_optimization g src \<longleftrightarrow> post_tm_relay g src \<noteq> None"

definition copy_original_post_tm_pipe_attributes :: "PGPipe \<Rightarrow> PGPipe \<Rightarrow> PGPipe" where
  "copy_original_post_tm_pipe_attributes orig p =
     p\<lparr>pipe_periodic_repeat := pipe_periodic_repeat orig, pgp_incoming_noc_id := pgp_incoming_noc_id orig,
       pgp_incoming_noc_vc := pgp_incoming_noc_vc orig, dram_pipe_total_readers := dram_pipe_total_readers orig,
       dram_pipe_reader_index := dram_pipe_reader_index orig\<rparr>"

definition replace_reader :: "nat \<Rightarrow> nat \<Rightarrow> nat \<Rightarrow> pipe_graph \<Rightarrow> pg_error + pipe_graph" where
  "replace_reader orig new b g =
     (if has_output_pipe_id g (buffer_at g b) (pgp_id (pipe_at g orig))
      then bind_sum (replace_output_pipe_of_buffer orig new (buffer_at g b)) (\<lambda>buf. Inr (at_buffer b (\<lambda>_. buf) g))
      else Inr g)"

fun detach_each :: "nat \<Rightarrow> nat \<Rightarrow> nat set \<Rightarrow> pg_input list \<Rightarrow> pipe_graph \<Rightarrow> pg_error + pipe_graph" where
  "detach_each orig new replaced [] g = Inr g"
| "detach_each orig new replaced (i # is) g =
     (let b = input_buffer i;
          g1 = (if b \<in> replaced then Inr g
                else bind_sum (replace_reader orig new b g) (\<lambda>g1. Inr (at_pipe new
                       (\<lambda>p. p\<lparr>input_buffers_ids := input_buffers_ids p @ [pgb_id (buffer_at g1 b)]\<rparr>) g1)))
      in bind_sum g1 (\<lambda>g1. detach_each orig new (insert b replaced) is (at_pipe new (add_pipe_input i) g1)))"

definition detach_inputs :: "nat \<Rightarrow> nat \<Rightarrow> pipe_graph \<Rightarrow> pg_error + pipe_graph" where
  "detach_inputs orig new g =
     (let g1 = at_pipe new remove_all_inputs g
      in detach_each orig new {} (get_pipe_inputs (pipe_at g1 orig) 0) g1)"

definition decomposed_pipe :: "PGPipe \<Rightarrow> nat \<Rightarrow> pipe_graph \<Rightarrow> nat \<Rightarrow> PGPipe" where
  "decomposed_pipe orig k g b =
     add_output_buffer b 0 ((new_PGPipe (pgp_id orig + of_nat k + 1))\<lparr>output_buffers_ids := [[pgb_id (buffer_at g b)]]\<rparr>)"

definition decompose_output :: "nat \<Rightarrow> nat \<times> nat \<Rightarrow> pipe_graph \<times> nat list \<Rightarrow> pg_error + pipe_graph \<times> nat list" where
  "decompose_output orig = (\<lambda>(k, b) (g, added).
     let (p, g1) = make_pipe (decomposed_pipe (pipe_at g orig) k g b) g in
     bind_sum (detach_inputs orig p g1) (\<lambda>g2.
       let g3 = at_pipe p (copy_original_post_tm_pipe_attributes (pipe_at g2 orig)) g2;
           g4 = at_pipe p (\<lambda>pipe. pipe\<lparr>mcast_core_logical_locations :=
                  mcast_core_logical_locations pipe @ [pgb_logical_location (buffer_at g3 b)]\<rparr>) g3
       in Inr (g4, added @ [p])))"

definition decompose_post_tm_multicast_pipe :: "nat \<Rightarrow> pipe_graph \<times> nat list \<Rightarrow> pg_error + pipe_graph \<times> nat list" where
  "decompose_post_tm_multicast_pipe orig s =
     (case pgp_output_buffers (pipe_at (fst s) orig) of
        [] \<Rightarrow> Inl PgUndefined
      | bs # _ \<Rightarrow> fold_sum (decompose_output orig) (enumerate 0 bs) s)"

record post_tm_state =
  post_graph :: pipe_graph
  pipes_to_remove :: "nat set"
  buffers_to_remove :: "nat set"
  pipes_to_add :: "nat list"

definition merge_post_tm_pipe :: "nat \<Rightarrow> post_tm_state \<Rightarrow> pg_error + post_tm_state" where
  "merge_post_tm_pipe src s =
     (case post_tm_relay (post_graph s) (pipe_at (post_graph s) src) of
        None \<Rightarrow> Inr s
      | Some (relay_buffer, relay_pipe) \<Rightarrow>
          bind_sum (detach_inputs src relay_pipe (post_graph s)) (\<lambda>g1.
          let g2 = at_pipe relay_pipe (copy_original_post_tm_pipe_attributes (pipe_at g1 src)) g1;
              s1 = s\<lparr>post_graph := g2, pipes_to_remove := insert src (pipes_to_remove s),
                     buffers_to_remove := insert relay_buffer (buffers_to_remove s)\<rparr> in
          if \<not> can_decompose_post_tm_multicast_pipe g2 (pipe_at g2 relay_pipe) then Inr s1
          else bind_sum (decompose_post_tm_multicast_pipe relay_pipe (g2, pipes_to_add s1)) (\<lambda>(g3, added).
                 Inr (s1\<lparr>post_graph := g3, pipes_to_add := added,
                         pipes_to_remove := insert relay_pipe (pipes_to_remove s1)\<rparr>))))"

definition handle_post_tm_pipes :: "pipe_graph \<Rightarrow> pg_error + pipe_graph" where
  "handle_post_tm_pipes g =
     bind_sum (fold_sum merge_post_tm_pipe (pg_pipes g)
                 \<lparr>post_graph = g, pipes_to_remove = {}, buffers_to_remove = {}, pipes_to_add = []\<rparr>) (\<lambda>s.
       Inr (add_pipes (pipes_to_add s) (remove_buffers (buffers_to_remove s)
              (remove_pipes (pipes_to_remove s) (post_graph s)))))"

section \<open>The creation as a whole\<close>

text \<open>The first three handlers, and then all four.\<close>

definition patch_indices_intermediates_queues ::
  "bool \<Rightarrow> pipe_graph_info \<Rightarrow> pipe_graph \<Rightarrow> pg_error + pipe_graph" where
  "patch_indices_intermediates_queues junk info g =
     bind_sum (handle_embedding_indices info g) (\<lambda>g1.
     bind_sum (handle_intermediate_buffers junk info g1) (\<lambda>(info2, g2). Inr (handle_e2e_queues junk g2)))"

definition patch_deficiencies :: "bool \<Rightarrow> pipe_graph_info \<Rightarrow> pipe_graph \<Rightarrow> pg_error + pipe_graph" where
  "patch_deficiencies junk info g =
     bind_sum (patch_indices_intermediates_queues junk info g) handle_post_tm_pipes"

definition connected_pipe_graph :: "pipe_graph \<Rightarrow> (pg_error + pipe_graph_info \<times> pipe_graph) option" where
  "connected_pipe_graph g =
     rbind (Some (bind_sum (create_pipe_inputs_for_scatter_buffers g empty_pipe_graph_info) (populate_buffers_map g)))
       (\<lambda>info. rbind (find_pipe_graph_nodes_connections info g) (\<lambda>g1. Some (Inr (info, g1))))"

definition create_pipe_graph :: "bool \<Rightarrow> pipe_graph \<Rightarrow> (pg_error + pipe_graph) option" where
  "create_pipe_graph junk parsed =
     rbind (connected_pipe_graph parsed) (\<lambda>(info, g). Some (patch_deficiencies junk info g))"

end
