(* ===== verification/PipeGraphLinks.thy ===== *)
theory PipeGraphLinks
  imports PipeGraphCreator PGSubgraphs
begin

text \<open>
  The links of a pipe graph: what a pipe reads is known at the buffer, and a buffer's input pipe writes
  it. The connections make them so and the handlers that add indices, intermediate buffers and replicas
  of queues keep them.
\<close>

section \<open>The invariant\<close>

text \<open>A padded scatter index may have no inputs at all, when the pipe moves no messages per index.\<close>

definition empty_padding :: "PGPipe \<Rightarrow> bool" where
  "empty_padding p \<longleftrightarrow> (\<exists>k. (k, []) \<in> set (output_padding_inputs p))"

definition padding_of :: "pipe_graph_info \<Rightarrow> PGPipe \<Rightarrow> nat set" where
  "padding_of info p =
     {b. empty_padding p \<and> (\<exists>i \<in> set (output_padding_buffers_ids p). buffers_per_id info i = Some b)}"

definition info_ok :: "pipe_graph_info \<Rightarrow> nat \<Rightarrow> bool" where
  "info_ok info n \<longleftrightarrow> (\<forall>i b. buffers_per_id info i = Some b \<longrightarrow> b < n
     \<and> (\<forall>inp. scatter_buffer_pipe_inputs info i = Some inp \<longrightarrow> input_buffer inp = b))
     \<and> dom (scatter_buffer_pipe_inputs info) \<subseteq> dom (buffers_per_id info)"

definition pg_links :: "pipe_graph_info \<Rightarrow> pipe_graph \<Rightarrow> bool" where
  "pg_links info g \<longleftrightarrow>
     (\<forall>b p. b \<in> pipe_reads (pipe_at g p) \<longrightarrow> p \<in> set (pgb_output_pipes (buffer_at g b)) \<and> b < next_buffer g)
     \<and> (\<forall>b p. p \<in> set (pgb_output_pipes (buffer_at g b)) \<longrightarrow>
          b \<in> pipe_reads (pipe_at g p) \<union> padding_of info (pipe_at g p) \<and> p < next_pipe g)
     \<and> (\<forall>b p. pgb_input_pipe (buffer_at g b) = Some p \<longrightarrow> b \<in> pipe_writes (pipe_at g p))
     \<and> (\<forall>b p. b \<in> pipe_writes (pipe_at g p) \<longrightarrow> b < next_buffer g \<and> p < next_pipe g)
     \<and> info_ok info (next_buffer g)"

text \<open>What the invariant reads of a graph.\<close>

definition same_links :: "pipe_graph \<Rightarrow> pipe_graph \<Rightarrow> bool" where
  "same_links g h \<longleftrightarrow> next_buffer h = next_buffer g \<and> next_pipe h = next_pipe g
     \<and> (\<forall>b. set (pgb_output_pipes (buffer_at h b)) = set (pgb_output_pipes (buffer_at g b))
          \<and> pgb_input_pipe (buffer_at h b) = pgb_input_pipe (buffer_at g b))
     \<and> (\<forall>p. pipe_reads (pipe_at h p) = pipe_reads (pipe_at g p) \<and> pipe_writes (pipe_at h p) = pipe_writes (pipe_at g p)
          \<and> output_padding_buffers_ids (pipe_at h p) = output_padding_buffers_ids (pipe_at g p)
          \<and> empty_padding (pipe_at h p) = empty_padding (pipe_at g p))"

lemma same_links_pg_links: "same_links g h \<Longrightarrow> pg_links info g \<Longrightarrow> pg_links info h"
  by (simp add: same_links_def pg_links_def padding_of_def)

lemma same_links_at_buffer:
  "pgb_output_pipes (f (buffer_at g b)) = pgb_output_pipes (buffer_at g b)
     \<Longrightarrow> pgb_input_pipe (f (buffer_at g b)) = pgb_input_pipe (buffer_at g b) \<Longrightarrow> same_links g (at_buffer b f g)"
  by (simp add: same_links_def at_buffer_def)

lemma same_links_at_pipe:
  "pipe_reads (f (pipe_at g p)) = pipe_reads (pipe_at g p) \<Longrightarrow> pipe_writes (f (pipe_at g p)) = pipe_writes (pipe_at g p)
     \<Longrightarrow> output_padding_buffers_ids (f (pipe_at g p)) = output_padding_buffers_ids (pipe_at g p)
     \<Longrightarrow> output_padding_inputs (f (pipe_at g p)) = output_padding_inputs (pipe_at g p)
     \<Longrightarrow> same_links g (at_pipe p f g)"
  by (simp add: same_links_def at_pipe_def empty_padding_def)

lemma same_links_owned: "same_links g (add_buffer b g)" "same_links g (add_pipe p g)"
  by (simp_all add: same_links_def add_buffer_def add_pipe_def)

section \<open>The connections\<close>

lemma pipe_reads_add_input [simp]:
  "pipe_reads (add_pipe_input i p) = insert (input_buffer i) (pipe_reads p)"
  "pipe_writes (add_pipe_input i p) = pipe_writes p"
  "output_padding_buffers_ids (add_pipe_input i p) = output_padding_buffers_ids p"
  "output_padding_inputs (add_pipe_input i p) = output_padding_inputs p"
  by (auto simp: pipe_reads_def pipe_writes_def add_pipe_input_def)

lemma union_extended:
  "k < length xs \<Longrightarrow> (\<Union>ys \<in> set (xs[k := xs ! k @ [b]]). set ys) = insert b (\<Union>ys \<in> set xs. set ys)"
proof (induction xs arbitrary: k)
  case (Cons x xs)
  then show ?case by (cases k) auto
qed simp

lemma pipe_writes_add_output [simp]:
  "pipe_writes (add_output_buffer b k p) = insert b (pipe_writes p)"
  "pipe_reads (add_output_buffer b k p) = pipe_reads p"
  "output_padding_buffers_ids (add_output_buffer b k p) = output_padding_buffers_ids p"
  "output_padding_inputs (add_output_buffer b k p) = output_padding_inputs p"
proof -
  let ?outs = "pgp_output_buffers p @ replicate (Suc k - length (pgp_output_buffers p)) []"
  have "(\<Union>bs \<in> set (?outs[k := ?outs ! k @ [b]]). set bs) = insert b (\<Union>bs \<in> set ?outs. set bs)"
    by (rule union_extended) simp
  moreover have "(\<Union>bs \<in> set ?outs. set bs) = pipe_writes p" by (auto simp: pipe_writes_def)
  ultimately show "pipe_writes (add_output_buffer b k p) = insert b (pipe_writes p)"
    by (simp add: pipe_writes_def add_output_buffer_def Let_def)
  show "pipe_reads (add_output_buffer b k p) = pipe_reads p"
    "output_padding_buffers_ids (add_output_buffer b k p) = output_padding_buffers_ids p"
    "output_padding_inputs (add_output_buffer b k p) = output_padding_inputs p"
    by (simp_all add: pipe_reads_def add_output_buffer_def Let_def)
qed

text \<open>A pipe reads one more buffer, which knows it.\<close>

lemma pg_links_read:
  assumes "pg_links info g" and "p < next_pipe g" and "b < next_buffer g"
    and "pipe_reads (f (pipe_at g p)) \<subseteq> insert b (pipe_reads (pipe_at g p))" "pipe_reads (pipe_at g p) \<subseteq> pipe_reads (f (pipe_at g p))"
    and "b \<in> pipe_reads (f (pipe_at g p)) \<union> padding_of info (f (pipe_at g p))"
    and "padding_of info (pipe_at g p) \<subseteq> padding_of info (f (pipe_at g p))"
    and "pipe_writes (f (pipe_at g p)) = pipe_writes (pipe_at g p)"
  shows "pg_links info (at_pipe p f (at_buffer b (add_output_pipe_to_buffer p) g))"
proof -
  let ?P = "pipe_at g p" and ?h = "at_pipe p f (at_buffer b (add_output_pipe_to_buffer p) g)"
  have pipe: "pipe_at ?h q = (if q = p then f ?P else pipe_at g q)"
    and outs: "set (pgb_output_pipes (buffer_at ?h c)) = (if c = b then insert p (set (pgb_output_pipes (buffer_at g b)))
      else set (pgb_output_pipes (buffer_at g c)))"
    and input: "pgb_input_pipe (buffer_at ?h c) = pgb_input_pipe (buffer_at g c)"
    and nexts: "next_buffer ?h = next_buffer g" "next_pipe ?h = next_pipe g" for q c
    by (auto simp: at_pipe_def at_buffer_def add_output_pipe_to_buffer_def)
  have "c \<in> pipe_reads (f ?P) \<union> padding_of info (f ?P)" if "p \<in> set (pgb_output_pipes (buffer_at g c))" for c
    using assms(1,5,7) that unfolding pg_links_def by blast
  then show ?thesis
    using assms(1-6,8) unfolding pg_links_def pipe outs input nexts by (auto split: if_splits)
qed

lemma pg_links_connect_input:
  assumes "connect_pipe_with_input_buffer info p i g = Inr h" and "pg_links info g" and "p < next_pipe g"
  shows "pg_links info h \<and> next_pipe h = next_pipe g \<and> next_buffer h = next_buffer g"
proof -
  obtain b where b: "buffers_per_id info i = Some b"
    using assms(1) by (auto simp: connect_pipe_with_input_buffer_def split: option.splits)
  let ?inp = "case scatter_buffer_pipe_inputs info i of None \<Rightarrow> \<lparr>input_buffer = b, input_offset = 0\<rparr> | Some inp \<Rightarrow> inp"
  have ok: "b < next_buffer g" "input_buffer ?inp = b"
    using assms(2) b by (auto simp: pg_links_def info_ok_def split: option.splits)
  have h: "h = at_pipe p (add_pipe_input ?inp) (at_buffer b (add_output_pipe_to_buffer p) g)"
    using assms(1) b by (simp add: connect_pipe_with_input_buffer_def Let_def)
  have "pg_links info h" unfolding h
    by (rule pg_links_read [OF assms(2,3) ok(1)])
      (simp_all add: ok(2) subset_insertI padding_of_def empty_padding_def)
  then show ?thesis by (simp add: h at_pipe_def at_buffer_def)
qed

lemma pg_links_connect_output:
  assumes "connect_pipe_with_output_buffer info p k i g = Inr h" and "pg_links info g" and "p < next_pipe g"
  shows "pg_links info h \<and> next_pipe h = next_pipe g \<and> next_buffer h = next_buffer g"
proof -
  obtain b j where b: "buffers_per_id info i = Some b"
    and h: "h = at_pipe p (add_output_buffer b j) (at_buffer b (pgb_input_pipe_update (\<lambda>_. Some p)) g)"
    using assms(1) by (auto simp: connect_pipe_with_output_buffer_def split: option.splits if_splits)
  have "b < next_buffer g" using assms(2) b by (auto simp: pg_links_def info_ok_def)
  then have "pg_links info h"
    using assms(2,3) unfolding h pg_links_def at_pipe_def at_buffer_def padding_of_def empty_padding_def
    by (auto split: if_splits)
  then show ?thesis by (simp add: h at_pipe_def at_buffer_def)
qed

text \<open>Emplacing a padding that is not there yet: the buffer is read unless the padding is empty.\<close>

lemma add_output_padding_buffer_Inr:
  assumes "add_output_padding_buffer g b j p = Inr pipe" and "map_of (output_padding_inputs p) j = None"
  shows "pipe_writes pipe = pipe_writes p \<and> output_padding_buffers_ids pipe = output_padding_buffers_ids p
    \<and> consumer_repeat pipe = consumer_repeat p
    \<and> pipe_reads pipe \<subseteq> insert b (pipe_reads p) \<and> pipe_reads p \<subseteq> pipe_reads pipe
    \<and> (b \<in> pipe_reads pipe \<or> empty_padding pipe) \<and> (empty_padding p \<longrightarrow> empty_padding pipe)
    \<and> fst ` set (output_padding_inputs pipe) = insert j (fst ` set (output_padding_inputs p))"
proof -
  obtain m where pipe: "pipe = p\<lparr>output_padding_inputs := output_padding_inputs p @ [(j, replicate m \<lparr>input_buffer = b, input_offset = 0\<rparr>)]\<rparr>"
    using assms by (auto simp: add_output_padding_buffer_def emplace_padding_def is_output_padding_def Let_def split: if_splits)
  show ?thesis by (cases m) (auto simp: pipe pipe_writes_def pipe_reads_def empty_padding_def)
qed

lemma pg_links_connect_padding:
  assumes "connect_pipe_with_output_padding_buffer info p k i g = Inr h" and "pg_links info g" and "p < next_pipe g"
    and "i \<in> set (output_padding_buffers_ids (pipe_at g p))"
    and "map_of (output_padding_inputs (pipe_at g p)) (k div unat (consumer_repeat (pipe_at g p))) = None"
  shows "pg_links info h \<and> next_pipe h = next_pipe g \<and> next_buffer h = next_buffer g
    \<and> output_padding_buffers_ids (pipe_at h p) = output_padding_buffers_ids (pipe_at g p)
    \<and> consumer_repeat (pipe_at h p) = consumer_repeat (pipe_at g p) \<and> consumer_repeat (pipe_at g p) \<noteq> 0
    \<and> fst ` set (output_padding_inputs (pipe_at h p)) =
        insert (k div unat (consumer_repeat (pipe_at g p))) (fst ` set (output_padding_inputs (pipe_at g p)))"
proof -
  obtain b pipe where b: "buffers_per_id info i = Some b" "consumer_repeat (pipe_at g p) \<noteq> 0"
    and pipe: "add_output_padding_buffer g b (k div unat (consumer_repeat (pipe_at g p))) (pipe_at g p) = Inr pipe"
    and h: "h = at_buffer b (add_output_pipe_to_buffer p) (at_pipe p (\<lambda>_. pipe) g)"
    using assms(1) by (auto simp: connect_pipe_with_output_padding_buffer_def bind_sum_Inr_iff split: option.splits if_splits)
  note new = add_output_padding_buffer_Inr [OF pipe assms(5)]
  have "b < next_buffer g" using assms(2) b by (auto simp: pg_links_def info_ok_def)
  moreover have "b \<in> pipe_reads pipe \<union> padding_of info pipe" using new assms(4) b by (auto simp: padding_of_def)
  moreover have "padding_of info (pipe_at g p) \<subseteq> padding_of info pipe" using new by (auto simp: padding_of_def)
  moreover have "h = at_pipe p (\<lambda>_. pipe) (at_buffer b (add_output_pipe_to_buffer p) g)"
    by (simp add: h at_pipe_def at_buffer_def)
  ultimately show ?thesis
    using pg_links_read [OF assms(2,3), of b "\<lambda>_. pipe"] new b(2) by (simp add: at_pipe_def at_buffer_def)
qed

lemma stride_loop_returns:
  assumes "step > 0"
  shows "\<exists>r. stride_loop body step n k s = Some r"
proof (induction "n - k" arbitrary: k s rule: less_induct)
  case less
  show ?case
  proof (cases "k < n")
    case True
    then have "n - (k + step) < n - k" using assms by simp
    then show ?thesis using less [of "k + step"] True
      by (subst stride_loop.simps) (cases "body k s", simp_all)
  qed (subst stride_loop.simps, simp)
qed

lemma stride_loop_keeps_all:
  assumes "stride_loop body step n k s = Some r"
  shows "(\<forall>k s t. k < n \<longrightarrow> P s \<longrightarrow> body k s = Inr t \<longrightarrow> P t) \<longrightarrow> P s \<longrightarrow> (\<forall>t. r = Inr t \<longrightarrow> P t)"
proof (rule stride_loop.raw_induct [OF _ assms])
  fix rec and body :: "nat \<Rightarrow> 'b \<Rightarrow> 'a + 'b" and step n k s r
  assume IH: "\<And>body step n k s r. rec body step n k s = Some r \<Longrightarrow>
      (\<forall>k s t. k < n \<longrightarrow> P s \<longrightarrow> body k s = Inr t \<longrightarrow> P t) \<longrightarrow> P s \<longrightarrow> (\<forall>t. r = Inr t \<longrightarrow> P t)"
    and run: "(if \<not> k < n then Some (Inr s) else rbind (Some (body k s)) (rec body step n (k + step))) = Some r"
  show "(\<forall>k s t. k < n \<longrightarrow> P s \<longrightarrow> body k s = Inr t \<longrightarrow> P t) \<longrightarrow> P s \<longrightarrow> (\<forall>t. r = Inr t \<longrightarrow> P t)"
  proof (cases "k < n")
    case True
    show ?thesis
    proof (cases "body k s")
      case (Inr u)
      have rest: "rec body step n (k + step) u = Some r" using run True Inr by simp
      show ?thesis
      proof (intro impI allI)
        fix t assume keep: "\<forall>k s t. k < n \<longrightarrow> P s \<longrightarrow> body k s = Inr t \<longrightarrow> P t" and "P s" "r = Inr t"
        then have "P u" using True Inr by blast
        then show "P t" using IH [OF rest] keep \<open>r = Inr t\<close> by blast
      qed
    qed (use run True in auto)
  qed (use run in auto)
qed

lemma stride_loop_keeps:
  assumes "stride_loop body step n k s = Some (Inr t)" and "P s"
    and "\<And>k s t. k < n \<Longrightarrow> P s \<Longrightarrow> body k s = Inr t \<Longrightarrow> P t"
  shows "P t"
  using stride_loop_keeps_all [OF assms(1), of P] assms(2,3) by blast

text \<open>The same with a property of the index, which advances with the loop.\<close>

lemma stride_loop_advances_all:
  assumes "stride_loop body step n k s = Some r"
  shows "(\<forall>k s t. k < n \<longrightarrow> P k s \<longrightarrow> body k s = Inr t \<longrightarrow> P (k + step) t) \<longrightarrow> P k s \<longrightarrow> (\<forall>t. r = Inr t \<longrightarrow> (\<exists>k. P k t))"
proof (rule stride_loop.raw_induct [OF _ assms])
  fix rec and body :: "nat \<Rightarrow> 'b \<Rightarrow> 'a + 'b" and step n k s r
  assume IH: "\<And>body step n k s r. rec body step n k s = Some r \<Longrightarrow>
      (\<forall>k s t. k < n \<longrightarrow> P k s \<longrightarrow> body k s = Inr t \<longrightarrow> P (k + step) t) \<longrightarrow> P k s \<longrightarrow> (\<forall>t. r = Inr t \<longrightarrow> (\<exists>k. P k t))"
    and run: "(if \<not> k < n then Some (Inr s) else rbind (Some (body k s)) (rec body step n (k + step))) = Some r"
  show "(\<forall>k s t. k < n \<longrightarrow> P k s \<longrightarrow> body k s = Inr t \<longrightarrow> P (k + step) t) \<longrightarrow> P k s \<longrightarrow> (\<forall>t. r = Inr t \<longrightarrow> (\<exists>k. P k t))"
  proof (cases "k < n")
    case True
    show ?thesis
    proof (cases "body k s")
      case (Inr u)
      have rest: "rec body step n (k + step) u = Some r" using run True Inr by simp
      show ?thesis
      proof (intro impI allI)
        fix t assume keep: "\<forall>k s t. k < n \<longrightarrow> P k s \<longrightarrow> body k s = Inr t \<longrightarrow> P (k + step) t" and "P k s" "r = Inr t"
        then have "P (k + step) u" using True Inr by blast
        then show "\<exists>k. P k t" using IH [OF rest] keep \<open>r = Inr t\<close> by blast
      qed
    qed (use run True in auto)
  qed (use run in auto)
qed

lemma stride_loop_advances:
  assumes "stride_loop body step n k s = Some (Inr t)" and "P k s"
    and "\<And>k s t. k < n \<Longrightarrow> P k s \<Longrightarrow> body k s = Inr t \<Longrightarrow> P (k + step) t"
  obtains k' where "P k' t"
  using stride_loop_advances_all [OF assms(1), of P] assms(2,3) by blast

lemma connect_input_pipes: "connect_pipe_with_input_buffer info p i g = Inr h \<Longrightarrow> pg_pipes h = pg_pipes g"
  by (auto simp: connect_pipe_with_input_buffer_def Let_def at_pipe_def at_buffer_def split: option.splits)

lemma connect_output_pipes: "connect_pipe_with_output_buffer info p k i g = Inr h \<Longrightarrow> pg_pipes h = pg_pipes g"
  by (auto simp: connect_pipe_with_output_buffer_def at_pipe_def at_buffer_def split: option.splits if_splits)

lemma at_pipe_pipes [simp]: "pg_pipes (at_pipe p f g) = pg_pipes g" "pg_pipes (at_buffer b h g) = pg_pipes g"
  by (simp_all add: at_pipe_def at_buffer_def)

lemma connect_padding_pipes:
  "connect_pipe_with_output_padding_buffer info p k i g = Inr h \<Longrightarrow> pg_pipes h = pg_pipes g"
  by (auto simp: connect_pipe_with_output_padding_buffer_def bind_sum_Inr_iff at_pipe_def at_buffer_def
      split: option.splits if_splits)

text \<open>Connecting leaves the repeat counts alone.\<close>

definition same_repeats :: "pipe_graph \<Rightarrow> pipe_graph \<Rightarrow> bool" where
  "same_repeats g h \<longleftrightarrow> (\<forall>p. consumer_repeat (pipe_at h p) = consumer_repeat (pipe_at g p))"

lemma same_repeats_refl [simp]: "same_repeats g g"
  by (simp add: same_repeats_def)

lemma same_repeats_trans: "same_repeats g h \<Longrightarrow> same_repeats h k \<Longrightarrow> same_repeats g k"
  by (simp add: same_repeats_def)

lemma connect_input_repeats: "connect_pipe_with_input_buffer info p i g = Inr h \<Longrightarrow> same_repeats g h"
  by (auto simp: connect_pipe_with_input_buffer_def Let_def at_pipe_def at_buffer_def same_repeats_def add_pipe_input_def
      split: option.splits)

lemma connect_output_repeats: "connect_pipe_with_output_buffer info p k i g = Inr h \<Longrightarrow> same_repeats g h"
  by (auto simp: connect_pipe_with_output_buffer_def at_pipe_def at_buffer_def same_repeats_def add_output_buffer_def
      Let_def split: option.splits if_splits)

lemma connect_padding_repeats:
  assumes "connect_padding_at info p ids k g = Inr h"
  shows "same_repeats g h"
proof -
  have "consumer_repeat pipe = consumer_repeat (pipe_at g p)" if "add_output_padding_buffer g b j (pipe_at g p) = Inr pipe" for b j pipe
    using that by (auto simp: add_output_padding_buffer_def emplace_padding_def Let_def split: if_splits)
  then show ?thesis using assms
    by (auto simp: connect_padding_at_def connect_pipe_with_output_padding_buffer_def bind_sum_Inr_iff at_pipe_def
        at_buffer_def same_repeats_def split: option.splits if_splits)
qed

text \<open>Nor does it touch other pipes, or the paddings while inputs and outputs are connected.\<close>

lemma connect_input_pipe_at:
  assumes "connect_pipe_with_input_buffer info p i g = Inr h"
  shows "q \<noteq> p \<Longrightarrow> pipe_at h q = pipe_at g q" and "output_padding_inputs (pipe_at h p) = output_padding_inputs (pipe_at g p)"
  using assms by (auto simp: connect_pipe_with_input_buffer_def Let_def at_pipe_def at_buffer_def split: option.splits)

lemma connect_output_pipe_at: "connect_pipe_with_output_buffer info p k i g = Inr h \<Longrightarrow> q \<noteq> p \<Longrightarrow> pipe_at h q = pipe_at g q"
  by (auto simp: connect_pipe_with_output_buffer_def at_pipe_def at_buffer_def split: option.splits if_splits)

lemma connect_padding_pipe_at: "connect_padding_at info p ids k g = Inr h \<Longrightarrow> q \<noteq> p \<Longrightarrow> pipe_at h q = pipe_at g q"
  by (auto simp: connect_padding_at_def connect_pipe_with_output_padding_buffer_def bind_sum_Inr_iff at_pipe_def at_buffer_def
      split: option.splits if_splits)

lemma find_pipe_connections_pipe_at:
  assumes "find_pipe_connections info p g = Some (Inr h)" and "q \<noteq> p"
  shows "pipe_at h q = pipe_at g q"
proof -
  let ?padding = "output_padding_buffers_ids (pipe_at g p)" and ?outs = "output_buffers_ids (pipe_at g p)"
    and ?repeat = "unat (consumer_repeat (pipe_at g p))" and ?P = "\<lambda>s. pipe_at s q = pipe_at g q"
  obtain g1 g2 where g1: "fold_sum (connect_pipe_with_input_buffer info p) (input_buffers_ids (pipe_at g p)) g = Inr g1"
    and g2: "stride_loop (connect_padding_at info p ?padding) ?repeat (length ?padding) 0 g1 = Some (Inr g2)"
    and h: "stride_loop (\<lambda>k. fold_sum (connect_pipe_with_output_buffer info p k) (?outs ! k)) ?repeat (length ?outs) 0 g2 = Some (Inr h)"
    using assms(1) by (auto simp: find_pipe_connections_def Let_def rbind_Inr_iff)
  have 1: "?P g1" by (rule fold_sum_invariant [where P = ?P, OF _ _ g1]) (use connect_input_pipe_at(1) assms(2) in auto)
  have 2: "?P g2" by (rule stride_loop_keeps [where P = ?P, OF g2 1]) (use connect_padding_pipe_at assms(2) in auto)
  show ?thesis
  proof (rule stride_loop_keeps [where P = ?P, OF h 2])
    fix k s t assume s: "?P s" and run: "fold_sum (connect_pipe_with_output_buffer info p k) (?outs ! k) s = Inr t"
    show "?P t" by (rule fold_sum_invariant [where P = ?P, OF _ s run]) (use connect_output_pipe_at assms(2) in auto)
  qed
qed

text \<open>Connecting one pipe, then all.\<close>

definition connecting :: "pipe_graph_info \<Rightarrow> pipe_graph \<Rightarrow> pipe_graph \<Rightarrow> bool" where
  "connecting info g h \<longleftrightarrow>
     pg_links info h \<and> next_pipe h = next_pipe g \<and> next_buffer h = next_buffer g \<and> pg_pipes h = pg_pipes g"

lemma connecting_inputs:
  assumes "fold_sum (connect_pipe_with_input_buffer info p) is g = Inr h" and "pg_links info g" and "p < next_pipe g"
  shows "connecting info g h"
  by (rule fold_sum_invariant [where P = "connecting info g", OF _ _ assms(1)])
    (use assms(2,3) in \<open>auto simp: connecting_def dest: pg_links_connect_input connect_input_pipes\<close>)

lemma connecting_outputs:
  assumes "fold_sum (connect_pipe_with_output_buffer info p k) is g = Inr h" and "pg_links info g" and "p < next_pipe g"
  shows "connecting info g h"
  by (rule fold_sum_invariant [where P = "connecting info g", OF _ _ assms(1)])
    (use assms(2,3) in \<open>auto simp: connecting_def dest: pg_links_connect_output connect_output_pipes\<close>)

lemma connect_input_padding_ids:
  "connect_pipe_with_input_buffer info p i g = Inr h
     \<Longrightarrow> output_padding_buffers_ids (pipe_at h p) = output_padding_buffers_ids (pipe_at g p)"
  by (auto simp: connect_pipe_with_input_buffer_def Let_def at_pipe_def at_buffer_def split: option.splits)

lemma connect_inputs_padding_ids:
  assumes "fold_sum (connect_pipe_with_input_buffer info p) is g = Inr h"
  shows "output_padding_buffers_ids (pipe_at h p) = output_padding_buffers_ids (pipe_at g p)"
  by (rule fold_sum_invariant [where P = "\<lambda>h. output_padding_buffers_ids (pipe_at h p) = output_padding_buffers_ids (pipe_at g p)",
        OF _ _ assms]) (auto dest: connect_input_padding_ids)

lemma connect_inputs_padding_inputs:
  assumes "fold_sum (connect_pipe_with_input_buffer info p) is g = Inr h"
  shows "output_padding_inputs (pipe_at h p) = output_padding_inputs (pipe_at g p) \<and> same_repeats g h"
  by (rule fold_sum_invariant [where P = "\<lambda>h. output_padding_inputs (pipe_at h p) = output_padding_inputs (pipe_at g p) \<and> same_repeats g h",
        OF _ _ assms]) (auto simp: connect_input_pipe_at(2) dest: connect_input_repeats intro: same_repeats_trans)

text \<open>Before the padding at an index is connected, only indices below it are padded.\<close>

definition padded_below :: "pipe_graph_info \<Rightarrow> pipe_graph \<Rightarrow> nat \<Rightarrow> nat \<Rightarrow> pipe_graph \<Rightarrow> bool" where
  "padded_below info g p k h \<longleftrightarrow> connecting info g h
     \<and> output_padding_buffers_ids (pipe_at h p) = output_padding_buffers_ids (pipe_at g p)
     \<and> consumer_repeat (pipe_at h p) = consumer_repeat (pipe_at g p)
     \<and> (\<forall>j \<in> fst ` set (output_padding_inputs (pipe_at h p)). j < k div unat (consumer_repeat (pipe_at g p)))"

lemma padded_below_step:
  assumes "padded_below info g p k s" and "connect_padding_at info p (output_padding_buffers_ids (pipe_at g p)) k s = Inr t"
    and "k < length (output_padding_buffers_ids (pipe_at g p))" and "p < next_pipe g"
  shows "padded_below info g p (k + unat (consumer_repeat (pipe_at g p))) t"
proof -
  let ?ids = "output_padding_buffers_ids (pipe_at g p)" and ?r = "unat (consumer_repeat (pipe_at g p))"
  note s = assms(1) [unfolded padded_below_def connecting_def]
  consider "s = t" | "connect_pipe_with_output_padding_buffer info p k (?ids ! k) s = Inr t"
    using assms(2) by (auto simp: connect_padding_at_def split: if_splits)
  then show ?thesis
  proof cases
    case 1
    have "k div ?r \<le> (k + ?r) div ?r" by (rule div_le_mono) simp
    then show ?thesis using assms(1) unfolding padded_below_def 1 by fastforce
  next
    case 2
    have "map_of (output_padding_inputs (pipe_at s p)) (k div unat (consumer_repeat (pipe_at s p))) = None"
      using s by (auto simp: map_of_eq_None_iff)
    moreover have "?ids ! k \<in> set (output_padding_buffers_ids (pipe_at s p))" using s assms(3) by simp
    ultimately have t: "pg_links info t \<and> next_pipe t = next_pipe s \<and> next_buffer t = next_buffer s
      \<and> output_padding_buffers_ids (pipe_at t p) = output_padding_buffers_ids (pipe_at s p)
      \<and> consumer_repeat (pipe_at t p) = consumer_repeat (pipe_at s p) \<and> consumer_repeat (pipe_at s p) \<noteq> 0
      \<and> fst ` set (output_padding_inputs (pipe_at t p)) =
          insert (k div unat (consumer_repeat (pipe_at s p))) (fst ` set (output_padding_inputs (pipe_at s p)))"
      using pg_links_connect_padding [OF 2] s assms(4) by simp
    have same: "consumer_repeat (pipe_at s p) = consumer_repeat (pipe_at g p)"
      and below: "\<forall>j \<in> fst ` set (output_padding_inputs (pipe_at s p)). j < k div ?r" using s by blast+
    have "?r > 0" using t same by (simp add: unat_gt_0)
    then have step: "(k + ?r) div ?r = Suc (k div ?r)" by (metis Suc_eq_plus1 div_add_self2 less_irrefl)
    have "fst ` set (output_padding_inputs (pipe_at t p)) = insert (k div ?r) (fst ` set (output_padding_inputs (pipe_at s p)))"
      using t same by simp
    then have "\<forall>j \<in> fst ` set (output_padding_inputs (pipe_at t p)). j < (k + ?r) div ?r"
      using below unfolding step by (simp add: less_Suc_eq)
    moreover have "connecting info g t" using s t connect_padding_pipes [OF 2] by (simp add: connecting_def)
    ultimately show ?thesis using s t unfolding padded_below_def by simp
  qed
qed

lemma connecting_pipe:
  assumes "find_pipe_connections info p g = Some (Inr h)" and "pg_links info g" and "p < next_pipe g"
    and "output_padding_inputs (pipe_at g p) = []"
  shows "connecting info g h"
proof -
  let ?padding = "output_padding_buffers_ids (pipe_at g p)" and ?outs = "output_buffers_ids (pipe_at g p)"
    and ?repeat = "unat (consumer_repeat (pipe_at g p))"
  obtain g1 g2 where g1: "fold_sum (connect_pipe_with_input_buffer info p) (input_buffers_ids (pipe_at g p)) g = Inr g1"
    and g2: "stride_loop (connect_padding_at info p ?padding) ?repeat (length ?padding) 0 g1 = Some (Inr g2)"
    and h: "stride_loop (\<lambda>k. fold_sum (connect_pipe_with_output_buffer info p k) (?outs ! k)) ?repeat (length ?outs) 0 g2 = Some (Inr h)"
    using assms(1) by (auto simp: find_pipe_connections_def Let_def rbind_Inr_iff)
  have "padded_below info g p 0 g1"
    using connecting_inputs [OF g1 assms(2,3)] connect_inputs_padding_ids [OF g1] connect_inputs_padding_inputs [OF g1] assms(4)
    by (simp add: padded_below_def same_repeats_def)
  then obtain k where "padded_below info g p k g2"
    by (rule stride_loop_advances [where P = "padded_below info g p", OF g2])
      (use padded_below_step assms(3) in blast)+
  then have "connecting info g g2" by (simp add: padded_below_def)
  then show ?thesis
  proof (rule stride_loop_keeps [where P = "connecting info g", OF h])
    fix k s t assume "connecting info g s" "fold_sum (connect_pipe_with_output_buffer info p k) (?outs ! k) s = Inr t"
    then show "connecting info g t" using assms(3) connecting_outputs [of info p k "?outs ! k" s t]
      by (auto simp: connecting_def)
  qed
qed

lemma connecting_pipes:
  assumes "find_connections_of info ps g = Some (Inr h)" and "pg_links info g" and "distinct ps"
    and "\<forall>p \<in> set ps. p < next_pipe g \<and> output_padding_inputs (pipe_at g p) = []"
  shows "connecting info g h"
  using assms
proof (induction ps arbitrary: g)
  case (Cons p ps)
  then obtain u where u: "find_pipe_connections info p g = Some (Inr u)" "find_connections_of info ps u = Some (Inr h)"
    by (auto simp: rbind_Inr_iff)
  have c: "connecting info g u" using connecting_pipe [OF u(1)] Cons.prems(2,4) by simp
  have "q \<noteq> p \<Longrightarrow> pipe_at u q = pipe_at g q" for q by (rule find_pipe_connections_pipe_at [OF u(1)])
  then have "\<forall>q \<in> set ps. q < next_pipe u \<and> output_padding_inputs (pipe_at u q) = []"
    using Cons.prems(3,4) c by (metis connecting_def distinct.simps(2) list.set_intros(2))
  then show ?case using Cons.IH [OF u(2)] Cons.prems(3) c by (auto simp: connecting_def)
qed (simp add: connecting_def)

section \<open>The map of buffers\<close>

lemma add_buffer_with_id_Inr:
  "add_buffer_with_id g i b info = Inr info' \<longleftrightarrow>
     buffers_per_id info i = None \<and> info' = info\<lparr>buffers_per_id := (buffers_per_id info)(i \<mapsto> b)\<rparr>"
  by (auto simp: add_buffer_with_id_def)

lemma populate_adds:
  assumes "fold_sum (\<lambda>b. add_buffer_with_id g (pgb_id (buffer_at g b)) b) bs info = Inr info'"
  shows "scatter_buffer_pipe_inputs info' = scatter_buffer_pipe_inputs info
    \<and> (\<forall>i b. buffers_per_id info i = Some b \<longrightarrow> buffers_per_id info' i = Some b)
    \<and> (\<forall>b \<in> set bs. buffers_per_id info' (pgb_id (buffer_at g b)) = Some b)
    \<and> (\<forall>i b. buffers_per_id info' i = Some b \<longrightarrow> buffers_per_id info i = Some b \<or> b \<in> set bs)"
  using assms
proof (induction bs arbitrary: info)
  case (Cons b bs)
  then obtain u where u: "buffers_per_id info (pgb_id (buffer_at g b)) = None"
    "u = info\<lparr>buffers_per_id := (buffers_per_id info)(pgb_id (buffer_at g b) \<mapsto> b)\<rparr>"
    "fold_sum (\<lambda>b. add_buffer_with_id g (pgb_id (buffer_at g b)) b) bs u = Inr info'"
    by (simp add: bind_sum_Inr_iff add_buffer_with_id_Inr)
  note IH = Cons.IH [OF u(3)]
  have look: "buffers_per_id u i = (if i = pgb_id (buffer_at g b) then Some b else buffers_per_id info i)" for i
    by (simp add: u(2))
  have "buffers_per_id u i = Some c" if "buffers_per_id info i = Some c" for i c
    using that u(1) by (auto simp: look)
  moreover have "buffers_per_id info i = Some c \<or> c \<in> set (b # bs)" if "buffers_per_id u i = Some c \<or> c \<in> set bs" for i c
    using that by (auto simp: look split: if_splits)
  moreover have "buffers_per_id u (pgb_id (buffer_at g b)) = Some b" by (simp add: look)
  moreover have "scatter_buffer_pipe_inputs u = scatter_buffer_pipe_inputs info" by (simp add: u(2))
  ultimately show ?case using IH by (auto simp del: fun_upd_apply)
qed simp

text \<open>While the scatter buffers are added, an entry is that of a replica or of the id of its buffer.\<close>

definition scatter_entries_ok :: "pipe_graph \<Rightarrow> pipe_graph_info \<Rightarrow> bool" where
  "scatter_entries_ok g info \<longleftrightarrow>
     (\<forall>i inp. scatter_buffer_pipe_inputs info i = Some inp \<longrightarrow> buffers_per_id info i = Some (input_buffer inp)
        \<or> (input_buffer inp \<in> set (pg_buffers g) \<and> i = pgb_id (buffer_at g (input_buffer inp))))
     \<and> (\<forall>i b. buffers_per_id info i = Some b \<longrightarrow> b \<in> set (pg_buffers g))"

lemma scatter_entries_start:
  assumes "scatter_entries_ok g info" and "b \<in> set (pg_buffers g)"
  shows "scatter_entries_ok g (add_scatter_buffer_pipe_input (pgb_id (buffer_at g b)) b offset info)"
  using assms by (simp add: add_scatter_buffer_pipe_input_def scatter_entries_ok_def)

lemma scatter_entries_step:
  assumes "scatter_entries_ok g info" and "b \<in> set (pg_buffers g)" and "buffers_per_id info i = None"
  shows "scatter_entries_ok g ((add_scatter_buffer_pipe_input i b offset info)\<lparr>buffers_per_id := (buffers_per_id info)(i \<mapsto> b)\<rparr>)"
proof (cases "scatter_buffer_pipe_inputs info i")
  case None
  then show ?thesis using assms by (simp add: add_scatter_buffer_pipe_input_def scatter_entries_ok_def)
next
  case (Some inp)
  then have "input_buffer inp \<in> set (pg_buffers g)" "i = pgb_id (buffer_at g (input_buffer inp))"
    using assms(1,3) unfolding scatter_entries_ok_def by fastforce+
  with Some assms show ?thesis by (simp add: add_scatter_buffer_pipe_input_def scatter_entries_ok_def)
qed

lemma scatter_replica_ok:
  assumes "add_scatter_replica g b k info = Inr info'" and "scatter_entries_ok g info" and "b \<in> set (pg_buffers g)"
  shows "scatter_entries_ok g info'"
proof -
  have same: "buffers_per_id (add_scatter_buffer_pipe_input i b offset info) = buffers_per_id info" for i offset
    by (simp add: add_scatter_buffer_pipe_input_def)
  obtain i offset where "buffers_per_id info i = None"
    "info' = (add_scatter_buffer_pipe_input i b offset info)\<lparr>buffers_per_id := (buffers_per_id info)(i \<mapsto> b)\<rparr>"
    using assms(1) unfolding add_scatter_replica_def Let_def add_buffer_with_id_Inr same by blast
  then show ?thesis using scatter_entries_step [OF assms(2,3)] by simp
qed

lemma scatter_buffer_ok:
  assumes "add_scatter_buffer g b info = Inr info'" and "scatter_entries_ok g info" and b: "b \<in> set (pg_buffers g)"
  shows "scatter_entries_ok g info'"
proof (cases "pgb_is_scatter (buffer_at g b)")
  case True
  let ?start = "add_scatter_buffer_pipe_input (pgb_id (buffer_at g b)) b 0 info"
  have start: "scatter_entries_ok g ?start" by (rule scatter_entries_start [OF assms(2) b])
  have run: "fold_sum (add_scatter_replica g b) [1..<unat (pgb_replicate_count (buffer_at g b))] ?start = Inr info'"
    using assms(1) True by (simp add: add_scatter_buffer_def)
  show ?thesis
  proof (rule fold_sum_invariant [where P = "scatter_entries_ok g", OF _ start run])
    fix k s t assume "scatter_entries_ok g s" "add_scatter_replica g b k s = Inr t"
    then show "scatter_entries_ok g t" using scatter_replica_ok b by blast
  qed
qed (use assms in \<open>simp add: add_scatter_buffer_def\<close>)

lemma buffers_map_ok:
  assumes "bind_sum (create_pipe_inputs_for_scatter_buffers g empty_pipe_graph_info) (populate_buffers_map g) = Inr info"
    and "\<forall>b \<in> set (pg_buffers g). b < n"
  shows "info_ok info n"
proof -
  obtain info0 where info0: "fold_sum (add_scatter_buffer g) (pg_buffers g) empty_pipe_graph_info = Inr info0"
    and pop: "fold_sum (\<lambda>b. add_buffer_with_id g (pgb_id (buffer_at g b)) b) (pg_buffers g) info0 = Inr info"
    using assms(1) by (auto simp: bind_sum_Inr_iff create_pipe_inputs_for_scatter_buffers_def populate_buffers_map_def)
  have "scatter_entries_ok g info0"
  proof (rule fold_sum_invariant [where P = "scatter_entries_ok g", OF _ _ info0])
    show "scatter_entries_ok g empty_pipe_graph_info" by (simp add: scatter_entries_ok_def empty_pipe_graph_info_def)
  qed (rule scatter_buffer_ok)
  note start = this [unfolded scatter_entries_ok_def] and pop = populate_adds [OF pop]
  have entry: "buffers_per_id info i = Some (input_buffer inp)" if "scatter_buffer_pipe_inputs info i = Some inp" for i inp
  proof -
    have "scatter_buffer_pipe_inputs info0 i = Some inp" using that pop by simp
    then have "buffers_per_id info0 i = Some (input_buffer inp)
      \<or> (input_buffer inp \<in> set (pg_buffers g) \<and> i = pgb_id (buffer_at g (input_buffer inp)))"
      using start by blast
    then show ?thesis using pop by blast
  qed
  show ?thesis unfolding info_ok_def
  proof (intro conjI allI impI)
    fix i b assume b: "buffers_per_id info i = Some b"
    have "b \<in> set (pg_buffers g)" using b start pop by blast
    then show "b < n" using assms(2) by blast
    fix inp assume "scatter_buffer_pipe_inputs info i = Some inp"
    from entry [OF this] b show "input_buffer inp = b" by simp
  next
    show "dom (scatter_buffer_pipe_inputs info) \<subseteq> dom (buffers_per_id info)"
    proof
      fix i assume "i \<in> dom (scatter_buffer_pipe_inputs info)"
      then obtain inp where "scatter_buffer_pipe_inputs info i = Some inp" by blast
      from entry [OF this] show "i \<in> dom (buffers_per_id info)" by blast
    qed
  qed
qed

section \<open>The handlers\<close>

text \<open>What a handler keeps: the links, and that the graph owns what exists.\<close>

definition pg_ok :: "pipe_graph_info \<Rightarrow> pipe_graph \<Rightarrow> bool" where
  "pg_ok info g \<longleftrightarrow> pg_links info g \<and> (\<forall>p \<in> set (pg_pipes g). p < next_pipe g)"

lemma pg_ok_frame: "same_links g h \<Longrightarrow> pg_pipes h = pg_pipes g \<Longrightarrow> pg_ok info g \<Longrightarrow> pg_ok info h"
  using same_links_pg_links by (simp add: pg_ok_def) (simp add: same_links_def)

lemma copy_embedding_index_Inr:
  "copy_embedding_index_properties info b u = Inr h \<Longrightarrow> \<exists>c d. h = at_buffer c (copy_index_properties d) u"
  unfolding copy_embedding_index_properties_def by (auto split: option.splits list.splits)

lemma handle_embedding_Inr:
  assumes "handle_embedding_pipe info p g = Inr h"
  shows "h = g \<or> (\<exists>b u. connect_pipe_with_input_buffer info p (pgb_id (buffer_at g b)) g = Inr u
    \<and> copy_embedding_index_properties info b u = Inr h)"
  using assms unfolding handle_embedding_pipe_def
  by (simp add: bind_sum_Inr_iff split: list.splits option.splits if_splits) blast+

lemma embedding_pipe_ok:
  assumes "handle_embedding_pipe info p g = Inr h" and "pg_ok info g" and "p < next_pipe g"
  shows "pg_ok info h \<and> next_pipe h = next_pipe g"
proof -
  consider "h = g" | b u c d where "connect_pipe_with_input_buffer info p (pgb_id (buffer_at g b)) g = Inr u"
      "h = at_buffer c (copy_index_properties d) u"
    using handle_embedding_Inr [OF assms(1)] copy_embedding_index_Inr by blast
  then show ?thesis
  proof cases
    case 2
    note u = pg_links_connect_input [OF 2(1)] connect_input_pipes [OF 2(1)]
    have "same_links u h" unfolding 2(2) by (rule same_links_at_buffer) (simp_all add: copy_index_properties_def)
    moreover have "pg_ok info u" using u assms(2,3) by (simp add: pg_ok_def)
    ultimately show ?thesis using pg_ok_frame [of u h info] u assms(2,3) 2(2) by (simp add: pg_ok_def same_links_def)
  qed (use assms in simp)
qed

lemma embedding_indices_ok:
  assumes "handle_embedding_indices info g = Inr h" and "pg_ok info g"
  shows "pg_ok info h"
proof -
  have "pg_ok info h \<and> next_pipe h = next_pipe g"
  proof (rule fold_sum_invariant [where P = "\<lambda>h. pg_ok info h \<and> next_pipe h = next_pipe g",
        OF _ _ assms(1) [unfolded handle_embedding_indices_def]])
    fix p s t assume "p \<in> set (pg_pipes g)" "pg_ok info s \<and> next_pipe s = next_pipe g" "handle_embedding_pipe info p s = Inr t"
    moreover from this have "p < next_pipe s" using assms(2) by (simp add: pg_ok_def)
    ultimately show "pg_ok info t \<and> next_pipe t = next_pipe g" using embedding_pipe_ok [of info p s t] by simp
  qed (use assms(2) in simp)
  then show ?thesis by simp
qed

lemma make_buffer_links:
  assumes "pg_links info g" and "pgb_output_pipes b = []" and "pgb_input_pipe b = None" and "make_buffer b g = (c, h)"
  shows "pg_links info h" and "c = next_buffer g" and "next_buffer h = Suc (next_buffer g)" and "next_pipe h = next_pipe g"
    and "pg_pipes h = pg_pipes g" and "pipe_at h = pipe_at g"
proof -
  have h: "h = g\<lparr>buffer_at := (buffer_at g)(next_buffer g := b), next_buffer := Suc (next_buffer g)\<rparr>" "c = next_buffer g"
    using assms(4) by (auto simp: make_buffer_def)
  then show "c = next_buffer g" "next_buffer h = Suc (next_buffer g)" "next_pipe h = next_pipe g" "pg_pipes h = pg_pipes g"
    "pipe_at h = pipe_at g" by simp_all
  have known: "d < next_buffer g" if "d \<in> pipe_reads (pipe_at g p) \<union> padding_of info (pipe_at g p) \<union> pipe_writes (pipe_at g p)" for d p
    using assms(1) that by (auto simp: pg_links_def padding_of_def info_ok_def)
  have L: "d \<in> pipe_reads (pipe_at g p) \<union> padding_of info (pipe_at g p)" if "p \<in> set (pgb_output_pipes (buffer_at g d))" for d p
    using assms(1) that unfolding pg_links_def by blast
  have W: "d \<in> pipe_writes (pipe_at g p)" if "pgb_input_pipe (buffer_at g d) = Some p" for d p
    using assms(1) that unfolding pg_links_def by blast
  have "q \<notin> set (pgb_output_pipes (buffer_at g (next_buffer g)))" for q
    using L [of q "next_buffer g"] known [of "next_buffer g" q] by blast
  then have "set (pgb_output_pipes (buffer_at g (next_buffer g))) = {}" by (metis ex_in_conv)
  moreover have "pgb_input_pipe (buffer_at g (next_buffer g)) = None"
    using W known by (cases "pgb_input_pipe (buffer_at g (next_buffer g))") (blast, meson UnI2 less_irrefl)
  ultimately have new: "set (pgb_output_pipes (buffer_at g (next_buffer g))) = {}"
    "pgb_input_pipe (buffer_at g (next_buffer g)) = None" by simp_all
  then have same: "set (pgb_output_pipes (buffer_at h d)) = set (pgb_output_pipes (buffer_at g d))"
    "pgb_input_pipe (buffer_at h d) = pgb_input_pipe (buffer_at g d)" for d
    using assms(2,3) new by (auto simp: h)
  have "info_ok info (Suc (next_buffer g))" using assms(1) by (auto simp: pg_links_def info_ok_def less_Suc_eq)
  then show "pg_links info h" using assms(1) unfolding pg_links_def same by (auto simp: h less_Suc_eq)
qed

lemma info_ok_add:
  assumes "add_buffer_with_id g i b info = Inr info'" and "info_ok info n" and "b < n"
  shows "info_ok info' n"
proof -
  have i: "buffers_per_id info i = None" "info' = info\<lparr>buffers_per_id := (buffers_per_id info)(i \<mapsto> b)\<rparr>"
    using assms(1) by (simp_all add: add_buffer_with_id_Inr)
  then have "scatter_buffer_pipe_inputs info i = None" using assms(2) by (auto simp: info_ok_def)
  then show ?thesis using assms(2,3) unfolding i(2) by (auto simp: info_ok_def)
qed

lemma pg_links_add_buffer_id:
  assumes "add_buffer_with_id g0 i b info = Inr info'" and "pg_links info g" and "b < next_buffer g"
  shows "pg_links info' g"
proof -
  have "padding_of info p \<subseteq> padding_of info' p" for p
  proof -
    have "buffers_per_id info' j = Some c" if "buffers_per_id info j = Some c" for j c
      using that assms(1) by (auto simp: add_buffer_with_id_Inr)
    then show ?thesis by (auto simp: padding_of_def)
  qed
  moreover have "info_ok info' (next_buffer g)" using info_ok_add [OF assms(1) _ assms(3)] assms(2) by (simp add: pg_links_def)
  ultimately show ?thesis using assms(2) unfolding pg_links_def by blast
qed

lemma make_pipe_links:
  assumes "pg_links info g" and "pipe_reads p = {}" and "pipe_writes p = {}" and "make_pipe p g = (q, h)"
  shows "pg_links info h" and "q = next_pipe g" and "next_pipe h = Suc (next_pipe g)" and "next_buffer h = next_buffer g"
    and "pg_pipes h = pg_pipes g"
proof -
  have h: "h = g\<lparr>pipe_at := (pipe_at g)(next_pipe g := p), next_pipe := Suc (next_pipe g)\<rparr>" "q = next_pipe g"
    using assms(4) by (auto simp: make_pipe_def)
  then show "q = next_pipe g" "next_pipe h = Suc (next_pipe g)" "next_buffer h = next_buffer g" "pg_pipes h = pg_pipes g"
    by simp_all
  have none: "next_pipe g \<notin> set (pgb_output_pipes (buffer_at g b))" "pgb_input_pipe (buffer_at g b) \<noteq> Some (next_pipe g)"
    "b \<notin> pipe_reads (pipe_at g (next_pipe g))" "b \<notin> pipe_writes (pipe_at g (next_pipe g))" for b
    using assms(1) unfolding pg_links_def by (metis less_irrefl)+
  have same: "pipe_reads (pipe_at h r) = pipe_reads (pipe_at g r)" "pipe_writes (pipe_at h r) = pipe_writes (pipe_at g r)" for r
    using none(3,4) assms(2,3) by (auto simp: h)
  have pad: "padding_of info (pipe_at h r) = padding_of info (pipe_at g r)" if "r \<noteq> next_pipe g" for r
    using that by (simp add: h)
  have heap: "buffer_at h = buffer_at g" "next_pipe h = Suc (next_pipe g)" "next_buffer h = next_buffer g" by (simp_all add: h)
  have "b \<in> pipe_reads (pipe_at h r) \<union> padding_of info (pipe_at h r) \<and> r < Suc (next_pipe g)"
    if "r \<in> set (pgb_output_pipes (buffer_at g b))" for b r
  proof -
    have "r \<noteq> next_pipe g" using that none(1) by blast
    then show ?thesis using that assms(1) pad same(1) by (simp add: pg_links_def less_Suc_eq)
  qed
  then show "pg_links info h" using assms(1) unfolding pg_links_def same heap by (auto simp: less_Suc_eq)
qed

lemma pg_ok_at_buffer:
  "pgb_output_pipes (f (buffer_at g b)) = pgb_output_pipes (buffer_at g b)
     \<Longrightarrow> pgb_input_pipe (f (buffer_at g b)) = pgb_input_pipe (buffer_at g b) \<Longrightarrow> pg_ok info g \<Longrightarrow> pg_ok info (at_buffer b f g)"
  using pg_ok_frame [OF same_links_at_buffer] by simp

lemma pg_ok_at_pipe:
  "pipe_reads (f (pipe_at g p)) = pipe_reads (pipe_at g p) \<Longrightarrow> pipe_writes (f (pipe_at g p)) = pipe_writes (pipe_at g p)
     \<Longrightarrow> output_padding_buffers_ids (f (pipe_at g p)) = output_padding_buffers_ids (pipe_at g p)
     \<Longrightarrow> output_padding_inputs (f (pipe_at g p)) = output_padding_inputs (pipe_at g p)
     \<Longrightarrow> pg_ok info g \<Longrightarrow> pg_ok info (at_pipe p f g)"
  using pg_ok_frame [OF same_links_at_pipe] by simp

lemma at_nexts [simp]:
  "next_pipe (at_pipe p f g) = next_pipe g" "next_pipe (at_buffer b h g) = next_pipe g"
  "next_buffer (at_pipe p f g) = next_buffer g" "next_buffer (at_buffer b h g) = next_buffer g"
  by (simp_all add: at_pipe_def at_buffer_def)

lemma pg_ok_connect_input:
  assumes "connect_pipe_with_input_buffer info p i g = Inr h" and "pg_ok info g" and "p < next_pipe g"
  shows "pg_ok info h" and "next_pipe h = next_pipe g" and "next_buffer h = next_buffer g"
  using pg_links_connect_input [OF assms(1)] connect_input_pipes [OF assms(1)] assms(2,3) by (simp_all add: pg_ok_def)

lemma pg_ok_connect_output:
  assumes "connect_pipe_with_output_buffer info p k i g = Inr h" and "pg_ok info g" and "p < next_pipe g"
  shows "pg_ok info h" and "next_pipe h = next_pipe g" and "next_buffer h = next_buffer g"
  using pg_links_connect_output [OF assms(1)] connect_output_pipes [OF assms(1)] assms(2,3) by (simp_all add: pg_ok_def)

lemma connect_shared_ok:
  assumes "connect_shared_buffer info p b c g = Inr h" and "pg_ok info g" and "p < next_pipe g"
  shows "pg_ok info h \<and> next_pipe h = next_pipe g"
proof (cases "get_shared_output_buffer (pgb_id (buffer_at g b)) g")
  case (Some s)
  let ?i = "pgb_id (buffer_at g s)"
  let ?g2 = "at_buffer c (shared_space_buffer_id_update (\<lambda>_. ?i)) (at_buffer b (shared_space_buffer_id_update (\<lambda>_. ?i)) g)"
  let ?g3 = "at_pipe p (\<lambda>pipe. pipe\<lparr>input_buffers_ids := input_buffers_ids pipe @ [?i]\<rparr>) ?g2"
  have run: "connect_pipe_with_input_buffer info p ?i ?g3 = Inr h"
    using assms(1) Some by (simp add: connect_shared_buffer_def Let_def)
  have "pg_ok info ?g2" by (intro pg_ok_at_buffer assms(2)) simp_all
  then have "pg_ok info ?g3" by (rule pg_ok_at_pipe [rotated 4]) (simp_all add: pipe_reads_def pipe_writes_def)
  from pg_ok_connect_input [OF run this] show ?thesis using assms(3) by simp
qed (use assms in \<open>simp add: connect_shared_buffer_def\<close>)

lemma intermediate_buffer_ok:
  assumes "handle_intermediate_buffer junk b (info, created, g) = Inr (info', created', h)" and ok: "pg_ok info g"
  shows "pg_ok info' h"
proof (cases "has_no_input (buffer_at g b) \<and> has_no_outputs (buffer_at g b)")
  case True
  let ?i = "pgb_id (buffer_at g b)"
  let ?copy = "(copy_PGBuffer junk (buffer_at g b))\<lparr>pgb_id := ?i - 2\<rparr>"
  obtain c g1 where g1: "make_buffer ?copy g = (c, g1)" by force
  obtain p g2 where g2: "make_pipe (intermediate_pipe ?i) g1 = (p, g2)" by force
  let ?with_ids = "at_pipe p (\<lambda>pipe. pipe\<lparr>output_buffers_ids := output_buffers_ids pipe @ [[?i]]\<rparr>)"
  obtain info1 g3 g4 g5 where info1: "add_buffer_with_id g1 (?i - 2) c info = Inr info1"
    and g3: "connect_pipe_with_input_buffer info1 p (?i - 2) g2 = Inr g3"
    and g4: "connect_pipe_with_output_buffer info1 p 0 ?i (?with_ids g3) = Inr g4"
    and g5: "connect_shared_buffer info1 p b c g4 = Inr g5"
    and result: "info' = info1" "h = add_pipe p g5"
    using assms(1) True by (auto simp: handle_intermediate_buffer_def Let_def g1 g2 bind_sum_Inr_iff)
  note 1 = make_buffer_links [OF _ _ _ g1, of info]
  have links: "pg_links info g" "\<forall>q \<in> set (pg_pipes g). q < next_pipe g" using ok by (simp_all add: pg_ok_def)
  have b1: "pg_links info g1" "c = next_buffer g" "next_buffer g1 = Suc (next_buffer g)" "next_pipe g1 = next_pipe g"
    "pg_pipes g1 = pg_pipes g"
    using 1 [OF links(1)] by (simp_all add: copy_PGBuffer_def)
  have i1: "pg_links info1 g1" using pg_links_add_buffer_id [OF info1 b1(1)] b1(2,3) by simp
  note b2 = make_pipe_links [OF i1 _ _ g2]
  have "pipe_reads (intermediate_pipe ?i) = {}" "pipe_writes (intermediate_pipe ?i) = {}"
    by (simp_all add: pipe_reads_def pipe_writes_def intermediate_pipe_def new_PGPipe_def)
  note b2 = b2 [OF this]
  have "pg_ok info1 g2" and p: "p < next_pipe g2" using b2 links(2) b1 by (auto simp: pg_ok_def less_Suc_eq)
  note b3 = pg_ok_connect_input [OF g3 this]
  have "pg_ok info1 (?with_ids g3)"
    by (rule pg_ok_at_pipe [OF _ _ _ _ b3(1)]) (simp_all add: pipe_reads_def pipe_writes_def)
  note b4 = pg_ok_connect_output [OF g4 this]
  have "pg_ok info1 g5 \<and> next_pipe g5 = next_pipe g2"
    using connect_shared_ok [OF g5 b4(1)] b4(2) b3(2) p by simp
  then show ?thesis using p pg_ok_def same_links_owned(2) [of g5 p] same_links_pg_links [of g5 _ info1]
    unfolding result by (auto simp: pg_ok_def add_pipe_def)
qed (use assms in \<open>auto simp: handle_intermediate_buffer_def\<close>)

lemma intermediate_buffers_ok:
  assumes "handle_intermediate_buffers junk info g = Inr (info', h)" and "pg_ok info g"
  shows "pg_ok info' h"
proof -
  obtain created u where u: "fold_sum (handle_intermediate_buffer junk) (pg_buffers g) (info, [], g) = Inr (info', created, u)"
    and h: "h = fold add_buffer created u"
    using assms(1) by (auto simp: handle_intermediate_buffers_def bind_sum_Inr_iff)
  have "pg_ok (fst (info', created, u)) (snd (snd (info', created, u)))"
    by (rule fold_sum_invariant [where P = "\<lambda>s. pg_ok (fst s) (snd (snd s))", OF _ _ u])
      (use assms(2) intermediate_buffer_ok in auto)
  then have "pg_ok info' u" by simp
  moreover have "pg_ok info' (add_buffer b v)" if "pg_ok info' v" for b v
    by (rule pg_ok_frame [OF same_links_owned(1) _ that]) (simp add: add_buffer_def)
  ultimately have "pg_ok info' (fold add_buffer bs u)" for bs
    by (induction bs arbitrary: u) simp_all
  then show ?thesis by (simp add: h)
qed

text \<open>A pipe with a single output writes another buffer from now on.\<close>

lemma pg_links_divert:
  assumes "pg_links info g" and "pgp_output_buffers (pipe_at g p) = [[b]]" and "p < next_pipe g" and "c < next_buffer g"
  shows "pg_links info (at_buffer c (pgb_input_pipe_update (\<lambda>_. Some p)) (at_buffer b (pgb_input_pipe_update (\<lambda>_. None))
    (at_pipe p (replace_output_buffer b c) g)))" (is "pg_links info ?h")
proof -
  have pipe: "pipe_reads (pipe_at ?h q) = pipe_reads (pipe_at g q)" "padding_of info (pipe_at ?h q) = padding_of info (pipe_at g q)"
    "pipe_writes (pipe_at ?h q) = (if q = p then {c} else pipe_writes (pipe_at g q))" for q
    using assms(2) by (auto simp: at_pipe_def at_buffer_def replace_output_buffer_def pipe_reads_def pipe_writes_def
        padding_of_def empty_padding_def)
  have buffer: "pgb_output_pipes (buffer_at ?h d) = pgb_output_pipes (buffer_at g d)"
    "pgb_input_pipe (buffer_at ?h d) = (if d = c then Some p else if d = b then None else pgb_input_pipe (buffer_at g d))" for d
    by (simp_all add: at_pipe_def at_buffer_def)
  have p: "pipe_writes (pipe_at g p) = {b}" using assms(2) by (simp add: pipe_writes_def)
  have "d \<in> (if q = p then {c} else pipe_writes (pipe_at g q))"
    if "(if d = c then Some p else if d = b then None else pgb_input_pipe (buffer_at g d)) = Some q" for d q
  proof (cases "d = c \<or> d = b")
    case False
    then have "d \<in> pipe_writes (pipe_at g q)" using that assms(1) by (simp add: pg_links_def)
    then show ?thesis using p False by auto
  qed (use that in \<open>auto split: if_splits\<close>)
  then show ?thesis using assms(1,3,4) unfolding pg_links_def pipe buffer at_nexts by auto
qed

lemma handle_e2e_pipe_cases:
  fixes p g
  defines "b \<equiv> hd (hd (pgp_output_buffers (pipe_at g p)))"
  shows "handle_e2e_pipe junk p g = g \<or> (\<exists>c u. pgp_output_buffers (pipe_at g p) = [[b]]
    \<and> make_buffer ((copy_PGBuffer junk (buffer_at g b))\<lparr>pgb_id := pgb_id (buffer_at g b) + 1\<rparr>) g = (c, u)
    \<and> (b \<noteq> c \<longrightarrow> handle_e2e_pipe junk p g = add_buffer c (at_buffer c (pgb_input_pipe_update (\<lambda>_. Some p))
         (at_buffer b (pgb_input_pipe_update (\<lambda>_. None)) (at_pipe p (replace_output_buffer b c) u)))))"
proof (cases "\<exists>d. pgp_output_buffers (pipe_at g p) = [[d]] \<and> is_end_to_end_queue (buffer_at g d)")
  case True
  then have b: "pgp_output_buffers (pipe_at g p) = [[b]]" "is_end_to_end_queue (buffer_at g b)" by (auto simp: b_def)
  then show ?thesis
    by (simp add: handle_e2e_pipe_def make_buffer_def Let_def at_buffer_def at_pipe_def add_buffer_def copy_PGBuffer_def
        fun_upd_twist)
qed (auto simp: handle_e2e_pipe_def split: list.splits)

lemma e2e_pipe_ok:
  assumes "pg_ok info g" and "p < next_pipe g"
  shows "pg_ok info (handle_e2e_pipe junk p g) \<and> next_pipe (handle_e2e_pipe junk p g) = next_pipe g"
proof -
  let ?b = "hd (hd (pgp_output_buffers (pipe_at g p)))"
  consider "handle_e2e_pipe junk p g = g"
    | c u where "pgp_output_buffers (pipe_at g p) = [[?b]]"
      "make_buffer ((copy_PGBuffer junk (buffer_at g ?b))\<lparr>pgb_id := pgb_id (buffer_at g ?b) + 1\<rparr>) g = (c, u)"
      "?b \<noteq> c \<longrightarrow> handle_e2e_pipe junk p g = add_buffer c (at_buffer c (pgb_input_pipe_update (\<lambda>_. Some p))
         (at_buffer ?b (pgb_input_pipe_update (\<lambda>_. None)) (at_pipe p (replace_output_buffer ?b c) u)))"
    using handle_e2e_pipe_cases [of junk p g] by blast
  then show ?thesis
  proof cases
    case 2
    have links: "pg_links info g" "\<forall>q \<in> set (pg_pipes g). q < next_pipe g" using assms(1) by (simp_all add: pg_ok_def)
    have "pipe_writes (pipe_at g p) = {?b}" by (subst pipe_writes_def, subst 2(1)) simp
    then have "?b < next_buffer g" using links(1) unfolding pg_links_def by blast
    moreover note u = make_buffer_links [OF links(1) _ _ 2(2)]
    have u: "pg_links info u" "c = next_buffer g" "next_buffer u = Suc (next_buffer g)" "next_pipe u = next_pipe g"
      "pg_pipes u = pg_pipes g" "pipe_at u = pipe_at g"
      using u by (simp_all add: copy_PGBuffer_def)
    ultimately have h: "handle_e2e_pipe junk p g = add_buffer c (at_buffer c (pgb_input_pipe_update (\<lambda>_. Some p))
         (at_buffer ?b (pgb_input_pipe_update (\<lambda>_. None)) (at_pipe p (replace_output_buffer ?b c) u)))" (is "_ = add_buffer c ?v")
      using 2(3) by simp
    have "pg_links info ?v" by (rule pg_links_divert) (use u 2(1) assms(2) in simp_all)
    then have "pg_ok info ?v" using u links(2) by (simp add: pg_ok_def)
    then have "pg_ok info (add_buffer c ?v)"
      by (rule pg_ok_frame [OF same_links_owned(1), rotated]) (simp add: add_buffer_def)
    then show ?thesis unfolding h using u by (simp add: add_buffer_def)
  qed (use assms in simp)
qed

lemma e2e_queues_ok:
  assumes "pg_ok info g"
  shows "pg_ok info (handle_e2e_queues junk g)"
proof -
  have "pg_ok info (fold (handle_e2e_pipe junk) ps u) \<and> next_pipe (fold (handle_e2e_pipe junk) ps u) = next_pipe u"
    if "pg_ok info u" "\<forall>p \<in> set ps. p < next_pipe u" for ps u
    using that by (induction ps arbitrary: u) (simp_all add: e2e_pipe_ok)
  moreover have "\<forall>p \<in> set (pg_pipes g). p < next_pipe g" using assms by (simp add: pg_ok_def)
  ultimately show ?thesis using assms by (simp add: handle_e2e_queues_def)
qed

section \<open>The loops over the ids end\<close>

lemma find_pipe_connections_returns:
  assumes "consumer_repeat (pipe_at g p) > 0"
  shows "\<exists>r. find_pipe_connections info p g = Some r \<and> (\<forall>h. r = Inr h \<longrightarrow> same_repeats g h)"
proof -
  let ?n = "unat (consumer_repeat (pipe_at g p))"
  have n: "?n > 0" using assms by (simp add: unat_gt_0)
  obtain r1 where r1: "fold_sum (connect_pipe_with_input_buffer info p) (input_buffers_ids (pipe_at g p)) g = r1" by simp
  have 1: "same_repeats g g1" if "r1 = Inr g1" for g1
    by (rule fold_sum_invariant [where P = "same_repeats g", OF _ _ r1 [unfolded that]])
      (auto dest: connect_input_repeats intro: same_repeats_trans)
  show ?thesis
  proof (cases r1)
    case (Inr g1)
    let ?padding = "output_padding_buffers_ids (pipe_at g p)" and ?outs = "output_buffers_ids (pipe_at g p)"
    let ?connect = "\<lambda>k. fold_sum (connect_pipe_with_output_buffer info p k) (?outs ! k)"
    obtain r2 where r2: "stride_loop (connect_padding_at info p ?padding) ?n (length ?padding) 0 g1 = Some r2"
      using stride_loop_returns [OF n, of "connect_padding_at info p ?padding" "length ?padding" 0 g1] by auto
    have 2: "same_repeats g g2" if "r2 = Inr g2" for g2
      by (rule stride_loop_keeps [where P = "same_repeats g", OF r2 [unfolded that] 1 [OF Inr]])
        (auto dest: connect_padding_repeats intro: same_repeats_trans)
    show ?thesis
    proof (cases r2)
      case (Inr g2)
      obtain r3 where r3: "stride_loop ?connect ?n (length ?outs) 0 g2 = Some r3"
        using stride_loop_returns [OF n, of ?connect "length ?outs" 0 g2] by auto
      have step: "same_repeats s t" if "?connect k s = Inr t" for k s t
        by (rule fold_sum_invariant [where P = "same_repeats s", OF _ _ that])
          (auto dest: connect_output_repeats intro: same_repeats_trans)
      have "same_repeats g h" if "r3 = Inr h" for h
        by (rule stride_loop_keeps [where P = "same_repeats g", OF r3 [unfolded that] 2 [OF Inr]])
          (auto dest: step intro: same_repeats_trans)
      then show ?thesis using r1 r2 r3 Inr \<open>r1 = Inr g1\<close> by (simp add: find_pipe_connections_def Let_def)
    qed (use r1 r2 \<open>r1 = Inr g1\<close> in \<open>simp add: find_pipe_connections_def Let_def\<close>)
  qed (use r1 in \<open>simp add: find_pipe_connections_def Let_def\<close>)
qed

lemma find_connections_returns:
  assumes "\<forall>p \<in> set ps. consumer_repeat (pipe_at g p) > 0"
  shows "\<exists>r. find_connections_of info ps g = Some r"
  using assms
proof (induction ps arbitrary: g)
  case (Cons p ps)
  then obtain r where r: "find_pipe_connections info p g = Some r" "\<forall>h. r = Inr h \<longrightarrow> same_repeats g h"
    using find_pipe_connections_returns [of g p info] by auto
  then show ?case using Cons by (cases r) (auto simp: same_repeats_def)
qed simp

lemma connected_pipe_graph_returns:
  assumes "\<forall>p \<in> set (pg_pipes g). consumer_repeat (pipe_at g p) > 0"
  shows "\<exists>r. connected_pipe_graph g = Some r"
proof (cases "bind_sum (create_pipe_inputs_for_scatter_buffers g empty_pipe_graph_info) (populate_buffers_map g)")
  case (Inr info)
  obtain r where "find_connections_of info (pg_pipes g) g = Some r" using find_connections_returns [OF assms] by blast
  then show ?thesis
    by (cases r) (simp_all add: connected_pipe_graph_def Inr find_pipe_graph_nodes_connections_def)
qed (simp add: connected_pipe_graph_def)

section \<open>The properties\<close>

definition unconnected :: "pipe_graph \<Rightarrow> bool" where
  "unconnected g \<longleftrightarrow>
     (\<forall>b. pgb_output_pipes (buffer_at g b) = [] \<and> pgb_input_pipe (buffer_at g b) = None)
     \<and> (\<forall>p. pipe_reads (pipe_at g p) = {} \<and> pipe_writes (pipe_at g p) = {} \<and> output_padding_inputs (pipe_at g p) = [])
     \<and> (\<forall>b \<in> set (pg_buffers g). b < next_buffer g) \<and> (\<forall>p \<in> set (pg_pipes g). p < next_pipe g)
     \<and> distinct (pg_pipes g)"

lemma connected_pipe_graph_ok:
  assumes "unconnected g" and "connected_pipe_graph g = Some (Inr (info, h))"
  shows "pg_ok info h"
proof -
  have buffers: "bind_sum (create_pipe_inputs_for_scatter_buffers g empty_pipe_graph_info) (populate_buffers_map g) = Inr info"
    and pipes: "find_connections_of info (pg_pipes g) g = Some (Inr h)"
    using assms(2) by (auto simp: connected_pipe_graph_def rbind_Inr_iff find_pipe_graph_nodes_connections_def)
  have "info_ok info (next_buffer g)" by (rule buffers_map_ok [OF buffers]) (use assms(1) in \<open>simp add: unconnected_def\<close>)
  then have start: "pg_links info g" "distinct (pg_pipes g)"
    "\<forall>p \<in> set (pg_pipes g). p < next_pipe g \<and> output_padding_inputs (pipe_at g p) = []"
    using assms(1) by (simp_all add: pg_links_def unconnected_def)
  then show ?thesis using connecting_pipes [OF pipes start] start(3) by (simp add: pg_ok_def connecting_def)
qed

text \<open>Two buffers with a pipe between them, and a buffer that has no pipe.\<close>

definition small_parsed_graph :: pipe_graph where
  "small_parsed_graph =
     \<lparr>pg_buffers = [0, 1, 2], pg_pipes = [0],
      buffer_at = (\<lambda>b. new_PGBuffer\<lparr>pgb_id := if b = 0 then 100 else if b = 1 then 300 else 500\<rparr>),
      pipe_at = (\<lambda>p. if p = 0 then (new_PGPipe 200)\<lparr>input_buffers_ids := [100], output_buffers_ids := [[300]]\<rparr> else new_PGPipe 0),
      next_buffer = 3, next_pipe = 1\<rparr>"

definition small_info :: pipe_graph_info where
  "small_info = \<lparr>scatter_buffer_pipe_inputs = Map.empty, buffers_per_id = [100 \<mapsto> 0, 300 \<mapsto> 1, 500 \<mapsto> 2]\<rparr>"

lemma small_unconnected: "unconnected small_parsed_graph"
  by (auto simp: unconnected_def small_parsed_graph_def new_PGBuffer_def new_PGPipe_def pipe_reads_def pipe_writes_def)

lemma small_buffers:
  "bind_sum (create_pipe_inputs_for_scatter_buffers small_parsed_graph empty_pipe_graph_info)
     (populate_buffers_map small_parsed_graph) = Inr small_info"
  by (simp add: create_pipe_inputs_for_scatter_buffers_def populate_buffers_map_def small_parsed_graph_def
      add_scatter_buffer_def new_PGBuffer_def add_buffer_with_id_def empty_pipe_graph_info_def small_info_def)

definition small_connected :: pipe_graph where
  "small_connected =
     at_pipe 0 (add_output_buffer 1 0) (at_buffer 1 (pgb_input_pipe_update (\<lambda>_. Some 0))
       (at_pipe 0 (add_pipe_input \<lparr>input_buffer = 0, input_offset = 0\<rparr>)
         (at_buffer 0 (add_output_pipe_to_buffer 0) small_parsed_graph)))"

lemma small_pipes: "connected_pipe_graph small_parsed_graph = Some (Inr (small_info, small_connected))"
proof -
  have pipe: "pg_pipes small_parsed_graph = [0]" "pipe_at small_parsed_graph 0 =
      (new_PGPipe 200)\<lparr>input_buffers_ids := [100], output_buffers_ids := [[300]]\<rparr>"
    by (simp_all add: small_parsed_graph_def)
  have "find_pipe_connections small_info 0 small_parsed_graph = Some (Inr small_connected)"
    unfolding find_pipe_connections_def Let_def pipe
    by (simp add: new_PGPipe_def stride_loop.simps connect_pipe_with_input_buffer_def connect_pipe_with_output_buffer_def
        small_info_def small_connected_def at_pipe_def at_buffer_def add_pipe_input_def pipe)
  then show ?thesis
    by (simp add: connected_pipe_graph_def small_buffers find_pipe_graph_nodes_connections_def pipe)
qed

lemma small_patched:
  "\<exists>h. patch_indices_intermediates_queues junk small_info small_connected = Inr h
     \<and> 0 \<in> pipe_reads (pipe_at h 0) \<and> pgb_input_pipe (buffer_at h 2) = Some 1"
  by (simp add: handle_e2e_queues_def handle_e2e_pipe_def is_end_to_end_queue_def is_dram_def pipe_reads_def add_buffer_def patch_indices_intermediates_queues_def handle_embedding_indices_def handle_embedding_pipe_def
      handle_intermediate_buffers_def handle_intermediate_buffer_def small_connected_def small_parsed_graph_def small_info_def
      at_pipe_def at_buffer_def add_output_buffer_def add_pipe_input_def add_output_pipe_to_buffer_def add_to_set_def
      get_pipe_inputs_def new_PGPipe_def new_PGBuffer_def Let_def has_no_input_def has_no_outputs_def make_buffer_def
      make_pipe_def copy_PGBuffer_def add_buffer_with_id_def connect_pipe_with_input_buffer_def
      connect_pipe_with_output_buffer_def intermediate_pipe_def connect_shared_buffer_def get_shared_output_buffer_def add_pipe_def)

text \<open>C15 Once pipes and buffers are connected and the handlers of embedding indices, intermediate buffers and
  end to end queues have run, the links agree in both directions: whatever a pipe reads, padded indices
  included, lists that pipe among its output pipes, a pipe a buffer lists exists and reads it (only a pipe with a
  padded index that has no inputs, as when it moves no messages per index, can be listed without reading), and the
  input pipe of a buffer writes it. What was parsed is not connected yet and owns each of its pipes once.\<close>

theorem pipe_graph_links:
  assumes "unconnected parsed" and "connected_pipe_graph parsed = Some (Inr (info, g))"
    and "patch_indices_intermediates_queues junk info g = Inr h"
  shows "(\<forall>b p. b \<in> pipe_reads (pipe_at h p) \<longrightarrow> p \<in> set (pgb_output_pipes (buffer_at h b)))
    \<and> (\<forall>b p. p \<in> set (pgb_output_pipes (buffer_at h b)) \<longrightarrow>
         p < next_pipe h \<and> (b \<in> pipe_reads (pipe_at h p) \<or> (\<exists>k. (k, []) \<in> set (output_padding_inputs (pipe_at h p)))))
    \<and> (\<forall>b p. pgb_input_pipe (buffer_at h b) = Some p \<longrightarrow> b \<in> pipe_writes (pipe_at h p))
    \<and> (\<forall>p \<in> set (pg_pipes h). p < next_pipe h)"
proof -
  obtain g1 info2 g2 where g1: "handle_embedding_indices info g = Inr g1"
    and g2: "handle_intermediate_buffers junk info g1 = Inr (info2, g2)" and h: "h = handle_e2e_queues junk g2"
    using assms(3) by (auto simp: patch_indices_intermediates_queues_def bind_sum_Inr_iff)
  have "pg_ok info g" by (rule connected_pipe_graph_ok [OF assms(1,2)])
  then have "pg_ok info g1" by (rule embedding_indices_ok [OF g1])
  then have "pg_ok info2 h" unfolding h by (intro e2e_queues_ok intermediate_buffers_ok [OF g2])
  then have links: "pg_links info2 h" and pipes: "\<forall>p \<in> set (pg_pipes h). p < next_pipe h" by (simp_all add: pg_ok_def)
  then have "p < next_pipe h \<and> (b \<in> pipe_reads (pipe_at h p) \<or> (\<exists>k. (k, []) \<in> set (output_padding_inputs (pipe_at h p))))"
    if "p \<in> set (pgb_output_pipes (buffer_at h b))" for b p
    using that unfolding pg_links_def padding_of_def empty_padding_def by blast
  then show ?thesis using links pipes unfolding pg_links_def by blast
qed

theorem pipe_graph_links_witness:
  "\<exists>h. patch_indices_intermediates_queues True small_info small_connected = Inr h
     \<and> 0 \<in> set (pgb_output_pipes (buffer_at h 0)) \<and> 2 \<in> pipe_writes (pipe_at h 1)"
proof -
  obtain h where h: "patch_indices_intermediates_queues True small_info small_connected = Inr h"
    "0 \<in> pipe_reads (pipe_at h 0)" "pgb_input_pipe (buffer_at h 2) = Some 1"
    using small_patched by blast
  from pipe_graph_links [OF small_unconnected small_pipes h(1)] h show ?thesis by blast
qed

lemma stride_loop_stuck:
  assumes "stride_loop body step n k s = Some r"
  shows "\<not> (k < n \<and> step = 0 \<and> body k s = Inr s)"
proof (rule stride_loop.raw_induct [OF _ assms])
  fix rec and body :: "nat \<Rightarrow> 'b \<Rightarrow> 'a + 'b" and step n k s r
  assume "\<And>body step n k s r. rec body step n k s = Some r \<Longrightarrow> \<not> (k < n \<and> step = 0 \<and> body k s = Inr s)"
    and "(if \<not> k < n then Some (Inr s) else rbind (Some (body k s)) (rec body step n (k + step))) = Some r"
  then show "\<not> (k < n \<and> step = 0 \<and> body k s = Inr s)" by auto blast
qed

text \<open>C35 The creation of a pipe graph comes to an end, with a graph or an error, when no pipe has a repeat
  count of zero: the loops over the ids of a pipe advance by that count. A pipe without inputs whose count is
  zero and whose first list of output ids is empty is never finished.\<close>

theorem pipe_graph_creation_ends:
  "((\<forall>p \<in> set (pg_pipes parsed). consumer_repeat (pipe_at parsed p) > 0) \<longrightarrow> (\<exists>r. create_pipe_graph junk parsed = Some r))
   \<and> (consumer_repeat (pipe_at g p) = 0 \<and> input_buffers_ids (pipe_at g p) = []
       \<and> output_padding_buffers_ids (pipe_at g p) = [] \<and> (\<exists>idss. output_buffers_ids (pipe_at g p) = [] # idss)
       \<longrightarrow> find_pipe_connections info p g = None)"
proof (intro conjI impI)
  assume "\<forall>p \<in> set (pg_pipes parsed). consumer_repeat (pipe_at parsed p) > 0"
  from connected_pipe_graph_returns [OF this] obtain r where r: "connected_pipe_graph parsed = Some r" by blast
  then show "\<exists>r. create_pipe_graph junk parsed = Some r"
    by (cases r) (auto simp: create_pipe_graph_def split: prod.splits)
next
  let ?outs = "output_buffers_ids (pipe_at g p)"
  let ?body = "\<lambda>k. fold_sum (connect_pipe_with_output_buffer info p k) (?outs ! k)"
  assume p: "consumer_repeat (pipe_at g p) = 0 \<and> input_buffers_ids (pipe_at g p) = []
    \<and> output_padding_buffers_ids (pipe_at g p) = [] \<and> (\<exists>idss. ?outs = [] # idss)"
  then have "find_pipe_connections info p g = stride_loop ?body 0 (length ?outs) 0 g"
    by (simp add: find_pipe_connections_def Let_def stride_loop.simps [where n = 0])
  moreover have "stride_loop ?body 0 (length ?outs) 0 g = None"
    using stride_loop_stuck [of ?body 0 "length ?outs" 0 g] p by (cases "stride_loop ?body 0 (length ?outs) 0 g") auto
  ultimately show "find_pipe_connections info p g = None" by simp
qed

theorem pipe_graph_creation_ends_witness: "\<exists>r. create_pipe_graph True small_parsed_graph = Some r"
proof -
  have "\<forall>p \<in> set (pg_pipes small_parsed_graph). consumer_repeat (pipe_at small_parsed_graph p) > 0"
    by (simp add: small_parsed_graph_def new_PGPipe_def)
  then show ?thesis using pipe_graph_creation_ends by blast
qed

end
