(* ===== verification/PostTmPipes.thy ===== *)
theory PostTmPipes
  imports PipeGraphLinks
begin

text \<open>
  What the handler of post TM prefetch pipes (\<open>post_tm_pipe_handler.cpp\<close>) does to the links. A multicast
  relay pipe becomes one pipe per destination; each of them reads the inputs of the relay pipe, which know
  only the first of them.
\<close>

section \<open>Detaching the inputs\<close>

lemma replace_reader_Inr:
  assumes "replace_reader orig new b g = Inr h"
  shows "\<exists>f. h = at_buffer b f g \<and> orig \<notin> set (pgb_output_pipes (f (buffer_at g b))) - {new}
    \<and> set (pgb_output_pipes (f (buffer_at g b))) \<subseteq> insert new (set (pgb_output_pipes (buffer_at g b)))
    \<and> (orig \<notin> set (pgb_output_pipes (buffer_at g b)) \<longrightarrow> f (buffer_at g b) = buffer_at g b)
    \<and> (orig \<in> set (pgb_output_pipes (buffer_at g b))
         \<longrightarrow> set (pgb_output_pipes (f (buffer_at g b))) = insert new (set (pgb_output_pipes (buffer_at g b)) - {orig}))
    \<and> pgb_input_pipe (f (buffer_at g b)) = pgb_input_pipe (buffer_at g b)"
proof (cases "has_output_pipe_id g (buffer_at g b) (pgp_id (pipe_at g orig))")
  case True
  then obtain buf where "replace_output_pipe_of_buffer orig new (buffer_at g b) = Inr buf" "h = at_buffer b (\<lambda>_. buf) g"
    using assms by (auto simp: replace_reader_def bind_sum_Inr_iff)
  then show ?thesis
    by (intro exI [of _ "\<lambda>_. buf"]) (auto simp: replace_output_pipe_of_buffer_def split: if_splits)
next
  case False
  then have "h = at_buffer b (\<lambda>x. x) g" "orig \<notin> set (pgb_output_pipes (buffer_at g b))"
    using assms by (auto simp: replace_reader_def at_buffer_def has_output_pipe_id_def)
  then show ?thesis by blast
qed

definition detached :: "nat \<Rightarrow> nat \<Rightarrow> nat set \<Rightarrow> pg_input list \<Rightarrow> pipe_graph \<Rightarrow> pipe_graph \<Rightarrow> bool" where
  "detached orig new bs is g h \<longleftrightarrow>
     pgp_inputs (pipe_at h new) = pgp_inputs (pipe_at g new) @ is
     \<and> pgp_output_buffers (pipe_at h new) = pgp_output_buffers (pipe_at g new)
     \<and> (\<forall>q. q \<noteq> new \<longrightarrow> pipe_at h q = pipe_at g q)
     \<and> next_pipe h = next_pipe g \<and> pg_pipes h = pg_pipes g
     \<and> (\<forall>b \<in> bs. orig \<notin> set (pgb_output_pipes (buffer_at h b)))
     \<and> (\<forall>b. pgb_input_pipe (buffer_at h b) = pgb_input_pipe (buffer_at g b)
          \<and> set (pgb_output_pipes (buffer_at h b)) \<subseteq> insert new (set (pgb_output_pipes (buffer_at g b)))
          \<and> (orig \<notin> set (pgb_output_pipes (buffer_at g b)) \<or> b \<notin> bs \<longrightarrow> buffer_at h b = buffer_at g b)
          \<and> (orig \<in> set (pgb_output_pipes (buffer_at g b)) \<and> b \<in> bs
               \<longrightarrow> set (pgb_output_pipes (buffer_at h b)) = insert new (set (pgb_output_pipes (buffer_at g b)) - {orig})))"

lemma detached_append:
  assumes 1: "detached orig new A is g u" and 2: "detached orig new B js u h" and "orig \<noteq> new"
  shows "detached orig new (A \<union> B) (is @ js) g h"
proof -
  note 1 = 1 [unfolded detached_def] and 2 = 2 [unfolded detached_def]
  have "orig \<notin> set (pgb_output_pipes (buffer_at h b))" if "b \<in> A \<union> B" for b
  proof (cases "b \<in> A")
    case True
    then have "orig \<notin> set (pgb_output_pipes (buffer_at u b))" using 1 by blast
    moreover from this have "buffer_at h b = buffer_at u b" using 2 by blast
    ultimately show ?thesis by simp
  qed (use 2 that in blast)
  moreover have "buffer_at h b = buffer_at g b" if "orig \<notin> set (pgb_output_pipes (buffer_at g b)) \<or> b \<notin> A \<union> B" for b
  proof -
    have "buffer_at u b = buffer_at g b" using 1 that by blast
    moreover from this have "buffer_at h b = buffer_at u b" using 2 that by auto
    ultimately show ?thesis by simp
  qed
  moreover have "set (pgb_output_pipes (buffer_at h b)) = insert new (set (pgb_output_pipes (buffer_at g b)) - {orig})"
    if "orig \<in> set (pgb_output_pipes (buffer_at g b))" "b \<in> A \<union> B" for b
  proof (cases "b \<in> A")
    case True
    then have u: "set (pgb_output_pipes (buffer_at u b)) = insert new (set (pgb_output_pipes (buffer_at g b)) - {orig})"
      using 1 that by blast
    then have "orig \<notin> set (pgb_output_pipes (buffer_at u b))" using assms(3) by blast
    then have "buffer_at h b = buffer_at u b" using 2 by blast
    with u show ?thesis by simp
  next
    case False
    then have "buffer_at u b = buffer_at g b" using 1 by blast
    then show ?thesis using 2 that False by auto
  qed
  moreover have "set (pgb_output_pipes (buffer_at h b)) \<subseteq> insert new (set (pgb_output_pipes (buffer_at g b)))" for b
    using 1 2 by blast
  moreover have "pgb_input_pipe (buffer_at h b) = pgb_input_pipe (buffer_at g b)" for b using 1 2 by simp
  moreover have "pipe_at h q = pipe_at g q" if "q \<noteq> new" for q using 1 2 that by simp
  moreover have "pgp_inputs (pipe_at h new) = pgp_inputs (pipe_at g new) @ is @ js"
    "pgp_output_buffers (pipe_at h new) = pgp_output_buffers (pipe_at g new)" "next_pipe h = next_pipe g" "pg_pipes h = pg_pipes g"
    using 1 2 by simp_all
  ultimately show ?thesis unfolding detached_def by blast
qed

lemma detach_each_detached:
  assumes "detach_each orig new R is g = Inr h" and "orig \<noteq> new"
  shows "detached orig new (input_buffer ` set is - R) is g h"
  using assms(1)
proof (induction "is" arbitrary: R g)
  case Nil
  then show ?case by (auto simp: detached_def)
next
  case (Cons i "is")
  let ?b = "input_buffer i"
  let ?ids = "\<lambda>g1 p. p\<lparr>input_buffers_ids := input_buffers_ids p @ [pgb_id (buffer_at g1 ?b)]\<rparr>"
  obtain u where u: "detach_each orig new (insert ?b R) is u = Inr h"
    and first: "detached orig new ({?b} - R) [i] g u"
  proof (cases "?b \<in> R")
    case True
    then have "detach_each orig new (insert ?b R) is (at_pipe new (add_pipe_input i) g) = Inr h"
      using Cons.prems by simp
    moreover have "detached orig new ({?b} - R) [i] g (at_pipe new (add_pipe_input i) g)"
      using True by (auto simp: detached_def at_pipe_def add_pipe_input_def)
    ultimately show ?thesis using that by blast
  next
    case False
    then obtain g1 where g1: "replace_reader orig new ?b g = Inr g1"
      and rest: "detach_each orig new (insert ?b R) is (at_pipe new (add_pipe_input i) (at_pipe new (?ids g1) g1)) = Inr h"
      using Cons.prems False by (auto simp: bind_sum_Inr_iff Let_def)
    obtain f where g1': "g1 = at_buffer ?b f g" and f: "orig \<notin> set (pgb_output_pipes (f (buffer_at g ?b)))"
      "set (pgb_output_pipes (f (buffer_at g ?b))) \<subseteq> insert new (set (pgb_output_pipes (buffer_at g ?b)))"
      "orig \<notin> set (pgb_output_pipes (buffer_at g ?b)) \<longrightarrow> f (buffer_at g ?b) = buffer_at g ?b"
      "orig \<in> set (pgb_output_pipes (buffer_at g ?b))
         \<longrightarrow> set (pgb_output_pipes (f (buffer_at g ?b))) = insert new (set (pgb_output_pipes (buffer_at g ?b)) - {orig})"
      "pgb_input_pipe (f (buffer_at g ?b)) = pgb_input_pipe (buffer_at g ?b)"
      using replace_reader_Inr [OF g1] assms(2) by auto
    let ?h = "at_pipe new (add_pipe_input i) (at_pipe new (?ids g1) g1)"
    have h: "buffer_at ?h b = (if b = ?b then f (buffer_at g ?b) else buffer_at g b)"
      "pipe_at ?h q = (if q = new then add_pipe_input i (?ids g1 (pipe_at g new)) else pipe_at g q)"
      "next_pipe ?h = next_pipe g" "pg_pipes ?h = pg_pipes g" for b q
      by (simp_all add: g1' at_pipe_def at_buffer_def)
    have "detached orig new ({?b} - R) [i] g ?h"
      unfolding detached_def h using f False by (simp add: add_pipe_input_def subset_insertI)
    then show ?thesis using rest that by blast
  qed
  have rest: "detached orig new (input_buffer ` set is - insert ?b R) is u h" by (rule Cons.IH [OF u])
  have "({?b} - R) \<union> (input_buffer ` set is - insert ?b R) = input_buffer ` set (i # is) - R" by auto
  then show ?case using detached_append [OF first rest assms(2)] by simp
qed

lemma upt_head: "[n..<n + length (x # xs)] = n # [Suc n..<Suc n + length xs]"
  by (subst upt_conv_Cons) simp_all

section \<open>One pipe for every destination\<close>

text \<open>What the pipe that is decomposed reads.\<close>

definition relay_inputs :: "pipe_graph \<Rightarrow> nat \<Rightarrow> pg_input list" where
  "relay_inputs g orig = get_pipe_inputs (pipe_at g orig) 0"

definition relay_buffers :: "pipe_graph \<Rightarrow> nat \<Rightarrow> nat set" where
  "relay_buffers g orig = input_buffer ` set (relay_inputs g orig)"

lemma decompose_output_step:
  assumes "decompose_output orig (k, c) (g, added) = Inr (h, added')" and "orig < next_pipe g"
  defines "p \<equiv> next_pipe g"
  shows "added' = added @ [p]" and "next_pipe h = Suc p" and "\<And>q. q \<noteq> p \<Longrightarrow> pipe_at h q = pipe_at g q"
    and "pgp_inputs (pipe_at h p) = relay_inputs g orig" and "pipe_writes (pipe_at h p) = {c}"
    and "\<And>b. pgb_input_pipe (buffer_at h b) = pgb_input_pipe (buffer_at g b)"
    and "\<And>b. b \<in> relay_buffers g orig \<Longrightarrow> orig \<notin> set (pgb_output_pipes (buffer_at h b))"
    and "\<And>b. set (pgb_output_pipes (buffer_at h b)) \<subseteq> insert p (set (pgb_output_pipes (buffer_at g b)))"
    and "\<And>b. orig \<notin> set (pgb_output_pipes (buffer_at g b)) \<or> b \<notin> relay_buffers g orig \<Longrightarrow> buffer_at h b = buffer_at g b"
    and "\<And>b. orig \<in> set (pgb_output_pipes (buffer_at g b)) \<Longrightarrow> b \<in> relay_buffers g orig
      \<Longrightarrow> set (pgb_output_pipes (buffer_at h b)) = insert p (set (pgb_output_pipes (buffer_at g b)) - {orig})"
proof -
  let ?q = "decomposed_pipe (pipe_at g orig) k g c"
  let ?g1 = "g\<lparr>pipe_at := (pipe_at g)(p := ?q), next_pipe := Suc p\<rparr>"
  let ?g2 = "at_pipe p remove_all_inputs ?g1"
  have p: "orig \<noteq> p" using assms(2) by (simp add: p_def)
  obtain u where u: "detach_inputs orig p ?g1 = Inr u" and added': "added' = added @ [p]"
    and h: "\<exists>f. h = at_pipe p f u \<and> (\<forall>x. pgp_inputs (f x) = pgp_inputs x \<and> pgp_output_buffers (f x) = pgp_output_buffers x)"
  proof -
    obtain u where "detach_inputs orig p ?g1 = Inr u" "added' = added @ [p]"
      "h = at_pipe p (\<lambda>pipe. pipe\<lparr>mcast_core_logical_locations := mcast_core_logical_locations pipe
            @ [pgb_logical_location (buffer_at (at_pipe p (copy_original_post_tm_pipe_attributes (pipe_at u orig)) u) c)]\<rparr>)
          (at_pipe p (copy_original_post_tm_pipe_attributes (pipe_at u orig)) u)"
      using assms(1) by (auto simp: decompose_output_def make_pipe_def bind_sum_Inr_iff Let_def p_def)
    then show ?thesis
      by (intro that [of u])
        (auto intro!: exI [of _ "\<lambda>pipe. (copy_original_post_tm_pipe_attributes (pipe_at u orig) pipe)
            \<lparr>mcast_core_logical_locations := mcast_core_logical_locations (copy_original_post_tm_pipe_attributes (pipe_at u orig) pipe)
              @ [pgb_logical_location (buffer_at u c)]\<rparr>"]
          simp: at_pipe_def copy_original_post_tm_pipe_attributes_def)
  qed
  have inputs: "get_pipe_inputs (pipe_at ?g2 orig) 0 = relay_inputs g orig"
    using p by (simp add: at_pipe_def relay_inputs_def)
  have "detach_each orig p {} (relay_inputs g orig) ?g2 = Inr u"
    using u inputs by (simp add: detach_inputs_def Let_def)
  from detach_each_detached [OF this p] have d: "detached orig p (relay_buffers g orig) (relay_inputs g orig) ?g2 u"
    by (simp add: relay_buffers_def)
  have q: "pgp_output_buffers ?q = [[c]]" by (simp add: decomposed_pipe_def add_output_buffer_def new_PGPipe_def)
  have g2: "pgp_inputs (pipe_at ?g2 p) = []" "pgp_output_buffers (pipe_at ?g2 p) = [[c]]" "buffer_at ?g2 = buffer_at g"
    "next_pipe ?g2 = Suc p" "\<And>r. r \<noteq> p \<Longrightarrow> pipe_at ?g2 r = pipe_at g r"
    using q by (simp_all add: at_pipe_def remove_all_inputs_def)
  note d = d [unfolded detached_def g2]
  obtain f where f: "h = at_pipe p f u" "\<forall>x. pgp_inputs (f x) = pgp_inputs x \<and> pgp_output_buffers (f x) = pgp_output_buffers x"
    using h by blast
  have h': "buffer_at h = buffer_at u" "next_pipe h = next_pipe u" "pgp_inputs (pipe_at h p) = pgp_inputs (pipe_at u p)"
    "pgp_output_buffers (pipe_at h p) = pgp_output_buffers (pipe_at u p)" "\<And>r. r \<noteq> p \<Longrightarrow> pipe_at h r = pipe_at u r"
    using f by (simp_all add: at_pipe_def)
  show "added' = added @ [p]" by (rule added')
  show "next_pipe h = Suc p" "pgp_inputs (pipe_at h p) = relay_inputs g orig" "pipe_writes (pipe_at h p) = {c}"
    using d by (simp_all add: h' pipe_writes_def)
  show "pipe_at h r = pipe_at g r" if "r \<noteq> p" for r using d that g2(5) by (simp add: h')
  fix b
  show "pgb_input_pipe (buffer_at h b) = pgb_input_pipe (buffer_at g b)"
    "set (pgb_output_pipes (buffer_at h b)) \<subseteq> insert p (set (pgb_output_pipes (buffer_at g b)))"
    using d by (simp_all add: h')
  show "orig \<notin> set (pgb_output_pipes (buffer_at h b))" if "b \<in> relay_buffers g orig" using d that by (simp add: h')
  show "buffer_at h b = buffer_at g b" if "orig \<notin> set (pgb_output_pipes (buffer_at g b)) \<or> b \<notin> relay_buffers g orig"
    using d that by (simp add: h')
  show "set (pgb_output_pipes (buffer_at h b)) = insert p (set (pgb_output_pipes (buffer_at g b)) - {orig})"
    if "orig \<in> set (pgb_output_pipes (buffer_at g b))" "b \<in> relay_buffers g orig"
    using d that by (simp add: h')
qed

text \<open>Once the inputs do not list the pipe any more, the next pipes leave the buffers as they are.\<close>

lemma decompose_outputs_rest:
  assumes "fold_sum (decompose_output orig) kcs (g, added) = Inr (h, added')" and "orig < next_pipe g"
    and "\<forall>b \<in> relay_buffers g orig. orig \<notin> set (pgb_output_pipes (buffer_at g b))"
  shows "added' = added @ [next_pipe g..<next_pipe g + length kcs] \<and> buffer_at h = buffer_at g
    \<and> (\<forall>q. q < next_pipe g \<longrightarrow> pipe_at h q = pipe_at g q)
    \<and> (\<forall>k < length kcs. pgp_inputs (pipe_at h (next_pipe g + k)) = relay_inputs g orig
         \<and> pipe_writes (pipe_at h (next_pipe g + k)) = {snd (kcs ! k)})"
  using assms
proof (induction kcs arbitrary: g added)
  case (Cons kc kcs)
  obtain k c where kc: "kc = (k, c)" by force
  obtain u added1 where u: "decompose_output orig (k, c) (g, added) = Inr (u, added1)"
    and rest: "fold_sum (decompose_output orig) kcs (u, added1) = Inr (h, added')"
    using Cons.prems(1) by (auto simp: bind_sum_Inr_iff kc)
  note s = decompose_output_step [OF u Cons.prems(2)]
  have "buffer_at u b = buffer_at g b" for b using s(9) [of b] Cons.prems(3) by blast
  then have buffers: "buffer_at u = buffer_at g" by (rule ext)
  have same: "relay_inputs u orig = relay_inputs g orig" "relay_buffers u orig = relay_buffers g orig" "buffer_at u = buffer_at g"
    using s(3) [of orig] buffers Cons.prems(2) by (auto simp: relay_inputs_def relay_buffers_def)
  have IH: "added' = added1 @ [next_pipe u..<next_pipe u + length kcs] \<and> buffer_at h = buffer_at u
    \<and> (\<forall>q. q < next_pipe u \<longrightarrow> pipe_at h q = pipe_at u q)
    \<and> (\<forall>k < length kcs. pgp_inputs (pipe_at h (next_pipe u + k)) = relay_inputs u orig
         \<and> pipe_writes (pipe_at h (next_pipe u + k)) = {snd (kcs ! k)})"
    by (rule Cons.IH [OF rest]) (use s(2) Cons.prems(2,3) same in auto)
  have "added' = added @ [next_pipe g..<next_pipe g + length (kc # kcs)]"
    unfolding upt_head using IH s(1,2) by (simp del: upt_Suc)
  moreover have "pgp_inputs (pipe_at h (next_pipe g + j)) = relay_inputs g orig
      \<and> pipe_writes (pipe_at h (next_pipe g + j)) = {snd ((kc # kcs) ! j)}" if "j < length (kc # kcs)" for j
  proof (cases j)
    case 0
    then show ?thesis using IH s(2,4,5) by (simp add: kc)
  next
    case (Suc i)
    then show ?thesis using IH s(2) that same by simp
  qed
  moreover have "pipe_at h q = pipe_at g q" if "q < next_pipe g" for q using IH s(2,3) that by simp
  moreover have "buffer_at h = buffer_at g" using IH same(3) by simp
  ultimately show ?case by blast
qed simp

section \<open>The property\<close>

text \<open>C34 Decomposing a multicast pipe makes one pipe for every buffer of its first output list. Each reads all
  inputs of the decomposed pipe and writes its own buffer. But only the first of them is put in the place of the
  decomposed pipe among the readers the input buffers know, and the output buffers keep the decomposed pipe, which
  is then removed from the graph, as their input pipe.\<close>

theorem decomposed_pipes_are_not_linked:
  assumes "decompose_post_tm_multicast_pipe orig (g, []) = Inr (h, added)" and "orig < next_pipe g"
    and "\<forall>b. \<forall>q \<in> set (pgb_output_pipes (buffer_at g b)). q < next_pipe g"
  shows "length added = length (hd (pgp_output_buffers (pipe_at g orig)))
    \<and> (\<forall>k < length added. pgp_inputs (pipe_at h (added ! k)) = get_pipe_inputs (pipe_at g orig) 0
         \<and> pipe_writes (pipe_at h (added ! k)) = {hd (pgp_output_buffers (pipe_at g orig)) ! k}
         \<and> (0 < k \<longrightarrow> (\<forall>b. added ! k \<notin> set (pgb_output_pipes (buffer_at h b)))))
    \<and> (added \<noteq> [] \<longrightarrow> (\<forall>b. set (pgb_output_pipes (buffer_at h b)) =
         (if b \<in> input_buffer ` set (get_pipe_inputs (pipe_at g orig) 0) \<and> orig \<in> set (pgb_output_pipes (buffer_at g b))
          then insert (added ! 0) (set (pgb_output_pipes (buffer_at g b)) - {orig})
          else set (pgb_output_pipes (buffer_at g b)))))
    \<and> (\<forall>b. pgb_input_pipe (buffer_at h b) = pgb_input_pipe (buffer_at g b))"
proof (cases "pgp_output_buffers (pipe_at g orig)")
  case Nil
  then show ?thesis using assms(1) by (simp add: decompose_post_tm_multicast_pipe_def)
next
  case (Cons cs css)
  let ?kcs = "enumerate 0 cs"
  have run: "fold_sum (decompose_output orig) ?kcs (g, []) = Inr (h, added)"
    using assms(1) Cons by (simp add: decompose_post_tm_multicast_pipe_def)
  show ?thesis
  proof (cases cs)
    case Nil
    then show ?thesis using run Cons by simp
  next
    case cs: (Cons c cs')
    obtain u added1 where u: "decompose_output orig (0, c) (g, []) = Inr (u, added1)"
      and rest: "fold_sum (decompose_output orig) (enumerate 1 cs') (u, added1) = Inr (h, added)"
      using run by (auto simp: bind_sum_Inr_iff cs)
    note s = decompose_output_step [OF u assms(2)]
    have relay: "relay_inputs u orig = relay_inputs g orig" "relay_buffers u orig = relay_buffers g orig"
      using s(3) [of orig] assms(2) by (auto simp: relay_inputs_def relay_buffers_def)
    have r: "added = added1 @ [next_pipe u..<next_pipe u + length cs'] \<and> buffer_at h = buffer_at u
      \<and> (\<forall>q. q < next_pipe u \<longrightarrow> pipe_at h q = pipe_at u q)
      \<and> (\<forall>k < length cs'. pgp_inputs (pipe_at h (next_pipe u + k)) = relay_inputs u orig
           \<and> pipe_writes (pipe_at h (next_pipe u + k)) = {cs' ! k})"
      using decompose_outputs_rest [OF rest] s(2,7) assms(2) relay by (simp add: nth_enumerate_eq)
    have added: "added = [next_pipe g..<next_pipe g + length cs]" unfolding cs upt_head using r s(1,2) by (simp del: upt_Suc)
    have len: "length added = length cs" by (simp add: added)
    have pipes: "pgp_inputs (pipe_at h (next_pipe g + k)) = relay_inputs g orig \<and> pipe_writes (pipe_at h (next_pipe g + k)) = {cs ! k}"
      if "k < length cs" for k
      using r s(2,4,5) that relay by (cases k) (simp_all add: cs)
    have unknown: "next_pipe g + k \<notin> set (pgb_output_pipes (buffer_at h b))" if "0 < k" for k b
    proof
      assume "next_pipe g + k \<in> set (pgb_output_pipes (buffer_at h b))"
      then have "next_pipe g + k \<in> set (pgb_output_pipes (buffer_at g b))" using r s(8) [of b] that by auto
      then show False using assms(3) by fastforce
    qed
    have "\<forall>k < length added. pgp_inputs (pipe_at h (added ! k)) = relay_inputs g orig
        \<and> pipe_writes (pipe_at h (added ! k)) = {cs ! k}
        \<and> (0 < k \<longrightarrow> (\<forall>b. added ! k \<notin> set (pgb_output_pipes (buffer_at h b))))"
      using pipes unknown unfolding len by (simp add: added)
    moreover have "\<forall>b. pgb_input_pipe (buffer_at h b) = pgb_input_pipe (buffer_at g b)" using r s(6) by simp
    moreover have "added ! 0 = next_pipe g" by (simp add: added cs del: upt_Suc)
    then have "\<forall>b. set (pgb_output_pipes (buffer_at h b)) =
        (if b \<in> relay_buffers g orig \<and> orig \<in> set (pgb_output_pipes (buffer_at g b))
         then insert (added ! 0) (set (pgb_output_pipes (buffer_at g b)) - {orig}) else set (pgb_output_pipes (buffer_at g b)))"
      using r s(9,10) by auto
    ultimately show ?thesis unfolding Cons list.sel relay_inputs_def relay_buffers_def using len by blast
  qed
qed

text \<open>A relay pipe between one buffer and two destinations.\<close>

definition relay_graph :: pipe_graph where
  "relay_graph =
     \<lparr>pg_buffers = [0, 1, 2], pg_pipes = [0],
      buffer_at = (\<lambda>b. new_PGBuffer\<lparr>pgb_id := if b = 0 then 100 else if b = 1 then 300 else 500,
        pgb_output_pipes := if b = 0 then [0] else []\<rparr>),
      pipe_at = (\<lambda>p. (new_PGPipe 200)\<lparr>pgp_inputs := [\<lparr>input_buffer = 0, input_offset = 0\<rparr>], pgp_output_buffers := [[1, 2]]\<rparr>),
      next_buffer = 3, next_pipe = 1\<rparr>"

lemma relay_graph_run: "\<exists>h. decompose_post_tm_multicast_pipe 0 (relay_graph, []) = Inr (h, [1, 2])"
  by (simp add: decompose_post_tm_multicast_pipe_def relay_graph_def decompose_output_def make_pipe_def decomposed_pipe_def
      add_output_buffer_def detach_inputs_def replace_reader_def replace_output_pipe_of_buffer_def has_output_pipe_id_def
      add_to_set_def copy_original_post_tm_pipe_attributes_def at_pipe_def at_buffer_def remove_all_inputs_def
      get_pipe_inputs_def add_pipe_input_def new_PGPipe_def new_PGBuffer_def Let_def)

theorem decomposed_pipes_are_not_linked_witness:
  "\<exists>h. decompose_post_tm_multicast_pipe 0 (relay_graph, []) = Inr (h, [1, 2])
     \<and> pgp_inputs (pipe_at h 2) = [\<lparr>input_buffer = 0, input_offset = 0\<rparr>]
     \<and> 2 \<notin> set (pgb_output_pipes (buffer_at h 0)) \<and> 1 \<in> set (pgb_output_pipes (buffer_at h 0))"
proof -
  obtain h where h: "decompose_post_tm_multicast_pipe 0 (relay_graph, []) = Inr (h, [1, 2])"
    using relay_graph_run by blast
  have g: "0 < next_pipe relay_graph" "\<forall>b. \<forall>q \<in> set (pgb_output_pipes (buffer_at relay_graph b)). q < next_pipe relay_graph"
    "get_pipe_inputs (pipe_at relay_graph 0) 0 = [\<lparr>input_buffer = 0, input_offset = 0\<rparr>]"
    "0 \<in> set (pgb_output_pipes (buffer_at relay_graph 0))"
    by (simp_all add: relay_graph_def new_PGPipe_def get_pipe_inputs_def)
  note p = decomposed_pipes_are_not_linked [OF h g(1,2), unfolded g(3)]
  have "pgp_inputs (pipe_at h ([1, 2] ! 1)) = [\<lparr>input_buffer = 0, input_offset = 0\<rparr>]
      \<and> (\<forall>b. [1, 2] ! 1 \<notin> set (pgb_output_pipes (buffer_at h b)))"
    using p [THEN conjunct2, THEN conjunct1, rule_format, of 1] by simp
  moreover have "1 \<in> set (pgb_output_pipes (buffer_at h 0))"
    using p [THEN conjunct2, THEN conjunct2, THEN conjunct1] g(4) by simp
  ultimately show ?thesis using h by auto
qed

end
