(* ===== verification/HexText.thy ===== *)
theory HexText
  imports Prelude
begin

text \<open>
  Text files of hexadecimal numbers: how a C++ stream prints a number with a fixed width, how
  \<open>getline\<close> splits the text, and the parser of a line in \<open>src/loader/tt_hexfile.cpp\<close>. A printed line
  is parsed to the number that was printed.
\<close>

section \<open>Numbers as text\<close>

definition hex_digit :: "bool \<Rightarrow> nat \<Rightarrow> char" where
  "hex_digit upper d = (if d < 10 then char_of (48 + d) else if upper then char_of (55 + d) else char_of (87 + d))"

fun hex_digits :: "bool \<Rightarrow> nat \<Rightarrow> string" where
  "hex_digits upper n = (if n < 16 then [hex_digit upper n] else hex_digits upper (n div 16) @ [hex_digit upper (n mod 16)])"

declare hex_digits.simps [simp del]

text \<open>\<open>setw\<close> with the fill character \<open>0\<close>.\<close>

definition hex_field :: "bool \<Rightarrow> nat \<Rightarrow> nat \<Rightarrow> string" where
  "hex_field upper width n = replicate (width - length (hex_digits upper n)) (CHR ''0'') @ hex_digits upper n"

definition hex_value :: "char \<Rightarrow> nat option" where
  "hex_value c =
     (let n = (of_char c :: nat) in
      if 48 \<le> n \<and> n \<le> 57 then Some (n - 48) else if 65 \<le> n \<and> n \<le> 70 then Some (n - 55)
      else if 97 \<le> n \<and> n \<le> 102 then Some (n - 87) else None)"

definition is_xdigit :: "char \<Rightarrow> bool" where
  "is_xdigit c \<longleftrightarrow> hex_value c \<noteq> None"

definition hex_number :: "string \<Rightarrow> nat" where
  "hex_number cs = foldl (\<lambda>n c. 16 * n + (case hex_value c of None \<Rightarrow> 0 | Some d \<Rightarrow> d)) 0 cs"

definition newline :: char where "newline = CHR 0x0A"

definition is_space :: "char \<Rightarrow> bool" where
  "is_space c \<longleftrightarrow> c = CHR '' '' \<or> (9 \<le> (of_char c :: nat) \<and> (of_char c :: nat) \<le> 13)"

section \<open>Lines\<close>

text \<open>
  Calls of \<open>getline\<close> until it fails: text after the last newline is a line when it is not empty. The
  first argument holds the characters of the current line, reversed.
\<close>

fun lines_from :: "string \<Rightarrow> string \<Rightarrow> string list" where
  "lines_from acc [] = (if acc = [] then [] else [rev acc])"
| "lines_from acc (c # cs) = (if c = newline then rev acc # lines_from [] cs else lines_from (c # acc) cs)"

definition stream_lines :: "string \<Rightarrow> string list" where
  "stream_lines = lines_from []"

lemma lines_from_line:
  "newline \<notin> set s \<Longrightarrow> lines_from acc (s @ newline # rest) = (rev acc @ s) # lines_from [] rest"
  by (induction s arbitrary: acc) auto

lemma stream_lines_Nil [simp]: "stream_lines [] = []"
  by (simp add: stream_lines_def)

lemma stream_lines_line:
  "newline \<notin> set s \<Longrightarrow> stream_lines (s @ newline # rest) = s # stream_lines rest"
  by (simp add: stream_lines_def lines_from_line)

section \<open>The parser of a line\<close>

text \<open>
  The regular expression: space, an optional \<open>@\<close>, an optional \<open>0x\<close>, one to eight hexadecimal digits,
  space, an optional comma, space. The result says whether there was an \<open>@\<close>. A \<open>0\<close> before an \<open>x\<close> can only
  be the prefix, since no digit may be followed by an \<open>x\<close>.
\<close>

definition skip_at :: "string \<Rightarrow> bool \<times> string" where
  "skip_at s = (case s of c # cs \<Rightarrow> if c = CHR ''@'' then (True, cs) else (False, s) | [] \<Rightarrow> (False, []))"

definition skip_hex_prefix :: "string \<Rightarrow> string" where
  "skip_hex_prefix s =
     (case s of c # d # cs \<Rightarrow> if c = CHR ''0'' \<and> (d = CHR ''x'' \<or> d = CHR ''X'') then cs else s | _ \<Rightarrow> s)"

definition skip_comma :: "string \<Rightarrow> string" where
  "skip_comma s = (case s of c # cs \<Rightarrow> if c = CHR '','' then dropWhile is_space cs else s | [] \<Rightarrow> [])"

definition parse_hex_line :: "string \<Rightarrow> (bool \<times> u32) option" where
  "parse_hex_line line =
     (let (seen_at, s) = skip_at (dropWhile is_space line);
          t = skip_hex_prefix s;
          digits = takeWhile is_xdigit t;
          rest = skip_comma (dropWhile is_space (dropWhile is_xdigit t))
      in if 1 \<le> length digits \<and> length digits \<le> 8 \<and> rest = [] then Some (seen_at, word_of_nat (hex_number digits))
         else None)"

section \<open>Printed numbers are parsed back\<close>

lemma hex_value_digit: "d < 16 \<Longrightarrow> hex_value (hex_digit upper d) = Some d"
  by (simp add: hex_value_def hex_digit_def Let_def)

lemma hex_value_zero [simp]: "hex_value (CHR ''0'') = Some 0"
  by (simp add: hex_value_def)

lemma hex_number_Nil [simp]: "hex_number [] = 0"
  by (simp add: hex_number_def)

lemma hex_number_snoc: "hex_number (cs @ [c]) = 16 * hex_number cs + (case hex_value c of None \<Rightarrow> 0 | Some d \<Rightarrow> d)"
  by (simp add: hex_number_def)

lemma hex_number_digits: "hex_number (hex_digits upper n) = n"
proof (induction n rule: less_induct)
  case (less n)
  show ?case
  proof (cases "n < 16")
    case True
    then show ?thesis using hex_value_digit [OF True, of upper] by (simp add: hex_digits.simps [of upper n] hex_number_def)
  next
    case False
    then have "hex_number (hex_digits upper (n div 16)) = n div 16" by (intro less) simp
    then show ?thesis using False hex_value_digit [of "n mod 16" upper]
      by (subst hex_digits.simps) (simp add: hex_number_snoc)
  qed
qed

lemma hex_digits_xdigits: "c \<in> set (hex_digits upper n) \<Longrightarrow> is_xdigit c"
proof (induction n rule: less_induct)
  case (less n)
  then show ?case
    using less.IH [of "n div 16"]
    by (cases "n < 16") (auto simp: is_xdigit_def hex_value_digit hex_digits.simps [of upper n])
qed

lemma length_hex_digits: "n < 16 ^ Suc k \<Longrightarrow> length (hex_digits upper n) \<le> Suc k"
proof (induction k arbitrary: n)
  case 0
  then show ?case by (simp add: hex_digits.simps [of upper n])
next
  case (Suc k)
  show ?case
  proof (cases "n < 16")
    case False
    have "n div 16 < 16 ^ Suc k" using Suc.prems by (simp add: less_mult_imp_div_less)
    from Suc.IH [OF this] False show ?thesis by (subst hex_digits.simps) simp
  qed (simp add: hex_digits.simps [of upper n])
qed

lemma hex_field_digits: "c \<in> set (hex_field upper w n) \<Longrightarrow> is_xdigit c"
  by (auto simp: hex_field_def is_xdigit_def dest: hex_digits_xdigits)

lemma length_hex_field: "n < 16 ^ Suc k \<Longrightarrow> length (hex_field upper (Suc k) n) = Suc k"
  using length_hex_digits [of n k upper] by (simp add: hex_field_def)

lemma hex_number_field: "hex_number (hex_field upper w n) = n"
proof -
  have "foldl (\<lambda>n c. 16 * n + (case hex_value c of None \<Rightarrow> 0 | Some d \<Rightarrow> d)) 0 (replicate k (CHR ''0'')) = 0" for k
    by (induction k) simp_all
  then show ?thesis using hex_number_digits [of upper n] by (simp add: hex_field_def hex_number_def)
qed

text \<open>The characters of a printed line: neither space nor a separator.\<close>

lemma xdigit_plain:
  assumes "is_xdigit c"
  shows "\<not> is_space c" "c \<noteq> CHR ''@''" "c \<noteq> CHR '',''" "c \<noteq> CHR ''x''" "c \<noteq> CHR ''X''" "c \<noteq> newline"
proof -
  have c: "(48 \<le> (of_char c :: nat) \<and> (of_char c :: nat) \<le> 57) \<or> (65 \<le> (of_char c :: nat) \<and> (of_char c :: nat) \<le> 70)
    \<or> (97 \<le> (of_char c :: nat) \<and> (of_char c :: nat) \<le> 102)"
    using assms by (auto simp: is_xdigit_def hex_value_def Let_def split: if_splits)
  then show "\<not> is_space c" by (auto simp: is_space_def)
  show "c \<noteq> CHR ''@''" "c \<noteq> CHR '',''" "c \<noteq> CHR ''x''" "c \<noteq> CHR ''X''" "c \<noteq> newline"
    using c by (auto simp: newline_def)
qed

definition printed_line :: "bool \<Rightarrow> bool \<Rightarrow> u32 \<Rightarrow> string" where
  "printed_line upper at w = (if at then [CHR ''@''] else []) @ hex_field upper 8 (unat w)"

lemma newline_not_printed: "newline \<notin> set (printed_line upper at w)"
  using hex_field_digits [of newline upper 8 "unat w"] xdigit_plain(6) [of newline] by (auto simp: printed_line_def newline_def)

lemma skip_prefix_digits: "\<forall>c \<in> set s. is_xdigit c \<Longrightarrow> skip_hex_prefix s = s"
  using xdigit_plain(4,5) by (auto simp: skip_hex_prefix_def split: list.splits)

lemma parse_printed_line: "parse_hex_line (printed_line upper at w) = Some (at, w)"
proof -
  let ?f = "hex_field upper 8 (unat w)"
  have "unat w < 16 ^ Suc 7" using unsigned_less [of w] by simp
  from length_hex_field [OF this, of upper] have len: "length ?f = 8" by simp
  have digits: "\<forall>c \<in> set ?f. is_xdigit c" using hex_field_digits by blast
  then have all: "takeWhile is_xdigit ?f = ?f" "dropWhile is_xdigit ?f = []" "skip_hex_prefix ?f = ?f"
    by (simp_all add: skip_prefix_digits)
  have "skip_at (dropWhile is_space (printed_line upper at w)) = (at, ?f)"
  proof -
    obtain c cs where c: "?f = c # cs" "is_xdigit c" using len digits by (cases ?f) auto
    moreover have "\<not> is_space (CHR ''@'')" by (simp add: is_space_def)
    ultimately show ?thesis using xdigit_plain(1,2) [OF c(2)] by (simp add: printed_line_def skip_at_def)
  qed
  then show ?thesis
    by (simp add: parse_hex_line_def Let_def len skip_comma_def hex_number_field all)
qed

end
