(* ===== verification/HexMemory.thy ===== *)
theory HexMemory
  imports HexText
begin

text \<open>
  Memory images and the hex files they are stored in (\<open>src/loader/tt_hexfile.cpp\<close>, \<open>tt_memory.cpp\<close>):
  the two readers, the writer, and the operations on an image. A file is its text; a call back is an
  operation that may throw.
\<close>

datatype hex_error =
    NoInitialLine | NoAddressLine | UnreadableLine | AddressGoesBackwards | MultipleBases | EmptyMemoryFile
  | InvalidNumber | NumberOutOfRange | BaseTooHigh | WrapsAddressSpace | TooBigForMemory
  | HexAssert | HexOutOfRange | HexUndefined

section \<open>Reading\<close>

fun read_contiguous_lines ::
  "(u32 \<Rightarrow> ('s, hex_error, unit) opn) \<Rightarrow> string list \<Rightarrow> ('s, hex_error, unit) opn" where
  "read_contiguous_lines call [] = ret ()"
| "read_contiguous_lines call (line # ls) =
     (case parse_hex_line line of
        None \<Rightarrow> throw UnreadableLine
      | Some (seen_at, value) \<Rightarrow>
          if seen_at then throw MultipleBases
          else andThen (call value) (\<lambda>_. read_contiguous_lines call ls))"

definition read_contiguous_hex_file :: "string list \<Rightarrow> hex_error + u32 list" where
  "read_contiguous_hex_file ls =
     (case read_contiguous_lines (\<lambda>v content. (Inr (), content @ [v])) ls [] of
        (Inl e, _) \<Rightarrow> Inl e | (Inr _, content) \<Rightarrow> Inr content)"

text \<open>The variant that calls back with increasing addresses and returns the one after the last.\<close>

definition read_contiguous_with ::
  "(u32 \<Rightarrow> u32 \<Rightarrow> ('s, hex_error, unit) opn) \<Rightarrow> u32 \<Rightarrow> string list \<Rightarrow> ('s, hex_error, u32) opn" where
  "read_contiguous_with call base ls s =
     (case read_contiguous_lines (\<lambda>v (a, s). case call a v s of (r, s1) \<Rightarrow> (r, (a + 1, s1))) ls (base, s) of
        (Inl e, (a, s1)) \<Rightarrow> (Inl e, s1) | (Inr _, (a, s1)) \<Rightarrow> (Inr a, s1))"

fun read_discontiguous_lines ::
  "(u32 \<Rightarrow> u32 \<Rightarrow> ('s, hex_error, unit) opn) \<Rightarrow> u32 \<Rightarrow> string list \<Rightarrow> ('s, hex_error, u32) opn" where
  "read_discontiguous_lines call addr [] = ret addr"
| "read_discontiguous_lines call addr (line # ls) =
     (case parse_hex_line line of
        None \<Rightarrow> throw UnreadableLine
      | Some (seen_at, value) \<Rightarrow>
          if seen_at
          then (if value < addr then throw AddressGoesBackwards else read_discontiguous_lines call value ls)
          else andThen (call addr value) (\<lambda>_. read_discontiguous_lines call (addr + 1) ls))"

text \<open>
  The first \<open>getline\<close> fails on an empty text. An empty line at the end of the file is meant to be allowed;
  the line is at the end when the text has no newline.
\<close>

definition read_discontiguous_hex_file ::
  "(u32 \<Rightarrow> u32 \<Rightarrow> ('s, hex_error, unit) opn) \<Rightarrow> string \<Rightarrow> ('s, hex_error, u32) opn" where
  "read_discontiguous_hex_file call text =
     (case stream_lines text of
        [] \<Rightarrow> throw NoInitialLine
      | line # ls \<Rightarrow>
          if line = [] \<and> newline \<notin> set text then ret 0
          else (case parse_hex_line line of
                  Some (True, addr) \<Rightarrow> read_discontiguous_lines call addr ls
                | _ \<Rightarrow> throw NoAddressLine))"

section \<open>Writing\<close>

record hex_writer =
  w_first :: bool
  w_last_address :: u32
  w_text :: string

definition new_hex_writer :: hex_writer where
  "new_hex_writer = \<lparr>w_first = True, w_last_address = 0, w_text = []\<rparr>"

definition writer_add :: "u32 \<Rightarrow> u32 \<Rightarrow> (hex_writer, hex_error, unit) opn" where
  "writer_add address v w =
     (if \<not> (w_first w \<or> address > w_last_address w) then (Inl HexAssert, w)
      else
        let new_block = (w_first w \<or> w_last_address w + 1 \<noteq> address);
            head = (if new_block then CHR ''@'' # hex_field True 8 (unat address) @ [newline] else [])
        in (Inr (), \<lparr>w_first = (if new_block then False else w_first w), w_last_address = address,
                     w_text = w_text w @ head @ hex_field True 8 (unat v) @ [newline]\<rparr>))"

fun writer_add_words :: "u32 \<Rightarrow> u32 list \<Rightarrow> (hex_writer, hex_error, unit) opn" where
  "writer_add_words address [] = ret ()"
| "writer_add_words address (v # vs) = andThen (writer_add address v) (\<lambda>_. writer_add_words (address + 1) vs)"

section \<open>Memory images\<close>

record memory_image =
  m_base :: u32
  m_content :: "u32 list"

definition image_ok :: "memory_image \<Rightarrow> bool" where
  "image_ok m \<longleftrightarrow> m_base m mod 4 = 0 \<and> length (m_content m) \<le> (2 ^ 32 - 1 - unat (m_base m)) div 4 + 1"

definition new_memory :: "u32 \<Rightarrow> u32 list \<Rightarrow> hex_error + memory_image" where
  "new_memory base content =
     (let m = \<lparr>m_base = base, m_content = content\<rparr> in if image_ok m then Inr m else Inl HexAssert)"

definition memory_of_size :: "u32 \<Rightarrow> u32 \<Rightarrow> hex_error + memory_image" where
  "memory_of_size base n = (if n mod 4 \<noteq> 0 then Inl HexAssert else new_memory base (replicate (unat (n div 4)) 0))"

definition memory_count :: "memory_image \<Rightarrow> u32" where
  "memory_count m = word_of_nat (length (m_content m))"

definition memory_size :: "memory_image \<Rightarrow> u32" where
  "memory_size m = memory_count m * 4"

definition memory_limit :: "memory_image \<Rightarrow> u32" where
  "memory_limit m = m_base m + memory_size m"

definition base_word :: "memory_image \<Rightarrow> u32" where
  "base_word m = m_base m div 4"

definition limit_word :: "memory_image \<Rightarrow> u32" where
  "limit_word m = base_word m + memory_count m"

definition memory_resize :: "nat \<Rightarrow> memory_image \<Rightarrow> memory_image" where
  "memory_resize n m = m\<lparr>m_content := take n (m_content m) @ replicate (n - length (m_content m)) 0\<rparr>"

definition memory_set :: "u32 \<Rightarrow> u32 \<Rightarrow> (memory_image, hex_error, unit) opn" where
  "memory_set i v m =
     (if unat i < length (m_content m) then (Inr (), m\<lparr>m_content := (m_content m)[unat i := v]\<rparr>) else (Inl HexOutOfRange, m))"

text \<open>The call back of the reader: the first word makes the image, later ones extend it.\<close>

definition extend_and_set :: "u32 \<Rightarrow> u32 \<Rightarrow> (memory_image, hex_error, unit) opn" where
  "extend_and_set word_addr value m =
     (let m1 = (if limit_word m \<le> word_addr then memory_resize (unat (word_addr - base_word m + 1)) m else m)
      in memory_set (word_addr - base_word m1) value m1)"

definition store_word :: "u32 \<Rightarrow> u32 \<Rightarrow> (memory_image, hex_error, unit) opn" where
  "store_word word_addr value m =
     (case (if memory_size m = 0 then memory_of_size (word_addr * 4) 4 else Inr m) of
        Inl e \<Rightarrow> (Inl e, m)
      | Inr m1 \<Rightarrow> extend_and_set word_addr value m1)"

definition empty_memory :: memory_image where
  "empty_memory = \<lparr>m_base = 0, m_content = []\<rparr>"

definition result_of :: "(hex_error + 'a) \<times> 's \<Rightarrow> hex_error + 's" where
  "result_of r = (case r of (Inl e, _) \<Rightarrow> Inl e | (Inr _, s) \<Rightarrow> Inr s)"

definition from_discontiguous_hex :: "string \<Rightarrow> hex_error + memory_image" where
  "from_discontiguous_hex text = result_of (read_discontiguous_hex_file store_word text empty_memory)"

text \<open>\<open>stoul\<close> with base 16: space, a sign, a prefix before a digit, digits; what follows is ignored.\<close>

definition skip_sign :: "string \<Rightarrow> bool \<times> string" where
  "skip_sign s =
     (case s of [] \<Rightarrow> (False, [])
      | c # cs \<Rightarrow> if c = CHR ''-'' then (True, cs) else if c = CHR ''+'' then (False, cs) else (False, s))"

definition stoul_hex :: "string \<Rightarrow> hex_error + u64" where
  "stoul_hex s =
     (let (minus, t) = skip_sign (dropWhile is_space s);
          u = skip_hex_prefix t;
          digits = takeWhile is_xdigit (if u \<noteq> [] \<and> is_xdigit (hd u) then u else t)
      in if digits = [] then Inl InvalidNumber
         else if hex_number digits \<ge> 2 ^ 64 then Inl NumberOutOfRange
         else Inr (if minus then - word_of_nat (hex_number digits) else word_of_nat (hex_number digits)))"

definition from_contiguous_hex :: "string \<Rightarrow> hex_error + memory_image" where
  "from_contiguous_hex text =
     (case stream_lines text of
        [] \<Rightarrow> Inl EmptyMemoryFile
      | line # ls \<Rightarrow>
          if line = [] \<or> hd line \<noteq> CHR ''@'' then Inl NoAddressLine
          else bind_sum (stoul_hex (tl line)) (\<lambda>base.
            if unat base > (2 ^ 32 - 1) div 4 then Inl BaseTooHigh
            else bind_sum (read_contiguous_hex_file ls) (\<lambda>content.
              if length content > (2 ^ 32 - 1) div 4 + 1 - unat base then Inl WrapsAddressSpace
              else new_memory (ucast base * 4) content)))"

definition write_hex :: "memory_image \<Rightarrow> hex_error + string" where
  "write_hex m = map_sum id w_text (result_of (writer_add_words (base_word m) (m_content m) new_hex_writer))"

text \<open>
  The image of a RISC core. The local memories and the instruction memory are moved to where L1 holds
  their copies; the addresses are those of the architecture.
\<close>

datatype risc_type = BRISC | TRISC0 | TRISC1 | TRISC2 | NCRISC

record risc_addresses =
  trisc0_local_mem_base :: u32
  trisc1_local_mem_base :: u32
  trisc2_local_mem_base :: u32
  ncrisc_local_mem_base :: u32
  ncrisc_firmware_base :: u32
  risc_local_mem_base :: u32
  ncrisc_iram_mem_base :: u32
  max_l1_loading_size :: u32

definition local_memory_copy :: "risc_addresses \<Rightarrow> risc_type \<Rightarrow> u32" where
  "local_memory_copy r t =
     (case t of BRISC \<Rightarrow> 0 | TRISC0 \<Rightarrow> drop_bit 2 (trisc0_local_mem_base r) | TRISC1 \<Rightarrow> drop_bit 2 (trisc1_local_mem_base r)
      | TRISC2 \<Rightarrow> drop_bit 2 (trisc2_local_mem_base r) | NCRISC \<Rightarrow> drop_bit 2 (ncrisc_local_mem_base r))"

definition remap_word :: "risc_addresses \<Rightarrow> risc_type \<Rightarrow> u32 \<Rightarrow> u32" where
  "remap_word r t word_addr =
     (let region = push_bit 2 word_addr AND 0xfff00000;
          offset = word_addr AND (drop_bit 2 (max_l1_loading_size r) - 1)
      in if t \<noteq> BRISC \<and> region = risc_local_mem_base r then offset + local_memory_copy r t
         else if t = NCRISC \<and> region = ncrisc_iram_mem_base r then offset + drop_bit 2 (ncrisc_firmware_base r)
         else word_addr)"

definition store_risc_word :: "risc_addresses \<Rightarrow> risc_type \<Rightarrow> u32 \<Rightarrow> u32 \<Rightarrow> (memory_image, hex_error, unit) opn" where
  "store_risc_word r t word_addr value m =
     (let first = (memory_size m = 0); addr1 = (if first then remap_word r t word_addr else word_addr) in
      case (if first then memory_of_size (if t = NCRISC then ncrisc_firmware_base r else addr1 * 4) 4 else Inr m) of
        Inl e \<Rightarrow> (Inl e, m)
      | Inr m1 \<Rightarrow> extend_and_set (remap_word r t addr1) value m1)"

definition from_discontiguous_risc_hex :: "risc_addresses \<Rightarrow> risc_type \<Rightarrow> string \<Rightarrow> hex_error + memory_image" where
  "from_discontiguous_risc_hex r t text = result_of (read_discontiguous_hex_file (store_risc_word r t) text empty_memory)"

text \<open>The limit is the capacity of the vector; what is behind its size is not an element.\<close>

definition store_relative :: "nat \<Rightarrow> u32 \<Rightarrow> u32 \<Rightarrow> (memory_image, hex_error, unit) opn" where
  "store_relative capacity addr value m =
     (if unat addr > capacity then (Inl TooBigForMemory, m)
      else if unat addr < length (m_content m) then (Inr (), m\<lparr>m_content := (m_content m)[unat addr := value]\<rparr>)
      else (Inl HexUndefined, m))"

definition load_relative_hex :: "nat \<Rightarrow> string \<Rightarrow> (memory_image, hex_error, u32) opn" where
  "load_relative_hex capacity text = read_discontiguous_hex_file (store_relative capacity) text"

definition slice_memory :: "memory_image \<Rightarrow> u32 \<Rightarrow> u32 \<Rightarrow> u32 \<Rightarrow> hex_error + memory_image" where
  "slice_memory m base start stop =
     (if start < m_base m \<or> memory_limit m < stop \<or> (stop - start) mod 4 \<noteq> 0 then Inl HexAssert
      else
        let n = unat (stop - start) div 4; first = unat (start - base) div 4 in
        if n > 0 \<and> first + n > length (m_content m) then Inl HexUndefined
        else new_memory base (take n (drop first (m_content m))))"

text \<open>The index is an \<open>unsigned int\<close>, which starts over at zero; the end of the data is a 64-bit sum.\<close>

fun write_words :: "u32 \<Rightarrow> u32 list \<Rightarrow> (memory_image, hex_error, unit) opn" where
  "write_words idx [] = ret ()"
| "write_words idx (v # vs) = andThen (memory_set idx v) (\<lambda>_. write_words (idx + 1) vs)"

definition WriteBlob :: "u32 \<Rightarrow> u32 list \<Rightarrow> (memory_image, hex_error, u32) opn" where
  "WriteBlob start data m =
     (let one_past_end = unat start + length data * 4 in
      if start < m_base m \<or> one_past_end > unat (memory_limit m) then (Inl HexAssert, m)
      else andThen (write_words ((start - m_base m) div 4) data) (\<lambda>_. ret (word_of_nat one_past_end)) m)"

end
