(* ===== verification/HexRoundTrip.thy ===== *)
theory HexRoundTrip
  imports HexMemory
begin

text \<open>
  What is written to a hex file is read back: blocks of words at increasing addresses, as the writer of
  memory images and the generator of overlay blobs print them, become an image with zeros between the
  blocks.
\<close>

section \<open>Blocks as lines\<close>

type_synonym block = "u32 \<times> u32 list"

definition block_lines :: "bool \<Rightarrow> block \<Rightarrow> string list" where
  "block_lines upper b = printed_line upper True (fst b) # map (printed_line upper False) (snd b)"

definition text_of :: "string list \<Rightarrow> string" where
  "text_of ls = concat (map (\<lambda>l. l @ [newline]) ls)"

lemma text_of_simps [simp]: "text_of [] = []" "text_of (l # ls) = l @ newline # text_of ls" "text_of (ls @ ks) = text_of ls @ text_of ks"
  by (simp_all add: text_of_def)

lemma stream_lines_text_of: "\<forall>l \<in> set ls. newline \<notin> set l \<Longrightarrow> stream_lines (text_of ls) = ls"
  by (induction ls) (simp_all add: stream_lines_line)

lemma no_newline_in_blocks: "l \<in> set (concat (map (block_lines upper) bs)) \<Longrightarrow> newline \<notin> set l"
  by (auto simp: block_lines_def newline_not_printed)

fun call_words :: "(u32 \<Rightarrow> u32 \<Rightarrow> ('s, hex_error, unit) opn) \<Rightarrow> u32 \<Rightarrow> u32 list \<Rightarrow> ('s, hex_error, unit) opn" where
  "call_words call a [] = ret ()"
| "call_words call a (v # vs) = andThen (call a v) (\<lambda>_. call_words call (a + 1) vs)"

lemma andThen_assoc: "andThen (andThen m f) h = andThen m (\<lambda>x. andThen (f x) h)"
  by (auto simp: andThen_def fun_eq_iff split: prod.splits sum.splits)

lemma andThen_ret [simp]: "andThen (ret x) f = f x"
  by (simp add: andThen_def ret_def)

lemma read_words:
  "read_discontiguous_lines call a (map (printed_line upper False) ws @ ls) =
     andThen (call_words call a ws) (\<lambda>_. read_discontiguous_lines call (a + word_of_nat (length ws)) ls)"
  by (induction ws arbitrary: a) (simp_all add: parse_printed_line andThen_assoc add_ac)

text \<open>The blocks that are read after the address \<open>a\<close>.\<close>

fun read_blocks :: "(u32 \<Rightarrow> u32 \<Rightarrow> ('s, hex_error, unit) opn) \<Rightarrow> u32 \<Rightarrow> block list \<Rightarrow> ('s, hex_error, u32) opn" where
  "read_blocks call a [] = ret a"
| "read_blocks call a (b # bs) =
     (if fst b < a then throw AddressGoesBackwards
      else andThen (call_words call (fst b) (snd b)) (\<lambda>_. read_blocks call (fst b + word_of_nat (length (snd b))) bs))"

lemma read_blocks_lines:
  "read_discontiguous_lines call a (concat (map (block_lines upper) bs)) = read_blocks call a bs"
proof (induction bs arbitrary: a)
  case (Cons b bs)
  then show ?case by (simp add: block_lines_def parse_printed_line read_words)
qed simp

lemma read_blocks_text:
  assumes "bs \<noteq> []"
  shows "read_discontiguous_hex_file call (text_of (concat (map (block_lines upper) bs))) = read_blocks call 0 bs"
proof -
  obtain b bs' where bs: "bs = b # bs'" using assms by (cases bs) auto
  have lines: "stream_lines (text_of (concat (map (block_lines upper) bs))) = concat (map (block_lines upper) bs)"
    by (rule stream_lines_text_of) (blast dest: no_newline_in_blocks)
  have first: "concat (map (block_lines upper) bs) = printed_line upper True (fst b) # map (printed_line upper False) (snd b)
      @ concat (map (block_lines upper) bs')"
    by (simp add: bs block_lines_def)
  have "printed_line upper True (fst b) \<noteq> []" by (simp add: printed_line_def)
  then show ?thesis
    unfolding read_discontiguous_hex_file_def lines unfolding first
    by (simp add: parse_printed_line read_words read_blocks_lines bs)
qed

section \<open>Blocks as an image\<close>

text \<open>The words from a word address on, with zeros between the blocks, as natural numbers.\<close>

fun image_from :: "nat \<Rightarrow> block list \<Rightarrow> u32 list" where
  "image_from cur [] = []"
| "image_from cur (b # bs) =
     (if snd b = [] then image_from cur bs
      else replicate (unat (fst b) - cur) 0 @ snd b @ image_from (unat (fst b) + length (snd b)) bs)"

fun ascending_blocks :: "nat \<Rightarrow> block list \<Rightarrow> bool" where
  "ascending_blocks cur [] = True"
| "ascending_blocks cur (b # bs) \<longleftrightarrow>
     cur \<le> unat (fst b) \<and> unat (fst b) + length (snd b) \<le> 2 ^ 30 \<and> ascending_blocks (unat (fst b) + length (snd b)) bs"

lemma store_first_word:
  assumes "unat a < 2 ^ 30"
  shows "store_word a v empty_memory = (Inr (), \<lparr>m_base = a * 4, m_content = [v]\<rparr>)"
proof -
  have a4: "unat (a * 4) = unat a * 4" using assms by (simp add: unat_word_ariths)
  then have "a * 4 mod 4 = 0" by (simp add: word_arith_nat_mod)
  then have "image_ok \<lparr>m_base = a * 4, m_content = [0]\<rparr>" by (simp add: image_ok_def)
  then have m: "memory_of_size (a * 4) 4 = Inr \<lparr>m_base = a * 4, m_content = [0]\<rparr>"
    by (simp add: memory_of_size_def new_memory_def Let_def)
  have base: "a * 4 div 4 = a" using a4 by (simp add: word_arith_nat_div)
  have "\<not> a + 1 \<le> a" using assms by (simp add: word_le_nat_alt unat_word_ariths)
  then show ?thesis
    by (simp add: store_word_def memory_size_def memory_count_def empty_memory_def m extend_and_set_def limit_word_def
        base_word_def base Let_def memory_set_def)
qed

text \<open>Storing at or after the end of an image that is not empty.\<close>

lemma store_later_word:
  assumes "m_content m \<noteq> []" and base: "unat (m_base m) = B * 4" and a: "B + length (m_content m) \<le> unat a" and "unat a < 2 ^ 30"
  shows "store_word a v m = (Inr (), m\<lparr>m_content := m_content m @ replicate (unat a - (B + length (m_content m))) 0 @ [v]\<rparr>)"
proof -
  let ?n = "length (m_content m)"
  have n: "?n < 2 ^ 30" "0 < ?n" using assms(1,3,4) by auto
  have "unat (memory_size m) = ?n * 4"
    using n by (simp add: memory_size_def memory_count_def unat_word_ariths take_bit_nat_eq_self unsigned_of_nat)
  then have size: "memory_size m \<noteq> 0" using n by auto
  have bw: "unat (base_word m) = B" by (simp add: base_word_def base unat_div)
  have lw: "unat (limit_word m) = B + ?n"
    using n a assms(4) by (simp add: limit_word_def memory_count_def unat_word_ariths bw unsigned_of_nat take_bit_nat_eq_self)
  have idx: "unat (a - base_word m) = unat a - B" using a bw by (simp add: unat_sub word_le_nat_alt)
  moreover have "unat (a - base_word m + 1) = unat a - B + 1"
    using assms(4) by (simp add: unat_word_ariths idx)
  moreover have "limit_word m \<le> a" using lw a by (simp add: word_le_nat_alt)
  moreover have "base_word (m\<lparr>m_content := c\<rparr>) = base_word m" for c by (simp add: base_word_def)
  moreover have "(m_content m @ replicate (unat a - B + 1 - ?n) 0)[unat a - B := v]
      = m_content m @ replicate (unat a - (B + ?n)) 0 @ [v]"
  proof -
    have "unat a - B + 1 - ?n = Suc (unat a - (B + ?n))" using a by simp
    then have r: "m_content m @ replicate (unat a - B + 1 - ?n) 0 = (m_content m @ replicate (unat a - (B + ?n)) 0) @ 0 # []"
      by (simp add: replicate_append_same)
    let ?ys = "m_content m @ replicate (unat a - (B + ?n)) 0"
    have i: "unat a - B = length ?ys" using a by simp
    have "(?ys @ 0 # [])[length ?ys := v] = ?ys @ v # []" by (rule list_update_length)
    then have "(?ys @ 0 # [])[unat a - B := v] = ?ys @ v # []" using i by metis
    then show ?thesis unfolding r by (simp only: append.assoc)
  qed
  ultimately show ?thesis using size a
    by (simp add: store_word_def extend_and_set_def memory_set_def memory_resize_def Let_def)
qed

lemma call_words_stored:
  assumes "m_content m \<noteq> []" and "unat (m_base m) = B * 4" and "B + length (m_content m) \<le> unat a" and "unat a + length ws \<le> 2 ^ 30"
    and "ws \<noteq> []"
  shows "call_words store_word a ws m =
    (Inr (), m\<lparr>m_content := m_content m @ replicate (unat a - (B + length (m_content m))) 0 @ ws\<rparr>)"
  using assms
proof (induction ws arbitrary: a m)
  case (Cons v ws)
  let ?m = "m\<lparr>m_content := m_content m @ replicate (unat a - (B + length (m_content m))) 0 @ [v]\<rparr>"
  have first: "store_word a v m = (Inr (), ?m)" by (rule store_later_word) (use Cons.prems in auto)
  show ?case
  proof (cases "ws = []")
    case False
    then have a1: "unat (a + 1) = unat a + 1" using Cons.prems(4) by (cases ws) (auto simp: unat_word_ariths)
    have "call_words store_word (a + 1) ws ?m =
      (Inr (), ?m\<lparr>m_content := m_content ?m @ replicate (unat (a + 1) - (B + length (m_content ?m))) 0 @ ws\<rparr>)"
      by (rule Cons.IH) (use Cons.prems False a1 in auto)
    then show ?thesis using first Cons.prems(3) a1 by (simp add: andThen_def)
  qed (simp add: first andThen_def ret_def)
qed simp

lemma call_words_first:
  assumes "ws \<noteq> []" and "unat a + length ws \<le> 2 ^ 30"
  shows "call_words store_word a ws empty_memory = (Inr (), \<lparr>m_base = a * 4, m_content = ws\<rparr>)"
proof (cases ws)
  case (Cons v vs)
  have a: "unat a < 2 ^ 30" using assms Cons by simp
  have base: "unat (a * 4) = unat a * 4" using a by (simp add: unat_word_ariths)
  let ?m = "\<lparr>m_base = a * 4, m_content = [v]\<rparr>"
  show ?thesis
  proof (cases "vs = []")
    case False
    then have a1: "unat (a + 1) = unat a + 1" using assms(2) Cons by (cases vs) (auto simp: unat_word_ariths)
    have "call_words store_word (a + 1) vs ?m =
      (Inr (), ?m\<lparr>m_content := m_content ?m @ replicate (unat (a + 1) - (unat a + length (m_content ?m))) 0 @ vs\<rparr>)"
      by (rule call_words_stored) (use assms(2) Cons False a1 base in auto)
    then show ?thesis using store_first_word [OF a, of v] Cons a1 by (simp add: andThen_def)
  qed (simp add: Cons store_first_word [OF a] andThen_def ret_def)
qed (use assms in simp)

lemma read_blocks_stored:
  assumes "m_content m \<noteq> []" and "unat (m_base m) = B * 4" and "ascending_blocks cur bs" and "B + length (m_content m) \<le> cur"
    and "a \<le> word_of_nat cur" and "cur \<le> 2 ^ 30"
  shows "\<exists>r. read_blocks store_word a bs m =
    (Inr r, m\<lparr>m_content := m_content m @ image_from (B + length (m_content m)) bs\<rparr>)"
  using assms
proof (induction bs arbitrary: a m cur)
  case Nil
  then show ?case by (simp add: ret_def)
next
  case (Cons b bs)
  let ?a = "unat (fst b)" and ?n = "length (snd b)"
  have b: "cur \<le> ?a" "?a + ?n \<le> 2 ^ 30" "ascending_blocks (?a + ?n) bs" using Cons.prems(3) by auto
  have "unat (word_of_nat cur :: u32) = cur" using Cons.prems(6) by (simp add: unsigned_of_nat take_bit_nat_eq_self)
  then have go: "\<not> fst b < a" using Cons.prems(5) b(1) by (simp add: word_le_nat_alt word_less_nat_alt)
  have next_cur: "fst b + word_of_nat ?n \<le> (word_of_nat (?a + ?n) :: u32)" by simp
  show ?case
  proof (cases "snd b = []")
    case True
    have "\<exists>r. read_blocks store_word (fst b) bs m = (Inr r, m\<lparr>m_content := m_content m @ image_from (B + length (m_content m)) bs\<rparr>)"
      by (rule Cons.IH [of m "?a + ?n"]) (use Cons.prems b True next_cur in auto)
    then show ?thesis using go True by simp
  next
    case False
    let ?m = "m\<lparr>m_content := m_content m @ replicate (?a - (B + length (m_content m))) 0 @ snd b\<rparr>"
    have "call_words store_word (fst b) (snd b) m = (Inr (), ?m)"
      by (rule call_words_stored) (use Cons.prems b False in auto)
    moreover have "\<exists>r. read_blocks store_word (fst b + word_of_nat ?n) bs ?m =
        (Inr r, ?m\<lparr>m_content := m_content ?m @ image_from (B + length (m_content ?m)) bs\<rparr>)"
      by (rule Cons.IH [of ?m "?a + ?n"]) (use Cons.prems b False next_cur in auto)
    ultimately show ?thesis using go False b(1) Cons.prems(4) by (auto simp: andThen_def)
  qed
qed

text \<open>The blocks before the first one with words make nothing.\<close>

fun image_base :: "block list \<Rightarrow> u32" where
  "image_base [] = 0"
| "image_base (b # bs) = (if snd b = [] then image_base bs else fst b)"

lemma read_blocks_image:
  assumes "ascending_blocks cur bs" and "a \<le> word_of_nat cur" and "cur \<le> 2 ^ 30"
  shows "\<exists>r. read_blocks store_word a bs empty_memory =
    (Inr r, \<lparr>m_base = image_base bs * 4, m_content = image_from (unat (image_base bs)) bs\<rparr>)"
  using assms
proof (induction bs arbitrary: a cur)
  case Nil
  then show ?case by (simp add: ret_def empty_memory_def)
next
  case (Cons b bs)
  let ?a = "unat (fst b)" and ?n = "length (snd b)"
  have b: "cur \<le> ?a" "?a + ?n \<le> 2 ^ 30" "ascending_blocks (?a + ?n) bs" using Cons.prems(1) by auto
  have "unat (word_of_nat cur :: u32) = cur" using Cons.prems(3) by (simp add: unsigned_of_nat take_bit_nat_eq_self)
  then have go: "\<not> fst b < a" using Cons.prems(2) b(1) by (simp add: word_le_nat_alt word_less_nat_alt)
  show ?case
  proof (cases "snd b = []")
    case True
    then show ?thesis using Cons.IH [of "?a" "fst b"] b go by simp
  next
    case False
    let ?m = "\<lparr>m_base = fst b * 4, m_content = snd b\<rparr>"
    have "unat (fst b) < 2 ^ 30" using b(2) False by (cases "snd b") auto
    then have base: "unat (fst b * 4) = ?a * 4" by (simp add: unat_word_ariths)
    have "call_words store_word (fst b) (snd b) empty_memory = (Inr (), ?m)"
      by (rule call_words_first) (use b False in auto)
    moreover have "\<exists>r. read_blocks store_word (fst b + word_of_nat ?n) bs ?m =
        (Inr r, ?m\<lparr>m_content := m_content ?m @ image_from (?a + length (m_content ?m)) bs\<rparr>)"
      by (rule read_blocks_stored [of ?m "?a" "?a + ?n"]) (use b False base in auto)
    ultimately show ?thesis using go False by (auto simp: andThen_def)
  qed
qed

section \<open>Images written and read\<close>

lemma writer_rest:
  assumes "\<not> w_first w" and "w_last_address w + 1 = a" and "unat (w_last_address w) + length vs < 2 ^ 32"
  shows "\<exists>w'. writer_add_words a vs w = (Inr (), w') \<and> w_text w' = w_text w @ text_of (map (printed_line True False) vs)"
  using assms
proof (induction vs arbitrary: a w)
  case Nil
  then show ?case by (simp add: ret_def)
next
  case (Cons v vs)
  let ?w = "\<lparr>w_first = False, w_last_address = a, w_text = w_text w @ hex_field True 8 (unat v) @ [newline]\<rparr>"
  have a: "unat a = unat (w_last_address w) + 1" using Cons.prems(2,3) by (auto simp: unat_word_ariths)
  then have "writer_add a v w = (Inr (), ?w)" using Cons.prems(1,2) by (simp add: writer_add_def word_less_nat_alt Let_def)
  moreover have "\<exists>w'. writer_add_words (a + 1) vs ?w = (Inr (), w') \<and> w_text w' = w_text ?w @ text_of (map (printed_line True False) vs)"
    by (rule Cons.IH) (use Cons.prems a in auto)
  moreover have "printed_line True False v = hex_field True 8 (unat v)" by (simp add: printed_line_def)
  ultimately show ?case by (auto simp: andThen_def)
qed

lemma write_hex_lines:
  assumes "m_content m \<noteq> []" and "unat (base_word m) + length (m_content m) \<le> 2 ^ 30"
  shows "write_hex m = Inr (text_of (block_lines True (base_word m, m_content m)))"
proof -
  obtain v vs where vs: "m_content m = v # vs" using assms(1) by (cases "m_content m") auto
  let ?w = "\<lparr>w_first = False, w_last_address = base_word m, w_text = (CHR ''@'' # hex_field True 8 (unat (base_word m)) @ [newline])
    @ hex_field True 8 (unat v) @ [newline]\<rparr>"
  have "writer_add (base_word m) v new_hex_writer = (Inr (), ?w)" by (simp add: writer_add_def new_hex_writer_def Let_def)
  moreover have "\<exists>w'. writer_add_words (base_word m + 1) vs ?w = (Inr (), w') \<and> w_text w' = w_text ?w @ text_of (map (printed_line True False) vs)"
    by (rule writer_rest) (use assms vs in auto)
  moreover have "printed_line True False v = hex_field True 8 (unat v)"
    "printed_line True True (base_word m) = CHR ''@'' # hex_field True 8 (unat (base_word m))" by (simp_all add: printed_line_def)
  ultimately show ?thesis by (auto simp: write_hex_def vs andThen_def result_of_def block_lines_def)
qed

lemma read_contiguous_printed:
  "read_contiguous_lines (\<lambda>v content. (Inr (), content @ [v])) (map (printed_line True False) vs) c = (Inr (), c @ vs)"
  by (induction vs arbitrary: c) (simp_all add: parse_printed_line andThen_def ret_def)

lemma stoul_hex_field:
  assumes "n < 2 ^ 32"
  shows "stoul_hex (hex_field True 8 n) = Inr (word_of_nat n)"
proof -
  let ?f = "hex_field True 8 n"
  have "n < 16 ^ Suc 7" using assms by simp
  from length_hex_field [OF this, of True] have len: "length ?f = 8" by simp
  have digits: "\<forall>c \<in> set ?f. is_xdigit c" using hex_field_digits by blast
  obtain c cs where c: "?f = c # cs" "is_xdigit c" using len digits by (cases ?f) auto
  have plain: "\<not> is_space c" "c \<noteq> CHR ''-''" "c \<noteq> CHR ''+''"
    using xdigit_plain(1) [OF c(2)] c(2) by (auto simp: is_xdigit_def hex_value_def)
  have all: "takeWhile is_xdigit ?f = ?f" using digits by simp
  have start: "dropWhile is_space ?f = ?f" "skip_sign ?f = (False, ?f)" "skip_hex_prefix ?f = ?f"
    using plain digits skip_prefix_digits [of ?f] by (simp_all add: c skip_sign_def)
  have "?f \<noteq> []" "is_xdigit (hd ?f)" using c by simp_all
  then show ?thesis using assms by (simp add: stoul_hex_def Let_def start all hex_number_field)
qed

text \<open>C12 A memory image that holds anything is what both readers make of the file it is written to: the one
  for files with a single block and the one for files with several. An image without words is written to an
  empty file, which both readers refuse.\<close>

theorem memory_image_round_trip:
  assumes "image_ok m"
  shows "\<exists>text. write_hex m = Inr text
    \<and> (m_content m \<noteq> [] \<longrightarrow> from_discontiguous_hex text = Inr m \<and> from_contiguous_hex text = Inr m)
    \<and> (m_content m = [] \<longrightarrow> from_discontiguous_hex text = Inl NoInitialLine \<and> from_contiguous_hex text = Inl EmptyMemoryFile)"
proof (cases "m_content m = []")
  case True
  then have "write_hex m = Inr []" by (simp add: write_hex_def ret_def result_of_def new_hex_writer_def)
  then show ?thesis using True
    by (simp add: from_discontiguous_hex_def read_discontiguous_hex_file_def throw_def result_of_def from_contiguous_hex_def)
next
  case False
  let ?bs = "[(base_word m, m_content m)]"
  define B where "B = unat (m_base m) div 4"
  have "unat (m_base m mod 4) = 0" using assms by (simp add: image_ok_def)
  then have "unat (m_base m) mod 4 = 0" by (simp add: unat_mod)
  then have m4: "unat (m_base m) = B * 4" unfolding B_def by presburger
  have len: "length (m_content m) \<le> (2 ^ 32 - 1 - unat (m_base m)) div 4 + 1" using assms by (simp add: image_ok_def)
  have bw: "unat (base_word m) = B" by (simp add: base_word_def unat_div m4)
  have "unat (m_base m) < 2 ^ 32" using unat_less_exp [of "m_base m"] by simp
  then have "B * 4 < 2 ^ 32" using m4 by simp
  then have room: "B + length (m_content m) \<le> 2 ^ 30" using len m4 by simp
  have base_eq: "base_word m * 4 = m_base m"
    using \<open>B * 4 < 2 ^ 32\<close> bw m4 by (simp add: word_unat_eq_iff unat_word_ariths)
  have written: "write_hex m = Inr (text_of (block_lines True (hd ?bs)))" using write_hex_lines [OF False] room bw by simp
  have "\<exists>r. read_blocks store_word 0 ?bs empty_memory = (Inr r, \<lparr>m_base = image_base ?bs * 4, m_content = image_from (unat (image_base ?bs)) ?bs\<rparr>)"
    by (rule read_blocks_image [of 0]) (use room bw in auto)
  then have "from_discontiguous_hex (text_of (block_lines True (hd ?bs))) = Inr m"
    using read_blocks_text [of ?bs store_word True] False base_eq
    by (auto simp: from_discontiguous_hex_def result_of_def)
  moreover have "from_contiguous_hex (text_of (block_lines True (hd ?bs))) = Inr m"
  proof -
    have lines: "stream_lines (text_of (block_lines True (hd ?bs))) = block_lines True (hd ?bs)"
      by (rule stream_lines_text_of) (use no_newline_in_blocks [of _ True ?bs] in simp)
    have "stoul_hex (hex_field True 8 B) = Inr (word_of_nat B)" using \<open>B * 4 < 2 ^ 32\<close> by (intro stoul_hex_field) simp
    moreover have "unat (word_of_nat B :: u64) = B" using \<open>B * 4 < 2 ^ 32\<close> by (simp add: unsigned_of_nat take_bit_nat_eq_self)
    moreover have "ucast (word_of_nat B :: u64) = base_word m"
      using \<open>B * 4 < 2 ^ 32\<close> by (simp add: word_unat_eq_iff bw unsigned_ucast_eq unsigned_of_nat take_bit_nat_eq_self)
    moreover have "image_ok \<lparr>m_base = m_base m, m_content = m_content m\<rparr>" using assms by (simp add: image_ok_def)
    moreover have "\<not> B > 2 ^ 30 - 1" "\<not> length (m_content m) > 2 ^ 30 - B" using room False by (cases "m_content m"; simp)+
    ultimately show ?thesis
      unfolding from_contiguous_hex_def lines using False
      by (simp add: block_lines_def printed_line_def [of True True] read_contiguous_hex_file_def read_contiguous_printed bw base_eq
          new_memory_def Let_def)
  qed
  ultimately show ?thesis using written False by simp
qed

definition sample_image :: memory_image where
  "sample_image = \<lparr>m_base = 0x5000, m_content = [7, 0xCAFE]\<rparr>"

theorem memory_image_round_trip_witness:
  "\<exists>text. write_hex sample_image = Inr text \<and> from_discontiguous_hex text = Inr sample_image
     \<and> from_contiguous_hex text = Inr sample_image"
proof -
  have "image_ok sample_image" by (simp add: image_ok_def sample_image_def)
  from memory_image_round_trip [OF this] show ?thesis by (auto simp: sample_image_def)
qed

section \<open>Notes on the readers\<close>

text \<open>The branch that allows an empty file is never taken: a first line that is empty ends with a newline.\<close>

lemma empty_first_line:
  assumes "stream_lines t = [] # ls"
  shows "newline \<in> set t"
proof (rule ccontr)
  assume none: "newline \<notin> set t"
  have "lines_from acc s = (if acc = [] \<and> s = [] then [] else [rev acc @ s])" if "newline \<notin> set s" for acc s
    using that by (induction s arbitrary: acc) auto
  from this [OF none, of "[]"] assms show False by (simp add: stream_lines_def split: if_splits)
qed

text \<open>An address equal to the capacity passes the check of the relative reader.\<close>

lemma relative_address_at_capacity:
  assumes "length (m_content m) \<le> capacity" and "unat addr = capacity"
  shows "store_relative capacity addr v m = (Inl HexUndefined, m)"
  using assms by (simp add: store_relative_def)

text \<open>The main core's image is read like any other.\<close>

lemma brisc_image: "from_discontiguous_risc_hex r BRISC = from_discontiguous_hex"
proof -
  have plain: "remap_word r BRISC a = a" for a by (simp add: remap_word_def Let_def)
  have "store_risc_word r BRISC = store_word"
    by (auto simp: fun_eq_iff store_risc_word_def store_word_def Let_def plain split: sum.splits)
  then show ?thesis by (intro ext) (simp add: from_discontiguous_risc_hex_def from_discontiguous_hex_def)
qed

end
