(* ===== verification/BlobSection.thy ===== *)
theory BlobSection
  imports HexRoundTrip
begin

text \<open>
  The sections of an overlay blob (\<open>src/src/blobgen2/lib/src/overlay_blob/blob_section.cpp\<close>): bytes with
  an address, written to a hex file that the loader reads
  (\<open>get_overlay_binary\<close> in \<open>src/loader/epoch_loader.cpp\<close>).
\<close>

text \<open>
  A failed assertion, undefined behaviour, an empty optional that is read, and a key that is not there.
\<close>

datatype blob_error = BlobAssert | BlobUndefined | BlobNoValue | BlobOutOfRange

record blob_section =
  bs_address :: u32
  bs_data :: "8 word list"
  bs_debug :: "string list"

definition new_blob_section :: "u32 \<Rightarrow> blob_section" where
  "new_blob_section address = \<lparr>bs_address = address, bs_data = [], bs_debug = []\<rparr>"

definition append_u8 :: "8 word \<Rightarrow> blob_section \<Rightarrow> blob_section" where
  "append_u8 byte s = s\<lparr>bs_data := bs_data s @ [byte]\<rparr>"

definition append_u16 :: "u16 \<Rightarrow> blob_section \<Rightarrow> blob_error + blob_section" where
  "append_u16 w s =
     (if length (bs_data s) mod 2 \<noteq> 0 then Inl BlobAssert
      else Inr (append_u8 (ucast (drop_bit 8 w)) (append_u8 (ucast (w AND 0xFF)) s)))"

definition append_u32 :: "u32 \<Rightarrow> blob_section \<Rightarrow> blob_error + blob_section" where
  "append_u32 d s =
     (if length (bs_data s) mod 4 \<noteq> 0 then Inl BlobAssert
      else bind_sum (append_u16 (ucast (d AND 0xFFFF)) s) (append_u16 (ucast (drop_bit 16 d))))"

text \<open>
  A \<open>tt_uint64_t\<close> is the pair of the members of its union in their order; on a little-endian machine the
  first, called \<open>hi\<close>, is the low half.
\<close>

definition append_u64 :: "u32 \<times> u32 \<Rightarrow> blob_section \<Rightarrow> blob_error + blob_section" where
  "append_u64 q s = bind_sum (append_u32 (fst q) s) (append_u32 (snd q))"

definition append_debug :: "string \<Rightarrow> blob_section \<Rightarrow> blob_section" where
  "append_debug note s =
     (let i = length (bs_data s) div 4;
          dbg = bs_debug s @ replicate (i + 1 - length (bs_debug s)) []
      in s\<lparr>bs_debug := dbg[i := CHR '' '' # note @ dbg ! i]\<rparr>)"

text \<open>The aligned size; the alignment of the network is that of the architecture.\<close>

definition get_noc_alignment_padding_bytes :: "u32 \<Rightarrow> u32 \<Rightarrow> u32" where
  "get_noc_alignment_padding_bytes alignment address = (address + alignment - 1) div alignment * alignment"

text \<open>The sizes are subtracted as numbers of 64 bits.\<close>

definition pad_to_noc_alignment :: "u32 \<Rightarrow> blob_section \<Rightarrow> blob_section" where
  "pad_to_noc_alignment alignment s =
     (let n = length (bs_data s);
          padding = unat (ucast (get_noc_alignment_padding_bytes alignment (word_of_nat n)) - word_of_nat n :: u64)
      in (((append_u8 0) \<circ> append_debug ''|(8b) padding'') ^^ padding) s)"

definition dw_size :: "blob_section \<Rightarrow> nat" where
  "dw_size s = length (bs_data s) div 4"

definition pop_bytes :: "nat \<Rightarrow> blob_section \<Rightarrow> blob_error + blob_section" where
  "pop_bytes n s =
     (if length (bs_data s) < n then Inl BlobUndefined
      else Inr (s\<lparr>bs_data := take (length (bs_data s) - n) (bs_data s)\<rparr>))"

definition dword_of :: "8 word \<Rightarrow> 8 word \<Rightarrow> 8 word \<Rightarrow> 8 word \<Rightarrow> u32" where
  "dword_of b0 b1 b2 b3 = ucast b0 OR push_bit 8 (ucast b1) OR push_bit 16 (ucast b2) OR push_bit 24 (ucast b3)"

definition get_dw_at :: "nat \<Rightarrow> blob_section \<Rightarrow> blob_error + u32" where
  "get_dw_at i s =
     (if \<not> i + 3 < length (bs_data s) then Inl BlobAssert
      else Inr (dword_of (bs_data s ! i) (bs_data s ! (i + 1)) (bs_data s ! (i + 2)) (bs_data s ! (i + 3))))"

definition merge_dword :: "blob_section \<Rightarrow> (u32 \<Rightarrow> u32) \<Rightarrow> nat \<Rightarrow> blob_section \<Rightarrow> blob_error + blob_section" where
  "merge_dword other f k s =
     bind_sum (get_dw_at (4 * k) other) (\<lambda>d.
     bind_sum (append_u32 (f d) s) (\<lambda>s1.
       Inr (if k < length (bs_debug other) then s1\<lparr>bs_debug := bs_debug s1 @ [bs_debug other ! k]\<rparr> else s1)))"

text \<open>The other section is left empty; without a map the words stay as they are.\<close>

definition merge_section :: "blob_section \<Rightarrow> (u32 \<Rightarrow> u32) option \<Rightarrow> blob_section \<Rightarrow> blob_error + blob_section \<times> blob_section" where
  "merge_section other f s =
     (let n = length (bs_data other);
          s1 = s\<lparr>bs_debug := bs_debug s @ replicate (length (bs_data s) div 4 - length (bs_debug s)) []\<rparr>
      in bind_sum (fold_sum (merge_dword other (case f of None \<Rightarrow> (\<lambda>d. d) | Some g \<Rightarrow> g)) [0..<(n + 3) div 4] s1)
           (\<lambda>s2. Inr (s2, other\<lparr>bs_data := [], bs_debug := []\<rparr>)))"

section \<open>The hex file\<close>

fun print_rows :: "bool \<Rightarrow> string list \<Rightarrow> 8 word list \<Rightarrow> string" where
  "print_rows dump dbg (b0 # b1 # b2 # b3 # bytes) =
     hex_field False 2 (unat b3) @ hex_field False 2 (unat b2) @ hex_field False 2 (unat b1) @ hex_field False 2 (unat b0)
     @ (if dump \<and> dbg \<noteq> [] \<and> hd dbg \<noteq> [] then hd dbg else []) @ newline # print_rows dump (tl dbg) bytes"
| "print_rows dump dbg _ = []"

definition print_out :: "bool \<Rightarrow> blob_section \<Rightarrow> blob_error + string" where
  "print_out dump s =
     (if length (bs_data s) mod 4 \<noteq> 0 then Inl BlobAssert
      else Inr (CHR ''@'' # hex_field False 8 (unat (drop_bit 2 (bs_address s))) @ newline # print_rows dump (bs_debug s) (bs_data s)))"

fun print_blob :: "bool \<Rightarrow> blob_section list \<Rightarrow> blob_error + string" where
  "print_blob dump [] = Inr []"
| "print_blob dump (s # ss) = bind_sum (print_out dump s) (\<lambda>t. bind_sum (print_blob dump ss) (\<lambda>u. Inr (t @ u)))"

section \<open>Scatter offsets\<close>

fun nat_text :: "nat \<Rightarrow> string" where
  "nat_text n = (if n < 10 then [char_of (48 + n)] else nat_text (n div 10) @ [char_of (48 + n mod 10)])"

declare nat_text.simps [simp del]

text \<open>Every append has a variant that first notes the width and the name of what is appended.\<close>

definition append_named ::
  "nat \<Rightarrow> string \<Rightarrow> (blob_section \<Rightarrow> blob_error + blob_section) \<Rightarrow> blob_section \<Rightarrow> blob_error + blob_section" where
  "append_named bits name add s = add (append_debug (''|('' @ nat_text bits @ ''b) '' @ name) s)"

definition offset_name :: "nat \<Rightarrow> string" where
  "offset_name i = ''scatter_offsets['' @ nat_text i @ '']''"

text \<open>With hardware tilizing only the first members are written; zeros fill the other half.\<close>

definition add_dram_io_scatter_offsets :: "u32 \<Rightarrow> (u32 \<times> u32) list \<Rightarrow> bool \<Rightarrow> blob_section \<Rightarrow> blob_error + blob_section" where
  "add_dram_io_scatter_offsets alignment offsets hw_tilize s =
     (let s0 = append_debug ''[DRAM_IO_SCATTER_OFFSETS]'' s in
      bind_sum (if hw_tilize
                then bind_sum (fold_sum (\<lambda>(i, q). append_named 32 (offset_name i @ ''.hi'') (append_u32 (fst q))) (enumerate 0 offsets) s0)
                       (fold_sum (\<lambda>q. append_named 32 ''non hw_tilize padding'' (append_u32 0)) offsets)
                else fold_sum (\<lambda>(i, q). append_named 64 (offset_name i) (append_u64 q)) (enumerate 0 offsets) s0) (\<lambda>s1.
        if length (bs_data s1) - length (bs_data s) \<noteq> 8 * length offsets then Inl BlobAssert
        else Inr (pad_to_noc_alignment alignment s1)))"

section \<open>Sections as words\<close>

fun words_of :: "8 word list \<Rightarrow> u32 list" where
  "words_of (b0 # b1 # b2 # b3 # bytes) = dword_of b0 b1 b2 b3 # words_of bytes"
| "words_of _ = []"

lemma unat_8: "unat (b :: 8 word) < 256"
  using unat_less_exp [of b] by simp

lemma unat_dword_of: "unat (dword_of b0 b1 b2 b3) = unat b0 + 256 * unat b1 + 65536 * unat b2 + 16777216 * unat b3"
proof -
  have "dword_of b0 b1 b2 b3 = ucast b0 + push_bit 8 (ucast b1) + push_bit 16 (ucast b2) + push_bit 24 (ucast b3)"
  proof -
    have 1: "push_bit 16 (ucast b2 :: u32) OR push_bit 24 (ucast b3) = push_bit 16 (ucast b2) + push_bit 24 (ucast b3)"
      by (rule disjunctive_add [symmetric]) (auto simp: bit_simps dest!: bit_imp_le_length)
    have 2: "push_bit 8 (ucast b1 :: u32) OR (push_bit 16 (ucast b2) OR push_bit 24 (ucast b3))
        = push_bit 8 (ucast b1) + (push_bit 16 (ucast b2) OR push_bit 24 (ucast b3))"
      by (rule disjunctive_add [symmetric]) (auto simp: bit_simps dest!: bit_imp_le_length)
    have 3: "(ucast b0 :: u32) OR (push_bit 8 (ucast b1) OR (push_bit 16 (ucast b2) OR push_bit 24 (ucast b3)))
        = ucast b0 + (push_bit 8 (ucast b1) OR (push_bit 16 (ucast b2) OR push_bit 24 (ucast b3)))"
      by (rule disjunctive_add [symmetric]) (auto simp: bit_simps dest!: bit_imp_le_length)
    show ?thesis unfolding dword_of_def by (subst 3, subst 2, subst 1) (simp only: add_ac)
  qed
  moreover have "unat (ucast b :: u32) = unat b" for b :: "8 word"
    using unat_8 [of b] by (simp add: unsigned_ucast_eq take_bit_nat_eq_self)
  ultimately show ?thesis
    using unat_8 [of b0] unat_8 [of b1] unat_8 [of b2] unat_8 [of b3]
    by (simp add: unat_word_ariths push_bit_eq_mult)
qed

section \<open>Rows are words\<close>

lemma hex_field_snoc: "hex_field upper (Suc (Suc k)) n = hex_field upper (Suc k) (n div 16) @ [hex_digit upper (n mod 16)]"
proof (cases "n < 16")
  case True
  have "hex_digit upper 0 = CHR ''0''" by (cases upper; code_simp)
  moreover have "hex_digits upper 0 = [hex_digit upper 0]" by (simp add: hex_digits.simps)
  ultimately show ?thesis using True by (simp add: hex_field_def hex_digits.simps [of upper n] replicate_append_same)
next
  case False
  then show ?thesis by (simp add: hex_field_def hex_digits.simps [of upper n])
qed

lemma hex_field_2: "n < 256 \<Longrightarrow> hex_field upper 2 n = [hex_digit upper (n div 16), hex_digit upper (n mod 16)]"
proof -
  assume "n < 256"
  then have "n div 16 < 16" by simp
  then have "hex_field upper (Suc 0) (n div 16) = [hex_digit upper (n div 16)]"
    by (simp add: hex_field_def hex_digits.simps [of upper "n div 16"])
  then show ?thesis using hex_field_snoc [of upper 0 n] by (simp add: numeral_2_eq_2)
qed

lemma hex_field_bytes:
  "hex_field upper (Suc (Suc (Suc k))) n = hex_field upper (Suc k) (n div 256) @ hex_field upper 2 (n mod 256)"
proof -
  have "n mod 256 = 16 * (n div 16 mod 16) + n mod 16" using mod_mult2_eq [of n 16 16] by simp
  then have "n div 16 mod 16 = n mod 256 div 16" "n mod 16 = n mod 256 mod 16" by simp_all
  moreover have "n div 16 div 16 = n div 256" by (simp add: div_mult2_eq [symmetric])
  ultimately show ?thesis using hex_field_2 [of "n mod 256" upper] by (simp add: hex_field_snoc)
qed

lemma hex_field_dword:
  "hex_field False 8 (unat (dword_of b0 b1 b2 b3)) = hex_field False 2 (unat b3) @ hex_field False 2 (unat b2)
     @ hex_field False 2 (unat b1) @ hex_field False 2 (unat b0)"
proof -
  let ?n = "unat (dword_of b0 b1 b2 b3)"
  have n: "?n = unat b0 + 256 * (unat b1 + 256 * (unat b2 + 256 * unat b3))" by (simp add: unat_dword_of)
  have step: "(b + 256 * m) div 256 = m" "(b + 256 * m) mod 256 = b" if "b < 256" for b m :: nat using that by simp_all
  have "hex_field False 8 m = hex_field False 6 (m div 256) @ hex_field False 2 (m mod 256)" for m
    using hex_field_bytes [of False 5 m] by simp
  moreover have "hex_field False 6 m = hex_field False 4 (m div 256) @ hex_field False 2 (m mod 256)" for m
    using hex_field_bytes [of False 3 m] by simp
  moreover have "hex_field False 4 m = hex_field False 2 (m div 256) @ hex_field False 2 (m mod 256)" for m
    using hex_field_bytes [of False 1 m, unfolded Suc_1] by simp
  ultimately have "hex_field False 8 m = hex_field False 2 (m div 256 div 256 div 256) @ hex_field False 2 (m div 256 div 256 mod 256)
      @ hex_field False 2 (m div 256 mod 256) @ hex_field False 2 (m mod 256)" for m by simp
  note this [of ?n]
  moreover have "?n mod 256 = unat b0" "?n div 256 mod 256 = unat b1" "?n div 256 div 256 mod 256 = unat b2"
      "?n div 256 div 256 div 256 = unat b3"
    unfolding n using unat_8 [of b0] unat_8 [of b1] unat_8 [of b2] by (simp_all only: step)
  ultimately show ?thesis by simp
qed

lemma print_rows_lines:
  "length bytes mod 4 = 0 \<Longrightarrow> print_rows False dbg bytes = text_of (map (printed_line False False) (words_of bytes))"
proof (induction bytes arbitrary: dbg rule: words_of.induct)
  case (1 b0 b1 b2 b3 bytes)
  then show ?case by (simp add: printed_line_def hex_field_dword)
qed auto

definition section_block :: "blob_section \<Rightarrow> block" where
  "section_block s = (drop_bit 2 (bs_address s), words_of (bs_data s))"

lemma print_out_lines:
  "length (bs_data s) mod 4 = 0 \<Longrightarrow> print_out False s = Inr (text_of (block_lines False (section_block s)))"
  by (simp add: print_out_def print_rows_lines block_lines_def section_block_def) (simp add: printed_line_def)

lemma print_blob_lines:
  "\<forall>s \<in> set ss. length (bs_data s) mod 4 = 0
     \<Longrightarrow> print_blob False ss = Inr (text_of (concat (map (block_lines False) (map section_block ss))))"
  by (induction ss) (simp_all add: print_out_lines)

text \<open>Without ascending blocks the reader stops.\<close>

definition filled_up_to :: "nat \<Rightarrow> memory_image \<Rightarrow> bool" where
  "filled_up_to cur m \<longleftrightarrow> m = empty_memory
     \<or> (m_content m \<noteq> [] \<and> (\<exists>B. unat (m_base m) = B * 4 \<and> B + length (m_content m) \<le> cur))"

lemma call_words_filled:
  assumes "filled_up_to (unat a) m" and "unat a + length ws \<le> 2 ^ 30"
  shows "\<exists>m'. call_words store_word a ws m = (Inr (), m') \<and> filled_up_to (unat a + length ws) m'"
proof (cases "ws = []")
  case True
  then show ?thesis using assms(1) by (auto simp: ret_def filled_up_to_def)
next
  case False
  then have "unat a < 2 ^ 30" using assms(2) by (cases ws) auto
  then have base: "unat (a * 4) = unat a * 4" by (simp add: unat_word_ariths)
  show ?thesis
  proof (cases "m = empty_memory")
    case True
    then show ?thesis using call_words_first [OF False assms(2)] base False by (auto simp: filled_up_to_def)
  next
    case m: False
    then obtain B where B: "m_content m \<noteq> []" "unat (m_base m) = B * 4" "B + length (m_content m) \<le> unat a"
      using assms(1) by (auto simp: filled_up_to_def)
    then have "filled_up_to (unat a + length ws) (m\<lparr>m_content := m_content m @ replicate (unat a - (B + length (m_content m))) 0 @ ws\<rparr>)"
      unfolding filled_up_to_def by (intro disjI2) (auto intro!: exI [of _ B])
    then show ?thesis using call_words_stored [OF B assms(2) False] by blast
  qed
qed

lemma read_blocks_backwards:
  assumes "\<not> ascending_blocks (unat a) bs" and "filled_up_to (unat a) m"
    and "\<forall>b \<in> set bs. unat (fst b) + length (snd b) \<le> 2 ^ 30"
  shows "\<exists>m'. read_blocks store_word a bs m = (Inl AddressGoesBackwards, m')"
  using assms
proof (induction bs arbitrary: a m)
  case (Cons b bs)
  let ?a = "unat (fst b)" and ?n = "length (snd b)"
  show ?case
  proof (cases "fst b < a")
    case True
    then show ?thesis by (simp add: throw_def)
  next
    case False
    then have le: "unat a \<le> ?a" by (simp add: word_less_nat_alt)
    have room: "?a + ?n \<le> 2 ^ 30" using Cons.prems(3) by simp
    then have a: "unat (fst b + word_of_nat ?n) = ?a + ?n"
      by (simp add: unat_word_ariths unsigned_of_nat take_bit_nat_eq_self)
    have "filled_up_to ?a m" using Cons.prems(2) le by (auto simp: filled_up_to_def)
    from call_words_filled [OF this room] obtain m' where
      m': "call_words store_word (fst b) (snd b) m = (Inr (), m')" "filled_up_to (?a + ?n) m'" by blast
    have "\<exists>m''. read_blocks store_word (fst b + word_of_nat ?n) bs m' = (Inl AddressGoesBackwards, m'')"
      by (rule Cons.IH) (use Cons.prems(1,3) m'(2) a le room in auto)
    then show ?thesis using False m'(1) by (simp add: andThen_def)
  qed
qed simp

section \<open>Appended words\<close>

definition dword_bytes :: "u32 \<Rightarrow> 8 word list" where
  "dword_bytes d = [ucast d, ucast (drop_bit 8 d), ucast (drop_bit 16 d), ucast (drop_bit 24 d)]"

lemma low_byte: "(w :: 'n::len word) AND 0xFF = take_bit 8 w" "(w :: 'n word) AND 0xFFFF = take_bit 16 w"
  by (simp_all add: take_bit_eq_mask mask_eq_exp_minus_1)

lemma append_u32_bytes:
  "append_u32 d s = (if length (bs_data s) mod 4 \<noteq> 0 then Inl BlobAssert else Inr (s\<lparr>bs_data := bs_data s @ dword_bytes d\<rparr>))"
proof (cases "length (bs_data s) mod 4 = 0")
  case True
  then have even: "length (bs_data s) mod 2 = 0" "(length (bs_data s) + 2) mod 2 = 0" by presburger+
  have "ucast (ucast (d AND 0xFFFF) AND 0xFF :: u16) = (ucast d :: 8 word)"
    "ucast (drop_bit 8 (ucast (d AND 0xFFFF) :: u16)) = (ucast (drop_bit 8 d) :: 8 word)"
    "ucast (ucast (drop_bit 16 d) AND 0xFF :: u16) = (ucast (drop_bit 16 d) :: 8 word)"
    "ucast (drop_bit 8 (ucast (drop_bit 16 d) :: u16)) = (ucast (drop_bit 24 d) :: 8 word)"
    unfolding low_byte by (rule bit_word_eqI; auto simp: bit_simps)+
  then show ?thesis using True even by (simp add: append_u32_def append_u16_def append_u8_def dword_bytes_def)
qed (simp add: append_u32_def)

lemma dword_of_bytes: "dword_of (ucast d) (ucast (drop_bit 8 d)) (ucast (drop_bit 16 d)) (ucast (drop_bit 24 d)) = d"
proof (rule bit_word_eqI)
  fix n assume n: "n < LENGTH(32)"
  consider "n < 8" | "8 \<le> n" "n < 16" | "16 \<le> n" "n < 24" | "24 \<le> n" by linarith
  then show "bit (dword_of (ucast d) (ucast (drop_bit 8 d)) (ucast (drop_bit 16 d)) (ucast (drop_bit 24 d))) n \<longleftrightarrow> bit d n"
    using n by cases (auto simp: dword_of_def bit_simps)
qed

lemma words_of_append:
  "length xs mod 4 = 0 \<Longrightarrow> words_of (xs @ ys) = words_of xs @ words_of ys"
  by (induction xs rule: words_of.induct) auto

lemma words_of_dword_bytes: "length xs mod 4 = 0 \<Longrightarrow> words_of (xs @ dword_bytes d) = words_of xs @ [d]"
  by (simp add: words_of_append) (simp add: dword_bytes_def dword_of_bytes)

lemma length_words_of: "length (words_of xs) = length xs div 4"
  by (induction xs rule: words_of.induct) auto

lemma get_dw_at_word:
  "length (bs_data s) mod 4 = 0 \<Longrightarrow> k < length (bs_data s) div 4 \<Longrightarrow> get_dw_at (4 * k) s = Inr (words_of (bs_data s) ! k)"
proof -
  have "words_of xs ! k = dword_of (xs ! (4 * k)) (xs ! (4 * k + 1)) (xs ! (4 * k + 2)) (xs ! (4 * k + 3))"
    if "k < length xs div 4" for xs
    using that
  proof (induction xs arbitrary: k rule: words_of.induct)
    case (1 b0 b1 b2 b3 bytes)
    show ?case
    proof (cases k)
      case 0
      then show ?thesis by simp
    next
      case (Suc j)
      then have "4 * k = Suc (Suc (Suc (Suc (4 * j))))" "j < length bytes div 4" using 1(2) by simp_all
      then show ?thesis using 1(1) [of j] Suc by (simp add: add.commute)
    qed
  qed auto
  moreover assume "length (bs_data s) mod 4 = 0" "k < length (bs_data s) div 4"
  moreover from this have "4 * k + 3 < length (bs_data s)" by presburger
  ultimately show ?thesis by (simp add: get_dw_at_def)
qed

text \<open>Merging two aligned sections appends the words of the other one, mapped, and empties it.\<close>

lemma merged_words:
  assumes "length (bs_data s) mod 4 = 0" and "length (bs_data other) mod 4 = 0"
  shows "\<exists>s'. merge_section other f s = Inr (s', other\<lparr>bs_data := [], bs_debug := []\<rparr>) \<and> bs_address s' = bs_address s
    \<and> length (bs_data s') mod 4 = 0
    \<and> words_of (bs_data s') = words_of (bs_data s) @ map (case f of None \<Rightarrow> (\<lambda>d. d) | Some g \<Rightarrow> g) (words_of (bs_data other))"
proof -
  let ?g = "case f of None \<Rightarrow> (\<lambda>d. d) | Some g \<Rightarrow> g" and ?n = "length (bs_data other) div 4"
  have merge: "\<exists>t'. fold_sum (merge_dword other ?g) [k..<?n] t = Inr t' \<and> bs_address t' = bs_address t \<and> length (bs_data t') mod 4 = 0
      \<and> words_of (bs_data t') = words_of (bs_data t) @ map ?g (drop k (words_of (bs_data other)))"
    if "length (bs_data t) mod 4 = 0" "k \<le> ?n" for k t
    using that(2,1)
  proof (induction k arbitrary: t rule: inc_induct)
    case base
    then show ?case by (simp add: length_words_of)
  next
    case (step k)
    let ?d = "?g (words_of (bs_data other) ! k)"
    let ?t = "t\<lparr>bs_data := bs_data t @ dword_bytes ?d\<rparr>"
    have "merge_dword other ?g k t = Inr (if k < length (bs_debug other) then ?t\<lparr>bs_debug := bs_debug ?t @ [bs_debug other ! k]\<rparr> else ?t)"
      (is "_ = Inr ?u")
      using step.hyps(2) step.prems assms(2) by (simp add: merge_dword_def get_dw_at_word append_u32_bytes)
    moreover have u: "bs_data ?u = bs_data t @ dword_bytes ?d" "bs_address ?u = bs_address t" by simp_all
    moreover have "length (bs_data ?u) mod 4 = 0" using step.prems by (simp add: dword_bytes_def)
    ultimately show ?case using step.IH [of ?u] step.hyps(2) step.prems
      by (auto simp: upt_conv_Cons words_of_dword_bytes Cons_nth_drop_Suc [symmetric] length_words_of)
  qed
  have "(length (bs_data other) + 3) div 4 = ?n" using assms(2) by presburger
  moreover obtain t where "fold_sum (merge_dword other ?g) [0..<?n]
      (s\<lparr>bs_debug := bs_debug s @ replicate (length (bs_data s) div 4 - length (bs_debug s)) []\<rparr>) = Inr t"
    "bs_address t = bs_address s" "length (bs_data t) mod 4 = 0" "words_of (bs_data t) = words_of (bs_data s) @ map ?g (words_of (bs_data other))"
    using merge [of "s\<lparr>bs_debug := bs_debug s @ replicate (length (bs_data s) div 4 - length (bs_debug s)) []\<rparr>" 0] assms(1) by auto
  ultimately show ?thesis by (simp add: merge_section_def Let_def)
qed

section \<open>The property\<close>

text \<open>C13 What the loader reads from the file of an overlay blob: the image that starts at the first section
  with words and holds the words of every section at its address, with zeros in between, when each section
  starts at or after the end of the one before; otherwise the file is refused.\<close>

theorem overlay_blob_round_trip:
  assumes "\<forall>s \<in> set sections. length (bs_data s) mod 4 = 0" and "sections \<noteq> []"
    and "\<forall>s \<in> set sections. unat (drop_bit 2 (bs_address s)) + length (bs_data s) div 4 \<le> 2 ^ 30"
  defines "bs \<equiv> map section_block sections"
  shows "\<exists>text. print_blob False sections = Inr text \<and> from_discontiguous_hex text =
    (if ascending_blocks 0 bs
     then Inr \<lparr>m_base = image_base bs * 4, m_content = image_from (unat (image_base bs)) bs\<rparr>
     else Inl AddressGoesBackwards)"
proof -
  let ?t = "text_of (concat (map (block_lines False) bs))"
  have written: "print_blob False sections = Inr ?t" using print_blob_lines [OF assms(1)] by (simp add: bs_def)
  have "bs \<noteq> []" using assms(2) by (simp add: bs_def)
  note reads = read_blocks_text [OF this, of store_word False]
  have "from_discontiguous_hex ?t = (if ascending_blocks 0 bs
     then Inr \<lparr>m_base = image_base bs * 4, m_content = image_from (unat (image_base bs)) bs\<rparr>
     else Inl AddressGoesBackwards)"
  proof (cases "ascending_blocks 0 bs")
    case True
    then show ?thesis using read_blocks_image [of 0 bs 0] reads by (auto simp: from_discontiguous_hex_def result_of_def)
  next
    case False
    have "\<forall>b \<in> set bs. unat (fst b) + length (snd b) \<le> 2 ^ 30"
      using assms(3) by (auto simp: bs_def section_block_def length_words_of)
    then show ?thesis using read_blocks_backwards [of 0 bs empty_memory] False reads
      by (auto simp: from_discontiguous_hex_def result_of_def filled_up_to_def)
  qed
  then show ?thesis using written by blast
qed

definition sample_sections :: "blob_section list" where
  "sample_sections =
     [\<lparr>bs_address = 0x100, bs_data = [1, 0, 0, 0, 2, 0, 0, 0], bs_debug = []\<rparr>,
      \<lparr>bs_address = 0x110, bs_data = [0, 0, 0, 3], bs_debug = []\<rparr>]"

theorem overlay_blob_round_trip_witness:
  "\<exists>text. print_blob False sample_sections = Inr text
     \<and> from_discontiguous_hex text = Inr \<lparr>m_base = 0x100, m_content = [1, 2, 0, 0, 0x3000000]\<rparr>"
proof -
  have ok: "\<forall>s \<in> set sample_sections. length (bs_data s) mod 4 = 0" "sample_sections \<noteq> []"
    "\<forall>s \<in> set sample_sections. unat (drop_bit 2 (bs_address s)) + length (bs_data s) div 4 \<le> 2 ^ 30"
    by (simp_all add: sample_sections_def)
  have "dword_of 1 0 0 0 = 1" "dword_of 2 0 0 0 = 2" "dword_of 0 0 0 3 = 0x3000000"
    by (simp_all add: dword_of_def)
  then have blocks: "map section_block sample_sections = [(0x40, [1, 2]), (0x44, [0x3000000])]"
    by (simp add: section_block_def sample_sections_def drop_bit_eq_div)
  have two: "replicate 2 x = [x, x]" for x :: u32 by (simp add: numeral_2_eq_2)
  have "ascending_blocks 0 [(0x40, [1, 2]), (0x44, [0x3000000])]" "image_base [(0x40, [1, 2]), (0x44, [0x3000000])] = 0x40"
    "image_from (unat (0x40 :: u32)) [(0x40, [1, 2]), (0x44, [0x3000000])] = [1, 2, 0, 0, 0x3000000]"
    by (simp_all add: two)
  with overlay_blob_round_trip [OF ok] show ?thesis unfolding blocks by simp
qed

end
