(* ===== verification/EpochStructs.thy ===== *)
theory EpochStructs
  imports BlobSection
begin

text \<open>
  The structures of an epoch that the firmware reads (\<open>src/src/firmware/riscv/common/epoch.h\<close>) and the
  functions of \<open>blob_section.cpp\<close> that write them member by member. The layout a C++ compiler gives a
  declared structure is defined here from the declaration; the members are proved to be written where it
  puts them.
\<close>

section \<open>The layout of a structure\<close>

text \<open>
  Under \<open>#pragma pack(4)\<close> no member is aligned to more than four bytes; \<open>alignas\<close> rounds the size of the
  structure. A pointer has four bytes; a \<open>tt_uint64_t\<close> is a union of a number and two halves.
\<close>

datatype c_type = C8 | C16 | C32 | C64 | CArray nat c_type

fun c_size :: "c_type \<Rightarrow> nat" where
  "c_size C8 = 1"
| "c_size C16 = 2"
| "c_size C32 = 4"
| "c_size C64 = 8"
| "c_size (CArray n t) = n * c_size t"

fun c_align :: "c_type \<Rightarrow> nat" where
  "c_align C8 = 1"
| "c_align C16 = 2"
| "c_align C32 = 4"
| "c_align C64 = 4"
| "c_align (CArray n t) = c_align t"

definition round_up :: "nat \<Rightarrow> nat \<Rightarrow> nat" where
  "round_up n a = (n + a - 1) div a * a"

fun c_offsets :: "nat \<Rightarrow> (string \<times> c_type) list \<Rightarrow> (string \<times> nat) list \<times> nat" where
  "c_offsets pos [] = ([], pos)"
| "c_offsets pos ((name, t) # ms) =
     (let off = round_up pos (c_align t); (offs, end_pos) = c_offsets (off + c_size t) ms in ((name, off) # offs, end_pos))"

definition c_sizeof :: "nat \<Rightarrow> (string \<times> c_type) list \<Rightarrow> nat" where
  "c_sizeof alignment ms = round_up (snd (c_offsets 0 ms)) alignment"

definition offset_of :: "(string \<times> c_type) list \<Rightarrow> string \<Rightarrow> nat option" where
  "offset_of ms name = map_of (fst (c_offsets 0 ms)) name"

section \<open>Appending members\<close>

text \<open>A value with the width that selects the overload of \<open>append\<close>; arrays are appended by element.\<close>

datatype cell = V8 "8 word" | V16 u16 | V32 u32 | V64 "u32 \<times> u32"

datatype field = Single string cell | Array string "cell list" | Array2 string "cell list list"

definition append_cell :: "string \<Rightarrow> cell \<Rightarrow> blob_section \<Rightarrow> blob_error + blob_section" where
  "append_cell name c s =
     (case c of V8 b \<Rightarrow> append_named 8 name (\<lambda>s. Inr (append_u8 b s)) s | V16 w \<Rightarrow> append_named 16 name (append_u16 w) s
      | V32 d \<Rightarrow> append_named 32 name (append_u32 d) s | V64 q \<Rightarrow> append_named 64 name (append_u64 q) s)"

definition element_name :: "string \<Rightarrow> nat \<Rightarrow> string" where
  "element_name name i = name @ ''['' @ nat_text i @ '']''"

definition append_array :: "string \<Rightarrow> cell list \<Rightarrow> blob_section \<Rightarrow> blob_error + blob_section" where
  "append_array name cs = fold_sum (\<lambda>(i, c). append_cell (element_name name i) c) (enumerate 0 cs)"

definition append_field :: "field \<Rightarrow> blob_section \<Rightarrow> blob_error + blob_section" where
  "append_field f =
     (case f of Single name c \<Rightarrow> append_cell name c | Array name cs \<Rightarrow> append_array name cs
      | Array2 name css \<Rightarrow> fold_sum (\<lambda>(i, cs). append_array (element_name name i) cs) (enumerate 0 css))"

text \<open>What every function that adds a structure does: a note, the members, and the check of the size.\<close>

definition check_added :: "nat \<Rightarrow> nat \<Rightarrow> blob_section \<Rightarrow> blob_error + blob_section" where
  "check_added before expected s = (if length (bs_data s) - before \<noteq> expected then Inl BlobAssert else Inr s)"

section \<open>The structures\<close>

text \<open>
  The members in the order of their declaration. Members that share a union of their size are one member
  here.
\<close>

record epoch_stream_info_t =
  si_stream_id :: u16
  si_producer_epoch_id :: u16
  si_epoch_start_phase :: u16
  si_datacopy_stream_type :: "8 word"
  si_datacopy_stream_id :: "8 word"
  si_epoch_num_tiles :: u32
  si_tile_size_words :: u32
  si_buf_size_tiles :: u32
  si_buf_full_size_bytes :: u32
  si_buf_base_addr :: u32
  si_num_msgs_in_block :: u16
  si_start_phase_num_cfg_regs :: "8 word"
  si_packer_operand :: "8 word"
  si_msg_info_buf_start :: u32
  si_blob_start_addr :: u32
  si_blob_size :: u32
  si_num_iters_in_epoch :: u32
  si_epoch_iters_remaining :: u32
  si_num_scatter_inner_loop :: u32
  si_legacy_pack :: "8 word"
  si_eth_remote_fw_stream_id :: "8 word"
  si_num_mblock_buffering :: u16
  si_flags :: u32
  si_stride :: u16
  si_total_strides :: u16
  si_stride_offset_size_bytes :: u32
  si_skip_col_bytes :: u32
  si_skip_col_tile_row_bytes :: u32
  si_skip_col_row_bytes :: u32
  si_skip_zcol_bytes :: u32
  si_skip_col_zrow_bytes :: u32
  si_c_dim_size :: u16
  si_r_dim_size :: u16
  si_zc_dim_size :: u16
  si_zr_dim_size :: u16
  si_unused0_fw :: u32
  si_unused1_fw :: u32
  si_unused2_fw :: u32
  si_unused3_fw :: u32
  si_unused4_fw :: u32
  si_unused5_fw :: u32
  si_unused6_fw :: u32
  si_unused7_fw :: u32
  si_untilize_copy_iters :: "8 word"
  si_log_2x_untilize_copy_iters :: "8 word"
  si_num_dram_io_bufs :: u16
  si_dram_io_info :: u32
  si_num_fork_streams :: u16
  si_scatter_order_size :: u16
  si_fork_idxs :: "(8 word) list"

record epoch_t =
  ep_num_inputs :: u32
  ep_num_outputs :: u32
  ep_num_active_streams :: u32
  ep_epoch_valid :: "8 word"
  ep_all_streams_ready :: "8 word"
  ep_all_streams_and_kernels_done :: "8 word"
  ep_end_program :: "8 word"
  ep_num_tile_sizes :: u32
  ep_tile_size_words :: "u32 list"
  ep_tile_size_header_buf_addr :: "u32 list"
  ep_inputs :: "u32 list"
  ep_outputs :: "u32 list"
  ep_active_streams :: "u32 list"
  ep_perf_dram_copy_req :: "u32 list"
  ep_perf_dram_copy_ack :: "u32 list"
  ep_perf_dram_addr :: "(u32 \<times> u32) list"
  ep_perf_req_max :: "u16 list"
  ep_unused1 :: "u16 list"
  ep_extra_dram_q_state_addr :: u32
  ep_ublock_rt :: u16
  ep_ublock_ct :: u16
  ep_mblock_m :: u16
  ep_mblock_n :: u16
  ep_mblock_k :: u16
  ep_has_eth_stream_trans :: "8 word"
  ep_has_packer_mcast_opt :: "8 word"
  ep_overlay_valid :: u16
  ep_skip_kernels :: u16
  ep_epoch_id :: u32
  ep_tile_clear_blob_words :: "u32 list list"
  ep_padding :: "(8 word) list"
  ep_dummy_phase_tile_header_and_data :: "u32 list"
  ep_overlay_blob_extra_size :: u32

record epoch_stream_dram_io_info_t =
  di_dram_q_slot_size_bytes :: u32
  di_input_noc :: "8 word"
  di_output_noc :: "8 word"
  di_dram_output_no_push :: "8 word"
  di_has_multi_readers :: "8 word"
  di_scatter_list_stream_id :: u16
  di_scatter_list_indicies_per_tile :: u16
  di_scatter_list_indicies_per_input :: u32
  di_dram_embeddings_row_shift :: u32
  di_epoch_q_slots_remaining :: u32
  di_dram_embeddings_row_tiles :: u16
  di_dram_writes_with_cmd_buf :: "8 word"
  di_hw_tilize :: "8 word"
  di_dram_io_state :: u32

record dram_io_state_t =
  rd_dram_rdptr :: u16
  rd_grd_ptr_autoinc :: u16
  rd_dram_wrptr :: u16
  rd_gwr_ptr_autoinc :: u16
  rd_dram_local_rdptr :: u16
  rd_epoch_id_tag :: u16
  rd_stride :: u16
  rd_flags :: u16
  rd_lrd_ptr_autoinc :: u16
  rd_unused0 :: u16
  rd_queue_update_stride :: u16
  rd_unused1 :: u16
  rd_streaming_epoch_id :: u32
  rd_streaming_tag :: u32
  wr_dram_rdptr :: u16
  wr_grd_ptr_autoinc :: u16
  wr_dram_wrptr :: u16
  wr_gwr_ptr_autoinc :: u16
  wr_dram_local_rdptr :: u16
  wr_epoch_id_tag :: u16
  wr_stride :: u16
  wr_flags :: u16
  wr_streaming_header_addr :: "u32 \<times> u32"
  wr_data_chunk_size_bytes :: u32
  wr_data_chunk_size_tiles :: u16
  wr_dram_padding :: "8 word"
  lc_dram_buf_size_bytes :: u32
  lc_dram_buf_size_q_slots :: u32
  lc_dram_buf_addr :: "u32 \<times> u32"
  lc_dram_q_slot_size_tiles :: u32
  lc_reader_index :: "8 word"
  lc_total_readers :: "8 word"
  lc_dram_decoupled :: "8 word"
  lc_stride_wrap :: "8 word"
  lc_dram_io_scatter_state :: u32
  lc_next :: u32

record dram_io_scatter_state_t =
  ss_unused1 :: u32
  ss_scatter_offsets_size :: u32
  ss_scatter_chunk_size_bytes :: u32
  ss_q_slot_size_bytes :: u32
  ss_scatter_chunk_size_tiles :: u32
  ss_unused2 :: u32
  ss_unused3 :: u32
  ss_scatter_offsets :: u32

record scatter_pipe_state_t =
  ps_curr_unroll :: u32
  ps_max_unroll :: u32
  ps_unused0 :: u32
  ps_unroll_blobs :: u32

record scatter_pipe_blob_t =
  pb_scatter_blob_base_addr :: u32
  pb_start_scatter_blob_num_cfg_regs :: u32

section \<open>New structures\<close>

text \<open>What the allocator makes: every member zero.\<close>

definition zero_epoch :: "nat \<Rightarrow> epoch_t" where
  "zero_epoch alignment =
     \<lparr>ep_num_inputs = 0, ep_num_outputs = 0, ep_num_active_streams = 0, ep_epoch_valid = 0,
      ep_all_streams_ready = 0, ep_all_streams_and_kernels_done = 0, ep_end_program = 0, ep_num_tile_sizes = 0,
      ep_tile_size_words = replicate 8 0, ep_tile_size_header_buf_addr = replicate 8 0,
      ep_inputs = replicate 24 0, ep_outputs = replicate 24 0, ep_active_streams = replicate 64 0,
      ep_perf_dram_copy_req = replicate 5 0, ep_perf_dram_copy_ack = replicate 5 0,
      ep_perf_dram_addr = replicate 5 (0, 0), ep_perf_req_max = replicate 5 0, ep_unused1 = replicate 5 0,
      ep_extra_dram_q_state_addr = 0, ep_ublock_rt = 0, ep_ublock_ct = 0, ep_mblock_m = 0, ep_mblock_n = 0,
      ep_mblock_k = 0, ep_has_eth_stream_trans = 0, ep_has_packer_mcast_opt = 0, ep_overlay_valid = 0,
      ep_skip_kernels = 0, ep_epoch_id = 0, ep_tile_clear_blob_words = replicate 16 (replicate 6 0),
      ep_padding = replicate (alignment - 32) 0, ep_dummy_phase_tile_header_and_data = replicate 3 0, ep_overlay_blob_extra_size = 0\<rparr>"

definition zero_stream_info :: epoch_stream_info_t where
  "zero_stream_info =
     \<lparr>si_stream_id = 0, si_producer_epoch_id = 0, si_epoch_start_phase = 0, si_datacopy_stream_type = 0,
      si_datacopy_stream_id = 0, si_epoch_num_tiles = 0, si_tile_size_words = 0, si_buf_size_tiles = 0,
      si_buf_full_size_bytes = 0, si_buf_base_addr = 0, si_num_msgs_in_block = 0,
      si_start_phase_num_cfg_regs = 0, si_packer_operand = 0, si_msg_info_buf_start = 0, si_blob_start_addr = 0,
      si_blob_size = 0, si_num_iters_in_epoch = 0, si_epoch_iters_remaining = 0, si_num_scatter_inner_loop = 0,
      si_legacy_pack = 0, si_eth_remote_fw_stream_id = 0, si_num_mblock_buffering = 0, si_flags = 0,
      si_stride = 0, si_total_strides = 0, si_stride_offset_size_bytes = 0, si_skip_col_bytes = 0,
      si_skip_col_tile_row_bytes = 0, si_skip_col_row_bytes = 0, si_skip_zcol_bytes = 0,
      si_skip_col_zrow_bytes = 0, si_c_dim_size = 0, si_r_dim_size = 0, si_zc_dim_size = 0, si_zr_dim_size = 0,
      si_unused0_fw = 0, si_unused1_fw = 0, si_unused2_fw = 0, si_unused3_fw = 0, si_unused4_fw = 0,
      si_unused5_fw = 0, si_unused6_fw = 0, si_unused7_fw = 0, si_untilize_copy_iters = 0,
      si_log_2x_untilize_copy_iters = 0, si_num_dram_io_bufs = 0, si_dram_io_info = 0, si_num_fork_streams = 0,
      si_scatter_order_size = 0, si_fork_idxs = replicate 16 0\<rparr>"

definition zero_dram_io_info :: epoch_stream_dram_io_info_t where
  "zero_dram_io_info =
     \<lparr>di_dram_q_slot_size_bytes = 0, di_input_noc = 0, di_output_noc = 0, di_dram_output_no_push = 0,
      di_has_multi_readers = 0, di_scatter_list_stream_id = 0, di_scatter_list_indicies_per_tile = 0,
      di_scatter_list_indicies_per_input = 0, di_dram_embeddings_row_shift = 0, di_epoch_q_slots_remaining = 0,
      di_dram_embeddings_row_tiles = 0, di_dram_writes_with_cmd_buf = 0, di_hw_tilize = 0, di_dram_io_state = 0\<rparr>"

definition zero_dram_io_state :: dram_io_state_t where
  "zero_dram_io_state =
     \<lparr>rd_dram_rdptr = 0, rd_grd_ptr_autoinc = 0, rd_dram_wrptr = 0, rd_gwr_ptr_autoinc = 0,
      rd_dram_local_rdptr = 0, rd_epoch_id_tag = 0, rd_stride = 0, rd_flags = 0, rd_lrd_ptr_autoinc = 0,
      rd_unused0 = 0, rd_queue_update_stride = 0, rd_unused1 = 0, rd_streaming_epoch_id = 0,
      rd_streaming_tag = 0, wr_dram_rdptr = 0, wr_grd_ptr_autoinc = 0, wr_dram_wrptr = 0,
      wr_gwr_ptr_autoinc = 0, wr_dram_local_rdptr = 0, wr_epoch_id_tag = 0, wr_stride = 0, wr_flags = 0,
      wr_streaming_header_addr = (0, 0), wr_data_chunk_size_bytes = 0, wr_data_chunk_size_tiles = 0,
      wr_dram_padding = 0, lc_dram_buf_size_bytes = 0, lc_dram_buf_size_q_slots = 0, lc_dram_buf_addr = (0, 0),
      lc_dram_q_slot_size_tiles = 0, lc_reader_index = 0, lc_total_readers = 0, lc_dram_decoupled = 0,
      lc_stride_wrap = 0, lc_dram_io_scatter_state = 0, lc_next = 0\<rparr>"

definition zero_scatter_state :: dram_io_scatter_state_t where
  "zero_scatter_state =
     \<lparr>ss_unused1 = 0, ss_scatter_offsets_size = 0, ss_scatter_chunk_size_bytes = 0, ss_q_slot_size_bytes = 0,
      ss_scatter_chunk_size_tiles = 0, ss_unused2 = 0, ss_unused3 = 0, ss_scatter_offsets = 0\<rparr>"

section \<open>Declarations\<close>

definition epoch_stream_info_decl :: "(string \<times> c_type) list" where
  "epoch_stream_info_decl =
     [(''stream_id'', C16), (''producer_epoch_id'', C16), (''epoch_start_phase'', C16),
      (''datacopy_stream_type'', C8), (''datacopy_stream_id'', C8), (''epoch_num_tiles'', C32),
      (''tile_size_words'', C32), (''buf_size_tiles'', C32), (''buf_full_size_bytes'', C32),
      (''buf_base_addr'', C32), (''num_msgs_in_block'', C16), (''start_phase_num_cfg_regs'', C8),
      (''packer_operand'', C8), (''msg_info_buf_start'', C32), (''blob_start_addr'', C32), (''blob_size'', C32),
      (''num_iters_in_epoch'', C32), (''epoch_iters_remaining'', C32), (''num_scatter_inner_loop'', C32),
      (''legacy_pack'', C8), (''eth_remote_fw_stream_id'', C8), (''num_mblock_buffering'', C16),
      (''flags'', C32), (''stride'', C16), (''total_strides'', C16), (''stride_offset_size_bytes'', C32),
      (''(skip_col_bytes || pipe_scatter_output_loop_size)'', C32),
      (''(skip_col_tile_row_bytes || scatter_pipe_state)'', C32), (''(skip_col_row_bytes || scatter_idx)'', C32),
      (''(skip_zcol_bytes || pipe_scatter_output_loop_count)'', C32),
      (''(skip_col_zrow_bytes || num_iter_tiles)'', C32), (''c_dim_size'', C16), (''r_dim_size'', C16),
      (''zc_dim_size'', C16), (''zr_dim_size'', C16), (''unused0_fw'', C32), (''unused1_fw'', C32),
      (''unused2_fw'', C32), (''unused3_fw'', C32), (''unused4_fw'', C32), (''unused5_fw'', C32),
      (''unused6_fw'', C32), (''unused7_fw'', C32), (''untilize_copy_iters'', C8),
      (''log_2x_untilize_copy_iters'', C8), (''num_dram_io_bufs'', C16), (''dram_io_info'', C32),
      (''num_fork_streams'', C16), (''scatter_order_size'', C16), (''fork_idxs'', CArray 16 C8)]"

definition epoch_decl :: "nat \<Rightarrow> (string \<times> c_type) list" where
  "epoch_decl alignment =
     [(''num_inputs'', C32), (''num_outputs'', C32), (''num_active_streams'', C32), (''epoch_valid'', C8),
      (''all_streams_ready'', C8), (''all_streams_and_kernels_done'', C8), (''end_program'', C8),
      (''num_tile_sizes'', C32), (''tile_size_words'', CArray 8 C32),
      (''tile_size_header_buf_addr'', CArray 8 C32), (''inputs'', CArray 24 C32), (''outputs'', CArray 24 C32),
      (''active_streams'', CArray 64 C32), (''perf_dram_copy_req'', CArray 5 C32),
      (''perf_dram_copy_ack'', CArray 5 C32), (''perf_dram_addr'', CArray 5 C64),
      (''perf_req_max'', CArray 5 C16), (''unused1'', CArray 5 C16), (''extra_dram_q_state_addr'', C32),
      (''ublock_rt'', C16), (''ublock_ct'', C16), (''mblock_m'', C16), (''mblock_n'', C16), (''mblock_k'', C16),
      (''has_eth_stream_trans'', C8), (''has_packer_mcast_opt'', C8), (''overlay_valid'', C16),
      (''skip_kernels'', C16), (''epoch_id'', C32), (''tile_clear_blob.blob_words'', CArray 16 (CArray 6 C32))]
      @ (if alignment > 32 then [(''padding'', CArray (alignment - 32) C8)] else [])
      @ [(''dummy_phase_tile_header_and_data'', CArray 3 C32),
      (''overlay_blob_extra_size'', C32)]"

definition epoch_stream_dram_io_info_decl :: "(string \<times> c_type) list" where
  "epoch_stream_dram_io_info_decl =
     [(''dram_q_slot_size_bytes'', C32), (''input_noc'', C8), (''output_noc'', C8),
      (''dram_output_no_push'', C8), (''has_multi_readers'', C8), (''scatter_list_stream_id'', C16),
      (''(scatter_list_indicies_per_tile || c_dim_loop_num_rows)'', C16),
      (''(scatter_list_indicies_per_input || tilize_row_col_offset)'', C32),
      (''dram_embeddings_row_shift'', C32), (''epoch_q_slots_remaining'', C32),
      (''dram_embeddings_row_tiles'', C16), (''dram_writes_with_cmd_buf'', C8), (''hw_tilize'', C8),
      (''dram_io_state'', C32)]"

definition dram_to_l1_decl :: "(string \<times> c_type) list" where
  "dram_to_l1_decl =
     [(''dram_to_l1.rd_dram_rdptr'', C16), (''dram_to_l1.rd_grd_ptr_autoinc'', C16),
      (''dram_to_l1.rd_dram_wrptr'', C16), (''dram_to_l1.rd_gwr_ptr_autoinc'', C16),
      (''dram_to_l1.rd_dram_local_rdptr'', C16), (''dram_to_l1.rd_epoch_id_tag'', C16),
      (''dram_to_l1.rd_stride'', C16), (''dram_to_l1.rd_flags'', C16), (''dram_to_l1.rd_lrd_ptr_autoinc'', C16),
      (''dram_to_l1.unused0'', C16), (''dram_to_l1.rd_queue_update_stride'', C16), (''dram_to_l1.unused1'', C16),
      (''dram_to_l1.dram_streaming_epoch_id'', C32), (''dram_to_l1.dram_streaming_tag'', C32)]"

definition l1_to_dram_decl :: "(string \<times> c_type) list" where
  "l1_to_dram_decl =
     [(''l1_to_dram.wr_dram_rdptr'', C16), (''l1_to_dram.wr_grd_ptr_autoinc'', C16),
      (''l1_to_dram.wr_dram_wrptr'', C16), (''l1_to_dram.wr_gwr_ptr_autoinc'', C16),
      (''l1_to_dram.wr_dram_local_rdptr'', C16), (''l1_to_dram.wr_epoch_id_tag'', C16),
      (''l1_to_dram.wr_stride'', C16), (''l1_to_dram.wr_flags'', C16),
      (''l1_to_dram.(wr_lrd_ptr_autoinc | unused2 | wr_queue_update_stride | unused3 || dram_streaming_header_addr)'', C64),
      (''l1_to_dram.data_chunk_size_bytes'', C32), (''l1_to_dram.data_chunk_size_tiles'', C16),
      (''l1_to_dram.dram_padding'', C8)]"

definition dram_local_decl :: "(string \<times> c_type) list" where
  "dram_local_decl =
     [(''local.dram_buf_size_bytes'', C32), (''local.dram_buf_size_q_slots'', C32),
      (''local.dram_buf_addr'', C64), (''local.dram_q_slot_size_tiles'', C32), (''local.reader_index'', C8),
      (''local.total_readers'', C8), (''local.dram_decoupled'', C8), (''local.stride_wrap'', C8),
      (''local.dram_io_scatter_state'', C32), (''local.next'', C32)]"

definition dram_io_scatter_state_decl :: "(string \<times> c_type) list" where
  "dram_io_scatter_state_decl =
     [(''unused1'', C32), (''scatter_offsets_size'', C32), (''scatter_chunk_size_bytes'', C32),
      (''q_slot_size_bytes'', C32), (''scatter_chunk_size_tiles'', C32), (''unused2'', C32), (''unused3'', C32),
      (''scatter_offsets'', C32)]"

definition sizeof_dram_io_state :: "nat \<Rightarrow> nat" where
  "sizeof_dram_io_state alignment =
     c_sizeof alignment dram_to_l1_decl + c_sizeof alignment l1_to_dram_decl + c_sizeof alignment dram_local_decl"

section \<open>Adding a structure\<close>

definition epoch_stream_info_fields :: "epoch_stream_info_t \<Rightarrow> field list" where
  "epoch_stream_info_fields e =
     [Single ''stream_id'' (V16 (si_stream_id e)), Single ''producer_epoch_id'' (V16 (si_producer_epoch_id e)),
      Single ''epoch_start_phase'' (V16 (si_epoch_start_phase e)),
      Single ''datacopy_stream_type'' (V8 (si_datacopy_stream_type e)),
      Single ''datacopy_stream_id'' (V8 (si_datacopy_stream_id e)),
      Single ''epoch_num_tiles'' (V32 (si_epoch_num_tiles e)),
      Single ''tile_size_words'' (V32 (si_tile_size_words e)),
      Single ''buf_size_tiles'' (V32 (si_buf_size_tiles e)),
      Single ''buf_full_size_bytes'' (V32 (si_buf_full_size_bytes e)),
      Single ''buf_base_addr'' (V32 (si_buf_base_addr e)),
      Single ''num_msgs_in_block'' (V16 (si_num_msgs_in_block e)),
      Single ''start_phase_num_cfg_regs'' (V8 (si_start_phase_num_cfg_regs e)),
      Single ''packer_operand'' (V8 (si_packer_operand e)),
      Single ''msg_info_buf_start'' (V32 (si_msg_info_buf_start e)),
      Single ''blob_start_addr'' (V32 (si_blob_start_addr e)), Single ''blob_size'' (V32 (si_blob_size e)),
      Single ''num_iters_in_epoch'' (V32 (si_num_iters_in_epoch e)),
      Single ''epoch_iters_remaining'' (V32 (si_epoch_iters_remaining e)),
      Single ''num_scatter_inner_loop'' (V32 (si_num_scatter_inner_loop e)),
      Single ''legacy_pack'' (V8 (si_legacy_pack e)),
      Single ''eth_remote_fw_stream_id'' (V8 (si_eth_remote_fw_stream_id e)),
      Single ''num_mblock_buffering'' (V16 (si_num_mblock_buffering e)), Single ''flags'' (V32 (si_flags e)),
      Single ''stride'' (V16 (si_stride e)), Single ''total_strides'' (V16 (si_total_strides e)),
      Single ''stride_offset_size_bytes'' (V32 (si_stride_offset_size_bytes e)),
      Single ''(skip_col_bytes || pipe_scatter_output_loop_size)'' (V32 (si_skip_col_bytes e)),
      Single ''(skip_col_tile_row_bytes || scatter_pipe_state)'' (V32 (si_skip_col_tile_row_bytes e)),
      Single ''(skip_col_row_bytes || scatter_idx)'' (V32 (si_skip_col_row_bytes e)),
      Single ''(skip_zcol_bytes || pipe_scatter_output_loop_count)'' (V32 (si_skip_zcol_bytes e)),
      Single ''(skip_col_zrow_bytes || num_iter_tiles)'' (V32 (si_skip_col_zrow_bytes e)),
      Single ''c_dim_size'' (V16 (si_c_dim_size e)), Single ''r_dim_size'' (V16 (si_r_dim_size e)),
      Single ''zc_dim_size'' (V16 (si_zc_dim_size e)), Single ''zr_dim_size'' (V16 (si_zr_dim_size e)),
      Single ''unused0_fw'' (V32 (si_unused0_fw e)), Single ''unused1_fw'' (V32 (si_unused1_fw e)),
      Single ''unused2_fw'' (V32 (si_unused2_fw e)), Single ''unused3_fw'' (V32 (si_unused3_fw e)),
      Single ''unused4_fw'' (V32 (si_unused4_fw e)), Single ''unused5_fw'' (V32 (si_unused5_fw e)),
      Single ''unused6_fw'' (V32 (si_unused6_fw e)), Single ''unused7_fw'' (V32 (si_unused7_fw e)),
      Single ''untilize_copy_iters'' (V8 (si_untilize_copy_iters e)),
      Single ''log_2x_untilize_copy_iters'' (V8 (si_log_2x_untilize_copy_iters e)),
      Single ''num_dram_io_bufs'' (V16 (si_num_dram_io_bufs e)),
      Single ''dram_io_info'' (V32 (si_dram_io_info e)),
      Single ''num_fork_streams'' (V16 (si_num_fork_streams e)),
      Single ''scatter_order_size'' (V16 (si_scatter_order_size e)), Array ''fork_idxs'' (map V8 (si_fork_idxs e))]"

definition epoch_fields :: "nat \<Rightarrow> epoch_t \<Rightarrow> field list" where
  "epoch_fields alignment e =
     [Single ''num_inputs'' (V32 (ep_num_inputs e)), Single ''num_outputs'' (V32 (ep_num_outputs e)),
      Single ''num_active_streams'' (V32 (ep_num_active_streams e)),
      Single ''epoch_valid'' (V8 (ep_epoch_valid e)), Single ''all_streams_ready'' (V8 (ep_all_streams_ready e)),
      Single ''all_streams_and_kernels_done'' (V8 (ep_all_streams_and_kernels_done e)),
      Single ''end_program'' (V8 (ep_end_program e)), Single ''num_tile_sizes'' (V32 (ep_num_tile_sizes e)),
      Array ''tile_size_words'' (map V32 (ep_tile_size_words e)),
      Array ''tile_size_header_buf_addr'' (map V32 (ep_tile_size_header_buf_addr e)),
      Array ''inputs'' (map V32 (ep_inputs e)), Array ''outputs'' (map V32 (ep_outputs e)),
      Array ''active_streams'' (map V32 (ep_active_streams e)),
      Array ''perf_dram_copy_req'' (map V32 (ep_perf_dram_copy_req e)),
      Array ''perf_dram_copy_ack'' (map V32 (ep_perf_dram_copy_ack e)),
      Array ''perf_dram_addr'' (map V64 (ep_perf_dram_addr e)),
      Array ''perf_req_max'' (map V16 (ep_perf_req_max e)), Array ''unused1'' (map V16 (ep_unused1 e)),
      Single ''extra_dram_q_state_addr'' (V32 (ep_extra_dram_q_state_addr e)),
      Single ''ublock_rt'' (V16 (ep_ublock_rt e)), Single ''ublock_ct'' (V16 (ep_ublock_ct e)),
      Single ''mblock_m'' (V16 (ep_mblock_m e)), Single ''mblock_n'' (V16 (ep_mblock_n e)),
      Single ''mblock_k'' (V16 (ep_mblock_k e)),
      Single ''has_eth_stream_trans'' (V8 (ep_has_eth_stream_trans e)),
      Single ''has_packer_mcast_opt'' (V8 (ep_has_packer_mcast_opt e)),
      Single ''overlay_valid'' (V16 (ep_overlay_valid e)), Single ''skip_kernels'' (V16 (ep_skip_kernels e)),
      Single ''epoch_id'' (V32 (ep_epoch_id e)),
      Array2 ''tile_clear_blob.blob_words'' (map (map V32) (ep_tile_clear_blob_words e))]
      @ (if alignment > 32 then [Array ''padding'' (map V8 (ep_padding e))] else [])
      @ [Array ''dummy_phase_tile_header_and_data'' (map V32 (ep_dummy_phase_tile_header_and_data e)),
      Single ''overlay_blob_extra_size'' (V32 (ep_overlay_blob_extra_size e))]"

definition epoch_stream_dram_io_info_fields :: "epoch_stream_dram_io_info_t \<Rightarrow> field list" where
  "epoch_stream_dram_io_info_fields e =
     [Single ''dram_q_slot_size_bytes'' (V32 (di_dram_q_slot_size_bytes e)),
      Single ''input_noc'' (V8 (di_input_noc e)), Single ''output_noc'' (V8 (di_output_noc e)),
      Single ''dram_output_no_push'' (V8 (di_dram_output_no_push e)),
      Single ''has_multi_readers'' (V8 (di_has_multi_readers e)),
      Single ''scatter_list_stream_id'' (V16 (di_scatter_list_stream_id e)),
      Single ''(scatter_list_indicies_per_tile || c_dim_loop_num_rows)'' (V16 (di_scatter_list_indicies_per_tile e)),
      Single ''(scatter_list_indicies_per_input || tilize_row_col_offset)'' (V32 (di_scatter_list_indicies_per_input e)),
      Single ''dram_embeddings_row_shift'' (V32 (di_dram_embeddings_row_shift e)),
      Single ''epoch_q_slots_remaining'' (V32 (di_epoch_q_slots_remaining e)),
      Single ''dram_embeddings_row_tiles'' (V16 (di_dram_embeddings_row_tiles e)),
      Single ''dram_writes_with_cmd_buf'' (V8 (di_dram_writes_with_cmd_buf e)),
      Single ''hw_tilize'' (V8 (di_hw_tilize e)), Single ''dram_io_state'' (V32 (di_dram_io_state e))]"

definition dram_to_l1_fields :: "dram_io_state_t \<Rightarrow> field list" where
  "dram_to_l1_fields e =
     [Single ''dram_to_l1.rd_dram_rdptr'' (V16 (rd_dram_rdptr e)),
      Single ''dram_to_l1.rd_grd_ptr_autoinc'' (V16 (rd_grd_ptr_autoinc e)),
      Single ''dram_to_l1.rd_dram_wrptr'' (V16 (rd_dram_wrptr e)),
      Single ''dram_to_l1.rd_gwr_ptr_autoinc'' (V16 (rd_gwr_ptr_autoinc e)),
      Single ''dram_to_l1.rd_dram_local_rdptr'' (V16 (rd_dram_local_rdptr e)),
      Single ''dram_to_l1.rd_epoch_id_tag'' (V16 (rd_epoch_id_tag e)),
      Single ''dram_to_l1.rd_stride'' (V16 (rd_stride e)), Single ''dram_to_l1.rd_flags'' (V16 (rd_flags e)),
      Single ''dram_to_l1.rd_lrd_ptr_autoinc'' (V16 (rd_lrd_ptr_autoinc e)),
      Single ''dram_to_l1.unused0'' (V16 (rd_unused0 e)),
      Single ''dram_to_l1.rd_queue_update_stride'' (V16 (rd_queue_update_stride e)),
      Single ''dram_to_l1.unused1'' (V16 (rd_unused1 e)),
      Single ''dram_to_l1.dram_streaming_epoch_id'' (V32 (rd_streaming_epoch_id e)),
      Single ''dram_to_l1.dram_streaming_tag'' (V32 (rd_streaming_tag e))]"

definition l1_to_dram_fields :: "dram_io_state_t \<Rightarrow> field list" where
  "l1_to_dram_fields e =
     [Single ''l1_to_dram.wr_dram_rdptr'' (V16 (wr_dram_rdptr e)),
      Single ''l1_to_dram.wr_grd_ptr_autoinc'' (V16 (wr_grd_ptr_autoinc e)),
      Single ''l1_to_dram.wr_dram_wrptr'' (V16 (wr_dram_wrptr e)),
      Single ''l1_to_dram.wr_gwr_ptr_autoinc'' (V16 (wr_gwr_ptr_autoinc e)),
      Single ''l1_to_dram.wr_dram_local_rdptr'' (V16 (wr_dram_local_rdptr e)),
      Single ''l1_to_dram.wr_epoch_id_tag'' (V16 (wr_epoch_id_tag e)),
      Single ''l1_to_dram.wr_stride'' (V16 (wr_stride e)), Single ''l1_to_dram.wr_flags'' (V16 (wr_flags e)),
      Single ''l1_to_dram.(wr_lrd_ptr_autoinc | unused2 | wr_queue_update_stride | unused3 || dram_streaming_header_addr)'' (V64 (wr_streaming_header_addr e)),
      Single ''l1_to_dram.data_chunk_size_bytes'' (V32 (wr_data_chunk_size_bytes e)),
      Single ''l1_to_dram.data_chunk_size_tiles'' (V16 (wr_data_chunk_size_tiles e)),
      Single ''l1_to_dram.dram_padding'' (V8 (wr_dram_padding e))]"

definition dram_local_fields :: "dram_io_state_t \<Rightarrow> field list" where
  "dram_local_fields e =
     [Single ''local.dram_buf_size_bytes'' (V32 (lc_dram_buf_size_bytes e)),
      Single ''local.dram_buf_size_q_slots'' (V32 (lc_dram_buf_size_q_slots e)),
      Single ''local.dram_buf_addr'' (V64 (lc_dram_buf_addr e)),
      Single ''local.dram_q_slot_size_tiles'' (V32 (lc_dram_q_slot_size_tiles e)),
      Single ''local.reader_index'' (V8 (lc_reader_index e)),
      Single ''local.total_readers'' (V8 (lc_total_readers e)),
      Single ''local.dram_decoupled'' (V8 (lc_dram_decoupled e)),
      Single ''local.stride_wrap'' (V8 (lc_stride_wrap e)),
      Single ''local.dram_io_scatter_state'' (V32 (lc_dram_io_scatter_state e)),
      Single ''local.next'' (V32 (lc_next e))]"

definition dram_io_scatter_state_fields :: "dram_io_scatter_state_t \<Rightarrow> field list" where
  "dram_io_scatter_state_fields e =
     [Single ''unused1'' (V32 (ss_unused1 e)), Single ''scatter_offsets_size'' (V32 (ss_scatter_offsets_size e)),
      Single ''scatter_chunk_size_bytes'' (V32 (ss_scatter_chunk_size_bytes e)),
      Single ''q_slot_size_bytes'' (V32 (ss_q_slot_size_bytes e)),
      Single ''scatter_chunk_size_tiles'' (V32 (ss_scatter_chunk_size_tiles e)),
      Single ''unused2'' (V32 (ss_unused2 e)), Single ''unused3'' (V32 (ss_unused3 e)),
      Single ''scatter_offsets'' (V32 (ss_scatter_offsets e))]"

definition add_epoch_t :: "u32 \<Rightarrow> epoch_t \<Rightarrow> blob_section \<Rightarrow> blob_error + blob_section" where
  "add_epoch_t alignment e s =
     bind_sum (fold_sum append_field (epoch_fields (unat alignment) e) (append_debug ''[EPOCH_T]'' s))
       (check_added (length (bs_data s)) (c_sizeof (unat alignment) (epoch_decl (unat alignment))))"

definition add_epoch_stream_info_t :: "u32 \<Rightarrow> epoch_stream_info_t \<Rightarrow> blob_section \<Rightarrow> blob_error + blob_section" where
  "add_epoch_stream_info_t alignment e s =
     bind_sum (fold_sum append_field (epoch_stream_info_fields e) (append_debug ''[EPOCH_STREAM_INFO_T]'' s)) (\<lambda>s1.
       check_added (length (bs_data s)) (c_sizeof (unat alignment) epoch_stream_info_decl) (pad_to_noc_alignment alignment s1))"

definition add_epoch_stream_dram_io_info_t ::
  "u32 \<Rightarrow> epoch_stream_dram_io_info_t \<Rightarrow> blob_section \<Rightarrow> blob_error + blob_section" where
  "add_epoch_stream_dram_io_info_t alignment e s =
     bind_sum (fold_sum append_field (epoch_stream_dram_io_info_fields e) (append_debug ''[EPOCH_STREAM_DRAM_IO_INFO_T]'' s)) (\<lambda>s1.
       check_added (length (bs_data s)) (c_sizeof (unat alignment) epoch_stream_dram_io_info_decl) (pad_to_noc_alignment alignment s1))"

definition add_dram_io_state_t :: "u32 \<Rightarrow> dram_io_state_t \<Rightarrow> blob_section \<Rightarrow> blob_error + blob_section" where
  "add_dram_io_state_t alignment e s =
     bind_sum (fold_sum append_field (dram_to_l1_fields e) (append_debug ''[DRAM_IO_STATE_T]'' s)) (\<lambda>s1.
     bind_sum (fold_sum append_field (l1_to_dram_fields e) (pad_to_noc_alignment alignment s1)) (\<lambda>s2.
     bind_sum (fold_sum append_field (dram_local_fields e) (pad_to_noc_alignment alignment s2)) (\<lambda>s3.
       check_added (length (bs_data s)) (sizeof_dram_io_state (unat alignment)) (pad_to_noc_alignment alignment s3))))"

definition add_dram_io_scatter_state_t :: "u32 \<Rightarrow> dram_io_scatter_state_t \<Rightarrow> blob_section \<Rightarrow> blob_error + blob_section" where
  "add_dram_io_scatter_state_t alignment e s =
     bind_sum (fold_sum append_field (dram_io_scatter_state_fields e) (append_debug ''[DRAM_IO_SCATTER_STATE_T]'' s)) (\<lambda>s1.
       check_added (length (bs_data s)) (c_sizeof (unat alignment) dram_io_scatter_state_decl) (pad_to_noc_alignment alignment s1))"

definition scatter_pipe_state_fields :: "nat \<Rightarrow> scatter_pipe_state_t \<Rightarrow> field list" where
  "scatter_pipe_state_fields i e =
     map (\<lambda>(name, d). Single (element_name ''scatter_pipe_state'' i @ name) (V32 d))
       [(''.curr_unroll'', ps_curr_unroll e), (''.max_unroll'', ps_max_unroll e), (''.unused0'', ps_unused0 e),
        (''.unroll_blobs'', ps_unroll_blobs e)]"

definition add_scatter_pipe_states :: "scatter_pipe_state_t list \<Rightarrow> blob_section \<Rightarrow> blob_error + blob_section" where
  "add_scatter_pipe_states es s =
     bind_sum (fold_sum (\<lambda>(i, e). fold_sum append_field (scatter_pipe_state_fields i e)) (enumerate 0 es)
                (append_debug ''[SCATTER_PIPE_STATES]'' s))
       (check_added (length (bs_data s)) (16 * length es))"

definition scatter_pipe_blob_fields :: "nat \<Rightarrow> scatter_pipe_blob_t \<Rightarrow> field list" where
  "scatter_pipe_blob_fields i e =
     map (\<lambda>(name, d). Single (element_name ''scatter_pipe_blob'' i @ name) (V32 d))
       [(''.scatter_blob_base_addr'', pb_scatter_blob_base_addr e),
        (''.start_scatter_blob_num_cfg_regs'', pb_start_scatter_blob_num_cfg_regs e)]"

definition add_scatter_pipe_blobs :: "scatter_pipe_blob_t list \<Rightarrow> blob_section \<Rightarrow> blob_error + blob_section" where
  "add_scatter_pipe_blobs es s =
     fold_sum (\<lambda>(i, e). fold_sum append_field (scatter_pipe_blob_fields i e)) (enumerate 0 es)
       (append_debug ''[SCATTER_PIPE_BLOBS]'' s)"

end
