(* ===== verification/EpochLayout.thy ===== *)
theory EpochLayout
  imports EpochStructs
begin

text \<open>
  The bytes that the functions of \<open>EpochStructs\<close> append are the structures as a compiler lays them out:
  every member at the offset of its declaration, the size that of the structure, no assertion failing.
\<close>

section \<open>Bytes of members\<close>

definition word_bytes :: "u16 \<Rightarrow> 8 word list" where
  "word_bytes w = [ucast w, ucast (drop_bit 8 w)]"

fun cell_bytes :: "cell \<Rightarrow> 8 word list" where
  "cell_bytes (V8 b) = [b]"
| "cell_bytes (V16 w) = word_bytes w"
| "cell_bytes (V32 d) = dword_bytes d"
| "cell_bytes (V64 q) = dword_bytes (fst q) @ dword_bytes (snd q)"

fun cell_type :: "cell \<Rightarrow> c_type" where
  "cell_type (V8 b) = C8"
| "cell_type (V16 w) = C16"
| "cell_type (V32 d) = C32"
| "cell_type (V64 q) = C64"

fun field_cells :: "field \<Rightarrow> cell list" where
  "field_cells (Single name c) = [c]"
| "field_cells (Array name cs) = cs"
| "field_cells (Array2 name css) = concat css"

fun field_name :: "field \<Rightarrow> string" where
  "field_name (Single name c) = name"
| "field_name (Array name cs) = name"
| "field_name (Array2 name css) = name"

definition cells_bytes :: "cell list \<Rightarrow> 8 word list" where
  "cells_bytes cs = concat (map cell_bytes cs)"

definition struct_bytes :: "field list \<Rightarrow> 8 word list" where
  "struct_bytes fs = cells_bytes (concat (map field_cells fs))"

text \<open>The fields a structure is written from have the declared names and types, in the declared order.\<close>

fun field_has_type :: "string \<times> c_type \<Rightarrow> field \<Rightarrow> bool" where
  "field_has_type (n, t) (Single m c) \<longleftrightarrow> n = m \<and> cell_type c = t"
| "field_has_type (n, t) (Array m cs) \<longleftrightarrow> n = m \<and> (\<exists>u. t = CArray (length cs) u \<and> (\<forall>c \<in> set cs. cell_type c = u))"
| "field_has_type (n, t) (Array2 m css) \<longleftrightarrow> n = m \<and>
     (\<exists>k u. t = CArray (length css) (CArray k u) \<and> (\<forall>cs \<in> set css. length cs = k \<and> (\<forall>c \<in> set cs. cell_type c = u)))"

text \<open>The members follow each other without gaps.\<close>

fun packed_at :: "nat \<Rightarrow> (string \<times> c_type) list \<Rightarrow> bool" where
  "packed_at pos [] \<longleftrightarrow> True"
| "packed_at pos ((n, t) # ms) \<longleftrightarrow> pos mod c_align t = 0 \<and> packed_at (pos + c_size t) ms"

lemma length_word_bytes [simp]: "length (word_bytes w) = 2"
  by (simp add: word_bytes_def)

lemma length_dword_bytes [simp]: "length (dword_bytes d) = 4"
  by (simp add: dword_bytes_def)

lemma length_cell_bytes [simp]: "length (cell_bytes c) = c_size (cell_type c)"
  by (cases c) simp_all

lemma cells_bytes_simps [simp]:
  "cells_bytes [] = []" "cells_bytes (c # cs) = cell_bytes c @ cells_bytes cs" "cells_bytes (xs @ ys) = cells_bytes xs @ cells_bytes ys"
  by (simp_all add: cells_bytes_def)

lemma struct_bytes_simps [simp]:
  "struct_bytes [] = []" "struct_bytes (f # fs) = cells_bytes (field_cells f) @ struct_bytes fs"
  by (simp_all add: struct_bytes_def)

lemma length_cells_bytes: "(\<And>c. c \<in> set cs \<Longrightarrow> cell_type c = t) \<Longrightarrow> length (cells_bytes cs) = length cs * c_size t"
  by (induction cs) auto

lemma length_arrays_bytes:
  "\<forall>cs \<in> set css. length cs = k \<and> (\<forall>c \<in> set cs. cell_type c = u) \<Longrightarrow>
     length (cells_bytes (concat css)) = length css * (k * c_size u)"
proof (induction css)
  case (Cons cs css)
  then have "length cs = k" "\<And>c. c \<in> set cs \<Longrightarrow> cell_type c = u" by auto
  then have "length (cells_bytes cs) = k * c_size u" using length_cells_bytes [of cs u] by simp
  moreover have "length (cells_bytes (concat css)) = length css * (k * c_size u)" using Cons by simp
  ultimately show ?case by simp
qed simp

lemma length_field_bytes: "field_has_type (n, t) f \<Longrightarrow> length (cells_bytes (field_cells f)) = c_size t"
  by (cases f) (auto simp: length_cells_bytes length_arrays_bytes)

lemma c_align_cases: "c_align t = 1 \<or> c_align t = 2 \<or> c_align t = 4"
  by (induction t) auto

lemma c_align_divides: "c_size t mod c_align t = 0"
proof (induction t)
  case (CArray n t)
  then show ?case by (metis c_align.simps(5) c_size.simps(5) mod_mult_right_eq mult_0_right mod_0)
qed auto

section \<open>Appending\<close>

lemma append_debug_data [simp]: "bs_data (append_debug note s) = bs_data s" "bs_address (append_debug note s) = bs_address s"
  by (simp_all add: append_debug_def Let_def)

text \<open>What an append does to a section, whatever notes it leaves.\<close>

definition appends :: "8 word list \<Rightarrow> blob_section \<Rightarrow> blob_error + blob_section \<Rightarrow> bool" where
  "appends bytes s r \<longleftrightarrow> (\<exists>s'. r = Inr s' \<and> bs_address s' = bs_address s \<and> bs_data s' = bs_data s @ bytes)"

lemma appends_bind:
  assumes "appends xs s r" and "\<And>s'. bs_address s' = bs_address s \<Longrightarrow> bs_data s' = bs_data s @ xs \<Longrightarrow> appends ys s' (f s')"
  shows "appends (xs @ ys) s (bind_sum r f)"
  using assms unfolding appends_def by fastforce

lemma appends_Nil: "appends [] s (Inr s)"
  by (simp add: appends_def)

lemma append_cell_appends:
  assumes "length (bs_data s) mod c_align (cell_type c) = 0"
  shows "appends (cell_bytes c) s (append_cell name c s)"
proof -
  have bytes: "ucast (w AND 0xFF) = (ucast w :: 8 word)" for w :: u16
    unfolding low_byte by (rule bit_word_eqI) (auto simp: bit_simps)
  show ?thesis
  proof (cases c)
    case (V8 b)
    then show ?thesis by (simp add: append_cell_def append_named_def append_u8_def appends_def)
  next
    case (V16 w)
    then show ?thesis using assms
      by (simp add: append_cell_def append_named_def append_u16_def append_u8_def appends_def word_bytes_def bytes)
  next
    case (V32 d)
    then show ?thesis using assms by (simp add: append_cell_def append_named_def append_u32_bytes appends_def)
  next
    case (V64 q)
    then show ?thesis using assms
      by (simp add: append_cell_def append_named_def append_u64_def append_u32_bytes appends_def)
  qed
qed

lemma append_array_appends:
  assumes "\<forall>c \<in> set cs. cell_type c = t" and "length (bs_data s) mod c_align t = 0"
  shows "appends (cells_bytes cs) s (fold_sum (\<lambda>(i, c). append_cell (element_name name i) c) (enumerate n cs) s)"
  using assms
proof (induction cs arbitrary: s n)
  case Nil
  then show ?case by (simp add: appends_Nil)
next
  case (Cons c cs)
  have "appends (cell_bytes c) s (append_cell (element_name name n) c s)"
    using Cons.prems by (intro append_cell_appends) simp
  then show ?case unfolding enumerate_simps fold_sum.simps cells_bytes_simps prod.case
  proof (rule appends_bind)
    fix s' :: blob_section assume s': "bs_data s' = bs_data s @ cell_bytes c"
    have "c_size t mod c_align t = 0" by (rule c_align_divides)
    then have "length (bs_data s') mod c_align t = 0" using s' Cons.prems by (simp add: mod_add_eq [symmetric])
    then show "appends (cells_bytes cs) s' (fold_sum (\<lambda>(i, c). append_cell (element_name name i) c) (enumerate (Suc n) cs) s')"
      using Cons by simp
  qed
qed

lemma append_arrays_appends:
  assumes "\<forall>cs \<in> set css. length cs = k \<and> (\<forall>c \<in> set cs. cell_type c = t)" and "length (bs_data s) mod c_align t = 0"
  shows "appends (cells_bytes (concat css)) s
    (fold_sum (\<lambda>(i, cs). append_array (element_name name i) cs) (enumerate n css) s)"
  using assms
proof (induction css arbitrary: s n)
  case Nil
  then show ?case by (simp add: appends_Nil)
next
  case (Cons cs css)
  have "appends (cells_bytes cs) s (append_array (element_name name n) cs s)"
    unfolding append_array_def using Cons.prems by (intro append_array_appends) auto
  then show ?case unfolding enumerate_simps fold_sum.simps concat.simps cells_bytes_simps prod.case
  proof (rule appends_bind)
    fix s' :: blob_section assume s': "bs_data s' = bs_data s @ cells_bytes cs"
    have "length (cells_bytes cs) = length cs * c_size t" using Cons.prems(1) by (intro length_cells_bytes) auto
    moreover have "length cs * c_size t mod c_align t = 0"
      using c_align_divides [of t] by (metis mod_mult_right_eq mult_0_right mod_0)
    ultimately have "length (bs_data s') mod c_align t = 0" using s' Cons.prems by (simp add: mod_add_eq [symmetric])
    then show "appends (cells_bytes (concat css)) s' (fold_sum (\<lambda>(i, cs). append_array (element_name name i) cs) (enumerate (Suc n) css) s')"
      using Cons by simp
  qed
qed

lemma append_field_appends:
  assumes "field_has_type (n, t) f" and "length (bs_data s) mod c_align t = 0"
  shows "appends (cells_bytes (field_cells f)) s (append_field f s)"
proof (cases f)
  case (Single m c)
  then show ?thesis using assms append_cell_appends [of s c m] by (simp add: append_field_def)
next
  case (Array m cs)
  then obtain u where "t = CArray (length cs) u" "\<forall>c \<in> set cs. cell_type c = u" using assms(1) by auto
  then show ?thesis using Array assms(2) append_array_appends [of cs u s m 0] by (simp add: append_field_def append_array_def)
next
  case (Array2 m css)
  then obtain k u where "t = CArray (length css) (CArray k u)" "\<forall>cs \<in> set css. length cs = k \<and> (\<forall>c \<in> set cs. cell_type c = u)"
    using assms(1) by auto
  then show ?thesis using Array2 assms(2) append_arrays_appends [of css k u s m 0] by (simp add: append_field_def)
qed

lemma packed_at_mod: "pos mod 4 = q mod 4 \<Longrightarrow> packed_at pos ms \<longleftrightarrow> packed_at q ms"
proof (induction ms arbitrary: pos q)
  case (Cons m ms)
  obtain n t where m: "m = (n, t)" by (cases m)
  have "pos mod c_align t = q mod c_align t"
  proof -
    have "c_align t dvd 4" using c_align_cases [of t] by auto
    then show ?thesis using Cons.prems by (metis mod_mod_cancel)
  qed
  moreover have "(pos + c_size t) mod 4 = (q + c_size t) mod 4" using Cons.prems by (rule mod_add_cong) simp
  ultimately show ?case using Cons.IH [of "pos + c_size t" "q + c_size t"] m by simp
qed simp

lemma append_fields_appends:
  assumes "list_all2 field_has_type ms fs" and "packed_at (length (bs_data s)) ms"
  shows "appends (struct_bytes fs) s (fold_sum append_field fs s)"
  using assms
proof (induction ms fs arbitrary: s rule: list_all2_induct)
  case Nil
  then show ?case by (simp add: appends_Nil)
next
  case (Cons m ms f fs)
  obtain n t where m: "m = (n, t)" by (cases m)
  have "appends (cells_bytes (field_cells f)) s (append_field f s)"
    using Cons.hyps(1) Cons.prems m by (intro append_field_appends) auto
  then show ?case unfolding fold_sum.simps struct_bytes_simps
  proof (rule appends_bind)
    fix s' :: blob_section assume "bs_data s' = bs_data s @ cells_bytes (field_cells f)"
    then have "packed_at (length (bs_data s')) ms" using Cons m length_field_bytes by auto
    then show "appends (struct_bytes fs) s' (fold_sum append_field fs s')" by (rule Cons.IH)
  qed
qed

section \<open>Offsets\<close>

text \<open>A structure at a position: every member is found at the offset of its declaration.\<close>

definition holds_struct :: "8 word list \<Rightarrow> nat \<Rightarrow> (string \<times> c_type) list \<Rightarrow> field list \<Rightarrow> bool" where
  "holds_struct bytes pos decl fs \<longleftrightarrow>
     (\<forall>f \<in> set fs. \<exists>off. offset_of decl (field_name f) = Some off
        \<and> take (length (cells_bytes (field_cells f))) (drop (pos + off) bytes) = cells_bytes (field_cells f))"

lemma round_up_aligned: "n mod a = 0 \<Longrightarrow> 0 < a \<Longrightarrow> round_up n a = n"
proof -
  assume a: "n mod a = 0" "0 < a"
  then obtain k where n: "n = k * a" by (metis dvd_def mod_0_imp_dvd mult.commute)
  have "k * a + a - 1 = (a - 1) + k * a" using a(2) by simp
  then have "(k * a + a - 1) div a = k" using a(2) by (simp only: div_mult_self1) simp
  then show ?thesis by (simp add: round_up_def n)
qed

lemma round_up_le: "0 < a \<Longrightarrow> n \<le> round_up n a \<and> round_up n a < n + a"
proof -
  assume "0 < a"
  have "(n + a - 1) mod a < a" using \<open>0 < a\<close> by simp
  moreover have "(n + a - 1) div a * a + (n + a - 1) mod a = n + a - 1" by simp
  ultimately show ?thesis using \<open>0 < a\<close> unfolding round_up_def by linarith
qed

lemma round_up_mod: "round_up n a mod a = 0"
  by (simp add: round_up_def)

lemma names_of_fields: "list_all2 field_has_type ms fs \<Longrightarrow> map field_name fs = map fst ms"
proof (induction ms fs rule: list_all2_induct)
  case (Cons m ms f fs)
  then show ?case by (cases m; cases f) auto
qed simp

lemma c_offsets_packed:
  assumes "packed_at pos ms" and "list_all2 field_has_type ms fs"
  shows "snd (c_offsets pos ms) = pos + length (struct_bytes fs)"
    and "distinct (map fst ms) \<Longrightarrow> f \<in> set fs \<Longrightarrow>
      \<exists>off. map_of (fst (c_offsets pos ms)) (field_name f) = Some (pos + off)
        \<and> take (length (cells_bytes (field_cells f))) (drop off (struct_bytes fs)) = cells_bytes (field_cells f)"
proof -
  have "snd (c_offsets pos ms) = pos + length (struct_bytes fs) \<and> (distinct (map fst ms) \<longrightarrow> (\<forall>f \<in> set fs.
      \<exists>off. map_of (fst (c_offsets pos ms)) (field_name f) = Some (pos + off)
        \<and> take (length (cells_bytes (field_cells f))) (drop off (struct_bytes fs)) = cells_bytes (field_cells f)))"
    using assms(2,1)
  proof (induction ms fs arbitrary: pos rule: list_all2_induct)
    case Nil
    then show ?case by simp
  next
    case (Cons m ms f fs)
    obtain n t where m: "m = (n, t)" by (cases m)
    have len: "length (cells_bytes (field_cells f)) = c_size t" using Cons.hyps(1) unfolding m by (rule length_field_bytes)
    have name: "field_name f = n" using Cons.hyps(1) unfolding m by (cases f) auto
    have pos: "round_up pos (c_align t) = pos"
    proof (rule round_up_aligned)
      show "pos mod c_align t = 0" using Cons.prems m by simp
      show "0 < c_align t" using c_align_cases [of t] by linarith
    qed
    have IH: "snd (c_offsets (pos + c_size t) ms) = pos + c_size t + length (struct_bytes fs)"
      "distinct (map fst ms) \<Longrightarrow> g \<in> set fs \<Longrightarrow>
        \<exists>off. map_of (fst (c_offsets (pos + c_size t) ms)) (field_name g) = Some (pos + c_size t + off)
          \<and> take (length (cells_bytes (field_cells g))) (drop off (struct_bytes fs)) = cells_bytes (field_cells g)" for g
      using Cons.IH [of "pos + c_size t"] Cons.prems m by simp_all
    have names: "field_name g \<in> fst ` set ms" if "g \<in> set fs" for g
      using that names_of_fields [OF Cons.hyps(2)] by (metis image_eqI list.set_map)
    show ?case
    proof (intro conjI impI ballI)
      show "snd (c_offsets pos (m # ms)) = pos + length (struct_bytes (f # fs))"
        using IH(1) by (simp add: m pos Let_def len case_prod_beta)
      fix g assume d: "distinct (map fst (m # ms))" and g: "g \<in> set (f # fs)"
      show "\<exists>off. map_of (fst (c_offsets pos (m # ms))) (field_name g) = Some (pos + off)
          \<and> take (length (cells_bytes (field_cells g))) (drop off (struct_bytes (f # fs))) = cells_bytes (field_cells g)"
      proof (cases "field_name g = n")
        case True
        then have "g = f" using g d m names by auto
        then show ?thesis using True by (intro exI [of _ 0]) (simp add: m pos Let_def case_prod_beta)
      next
        case False
        then have "g \<in> set fs" using g name by auto
        then obtain off where off: "map_of (fst (c_offsets (pos + c_size t) ms)) (field_name g) = Some (pos + c_size t + off)"
          "take (length (cells_bytes (field_cells g))) (drop off (struct_bytes fs)) = cells_bytes (field_cells g)"
          using IH(2) [of g] d by auto
        show ?thesis
        proof (intro exI [of _ "c_size t + off"] conjI)
          show "map_of (fst (c_offsets pos (m # ms))) (field_name g) = Some (pos + (c_size t + off))"
            using off(1) False by (simp add: m pos Let_def add.assoc case_prod_beta)
          show "take (length (cells_bytes (field_cells g))) (drop (c_size t + off) (struct_bytes (f # fs))) = cells_bytes (field_cells g)"
            using off(2) by (simp add: len)
        qed
      qed
    qed
  qed
  then show "snd (c_offsets pos ms) = pos + length (struct_bytes fs)"
    and "distinct (map fst ms) \<Longrightarrow> f \<in> set fs \<Longrightarrow>
      \<exists>off. map_of (fst (c_offsets pos ms)) (field_name f) = Some (pos + off)
        \<and> take (length (cells_bytes (field_cells f))) (drop off (struct_bytes fs)) = cells_bytes (field_cells f)"
    by blast+
qed

lemma packed_end: "packed_at pos ms \<Longrightarrow> snd (c_offsets pos ms) = pos + (\<Sum>(n, t) \<leftarrow> ms. c_size t)"
proof (induction ms arbitrary: pos)
  case (Cons m ms)
  obtain n t where m: "m = (n, t)" by (cases m)
  have "round_up pos (c_align t) = pos"
    using Cons.prems m c_align_cases [of t] round_up_aligned [of pos "c_align t"] by auto
  then show ?case using Cons m by (simp add: Let_def case_prod_beta)
qed simp

lemma holds_struct_bytes:
  assumes "packed_at 0 ms" and "list_all2 field_has_type ms fs" and "distinct (map fst ms)"
  shows "holds_struct (struct_bytes fs @ rest) 0 ms fs"
  unfolding holds_struct_def offset_of_def
proof
  fix f assume f: "f \<in> set fs"
  from c_offsets_packed(2) [OF assms f] obtain off where
    off: "map_of (fst (c_offsets 0 ms)) (field_name f) = Some off"
      "take (length (cells_bytes (field_cells f))) (drop off (struct_bytes fs)) = cells_bytes (field_cells f)" by auto
  have "length (cells_bytes (field_cells f)) \<le> length (drop off (struct_bytes fs))"
    using off(2) by (metis length_take min.cobounded1 min_def_raw nle_le)
  then have "take (length (cells_bytes (field_cells f))) (drop off (struct_bytes fs @ rest)) = cells_bytes (field_cells f)"
    using off(2) by (cases "cells_bytes (field_cells f) = []") (auto simp: not_le)
  then show "\<exists>off. map_of (fst (c_offsets 0 ms)) (field_name f) = Some off
      \<and> take (length (cells_bytes (field_cells f))) (drop (0 + off) (struct_bytes fs @ rest)) = cells_bytes (field_cells f)"
    using off(1) by auto
qed

lemma holds_struct_shift:
  "length xs = p \<Longrightarrow> holds_struct (xs @ ys) (p + pos) ms fs \<longleftrightarrow> holds_struct ys pos ms fs"
  by (simp add: holds_struct_def add.assoc)

section \<open>Padding\<close>

lemma round_up_shift: "n mod a = 0 \<Longrightarrow> 0 < a \<Longrightarrow> round_up (n + k) a = n + round_up k a"
proof -
  assume a: "n mod a = 0" "0 < a"
  then obtain j where n: "n = j * a" by (metis dvd_def mod_0_imp_dvd mult.commute)
  have "j * a + k + a - 1 = (k + a - 1) + j * a" using a(2) by simp
  then have "(j * a + k + a - 1) div a = j + (k + a - 1) div a" using a(2) by (simp only: div_mult_self1)
  then show ?thesis by (simp add: round_up_def n algebra_simps)
qed

lemma padding_bytes_exact:
  assumes "0 < unat alignment" and "n + unat alignment \<le> 2 ^ 32"
  shows "unat (get_noc_alignment_padding_bytes alignment (word_of_nat n)) = round_up n (unat alignment)"
proof -
  let ?a = "unat alignment"
  have n: "unat (word_of_nat n :: u32) = n" using assms by (simp add: unat_of_nat)
  have sum: "unat (word_of_nat n + alignment - 1) = n + ?a - 1"
  proof -
    have "unat ((word_of_nat n + (alignment - 1)) :: u32) = n + (?a - 1)"
    proof -
      have one: "unat (alignment - 1) = ?a - 1" using assms(1) by (metis unat_minus_one unat_eq_zero less_not_refl)
      then have "n + unat (alignment - 1) < 2 ^ 32" using assms by simp
      then show ?thesis using n one by (simp add: unat_word_ariths)
    qed
    then show ?thesis using assms(1) by (simp add: add_diff_eq)
  qed
  have "round_up n ?a \<le> n + ?a - 1" using round_up_le [OF assms(1), of n] by linarith
  then have "round_up n ?a < 2 ^ 32" using assms by linarith
  moreover have "(n + ?a - 1) div ?a < 2 ^ 32" using assms by (intro le_less_trans [OF div_le_dividend]) simp
  ultimately show ?thesis
    by (simp add: get_noc_alignment_padding_bytes_def unat_word_ariths unat_div sum round_up_def)
qed

lemma iterate_padding:
  "bs_data (((append_u8 0 \<circ> append_debug note) ^^ k) s) = bs_data s @ replicate k 0
   \<and> bs_address (((append_u8 0 \<circ> append_debug note) ^^ k) s) = bs_address s"
  by (induction k) (simp_all add: append_u8_def replicate_append_same)

lemma pad_to_noc_alignment_data:
  assumes "0 < unat alignment" and "length (bs_data s) + unat alignment \<le> 2 ^ 32"
  shows "bs_data (pad_to_noc_alignment alignment s)
      = bs_data s @ replicate (round_up (length (bs_data s)) (unat alignment) - length (bs_data s)) 0"
    and "bs_address (pad_to_noc_alignment alignment s) = bs_address s"
proof -
  let ?n = "length (bs_data s)" and ?r = "round_up (length (bs_data s)) (unat alignment)"
  have le: "?n \<le> ?r" "?r < ?n + unat alignment" using round_up_le [OF assms(1), of ?n] by simp_all
  have ucast: "unat (ucast (get_noc_alignment_padding_bytes alignment (word_of_nat ?n)) :: u64) = ?r"
  proof -
    have "?r < 2 ^ 64" using padding_bytes_exact [OF assms] unat_less_exp [of "get_noc_alignment_padding_bytes alignment (word_of_nat ?n)"] by simp
    then show ?thesis using padding_bytes_exact [OF assms] by (simp add: unsigned_ucast_eq take_bit_nat_eq_self)
  qed
  have n: "unat (word_of_nat ?n :: u64) = ?n" using assms by (simp add: unat_of_nat)
  have "unat (ucast (get_noc_alignment_padding_bytes alignment (word_of_nat ?n)) - word_of_nat ?n :: u64) = ?r - ?n"
    using le ucast n by (subst unat_sub) (simp_all add: word_le_nat_alt)
  then show "bs_data (pad_to_noc_alignment alignment s) = bs_data s @ replicate (?r - ?n) 0"
    and "bs_address (pad_to_noc_alignment alignment s) = bs_address s"
    by (simp_all only: pad_to_noc_alignment_def Let_def iterate_padding)
qed

section \<open>The structures\<close>

definition struct_image :: "nat \<Rightarrow> (string \<times> c_type) list \<Rightarrow> field list \<Rightarrow> 8 word list" where
  "struct_image alignment ms fs = struct_bytes fs @ replicate (c_sizeof alignment ms - length (struct_bytes fs)) 0"

definition declares :: "(string \<times> c_type) list \<Rightarrow> field list \<Rightarrow> bool" where
  "declares ms fs \<longleftrightarrow> packed_at 0 ms \<and> list_all2 field_has_type ms fs \<and> distinct (map fst ms)"

lemma declared_size:
  assumes "declares ms fs"
  shows "c_sizeof a ms = round_up (length (struct_bytes fs)) a"
  using assms c_offsets_packed(1) [of 0 ms fs] by (simp add: declares_def c_sizeof_def)

lemma struct_image_length:
  assumes "declares ms fs" and "0 < a"
  shows "length (struct_image a ms fs) = c_sizeof a ms"
  using declared_size [OF assms(1)] round_up_le [OF assms(2)] by (simp add: struct_image_def)

lemma struct_image_holds: "declares ms fs \<Longrightarrow> holds_struct (struct_image a ms fs @ rest) 0 ms fs"
  unfolding struct_image_def append_assoc by (rule holds_struct_bytes) (simp_all add: declares_def)

lemma append_declared:
  assumes "declares ms fs" and "length (bs_data s) mod 4 = 0"
  shows "appends (struct_bytes fs) s (fold_sum append_field fs (append_debug note s))"
proof -
  have "packed_at (length (bs_data (append_debug note s))) ms"
    using assms packed_at_mod [of "length (bs_data s)" 0 ms] by (simp add: declares_def)
  then show ?thesis
    using append_fields_appends [of ms fs "append_debug note s"] assms(1) by (auto simp: declares_def appends_def)
qed

text \<open>Members and padding together are a structure; the size is the one asserted.\<close>

lemma append_padded:
  assumes "declares ms fs" and "alignment = 32 \<or> alignment = 64"
    and "length (bs_data s) mod unat alignment = 0" and "length (bs_data s) + length (struct_bytes fs) + 64 \<le> 2 ^ 32"
    and "appends (struct_bytes fs) s r"
  shows "appends (struct_image (unat alignment) ms fs) s (bind_sum r (\<lambda>s1. Inr (pad_to_noc_alignment alignment s1)))"
proof -
  obtain s1 where s1: "r = Inr s1" "bs_address s1 = bs_address s" "bs_data s1 = bs_data s @ struct_bytes fs"
    using assms(5) by (auto simp: appends_def)
  have a: "0 < unat alignment" "unat alignment \<le> 64" using assms(2) by auto
  have "round_up (length (bs_data s1)) (unat alignment) - length (bs_data s1) = c_sizeof (unat alignment) ms - length (struct_bytes fs)"
    using round_up_shift [OF assms(3) a(1)] declared_size [OF assms(1)] s1(3) by simp
  then show ?thesis
    using pad_to_noc_alignment_data [OF a(1), of s1] s1 a(2) assms(4) by (simp add: appends_def struct_image_def)
qed

lemma append_struct:
  assumes "declares ms fs" and "alignment = 32 \<or> alignment = 64"
    and "length (bs_data s) mod unat alignment = 0" and "length (bs_data s) + length (struct_bytes fs) + 64 \<le> 2 ^ 32"
  shows "appends (struct_image (unat alignment) ms fs) s
    (bind_sum (fold_sum append_field fs (append_debug note s)) (\<lambda>s1.
       check_added (length (bs_data s)) (c_sizeof (unat alignment) ms) (pad_to_noc_alignment alignment s1)))"
proof -
  have a: "0 < unat alignment" using assms(2) by auto
  have "4 dvd unat alignment" using assms(2) by auto
  then have "length (bs_data s) mod 4 = 0" using assms(3) by (metis dvd_trans mod_0_imp_dvd dvd_imp_mod_0)
  from append_padded [OF assms append_declared [OF assms(1) this, of "note"]]
  show ?thesis
    using struct_image_length [OF assms(1) a] by (auto simp: appends_def check_added_def bind_sum_def split: sum.splits)
qed

lemma declares_epoch_stream_info:
  "length (si_fork_idxs e) = 16 \<Longrightarrow> declares epoch_stream_info_decl (epoch_stream_info_fields e)"
  unfolding declares_def
proof (intro conjI)
  show "packed_at 0 epoch_stream_info_decl" "distinct (map fst epoch_stream_info_decl)"
    by (simp_all add: epoch_stream_info_decl_def)
qed (simp add: epoch_stream_info_decl_def epoch_stream_info_fields_def)

lemma declares_epoch_stream_dram_io_info: "declares epoch_stream_dram_io_info_decl (epoch_stream_dram_io_info_fields e)"
  unfolding declares_def
proof (intro conjI)
  show "packed_at 0 epoch_stream_dram_io_info_decl" "distinct (map fst epoch_stream_dram_io_info_decl)" by code_simp+
qed (simp add: epoch_stream_dram_io_info_decl_def epoch_stream_dram_io_info_fields_def)

lemma declares_dram_io_state:
  "declares dram_to_l1_decl (dram_to_l1_fields e)" "declares l1_to_dram_decl (l1_to_dram_fields e)"
  "declares dram_local_decl (dram_local_fields e)"
proof -
  have 1: "packed_at 0 dram_to_l1_decl" "distinct (map fst dram_to_l1_decl)" by code_simp+
  have 2: "packed_at 0 l1_to_dram_decl" "distinct (map fst l1_to_dram_decl)" by code_simp+
  have 3: "packed_at 0 dram_local_decl" "distinct (map fst dram_local_decl)" by code_simp+
  show "declares dram_to_l1_decl (dram_to_l1_fields e)" "declares l1_to_dram_decl (l1_to_dram_fields e)"
    "declares dram_local_decl (dram_local_fields e)"
    unfolding declares_def using 1 2 3
    by (simp_all add: dram_to_l1_decl_def dram_to_l1_fields_def l1_to_dram_decl_def l1_to_dram_fields_def
      dram_local_decl_def dram_local_fields_def)
qed

lemma declares_dram_io_scatter_state: "declares dram_io_scatter_state_decl (dram_io_scatter_state_fields e)"
  unfolding declares_def
proof (intro conjI)
  show "packed_at 0 dram_io_scatter_state_decl" "distinct (map fst dram_io_scatter_state_decl)" by code_simp+
qed (simp add: dram_io_scatter_state_decl_def dram_io_scatter_state_fields_def)

definition epoch_t_ok :: "nat \<Rightarrow> epoch_t \<Rightarrow> bool" where
  "epoch_t_ok alignment e \<longleftrightarrow> length (ep_tile_size_words e) = 8 \<and> length (ep_tile_size_header_buf_addr e) = 8
     \<and> length (ep_inputs e) = 24 \<and> length (ep_outputs e) = 24 \<and> length (ep_active_streams e) = 64
     \<and> length (ep_perf_dram_copy_req e) = 5 \<and> length (ep_perf_dram_copy_ack e) = 5 \<and> length (ep_perf_dram_addr e) = 5
     \<and> length (ep_perf_req_max e) = 5 \<and> length (ep_unused1 e) = 5
     \<and> length (ep_tile_clear_blob_words e) = 16 \<and> (\<forall>ws \<in> set (ep_tile_clear_blob_words e). length ws = 6)
     \<and> length (ep_padding e) = alignment - 32 \<and> length (ep_dummy_phase_tile_header_and_data e) = 3"

lemma declares_epoch:
  assumes "a = 32 \<or> a = 64" and "epoch_t_ok a e"
  shows "declares (epoch_decl a) (epoch_fields a e)"
  unfolding declares_def
proof (intro conjI)
  have "packed_at 0 (epoch_decl 32)" "packed_at 0 (epoch_decl 64)" "distinct (map fst (epoch_decl 32))"
    "distinct (map fst (epoch_decl 64))" by (simp_all add: epoch_decl_def)
  then show "packed_at 0 (epoch_decl a)" "distinct (map fst (epoch_decl a))" using assms(1) by auto
  show "list_all2 field_has_type (epoch_decl a) (epoch_fields a e)"
    using assms by (auto simp: epoch_decl_def epoch_fields_def epoch_t_ok_def)
qed

section \<open>The functions that add a structure\<close>

lemma struct_size:
  "c_sizeof a epoch_stream_info_decl = round_up 160 a" "c_sizeof a epoch_stream_dram_io_info_decl = round_up 32 a"
  "c_sizeof a dram_to_l1_decl = round_up 32 a" "c_sizeof a l1_to_dram_decl = round_up 31 a"
  "c_sizeof a dram_local_decl = round_up 32 a" "c_sizeof a dram_io_scatter_state_decl = round_up 32 a"
proof -
  have "packed_at 0 epoch_stream_info_decl" "packed_at 0 epoch_stream_dram_io_info_decl" "packed_at 0 dram_to_l1_decl"
    "packed_at 0 l1_to_dram_decl" "packed_at 0 dram_local_decl" "packed_at 0 dram_io_scatter_state_decl"
    by (simp_all add: epoch_stream_info_decl_def epoch_stream_dram_io_info_decl_def dram_to_l1_decl_def
      l1_to_dram_decl_def dram_local_decl_def dram_io_scatter_state_decl_def)
  note ends = this [THEN packed_end]
  show "c_sizeof a epoch_stream_info_decl = round_up 160 a" "c_sizeof a epoch_stream_dram_io_info_decl = round_up 32 a"
    "c_sizeof a dram_to_l1_decl = round_up 32 a" "c_sizeof a l1_to_dram_decl = round_up 31 a"
    "c_sizeof a dram_local_decl = round_up 32 a" "c_sizeof a dram_io_scatter_state_decl = round_up 32 a"
    unfolding c_sizeof_def ends
    by (simp_all add: epoch_stream_info_decl_def epoch_stream_dram_io_info_decl_def dram_to_l1_decl_def
      l1_to_dram_decl_def dram_local_decl_def dram_io_scatter_state_decl_def)
qed

lemma epoch_end: "snd (c_offsets 0 (epoch_decl 32)) = 1056" "snd (c_offsets 0 (epoch_decl 64)) = 1088"
proof -
  have "packed_at 0 (epoch_decl 32)" "packed_at 0 (epoch_decl 64)" by (simp_all add: epoch_decl_def)
  note ends = this [THEN packed_end]
  show "snd (c_offsets 0 (epoch_decl 32)) = 1056" "snd (c_offsets 0 (epoch_decl 64)) = 1088"
    unfolding ends by (simp_all add: epoch_decl_def)
qed

lemma epoch_size: "c_sizeof 32 (epoch_decl 32) = 1056" "c_sizeof 64 (epoch_decl 64) = 1088"
  by (simp_all add: c_sizeof_def epoch_end round_up_def)

definition epoch_image :: "nat \<Rightarrow> epoch_t \<Rightarrow> 8 word list" where
  "epoch_image a e = struct_image a (epoch_decl a) (epoch_fields a e)"

definition stream_info_image :: "nat \<Rightarrow> epoch_stream_info_t \<Rightarrow> 8 word list" where
  "stream_info_image a e = struct_image a epoch_stream_info_decl (epoch_stream_info_fields e)"

definition dram_io_info_image :: "nat \<Rightarrow> epoch_stream_dram_io_info_t \<Rightarrow> 8 word list" where
  "dram_io_info_image a e = struct_image a epoch_stream_dram_io_info_decl (epoch_stream_dram_io_info_fields e)"

definition dram_io_state_image :: "nat \<Rightarrow> dram_io_state_t \<Rightarrow> 8 word list" where
  "dram_io_state_image a e = struct_image a dram_to_l1_decl (dram_to_l1_fields e)
     @ struct_image a l1_to_dram_decl (l1_to_dram_fields e) @ struct_image a dram_local_decl (dram_local_fields e)"

definition scatter_state_image :: "nat \<Rightarrow> dram_io_scatter_state_t \<Rightarrow> 8 word list" where
  "scatter_state_image a e = struct_image a dram_io_scatter_state_decl (dram_io_scatter_state_fields e)"

lemma struct_bytes_le: "declares ms fs \<Longrightarrow> 0 < a \<Longrightarrow> length (struct_bytes fs) \<le> c_sizeof a ms"
  using declared_size round_up_le by metis

lemma add_epoch_t_appends:
  assumes al: "alignment = 32 \<or> alignment = 64" and "epoch_t_ok (unat alignment) e" and "length (bs_data s) mod 4 = 0"
  shows "appends (epoch_image (unat alignment) e) s (add_epoch_t alignment e s)"
proof -
  have d: "declares (epoch_decl (unat alignment)) (epoch_fields (unat alignment) e)"
    using al assms(2) by (intro declares_epoch) auto
  have "snd (c_offsets 0 (epoch_decl (unat alignment))) = c_sizeof (unat alignment) (epoch_decl (unat alignment))"
    using al by (auto simp: epoch_size epoch_end)
  then have len: "length (struct_bytes (epoch_fields (unat alignment) e)) = c_sizeof (unat alignment) (epoch_decl (unat alignment))"
    using d c_offsets_packed(1) [of 0 "epoch_decl (unat alignment)" "epoch_fields (unat alignment) e"] by (simp add: declares_def)
  show ?thesis
    using append_declared [OF d assms(3), of "''[EPOCH_T]''"] len
    by (auto simp: add_epoch_t_def epoch_image_def struct_image_def appends_def check_added_def bind_sum_def split: sum.splits)
qed

lemma add_epoch_stream_info_t_appends:
  assumes al: "alignment = 32 \<or> alignment = 64" and "length (si_fork_idxs e) = 16"
    and "length (bs_data s) mod unat alignment = 0" and "length (bs_data s) + 512 \<le> 2 ^ 32"
  shows "appends (stream_info_image (unat alignment) e) s (add_epoch_stream_info_t alignment e s)"
proof -
  have d: "declares epoch_stream_info_decl (epoch_stream_info_fields e)" by (rule declares_epoch_stream_info) (rule assms)
  have "length (struct_bytes (epoch_stream_info_fields e)) \<le> 192"
    using struct_bytes_le [OF d, of 32] struct_size(1) [of 32] by (simp add: round_up_def)
  then show ?thesis unfolding add_epoch_stream_info_t_def stream_info_image_def
    using assms(4) by (intro append_struct d al assms) simp
qed

lemma add_epoch_stream_dram_io_info_t_appends:
  assumes al: "alignment = 32 \<or> alignment = 64"
    and "length (bs_data s) mod unat alignment = 0" and "length (bs_data s) + 512 \<le> 2 ^ 32"
  shows "appends (dram_io_info_image (unat alignment) e) s (add_epoch_stream_dram_io_info_t alignment e s)"
proof -
  have "length (struct_bytes (epoch_stream_dram_io_info_fields e)) \<le> 32"
    using struct_bytes_le [OF declares_epoch_stream_dram_io_info [of e], of 32] struct_size(2) [of 32] by (simp add: round_up_def)
  then show ?thesis unfolding add_epoch_stream_dram_io_info_t_def dram_io_info_image_def
    using assms(3) by (intro append_struct declares_epoch_stream_dram_io_info al assms) simp
qed

lemma add_dram_io_scatter_state_t_appends:
  assumes al: "alignment = 32 \<or> alignment = 64"
    and "length (bs_data s) mod unat alignment = 0" and "length (bs_data s) + 512 \<le> 2 ^ 32"
  shows "appends (scatter_state_image (unat alignment) e) s (add_dram_io_scatter_state_t alignment e s)"
proof -
  have "length (struct_bytes (dram_io_scatter_state_fields e)) \<le> 32"
    using struct_bytes_le [OF declares_dram_io_scatter_state [of e], of 32] struct_size(6) [of 32] by (simp add: round_up_def)
  then show ?thesis unfolding add_dram_io_scatter_state_t_def scatter_state_image_def
    using assms(3) by (intro append_struct declares_dram_io_scatter_state al assms) simp
qed

lemma append_padded_struct:
  assumes "declares ms fs" and "alignment = 32 \<or> alignment = 64"
    and "length (bs_data s) mod unat alignment = 0" and "length (bs_data s) + length (struct_bytes fs) + 64 \<le> 2 ^ 32"
  shows "appends (struct_image (unat alignment) ms fs) s
    (bind_sum (fold_sum append_field fs s) (\<lambda>s1. Inr (pad_to_noc_alignment alignment s1)))"
proof -
  have "4 dvd unat alignment" using assms(2) by auto
  then have "length (bs_data s) mod 4 = 0" using assms(3) by (metis dvd_trans mod_0_imp_dvd dvd_imp_mod_0)
  then have "packed_at (length (bs_data s)) ms"
    using assms(1) packed_at_mod [of "length (bs_data s)" 0 ms] by (simp add: declares_def)
  then show ?thesis using assms append_fields_appends by (intro append_padded) (auto simp: declares_def)
qed

lemma appends_debug: "appends xs (append_debug m s) r \<Longrightarrow> appends xs s r"
  by (simp add: appends_def)

lemma c_sizeof_mod: "0 < a \<Longrightarrow> (n + c_sizeof a ms) mod a = n mod a"
  using round_up_mod [of "snd (c_offsets 0 ms)" a] by (simp add: c_sizeof_def mod_add_eq [symmetric])

lemma add_dram_io_state_t_appends:
  assumes al: "alignment = 32 \<or> alignment = 64"
    and n: "length (bs_data s) mod unat alignment = 0" "length (bs_data s) + 512 \<le> 2 ^ 32"
  shows "appends (dram_io_state_image (unat alignment) e) s (add_dram_io_state_t alignment e s)"
proof -
  let ?a = "unat alignment"
  have a: "0 < ?a" "?a \<le> 64" using al by auto
  note d = declares_dram_io_state [of e]
  have sizes: "c_sizeof ?a dram_to_l1_decl \<le> 64" "c_sizeof ?a l1_to_dram_decl \<le> 64" "c_sizeof ?a dram_local_decl \<le> 64"
    using al by (auto simp: struct_size round_up_def)
  note lens = struct_bytes_le [OF d(1) a(1)] struct_bytes_le [OF d(2) a(1)] struct_bytes_le [OF d(3) a(1)]
  let ?i1 = "struct_image ?a dram_to_l1_decl (dram_to_l1_fields e)" and ?i2 = "struct_image ?a l1_to_dram_decl (l1_to_dram_fields e)"
    and ?i3 = "struct_image ?a dram_local_decl (dram_local_fields e)"
  note images = struct_image_length [OF d(1) a(1)] struct_image_length [OF d(2) a(1)] struct_image_length [OF d(3) a(1)]
  have pads: "add_dram_io_state_t alignment e s =
     bind_sum (bind_sum (fold_sum append_field (dram_to_l1_fields e) (append_debug ''[DRAM_IO_STATE_T]'' s)) (\<lambda>s1. Inr (pad_to_noc_alignment alignment s1))) (\<lambda>s2.
     bind_sum (bind_sum (fold_sum append_field (l1_to_dram_fields e) s2) (\<lambda>s1. Inr (pad_to_noc_alignment alignment s1))) (\<lambda>s3.
     bind_sum (bind_sum (fold_sum append_field (dram_local_fields e) s3) (\<lambda>s1. Inr (pad_to_noc_alignment alignment s1)))
       (check_added (length (bs_data s)) (sizeof_dram_io_state ?a))))"
    by (simp add: add_dram_io_state_t_def bind_sum_assoc)
  have image: "dram_io_state_image ?a e = ?i1 @ ?i2 @ ?i3" by (simp add: dram_io_state_image_def)
  show ?thesis unfolding pads image
  proof (rule appends_bind)
    show "appends ?i1 s (bind_sum (fold_sum append_field (dram_to_l1_fields e) (append_debug ''[DRAM_IO_STATE_T]'' s))
        (\<lambda>s1. Inr (pad_to_noc_alignment alignment s1)))"
      by (rule appends_debug, rule append_padded_struct [OF d(1) al]) (use n lens sizes in simp_all)
  next
    fix s2 :: blob_section assume s2: "bs_data s2 = bs_data s @ ?i1" "bs_address s2 = bs_address s"
    have m2: "length (bs_data s2) mod ?a = 0" using n(1) images c_sizeof_mod [OF a(1)] s2 by simp
    show "appends (?i2 @ ?i3) s2 (bind_sum (bind_sum (fold_sum append_field (l1_to_dram_fields e) s2) (\<lambda>s1. Inr (pad_to_noc_alignment alignment s1)))
       (\<lambda>s3. bind_sum (bind_sum (fold_sum append_field (dram_local_fields e) s3) (\<lambda>s1. Inr (pad_to_noc_alignment alignment s1)))
          (check_added (length (bs_data s)) (sizeof_dram_io_state ?a))))"
    proof (rule appends_bind)
      show "appends ?i2 s2 (bind_sum (fold_sum append_field (l1_to_dram_fields e) s2) (\<lambda>s1. Inr (pad_to_noc_alignment alignment s1)))"
        by (rule append_padded_struct [OF d(2) al m2]) (use n lens sizes images s2 in simp)
    next
      fix s3 :: blob_section assume s3: "bs_data s3 = bs_data s2 @ ?i2" "bs_address s3 = bs_address s2"
      have m3: "length (bs_data s3) mod ?a = 0" using m2 images c_sizeof_mod [OF a(1)] s3 by simp
      have "appends ?i3 s3 (bind_sum (fold_sum append_field (dram_local_fields e) s3) (\<lambda>s1. Inr (pad_to_noc_alignment alignment s1)))"
        by (rule append_padded_struct [OF d(3) al m3]) (use n lens sizes images s2 s3 in simp)
      then show "appends ?i3 s3 (bind_sum (bind_sum (fold_sum append_field (dram_local_fields e) s3) (\<lambda>s1. Inr (pad_to_noc_alignment alignment s1)))
          (check_added (length (bs_data s)) (sizeof_dram_io_state ?a)))"
        using s2 s3 images by (auto simp: appends_def check_added_def sizeof_dram_io_state_def)
    qed
  qed
qed

section \<open>Arrays of scatter structures\<close>

lemma fold_sum_concat:
  "fold_sum (\<lambda>(i, x). fold_sum f (g i x)) xs s = fold_sum f (concat (map (\<lambda>(i, x). g i x) xs)) s"
proof (induction xs arbitrary: s)
  case (Cons x xs)
  then show ?case by (cases x; cases "fold_sum f (g (fst x) (snd x)) s") (simp_all add: fold_sum_append)
qed simp

definition is_dword :: "field \<Rightarrow> bool" where
  "is_dword f \<longleftrightarrow> (\<exists>n d. f = Single n (V32 d))"

lemma append_dwords:
  assumes "\<forall>f \<in> set fs. is_dword f" and "length (bs_data s) mod 4 = 0"
  shows "appends (struct_bytes fs) s (fold_sum append_field fs s)"
proof (rule append_fields_appends)
  show "list_all2 field_has_type (map (\<lambda>f. (field_name f, C32)) fs) fs"
    using assms(1) by (induction fs) (auto simp: is_dword_def)
  have "packed_at n (map (\<lambda>f. (field_name f, C32)) fs)" if "n mod 4 = 0" for n
    using that by (induction fs arbitrary: n) auto
  then show "packed_at (length (bs_data s)) (map (\<lambda>f. (field_name f, C32)) fs)" using assms(2) .
qed

definition pipe_states_image :: "scatter_pipe_state_t list \<Rightarrow> 8 word list" where
  "pipe_states_image es =
     concat (map (\<lambda>e. dword_bytes (ps_curr_unroll e) @ dword_bytes (ps_max_unroll e) @ dword_bytes (ps_unused0 e)
       @ dword_bytes (ps_unroll_blobs e)) es)"

definition pipe_blobs_image :: "scatter_pipe_blob_t list \<Rightarrow> 8 word list" where
  "pipe_blobs_image es =
     concat (map (\<lambda>e. dword_bytes (pb_scatter_blob_base_addr e) @ dword_bytes (pb_start_scatter_blob_num_cfg_regs e)) es)"

lemma length_pipe_images:
  "length (pipe_states_image es) = 16 * length es" "length (pipe_blobs_image bs) = 8 * length bs"
  by (induction es; simp add: pipe_states_image_def) (induction bs; simp add: pipe_blobs_image_def)

lemma struct_bytes_append [simp]: "struct_bytes (fs @ gs) = struct_bytes fs @ struct_bytes gs"
  by (simp add: struct_bytes_def)

lemma add_scatter_pipe_states_appends:
  assumes "length (bs_data s) mod 4 = 0"
  shows "appends (pipe_states_image es) s (add_scatter_pipe_states es s)"
proof -
  let ?fs = "concat (map (\<lambda>(i, e). scatter_pipe_state_fields i e) (enumerate 0 es))"
  have "\<forall>f \<in> set ?fs. is_dword f" by (auto simp: scatter_pipe_state_fields_def is_dword_def)
  from append_dwords [OF this, of "append_debug ''[SCATTER_PIPE_STATES]'' s"]
  have "appends (struct_bytes ?fs) s (fold_sum append_field ?fs (append_debug ''[SCATTER_PIPE_STATES]'' s))"
    using assms by (simp add: appends_def)
  moreover have "struct_bytes (concat (map (\<lambda>(i, e). scatter_pipe_state_fields i e) (enumerate n es))) = pipe_states_image es" for n
    by (induction es arbitrary: n) (auto simp: scatter_pipe_state_fields_def pipe_states_image_def)
  moreover have "fold_sum (\<lambda>(i, e). fold_sum append_field (scatter_pipe_state_fields i e)) (enumerate 0 es)
      = fold_sum append_field ?fs"
    by (rule ext) (rule fold_sum_concat)
  ultimately show ?thesis
    by (auto simp: add_scatter_pipe_states_def appends_def check_added_def length_pipe_images)
qed

lemma add_scatter_pipe_blobs_appends:
  assumes "length (bs_data s) mod 4 = 0"
  shows "appends (pipe_blobs_image es) s (add_scatter_pipe_blobs es s)"
proof -
  let ?fs = "concat (map (\<lambda>(i, e). scatter_pipe_blob_fields i e) (enumerate 0 es))"
  have "\<forall>f \<in> set ?fs. is_dword f" by (auto simp: scatter_pipe_blob_fields_def is_dword_def)
  from append_dwords [OF this, of "append_debug ''[SCATTER_PIPE_BLOBS]'' s"]
  have "appends (struct_bytes ?fs) s (fold_sum append_field ?fs (append_debug ''[SCATTER_PIPE_BLOBS]'' s))"
    using assms by (simp add: appends_def)
  moreover have "struct_bytes (concat (map (\<lambda>(i, e). scatter_pipe_blob_fields i e) (enumerate n es))) = pipe_blobs_image es" for n
    by (induction es arbitrary: n) (auto simp: scatter_pipe_blob_fields_def pipe_blobs_image_def)
  moreover have "fold_sum (\<lambda>(i, e). fold_sum append_field (scatter_pipe_blob_fields i e)) (enumerate 0 es)
      = fold_sum append_field ?fs"
    by (rule ext) (rule fold_sum_concat)
  ultimately show ?thesis by (simp add: add_scatter_pipe_blobs_def)
qed

text \<open>The scatter offsets: both members, or the first ones and as many zeros; then padding.\<close>

definition offsets_image :: "bool \<Rightarrow> (u32 \<times> u32) list \<Rightarrow> 8 word list" where
  "offsets_image hw_tilize qs =
     (if hw_tilize then concat (map (dword_bytes \<circ> fst) qs) @ replicate (4 * length qs) 0
      else concat (map (\<lambda>q. dword_bytes (fst q) @ dword_bytes (snd q)) qs))"

lemma length_offsets_image: "length (offsets_image hw qs) = 8 * length qs"
proof -
  have "length (concat (map (dword_bytes \<circ> fst) qs)) = 4 * length qs"
    "length (concat (map (\<lambda>q. dword_bytes (fst q) @ dword_bytes (snd q)) qs)) = 8 * length qs"
    by (induction qs) simp_all
  then show ?thesis by (simp add: offsets_image_def)
qed

lemma append_dword_fold:
  assumes "length (bs_data s) mod 4 = 0"
  shows "appends (concat (map (dword_bytes \<circ> g) xs)) s (fold_sum (\<lambda>x. append_named 32 (nm x) (append_u32 (g x))) xs s)"
  using assms
proof (induction xs arbitrary: s)
  case (Cons x xs)
  have "appends (dword_bytes (g x)) s (append_named 32 (nm x) (append_u32 (g x)) s)"
    using Cons.prems by (simp add: append_named_def append_u32_bytes appends_def)
  then have "appends (dword_bytes (g x) @ concat (map (dword_bytes \<circ> g) xs)) s
     (bind_sum (append_named 32 (nm x) (append_u32 (g x)) s) (fold_sum (\<lambda>x. append_named 32 (nm x) (append_u32 (g x))) xs))"
  proof (rule appends_bind)
    fix s' :: blob_section assume s': "bs_data s' = bs_data s @ dword_bytes (g x)"
    then have "length (bs_data s') mod 4 = 0" using Cons.prems by simp
    then show "appends (concat (map (dword_bytes \<circ> g) xs)) s' (fold_sum (\<lambda>x. append_named 32 (nm x) (append_u32 (g x))) xs s')"
      by (rule Cons.IH)
  qed
  then show ?case by (simp add: comp_def)
qed (simp add: appends_Nil)

lemma append_qword_fold:
  assumes "length (bs_data s) mod 4 = 0"
  shows "appends (concat (map (\<lambda>q. dword_bytes (fst q) @ dword_bytes (snd q)) qs)) s
     (fold_sum (\<lambda>(i, q). append_named 64 (offset_name i) (append_u64 q)) (enumerate n qs) s)"
  using assms
proof (induction qs arbitrary: s n)
  case (Cons q qs)
  have "appends (dword_bytes (fst q) @ dword_bytes (snd q)) s (append_named 64 (offset_name n) (append_u64 q) s)"
    using Cons.prems by (simp add: append_named_def append_u64_def append_u32_bytes appends_def)
  then show ?case unfolding enumerate_simps fold_sum.simps list.map concat.simps prod.case
  proof (rule appends_bind)
    fix s' :: blob_section assume s': "bs_data s' = bs_data s @ dword_bytes (fst q) @ dword_bytes (snd q)"
    then have "length (bs_data s') = length (bs_data s) + 2 * 4" by simp
    then have "length (bs_data s') mod 4 = 0" using Cons.prems by (simp only: mod_mult_self1)
    then show "appends (concat (map (\<lambda>q. dword_bytes (fst q) @ dword_bytes (snd q)) qs)) s'
        (fold_sum (\<lambda>(i, q). append_named 64 (offset_name i) (append_u64 q)) (enumerate (Suc n) qs) s')"
      by (rule Cons.IH)
  qed
qed (simp add: appends_Nil)

lemma append_first_members:
  assumes "length (bs_data s) mod 4 = 0"
  shows "appends (concat (map (dword_bytes \<circ> fst) qs)) s
     (fold_sum (\<lambda>(i, q). append_named 32 (offset_name i @ ''.hi'') (append_u32 (fst q))) (enumerate n qs) s)"
proof -
  have "map (dword_bytes \<circ> (\<lambda>(i, q). fst q)) (enumerate n qs) = map (dword_bytes \<circ> fst) qs"
    by (induction qs arbitrary: n) simp_all
  then show ?thesis
    using append_dword_fold [OF assms, of "\<lambda>(i, q). fst q" "enumerate n qs" "\<lambda>(i, q). offset_name i @ ''.hi''"]
    by (simp add: case_prod_beta')
qed

lemma add_dram_io_scatter_offsets_appends:
  assumes al: "alignment = 32 \<or> alignment = 64"
    and n: "length (bs_data s) mod unat alignment = 0" "length (bs_data s) + 8 * length qs + 64 \<le> 2 ^ 32"
  shows "appends (offsets_image hw qs @ replicate (round_up (8 * length qs) (unat alignment) - 8 * length qs) 0) s
    (add_dram_io_scatter_offsets alignment qs hw s)"
proof -
  let ?s0 = "append_debug ''[DRAM_IO_SCATTER_OFFSETS]'' s"
  have a: "0 < unat alignment" "unat alignment \<le> 64" using al by auto
  have "4 dvd unat alignment" using al by auto
  then have m4: "length (bs_data ?s0) mod 4 = 0" using n(1) by simp (metis dvd_trans mod_0_imp_dvd dvd_imp_mod_0)
  define add where "add = (if hw
                then bind_sum (fold_sum (\<lambda>(i, q). append_named 32 (offset_name i @ ''.hi'') (append_u32 (fst q))) (enumerate 0 qs) ?s0)
                       (fold_sum (\<lambda>q. append_named 32 ''non hw_tilize padding'' (append_u32 0)) qs)
                else fold_sum (\<lambda>(i, q). append_named 64 (offset_name i) (append_u64 q)) (enumerate 0 qs) ?s0)"
  have zeros: "concat (map (dword_bytes \<circ> (\<lambda>q. 0)) qs) = replicate (4 * length qs) 0"
    by (induction qs) (simp_all add: dword_bytes_def numeral_eq_Suc)
  have "appends (offsets_image hw qs) ?s0 add"
  proof (cases hw)
    case True
    have "appends (concat (map (dword_bytes \<circ> fst) qs) @ concat (map (dword_bytes \<circ> (\<lambda>q. 0)) qs)) ?s0 add"
      unfolding add_def if_P [OF True]
    proof (rule appends_bind [OF append_first_members [OF m4]])
      fix s' :: blob_section assume "bs_data s' = bs_data ?s0 @ concat (map (dword_bytes \<circ> fst) qs)"
      moreover have "length (concat (map (dword_bytes \<circ> fst) qs)) = 4 * length qs" by (induction qs) simp_all
      ultimately have "length (bs_data s') mod 4 = 0" using m4 by simp
      then show "appends (concat (map (dword_bytes \<circ> (\<lambda>q. 0)) qs)) s'
          (fold_sum (\<lambda>q. append_named 32 ''non hw_tilize padding'' (append_u32 0)) qs s')"
        by (rule append_dword_fold)
    qed
    then show ?thesis using True zeros by (simp add: offsets_image_def)
  next
    case False
    then show ?thesis using append_qword_fold [OF m4] by (simp add: add_def offsets_image_def)
  qed
  then obtain s1 where s1: "add = Inr s1" "bs_address s1 = bs_address s" "bs_data s1 = bs_data s @ offsets_image hw qs"
    by (auto simp: appends_def)
  have len: "length (bs_data s1) = length (bs_data s) + 8 * length qs" using s1 by (simp add: length_offsets_image)
  then have room: "length (bs_data s1) + unat alignment \<le> 2 ^ 32" using n(2) a(2) by simp
  have "round_up (length (bs_data s1)) (unat alignment) - length (bs_data s1) = round_up (8 * length qs) (unat alignment) - 8 * length qs"
    using round_up_shift [OF n(1) a(1)] len by simp
  then have "appends (offsets_image hw qs @ replicate (round_up (8 * length qs) (unat alignment) - 8 * length qs) 0) s
      (Inr (pad_to_noc_alignment alignment s1))"
    using pad_to_noc_alignment_data [OF a(1) room] s1 by (simp add: appends_def)
  moreover have "add_dram_io_scatter_offsets alignment qs hw s = Inr (pad_to_noc_alignment alignment s1)"
    using s1(1) len by (simp add: add_dram_io_scatter_offsets_def Let_def add_def)
  ultimately show ?thesis by simp
qed

section \<open>The property\<close>

text \<open>
  A structure is added: the section grows by its size, and every member is found, lowest byte first, at
  the offset of its declaration from where the section ended.
\<close>

definition structure_added :: "nat \<Rightarrow> (string \<times> c_type) list \<Rightarrow> field list \<Rightarrow> blob_section \<Rightarrow> blob_error + blob_section \<Rightarrow> bool" where
  "structure_added a ms fs s r \<longleftrightarrow>
     (\<exists>s'. r = Inr s' \<and> take (length (bs_data s)) (bs_data s') = bs_data s
        \<and> length (bs_data s') = length (bs_data s) + c_sizeof a ms \<and> holds_struct (bs_data s') (length (bs_data s)) ms fs)"

lemma structure_addedI:
  assumes "declares ms fs" and "0 < a" and "appends (struct_image a ms fs) s r"
  shows "structure_added a ms fs s r"
proof -
  obtain s' where s': "r = Inr s'" "bs_data s' = bs_data s @ struct_image a ms fs" using assms(3) by (auto simp: appends_def)
  have "holds_struct (bs_data s') (length (bs_data s)) ms fs"
    unfolding s'(2) using holds_struct_shift [of "bs_data s" "length (bs_data s)" _ 0] struct_image_holds [OF assms(1), of a "[]"] by simp
  then show ?thesis using s' struct_image_length [OF assms(1,2)] by (simp add: structure_added_def)
qed

text \<open>The three parts of a \<open>dram_io_state_t\<close> follow each other, each of the size of its structure.\<close>

definition io_state_added :: "nat \<Rightarrow> dram_io_state_t \<Rightarrow> blob_section \<Rightarrow> blob_error + blob_section \<Rightarrow> bool" where
  "io_state_added a e s r \<longleftrightarrow>
     (\<exists>s'. r = Inr s' \<and> take (length (bs_data s)) (bs_data s') = bs_data s
        \<and> length (bs_data s') = length (bs_data s) + sizeof_dram_io_state a
        \<and> holds_struct (bs_data s') (length (bs_data s)) dram_to_l1_decl (dram_to_l1_fields e)
        \<and> holds_struct (bs_data s') (length (bs_data s) + c_sizeof a dram_to_l1_decl) l1_to_dram_decl (l1_to_dram_fields e)
        \<and> holds_struct (bs_data s') (length (bs_data s) + c_sizeof a dram_to_l1_decl + c_sizeof a l1_to_dram_decl)
            dram_local_decl (dram_local_fields e))"

lemma io_state_addedI:
  assumes "0 < a" and "appends (dram_io_state_image a e) s r"
  shows "io_state_added a e s r"
proof -
  obtain s' where s': "r = Inr s'" "bs_data s' = bs_data s @ dram_io_state_image a e" using assms(2) by (auto simp: appends_def)
  note d = declares_dram_io_state [of e]
  note lens = struct_image_length [OF d(1) assms(1)] struct_image_length [OF d(2) assms(1)] struct_image_length [OF d(3) assms(1)]
  note h = struct_image_holds [OF d(1), of a] struct_image_holds [OF d(2), of a] struct_image_holds [OF d(3), of a "[]"]
  let ?L = "length (bs_data s)" and ?i1 = "struct_image a dram_to_l1_decl (dram_to_l1_fields e)"
    and ?i2 = "struct_image a l1_to_dram_decl (l1_to_dram_fields e)"
    and ?i3 = "struct_image a dram_local_decl (dram_local_fields e)"
  have data: "bs_data s' = bs_data s @ ?i1 @ ?i2 @ ?i3" using s'(2) by (simp add: dram_io_state_image_def)
  have "holds_struct (bs_data s') (?L + 0) dram_to_l1_decl (dram_to_l1_fields e)"
    unfolding data by (subst holds_struct_shift [OF refl]) (rule h)
  moreover have "holds_struct ((bs_data s @ ?i1) @ ?i2 @ ?i3) (?L + c_sizeof a dram_to_l1_decl + 0) l1_to_dram_decl (l1_to_dram_fields e)"
    by (subst holds_struct_shift) (simp_all add: lens h)
  moreover have "holds_struct ((bs_data s @ ?i1 @ ?i2) @ ?i3) (?L + c_sizeof a dram_to_l1_decl + c_sizeof a l1_to_dram_decl + 0)
      dram_local_decl (dram_local_fields e)"
    by (subst holds_struct_shift) (use h(3) in \<open>simp_all add: lens\<close>)
  ultimately show ?thesis using s'(1) by (simp add: io_state_added_def data lens sizeof_dram_io_state_def)
qed

text \<open>C14 The structures of an epoch are written as the firmware declares them: on an aligned section with
  room no assertion fails, the section grows by the size a compiler gives the structure, and each member
  lies, lowest byte first, at the offset of its declaration.\<close>

theorem epoch_structures_laid_out:
  assumes al: "alignment = 32 \<or> alignment = 64"
    and s: "length (bs_data s) mod unat alignment = 0" "length (bs_data s) + 512 \<le> 2 ^ 32"
    and e: "epoch_t_ok (unat alignment) e" and i: "length (si_fork_idxs i) = 16"
  shows "structure_added (unat alignment) (epoch_decl (unat alignment)) (epoch_fields (unat alignment) e) s (add_epoch_t alignment e s)
    \<and> structure_added (unat alignment) epoch_stream_info_decl (epoch_stream_info_fields i) s (add_epoch_stream_info_t alignment i s)
    \<and> structure_added (unat alignment) epoch_stream_dram_io_info_decl (epoch_stream_dram_io_info_fields d) s
        (add_epoch_stream_dram_io_info_t alignment d s)
    \<and> io_state_added (unat alignment) io s (add_dram_io_state_t alignment io s)
    \<and> structure_added (unat alignment) dram_io_scatter_state_decl (dram_io_scatter_state_fields c) s
        (add_dram_io_scatter_state_t alignment c s)"
proof -
  have a: "0 < unat alignment" using al by auto
  have "4 dvd unat alignment" using al by auto
  then have m4: "length (bs_data s) mod 4 = 0" using s(1) by (metis dvd_trans mod_0_imp_dvd dvd_imp_mod_0)
  show ?thesis
  proof (intro conjI)
    have "declares (epoch_decl (unat alignment)) (epoch_fields (unat alignment) e)" using al e by (intro declares_epoch) auto
    then show "structure_added (unat alignment) (epoch_decl (unat alignment)) (epoch_fields (unat alignment) e) s (add_epoch_t alignment e s)"
      using a add_epoch_t_appends [OF al e m4] unfolding epoch_image_def by (rule structure_addedI)
    show "structure_added (unat alignment) epoch_stream_info_decl (epoch_stream_info_fields i) s (add_epoch_stream_info_t alignment i s)"
      using declares_epoch_stream_info [OF i] a add_epoch_stream_info_t_appends [OF al i s] unfolding stream_info_image_def
      by (rule structure_addedI)
    show "structure_added (unat alignment) epoch_stream_dram_io_info_decl (epoch_stream_dram_io_info_fields d) s
        (add_epoch_stream_dram_io_info_t alignment d s)"
      using declares_epoch_stream_dram_io_info a add_epoch_stream_dram_io_info_t_appends [OF al s] unfolding dram_io_info_image_def
      by (rule structure_addedI)
    show "io_state_added (unat alignment) io s (add_dram_io_state_t alignment io s)"
      using a add_dram_io_state_t_appends [OF al s] by (rule io_state_addedI)
    show "structure_added (unat alignment) dram_io_scatter_state_decl (dram_io_scatter_state_fields c) s
        (add_dram_io_scatter_state_t alignment c s)"
      using declares_dram_io_scatter_state a add_dram_io_scatter_state_t_appends [OF al s] unfolding scatter_state_image_def
      by (rule structure_addedI)
  qed
qed

theorem epoch_structures_laid_out_witness:
  "structure_added 32 (epoch_decl 32) (epoch_fields 32 (zero_epoch 32)) (new_blob_section 0) (add_epoch_t 32 (zero_epoch 32) (new_blob_section 0))
    \<and> structure_added 32 epoch_stream_info_decl (epoch_stream_info_fields zero_stream_info) (new_blob_section 0)
        (add_epoch_stream_info_t 32 zero_stream_info (new_blob_section 0))
    \<and> structure_added 32 epoch_stream_dram_io_info_decl (epoch_stream_dram_io_info_fields zero_dram_io_info) (new_blob_section 0)
        (add_epoch_stream_dram_io_info_t 32 zero_dram_io_info (new_blob_section 0))
    \<and> io_state_added 32 zero_dram_io_state (new_blob_section 0) (add_dram_io_state_t 32 zero_dram_io_state (new_blob_section 0))
    \<and> structure_added 32 dram_io_scatter_state_decl (dram_io_scatter_state_fields zero_scatter_state) (new_blob_section 0)
        (add_dram_io_scatter_state_t 32 zero_scatter_state (new_blob_section 0))"
proof -
  have "epoch_t_ok 32 (zero_epoch 32)" by (simp add: epoch_t_ok_def zero_epoch_def)
  moreover have "length (si_fork_idxs zero_stream_info) = 16" by (simp add: zero_stream_info_def)
  ultimately show ?thesis
    using epoch_structures_laid_out [of 32 "new_blob_section 0" "zero_epoch 32" zero_stream_info zero_dram_io_info
        zero_dram_io_state zero_scatter_state]
    by (simp add: new_blob_section_def)
qed

end
