(* ===== verification/StreamConfigs.thy ===== *)
theory StreamConfigs
  imports EpochStructs RationalGraph
begin

text \<open>
  What blobgen2 reads of a stream graph: the configuration of a phase
  (\<open>pipegen2/lib/inc/model/stream_graph/stream_config.h\<close>, every member a getter of blobgen2 asks for) and of a
  DRAM or PCIe buffer (\<open>ncrisc_config.h\<close>), and the helpers that give their members defaults
  (\<open>blobgen2/lib/inc/helpers/phase_config_helper.h\<close>, \<open>ncrisc_config_helper.h\<close>).
\<close>

section \<open>Configurations\<close>

text \<open>
  Of a stream another one points to, its location and its number are read. A member that holds a pointer
  holds none to null.
\<close>

record stream_ref =
  sn_physical_location :: tt_cxy_pair
  sn_stream_id :: u32

record stream_config =
  sc_dest :: "stream_ref list option"
  sc_source :: "stream_ref option"
  sc_msg_size :: "u32 option"
  sc_num_iters_in_epoch :: "u32 option"
  sc_num_unroll_iter :: "u32 option"
  sc_data_auto_send :: "bool option"
  sc_reg_update_vc :: "u32 option"
  sc_space_shared_with_operand :: "u32 option"
  sc_arb_group_size :: "u32 option"
  sc_buffer_intermediate :: "bool option"
  sc_buf_addr :: "u32 option"
  sc_buf_base_addr :: "u32 option"
  sc_buf_full_size_bytes :: "u32 option"
  sc_buffer_size :: "u32 option"
  sc_fork_streams :: "stream_ref list option"
  sc_num_fork_streams :: "u32 option"
  sc_group_priority :: "u32 option"
  sc_dram_io :: "bool option"
  sc_dram_streaming :: "bool option"
  sc_dram_input :: "bool option"
  sc_dram_input_no_push :: "bool option"
  sc_dram_output :: "bool option"
  sc_dram_output_no_push :: "bool option"
  sc_dram_writes_with_cmd_buf :: "bool option"
  sc_ptrs_not_zero :: "bool option"
  sc_producer_epoch_id :: "u32 option"
  sc_incoming_data_noc :: "NOC_ROUTE option"
  sc_input_index :: "u32 option"
  sc_is_scatter_pack :: "bool option"
  sc_buf_space_available_ack_thr :: "u32 option"
  sc_pipe_scatter_output_loop_count :: "u32 option"
  sc_num_scatter_inner_loop :: "u32 option"
  sc_remote_source :: "bool option"
  sc_source_endpoint :: "bool option"
  sc_local_sources_connected :: "bool option"
  sc_local_stream_clear_num :: "u32 option"
  sc_remote_receiver :: "bool option"
  sc_receiver_endpoint :: "bool option"
  sc_local_receiver :: "bool option"
  sc_local_receiver_tile_clearing :: "bool option"
  sc_phase_auto_config :: "bool option"
  sc_phase_auto_advance :: "bool option"
  sc_next_phase_src_change :: "bool option"
  sc_next_phase_dest_change :: "bool option"
  sc_resend :: "bool option"
  sc_num_msgs :: "u32 option"
  sc_legacy_pack :: "bool option"
  sc_outgoing_data_noc :: "NOC_ROUTE option"
  sc_vc :: "u32 option"
  sc_output_index :: "u32 option"
  sc_moves_raw_data :: "bool option"
  sc_mblock_k :: "u32 option"
  sc_mblock_m :: "u32 option"
  sc_mblock_n :: "u32 option"
  sc_ublock_ct :: "u32 option"
  sc_ublock_rt :: "u32 option"
  sc_batch_dim_size :: "u32 option"
  sc_r_dim_size :: "u32 option"
  sc_c_dim_size :: "u32 option"
  sc_zr_dim_size :: "u32 option"
  sc_zc_dim_size :: "u32 option"
  sc_tile_dim_r :: "u32 option"
  sc_skip_col_bytes :: "u32 option"
  sc_skip_col_tile_row_bytes :: "u32 option"
  sc_skip_col_row_bytes :: "u32 option"
  sc_skip_zcol_bytes :: "u32 option"
  sc_skip_col_zrow_bytes :: "u32 option"
  sc_stride :: "u32 option"
  sc_total_strides :: "u32 option"
  sc_stride_offset_size_bytes :: "u32 option"
  sc_num_mblock_buffering :: "u32 option"
  sc_num_msgs_in_block :: "u32 option"
  sc_scatter_idx :: "u32 option"
  sc_scatter_order_size :: "u32 option"
  sc_linked :: "bool option"
  sc_padding_scatter_order_size :: "u32 option"
  sc_scatter_list_stream_id :: "stream_ref option"
  sc_scatter_list_indicies_per_input :: "u32 option"
  sc_scatter_list_indicies_per_tile :: "u32 option"
  sc_dram_embeddings_row_shift :: "u32 option"
  sc_dram_embeddings_row_tiles :: "u32 option"
  sc_ncrisc_clear :: "bool option"
  sc_eth_sender :: "bool option"
  sc_eth_receiver :: "bool option"
  sc_use_ethernet_fw_stream :: "bool option"
  sc_hw_tilize :: "bool option"
  sc_c_dim_loop_num_rows :: "u32 option"
  sc_tilize_row_col_offset :: "u32 option"
  sc_has_packer_mcast_opt :: "bool option"
  sc_overlay_blob_extra_size :: "u32 option"
  sc_space_shared_with_stream :: "stream_ref option"
  sc_num_mcast_dests :: "u32 option"
  sc_src_dest_index :: "u32 option"
  sc_remote_src_is_mcast :: "bool option"
  sc_data_buf_no_flow_ctrl :: "bool option"
  sc_dest_data_buf_no_flow_ctrl :: "bool option"
  sc_msg_info_buf_addr :: "u32 option"
  sc_follow_by_receiver_dummy_phase :: "bool option"
  sc_follow_by_sender_dummy_phase :: "bool option"
  sc_remote_src_update_noc :: "NOC_ROUTE option"

record phase_config =
  pc_phase_id :: u64
  pc_config :: stream_config

record ncrisc_config =
  nc_dram_buf_noc_addr :: u64
  nc_dram_buf_size_bytes :: u32
  nc_dram_buf_size_q_slots :: u32
  nc_dram_buf_size_tiles :: u32
  nc_msg_size :: u32
  nc_num_msgs :: u32
  nc_dram_input :: "bool option"
  nc_dram_output :: "bool option"
  nc_dram_io :: "bool option"
  nc_dram_ram :: "bool option"
  nc_dram_padding :: "bool option"
  nc_dram_scatter_chunk_size_tiles :: "u32 option"
  nc_dram_scatter_offsets :: "u64 list option"
  nc_dram_scatter_offsets_full_size :: "u32 option"
  nc_dram_buf_read_chunk_size_tiles :: "u32 option"
  nc_dram_buf_write_chunk_size_tiles :: "u32 option"
  nc_dram_buf_write_row_chunk_size_bytes :: "u32 option"
  nc_dram_streaming :: "bool option"
  nc_dram_streaming_dest :: "stream_ref option"
  nc_reader_index :: "u32 option"
  nc_total_readers :: "u32 option"

text \<open>
  An optional that is read without a value throws; a division by zero is undefined.
\<close>

definition value_or :: "'a option \<Rightarrow> 'a \<Rightarrow> 'a" where
  "value_or x d = (case x of None \<Rightarrow> d | Some v \<Rightarrow> v)"

definition req :: "'a option \<Rightarrow> blob_error + 'a" where
  "req x = (case x of None \<Rightarrow> Inl BlobNoValue | Some v \<Rightarrow> Inr v)"

definition udiv :: "u32 \<Rightarrow> u32 \<Rightarrow> blob_error + u32" where
  "udiv a b = (if b = 0 then Inl BlobUndefined else Inr (a div b))"

definition log_assert :: "bool \<Rightarrow> blob_error + unit" where
  "log_assert b = (if b then Inr () else Inl BlobAssert)"

lemma value_or_simps [simp]: "value_or None d = d" "value_or (Some v) d = v"
  by (simp_all add: value_or_def)

lemma req_simps [simp]: "req None = Inl BlobNoValue" "req (Some v) = Inr v"
  by (simp_all add: req_def)

lemma req_Inr_iff [simp]: "req x = Inr v \<longleftrightarrow> x = Some v"
  by (cases x) simp_all

lemma log_assert_Inr_iff [simp]: "log_assert b = Inr u \<longleftrightarrow> b"
  by (simp add: log_assert_def)

lemma udiv_Inr_iff [simp]: "udiv a b = Inr c \<longleftrightarrow> b \<noteq> 0 \<and> c = a div b"
  by (auto simp: udiv_def)

section \<open>Members of a phase with their defaults\<close>

definition c_epoch_id_phase_shift_firmware :: nat where "c_epoch_id_phase_shift_firmware = 15"
definition c_epoch_max :: u32 where "c_epoch_max = 31"
definition c_noc_virtual_channel_default_multicast :: u32 where "c_noc_virtual_channel_default_multicast = 0"
definition c_noc_virtual_channel_multicast_mask :: u32 where "c_noc_virtual_channel_multicast_mask = 1"
definition c_noc_virtual_channel_default_unicast :: u32 where "c_noc_virtual_channel_default_unicast = 2"
definition c_noc_virtual_channel_default_reg_update :: u32 where "c_noc_virtual_channel_default_reg_update = 3"
definition WRAPPED_PHASE_LIMIT :: u32 where "WRAPPED_PHASE_LIMIT = 4096"
definition epoch_id_phase_shift :: nat where "epoch_id_phase_shift = 32"
definition MEM_WORD_BYTES :: u32 where "MEM_WORD_BYTES = 16"

definition get_next_phase_src_change :: "phase_config \<Rightarrow> bool" where
  "get_next_phase_src_change p = value_or (sc_next_phase_src_change (pc_config p)) True"

definition get_next_phase_dest_change :: "phase_config \<Rightarrow> bool" where
  "get_next_phase_dest_change p = value_or (sc_next_phase_dest_change (pc_config p)) True"

definition get_num_mblock_buffering :: "phase_config \<Rightarrow> u32" where
  "get_num_mblock_buffering p = value_or (sc_num_mblock_buffering (pc_config p)) 1"

definition has_dummy_phase_sender :: "phase_config \<Rightarrow> bool" where
  "has_dummy_phase_sender p = value_or (sc_follow_by_sender_dummy_phase (pc_config p)) False"

definition has_dummy_phase_receiver :: "phase_config \<Rightarrow> bool" where
  "has_dummy_phase_receiver p = value_or (sc_follow_by_receiver_dummy_phase (pc_config p)) False"

definition get_is_scatter_pack :: "phase_config \<Rightarrow> bool" where
  "get_is_scatter_pack p = value_or (sc_is_scatter_pack (pc_config p)) False"

definition get_remote_receiver :: "phase_config \<Rightarrow> bool" where
  "get_remote_receiver p = value_or (sc_remote_receiver (pc_config p)) False"

definition get_remote_source :: "phase_config \<Rightarrow> bool" where
  "get_remote_source p = value_or (sc_remote_source (pc_config p)) False"

definition get_eth_sender :: "phase_config \<Rightarrow> bool" where
  "get_eth_sender p = value_or (sc_eth_sender (pc_config p)) False"

definition get_eth_receiver :: "phase_config \<Rightarrow> bool" where
  "get_eth_receiver p = value_or (sc_eth_receiver (pc_config p)) False"

definition get_has_packer_mcast_opt :: "phase_config \<Rightarrow> bool" where
  "get_has_packer_mcast_opt p = value_or (sc_has_packer_mcast_opt (pc_config p)) False"

definition get_source_endpoint :: "phase_config \<Rightarrow> bool" where
  "get_source_endpoint p = value_or (sc_source_endpoint (pc_config p)) False"

definition get_receiver_endpoint :: "phase_config \<Rightarrow> bool" where
  "get_receiver_endpoint p = value_or (sc_receiver_endpoint (pc_config p)) False"

definition get_intermediate :: "phase_config \<Rightarrow> bool" where
  "get_intermediate p = value_or (sc_buffer_intermediate (pc_config p)) False"

definition get_producer_epoch_id :: "phase_config \<Rightarrow> u32" where
  "get_producer_epoch_id p = value_or (sc_producer_epoch_id (pc_config p)) 0"

definition get_msg_size :: "phase_config \<Rightarrow> u32" where
  "get_msg_size p = value_or (sc_msg_size (pc_config p)) 1024"

definition get_num_msgs_in_block :: "phase_config \<Rightarrow> u32" where
  "get_num_msgs_in_block p = value_or (sc_num_msgs_in_block (pc_config p)) 0"

definition get_space_shared_with_operand :: "phase_config \<Rightarrow> u32" where
  "get_space_shared_with_operand p = value_or (sc_space_shared_with_operand (pc_config p)) 0"

definition get_num_iters_in_epoch_field :: "phase_config \<Rightarrow> u32" where
  "get_num_iters_in_epoch_field p = value_or (sc_num_iters_in_epoch (pc_config p)) 1"

definition get_num_scatter_inner_loop :: "phase_config \<Rightarrow> u32" where
  "get_num_scatter_inner_loop p = value_or (sc_num_scatter_inner_loop (pc_config p)) 1"

definition get_legacy_pack :: "phase_config \<Rightarrow> bool" where
  "get_legacy_pack p = value_or (sc_legacy_pack (pc_config p)) False"

definition get_stride :: "phase_config \<Rightarrow> u32" where
  "get_stride p = value_or (sc_stride (pc_config p)) 0"

definition get_total_strides :: "phase_config \<Rightarrow> u32" where
  "get_total_strides p = value_or (sc_total_strides (pc_config p)) 1"

definition get_stride_offset_size_bytes :: "phase_config \<Rightarrow> u32" where
  "get_stride_offset_size_bytes p = value_or (sc_stride_offset_size_bytes (pc_config p)) 0"

definition get_pipe_scatter_output_loop_count :: "phase_config \<Rightarrow> u32" where
  "get_pipe_scatter_output_loop_count p = value_or (sc_pipe_scatter_output_loop_count (pc_config p)) 1"

definition get_c_dim_size :: "phase_config \<Rightarrow> u32" where
  "get_c_dim_size p = value_or (sc_c_dim_size (pc_config p)) 0"

definition get_r_dim_size :: "phase_config \<Rightarrow> u32" where
  "get_r_dim_size p = value_or (sc_r_dim_size (pc_config p)) 0"

definition get_zc_dim_size :: "phase_config \<Rightarrow> u32" where
  "get_zc_dim_size p = value_or (sc_zc_dim_size (pc_config p)) 0"

definition get_zr_dim_size :: "phase_config \<Rightarrow> u32" where
  "get_zr_dim_size p = value_or (sc_zr_dim_size (pc_config p)) 0"

definition get_moves_raw_data :: "phase_config \<Rightarrow> bool" where
  "get_moves_raw_data p = value_or (sc_moves_raw_data (pc_config p)) False"

definition get_tile_dim_r :: "phase_config \<Rightarrow> u32" where
  "get_tile_dim_r p = value_or (sc_tile_dim_r (pc_config p)) 32"

definition get_padding_scatter_order_size :: "phase_config \<Rightarrow> u32" where
  "get_padding_scatter_order_size p = value_or (sc_padding_scatter_order_size (pc_config p)) 0"

definition get_num_fork_streams :: "phase_config \<Rightarrow> u32" where
  "get_num_fork_streams p = value_or (sc_num_fork_streams (pc_config p)) 0"

definition get_incoming_data_noc :: "phase_config \<Rightarrow> NOC_ROUTE" where
  "get_incoming_data_noc p = value_or (sc_incoming_data_noc (pc_config p)) NOC0"

definition get_outgoing_data_noc :: "phase_config \<Rightarrow> NOC_ROUTE" where
  "get_outgoing_data_noc p = value_or (sc_outgoing_data_noc (pc_config p)) NOC0"

definition get_dram_output_no_push :: "phase_config \<Rightarrow> bool" where
  "get_dram_output_no_push p = value_or (sc_dram_output_no_push (pc_config p)) False"

definition get_c_dim_loop_num_rows :: "phase_config \<Rightarrow> u32" where
  "get_c_dim_loop_num_rows p = value_or (sc_c_dim_loop_num_rows (pc_config p)) 32"

definition get_tilize_row_col_offset :: "phase_config \<Rightarrow> u32" where
  "get_tilize_row_col_offset p = value_or (sc_tilize_row_col_offset (pc_config p)) 0"

definition get_dram_embeddings_row_shift :: "phase_config \<Rightarrow> u32" where
  "get_dram_embeddings_row_shift p = value_or (sc_dram_embeddings_row_shift (pc_config p)) 0"

definition get_hw_tilize :: "phase_config \<Rightarrow> bool" where
  "get_hw_tilize p = value_or (sc_hw_tilize (pc_config p)) False"

definition get_scatter_list_indicies_per_input :: "phase_config \<Rightarrow> u32" where
  "get_scatter_list_indicies_per_input p = value_or (sc_scatter_list_indicies_per_input (pc_config p)) 0"

definition get_dram_embeddings_row_tiles :: "phase_config \<Rightarrow> u32" where
  "get_dram_embeddings_row_tiles p = value_or (sc_dram_embeddings_row_tiles (pc_config p)) 0"

definition get_dram_writes_with_cmd_buf :: "phase_config \<Rightarrow> bool" where
  "get_dram_writes_with_cmd_buf p = value_or (sc_dram_writes_with_cmd_buf (pc_config p)) False"

definition get_dram_output :: "phase_config \<Rightarrow> bool" where
  "get_dram_output p = value_or (sc_dram_output (pc_config p)) False"

definition get_dram_input :: "phase_config \<Rightarrow> bool" where
  "get_dram_input p = value_or (sc_dram_input (pc_config p)) False"

definition get_dram_input_no_push :: "phase_config \<Rightarrow> bool" where
  "get_dram_input_no_push p = value_or (sc_dram_input_no_push (pc_config p)) False"

definition get_src_dest_index :: "phase_config \<Rightarrow> u32" where
  "get_src_dest_index p = value_or (sc_src_dest_index (pc_config p)) 0"

definition get_arb_group_size :: "phase_config \<Rightarrow> u32" where
  "get_arb_group_size p = value_or (sc_arb_group_size (pc_config p)) 1"

definition get_local_stream_clear_num :: "phase_config \<Rightarrow> u32" where
  "get_local_stream_clear_num p = value_or (sc_local_stream_clear_num (pc_config p)) 1"

definition get_group_priority :: "phase_config \<Rightarrow> u32" where
  "get_group_priority p = value_or (sc_group_priority (pc_config p)) 0"

definition get_linked :: "phase_config \<Rightarrow> bool" where
  "get_linked p = value_or (sc_linked (pc_config p)) False"

definition get_vc_for_unicast :: "phase_config \<Rightarrow> u32" where
  "get_vc_for_unicast p = value_or (sc_vc (pc_config p)) c_noc_virtual_channel_default_unicast"

definition get_vc_for_reg_update :: "phase_config \<Rightarrow> u32" where
  "get_vc_for_reg_update p = value_or (sc_reg_update_vc (pc_config p)) c_noc_virtual_channel_default_reg_update"

definition get_local_sources_connected :: "phase_config \<Rightarrow> bool" where
  "get_local_sources_connected p = value_or (sc_local_sources_connected (pc_config p)) False"

definition get_local_receiver :: "phase_config \<Rightarrow> bool" where
  "get_local_receiver p = value_or (sc_local_receiver (pc_config p)) False"

definition get_dram_io :: "phase_config \<Rightarrow> bool" where
  "get_dram_io p = value_or (sc_dram_io (pc_config p)) False"

definition get_mmio_io :: "phase_config \<Rightarrow> bool" where
  "get_mmio_io p = value_or (sc_dram_streaming (pc_config p)) False"

definition get_data_buf_no_flow_ctrl :: "phase_config \<Rightarrow> bool" where
  "get_data_buf_no_flow_ctrl p = value_or (sc_data_buf_no_flow_ctrl (pc_config p)) False"

definition get_dest_data_buf_no_flow_ctrl :: "phase_config \<Rightarrow> bool" where
  "get_dest_data_buf_no_flow_ctrl p = value_or (sc_dest_data_buf_no_flow_ctrl (pc_config p)) False"

definition get_remote_src_is_mcast :: "phase_config \<Rightarrow> bool" where
  "get_remote_src_is_mcast p = value_or (sc_remote_src_is_mcast (pc_config p)) False"

definition get_phase_auto_advance :: "phase_config \<Rightarrow> bool" where
  "get_phase_auto_advance p = value_or (sc_phase_auto_advance (pc_config p)) False"

definition get_resend :: "phase_config \<Rightarrow> bool" where
  "get_resend p = value_or (sc_resend (pc_config p)) False"

definition get_data_auto_send :: "phase_config \<Rightarrow> bool" where
  "get_data_auto_send p = value_or (sc_data_auto_send (pc_config p)) False"

definition get_ncrisc_clear :: "phase_config \<Rightarrow> bool" where
  "get_ncrisc_clear p = value_or (sc_ncrisc_clear (pc_config p)) False"

definition get_batch_dim_size :: "phase_config \<Rightarrow> u32" where
  "get_batch_dim_size p = value_or (sc_batch_dim_size (pc_config p)) 0"

definition get_ptrs_not_zero :: "phase_config \<Rightarrow> bool" where
  "get_ptrs_not_zero p = value_or (sc_ptrs_not_zero (pc_config p)) False"

definition get_use_ethernet_fw_stream :: "phase_config \<Rightarrow> bool" where
  "get_use_ethernet_fw_stream p = value_or (sc_use_ethernet_fw_stream (pc_config p)) False"

text \<open>Members without a default.\<close>

definition get_src_stream_node :: "phase_config \<Rightarrow> stream_ref option" where
  "get_src_stream_node p = sc_source (pc_config p)"

definition get_dest_stream_nodes :: "phase_config \<Rightarrow> stream_ref list" where
  "get_dest_stream_nodes p = value_or (sc_dest (pc_config p)) []"

definition get_fork_streams :: "phase_config \<Rightarrow> stream_ref list" where
  "get_fork_streams p = value_or (sc_fork_streams (pc_config p)) []"

definition get_num_msgs :: "phase_config \<Rightarrow> blob_error + u32" where
  "get_num_msgs p = req (sc_num_msgs (pc_config p))"

definition get_remote_src_update_noc :: "phase_config \<Rightarrow> blob_error + NOC_ROUTE" where
  "get_remote_src_update_noc p = req (sc_remote_src_update_noc (pc_config p))"

definition get_buf_full_size_bytes :: "phase_config \<Rightarrow> blob_error + u32" where
  "get_buf_full_size_bytes p =
     (case sc_buf_full_size_bytes (pc_config p) of Some n \<Rightarrow> Inr n | None \<Rightarrow> req (sc_buffer_size (pc_config p)))"

definition get_buf_base_addr :: "phase_config \<Rightarrow> blob_error + u32" where
  "get_buf_base_addr p =
     (case sc_buf_base_addr (pc_config p) of Some n \<Rightarrow> Inr n | None \<Rightarrow> req (sc_buf_addr (pc_config p)))"

definition get_datacopy_stream_id :: "phase_config \<Rightarrow> u32" where
  "get_datacopy_stream_id p =
     (case sc_space_shared_with_stream (pc_config p) of None \<Rightarrow> 0 | Some n \<Rightarrow> sn_stream_id n)"

section \<open>Questions about a phase\<close>

definition has_dummy_phase :: "phase_config \<Rightarrow> bool" where
  "has_dummy_phase p \<longleftrightarrow> has_dummy_phase_sender p \<or> has_dummy_phase_receiver p"

definition is_scatter_order_size_larger_than_one :: "phase_config \<Rightarrow> bool" where
  "is_scatter_order_size_larger_than_one p \<longleftrightarrow> value_or (sc_scatter_order_size (pc_config p)) 1 > 1"

definition is_pipe_scatter :: "phase_config \<Rightarrow> bool" where
  "is_pipe_scatter p \<longleftrightarrow> get_is_scatter_pack p \<and> is_scatter_order_size_larger_than_one p"

text \<open>Ethernet transfers that firmware performs, not streams.\<close>

definition is_eth_firmware_sender :: "phase_config \<Rightarrow> bool" where
  "is_eth_firmware_sender p \<longleftrightarrow> get_eth_sender p \<and> get_receiver_endpoint p"

definition is_eth_firmware_receiver :: "phase_config \<Rightarrow> bool" where
  "is_eth_firmware_receiver p \<longleftrightarrow> get_eth_receiver p \<and> get_source_endpoint p"

definition has_remote_receiver :: "phase_config \<Rightarrow> bool" where
  "has_remote_receiver p \<longleftrightarrow> get_remote_receiver p \<or> is_eth_firmware_sender p"

definition has_remote_source :: "phase_config \<Rightarrow> bool" where
  "has_remote_source p \<longleftrightarrow> get_remote_source p \<or> is_eth_firmware_receiver p"

definition has_dest_mcast_streams :: "phase_config \<Rightarrow> bool" where
  "has_dest_mcast_streams p \<longleftrightarrow> length (get_dest_stream_nodes p) > 1"

definition get_incoming_data_noc_for_stream_reg :: "phase_config \<Rightarrow> NOC_ROUTE" where
  "get_incoming_data_noc_for_stream_reg p = (if get_eth_receiver p then NOC0 else get_incoming_data_noc p)"

definition get_outgoing_data_noc_for_stream_reg :: "phase_config \<Rightarrow> NOC_ROUTE" where
  "get_outgoing_data_noc_for_stream_reg p = (if get_eth_sender p then NOC0 else get_outgoing_data_noc p)"

definition get_remote_src_update_noc_for_stream_reg :: "phase_config \<Rightarrow> blob_error + NOC_ROUTE" where
  "get_remote_src_update_noc_for_stream_reg p = (if get_eth_receiver p then Inr NOC0 else get_remote_src_update_noc p)"

definition has_scatter_list_stream_id :: "phase_config \<Rightarrow> bool" where
  "has_scatter_list_stream_id p \<longleftrightarrow> sc_scatter_list_stream_id (pc_config p) \<noteq> None"

definition get_scatter_to_dram :: "phase_config \<Rightarrow> bool" where
  "get_scatter_to_dram p \<longleftrightarrow> get_dram_output p \<and> \<not> get_legacy_pack p"

definition get_local_receiver_tile_clearing :: "phase_config \<Rightarrow> bool" where
  "get_local_receiver_tile_clearing p = value_or (sc_local_receiver_tile_clearing (pc_config p)) False"

definition get_regular_local_receiver :: "phase_config \<Rightarrow> bool" where
  "get_regular_local_receiver p \<longleftrightarrow> get_local_receiver p \<and> \<not> get_local_receiver_tile_clearing p"

definition get_dram_or_mmio_io :: "phase_config \<Rightarrow> bool" where
  "get_dram_or_mmio_io p \<longleftrightarrow> get_dram_io p \<or> get_mmio_io p"

definition is_regular_dram_input :: "phase_config \<Rightarrow> bool" where
  "is_regular_dram_input p \<longleftrightarrow> get_dram_input p \<and> get_source_endpoint p"

definition is_regular_dram_output :: "phase_config \<Rightarrow> bool" where
  "is_regular_dram_output p \<longleftrightarrow> get_dram_output p \<and> get_receiver_endpoint p"

definition is_dram_input_prolog :: "phase_config \<Rightarrow> bool" where
  "is_dram_input_prolog p \<longleftrightarrow> get_dram_input p \<and> \<not> get_dram_or_mmio_io p"

definition is_dram_or_mmio_output :: "phase_config \<Rightarrow> bool" where
  "is_dram_or_mmio_output p \<longleftrightarrow> get_dram_output p \<and> get_dram_or_mmio_io p"

definition is_receiver_unpacker :: "phase_config \<Rightarrow> bool" where
  "is_receiver_unpacker p \<longleftrightarrow>
     (get_receiver_endpoint p \<or> get_local_receiver_tile_clearing p) \<and> \<not> is_dram_or_mmio_output p"

definition get_is_brisc_pack :: "phase_config \<Rightarrow> bool" where
  "get_is_brisc_pack p \<longleftrightarrow> get_source_endpoint p \<and> \<not> get_legacy_pack p \<and> \<not> get_dram_input p \<and> \<not> get_mmio_io p
     \<and> \<not> get_intermediate p"

definition should_skip_kernels :: "phase_config \<Rightarrow> bool" where
  "should_skip_kernels p \<longleftrightarrow>
     sc_space_shared_with_stream (pc_config p) \<noteq> None \<and> (get_source_endpoint p \<or> get_receiver_endpoint p)"

definition get_src_change :: "phase_config option \<Rightarrow> bool" where
  "get_src_change prev = (case prev of None \<Rightarrow> True | Some q \<Rightarrow> get_next_phase_src_change q)"

definition get_dest_change :: "phase_config option \<Rightarrow> bool" where
  "get_dest_change prev = (case prev of None \<Rightarrow> True | Some q \<Rightarrow> get_next_phase_dest_change q)"

definition get_phase_auto_config :: "phase_config option \<Rightarrow> phase_config \<Rightarrow> bool" where
  "get_phase_auto_config next_phase p \<longleftrightarrow>
     get_intermediate p \<or> (next_phase \<noteq> None \<and> value_or (sc_phase_auto_config (pc_config p)) False)"

definition scatter_idx_change :: "phase_config \<Rightarrow> phase_config \<Rightarrow> blob_error + bool" where
  "scatter_idx_change other p =
     bind_sum (req (sc_scatter_idx (pc_config other))) (\<lambda>i. bind_sum (req (sc_scatter_idx (pc_config p))) (\<lambda>j. Inr (i \<noteq> j)))"

section \<open>Numbers of a phase\<close>

definition get_vc_for_multicast :: "phase_config \<Rightarrow> u32" where
  "get_vc_for_multicast p =
     value_or (sc_vc (pc_config p)) c_noc_virtual_channel_default_multicast AND c_noc_virtual_channel_multicast_mask"

definition get_untilize_copy_iters :: "phase_config \<Rightarrow> u32" where
  "get_untilize_copy_iters p = get_tile_dim_r p div 2"

text \<open>
  The logarithm, rounded to the nearest: \<open>k\<close> for an \<open>n\<close> between the roots of \<open>2 ^ (2 * k - 1)\<close> and
  \<open>2 ^ (2 * k + 1)\<close>, by the number of digits of the square.
\<close>

fun bit_count :: "nat \<Rightarrow> nat" where
  "bit_count n = (if n = 0 then 0 else Suc (bit_count (n div 2)))"

declare bit_count.simps [simp del]

definition get_log_2x_untilize_copy_iters :: "phase_config \<Rightarrow> u32" where
  "get_log_2x_untilize_copy_iters p = word_of_nat (bit_count (unat (get_tile_dim_r p) * unat (get_tile_dim_r p)) div 2)"

definition get_msg_info_buf_addr_end :: "phase_config \<Rightarrow> blob_error + u32" where
  "get_msg_info_buf_addr_end p =
     bind_sum (req (sc_msg_info_buf_addr (pc_config p))) (\<lambda>a.
     bind_sum (get_num_msgs p) (\<lambda>n. Inr (a div MEM_WORD_BYTES + n)))"

definition get_all_msgs_size :: "phase_config \<Rightarrow> blob_error + u32" where
  "get_all_msgs_size p = bind_sum (get_num_msgs p) (\<lambda>n. Inr (n * get_msg_size p))"

definition get_all_msgs_not_fit_into_buffer :: "phase_config \<Rightarrow> blob_error + bool" where
  "get_all_msgs_not_fit_into_buffer p =
     bind_sum (req (sc_buffer_size (pc_config p))) (\<lambda>b. bind_sum (get_all_msgs_size p) (\<lambda>n. Inr (b > n)))"

definition get_mblock_size :: "phase_config \<Rightarrow> blob_error + u32" where
  "get_mblock_size p = bind_sum (get_buf_full_size_bytes p) (\<lambda>n. udiv n (get_num_mblock_buffering p))"

definition get_num_iters_in_epoch :: "phase_config \<Rightarrow> blob_error + u32" where
  "get_num_iters_in_epoch p =
     (if get_is_scatter_pack p
      then bind_sum (req (sc_num_unroll_iter (pc_config p))) (\<lambda>u.
           bind_sum (req (sc_padding_scatter_order_size (pc_config p))) (\<lambda>o'.
             Inr (get_num_iters_in_epoch_field p * (u * o'))))
      else Inr (get_num_iters_in_epoch_field p))"

text \<open>The epoch in the high half of a phase id and the phase in the low one, packed for the firmware.\<close>

definition get_wrap_phase_id :: "phase_config \<Rightarrow> u32" where
  "get_wrap_phase_id p =
     (let epoch_num = ucast (drop_bit epoch_id_phase_shift (pc_phase_id p)) :: u32;
          phase_mask = push_bit c_epoch_id_phase_shift_firmware 1 - 1 :: u32;
          wrapped_phase_id = ucast (pc_phase_id p AND ucast phase_mask) :: u32
      in push_bit c_epoch_id_phase_shift_firmware (epoch_num mod c_epoch_max) OR wrapped_phase_id)"

definition extract_epoch :: "u64 \<Rightarrow> u32" where
  "extract_epoch phase_id =
     ucast (push_bit c_epoch_id_phase_shift_firmware (drop_bit c_epoch_id_phase_shift_firmware phase_id))"

definition is_epoch_changed :: "u64 \<Rightarrow> phase_config \<Rightarrow> bool" where
  "is_epoch_changed prev_phase_id p \<longleftrightarrow> extract_epoch (pc_phase_id p) \<noteq> extract_epoch prev_phase_id"

definition is_phase_wrapped :: "u64 \<Rightarrow> phase_config \<Rightarrow> bool" where
  "is_phase_wrapped prev_phase_id p \<longleftrightarrow>
     (ucast (pc_phase_id p - prev_phase_id) :: u32) \<ge> WRAPPED_PHASE_LIMIT \<or> is_epoch_changed prev_phase_id p"

definition get_is_fork_stream_id :: "u32 \<Rightarrow> phase_config \<Rightarrow> bool" where
  "get_is_fork_stream_id stream_id p \<longleftrightarrow> list_ex (\<lambda>n. sn_stream_id n = stream_id) (get_fork_streams p)"

definition flag :: "bool \<Rightarrow> u32 \<Rightarrow> u32" where
  "flag b n = (if b then n else 0)"

definition get_stream_flags :: "u32 \<Rightarrow> phase_config \<Rightarrow> u32" where
  "get_stream_flags stream_id p =
     flag (get_intermediate p) 0x10 OR flag (get_moves_raw_data p) 0x40 OR flag (get_is_fork_stream_id stream_id p) 0x100
     OR flag (get_is_brisc_pack p) 0x400 OR flag (get_dram_output_no_push p \<or> get_dram_input_no_push p) 0x800
     OR flag (get_ncrisc_clear p) 0x1000"

section \<open>Destinations and sources\<close>

definition get_dest_mcast_first_stream :: "phase_config \<Rightarrow> blob_error + stream_ref" where
  "get_dest_mcast_first_stream p =
     bind_sum (log_assert (has_dest_mcast_streams p)) (\<lambda>_. Inr (hd (get_dest_stream_nodes p)))"

definition get_dest_mcast_last_stream :: "phase_config \<Rightarrow> blob_error + stream_ref" where
  "get_dest_mcast_last_stream p =
     bind_sum (log_assert (has_dest_mcast_streams p)) (\<lambda>_. Inr (last (get_dest_stream_nodes p)))"

definition get_dest_single_stream :: "phase_config \<Rightarrow> blob_error + stream_ref" where
  "get_dest_single_stream p =
     bind_sum (log_assert (length (get_dest_stream_nodes p) = 1)) (\<lambda>_. Inr (hd (get_dest_stream_nodes p)))"

definition get_dest_any_stream :: "phase_config \<Rightarrow> blob_error + stream_ref" where
  "get_dest_any_stream p =
     (if has_dest_mcast_streams p then get_dest_mcast_first_stream p else get_dest_single_stream p)"

definition get_dest_any_stream_optional :: "phase_config \<Rightarrow> stream_ref option" where
  "get_dest_any_stream_optional p = (case get_dest_stream_nodes p of [] \<Rightarrow> None | n # ns \<Rightarrow> Some n)"

definition get_dest_stream_id :: "phase_config \<Rightarrow> blob_error + u32" where
  "get_dest_stream_id p =
     (if has_dest_mcast_streams p
      then bind_sum (get_dest_mcast_first_stream p) (\<lambda>a. bind_sum (get_dest_mcast_last_stream p) (\<lambda>b.
             bind_sum (log_assert (sn_stream_id a = sn_stream_id b)) (\<lambda>_. Inr (sn_stream_id a))))
      else bind_sum (get_dest_single_stream p) (\<lambda>n. Inr (sn_stream_id n)))"

text \<open>A pointer that may be null is followed.\<close>

definition deref :: "stream_ref option \<Rightarrow> blob_error + stream_ref" where
  "deref n = (case n of None \<Rightarrow> Inl BlobUndefined | Some v \<Rightarrow> Inr v)"

definition get_datacopy_stream_type :: "phase_config \<Rightarrow> 8 word" where
  "get_datacopy_stream_type p =
     (if sc_space_shared_with_stream (pc_config p) \<noteq> None then (if get_remote_receiver p then 1 else 2) else 0)
     OR (if get_use_ethernet_fw_stream p
            \<and> (is_eth_firmware_sender p \<or> has_remote_receiver p \<and> is_eth_firmware_receiver p) then 4 else 0)"

definition get_eth_remote_fw_stream_id :: "phase_config \<Rightarrow> blob_error + u32" where
  "get_eth_remote_fw_stream_id p =
     (if is_eth_firmware_sender p then bind_sum (get_dest_any_stream p) (\<lambda>n. Inr (sn_stream_id n))
      else if has_remote_receiver p \<and> is_eth_firmware_receiver p
      then bind_sum (deref (get_src_stream_node p)) (\<lambda>n. Inr (sn_stream_id n))
      else Inr 0)"

section \<open>All the phases of a stream\<close>

text \<open>An ordered map is the list of its entries in their order.\<close>

type_synonym phases = "(u64 \<times> phase_config) list"

fun get_epoch_num_msgs :: "phases \<Rightarrow> blob_error + u32" where
  "get_epoch_num_msgs [] = Inr 0"
| "get_epoch_num_msgs ((phase_id, p) # ps) =
     bind_sum (get_num_msgs p) (\<lambda>n. bind_sum (get_epoch_num_msgs ps) (\<lambda>m. Inr (n * get_num_iters_in_epoch_field p + m)))"

definition get_num_iter_tiles :: "phases \<Rightarrow> blob_error + u32" where
  "get_num_iter_tiles ps =
     (if ps = [] then Inl BlobUndefined
      else bind_sum (get_epoch_num_msgs ps) (\<lambda>n. udiv n (get_num_iters_in_epoch_field (snd (last ps)))))"

end
