(* ===== verification/DramConfigs.thy ===== *)
theory DramConfigs
  imports StreamConfigs ScatterCompressor
begin

text \<open>
  Addresses on the network (\<open>helpers/noc_helper.h\<close>, \<open>noc_helper.cpp\<close>), the numbers blobgen2 derives from the
  configuration of a DRAM buffer (\<open>helpers/ncrisc_config_helper.cpp\<close>), and what it asks of the chip
  (\<open>helpers/soc_helper.h\<close>).
\<close>

section \<open>The network\<close>

type_synonym xy = "u64 \<times> u64"

record noc_helper =
  m_noc_translation_id_enabled :: bool
  m_physical_grid_size :: xy

definition NOC_ADDR_LOCAL_BITS :: nat where "NOC_ADDR_LOCAL_BITS = 36"
definition NOC_ID_WIDTH :: nat where "NOC_ID_WIDTH = 6"
definition wh_harvested_translation_offset :: u64 where "wh_harvested_translation_offset = 16"

definition c_noc_id_mask :: u64 where
  "c_noc_id_mask = push_bit NOC_ID_WIDTH 1 - 1"

definition c_noc_addr_local_mask :: u64 where
  "c_noc_addr_local_mask = push_bit NOC_ADDR_LOCAL_BITS 1 - 1"

definition get_ethernet_noc_coords :: xy where
  "get_ethernet_noc_coords = (c_noc_id_mask AND (- 1), c_noc_id_mask AND (- 1))"

definition noc1_x_id :: "noc_helper \<Rightarrow> u64 \<Rightarrow> u64" where
  "noc1_x_id h x =
     (if m_noc_translation_id_enabled h \<and> x \<ge> wh_harvested_translation_offset then x else fst (m_physical_grid_size h) - 1 - x)"

definition noc1_y_id :: "noc_helper \<Rightarrow> u64 \<Rightarrow> u64" where
  "noc1_y_id h y =
     (if m_noc_translation_id_enabled h \<and> y \<ge> wh_harvested_translation_offset then y else snd (m_physical_grid_size h) - 1 - y)"

definition core_xy :: "tt_cxy_pair \<Rightarrow> xy" where
  "core_xy c = (word_of_nat (cxy_x c), word_of_nat (cxy_y c))"

definition get_noc1_coords :: "noc_helper \<Rightarrow> tt_cxy_pair \<Rightarrow> xy" where
  "get_noc1_coords h c = (noc1_x_id h (fst (core_xy c)), noc1_y_id h (snd (core_xy c)))"

text \<open>An address: the rest, the two coordinates, and the address at the node.\<close>

definition modify_dram_noc_addr :: "noc_helper \<Rightarrow> u64 \<Rightarrow> NOC_ROUTE \<Rightarrow> u64" where
  "modify_dram_noc_addr h dram_addr noc_id =
     (let addr = dram_addr AND c_noc_addr_local_mask;
          noc_x = drop_bit NOC_ADDR_LOCAL_BITS dram_addr AND c_noc_id_mask;
          noc_y = drop_bit (NOC_ADDR_LOCAL_BITS + NOC_ID_WIDTH) dram_addr AND c_noc_id_mask;
          rest = drop_bit (NOC_ADDR_LOCAL_BITS + NOC_ID_WIDTH + NOC_ID_WIDTH) dram_addr;
          x = (if noc_id = NOC1 then noc1_x_id h noc_x else noc_x);
          y = (if noc_id = NOC1 then noc1_y_id h noc_y else noc_y)
      in push_bit (NOC_ADDR_LOCAL_BITS + NOC_ID_WIDTH + NOC_ID_WIDTH) rest
         OR push_bit (NOC_ADDR_LOCAL_BITS + NOC_ID_WIDTH) y OR push_bit NOC_ADDR_LOCAL_BITS x OR addr)"

section \<open>The chip\<close>

text \<open>
  What the SoC descriptors say; the addresses are those of the memory maps of the build. The alignment of
  the network is one of them.
\<close>

record soc_helper =
  is_ethernet_core :: "tt_cxy_pair \<Rightarrow> bool"
  get_overlay_version :: "nat \<Rightarrow> u32"
  get_noc_translation_id_enabled :: "nat \<Rightarrow> bool"
  get_physical_grid_size :: "nat \<Rightarrow> xy"
  get_chip_ids :: "nat list"
  get_worker_cores :: "nat \<Rightarrow> tt_cxy_pair list"
  get_ethernet_cores :: "nat \<Rightarrow> tt_cxy_pair list"
  noc_address_alignment :: u32
  l1_overlay_blob_base :: u32
  l1_overlay_blob_size :: u32
  eth_overlay_blob_base :: u32
  eth_overlay_blob_size :: u32

definition get_overlay_start_address :: "soc_helper \<Rightarrow> tt_cxy_pair \<Rightarrow> u32" where
  "get_overlay_start_address soc core = (if is_ethernet_core soc core then eth_overlay_blob_base soc else l1_overlay_blob_base soc)"

definition get_dummy_phase_address :: "soc_helper \<Rightarrow> tt_cxy_pair \<Rightarrow> u32" where
  "get_dummy_phase_address soc core =
     get_overlay_start_address soc core
     + (case offset_of (epoch_decl (unat (noc_address_alignment soc))) ''dummy_phase_tile_header_and_data'' of
          None \<Rightarrow> 0 | Some off \<Rightarrow> word_of_nat off)"

definition get_noc_helper :: "soc_helper \<Rightarrow> nat \<Rightarrow> noc_helper" where
  "get_noc_helper soc chip =
     \<lparr>m_noc_translation_id_enabled = get_noc_translation_id_enabled soc chip, m_physical_grid_size = get_physical_grid_size soc chip\<rparr>"

section \<open>Coordinates of the other end of a stream\<close>

definition get_stream_source_coords :: "noc_helper \<Rightarrow> tt_cxy_pair \<Rightarrow> phase_config \<Rightarrow> blob_error + xy" where
  "get_stream_source_coords h core p =
     bind_sum (deref (get_src_stream_node p)) (\<lambda>src.
     bind_sum (log_assert (get_eth_receiver p \<or> cxy_chip (sn_physical_location src) = cxy_chip core)) (\<lambda>_.
       if get_eth_receiver p then Inr get_ethernet_noc_coords
       else bind_sum (get_remote_src_update_noc p) (\<lambda>noc.
         Inr (if noc = NOC1 then get_noc1_coords h (sn_physical_location src) else core_xy (sn_physical_location src)))))"

definition get_remote_dest_coords :: "noc_helper \<Rightarrow> tt_cxy_pair \<Rightarrow> phase_config \<Rightarrow> blob_error + xy" where
  "get_remote_dest_coords h core p =
     (let same_chip = (\<lambda>n. log_assert (get_eth_sender p \<or> cxy_chip (sn_physical_location n) = cxy_chip core));
          coords = (\<lambda>dest dest2.
            if get_eth_sender p then get_ethernet_noc_coords
            else if get_outgoing_data_noc p = NOC1
            then get_noc1_coords h (sn_physical_location (if has_dest_mcast_streams p then dest2 else dest))
            else core_xy (sn_physical_location dest))
      in if has_dest_mcast_streams p
         then bind_sum (get_dest_mcast_first_stream p) (\<lambda>a. bind_sum (get_dest_mcast_last_stream p) (\<lambda>b.
              bind_sum (same_chip b) (\<lambda>_. bind_sum (same_chip a) (\<lambda>_. Inr (coords a b)))))
         else bind_sum (get_dest_single_stream p) (\<lambda>a. bind_sum (same_chip a) (\<lambda>_. Inr (coords a a))))"

definition get_dest_noc_coords :: "noc_helper \<Rightarrow> phase_config \<Rightarrow> blob_error + xy" where
  "get_dest_noc_coords h p =
     (if get_eth_sender p then Inr get_ethernet_noc_coords
      else if get_outgoing_data_noc p = NOC1
      then bind_sum (get_dest_mcast_first_stream p) (\<lambda>n. Inr (get_noc1_coords h (sn_physical_location n)))
      else bind_sum (get_dest_mcast_last_stream p) (\<lambda>n. Inr (core_xy (sn_physical_location n))))"

section \<open>DRAM buffers\<close>

definition c_l1_size_log2 :: nat where "c_l1_size_log2 = 20"

definition has_dram_scatter_offsets :: "ncrisc_config \<Rightarrow> bool" where
  "has_dram_scatter_offsets n \<longleftrightarrow> nc_dram_scatter_offsets n \<noteq> None"

definition reader_index :: "ncrisc_config \<Rightarrow> u32" where
  "reader_index n = value_or (nc_reader_index n) 0"

definition total_readers :: "ncrisc_config \<Rightarrow> u32" where
  "total_readers n = value_or (nc_total_readers n) 1"

definition get_dram_scatter_chunk_size_tiles :: "ncrisc_config \<Rightarrow> u32" where
  "get_dram_scatter_chunk_size_tiles n = value_or (nc_dram_scatter_chunk_size_tiles n) 0"

definition get_dram_scatter_offsets_full_size :: "ncrisc_config \<Rightarrow> u32" where
  "get_dram_scatter_offsets_full_size n = value_or (nc_dram_scatter_offsets_full_size n) 0"

definition ncrisc_stream_flags :: "ncrisc_config \<Rightarrow> u32" where
  "ncrisc_stream_flags n =
     flag (value_or (nc_dram_io n) False) 0x2 OR flag (value_or (nc_dram_input n) False) 0x4
     OR flag (value_or (nc_dram_output n) False) 0x8 OR flag (value_or (nc_dram_streaming n) False) 0x20
     OR flag (value_or (nc_dram_ram n) False) 0x200"

definition get_dram_q_slot_size_tiles :: "ncrisc_config \<Rightarrow> u32" where
  "get_dram_q_slot_size_tiles n =
     (if nc_dram_buf_size_q_slots n > 0 then nc_dram_buf_size_tiles n div nc_dram_buf_size_q_slots n else 1)"

definition get_num_scatter_offsets :: "phase_config \<Rightarrow> ncrisc_config \<Rightarrow> u32" where
  "get_num_scatter_offsets p n =
     (if has_scatter_list_stream_id p then get_scatter_list_indicies_per_input p
      else get_dram_scatter_offsets_full_size n * (if get_hw_tilize p then get_c_dim_size p else 1))"

definition get_dram_q_slot_size_tiles_single_scatter :: "phase_config \<Rightarrow> ncrisc_config \<Rightarrow> blob_error + u32" where
  "get_dram_q_slot_size_tiles_single_scatter p n =
     bind_sum (req (nc_dram_scatter_chunk_size_tiles n)) (\<lambda>k.
       Inr (k * (if get_hw_tilize p then 1 else get_num_scatter_inner_loop p)))"

definition get_dram_q_slot_size_tiles_of_phase :: "phase_config \<Rightarrow> ncrisc_config \<Rightarrow> blob_error + u32" where
  "get_dram_q_slot_size_tiles_of_phase p n =
     (if get_moves_raw_data p then Inr (get_batch_dim_size p)
      else if has_dram_scatter_offsets n
      then bind_sum (get_dram_q_slot_size_tiles_single_scatter p n) (\<lambda>k. Inr (get_num_scatter_offsets p n * k))
      else Inr (get_dram_q_slot_size_tiles n))"

definition get_epoch_q_slots_remaining_non_dram_scatter ::
  "phase_config \<Rightarrow> phases \<Rightarrow> ncrisc_config \<Rightarrow> blob_error + u32" where
  "get_epoch_q_slots_remaining_non_dram_scatter p ps n =
     bind_sum (get_epoch_num_msgs ps) (\<lambda>m.
     bind_sum (udiv (get_dram_q_slot_size_tiles n) (get_total_strides p)) (\<lambda>k. udiv m k))"

definition get_epoch_q_slots_remaining :: "phase_config \<Rightarrow> phases \<Rightarrow> ncrisc_config \<Rightarrow> blob_error + u32" where
  "get_epoch_q_slots_remaining p ps n =
     (if \<not> get_moves_raw_data p \<and> has_dram_scatter_offsets n
      then bind_sum (get_epoch_num_msgs ps) (\<lambda>m.
           bind_sum (get_dram_q_slot_size_tiles_single_scatter p n) (\<lambda>k.
           bind_sum (udiv m (get_num_scatter_offsets p n * k)) (\<lambda>q.
           bind_sum (log_assert (m mod (get_num_scatter_offsets p n * k) = 0)) (\<lambda>_. Inr q))))
      else get_epoch_q_slots_remaining_non_dram_scatter p ps n)"

definition get_dram_q_slot_size_bytes :: "ncrisc_config \<Rightarrow> u32" where
  "get_dram_q_slot_size_bytes n = get_dram_q_slot_size_tiles n * nc_msg_size n"

definition get_scatter_chunk_size_bytes :: "ncrisc_config \<Rightarrow> u32" where
  "get_scatter_chunk_size_bytes n = get_dram_scatter_chunk_size_tiles n * nc_msg_size n"

definition get_modified_dram_addr :: "noc_helper \<Rightarrow> phase_config \<Rightarrow> ncrisc_config \<Rightarrow> u64 \<Rightarrow> u64" where
  "get_modified_dram_addr h p n addr =
     modify_dram_noc_addr h addr
       (if value_or (nc_dram_output n) False then get_outgoing_data_noc p else get_incoming_data_noc p)"

definition get_dram_buf_noc_addr :: "noc_helper \<Rightarrow> phase_config \<Rightarrow> ncrisc_config \<Rightarrow> u64" where
  "get_dram_buf_noc_addr h p n = get_modified_dram_addr h p n (nc_dram_buf_noc_addr n)"

text \<open>With a scatter list only the first offset is returned.\<close>

definition get_dram_scatter_offsets :: "noc_helper \<Rightarrow> phase_config \<Rightarrow> ncrisc_config \<Rightarrow> blob_error + u64 list" where
  "get_dram_scatter_offsets h p n =
     bind_sum (req (nc_dram_scatter_offsets n)) (\<lambda>offs.
       Inr (map (\<lambda>off. if \<not> get_hw_tilize p \<and> off AND dram_io_is_scatter_loop_flag = 0 then get_modified_dram_addr h p n off
                        else off)
              (if has_scatter_list_stream_id p then take 1 offs else offs)))"

definition get_data_chunk_size_tiles :: "ncrisc_config \<Rightarrow> blob_error + u32" where
  "get_data_chunk_size_tiles n =
     (if value_or (nc_dram_output n) False then req (nc_dram_buf_write_chunk_size_tiles n)
      else req (nc_dram_buf_read_chunk_size_tiles n))"

definition get_data_chunk_size_bytes :: "phase_config \<Rightarrow> ncrisc_config \<Rightarrow> blob_error + u32" where
  "get_data_chunk_size_bytes p n =
     (if get_moves_raw_data p then req (nc_dram_buf_write_row_chunk_size_bytes n)
      else bind_sum (get_data_chunk_size_tiles n) (\<lambda>k. Inr (k * get_msg_size p)))"

definition get_dram_streaming_epoch_id :: "u64 \<Rightarrow> ncrisc_config \<Rightarrow> u32" where
  "get_dram_streaming_epoch_id first_phase_id n =
     (if value_or (nc_dram_input n) False \<and> value_or (nc_dram_streaming n) False
      then ucast (drop_bit epoch_id_phase_shift first_phase_id) else 0)"

definition get_dram_streaming_header_addr :: "noc_helper \<Rightarrow> phase_config \<Rightarrow> u32 \<Rightarrow> ncrisc_config \<Rightarrow> u64" where
  "get_dram_streaming_header_addr h p desired_header_addr n =
     push_bit c_l1_size_log2 (drop_bit c_l1_size_log2 (get_dram_buf_noc_addr h p n)) OR ucast desired_header_addr"

definition dram_num_msgs :: "ncrisc_config list \<Rightarrow> u32" where
  "dram_num_msgs ns = sum_list (map nc_num_msgs ns)"

definition has_multi_readers :: "ncrisc_config list \<Rightarrow> bool" where
  "has_multi_readers ns \<longleftrightarrow> list_ex (\<lambda>n. value_or (nc_total_readers n) 1 > 1) ns"

end
