(* ===== verification/PhaseBlobs.thy ===== *)
theory PhaseBlobs
  imports DramConfigs OperandStreams
begin

text \<open>
  The register writes that configure a stream for a phase
  (\<open>overlay_generation/phase_blob_filler.cpp\<close>, and for Wormhole
  \<open>wormhole_b0/phase_blob_filler_arch_specific.cpp\<close> with the registers of
  \<open>firmware/riscv/wormhole/noc/noc_overlay_parameters.h\<close>).
\<close>

section \<open>Registers\<close>

definition STREAM_REMOTE_SRC_REG_INDEX :: "8 word" where "STREAM_REMOTE_SRC_REG_INDEX = 0"
definition STREAM_REMOTE_SRC_PHASE_REG_INDEX :: "8 word" where "STREAM_REMOTE_SRC_PHASE_REG_INDEX = 1"
definition STREAM_REMOTE_DEST_REG_INDEX :: "8 word" where "STREAM_REMOTE_DEST_REG_INDEX = 2"
definition STREAM_LOCAL_DEST_REG_INDEX :: "8 word" where "STREAM_LOCAL_DEST_REG_INDEX = 2"
definition STREAM_REMOTE_DEST_BUF_START_REG_INDEX :: "8 word" where "STREAM_REMOTE_DEST_BUF_START_REG_INDEX = 3"
definition STREAM_REMOTE_DEST_BUF_SIZE_REG_INDEX :: "8 word" where "STREAM_REMOTE_DEST_BUF_SIZE_REG_INDEX = 4"
definition STREAM_BUF_START_REG_INDEX :: "8 word" where "STREAM_BUF_START_REG_INDEX = 6"
definition STREAM_BUF_SIZE_REG_INDEX :: "8 word" where "STREAM_BUF_SIZE_REG_INDEX = 7"
definition STREAM_MSG_INFO_PTR_REG_INDEX :: "8 word" where "STREAM_MSG_INFO_PTR_REG_INDEX = 8"
definition STREAM_REMOTE_DEST_MSG_INFO_WR_PTR_REG_INDEX :: "8 word" where "STREAM_REMOTE_DEST_MSG_INFO_WR_PTR_REG_INDEX = 9"
definition STREAM_MISC_CFG_REG_INDEX :: "8 word" where "STREAM_MISC_CFG_REG_INDEX = 10"
definition STREAM_CURR_PHASE_REG_INDEX :: "8 word" where "STREAM_CURR_PHASE_REG_INDEX = 11"
definition STREAM_PHASE_AUTO_CFG_PTR_REG_INDEX :: "8 word" where "STREAM_PHASE_AUTO_CFG_PTR_REG_INDEX = 12"
definition STREAM_MCAST_DEST_REG_INDEX :: "8 word" where "STREAM_MCAST_DEST_REG_INDEX = 13"
definition STREAM_MCAST_DEST_NUM_REG_INDEX :: "8 word" where "STREAM_MCAST_DEST_NUM_REG_INDEX = 14"
definition STREAM_GATHER_REG_INDEX :: "8 word" where "STREAM_GATHER_REG_INDEX = 15"
definition STREAM_MSG_SRC_IN_ORDER_FWD_NUM_MSGS_REG_INDEX :: "8 word" where "STREAM_MSG_SRC_IN_ORDER_FWD_NUM_MSGS_REG_INDEX = 16"
definition STREAM_WR_PTR_REG_INDEX :: "8 word" where "STREAM_WR_PTR_REG_INDEX = 25"
definition STREAM_MSG_INFO_WR_PTR_REG_INDEX :: "8 word" where "STREAM_MSG_INFO_WR_PTR_REG_INDEX = 26"
definition STREAM_MEM_BUF_SPACE_AVAILABLE_ACK_THRESHOLD_REG_INDEX :: "8 word" where
  "STREAM_MEM_BUF_SPACE_AVAILABLE_ACK_THRESHOLD_REG_INDEX = 40"
definition STREAM_GATHER_CLEAR_REG_INDEX :: "8 word" where "STREAM_GATHER_CLEAR_REG_INDEX = 43"
definition STREAM_REMOTE_DEST_TRAFFIC_PRIORITY_REG_INDEX :: "8 word" where "STREAM_REMOTE_DEST_TRAFFIC_PRIORITY_REG_INDEX = 44"
definition STREAM_LOCAL_SRC_MASK_REG_INDEX :: "8 word" where "STREAM_LOCAL_SRC_MASK_REG_INDEX = 48"

definition STREAM_REG_CFG_DATA_WIDTH :: nat where "STREAM_REG_CFG_DATA_WIDTH = 24"

definition configure_4_byte_register :: "8 word \<Rightarrow> u32 \<Rightarrow> u32" where
  "configure_4_byte_register reg_index reg_val = push_bit 8 reg_val OR ucast reg_index"

text \<open>The header of a phase: writes of the next phase, messages of this one, step of the phase number.\<close>

definition blob_header_dw :: "u32 \<Rightarrow> u32 \<Rightarrow> u32 \<Rightarrow> u32" where
  "blob_header_dw next_phase_num_cfg_reg_writes curr_phase_num_msgs phase_num_incr =
     push_bit 24 next_phase_num_cfg_reg_writes OR push_bit 12 curr_phase_num_msgs OR phase_num_incr"

definition intermediates_blob_loop_dw :: "u32 \<Rightarrow> u32" where
  "intermediates_blob_loop_dw phase_start_addr = configure_4_byte_register STREAM_PHASE_AUTO_CFG_PTR_REG_INDEX phase_start_addr"

definition stream_gather_clear :: "u32 \<Rightarrow> u32 \<Rightarrow> u32" where
  "stream_gather_clear local_stream_clear_num msg_group_stream_clear_type =
     local_stream_clear_num OR push_bit 16 msg_group_stream_clear_type"

definition modify_blob_dw :: "u32 \<Rightarrow> u32 \<Rightarrow> u32 \<Rightarrow> u32 \<Rightarrow> u32" where
  "modify_blob_dw blob_dw reg_index keep val =
     (if blob_dw AND 0xFF = reg_index
      then configure_4_byte_register (ucast reg_index) (drop_bit 8 blob_dw AND keep OR val) else blob_dw)"

definition PHASE_AUTO_CONFIG :: nat where "PHASE_AUTO_CONFIG = 9"

definition set_auto_cfg :: "u32 \<Rightarrow> u32 \<Rightarrow> u32" where
  "set_auto_cfg blob_dw val =
     modify_blob_dw blob_dw (ucast STREAM_MISC_CFG_REG_INDEX) (NOT (push_bit PHASE_AUTO_CONFIG 1)) (push_bit PHASE_AUTO_CONFIG val)"

definition stream_gather :: "u32 \<Rightarrow> u32 \<Rightarrow> u32" where
  "stream_gather arb_group_size src_in_order_fwd = arb_group_size OR push_bit 3 src_in_order_fwd"

definition stream_remote_src :: "xy \<Rightarrow> u32 \<Rightarrow> u32 \<Rightarrow> u32" where
  "stream_remote_src c stream_id dest_index =
     ucast (fst c) OR push_bit 6 (ucast (snd c)) OR push_bit 12 stream_id OR push_bit 18 dest_index"

definition stream_remote_dest :: "xy \<Rightarrow> u32 \<Rightarrow> u32" where
  "stream_remote_dest c dest_stream_id = ucast (fst c) OR push_bit 6 (ucast (snd c)) OR push_bit 12 dest_stream_id"

definition stream_mcast_dest_v2 :: "bool \<Rightarrow> xy \<Rightarrow> phase_config \<Rightarrow> blob_error + u32" where
  "stream_mcast_dest_v2 mcast_en dest_end p =
     bind_sum (log_assert (\<not> mcast_en \<or> get_vc_for_multicast p \<noteq> 1)) (\<lambda>_. Inr
       (push_bit 12 (of_bool mcast_en) OR ucast (fst dest_end) OR push_bit 6 (ucast (snd dest_end))
        OR push_bit 13 (of_bool (get_linked p)) OR push_bit 14 (get_vc_for_multicast p)))"

definition stream_mcast_dest_v1 :: "bool \<Rightarrow> xy \<Rightarrow> phase_config \<Rightarrow> blob_error + u32" where
  "stream_mcast_dest_v1 mcast_en dest_end p =
     bind_sum (log_assert (\<not> mcast_en \<or> get_vc_for_multicast p \<noteq> 1)) (\<lambda>_. Inr
       (push_bit 12 (of_bool mcast_en) OR ucast (fst dest_end) OR push_bit 6 (ucast (snd dest_end))
        OR get_arb_group_size p OR push_bit 13 (of_bool (get_linked p)) OR push_bit 14 (get_vc_for_multicast p)))"

definition stream_mcast_dest :: "u32 \<Rightarrow> bool \<Rightarrow> xy \<Rightarrow> phase_config \<Rightarrow> blob_error + u32" where
  "stream_mcast_dest overlay_version mcast_en dest_end p =
     (if overlay_version > 1 then stream_mcast_dest_v2 mcast_en dest_end p else stream_mcast_dest_v1 mcast_en dest_end p)"

definition dummy_phase :: "u64 \<Rightarrow> u32" where
  "dummy_phase phase_num =
     (let epoch_num = ucast (drop_bit epoch_id_phase_shift phase_num) :: u32;
          phase_mask = push_bit c_epoch_id_phase_shift_firmware 1 - 1
      in push_bit c_epoch_id_phase_shift_firmware 0x1F OR (epoch_num AND phase_mask))"

section \<open>Writing a register\<close>

text \<open>
  Steps on the blob of the phase in their order, each with a condition; a value that throws makes its
  step throw.
\<close>

type_synonym step = "blob_section \<Rightarrow> blob_error + blob_section"

definition in_order :: "step list \<Rightarrow> step" where
  "in_order = fold_sum (\<lambda>f s. f s)"

definition guarded :: "bool \<Rightarrow> step \<Rightarrow> step" where
  "guarded b f = (if b then f else Inr)"

definition cfg :: "string \<Rightarrow> 8 word \<Rightarrow> u32 \<Rightarrow> step" where
  "cfg name reg_index reg_val = append_named 32 name (append_u32 (configure_4_byte_register reg_index reg_val))"

definition cfg_of :: "string \<Rightarrow> 8 word \<Rightarrow> blob_error + u32 \<Rightarrow> step" where
  "cfg_of name reg_index v s = bind_sum v (\<lambda>d. cfg name reg_index d s)"

definition in_words :: "blob_error + u32 \<Rightarrow> blob_error + u32" where
  "in_words v = bind_sum v (\<lambda>d. Inr (d div MEM_WORD_BYTES))"

section \<open>The miscellaneous register\<close>

text \<open>An invalid network has the number of all ones, shifted as the compilers do.\<close>

definition noc_number :: "NOC_ROUTE \<Rightarrow> u32" where
  "noc_number noc = (case noc of NOC0 \<Rightarrow> 0 | NOC1 \<Rightarrow> 1 | NOC_INVALID \<Rightarrow> - 1)"

record misc_cfg =
  mc_incoming_data_noc :: NOC_ROUTE
  mc_outgoing_data_noc :: NOC_ROUTE
  mc_remote_src_update_noc :: NOC_ROUTE
  mc_local_sources_connected :: bool
  mc_source_endpoint :: bool
  mc_remote_source :: bool
  mc_receiver_endpoint :: bool
  mc_local_receiver :: bool
  mc_remote_receiver :: bool
  mc_phase_auto_config :: bool
  mc_phase_auto_advance :: bool
  mc_data_auto_send :: bool
  mc_next_phase_src_change :: bool
  mc_next_phase_dest_change :: bool
  mc_data_buf_no_flow_ctrl :: bool
  mc_dest_data_buf_no_flow_ctrl :: bool
  mc_remote_src_is_mcast :: bool
  mc_no_prev_phase_outgoing_data_flush :: bool
  mc_unicast_vc_reg :: u32
  mc_reg_update_vc_reg :: u32

definition misc_cfg_value :: "misc_cfg \<Rightarrow> u32" where
  "misc_cfg_value m =
     noc_number (mc_incoming_data_noc m) OR push_bit 1 (noc_number (mc_outgoing_data_noc m))
     OR push_bit 2 (noc_number (mc_remote_src_update_noc m)) OR push_bit 3 (of_bool (mc_local_sources_connected m))
     OR push_bit 4 (of_bool (mc_source_endpoint m)) OR push_bit 5 (of_bool (mc_remote_source m))
     OR push_bit 6 (of_bool (mc_receiver_endpoint m)) OR push_bit 7 (of_bool (mc_local_receiver m))
     OR push_bit 8 (of_bool (mc_remote_receiver m)) OR push_bit PHASE_AUTO_CONFIG (of_bool (mc_phase_auto_config m))
     OR push_bit 10 (of_bool (mc_phase_auto_advance m)) OR push_bit 11 (of_bool (mc_data_auto_send m))
     OR push_bit 12 (of_bool (mc_next_phase_src_change m)) OR push_bit 13 (of_bool (mc_next_phase_dest_change m))
     OR push_bit 14 (of_bool (mc_data_buf_no_flow_ctrl m)) OR push_bit 15 (of_bool (mc_dest_data_buf_no_flow_ctrl m))
     OR push_bit 16 (of_bool (mc_remote_src_is_mcast m)) OR push_bit 17 (of_bool (mc_no_prev_phase_outgoing_data_flush m))
     OR push_bit 18 (mc_unicast_vc_reg m) OR push_bit 21 (mc_reg_update_vc_reg m)"

definition setup_misc_cfg_reg :: "misc_cfg \<Rightarrow> step" where
  "setup_misc_cfg_reg m = cfg ''STREAM_MISC_CFG_REG_INDEX'' STREAM_MISC_CFG_REG_INDEX (misc_cfg_value m)"

definition misc_cfg_of_phase :: "phase_config \<Rightarrow> NOC_ROUTE \<Rightarrow> misc_cfg" where
  "misc_cfg_of_phase p update_noc =
     \<lparr>mc_incoming_data_noc = get_incoming_data_noc_for_stream_reg p,
      mc_outgoing_data_noc = get_outgoing_data_noc_for_stream_reg p, mc_remote_src_update_noc = update_noc,
      mc_local_sources_connected = get_local_sources_connected p, mc_source_endpoint = get_source_endpoint p,
      mc_remote_source = get_remote_source p, mc_receiver_endpoint = get_receiver_endpoint p,
      mc_local_receiver = get_local_receiver p, mc_remote_receiver = get_remote_receiver p,
      mc_phase_auto_config = True, mc_phase_auto_advance = get_phase_auto_advance p,
      mc_data_auto_send = get_data_auto_send p, mc_next_phase_src_change = True, mc_next_phase_dest_change = True,
      mc_data_buf_no_flow_ctrl = get_data_buf_no_flow_ctrl p,
      mc_dest_data_buf_no_flow_ctrl = get_dest_data_buf_no_flow_ctrl p,
      mc_remote_src_is_mcast = get_remote_src_is_mcast p, mc_no_prev_phase_outgoing_data_flush = False,
      mc_unicast_vc_reg = get_vc_for_unicast p, mc_reg_update_vc_reg = get_vc_for_reg_update p\<rparr>"

definition setup_misc_cfg_reg_regular_phase :: "phase_config \<Rightarrow> phase_config option \<Rightarrow> bool \<Rightarrow> step" where
  "setup_misc_cfg_reg_regular_phase p next_phase next_phase_is_dummy_phase s =
     bind_sum (get_remote_src_update_noc_for_stream_reg p) (\<lambda>noc.
       setup_misc_cfg_reg
         ((misc_cfg_of_phase p noc)
            \<lparr>mc_phase_auto_config := get_phase_auto_config next_phase p \<or> next_phase_is_dummy_phase,
             mc_next_phase_src_change := get_next_phase_src_change p \<or> next_phase_is_dummy_phase,
             mc_next_phase_dest_change := get_next_phase_dest_change p \<or> next_phase_is_dummy_phase\<rparr>) s)"

definition setup_misc_cfg_reg_dummy_phase :: "phase_config \<Rightarrow> bool \<Rightarrow> bool \<Rightarrow> step" where
  "setup_misc_cfg_reg_dummy_phase p is_sender is_receiver s =
     bind_sum (get_remote_src_update_noc_for_stream_reg p) (\<lambda>noc.
       setup_misc_cfg_reg
         ((misc_cfg_of_phase p noc)
            \<lparr>mc_local_sources_connected := False, mc_source_endpoint := is_sender, mc_remote_source := is_receiver,
             mc_receiver_endpoint := False, mc_local_receiver := False, mc_remote_receiver := is_sender\<rparr>) s)"

section \<open>The writes of a phase\<close>

definition get_dram_num_msgs :: "phase_config \<Rightarrow> ncrisc_config list \<Rightarrow> bool \<Rightarrow> blob_error + u32" where
  "get_dram_num_msgs p dram_blobs dram_read_phase_resets_pointers =
     (if get_dram_or_mmio_io p
      then bind_sum (req (sc_num_unroll_iter (pc_config p))) (\<lambda>u.
             let n = dram_num_msgs dram_blobs * u
             in if n > 2048 \<or> get_dram_input_no_push p \<or> get_scatter_to_dram p \<or> dram_read_phase_resets_pointers
                   \<or> get_next_phase_src_change p
                then get_num_msgs p else Inr n)
      else Inr 0)"

text \<open>The bits of the streams of a register of the mask.\<close>

definition local_src_mask_value :: "u32 option \<Rightarrow> nat \<Rightarrow> u32" where
  "local_src_mask_value src_stream_id reg_ind =
     (case src_stream_id of None \<Rightarrow> 0
      | Some i \<Rightarrow> if reg_ind * STREAM_REG_CFG_DATA_WIDTH \<le> unat i \<and> unat i < Suc reg_ind * STREAM_REG_CFG_DATA_WIDTH
                 then push_bit (unat i - reg_ind * STREAM_REG_CFG_DATA_WIDTH) 1 else 0)"

definition generate_blob_for_stream_with_local_source :: "stream_ref option \<Rightarrow> nat \<Rightarrow> bool \<Rightarrow> step" where
  "generate_blob_for_stream_with_local_source src current_chip first_phase s =
     bind_sum (case src of None \<Rightarrow> Inr ()
               | Some n \<Rightarrow> if cxy_chip (sn_physical_location n) \<noteq> current_chip then Inl BlobAssert
                          else if unat (sn_stream_id n) \<ge> unat NOC_NUM_STREAMS then Inl BlobUndefined else Inr ()) (\<lambda>_.
       let src_id = (case src of None \<Rightarrow> None | Some n \<Rightarrow> Some (sn_stream_id n));
           no_sender_below_stream_40 = (case src_id of None \<Rightarrow> True | Some i \<Rightarrow> \<not> i < 40)
       in in_order (map (\<lambda>reg_ind. guarded (first_phase \<or> \<not> no_sender_below_stream_40 \<or> reg_ind > 0)
              (cfg ''STREAM_LOCAL_SRC_MASK_REG_INDEX'' (STREAM_LOCAL_SRC_MASK_REG_INDEX + word_of_nat reg_ind)
                 (local_src_mask_value src_id reg_ind))) [0, 1, 2]) s)"

definition setup_stream_gather_reg :: "phase_config \<Rightarrow> u32 \<Rightarrow> step" where
  "setup_stream_gather_reg p overlay_version =
     in_order
       [guarded (overlay_version > 1)
          (cfg ''STREAM_GATHER_REG_INDEX'' STREAM_GATHER_REG_INDEX (stream_gather (get_arb_group_size p) 0)),
        cfg ''STREAM_MSG_SRC_IN_ORDER_FWD_NUM_MSGS_REG_INDEX'' STREAM_MSG_SRC_IN_ORDER_FWD_NUM_MSGS_REG_INDEX 0,
        cfg ''STREAM_GATHER_CLEAR_REG_INDEX'' STREAM_GATHER_CLEAR_REG_INDEX
          (stream_gather_clear (get_local_stream_clear_num p) 0)]"

definition setup_stream_local_dest :: "phase_config \<Rightarrow> u32 \<Rightarrow> step" where
  "setup_stream_local_dest p overlay_version s =
     (if overlay_version > 1
      then case get_dest_stream_nodes p of [] \<Rightarrow> Inl BlobUndefined
           | n # ns \<Rightarrow> cfg ''STREAM_LOCAL_DEST_REG_INDEX'' STREAM_LOCAL_DEST_REG_INDEX
               (get_local_stream_clear_num p OR push_bit 12 (sn_stream_id n)) s
      else Inr s)"

text \<open>The source of the stream as another network end sees it.\<close>

definition remote_src_value :: "noc_helper \<Rightarrow> tt_cxy_pair \<Rightarrow> phase_config \<Rightarrow> blob_error + u32" where
  "remote_src_value h core p =
     bind_sum (deref (get_src_stream_node p)) (\<lambda>src.
     bind_sum (get_stream_source_coords h core p) (\<lambda>c.
       Inr (stream_remote_src c (sn_stream_id src) (get_src_dest_index p))))"

definition setup_phase_blob_for_src_change ::
  "noc_helper \<Rightarrow> phase_config \<Rightarrow> bool \<Rightarrow> tt_cxy_pair \<Rightarrow> u32 \<Rightarrow> u32 \<Rightarrow> u32 \<Rightarrow> step" where
  "setup_phase_blob_for_src_change h p first_phase core src_old_base src_new_base overlay_version =
     in_order
       [cfg_of ''STREAM_BUF_START_REG_INDEX'' STREAM_BUF_START_REG_INDEX
          (in_words (bind_sum (req (sc_buf_addr (pc_config p))) (\<lambda>a. Inr (a - src_old_base + src_new_base)))),
        cfg_of ''STREAM_BUF_SIZE_REG_INDEX'' STREAM_BUF_SIZE_REG_INDEX (in_words (req (sc_buffer_size (pc_config p)))),
        cfg_of ''STREAM_MSG_INFO_PTR_REG_INDEX'' STREAM_MSG_INFO_PTR_REG_INDEX
          (in_words (req (sc_msg_info_buf_addr (pc_config p)))),
        guarded (\<not> get_resend p)
          (cfg_of ''STREAM_MSG_INFO_WR_PTR_REG_INDEX'' STREAM_MSG_INFO_WR_PTR_REG_INDEX
             (in_words (req (sc_msg_info_buf_addr (pc_config p))))),
        guarded (has_remote_source p)
          (in_order
             [cfg_of ''STREAM_REMOTE_SRC_REG_INDEX'' STREAM_REMOTE_SRC_REG_INDEX (remote_src_value h core p),
              cfg ''STREAM_REMOTE_SRC_PHASE_REG_INDEX'' STREAM_REMOTE_SRC_PHASE_REG_INDEX (get_wrap_phase_id p)]),
        guarded (get_local_sources_connected p)
          (in_order
             [guarded first_phase (setup_stream_gather_reg p overlay_version),
              generate_blob_for_stream_with_local_source (get_src_stream_node p) (cxy_chip core) first_phase])]"

text \<open>The two writes that say whether the destinations are a rectangle.\<close>

definition setup_mcast_dest :: "noc_helper \<Rightarrow> phase_config \<Rightarrow> u32 \<Rightarrow> step" where
  "setup_mcast_dest h p overlay_version s =
     (if has_dest_mcast_streams p
      then bind_sum (get_dest_noc_coords h p) (\<lambda>dest_noc.
             in_order
               [cfg_of ''STREAM_MCAST_DEST_REG_INDEX'' STREAM_MCAST_DEST_REG_INDEX
                  (stream_mcast_dest overlay_version True dest_noc p),
                cfg_of ''STREAM_MCAST_DEST_NUM_REG_INDEX'' STREAM_MCAST_DEST_NUM_REG_INDEX
                  (req (sc_num_mcast_dests (pc_config p)))] s)
      else in_order
             [cfg_of ''STREAM_MCAST_DEST_REG_INDEX'' STREAM_MCAST_DEST_REG_INDEX
                (stream_mcast_dest overlay_version False (0, 0) p),
              cfg ''STREAM_MCAST_DEST_NUM_REG_INDEX'' STREAM_MCAST_DEST_NUM_REG_INDEX 1] s)"

text \<open>A value of the configuration of the phase the destination is in.\<close>

definition dest_value :: "phase_config option \<Rightarrow> (stream_config \<Rightarrow> u32 option) \<Rightarrow> blob_error + u32" where
  "dest_value dest_phase f = bind_sum (req dest_phase) (\<lambda>q. req (f (pc_config q)))"

definition setup_remote_dest :: "noc_helper \<Rightarrow> phase_config \<Rightarrow> phase_config option \<Rightarrow> bool \<Rightarrow> tt_cxy_pair \<Rightarrow> u32 \<Rightarrow> step" where
  "setup_remote_dest h p dest_phase first_phase core overlay_version s =
     bind_sum (get_dest_stream_id p) (\<lambda>dest_stream_id.
     bind_sum (get_remote_dest_coords h core p) (\<lambda>coords.
       in_order
         [cfg_of ''STREAM_REMOTE_DEST_BUF_START_REG_INDEX'' STREAM_REMOTE_DEST_BUF_START_REG_INDEX
            (in_words (dest_value dest_phase sc_buf_addr)),
          cfg_of ''STREAM_REMOTE_DEST_BUF_SIZE_REG_INDEX'' STREAM_REMOTE_DEST_BUF_SIZE_REG_INDEX
            (in_words (dest_value dest_phase sc_buffer_size)),
          guarded (get_remote_receiver p)
            (in_order
               [cfg ''STREAM_REMOTE_DEST_REG_INDEX'' STREAM_REMOTE_DEST_REG_INDEX (stream_remote_dest coords dest_stream_id),
                cfg_of ''STREAM_REMOTE_DEST_MSG_INFO_WR_PTR_REG_INDEX'' STREAM_REMOTE_DEST_MSG_INFO_WR_PTR_REG_INDEX
                  (in_words (dest_value dest_phase sc_msg_info_buf_addr))]),
          cfg ''STREAM_REMOTE_DEST_TRAFFIC_PRIORITY_REG_INDEX'' STREAM_REMOTE_DEST_TRAFFIC_PRIORITY_REG_INDEX
            (get_group_priority p),
          guarded first_phase (setup_mcast_dest h p overlay_version)] s))"

definition setup_phase_blob_for_dest_change ::
  "noc_helper \<Rightarrow> phase_config \<Rightarrow> phase_config option \<Rightarrow> bool \<Rightarrow> tt_cxy_pair \<Rightarrow> u32 \<Rightarrow> bool \<Rightarrow> u32 \<Rightarrow> step" where
  "setup_phase_blob_for_dest_change h p dest_phase first_phase core overlay_version phase_resets_pointers num_msgs =
     in_order
       [if has_remote_receiver p then setup_remote_dest h p dest_phase first_phase core overlay_version
        else if get_regular_local_receiver p then setup_stream_local_dest p overlay_version
        else guarded (first_phase \<and> overlay_version = 1)
          (cfg_of ''STREAM_MCAST_DEST_REG_INDEX'' STREAM_MCAST_DEST_REG_INDEX (stream_mcast_dest_v1 False (0, 0) p)),
        guarded (get_dram_or_mmio_io p \<and> is_regular_dram_output p)
          (cfg ''STREAM_REMOTE_DEST_REG_INDEX'' STREAM_REMOTE_DEST_REG_INDEX
             (flag phase_resets_pointers (push_bit 16 1) OR num_msgs))]"

definition setup_phase_blob_for_resend :: "phase_config \<Rightarrow> step" where
  "setup_phase_blob_for_resend p s =
     bind_sum (get_all_msgs_not_fit_into_buffer p) (\<lambda>more.
       in_order
         [if more then cfg_of ''STREAM_WR_PTR_REG_INDEX'' STREAM_WR_PTR_REG_INDEX (in_words (get_all_msgs_size p))
          else cfg ''STREAM_WR_PTR_REG_INDEX'' STREAM_WR_PTR_REG_INDEX 0,
          cfg_of ''STREAM_MSG_INFO_WR_PTR_REG_INDEX'' STREAM_MSG_INFO_WR_PTR_REG_INDEX (get_msg_info_buf_addr_end p)] s)"

definition setup_ack_threshold :: "phase_config \<Rightarrow> bool \<Rightarrow> step" where
  "setup_ack_threshold p first_phase =
     (case sc_buf_space_available_ack_thr (pc_config p) of
        Some n \<Rightarrow> cfg ''STREAM_MEM_BUF_SPACE_AVAILABLE_ACK_THRESHOLD_REG_INDEX''
                   STREAM_MEM_BUF_SPACE_AVAILABLE_ACK_THRESHOLD_REG_INDEX n
      | None \<Rightarrow> guarded first_phase
          (cfg ''STREAM_MEM_BUF_SPACE_AVAILABLE_ACK_THRESHOLD_REG_INDEX''
             STREAM_MEM_BUF_SPACE_AVAILABLE_ACK_THRESHOLD_REG_INDEX 0))"

text \<open>Scratch registers that count the tiles a packer pushes and an unpacker pops.\<close>

definition setup_packer_scratch :: "phase_config \<Rightarrow> bool \<Rightarrow> step" where
  "setup_packer_scratch p phase_resets_pointers =
     guarded (get_source_endpoint p \<and> (is_dram_input_prolog p \<or> get_legacy_pack p))
       (in_order
          [cfg_of ''STREAM_REMOTE_SRC_PHASE_REG_INDEX'' STREAM_REMOTE_SRC_PHASE_REG_INDEX
             (if get_resend p then Inr 0 else get_num_msgs p),
           guarded phase_resets_pointers (cfg ''STREAM_REMOTE_SRC_REG_INDEX'' STREAM_REMOTE_SRC_REG_INDEX 1)])"

definition setup_unpacker_scratch :: "phase_config \<Rightarrow> bool \<Rightarrow> step" where
  "setup_unpacker_scratch p phase_resets_pointers =
     guarded (is_receiver_unpacker p)
       (in_order
          [cfg_of ''STREAM_REMOTE_DEST_REG_INDEX'' STREAM_REMOTE_DEST_REG_INDEX (get_num_msgs p),
           guarded phase_resets_pointers
             (cfg ''STREAM_REMOTE_DEST_TRAFFIC_PRIORITY_REG_INDEX'' STREAM_REMOTE_DEST_TRAFFIC_PRIORITY_REG_INDEX 1)])"

text \<open>Whether the phase number is written: it cannot be reached by a step from the phase before.\<close>

definition sets_current_phase :: "phase_config option \<Rightarrow> phase_config \<Rightarrow> bool" where
  "sets_current_phase prev p \<longleftrightarrow>
     (case prev of None \<Rightarrow> True
      | Some q \<Rightarrow> is_scatter_order_size_larger_than_one p \<or> is_phase_wrapped (pc_phase_id q) p)"

definition get_phase_blob ::
  "tt_cxy_pair \<Rightarrow> phase_config \<Rightarrow> phase_config option \<Rightarrow> phase_config option \<Rightarrow> phase_config option \<Rightarrow>
   ncrisc_config list \<Rightarrow> u32 \<Rightarrow> u32 \<Rightarrow> bool \<Rightarrow> u32 \<Rightarrow> noc_helper \<Rightarrow> blob_error + blob_section" where
  "get_phase_blob core p prev next_phase dest_phase dram_blobs src_old_base src_new_base next_phase_is_dummy_phase
     overlay_version h =
     (let first_phase = (prev = None);
          src_change = get_src_change prev;
          dest_change = get_dest_change prev;
          dram_read_phase_resets_pointers = (get_dram_input p \<and> src_change \<and> get_ptrs_not_zero p)
      in bind_sum (guarded (sets_current_phase prev p)
                     (cfg ''STREAM_CURR_PHASE_REG_INDEX'' STREAM_CURR_PHASE_REG_INDEX (get_wrap_phase_id p))
                     (append_debug ''[PHASE_BLOB]'' (new_blob_section 0))) (\<lambda>s.
         bind_sum (get_dram_num_msgs p dram_blobs dram_read_phase_resets_pointers) (\<lambda>num_msgs.
           in_order
             [guarded src_change
                (setup_phase_blob_for_src_change h p first_phase core src_old_base src_new_base overlay_version),
              guarded ((src_change \<or> get_dram_input_no_push p) \<and> get_dram_or_mmio_io p \<and> is_regular_dram_input p)
                (cfg ''STREAM_REMOTE_SRC_PHASE_REG_INDEX'' STREAM_REMOTE_SRC_PHASE_REG_INDEX
                   (flag dram_read_phase_resets_pointers (push_bit 16 1) OR (if get_resend p then 0 else num_msgs))),
              if dest_change
              then setup_phase_blob_for_dest_change h p dest_phase first_phase core overlay_version src_change num_msgs
              else guarded (get_remote_receiver p)
                (cfg_of ''STREAM_REMOTE_DEST_MSG_INFO_WR_PTR_REG_INDEX'' STREAM_REMOTE_DEST_MSG_INFO_WR_PTR_REG_INDEX
                   (in_words (dest_value dest_phase sc_msg_info_buf_addr))),
              setup_misc_cfg_reg_regular_phase p next_phase next_phase_is_dummy_phase,
              setup_ack_threshold p first_phase,
              setup_packer_scratch p src_change,
              setup_unpacker_scratch p src_change,
              guarded (get_resend p) (setup_phase_blob_for_resend p)] s)))"

definition get_dummy_phase_blob ::
  "tt_cxy_pair \<Rightarrow> phase_config \<Rightarrow> u32 \<Rightarrow> u32 \<Rightarrow> bool \<Rightarrow> bool \<Rightarrow> u32 \<Rightarrow> noc_helper \<Rightarrow> blob_error + blob_section" where
  "get_dummy_phase_blob core p dummy_phase_addr dest_dummy_phase_addr is_sender is_receiver overlay_version h =
     (let addr = dummy_phase_addr div MEM_WORD_BYTES; dest_addr = dest_dummy_phase_addr div MEM_WORD_BYTES
      in in_order
           [cfg ''STREAM_CURR_PHASE_REG_INDEX'' STREAM_CURR_PHASE_REG_INDEX (dummy_phase (pc_phase_id p)),
            cfg ''STREAM_BUF_START_REG_INDEX'' STREAM_BUF_START_REG_INDEX addr,
            cfg ''STREAM_BUF_SIZE_REG_INDEX'' STREAM_BUF_SIZE_REG_INDEX 1,
            cfg ''STREAM_MSG_INFO_PTR_REG_INDEX'' STREAM_MSG_INFO_PTR_REG_INDEX addr,
            cfg ''STREAM_MSG_INFO_WR_PTR_REG_INDEX'' STREAM_MSG_INFO_WR_PTR_REG_INDEX addr,
            guarded is_receiver
              (in_order
                 [cfg_of ''STREAM_REMOTE_SRC_REG_INDEX'' STREAM_REMOTE_SRC_REG_INDEX
                    (remote_src_value h core p),
                  cfg ''STREAM_REMOTE_SRC_PHASE_REG_INDEX'' STREAM_REMOTE_SRC_PHASE_REG_INDEX (dummy_phase (pc_phase_id p))]),
            guarded is_sender
              (\<lambda>s. bind_sum (get_dest_stream_id p) (\<lambda>dest_stream_id.
                   bind_sum (get_remote_dest_coords h core p) (\<lambda>coords.
                     in_order
                       [cfg ''STREAM_REMOTE_DEST_REG_INDEX'' STREAM_REMOTE_DEST_REG_INDEX
                          (stream_remote_dest coords dest_stream_id),
                        cfg ''STREAM_REMOTE_DEST_BUF_START_REG_INDEX'' STREAM_REMOTE_DEST_BUF_START_REG_INDEX dest_addr,
                        cfg ''STREAM_REMOTE_DEST_BUF_SIZE_REG_INDEX'' STREAM_REMOTE_DEST_BUF_SIZE_REG_INDEX 1,
                        cfg ''STREAM_REMOTE_DEST_MSG_INFO_WR_PTR_REG_INDEX'' STREAM_REMOTE_DEST_MSG_INFO_WR_PTR_REG_INDEX
                          dest_addr,
                        setup_mcast_dest h p overlay_version] s))),
            setup_misc_cfg_reg_dummy_phase p is_sender is_receiver]
           (append_debug ''[DUMMY_BLOB]'' (new_blob_section 0)))"

end
