(* ===== verification/StreamInfos.thy ===== *)
theory StreamInfos
  imports PhaseBlobs
begin

text \<open>
  The blobs of the phases of every stream with the offsets and headers that link them
  (\<open>overlay_blob/stream_info.h\<close>, \<open>overlay_blob/epoch_blob_data.h\<close>, \<open>overlay_generation/stream_info_builder.cpp\<close>), from the
  streams of the stream graphs (\<open>helpers/stream_graph_utils.cpp\<close>).
\<close>

section \<open>Ordered maps\<close>

text \<open>An ordered map is the list of its entries in their order.\<close>

fun put_by :: "('k \<Rightarrow> 'k \<Rightarrow> bool) \<Rightarrow> 'k \<Rightarrow> 'v \<Rightarrow> ('k \<times> 'v) list \<Rightarrow> ('k \<times> 'v) list" where
  "put_by precedes k v [] = [(k, v)]"
| "put_by precedes k v ((j, w) # m) =
     (if precedes k j then (k, v) # (j, w) # m else if k = j then (k, v) # m else (j, w) # put_by precedes k v m)"

definition put :: "'k::linorder \<Rightarrow> 'v \<Rightarrow> ('k \<times> 'v) list \<Rightarrow> ('k \<times> 'v) list" where
  "put = put_by (<)"

definition emplace_by :: "('k \<Rightarrow> 'k \<Rightarrow> bool) \<Rightarrow> 'k \<Rightarrow> 'v \<Rightarrow> ('k \<times> 'v) list \<Rightarrow> ('k \<times> 'v) list" where
  "emplace_by precedes k v m = (if map_of m k = None then put_by precedes k v m else m)"

definition emplace :: "'k::linorder \<Rightarrow> 'v \<Rightarrow> ('k \<times> 'v) list \<Rightarrow> ('k \<times> 'v) list" where
  "emplace = emplace_by (<)"

definition at :: "'k \<Rightarrow> ('k \<times> 'v) list \<Rightarrow> blob_error + 'v" where
  "at k m = (case map_of m k of None \<Rightarrow> Inl BlobOutOfRange | Some v \<Rightarrow> Inr v)"

text \<open>An element of a vector by its index, which is not checked.\<close>

definition nth_of :: "'a list \<Rightarrow> nat \<Rightarrow> blob_error + 'a" where
  "nth_of xs i = (if i < length xs then Inr (xs ! i) else Inl BlobUndefined)"

lemma at_Inr_iff [simp]: "at k m = Inr v \<longleftrightarrow> map_of m k = Some v"
  by (simp add: at_def split: option.splits)

lemma nth_of_Inr_iff [simp]: "nth_of xs i = Inr x \<longleftrightarrow> i < length xs \<and> x = xs ! i"
  by (auto simp: nth_of_def)

section \<open>State\<close>

record phase_offsets_for_single_dest =
  po_offsets :: "u32 list"
  po_phase_num_cfg_regs :: "u32 list"
  po_num_unroll_iter :: int

record stream_info =
  dummy_phase_stream_binary_instruction_list :: "blob_section list list"
  stream_binary_instruction_list :: "(u64 \<times> blob_section list) list"
  phase_offsets :: "(u64 \<times> phase_offsets_for_single_dest) list"
  cfg_header_dw :: "(u64 \<times> u32) list"
  blob_start_relative_offset :: u32
  blob_size :: u32
  start_phase_num_cfg_regs :: u32

definition empty_stream_info :: stream_info where
  "empty_stream_info =
     \<lparr>dummy_phase_stream_binary_instruction_list = [], stream_binary_instruction_list = [], phase_offsets = [],
      cfg_header_dw = [], blob_start_relative_offset = 0, blob_size = 0, start_phase_num_cfg_regs = 0\<rparr>"

record stream_blob_data =
  sb_phases :: phases
  sb_ncriscs :: "ncrisc_config list"
  sb_info :: stream_info
  sb_stream_id :: u32

type_synonym core_blob_data = "(u32 \<times> stream_blob_data) list"

type_synonym epoch_blob_data = "(tt_cxy_pair \<times> core_blob_data) list"

text \<open>The last phase of a stream up to a phase.\<close>

definition find_phase_config_up_to_phase_id :: "epoch_blob_data \<Rightarrow> tt_cxy_pair \<Rightarrow> u32 \<Rightarrow> u64 \<Rightarrow> blob_error + phase_config" where
  "find_phase_config_up_to_phase_id e core_id stream_id phase_id =
     bind_sum (at core_id e) (\<lambda>core.
     bind_sum (at stream_id core) (\<lambda>s.
       let up_to = takeWhile (\<lambda>(i, p). i \<le> phase_id) (sb_phases s)
       in bind_sum (log_assert (up_to \<noteq> [])) (\<lambda>_. Inr (snd (last up_to)))))"

section \<open>Sizes\<close>

text \<open>A section and its header.\<close>

definition get_phase_blob_section_byte_size :: "blob_section \<Rightarrow> nat" where
  "get_phase_blob_section_byte_size s = 4 * (dw_size s + 1)"

text \<open>The section of a phase for the first buffered block.\<close>

definition first_section :: "u64 \<Rightarrow> stream_info \<Rightarrow> blob_error + blob_section" where
  "first_section phase_id info = bind_sum (at phase_id (stream_binary_instruction_list info)) (\<lambda>ss. nth_of ss 0)"

definition get_binary_instruction_size :: "u64 \<Rightarrow> stream_info \<Rightarrow> blob_error + nat" where
  "get_binary_instruction_size phase_id info =
     bind_sum (first_section phase_id info) (\<lambda>s. Inr (get_phase_blob_section_byte_size s))"

definition get_dummy_phase_instructions_size :: "bool \<Rightarrow> bool \<Rightarrow> stream_info \<Rightarrow> blob_error + nat" where
  "get_dummy_phase_instructions_size has_receiver has_sender info =
     (let n = (if has_receiver then 1 else 0) + (if has_sender then 1 else 0)
      in if n = 0 then Inr 0
         else bind_sum (nth_of (dummy_phase_stream_binary_instruction_list info) 0) (\<lambda>ds.
           if length ds < n then Inl BlobUndefined
           else Inr (sum_list (map get_phase_blob_section_byte_size (drop (length ds - n) ds)))))"

section \<open>The blobs of a phase\<close>

text \<open>The step of the phase number, none when the number is written.\<close>

fun num_inc_from :: "u64 \<Rightarrow> phases \<Rightarrow> (u64 \<times> nat) list" where
  "num_inc_from prev [] = []"
| "num_inc_from prev ((i, p) # ps) =
     (i, if is_phase_wrapped prev p then 0 else unat (i - prev)) # num_inc_from i ps"

definition get_num_inc_per_phase :: "phases \<Rightarrow> (u64 \<times> nat) list" where
  "get_num_inc_per_phase ps = (case ps of [] \<Rightarrow> [] | (i, p) # _ \<Rightarrow> num_inc_from i ps)"

definition inc_of :: "u64 \<Rightarrow> (u64 \<times> nat) list \<Rightarrow> u32" where
  "inc_of phase_id incs = (case map_of incs phase_id of None \<Rightarrow> 0 | Some n \<Rightarrow> word_of_nat n)"

fun with_neighbours :: "phase_config option \<Rightarrow> phases \<Rightarrow> (phase_config option \<times> (u64 \<times> phase_config) \<times> phase_config option) list" where
  "with_neighbours prev [] = []"
| "with_neighbours prev ((i, p) # ps) =
     (prev, (i, p), (case ps of [] \<Rightarrow> None | (j, q) # _ \<Rightarrow> Some q)) # with_neighbours (Some p) ps"

text \<open>What every phase of a stream is given: where the stream is and what else there is.\<close>

record stream_context =
  cx_epoch :: epoch_blob_data
  cx_soc :: soc_helper
  cx_core :: tt_cxy_pair
  cx_ncriscs :: "ncrisc_config list"
  cx_phases :: phases
  cx_incs :: "(u64 \<times> nat) list"

definition cx_version :: "stream_context \<Rightarrow> u32" where
  "cx_version cx = get_overlay_version (cx_soc cx) (cxy_chip (cx_core cx))"

definition cx_noc :: "stream_context \<Rightarrow> noc_helper" where
  "cx_noc cx = get_noc_helper (cx_soc cx) (cxy_chip (cx_core cx))"

definition push_dummy :: "nat \<Rightarrow> blob_section \<Rightarrow> stream_info \<Rightarrow> stream_info" where
  "push_dummy i s info =
     (let ds = dummy_phase_stream_binary_instruction_list info
      in info\<lparr>dummy_phase_stream_binary_instruction_list := ds[i := ds ! i @ [s]]\<rparr>)"

definition dummy_receiver_blob :: "stream_context \<Rightarrow> phase_config \<Rightarrow> blob_error + blob_section" where
  "dummy_receiver_blob cx p =
     get_dummy_phase_blob (cx_core cx) p (get_dummy_phase_address (cx_soc cx) (cx_core cx)) 0 False True (cx_version cx) (cx_noc cx)"

definition dummy_sender_blob :: "stream_context \<Rightarrow> phase_config \<Rightarrow> blob_error + blob_section" where
  "dummy_sender_blob cx p =
     bind_sum (nth_of (get_dest_stream_nodes p) 0) (\<lambda>n.
       get_dummy_phase_blob (cx_core cx) p (get_dummy_phase_address (cx_soc cx) (cx_core cx))
         (get_dummy_phase_address (cx_soc cx) (sn_physical_location n)) True False (cx_version cx) (cx_noc cx))"

text \<open>
  The sections of a phase for one buffered block: its own, merged into an empty one, and those of the
  dummy phases that follow it.
\<close>

definition add_mblock ::
  "stream_context \<Rightarrow> phase_config option \<Rightarrow> u64 \<Rightarrow> phase_config \<Rightarrow> phase_config option \<Rightarrow> phase_config option \<Rightarrow>
   u32 \<Rightarrow> u32 \<Rightarrow> nat \<Rightarrow> stream_info \<Rightarrow> blob_error + stream_info" where
  "add_mblock cx prev phase_id p next_phase dest_phase base mblock_size i info =
     (let ds = dummy_phase_stream_binary_instruction_list info;
          info1 = info\<lparr>dummy_phase_stream_binary_instruction_list := (if length ds < i + 1 then ds @ [[]] else ds)\<rparr>
      in bind_sum (nth_of (dummy_phase_stream_binary_instruction_list info1) 0) (\<lambda>ds0.
         bind_sum (get_phase_blob (cx_core cx) p prev next_phase dest_phase (cx_ncriscs cx) base
                     (base + word_of_nat i * mblock_size) ((has_dummy_phase p \<or> ds0 \<noteq> []) \<and> next_phase = None)
                     (cx_version cx) (cx_noc cx)) (\<lambda>blob.
         bind_sum (merge_section blob None (new_blob_section 0)) (\<lambda>(section, _).
         bind_sum (at phase_id (stream_binary_instruction_list info1)) (\<lambda>ss.
           let info2 = info1\<lparr>stream_binary_instruction_list := put phase_id (ss @ [section]) (stream_binary_instruction_list info1)\<rparr>
           in bind_sum (if has_dummy_phase_receiver p
                        then bind_sum (dummy_receiver_blob cx p) (\<lambda>d. Inr (push_dummy i d info2)) else Inr info2) (\<lambda>info3.
              if has_dummy_phase_sender p
              then bind_sum (dummy_sender_blob cx p) (\<lambda>d. Inr (push_dummy i d info3)) else Inr info3))))))"

text \<open>The placeholder of the jump back that an intermediate buffer ends with.\<close>

definition add_intermediate_loop :: "u64 \<Rightarrow> stream_info \<Rightarrow> blob_error + stream_info" where
  "add_intermediate_loop phase_id info =
     bind_sum (at phase_id (stream_binary_instruction_list info)) (\<lambda>ss.
     bind_sum (nth_of ss 0) (\<lambda>s.
     bind_sum (append_named 32 ''intermediate loop'' (append_u32 0xaabbccdd) s) (\<lambda>s1.
       Inr (info\<lparr>stream_binary_instruction_list := put phase_id (ss[0 := s1]) (stream_binary_instruction_list info)\<rparr>))))"

definition dest_phase_of :: "stream_context \<Rightarrow> u64 \<Rightarrow> phase_config \<Rightarrow> blob_error + phase_config option" where
  "dest_phase_of cx phase_id p =
     (case get_dest_any_stream_optional p of
        None \<Rightarrow> Inr None
      | Some n \<Rightarrow> bind_sum (find_phase_config_up_to_phase_id (cx_epoch cx) (sn_physical_location n) (sn_stream_id n) phase_id)
          (\<lambda>q. Inr (Some q)))"

definition add_phase_sections ::
  "stream_context \<Rightarrow> phase_config option \<Rightarrow> u64 \<Rightarrow> phase_config \<Rightarrow> phase_config option \<Rightarrow> stream_info \<Rightarrow> blob_error + stream_info" where
  "add_phase_sections cx prev phase_id p next_phase info =
     (let info0 = info\<lparr>stream_binary_instruction_list := emplace phase_id [] (stream_binary_instruction_list info)\<rparr>
      in bind_sum (get_buf_base_addr p) (\<lambda>base.
         bind_sum (get_mblock_size p) (\<lambda>size.
         bind_sum (dest_phase_of cx phase_id p) (\<lambda>dest_phase.
         bind_sum (fold_sum (add_mblock cx prev phase_id p next_phase dest_phase base size)
                     [0..<unat (get_num_mblock_buffering p)] info0) (\<lambda>info1.
           if get_intermediate p then add_intermediate_loop phase_id info1 else Inr info1)))))"

section \<open>Headers and offsets\<close>

definition append_phase_offset :: "phase_config \<Rightarrow> nat \<Rightarrow> stream_info \<Rightarrow> blob_error + stream_info" where
  "append_phase_offset p curr_blob_relative_offset info =
     bind_sum (req (sc_scatter_idx (pc_config p))) (\<lambda>idx.
       let po = (case map_of (phase_offsets info) (ucast idx) of
                   None \<Rightarrow> \<lparr>po_offsets = [], po_phase_num_cfg_regs = [], po_num_unroll_iter = 0\<rparr> | Some po \<Rightarrow> po)
       in bind_sum (first_section (pc_phase_id p) info) (\<lambda>s.
          bind_sum (req (sc_num_unroll_iter (pc_config p))) (\<lambda>u.
            Inr (info\<lparr>phase_offsets := put (ucast idx)
              \<lparr>po_offsets = po_offsets po @ [word_of_nat curr_blob_relative_offset],
               po_phase_num_cfg_regs = po_phase_num_cfg_regs po @ [word_of_nat (dw_size s)],
               po_num_unroll_iter = sint u\<rparr> (phase_offsets info)\<rparr>))))"

definition set_header :: "u64 \<Rightarrow> nat \<Rightarrow> u32 \<Rightarrow> (u64 \<times> nat) list \<Rightarrow> stream_info \<Rightarrow> stream_info" where
  "set_header phase_id next_dw_size num_msgs incs info =
     info\<lparr>cfg_header_dw := put phase_id (blob_header_dw (word_of_nat next_dw_size) num_msgs (inc_of phase_id incs)) (cfg_header_dw info)\<rparr>"

text \<open>The header of a phase whose messages are those of its configuration in the map.\<close>

definition set_header_of :: "stream_context \<Rightarrow> u64 \<Rightarrow> nat \<Rightarrow> stream_info \<Rightarrow> blob_error + stream_info" where
  "set_header_of cx phase_id next_dw_size info =
     bind_sum (at phase_id (cx_phases cx)) (\<lambda>p.
     bind_sum (get_num_msgs p) (\<lambda>n. Inr (set_header phase_id next_dw_size n (cx_incs cx) info)))"

definition fill_header_of_last_phase ::
  "stream_context \<Rightarrow> phase_config \<Rightarrow> (u32 \<times> u64) list \<Rightarrow> stream_info \<Rightarrow> blob_error + stream_info" where
  "fill_header_of_last_phase cx p scatter_idx_to_phase_id info =
     bind_sum (fold_sum (\<lambda>(idx, prev_id). set_header_of cx prev_id 0) scatter_idx_to_phase_id info) (\<lambda>info1.
     bind_sum (if has_dummy_phase p then Inr []
               else nth_of (dummy_phase_stream_binary_instruction_list info1) 0) (\<lambda>ds0.
       if has_dummy_phase p \<or> ds0 \<noteq> []
       then bind_sum (nth_of (dummy_phase_stream_binary_instruction_list info1) 0) (\<lambda>ds.
            bind_sum (nth_of ds 0) (\<lambda>d.
            bind_sum (get_num_msgs p) (\<lambda>n. Inr (set_header (pc_phase_id p) (dw_size d) n (cx_incs cx) info1))))
       else if get_intermediate p
       then bind_sum (first_section (pc_phase_id p) info1) (\<lambda>s.
            bind_sum (get_num_msgs p) (\<lambda>n. Inr (set_header (pc_phase_id p) (dw_size s) n (cx_incs cx) info1)))
       else bind_sum (get_num_msgs p) (\<lambda>n. Inr (set_header (pc_phase_id p) 0 n (cx_incs cx) info1))))"

text \<open>While the phases of a stream are filled in: the scatter phases that wait for their successor.\<close>

record fill_state =
  fs_info :: stream_info
  fs_offset :: nat
  fs_scatter :: "(u32 \<times> u64) list"

definition changes_scatter_idx :: "phase_config \<Rightarrow> phase_config \<Rightarrow> blob_error + bool" where
  "changes_scatter_idx other p = (if is_pipe_scatter p then scatter_idx_change other p else Inr False)"

definition link_to_previous ::
  "stream_context \<Rightarrow> phase_config \<Rightarrow> u64 \<Rightarrow> phase_config \<Rightarrow> fill_state \<Rightarrow> blob_error + fill_state" where
  "link_to_previous cx q phase_id p st =
     bind_sum (changes_scatter_idx q p) (\<lambda>change.
       if change
       then bind_sum (append_phase_offset p (fs_offset st) (fs_info st)) (\<lambda>info1.
            bind_sum (req (sc_scatter_idx (pc_config p))) (\<lambda>idx.
              case map_of (fs_scatter st) idx of
                None \<Rightarrow> Inr (st\<lparr>fs_info := info1\<rparr>)
              | Some prev_id \<Rightarrow>
                  bind_sum (first_section phase_id info1) (\<lambda>s.
                  bind_sum (set_header_of cx prev_id (dw_size s) info1) (\<lambda>info2.
                    Inr (st\<lparr>fs_info := info2, fs_scatter := filter (\<lambda>(i, _). i \<noteq> idx) (fs_scatter st)\<rparr>)))))
       else bind_sum (first_section phase_id (fs_info st)) (\<lambda>s.
            bind_sum (get_num_msgs q) (\<lambda>n.
              Inr (st\<lparr>fs_info := set_header (pc_phase_id q) (dw_size s) n (cx_incs cx) (fs_info st)\<rparr>))))"

definition start_stream :: "u64 \<Rightarrow> phase_config \<Rightarrow> fill_state \<Rightarrow> blob_error + fill_state" where
  "start_stream phase_id p st =
     (let info0 = (fs_info st)\<lparr>blob_start_relative_offset := word_of_nat (fs_offset st)\<rparr>
      in bind_sum (if is_pipe_scatter p then append_phase_offset p (fs_offset st) info0 else Inr info0) (\<lambda>info1.
         bind_sum (first_section phase_id info1) (\<lambda>s.
           Inr (st\<lparr>fs_info := info1\<lparr>start_phase_num_cfg_regs := word_of_nat (dw_size s)\<rparr>\<rparr>))))"

definition link_to_next ::
  "stream_context \<Rightarrow> u64 \<Rightarrow> phase_config \<Rightarrow> phase_config option \<Rightarrow> fill_state \<Rightarrow> blob_error + fill_state" where
  "link_to_next cx phase_id p next_phase st =
     (case next_phase of
        Some q \<Rightarrow>
          bind_sum (changes_scatter_idx q p) (\<lambda>change.
            if change
            then bind_sum (req (sc_scatter_idx (pc_config p))) (\<lambda>idx. Inr (st\<lparr>fs_scatter := put idx phase_id (fs_scatter st)\<rparr>))
            else Inr st)
      | None \<Rightarrow> bind_sum (fill_header_of_last_phase cx p (fs_scatter st) (fs_info st)) (\<lambda>info1. Inr (st\<lparr>fs_info := info1\<rparr>)))"

definition fill_phase ::
  "stream_context \<Rightarrow> phase_config option \<times> (u64 \<times> phase_config) \<times> phase_config option \<Rightarrow> fill_state \<Rightarrow> blob_error + fill_state" where
  "fill_phase cx t st =
     (case t of (prev, (phase_id, p), next_phase) \<Rightarrow>
        bind_sum (add_phase_sections cx prev phase_id p next_phase (fs_info st)) (\<lambda>info0.
        bind_sum (case prev of Some q \<Rightarrow> link_to_previous cx q phase_id p (st\<lparr>fs_info := info0\<rparr>)
                  | None \<Rightarrow> start_stream phase_id p (st\<lparr>fs_info := info0\<rparr>)) (\<lambda>st1.
        bind_sum (link_to_next cx phase_id p next_phase st1) (\<lambda>st2.
        bind_sum (get_binary_instruction_size phase_id (fs_info st2)) (\<lambda>n.
        bind_sum (get_dummy_phase_instructions_size (has_dummy_phase_receiver p) (has_dummy_phase_sender p) (fs_info st2)) (\<lambda>m.
          Inr (st2\<lparr>fs_offset := fs_offset st2 + n + m\<rparr>)))))))"

text \<open>The size of the blob is that of one buffered block; the others follow.\<close>

definition fill_stream_info ::
  "epoch_blob_data \<Rightarrow> soc_helper \<Rightarrow> tt_cxy_pair \<Rightarrow> stream_blob_data \<Rightarrow> nat \<Rightarrow> blob_error + stream_blob_data \<times> nat" where
  "fill_stream_info e soc core_id s start =
     (case sb_phases s of
        [] \<Rightarrow> Inl BlobUndefined
      | (first_id, first_phase) # _ \<Rightarrow>
          (let cx = \<lparr>cx_epoch = e, cx_soc = soc, cx_core = core_id, cx_ncriscs = sb_ncriscs s, cx_phases = sb_phases s,
                     cx_incs = get_num_inc_per_phase (sb_phases s)\<rparr>
           in bind_sum (fold_sum (fill_phase cx) (with_neighbours None (sb_phases s))
                          \<lparr>fs_info = sb_info s, fs_offset = start, fs_scatter = []\<rparr>) (\<lambda>st.
              let size = word_of_nat (fs_offset st - start) :: u32
              in Inr (s\<lparr>sb_info := (fs_info st)\<lparr>blob_size := size\<rparr>\<rparr>,
                      fs_offset st + unat (size * (get_num_mblock_buffering first_phase - 1))))))"

fun fill_core_stream_infos ::
  "epoch_blob_data \<Rightarrow> soc_helper \<Rightarrow> tt_cxy_pair \<Rightarrow> nat \<Rightarrow> core_blob_data \<Rightarrow> blob_error + core_blob_data" where
  "fill_core_stream_infos e soc core_id off [] = Inr []"
| "fill_core_stream_infos e soc core_id off ((i, s) # ss) =
     bind_sum (fill_stream_info e soc core_id s off) (\<lambda>(s1, off1).
     bind_sum (fill_core_stream_infos e soc core_id off1 ss) (\<lambda>ss1. Inr ((i, s1) # ss1)))"

fun map_sum :: "('a \<Rightarrow> 'e + 'b) \<Rightarrow> 'a list \<Rightarrow> 'e + 'b list" where
  "map_sum f [] = Inr []"
| "map_sum f (x # xs) = bind_sum (f x) (\<lambda>y. bind_sum (map_sum f xs) (\<lambda>ys. Inr (y # ys)))"

definition fill_stream_infos :: "soc_helper \<Rightarrow> epoch_blob_data \<Rightarrow> blob_error + epoch_blob_data" where
  "fill_stream_infos soc e =
     map_sum (\<lambda>(core_id, streams). bind_sum (fill_core_stream_infos e soc core_id 0 streams) (\<lambda>ss. Inr (core_id, ss))) e"

section \<open>The streams of the stream graphs\<close>

record stream_node =
  nd_ref :: stream_ref
  nd_phase_configs :: "phase_config list"
  nd_ncrisc_configs :: "ncrisc_config list"

definition add_stream_node :: "stream_node \<Rightarrow> stream_blob_data \<Rightarrow> stream_blob_data" where
  "add_stream_node n s =
     s\<lparr>sb_phases := fold (\<lambda>p. emplace (pc_phase_id p) p) (nd_phase_configs n) (sb_phases s), sb_ncriscs := nd_ncrisc_configs n\<rparr>"

text \<open>The order of cores is that of the locations.\<close>

definition add_to_epoch_blob_data ::
  "(tt_cxy_pair \<Rightarrow> tt_cxy_pair \<Rightarrow> bool) \<Rightarrow> stream_node \<Rightarrow> epoch_blob_data \<Rightarrow> epoch_blob_data" where
  "add_to_epoch_blob_data precedes n e =
     (let core_id = sn_physical_location (nd_ref n);
          stream_id = sn_stream_id (nd_ref n);
          core = (case map_of e core_id of None \<Rightarrow> [] | Some c \<Rightarrow> c);
          s = (case map_of core stream_id of
                 None \<Rightarrow> \<lparr>sb_phases = [], sb_ncriscs = [], sb_info = empty_stream_info, sb_stream_id = stream_id\<rparr> | Some s \<Rightarrow> s)
      in put_by precedes core_id (put stream_id (add_stream_node n s) core) e)"

definition get_epoch_blob_data :: "(tt_cxy_pair \<Rightarrow> tt_cxy_pair \<Rightarrow> bool) \<Rightarrow> stream_node list list \<Rightarrow> epoch_blob_data" where
  "get_epoch_blob_data precedes graphs = fold (fold (add_to_epoch_blob_data precedes)) graphs []"

definition add_tile_size :: "phase_config \<Rightarrow> (u32 \<times> u32) list \<Rightarrow> blob_error + (u32 \<times> u32) list" where
  "add_tile_size p m =
     (case sc_msg_size (pc_config p) of
        None \<Rightarrow> Inr m
      | Some tile_size \<Rightarrow> bind_sum (req (sc_msg_info_buf_addr (pc_config p))) (\<lambda>a. Inr (emplace tile_size a m)))"

definition add_tile_sizes :: "soc_helper \<Rightarrow> stream_node \<Rightarrow> (nat \<times> (u32 \<times> u32) list) list \<Rightarrow> blob_error + (nat \<times> (u32 \<times> u32) list) list" where
  "add_tile_sizes soc n m =
     (let core_id = sn_physical_location (nd_ref n);
          m1 = emplace (cxy_chip core_id) [] m
      in if is_ethernet_core soc core_id then Inr m1
         else bind_sum (at (cxy_chip core_id) m1) (\<lambda>sizes.
              bind_sum (fold_sum add_tile_size (nd_phase_configs n) sizes) (\<lambda>sizes1.
                Inr (put (cxy_chip core_id) sizes1 m1))))"

definition get_tile_size_and_address_per_chip ::
  "soc_helper \<Rightarrow> stream_node list list \<Rightarrow> blob_error + (nat \<times> (u32 \<times> u32) list) list" where
  "get_tile_size_and_address_per_chip soc graphs = fold_sum (add_tile_sizes soc) (concat graphs) []"

end
