(* ===== verification/EpochBuilder.thy ===== *)
theory EpochBuilder
  imports StreamInfos
begin

text \<open>
  The structures of an epoch, allocated one after the other at the addresses the firmware will find them at
  (\<open>overlay_generation/epoch_allocator.h\<close>) and filled from the configurations of the phases
  (\<open>epoch_blob_filler.cpp\<close>, \<open>epoch_t_builder.cpp\<close>).
\<close>

section \<open>The allocator\<close>

text \<open>
  A map from addresses to structures for every type. The types that are only allocated one at a time have a
  structure at an address, the others an array.
\<close>

record epoch_allocator =
  ea_curr_address :: u32
  ea_epoch :: "u32 \<Rightarrow> epoch_t option"
  ea_stream_info :: "u32 \<Rightarrow> epoch_stream_info_t option"
  ea_dram_io_info :: "u32 \<Rightarrow> epoch_stream_dram_io_info_t option"
  ea_dram_io_state :: "u32 \<Rightarrow> dram_io_state_t option"
  ea_scatter_state :: "u32 \<Rightarrow> dram_io_scatter_state_t option"
  ea_uint64 :: "u32 \<Rightarrow> (u32 \<times> u32) list option"
  ea_pipe_state :: "u32 \<Rightarrow> scatter_pipe_state_t list option"
  ea_pipe_blob :: "u32 \<Rightarrow> scatter_pipe_blob_t list option"

definition new_epoch_allocator :: "u32 \<Rightarrow> epoch_allocator" where
  "new_epoch_allocator start_address =
     \<lparr>ea_curr_address = start_address, ea_epoch = (\<lambda>_. None), ea_stream_info = (\<lambda>_. None), ea_dram_io_info = (\<lambda>_. None),
      ea_dram_io_state = (\<lambda>_. None), ea_scatter_state = (\<lambda>_. None), ea_uint64 = (\<lambda>_. None), ea_pipe_state = (\<lambda>_. None),
      ea_pipe_blob = (\<lambda>_. None)\<rparr>"

definition at_ptr :: "u32 \<Rightarrow> (u32 \<Rightarrow> 'a option) \<Rightarrow> blob_error + 'a" where
  "at_ptr p m = (case m p of None \<Rightarrow> Inl BlobOutOfRange | Some v \<Rightarrow> Inr v)"

lemma at_ptr_Inr_iff [simp]: "at_ptr p m = Inr v \<longleftrightarrow> m p = Some v"
  by (simp add: at_ptr_def split: option.splits)

definition advance :: "nat \<Rightarrow> epoch_allocator \<Rightarrow> epoch_allocator" where
  "advance n ea = ea\<lparr>ea_curr_address := ea_curr_address ea + word_of_nat n\<rparr>"

definition allocator_pad_to_noc_alignment :: "u32 \<Rightarrow> epoch_allocator \<Rightarrow> epoch_allocator" where
  "allocator_pad_to_noc_alignment alignment ea =
     ea\<lparr>ea_curr_address := get_noc_alignment_padding_bytes alignment (ea_curr_address ea)\<rparr>"

definition new_epoch_t :: "u32 \<Rightarrow> epoch_allocator \<Rightarrow> u32 \<times> epoch_allocator" where
  "new_epoch_t alignment ea =
     (let a = unat alignment; p = ea_curr_address ea
      in (p, advance (c_sizeof a (epoch_decl a)) (ea\<lparr>ea_epoch := (ea_epoch ea)(p \<mapsto> zero_epoch a)\<rparr>)))"

definition new_epoch_stream_info_t :: "u32 \<Rightarrow> epoch_allocator \<Rightarrow> u32 \<times> epoch_allocator" where
  "new_epoch_stream_info_t alignment ea =
     (let p = ea_curr_address ea
      in (p, advance (c_sizeof (unat alignment) epoch_stream_info_decl)
               (ea\<lparr>ea_stream_info := (ea_stream_info ea)(p \<mapsto> zero_stream_info)\<rparr>)))"

definition new_epoch_stream_dram_io_info_t :: "u32 \<Rightarrow> epoch_allocator \<Rightarrow> u32 \<times> epoch_allocator" where
  "new_epoch_stream_dram_io_info_t alignment ea =
     (let p = ea_curr_address ea
      in (p, advance (c_sizeof (unat alignment) epoch_stream_dram_io_info_decl)
               (ea\<lparr>ea_dram_io_info := (ea_dram_io_info ea)(p \<mapsto> zero_dram_io_info)\<rparr>)))"

definition new_dram_io_state_t :: "u32 \<Rightarrow> epoch_allocator \<Rightarrow> u32 \<times> epoch_allocator" where
  "new_dram_io_state_t alignment ea =
     (let p = ea_curr_address ea
      in (p, advance (sizeof_dram_io_state (unat alignment))
               (ea\<lparr>ea_dram_io_state := (ea_dram_io_state ea)(p \<mapsto> zero_dram_io_state)\<rparr>)))"

definition new_dram_io_scatter_state_t :: "u32 \<Rightarrow> epoch_allocator \<Rightarrow> u32 \<times> epoch_allocator" where
  "new_dram_io_scatter_state_t alignment ea =
     (let p = ea_curr_address ea
      in (p, advance (c_sizeof (unat alignment) dram_io_scatter_state_decl)
               (ea\<lparr>ea_scatter_state := (ea_scatter_state ea)(p \<mapsto> zero_scatter_state)\<rparr>)))"

definition new_tt_uint64_t :: "nat \<Rightarrow> epoch_allocator \<Rightarrow> u32 \<times> epoch_allocator" where
  "new_tt_uint64_t n ea =
     (let p = ea_curr_address ea in (p, advance (8 * n) (ea\<lparr>ea_uint64 := (ea_uint64 ea)(p \<mapsto> replicate n (0, 0))\<rparr>)))"

definition zero_pipe_state :: scatter_pipe_state_t where
  "zero_pipe_state = \<lparr>ps_curr_unroll = 0, ps_max_unroll = 0, ps_unused0 = 0, ps_unroll_blobs = 0\<rparr>"

definition zero_pipe_blob :: scatter_pipe_blob_t where
  "zero_pipe_blob = \<lparr>pb_scatter_blob_base_addr = 0, pb_start_scatter_blob_num_cfg_regs = 0\<rparr>"

definition new_scatter_pipe_state_t :: "nat \<Rightarrow> epoch_allocator \<Rightarrow> u32 \<times> epoch_allocator" where
  "new_scatter_pipe_state_t n ea =
     (let p = ea_curr_address ea
      in (p, advance (16 * n) (ea\<lparr>ea_pipe_state := (ea_pipe_state ea)(p \<mapsto> replicate n zero_pipe_state)\<rparr>)))"

definition new_scatter_pipe_blob_t :: "nat \<Rightarrow> epoch_allocator \<Rightarrow> u32 \<times> epoch_allocator" where
  "new_scatter_pipe_blob_t n ea =
     (let p = ea_curr_address ea
      in (p, advance (8 * n) (ea\<lparr>ea_pipe_blob := (ea_pipe_blob ea)(p \<mapsto> replicate n zero_pipe_blob)\<rparr>)))"

section \<open>Filling a structure\<close>

definition EPOCH_MAX_NUM_TILE_SIZES :: nat where "EPOCH_MAX_NUM_TILE_SIZES = 8"
definition EPOCH_MAX_INPUTS :: nat where "EPOCH_MAX_INPUTS = 24"
definition EPOCH_MAX_OUTPUTS_ETH :: nat where "EPOCH_MAX_OUTPUTS_ETH = 24"
definition EPOCH_MAX_OUTPUT_FORKS :: nat where "EPOCH_MAX_OUTPUT_FORKS = 16"

definition tt_uint64 :: "u64 \<Rightarrow> u32 \<times> u32" where
  "tt_uint64 v = (ucast v, ucast (drop_bit 32 v))"

text \<open>An element of an array of a structure; past its end nothing is defined.\<close>

definition write_nth :: "nat \<Rightarrow> 'a \<Rightarrow> 'a list \<Rightarrow> blob_error + 'a list" where
  "write_nth i x xs = (if i < length xs then Inr (xs[i := x]) else Inl BlobUndefined)"

lemma write_nth_Inr_iff [simp]: "write_nth i x xs = Inr ys \<longleftrightarrow> i < length xs \<and> ys = xs[i := x]"
  by (auto simp: write_nth_def)

definition assign_or_check_same :: "'a::zero option \<Rightarrow> 'a \<Rightarrow> blob_error + 'a" where
  "assign_or_check_same src dest =
     (case src of None \<Rightarrow> Inr dest | Some v \<Rightarrow> if dest = 0 \<or> dest = v then Inr v else Inl BlobAssert)"

definition assign_or_check_same_16 :: "u32 option \<Rightarrow> u16 \<Rightarrow> blob_error + u16" where
  "assign_or_check_same_16 src = assign_or_check_same (map_option ucast src)"

definition bit8 :: "bool \<Rightarrow> 8 word" where "bit8 b = (if b then 1 else 0)"

text \<open>The epoch with the sizes of the tiles of the phases, which are used on ethernet cores.\<close>

definition fill_epoch_phase ::
  "bool \<Rightarrow> phase_config \<Rightarrow> epoch_t \<times> (u32 \<times> u32) list \<Rightarrow> blob_error + epoch_t \<times> (u32 \<times> u32) list" where
  "fill_epoch_phase is_eth_core p st =
     (case st of (e, eth_sizes) \<Rightarrow>
        let c = pc_config p in
        bind_sum (assign_or_check_same_16 (sc_ublock_rt c) (ep_ublock_rt e)) (\<lambda>rt.
        bind_sum (assign_or_check_same_16 (sc_ublock_ct c) (ep_ublock_ct e)) (\<lambda>ct.
        bind_sum (assign_or_check_same_16 (sc_mblock_m c) (ep_mblock_m e)) (\<lambda>m.
        bind_sum (assign_or_check_same_16 (sc_mblock_n c) (ep_mblock_n e)) (\<lambda>n.
        bind_sum (assign_or_check_same_16 (sc_mblock_k c) (ep_mblock_k e)) (\<lambda>k.
        bind_sum (assign_or_check_same (if is_eth_core then Some 0 else sc_overlay_blob_extra_size c)
                    (ep_overlay_blob_extra_size e)) (\<lambda>extra.
        bind_sum (req (sc_msg_info_buf_addr c)) (\<lambda>addr.
          Inr (e\<lparr>ep_ublock_rt := rt, ep_ublock_ct := ct, ep_mblock_m := m, ep_mblock_n := n, ep_mblock_k := k,
                 ep_has_packer_mcast_opt := (if get_has_packer_mcast_opt p then 1 else ep_has_packer_mcast_opt e),
                 ep_has_eth_stream_trans :=
                   (if get_eth_sender p \<or> get_eth_receiver p then 1 else ep_has_eth_stream_trans e),
                 ep_skip_kernels := (if should_skip_kernels p then 1 else ep_skip_kernels e),
                 ep_overlay_blob_extra_size := extra\<rparr>,
               put (get_msg_size p) addr eth_sizes)))))))))"

definition fill_tile_size :: "u32 \<times> u32 \<Rightarrow> epoch_t \<Rightarrow> blob_error + epoch_t" where
  "fill_tile_size t e =
     (let i = unat (ep_num_tile_sizes e)
      in bind_sum (write_nth i (fst t div MEM_WORD_BYTES) (ep_tile_size_words e)) (\<lambda>ws.
         bind_sum (write_nth i (snd t) (ep_tile_size_header_buf_addr e)) (\<lambda>as.
           Inr (e\<lparr>ep_tile_size_words := ws, ep_tile_size_header_buf_addr := as, ep_num_tile_sizes := ep_num_tile_sizes e + 1\<rparr>))))"

text \<open>An array assigned from one of the same size.\<close>

definition overwrite :: "'a list \<Rightarrow> 'a list \<Rightarrow> 'a list" where
  "overwrite new old = take (length old) new @ drop (length new) old"

lemma length_overwrite [simp]: "length (overwrite new old) = length old"
  by (simp add: overwrite_def)

type_synonym dram_perf_info = "u64 list \<times> u16 list"

definition fill_epoch_fields ::
  "epoch_t \<Rightarrow> u32 \<Rightarrow> core_blob_data \<Rightarrow> (u32 \<times> u32) list \<Rightarrow> dram_perf_info option \<Rightarrow> u32 option \<Rightarrow> bool \<Rightarrow> blob_error + epoch_t" where
  "fill_epoch_fields e epoch_num streams tile_sizes perf_info ncrisc_fallback_buffer is_eth_core =
     bind_sum (write_nth 0 1 (ep_dummy_phase_tile_header_and_data e)) (\<lambda>hd.
     let e0 = e\<lparr>ep_epoch_valid := 1, ep_overlay_valid := 1, ep_epoch_id := epoch_num, ep_dummy_phase_tile_header_and_data := hd\<rparr>
     in bind_sum (fold_sum (\<lambda>p. fill_epoch_phase is_eth_core p) (concat (map (\<lambda>(i, s). map snd (sb_phases s)) streams)) (e0, []))
          (\<lambda>(e1, eth_sizes).
        bind_sum (fold_sum fill_tile_size (if is_eth_core then eth_sizes else tile_sizes) e1) (\<lambda>e2.
        let e3 = (case perf_info of None \<Rightarrow> e2
                  | Some (addrs, reqs) \<Rightarrow>
                      e2\<lparr>ep_perf_dram_addr := overwrite (map tt_uint64 addrs) (ep_perf_dram_addr e2),
                         ep_perf_req_max := overwrite reqs (ep_perf_req_max e2)\<rparr>)
        in Inr (case ncrisc_fallback_buffer of None \<Rightarrow> e3 | Some a \<Rightarrow> e3\<lparr>ep_extra_dram_q_state_addr := a\<rparr>))))"

definition fill_epoch_t_empty :: "epoch_t \<Rightarrow> epoch_t" where
  "fill_epoch_t_empty e =
     e\<lparr>ep_epoch_valid := 1, ep_overlay_valid := 0, ep_skip_kernels := 1,
       ep_dummy_phase_tile_header_and_data := (ep_dummy_phase_tile_header_and_data e)[0 := 1]\<rparr>"

definition first_phase_of :: "stream_blob_data \<Rightarrow> blob_error + u64 \<times> phase_config" where
  "first_phase_of s = nth_of (sb_phases s) 0"

text \<open>
  The members in their order; those that share a union are given by the configuration when it has a value.
  Those that are filled later keep what they have.
\<close>

definition fill_stream_info_buffers :: "phase_config \<Rightarrow> phases \<Rightarrow> epoch_stream_info_t \<Rightarrow> blob_error + epoch_stream_info_t" where
  "fill_stream_info_buffers p ps i =
     bind_sum (get_epoch_num_msgs ps) (\<lambda>num_tiles.
     bind_sum (get_buf_full_size_bytes p) (\<lambda>full.
     bind_sum (udiv full (get_msg_size p)) (\<lambda>buf_tiles.
     bind_sum (get_buf_base_addr p) (\<lambda>base.
       Inr (i\<lparr>si_epoch_num_tiles := num_tiles, si_tile_size_words := get_msg_size p div MEM_WORD_BYTES,
              si_buf_size_tiles := buf_tiles, si_buf_full_size_bytes := full, si_buf_base_addr := base\<rparr>)))))"

definition fill_stream_info_unions :: "phase_config \<Rightarrow> phases \<Rightarrow> epoch_stream_info_t \<Rightarrow> blob_error + epoch_stream_info_t" where
  "fill_stream_info_unions p ps i =
     (let c = pc_config p in
      bind_sum (case sc_skip_col_zrow_bytes c of Some n \<Rightarrow> Inr n | None \<Rightarrow> get_num_iter_tiles ps) (\<lambda>zrow.
        Inr (i\<lparr>si_skip_col_bytes := value_or (sc_skip_col_bytes c) (get_pipe_scatter_output_loop_count p),
               si_skip_col_tile_row_bytes := value_or (sc_skip_col_tile_row_bytes c) (si_skip_col_tile_row_bytes i),
               si_skip_col_row_bytes := value_or (sc_skip_col_row_bytes c) 0,
               si_skip_zcol_bytes := value_or (sc_skip_zcol_bytes c) 0,
               si_skip_col_zrow_bytes := zrow\<rparr>)))"

definition fill_stream_info_fields :: "stream_blob_data \<Rightarrow> epoch_stream_info_t \<Rightarrow> blob_error + epoch_stream_info_t" where
  "fill_stream_info_fields s i =
     bind_sum (first_phase_of s) (\<lambda>(first_id, p).
     let c = pc_config p in
     bind_sum (fill_stream_info_buffers p (sb_phases s) i) (\<lambda>i1.
     bind_sum (req (sc_msg_info_buf_addr c)) (\<lambda>msg_info.
     bind_sum (get_num_iters_in_epoch p) (\<lambda>iters.
     bind_sum (get_eth_remote_fw_stream_id p) (\<lambda>eth_id.
     bind_sum (fill_stream_info_unions p (sb_phases s) i1) (\<lambda>i2.
     let untilize = get_moves_raw_data p \<and> get_tile_dim_r p > 0
     in Inr (i2\<lparr>si_stream_id := ucast (sb_stream_id s), si_producer_epoch_id := ucast (get_producer_epoch_id p),
               si_epoch_start_phase := ucast first_id, si_datacopy_stream_type := get_datacopy_stream_type p,
               si_datacopy_stream_id := ucast (get_datacopy_stream_id p),
               si_num_msgs_in_block := ucast (get_num_msgs_in_block p),
               si_start_phase_num_cfg_regs := ucast (start_phase_num_cfg_regs (sb_info s)),
               si_packer_operand := ucast (get_space_shared_with_operand p),
               si_msg_info_buf_start := msg_info div MEM_WORD_BYTES, si_blob_size := blob_size (sb_info s),
               si_num_iters_in_epoch := iters, si_epoch_iters_remaining := iters,
               si_num_scatter_inner_loop := get_num_scatter_inner_loop p, si_legacy_pack := bit8 (get_legacy_pack p),
               si_eth_remote_fw_stream_id := ucast eth_id, si_num_mblock_buffering := ucast (get_num_mblock_buffering p),
               si_flags := get_stream_flags (sb_stream_id s) p
                 OR (case sb_ncriscs s of [] \<Rightarrow> 0 | n # _ \<Rightarrow> ncrisc_stream_flags n),
               si_stride := ucast (get_stride p), si_total_strides := ucast (get_total_strides p),
               si_stride_offset_size_bytes := get_stride_offset_size_bytes p,
               si_c_dim_size := ucast (get_c_dim_size p), si_r_dim_size := ucast (get_r_dim_size p),
               si_zc_dim_size := ucast (get_zc_dim_size p), si_zr_dim_size := ucast (get_zr_dim_size p),
               si_untilize_copy_iters := (if untilize then ucast (get_untilize_copy_iters p) else si_untilize_copy_iters i2),
               si_log_2x_untilize_copy_iters :=
                 (if untilize then ucast (get_log_2x_untilize_copy_iters p) else si_log_2x_untilize_copy_iters i2),
               si_num_dram_io_bufs := word_of_nat (length (sb_ncriscs s)),
               si_scatter_order_size := ucast (get_padding_scatter_order_size p)\<rparr>)))))))"

definition fill_dram_io_info_fields ::
  "stream_blob_data \<Rightarrow> epoch_stream_dram_io_info_t \<Rightarrow> blob_error + epoch_stream_dram_io_info_t" where
  "fill_dram_io_info_fields s d =
     bind_sum (nth_of (sb_ncriscs s) 0) (\<lambda>n.
     bind_sum (first_phase_of s) (\<lambda>(first_id, p).
     bind_sum (case sc_scatter_list_stream_id (pc_config p) of
                 Some r \<Rightarrow>
                   bind_sum (req (sc_scatter_list_indicies_per_tile (pc_config p))) (\<lambda>per_tile.
                   bind_sum (req (sc_scatter_list_indicies_per_input (pc_config p))) (\<lambda>per_input.
                     Inr (d\<lparr>di_scatter_list_stream_id := ucast (sn_stream_id r),
                            di_scatter_list_indicies_per_tile := ucast per_tile,
                            di_scatter_list_indicies_per_input := per_input\<rparr>)))
               | None \<Rightarrow>
                   Inr (d\<lparr>di_scatter_list_indicies_per_tile := ucast (get_c_dim_loop_num_rows p),
                          di_scatter_list_indicies_per_input := get_tilize_row_col_offset p\<rparr>)) (\<lambda>d1.
     bind_sum (get_epoch_q_slots_remaining p (sb_phases s) n) (\<lambda>slots.
       Inr (d1\<lparr>di_dram_q_slot_size_bytes := get_dram_q_slot_size_bytes n,
               di_input_noc := bit8 (get_incoming_data_noc p = NOC1), di_output_noc := bit8 (get_outgoing_data_noc p = NOC1),
               di_dram_output_no_push := bit8 (get_dram_output_no_push p),
               di_has_multi_readers := bit8 (has_multi_readers (sb_ncriscs s)),
               di_dram_embeddings_row_shift := get_dram_embeddings_row_shift p, di_epoch_q_slots_remaining := slots,
               di_dram_embeddings_row_tiles := ucast (get_dram_embeddings_row_tiles p),
               di_dram_writes_with_cmd_buf := bit8 (get_dram_writes_with_cmd_buf p),
               di_hw_tilize := bit8 (get_hw_tilize p)\<rparr>)))))"

definition fill_dram_io_state_fields ::
  "noc_helper \<Rightarrow> phase_config \<Rightarrow> ncrisc_config \<Rightarrow> dram_io_state_t \<Rightarrow> blob_error + dram_io_state_t" where
  "fill_dram_io_state_fields h p n d =
     bind_sum (get_data_chunk_size_tiles n) (\<lambda>tiles.
     bind_sum (get_data_chunk_size_bytes p n) (\<lambda>bytes.
     bind_sum (get_dram_q_slot_size_tiles_of_phase p n) (\<lambda>slot.
       Inr (d\<lparr>rd_streaming_epoch_id := get_dram_streaming_epoch_id (pc_phase_id p) n,
              wr_data_chunk_size_tiles := ucast tiles, wr_data_chunk_size_bytes := bytes,
              wr_dram_padding := bit8 (value_or (nc_dram_padding n) False),
              lc_dram_buf_size_bytes := nc_dram_buf_size_bytes n, lc_dram_buf_size_q_slots := nc_dram_buf_size_q_slots n,
              lc_dram_buf_addr := tt_uint64 (get_dram_buf_noc_addr h p n), lc_dram_q_slot_size_tiles := slot,
              lc_reader_index := ucast (reader_index n), lc_total_readers := ucast (total_readers n)\<rparr>))))"

definition fill_scatter_state_fields ::
  "noc_helper \<Rightarrow> phase_config \<Rightarrow> ncrisc_config \<Rightarrow> dram_io_scatter_state_t \<Rightarrow> blob_error + dram_io_scatter_state_t" where
  "fill_scatter_state_fields h p n d =
     bind_sum (get_dram_scatter_offsets h p n) (\<lambda>offs.
       Inr (d\<lparr>ss_scatter_offsets_size := word_of_nat (length offs),
              ss_scatter_chunk_size_bytes := get_scatter_chunk_size_bytes n,
              ss_q_slot_size_bytes := get_dram_q_slot_size_bytes n,
              ss_scatter_chunk_size_tiles := get_dram_scatter_chunk_size_tiles n\<rparr>))"

end
