(* ===== verification/EpochTBuilder.thy ===== *)
theory EpochTBuilder
  imports EpochBuilder
begin

text \<open>
  The structures of every core (\<open>overlay_generation/epoch_t_builder.cpp\<close>): allocated and linked in a first pass;
  what refers to other streams or to the end of the structures is filled in by a second one.
\<close>

section \<open>The first pass\<close>

definition fill_dram_scatter_offsets ::
  "u32 \<Rightarrow> noc_helper \<Rightarrow> phase_config \<Rightarrow> ncrisc_config \<Rightarrow> nat \<Rightarrow> epoch_allocator \<Rightarrow> blob_error + u32 \<times> epoch_allocator" where
  "fill_dram_scatter_offsets alignment h p n scatter_offsets_size ea =
     (let (ptr, ea1) = new_tt_uint64_t scatter_offsets_size ea;
          ea2 = allocator_pad_to_noc_alignment alignment ea1
      in bind_sum (get_dram_scatter_offsets h p n) (\<lambda>offs.
           if length offs < scatter_offsets_size then Inl BlobUndefined
           else Inr (ptr, ea2\<lparr>ea_uint64 := (ea_uint64 ea2)(ptr \<mapsto> map tt_uint64 (take scatter_offsets_size offs))\<rparr>)))"

definition fill_dram_io_scatter_state_t ::
  "u32 \<Rightarrow> noc_helper \<Rightarrow> phase_config \<Rightarrow> ncrisc_config \<Rightarrow> epoch_allocator \<Rightarrow> blob_error + u32 \<times> epoch_allocator" where
  "fill_dram_io_scatter_state_t alignment h p n ea =
     (let (ptr, ea1) = new_dram_io_scatter_state_t alignment ea
      in bind_sum (fill_scatter_state_fields h p n zero_scatter_state) (\<lambda>d.
         bind_sum (fill_dram_scatter_offsets alignment h p n (unat (ss_scatter_offsets_size d)) ea1) (\<lambda>(offs_ptr, ea2).
           Inr (ptr, ea2\<lparr>ea_scatter_state := (ea_scatter_state ea2)(ptr \<mapsto> d\<lparr>ss_scatter_offsets := offs_ptr\<rparr>)\<rparr>))))"

text \<open>The states of the DRAM buffers of a stream in a list; each points to the next one.\<close>

fun fill_dram_io_state_t ::
  "u32 \<Rightarrow> noc_helper \<Rightarrow> phase_config \<Rightarrow> ncrisc_config list \<Rightarrow> epoch_allocator \<Rightarrow> blob_error + u32 \<times> epoch_allocator" where
  "fill_dram_io_state_t alignment h p [] ea = Inr (0, ea)"
| "fill_dram_io_state_t alignment h p (n # ns) ea =
     (let (ptr, ea1) = new_dram_io_state_t alignment ea
      in bind_sum (fill_dram_io_state_fields h p n zero_dram_io_state) (\<lambda>d.
         bind_sum (if has_dram_scatter_offsets n
                   then bind_sum (fill_dram_io_scatter_state_t alignment h p n ea1)
                          (\<lambda>(sp, ea2). Inr (d\<lparr>lc_dram_io_scatter_state := sp\<rparr>, ea2))
                   else Inr (d, ea1)) (\<lambda>(d1, ea2).
         bind_sum (fill_dram_io_state_t alignment h p ns ea2) (\<lambda>(next_ptr, ea3).
           Inr (ptr, ea3\<lparr>ea_dram_io_state := (ea_dram_io_state ea3)(ptr \<mapsto> d1\<lparr>lc_next := next_ptr\<rparr>)\<rparr>)))))"

definition fill_epoch_stream_dram_io_info_t ::
  "u32 \<Rightarrow> noc_helper \<Rightarrow> stream_blob_data \<Rightarrow> epoch_allocator \<Rightarrow> blob_error + u32 \<times> epoch_allocator" where
  "fill_epoch_stream_dram_io_info_t alignment h s ea =
     (let (ptr, ea1) = new_epoch_stream_dram_io_info_t alignment ea
      in bind_sum (first_phase_of s) (\<lambda>(first_id, p).
         bind_sum (fill_dram_io_info_fields s zero_dram_io_info) (\<lambda>d.
         bind_sum (fill_dram_io_state_t alignment h p (sb_ncriscs s) ea1) (\<lambda>(sp, ea2).
           Inr (ptr, ea2\<lparr>ea_dram_io_info := (ea_dram_io_info ea2)(ptr \<mapsto> d\<lparr>di_dram_io_state := sp\<rparr>)\<rparr>)))))"

definition scatter_pipe_blobs_of :: "phase_offsets_for_single_dest \<Rightarrow> blob_error + scatter_pipe_blob_t list" where
  "scatter_pipe_blobs_of po =
     (if length (po_phase_num_cfg_regs po) < length (po_offsets po) then Inl BlobUndefined
      else Inr (map (\<lambda>(off, n). \<lparr>pb_scatter_blob_base_addr = off, pb_start_scatter_blob_num_cfg_regs = n\<rparr>)
                  (zip (po_offsets po) (po_phase_num_cfg_regs po))))"

text \<open>The blobs of every scatter index, and the state that points to them.\<close>

fun fill_scatter_pipe_blobs ::
  "(u64 \<times> phase_offsets_for_single_dest) list \<Rightarrow> epoch_allocator \<Rightarrow> blob_error + scatter_pipe_state_t list \<times> epoch_allocator" where
  "fill_scatter_pipe_blobs [] ea = Inr ([], ea)"
| "fill_scatter_pipe_blobs ((idx, po) # pos) ea =
     bind_sum (log_assert (int (length (po_offsets po)) = po_num_unroll_iter po)) (\<lambda>_.
     let max_unroll = word_of_int (po_num_unroll_iter po) :: u32;
         (ptr, ea1) = new_scatter_pipe_blob_t (unat max_unroll) ea
     in bind_sum (scatter_pipe_blobs_of po) (\<lambda>bs.
        let ea2 = ea1\<lparr>ea_pipe_blob := (ea_pipe_blob ea1)(ptr \<mapsto> bs)\<rparr>
        in bind_sum (fill_scatter_pipe_blobs pos ea2) (\<lambda>(ss, ea3).
             Inr (zero_pipe_state\<lparr>ps_max_unroll := max_unroll, ps_unroll_blobs := ptr\<rparr> # ss, ea3))))"

definition fill_scatter_pipe_structs :: "u32 \<Rightarrow> stream_info \<Rightarrow> epoch_allocator \<Rightarrow> blob_error + u32 \<times> epoch_allocator" where
  "fill_scatter_pipe_structs alignment info ea =
     (let (ptr, ea1) = new_scatter_pipe_state_t (length (phase_offsets info)) ea
      in bind_sum (fill_scatter_pipe_blobs (phase_offsets info) ea1) (\<lambda>(ss, ea2).
           Inr (ptr, allocator_pad_to_noc_alignment alignment (ea2\<lparr>ea_pipe_state := (ea_pipe_state ea2)(ptr \<mapsto> ss)\<rparr>))))"

definition fill_epoch_stream_info_t ::
  "u32 \<Rightarrow> noc_helper \<Rightarrow> stream_blob_data \<Rightarrow> epoch_allocator \<Rightarrow> blob_error + u32 \<times> epoch_allocator" where
  "fill_epoch_stream_info_t alignment h s ea =
     (let (ptr, ea1) = new_epoch_stream_info_t alignment ea
      in bind_sum (fill_stream_info_fields s zero_stream_info) (\<lambda>i.
         bind_sum (if phase_offsets (sb_info s) \<noteq> []
                   then bind_sum (fill_scatter_pipe_structs alignment (sb_info s) ea1)
                          (\<lambda>(sp, ea2). Inr (i\<lparr>si_skip_col_tile_row_bytes := sp\<rparr>, ea2))
                   else Inr (i, ea1)) (\<lambda>(i1, ea2).
         bind_sum (if sb_ncriscs s \<noteq> []
                   then bind_sum (fill_epoch_stream_dram_io_info_t alignment h s ea2)
                          (\<lambda>(dp, ea3). Inr (i1\<lparr>si_dram_io_info := dp\<rparr>, ea3))
                   else Inr (i1, ea2)) (\<lambda>(i2, ea3).
           Inr (ptr, ea3\<lparr>ea_stream_info := (ea_stream_info ea3)(ptr \<mapsto> i2)\<rparr>)))))"

definition add_input :: "phase_config \<Rightarrow> u32 \<Rightarrow> epoch_t \<Rightarrow> blob_error + epoch_t" where
  "add_input p ptr e =
     (case sc_input_index (pc_config p) of None \<Rightarrow> Inr e
      | Some i \<Rightarrow> bind_sum (write_nth (unat i) ptr (ep_inputs e)) (\<lambda>xs.
          Inr (e\<lparr>ep_num_inputs := max (ep_num_inputs e) (i + 1), ep_inputs := xs\<rparr>)))"

definition add_output :: "phase_config \<Rightarrow> u32 \<Rightarrow> epoch_t \<Rightarrow> blob_error + epoch_t" where
  "add_output p ptr e =
     (case sc_output_index (pc_config p) of None \<Rightarrow> Inr e
      | Some i \<Rightarrow> bind_sum (write_nth (unat i) ptr (ep_outputs e)) (\<lambda>xs.
          Inr (e\<lparr>ep_num_outputs := max (ep_num_outputs e) (i + 1), ep_outputs := xs\<rparr>)))"

definition add_stream_of_epoch ::
  "u32 \<Rightarrow> noc_helper \<Rightarrow> stream_blob_data \<Rightarrow> epoch_t \<times> epoch_allocator \<Rightarrow> blob_error + epoch_t \<times> epoch_allocator" where
  "add_stream_of_epoch alignment h s st =
     (case st of (e, ea) \<Rightarrow>
        bind_sum (fill_epoch_stream_info_t alignment h s ea) (\<lambda>(ptr, ea1).
        bind_sum (first_phase_of s) (\<lambda>(first_id, p).
        bind_sum (write_nth (unat (ep_num_active_streams e)) ptr (ep_active_streams e)) (\<lambda>as.
        bind_sum (add_input p ptr (e\<lparr>ep_active_streams := as, ep_num_active_streams := ep_num_active_streams e + 1\<rparr>)) (\<lambda>e1.
        bind_sum (add_output p ptr e1) (\<lambda>e2. Inr (e2, ea1)))))))"

definition fill_epoch_t_single_core ::
  "u32 \<Rightarrow> u32 \<Rightarrow> core_blob_data \<Rightarrow> (u32 \<times> u32) list \<Rightarrow> dram_perf_info option \<Rightarrow> u32 option \<Rightarrow> bool \<Rightarrow> noc_helper \<Rightarrow>
   epoch_allocator \<Rightarrow> blob_error + epoch_allocator" where
  "fill_epoch_t_single_core alignment epoch_num streams tile_sizes perf_info ncrisc_fallback_buffer is_eth_core h ea =
     (let (ptr, ea1) = new_epoch_t alignment ea
      in bind_sum (fill_epoch_fields (zero_epoch (unat alignment)) epoch_num streams tile_sizes perf_info ncrisc_fallback_buffer
                     is_eth_core) (\<lambda>e.
         bind_sum (fold_sum (\<lambda>(i, s). add_stream_of_epoch alignment h s) streams (e, ea1)) (\<lambda>(e1, ea2).
           let e2 = (if ep_num_inputs e1 = 0 \<and> ep_num_outputs e1 = 0 then e1\<lparr>ep_skip_kernels := 1\<rparr> else e1)
           in Inr (ea2\<lparr>ea_epoch := (ea_epoch ea2)(ptr \<mapsto> e2)\<rparr>))))"

type_synonym epoch_allocators = "(tt_cxy_pair \<times> epoch_allocator) list"

definition fill_epoch_t ::
  "soc_helper \<Rightarrow> (tt_cxy_pair \<times> dram_perf_info) list \<Rightarrow> (tt_cxy_pair \<times> u32) list \<Rightarrow> (nat \<times> (u32 \<times> u32) list) list \<Rightarrow> u32 \<Rightarrow>
   epoch_blob_data \<Rightarrow> blob_error + epoch_allocators" where
  "fill_epoch_t soc perf_infos fallback_buffers tile_sizes epoch_num e =
     map_sum (\<lambda>(core_id, streams).
       bind_sum (at (cxy_chip core_id) tile_sizes) (\<lambda>sizes.
       bind_sum (fill_epoch_t_single_core (noc_address_alignment soc) epoch_num streams sizes (map_of perf_infos core_id)
                   (map_of fallback_buffers core_id) (is_ethernet_core soc core_id) (get_noc_helper soc (cxy_chip core_id))
                   (new_epoch_allocator (get_overlay_start_address soc core_id))) (\<lambda>ea. Inr (core_id, ea)))) e"

section \<open>The second pass\<close>

text \<open>The active streams of an epoch end at the first null.\<close>

definition active_ptrs :: "epoch_t \<Rightarrow> u32 list" where
  "active_ptrs e = takeWhile (\<lambda>p. p \<noteq> 0) (ep_active_streams e)"

definition epoch_of_core :: "soc_helper \<Rightarrow> tt_cxy_pair \<Rightarrow> epoch_allocator \<Rightarrow> blob_error + epoch_t" where
  "epoch_of_core soc core_id ea = at_ptr (get_overlay_start_address soc core_id) (ea_epoch ea)"

definition stream_data_of :: "epoch_stream_info_t \<Rightarrow> core_blob_data \<Rightarrow> blob_error + stream_blob_data" where
  "stream_data_of i streams = at (ucast (si_stream_id i)) streams"

definition set_stream_info :: "u32 \<Rightarrow> epoch_stream_info_t \<Rightarrow> epoch_allocator \<Rightarrow> epoch_allocator" where
  "set_stream_info ptr i ea = ea\<lparr>ea_stream_info := (ea_stream_info ea)(ptr \<mapsto> i)\<rparr>"

text \<open>A pass over the active streams of every core.\<close>

definition each_active_stream ::
  "(u32 \<Rightarrow> epoch_allocator \<Rightarrow> blob_error + epoch_allocator) \<Rightarrow> soc_helper \<Rightarrow> tt_cxy_pair \<Rightarrow> epoch_allocator \<Rightarrow> blob_error + epoch_allocator" where
  "each_active_stream f soc core_id ea =
     bind_sum (epoch_of_core soc core_id ea) (\<lambda>e. fold_sum f (active_ptrs e) ea)"

fun find_active_stream :: "u32 \<Rightarrow> u32 list \<Rightarrow> nat \<Rightarrow> epoch_allocator \<Rightarrow> blob_error + nat option" where
  "find_active_stream stream_id [] i ea = Inr None"
| "find_active_stream stream_id (p # ps) i ea =
     bind_sum (log_assert (p \<noteq> 0)) (\<lambda>_.
     bind_sum (at_ptr p (ea_stream_info ea)) (\<lambda>s.
       if ucast (si_stream_id s) = stream_id then Inr (Some i) else find_active_stream stream_id ps (Suc i) ea))"

definition add_fork_idx :: "u32 list \<Rightarrow> epoch_allocator \<Rightarrow> stream_ref \<Rightarrow> epoch_stream_info_t \<Rightarrow> blob_error + epoch_stream_info_t" where
  "add_fork_idx active ea fork_stream i =
     bind_sum (find_active_stream (sn_stream_id fork_stream) active 0 ea) (\<lambda>found.
       case found of None \<Rightarrow> Inr i
       | Some k \<Rightarrow> bind_sum (write_nth (unat (si_num_fork_streams i)) (word_of_nat k) (si_fork_idxs i)) (\<lambda>xs.
           Inr (i\<lparr>si_fork_idxs := xs, si_num_fork_streams := si_num_fork_streams i + 1\<rparr>)))"

definition fill_fork_idxs_of_stream :: "u32 list \<Rightarrow> core_blob_data \<Rightarrow> u32 \<Rightarrow> epoch_allocator \<Rightarrow> blob_error + epoch_allocator" where
  "fill_fork_idxs_of_stream active streams ptr ea =
     bind_sum (at_ptr ptr (ea_stream_info ea)) (\<lambda>i.
     bind_sum (stream_data_of i streams) (\<lambda>s.
     bind_sum (first_phase_of s) (\<lambda>(first_id, p).
     bind_sum (fold_sum (add_fork_idx active ea) (get_fork_streams p) i) (\<lambda>i1.
       Inr (set_stream_info ptr (if get_is_scatter_pack p then i1\<lparr>si_num_fork_streams := si_num_fork_streams i1 - 1\<rparr> else i1) ea)))))"

definition fill_epoch_stream_info_t_fork_idxs ::
  "soc_helper \<Rightarrow> tt_cxy_pair \<Rightarrow> core_blob_data \<Rightarrow> epoch_allocator \<Rightarrow> blob_error + epoch_allocator" where
  "fill_epoch_stream_info_t_fork_idxs soc core_id streams ea =
     bind_sum (epoch_of_core soc core_id ea) (\<lambda>e.
       fold_sum (fill_fork_idxs_of_stream (ep_active_streams e) streams) (active_ptrs e) ea)"

text \<open>The addresses of the blobs of a scatter index become absolute.\<close>

definition update_pipe_blobs :: "u32 \<Rightarrow> scatter_pipe_state_t \<Rightarrow> epoch_allocator \<Rightarrow> blob_error + epoch_allocator" where
  "update_pipe_blobs blob_start_addr st ea =
     (if ps_max_unroll st = 0 then Inr ea
      else bind_sum (at_ptr (ps_unroll_blobs st) (ea_pipe_blob ea)) (\<lambda>bs.
        let n = unat (ps_max_unroll st)
        in if length bs < n then Inl BlobUndefined
           else Inr (ea\<lparr>ea_pipe_blob := (ea_pipe_blob ea)(ps_unroll_blobs st \<mapsto>
             map (\<lambda>b. b\<lparr>pb_scatter_blob_base_addr := pb_scatter_blob_base_addr b + blob_start_addr\<rparr>) (take n bs) @ drop n bs)\<rparr>)))"

definition update_pipe_state :: "u32 \<Rightarrow> u32 \<Rightarrow> nat \<Rightarrow> epoch_allocator \<Rightarrow> blob_error + epoch_allocator" where
  "update_pipe_state blob_start_addr ptr k ea =
     bind_sum (at_ptr ptr (ea_pipe_state ea)) (\<lambda>sts. bind_sum (nth_of sts k) (\<lambda>st. update_pipe_blobs blob_start_addr st ea))"

definition update_blob_base_addrs_of_stream :: "u32 \<Rightarrow> core_blob_data \<Rightarrow> u32 \<Rightarrow> epoch_allocator \<Rightarrow> blob_error + epoch_allocator" where
  "update_blob_base_addrs_of_stream blob_start_addr streams ptr ea =
     bind_sum (at_ptr ptr (ea_stream_info ea)) (\<lambda>i.
     bind_sum (stream_data_of i streams) (\<lambda>s.
     let ea1 = set_stream_info ptr (i\<lparr>si_blob_start_addr := blob_start_relative_offset (sb_info s) + blob_start_addr\<rparr>) ea
     in fold_sum (update_pipe_state blob_start_addr (si_skip_col_tile_row_bytes i)) [0..<length (phase_offsets (sb_info s))] ea1))"

definition update_blob_base_addrs :: "soc_helper \<Rightarrow> tt_cxy_pair \<Rightarrow> core_blob_data \<Rightarrow> epoch_allocator \<Rightarrow> blob_error + epoch_allocator" where
  "update_blob_base_addrs soc core_id streams ea =
     each_active_stream (update_blob_base_addrs_of_stream (ea_curr_address ea) streams) soc core_id ea"

definition find_epoch_stream_info_t ::
  "soc_helper \<Rightarrow> tt_cxy_pair \<Rightarrow> u32 \<Rightarrow> epoch_allocator \<Rightarrow> blob_error + epoch_stream_info_t" where
  "find_epoch_stream_info_t soc core_id stream_id ea =
     bind_sum (epoch_of_core soc core_id ea) (\<lambda>e.
     bind_sum (find_active_stream stream_id (active_ptrs e) 0 ea) (\<lambda>found.
       case found of None \<Rightarrow> Inl BlobAssert
       | Some k \<Rightarrow> bind_sum (nth_of (active_ptrs e) k) (\<lambda>p. at_ptr p (ea_stream_info ea))))"

text \<open>Where a stream that writes over PCIe finds the state of the reader.\<close>

definition desired_header_addr :: "soc_helper \<Rightarrow> epoch_allocators \<Rightarrow> ncrisc_config \<Rightarrow> blob_error + u32" where
  "desired_header_addr soc allocs n =
     bind_sum (req (nc_dram_streaming_dest n)) (\<lambda>dest.
     bind_sum (at (sn_physical_location dest) allocs) (\<lambda>ea.
     bind_sum (find_epoch_stream_info_t soc (sn_physical_location dest) (sn_stream_id dest) ea) (\<lambda>i.
     bind_sum (at_ptr (si_dram_io_info i) (ea_dram_io_info ea)) (\<lambda>d. Inr (di_dram_io_state d)))))"

text \<open>
  Every state of the list of a stream, with the configuration of its buffer. Only the states of the core
  are changed, so the other cores and their streams are those from before.
\<close>

fun fill_header_addrs ::
  "soc_helper \<Rightarrow> epoch_allocators \<Rightarrow> noc_helper \<Rightarrow> phase_config \<Rightarrow> ncrisc_config list \<Rightarrow> u32 \<Rightarrow> epoch_allocator \<Rightarrow>
   blob_error + epoch_allocator" where
  "fill_header_addrs soc allocs h p ns ptr ea =
     (if ptr = 0 then Inr ea
      else bind_sum (at_ptr ptr (ea_dram_io_state ea)) (\<lambda>d.
        case ns of [] \<Rightarrow> Inl BlobUndefined
        | n # ns1 \<Rightarrow>
            bind_sum (if value_or (nc_dram_output n) False \<and> value_or (nc_dram_streaming n) False
                      then bind_sum (desired_header_addr soc allocs n) (\<lambda>a.
                        Inr (d\<lparr>wr_streaming_header_addr := tt_uint64 (get_dram_streaming_header_addr h p a n)\<rparr>))
                      else Inr d) (\<lambda>d1.
              fill_header_addrs soc allocs h p ns1 (lc_next d1)
                (ea\<lparr>ea_dram_io_state := (ea_dram_io_state ea)(ptr \<mapsto> d1)\<rparr>))))"

declare fill_header_addrs.simps [simp del]

definition fill_header_addrs_of_stream ::
  "soc_helper \<Rightarrow> epoch_allocators \<Rightarrow> noc_helper \<Rightarrow> core_blob_data \<Rightarrow> u32 \<Rightarrow> epoch_allocator \<Rightarrow> blob_error + epoch_allocator" where
  "fill_header_addrs_of_stream soc allocs h streams ptr ea =
     bind_sum (at_ptr ptr (ea_stream_info ea)) (\<lambda>i.
     bind_sum (stream_data_of i streams) (\<lambda>s.
       if si_dram_io_info i = 0 then Inr ea
       else bind_sum (at_ptr (si_dram_io_info i) (ea_dram_io_info ea)) (\<lambda>d.
            bind_sum (first_phase_of s) (\<lambda>(first_id, p).
              fill_header_addrs soc allocs h p (sb_ncriscs s) (di_dram_io_state d) ea))))"

definition fill_dram_streaming_header_addr ::
  "soc_helper \<Rightarrow> epoch_allocators \<Rightarrow> tt_cxy_pair \<Rightarrow> core_blob_data \<Rightarrow> epoch_allocator \<Rightarrow> blob_error + epoch_allocator" where
  "fill_dram_streaming_header_addr soc allocs core_id streams ea =
     each_active_stream (fill_header_addrs_of_stream soc allocs (get_noc_helper soc (cxy_chip core_id)) streams) soc core_id ea"

text \<open>The jump back to the start of the blob replaces the placeholder.\<close>

definition fill_intermediate_loop :: "u32 \<Rightarrow> u64 \<times> phase_config \<Rightarrow> stream_info \<Rightarrow> blob_error + stream_info" where
  "fill_intermediate_loop blob_start_addr ip info =
     (case ip of (phase_id, p) \<Rightarrow>
        if get_intermediate p
        then bind_sum (at phase_id (stream_binary_instruction_list info)) (\<lambda>ss.
             bind_sum (nth_of ss 0) (\<lambda>s.
             bind_sum (pop_bytes 4 s) (\<lambda>s1.
             bind_sum (append_named 32 ''STREAM_PHASE_AUTO_CFG_PTR_REG_INDEX popped:''
                         (append_u32 (intermediates_blob_loop_dw (blob_start_relative_offset info + blob_start_addr))) s1) (\<lambda>s2.
               Inr (info\<lparr>stream_binary_instruction_list := put phase_id (ss[0 := s2]) (stream_binary_instruction_list info)\<rparr>)))))
        else Inr info)"

definition fill_intermediates_of_stream :: "u32 \<Rightarrow> stream_blob_data \<Rightarrow> blob_error + stream_blob_data" where
  "fill_intermediates_of_stream blob_start_addr s =
     bind_sum (fold_sum (fill_intermediate_loop blob_start_addr) (sb_phases s) (sb_info s)) (\<lambda>info. Inr (s\<lparr>sb_info := info\<rparr>))"

definition fill_intermediates_stream_binary_instruction_list ::
  "epoch_allocators \<Rightarrow> epoch_blob_data \<Rightarrow> blob_error + epoch_blob_data" where
  "fill_intermediates_stream_binary_instruction_list allocs e =
     map_sum (\<lambda>(core_id, streams).
       bind_sum (at core_id allocs) (\<lambda>ea.
       bind_sum (map_sum (\<lambda>(i, s). bind_sum (fill_intermediates_of_stream (ea_curr_address ea) s) (\<lambda>s1. Inr (i, s1))) streams)
         (\<lambda>ss. Inr (core_id, ss)))) e"

text \<open>A step on the allocator of every core of the data.\<close>

definition each_core ::
  "(epoch_allocators \<Rightarrow> tt_cxy_pair \<Rightarrow> core_blob_data \<Rightarrow> epoch_allocator \<Rightarrow> blob_error + epoch_allocator) \<Rightarrow>
   epoch_blob_data \<Rightarrow> epoch_allocators \<Rightarrow> blob_error + epoch_allocators" where
  "each_core f e =
     fold_sum (\<lambda>(core_id, streams) allocs.
       bind_sum (at core_id allocs) (\<lambda>ea.
       bind_sum (f allocs core_id streams ea) (\<lambda>ea1.
         Inr (map (\<lambda>(c, x). (c, if c = core_id then ea1 else x)) allocs)))) e"

definition fill_epoch_structs ::
  "soc_helper \<Rightarrow> (tt_cxy_pair \<times> dram_perf_info) list \<Rightarrow> (tt_cxy_pair \<times> u32) list \<Rightarrow> (nat \<times> (u32 \<times> u32) list) list \<Rightarrow> u32 \<Rightarrow>
   epoch_blob_data \<Rightarrow> blob_error + epoch_allocators \<times> epoch_blob_data" where
  "fill_epoch_structs soc perf_infos fallback_buffers tile_sizes epoch_num e =
     bind_sum (fill_epoch_t soc perf_infos fallback_buffers tile_sizes epoch_num e) (\<lambda>a0.
     bind_sum (each_core (\<lambda>_. fill_epoch_stream_info_t_fork_idxs soc) e a0) (\<lambda>a1.
     bind_sum (each_core (\<lambda>_. update_blob_base_addrs soc) e a1) (\<lambda>a2.
     bind_sum (each_core (fill_dram_streaming_header_addr soc) e a2) (\<lambda>a3.
     bind_sum (fill_intermediates_stream_binary_instruction_list a3 e) (\<lambda>e1. Inr (a3, e1))))))"

end
