(* ===== verification/BlobFiller.thy ===== *)
theory BlobFiller
  imports EpochTBuilder
begin

text \<open>
  The overlay blob of every core (\<open>overlay_generation/blob_filler.cpp\<close>): a section with the structures of the
  epoch, found by following their pointers, and a section with the blobs of the phases, where the first one
  ends. A core without streams has an empty epoch. \<open>Blobgen2::create_and_output_blobs_internal\<close>
  (\<open>blobgen2.cpp\<close>) puts the steps together.
\<close>

section \<open>The structures of the epoch\<close>

text \<open>
  The states of the DRAM buffers are a list in memory: nothing bounds the loop that follows it, and it does
  not return when the list is a cycle.
\<close>

definition add_scatter_state :: "u32 \<Rightarrow> epoch_allocator \<Rightarrow> bool \<Rightarrow> u32 \<Rightarrow> blob_section \<Rightarrow> blob_error + blob_section" where
  "add_scatter_state alignment ea hw_tilize ptr s =
     (if ptr = 0 then Inr s
      else bind_sum (at_ptr ptr (ea_scatter_state ea)) (\<lambda>d.
           bind_sum (add_dram_io_scatter_state_t alignment d s) (\<lambda>s1.
           bind_sum (at_ptr (ss_scatter_offsets d) (ea_uint64 ea)) (\<lambda>qs.
             if length qs < unat (ss_scatter_offsets_size d) then Inl BlobUndefined
             else add_dram_io_scatter_offsets alignment (take (unat (ss_scatter_offsets_size d)) qs) hw_tilize s1))))"

definition add_io_state :: "u32 \<Rightarrow> epoch_allocator \<Rightarrow> bool \<Rightarrow> dram_io_state_t \<Rightarrow> blob_section \<Rightarrow> blob_error + blob_section" where
  "add_io_state alignment ea hw_tilize d s =
     bind_sum (add_dram_io_state_t alignment d s) (add_scatter_state alignment ea hw_tilize (lc_dram_io_scatter_state d))"

partial_function (option) add_io_states ::
  "u32 \<Rightarrow> epoch_allocator \<Rightarrow> bool \<Rightarrow> u32 \<Rightarrow> blob_section \<Rightarrow> (blob_error + blob_section) option" where
  "add_io_states alignment ea hw_tilize ptr s =
     (if ptr = 0 then Some (Inr s)
      else case ea_dram_io_state ea ptr of
             None \<Rightarrow> Some (Inl BlobOutOfRange)
           | Some d \<Rightarrow> (case add_io_state alignment ea hw_tilize d s of
                         Inl x \<Rightarrow> Some (Inl x)
                       | Inr s1 \<Rightarrow> add_io_states alignment ea hw_tilize (lc_next d) s1))"

declare add_io_states.simps [code]

definition add_pipe_states :: "u32 \<Rightarrow> epoch_allocator \<Rightarrow> u32 \<Rightarrow> nat \<Rightarrow> blob_section \<Rightarrow> blob_error + blob_section" where
  "add_pipe_states alignment ea ptr n s =
     (if n = 0 then Inr s
      else bind_sum (at_ptr ptr (ea_pipe_state ea)) (\<lambda>sts.
           if length sts < n then Inl BlobUndefined
           else bind_sum (add_scatter_pipe_states (take n sts) s) (\<lambda>s1.
                bind_sum (fold_sum (\<lambda>st s. bind_sum (at_ptr (ps_unroll_blobs st) (ea_pipe_blob ea)) (\<lambda>bs.
                                      if length bs < unat (ps_max_unroll st) then Inl BlobUndefined
                                      else add_scatter_pipe_blobs (take (unat (ps_max_unroll st)) bs) s)) (take n sts) s1)
                  (\<lambda>s2. Inr (pad_to_noc_alignment alignment s2)))))"

definition add_dram_io :: "u32 \<Rightarrow> epoch_allocator \<Rightarrow> u32 \<Rightarrow> blob_section \<Rightarrow> (blob_error + blob_section) option" where
  "add_dram_io alignment ea ptr s =
     (if ptr = 0 then Some (Inr s)
      else case ea_dram_io_info ea ptr of
             None \<Rightarrow> Some (Inl BlobOutOfRange)
           | Some d \<Rightarrow> (case add_epoch_stream_dram_io_info_t alignment d s of
                         Inl x \<Rightarrow> Some (Inl x)
                       | Inr s1 \<Rightarrow> add_io_states alignment ea (di_hw_tilize d \<noteq> 0) (di_dram_io_state d) s1))"

definition add_stream ::
  "u32 \<Rightarrow> epoch_allocator \<Rightarrow> core_blob_data \<Rightarrow> u32 \<Rightarrow> blob_section \<Rightarrow> (blob_error + blob_section) option" where
  "add_stream alignment ea streams ptr s =
     (case bind_sum (at_ptr ptr (ea_stream_info ea)) (\<lambda>i.
           bind_sum (add_epoch_stream_info_t alignment i s) (\<lambda>s1.
           bind_sum (stream_data_of i streams) (\<lambda>d.
           bind_sum (add_pipe_states alignment ea (si_skip_col_tile_row_bytes i) (length (phase_offsets (sb_info d))) s1)
             (\<lambda>s2. Inr (si_dram_io_info i, s2))))) of
        Inl x \<Rightarrow> Some (Inl x)
      | Inr (dram_io_info, s2) \<Rightarrow> add_dram_io alignment ea dram_io_info s2)"

fun add_streams ::
  "u32 \<Rightarrow> epoch_allocator \<Rightarrow> core_blob_data \<Rightarrow> u32 list \<Rightarrow> blob_section \<Rightarrow> (blob_error + blob_section) option" where
  "add_streams alignment ea streams [] s = Some (Inr s)"
| "add_streams alignment ea streams (p # ps) s =
     (case add_stream alignment ea streams p s of
        None \<Rightarrow> None | Some (Inl x) \<Rightarrow> Some (Inl x) | Some (Inr s1) \<Rightarrow> add_streams alignment ea streams ps s1)"

definition fill_epoch_section ::
  "soc_helper \<Rightarrow> tt_cxy_pair \<Rightarrow> epoch_allocator \<Rightarrow> core_blob_data \<Rightarrow> blob_section \<Rightarrow> (blob_error + blob_section) option" where
  "fill_epoch_section soc core_id ea streams s =
     (let alignment = noc_address_alignment soc
      in case epoch_of_core soc core_id ea of
           Inl x \<Rightarrow> Some (Inl x)
         | Inr e \<Rightarrow> (case add_epoch_t alignment e s of
                       Inl x \<Rightarrow> Some (Inl x)
                     | Inr s1 \<Rightarrow> add_streams alignment ea streams (active_ptrs e) s1))"

section \<open>The blobs of the phases\<close>

definition add_phase_blob :: "stream_info \<Rightarrow> nat \<Rightarrow> u64 \<times> blob_section list \<Rightarrow> blob_section \<Rightarrow> blob_error + blob_section" where
  "add_phase_blob info i t s =
     bind_sum (at (fst t) (cfg_header_dw info)) (\<lambda>h.
     bind_sum (append_named 32 ''cfg_header_dw'' (append_u32 h) s) (\<lambda>s1.
     bind_sum (nth_of (snd t) i) (\<lambda>b.
     bind_sum (merge_section b None s1) (\<lambda>(s2, _). Inr s2))))"

text \<open>A dummy phase: its header counts the writes of the next one; the last one does not continue.\<close>

fun add_dummy_blobs :: "blob_section list \<Rightarrow> blob_section \<Rightarrow> blob_error + blob_section" where
  "add_dummy_blobs [] s = Inr s"
| "add_dummy_blobs (d # ds) s =
     (let auto_cfg_size = (case ds of [] \<Rightarrow> 0 | d1 # _ \<Rightarrow> dw_size d1)
      in bind_sum (append_named 32 ''header_dw'' (append_u32 (blob_header_dw (word_of_nat auto_cfg_size) 1 0)) s) (\<lambda>s1.
         bind_sum (merge_section d (Some (\<lambda>item. if ds = [] then set_auto_cfg item 0 else item)) s1) (\<lambda>(s2, _).
           add_dummy_blobs ds s2)))"

definition add_mblock_blobs :: "stream_info \<Rightarrow> nat \<Rightarrow> blob_section \<Rightarrow> blob_error + blob_section" where
  "add_mblock_blobs info i s =
     bind_sum (fold_sum (add_phase_blob info i) (stream_binary_instruction_list info) s) (\<lambda>s1.
     bind_sum (nth_of (dummy_phase_stream_binary_instruction_list info) i) (\<lambda>ds. add_dummy_blobs ds s1))"

definition add_stream_blobs :: "stream_info \<Rightarrow> blob_section \<Rightarrow> blob_error + blob_section" where
  "add_stream_blobs info s =
     (case stream_binary_instruction_list info of
        [] \<Rightarrow> Inl BlobUndefined
      | (i, ss) # _ \<Rightarrow> fold_sum (add_mblock_blobs info) [0..<length ss] s)"

definition fill_phase_blob_section :: "core_blob_data \<Rightarrow> blob_section \<Rightarrow> blob_error + blob_section" where
  "fill_phase_blob_section streams = fold_sum (\<lambda>(i, d). add_stream_blobs (sb_info d)) streams"

section \<open>The blob of a core\<close>

definition overlay_blob_size :: "soc_helper \<Rightarrow> tt_cxy_pair \<Rightarrow> epoch_t \<Rightarrow> u32" where
  "overlay_blob_size soc core_id e =
     (if is_ethernet_core soc core_id then eth_overlay_blob_size soc else l1_overlay_blob_size soc + ep_overlay_blob_extra_size e)"

definition core_note :: "soc_helper \<Rightarrow> tt_cxy_pair \<Rightarrow> string" where
  "core_note soc core_id = (if is_ethernet_core soc core_id then ''[ETH CORE]'' else ''[WORKER CORE]'')"

definition fill_valid_blob ::
  "soc_helper \<Rightarrow> tt_cxy_pair \<Rightarrow> epoch_allocator \<Rightarrow> core_blob_data \<Rightarrow> (blob_error + blob_section list) option" where
  "fill_valid_blob soc core_id ea streams =
     (let start = get_overlay_start_address soc core_id;
          s0 = append_debug (core_note soc core_id) (new_blob_section start)
      in case epoch_of_core soc core_id ea of
           Inl x \<Rightarrow> Some (Inl x)
         | Inr e \<Rightarrow>
             (case fill_epoch_section soc core_id ea streams s0 of
                None \<Rightarrow> None
              | Some (Inl x) \<Rightarrow> Some (Inl x)
              | Some (Inr epoch_section) \<Rightarrow>
                  Some (bind_sum (fill_phase_blob_section streams (new_blob_section (ea_curr_address ea))) (\<lambda>blob_space_section.
                    bind_sum (log_assert (length (bs_data epoch_section) + length (bs_data blob_space_section)
                                            \<le> unat (overlay_blob_size soc core_id e)))
                      (\<lambda>_. Inr [epoch_section, blob_space_section])))))"

definition fill_empty_blob :: "soc_helper \<Rightarrow> tt_cxy_pair \<Rightarrow> blob_error + blob_section list" where
  "fill_empty_blob soc core_id =
     (let alignment = noc_address_alignment soc;
          (ptr, ea) = new_epoch_t alignment (new_epoch_allocator (get_overlay_start_address soc core_id));
          s = append_debug (core_note soc core_id) (new_blob_section ptr)
      in bind_sum (add_epoch_t alignment (fill_epoch_t_empty (zero_epoch (unat alignment))) s) (\<lambda>s1. Inr [s1]))"

text \<open>The blobs of the cores with streams, and those of all the others.\<close>

type_synonym blobs = "(tt_cxy_pair \<times> blob_section list) list"

fun fill_valid_blobs :: "soc_helper \<Rightarrow> epoch_allocators \<Rightarrow> epoch_blob_data \<Rightarrow> (blob_error + blobs) option" where
  "fill_valid_blobs soc allocs [] = Some (Inr [])"
| "fill_valid_blobs soc allocs ((core_id, streams) # cores) =
     (case at core_id allocs of
        Inl x \<Rightarrow> Some (Inl x)
      | Inr ea \<Rightarrow>
          (case fill_valid_blob soc core_id ea streams of
             None \<Rightarrow> None
           | Some (Inl x) \<Rightarrow> Some (Inl x)
           | Some (Inr b) \<Rightarrow>
               (case fill_valid_blobs soc allocs cores of
                  None \<Rightarrow> None | Some (Inl x) \<Rightarrow> Some (Inl x) | Some (Inr bs) \<Rightarrow> Some (Inr ((core_id, b) # bs)))))"

definition empty_cores :: "soc_helper \<Rightarrow> tt_cxy_pair list \<Rightarrow> tt_cxy_pair list" where
  "empty_cores soc valid_cores =
     filter (\<lambda>c. c \<notin> set valid_cores) (concat (map (\<lambda>chip. get_worker_cores soc chip @ get_ethernet_cores soc chip) (get_chip_ids soc)))"

definition fill_empty_blobs ::
  "(tt_cxy_pair \<Rightarrow> tt_cxy_pair \<Rightarrow> bool) \<Rightarrow> soc_helper \<Rightarrow> tt_cxy_pair list \<Rightarrow> blobs \<Rightarrow> blob_error + blobs" where
  "fill_empty_blobs precedes soc valid_cores =
     fold_sum (\<lambda>c bs. bind_sum (fill_empty_blob soc c) (\<lambda>b. Inr (put_by precedes c (value_or (map_of bs c) [] @ b) bs)))
       (empty_cores soc valid_cores)"

definition fill_blobs ::
  "(tt_cxy_pair \<Rightarrow> tt_cxy_pair \<Rightarrow> bool) \<Rightarrow> soc_helper \<Rightarrow> epoch_allocators \<Rightarrow> epoch_blob_data \<Rightarrow> (blob_error + blobs) option" where
  "fill_blobs precedes soc allocs e =
     (case fill_valid_blobs soc allocs e of
        None \<Rightarrow> None
      | Some (Inl x) \<Rightarrow> Some (Inl x)
      | Some (Inr bs) \<Rightarrow> Some (fill_empty_blobs precedes soc (map fst e) bs))"

section \<open>From the streams to the blobs\<close>

definition create_blobs ::
  "(tt_cxy_pair \<Rightarrow> tt_cxy_pair \<Rightarrow> bool) \<Rightarrow> soc_helper \<Rightarrow> stream_node list list \<Rightarrow> (tt_cxy_pair \<times> dram_perf_info) list \<Rightarrow>
   (tt_cxy_pair \<times> u32) list \<Rightarrow> u32 \<Rightarrow> (blob_error + blobs) option" where
  "create_blobs precedes soc stream_graphs perf_infos fallback_buffers epoch_num =
     (case bind_sum (get_tile_size_and_address_per_chip soc stream_graphs) (\<lambda>tile_sizes.
           bind_sum (fill_stream_infos soc (get_epoch_blob_data precedes stream_graphs)) (\<lambda>e.
             fill_epoch_structs soc perf_infos fallback_buffers tile_sizes epoch_num e)) of
        Inl x \<Rightarrow> Some (Inl x)
      | Inr (allocs, e1) \<Rightarrow> fill_blobs precedes soc allocs e1)"

end
