(* ===== verification/EpochBlocks.thy ===== *)
theory EpochBlocks
  imports BlobFiller EpochLayout
begin

text \<open>
  An allocator as a list of blocks: the structures in the order of their addresses, with the bytes that the
  section of the epoch has for each.
\<close>

section \<open>Blocks\<close>

datatype block =
    BEpoch epoch_t | BInfo epoch_stream_info_t | BDram epoch_stream_dram_io_info_t | BState dram_io_state_t
  | BScatter dram_io_scatter_state_t | BOffsets bool "(u32 \<times> u32) list" | BPipes "scatter_pipe_state_t list"
  | BBlobs "scatter_pipe_blob_t list" | BPad nat

fun block_bytes :: "nat \<Rightarrow> block \<Rightarrow> 8 word list" where
  "block_bytes al (BEpoch e) = epoch_image al e"
| "block_bytes al (BInfo i) = stream_info_image al i"
| "block_bytes al (BDram d) = dram_io_info_image al d"
| "block_bytes al (BState d) = dram_io_state_image al d"
| "block_bytes al (BScatter d) = scatter_state_image al d"
| "block_bytes al (BOffsets hw qs) = offsets_image hw qs @ replicate (round_up (8 * length qs) al - 8 * length qs) 0"
| "block_bytes al (BPipes es) = pipe_states_image es"
| "block_bytes al (BBlobs bs) = pipe_blobs_image bs"
| "block_bytes al (BPad n) = replicate n 0"

fun block_size :: "nat \<Rightarrow> block \<Rightarrow> nat" where
  "block_size al (BEpoch e) = c_sizeof al (epoch_decl al)"
| "block_size al (BInfo i) = c_sizeof al epoch_stream_info_decl"
| "block_size al (BDram d) = c_sizeof al epoch_stream_dram_io_info_decl"
| "block_size al (BState d) = sizeof_dram_io_state al"
| "block_size al (BScatter d) = c_sizeof al dram_io_scatter_state_decl"
| "block_size al (BOffsets hw qs) = round_up (8 * length qs) al"
| "block_size al (BPipes es) = 16 * length es"
| "block_size al (BBlobs bs) = 8 * length bs"
| "block_size al (BPad n) = n"

definition blocks_size :: "nat \<Rightarrow> block list \<Rightarrow> nat" where
  "blocks_size al bs = sum_list (map (block_size al) bs)"

definition blocks_bytes :: "nat \<Rightarrow> block list \<Rightarrow> 8 word list" where
  "blocks_bytes al bs = concat (map (block_bytes al) bs)"

lemma blocks_simps [simp]:
  "blocks_size al [] = 0" "blocks_size al (b # bs) = block_size al b + blocks_size al bs"
  "blocks_size al (xs @ ys) = blocks_size al xs + blocks_size al ys"
  "blocks_bytes al [] = []" "blocks_bytes al (b # bs) = block_bytes al b @ blocks_bytes al bs"
  "blocks_bytes al (xs @ ys) = blocks_bytes al xs @ blocks_bytes al ys"
  by (simp_all add: blocks_size_def blocks_bytes_def)

fun block_ok :: "nat \<Rightarrow> block \<Rightarrow> bool" where
  "block_ok al (BEpoch e) = epoch_t_ok al e"
| "block_ok al (BInfo i) = (length (si_fork_idxs i) = 16)"
| "block_ok al (BOffsets hw qs) = (qs \<noteq> [])"
| "block_ok al (BPipes es) = (es \<noteq> [])"
| "block_ok al (BBlobs bs) = (bs \<noteq> [])"
| "block_ok al _ = True"

lemma length_block_bytes:
  assumes al: "al = 32 \<or> al = 64" and ok: "block_ok al b"
  shows "length (block_bytes al b) = block_size al b"
proof -
  have a: "0 < al" using al by auto
  note d = declares_dram_io_state [THEN struct_image_length, OF a]
  have off: "length (offsets_image hw qs) = 8 * length qs" for hw qs by (rule length_offsets_image)
  show ?thesis
  proof (cases b)
    case (BEpoch e)
    then show ?thesis using declares_epoch [OF al] ok a by (simp add: epoch_image_def struct_image_length)
  next
    case (BInfo i)
    then show ?thesis using declares_epoch_stream_info ok a by (simp add: stream_info_image_def struct_image_length)
  next
    case (BDram i)
    then show ?thesis using declares_epoch_stream_dram_io_info a by (simp add: dram_io_info_image_def struct_image_length)
  next
    case (BState i)
    then show ?thesis by (simp add: dram_io_state_image_def d sizeof_dram_io_state_def)
  next
    case (BScatter i)
    then show ?thesis using declares_dram_io_scatter_state a by (simp add: scatter_state_image_def struct_image_length)
  next
    case (BOffsets hw qs)
    then show ?thesis using round_up_le [OF a, of "8 * length qs"] by (simp add: off)
  qed (simp_all add: length_pipe_images)
qed

lemma length_blocks_bytes:
  assumes al: "al = 32 \<or> al = 64" and ok: "\<forall>b \<in> set bs. block_ok al b"
  shows "length (blocks_bytes al bs) = blocks_size al bs"
  using ok by (induction bs) (simp_all add: length_block_bytes [OF al])

text \<open>The sizes are multiples of the alignment, but for the arrays of a scatter pipe, which are padded together.\<close>

lemma sizes_aligned:
  assumes al: "al = 32 \<or> al = 64"
  shows "c_sizeof al ms mod al = 0" "sizeof_dram_io_state al mod al = 0" "round_up n al mod al = 0"
proof -
  have a: "0 < al" using al by auto
  show m: "c_sizeof al ms mod al = 0" for ms by (simp add: c_sizeof_def round_up_mod)
  show "sizeof_dram_io_state al mod al = 0" by (simp add: sizeof_dram_io_state_def m mod_add_eq [symmetric])
  show "round_up n al mod al = 0" by (rule round_up_mod)
qed

lemma sizes_positive:
  assumes al: "al = 32 \<or> al = 64"
  shows "0 < c_sizeof al (epoch_decl al)" "0 < c_sizeof al epoch_stream_info_decl"
    "0 < c_sizeof al epoch_stream_dram_io_info_decl" "0 < sizeof_dram_io_state al" "0 < c_sizeof al dram_io_scatter_state_decl"
  using al by (auto simp: epoch_size struct_size sizeof_dram_io_state_def round_up_def)

section \<open>The allocator of a list of blocks\<close>

text \<open>An address, kept in one piece.\<close>

definition ptr :: "nat \<Rightarrow> u32" where
  "ptr n = word_of_nat n"

lemma unat_ptr: "n < 2 ^ 32 \<Longrightarrow> unat (ptr n) = n"
  by (simp add: ptr_def unat_of_nat)

definition get_epoch :: "block \<Rightarrow> epoch_t option" where
  "get_epoch b = (case b of BEpoch e \<Rightarrow> Some e | _ \<Rightarrow> None)"
definition get_info :: "block \<Rightarrow> epoch_stream_info_t option" where
  "get_info b = (case b of BInfo e \<Rightarrow> Some e | _ \<Rightarrow> None)"
definition get_dram :: "block \<Rightarrow> epoch_stream_dram_io_info_t option" where
  "get_dram b = (case b of BDram e \<Rightarrow> Some e | _ \<Rightarrow> None)"
definition get_state :: "block \<Rightarrow> dram_io_state_t option" where
  "get_state b = (case b of BState e \<Rightarrow> Some e | _ \<Rightarrow> None)"
definition get_scatter :: "block \<Rightarrow> dram_io_scatter_state_t option" where
  "get_scatter b = (case b of BScatter e \<Rightarrow> Some e | _ \<Rightarrow> None)"
definition get_offsets :: "block \<Rightarrow> (u32 \<times> u32) list option" where
  "get_offsets b = (case b of BOffsets hw e \<Rightarrow> Some e | _ \<Rightarrow> None)"
definition get_pipes :: "block \<Rightarrow> scatter_pipe_state_t list option" where
  "get_pipes b = (case b of BPipes e \<Rightarrow> Some e | _ \<Rightarrow> None)"
definition get_blobs :: "block \<Rightarrow> scatter_pipe_blob_t list option" where
  "get_blobs b = (case b of BBlobs e \<Rightarrow> Some e | _ \<Rightarrow> None)"

lemmas getter_defs = get_epoch_def get_info_def get_dram_def get_state_def get_scatter_def get_offsets_def get_pipes_def
  get_blobs_def

lemma getter_simps [simp]:
  "get_epoch (BEpoch e) = Some e" "get_info (BInfo i) = Some i" "get_dram (BDram d) = Some d" "get_state (BState t) = Some t"
  "get_scatter (BScatter c) = Some c" "get_offsets (BOffsets hw qs) = Some qs" "get_pipes (BPipes ps) = Some ps"
  "get_blobs (BBlobs bs) = Some bs"
  by (simp_all add: getter_defs)

fun lookup :: "nat \<Rightarrow> (block \<Rightarrow> 'a option) \<Rightarrow> nat \<Rightarrow> block list \<Rightarrow> u32 \<Rightarrow> 'a option" where
  "lookup al g a [] p = None"
| "lookup al g a (b # bs) p =
     (case lookup al g (a + block_size al b) bs p of Some v \<Rightarrow> Some v | None \<Rightarrow> if p = ptr a then g b else None)"

text \<open>What is found has a size.\<close>

definition sized :: "nat \<Rightarrow> (block \<Rightarrow> 'a option) \<Rightarrow> block list \<Rightarrow> bool" where
  "sized al g bs \<longleftrightarrow> (\<forall>b \<in> set bs. g b \<noteq> None \<longrightarrow> 0 < block_size al b)"

lemma sized_simps [simp]:
  "sized al g []" "sized al g (b # bs) \<longleftrightarrow> (g b \<noteq> None \<longrightarrow> 0 < block_size al b) \<and> sized al g bs"
  "sized al g (xs @ ys) \<longleftrightarrow> sized al g xs \<and> sized al g ys"
  by (auto simp: sized_def)

lemma lookup_append:
  "lookup al g a (xs @ ys) p =
     (case lookup al g (a + blocks_size al xs) ys p of Some v \<Rightarrow> Some v | None \<Rightarrow> lookup al g a xs p)"
  by (induction xs arbitrary: a) (simp_all add: add.assoc split: option.splits)

lemma lookup_range:
  assumes "lookup al g a bs p = Some v" and "sized al g bs" and "a + blocks_size al bs \<le> 2 ^ 32"
  shows "a \<le> unat p \<and> unat p < a + blocks_size al bs"
  using assms
proof (induction bs arbitrary: a)
  case (Cons b bs)
  show ?case
  proof (cases "lookup al g (a + block_size al b) bs p")
    case None
    then have p: "p = ptr a" "g b = Some v" using Cons.prems(1) by (auto split: if_splits)
    then have "0 < block_size al b" using Cons.prems(2) by auto
    then have "unat p = a" using Cons.prems(3) p by (simp add: unat_ptr)
    then show ?thesis using \<open>0 < block_size al b\<close> by simp
  next
    case (Some w)
    then show ?thesis using Cons.IH [of "a + block_size al b"] Cons.prems by (auto simp: add.assoc)
  qed
qed simp

lemma lookup_beyond:
  assumes "sized al g bs" and "a + blocks_size al bs \<le> 2 ^ 32" and "unat p < a \<or> a + blocks_size al bs \<le> unat p"
  shows "lookup al g a bs p = None"
  using lookup_range [OF _ assms(1,2), of p] assms(3) by (cases "lookup al g a bs p") force+

lemma lookup_here:
  assumes "g b = Some v" and "sized al g (xs @ b # ys)" and "a + blocks_size al (xs @ b # ys) \<le> 2 ^ 32"
  shows "lookup al g a (xs @ b # ys) (ptr (a + blocks_size al xs)) = Some v"
proof -
  let ?p = "a + blocks_size al xs"
  have "0 < block_size al b" using assms(1,2) by simp
  then have "unat (ptr ?p :: u32) = ?p" using assms(3) by (simp add: unat_ptr)
  then have "lookup al g (?p + block_size al b) ys (ptr ?p) = None"
    using assms \<open>0 < block_size al b\<close> by (intro lookup_beyond) simp_all
  then show ?thesis using assms(1) by (simp add: lookup_append)
qed

text \<open>A block is written.\<close>

lemma lookup_write:
  assumes "g b \<noteq> None" and "g b' = Some v" and "block_size al b' = block_size al b"
    and "sized al g (xs @ b # ys)" and "a + blocks_size al (xs @ b # ys) \<le> 2 ^ 32"
  shows "(lookup al g a (xs @ b # ys))(ptr (a + blocks_size al xs) \<mapsto> v) = lookup al g a (xs @ b' # ys)"
proof
  fix q
  let ?p = "a + blocks_size al xs"
  have pos: "0 < block_size al b" using assms(1,4) by simp
  then have u: "unat (ptr ?p :: u32) = ?p" using assms(5) by (simp add: unat_ptr)
  show "((lookup al g a (xs @ b # ys))(ptr ?p \<mapsto> v)) q = lookup al g a (xs @ b' # ys) q"
  proof (cases "q = ptr ?p")
    case True
    have "sized al g (xs @ b' # ys)" using assms(3,4) pos by simp
    moreover have "a + blocks_size al (xs @ b' # ys) \<le> 2 ^ 32" using assms(3,5) by simp
    ultimately show ?thesis using True assms(2) lookup_here [of g b' v al xs ys a] by simp
  next
    case False
    then show ?thesis using assms(3) by (simp add: lookup_append)
  qed
qed

lemma lookup_other: "g b = None \<Longrightarrow> g b' = None \<Longrightarrow> block_size al b' = block_size al b \<Longrightarrow>
    lookup al g a (xs @ b' # ys) = lookup al g a (xs @ b # ys)"
  by (rule ext) (simp add: lookup_append split: option.splits)

lemma lookup_new: "lookup al g a (xs @ [b]) = (case g b of None \<Rightarrow> lookup al g a xs | Some v \<Rightarrow> (lookup al g a xs)(ptr (a + blocks_size al xs) \<mapsto> v))"
  by (rule ext) (simp add: lookup_append split: option.splits)

definition alloc_of :: "nat \<Rightarrow> nat \<Rightarrow> block list \<Rightarrow> epoch_allocator" where
  "alloc_of al a bs =
     \<lparr>ea_curr_address = ptr (a + blocks_size al bs), ea_epoch = lookup al get_epoch a bs,
      ea_stream_info = lookup al get_info a bs, ea_dram_io_info = lookup al get_dram a bs,
      ea_dram_io_state = lookup al get_state a bs, ea_scatter_state = lookup al get_scatter a bs,
      ea_uint64 = lookup al get_offsets a bs, ea_pipe_state = lookup al get_pipes a bs, ea_pipe_blob = lookup al get_blobs a bs\<rparr>"

lemma alloc_of_sel [simp]:
  "ea_curr_address (alloc_of al a bs) = ptr (a + blocks_size al bs)"
  "ea_epoch (alloc_of al a bs) = lookup al get_epoch a bs" "ea_stream_info (alloc_of al a bs) = lookup al get_info a bs"
  "ea_dram_io_info (alloc_of al a bs) = lookup al get_dram a bs" "ea_dram_io_state (alloc_of al a bs) = lookup al get_state a bs"
  "ea_scatter_state (alloc_of al a bs) = lookup al get_scatter a bs" "ea_uint64 (alloc_of al a bs) = lookup al get_offsets a bs"
  "ea_pipe_state (alloc_of al a bs) = lookup al get_pipes a bs" "ea_pipe_blob (alloc_of al a bs) = lookup al get_blobs a bs"
  by (simp_all add: alloc_of_def)

lemma new_epoch_allocator_blocks: "new_epoch_allocator (ptr a) = alloc_of al a []"
  by (simp add: new_epoch_allocator_def alloc_of_def fun_eq_iff)

definition room :: "nat \<Rightarrow> nat \<Rightarrow> block list \<Rightarrow> bool" where
  "room al a bs \<longleftrightarrow> a + blocks_size al bs \<le> 2 ^ 32 \<and> (\<forall>b \<in> set bs. block_ok al b)"

lemma ok_sized: "al = 32 \<or> al = 64 \<Longrightarrow> \<forall>b \<in> set bs. block_ok al b \<Longrightarrow> \<forall>n. g (BPad n) = None \<Longrightarrow> sized al g bs"
proof -
  assume al: "al = 32 \<or> al = 64" and ok: "\<forall>b \<in> set bs. block_ok al b" and pad: "\<forall>n. g (BPad n) = None"
  have "0 < block_size al b" if "block_ok al b" "g b \<noteq> None" for b
  proof (cases b)
    case (BOffsets hw qs)
    then have "0 < 8 * length qs" using that by simp
    moreover have "8 * length qs \<le> round_up (8 * length qs) al" using al round_up_le [of al "8 * length qs"] by auto
    ultimately show ?thesis unfolding BOffsets block_size.simps by linarith
  qed (use that pad sizes_positive [OF al] in \<open>simp_all\<close>)
  then show ?thesis using ok by (auto simp: sized_def)
qed

lemma room_sized:
  assumes al: "al = 32 \<or> al = 64" and "room al a bs"
  shows "sized al get_epoch bs" "sized al get_info bs" "sized al get_dram bs" "sized al get_state bs" "sized al get_scatter bs"
    "sized al get_offsets bs" "sized al get_pipes bs" "sized al get_blobs bs"
  by (rule ok_sized [OF al]; use assms(2) in \<open>simp add: room_def getter_defs\<close>)+

text \<open>The structure at the address of a block.\<close>

lemma found:
  assumes al: "al = 32 \<or> al = 64" and r: "room al a (xs @ b # ys)" and p: "p = ptr (a + blocks_size al xs)"
  shows "b = BEpoch e \<Longrightarrow> lookup al get_epoch a (xs @ b # ys) p = Some e"
    "b = BInfo i \<Longrightarrow> lookup al get_info a (xs @ b # ys) p = Some i"
    "b = BDram d \<Longrightarrow> lookup al get_dram a (xs @ b # ys) p = Some d"
    "b = BState st \<Longrightarrow> lookup al get_state a (xs @ b # ys) p = Some st"
    "b = BScatter sc \<Longrightarrow> lookup al get_scatter a (xs @ b # ys) p = Some sc"
    "b = BOffsets hw qs \<Longrightarrow> lookup al get_offsets a (xs @ b # ys) p = Some qs"
    "b = BPipes ps \<Longrightarrow> lookup al get_pipes a (xs @ b # ys) p = Some ps"
    "b = BBlobs bs \<Longrightarrow> lookup al get_blobs a (xs @ b # ys) p = Some bs"
  unfolding p
  by (rule lookup_here; use room_sized [OF al r] r in \<open>simp add: room_def\<close>)+

text \<open>A structure is written at the address of a block of its kind.\<close>

lemma written:
  assumes al: "al = 32 \<or> al = 64" and p: "p = ptr (a + blocks_size al xs)"
  shows "room al a (xs @ BEpoch e # ys) \<Longrightarrow>
      (alloc_of al a (xs @ BEpoch e # ys))\<lparr>ea_epoch := (lookup al get_epoch a (xs @ BEpoch e # ys))(p \<mapsto> e')\<rparr> = alloc_of al a (xs @ BEpoch e' # ys)"
    "room al a (xs @ BInfo i # ys) \<Longrightarrow>
      (alloc_of al a (xs @ BInfo i # ys))\<lparr>ea_stream_info := (lookup al get_info a (xs @ BInfo i # ys))(p \<mapsto> i')\<rparr> = alloc_of al a (xs @ BInfo i' # ys)"
    "room al a (xs @ BDram d # ys) \<Longrightarrow>
      (alloc_of al a (xs @ BDram d # ys))\<lparr>ea_dram_io_info := (lookup al get_dram a (xs @ BDram d # ys))(p \<mapsto> d')\<rparr> = alloc_of al a (xs @ BDram d' # ys)"
    "room al a (xs @ BState st # ys) \<Longrightarrow>
      (alloc_of al a (xs @ BState st # ys))\<lparr>ea_dram_io_state := (lookup al get_state a (xs @ BState st # ys))(p \<mapsto> st')\<rparr> = alloc_of al a (xs @ BState st' # ys)"
    "room al a (xs @ BScatter sc # ys) \<Longrightarrow>
      (alloc_of al a (xs @ BScatter sc # ys))\<lparr>ea_scatter_state := (lookup al get_scatter a (xs @ BScatter sc # ys))(p \<mapsto> sc')\<rparr>
        = alloc_of al a (xs @ BScatter sc' # ys)"
    "room al a (xs @ BPipes ps # ys) \<Longrightarrow> length ps' = length ps \<Longrightarrow>
      (alloc_of al a (xs @ BPipes ps # ys))\<lparr>ea_pipe_state := (lookup al get_pipes a (xs @ BPipes ps # ys))(p \<mapsto> ps')\<rparr>
        = alloc_of al a (xs @ BPipes ps' # ys)"
    "room al a (xs @ BBlobs bs # ys) \<Longrightarrow> length bs' = length bs \<Longrightarrow>
      (alloc_of al a (xs @ BBlobs bs # ys))\<lparr>ea_pipe_blob := (lookup al get_blobs a (xs @ BBlobs bs # ys))(p \<mapsto> bs')\<rparr>
        = alloc_of al a (xs @ BBlobs bs' # ys)"
  subgoal premises r
    using lookup_write [of get_epoch "BEpoch e" "BEpoch e'" _ al xs ys a] room_sized [OF al r(1)] r
    by (simp add: p alloc_of_def room_def lookup_other [where b = "BEpoch e" and b' = "BEpoch e'"] getter_defs)
  subgoal premises r
    using lookup_write [of get_info "BInfo i" "BInfo i'" _ al xs ys a] room_sized [OF al r(1)] r
    by (simp add: p alloc_of_def room_def lookup_other [where b = "BInfo i" and b' = "BInfo i'"] getter_defs)
  subgoal premises r
    using lookup_write [of get_dram "BDram d" "BDram d'" _ al xs ys a] room_sized [OF al r(1)] r
    by (simp add: p alloc_of_def room_def lookup_other [where b = "BDram d" and b' = "BDram d'"] getter_defs)
  subgoal premises r
    using lookup_write [of get_state "BState st" "BState st'" _ al xs ys a] room_sized [OF al r(1)] r
    by (simp add: p alloc_of_def room_def lookup_other [where b = "BState st" and b' = "BState st'"] getter_defs)
  subgoal premises r
    using lookup_write [of get_scatter "BScatter sc" "BScatter sc'" _ al xs ys a] room_sized [OF al r(1)] r
    by (simp add: p alloc_of_def room_def lookup_other [where b = "BScatter sc" and b' = "BScatter sc'"] getter_defs)
  subgoal premises r
    using lookup_write [of get_pipes "BPipes ps" "BPipes ps'" _ al xs ys a] room_sized [OF al r(1)] r
    by (simp add: p alloc_of_def room_def lookup_other [where b = "BPipes ps" and b' = "BPipes ps'"] getter_defs)
  subgoal premises r
    using lookup_write [of get_blobs "BBlobs bs" "BBlobs bs'" _ al xs ys a] room_sized [OF al r(1)] r
    by (simp add: p alloc_of_def room_def lookup_other [where b = "BBlobs bs" and b' = "BBlobs bs'"] getter_defs)
  done

end
