(* ===== verification/EpochPlan.thy ===== *)
theory EpochPlan
  imports EpochBlocks
begin

text \<open>
  The structures of a core as they are nested, with the pointers between them, and the first pass of the
  builder, which makes them.
\<close>

section \<open>Nested structures\<close>

type_synonym state_plan = "dram_io_state_t \<times> (dram_io_scatter_state_t \<times> (u32 \<times> u32) list) option"

record stream_plan =
  sp_info :: epoch_stream_info_t
  sp_pipes :: "(scatter_pipe_state_t \<times> scatter_pipe_blob_t list) list"
  sp_io :: "(epoch_stream_dram_io_info_t \<times> state_plan list) option"

definition state_blocks :: "bool \<Rightarrow> state_plan \<Rightarrow> block list" where
  "state_blocks hw t = BState (fst t) # (case snd t of None \<Rightarrow> [] | Some (sc, qs) \<Rightarrow> [BScatter sc, BOffsets hw qs])"

definition states_blocks :: "bool \<Rightarrow> state_plan list \<Rightarrow> block list" where
  "states_blocks hw ts = concat (map (state_blocks hw) ts)"

definition io_blocks :: "(epoch_stream_dram_io_info_t \<times> state_plan list) option \<Rightarrow> block list" where
  "io_blocks io = (case io of None \<Rightarrow> [] | Some (d, ts) \<Rightarrow> BDram d # states_blocks (di_hw_tilize d \<noteq> 0) ts)"

definition pipes_size :: "(scatter_pipe_state_t \<times> scatter_pipe_blob_t list) list \<Rightarrow> nat" where
  "pipes_size ps = 16 * length ps + sum_list (map (\<lambda>p. 8 * length (snd p)) ps)"

definition blob_blocks :: "(scatter_pipe_state_t \<times> scatter_pipe_blob_t list) list \<Rightarrow> block list" where
  "blob_blocks ps = map (\<lambda>p. BBlobs (snd p)) ps"

lemma blob_blocks_simps [simp]:
  "blob_blocks [] = []" "blob_blocks (p # ps) = BBlobs (snd p) # blob_blocks ps"
  by (simp_all add: blob_blocks_def)

lemma blob_blocks_ok: "\<forall>p \<in> set ps. snd p \<noteq> [] \<Longrightarrow> \<forall>b \<in> set (blob_blocks ps). block_ok al b"
  by (simp add: blob_blocks_def)

definition pipe_blocks :: "nat \<Rightarrow> (scatter_pipe_state_t \<times> scatter_pipe_blob_t list) list \<Rightarrow> block list" where
  "pipe_blocks al ps =
     (if ps = [] then []
      else BPipes (map fst ps) # blob_blocks ps @ [BPad (round_up (pipes_size ps) al - pipes_size ps)])"

definition stream_blocks :: "nat \<Rightarrow> stream_plan \<Rightarrow> block list" where
  "stream_blocks al sp = BInfo (sp_info sp) # pipe_blocks al (sp_pipes sp) @ io_blocks (sp_io sp)"

definition streams_blocks :: "nat \<Rightarrow> stream_plan list \<Rightarrow> block list" where
  "streams_blocks al sps = concat (map (stream_blocks al) sps)"

lemma blocks_of_lists [simp]:
  "states_blocks hw [] = []" "states_blocks hw (t # ts) = state_blocks hw t @ states_blocks hw ts"
  "streams_blocks al [] = []" "streams_blocks al (sp # sps) = stream_blocks al sp @ streams_blocks al sps"
  "streams_blocks al (xs @ ys) = streams_blocks al xs @ streams_blocks al ys"
  by (simp_all add: states_blocks_def streams_blocks_def)

lemma states_size_hw: "blocks_size al (states_blocks hw ts) = blocks_size al (states_blocks hw' ts)"
  by (induction ts) (auto simp: state_blocks_def split: option.splits)

text \<open>The pointers, from the address of the first structure.\<close>

fun linked_scatter :: "nat \<Rightarrow> nat \<Rightarrow> (dram_io_scatter_state_t \<times> (u32 \<times> u32) list) option \<Rightarrow> u32 \<Rightarrow> bool" where
  "linked_scatter al a None p \<longleftrightarrow> p = 0"
| "linked_scatter al a (Some (sc, qs)) p \<longleftrightarrow> p = ptr a
     \<and> ss_scatter_offsets sc = ptr (a + c_sizeof al dram_io_scatter_state_decl) \<and> unat (ss_scatter_offsets_size sc) = length qs"

fun linked_states :: "nat \<Rightarrow> nat \<Rightarrow> state_plan list \<Rightarrow> u32 \<Rightarrow> bool" where
  "linked_states al a [] p \<longleftrightarrow> p = 0"
| "linked_states al a (t # ts) p \<longleftrightarrow> p = ptr a
     \<and> linked_scatter al (a + sizeof_dram_io_state al) (snd t) (lc_dram_io_scatter_state (fst t))
     \<and> linked_states al (a + blocks_size al (state_blocks False t)) ts (lc_next (fst t))"

definition linked_io :: "nat \<Rightarrow> nat \<Rightarrow> (epoch_stream_dram_io_info_t \<times> state_plan list) option \<Rightarrow> u32 \<Rightarrow> bool" where
  "linked_io al a io p \<longleftrightarrow>
     (case io of None \<Rightarrow> p = 0
      | Some (d, ts) \<Rightarrow> p = ptr a \<and> linked_states al (a + c_sizeof al epoch_stream_dram_io_info_decl) ts (di_dram_io_state d))"

fun linked_blobs :: "nat \<Rightarrow> (scatter_pipe_state_t \<times> scatter_pipe_blob_t list) list \<Rightarrow> bool" where
  "linked_blobs a [] \<longleftrightarrow> True"
| "linked_blobs a ((st, bs) # ps) \<longleftrightarrow>
     ps_unroll_blobs st = ptr a \<and> unat (ps_max_unroll st) = length bs \<and> linked_blobs (a + 8 * length bs) ps"

definition linked_pipes :: "nat \<Rightarrow> (scatter_pipe_state_t \<times> scatter_pipe_blob_t list) list \<Rightarrow> u32 \<Rightarrow> bool" where
  "linked_pipes a ps p \<longleftrightarrow> ps \<noteq> [] \<longrightarrow> p = ptr a \<and> linked_blobs (a + 16 * length ps) ps"

section \<open>Sizes\<close>

definition num_offsets :: "phase_config \<Rightarrow> ncrisc_config \<Rightarrow> nat" where
  "num_offsets p n =
     (let k = length (value_or (nc_dram_scatter_offsets n) []) in if has_scatter_list_stream_id p then min 1 k else k)"

definition io_state_size :: "nat \<Rightarrow> phase_config \<Rightarrow> ncrisc_config \<Rightarrow> nat" where
  "io_state_size al p n =
     sizeof_dram_io_state al
     + (if has_dram_scatter_offsets n then c_sizeof al dram_io_scatter_state_decl + round_up (8 * num_offsets p n) al else 0)"

definition io_size :: "nat \<Rightarrow> phase_config \<Rightarrow> ncrisc_config list \<Rightarrow> nat" where
  "io_size al p ns =
     (if ns = [] then 0 else c_sizeof al epoch_stream_dram_io_info_decl + sum_list (map (io_state_size al p) ns))"

definition offsets_size :: "(u64 \<times> phase_offsets_for_single_dest) list \<Rightarrow> nat" where
  "offsets_size pos = 16 * length pos + sum_list (map (\<lambda>p. 8 * length (po_offsets (snd p))) pos)"

definition stream_size :: "nat \<Rightarrow> stream_blob_data \<Rightarrow> nat" where
  "stream_size al s =
     c_sizeof al epoch_stream_info_decl + round_up (offsets_size (phase_offsets (sb_info s))) al
     + (case sb_phases s of [] \<Rightarrow> 0 | (i, p) # _ \<Rightarrow> io_size al p (sb_ncriscs s))"

text \<open>The bytes of the structures of a core.\<close>

definition epoch_size_of :: "nat \<Rightarrow> core_blob_data \<Rightarrow> nat" where
  "epoch_size_of al streams = c_sizeof al (epoch_decl al) + sum_list (map (\<lambda>s. stream_size al (snd s)) streams)"

text \<open>
  A core whose streams go by their numbers, which have 16 bits, and whose offsets are not empty.
\<close>

definition stream_ok :: "u32 \<times> stream_blob_data \<Rightarrow> bool" where
  "stream_ok t \<longleftrightarrow> sb_stream_id (snd t) = fst t \<and> unat (fst t) < 2 ^ 16
     \<and> (\<forall>po \<in> set (phase_offsets (sb_info (snd t))). po_offsets (snd po) \<noteq> [])
     \<and> (\<forall>n \<in> set (sb_ncriscs (snd t)). nc_dram_scatter_offsets n \<noteq> Some [])"

definition streams_ok :: "core_blob_data \<Rightarrow> bool" where
  "streams_ok streams \<longleftrightarrow> distinct (map fst streams) \<and> (\<forall>t \<in> set streams. stream_ok t)"

section \<open>The first pass\<close>

text \<open>Allocations.\<close>

lemma advance_blocks: "(ea :: epoch_allocator) = alloc_of al a (xs @ [b]) \<Longrightarrow> ea_curr_address ea = ptr (a + blocks_size al xs) + word_of_nat (block_size al b)"
  by (simp add: ptr_def add.assoc)

lemma new_blocks:
  assumes "al = unat alignment"
  shows "new_epoch_t alignment (alloc_of al a xs) = (ptr (a + blocks_size al xs), alloc_of al a (xs @ [BEpoch (zero_epoch al)]))"
    "new_epoch_stream_info_t alignment (alloc_of al a xs) = (ptr (a + blocks_size al xs), alloc_of al a (xs @ [BInfo zero_stream_info]))"
    "new_epoch_stream_dram_io_info_t alignment (alloc_of al a xs) = (ptr (a + blocks_size al xs), alloc_of al a (xs @ [BDram zero_dram_io_info]))"
    "new_dram_io_state_t alignment (alloc_of al a xs) = (ptr (a + blocks_size al xs), alloc_of al a (xs @ [BState zero_dram_io_state]))"
    "new_dram_io_scatter_state_t alignment (alloc_of al a xs) = (ptr (a + blocks_size al xs), alloc_of al a (xs @ [BScatter zero_scatter_state]))"
    "new_scatter_pipe_state_t n (alloc_of al a xs) = (ptr (a + blocks_size al xs), alloc_of al a (xs @ [BPipes (replicate n zero_pipe_state)]))"
    "new_scatter_pipe_blob_t n (alloc_of al a xs) = (ptr (a + blocks_size al xs), alloc_of al a (xs @ [BBlobs (replicate n zero_pipe_blob)]))"
  by (simp_all add: assms alloc_of_def lookup_new getter_defs advance_def new_epoch_t_def new_epoch_stream_info_t_def
    new_epoch_stream_dram_io_info_t_def new_dram_io_state_t_def new_dram_io_scatter_state_t_def new_scatter_pipe_state_t_def
    new_scatter_pipe_blob_t_def Let_def ptr_def add_ac)

end
