(* ===== verification/EpochFirstPass.thy ===== *)
theory EpochFirstPass
  imports EpochPlan
begin

text \<open>
  The first pass of the builder (\<open>epoch_t_builder.cpp\<close>) appends the blocks of a stream to those before, linked,
  and of the sizes that its configurations give.
\<close>

section \<open>Room\<close>

text \<open>Blocks fit behind others: the address is aligned and the rest of the memory has room.\<close>

definition space :: "nat \<Rightarrow> nat \<Rightarrow> block list \<Rightarrow> nat \<Rightarrow> bool" where
  "space al a xs n \<longleftrightarrow> (al = 32 \<or> al = 64) \<and> (a + blocks_size al xs) mod al = 0
     \<and> a + blocks_size al xs + n + 64 \<le> 2 ^ 32 \<and> (\<forall>b \<in> set xs. block_ok al b)"

lemma space_al: "space al a xs n \<Longrightarrow> al = 32 \<or> al = 64"
  by (simp add: space_def)

lemma space_room: "space al a xs n \<Longrightarrow> room al a xs"
  by (simp add: space_def room_def)

lemma space_less: "space al a xs n \<Longrightarrow> m \<le> n \<Longrightarrow> space al a xs m"
  by (simp add: space_def)

lemma space_append:
  assumes "space al a xs (blocks_size al ys + n)" and "\<forall>b \<in> set ys. block_ok al b" and "blocks_size al ys mod al = 0"
  shows "space al a (xs @ ys) n"
proof -
  have "(a + blocks_size al xs + blocks_size al ys) mod al = 0"
    using assms(1,3) by (simp add: space_def mod_add_right_eq [of _ "blocks_size al ys", symmetric])
  then show ?thesis using assms(1,2) by (auto simp: space_def add.assoc)
qed

section \<open>The structures of a stream\<close>

text \<open>Arrays of offsets, padded.\<close>

lemma padded_blocks:
  assumes "space al a xs n" and "al = unat alignment" and "m \<le> n"
  shows "get_noc_alignment_padding_bytes alignment (ptr (a + blocks_size al xs + m)) = ptr (a + blocks_size al xs + round_up m al)"
proof -
  let ?A = "a + blocks_size al xs"
  have a: "0 < al" "al \<le> 64" using assms(1) by (auto simp: space_def)
  have "unat (get_noc_alignment_padding_bytes alignment (ptr (?A + m))) = round_up (?A + m) al"
    unfolding ptr_def assms(2) by (rule padding_bytes_exact) (use assms a in \<open>simp_all add: space_def\<close>)
  also have "\<dots> = ?A + round_up m al"
    using assms(1) a by (intro round_up_shift) (simp_all add: space_def)
  finally have "unat (get_noc_alignment_padding_bytes alignment (ptr (?A + m))) = ?A + round_up m al" .
  from arg_cong [OF this, of "word_of_nat :: nat \<Rightarrow> u32"] show ?thesis by (simp add: ptr_def)
qed

lemma scatter_offsets_made:
  assumes "fill_dram_scatter_offsets alignment h p n k (alloc_of al a xs) = Inr (q, ea)"
    and al: "al = unat alignment" and s: "space al a xs (8 * k)"
  shows "\<exists>qs. q = ptr (a + blocks_size al xs) \<and> length qs = k \<and> ea = alloc_of al a (xs @ [BOffsets hw qs])"
proof -
  obtain offs where offs: "get_dram_scatter_offsets h p n = Inr offs" "k \<le> length offs"
    "q = ptr (a + blocks_size al xs)"
    "ea = (let ea2 = allocator_pad_to_noc_alignment alignment (snd (new_tt_uint64_t k (alloc_of al a xs)))
           in ea2\<lparr>ea_uint64 := (ea_uint64 ea2)(q \<mapsto> map tt_uint64 (take k offs))\<rparr>)"
    using assms(1) by (auto simp: fill_dram_scatter_offsets_def bind_sum_Inr_iff new_tt_uint64_t_def Let_def split: if_splits)
  let ?qs = "map tt_uint64 (take k offs)"
  have len: "length ?qs = k" using offs(2) by simp
  have "ptr (a + blocks_size al xs) + word_of_nat (8 * k) = ptr (a + blocks_size al xs + 8 * k)" by (simp add: ptr_def)
  then have "ea = alloc_of al a (xs @ [BOffsets hw ?qs])"
    using len padded_blocks [OF s al order_refl]
    by (simp add: offs(3,4) Let_def new_tt_uint64_t_def allocator_pad_to_noc_alignment_def advance_def alloc_of_def lookup_new getter_defs
      add.assoc del: length_map length_take)
  then show ?thesis using offs(3) len by blast
qed

lemma scatter_state_made:
  assumes "fill_dram_io_scatter_state_t alignment h p n (alloc_of al a xs) = Inr (q, ea)"
    and al: "al = unat alignment" and ne: "nc_dram_scatter_offsets n \<noteq> Some []"
    and s: "space al a xs (c_sizeof al dram_io_scatter_state_decl + round_up (8 * num_offsets p n) al)"
  shows "\<exists>sc qs. ea = alloc_of al a (xs @ [BScatter sc, BOffsets hw qs]) \<and> qs \<noteq> [] \<and> length qs = num_offsets p n
    \<and> linked_scatter al (a + blocks_size al xs) (Some (sc, qs)) q"
proof -
  let ?A = "a + blocks_size al xs" and ?k = "num_offsets p n"
  have a: "0 < al" using space_al [OF s] by auto
  obtain d offs_ptr ea2 where d: "fill_scatter_state_fields h p n zero_scatter_state = Inr d"
    and offs: "fill_dram_scatter_offsets alignment h p n (unat (ss_scatter_offsets_size d)) (alloc_of al a (xs @ [BScatter zero_scatter_state]))
      = Inr (offs_ptr, ea2)"
    and q: "q = ptr ?A" and ea: "ea = ea2\<lparr>ea_scatter_state := (ea_scatter_state ea2)(q \<mapsto> d\<lparr>ss_scatter_offsets := offs_ptr\<rparr>)\<rparr>"
    using assms(1) by (auto simp: fill_dram_io_scatter_state_t_def new_blocks(5) [OF al] bind_sum_Inr_iff)
  obtain l where l: "nc_dram_scatter_offsets n = Some l" "ss_scatter_offsets_size d = word_of_nat ?k"
    using d by (auto simp: fill_scatter_state_fields_def get_dram_scatter_offsets_def bind_sum_Inr_iff req_def num_offsets_def value_or_def
      min_def Let_def split: option.splits if_splits)
  have k: "0 < ?k" using l(1) ne by (cases l) (simp_all add: num_offsets_def value_or_def Let_def)
  have up: "8 * ?k \<le> round_up (8 * ?k) al" using round_up_le [OF a] by blast
  then have "?k < 2 ^ 32" using s by (simp add: space_def)
  then have size: "unat (ss_scatter_offsets_size d) = ?k" using l(2) by (simp add: unat_of_nat)
  have s1: "space al a (xs @ [BScatter zero_scatter_state]) (8 * ?k)"
    by (rule space_append, rule space_less [OF s]) (use up sizes_aligned [OF space_al [OF s]] in simp_all)
  obtain qs where qs: "offs_ptr = ptr (?A + c_sizeof al dram_io_scatter_state_decl)" "length qs = ?k"
    "ea2 = alloc_of al a (xs @ BScatter zero_scatter_state # [BOffsets hw qs])"
    using scatter_offsets_made [OF offs [unfolded size] al s1, of hw] by (auto simp: add.assoc)
  have "space al a (xs @ BScatter zero_scatter_state # [BOffsets hw qs]) 0"
    by (rule space_append) (use s qs(2) k sizes_aligned [OF space_al [OF s]] in \<open>auto simp: mod_add_eq [symmetric]\<close>)
  from written(5) [OF space_al [OF s] q space_room [OF this]]
  have "ea = alloc_of al a (xs @ BScatter (d\<lparr>ss_scatter_offsets := offs_ptr\<rparr>) # [BOffsets hw qs])"
    by (simp add: ea qs(3))
  then show ?thesis using q qs size k by fastforce
qed

lemma states_blocks_aligned:
  "al = 32 \<or> al = 64 \<Longrightarrow> blocks_size al (states_blocks hw ts) mod al = 0"
proof (induction ts)
  case (Cons t ts)
  have "blocks_size al (state_blocks hw t) mod al = 0"
    using sizes_aligned [OF Cons.prems] by (auto simp: state_blocks_def mod_add_eq [symmetric] split: option.splits)
  then show ?case using Cons by (simp add: mod_add_eq [symmetric])
qed simp

text \<open>The states of the buffers of a stream.\<close>

lemma io_state_made:
  assumes "(if has_dram_scatter_offsets n
            then bind_sum (fill_dram_io_scatter_state_t alignment h p n (alloc_of al a (xs @ [BState zero_dram_io_state])))
                   (\<lambda>(sp, ea2). Inr (d\<lparr>lc_dram_io_scatter_state := sp\<rparr>, ea2))
            else Inr (d, alloc_of al a (xs @ [BState zero_dram_io_state]))) = Inr (d1, ea)"
    and d: "lc_dram_io_scatter_state d = 0"
    and al: "al = unat alignment" and ne: "nc_dram_scatter_offsets n \<noteq> Some []" and s: "space al a xs (io_state_size al p n)"
  shows "\<exists>t. fst t = d1 \<and> ea = alloc_of al a (xs @ state_blocks hw (zero_dram_io_state, snd t))
    \<and> blocks_size al (state_blocks hw t) = io_state_size al p n \<and> (\<forall>b \<in> set (state_blocks hw t). block_ok al b)
    \<and> linked_scatter al (a + blocks_size al xs + sizeof_dram_io_state al) (snd t) (lc_dram_io_scatter_state d1)"
proof (cases "has_dram_scatter_offsets n")
  case False
  then show ?thesis using assms(1) d by (intro exI [of _ "(d, None)"]) (auto simp: state_blocks_def io_state_size_def)
next
  case True
  let ?xs = "xs @ [BState zero_dram_io_state]"
  obtain sp where sp: "fill_dram_io_scatter_state_t alignment h p n (alloc_of al a ?xs) = Inr (sp, ea)"
    "d1 = d\<lparr>lc_dram_io_scatter_state := sp\<rparr>"
    using assms(1) True by (auto simp: bind_sum_Inr_iff)
  have "space al a ?xs (c_sizeof al dram_io_scatter_state_decl + round_up (8 * num_offsets p n) al)"
    by (rule space_append, rule space_less [OF s]) (use True sizes_aligned [OF space_al [OF s]] in \<open>simp_all add: io_state_size_def\<close>)
  from scatter_state_made [OF sp(1) al ne this, of hw] obtain sc qs where
    made: "ea = alloc_of al a (?xs @ [BScatter sc, BOffsets hw qs])" "qs \<noteq> []" "length qs = num_offsets p n"
      "linked_scatter al (a + blocks_size al ?xs) (Some (sc, qs)) sp"
    by blast
  show ?thesis
    using made sp(2) True by (intro exI [of _ "(d1, Some (sc, qs))"]) (simp add: state_blocks_def io_state_size_def add.assoc)
qed

lemma io_states_made:
  assumes "fill_dram_io_state_t alignment h p ns (alloc_of al a xs) = Inr (q, ea)"
    and al: "al = unat alignment" and ne: "\<forall>n \<in> set ns. nc_dram_scatter_offsets n \<noteq> Some []"
    and s: "space al a xs (sum_list (map (io_state_size al p) ns))"
  shows "\<exists>ts. ea = alloc_of al a (xs @ states_blocks hw ts) \<and> length ts = length ns
    \<and> blocks_size al (states_blocks hw ts) = sum_list (map (io_state_size al p) ns)
    \<and> (\<forall>b \<in> set (states_blocks hw ts). block_ok al b) \<and> linked_states al (a + blocks_size al xs) ts q"
  using assms
proof (induction ns arbitrary: xs q ea)
  case Nil
  then show ?case by (intro exI [of _ "[]"]) simp
next
  case (Cons n ns)
  let ?A = "a + blocks_size al xs"
  obtain d d1 ea2 next_ptr ea3 where d: "fill_dram_io_state_fields h p n zero_dram_io_state = Inr d"
    and sc: "(if has_dram_scatter_offsets n
            then bind_sum (fill_dram_io_scatter_state_t alignment h p n (alloc_of al a (xs @ [BState zero_dram_io_state])))
                   (\<lambda>(sp, ea2). Inr (d\<lparr>lc_dram_io_scatter_state := sp\<rparr>, ea2))
            else Inr (d, alloc_of al a (xs @ [BState zero_dram_io_state]))) = Inr (d1, ea2)"
    and rest: "fill_dram_io_state_t alignment h p ns ea2 = Inr (next_ptr, ea3)"
    and q: "q = ptr ?A" and ea: "ea = ea3\<lparr>ea_dram_io_state := (ea_dram_io_state ea3)(q \<mapsto> d1\<lparr>lc_next := next_ptr\<rparr>)\<rparr>"
    using Cons.prems(1) by (auto simp: new_blocks(4) [OF Cons.prems(2)] bind_sum_Inr_iff)
  have d0: "lc_dram_io_scatter_state d = 0"
    using d by (auto simp: fill_dram_io_state_fields_def bind_sum_Inr_iff zero_dram_io_state_def)
  have alcase: "al = 32 \<or> al = 64" using space_al Cons.prems(4) by blast
  obtain t where t: "fst t = d1" "ea2 = alloc_of al a (xs @ state_blocks hw (zero_dram_io_state, snd t))"
    "blocks_size al (state_blocks hw t) = io_state_size al p n" "\<forall>b \<in> set (state_blocks hw t). block_ok al b"
    "linked_scatter al (?A + sizeof_dram_io_state al) (snd t) (lc_dram_io_scatter_state d1)"
    using io_state_made [OF sc d0 Cons.prems(2), of hw] Cons.prems(3,4) space_less [OF Cons.prems(4)] by (metis le_add1 list.set_intros(1) list.simps(9) sum_list.Cons)
  let ?zs = "xs @ state_blocks hw (zero_dram_io_state, snd t)"
  have zsize: "blocks_size al (state_blocks hw (zero_dram_io_state, snd t)) = io_state_size al p n"
    using t(3) by (simp add: state_blocks_def)
  have zok: "\<forall>b \<in> set (state_blocks hw (zero_dram_io_state, snd t)). block_ok al b" using t(4) by (simp add: state_blocks_def)
  have "io_state_size al p n mod al = 0" using states_blocks_aligned [OF alcase, of hw "[t]"] t(3) by simp
  then have "space al a ?zs (sum_list (map (io_state_size al p) ns))"
    using Cons.prems(4) zsize zok by (intro space_append) simp_all
  from Cons.IH [OF rest [unfolded t(2)] Cons.prems(2) _ this] Cons.prems(3) obtain ts where
    ts: "ea3 = alloc_of al a (?zs @ states_blocks hw ts)" "length ts = length ns"
      "blocks_size al (states_blocks hw ts) = sum_list (map (io_state_size al p) ns)"
      "\<forall>b \<in> set (states_blocks hw ts). block_ok al b" "linked_states al (a + blocks_size al ?zs) ts next_ptr"
    by auto
  let ?t = "(d1\<lparr>lc_next := next_ptr\<rparr>, snd t)"
  define ys where "ys = tl (state_blocks hw t) @ states_blocks hw ts"
  have blocks: "state_blocks hw (x, snd t) = BState x # tl (state_blocks hw t)" for x by (simp add: state_blocks_def)
  have "room al a (?zs @ states_blocks hw ts)"
    using Cons.prems(4) zsize zok ts(3,4) by (auto simp: space_def room_def)
  then have "ea = alloc_of al a (xs @ BState (d1\<lparr>lc_next := next_ptr\<rparr>) # ys)"
    using written(4) [OF alcase q, of zero_dram_io_state ys "d1\<lparr>lc_next := next_ptr\<rparr>"]
    by (simp add: ea ts(1) blocks ys_def)
  moreover have "blocks_size al (state_blocks False t) = io_state_size al p n"
    using t(3) states_size_hw [of al False "[t]" hw] by simp
  ultimately show ?case
    using t ts zsize q Cons.prems(4) by (intro exI [of _ "?t # ts"]) (auto simp: blocks ys_def add.assoc state_blocks_def)
qed


lemma io_made:
  assumes "fill_epoch_stream_dram_io_info_t alignment h s (alloc_of al a xs) = Inr (q, ea)"
    and al: "al = unat alignment" and ne: "\<forall>n \<in> set (sb_ncriscs s). nc_dram_scatter_offsets n \<noteq> Some []"
    and nc: "sb_ncriscs s \<noteq> []" and ph: "sb_phases s = (i, p) # ips" and sp: "space al a xs (io_size al p (sb_ncriscs s))"
  shows "\<exists>io. ea = alloc_of al a (xs @ io_blocks io) \<and> blocks_size al (io_blocks io) = io_size al p (sb_ncriscs s)
    \<and> (\<forall>b \<in> set (io_blocks io). block_ok al b) \<and> linked_io al (a + blocks_size al xs) io q"
proof -
  let ?A = "a + blocks_size al xs" and ?zs = "xs @ [BDram zero_dram_io_info]"
  have alcase: "al = 32 \<or> al = 64" using space_al sp by blast
  obtain d sq ea2 where d: "fill_dram_io_info_fields s zero_dram_io_info = Inr d"
    and st: "fill_dram_io_state_t alignment h p (sb_ncriscs s) (alloc_of al a ?zs) = Inr (sq, ea2)"
    and q: "q = ptr ?A" and ea: "ea = ea2\<lparr>ea_dram_io_info := (ea_dram_io_info ea2)(q \<mapsto> d\<lparr>di_dram_io_state := sq\<rparr>)\<rparr>"
    using assms(1) ph
    by (auto simp: fill_epoch_stream_dram_io_info_t_def new_blocks(3) [OF al] bind_sum_Inr_iff first_phase_of_def nth_of_def)
  have "space al a ?zs (sum_list (map (io_state_size al p) (sb_ncriscs s)))"
    by (rule space_append, rule space_less [OF sp]) (use nc sizes_aligned [OF alcase] in \<open>simp_all add: io_size_def\<close>)
  from io_states_made [OF st al ne this, of "di_hw_tilize d \<noteq> 0"] obtain ts where
    ts: "ea2 = alloc_of al a (?zs @ states_blocks (di_hw_tilize d \<noteq> 0) ts)"
      "blocks_size al (states_blocks (di_hw_tilize d \<noteq> 0) ts) = sum_list (map (io_state_size al p) (sb_ncriscs s))"
      "\<forall>b \<in> set (states_blocks (di_hw_tilize d \<noteq> 0) ts). block_ok al b" "linked_states al (a + blocks_size al ?zs) ts sq"
    by blast
  have "room al a (xs @ BDram zero_dram_io_info # states_blocks (di_hw_tilize d \<noteq> 0) ts)"
    using sp ts(2,3) nc by (auto simp: space_def room_def io_size_def)
  from written(3) [OF alcase q this] have "ea = alloc_of al a (xs @ BDram (d\<lparr>di_dram_io_state := sq\<rparr>) # states_blocks (di_hw_tilize d \<noteq> 0) ts)"
    by (simp add: ea ts(1))
  then show ?thesis using ts nc q
    by (intro exI [of _ "Some (d\<lparr>di_dram_io_state := sq\<rparr>, ts)"]) (simp add: io_blocks_def io_size_def linked_io_def add.assoc)
qed

text \<open>The arrays of the scatter indices of a stream.\<close>

definition blobs_size :: "(u64 \<times> phase_offsets_for_single_dest) list \<Rightarrow> nat" where
  "blobs_size pos = sum_list (map (\<lambda>p. 8 * length (po_offsets (snd p))) pos)"

lemma pipe_blobs_made:
  assumes "fill_scatter_pipe_blobs pos (alloc_of al a xs) = Inr (ss, ea)"
    and "\<forall>po \<in> set pos. po_offsets (snd po) \<noteq> []"
    and "al = 32 \<or> al = 64" and "\<forall>b \<in> set xs. block_ok al b" and "a + blocks_size al xs + blobs_size pos \<le> 2 ^ 32"
  shows "\<exists>ps. ea = alloc_of al a (xs @ blob_blocks ps) \<and> ss = map fst ps \<and> length ps = length pos
    \<and> blocks_size al (blob_blocks ps) = blobs_size pos \<and> (\<forall>p \<in> set ps. snd p \<noteq> [])
    \<and> linked_blobs (a + blocks_size al xs) ps"
  using assms
proof (induction pos arbitrary: xs ss ea)
  case Nil
  then show ?case by (intro exI [of _ "[]"]) (simp add: blobs_size_def)
next
  case (Cons ip pos)
  obtain idx po where ip: "ip = (idx, po)" by (cases ip)
  let ?n = "length (po_offsets po)" and ?A = "a + blocks_size al xs"
  have room: "?A + 8 * ?n + blobs_size pos \<le> 2 ^ 32" using Cons.prems(5) by (simp add: ip blobs_size_def)
  have "po_num_unroll_iter po = int ?n"
    using Cons.prems(1) by (auto simp: ip bind_sum_Inr_iff log_assert_def split: if_splits)
  then have mx: "unat (word_of_int (po_num_unroll_iter po) :: u32) = ?n" "word_of_int (po_num_unroll_iter po) = (word_of_nat ?n :: u32)"
    using room by (simp_all add: unat_of_nat)
  have alw: "al = unat (word_of_nat al :: u32)" using Cons.prems(3) by auto
  obtain bs ss' where bs: "scatter_pipe_blobs_of po = Inr bs" "ss = zero_pipe_state\<lparr>ps_max_unroll := word_of_nat ?n, ps_unroll_blobs := ptr ?A\<rparr> # ss'"
    and rest: "fill_scatter_pipe_blobs pos ((alloc_of al a (xs @ [BBlobs (replicate ?n zero_pipe_blob)]))\<lparr>ea_pipe_blob :=
      (lookup al get_blobs a (xs @ [BBlobs (replicate ?n zero_pipe_blob)]))(ptr ?A \<mapsto> bs)\<rparr>) = Inr (ss', ea)"
    using Cons.prems(1) mx by (auto simp: ip bind_sum_Inr_iff new_blocks(7) [OF alw] Let_def)
  have len: "length bs = ?n" using bs(1) by (auto simp: scatter_pipe_blobs_of_def split: if_splits)
  have ne: "po_offsets po \<noteq> []" using Cons.prems(2) ip by simp
  have "room al a (xs @ BBlobs (replicate ?n zero_pipe_blob) # [])" using Cons.prems(4) room ne by (auto simp: room_def)
  from written(7) [OF Cons.prems(3) refl this, of bs] rest len
  have made: "fill_scatter_pipe_blobs pos (alloc_of al a (xs @ [BBlobs bs])) = Inr (ss', ea)" by simp
  have "\<forall>po \<in> set pos. po_offsets (snd po) \<noteq> []" "\<forall>b \<in> set (xs @ [BBlobs bs]). block_ok al b"
    "a + blocks_size al (xs @ [BBlobs bs]) + blobs_size pos \<le> 2 ^ 32"
    using Cons.prems(2,4) room len ne by auto
  from Cons.IH [OF made this(1) Cons.prems(3) this(2,3)] obtain ps where
    ps: "ea = alloc_of al a ((xs @ [BBlobs bs]) @ blob_blocks ps)" "ss' = map fst ps" "length ps = length pos"
      "blocks_size al (blob_blocks ps) = blobs_size pos" "\<forall>p \<in> set ps. snd p \<noteq> []"
      "linked_blobs (a + blocks_size al (xs @ [BBlobs bs])) ps"
    by blast
  have "?n < 2 ^ 32" using room by simp
  then show ?case
    using ps bs(2) len ne
    by (intro exI [of _ "(zero_pipe_state\<lparr>ps_max_unroll := word_of_nat ?n, ps_unroll_blobs := ptr ?A\<rparr>, bs) # ps"])
      (auto simp: ip blobs_size_def add.assoc unat_of_nat)
qed

lemma pipes_size_blobs: "blocks_size al (blob_blocks ps) = sum_list (map (\<lambda>p. 8 * length (snd p)) ps)"
  by (induction ps) simp_all

lemma pipes_made:
  assumes "fill_scatter_pipe_structs alignment info (alloc_of al a xs) = Inr (q, ea)"
    and al: "al = unat alignment" and ne: "\<forall>po \<in> set (phase_offsets info). po_offsets (snd po) \<noteq> []" "phase_offsets info \<noteq> []"
    and s: "space al a xs (round_up (offsets_size (phase_offsets info)) al)"
  shows "\<exists>ps. ea = alloc_of al a (xs @ pipe_blocks al ps) \<and> length ps = length (phase_offsets info)
    \<and> blocks_size al (pipe_blocks al ps) = round_up (offsets_size (phase_offsets info)) al
    \<and> (\<forall>b \<in> set (pipe_blocks al ps). block_ok al b) \<and> linked_pipes (a + blocks_size al xs) ps q"
proof -
  let ?pos = "phase_offsets info" and ?A = "a + blocks_size al xs"
  let ?n = "length ?pos" let ?zs = "xs @ [BPipes (replicate ?n zero_pipe_state)]"
  have alcase: "al = 32 \<or> al = 64" using space_al s by blast
  have size: "offsets_size ?pos = 16 * ?n + blobs_size ?pos" by (simp add: offsets_size_def blobs_size_def)
  have up: "offsets_size ?pos \<le> round_up (offsets_size ?pos) al" using alcase round_up_le [of al "offsets_size ?pos"] by auto
  obtain ss ea2 where blobs: "fill_scatter_pipe_blobs ?pos (alloc_of al a ?zs) = Inr (ss, ea2)" and q: "q = ptr ?A"
    and ea: "ea = allocator_pad_to_noc_alignment alignment (ea2\<lparr>ea_pipe_state := (ea_pipe_state ea2)(q \<mapsto> ss)\<rparr>)"
    using assms(1) by (auto simp: fill_scatter_pipe_structs_def new_blocks(6) [OF al] bind_sum_Inr_iff)
  have "a + blocks_size al ?zs + blobs_size ?pos \<le> 2 ^ 32" using s up size by (simp add: space_def)
  moreover have "\<forall>b \<in> set ?zs. block_ok al b" using s ne(2) by (auto simp: space_def)
  ultimately obtain ps where
    ps: "ea2 = alloc_of al a (?zs @ blob_blocks ps)" "ss = map fst ps" "length ps = ?n"
      "blocks_size al (blob_blocks ps) = blobs_size ?pos" "\<forall>p \<in> set ps. snd p \<noteq> []" "linked_blobs (a + blocks_size al ?zs) ps"
    using pipe_blobs_made [OF blobs ne(1) alcase] by blast
  have ps_ne: "ps \<noteq> []" using ps(3) ne(2) by auto
  have psize: "pipes_size ps = offsets_size ?pos" using ps(3,4) size by (simp add: pipes_size_def pipes_size_blobs)
  have "room al a (xs @ BPipes (replicate ?n zero_pipe_state) # blob_blocks ps)"
    using s up size ps(4) blob_blocks_ok [OF ps(5)] ne(2) by (auto simp: room_def space_def)
  from written(6) [OF alcase q this, of ss] ps(2,3)
  have "ea = allocator_pad_to_noc_alignment alignment (alloc_of al a (xs @ BPipes ss # blob_blocks ps))"
    by (simp add: ea ps(1))
  also have "\<dots> = alloc_of al a ((xs @ BPipes ss # blob_blocks ps) @ [BPad (round_up (pipes_size ps) al - pipes_size ps)])"
  proof -
    have "a + blocks_size al (xs @ BPipes ss # blob_blocks ps) = ?A + offsets_size ?pos" using ps(2,3,4) size by simp
    then have "get_noc_alignment_padding_bytes alignment (ptr (a + blocks_size al (xs @ BPipes ss # blob_blocks ps)))
        = ptr (?A + round_up (offsets_size ?pos) al)"
      using padded_blocks [OF s al up] by (simp add: add.assoc)
    moreover have "a + blocks_size al ((xs @ BPipes ss # blob_blocks ps) @ [BPad (round_up (pipes_size ps) al - pipes_size ps)])
        = ?A + round_up (offsets_size ?pos) al"
      using ps(2,3,4) size up psize by simp
    ultimately show ?thesis
      by (simp add: add.assoc allocator_pad_to_noc_alignment_def alloc_of_def lookup_append getter_defs fun_eq_iff split: option.splits)
  qed
  finally have "ea = alloc_of al a (xs @ pipe_blocks al ps)" using ps(2) ps_ne by (simp add: pipe_blocks_def)
  moreover have "blocks_size al (pipe_blocks al ps) = round_up (offsets_size ?pos) al"
    using ps_ne ps(3,4) size up psize by (simp add: pipe_blocks_def)
  ultimately show ?thesis
    using ps blob_blocks_ok [OF ps(5)] ps_ne q by (intro exI [of _ ps]) (auto simp: pipe_blocks_def linked_pipes_def add.assoc)
qed

end
