(* ===== verification/EpochStreams.thy ===== *)
theory EpochStreams
  imports EpochFirstPass
begin

text \<open>
  The streams of a core and its epoch: the first pass gives an allocator whose blocks are linked, with every
  stream of the core at the pointer of its number in the list of the active ones.
\<close>

section \<open>A stream\<close>

definition linked_stream :: "nat \<Rightarrow> nat \<Rightarrow> stream_blob_data \<Rightarrow> stream_plan \<Rightarrow> bool" where
  "linked_stream al a s sp \<longleftrightarrow>
     (let b = a + c_sizeof al epoch_stream_info_decl
      in linked_pipes b (sp_pipes sp) (si_skip_col_tile_row_bytes (sp_info sp))
         \<and> linked_io al (b + blocks_size al (pipe_blocks al (sp_pipes sp))) (sp_io sp) (si_dram_io_info (sp_info sp))
         \<and> ucast (si_stream_id (sp_info sp)) = sb_stream_id s \<and> length (phase_offsets (sb_info s)) = length (sp_pipes sp))"

lemma pipe_blocks_aligned: "0 < al \<Longrightarrow> blocks_size al (pipe_blocks al ps) = (if ps = [] then 0 else round_up (pipes_size ps) al)"
  using round_up_le [of al "pipes_size ps"] by (auto simp: pipe_blocks_def pipes_size_def pipes_size_blobs)

lemma io_blocks_aligned: "al = 32 \<or> al = 64 \<Longrightarrow> blocks_size al (io_blocks io) mod al = 0"
  using sizes_aligned states_blocks_aligned
  by (auto simp: io_blocks_def mod_add_eq [symmetric] simp del: blocks_of_lists split: option.splits)

lemma stream_blocks_aligned: "al = 32 \<or> al = 64 \<Longrightarrow> blocks_size al (stream_blocks al sp) mod al = 0"
proof -
  assume al: "al = 32 \<or> al = 64"
  then have "blocks_size al (pipe_blocks al (sp_pipes sp)) mod al = 0"
    by (subst pipe_blocks_aligned) (auto simp: round_up_mod)
  then show ?thesis
    using sizes_aligned [OF al] io_blocks_aligned [OF al, of "sp_io sp"] by (simp add: stream_blocks_def mod_add_eq [symmetric])
qed

lemma stream_info_kept:
  assumes "fill_stream_info_fields s zero_stream_info = Inr i"
  shows "si_dram_io_info i = 0" "length (si_fork_idxs i) = 16" "si_stream_id i = ucast (sb_stream_id s)" "sb_phases s \<noteq> []"
  using assms
  by (auto simp: fill_stream_info_fields_def fill_stream_info_buffers_def fill_stream_info_unions_def first_phase_of_def nth_of_def
    bind_sum_Inr_iff zero_stream_info_def Let_def split: if_splits)

lemma pipes_part_made:
  assumes "(if phase_offsets (sb_info s) \<noteq> []
            then bind_sum (fill_scatter_pipe_structs alignment (sb_info s) (alloc_of al a xs))
                   (\<lambda>(sp, ea2). Inr (i\<lparr>si_skip_col_tile_row_bytes := sp\<rparr>, ea2))
            else Inr (i, alloc_of al a xs)) = Inr (i1, ea)"
    and al: "al = unat alignment" and ne: "\<forall>po \<in> set (phase_offsets (sb_info s)). po_offsets (snd po) \<noteq> []"
    and sp: "space al a xs (round_up (offsets_size (phase_offsets (sb_info s))) al)"
  shows "\<exists>ps. ea = alloc_of al a (xs @ pipe_blocks al ps) \<and> length ps = length (phase_offsets (sb_info s))
    \<and> blocks_size al (pipe_blocks al ps) = round_up (offsets_size (phase_offsets (sb_info s))) al
    \<and> (\<forall>b \<in> set (pipe_blocks al ps). block_ok al b) \<and> linked_pipes (a + blocks_size al xs) ps (si_skip_col_tile_row_bytes i1)
    \<and> si_dram_io_info i1 = si_dram_io_info i \<and> si_fork_idxs i1 = si_fork_idxs i \<and> si_stream_id i1 = si_stream_id i"
proof (cases "phase_offsets (sb_info s) = []")
  case True
  then show ?thesis
    using assms(1) space_al [OF sp]
    by (intro exI [of _ "[]"]) (auto simp: pipe_blocks_def linked_pipes_def offsets_size_def round_up_def)
next
  case False
  then obtain q where q: "fill_scatter_pipe_structs alignment (sb_info s) (alloc_of al a xs) = Inr (q, ea)"
    "i1 = i\<lparr>si_skip_col_tile_row_bytes := q\<rparr>"
    using assms(1) by (auto simp: bind_sum_Inr_iff)
  show ?thesis using pipes_made [OF q(1) al ne False sp] q(2) by auto
qed

lemma io_part_made:
  assumes "(if sb_ncriscs s \<noteq> []
            then bind_sum (fill_epoch_stream_dram_io_info_t alignment h s (alloc_of al a xs))
                   (\<lambda>(dp, ea3). Inr (i\<lparr>si_dram_io_info := dp\<rparr>, ea3))
            else Inr (i, alloc_of al a xs)) = Inr (i2, ea)"
    and al: "al = unat alignment" and ne: "\<forall>n \<in> set (sb_ncriscs s). nc_dram_scatter_offsets n \<noteq> Some []"
    and ph: "sb_phases s = (k, p) # ips" and i: "si_dram_io_info i = 0" and sp: "space al a xs (io_size al p (sb_ncriscs s))"
  shows "\<exists>io. ea = alloc_of al a (xs @ io_blocks io) \<and> blocks_size al (io_blocks io) = io_size al p (sb_ncriscs s)
    \<and> (\<forall>b \<in> set (io_blocks io). block_ok al b) \<and> linked_io al (a + blocks_size al xs) io (si_dram_io_info i2)
    \<and> si_skip_col_tile_row_bytes i2 = si_skip_col_tile_row_bytes i \<and> si_fork_idxs i2 = si_fork_idxs i \<and> si_stream_id i2 = si_stream_id i"
proof (cases "sb_ncriscs s = []")
  case True
  then show ?thesis
    using assms(1) i by (intro exI [of _ None]) (auto simp: io_blocks_def linked_io_def io_size_def)
next
  case False
  then obtain q where q: "fill_epoch_stream_dram_io_info_t alignment h s (alloc_of al a xs) = Inr (q, ea)" "i2 = i\<lparr>si_dram_io_info := q\<rparr>"
    using assms(1) by (auto simp: bind_sum_Inr_iff)
  show ?thesis using io_made [OF q(1) al ne False ph sp] q(2) by auto
qed

lemma ucast_halfword: "unat (w :: u32) < 2 ^ 16 \<Longrightarrow> ucast (ucast w :: u16) = w"
proof -
  assume "unat w < 2 ^ 16"
  then have "unat (take_bit 16 w) = unat w" by (simp add: unsigned_take_bit_eq take_bit_nat_eq_self)
  then have "take_bit 16 w = w" by (rule unsigned_word_eqI)
  moreover have "ucast (ucast w :: u16) = take_bit 16 w" by (simp add: word_eq_iff_unsigned unsigned_ucast_eq)
  ultimately show ?thesis by simp
qed

lemma stream_made:
  assumes "fill_epoch_stream_info_t alignment h s (alloc_of al a xs) = Inr (q, ea)"
    and al: "al = unat alignment" and ok: "stream_ok (k, s)" and sp: "space al a xs (stream_size al s)"
  shows "\<exists>sp. ea = alloc_of al a (xs @ stream_blocks al sp) \<and> blocks_size al (stream_blocks al sp) = stream_size al s
    \<and> (\<forall>b \<in> set (stream_blocks al sp). block_ok al b) \<and> q = ptr (a + blocks_size al xs) \<and> linked_stream al (a + blocks_size al xs) s sp"
proof -
  let ?A = "a + blocks_size al xs" and ?xs = "xs @ [BInfo zero_stream_info]" and ?off = "phase_offsets (sb_info s)"
  have alcase: "al = 32 \<or> al = 64" using space_al sp by blast
  obtain i i1 ea2 i2 ea3 where i: "fill_stream_info_fields s zero_stream_info = Inr i"
    and pipes: "(if ?off \<noteq> [] then bind_sum (fill_scatter_pipe_structs alignment (sb_info s) (alloc_of al a ?xs))
                   (\<lambda>(sp, ea2). Inr (i\<lparr>si_skip_col_tile_row_bytes := sp\<rparr>, ea2))
            else Inr (i, alloc_of al a ?xs)) = Inr (i1, ea2)"
    and io: "(if sb_ncriscs s \<noteq> [] then bind_sum (fill_epoch_stream_dram_io_info_t alignment h s ea2)
                   (\<lambda>(dp, ea3). Inr (i1\<lparr>si_dram_io_info := dp\<rparr>, ea3))
            else Inr (i1, ea2)) = Inr (i2, ea3)"
    and q: "q = ptr ?A" and ea: "ea = ea3\<lparr>ea_stream_info := (ea_stream_info ea3)(q \<mapsto> i2)\<rparr>"
    using assms(1) by (auto simp: fill_epoch_stream_info_t_def new_blocks(2) [OF al] bind_sum_Inr_iff)
  obtain ph p ips where phases: "sb_phases s = (ph, p) # ips"
    using stream_info_kept(4) [OF i] by (cases "sb_phases s") auto
  have size: "stream_size al s = c_sizeof al epoch_stream_info_decl + round_up (offsets_size ?off) al + io_size al p (sb_ncriscs s)"
    by (simp add: stream_size_def phases)
  have neo: "\<forall>po \<in> set ?off. po_offsets (snd po) \<noteq> []" and nen: "\<forall>n \<in> set (sb_ncriscs s). nc_dram_scatter_offsets n \<noteq> Some []"
    using ok by (simp_all add: stream_ok_def)
  have s1: "space al a ?xs (round_up (offsets_size ?off) al + io_size al p (sb_ncriscs s))"
    by (rule space_append) (use sp size sizes_aligned [OF alcase] in \<open>simp_all add: add.assoc zero_stream_info_def\<close>)
  obtain ps where ps: "ea2 = alloc_of al a (?xs @ pipe_blocks al ps)" "length ps = length ?off"
    "blocks_size al (pipe_blocks al ps) = round_up (offsets_size ?off) al" "\<forall>b \<in> set (pipe_blocks al ps). block_ok al b"
    "linked_pipes (a + blocks_size al ?xs) ps (si_skip_col_tile_row_bytes i1)"
    "si_dram_io_info i1 = si_dram_io_info i" "si_fork_idxs i1 = si_fork_idxs i" "si_stream_id i1 = si_stream_id i"
    using pipes_part_made [OF pipes al neo space_less [OF s1 le_add1]] by blast
  have s2: "space al a (?xs @ pipe_blocks al ps) (io_size al p (sb_ncriscs s))"
    by (rule space_append) (use s1 ps(3,4) in \<open>simp_all add: round_up_mod\<close>)
  obtain io where io: "ea3 = alloc_of al a ((?xs @ pipe_blocks al ps) @ io_blocks io)" "blocks_size al (io_blocks io) = io_size al p (sb_ncriscs s)"
    "\<forall>b \<in> set (io_blocks io). block_ok al b" "linked_io al (a + blocks_size al (?xs @ pipe_blocks al ps)) io (si_dram_io_info i2)"
    "si_skip_col_tile_row_bytes i2 = si_skip_col_tile_row_bytes i1" "si_fork_idxs i2 = si_fork_idxs i1" "si_stream_id i2 = si_stream_id i1"
    using io_part_made [OF io [unfolded ps(1)] al nen phases _ s2] ps(6) stream_info_kept(1) [OF i] by auto
  let ?ys = "pipe_blocks al ps @ io_blocks io"
  have "space al a ((?xs @ pipe_blocks al ps) @ io_blocks io) 0"
    by (rule space_append) (use s2 io(2,3) io_blocks_aligned [OF alcase, of io] in simp_all)
  then have "room al a (xs @ BInfo zero_stream_info # ?ys)" using space_room by fastforce
  from written(2) [OF alcase q this, of i2] have "ea = alloc_of al a (xs @ BInfo i2 # ?ys)" by (simp add: ea io(1))
  moreover define sp where "sp = \<lparr>sp_info = i2, sp_pipes = ps, sp_io = io\<rparr>"
  moreover have "ucast (si_stream_id i2) = sb_stream_id s"
    using stream_info_kept(3) [OF i] ps(8) io(7) ok ucast_halfword [of "sb_stream_id s"] by (simp add: stream_ok_def)
  ultimately show ?thesis
    using ps io q size stream_info_kept(2) [OF i]
    by (intro exI [of _ sp]) (auto simp: stream_blocks_def linked_stream_def add.assoc)
qed


section \<open>The streams of a core\<close>

fun linked_streams :: "nat \<Rightarrow> nat \<Rightarrow> core_blob_data \<Rightarrow> stream_plan list \<Rightarrow> bool" where
  "linked_streams al a [] sps \<longleftrightarrow> sps = []"
| "linked_streams al a (t # streams) sps \<longleftrightarrow>
     (case sps of [] \<Rightarrow> False
      | sp # sps' \<Rightarrow> linked_stream al a (snd t) sp \<and> linked_streams al (a + blocks_size al (stream_blocks al sp)) streams sps')"

fun stream_ptrs :: "nat \<Rightarrow> nat \<Rightarrow> stream_plan list \<Rightarrow> u32 list" where
  "stream_ptrs al a [] = []"
| "stream_ptrs al a (sp # sps) = ptr a # stream_ptrs al (a + blocks_size al (stream_blocks al sp)) sps"

text \<open>The epoch with the pointers of its active streams, the rest of the array being null.\<close>

definition active_are :: "nat \<Rightarrow> epoch_t \<Rightarrow> u32 list \<Rightarrow> bool" where
  "active_are al e ps \<longleftrightarrow> epoch_t_ok al e \<and> unat (ep_num_active_streams e) = length ps
     \<and> ep_active_streams e = ps @ replicate (64 - length ps) 0 \<and> length ps \<le> 64"

lemma active_are_cong:
  "active_are al e ps \<Longrightarrow> epoch_t_ok al e' \<Longrightarrow> ep_active_streams e' = ep_active_streams e \<Longrightarrow>
   ep_num_active_streams e' = ep_num_active_streams e \<Longrightarrow> active_are al e' ps"
  by (simp add: active_are_def)

lemma add_input_keeps: "add_input p q e = Inr e' \<Longrightarrow> active_are al e ps \<Longrightarrow> active_are al e' ps"
  by (auto simp: add_input_def active_are_def epoch_t_ok_def bind_sum_Inr_iff split: option.splits)

lemma add_output_keeps: "add_output p q e = Inr e' \<Longrightarrow> active_are al e ps \<Longrightarrow> active_are al e' ps"
  by (auto simp: add_output_def active_are_def epoch_t_ok_def bind_sum_Inr_iff split: option.splits)

lemma active_added:
  assumes "active_are al e ps" and "unat (ep_num_active_streams e) < length (ep_active_streams e)"
  shows "active_are al (e\<lparr>ep_active_streams := (ep_active_streams e)[unat (ep_num_active_streams e) := q],
           ep_num_active_streams := ep_num_active_streams e + 1\<rparr>) (ps @ [q])"
proof -
  have n: "unat (ep_num_active_streams e) = length ps" and lt: "length ps < 64"
    using assms by (auto simp: active_are_def epoch_t_ok_def)
  have "unat (ep_num_active_streams e + 1) = length ps + 1" using n lt by (simp add: unat_word_ariths)
  moreover have "(ps @ replicate (64 - length ps) 0)[length ps := q] = (ps @ [q]) @ replicate (64 - length (ps @ [q])) 0"
  proof -
    have "64 - length ps = Suc (64 - length (ps @ [q]))" using lt by simp
    then show ?thesis by (simp add: list_update_append)
  qed
  ultimately show ?thesis using assms(1) n lt by (simp add: active_are_def epoch_t_ok_def)
qed

lemma streams_made:
  assumes "fold_sum (\<lambda>(i, s). add_stream_of_epoch alignment h s) streams (e, alloc_of al a xs) = Inr (e', ea)"
    and "al = unat alignment" and "\<forall>t \<in> set streams. stream_ok t"
    and "space al a xs (sum_list (map (\<lambda>t. stream_size al (snd t)) streams))" and "active_are al e ps"
  shows "\<exists>sps. ea = alloc_of al a (xs @ streams_blocks al sps)
    \<and> blocks_size al (streams_blocks al sps) = sum_list (map (\<lambda>t. stream_size al (snd t)) streams)
    \<and> (\<forall>b \<in> set (streams_blocks al sps). block_ok al b) \<and> linked_streams al (a + blocks_size al xs) streams sps
    \<and> active_are al e' (ps @ stream_ptrs al (a + blocks_size al xs) sps)"
  using assms
proof (induction streams arbitrary: xs e ps)
  case Nil
  then show ?case by (intro exI [of _ "[]"]) simp
next
  case (Cons t streams)
  obtain i s where t: "t = (i, s)" by (cases t)
  let ?A = "a + blocks_size al xs"
  have alcase: "al = 32 \<or> al = 64" using space_al Cons.prems(4) by blast
  obtain q ea1 k p e1 e2 where st: "fill_epoch_stream_info_t alignment h s (alloc_of al a xs) = Inr (q, ea1)"
    and act: "unat (ep_num_active_streams e) < length (ep_active_streams e)"
    and "in": "add_input p q (e\<lparr>ep_active_streams := (ep_active_streams e)[unat (ep_num_active_streams e) := q],
           ep_num_active_streams := ep_num_active_streams e + 1\<rparr>) = Inr e1"
    and out: "add_output p q e1 = Inr e2"
    and rest: "fold_sum (\<lambda>(i, s). add_stream_of_epoch alignment h s) streams (e2, ea1) = Inr (e', ea)"
  proof -
    from Cons.prems(1) obtain e2 ea1 where add: "add_stream_of_epoch alignment h s (e, alloc_of al a xs) = Inr (e2, ea1)"
      "fold_sum (\<lambda>(i, s). add_stream_of_epoch alignment h s) streams (e2, ea1) = Inr (e', ea)"
      by (auto simp: t bind_sum_Inr_iff)
    then show ?thesis using that by (auto simp: add_stream_of_epoch_def [of _ _ _ "(e, alloc_of al a xs)"] bind_sum_Inr_iff)
  qed
  have e2: "active_are al e2 (ps @ [q])"
    using add_output_keeps [OF out add_input_keeps [OF "in" active_added [OF Cons.prems(5) act]]] .
  have ok: "stream_ok (i, s)" using Cons.prems(3) t by simp
  have "space al a xs (stream_size al s)" by (rule space_less [OF Cons.prems(4)]) (simp add: t)
  from stream_made [OF st Cons.prems(2) ok this] obtain sp where
    sp: "ea1 = alloc_of al a (xs @ stream_blocks al sp)" "blocks_size al (stream_blocks al sp) = stream_size al s"
      "\<forall>b \<in> set (stream_blocks al sp). block_ok al b" "q = ptr ?A" "linked_stream al ?A s sp"
    by blast
  have "space al a (xs @ stream_blocks al sp) (sum_list (map (\<lambda>t. stream_size al (snd t)) streams))"
    using Cons.prems(4) sp(2,3) stream_blocks_aligned [OF alcase, of sp] by (intro space_append) (simp_all add: t)
  from Cons.IH [OF rest [unfolded sp(1)] Cons.prems(2) _ this e2] Cons.prems(3) obtain sps where
    "ea = alloc_of al a ((xs @ stream_blocks al sp) @ streams_blocks al sps)"
    "blocks_size al (streams_blocks al sps) = sum_list (map (\<lambda>t. stream_size al (snd t)) streams)"
    "\<forall>b \<in> set (streams_blocks al sps). block_ok al b" "linked_streams al (a + blocks_size al (xs @ stream_blocks al sp)) streams sps"
    "active_are al e' ((ps @ [q]) @ stream_ptrs al (a + blocks_size al (xs @ stream_blocks al sp)) sps)"
    by auto
  then show ?case using sp by (intro exI [of _ "sp # sps"]) (auto simp: t add.assoc)
qed

section \<open>A core\<close>

lemma epoch_phase_keeps:
  assumes "fill_epoch_phase eth p (e, sizes) = Inr (e', sizes')" and "active_are al e ps"
  shows "active_are al e' ps"
  using assms by (auto simp: fill_epoch_phase_def active_are_def epoch_t_ok_def bind_sum_Inr_iff Let_def)

lemma tile_size_keeps: "fill_tile_size t e = Inr e' \<Longrightarrow> active_are al e ps \<Longrightarrow> active_are al e' ps"
  by (auto simp: fill_tile_size_def active_are_def epoch_t_ok_def bind_sum_Inr_iff Let_def)

lemma epoch_fields_active:
  assumes "fill_epoch_fields (zero_epoch al) k streams tile_sizes perf fb eth = Inr e"
  shows "active_are al e []"
proof -
  obtain e1 eth_sizes e2 where
    e1: "fold_sum (\<lambda>p. fill_epoch_phase eth p) (concat (map (\<lambda>(i, s). map snd (sb_phases s)) streams))
        ((zero_epoch al)\<lparr>ep_epoch_valid := 1, ep_overlay_valid := 1, ep_epoch_id := k,
           ep_dummy_phase_tile_header_and_data := (ep_dummy_phase_tile_header_and_data (zero_epoch al))[0 := 1]\<rparr>, []) = Inr (e1, eth_sizes)"
    and e2: "fold_sum fill_tile_size (if eth then eth_sizes else tile_sizes) e1 = Inr e2"
    and e: "e = (let e3 = (case perf of None \<Rightarrow> e2
                  | Some (addrs, reqs) \<Rightarrow>
                      e2\<lparr>ep_perf_dram_addr := overwrite (map tt_uint64 addrs) (ep_perf_dram_addr e2),
                         ep_perf_req_max := overwrite reqs (ep_perf_req_max e2)\<rparr>)
        in case fb of None \<Rightarrow> e3 | Some a \<Rightarrow> e3\<lparr>ep_extra_dram_q_state_addr := a\<rparr>)"
    using assms by (auto simp: fill_epoch_fields_def bind_sum_Inr_iff Let_def)
  have "active_are al ((zero_epoch al)\<lparr>ep_epoch_valid := 1, ep_overlay_valid := 1, ep_epoch_id := k,
           ep_dummy_phase_tile_header_and_data := (ep_dummy_phase_tile_header_and_data (zero_epoch al))[0 := 1]\<rparr>) []"
    by (simp add: active_are_def epoch_t_ok_def zero_epoch_def)
  then have "active_are al (fst (e1, eth_sizes)) []"
    by (intro fold_sum_invariant [where P = "\<lambda>st. active_are al (fst st) []", OF _ _ e1])
      (auto intro: epoch_phase_keeps)
  then have "active_are al e2 []"
    by (intro fold_sum_invariant [where P = "\<lambda>e. active_are al e []", OF _ _ e2]) (auto intro: tile_size_keeps)
  then show ?thesis by (auto simp: e Let_def active_are_def epoch_t_ok_def split: option.splits)
qed

definition core_blocks :: "nat \<Rightarrow> epoch_t \<Rightarrow> stream_plan list \<Rightarrow> block list" where
  "core_blocks al e sps = BEpoch e # streams_blocks al sps"

text \<open>The structures of a core: the epoch, and its streams behind it.\<close>

definition core_linked :: "nat \<Rightarrow> nat \<Rightarrow> core_blob_data \<Rightarrow> epoch_t \<Rightarrow> stream_plan list \<Rightarrow> bool" where
  "core_linked al a streams e sps \<longleftrightarrow> (\<forall>b \<in> set (core_blocks al e sps). block_ok al b)
     \<and> blocks_size al (core_blocks al e sps) = epoch_size_of al streams
     \<and> linked_streams al (a + c_sizeof al (epoch_decl al)) streams sps
     \<and> active_are al e (stream_ptrs al (a + c_sizeof al (epoch_decl al)) sps)"

lemma core_made:
  assumes "fill_epoch_t_single_core alignment k streams tile_sizes perf fb eth h (new_epoch_allocator (ptr a)) = Inr ea"
    and al: "al = unat alignment" and ok: "\<forall>t \<in> set streams. stream_ok t" and sp: "space al a [] (epoch_size_of al streams)"
  shows "\<exists>e sps. ea = alloc_of al a (core_blocks al e sps) \<and> core_linked al a streams e sps"
proof -
  have alcase: "al = 32 \<or> al = 64" using space_al sp by blast
  obtain e e1 ea2 where e: "fill_epoch_fields (zero_epoch al) k streams tile_sizes perf fb eth = Inr e"
    and st: "fold_sum (\<lambda>(i, s). add_stream_of_epoch alignment h s) streams (e, alloc_of al a [BEpoch (zero_epoch al)]) = Inr (e1, ea2)"
    and ea: "ea = ea2\<lparr>ea_epoch := (ea_epoch ea2)(ptr a \<mapsto>
        (if ep_num_inputs e1 = 0 \<and> ep_num_outputs e1 = 0 then e1\<lparr>ep_skip_kernels := 1\<rparr> else e1))\<rparr>"
    using assms(1) new_blocks(1) [OF al, of a "[]"]
    by (auto simp: fill_epoch_t_single_core_def new_epoch_allocator_blocks [of a al] bind_sum_Inr_iff Let_def simp flip: al)
  have z: "epoch_t_ok al (zero_epoch al)" by (simp add: epoch_t_ok_def zero_epoch_def)
  have "space al a ([] @ [BEpoch (zero_epoch al)]) (sum_list (map (\<lambda>t. stream_size al (snd t)) streams))"
    by (rule space_append) (use sp z sizes_aligned [OF alcase] in \<open>simp_all add: epoch_size_of_def\<close>)
  then obtain sps where sps: "ea2 = alloc_of al a ([BEpoch (zero_epoch al)] @ streams_blocks al sps)"
    "blocks_size al (streams_blocks al sps) = sum_list (map (\<lambda>t. stream_size al (snd t)) streams)"
    "\<forall>b \<in> set (streams_blocks al sps). block_ok al b"
    "linked_streams al (a + blocks_size al [BEpoch (zero_epoch al)]) streams sps"
    "active_are al e1 ([] @ stream_ptrs al (a + blocks_size al [BEpoch (zero_epoch al)]) sps)"
    using streams_made [OF st al ok _ epoch_fields_active [OF e]] by auto
  define e2 where "e2 = (if ep_num_inputs e1 = 0 \<and> ep_num_outputs e1 = 0 then e1\<lparr>ep_skip_kernels := 1\<rparr> else e1)"
  have e2: "active_are al e2 (stream_ptrs al (a + c_sizeof al (epoch_decl al)) sps)"
    using sps(5) by (simp add: e2_def active_are_def epoch_t_ok_def)
  have "room al a ([] @ BEpoch (zero_epoch al) # streams_blocks al sps)"
    using sp sps(2,3) z by (auto simp: room_def space_def epoch_size_of_def)
  from written(1) [OF alcase _ this, of "ptr a" e2] have "ea = alloc_of al a (core_blocks al e2 sps)"
    by (simp add: ea sps(1) e2_def core_blocks_def)
  then show ?thesis using sps e2 by (auto simp: core_linked_def core_blocks_def epoch_size_of_def active_are_def)
qed

end
