(* ===== verification/EpochSecondPass.thy ===== *)
theory EpochSecondPass
  imports EpochStreams
begin

text \<open>
  The second pass of the builder (\<open>epoch_t_builder.cpp\<close>) changes what refers to other streams or to the
  phases and keeps every pointer between the structures of a core.
\<close>

section \<open>One stream after the other\<close>

text \<open>A stream is replaced by one of the same blocks.\<close>

definition stream_replaced :: "nat \<Rightarrow> nat \<Rightarrow> stream_blob_data \<Rightarrow> stream_plan \<Rightarrow> stream_plan \<Rightarrow> bool" where
  "stream_replaced al b s sp sp' \<longleftrightarrow> linked_stream al b s sp'
     \<and> blocks_size al (stream_blocks al sp') = blocks_size al (stream_blocks al sp) \<and> (\<forall>b \<in> set (stream_blocks al sp'). block_ok al b)"

lemma stream_data_found:
  assumes "streams_ok streams" and "t \<in> set streams" and "linked_stream al b (snd t) sp"
  shows "stream_data_of (sp_info sp) streams = Inr (snd t)"
proof -
  have "ucast (si_stream_id (sp_info sp)) = fst t"
    using assms by (auto simp: linked_stream_def streams_ok_def stream_ok_def Let_def)
  moreover have "map_of streams (fst t) = Some (snd t)"
    using assms(1,2) by (auto simp: streams_ok_def map_of_eq_Some_iff)
  ultimately show ?thesis by (simp add: stream_data_of_def at_def)
qed

definition stream_step :: "nat \<Rightarrow> nat \<Rightarrow> core_blob_data \<Rightarrow> (u32 \<Rightarrow> epoch_allocator \<Rightarrow> blob_error + epoch_allocator) \<Rightarrow> bool" where
  "stream_step al a streams g \<longleftrightarrow>
     (\<forall>s xs sp ys ea. room al a (xs @ stream_blocks al sp @ ys) \<longrightarrow> linked_stream al (a + blocks_size al xs) s sp \<longrightarrow>
        stream_data_of (sp_info sp) streams = Inr s \<longrightarrow>
        g (ptr (a + blocks_size al xs)) (alloc_of al a (xs @ stream_blocks al sp @ ys)) = Inr ea \<longrightarrow>
        (\<exists>sp'. ea = alloc_of al a (xs @ stream_blocks al sp' @ ys) \<and> stream_replaced al (a + blocks_size al xs) s sp sp'))"

lemma stream_stepD:
  assumes "stream_step al a streams g" and "room al a (xs @ stream_blocks al sp @ ys)" and "linked_stream al (a + blocks_size al xs) s sp"
    and "stream_data_of (sp_info sp) streams = Inr s"
    and "g (ptr (a + blocks_size al xs)) (alloc_of al a (xs @ stream_blocks al sp @ ys)) = Inr ea"
  obtains sp' where "ea = alloc_of al a (xs @ stream_blocks al sp' @ ys)" "stream_replaced al (a + blocks_size al xs) s sp sp'"
  using assms unfolding stream_step_def by blast

lemma streams_replaced:
  assumes "stream_step al a streams g" and "streams_ok streams" and "set todo \<subseteq> set streams"
    and "linked_streams al (a + blocks_size al xs) todo sps" and "room al a (xs @ streams_blocks al sps)"
    and "fold_sum g (stream_ptrs al (a + blocks_size al xs) sps) (alloc_of al a (xs @ streams_blocks al sps)) = Inr ea"
  shows "\<exists>sps'. ea = alloc_of al a (xs @ streams_blocks al sps') \<and> linked_streams al (a + blocks_size al xs) todo sps'
    \<and> blocks_size al (streams_blocks al sps') = blocks_size al (streams_blocks al sps)
    \<and> (\<forall>b \<in> set (streams_blocks al sps'). block_ok al b)
    \<and> stream_ptrs al (a + blocks_size al xs) sps' = stream_ptrs al (a + blocks_size al xs) sps"
  using assms(3-6)
proof (induction todo arbitrary: xs sps)
  case Nil
  then show ?case by (intro exI [of _ sps]) (auto simp: room_def)
next
  case (Cons t todo)
  let ?A = "a + blocks_size al xs"
  obtain sp sps0 where sps: "sps = sp # sps0" and l: "linked_stream al ?A (snd t) sp"
    and ls: "linked_streams al (?A + blocks_size al (stream_blocks al sp)) todo sps0"
    using Cons.prems(2) by (auto split: list.splits)
  obtain ea1 where step: "g (ptr ?A) (alloc_of al a (xs @ stream_blocks al sp @ streams_blocks al sps0)) = Inr ea1"
    and rest: "fold_sum g (stream_ptrs al (?A + blocks_size al (stream_blocks al sp)) sps0) ea1 = Inr ea"
    using Cons.prems(4) by (auto simp: sps bind_sum_Inr_iff)
  have t: "t \<in> set streams" using Cons.prems(1) by simp
  have r: "room al a (xs @ stream_blocks al sp @ streams_blocks al sps0)" using Cons.prems(3) by (simp add: sps)
  obtain sp' where sp': "ea1 = alloc_of al a (xs @ stream_blocks al sp' @ streams_blocks al sps0)" "stream_replaced al ?A (snd t) sp sp'"
    using stream_stepD [OF assms(1) r l stream_data_found [OF assms(2) t l] step] by blast
  have size: "blocks_size al (stream_blocks al sp') = blocks_size al (stream_blocks al sp)" using sp'(2) by (simp add: stream_replaced_def)
  have "room al a ((xs @ stream_blocks al sp') @ streams_blocks al sps0)"
    using r sp'(2) by (auto simp: room_def stream_replaced_def)
  moreover have "linked_streams al (a + blocks_size al (xs @ stream_blocks al sp')) todo sps0" using ls size by (simp add: add.assoc)
  ultimately obtain sps' where
    "ea = alloc_of al a ((xs @ stream_blocks al sp') @ streams_blocks al sps')"
    "linked_streams al (a + blocks_size al (xs @ stream_blocks al sp')) todo sps'"
    "blocks_size al (streams_blocks al sps') = blocks_size al (streams_blocks al sps0)"
    "\<forall>b \<in> set (streams_blocks al sps'). block_ok al b"
    "stream_ptrs al (a + blocks_size al (xs @ stream_blocks al sp')) sps' = stream_ptrs al (a + blocks_size al (xs @ stream_blocks al sp')) sps0"
    using Cons.IH [of "xs @ stream_blocks al sp'" sps0] Cons.prems(1) rest sp'(1) size by (auto simp: add.assoc)
  then show ?case
    using sp' size by (intro exI [of _ "sp' # sps'"]) (auto simp: sps add.assoc stream_replaced_def)
qed

text \<open>The active streams are those of the core.\<close>

lemma stream_ptrs_nonzero:
  assumes al: "al = 32 \<or> al = 64" and "0 < a" and "a + blocks_size al (streams_blocks al sps) \<le> 2 ^ 32"
  shows "\<forall>p \<in> set (stream_ptrs al a sps). p \<noteq> 0"
  using assms(2-)
proof (induction sps arbitrary: a)
  case (Cons sp sps)
  have "0 < blocks_size al (stream_blocks al sp)" using sizes_positive [OF al] by (simp add: stream_blocks_def)
  then have "unat (ptr a) = a" using Cons.prems by (intro unat_ptr) simp
  then have "ptr a \<noteq> 0" using Cons.prems(1) by auto
  then show ?case using Cons.IH [of "a + blocks_size al (stream_blocks al sp)"] Cons.prems by simp
qed simp

lemma active_ptrs_of:
  assumes "active_are al e ps" and "\<forall>p \<in> set ps. p \<noteq> 0"
  shows "active_ptrs e = ps"
proof -
  have "takeWhile (\<lambda>p. p \<noteq> 0) (ps @ replicate (64 - length ps) 0) = ps"
    using assms(2) by (subst takeWhile_append2) (simp_all add: takeWhile_eq_Nil_iff)
  then show ?thesis using assms(1) by (simp add: active_ptrs_def active_are_def)
qed

lemma core_active_ptrs:
  assumes al: "al = 32 \<or> al = 64" and "core_linked al a streams e sps" and "a + epoch_size_of al streams \<le> 2 ^ 32"
  shows "active_ptrs e = stream_ptrs al (a + c_sizeof al (epoch_decl al)) sps"
proof (rule active_ptrs_of)
  show "active_are al e (stream_ptrs al (a + c_sizeof al (epoch_decl al)) sps)" using assms(2) by (simp add: core_linked_def)
  show "\<forall>p \<in> set (stream_ptrs al (a + c_sizeof al (epoch_decl al)) sps). p \<noteq> 0"
    using assms sizes_positive [OF al] by (intro stream_ptrs_nonzero) (auto simp: core_linked_def core_blocks_def)
qed

lemma core_room: "core_linked al a streams e sps \<Longrightarrow> a + epoch_size_of al streams \<le> 2 ^ 32 \<Longrightarrow> room al a (core_blocks al e sps)"
  by (simp add: core_linked_def room_def)

lemma epoch_found:
  assumes al: "al = 32 \<or> al = 64" and "core_linked al a streams e sps" and "a + epoch_size_of al streams \<le> 2 ^ 32"
    and "get_overlay_start_address soc core_id = ptr a"
  shows "epoch_of_core soc core_id (alloc_of al a (core_blocks al e sps)) = Inr e"
  using found(1) [OF al, of a "[]" "BEpoch e" "streams_blocks al sps" _ e] core_room [OF assms(2,3)] assms(4)
  by (simp add: epoch_of_core_def core_blocks_def)

lemma core_replaced:
  assumes al: "al = 32 \<or> al = 64" and "core_linked al a streams e sps" and "a + epoch_size_of al streams \<le> 2 ^ 32"
    and "streams_ok streams" and "stream_step al a streams g"
    and "fold_sum g (active_ptrs e) (alloc_of al a (core_blocks al e sps)) = Inr ea"
  shows "\<exists>sps'. ea = alloc_of al a (core_blocks al e sps') \<and> core_linked al a streams e sps'"
proof -
  let ?E = "a + c_sizeof al (epoch_decl al)"
  have fold: "fold_sum g (stream_ptrs al (a + blocks_size al [BEpoch e]) sps) (alloc_of al a ([BEpoch e] @ streams_blocks al sps)) = Inr ea"
    using assms(6) core_active_ptrs [OF al assms(2,3)] by (simp add: core_blocks_def)
  have "room al a ([BEpoch e] @ streams_blocks al sps)" using core_room [OF assms(2,3)] by (simp add: core_blocks_def)
  moreover have "linked_streams al (a + blocks_size al [BEpoch e]) streams sps" using assms(2) by (simp add: core_linked_def)
  ultimately obtain sps' where
    "ea = alloc_of al a ([BEpoch e] @ streams_blocks al sps')" "linked_streams al (a + blocks_size al [BEpoch e]) streams sps'"
    "blocks_size al (streams_blocks al sps') = blocks_size al (streams_blocks al sps)"
    "\<forall>b \<in> set (streams_blocks al sps'). block_ok al b" "stream_ptrs al ?E sps' = stream_ptrs al ?E sps"
    using streams_replaced [OF assms(5,4) order_refl _ _ fold] by auto
  then show ?thesis using assms(2) by (intro exI [of _ sps']) (simp add: core_linked_def core_blocks_def)
qed


section \<open>Forks\<close>

lemma info_found:
  assumes al: "al = 32 \<or> al = 64" and "room al a (xs @ stream_blocks al sp @ ys)"
  shows "lookup al get_info a (xs @ stream_blocks al sp @ ys) (ptr (a + blocks_size al xs)) = Some (sp_info sp)"
  using found(2) [OF al, of a xs "BInfo (sp_info sp)" "pipe_blocks al (sp_pipes sp) @ io_blocks (sp_io sp) @ ys" _ "sp_info sp"] assms(2)
  by (simp add: stream_blocks_def)

lemma info_set:
  assumes al: "al = 32 \<or> al = 64" and "room al a (xs @ stream_blocks al sp @ ys)"
  shows "set_stream_info (ptr (a + blocks_size al xs)) i (alloc_of al a (xs @ stream_blocks al sp @ ys))
    = alloc_of al a (xs @ stream_blocks al (sp\<lparr>sp_info := i\<rparr>) @ ys)"
  using written(2) [OF al refl, of a xs "sp_info sp" "pipe_blocks al (sp_pipes sp) @ io_blocks (sp_io sp) @ ys" i] assms(2)
  by (simp add: stream_blocks_def set_stream_info_def)

lemma info_replaced:
  assumes "room al a (xs @ stream_blocks al sp @ ys)" and "linked_stream al b s sp"
    and "si_skip_col_tile_row_bytes i = si_skip_col_tile_row_bytes (sp_info sp)" "si_dram_io_info i = si_dram_io_info (sp_info sp)"
    "si_stream_id i = si_stream_id (sp_info sp)" "length (si_fork_idxs i) = length (si_fork_idxs (sp_info sp))"
  shows "stream_replaced al b s sp (sp\<lparr>sp_info := i\<rparr>)"
  using assms by (auto simp: stream_replaced_def linked_stream_def stream_blocks_def room_def Let_def)

lemma fork_idx_keeps:
  assumes "add_fork_idx active ea r i = Inr i'"
  shows "si_skip_col_tile_row_bytes i' = si_skip_col_tile_row_bytes i \<and> si_dram_io_info i' = si_dram_io_info i
    \<and> si_stream_id i' = si_stream_id i \<and> length (si_fork_idxs i') = length (si_fork_idxs i)"
  using assms by (auto simp: add_fork_idx_def bind_sum_Inr_iff split: option.splits)

lemma fork_idxs_step:
  assumes al: "al = 32 \<or> al = 64"
  shows "stream_step al a streams (fill_fork_idxs_of_stream active streams)"
  unfolding stream_step_def
proof (intro allI impI)
  fix s xs sp ys ea
  let ?bs = "xs @ stream_blocks al sp @ ys" and ?b = "a + blocks_size al xs"
  assume r: "room al a ?bs" and l: "linked_stream al ?b s sp" and d: "stream_data_of (sp_info sp) streams = Inr s"
    and fill: "fill_fork_idxs_of_stream active streams (ptr ?b) (alloc_of al a ?bs) = Inr ea"
  obtain k p i1 where i1: "fold_sum (add_fork_idx active (alloc_of al a ?bs)) (get_fork_streams p) (sp_info sp) = Inr i1"
    and ea: "ea = set_stream_info (ptr ?b) (if get_is_scatter_pack p then i1\<lparr>si_num_fork_streams := si_num_fork_streams i1 - 1\<rparr> else i1)
        (alloc_of al a ?bs)"
    using fill info_found [OF al r] d by (auto simp: fill_fork_idxs_of_stream_def bind_sum_Inr_iff)
  have "si_skip_col_tile_row_bytes i1 = si_skip_col_tile_row_bytes (sp_info sp) \<and> si_dram_io_info i1 = si_dram_io_info (sp_info sp)
      \<and> si_stream_id i1 = si_stream_id (sp_info sp) \<and> length (si_fork_idxs i1) = length (si_fork_idxs (sp_info sp))"
    by (rule fold_sum_invariant [where P = "\<lambda>i. si_skip_col_tile_row_bytes i = si_skip_col_tile_row_bytes (sp_info sp)
        \<and> si_dram_io_info i = si_dram_io_info (sp_info sp) \<and> si_stream_id i = si_stream_id (sp_info sp)
        \<and> length (si_fork_idxs i) = length (si_fork_idxs (sp_info sp))", OF _ _ i1]) (use fork_idx_keeps in fastforce)+
  then have "stream_replaced al ?b s sp
      (sp\<lparr>sp_info := if get_is_scatter_pack p then i1\<lparr>si_num_fork_streams := si_num_fork_streams i1 - 1\<rparr> else i1\<rparr>)"
    by (intro info_replaced [OF r l]) simp_all
  then show "\<exists>sp'. ea = alloc_of al a (xs @ stream_blocks al sp' @ ys) \<and> stream_replaced al ?b s sp sp'"
    unfolding ea info_set [OF al r] by blast
qed

section \<open>The blobs of the phases\<close>

text \<open>The arrays of a scatter index keep their lengths.\<close>

definition pipes_alike :: "(scatter_pipe_state_t \<times> scatter_pipe_blob_t list) list \<Rightarrow> (scatter_pipe_state_t \<times> scatter_pipe_blob_t list) list \<Rightarrow> bool" where
  "pipes_alike ps qs \<longleftrightarrow> list_all2 (\<lambda>p q. fst p = fst q \<and> length (snd p) = length (snd q)) ps qs"

lemma pipes_alike_simps [simp]:
  "pipes_alike [] qs \<longleftrightarrow> qs = []"
  "pipes_alike (p # ps) qs \<longleftrightarrow> (\<exists>q qs'. qs = q # qs' \<and> fst q = fst p \<and> length (snd q) = length (snd p) \<and> pipes_alike ps qs')"
  by (auto simp: pipes_alike_def list_all2_Cons1)

lemma alike_maps: "pipes_alike ps qs \<Longrightarrow> map fst qs = map fst ps \<and> map (length \<circ> snd) qs = map (length \<circ> snd) ps"
  by (induction ps arbitrary: qs) auto

lemma alike_blob_sizes: "pipes_alike ps qs \<Longrightarrow> blocks_size al (blob_blocks qs) = blocks_size al (blob_blocks ps)"
  by (induction ps arbitrary: qs) auto

lemma alike_linked: "pipes_alike ps qs \<Longrightarrow> linked_blobs b qs \<longleftrightarrow> linked_blobs b ps"
  by (induction ps arbitrary: qs b) (auto split: prod.splits)

lemma alike_ok: "pipes_alike ps qs \<Longrightarrow> (\<forall>b \<in> set (blob_blocks qs). block_ok al b) \<longleftrightarrow> (\<forall>b \<in> set (blob_blocks ps). block_ok al b)"
  by (induction ps arbitrary: qs) (simp, force)

lemma pipes_alikeD:
  assumes l: "pipes_alike ps qs"
  shows "map fst qs = map fst ps" "length qs = length ps" "blocks_size al (pipe_blocks al qs) = blocks_size al (pipe_blocks al ps)"
    "linked_pipes b qs p \<longleftrightarrow> linked_pipes b ps p"
    "(\<forall>b \<in> set (pipe_blocks al qs). block_ok al b) \<longleftrightarrow> (\<forall>b \<in> set (pipe_blocks al ps). block_ok al b)"
proof -
  show m: "map fst qs = map fst ps" using alike_maps [OF l] by blast
  show len: "length qs = length ps" using arg_cong [OF m, of length] by simp
  have nil: "qs = [] \<longleftrightarrow> ps = []" using len by (metis length_0_conv)
  have psize: "pipes_size qs = pipes_size ps"
    using len alike_blob_sizes [OF l, of al] by (simp add: pipes_size_def pipes_size_blobs)
  show "blocks_size al (pipe_blocks al qs) = blocks_size al (pipe_blocks al ps)"
    using len nil alike_blob_sizes [OF l, of al] psize by (simp add: pipe_blocks_def)
  show "linked_pipes b qs p \<longleftrightarrow> linked_pipes b ps p" using len nil alike_linked [OF l] by (simp add: linked_pipes_def)
  show "(\<forall>b \<in> set (pipe_blocks al qs). block_ok al b) \<longleftrightarrow> (\<forall>b \<in> set (pipe_blocks al ps). block_ok al b)"
    using nil alike_ok [OF l, of al] by (simp add: pipe_blocks_def ball_Un)
qed

lemma linked_blobs_nth:
  "linked_blobs b ps \<Longrightarrow> k < length ps \<Longrightarrow>
     ps_unroll_blobs (fst (ps ! k)) = ptr (b + blocks_size al (blob_blocks (take k ps))) \<and> unat (ps_max_unroll (fst (ps ! k))) = length (snd (ps ! k))"
  by (induction ps arbitrary: b k) (auto simp: nth_Cons' take_Cons' add.assoc split: prod.splits)

lemma blob_blocks_append [simp]: "blob_blocks (ps @ qs) = blob_blocks ps @ blob_blocks qs"
  by (simp add: blob_blocks_def)

lemma pipe_state_updated:
  assumes al: "al = 32 \<or> al = 64" and r: "room al a (xs @ pipe_blocks al ps @ ys)" and l: "linked_pipes (a + blocks_size al xs) ps q"
    and ne: "ps \<noteq> []" and up: "update_pipe_state base q k (alloc_of al a (xs @ pipe_blocks al ps @ ys)) = Inr ea"
  shows "\<exists>ps'. ea = alloc_of al a (xs @ pipe_blocks al ps' @ ys) \<and> pipes_alike ps ps'"
proof -
  let ?A = "a + blocks_size al xs" and ?pad = "BPad (round_up (pipes_size ps) al - pipes_size ps)"
  let ?bs = "xs @ pipe_blocks al ps @ ys"
  have q: "q = ptr ?A" and lb: "linked_blobs (?A + 16 * length ps) ps" using l ne by (simp_all add: linked_pipes_def)
  have blocks: "?bs = xs @ BPipes (map fst ps) # blob_blocks ps @ ?pad # ys" using ne by (simp add: pipe_blocks_def)
  have "lookup al get_pipes a ?bs q = Some (map fst ps)"
    using found(7) [OF al r [unfolded blocks] q] by (simp add: blocks)
  then obtain k: "k < length ps" and blobs: "update_pipe_blobs base (fst (ps ! k)) (alloc_of al a ?bs) = Inr ea"
    using up by (auto simp: update_pipe_state_def nth_of_def bind_sum_Inr_iff split: if_splits)
  have "snd (ps ! k) \<noteq> []"
    using r k nth_mem [OF k] ne by (force simp: room_def pipe_blocks_def blob_blocks_def)
  note lk = linked_blobs_nth [OF lb k, of al]
  let ?zs = "xs @ BPipes (map fst ps) # blob_blocks (take k ps)" and ?ws = "blob_blocks (drop (Suc k) ps) @ ?pad # ys"
  have "blob_blocks ps = blob_blocks (take k ps @ ps ! k # drop (Suc k) ps)" using k by (simp only: id_take_nth_drop [symmetric])
  then have split: "?bs = ?zs @ BBlobs (snd (ps ! k)) # ?ws" by (simp add: blocks)
  have p: "ps_unroll_blobs (fst (ps ! k)) = ptr (a + blocks_size al ?zs)" using lk by (simp add: add.assoc)
  have fd: "lookup al get_blobs a ?bs (ps_unroll_blobs (fst (ps ! k))) = Some (snd (ps ! k))"
    using found(8) [OF al r [unfolded split] p] unfolding split by simp
  define bs' where "bs' = map (\<lambda>b. b\<lparr>pb_scatter_blob_base_addr := pb_scatter_blob_base_addr b + base\<rparr>) (snd (ps ! k))"
  have "ps_max_unroll (fst (ps ! k)) \<noteq> 0" using lk \<open>snd (ps ! k) \<noteq> []\<close> by auto
  then have "ea = (alloc_of al a ?bs)\<lparr>ea_pipe_blob := (lookup al get_blobs a ?bs)(ps_unroll_blobs (fst (ps ! k)) \<mapsto> bs')\<rparr>"
    using blobs fd lk by (auto simp: update_pipe_blobs_def bs'_def bind_sum_Inr_iff)
  also have "\<dots> = alloc_of al a (?zs @ BBlobs bs' # ?ws)"
    unfolding split by (rule written(7) [OF al p r [unfolded split]]) (simp add: bs'_def)
  finally have ea: "ea = alloc_of al a (?zs @ BBlobs bs' # ?ws)" .
  define ps' where "ps' = take k ps @ (fst (ps ! k), bs') # drop (Suc k) ps"
  have upd: "ps' = ps[k := (fst (ps ! k), bs')]" using k by (simp add: ps'_def upd_conv_take_nth_drop)
  have alike: "pipes_alike ps ps'"
    unfolding pipes_alike_def upd using k by (auto simp: list_all2_conv_all_nth nth_list_update bs'_def)
  have "pipes_size ps' = pipes_size ps"
    using pipes_alikeD(2,3) [OF alike] arg_cong [OF id_take_nth_drop [OF k], of pipes_size]
    by (simp add: pipes_size_def ps'_def bs'_def)
  moreover have "map fst ps' = map fst ps" using pipes_alikeD(1) [OF alike] .
  ultimately have "pipe_blocks al ps' = BPipes (map fst ps) # blob_blocks ps' @ [?pad]" by (simp add: pipe_blocks_def ps'_def)
  then have "xs @ pipe_blocks al ps' @ ys = ?zs @ BBlobs bs' # ?ws" by (simp add: ps'_def)
  then show ?thesis unfolding ea using alike by (intro exI [of _ ps']) (simp only:)
qed


lemma pipe_states_updated:
  assumes al: "al = 32 \<or> al = 64" and "room al a (xs @ pipe_blocks al ps @ ys)" and "linked_pipes (a + blocks_size al xs) ps q"
    and "ks = [] \<or> ps \<noteq> []" and "fold_sum (update_pipe_state base q) ks (alloc_of al a (xs @ pipe_blocks al ps @ ys)) = Inr ea"
  shows "\<exists>ps'. ea = alloc_of al a (xs @ pipe_blocks al ps' @ ys) \<and> pipes_alike ps ps'"
  using assms(2-)
proof (induction ks arbitrary: ps)
  case Nil
  have "pipes_alike ps ps" by (simp add: pipes_alike_def list.rel_refl)
  then show ?case using Nil by auto
next
  case (Cons k ks)
  have ne: "ps \<noteq> []" using Cons.prems(3) by simp
  obtain ea1 where "update_pipe_state base q k (alloc_of al a (xs @ pipe_blocks al ps @ ys)) = Inr ea1"
    and rest: "fold_sum (update_pipe_state base q) ks ea1 = Inr ea"
    using Cons.prems(4) by (auto simp: bind_sum_Inr_iff)
  from pipe_state_updated [OF al Cons.prems(1,2) ne this(1)] obtain qs where
    qs: "ea1 = alloc_of al a (xs @ pipe_blocks al qs @ ys)" "pipes_alike ps qs" by blast
  have "room al a (xs @ pipe_blocks al qs @ ys)"
    using Cons.prems(1) pipes_alikeD(3,5) [OF qs(2), of al] by (simp add: room_def ball_Un)
  moreover have "linked_pipes (a + blocks_size al xs) qs q" using Cons.prems(2) pipes_alikeD(4) [OF qs(2)] by blast
  moreover have "qs \<noteq> []" using pipes_alikeD(2) [OF qs(2)] ne by auto
  ultimately obtain ps' where ps': "ea = alloc_of al a (xs @ pipe_blocks al ps' @ ys)" "pipes_alike qs ps'"
    using Cons.IH [of qs] rest qs(1) by blast
  have "pipes_alike ps ps'"
    using qs(2) ps'(2) unfolding pipes_alike_def by (rule list_all2_trans [rotated]) auto
  then show ?case using ps'(1) by blast
qed

lemma blob_addrs_step:
  assumes al: "al = 32 \<or> al = 64"
  shows "stream_step al a streams (update_blob_base_addrs_of_stream base streams)"
  unfolding stream_step_def
proof (intro allI impI)
  fix s xs sp ys ea
  let ?bs = "xs @ stream_blocks al sp @ ys" and ?b = "a + blocks_size al xs"
  assume r: "room al a ?bs" and l: "linked_stream al ?b s sp" and d: "stream_data_of (sp_info sp) streams = Inr s"
    and up: "update_blob_base_addrs_of_stream base streams (ptr ?b) (alloc_of al a ?bs) = Inr ea"
  define i where "i = (sp_info sp)\<lparr>si_blob_start_addr := blob_start_relative_offset (sb_info s) + base\<rparr>"
  let ?sp = "sp\<lparr>sp_info := i\<rparr>" and ?q = "si_skip_col_tile_row_bytes (sp_info sp)" and ?ps = "sp_pipes sp"
  have rep: "stream_replaced al ?b s sp ?sp" by (rule info_replaced [OF r l]) (simp_all add: i_def)
  have fold: "fold_sum (update_pipe_state base ?q) [0..<length (phase_offsets (sb_info s))]
      (alloc_of al a (xs @ stream_blocks al ?sp @ ys)) = Inr ea"
    using up info_found [OF al r] d info_set [OF al r, of i]
    by (auto simp: update_blob_base_addrs_of_stream_def Let_def i_def bind_sum_Inr_iff)
  let ?xs = "xs @ [BInfo i]" and ?ys = "io_blocks (sp_io sp) @ ys"
  have blocks: "xs @ stream_blocks al (sp\<lparr>sp_info := i, sp_pipes := ps\<rparr>) @ ys = ?xs @ pipe_blocks al ps @ ?ys" for ps
    by (simp add: stream_blocks_def)
  have here: "xs @ stream_blocks al ?sp @ ys = ?xs @ pipe_blocks al ?ps @ ?ys" by (simp add: stream_blocks_def)
  have "room al a (xs @ stream_blocks al ?sp @ ys)"
    using r rep by (simp add: room_def stream_replaced_def ball_Un)
  then have "room al a (?xs @ pipe_blocks al ?ps @ ?ys)" unfolding here .
  moreover have "linked_pipes (a + blocks_size al ?xs) ?ps ?q" using l by (simp add: linked_stream_def Let_def add.assoc)
  moreover have "[0..<length (phase_offsets (sb_info s))] = [] \<or> ?ps \<noteq> []" using l by (auto simp: linked_stream_def Let_def)
  ultimately obtain ps where ps: "ea = alloc_of al a (?xs @ pipe_blocks al ps @ ?ys)" "pipes_alike ?ps ps"
    using pipe_states_updated [OF al] fold unfolding here by blast
  have "stream_replaced al ?b s sp (sp\<lparr>sp_info := i, sp_pipes := ps\<rparr>)"
    using rep pipes_alikeD(2-5) [OF ps(2)] by (simp add: stream_replaced_def linked_stream_def stream_blocks_def Let_def ball_Un)
  then show "\<exists>sp'. ea = alloc_of al a (xs @ stream_blocks al sp' @ ys) \<and> stream_replaced al ?b s sp sp'"
    using ps(1) blocks by metis
qed

section \<open>The addresses of the headers\<close>

lemma state_found:
  assumes al: "al = 32 \<or> al = 64" and "room al a (xs @ state_blocks hw t @ ys)"
  shows "lookup al get_state a (xs @ state_blocks hw t @ ys) (ptr (a + blocks_size al xs)) = Some (fst t)"
  using found(4) [OF al, of a xs "BState (fst t)" "tl (state_blocks hw t) @ ys" _ "fst t"] assms(2)
  by (simp add: state_blocks_def)

lemma state_set:
  assumes al: "al = 32 \<or> al = 64" and "room al a (xs @ state_blocks hw t @ ys)"
  shows "(alloc_of al a (xs @ state_blocks hw t @ ys))\<lparr>ea_dram_io_state :=
      (lookup al get_state a (xs @ state_blocks hw t @ ys))(ptr (a + blocks_size al xs) \<mapsto> d)\<rparr>
    = alloc_of al a (xs @ state_blocks hw (d, snd t) @ ys)"
  using written(4) [OF al refl, of a xs "fst t" "tl (state_blocks hw t) @ ys" d] assms(2)
  by (simp add: state_blocks_def)

lemma linked_states_nonzero:
  assumes al: "al = 32 \<or> al = 64" and "linked_states al b ts q" and "0 < b" and "b + blocks_size al (states_blocks hw ts) \<le> 2 ^ 32"
  shows "q = 0 \<longleftrightarrow> ts = []"
proof (cases ts)
  case (Cons t ts')
  have "0 < blocks_size al (state_blocks hw t)" using sizes_positive [OF al] by (simp add: state_blocks_def)
  then have "unat (ptr b) = b" using assms(4) Cons by (intro unat_ptr) simp
  then show ?thesis using assms(2,3) Cons by auto
qed (use assms in simp)

lemma headers_filled:
  assumes al: "al = 32 \<or> al = 64" and "room al a (xs @ states_blocks hw ts @ ys)" and "linked_states al (a + blocks_size al xs) ts q"
    and "0 < a" and "fill_header_addrs soc allocs h p ns q (alloc_of al a (xs @ states_blocks hw ts @ ys)) = Inr ea"
  shows "\<exists>ts'. ea = alloc_of al a (xs @ states_blocks hw ts' @ ys) \<and> linked_states al (a + blocks_size al xs) ts' q
    \<and> blocks_size al (states_blocks hw ts') = blocks_size al (states_blocks hw ts)
    \<and> (\<forall>b \<in> set (states_blocks hw ts'). block_ok al b)"
  using assms(2-3,5)
proof (induction ts arbitrary: xs q ns)
  case Nil
  then show ?case by (intro exI [of _ "[]"]) (simp add: fill_header_addrs.simps)
next
  case (Cons t ts)
  let ?A = "a + blocks_size al xs"
  have "q \<noteq> 0"
    using linked_states_nonzero [OF al Cons.prems(2), of hw] assms(4) Cons.prems(1) by (simp add: room_def)
  have q: "q = ptr ?A" using Cons.prems(2) by simp
  have r: "room al a (xs @ state_blocks hw t @ states_blocks hw ts @ ys)" using Cons.prems(1) by simp
  note f = state_found [OF al r] state_set [OF al r]
  obtain n ns1 where ns: "ns = n # ns1"
    using Cons.prems(3) \<open>q \<noteq> 0\<close> unfolding fill_header_addrs.simps [of soc allocs h p ns q]
    by (cases ns) (auto simp: bind_sum_Inr_iff)
  let ?d = "if value_or (nc_dram_output n) False \<and> value_or (nc_dram_streaming n) False
            then bind_sum (desired_header_addr soc allocs n) (\<lambda>a.
                   Inr ((fst t)\<lparr>wr_streaming_header_addr := tt_uint64 (get_dram_streaming_header_addr h p a n)\<rparr>))
            else Inr (fst t)"
  have "bind_sum ?d (\<lambda>d1. fill_header_addrs soc allocs h p ns1 (lc_next d1)
      (alloc_of al a (xs @ state_blocks hw (d1, snd t) @ states_blocks hw ts @ ys))) = Inr ea"
    using Cons.prems(3) [unfolded ns, unfolded fill_header_addrs.simps [of soc allocs h p "n # ns1" q]] \<open>q \<noteq> 0\<close> f
    by (simp add: at_ptr_def q split del: if_split)
  then obtain d1 where "?d = Inr d1"
    and rest: "fill_header_addrs soc allocs h p ns1 (lc_next d1) (alloc_of al a (xs @ state_blocks hw (d1, snd t) @ states_blocks hw ts @ ys)) = Inr ea"
    unfolding bind_sum_Inr_iff by blast
  then have d1: "lc_next d1 = lc_next (fst t)" "lc_dram_io_scatter_state d1 = lc_dram_io_scatter_state (fst t)"
    by (auto simp: bind_sum_Inr_iff split: if_splits)
  let ?t = "(d1, snd t)"
  have size: "blocks_size al (state_blocks hw' ?t) = blocks_size al (state_blocks hw' t)" for hw' by (simp add: state_blocks_def)
  have ok: "\<forall>b \<in> set (state_blocks hw ?t). block_ok al b" using r by (simp add: state_blocks_def room_def ball_Un)
  have "room al a ((xs @ state_blocks hw ?t) @ states_blocks hw ts @ ys)" using r size ok by (simp add: room_def ball_Un)
  moreover have "blocks_size al (state_blocks False t) = blocks_size al (state_blocks hw t)"
    using states_size_hw [of al False "[t]" hw] by simp
  then have "linked_states al (a + blocks_size al (xs @ state_blocks hw ?t)) ts (lc_next d1)"
    using Cons.prems(2) d1 size by (simp add: add.assoc)
  ultimately obtain ts' where
    "ea = alloc_of al a ((xs @ state_blocks hw ?t) @ states_blocks hw ts' @ ys)"
    "linked_states al (a + blocks_size al (xs @ state_blocks hw ?t)) ts' (lc_next d1)"
    "blocks_size al (states_blocks hw ts') = blocks_size al (states_blocks hw ts)"
    "\<forall>b \<in> set (states_blocks hw ts'). block_ok al b"
    using Cons.IH rest by (metis append.assoc)
  then show ?case
    using Cons.prems(2) d1 size ok \<open>blocks_size al (state_blocks False t) = blocks_size al (state_blocks hw t)\<close>
    by (intro exI [of _ "?t # ts'"]) (auto simp: add.assoc)
qed

lemma header_addrs_step:
  assumes al: "al = 32 \<or> al = 64" and a: "0 < a"
  shows "stream_step al a streams (fill_header_addrs_of_stream soc allocs h streams)"
  unfolding stream_step_def
proof (intro allI impI)
  fix s xs sp ys ea
  let ?bs = "xs @ stream_blocks al sp @ ys" and ?b = "a + blocks_size al xs"
  assume r: "room al a ?bs" and l: "linked_stream al ?b s sp" and d: "stream_data_of (sp_info sp) streams = Inr s"
    and fill: "fill_header_addrs_of_stream soc allocs h streams (ptr ?b) (alloc_of al a ?bs) = Inr ea"
  let ?xs = "xs @ BInfo (sp_info sp) # pipe_blocks al (sp_pipes sp)"
  have li: "linked_io al (a + blocks_size al ?xs) (sp_io sp) (si_dram_io_info (sp_info sp))"
    using l by (simp add: linked_stream_def Let_def add.assoc)
  show "\<exists>sp'. ea = alloc_of al a (xs @ stream_blocks al sp' @ ys) \<and> stream_replaced al ?b s sp sp'"
  proof (cases "si_dram_io_info (sp_info sp) = 0")
    case True
    then have "ea = alloc_of al a ?bs" using fill info_found [OF al r] d by (auto simp: fill_header_addrs_of_stream_def bind_sum_Inr_iff)
    moreover have "stream_replaced al ?b s sp sp" using l r by (simp add: stream_replaced_def room_def ball_Un)
    ultimately show ?thesis by blast
  next
    case False
    then obtain di ts where io: "sp_io sp = Some (di, ts)" using li by (cases "sp_io sp") (auto simp: linked_io_def)
    have q: "si_dram_io_info (sp_info sp) = ptr (a + blocks_size al ?xs)" using li by (simp add: io linked_io_def)
    let ?hw = "di_hw_tilize di \<noteq> 0" let ?zs = "?xs @ [BDram di]"
    have split: "?bs = ?xs @ BDram di # states_blocks ?hw ts @ ys" by (simp add: stream_blocks_def io_blocks_def io)
    have "lookup al get_dram a ?bs (si_dram_io_info (sp_info sp)) = Some di"
      using found(3) [OF al r [unfolded split] q] unfolding split by simp
    then obtain k p where "fill_header_addrs soc allocs h p (sb_ncriscs s) (di_dram_io_state di) (alloc_of al a ?bs) = Inr ea"
      using fill info_found [OF al r] d False by (auto simp: fill_header_addrs_of_stream_def bind_sum_Inr_iff)
    moreover have eq: "?bs = ?zs @ states_blocks ?hw ts @ ys" using split by simp
    moreover have "linked_states al (a + blocks_size al ?zs) ts (di_dram_io_state di)"
      using li by (simp add: io linked_io_def add.assoc)
    ultimately obtain ts' where ts': "ea = alloc_of al a (?zs @ states_blocks ?hw ts' @ ys)"
      "linked_states al (a + blocks_size al ?zs) ts' (di_dram_io_state di)"
      "blocks_size al (states_blocks ?hw ts') = blocks_size al (states_blocks ?hw ts)" "\<forall>b \<in> set (states_blocks ?hw ts'). block_ok al b"
      using headers_filled [OF al _ _ a] r by metis
    let ?sp = "sp\<lparr>sp_io := Some (di, ts')\<rparr>"
    have "ea = alloc_of al a (xs @ stream_blocks al ?sp @ ys)" using ts'(1) by (simp add: stream_blocks_def io_blocks_def)
    moreover have "stream_replaced al ?b s sp ?sp"
      using l r ts'(2-4) by (simp add: stream_replaced_def linked_stream_def stream_blocks_def io_blocks_def linked_io_def io Let_def
          room_def ball_Un add.assoc)
    ultimately show ?thesis by blast
  qed
qed

end
