(* ===== verification/EpochSection.thy ===== *)
theory EpochSection
  imports EpochSecondPass
begin

text \<open>
  The section of the epoch (\<open>blob_filler.cpp\<close>): following the pointers from the epoch writes the blocks of the
  allocator in the order of their addresses.
\<close>

section \<open>Blocks written\<close>

definition fits :: "nat \<Rightarrow> nat \<Rightarrow> block list \<Rightarrow> bool" where
  "fits al a bs \<longleftrightarrow> (al = 32 \<or> al = 64) \<and> 0 < a \<and> room al a bs \<and> a + blocks_size al bs + 512 \<le> 2 ^ 32"

text \<open>The section holds the bytes of the blocks so far.\<close>

definition holds_blocks :: "nat \<Rightarrow> block list \<Rightarrow> blob_section \<Rightarrow> bool" where
  "holds_blocks al xs s \<longleftrightarrow> length (bs_data s) = blocks_size al xs \<and> blocks_size al xs mod al = 0"

lemma fits_al: "fits al a bs \<Longrightarrow> al = 32 \<or> al = 64"
  by (simp add: fits_def)

lemma fits_room: "fits al a bs \<Longrightarrow> room al a bs"
  by (simp add: fits_def)

lemma holds_blocks_append:
  assumes "fits al a (xs @ bs @ ys)" and "holds_blocks al xs s" and "blocks_size al bs mod al = 0"
    and "bs_data s' = bs_data s @ blocks_bytes al bs"
  shows "holds_blocks al (xs @ bs) s'"
  using assms length_blocks_bytes [OF fits_al [OF assms(1)], of bs]
  by (auto simp: holds_blocks_def fits_def room_def ball_Un mod_add_eq [symmetric])

lemma holds_room:
  assumes "fits al a (xs @ bs @ ys)" and "holds_blocks al xs s" and "al = unat alignment"
  shows "length (bs_data s) mod unat alignment = 0" "length (bs_data s) + blocks_size al bs + 512 \<le> 2 ^ 32"
    "length (bs_data s) + 512 \<le> 2 ^ 32" "length (bs_data s) mod 4 = 0" "alignment = 32 \<or> alignment = 64"
proof -
  show m: "length (bs_data s) mod unat alignment = 0" using assms by (simp add: holds_blocks_def)
  show "length (bs_data s) + blocks_size al bs + 512 \<le> 2 ^ 32" "length (bs_data s) + 512 \<le> 2 ^ 32"
    using assms by (simp_all add: holds_blocks_def fits_def)
  have "4 dvd unat alignment" using fits_al [OF assms(1)] assms(3) by auto
  then show "length (bs_data s) mod 4 = 0" using m by (metis dvd_trans mod_0_imp_dvd dvd_imp_mod_0)
  show "alignment = 32 \<or> alignment = 64"
  proof -
    have "alignment = word_of_nat al" using assms(3) by simp
    then show ?thesis using fits_al [OF assms(1)] by auto
  qed
qed

section \<open>The states of the buffers\<close>

lemma scatter_written:
  assumes f: "fits al a (xs @ [BScatter sc, BOffsets hw qs] @ ys)" and al: "al = unat alignment" and s: "holds_blocks al xs s"
    and l: "linked_scatter al (a + blocks_size al xs) (Some (sc, qs)) q"
  shows "appends (blocks_bytes al [BScatter sc, BOffsets hw qs]) s
    (add_scatter_state alignment (alloc_of al a (xs @ [BScatter sc, BOffsets hw qs] @ ys)) hw q s)"
proof -
  let ?bs = "xs @ [BScatter sc, BOffsets hw qs] @ ys" and ?A = "a + blocks_size al xs"
  let ?mid = "xs @ [BScatter sc]"
  have alcase: "al = 32 \<or> al = 64" by (rule fits_al [OF f])
  note h = holds_room [OF f s al]
  have q: "q = ptr ?A" and o: "ss_scatter_offsets sc = ptr (a + blocks_size al ?mid)" and len: "unat (ss_scatter_offsets_size sc) = length qs"
    using l by (simp_all add: add.assoc)
  have "unat (ptr ?A) = ?A" using f by (intro unat_ptr) (simp add: fits_def)
  then have "q \<noteq> 0" using f q by (auto simp: fits_def)
  have r1: "room al a (xs @ BScatter sc # BOffsets hw qs # ys)" and r2: "room al a (?mid @ BOffsets hw qs # ys)"
    using fits_room [OF f] by simp_all
  have f1: "lookup al get_scatter a ?bs q = Some sc" using found(5) [OF alcase r1 q] by simp
  have f2: "lookup al get_offsets a ?bs (ss_scatter_offsets sc) = Some qs" using found(6) [OF alcase r2 o] by simp
  have "appends (block_bytes al (BScatter sc) @ block_bytes al (BOffsets hw qs)) s
    (bind_sum (add_dram_io_scatter_state_t alignment sc s) (add_dram_io_scatter_offsets alignment qs hw))"
  proof (rule appends_bind)
    show "appends (block_bytes al (BScatter sc)) s (add_dram_io_scatter_state_t alignment sc s)"
      using add_dram_io_scatter_state_t_appends [OF h(5,1,3)] al by simp
    fix s' :: blob_section assume s': "bs_data s' = bs_data s @ block_bytes al (BScatter sc)"
    have "fits al a (xs @ [BScatter sc] @ BOffsets hw qs # ys)" using f by simp
    then have h': "holds_blocks al ?mid s'"
      using holds_blocks_append [of al a xs "[BScatter sc]" "BOffsets hw qs # ys" s s'] s s' sizes_aligned [OF alcase] by simp
    have f': "fits al a (?mid @ [BOffsets hw qs] @ ys)" using f by simp
    have "8 * length qs \<le> round_up (8 * length qs) al" using alcase round_up_le [of al "8 * length qs"] by auto
    then show "appends (block_bytes al (BOffsets hw qs)) s' (add_dram_io_scatter_offsets alignment qs hw s')"
      using add_dram_io_scatter_offsets_appends [OF holds_room(5,1) [OF f' h' al], of qs hw] holds_room(2) [OF f' h' al] al by simp
  qed
  then show ?thesis using f1 f2 len \<open>q \<noteq> 0\<close> by (simp add: add_scatter_state_def at_ptr_def)
qed

lemma state_written:
  assumes f: "fits al a (xs @ state_blocks hw t @ ys)" and al: "al = unat alignment" and s: "holds_blocks al xs s"
    and l: "linked_scatter al (a + blocks_size al xs + sizeof_dram_io_state al) (snd t) (lc_dram_io_scatter_state (fst t))"
  shows "appends (blocks_bytes al (state_blocks hw t)) s (add_io_state alignment (alloc_of al a (xs @ state_blocks hw t @ ys)) hw (fst t) s)"
proof -
  let ?rest = "tl (state_blocks hw t)" let ?mid = "xs @ [BState (fst t)]"
  have alcase: "al = 32 \<or> al = 64" by (rule fits_al [OF f])
  note h = holds_room [OF f s al]
  have "appends (block_bytes al (BState (fst t)) @ blocks_bytes al ?rest) s
    (add_io_state alignment (alloc_of al a (xs @ state_blocks hw t @ ys)) hw (fst t) s)"
    unfolding add_io_state_def
  proof (rule appends_bind)
    show "appends (block_bytes al (BState (fst t))) s (add_dram_io_state_t alignment (fst t) s)"
      using add_dram_io_state_t_appends [OF h(5,1,3)] al by simp
    fix s' :: blob_section assume s': "bs_data s' = bs_data s @ block_bytes al (BState (fst t))"
    have "fits al a (xs @ [BState (fst t)] @ ?rest @ ys)" using f by (simp add: state_blocks_def)
    then have h': "holds_blocks al ?mid s'"
      using holds_blocks_append [of al a xs "[BState (fst t)]" "?rest @ ys" s s'] s s' sizes_aligned [OF alcase] by simp
    show "appends (blocks_bytes al ?rest) s' (add_scatter_state alignment (alloc_of al a (xs @ state_blocks hw t @ ys)) hw
        (lc_dram_io_scatter_state (fst t)) s')"
    proof (cases "snd t")
      case None
      then show ?thesis using l by (simp add: state_blocks_def add_scatter_state_def appends_Nil)
    next
      case (Some x)
      obtain sc qs where x: "x = (sc, qs)" by (cases x)
      have e: "xs @ state_blocks hw t @ ys = ?mid @ [BScatter sc, BOffsets hw qs] @ ys" by (simp add: state_blocks_def Some x)
      have "linked_scatter al (a + blocks_size al ?mid) (Some (sc, qs)) (lc_dram_io_scatter_state (fst t))"
        using l by (simp add: Some x add.assoc)
      from scatter_written [OF f [unfolded e] al h' this] show ?thesis
        unfolding e by (simp add: state_blocks_def Some x)
    qed
  qed
  moreover have "state_blocks hw t = BState (fst t) # ?rest" by (simp add: state_blocks_def)
  then have "blocks_bytes al (state_blocks hw t) = block_bytes al (BState (fst t)) @ blocks_bytes al ?rest" by (metis blocks_simps(5))
  ultimately show ?thesis by simp
qed

text \<open>The loop ends and appends.\<close>

definition ends_with :: "8 word list \<Rightarrow> blob_section \<Rightarrow> (blob_error + blob_section) option \<Rightarrow> bool" where
  "ends_with bytes s r \<longleftrightarrow> (\<exists>s'. r = Some (Inr s') \<and> bs_address s' = bs_address s \<and> bs_data s' = bs_data s @ bytes)"

lemma ends_withI: "appends bytes s r \<Longrightarrow> ends_with bytes s (Some r)"
  by (auto simp: appends_def ends_with_def)

lemma states_written:
  assumes "fits al a (xs @ states_blocks hw ts @ ys)" and al: "al = unat alignment" and "holds_blocks al xs s"
    and "linked_states al (a + blocks_size al xs) ts q"
  shows "ends_with (blocks_bytes al (states_blocks hw ts)) s
    (add_io_states alignment (alloc_of al a (xs @ states_blocks hw ts @ ys)) hw q s)"
  using assms(1,3,4)
proof (induction ts arbitrary: xs s q)
  case Nil
  then show ?case by (simp add: add_io_states.simps ends_with_def)
next
  case (Cons t ts)
  let ?A = "a + blocks_size al xs" and ?ea = "alloc_of al a (xs @ states_blocks hw (t # ts) @ ys)"
  have alcase: "al = 32 \<or> al = 64" by (rule fits_al [OF Cons.prems(1)])
  have f: "fits al a (xs @ state_blocks hw t @ states_blocks hw ts @ ys)" using Cons.prems(1) by simp
  have "q \<noteq> 0"
    using linked_states_nonzero [OF alcase Cons.prems(3), of hw] Cons.prems(1) by (simp add: fits_def)
  have q: "q = ptr ?A" using Cons.prems(3) by simp
  have d: "ea_dram_io_state ?ea q = Some (fst t)"
    using state_found [OF alcase, of a xs hw t "states_blocks hw ts @ ys"] fits_room [OF f] q by simp
  obtain s1 where s1: "add_io_state alignment ?ea hw (fst t) s = Inr s1" "bs_address s1 = bs_address s"
    "bs_data s1 = bs_data s @ blocks_bytes al (state_blocks hw t)"
    using state_written [OF f al Cons.prems(2)] Cons.prems(3) by (auto simp: appends_def)
  have "blocks_size al (state_blocks hw t) mod al = 0" using states_blocks_aligned [OF alcase, of hw "[t]"] by simp
  then have "holds_blocks al (xs @ state_blocks hw t) s1" using holds_blocks_append [OF f Cons.prems(2) _ s1(3)] by simp
  moreover have "fits al a ((xs @ state_blocks hw t) @ states_blocks hw ts @ ys)" using f by simp
  moreover have "blocks_size al (state_blocks False t) = blocks_size al (state_blocks hw t)"
    using states_size_hw [of al False "[t]" hw] by simp
  then have "linked_states al (a + blocks_size al (xs @ state_blocks hw t)) ts (lc_next (fst t))"
    using Cons.prems(3) by (simp add: add.assoc)
  ultimately have "ends_with (blocks_bytes al (states_blocks hw ts)) s1 (add_io_states alignment ?ea hw (lc_next (fst t)) s1)"
    using Cons.IH [of "xs @ state_blocks hw t" s1 "lc_next (fst t)"] by simp
  then show ?case using s1 d \<open>q \<noteq> 0\<close> by (subst add_io_states.simps) (auto simp: ends_with_def)
qed


section \<open>The arrays of the scatter indices\<close>

lemma blobs_written:
  assumes al: "al = 32 \<or> al = 64" and "room al a (xs @ blob_blocks ps @ ys)" and "length (bs_data s) mod 4 = 0"
    and "linked_blobs (a + blocks_size al xs) ps"
  shows "appends (blocks_bytes al (blob_blocks ps)) s
    (fold_sum (\<lambda>st s. bind_sum (at_ptr (ps_unroll_blobs st) (ea_pipe_blob (alloc_of al a (xs @ blob_blocks ps @ ys)))) (\<lambda>bs.
                        if length bs < unat (ps_max_unroll st) then Inl BlobUndefined
                        else add_scatter_pipe_blobs (take (unat (ps_max_unroll st)) bs) s)) (map fst ps) s)"
  using assms(2-)
proof (induction ps arbitrary: xs s)
  case Nil
  then show ?case by (simp add: appends_Nil)
next
  case (Cons p ps)
  obtain st bs where p: "p = (st, bs)" by (cases p)
  let ?ea = "alloc_of al a (xs @ blob_blocks (p # ps) @ ys)"
  have q: "ps_unroll_blobs st = ptr (a + blocks_size al xs)" and n: "unat (ps_max_unroll st) = length bs"
    using Cons.prems(3) by (simp_all add: p)
  have r: "room al a (xs @ BBlobs bs # blob_blocks ps @ ys)" using Cons.prems(1) by (simp add: p)
  have f: "ea_pipe_blob ?ea (ps_unroll_blobs st) = Some bs" using found(8) [OF al r q] by (simp add: p)
  show ?case
    unfolding p blob_blocks_simps blocks_simps fst_conv snd_conv list.map fold_sum.simps
  proof (rule appends_bind)
    show "appends (block_bytes al (BBlobs bs)) s
        (bind_sum (at_ptr (ps_unroll_blobs st) (ea_pipe_blob (alloc_of al a (xs @ (BBlobs bs # blob_blocks ps) @ ys)))) (\<lambda>bs.
           if length bs < unat (ps_max_unroll st) then Inl BlobUndefined else add_scatter_pipe_blobs (take (unat (ps_max_unroll st)) bs) s))"
      using add_scatter_pipe_blobs_appends [OF Cons.prems(2), of bs] f n by (simp add: at_ptr_def p)
    fix s' :: blob_section assume s': "bs_data s' = bs_data s @ block_bytes al (BBlobs bs)"
    have "length (bs_data s') mod 4 = 0" using s' Cons.prems(2) by (simp add: length_pipe_images mod_add_eq [symmetric])
    moreover have "room al a ((xs @ [BBlobs bs]) @ blob_blocks ps @ ys)" using r by simp
    moreover have "linked_blobs (a + blocks_size al (xs @ [BBlobs bs])) ps" using Cons.prems(3) by (simp add: p add.assoc)
    ultimately show "appends (blocks_bytes al (blob_blocks ps)) s'
      (fold_sum (\<lambda>st s. bind_sum (at_ptr (ps_unroll_blobs st) (ea_pipe_blob (alloc_of al a (xs @ (BBlobs bs # blob_blocks ps) @ ys)))) (\<lambda>bs.
           if length bs < unat (ps_max_unroll st) then Inl BlobUndefined else add_scatter_pipe_blobs (take (unat (ps_max_unroll st)) bs) s))
        (map fst ps) s')"
      using Cons.IH [of "xs @ [BBlobs bs]" s'] by simp
  qed
qed

lemma pipes_written:
  assumes f: "fits al a (xs @ pipe_blocks al ps @ ys)" and al: "al = unat alignment" and s: "holds_blocks al xs s"
    and l: "linked_pipes (a + blocks_size al xs) ps q"
  shows "appends (blocks_bytes al (pipe_blocks al ps)) s
    (add_pipe_states alignment (alloc_of al a (xs @ pipe_blocks al ps @ ys)) q (length ps) s)"
proof (cases "ps = []")
  case True
  then show ?thesis by (simp add: add_pipe_states_def pipe_blocks_def appends_Nil)
next
  case False
  let ?pad = "BPad (round_up (pipes_size ps) al - pipes_size ps)" and ?ea = "alloc_of al a (xs @ pipe_blocks al ps @ ys)"
  have alcase: "al = 32 \<or> al = 64" by (rule fits_al [OF f])
  note h = holds_room [OF f s al]
  have blocks: "pipe_blocks al ps = BPipes (map fst ps) # blob_blocks ps @ [?pad]" using False by (simp add: pipe_blocks_def)
  have e: "xs @ pipe_blocks al ps @ ys = xs @ BPipes (map fst ps) # blob_blocks ps @ ?pad # ys"
    "xs @ pipe_blocks al ps @ ys = (xs @ [BPipes (map fst ps)]) @ blob_blocks ps @ ?pad # ys" by (simp_all add: blocks)
  have q: "q = ptr (a + blocks_size al xs)" and lb: "linked_blobs (a + blocks_size al (xs @ [BPipes (map fst ps)])) ps"
    using l False by (simp_all add: linked_pipes_def add.assoc)
  have fd: "ea_pipe_state ?ea q = Some (map fst ps)"
    using found(7) [OF alcase fits_room [OF f, unfolded e(1)] q] by (simp add: e(1))
  have "0 < al" using alcase by auto
  have psize: "pipes_size ps = 16 * length ps + blocks_size al (blob_blocks ps)" by (simp add: pipes_size_def pipes_size_blobs)
  have up: "pipes_size ps \<le> round_up (pipes_size ps) al" "round_up (pipes_size ps) al < pipes_size ps + al"
    using round_up_le [OF \<open>0 < al\<close>] by blast+
  let ?fold = "fold_sum (\<lambda>st s. bind_sum (at_ptr (ps_unroll_blobs st) (ea_pipe_blob ?ea)) (\<lambda>bs.
                        if length bs < unat (ps_max_unroll st) then Inl BlobUndefined
                        else add_scatter_pipe_blobs (take (unat (ps_max_unroll st)) bs) s)) (map fst ps)"
  have "appends (pipe_states_image (map fst ps) @ blocks_bytes al (blob_blocks ps)) s
      (bind_sum (add_scatter_pipe_states (map fst ps) s) ?fold)"
  proof (rule appends_bind [OF add_scatter_pipe_states_appends [OF h(4)]])
    fix s' :: blob_section assume "bs_data s' = bs_data s @ pipe_states_image (map fst ps)"
    then have "length (bs_data s') mod 4 = 0" using h(4) by (simp add: length_pipe_images mod_add_eq [symmetric])
    from blobs_written [OF alcase fits_room [OF f, unfolded e(2)] this lb]
    show "appends (blocks_bytes al (blob_blocks ps)) s' (?fold s')" by (simp only: e(2))
  qed
  then obtain s2 where s2: "bind_sum (add_scatter_pipe_states (map fst ps) s) ?fold = Inr s2" "bs_address s2 = bs_address s"
    "bs_data s2 = bs_data s @ pipe_states_image (map fst ps) @ blocks_bytes al (blob_blocks ps)"
    by (auto simp: appends_def)
  have ok: "\<forall>b \<in> set (blob_blocks ps). block_ok al b" using fits_room [OF f] by (simp add: blocks room_def ball_Un)
  have len2: "length (bs_data s2) = length (bs_data s) + pipes_size ps"
    using s2(3) length_blocks_bytes [OF alcase ok] by (simp add: length_pipe_images psize)
  have "length (bs_data s) + blocks_size al (pipe_blocks al ps) + 512 \<le> 2 ^ 32" by (rule h)
  then have r2: "length (bs_data s2) + unat alignment \<le> 2 ^ 32"
    using len2 up False alcase \<open>al = unat alignment\<close> by (auto simp: pipe_blocks_aligned)
  have a0: "0 < unat alignment" using \<open>0 < al\<close> al by simp
  have "round_up (length (bs_data s2)) (unat alignment) - length (bs_data s2) = round_up (pipes_size ps) al - pipes_size ps"
    using round_up_shift [OF h(1) a0, of "pipes_size ps"] len2 al by simp
  then have "appends (blocks_bytes al (pipe_blocks al ps)) s (Inr (pad_to_noc_alignment alignment s2))"
    using pad_to_noc_alignment_data [OF a0 r2] s2 by (simp add: appends_def blocks)
  moreover have "add_pipe_states alignment ?ea q (length ps) s = Inr (pad_to_noc_alignment alignment s2)"
    using fd s2(1) False by (auto simp: add_pipe_states_def at_ptr_def bind_sum_Inr_iff bind_sum_assoc [symmetric])
  ultimately show ?thesis by simp
qed

section \<open>A stream\<close>

lemma io_written:
  assumes f: "fits al a (xs @ io_blocks io @ ys)" and al: "al = unat alignment" and s: "holds_blocks al xs s"
    and l: "linked_io al (a + blocks_size al xs) io q"
  shows "ends_with (blocks_bytes al (io_blocks io)) s (add_dram_io alignment (alloc_of al a (xs @ io_blocks io @ ys)) q s)"
proof (cases io)
  case None
  then show ?thesis using l by (simp add: add_dram_io_def io_blocks_def linked_io_def ends_with_def)
next
  case (Some x)
  obtain d ts where x: "x = (d, ts)" by (cases x)
  let ?hw = "di_hw_tilize d \<noteq> 0" let ?ea = "alloc_of al a (xs @ io_blocks io @ ys)" and ?A = "a + blocks_size al xs"
  have alcase: "al = 32 \<or> al = 64" by (rule fits_al [OF f])
  note h = holds_room [OF f s al]
  have e: "xs @ io_blocks io @ ys = xs @ BDram d # states_blocks ?hw ts @ ys" by (simp add: io_blocks_def Some x)
  have q: "q = ptr ?A" using l by (simp add: Some x linked_io_def)
  have "unat (ptr ?A) = ?A" using f by (intro unat_ptr) (simp add: fits_def)
  then have "q \<noteq> 0" using f q by (auto simp: fits_def)
  have fd: "ea_dram_io_info ?ea q = Some d" using found(3) [OF alcase fits_room [OF f, unfolded e] q] by (simp add: e)
  obtain s1 where s1: "add_epoch_stream_dram_io_info_t alignment d s = Inr s1" "bs_address s1 = bs_address s"
    "bs_data s1 = bs_data s @ blocks_bytes al [BDram d]"
    using add_epoch_stream_dram_io_info_t_appends [OF h(5,1,3), of d] al by (auto simp: appends_def)
  have f': "fits al a ((xs @ [BDram d]) @ states_blocks ?hw ts @ ys)" "fits al a (xs @ [BDram d] @ states_blocks ?hw ts @ ys)"
    using f by (simp_all add: e)
  have "holds_blocks al (xs @ [BDram d]) s1"
    using holds_blocks_append [OF f'(2) s _ s1(3)] sizes_aligned [OF alcase] by simp
  from states_written [OF f'(1) al this] l
  have "ends_with (blocks_bytes al (states_blocks ?hw ts)) s1 (add_io_states alignment ?ea ?hw (di_dram_io_state d) s1)"
    by (simp add: e Some x linked_io_def io_blocks_def add.assoc)
  then show ?thesis using fd s1 \<open>q \<noteq> 0\<close> by (auto simp: add_dram_io_def ends_with_def io_blocks_def Some x)
qed

lemma stream_written:
  assumes f: "fits al a (xs @ stream_blocks al sp @ ys)" and al: "al = unat alignment" and s: "holds_blocks al xs s"
    and l: "linked_stream al (a + blocks_size al xs) d sp" and d: "stream_data_of (sp_info sp) streams = Inr d"
  shows "ends_with (blocks_bytes al (stream_blocks al sp)) s
    (add_stream alignment (alloc_of al a (xs @ stream_blocks al sp @ ys)) streams (ptr (a + blocks_size al xs)) s)"
proof -
  let ?ea = "alloc_of al a (xs @ stream_blocks al sp @ ys)"
  let ?i = "[BInfo (sp_info sp)]" and ?p = "pipe_blocks al (sp_pipes sp)" and ?o = "io_blocks (sp_io sp)"
  have alcase: "al = 32 \<or> al = 64" by (rule fits_al [OF f])
  note h = holds_room [OF f s al]
  have fork: "length (si_fork_idxs (sp_info sp)) = 16" using fits_room [OF f] by (simp add: room_def stream_blocks_def)
  have e: "xs @ stream_blocks al sp @ ys = xs @ ?i @ ?p @ ?o @ ys" "xs @ stream_blocks al sp @ ys = (xs @ ?i) @ ?p @ ?o @ ys"
    "xs @ stream_blocks al sp @ ys = (xs @ ?i @ ?p) @ ?o @ ys" by (simp_all add: stream_blocks_def)
  have fd: "ea_stream_info ?ea (ptr (a + blocks_size al xs)) = Some (sp_info sp)" using info_found [OF alcase fits_room [OF f]] by simp
  obtain s1 where s1: "add_epoch_stream_info_t alignment (sp_info sp) s = Inr s1" "bs_address s1 = bs_address s"
    "bs_data s1 = bs_data s @ blocks_bytes al ?i"
    using add_epoch_stream_info_t_appends [OF h(5) fork h(1,3)] al by (auto simp: appends_def)
  have h1: "holds_blocks al (xs @ ?i) s1"
    using holds_blocks_append [OF f [unfolded e(1)] s _ s1(3)] sizes_aligned [OF alcase] by simp
  have l1: "linked_pipes (a + blocks_size al (xs @ ?i)) (sp_pipes sp) (si_skip_col_tile_row_bytes (sp_info sp))"
    "linked_io al (a + blocks_size al (xs @ ?i @ ?p)) (sp_io sp) (si_dram_io_info (sp_info sp))"
    using l by (simp_all add: linked_stream_def Let_def add.assoc)
  obtain s2 where s2: "add_pipe_states alignment ?ea (si_skip_col_tile_row_bytes (sp_info sp)) (length (sp_pipes sp)) s1 = Inr s2"
    "bs_address s2 = bs_address s1" "bs_data s2 = bs_data s1 @ blocks_bytes al ?p"
    using pipes_written [OF f [unfolded e(2)] al h1 l1(1)] by (auto simp: appends_def e(2))
  have "blocks_size al ?p mod al = 0" using alcase by (subst pipe_blocks_aligned) (auto simp: round_up_mod)
  then have "holds_blocks al ((xs @ ?i) @ ?p) s2" using holds_blocks_append [OF f [unfolded e(2)] h1 _ s2(3)] by simp
  then have h2: "holds_blocks al (xs @ ?i @ ?p) s2" by simp
  have "ends_with (blocks_bytes al ?o) s2 (add_dram_io alignment ?ea (si_dram_io_info (sp_info sp)) s2)"
    using io_written [OF f [unfolded e(3)] al h2 l1(2)] by (simp add: e(3))
  moreover have "length (phase_offsets (sb_info d)) = length (sp_pipes sp)" using l by (simp add: linked_stream_def Let_def)
  ultimately show ?thesis
    using s1 s2 fd d by (auto simp: add_stream_def at_ptr_def ends_with_def stream_blocks_def)
qed

lemma streams_written:
  assumes "fits al a (xs @ streams_blocks al sps @ ys)" and al: "al = unat alignment" and "holds_blocks al xs s"
    and "linked_streams al (a + blocks_size al xs) todo sps" and "streams_ok streams" and "set todo \<subseteq> set streams"
  shows "ends_with (blocks_bytes al (streams_blocks al sps)) s
    (add_streams alignment (alloc_of al a (xs @ streams_blocks al sps @ ys)) streams (stream_ptrs al (a + blocks_size al xs) sps) s)"
  using assms(1,3,4,6)
proof (induction todo arbitrary: xs s sps)
  case Nil
  then show ?case by (simp add: ends_with_def)
next
  case (Cons t todo)
  let ?A = "a + blocks_size al xs"
  obtain sp sps0 where sps: "sps = sp # sps0" and l: "linked_stream al ?A (snd t) sp"
    and ls: "linked_streams al (?A + blocks_size al (stream_blocks al sp)) todo sps0"
    using Cons.prems(3) by (auto split: list.splits)
  let ?ea = "alloc_of al a (xs @ streams_blocks al sps @ ys)"
  have f: "fits al a (xs @ stream_blocks al sp @ streams_blocks al sps0 @ ys)" using Cons.prems(1) by (simp add: sps)
  have alcase: "al = 32 \<or> al = 64" by (rule fits_al [OF f])
  have "t \<in> set streams" using Cons.prems(4) by simp
  note d = stream_data_found [OF assms(5) this l]
  obtain s1 where s1: "add_stream alignment ?ea streams (ptr ?A) s = Some (Inr s1)" "bs_address s1 = bs_address s"
    "bs_data s1 = bs_data s @ blocks_bytes al (stream_blocks al sp)"
    using stream_written [OF f al Cons.prems(2) l d] by (auto simp: ends_with_def sps)
  have "holds_blocks al (xs @ stream_blocks al sp) s1"
    using holds_blocks_append [OF f Cons.prems(2) _ s1(3)] stream_blocks_aligned [OF alcase] by simp
  moreover have "fits al a ((xs @ stream_blocks al sp) @ streams_blocks al sps0 @ ys)" using f by simp
  moreover have "linked_streams al (a + blocks_size al (xs @ stream_blocks al sp)) todo sps0" using ls by (simp add: add.assoc)
  ultimately have "ends_with (blocks_bytes al (streams_blocks al sps0)) s1
      (add_streams alignment ?ea streams (stream_ptrs al (?A + blocks_size al (stream_blocks al sp)) sps0) s1)"
    using Cons.IH [of "xs @ stream_blocks al sp" sps0 s1] Cons.prems(4) by (simp add: sps add.assoc)
  then show ?case using s1 by (auto simp: sps ends_with_def)
qed

section \<open>A core\<close>

lemma core_written:
  assumes "core_linked al a streams e sps" and al: "al = unat alignment" "alignment = noc_address_alignment soc"
    and alcase: "al = 32 \<or> al = 64" and a: "0 < a" "a + epoch_size_of al streams + 512 \<le> 2 ^ 32"
    and start: "get_overlay_start_address soc core_id = ptr a" and ok: "streams_ok streams" and s: "bs_data s = []"
  shows "ends_with (blocks_bytes al (core_blocks al e sps)) s
    (fill_epoch_section soc core_id (alloc_of al a (core_blocks al e sps)) streams s)"
proof -
  have room: "a + epoch_size_of al streams \<le> 2 ^ 32" using a(2) by simp
  have f: "fits al a (core_blocks al e sps)"
    using assms(1) core_room [OF assms(1) room] alcase a by (simp add: fits_def core_linked_def)
  have e_ok: "epoch_t_ok (unat alignment) e" using assms(1) al by (simp add: core_linked_def core_blocks_def)
  have "alignment = 32 \<or> alignment = 64"
    using holds_room(5) [of al a "[]" "core_blocks al e sps" "[]" s alignment] f al s by (simp add: holds_blocks_def)
  from add_epoch_t_appends [OF this e_ok, of s] s
  obtain s1 where s1: "add_epoch_t alignment e s = Inr s1" "bs_address s1 = bs_address s" "bs_data s1 = bs_data s @ blocks_bytes al [BEpoch e]"
    using al by (auto simp: appends_def)
  have f': "fits al a ([] @ [BEpoch e] @ streams_blocks al sps)" "fits al a ([BEpoch e] @ streams_blocks al sps @ [])"
    using f by (simp_all add: core_blocks_def)
  have "holds_blocks al ([] @ [BEpoch e]) s1"
    by (rule holds_blocks_append [OF f'(1) _ _ s1(3)]) (use s sizes_aligned [OF alcase] in \<open>simp_all add: holds_blocks_def\<close>)
  then have "ends_with (blocks_bytes al (streams_blocks al sps)) s1
      (add_streams alignment (alloc_of al a (core_blocks al e sps)) streams (active_ptrs e) s1)"
    using streams_written [OF f'(2) al(1) _ _ ok order_refl] assms(1) core_active_ptrs [OF alcase assms(1) room]
    by (simp add: core_blocks_def core_linked_def)
  then show ?thesis
    using s1 epoch_found [OF alcase assms(1) room start] al(2)
    by (auto simp: fill_epoch_section_def ends_with_def core_blocks_def)
qed


section \<open>The whole builder\<close>

lemma map_sum_keyed:
  assumes "map_sum f e = Inr r" and "\<And>x y. x \<in> set e \<Longrightarrow> f x = Inr y \<Longrightarrow> fst y = fst x"
  shows "map fst r = map fst e \<and> (\<forall>x \<in> set e. \<exists>y \<in> set r. f x = Inr y)"
  using assms by (induction e arbitrary: r) (force simp: bind_sum_Inr_iff)+

lemma each_core_one:
  assumes "each_core f e allocs = Inr allocs'" and "distinct (map fst e)" and "(c, streams) \<in> set e" and "map_of allocs c = Some ea"
  shows "\<exists>allocs0 ea'. f allocs0 c streams ea = Inr ea' \<and> map_of allocs' c = Some ea'"
proof -
  have upd: "map_of (map (\<lambda>(k, x). (k, if k = c' then ea1 else x)) as) k
      = (if k = c' then map_option (\<lambda>_. ea1) (map_of as k) else map_of as k)" for as :: epoch_allocators and c' ea1 k
    by (induction as) auto
  let ?g = "\<lambda>(core_id, streams) allocs. bind_sum (at core_id allocs) (\<lambda>ea. bind_sum (f allocs core_id streams ea) (\<lambda>ea1.
         Inr (map (\<lambda>(c, x). (c, if c = core_id then ea1 else x)) allocs)))"
  have other: "fold_sum ?g es as = Inr as' \<Longrightarrow> c \<notin> fst ` set es \<Longrightarrow> map_of as' c = map_of as c" for es as as'
    by (induction es arbitrary: as) (auto simp: bind_sum_Inr_iff upd split: prod.splits)
  obtain pre post where e: "e = pre @ (c, streams) # post" using split_list [OF assms(3)] by blast
  have notin: "c \<notin> fst ` set pre" "c \<notin> fst ` set post" using assms(2) e by (auto simp: image_iff)
  obtain as1 as2 where s1: "fold_sum ?g pre allocs = Inr as1" and s2: "?g (c, streams) as1 = Inr as2" and s3: "fold_sum ?g post as2 = Inr allocs'"
    using assms(1) by (auto simp: each_core_def e fold_sum_append bind_sum_Inr_iff)
  have "map_of as1 c = Some ea" using other [OF s1 notin(1)] assms(4) by simp
  moreover obtain ea0 ea' where "map_of as1 c = Some ea0" "f as1 c streams ea0 = Inr ea'"
    "as2 = map (\<lambda>(k, x). (k, if k = c then ea' else x)) as1"
    using s2 by (auto simp: bind_sum_Inr_iff at_def split: option.splits)
  ultimately show ?thesis using other [OF s3 notin(2)] upd [of c ea' as1 c] by auto
qed

text \<open>The last step changes the instructions of the phases only.\<close>

definition streams_alike :: "core_blob_data \<Rightarrow> core_blob_data \<Rightarrow> bool" where
  "streams_alike ss ts \<longleftrightarrow> list_all2 (\<lambda>s t. fst s = fst t \<and> sb_stream_id (snd s) = sb_stream_id (snd t)
     \<and> sb_phases (snd s) = sb_phases (snd t) \<and> sb_ncriscs (snd s) = sb_ncriscs (snd t) \<and> phase_offsets (sb_info (snd s)) = phase_offsets (sb_info (snd t))) ss ts"

lemma alike_streams_ok: "streams_alike ss ts \<Longrightarrow> streams_ok ss \<Longrightarrow> streams_ok ts"
proof -
  assume l: "streams_alike ss ts" and ok: "streams_ok ss"
  have "map fst ts = map fst ss" using l unfolding streams_alike_def by (induction rule: list_all2_induct) auto
  moreover have "list_all2 (\<lambda>s t. stream_ok s \<longleftrightarrow> stream_ok t) ss ts"
    by (rule list_all2_mono [OF l [unfolded streams_alike_def]]) (simp add: stream_ok_def)
  then have "(\<forall>t \<in> set ss. stream_ok t) \<longleftrightarrow> (\<forall>t \<in> set ts. stream_ok t)" by (induction rule: list_all2_induct) simp_all
  ultimately show ?thesis using ok by (simp add: streams_ok_def)
qed

lemma alike_linked_streams: "streams_alike ss ts \<Longrightarrow> linked_streams al a ss sps \<Longrightarrow> linked_streams al a ts sps"
  unfolding streams_alike_def
  by (induction arbitrary: a sps rule: list_all2_induct) (auto simp: linked_stream_def Let_def split: list.splits)

lemma alike_sizes: "streams_alike ss ts \<Longrightarrow> epoch_size_of al ts = epoch_size_of al ss"
proof -
  assume "streams_alike ss ts"
  then have "map (\<lambda>s. stream_size al (snd s)) ts = map (\<lambda>s. stream_size al (snd s)) ss"
    unfolding streams_alike_def by (induction rule: list_all2_induct) (simp_all add: stream_size_def split: list.split)
  then show ?thesis by (simp add: epoch_size_of_def)
qed

lemma alike_core_linked: "streams_alike ss ts \<Longrightarrow> core_linked al a ss e sps \<Longrightarrow> core_linked al a ts e sps"
  using alike_sizes alike_linked_streams by (simp add: core_linked_def)

lemma intermediate_loop_keeps:
  "fill_intermediate_loop base ip info = Inr info' \<Longrightarrow> phase_offsets info' = phase_offsets info"
  by (cases ip) (auto simp: fill_intermediate_loop_def bind_sum_Inr_iff split: if_splits)

lemma intermediates_alike:
  assumes "map_sum (\<lambda>(i, s). bind_sum (fill_intermediates_of_stream base s) (\<lambda>s1. Inr (i, s1))) streams = Inr streams1"
  shows "streams_alike streams streams1"
  using assms
proof (induction streams arbitrary: streams1)
  case (Cons t streams)
  obtain i s where t: "t = (i, s)" by (cases t)
  obtain info rest where info: "fold_sum (fill_intermediate_loop base) (sb_phases s) (sb_info s) = Inr info"
    and streams1: "streams1 = (i, s\<lparr>sb_info := info\<rparr>) # rest"
    and rest: "map_sum (\<lambda>(i, s). bind_sum (fill_intermediates_of_stream base s) (\<lambda>s1. Inr (i, s1))) streams = Inr rest"
    using Cons.prems by (auto simp: t bind_sum_Inr_iff fill_intermediates_of_stream_def)
  have "phase_offsets info = phase_offsets (sb_info s)"
    by (rule fold_sum_invariant [where P = "\<lambda>info. phase_offsets info = phase_offsets (sb_info s)", OF _ _ info])
      (use intermediate_loop_keeps in auto)
  then show ?case using Cons.IH [OF rest] by (simp add: streams1 t streams_alike_def)
qed (simp add: streams_alike_def)

text \<open>The allocator of a core, and its streams, when the builder returns.\<close>

lemma core_built:
  assumes build: "fill_epoch_structs soc perfs fallbacks tile_sizes k e = Inr (allocs, e1)"
    and "distinct (map fst e)" and "(c, streams) \<in> set e"
    and al: "al = unat (noc_address_alignment soc)" "al = 32 \<or> al = 64" and start: "get_overlay_start_address soc c = ptr a"
    and a: "0 < a" "a mod al = 0" "a + epoch_size_of al streams + 64 \<le> 2 ^ 32" and ok: "streams_ok streams"
  shows "\<exists>ep sps streams1. map_of allocs c = Some (alloc_of al a (core_blocks al ep sps)) \<and> core_linked al a streams ep sps
    \<and> map_of e1 c = Some streams1 \<and> streams_alike streams streams1"
proof -
  obtain a0 a1 a2 where f0: "fill_epoch_t soc perfs fallbacks tile_sizes k e = Inr a0"
    and f1: "each_core (\<lambda>_. fill_epoch_stream_info_t_fork_idxs soc) e a0 = Inr a1"
    and f2: "each_core (\<lambda>_. update_blob_base_addrs soc) e a1 = Inr a2"
    and f3: "each_core (fill_dram_streaming_header_addr soc) e a2 = Inr allocs"
    and f4: "fill_intermediates_stream_binary_instruction_list allocs e = Inr e1"
    using build by (auto simp: fill_epoch_structs_def bind_sum_Inr_iff)
  note dist = assms(2) note mem = assms(3)
  have room: "a + epoch_size_of al streams \<le> 2 ^ 32" using a(3) by simp
  obtain ea0 sizes where ea0: "map_of a0 c = Some ea0"
    "fill_epoch_t_single_core (noc_address_alignment soc) k streams sizes (map_of perfs c) (map_of fallbacks c) (is_ethernet_core soc c)
       (get_noc_helper soc (cxy_chip c)) (new_epoch_allocator (ptr a)) = Inr ea0"
  proof -
    have keyed: "map fst a0 = map fst e \<and> (\<forall>x \<in> set e. \<exists>y \<in> set a0. (case x of (core_id, streams) \<Rightarrow>
       bind_sum (at (cxy_chip core_id) tile_sizes) (\<lambda>sizes.
       bind_sum (fill_epoch_t_single_core (noc_address_alignment soc) k streams sizes (map_of perfs core_id)
                   (map_of fallbacks core_id) (is_ethernet_core soc core_id) (get_noc_helper soc (cxy_chip core_id))
                   (new_epoch_allocator (get_overlay_start_address soc core_id))) (\<lambda>ea. Inr (core_id, ea)))) = Inr y)"
      by (rule map_sum_keyed [OF f0 [unfolded fill_epoch_t_def]]) (auto simp: bind_sum_Inr_iff split: prod.splits)
    then obtain y where y: "y \<in> set a0" "bind_sum (at (cxy_chip c) tile_sizes) (\<lambda>sizes.
       bind_sum (fill_epoch_t_single_core (noc_address_alignment soc) k streams sizes (map_of perfs c)
                   (map_of fallbacks c) (is_ethernet_core soc c) (get_noc_helper soc (cxy_chip c))
                   (new_epoch_allocator (get_overlay_start_address soc c))) (\<lambda>ea. Inr (c, ea))) = Inr y"
      using mem by fastforce
    have "map_of a0 (fst y) = Some (snd y)" using y(1) keyed dist by (simp add: map_of_eq_Some_iff)
    then show ?thesis using that y(2) start by (auto simp: bind_sum_Inr_iff)
  qed
  have "space al a [] (epoch_size_of al streams)" using al a by (simp add: space_def)
  then obtain ep sps0 where c0: "ea0 = alloc_of al a (core_blocks al ep sps0)" "core_linked al a streams ep sps0"
    using core_made [OF ea0(2) al(1)] ok by (auto simp: streams_ok_def)
  obtain ea1 where ea1: "fill_epoch_stream_info_t_fork_idxs soc c streams ea0 = Inr ea1" "map_of a1 c = Some ea1"
    using each_core_one [OF f1 dist mem ea0(1)] by blast
  obtain sps1 where c1: "ea1 = alloc_of al a (core_blocks al ep sps1)" "core_linked al a streams ep sps1"
    using core_replaced [OF al(2) c0(2) room ok fork_idxs_step [OF al(2)]] ea1(1) epoch_found [OF al(2) c0(2) room start]
    by (auto simp: fill_epoch_stream_info_t_fork_idxs_def c0(1))
  obtain ea2 where ea2: "update_blob_base_addrs soc c streams ea1 = Inr ea2" "map_of a2 c = Some ea2"
    using each_core_one [OF f2 dist mem ea1(2)] by blast
  obtain sps2 where c2: "ea2 = alloc_of al a (core_blocks al ep sps2)" "core_linked al a streams ep sps2"
    using core_replaced [OF al(2) c1(2) room ok blob_addrs_step [OF al(2)]] ea2(1) epoch_found [OF al(2) c1(2) room start]
    by (auto simp: update_blob_base_addrs_def each_active_stream_def c1(1))
  obtain as ea3 where ea3: "fill_dram_streaming_header_addr soc as c streams ea2 = Inr ea3" "map_of allocs c = Some ea3"
    using each_core_one [OF f3 dist mem ea2(2)] by blast
  have "fold_sum (fill_header_addrs_of_stream soc as (get_noc_helper soc (cxy_chip c)) streams) (active_ptrs ep)
      (alloc_of al a (core_blocks al ep sps2)) = Inr ea3"
    using ea3(1) epoch_found [OF al(2) c2(2) room start] by (simp add: fill_dram_streaming_header_addr_def each_active_stream_def c2(1))
  from core_replaced [OF al(2) c2(2) room ok header_addrs_step [OF al(2) a(1)] this]
  obtain sps3 where c3: "ea3 = alloc_of al a (core_blocks al ep sps3)" "core_linked al a streams ep sps3" by blast
  have keyed: "map fst e1 = map fst e \<and> (\<forall>x \<in> set e. \<exists>y \<in> set e1. (case x of (core_id, streams) \<Rightarrow>
       bind_sum (at core_id allocs) (\<lambda>ea.
       bind_sum (map_sum (\<lambda>(i, s). bind_sum (fill_intermediates_of_stream (ea_curr_address ea) s) (\<lambda>s1. Inr (i, s1))) streams)
         (\<lambda>ss. Inr (core_id, ss)))) = Inr y)"
    by (rule map_sum_keyed [OF f4 [unfolded fill_intermediates_stream_binary_instruction_list_def]])
      (auto simp: bind_sum_Inr_iff split: prod.splits)
  then obtain y where y: "y \<in> set e1" "bind_sum (at c allocs) (\<lambda>ea.
       bind_sum (map_sum (\<lambda>(i, s). bind_sum (fill_intermediates_of_stream (ea_curr_address ea) s) (\<lambda>s1. Inr (i, s1))) streams)
         (\<lambda>ss. Inr (c, ss))) = Inr y"
    using mem by fastforce
  have "map_of e1 (fst y) = Some (snd y)" using y(1) keyed dist by (simp add: map_of_eq_Some_iff)
  moreover have "fst y = c" "streams_alike streams (snd y)" using y(2) intermediates_alike by (auto simp: bind_sum_Inr_iff)
  ultimately show ?thesis using ea3(2) c3 by blast
qed

end
