(* ===== verification/EpochSample.thy ===== *)
theory EpochSample
  imports EpochSection
begin

text \<open>
  A small epoch for which the builder of the structures succeeds: one core with one stream that reads a DRAM
  buffer in two places.
\<close>

section \<open>The configurations\<close>

definition empty_stream_config :: stream_config where
  "empty_stream_config =
     \<lparr>sc_dest = None, sc_source = None, sc_msg_size = None, sc_num_iters_in_epoch = None, sc_num_unroll_iter = None,
      sc_data_auto_send = None, sc_reg_update_vc = None, sc_space_shared_with_operand = None, sc_arb_group_size = None,
      sc_buffer_intermediate = None, sc_buf_addr = None, sc_buf_base_addr = None, sc_buf_full_size_bytes = None,
      sc_buffer_size = None, sc_fork_streams = None, sc_num_fork_streams = None, sc_group_priority = None,
      sc_dram_io = None, sc_dram_streaming = None, sc_dram_input = None, sc_dram_input_no_push = None,
      sc_dram_output = None, sc_dram_output_no_push = None, sc_dram_writes_with_cmd_buf = None, sc_ptrs_not_zero = None,
      sc_producer_epoch_id = None, sc_incoming_data_noc = None, sc_input_index = None, sc_is_scatter_pack = None,
      sc_buf_space_available_ack_thr = None, sc_pipe_scatter_output_loop_count = None, sc_num_scatter_inner_loop = None,
      sc_remote_source = None, sc_source_endpoint = None, sc_local_sources_connected = None,
      sc_local_stream_clear_num = None, sc_remote_receiver = None, sc_receiver_endpoint = None, sc_local_receiver = None,
      sc_local_receiver_tile_clearing = None, sc_phase_auto_config = None, sc_phase_auto_advance = None,
      sc_next_phase_src_change = None, sc_next_phase_dest_change = None, sc_resend = None, sc_num_msgs = None,
      sc_legacy_pack = None, sc_outgoing_data_noc = None, sc_vc = None, sc_output_index = None, sc_moves_raw_data = None,
      sc_mblock_k = None, sc_mblock_m = None, sc_mblock_n = None, sc_ublock_ct = None, sc_ublock_rt = None,
      sc_batch_dim_size = None, sc_r_dim_size = None, sc_c_dim_size = None, sc_zr_dim_size = None, sc_zc_dim_size = None,
      sc_tile_dim_r = None, sc_skip_col_bytes = None, sc_skip_col_tile_row_bytes = None, sc_skip_col_row_bytes = None,
      sc_skip_zcol_bytes = None, sc_skip_col_zrow_bytes = None, sc_stride = None, sc_total_strides = None,
      sc_stride_offset_size_bytes = None, sc_num_mblock_buffering = None, sc_num_msgs_in_block = None,
      sc_scatter_idx = None, sc_scatter_order_size = None, sc_linked = None, sc_padding_scatter_order_size = None,
      sc_scatter_list_stream_id = None, sc_scatter_list_indicies_per_input = None, sc_scatter_list_indicies_per_tile = None,
      sc_dram_embeddings_row_shift = None, sc_dram_embeddings_row_tiles = None, sc_ncrisc_clear = None,
      sc_eth_sender = None, sc_eth_receiver = None, sc_use_ethernet_fw_stream = None, sc_hw_tilize = None,
      sc_c_dim_loop_num_rows = None, sc_tilize_row_col_offset = None, sc_has_packer_mcast_opt = None,
      sc_overlay_blob_extra_size = None, sc_space_shared_with_stream = None, sc_num_mcast_dests = None,
      sc_src_dest_index = None, sc_remote_src_is_mcast = None, sc_data_buf_no_flow_ctrl = None,
      sc_dest_data_buf_no_flow_ctrl = None, sc_msg_info_buf_addr = None, sc_follow_by_receiver_dummy_phase = None,
      sc_follow_by_sender_dummy_phase = None, sc_remote_src_update_noc = None\<rparr>"

text \<open>
  A core with one stream that reads a DRAM buffer in two places and whose phases are those of one scatter
  index, so that it has a structure of every kind.
\<close>

definition sample_phase :: phase_config where
  "sample_phase =
     \<lparr>pc_phase_id = 0x100000001,
      pc_config = empty_stream_config\<lparr>sc_num_msgs := Some 8, sc_msg_size := Some 1024, sc_buffer_size := Some 4096,
        sc_buf_addr := Some 0x20000, sc_msg_info_buf_addr := Some 0x1000, sc_input_index := Some 0\<rparr>\<rparr>"

definition sample_ncrisc :: ncrisc_config where
  "sample_ncrisc =
     \<lparr>nc_dram_buf_noc_addr = 0x100000000, nc_dram_buf_size_bytes = 8192, nc_dram_buf_size_q_slots = 2, nc_dram_buf_size_tiles = 8,
      nc_msg_size = 1024, nc_num_msgs = 8, nc_dram_input = Some True, nc_dram_output = None, nc_dram_io = None, nc_dram_ram = None,
      nc_dram_padding = None, nc_dram_scatter_chunk_size_tiles = Some 2, nc_dram_scatter_offsets = Some [0x40, 0x1040],
      nc_dram_scatter_offsets_full_size = Some 2, nc_dram_buf_read_chunk_size_tiles = Some 4,
      nc_dram_buf_write_chunk_size_tiles = None, nc_dram_buf_write_row_chunk_size_bytes = None, nc_dram_streaming = None,
      nc_dram_streaming_dest = None, nc_reader_index = None, nc_total_readers = None\<rparr>"

definition sample_stream :: stream_blob_data where
  "sample_stream =
     \<lparr>sb_phases = [(0x100000001, sample_phase)], sb_ncriscs = [sample_ncrisc],
      sb_info = empty_stream_info\<lparr>phase_offsets :=
        [(0, \<lparr>po_offsets = [0, 16], po_phase_num_cfg_regs = [4, 3], po_num_unroll_iter = 2\<rparr>)]\<rparr>,
      sb_stream_id = 8\<rparr>"

definition sample_streams :: core_blob_data where
  "sample_streams = [(8, sample_stream)]"

definition sample_core :: tt_cxy_pair where
  "sample_core = \<lparr>cxy_chip = 0, cxy_x = 1, cxy_y = 1\<rparr>"

definition sample_soc :: soc_helper where
  "sample_soc =
     \<lparr>is_ethernet_core = (\<lambda>_. False), get_overlay_version = (\<lambda>_. 2), get_noc_translation_id_enabled = (\<lambda>_. False),
      get_physical_grid_size = (\<lambda>_. (10, 12)), get_chip_ids = [0], get_worker_cores = (\<lambda>_. [sample_core]),
      get_ethernet_cores = (\<lambda>_. []), noc_address_alignment = 32, l1_overlay_blob_base = 0x24000, l1_overlay_blob_size = 0x10000,
      eth_overlay_blob_base = 0x9000, eth_overlay_blob_size = 0x8000\<rparr>"

definition sample_built :: "blob_error + epoch_allocators \<times> epoch_blob_data" where
  "sample_built = fill_epoch_structs sample_soc [] [] [(0, [(1024, 0x1000)])] 1 [(sample_core, sample_streams)]"

section \<open>The fields of its structures\<close>

lemmas sample_defs = sample_phase_def empty_stream_config_def sample_ncrisc_def

lemma sample_getters:
  "get_num_msgs sample_phase = Inr 8" "get_num_iters_in_epoch_field sample_phase = 1" "get_num_iters_in_epoch sample_phase = Inr 1"
  "get_buf_full_size_bytes sample_phase = Inr 4096" "get_buf_base_addr sample_phase = Inr 0x20000" "get_msg_size sample_phase = 1024"
  "get_eth_remote_fw_stream_id sample_phase = Inr 0" "get_moves_raw_data sample_phase = False" "get_hw_tilize sample_phase = False"
  "has_scatter_list_stream_id sample_phase = False" "get_num_scatter_inner_loop sample_phase = 1" "get_fork_streams sample_phase = []"
  "get_is_scatter_pack sample_phase = False" "get_intermediate sample_phase = False"
  by (simp_all add: sample_defs get_num_msgs_def get_num_iters_in_epoch_field_def get_num_iters_in_epoch_def get_is_scatter_pack_def
    get_buf_full_size_bytes_def get_buf_base_addr_def get_msg_size_def get_eth_remote_fw_stream_id_def is_eth_firmware_sender_def
    is_eth_firmware_receiver_def get_use_ethernet_fw_stream_def get_moves_raw_data_def get_hw_tilize_def has_scatter_list_stream_id_def
    get_num_scatter_inner_loop_def get_fork_streams_def get_intermediate_def get_remote_receiver_def has_remote_receiver_def
    get_eth_sender_def get_eth_receiver_def get_remote_source_def has_remote_source_def get_ptrs_not_zero_def)

lemma sample_config:
  "sc_msg_info_buf_addr (pc_config sample_phase) = Some 0x1000" "sc_skip_col_zrow_bytes (pc_config sample_phase) = None"
  "sc_scatter_list_stream_id (pc_config sample_phase) = None" "sc_input_index (pc_config sample_phase) = Some 0"
  "sc_output_index (pc_config sample_phase) = None" "sc_overlay_blob_extra_size (pc_config sample_phase) = None"
  "sc_ublock_rt (pc_config sample_phase) = None" "sc_ublock_ct (pc_config sample_phase) = None"
  "sc_mblock_m (pc_config sample_phase) = None" "sc_mblock_n (pc_config sample_phase) = None" "sc_mblock_k (pc_config sample_phase) = None"
  by (simp_all add: sample_defs)

lemma sample_stream_sel:
  "sb_phases sample_stream = [(0x100000001, sample_phase)]" "sb_ncriscs sample_stream = [sample_ncrisc]" "sb_stream_id sample_stream = 8"
  "phase_offsets (sb_info sample_stream) =
     [(0, \<lparr>po_offsets = [0, 16], po_phase_num_cfg_regs = [4, 3], po_num_unroll_iter = 2\<rparr>)]"
  by (simp_all add: sample_stream_def)

lemma sample_num_msgs: "get_epoch_num_msgs (sb_phases sample_stream) = Inr 8" "get_num_iter_tiles (sb_phases sample_stream) = Inr 8"
  by (simp_all add: sample_stream_sel sample_getters get_num_iter_tiles_def udiv_def)

lemma sample_info: "\<exists>i. fill_stream_info_fields sample_stream zero_stream_info = Inr i"
  by (simp add: fill_stream_info_fields_def first_phase_of_def nth_of_def fill_stream_info_buffers_def
    fill_stream_info_unions_def sample_num_msgs [unfolded sample_stream_sel] sample_stream_sel sample_getters sample_config
    udiv_def Let_def)

lemma sample_dram: "\<exists>d. fill_dram_io_info_fields sample_stream zero_dram_io_info = Inr d"
  by (simp add: fill_dram_io_info_fields_def first_phase_of_def nth_of_def sample_num_msgs [unfolded sample_stream_sel] sample_stream_sel
    sample_getters sample_config sample_ncrisc_def get_epoch_q_slots_remaining_def has_dram_scatter_offsets_def
    get_dram_q_slot_size_tiles_single_scatter_def get_num_scatter_offsets_def get_dram_scatter_offsets_full_size_def udiv_def log_assert_def)

lemma sample_state: "\<exists>d. fill_dram_io_state_fields h sample_phase sample_ncrisc zero_dram_io_state = Inr d"
  by (simp add: fill_dram_io_state_fields_def get_data_chunk_size_tiles_def get_data_chunk_size_bytes_def sample_getters sample_ncrisc_def
    get_dram_q_slot_size_tiles_of_phase_def has_dram_scatter_offsets_def get_dram_q_slot_size_tiles_single_scatter_def)

lemma sample_scatter: "\<exists>d. fill_scatter_state_fields h sample_phase sample_ncrisc zero_scatter_state = Inr d \<and> ss_scatter_offsets_size d = 2"
  "\<exists>offs. get_dram_scatter_offsets h sample_phase sample_ncrisc = Inr offs \<and> length offs = 2"
  by (simp_all add: fill_scatter_state_fields_def get_dram_scatter_offsets_def sample_getters sample_ncrisc_def)

lemma sample_epoch: "\<exists>e. fill_epoch_fields (zero_epoch 32) 1 sample_streams [(1024, 0x1000)] None None False = Inr e"
  by (simp add: fill_epoch_fields_def sample_streams_def sample_stream_sel zero_epoch_def write_nth_def fill_epoch_phase_def assign_or_check_same_def
    assign_or_check_same_16_def sample_config fill_tile_size_def Let_def bind_sum_def)

lemma sample_struct_sizes:
  "c_sizeof 32 (epoch_decl 32) = 1056" "c_sizeof 32 epoch_stream_info_decl = 160" "c_sizeof 32 epoch_stream_dram_io_info_decl = 32"
  "sizeof_dram_io_state 32 = 96" "c_sizeof 32 dram_io_scatter_state_decl = 32"
  by (simp_all add: epoch_size struct_size sizeof_dram_io_state_def round_up_def)

section \<open>The passes succeed\<close>

text \<open>The first pass does not depend on what the allocator holds.\<close>

lemma sample_offsets_made: "\<exists>r. fill_dram_scatter_offsets al h sample_phase sample_ncrisc 2 ea = Inr r"
  using sample_scatter(2) [of h] by (auto simp: fill_dram_scatter_offsets_def new_tt_uint64_t_def Let_def)

lemma sample_scatter_made: "\<exists>r. fill_dram_io_scatter_state_t al h sample_phase sample_ncrisc ea = Inr r"
proof -
  obtain sc where sc: "fill_scatter_state_fields h sample_phase sample_ncrisc zero_scatter_state = Inr sc" "ss_scatter_offsets_size sc = 2"
    using sample_scatter by blast
  obtain q ea1 where "new_dram_io_scatter_state_t al ea = (q, ea1)" by fastforce
  moreover obtain q2 ea2 where "fill_dram_scatter_offsets al h sample_phase sample_ncrisc 2 ea1 = Inr (q2, ea2)"
    using sample_offsets_made by fastforce
  ultimately show ?thesis using sc by (simp add: fill_dram_io_scatter_state_t_def)
qed

lemma sample_states_made: "\<exists>r. fill_dram_io_state_t al h sample_phase [sample_ncrisc] ea = Inr r"
proof -
  obtain st where st: "fill_dram_io_state_fields h sample_phase sample_ncrisc zero_dram_io_state = Inr st" using sample_state by blast
  obtain q ea1 where "new_dram_io_state_t al ea = (q, ea1)" by fastforce
  moreover obtain q2 ea2 where "fill_dram_io_scatter_state_t al h sample_phase sample_ncrisc ea1 = Inr (q2, ea2)"
    using sample_scatter_made by fastforce
  moreover have "has_dram_scatter_offsets sample_ncrisc" by (simp add: has_dram_scatter_offsets_def sample_ncrisc_def)
  ultimately show ?thesis using st by simp
qed

lemma sample_io_made: "\<exists>r. fill_epoch_stream_dram_io_info_t al h sample_stream ea = Inr r"
proof -
  obtain d where d: "fill_dram_io_info_fields sample_stream zero_dram_io_info = Inr d" using sample_dram by blast
  obtain q ea1 where "new_epoch_stream_dram_io_info_t al ea = (q, ea1)" by fastforce
  moreover obtain q2 ea2 where "fill_dram_io_state_t al h sample_phase [sample_ncrisc] ea1 = Inr (q2, ea2)"
    using sample_states_made by fastforce
  ultimately show ?thesis
    using d by (simp add: fill_epoch_stream_dram_io_info_t_def first_phase_of_def nth_of_def sample_stream_sel del: fill_dram_io_state_t.simps)
qed

lemma sample_pipes_made: "\<exists>r. fill_scatter_pipe_structs al (sb_info sample_stream) ea = Inr r"
proof -
  obtain q ea1 where "new_scatter_pipe_state_t 1 ea = (q, ea1)" by fastforce
  moreover obtain q2 ea2 where "new_scatter_pipe_blob_t 2 ea1 = (q2, ea2)" by fastforce
  ultimately show ?thesis
    by (simp add: fill_scatter_pipe_structs_def sample_stream_sel log_assert_def scatter_pipe_blobs_of_def Let_def)
qed

lemma sample_stream_made: "\<exists>r. fill_epoch_stream_info_t al h sample_stream ea = Inr r"
proof -
  obtain i where i: "fill_stream_info_fields sample_stream zero_stream_info = Inr i" using sample_info by blast
  obtain q ea1 where "new_epoch_stream_info_t al ea = (q, ea1)" by fastforce
  moreover obtain q2 ea2 where "fill_scatter_pipe_structs al (sb_info sample_stream) ea1 = Inr (q2, ea2)"
    using sample_pipes_made by fastforce
  moreover obtain q3 ea3 where "fill_epoch_stream_dram_io_info_t al h sample_stream ea2 = Inr (q3, ea3)"
    using sample_io_made by fastforce
  ultimately show ?thesis using i by (simp add: fill_epoch_stream_info_t_def sample_stream_sel)
qed

lemma sample_single_core: "\<exists>ea1. fill_epoch_t_single_core 32 1 sample_streams [(1024, 0x1000)] None None False h ea = Inr ea1"
proof -
  obtain e where e: "fill_epoch_fields (zero_epoch 32) 1 sample_streams [(1024, 0x1000)] None None False = Inr e"
    using sample_epoch by blast
  have act: "ep_num_active_streams e = 0" "ep_active_streams e = replicate 64 0" "ep_inputs e \<noteq> []"
    using epoch_fields_active [OF e] by (auto simp: active_are_def epoch_t_ok_def unat_eq_0)
  obtain q ea1 where "new_epoch_t 32 ea = (q, ea1)" by fastforce
  moreover obtain q2 ea2 where s: "fill_epoch_stream_info_t 32 h sample_stream ea1 = Inr (q2, ea2)"
    using sample_stream_made by fastforce
  have "\<exists>r. fold_sum (\<lambda>(i, s). add_stream_of_epoch 32 h s) sample_streams (e, ea1) = Inr r"
    by (simp add: sample_streams_def add_stream_of_epoch_def s first_phase_of_def nth_of_def sample_stream_sel act write_nth_def
      add_input_def add_output_def sample_config)
  then obtain e1 ea3 where "fold_sum (\<lambda>(i, s). add_stream_of_epoch 32 h s) sample_streams (e, ea1) = Inr (e1, ea3)" by fastforce
  ultimately show ?thesis using e by (simp add: fill_epoch_t_single_core_def Let_def)
qed

text \<open>Nor does the second one need more than the links.\<close>

lemma sample_size: "epoch_size_of 32 sample_streams = 1440"
  by (simp add: epoch_size_of_def sample_streams_def stream_size_def sample_struct_sizes sample_stream_sel offsets_size_def io_size_def
    io_state_size_def num_offsets_def sample_getters sample_ncrisc_def has_dram_scatter_offsets_def round_up_def Let_def)

lemma sample_core_plan:
  assumes "core_linked 32 0x24000 sample_streams e sps"
  obtains sp st bs where "sps = [sp]" "sp_pipes sp = [(st, bs)]" "bs \<noteq> []" "stream_data_of (sp_info sp) sample_streams = Inr sample_stream"
    "active_ptrs e = [ptr (0x24000 + 1056)]" "room 32 0x24000 ([BEpoch e] @ stream_blocks 32 sp @ [])"
    "linked_stream 32 (0x24000 + 1056) sample_stream sp"
proof -
  have "linked_streams 32 (0x24000 + 1056) sample_streams sps" using assms by (simp add: core_linked_def sample_struct_sizes)
  then obtain sp where sp: "sps = [sp]" "linked_stream 32 (0x24000 + 1056) sample_stream sp"
    by (auto simp: sample_streams_def split: list.splits)
  then have "length (sp_pipes sp) = 1" and id: "ucast (si_stream_id (sp_info sp)) = (8 :: u32)"
    by (simp_all add: linked_stream_def sample_stream_sel Let_def)
  then obtain st bs where p: "sp_pipes sp = [(st, bs)]" by (cases "sp_pipes sp") auto
  have act: "active_ptrs e = [ptr (0x24000 + 1056)]"
    using core_active_ptrs [OF _ assms] sample_size sp by (simp add: sample_struct_sizes)
  have r: "room 32 0x24000 ([BEpoch e] @ stream_blocks 32 sp @ [])"
    using core_room [OF assms] sample_size sp by (simp add: core_blocks_def)
  have "bs \<noteq> []" using r p by (simp add: room_def stream_blocks_def pipe_blocks_def)
  moreover have "stream_data_of (sp_info sp) sample_streams = Inr sample_stream"
    using id by (simp add: stream_data_of_def at_def sample_streams_def)
  ultimately show ?thesis using that sp p act r by blast
qed

lemma sample_start: "get_overlay_start_address sample_soc sample_core = ptr 0x24000"
  by (simp add: get_overlay_start_address_def sample_soc_def ptr_def)

lemma sample_forks:
  assumes l: "core_linked 32 0x24000 sample_streams e sps"
  shows "\<exists>r. fill_epoch_stream_info_t_fork_idxs sample_soc sample_core sample_streams (alloc_of 32 0x24000 (core_blocks 32 e sps)) = Inr r"
proof -
  obtain sp st bs where p: "sps = [sp]" "sp_pipes sp = [(st, bs)]" "bs \<noteq> []" "stream_data_of (sp_info sp) sample_streams = Inr sample_stream"
    "active_ptrs e = [ptr (0x24000 + 1056)]" and r: "room 32 0x24000 ([BEpoch e] @ stream_blocks 32 sp @ [])"
    and ls: "linked_stream 32 (0x24000 + 1056) sample_stream sp"
    using sample_core_plan [OF l] .
  have "epoch_of_core sample_soc sample_core (alloc_of 32 0x24000 (core_blocks 32 e sps)) = Inr e"
    using epoch_found [OF _ l _ sample_start] sample_size by simp
  moreover have "ea_stream_info (alloc_of 32 0x24000 (core_blocks 32 e sps)) (ptr (0x24000 + 1056)) = Some (sp_info sp)"
    using info_found [OF _ r] p(1) by (simp add: core_blocks_def sample_struct_sizes)
  ultimately show ?thesis
    using p(4,5) by (simp add: fill_epoch_stream_info_t_fork_idxs_def fill_fork_idxs_of_stream_def at_ptr_def first_phase_of_def nth_of_def
      sample_stream_sel sample_getters)
qed

lemma sample_blob_addrs:
  assumes l: "core_linked 32 0x24000 sample_streams e sps"
  shows "\<exists>r. update_blob_base_addrs sample_soc sample_core sample_streams (alloc_of 32 0x24000 (core_blocks 32 e sps)) = Inr r"
proof -
  let ?ea = "alloc_of 32 0x24000 (core_blocks 32 e sps)" let ?base = "ea_curr_address ?ea"
  obtain sp st bs where p: "sps = [sp]" "sp_pipes sp = [(st, bs)]" "bs \<noteq> []" "stream_data_of (sp_info sp) sample_streams = Inr sample_stream"
    "active_ptrs e = [ptr (0x24000 + 1056)]" and r: "room 32 0x24000 ([BEpoch e] @ stream_blocks 32 sp @ [])"
    and ls: "linked_stream 32 (0x24000 + 1056) sample_stream sp"
    using sample_core_plan [OF l] .
  have e: "epoch_of_core sample_soc sample_core ?ea = Inr e"
    using epoch_found [OF _ l _ sample_start] sample_size by simp
  have i: "ea_stream_info ?ea (ptr (0x24000 + 1056)) = Some (sp_info sp)"
    using info_found [OF _ r] p(1) by (simp add: core_blocks_def sample_struct_sizes)
  define i' where "i' = (sp_info sp)\<lparr>si_blob_start_addr := blob_start_relative_offset (sb_info sample_stream) + ?base\<rparr>"
  let ?xs = "[BEpoch e, BInfo i']" and ?ys = "BPad (round_up (pipes_size (sp_pipes sp)) 32 - pipes_size (sp_pipes sp)) # io_blocks (sp_io sp)"
  have "set_stream_info (ptr (0x24000 + 1056)) i' ?ea = alloc_of 32 0x24000 ([BEpoch e] @ stream_blocks 32 (sp\<lparr>sp_info := i'\<rparr>) @ [])"
    using info_set [OF _ r, of i'] p(1) by (simp add: core_blocks_def sample_struct_sizes)
  then have set: "set_stream_info (ptr (0x24000 + 1056)) i' ?ea = alloc_of 32 0x24000 (?xs @ BPipes [st] # BBlobs bs # ?ys)"
    using p(2) by (simp add: stream_blocks_def pipe_blocks_def)
  have q: "si_skip_col_tile_row_bytes (sp_info sp) = ptr (0x24000 + blocks_size 32 ?xs)"
    "ps_unroll_blobs st = ptr (0x24000 + blocks_size 32 (?xs @ [BPipes [st]]))" "unat (ps_max_unroll st) = length bs"
    using ls p(2) by (simp_all add: linked_stream_def linked_pipes_def sample_struct_sizes Let_def)
  have rm: "room 32 0x24000 (?xs @ BPipes [st] # BBlobs bs # ?ys)" "room 32 0x24000 ((?xs @ [BPipes [st]]) @ BBlobs bs # ?ys)"
    using r p(2) by (simp_all add: room_def stream_blocks_def pipe_blocks_def i'_def)
  have f: "lookup 32 get_pipes 0x24000 (?xs @ BPipes [st] # BBlobs bs # ?ys) (si_skip_col_tile_row_bytes (sp_info sp)) = Some [st]"
    "lookup 32 get_blobs 0x24000 ((?xs @ [BPipes [st]]) @ BBlobs bs # ?ys) (ps_unroll_blobs st) = Some bs"
    using found(7) [OF _ rm(1) q(1)] found(8) [OF _ rm(2) q(2)] by blast+
  have "\<exists>r. update_pipe_state ?base (si_skip_col_tile_row_bytes (sp_info sp)) 0 (alloc_of 32 0x24000 (?xs @ BPipes [st] # BBlobs bs # ?ys)) = Inr r"
    using f q(3) by (simp add: update_pipe_state_def at_ptr_def nth_of_def update_pipe_blobs_def)
  then show ?thesis
    using e i p(4,5) set [unfolded i'_def]
    by (auto simp: update_blob_base_addrs_def each_active_stream_def update_blob_base_addrs_of_stream_def at_ptr_def sample_stream_sel i'_def Let_def)
qed

lemma states_count: "al = 32 \<Longrightarrow> 96 * length ts \<le> blocks_size al (states_blocks hw ts)"
proof (induction ts)
  case (Cons t ts)
  then show ?case by (simp add: state_blocks_def sample_struct_sizes)
qed simp

lemma sample_headers:
  assumes l: "core_linked 32 0x24000 sample_streams e sps"
  shows "\<exists>r. fill_dram_streaming_header_addr sample_soc allocs sample_core sample_streams (alloc_of 32 0x24000 (core_blocks 32 e sps)) = Inr r"
proof -
  let ?ea = "alloc_of 32 0x24000 (core_blocks 32 e sps)"
  obtain sp st bs where p: "sps = [sp]" "sp_pipes sp = [(st, bs)]" "bs \<noteq> []" "stream_data_of (sp_info sp) sample_streams = Inr sample_stream"
    "active_ptrs e = [ptr (0x24000 + 1056)]" and r: "room 32 0x24000 ([BEpoch e] @ stream_blocks 32 sp @ [])"
    and ls: "linked_stream 32 (0x24000 + 1056) sample_stream sp"
    using sample_core_plan [OF l] .
  have e: "epoch_of_core sample_soc sample_core ?ea = Inr e"
    using epoch_found [OF _ l _ sample_start] sample_size by simp
  have i: "ea_stream_info ?ea (ptr (0x24000 + 1056)) = Some (sp_info sp)"
    using info_found [OF _ r] p(1) by (simp add: core_blocks_def sample_struct_sizes)
  have "\<exists>r. fill_header_addrs_of_stream sample_soc allocs h sample_streams (ptr (0x24000 + 1056)) ?ea = Inr r" for h
  proof (cases "sp_io sp")
    case None
    then show ?thesis using ls i p(4) by (simp add: fill_header_addrs_of_stream_def at_ptr_def linked_stream_def linked_io_def Let_def)
  next
    case (Some x)
    obtain d ts where x: "x = (d, ts)" by (cases x)
    let ?hw = "di_hw_tilize d \<noteq> 0" let ?xs = "BEpoch e # BInfo (sp_info sp) # pipe_blocks 32 (sp_pipes sp)"
    have blocks: "core_blocks 32 e sps = ?xs @ BDram d # states_blocks ?hw ts"
      by (simp add: core_blocks_def p(1) stream_blocks_def io_blocks_def Some x)
    have q: "si_dram_io_info (sp_info sp) = ptr (0x24000 + blocks_size 32 ?xs)" and ll: "linked_states 32 (0x24000 + blocks_size 32 (?xs @ [BDram d])) ts (di_dram_io_state d)"
      using ls by (simp_all add: linked_stream_def linked_io_def Some x sample_struct_sizes Let_def)
    have rm: "room 32 0x24000 (?xs @ BDram d # states_blocks ?hw ts)" using r blocks by (simp add: core_blocks_def p(1))
    have fd: "lookup 32 get_dram 0x24000 (core_blocks 32 e sps) (si_dram_io_info (sp_info sp)) = Some d"
      unfolding blocks using found(3) [OF _ rm q] by simp
    have size: "blocks_size 32 (core_blocks 32 e sps) = 1440" using l sample_size by (simp add: core_linked_def)
    have "(0 :: nat) < 32" by simp
    have "round_up (pipes_size (sp_pipes sp)) 32 mod 32 = 0" "16 \<le> round_up (pipes_size (sp_pipes sp)) 32"
      using round_up_mod [of "pipes_size (sp_pipes sp)" 32] round_up_le [of 32 "pipes_size (sp_pipes sp)"] p(2)
      by (auto simp: pipes_size_def)
    then have "32 \<le> round_up (pipes_size (sp_pipes sp)) 32" by presburger
    then have "blocks_size 32 (states_blocks ?hw ts) < 96 * 2"
      using size pipe_blocks_aligned [of 32 "sp_pipes sp"] p(2) by (simp add: blocks sample_struct_sizes)
    then have one: "length ts < 2" using states_count [of 32 ts ?hw] by simp
    have "\<exists>r. fill_header_addrs sample_soc allocs h sample_phase [sample_ncrisc] (di_dram_io_state d) ?ea = Inr r"
    proof (cases ts)
      case Nil
      then show ?thesis using ll by (simp add: fill_header_addrs.simps)
    next
      case (Cons t ts')
      then have t: "ts = [t]" using one by simp
      have rs: "room 32 0x24000 ((?xs @ [BDram d]) @ state_blocks ?hw t @ [])" using rm by (simp add: t)
      have "lookup 32 get_state 0x24000 (core_blocks 32 e sps) (di_dram_io_state d) = Some (fst t)"
        using state_found [OF _ rs] ll by (simp add: blocks t)
      moreover have "lc_next (fst t) = 0" using ll by (simp add: t)
      moreover have "value_or (nc_dram_output sample_ncrisc) False = False" by (simp add: sample_ncrisc_def)
      ultimately show ?thesis
        by (simp add: fill_header_addrs.simps [of sample_soc allocs h sample_phase "[sample_ncrisc]"] at_ptr_def
          fill_header_addrs.simps [of sample_soc allocs h sample_phase "[]"])
    qed
    then show ?thesis
      using fd i p(4) by (auto simp: fill_header_addrs_of_stream_def at_ptr_def first_phase_of_def nth_of_def sample_stream_sel)
  qed
  then obtain r where "fill_header_addrs_of_stream sample_soc allocs (get_noc_helper sample_soc (cxy_chip sample_core)) sample_streams
      (ptr (0x24000 + 1056)) ?ea = Inr r" by blast
  then show ?thesis using e p(5) by (simp add: fill_dram_streaming_header_addr_def each_active_stream_def)
qed

lemma sample_builds:
  "\<exists>allocs e1 ea streams1. sample_built = Inr (allocs, e1) \<and> map_of allocs sample_core = Some ea \<and> map_of e1 sample_core = Some streams1"
proof -
  let ?h = "get_noc_helper sample_soc 0"
  have soc: "noc_address_alignment sample_soc = 32" "is_ethernet_core sample_soc sample_core = False" "cxy_chip sample_core = 0"
    by (simp_all add: sample_soc_def sample_core_def)
  have al: "32 = unat (32 :: u32)" by simp
  have room: "(0x24000 :: nat) + epoch_size_of 32 sample_streams \<le> 2 ^ 32" using sample_size by simp
  have ok: "streams_ok sample_streams"
    by (simp add: streams_ok_def sample_streams_def stream_ok_def sample_stream_sel) (simp add: sample_ncrisc_def)
  obtain ea0 where ea0: "fill_epoch_t_single_core 32 1 sample_streams [(1024, 0x1000)] None None False ?h (new_epoch_allocator (ptr 0x24000)) = Inr ea0"
    using sample_single_core by blast
  have "space 32 0x24000 [] (epoch_size_of 32 sample_streams)" using sample_size by (simp add: space_def)
  then obtain e sps0 where c0: "ea0 = alloc_of 32 0x24000 (core_blocks 32 e sps0)" "core_linked 32 0x24000 sample_streams e sps0"
    using core_made [OF ea0 al] ok by (auto simp: streams_ok_def)
  note found = epoch_found [OF _ _ room sample_start]
  obtain ea1 where ea1: "fill_epoch_stream_info_t_fork_idxs sample_soc sample_core sample_streams ea0 = Inr ea1"
    using sample_forks [OF c0(2)] c0(1) by blast
  obtain sps1 where c1: "ea1 = alloc_of 32 0x24000 (core_blocks 32 e sps1)" "core_linked 32 0x24000 sample_streams e sps1"
    using core_replaced [OF _ c0(2) room ok fork_idxs_step] ea1 found [OF _ c0(2)]
    by (auto simp: fill_epoch_stream_info_t_fork_idxs_def c0(1))
  obtain ea2 where ea2: "update_blob_base_addrs sample_soc sample_core sample_streams ea1 = Inr ea2"
    using sample_blob_addrs [OF c1(2)] c1(1) by blast
  obtain sps2 where c2: "ea2 = alloc_of 32 0x24000 (core_blocks 32 e sps2)" "core_linked 32 0x24000 sample_streams e sps2"
    using core_replaced [OF _ c1(2) room ok blob_addrs_step] ea2 found [OF _ c1(2)]
    by (auto simp: update_blob_base_addrs_def each_active_stream_def c1(1))
  obtain ea3 where ea3: "fill_dram_streaming_header_addr sample_soc [(sample_core, ea2)] sample_core sample_streams ea2 = Inr ea3"
    using sample_headers [OF c2(2)] c2(1) by blast
  obtain ss where ss: "fill_intermediates_stream_binary_instruction_list [(sample_core, ea3)] [(sample_core, sample_streams)]
      = Inr [(sample_core, ss)]"
    by (simp add: fill_intermediates_stream_binary_instruction_list_def fill_intermediates_of_stream_def sample_streams_def
      sample_stream_sel fill_intermediate_loop_def sample_getters at_def)
  have "sample_built = Inr ([(sample_core, ea3)], [(sample_core, ss)])"
    using ea0 ea1 ea2 ea3 ss sample_start
    by (simp add: sample_built_def fill_epoch_structs_def fill_epoch_t_def each_core_def soc at_def)
  then show ?thesis by (intro exI [of _ "[(sample_core, ea3)]"] exI [of _ "[(sample_core, ss)]"] exI [of _ ea3] exI [of _ ss]) simp
qed

end
