(* ===== verification/EpochImage.thy ===== *)
theory EpochImage
  imports EpochSample
begin

text \<open>
  The contract between the builder of the structures of an epoch and the filler of the blob: the bytes of the
  section are the memory that the pointers of the structures are made for.
\<close>

section \<open>Structures found in memory\<close>

text \<open>Bytes at an address of a memory that begins at another.\<close>

definition found_at :: "8 word list \<Rightarrow> u32 \<Rightarrow> u32 \<Rightarrow> 8 word list \<Rightarrow> bool" where
  "found_at bytes start p im \<longleftrightarrow> start \<le> p \<and> take (length im) (drop (unat p - unat start) bytes) = im"

text \<open>
  Every structure of the allocator, as its declaration lays it out, at the address it goes by; scatter offsets
  have the form of one of the two kinds of streams.
\<close>

definition structures_in_memory :: "nat \<Rightarrow> u32 \<Rightarrow> epoch_allocator \<Rightarrow> 8 word list \<Rightarrow> bool" where
  "structures_in_memory al start ea bytes \<longleftrightarrow>
     (\<forall>p e. ea_epoch ea p = Some e \<longrightarrow> found_at bytes start p (epoch_image al e))
     \<and> (\<forall>p i. ea_stream_info ea p = Some i \<longrightarrow> found_at bytes start p (stream_info_image al i))
     \<and> (\<forall>p d. ea_dram_io_info ea p = Some d \<longrightarrow> found_at bytes start p (dram_io_info_image al d))
     \<and> (\<forall>p d. ea_dram_io_state ea p = Some d \<longrightarrow> found_at bytes start p (dram_io_state_image al d))
     \<and> (\<forall>p d. ea_scatter_state ea p = Some d \<longrightarrow> found_at bytes start p (scatter_state_image al d))
     \<and> (\<forall>p qs. ea_uint64 ea p = Some qs \<longrightarrow> (\<exists>hw. found_at bytes start p (offsets_image hw qs)))
     \<and> (\<forall>p sts. ea_pipe_state ea p = Some sts \<longrightarrow> found_at bytes start p (pipe_states_image sts))
     \<and> (\<forall>p bs. ea_pipe_blob ea p = Some bs \<longrightarrow> found_at bytes start p (pipe_blobs_image bs))"

lemma getter_iff:
  "get_epoch b = Some e \<longleftrightarrow> b = BEpoch e" "get_info b = Some i \<longleftrightarrow> b = BInfo i" "get_dram b = Some d \<longleftrightarrow> b = BDram d"
  "get_state b = Some st \<longleftrightarrow> b = BState st" "get_scatter b = Some sc \<longleftrightarrow> b = BScatter sc"
  "get_offsets b = Some qs \<longleftrightarrow> (\<exists>hw. b = BOffsets hw qs)" "get_pipes b = Some ps \<longleftrightarrow> b = BPipes ps"
  "get_blobs b = Some bs \<longleftrightarrow> b = BBlobs bs"
  by (cases b; simp add: getter_defs)+

lemma lookup_split:
  "lookup al g a bs p = Some v \<Longrightarrow> \<exists>xs b ys. bs = xs @ b # ys \<and> g b = Some v \<and> p = ptr (a + blocks_size al xs)"
proof (induction bs arbitrary: a)
  case (Cons b bs)
  show ?case
  proof (cases "lookup al g (a + block_size al b) bs p")
    case None
    then show ?thesis using Cons.prems by (intro exI [of _ "[]"] exI [of _ b] exI [of _ bs]) (simp split: if_splits)
  next
    case (Some w)
    then obtain xs b' ys where "bs = xs @ b' # ys" "g b' = Some v" "p = ptr (a + block_size al b + blocks_size al xs)"
      using Cons.IH [of "a + block_size al b"] Cons.prems by auto
    then show ?thesis by (intro exI [of _ "b # xs"] exI [of _ b'] exI [of _ ys]) (simp add: add.assoc)
  qed
qed simp

lemma block_found_at:
  assumes al: "al = 32 \<or> al = 64" and r: "room al a (xs @ b # ys)" and pos: "0 < block_size al b"
    and im: "block_bytes al b = im @ rest"
  shows "found_at (blocks_bytes al (xs @ b # ys)) (ptr a) (ptr (a + blocks_size al xs)) im"
proof -
  have u: "unat (ptr a) = a" "unat (ptr (a + blocks_size al xs)) = a + blocks_size al xs"
    using r pos by (simp_all add: room_def unat_ptr)
  have "length (blocks_bytes al xs) = blocks_size al xs"
    using r by (intro length_blocks_bytes [OF al]) (simp add: room_def)
  then show ?thesis by (simp add: found_at_def u word_le_nat_alt im)
qed

lemma structure_found_at:
  assumes al: "al = 32 \<or> al = 64" and r: "room al a bs" and "lookup al g a bs p = Some v" and "sized al g bs"
  shows "\<exists>b \<in> set bs. g b = Some v \<and> (\<forall>im rest. block_bytes al b = im @ rest \<longrightarrow> found_at (blocks_bytes al bs) (ptr a) p im)"
proof -
  obtain xs b ys where b: "bs = xs @ b # ys" "g b = Some v" "p = ptr (a + blocks_size al xs)" using lookup_split [OF assms(3)] by blast
  have "0 < block_size al b" using assms(4) b(1,2) by (auto simp: sized_def)
  then show ?thesis using b block_found_at [OF al r [unfolded b(1)]] by auto
qed

lemma blocks_in_memory:
  assumes al: "al = 32 \<or> al = 64" and r: "room al a bs"
  shows "structures_in_memory al (ptr a) (alloc_of al a bs) (blocks_bytes al bs)"
proof -
  note z = room_sized [OF al r]
  show ?thesis
    unfolding structures_in_memory_def alloc_of_sel
  proof (intro conjI allI impI)
    fix p e assume "lookup al get_epoch a bs p = Some e"
    from structure_found_at [OF al r this z(1)] show "found_at (blocks_bytes al bs) (ptr a) p (epoch_image al e)"
      by (auto simp: getter_iff)
  next
    fix p e assume "lookup al get_info a bs p = Some e"
    from structure_found_at [OF al r this z(2)] show "found_at (blocks_bytes al bs) (ptr a) p (stream_info_image al e)"
      by (auto simp: getter_iff)
  next
    fix p e assume "lookup al get_dram a bs p = Some e"
    from structure_found_at [OF al r this z(3)] show "found_at (blocks_bytes al bs) (ptr a) p (dram_io_info_image al e)"
      by (auto simp: getter_iff)
  next
    fix p e assume "lookup al get_state a bs p = Some e"
    from structure_found_at [OF al r this z(4)] show "found_at (blocks_bytes al bs) (ptr a) p (dram_io_state_image al e)"
      by (auto simp: getter_iff)
  next
    fix p e assume "lookup al get_scatter a bs p = Some e"
    from structure_found_at [OF al r this z(5)] show "found_at (blocks_bytes al bs) (ptr a) p (scatter_state_image al e)"
      by (auto simp: getter_iff)
  next
    fix p qs assume "lookup al get_offsets a bs p = Some qs"
    from structure_found_at [OF al r this z(6)] obtain hw where "\<forall>im rest. block_bytes al (BOffsets hw qs) = im @ rest
        \<longrightarrow> found_at (blocks_bytes al bs) (ptr a) p im"
      by (auto simp: getter_iff)
    then show "\<exists>hw. found_at (blocks_bytes al bs) (ptr a) p (offsets_image hw qs)" by auto
  next
    fix p e assume "lookup al get_pipes a bs p = Some e"
    from structure_found_at [OF al r this z(7)] show "found_at (blocks_bytes al bs) (ptr a) p (pipe_states_image e)"
      by (auto simp: getter_iff)
  next
    fix p e assume "lookup al get_blobs a bs p = Some e"
    from structure_found_at [OF al r this z(8)] show "found_at (blocks_bytes al bs) (ptr a) p (pipe_blobs_image e)"
      by (auto simp: getter_iff)
  qed
qed

section \<open>The property\<close>

text \<open>C4 The section of the epoch is the memory image of its structures. When \<open>fill_epoch_structs\<close> has built the
  structures of an epoch, \<open>fill_epoch_section\<close> returns for every core with streams: the traversal that follows the
  pointers ends without an error, the bytes it writes end where the allocator stopped, which is the address the
  blobs of the phases begin at, and every structure of the allocator (epoch, stream, DRAM buffer, state, scatter
  state, scatter offsets, pipe states and pipe blobs) lies, laid out as the firmware declares it, at the address
  that the pointers of the others give it.\<close>

theorem epoch_section_is_memory_image:
  assumes build: "fill_epoch_structs soc perfs fallbacks tile_sizes k e = Inr (allocs, e1)"
    and "distinct (map fst e)" and "(c, streams) \<in> set e" and "map_of allocs c = Some ea" and "map_of e1 c = Some streams1"
    and al: "al = unat (noc_address_alignment soc)" "al = 32 \<or> al = 64"
    and start: "start = get_overlay_start_address soc c" "0 < start" "unat start mod al = 0"
    and room: "unat start + epoch_size_of al streams + 512 \<le> 2 ^ 32" and ok: "streams_ok streams" and s: "bs_data s = []"
  shows "\<exists>s'. fill_epoch_section soc c ea streams1 s = Some (Inr s') \<and> unat start + length (bs_data s') = unat (ea_curr_address ea)
    \<and> structures_in_memory al start ea (bs_data s')"
proof -
  let ?a = "unat start"
  have a: "get_overlay_start_address soc c = ptr ?a" "0 < ?a" "?a + epoch_size_of al streams + 64 \<le> 2 ^ 32" "ptr ?a = start"
    using start room by (simp_all add: ptr_def word_gt_0 unat_gt_0)
  obtain ep sps where ea: "ea = alloc_of al ?a (core_blocks al ep sps)" and l: "core_linked al ?a streams ep sps"
    and alike: "streams_alike streams streams1"
    using core_built [OF build assms(2,3) al a(1,2) start(3) a(3) ok] assms(4,5) by auto
  have ok1: "streams_ok streams1" using alike_streams_ok [OF alike ok] .
  have size1: "blocks_size al (core_blocks al ep sps) = epoch_size_of al streams" using l by (simp add: core_linked_def)
  have r: "room al ?a (core_blocks al ep sps)" using l room by (simp add: core_linked_def room_def)
  obtain s' where s': "fill_epoch_section soc c ea streams1 s = Some (Inr s')" "bs_data s' = blocks_bytes al (core_blocks al ep sps)"
    using core_written [OF alike_core_linked [OF alike l] al(1) refl al(2) a(2) _ a(1) ok1 s] room alike_sizes [OF alike]
    by (auto simp: ends_with_def ea s)
  have "length (bs_data s') = epoch_size_of al streams"
    using s'(2) r size1 length_blocks_bytes [OF al(2)] by (simp add: room_def)
  moreover have "unat (ea_curr_address ea) = ?a + epoch_size_of al streams"
    using room by (simp add: ea size1 unat_ptr)
  moreover have "structures_in_memory al start ea (bs_data s')"
    using blocks_in_memory [OF al(2) r] s'(2) a(4) by (simp add: ea)
  ultimately show ?thesis using s'(1) by simp
qed

theorem epoch_section_is_memory_image_witness:
  "\<exists>allocs e1 ea streams1 s'.
     fill_epoch_structs sample_soc [] [] [(0, [(1024, 0x1000)])] 1 [(sample_core, sample_streams)] = Inr (allocs, e1)
     \<and> map_of allocs sample_core = Some ea \<and> map_of e1 sample_core = Some streams1
     \<and> fill_epoch_section sample_soc sample_core ea streams1 (new_blob_section 0x24000) = Some (Inr s')
     \<and> 0x24000 + length (bs_data s') = unat (ea_curr_address ea) \<and> structures_in_memory 32 0x24000 ea (bs_data s')"
proof -
  obtain allocs e1 ea streams1 where b: "fill_epoch_structs sample_soc [] [] [(0, [(1024, 0x1000)])] 1 [(sample_core, sample_streams)] = Inr (allocs, e1)"
    "map_of allocs sample_core = Some ea" "map_of e1 sample_core = Some streams1"
    using sample_builds unfolding sample_built_def by blast
  have "streams_ok sample_streams"
    by (simp add: streams_ok_def sample_streams_def stream_ok_def sample_stream_sel) (simp add: sample_ncrisc_def)
  moreover have "get_overlay_start_address sample_soc sample_core = 0x24000" "unat (noc_address_alignment sample_soc) = 32"
    by (simp_all add: get_overlay_start_address_def sample_soc_def)
  ultimately show ?thesis
    using epoch_section_is_memory_image [OF b(1) _ _ b(2,3), of sample_streams 32 "0x24000" "new_blob_section 0x24000"] b sample_size
    by (simp add: new_blob_section_def)
qed

end
