(* ===== verification/Spec2Isabelle.thy ===== *)
theory Spec2Isabelle
  imports OperandStreams L1Layout StreamAllocation ResourceManagerProps ScatterProps
    NetlistProgramProps NetlistStructured NetlistInvariants QueuePtr SizeLib RouterProps RouterPipes
    RationalGraphProps GatherOptimization PhaseLimits TransfersProps DataFlowCalculator PcieFlow LimitsComposed
    PGSubgraphs PipeGraphLinks PostTmPipes HexRoundTrip EpochLayout EpochImage
begin

text \<open>
  \<^bold>\<open>A verification of the tt-budabackend compiler and run-time library.\<close>

  The back end compiles a netlist of operations for Tenstorrent devices and runs it. net2pipe
  (\<open>src/src/net2pipe\<close>) places buffers and pipes on the cores of the chips; pipegen2
  (\<open>src/src/pipegen2/lib\<close>) turns pipes into streams with their ids, buffers and phases; the firmware
  (\<open>src/src/firmware\<close>) executes them; the netlist library (\<open>src/netlist\<close>) interprets the programs that
  drive the queues. The development models the decisions of these parts that other parts rely on:
  which stream ids and L1 addresses are handed out, how transfers are cut into iterations and phases,
  how offsets are encoded for the firmware, and how programs and queue pointers step.

  \<^bold>\<open>Conventions.\<close> A C++ \<open>int\<close> is an \<open>int\<close> (its overflow, in the arithmetic of netlist programs where a
  program can reach it, is the error \<open>IntOverflow\<close>), an unsigned integer a word of its width, a count that is
  bounded by a container a \<open>nat\<close>. A throw or a failed assertion is the left of a sum, with the state
  kept where it can be observed (\<open>opn\<close> of \<open>Prelude\<close>); a loop or a recursion that does not return is
  \<open>None\<close> (\<open>partial_function\<close>, no fuel: a property that something returns says so); undefined behaviour
  is an error of its own. Pointers are numbers. What the code does not fix, the iteration order of
  hash containers, the memory map of the build, the SoC descriptor, callbacks, is a parameter.

  \<^bold>\<open>Theories.\<close>

  \<^item> \<open>Prelude\<close>: throwing operations, folds and runs of requests, and the interfaces that components
    share, as locales: \<open>invariant_ops\<close> (an operation that keeps an invariant), \<open>fresh_allocator\<close> (an
    allocator whose grants are fresh and recorded), \<open>simulation\<close>.

  \<^item> \<open>DeviceTypes\<close>, \<open>OperandStreams\<close>: locations, exceptions and memory maps; the stream ids of kernel
    operands (\<open>device/operand_stream_map.cpp\<close>, the firmware's \<open>stream_io_map.h\<close>) with their round trip.

  \<^item> \<open>L1Layout\<close>: the data buffers of a core in L1
    (\<open>device/l1/l1_data_buffers_memory_layout.cpp\<close>), an interpretation of \<open>invariant_ops\<close>: buffers are
    disjoint when the memory check passes, and the check is exact.

  \<^item> \<open>CoreResources\<close>, \<open>StreamAllocation\<close>, \<open>ResourceManager\<close>, \<open>ResourceManagerProps\<close>: the resources of
    worker and ethernet cores (\<open>device/*_core_resources*.cpp\<close>) and of a device
    (\<open>device/resource_manager.cpp\<close>); worker, ethernet and manager are interpretations of
    \<open>fresh_allocator\<close>, whose facts give that no stream is handed out twice.

  \<^item> \<open>ScatterCompressor\<close>, \<open>ScatterReader\<close>, \<open>ScatterTilizer\<close>, \<open>ScatterRoundTrip\<close>, \<open>ScatterProps\<close>: the
    compressed lists of DRAM offsets pipegen2 writes (\<open>dram_scatter_offset_compressor.cpp\<close>) and the
    loops of the firmware that read them (\<open>dram_stream_intf.cc\<close>). The locale \<open>scatter_codec\<close> is the
    contract of an encoder and a reader; both encodings are interpretations.

  \<^item> \<open>PipeGraph\<close>, \<open>PipeGraphCreator\<close>, \<open>PipeGraphLinks\<close>, \<open>PostTmPipes\<close>: the buffers and pipes the netlist
    compiler wrote (\<open>model/pipe_graph\<close>), their connection and the four handlers that patch the graph
    (\<open>graph_creator/pipe_graph\<close>). The links between buffers and pipes, the inputs of padded scatter indices
    included, are an invariant of all of it but the last handler, for which \<open>PostTmPipes\<close> shows what becomes of
    the readers and writers of every buffer.

  \<^item> \<open>PGSubgraphs\<close>: the split of the pipe graph by disjoint sets (\<open>pg_subgraph_finder.cpp\<close>), proved to be
    that into connected components.

  \<^item> \<open>RationalGraph\<close>, \<open>RationalGraphProps\<close>: nodes and pipes that point to each other
    (\<open>model/rational_graph\<close>), the topological order of the pipes and the replacement of a pipe.

  \<^item> \<open>GatherOptimization\<close>: the replacement of gather pipes that exceed the streams of their core
    (\<open>gather_optimization_manager.cpp\<close>), over the rational graphs and the resource manager.

  \<^item> \<open>GraphSearch\<close>: the traversals the following share, a depth-first search that leaves a topological
    order and the computation of the values of nodes from those of their neighbours; the locale
    \<open>node_values\<close> says when such a computation solves the equations of the values.

  \<^item> \<open>DataFlowNode\<close>, \<open>DataFlowGraphs\<close>: the data flow graph made of a rational graph and its connected
    components (\<open>data_flow_graph_creator.cpp\<close>, \<open>connected_data_flow_graph_finder.cpp\<close>).

  \<^item> \<open>TransferLimits\<close>, \<open>TransferLimitsProps\<close>, \<open>PhaseLimits\<close>, \<open>LimitsComposed\<close>: iterations, tiles to send, divisors and the
    most tiles of a phase (\<open>transfer_limits_calculator*.cpp\<close>). Tiles, paths and divisors are
    interpretations of \<open>node_values\<close>; the visits in topological order set each node after the one it
    depends on. \<open>LimitsComposed\<close> puts the six calculations together.

  \<^item> \<open>Transfers\<close>, \<open>TransfersProps\<close>: the phases of all nodes (\<open>transfers_calculator*.cpp\<close>): what a root
    sends, what a node passes on, the end of the mutual recursion.

  \<^item> \<open>LeafGroups\<close>, \<open>DataFlowCalculator\<close>, \<open>PcieFlow\<close>: the groups of leaves with the same phases, the
    composition of the calculations into a \<open>DataFlowInfo\<close>, and the buffer sizes of PCIe transfers.

  \<^item> \<open>NetlistProgram\<close>, \<open>NetlistProgramProps\<close>, \<open>NetlistStructured\<close>, \<open>NetlistInvariants\<close>: the interpreter
    of netlist programs (\<open>netlist_program.cpp\<close>) as a step function; a refinement of structured programs
    to it, the reachable states (\<open>reaches\<close>) with the invariant of the loop stack, and the static check
    of constants.

  \<^item> \<open>QueuePtr\<close>, \<open>SizeLib\<close>: the pointers of queues (\<open>tt_queue_ptr.cpp\<close>), an interpretation of
    \<open>simulation\<close> by counters, and the sizes of tiles and buffers (\<open>size_lib.cpp\<close>).

  \<^item> \<open>RouterResources\<close>, \<open>RouterCore\<close>, \<open>RouterProps\<close>, \<open>RouterPipes\<close>: the books net2pipe keeps of the
    resources of a core (\<open>core_resource_tracker.cpp\<close>): the admission check against the assertions of
    adding a buffer, and the ledger of extra streams (two interpretations of \<open>invariant_ops\<close>).

  \<^item> \<open>HexText\<close>, \<open>HexMemory\<close>, \<open>HexRoundTrip\<close>: the hex files of the loader (\<open>src/loader/tt_hexfile.cpp\<close>) and
    the memory images read from them (\<open>tt_memory.cpp\<close>); an image written is read back.

  \<^item> \<open>BlobSection\<close>: the sections of an overlay blob of blobgen2 (\<open>overlay_blob/blob_section.cpp\<close>) and the
    file they are written to, which the reader of \<open>HexMemory\<close> loads. \<open>EpochStructs\<close>, \<open>EpochLayout\<close>: the
    structures of an epoch (\<open>firmware/riscv/common/epoch.h\<close>), with the layout a compiler gives a
    declaration, and the functions that append them member by member.

  \<^item> \<open>StreamConfigs\<close>, \<open>DramConfigs\<close>: the configuration of a phase and of a DRAM buffer with the helpers that
    read them (\<open>blobgen2/lib/src/helpers\<close>). \<open>PhaseBlobs\<close>, \<open>StreamInfos\<close>: the register writes of a phase
    (\<open>phase_blob_filler.cpp\<close>, Wormhole) and the offsets and headers that chain the phases of a stream
    (\<open>stream_info_builder.cpp\<close>). \<open>EpochBuilder\<close>, \<open>EpochTBuilder\<close>: the allocator of the structures and the
    two passes that fill them (\<open>epoch_t_builder.cpp\<close>). \<open>BlobFiller\<close>: the sections of a blob, found by
    following the pointers (\<open>blob_filler.cpp\<close>), and the composition (\<open>blobgen2.cpp\<close>).

  \<^item> \<open>EpochBlocks\<close>, \<open>EpochPlan\<close>, \<open>EpochFirstPass\<close>, \<open>EpochStreams\<close>, \<open>EpochSecondPass\<close>, \<open>EpochSection\<close>,
    \<open>EpochSample\<close>, \<open>EpochImage\<close>: the contract between builder and filler. An allocator is a list of blocks in
    the order of their addresses; the passes keep the links between the blocks, and following the links
    writes the blocks in that order, so the section is a memory image of the structures.

  \<^bold>\<open>How the parts meet.\<close> The stream ids of \<open>OperandStreams\<close> are what the cores of \<open>CoreResources\<close> claim;
  \<open>ResourceManager\<close> routes every allocation to a core and \<open>L1Layout\<close> is a member of it;
  the graph of \<open>PipeGraphCreator\<close> is what \<open>PGSubgraphs\<close> splits for the creation of rational graphs;
  \<open>GatherOptimization\<close> asks the manager for the limit of a core and changes a rational graph, from
  which \<open>DataFlowGraphs\<close> makes the graph whose limits bound the phases of \<open>Transfers\<close>; what
  \<open>ScatterCompressor\<close> writes \<open>ScatterReader\<close> reads; what \<open>BlobSection\<close> prints \<open>HexMemory\<close> reads;
  the structures \<open>EpochTBuilder\<close> allocates are written by \<open>BlobFiller\<close> into the sections of \<open>BlobSection\<close> with the
  members of \<open>EpochStructs\<close>.

  \<^bold>\<open>Bounds.\<close> Properties that fail at the edge of the machine width state the bound: products and sums
  of limits below \<open>2 ^ 32\<close>, phases below \<open>2 ^ 31\<close> tiles, L1 demands and the structures of an epoch
  below the end of the address space. Properties with a side condition on the input say so in their text, and where
  the code goes wrong without it a lemma shows it by a run: an L1 check that wraps (\<open>l1_check_wraps\<close>), a Wormhole
  stream handed out twice when gather and packer-multicast streams are mixed (\<open>wh_gather_repeats_packer_multicast\<close>),
  a buffer with two kinds of streams that is admitted and fails an assertion (\<open>admitted_buffer_asserts\<close>), a
  constant changed though checked (\<open>constant_modified_though_checked\<close>), a receiving phase above the limit
  (\<open>oversized_receiving_phase\<close>). Phases of an earlier visit sent again and a root whose phases have no tiles are
  properties of their own.

  \<^bold>\<open>Not modelled.\<close> In pipegen2 the making of a rational graph from a subgraph, stream graphs and streams, its
  parser and its output; in net2pipe the netlist-to-pipe translation, tile maps and the routing passes;
  the parser of netlists; in blobgen2 its YAML input, its file output and the registers of Grayskull and Blackhole;
  the loader and the run time beyond their hex files, which are device I/O and threads; the
  golden and tensor models, which are floating point; kernels and the other firmware; debug output and
  tools. Next are the stride offsets of DRAM output nodes, the helpers of \<open>src/common\<close> that hold state,
  the multichip algorithms of the router, the tile maps, and properties of the composed data flow
  calculation.
\<close>

end
